(* ===== verification/Prelude.thy ===== *)
theory Prelude
  imports Main "HOL-Library.Word" "HOL-Library.Monad_Syntax"
begin

unbundle bit_operations_syntax

text \<open>
  The vocabulary the component theories share.

  \<^item> C scalar types. Unsigned integers are words (\<open>u32\<close>, \<open>u64\<close>). Signed integers are
    \<open>int\<close>; where the source can leave the range of its type, the model either normalises
    with \<open>s32\<close>/\<open>s64\<close> (two's complement wrap-around) or, where the overflow is undefined
    behaviour that a theorem talks about, stops with \<open>None\<close> through \<open>chk32\<close>.
  \<^item> Pointers. An address is a natural number and a pointer is an optional address: \<open>None\<close>
    is \<open>NULL\<close>. Memory that a component owns is a total map from addresses to records.
  \<^item> Partiality. A result \<open>None\<close> of a model function of type \<open>_ option\<close> stands for a
    behaviour outside the C standard (a NULL dereference, a signed overflow) or for a
    failed \<open>vcos_demand\<close>; error codes that the code returns are ordinary values.
  \<^item> The collections \<open>heap_simps\<close> (reads after writes) and \<open>c_defs\<close> (definitions that
    component proofs unfold together).
\<close>

named_theorems heap_simps \<open>reads of component memory after writes\<close>
named_theorems c_defs \<open>definitions of C-level operations\<close>
named_theorems range_simps \<open>signed normalisation of values in range\<close>

type_synonym u8 = "8 word"
type_synonym u32 = "32 word"
type_synonym u64 = "64 word"
type_synonym addr = nat
type_synonym ptr = "addr option"

text \<open>What a call that may wait on a semaphore does.\<close>

datatype 'a waited = Blocked | Woke 'a

subsection \<open>Signed integers\<close>

abbreviation int32_min :: int where "int32_min \<equiv> - (2 ^ 31)"
abbreviation int32_max :: int where "int32_max \<equiv> 2 ^ 31 - 1"
abbreviation int64_min :: int where "int64_min \<equiv> - (2 ^ 63)"
abbreviation int64_max :: int where "int64_max \<equiv> 2 ^ 63 - 1"

definition in32 :: "int \<Rightarrow> bool" where
  "in32 x \<longleftrightarrow> int32_min \<le> x \<and> x \<le> int32_max"

definition in64 :: "int \<Rightarrow> bool" where
  "in64 x \<longleftrightarrow> int64_min \<le> x \<and> x \<le> int64_max"

definition chk32 :: "int \<Rightarrow> int option" where
  "chk32 x = (if in32 x then Some x else None)"

definition s32 :: "int \<Rightarrow> int" where
  "s32 x = (x + 2 ^ 31) mod 2 ^ 32 - 2 ^ 31"

definition s64 :: "int \<Rightarrow> int" where
  "s64 x = (x + 2 ^ 63) mod 2 ^ 64 - 2 ^ 63"

lemma chk32_Some_iff [simp]: "chk32 x = Some y \<longleftrightarrow> in32 x \<and> y = x"
  by (auto simp: chk32_def)

lemma chk32_None_iff [simp]: "chk32 x = None \<longleftrightarrow> \<not> in32 x"
  by (simp add: chk32_def)

lemma chk32_in [simp]: "in32 x \<Longrightarrow> chk32 x = Some x"
  by simp

lemma s32_in [range_simps]: "in32 x \<Longrightarrow> s32 x = x"
  by (simp add: s32_def in32_def)

lemma s64_in [range_simps]: "in64 x \<Longrightarrow> s64 x = x"
  by (simp add: s64_def in64_def)

lemma in32_s32 [simp]: "in32 (s32 x)"
proof -
  have "0 \<le> (x + 2 ^ 31) mod 2 ^ 32" and "(x + 2 ^ 31) mod 2 ^ 32 < 2 ^ 32"
    by simp_all
  then show ?thesis by (simp add: in32_def s32_def)
qed

lemma in64_s64 [simp]: "in64 (s64 x)"
proof -
  have "0 \<le> (x + 2 ^ 63) mod 2 ^ 64" and "(x + 2 ^ 63) mod 2 ^ 64 < 2 ^ 64"
    by simp_all
  then show ?thesis by (simp add: in64_def s64_def)
qed

lemma in64I: "\<bar>x\<bar> < 2 ^ 63 \<Longrightarrow> in64 x"
  by (simp add: in64_def abs_less_iff)

lemma in32_in64: "in32 x \<Longrightarrow> in64 x"
  by (simp add: in32_def in64_def)

text \<open>C division and remainder truncate towards zero.\<close>

definition cdiv :: "int \<Rightarrow> int \<Rightarrow> int" where
  "cdiv a b = sgn a * sgn b * (\<bar>a\<bar> div \<bar>b\<bar>)"

lemma cdiv_exact: "b dvd a \<Longrightarrow> cdiv a b = a div b"
proof (cases "b = 0")
  case False
  assume "b dvd a"
  then obtain k where a: "a = b * k" by (rule dvdE)
  have "cdiv a b = (sgn b * sgn b) * (sgn k * \<bar>k\<bar>)"
    using False by (simp add: cdiv_def a abs_mult sgn_mult)
  also have "\<dots> = k"
    using False by (simp add: sgn_mult_abs flip: sgn_mult)
  finally show ?thesis using False by (simp add: a)
qed (simp add: cdiv_def)

lemma cdiv_one [simp]: "cdiv a 1 = a"
  by (simp add: cdiv_def sgn_if abs_if)

lemma cdiv_zero_left [simp]: "cdiv 0 b = 0"
  by (simp add: cdiv_def)

lemma cdiv_bound: "\<bar>cdiv a b\<bar> \<le> \<bar>a\<bar>"
proof -
  have "\<bar>a\<bar> div \<bar>b\<bar> \<le> \<bar>a\<bar>"
    using div_le_dividend [of "nat \<bar>a\<bar>" "nat \<bar>b\<bar>"]
    by (simp add: nat_div_distrib [symmetric])
  moreover have "0 \<le> \<bar>a\<bar> div \<bar>b\<bar>"
    by (simp add: div_int_pos_iff)
  ultimately show ?thesis by (auto simp: cdiv_def sgn_if)
qed

subsection \<open>Machine words\<close>

lemma unat_inc: "unat (n :: u32) < 2 ^ 32 - 1 \<Longrightarrow> unat (n + 1) = unat n + 1"
  by (simp add: unat_word_ariths)

lemma unat_dec: "n \<noteq> (0 :: u32) \<Longrightarrow> unat (n - 1) = unat n - 1"
  by (metis unat_minus_one)

lemma unat_of_nat_small: "n < 2 ^ 32 \<Longrightarrow> unat (of_nat n :: u32) = n"
  by (simp add: unat_of_nat)

lemma word_neq_zero_unat: "(n :: u32) \<noteq> 0 \<longleftrightarrow> 0 < unat n"
  by (simp add: unat_gt_0)

text \<open>Clearing the low bits rounds down to a multiple of a power of two.\<close>

lemma and_not_mask_eq: "(s :: u32) AND NOT (mask n) = push_bit n (drop_bit n s)"
  by (rule bit_word_eqI) (auto simp: bit_simps)

lemma unat_and_not_mask: "unat ((s :: u32) AND NOT (mask n)) = unat s div 2 ^ n * 2 ^ n"
proof -
  have "unat s div 2 ^ n * 2 ^ n \<le> unat s" by simp
  also have "\<dots> < 2 ^ 32" using unsigned_less [of s] by simp
  finally have "unat s div 2 ^ n * 2 ^ n < 2 ^ 32" .
  then show ?thesis
    unfolding and_not_mask_eq unsigned_push_bit_eq unat_drop_bit_eq
    by (simp add: push_bit_eq_mult drop_bit_eq_div take_bit_nat_eq_self)
qed

subsection \<open>Singly linked chains in memory\<close>

text \<open>
  \<open>chain nx p as q\<close>: starting from pointer \<open>p\<close> and following the link field \<open>nx\<close>, one
  meets exactly the cells \<open>as\<close> and then pointer \<open>q\<close>.
\<close>

fun chain :: "(addr \<Rightarrow> ptr) \<Rightarrow> ptr \<Rightarrow> addr list \<Rightarrow> ptr \<Rightarrow> bool" where
  "chain nx p [] q \<longleftrightarrow> p = q"
| "chain nx p (a # as) q \<longleftrightarrow> p = Some a \<and> chain nx (nx a) as q"

lemma chain_append:
  "chain nx p (as @ bs) q \<longleftrightarrow> (\<exists>m. chain nx p as m \<and> chain nx m bs q)"
  by (induction as arbitrary: p) auto

lemma chain_frame [heap_simps]:
  "a \<notin> set as \<Longrightarrow> chain (nx(a := v)) p as q \<longleftrightarrow> chain nx p as q"
  by (induction as arbitrary: p) auto

lemma chain_cong:
  "(\<And>a. a \<in> set as \<Longrightarrow> nx a = nx' a) \<Longrightarrow> chain nx p as q \<longleftrightarrow> chain nx' p as q"
  by (induction as arbitrary: p) auto

lemma chain_NoneD: "chain nx None as q \<Longrightarrow> as = [] \<and> q = None"
  by (cases as) auto

lemma chain_unique: "chain nx p as None \<Longrightarrow> chain nx p bs None \<Longrightarrow> as = bs"
proof (induction as arbitrary: p bs)
  case Nil
  then show ?case by (cases bs) auto
next
  case (Cons a as)
  then show ?case by (cases bs) auto
qed

lemma chain_snoc:
  "chain nx p (as @ [a]) q \<longleftrightarrow> chain nx p as (Some a) \<and> nx a = q"
  by (auto simp: chain_append)

subsection \<open>Arrays in memory\<close>

text \<open>The addresses of \<open>n\<close> objects that lie \<open>step\<close> bytes apart.\<close>

definition addr_seq :: "addr \<Rightarrow> nat \<Rightarrow> nat \<Rightarrow> addr list" where
  "addr_seq a step n = map (\<lambda>j. a + j * step) [0..<n]"

lemma addr_seq_mem: "b \<in> set (addr_seq a step n) \<longleftrightarrow> (\<exists>k<n. b = a + k * step)"
  by (auto simp: addr_seq_def)

lemma addr_seq_Suc: "addr_seq a step (Suc n) = a # addr_seq (a + step) step n"
  by (simp add: addr_seq_def upt_conv_Cons map_Suc_upt [symmetric] comp_def algebra_simps
      del: upt_Suc)

lemma addr_seq_distinct: "step > 0 \<Longrightarrow> distinct (addr_seq a step n)"
  by (auto simp: addr_seq_def distinct_map inj_on_def)

lemma addr_seq_not_in: "step > 0 \<Longrightarrow> a \<notin> set (addr_seq (a + step) step n)"
  by (auto simp: addr_seq_def)

end
