(* ===== verification/Types.thy ===== *)
theory Types
  imports Prelude
begin

text \<open>
  The status codes of the two libraries (\<open>MMAL_STATUS_T\<close> of mmal/mmal_types.h and
  \<open>VCOS_STATUS_T\<close> of vcos/vcos_types.h), the rational numbers and the unknown-time
  constant of mmal/mmal_types.h. Enumerations are datatypes with the source's constructors;
  the integer codes the C compiler assigns are \<open>mmal_status_code\<close> and \<open>vcos_status_code\<close>.
\<close>

datatype mmal_status =
    MMAL_SUCCESS | MMAL_ENOMEM | MMAL_ENOSPC | MMAL_EINVAL | MMAL_ENOSYS | MMAL_ENOENT
  | MMAL_ENXIO | MMAL_EIO | MMAL_ESPIPE | MMAL_ECORRUPT | MMAL_ENOTREADY | MMAL_ECONFIG
  | MMAL_EISCONN | MMAL_ENOTCONN | MMAL_EAGAIN | MMAL_EFAULT | MMAL_STATUS_MAX

fun mmal_status_code :: "mmal_status \<Rightarrow> int" where
  "mmal_status_code MMAL_SUCCESS = 0"
| "mmal_status_code MMAL_ENOMEM = 1"
| "mmal_status_code MMAL_ENOSPC = 2"
| "mmal_status_code MMAL_EINVAL = 3"
| "mmal_status_code MMAL_ENOSYS = 4"
| "mmal_status_code MMAL_ENOENT = 5"
| "mmal_status_code MMAL_ENXIO = 6"
| "mmal_status_code MMAL_EIO = 7"
| "mmal_status_code MMAL_ESPIPE = 8"
| "mmal_status_code MMAL_ECORRUPT = 9"
| "mmal_status_code MMAL_ENOTREADY = 10"
| "mmal_status_code MMAL_ECONFIG = 11"
| "mmal_status_code MMAL_EISCONN = 12"
| "mmal_status_code MMAL_ENOTCONN = 13"
| "mmal_status_code MMAL_EAGAIN = 14"
| "mmal_status_code MMAL_EFAULT = 15"
| "mmal_status_code MMAL_STATUS_MAX = 0x7FFFFFFF"

datatype vcos_status =
    VCOS_SUCCESS | VCOS_EAGAIN | VCOS_ENOENT | VCOS_ENOSPC | VCOS_EINVAL | VCOS_EACCESS
  | VCOS_ENOMEM | VCOS_ENOSYS | VCOS_EEXIST | VCOS_ENXIO | VCOS_EINTR

fun vcos_status_code :: "vcos_status \<Rightarrow> int" where
  "vcos_status_code VCOS_SUCCESS = 0"
| "vcos_status_code VCOS_EAGAIN = 1"
| "vcos_status_code VCOS_ENOENT = 2"
| "vcos_status_code VCOS_ENOSPC = 3"
| "vcos_status_code VCOS_EINVAL = 4"
| "vcos_status_code VCOS_EACCESS = 5"
| "vcos_status_code VCOS_ENOMEM = 6"
| "vcos_status_code VCOS_ENOSYS = 7"
| "vcos_status_code VCOS_EEXIST = 8"
| "vcos_status_code VCOS_ENXIO = 9"
| "vcos_status_code VCOS_EINTR = 10"

record mmal_rect =
  rect_x :: int
  rect_y :: int
  rect_width :: int
  rect_height :: int

record mmal_rational =
  num :: int
  den :: int

text \<open>\<open>INT64_C(1) << 63\<close>, which every compiler the code is built with reads as the least
  64-bit integer.\<close>

definition MMAL_TIME_UNKNOWN :: int where
  "MMAL_TIME_UNKNOWN = - (2 ^ 63)"

end
