(* ===== verification/Buffer.thy ===== *)
theory Buffer
  imports Types
begin

text \<open>
  mmal_buffer.h, core/mmal_buffer_private.h and core/mmal_buffer.c: buffer headers. A header's
  public structure, its private area (\<open>header->priv\<close>, at a fixed offset behind it) and its
  type-specific area are one record; \<open>bheap\<close> is the memory of headers. Function pointers are
  numbers (\<open>None\<close> is NULL) that the record \<open>callbacks\<close> resolves: what a callback does to
  the headers and to its own context (\<open>ctx\<close>: pools, clients) is a parameter of the model.
\<close>

record mmal_video_specific =
  vs_planes :: u32
  vs_offset :: "u32 list"
  vs_pitch :: "u32 list"
  vs_flags :: u32

record mmal_buffer_header =
  bh_next :: ptr
  bh_cmd :: u32
  bh_data :: ptr
  bh_alloc_size :: u32
  bh_length :: u32
  bh_offset :: u32
  bh_flags :: u32
  bh_pts :: int
  bh_dts :: int
  bh_type :: mmal_video_specific
  bh_user_data :: ptr
  pf_pre_release :: "nat option"
  pre_release_userdata :: ptr
  pf_release :: "nat option"
  owner :: ptr
  refcount :: int
  reference :: ptr
  pf_payload_free :: "nat option"
  payload :: ptr
  payload_context :: ptr
  payload_size :: u32
  component_data :: ptr
  payload_handle :: ptr
  driver_area :: "u8 list"

type_synonym bheap = "addr \<Rightarrow> mmal_buffer_header"

record 'c mem =
  bufs :: bheap
  ctx :: 'c

text \<open>What the function pointers stored in headers do: the release callback, and the pre-release
  callback, which gets the user data and returns whether the release is to be delayed.\<close>

record 'c callbacks =
  call_release :: "nat \<Rightarrow> addr \<Rightarrow> 'c mem \<Rightarrow> 'c mem option"
  call_pre_release :: "nat \<Rightarrow> addr \<Rightarrow> ptr \<Rightarrow> 'c mem \<Rightarrow> (bool \<times> 'c mem) option"

definition upd_buf ::
    "addr \<Rightarrow> (mmal_buffer_header \<Rightarrow> mmal_buffer_header) \<Rightarrow> 'c mem \<Rightarrow> 'c mem" where
  "upd_buf a f m = m\<lparr>bufs := (bufs m)(a := f (bufs m a))\<rparr>"

lemma bufs_upd_buf [simp]: "bufs (upd_buf a f m) = (bufs m)(a := f (bufs m a))"
  by (simp add: upd_buf_def)

lemma ctx_upd_buf [simp]: "ctx (upd_buf a f m) = ctx m"
  by (simp add: upd_buf_def)

subsection \<open>Flags\<close>

definition MMAL_BUFFER_HEADER_FLAG_EOS :: u32 where "MMAL_BUFFER_HEADER_FLAG_EOS = push_bit 0 1"
definition MMAL_BUFFER_HEADER_FLAG_FRAME_START :: u32 where
  "MMAL_BUFFER_HEADER_FLAG_FRAME_START = push_bit 1 1"
definition MMAL_BUFFER_HEADER_FLAG_FRAME_END :: u32 where
  "MMAL_BUFFER_HEADER_FLAG_FRAME_END = push_bit 2 1"
definition MMAL_BUFFER_HEADER_FLAG_FRAME :: u32 where
  "MMAL_BUFFER_HEADER_FLAG_FRAME =
     MMAL_BUFFER_HEADER_FLAG_FRAME_START OR MMAL_BUFFER_HEADER_FLAG_FRAME_END"

subsection \<open>Operations\<close>

definition mmal_buffer_header_acquire :: "addr \<Rightarrow> 'c mem \<Rightarrow> 'c mem" where
  "mmal_buffer_header_acquire a = upd_buf a (\<lambda>b. b\<lparr>refcount := s32 (refcount b + 1)\<rparr>)"

definition reset_fields :: "mmal_buffer_header \<Rightarrow> mmal_buffer_header" where
  "reset_fields b = b\<lparr>bh_length := 0, bh_offset := 0, bh_flags := 0,
     bh_pts := MMAL_TIME_UNKNOWN, bh_dts := MMAL_TIME_UNKNOWN\<rparr>"

definition mmal_buffer_header_reset :: "addr \<Rightarrow> 'c mem \<Rightarrow> 'c mem" where
  "mmal_buffer_header_reset a = upd_buf a reset_fields"

text \<open>
  Releasing: drop a reference, ask the pre-release callback, and then finish with
  \<open>mmal_buffer_header_release_continue\<close>, which releases the referenced header in turn. The
  two functions call each other; the first is stated with the second unfolded in it and the
  second is defined after it (\<open>release_unfold\<close> restores the shape of the source). A cyclic
  chain of references makes the recursion endless, and a NULL \<open>pf_release\<close> crashes: both are
  \<open>None\<close>.
\<close>

partial_function (option) mmal_buffer_header_release ::
    "'c callbacks \<Rightarrow> addr \<Rightarrow> 'c mem \<Rightarrow> 'c mem option" where
  "mmal_buffer_header_release cb a m =
     (let m = upd_buf a (\<lambda>b. b\<lparr>refcount := s32 (refcount b - 1)\<rparr>) m in
      if refcount (bufs m a) \<noteq> 0 then Some m
      else
        Option.bind (case pf_pre_release (bufs m a) of
                   None \<Rightarrow> Some (False, m)
                 | Some f \<Rightarrow> call_pre_release cb f a (pre_release_userdata (bufs m a)) m)
         (\<lambda>r. let m = snd r in
          if fst r then Some m
          else
            let m = mmal_buffer_header_reset a m in
            Option.bind
              (if reference (bufs m a) = None then Some m
               else mmal_buffer_header_release cb (the (reference (bufs m a))) m)
              (\<lambda>m. let m = upd_buf a (\<lambda>b. b\<lparr>reference := None\<rparr>) m in
                   Option.bind (pf_release (bufs m a)) (\<lambda>f. call_release cb f a m))))"

definition mmal_buffer_header_release_continue ::
    "'c callbacks \<Rightarrow> addr \<Rightarrow> 'c mem \<Rightarrow> 'c mem option" where
  "mmal_buffer_header_release_continue cb a m = do {
     let m = mmal_buffer_header_reset a m;
     m \<leftarrow> (case reference (bufs m a) of
              None \<Rightarrow> Some m
            | Some r \<Rightarrow> mmal_buffer_header_release cb r m);
     let m = upd_buf a (\<lambda>b. b\<lparr>reference := None\<rparr>) m;
     f \<leftarrow> pf_release (bufs m a);
     call_release cb f a m
   }"

lemma release_unfold:
  "mmal_buffer_header_release cb a m =
     (let m = upd_buf a (\<lambda>b. b\<lparr>refcount := s32 (refcount b - 1)\<rparr>) m in
      if refcount (bufs m a) \<noteq> 0 then Some m
      else
        do {
          (delay, m) \<leftarrow> (case pf_pre_release (bufs m a) of
                   None \<Rightarrow> Some (False, m)
                 | Some f \<Rightarrow> call_pre_release cb f a (pre_release_userdata (bufs m a)) m);
          if delay then Some m else mmal_buffer_header_release_continue cb a m
        })"
  by (subst mmal_buffer_header_release.simps)
    (auto simp: mmal_buffer_header_release_continue_def Let_def split_def map_option_case
      split: option.split bind_split)

definition mmal_buffer_header_replicate ::
    "ptr \<Rightarrow> ptr \<Rightarrow> 'c mem \<Rightarrow> mmal_status \<times> 'c mem" where
  "mmal_buffer_header_replicate dest src m =
     (case (dest, src) of
        (Some d, Some s) \<Rightarrow>
          if reference (bufs m d) \<noteq> None then (MMAL_EINVAL, m)
          else
            let m = mmal_buffer_header_acquire s m;
                m = upd_buf d (\<lambda>b. b\<lparr>reference := Some s\<rparr>) m;
                s' = bufs m s;
                m = upd_buf d (\<lambda>b. b\<lparr>bh_cmd := bh_cmd s', bh_alloc_size := bh_alloc_size s',
                      bh_data := bh_data s', bh_offset := bh_offset s', bh_length := bh_length s',
                      bh_flags := bh_flags s', bh_pts := bh_pts s', bh_dts := bh_dts s',
                      bh_type := bh_type s'\<rparr>) m
            in (MMAL_SUCCESS, m)
      | _ \<Rightarrow> (MMAL_EINVAL, m))"

text \<open>\<open>ROUND_UP(s, align)\<close> of mmal_buffer.c and mmal_pool.c, on the 32-bit \<open>unsigned long\<close> of
  the target. It clears the low bits and adds a full \<open>align\<close>.\<close>

definition ROUND_UP :: "u32 \<Rightarrow> u32 \<Rightarrow> u32" where
  "ROUND_UP s align = (s AND NOT (align - 1)) + align"

text \<open>The sizes of the three structures depend on the compiler: they are parameters.\<close>

record abi =
  sizeof_header :: u32
  sizeof_type :: u32
  sizeof_priv :: u32
  sizeof_ptr :: u32

definition mmal_buffer_header_size :: "abi \<Rightarrow> u32" where
  "mmal_buffer_header_size abi =
     (let header_size = ROUND_UP (sizeof_header abi) 8;
          header_size = header_size + ROUND_UP (sizeof_type abi) 8;
          header_size = header_size + ROUND_UP 256 8;
          header_size = header_size + ROUND_UP (sizeof_priv abi) 8
      in header_size)"

definition zero_header :: mmal_buffer_header where
  "zero_header = \<lparr>bh_next = None, bh_cmd = 0, bh_data = None, bh_alloc_size = 0, bh_length = 0,
     bh_offset = 0, bh_flags = 0, bh_pts = 0, bh_dts = 0,
     bh_type = \<lparr>vs_planes = 0, vs_offset = [0, 0, 0, 0], vs_pitch = [0, 0, 0, 0], vs_flags = 0\<rparr>,
     bh_user_data = None, pf_pre_release = None, pre_release_userdata = None, pf_release = None,
     owner = None, refcount = 0, reference = None, pf_payload_free = None, payload = None,
     payload_context = None, payload_size = 0, component_data = None, payload_handle = None,
     driver_area = replicate 32 0\<rparr>"

definition mmal_buffer_header_initialise ::
    "abi \<Rightarrow> addr \<Rightarrow> u32 \<Rightarrow> bheap \<Rightarrow> (addr \<times> bheap) option" where
  "mmal_buffer_header_initialise abi mem len h =
     (if len < mmal_buffer_header_size abi then None
      else Some (mem, h(mem := zero_header)))"

definition mmal_buffer_header_driver_data :: "addr \<Rightarrow> 'c mem \<Rightarrow> u8 list" where
  "mmal_buffer_header_driver_data a m = driver_area (bufs m a)"

definition mmal_buffer_header_reference :: "addr \<Rightarrow> 'c mem \<Rightarrow> ptr" where
  "mmal_buffer_header_reference a m = reference (bufs m a)"

text \<open>Outside VideoCore the two locking functions do nothing.\<close>

definition mmal_buffer_header_mem_lock :: "addr \<Rightarrow> 'c mem \<Rightarrow> mmal_status \<times> 'c mem" where
  "mmal_buffer_header_mem_lock a m = (MMAL_SUCCESS, m)"

definition mmal_buffer_header_mem_unlock :: "addr \<Rightarrow> 'c mem \<Rightarrow> 'c mem" where
  "mmal_buffer_header_mem_unlock a m = m"

definition mmal_buffer_header_pre_release_cb_set ::
    "addr \<Rightarrow> nat option \<Rightarrow> ptr \<Rightarrow> bheap \<Rightarrow> bheap" where
  "mmal_buffer_header_pre_release_cb_set a cb userdata h =
     h(a := (h a)\<lparr>pf_pre_release := cb, pre_release_userdata := userdata\<rparr>)"

subsection \<open>Rounding\<close>

lemma unat_ROUND_UP:
  assumes "unat s + 8 < 2 ^ 32"
  shows "unat (ROUND_UP s 8) = unat s div 8 * 8 + 8"
proof -
  have "ROUND_UP s 8 = (s AND NOT (mask 3)) + 8"
    by (simp add: ROUND_UP_def mask_eq_exp_minus_1)
  moreover have "unat (s AND NOT (mask 3)) = unat s div 8 * 8"
    using unat_and_not_mask [of s 3] by simp
  moreover have "unat s div 8 * 8 \<le> unat s" by simp
  ultimately show ?thesis
    using assms by (simp add: unat_word_ariths)
qed

text \<open>The macro yields a multiple of eight strictly above its argument.\<close>

lemma ROUND_UP_bounds:
  assumes "unat s + 8 < 2 ^ 32"
  shows "8 dvd unat (ROUND_UP s 8)" "unat s < unat (ROUND_UP s 8)"
    "unat (ROUND_UP s 8) \<le> unat s + 8"
proof -
  have "unat s = unat s div 8 * 8 + unat s mod 8" by simp
  moreover have "unat s mod 8 < 8" by simp
  ultimately show "unat s < unat (ROUND_UP s 8)" "unat (ROUND_UP s 8) \<le> unat s + 8"
    "8 dvd unat (ROUND_UP s 8)"
    unfolding unat_ROUND_UP [OF assms] by (linarith, linarith, simp)
qed

subsection \<open>Reference counting\<close>

lemma release_not_last:
  "refcount (bufs m a) \<noteq> 1 \<Longrightarrow> in32 (refcount (bufs m a) - 1) \<Longrightarrow>
   mmal_buffer_header_release cb a m =
     Some (upd_buf a (\<lambda>b. b\<lparr>refcount := refcount b - 1\<rparr>) m)"
  by (subst release_unfold) (simp add: Let_def upd_buf_def range_simps)

lemma release_last:
  assumes "refcount (bufs m a) = 1" and "pf_pre_release (bufs m a) = None"
  shows "mmal_buffer_header_release cb a m =
    mmal_buffer_header_release_continue cb a (upd_buf a (\<lambda>b. b\<lparr>refcount := 0\<rparr>) m)"
  using assms by (subst release_unfold) (simp add: Let_def upd_buf_def s32_def)

lemma upd_buf_twice [simp]: "upd_buf a f (upd_buf a g m) = upd_buf a (\<lambda>b. f (g b)) m"
  by (simp add: upd_buf_def)

lemma upd_buf_same: "f (bufs m a) = bufs m a \<Longrightarrow> upd_buf a f m = m"
  by (simp add: upd_buf_def)

lemma acquire_release:
  assumes "0 < refcount (bufs m a)" and "refcount (bufs m a) < int32_max"
  shows "mmal_buffer_header_release cb a (mmal_buffer_header_acquire a m) = Some m"
  using assms
  by (subst release_not_last)
    (simp_all add: mmal_buffer_header_acquire_def range_simps in32_def upd_buf_same)

lemma release_continue_no_reference:
  assumes "reference (bufs m a) = None" and "pf_release (bufs m a) = Some f"
  shows "mmal_buffer_header_release_continue cb a m =
    call_release cb f a (upd_buf a (\<lambda>b. reset_fields b\<lparr>reference := None\<rparr>) m)"
  using assms
  by (simp add: mmal_buffer_header_release_continue_def mmal_buffer_header_reset_def reset_fields_def)

lemma release_continue_reference:
  assumes "reference (bufs m a) = Some r" and "a \<noteq> r" and "refcount (bufs m r) \<noteq> 1"
    and "in32 (refcount (bufs m r) - 1)" and "pf_release (bufs m a) = Some f"
  shows "mmal_buffer_header_release_continue cb a m = call_release cb f a
    (upd_buf a (\<lambda>b. b\<lparr>reference := None\<rparr>)
      (upd_buf r (\<lambda>b. b\<lparr>refcount := refcount b - 1\<rparr>) (upd_buf a reset_fields m)))"
  using assms
  by (simp add: mmal_buffer_header_release_continue_def mmal_buffer_header_reset_def
      reset_fields_def release_not_last)


text \<open>Callbacks that leave the bookkeeping of other headers alone: what the framework expects of
  the code it calls back. A pool's release callback without a client callback behaves so.\<close>

definition keeps_refs :: "'c mem \<Rightarrow> 'c mem \<Rightarrow> bool" where
  "keeps_refs m m' \<longleftrightarrow> (\<forall>b. reference (bufs m' b) = reference (bufs m b)
     \<and> pf_release (bufs m' b) = pf_release (bufs m b))"

definition well_behaved :: "'c callbacks \<Rightarrow> bool" where
  "well_behaved cb \<longleftrightarrow> (\<forall>f a m. \<exists>m'. call_release cb f a m = Some m' \<and> keeps_refs m m')
     \<and> (\<forall>f a u m. \<exists>d m'. call_pre_release cb f a u m = Some (d, m') \<and> keeps_refs m m')"

lemma well_behaved_release:
  assumes "well_behaved cb"
  obtains m' where "call_release cb f a m = Some m'" and "keeps_refs m m'"
  using assms unfolding well_behaved_def by meson

lemma keeps_refs_trans: "keeps_refs m m' \<Longrightarrow> keeps_refs m' m'' \<Longrightarrow> keeps_refs m m''"
  by (simp add: keeps_refs_def)

lemma release_cases:
  assumes "well_behaved cb"
  obtains m' where "keeps_refs m m'" and "mmal_buffer_header_release cb a m = Some m'"
  | m' where "keeps_refs m m'"
      and "mmal_buffer_header_release cb a m = mmal_buffer_header_release_continue cb a m'"
proof -
  define m1 where "m1 = upd_buf a (\<lambda>b. b\<lparr>refcount := s32 (refcount b - 1)\<rparr>) m"
  have k1: "keeps_refs m m1" by (simp add: m1_def keeps_refs_def)
  have "\<exists>d m'. (case pf_pre_release (bufs m1 a) of None \<Rightarrow> Some (False, m1)
      | Some f \<Rightarrow> call_pre_release cb f a (pre_release_userdata (bufs m1 a)) m1) = Some (d, m')
      \<and> keeps_refs m1 m'"
    using assms by (auto simp: well_behaved_def keeps_refs_def split: option.split)
  then obtain d m' where r: "(case pf_pre_release (bufs m1 a) of None \<Rightarrow> Some (False, m1)
      | Some f \<Rightarrow> call_pre_release cb f a (pre_release_userdata (bufs m1 a)) m1) = Some (d, m')"
    and "keeps_refs m1 m'" by blast
  with k1 have k2: "keeps_refs m m'" by (blast intro: keeps_refs_trans)
  have "mmal_buffer_header_release cb a m =
      (if refcount (bufs m1 a) \<noteq> 0 then Some m1
       else if d then Some m' else mmal_buffer_header_release_continue cb a m')"
    unfolding release_unfold [of cb a m] Let_def m1_def [symmetric] r by simp
  with k1 k2 that show thesis by (metis (full_types))
qed

lemma release_chain:
  assumes "well_behaved cb" and "chain (reference \<circ> bufs m) (Some a) (a # as) None"
    and "distinct (a # as)" and "\<forall>x\<in>set (a # as). pf_release (bufs m x) \<noteq> None"
  shows "\<exists>m'. mmal_buffer_header_release cb a m = Some m'
    \<and> (\<forall>b. pf_release (bufs m' b) = pf_release (bufs m b))"
  using assms(2-)
proof (induction as arbitrary: a m)
  case Nil
  from assms(1) show ?case
  proof (cases rule: release_cases [of cb m a])
    case (1 m')
    then show ?thesis by (auto simp: keeps_refs_def)
  next
    case (2 m')
    then obtain f where "reference (bufs m' a) = None" and f: "pf_release (bufs m' a) = Some f"
      using Nil.prems by (auto simp: keeps_refs_def)
    note c = release_continue_no_reference [OF this, of cb]
    define m3 where "m3 = upd_buf a (\<lambda>b. reset_fields b\<lparr>reference := None\<rparr>) m'"
    obtain m4 where m4: "call_release cb f a m3 = Some m4" "keeps_refs m3 m4"
      using assms(1) by (rule well_behaved_release)
    have "pf_release (bufs m4 b) = pf_release (bufs m b)" for b
    proof -
      have "pf_release (bufs m4 b) = pf_release (bufs m3 b)"
        using m4(2) by (simp add: keeps_refs_def)
      also have "\<dots> = pf_release (bufs m' b)" by (simp add: m3_def reset_fields_def)
      also have "\<dots> = pf_release (bufs m b)" using 2 by (simp add: keeps_refs_def)
      finally show ?thesis .
    qed
    then show ?thesis using 2 c m4(1) by (simp add: m3_def)
  qed
next
  case (Cons r as)
  from assms(1) show ?case
  proof (cases rule: release_cases [of cb m a])
    case (1 m')
    then show ?thesis by (auto simp: keeps_refs_def)
  next
    case (2 m')
    define m2 where "m2 = mmal_buffer_header_reset a m'"
    have p2: "pf_release (bufs m2 b) = pf_release (bufs m b)"
      and r2: "reference (bufs m2 b) = reference (bufs m b)" for b
      using 2 by (auto simp: m2_def keeps_refs_def mmal_buffer_header_reset_def reset_fields_def)
    have "chain (reference \<circ> bufs m2) (Some r) (r # as) None"
      using Cons.prems(1) by (simp add: comp_def r2)
    then obtain m3 where m3: "mmal_buffer_header_release cb r m2 = Some m3"
        "\<And>b. pf_release (bufs m3 b) = pf_release (bufs m b)"
      using Cons.IH [of m2 r] Cons.prems(2,3) by (auto simp: p2 comp_def)
    obtain f where f: "pf_release (bufs m a) = Some f" using Cons.prems by auto
    define m4 where "m4 = upd_buf a (\<lambda>b. b\<lparr>reference := None\<rparr>) m3"
    have p4: "pf_release (bufs m4 b) = pf_release (bufs m b)" for b
      using m3(2) by (simp add: m4_def)
    have "reference (bufs m2 a) = Some r" using r2 Cons.prems by simp
    then have "mmal_buffer_header_release cb a m = call_release cb f a m4"
      using 2 m3 p4 f
      by (simp add: mmal_buffer_header_release_continue_def m2_def [symmetric] m4_def [symmetric])
    moreover obtain m5 where "call_release cb f a m4 = Some m5" "keeps_refs m4 m5"
      using assms(1) by (rule well_behaved_release)
    ultimately show ?thesis using p4 by (simp add: keeps_refs_def)
  qed
qed

text \<open>C35. Releasing a header ends, and runs into no missing release callback, whenever the chain of
  references that starts at the header is finite and without repetition, every header on it has a
  release callback, and the callbacks leave the references and release callbacks of headers
  alone.\<close>

theorem release_terminates:
  assumes "well_behaved cb" and "chain (reference \<circ> bufs m) (Some a) (a # as) None"
    and "distinct (a # as)" and "\<forall>x\<in>set (a # as). pf_release (bufs m x) \<noteq> None"
  shows "\<exists>m'. mmal_buffer_header_release cb a m = Some m'"
  using release_chain [OF assms] by blast

text \<open>A concrete memory: header 1 refers to header 2, which has no reference. The release callback
  records the header in the context.\<close>

definition demo_cb :: "addr list callbacks" where
  "demo_cb = \<lparr>call_release = (\<lambda>f a m. Some (m\<lparr>ctx := ctx m @ [a]\<rparr>)),
     call_pre_release = (\<lambda>f a u m. Some (False, m))\<rparr>"

definition demo_mem :: "addr list mem" where
  "demo_mem = \<lparr>bufs = (\<lambda>_. zero_header\<lparr>refcount := 1, pf_release := Some 0\<rparr>)
      (1 := zero_header\<lparr>refcount := 1, pf_release := Some 0, reference := Some 2\<rparr>),
    ctx = []\<rparr>"

theorem release_terminates_witness:
  "\<exists>m'. mmal_buffer_header_release demo_cb 1 demo_mem = Some m'"
  by (rule release_terminates [of _ _ _ "[2]"])
    (auto simp: well_behaved_def keeps_refs_def demo_cb_def demo_mem_def zero_header_def)

definition demo_mem2 :: "addr list mem" where
  "demo_mem2 = \<lparr>bufs = (\<lambda>_. zero_header\<lparr>refcount := 1, pf_release := Some 0, bh_length := 9\<rparr>),
    ctx = []\<rparr>"


end
