(* ===== verification/Queue.thy ===== *)
theory Queue
  imports Buffer
begin

text \<open>
  core/mmal_queue.c: the queue of buffer headers, linked through the headers' \<open>next\<close> fields,
  with a tail pointer to the last link and a counting semaphore for the waiters.

  The code between lock and unlock is one step. A get is two steps, because the semaphore is
  claimed before the lock is taken: \<open>claim\<close> (\<open>vcos_semaphore_trywait\<close>, \<open>_wait\<close> or
  \<open>_wait_timeout\<close> succeeding) and \<open>mmal_queue_get_core\<close>. The step relation \<open>queue_step\<close>
  interleaves any number of threads that put, put back, claim and take.
\<close>

subsection \<open>State\<close>

text \<open>What \<open>MMAL_BUFFER_HEADER_T **last\<close> can point at: the queue's \<open>first\<close> field or the \<open>next\<close>
  field of a header.\<close>

datatype qlink = AtFirst | AtNext addr

record mmal_queue =
  q_length :: u32
  q_first :: ptr
  q_last :: qlink
  q_sem :: nat

subsection \<open>Operations\<close>

fun sanity_loop :: "bheap \<Rightarrow> ptr \<Rightarrow> nat \<Rightarrow> ptr \<Rightarrow> bool" where
  "sanity_loop h buffer 0 q \<longleftrightarrow> q = None"
| "sanity_loop h buffer (Suc n) q \<longleftrightarrow>
     (case q of
        None \<Rightarrow> False
      | Some a \<Rightarrow> buffer \<noteq> Some a \<and> sanity_loop h buffer n (bh_next (h a)))"

text \<open>True when no assertion of \<open>mmal_queue_sanity_check\<close> fails.\<close>

definition mmal_queue_sanity_check :: "mmal_queue \<Rightarrow> bheap \<Rightarrow> ptr \<Rightarrow> bool" where
  "mmal_queue_sanity_check q h buffer = sanity_loop h buffer (unat (q_length q)) (q_first q)"

text \<open>The arguments say whether \<open>vcos_malloc\<close>, \<open>vcos_mutex_create\<close> and
  \<open>vcos_semaphore_create\<close> succeed.\<close>

definition mmal_queue_create :: "bool \<Rightarrow> bool \<Rightarrow> bool \<Rightarrow> mmal_queue option" where
  "mmal_queue_create malloc_ok mutex_ok sem_ok =
     (if \<not> malloc_ok then None
      else if \<not> mutex_ok then None
      else if \<not> sem_ok then None
      else Some \<lparr>q_length = 0, q_first = None, q_last = AtFirst, q_sem = 0\<rparr>)"

text \<open>Queues are values here (of the pool or of another owner), not addresses; destroying one
  deletes its lock and semaphore and leaves nothing.\<close>

definition mmal_queue_destroy :: "mmal_queue option \<Rightarrow> mmal_queue option" where
  "mmal_queue_destroy queue = None"

text \<open>\<open>*queue->last = buffer\<close>.\<close>

definition store_last :: "mmal_queue \<Rightarrow> bheap \<Rightarrow> ptr \<Rightarrow> mmal_queue \<times> bheap" where
  "store_last q h p =
     (case q_last q of
        AtFirst \<Rightarrow> (q\<lparr>q_first := p\<rparr>, h)
      | AtNext a \<Rightarrow> (q, h(a := (h a)\<lparr>bh_next := p\<rparr>)))"

definition queue_put :: "mmal_queue \<Rightarrow> bheap \<Rightarrow> addr \<Rightarrow> mmal_queue \<times> bheap" where
  "queue_put q h b =
     (let q = q\<lparr>q_length := q_length q + 1\<rparr>;
          (q, h) = store_last q h (Some b);
          h = h(b := (h b)\<lparr>bh_next := None\<rparr>);
          q = q\<lparr>q_last := AtNext b\<rparr>;
          q = q\<lparr>q_sem := q_sem q + 1\<rparr>
      in (q, h))"

fun mmal_queue_put ::
    "mmal_queue option \<Rightarrow> bheap \<Rightarrow> ptr \<Rightarrow> mmal_queue option \<times> bheap" where
  "mmal_queue_put (Some q) h (Some b) = (let (q, h) = queue_put q h b in (Some q, h))"
| "mmal_queue_put q h b = (q, h)"

definition queue_put_back :: "mmal_queue \<Rightarrow> bheap \<Rightarrow> addr \<Rightarrow> mmal_queue \<times> bheap" where
  "queue_put_back q h b =
     (let q = q\<lparr>q_length := q_length q + 1\<rparr>;
          h = h(b := (h b)\<lparr>bh_next := q_first q\<rparr>);
          q = q\<lparr>q_first := Some b\<rparr>;
          q = (if q_last q = AtFirst then q\<lparr>q_last := AtNext b\<rparr> else q);
          q = q\<lparr>q_sem := q_sem q + 1\<rparr>
      in (q, h))"

fun mmal_queue_put_back ::
    "mmal_queue option \<Rightarrow> bheap \<Rightarrow> ptr \<Rightarrow> mmal_queue option \<times> bheap" where
  "mmal_queue_put_back (Some q) h (Some b) = (let (q, h) = queue_put_back q h b in (Some q, h))"
| "mmal_queue_put_back q h b = (q, h)"

text \<open>\<open>None\<close> is the failed assertion (or NULL dereference) on an empty queue.\<close>

definition mmal_queue_get_core :: "mmal_queue \<Rightarrow> bheap \<Rightarrow> (addr \<times> mmal_queue) option" where
  "mmal_queue_get_core q h =
     (case q_first q of
        None \<Rightarrow> None
      | Some b \<Rightarrow>
          let q = q\<lparr>q_first := bh_next (h b)\<rparr>;
              q = (if q_first q = None then q\<lparr>q_last := AtFirst\<rparr> else q);
              q = q\<lparr>q_length := q_length q - 1\<rparr>
          in Some (b, q))"

text \<open>Claiming the semaphore: \<open>None\<close> when its count is zero.\<close>

definition sem_claim :: "mmal_queue \<Rightarrow> mmal_queue option" where
  "sem_claim q = (if q_sem q = 0 then None else Some (q\<lparr>q_sem := q_sem q - 1\<rparr>))"

fun mmal_queue_get ::
    "mmal_queue option \<Rightarrow> bheap \<Rightarrow> (ptr \<times> mmal_queue option) option" where
  "mmal_queue_get None h = Some (None, None)"
| "mmal_queue_get (Some q) h =
     (case sem_claim q of
        None \<Rightarrow> Some (None, Some q)
      | Some q \<Rightarrow> map_option (\<lambda>(b, q). (Some b, Some q)) (mmal_queue_get_core q h))"

text \<open>A wait on a zero semaphore blocks; a wait with a timeout then returns NULL.\<close>

fun mmal_queue_wait ::
    "mmal_queue option \<Rightarrow> bheap \<Rightarrow> (ptr \<times> mmal_queue option) waited option" where
  "mmal_queue_wait None h = Some (Woke (None, None))"
| "mmal_queue_wait (Some q) h =
     (case sem_claim q of
        None \<Rightarrow> Some Blocked
      | Some q \<Rightarrow> map_option (\<lambda>(b, q). Woke (Some b, Some q)) (mmal_queue_get_core q h))"

fun mmal_queue_timedwait ::
    "mmal_queue option \<Rightarrow> bheap \<Rightarrow> (ptr \<times> mmal_queue option) option" where
  "mmal_queue_timedwait None h = Some (None, None)"
| "mmal_queue_timedwait (Some q) h =
     (case sem_claim q of
        None \<Rightarrow> Some (None, Some q)
      | Some q \<Rightarrow> map_option (\<lambda>(b, q). (Some b, Some q)) (mmal_queue_get_core q h))"

fun mmal_queue_length :: "mmal_queue option \<Rightarrow> u32" where
  "mmal_queue_length None = 0"
| "mmal_queue_length (Some q) = q_length q"

lemmas queue_op_defs = queue_put_def queue_put_back_def store_last_def mmal_queue_get_core_def

subsection \<open>The abstract sequence\<close>

definition qrep :: "bheap \<Rightarrow> mmal_queue \<Rightarrow> addr list \<Rightarrow> bool" where
  "qrep h q xs \<longleftrightarrow> chain (bh_next \<circ> h) (q_first q) xs None \<and> distinct xs
     \<and> q_length q = of_nat (length xs)
     \<and> q_last q = (if xs = [] then AtFirst else AtNext (last xs))"

definition same_bufs :: "addr set \<Rightarrow> bheap \<Rightarrow> bheap \<Rightarrow> bool" where
  "same_bufs A h h' \<longleftrightarrow> (\<forall>a\<in>A. h a = h' a)"

text \<open>Apart from the link field, no operation changes a header.\<close>

definition only_links :: "bheap \<Rightarrow> bheap \<Rightarrow> bool" where
  "only_links h h' \<longleftrightarrow> (\<forall>a. (h' a)\<lparr>bh_next := None\<rparr> = (h a)\<lparr>bh_next := None\<rparr>)"

lemma only_links_refl [simp]: "only_links h h"
  by (simp add: only_links_def)

lemma only_links_trans: "only_links h h' \<Longrightarrow> only_links h' h'' \<Longrightarrow> only_links h h''"
  by (simp add: only_links_def)

lemma only_links_upd [simp]: "only_links h (h(a := (h a)\<lparr>bh_next := p\<rparr>))"
  by (simp add: only_links_def)

lemma qrep_links:
  assumes "qrep h q xs" and "\<And>a. a \<in> set xs \<Longrightarrow> bh_next (h' a) = bh_next (h a)"
  shows "qrep h' q xs"
proof -
  have "chain (bh_next \<circ> h') (q_first q) xs None \<longleftrightarrow> chain (bh_next \<circ> h) (q_first q) xs None"
    by (rule chain_cong) (simp add: assms)
  with assms(1) show ?thesis by (simp add: qrep_def)
qed

lemma qrep_frame: "qrep h q xs \<Longrightarrow> same_bufs (set xs) h h' \<Longrightarrow> qrep h' q xs"
  by (erule qrep_links) (simp add: same_bufs_def)

lemma qrep_distinct: "qrep h q xs \<Longrightarrow> distinct xs"
  by (simp add: qrep_def)

lemma qrep_sem [simp]: "qrep h (q\<lparr>q_sem := n\<rparr>) xs \<longleftrightarrow> qrep h q xs"
  by (simp add: qrep_def)

lemma queue_create_qrep: "mmal_queue_create a b c = Some q \<Longrightarrow> qrep h q [] \<and> q_sem q = 0"
  by (auto simp: mmal_queue_create_def qrep_def split: if_splits)

lemma queue_put_qrep:
  assumes "qrep h q xs" and "b \<notin> set xs"
  shows "\<exists>q' h'. queue_put q h b = (q', h') \<and> qrep h' q' (xs @ [b]) \<and> q_sem q' = q_sem q + 1
    \<and> same_bufs (- set (xs @ [b])) h h' \<and> only_links h h'"
proof (cases xs rule: rev_cases)
  case Nil
  with assms show ?thesis
    by (auto simp: queue_op_defs qrep_def same_bufs_def heap_simps fun_upd_comp only_links_def)
next
  case (snoc ys y)
  with assms show ?thesis
    by (auto simp: queue_op_defs qrep_def same_bufs_def chain_append heap_simps fun_upd_comp
        only_links_def)
qed

lemma queue_put_back_qrep:
  assumes "qrep h q xs" and "b \<notin> set xs"
  shows "\<exists>q' h'. queue_put_back q h b = (q', h') \<and> qrep h' q' (b # xs) \<and> q_sem q' = q_sem q + 1
    \<and> same_bufs (- set (b # xs)) h h' \<and> only_links h h'"
  using assms
  by (auto simp: queue_op_defs qrep_def same_bufs_def heap_simps fun_upd_comp only_links_def)

lemma get_core_Cons:
  assumes "qrep h q (x # xs)"
  shows "\<exists>q'. mmal_queue_get_core q h = Some (x, q') \<and> qrep h q' xs \<and> q_sem q' = q_sem q"
proof (cases xs)
  case Nil
  with assms show ?thesis by (auto simp: queue_op_defs qrep_def)
next
  case (Cons y ys)
  with assms show ?thesis by (auto simp: queue_op_defs qrep_def)
qed

lemma get_core_Nil: "qrep h q [] \<Longrightarrow> mmal_queue_get_core q h = None"
  by (simp add: queue_op_defs qrep_def)

lemma sanity_loop_chain:
  "chain (bh_next \<circ> h) p xs None \<Longrightarrow>
   sanity_loop h buffer (length xs) p \<longleftrightarrow> (\<forall>b. buffer = Some b \<longrightarrow> b \<notin> set xs)"
  by (induction xs arbitrary: p) auto

lemma sanity_loop_length:
  "chain (bh_next \<circ> h) p xs None \<Longrightarrow> sanity_loop h buffer n p \<Longrightarrow> n = length xs"
proof (induction xs arbitrary: p n)
  case Nil
  then show ?case by (cases n) auto
next
  case (Cons x xs)
  then show ?case by (cases n) auto
qed

lemma sanity_check_qrep:
  assumes "qrep h q xs" and "length xs < 2 ^ 32"
  shows "mmal_queue_sanity_check q h buffer \<longleftrightarrow> (\<forall>b. buffer = Some b \<longrightarrow> b \<notin> set xs)"
  using assms by (auto simp: mmal_queue_sanity_check_def qrep_def sanity_loop_chain
      unat_of_nat_small)

lemma sanity_check_qrepD:
  assumes "qrep h q xs" and "mmal_queue_sanity_check q h (Some b)"
  shows "b \<notin> set xs"
proof -
  have c: "chain (bh_next \<circ> h) (q_first q) xs None" using assms(1) by (simp add: qrep_def)
  have "sanity_loop h (Some b) (unat (q_length q)) (q_first q)"
    using assms(2) by (simp add: mmal_queue_sanity_check_def)
  moreover from c this have "unat (q_length q) = length xs" by (rule sanity_loop_length)
  ultimately show ?thesis using sanity_loop_chain [OF c] by simp
qed

subsection \<open>The contract of a queue\<close>

text \<open>
  What the users of a queue (pools, ports, connections) rely on. \<open>tokens\<close> is the semaphore's
  count; \<open>balanced h q xs n\<close> says that the queue holds \<open>xs\<close> and that \<open>n\<close> threads have claimed
  a token and not yet taken their header.
\<close>

locale buffer_fifo =
  fixes holds :: "bheap \<Rightarrow> 'q \<Rightarrow> addr list \<Rightarrow> bool"
    and tokens :: "'q \<Rightarrow> nat"
    and put :: "'q \<Rightarrow> bheap \<Rightarrow> addr \<Rightarrow> 'q \<times> bheap"
    and put_back :: "'q \<Rightarrow> bheap \<Rightarrow> addr \<Rightarrow> 'q \<times> bheap"
    and claim :: "'q \<Rightarrow> 'q option"
    and take_core :: "'q \<Rightarrow> bheap \<Rightarrow> (addr \<times> 'q) option"
  assumes put_holds: "holds h q xs \<Longrightarrow> b \<notin> set xs \<Longrightarrow>
      \<exists>q' h'. put q h b = (q', h') \<and> holds h' q' (xs @ [b]) \<and> tokens q' = tokens q + 1
        \<and> same_bufs (- set (xs @ [b])) h h' \<and> only_links h h'"
    and put_back_holds: "holds h q xs \<Longrightarrow> b \<notin> set xs \<Longrightarrow>
      \<exists>q' h'. put_back q h b = (q', h') \<and> holds h' q' (b # xs) \<and> tokens q' = tokens q + 1
        \<and> same_bufs (- set (b # xs)) h h' \<and> only_links h h'"
    and claim_zero: "tokens q = 0 \<Longrightarrow> claim q = None"
    and claim_pos: "tokens q > 0 \<Longrightarrow>
      \<exists>q'. claim q = Some q' \<and> tokens q' = tokens q - 1 \<and> (\<forall>h xs. holds h q' xs \<longleftrightarrow> holds h q xs)"
    and take_holds: "holds h q (x # xs) \<Longrightarrow>
      \<exists>q'. take_core q h = Some (x, q') \<and> holds h q' xs \<and> tokens q' = tokens q"
    and holds_dist: "holds h q xs \<Longrightarrow> distinct xs"
begin

definition balanced :: "bheap \<Rightarrow> 'q \<Rightarrow> addr list \<Rightarrow> nat \<Rightarrow> bool" where
  "balanced h q xs n \<longleftrightarrow> holds h q xs \<and> length xs = tokens q + n"

lemma balanced_put:
  assumes "balanced h q xs n" and "b \<notin> set xs" and "put q h b = (q', h')"
  shows "balanced h' q' (xs @ [b]) n"
  using assms put_holds [of h q xs b] by (auto simp: balanced_def)

lemma balanced_put_back:
  assumes "balanced h q xs n" and "b \<notin> set xs" and "put_back q h b = (q', h')"
  shows "balanced h' q' (b # xs) n"
  using assms put_back_holds [of h q xs b] by (auto simp: balanced_def)

lemma balanced_claim:
  assumes "balanced h q xs n" and "claim q = Some q'"
  shows "balanced h q' xs (Suc n)"
proof -
  have "tokens q > 0" using assms(2) claim_zero [of q] by (cases "tokens q") auto
  with claim_pos [of q] assms show ?thesis by (auto simp: balanced_def)
qed

lemma balanced_take:
  assumes "balanced h q xs (Suc n)"
  obtains x q' where "take_core q h = Some (x, q')" and "xs = x # tl xs" and "balanced h q' (tl xs) n"
proof -
  obtain x ys where xs: "xs = x # ys"
    using assms by (cases xs) (auto simp: balanced_def)
  with assms take_holds [of h q x ys] that show thesis by (auto simp: balanced_def)
qed

text \<open>A claim followed by its take, with no other thread in between.\<close>

lemma balanced_get:
  assumes "balanced h q (x # xs) 0"
  obtains q1 q2 where "claim q = Some q1" and "take_core q1 h = Some (x, q2)"
    and "balanced h q2 xs 0"
proof -
  have "tokens q > 0" using assms by (auto simp: balanced_def)
  then obtain q1 where q1: "claim q = Some q1" using claim_pos by blast
  with assms have "balanced h q1 (x # xs) (Suc 0)" by (rule balanced_claim)
  then obtain y q2 where "take_core q1 h = Some (y, q2)" "x # xs = y # xs" "balanced h q2 xs 0"
    by (elim balanced_take) auto
  with q1 that show thesis by auto
qed

lemma balanced_get_empty: "balanced h q [] 0 \<Longrightarrow> claim q = None"
  by (rule claim_zero) (simp add: balanced_def)

lemma balanced_put_list:
  assumes "balanced h q xs n" and "distinct bs" and "set bs \<inter> set xs = {}"
  shows "\<exists>q' h'. foldl (\<lambda>(q, h) b. put q h b) (q, h) bs = (q', h') \<and> balanced h' q' (xs @ bs) n
    \<and> only_links h h'"
  using assms
proof (induction bs arbitrary: q h xs)
  case (Cons b bs)
  then obtain q1 h1 where 1: "put q h b = (q1, h1)" "only_links h h1"
    using put_holds [of h q xs b] by (auto simp: balanced_def)
  have b1: "balanced h1 q1 (xs @ [b]) n"
    by (rule balanced_put [OF Cons.prems(1) _ 1(1)]) (use Cons.prems in auto)
  from Cons.IH [OF b1] Cons.prems 1 show ?case by (auto intro: only_links_trans)
qed auto

end

lemma sem_claim_pos: "q_sem q > 0 \<Longrightarrow> sem_claim q = Some (q\<lparr>q_sem := q_sem q - 1\<rparr>)"
  by (simp add: sem_claim_def)

interpretation bq: buffer_fifo qrep q_sem queue_put queue_put_back sem_claim mmal_queue_get_core
proof (unfold_locales, goal_cases)
  case (1 h q xs b) then show ?case by (rule queue_put_qrep)
next
  case (2 h q xs b) then show ?case by (rule queue_put_back_qrep)
next
  case (3 q) then show ?case by (simp add: sem_claim_def)
next
  case (4 q) then show ?case by (simp add: sem_claim_pos)
next
  case (5 h q x xs) then show ?case by (rule get_core_Cons)
next
  case (6 h q xs) then show ?case by (rule qrep_distinct)
qed

subsection \<open>Threads\<close>

record queue_sys =
  sq :: mmal_queue
  sh :: bheap
  claimed :: nat

text \<open>A header is put only when it is in no position of the queue: the assertion of the source.
  Meanwhile the clients may change every field of a header but its link.\<close>

inductive queue_step :: "queue_sys \<Rightarrow> queue_sys \<Rightarrow> bool" where
  step_put: "mmal_queue_sanity_check (sq s) (sh s) (Some b) \<Longrightarrow>
     queue_put (sq s) (sh s) b = (q, h) \<Longrightarrow>
     queue_step s (s\<lparr>sq := q, sh := h\<rparr>)"
| step_put_back: "mmal_queue_sanity_check (sq s) (sh s) (Some b) \<Longrightarrow>
     queue_put_back (sq s) (sh s) b = (q, h) \<Longrightarrow>
     queue_step s (s\<lparr>sq := q, sh := h\<rparr>)"
| step_claim: "sem_claim (sq s) = Some q \<Longrightarrow>
     queue_step s (s\<lparr>sq := q, claimed := Suc (claimed s)\<rparr>)"
| step_take: "claimed s = Suc n \<Longrightarrow> mmal_queue_get_core (sq s) (sh s) = Some (b, q) \<Longrightarrow>
     queue_step s (s\<lparr>sq := q, claimed := n\<rparr>)"
| step_client: "(\<forall>a. bh_next (h a) = bh_next (sh s a)) \<Longrightarrow> queue_step s (s\<lparr>sh := h\<rparr>)"

inductive queue_reachable :: "queue_sys \<Rightarrow> bool" where
  reach_init: "mmal_queue_create True True True = Some q \<Longrightarrow>
     queue_reachable \<lparr>sq = q, sh = h, claimed = 0\<rparr>"
| reach_step: "queue_reachable s \<Longrightarrow> queue_step s t \<Longrightarrow> queue_reachable t"

definition queue_inv :: "queue_sys \<Rightarrow> bool" where
  "queue_inv s \<longleftrightarrow> (\<exists>xs. bq.balanced (sh s) (sq s) xs (claimed s))"

lemma queue_step_inv: "queue_step s t \<Longrightarrow> queue_inv s \<Longrightarrow> queue_inv t"
proof (induction rule: queue_step.induct)
  case (step_put s b q h)
  then obtain xs where x: "bq.balanced (sh s) (sq s) xs (claimed s)" by (auto simp: queue_inv_def)
  then have "b \<notin> set xs"
    using step_put sanity_check_qrepD by (auto simp: bq.balanced_def)
  from bq.balanced_put [OF x this step_put(2)] show ?case by (auto simp: queue_inv_def)
next
  case (step_put_back s b q h)
  then obtain xs where x: "bq.balanced (sh s) (sq s) xs (claimed s)" by (auto simp: queue_inv_def)
  then have "b \<notin> set xs"
    using step_put_back sanity_check_qrepD by (auto simp: bq.balanced_def)
  from bq.balanced_put_back [OF x this step_put_back(2)] show ?case by (auto simp: queue_inv_def)
next
  case (step_claim s q)
  then show ?case by (auto simp: queue_inv_def dest: bq.balanced_claim)
next
  case (step_take s n b q)
  then obtain xs where "bq.balanced (sh s) (sq s) xs (Suc n)" by (auto simp: queue_inv_def)
  then show ?case using step_take by (elim bq.balanced_take) (auto simp: queue_inv_def)
next
  case (step_client h s)
  then show ?case by (auto simp: queue_inv_def bq.balanced_def intro: qrep_links)
qed

lemma queue_reachable_inv: "queue_reachable s \<Longrightarrow> queue_inv s"
proof (induction rule: queue_reachable.induct)
  case (reach_init q h)
  then have "qrep h q [] \<and> q_sem q = 0" by (rule queue_create_qrep)
  then show ?case by (auto simp: queue_inv_def bq.balanced_def)
next
  case (reach_step s t)
  then show ?case by (blast intro: queue_step_inv)
qed

text \<open>C1. In every interleaving of putting, claiming and taking threads, a thread that has claimed
  the semaphore finds a header: the assertion \<open>buffer != NULL\<close> of \<open>mmal_queue_get_core\<close> never
  fails and no NULL pointer is dereferenced, and the semaphore count plus the claims in flight is
  always the length of the linked list.\<close>

theorem queue_take_never_empty:
  assumes "queue_reachable s"
  shows "\<exists>xs. qrep (sh s) (sq s) xs \<and> length xs = q_sem (sq s) + claimed s
    \<and> (claimed s > 0 \<longrightarrow> (\<exists>q. mmal_queue_get_core (sq s) (sh s) = Some (hd xs, q) \<and> qrep (sh s) q (tl xs)))"
proof -
  obtain xs where x: "bq.balanced (sh s) (sq s) xs (claimed s)"
    using queue_reachable_inv [OF assms] by (auto simp: queue_inv_def)
  have "\<exists>q. mmal_queue_get_core (sq s) (sh s) = Some (hd xs, q) \<and> qrep (sh s) q (tl xs)"
    if pos: "claimed s > 0"
  proof -
    obtain n where "claimed s = Suc n" using gr0_implies_Suc [OF pos] by blast
    with x have "bq.balanced (sh s) (sq s) xs (Suc n)" by simp
    then obtain y q where "mmal_queue_get_core (sq s) (sh s) = Some (y, q)" "xs = y # tl xs"
      "bq.balanced (sh s) q (tl xs) n"
      by (rule bq.balanced_take)
    then show ?thesis by (metis bq.balanced_def list.sel(1))
  qed
  with x show ?thesis by (auto simp: bq.balanced_def)
qed

definition empty_queue :: mmal_queue where
  "empty_queue = \<lparr>q_length = 0, q_first = None, q_last = AtFirst, q_sem = 0\<rparr>"

definition demo_bufs :: bheap where
  "demo_bufs = (\<lambda>_. zero_header)"

lemma demo_reachable:
  "queue_reachable \<lparr>sq = fst (queue_put empty_queue demo_bufs 4),
     sh = snd (queue_put empty_queue demo_bufs 4), claimed = 0\<rparr>"
proof -
  have "queue_reachable \<lparr>sq = empty_queue, sh = demo_bufs, claimed = 0\<rparr>"
    by (rule reach_init) (simp add: mmal_queue_create_def empty_queue_def)
  moreover have "queue_step \<lparr>sq = empty_queue, sh = demo_bufs, claimed = 0\<rparr>
      (\<lparr>sq = empty_queue, sh = demo_bufs, claimed = 0\<rparr>
        \<lparr>sq := fst (queue_put empty_queue demo_bufs 4), sh := snd (queue_put empty_queue demo_bufs 4)\<rparr>)"
    by (rule step_put [where b = 4]) (simp_all add: mmal_queue_sanity_check_def empty_queue_def)
  ultimately have "queue_reachable (\<lparr>sq = empty_queue, sh = demo_bufs, claimed = 0\<rparr>
        \<lparr>sq := fst (queue_put empty_queue demo_bufs 4), sh := snd (queue_put empty_queue demo_bufs 4)\<rparr>)"
    by (rule reach_step)
  then show ?thesis by simp
qed

theorem queue_take_never_empty_witness:
  "\<exists>xs. qrep (snd (queue_put empty_queue demo_bufs 4)) (fst (queue_put empty_queue demo_bufs 4)) xs
     \<and> length xs = 1"
  using queue_take_never_empty [OF demo_reachable]
  by (auto simp: queue_put_def empty_queue_def store_last_def)

text \<open>The race the comment in \<open>mmal_queue_put\<close> is about does not exist: in every reachable
  state with no other get under way, a nonzero \<open>mmal_queue_length\<close> means that
  \<open>mmal_queue_get\<close> returns a header.\<close>

theorem queue_length_then_get:
  assumes "queue_reachable s" and "claimed s = 0" and "mmal_queue_length (Some (sq s)) > 0"
  shows "\<exists>b q. mmal_queue_get (Some (sq s)) (sh s) = Some (Some b, Some q)"
proof -
  obtain xs where x: "bq.balanced (sh s) (sq s) xs 0"
    using queue_reachable_inv [OF assms(1)] assms(2) by (auto simp: queue_inv_def)
  obtain y ys where "xs = y # ys"
    using x assms(3) by (cases xs) (auto simp: bq.balanced_def qrep_def)
  with x have "bq.balanced (sh s) (sq s) (y # ys) 0" by simp
  then show ?thesis by (rule bq.balanced_get) auto
qed

theorem queue_length_then_get_witness:
  "\<exists>b q. mmal_queue_get (Some (fst (queue_put empty_queue demo_bufs 4)))
     (snd (queue_put empty_queue demo_bufs 4)) = Some (Some b, Some q)"
  using queue_length_then_get [OF demo_reachable]
  by (auto simp: queue_put_def empty_queue_def store_last_def)

text \<open>C2. The linked representation implements a first-in first-out queue: \<open>mmal_queue_put\<close>
  appends, \<open>mmal_queue_put_back\<close> prepends, \<open>mmal_queue_get\<close> removes and returns the first
  header and returns NULL when there is none; no operation changes anything in a header but its
  link.\<close>

theorem queue_refines_fifo:
  assumes "qrep h q xs" and "q_sem q = length xs" and "b \<notin> set xs"
  shows "(\<exists>q' h'. mmal_queue_put (Some q) h (Some b) = (Some q', h') \<and> qrep h' q' (xs @ [b])
            \<and> q_sem q' = length xs + 1 \<and> only_links h h')
       \<and> (\<exists>q' h'. mmal_queue_put_back (Some q) h (Some b) = (Some q', h') \<and> qrep h' q' (b # xs)
            \<and> q_sem q' = length xs + 1 \<and> only_links h h')
       \<and> (\<exists>q'. mmal_queue_get (Some q) h = Some (if xs = [] then None else Some (hd xs), Some q')
            \<and> qrep h q' (tl xs) \<and> q_sem q' = length xs - 1)"
proof (intro conjI)
  show "\<exists>q' h'. mmal_queue_put (Some q) h (Some b) = (Some q', h') \<and> qrep h' q' (xs @ [b])
            \<and> q_sem q' = length xs + 1 \<and> only_links h h'"
    using queue_put_qrep [OF assms(1,3)] assms(2) by auto
  show "\<exists>q' h'. mmal_queue_put_back (Some q) h (Some b) = (Some q', h') \<and> qrep h' q' (b # xs)
            \<and> q_sem q' = length xs + 1 \<and> only_links h h'"
    using queue_put_back_qrep [OF assms(1,3)] assms(2) by auto
  show "\<exists>q'. mmal_queue_get (Some q) h = Some (if xs = [] then None else Some (hd xs), Some q')
            \<and> qrep h q' (tl xs) \<and> q_sem q' = length xs - 1"
  proof (cases xs)
    case Nil
    with assms show ?thesis by (simp add: sem_claim_def)
  next
    case (Cons x ys)
    with assms have "bq.balanced h q (x # ys) 0" by (simp add: bq.balanced_def)
    then obtain q1 q2 where "sem_claim q = Some q1" "mmal_queue_get_core q1 h = Some (x, q2)"
      "bq.balanced h q2 ys 0"
      by (rule bq.balanced_get)
    with Cons show ?thesis by (auto simp: bq.balanced_def)
  qed
qed

theorem queue_refines_fifo_witness:
  "\<exists>q' h'. mmal_queue_put (Some empty_queue) demo_bufs (Some 4) = (Some q', h') \<and> qrep h' q' [4]"
  using queue_refines_fifo [of demo_bufs empty_queue "[]" 4]
  by (auto simp: empty_queue_def qrep_def)

end
