(* ===== verification/Pool.thy ===== *)
theory Pool
  imports Queue
begin

text \<open>
  core/mmal_pool.c: pools of buffer headers. The context of the header memory holds the pools
  by address and the state \<open>env\<close> of the environment (the memory allocators and the clients).
  The environment's functions are the record \<open>env_ops\<close>: \<open>vcos_malloc\<close>, \<open>vcos_calloc\<close> and
  \<open>vcos_free\<close>, whether the parts of a queue can be created, the client's payload allocators
  and its pool callback. Function pointers are numbers; number 0 is the default allocator.

  A pool's header area is one allocation: the array of \<open>headers\<close> pointers, rounded up, and then
  the headers, \<open>header_size\<close> bytes apart; \<open>header_base\<close> is where the first one lies.
\<close>

record mmal_pool =
  p_queue :: "mmal_queue option"
  headers_num :: u32
  p_header :: ptr
  header_tab :: "nat \<Rightarrow> ptr"
  p_cb :: "nat option"
  p_userdata :: ptr
  allocator_alloc :: "nat option"
  allocator_free :: "nat option"
  allocator_context :: ptr
  header_size :: u32
  p_payload_size :: u32
  headers_alloc_num :: u32

record 'w pool_ctx =
  pools :: "addr \<Rightarrow> mmal_pool"
  env :: 'w

type_synonym 'w pmem = "'w pool_ctx mem"

record 'w env_ops =
  vcos_malloc :: "u32 \<Rightarrow> 'w \<Rightarrow> ptr \<times> 'w"
  vcos_calloc :: "u32 \<Rightarrow> 'w \<Rightarrow> ptr \<times> 'w"
  vcos_free :: "addr \<Rightarrow> 'w \<Rightarrow> 'w"
  queue_parts :: "'w \<Rightarrow> bool \<times> bool \<times> bool"
  client_alloc :: "nat \<Rightarrow> ptr \<Rightarrow> u32 \<Rightarrow> 'w \<Rightarrow> ptr \<times> 'w"
  client_free :: "nat \<Rightarrow> ptr \<Rightarrow> addr \<Rightarrow> 'w pmem \<Rightarrow> 'w pmem option"
  client_cb :: "nat \<Rightarrow> addr \<Rightarrow> addr \<Rightarrow> ptr \<Rightarrow> 'w pmem \<Rightarrow> (bool \<times> 'w pmem) option"

definition upd_pool :: "addr \<Rightarrow> (mmal_pool \<Rightarrow> mmal_pool) \<Rightarrow> 'w pmem \<Rightarrow> 'w pmem" where
  "upd_pool p f m = m\<lparr>ctx := (ctx m)\<lparr>pools := (pools (ctx m))(p := f (pools (ctx m) p))\<rparr>\<rparr>"

definition set_env :: "'w \<Rightarrow> 'w pmem \<Rightarrow> 'w pmem" where
  "set_env w m = m\<lparr>ctx := (ctx m)\<lparr>env := w\<rparr>\<rparr>"

definition pool_at :: "'w pmem \<Rightarrow> addr \<Rightarrow> mmal_pool" where
  "pool_at m p = pools (ctx m) p"

lemma pool_mem_simps [simp]:
  "bufs (upd_pool p f m) = bufs m" "bufs (set_env w m) = bufs m"
  "env (ctx (upd_pool p f m)) = env (ctx m)" "env (ctx (set_env w m)) = w"
  "pool_at (upd_pool p f m) q = (if q = p then f (pool_at m p) else pool_at m q)"
  "pool_at (set_env w m) q = pool_at m q" "pool_at (upd_buf a g m) q = pool_at m q"
  by (simp_all add: upd_pool_def set_env_def pool_at_def)

subsection \<open>Payload allocators\<close>

text \<open>\<open>mmal_pool_allocator_default_alloc\<close> and \<open>_free\<close>, and the calls through the pointers.\<close>

definition payload_alloc :: "'w env_ops \<Rightarrow> nat \<Rightarrow> ptr \<Rightarrow> u32 \<Rightarrow> 'w \<Rightarrow> ptr \<times> 'w" where
  "payload_alloc ops f c sz w =
     (if f = 0 then vcos_malloc ops sz w else client_alloc ops f c sz w)"

definition payload_free :: "'w env_ops \<Rightarrow> nat \<Rightarrow> ptr \<Rightarrow> addr \<Rightarrow> 'w pmem \<Rightarrow> 'w pmem option" where
  "payload_free ops f c a m =
     (if f = 0 then Some (set_env (vcos_free ops a (env (ctx m))) m) else client_free ops f c a m)"

text \<open>\<open>if (priv->pf_payload_free && priv->payload && priv->payload_size) priv->pf_payload_free(...)\<close>.\<close>

definition free_header_payload :: "'w env_ops \<Rightarrow> addr \<Rightarrow> 'w pmem \<Rightarrow> 'w pmem option" where
  "free_header_payload ops a m =
     (case (pf_payload_free (bufs m a), payload (bufs m a)) of
        (Some f, Some pl) \<Rightarrow>
          if payload_size (bufs m a) \<noteq> 0
          then payload_free ops f (payload_context (bufs m a)) pl m
          else Some m
      | _ \<Rightarrow> Some m)"

subsection \<open>Initialising the headers\<close>

text \<open>The number under which headers store \<open>mmal_pool_buffer_header_release\<close>.\<close>

definition pool_release_fn :: nat where "pool_release_fn = 1"

definition setup_header :: "addr \<Rightarrow> mmal_pool \<Rightarrow> ptr \<Rightarrow> mmal_buffer_header \<Rightarrow> mmal_buffer_header" where
  "setup_header p pool pl b = b\<lparr>bh_data := pl, bh_alloc_size := p_payload_size pool,
     pf_release := Some pool_release_fn, owner := Some p, refcount := 1, payload := pl,
     payload_context := allocator_context pool, pf_payload_free := allocator_free pool,
     payload_size := p_payload_size pool\<rparr>"

text \<open>One pass of the loop of \<open>mmal_pool_initialise_buffer_headers\<close> per recursion: \<open>n\<close> headers
  are left, the next one is number \<open>i\<close> at \<open>hdr\<close>, and \<open>pl\<close> is the variable \<open>payload\<close>.\<close>

fun init_headers ::
    "'w env_ops \<Rightarrow> abi \<Rightarrow> addr \<Rightarrow> bool \<Rightarrow> nat \<Rightarrow> nat \<Rightarrow> addr \<Rightarrow> ptr \<Rightarrow> 'w pmem
      \<Rightarrow> (mmal_status \<times> 'w pmem) option" where
  "init_headers ops abi p reinit 0 i hdr pl m = Some (MMAL_SUCCESS, m)"
| "init_headers ops abi p reinit (Suc n) i hdr pl m =
     Option.bind
       (if reinit
        then map_option (\<lambda>(a, h). (a, m\<lparr>bufs := h\<rparr>))
          (mmal_buffer_header_initialise abi hdr (header_size (pool_at m p)) (bufs m))
        else Some (hdr, m))
       (\<lambda>(hdr, m).
          let pool = pool_at m p in
          Option.bind
            (if p_payload_size pool \<noteq> 0 \<and> allocator_alloc pool \<noteq> None
             then
               let (pl, w) = payload_alloc ops (the (allocator_alloc pool))
                     (allocator_context pool) (p_payload_size pool) (env (ctx m))
               in Some (pl \<noteq> None, pl, set_env w m)
             else map_option (\<lambda>m. (True, pl, m)) (free_header_payload ops hdr m))
          (\<lambda>(ok, pl, m).
             if \<not> ok then Some (MMAL_ENOMEM, m)
             else
               let m = upd_buf hdr (setup_header p pool pl) m;
                   m = upd_pool p (\<lambda>q. q\<lparr>header_tab := (header_tab q)(i := Some hdr)\<rparr>) m;
                   m = upd_pool p (\<lambda>q. q\<lparr>headers_num := of_nat (i + 1)\<rparr>) m
               in init_headers ops abi p reinit n (i + 1)
                    (hdr + unat (header_size (pool_at m p))) pl m))"

definition header_base :: "abi \<Rightarrow> mmal_pool \<Rightarrow> u32 \<Rightarrow> ptr" where
  "header_base abi pool headers =
     map_option (\<lambda>a. a + unat (ROUND_UP (sizeof_ptr abi * headers) 8)) (p_header pool)"

definition mmal_pool_initialise_buffer_headers ::
    "'w env_ops \<Rightarrow> abi \<Rightarrow> addr \<Rightarrow> u32 \<Rightarrow> bool \<Rightarrow> 'w pmem \<Rightarrow> (mmal_status \<times> 'w pmem) option" where
  "mmal_pool_initialise_buffer_headers ops abi p headers reinit m =
     (if headers = 0 then Some (MMAL_SUCCESS, m)
      else Option.bind (header_base abi (pool_at m p) headers)
        (\<lambda>hdr. init_headers ops abi p reinit (unat headers) 0 hdr None m))"

subsection \<open>Creating, destroying, resizing\<close>

text \<open>\<open>for (i = 0; i < pool->headers_num; i++) mmal_queue_put(queue, pool->header[i])\<close>.\<close>

definition put_header :: "addr \<Rightarrow> 'w pmem \<Rightarrow> nat \<Rightarrow> 'w pmem" where
  "put_header p m i =
     (let (q, h) = mmal_queue_put (p_queue (pool_at m p)) (bufs m) (header_tab (pool_at m p) i)
      in upd_pool p (\<lambda>r. r\<lparr>p_queue := q\<rparr>) (m\<lparr>bufs := h\<rparr>))"

definition put_headers :: "addr \<Rightarrow> 'w pmem \<Rightarrow> 'w pmem" where
  "put_headers p m = foldl (put_header p) m [0..<unat (headers_num (pool_at m p))]"

fun free_payloads :: "'w env_ops \<Rightarrow> addr \<Rightarrow> nat list \<Rightarrow> 'w pmem \<Rightarrow> 'w pmem option" where
  "free_payloads ops p [] m = Some m"
| "free_payloads ops p (i # is) m =
     (case header_tab (pool_at m p) i of
        None \<Rightarrow> None
      | Some a \<Rightarrow> Option.bind (free_header_payload ops a m) (free_payloads ops p is))"

fun mmal_pool_destroy :: "'w env_ops \<Rightarrow> ptr \<Rightarrow> 'w pmem \<Rightarrow> 'w pmem option" where
  "mmal_pool_destroy ops None m = Some m"
| "mmal_pool_destroy ops (Some p) m =
     map_option (\<lambda>m.
        let m = (case p_header (pool_at m p) of
                   Some a \<Rightarrow> set_env (vcos_free ops a (env (ctx m))) m
                 | None \<Rightarrow> m);
            m = upd_pool p (\<lambda>r. r\<lparr>p_queue := mmal_queue_destroy (p_queue r)\<rparr>) m
        in set_env (vcos_free ops p (env (ctx m))) m)
      (free_payloads ops p [0..<unat (headers_num (pool_at m p))] m)"

definition zero_pool :: mmal_pool where
  "zero_pool = \<lparr>p_queue = None, headers_num = 0, p_header = None, header_tab = (\<lambda>_. None),
     p_cb = None, p_userdata = None, allocator_alloc = None, allocator_free = None,
     allocator_context = None, header_size = 0, p_payload_size = 0, headers_alloc_num = 0\<rparr>"

text \<open>\<open>private_size\<close> is \<open>sizeof(MMAL_POOL_PRIVATE_T)\<close>.\<close>

definition mmal_pool_create_with_allocator ::
    "'w env_ops \<Rightarrow> abi \<Rightarrow> u32 \<Rightarrow> u32 \<Rightarrow> u32 \<Rightarrow> ptr \<Rightarrow> nat option \<Rightarrow> nat option \<Rightarrow> 'w pmem
      \<Rightarrow> (ptr \<times> 'w pmem) option" where
  "mmal_pool_create_with_allocator ops abi private_size headers psize context alloc free m =
     (let (b1, b2, b3) = queue_parts ops (env (ctx m)) in
      case mmal_queue_create b1 b2 b3 of
        None \<Rightarrow> Some (None, m)
      | Some queue \<Rightarrow>
          let pool_size = ROUND_UP private_size 8;
              headers_array_size = ROUND_UP (sizeof_ptr abi * headers) 8;
              hsize = ROUND_UP (mmal_buffer_header_size abi) 8;
              (private, w) = vcos_calloc ops pool_size (env (ctx m));
              (array, w) = vcos_calloc ops (headers_array_size + hsize * headers) w;
              m = set_env w m
          in
            (case (private, array) of
               (Some p, Some a) \<Rightarrow>
                 let default = (alloc = None \<or> free = None);
                     m = upd_pool p (\<lambda>_. zero_pool\<lparr>p_queue := Some queue, p_header := Some a,
                           header_size := hsize, p_payload_size := psize,
                           headers_alloc_num := headers,
                           allocator_alloc := (if default then Some 0 else alloc),
                           allocator_free := (if default then Some 0 else free),
                           allocator_context := (if default then None else context)\<rparr>) m
                 in Option.bind (mmal_pool_initialise_buffer_headers ops abi p headers True m)
                      (\<lambda>(st, m).
                        if st \<noteq> MMAL_SUCCESS
                        then map_option (\<lambda>m. (None, m)) (mmal_pool_destroy ops (Some p) m)
                        else Some (Some p, put_headers p m))
             | (Some p, None) \<Rightarrow> Some (None, set_env (vcos_free ops p (env (ctx m))) m)
             | (None, Some a) \<Rightarrow> Some (None, set_env (vcos_free ops a (env (ctx m))) m)
             | (None, None) \<Rightarrow> Some (None, m)))"

definition mmal_pool_create ::
    "'w env_ops \<Rightarrow> abi \<Rightarrow> u32 \<Rightarrow> u32 \<Rightarrow> u32 \<Rightarrow> 'w pmem \<Rightarrow> (ptr \<times> 'w pmem) option" where
  "mmal_pool_create ops abi private_size headers psize m =
     mmal_pool_create_with_allocator ops abi private_size headers psize None (Some 0) (Some 0) m"

text \<open>\<open>for (i = 0; i < pool->headers_num; i++) mmal_queue_get(pool->queue)\<close>.\<close>

fun drain_queue :: "nat \<Rightarrow> addr \<Rightarrow> 'w pmem \<Rightarrow> 'w pmem option" where
  "drain_queue 0 p m = Some m"
| "drain_queue (Suc n) p m =
     Option.bind (mmal_queue_get (p_queue (pool_at m p)) (bufs m))
       (\<lambda>(_, q). drain_queue n p (upd_pool p (\<lambda>r. r\<lparr>p_queue := q\<rparr>) m))"

text \<open>The results of the two initialisation passes are ignored, as in the code.\<close>

definition mmal_pool_resize ::
    "'w env_ops \<Rightarrow> abi \<Rightarrow> ptr \<Rightarrow> u32 \<Rightarrow> u32 \<Rightarrow> 'w pmem \<Rightarrow> (mmal_status \<times> 'w pmem) option" where
  "mmal_pool_resize ops abi pool headers psize m =
     (case pool of
        None \<Rightarrow> Some (MMAL_EINVAL, m)
      | Some p \<Rightarrow>
          if headers = 0 then Some (MMAL_EINVAL, m)
          else if headers = headers_num (pool_at m p) \<and> psize = p_payload_size (pool_at m p)
          then Some (MMAL_SUCCESS, m)
          else do {
            m \<leftarrow> drain_queue (unat (headers_num (pool_at m p))) p m;
            let m = upd_pool p (\<lambda>r. r\<lparr>p_payload_size := 0\<rparr>) m;
            (_, m) \<leftarrow> mmal_pool_initialise_buffer_headers ops abi p
                        (headers_num (pool_at m p)) False m;
            let m = upd_pool p (\<lambda>r. r\<lparr>headers_num := 0\<rparr>) m;
            let (ok, m) =
              (if headers > headers_alloc_num (pool_at m p)
               then
                 let m = upd_pool p (\<lambda>r. r\<lparr>headers_alloc_num := 0\<rparr>) m;
                     m = (case p_header (pool_at m p) of
                            Some a \<Rightarrow> set_env (vcos_free ops a (env (ctx m))) m
                          | None \<Rightarrow> m);
                     (array, w) = vcos_calloc ops
                        (header_size (pool_at m p) * headers + ROUND_UP (sizeof_ptr abi * headers) 8)
                        (env (ctx m));
                     m = upd_pool p (\<lambda>r. r\<lparr>p_header := array\<rparr>) (set_env w m)
                 in if array = None then (False, m)
                    else (True, upd_pool p (\<lambda>r. r\<lparr>headers_alloc_num := headers\<rparr>) m)
               else (True, m));
            if \<not> ok then Some (MMAL_ENOMEM, m)
            else do {
              let m = upd_pool p (\<lambda>r. r\<lparr>p_payload_size := psize\<rparr>) m;
              (_, m) \<leftarrow> mmal_pool_initialise_buffer_headers ops abi p headers True m;
              Some (MMAL_SUCCESS, put_headers p m)
            }
          })"

subsection \<open>Callbacks\<close>

definition mmal_pool_buffer_header_release :: "'w env_ops \<Rightarrow> addr \<Rightarrow> 'w pmem \<Rightarrow> 'w pmem option" where
  "mmal_pool_buffer_header_release ops a m =
     (case owner (bufs m a) of
        None \<Rightarrow> None
      | Some p \<Rightarrow> do {
          let m = upd_buf a (\<lambda>b. b\<lparr>refcount := 1\<rparr>) m;
          (queue_buffer, m) \<leftarrow>
             (case p_cb (pool_at m p) of
                None \<Rightarrow> Some (True, m)
              | Some f \<Rightarrow> client_cb ops f p a (p_userdata (pool_at m p)) m);
          if queue_buffer
          then
            let (q, h) = mmal_queue_put (p_queue (pool_at m p)) (bufs m) (Some a)
            in Some (upd_pool p (\<lambda>r. r\<lparr>p_queue := q\<rparr>) (m\<lparr>bufs := h\<rparr>))
          else Some m
        })"

definition mmal_pool_callback_set :: "addr \<Rightarrow> nat option \<Rightarrow> ptr \<Rightarrow> 'w pmem \<Rightarrow> 'w pmem" where
  "mmal_pool_callback_set p cb userdata = upd_pool p (\<lambda>r. r\<lparr>p_cb := cb, p_userdata := userdata\<rparr>)"

fun set_pre_release :: "nat \<Rightarrow> addr \<Rightarrow> nat \<Rightarrow> nat option \<Rightarrow> ptr \<Rightarrow> bheap \<Rightarrow> bheap" where
  "set_pre_release 0 hdr step cb userdata h = h"
| "set_pre_release (Suc n) hdr step cb userdata h =
     set_pre_release n (hdr + step) step cb userdata
       (mmal_buffer_header_pre_release_cb_set hdr cb userdata h)"

definition mmal_pool_pre_release_callback_set ::
    "abi \<Rightarrow> addr \<Rightarrow> nat option \<Rightarrow> ptr \<Rightarrow> 'w pmem \<Rightarrow> 'w pmem option" where
  "mmal_pool_pre_release_callback_set abi p cb userdata m =
     (let pool = pool_at m p in
      map_option (\<lambda>hdr. m\<lparr>bufs := set_pre_release (unat (headers_num pool)) hdr
                            (unat (header_size pool)) cb userdata (bufs m)\<rparr>)
        (header_base abi pool (headers_num pool)))"

text \<open>The callbacks of \<open>mmal_buffer_header_release\<close> for headers of pools.\<close>

definition pool_callbacks ::
    "'w env_ops \<Rightarrow> (nat \<Rightarrow> addr \<Rightarrow> ptr \<Rightarrow> 'w pmem \<Rightarrow> (bool \<times> 'w pmem) option) \<Rightarrow> 'w pool_ctx callbacks" where
  "pool_callbacks ops pre = \<lparr>
     call_release = (\<lambda>f a m. if f = pool_release_fn then mmal_pool_buffer_header_release ops a m else None),
     call_pre_release = pre\<rparr>"

subsection \<open>Headers of a pool\<close>

text \<open>A header as the pool hands it out.\<close>

definition ready_header :: "addr \<Rightarrow> mmal_pool \<Rightarrow> mmal_buffer_header \<Rightarrow> bool" where
  "ready_header p pool b \<longleftrightarrow> owner b = Some p \<and> pf_release b = Some pool_release_fn
     \<and> refcount b = 1 \<and> reference b = None \<and> pf_pre_release b = None
     \<and> bh_alloc_size b = p_payload_size pool \<and> bh_data b = payload b
     \<and> (p_payload_size pool \<noteq> 0 \<longrightarrow> payload b \<noteq> None)"

text \<open>The allocator of the pool never fails.\<close>

definition alloc_succeeds :: "'w env_ops \<Rightarrow> mmal_pool \<Rightarrow> bool" where
  "alloc_succeeds ops pool \<longleftrightarrow> (\<exists>f. allocator_alloc pool = Some f
     \<and> (\<forall>w. fst (payload_alloc ops f (allocator_context pool) (p_payload_size pool) w) \<noteq> None))"

lemma ready_setup:
  "p_payload_size pool \<noteq> 0 \<longrightarrow> pl \<noteq> None \<Longrightarrow> ready_header p pool (setup_header p pool pl zero_header)"
  by (simp add: ready_header_def setup_header_def zero_header_def)

lemma init_headers_step:
  assumes "mmal_buffer_header_size abi \<le> header_size (pool_at m p)"
    and "alloc_succeeds ops (pool_at m p)"
  obtains pl' m' where
    "init_headers ops abi p True (Suc n) i hdr pl m =
       init_headers ops abi p True n (i + 1) (hdr + unat (header_size (pool_at m p))) pl' m'"
    "bufs m' = (bufs m)(hdr := bufs m' hdr)" "ready_header p (pool_at m p) (bufs m' hdr)"
    "pool_at m' p = (pool_at m p)\<lparr>header_tab := (header_tab (pool_at m p))(i := Some hdr),
       headers_num := of_nat (i + 1)\<rparr>"
proof -
  have size: "\<not> header_size (pool_at m p) < mmal_buffer_header_size abi"
    using assms(1) by simp
  let ?m0 = "m\<lparr>bufs := (bufs m)(hdr := zero_header)\<rparr>"
  let ?next = "\<lambda>pl m. upd_pool p (\<lambda>q. q\<lparr>headers_num := of_nat (i + 1)\<rparr>)
      (upd_pool p (\<lambda>q. q\<lparr>header_tab := (header_tab q)(i := Some hdr)\<rparr>)
        (upd_buf hdr (setup_header p (pool_at m p) pl) m))"
  have same: "pool_at ?m0 p = pool_at m p" by (simp add: pool_at_def)
  show thesis
  proof (cases "p_payload_size (pool_at m p) = 0")
    case True
    have "free_header_payload ops hdr ?m0 = Some ?m0"
      by (simp add: free_header_payload_def zero_header_def)
    with True size have "init_headers ops abi p True (Suc n) i hdr pl m =
        init_headers ops abi p True n (i + 1) (hdr + unat (header_size (pool_at m p))) pl (?next pl ?m0)"
      by (simp add: mmal_buffer_header_initialise_def Let_def same)
    then show thesis
      by (rule that) (use True in \<open>simp_all add: same ready_setup\<close>)
  next
    case False
    obtain f where f: "allocator_alloc (pool_at m p) = Some f"
      using assms(2) by (auto simp: alloc_succeeds_def)
    obtain a w where a: "payload_alloc ops f (allocator_context (pool_at m p))
        (p_payload_size (pool_at m p)) (env (ctx m)) = (Some a, w)"
      using assms(2) f by (metis alloc_succeeds_def option.exhaust option.inject prod.collapse)
    have "init_headers ops abi p True (Suc n) i hdr pl m =
        init_headers ops abi p True n (i + 1) (hdr + unat (header_size (pool_at m p))) (Some a)
          (?next (Some a) (set_env w ?m0))"
      using False size f a by (simp add: mmal_buffer_header_initialise_def Let_def same)
    then show thesis
      by (rule that) (simp_all add: same ready_setup)
  qed
qed

lemma init_headers_ok:
  assumes "mmal_buffer_header_size abi \<le> header_size (pool_at m p)"
    and "alloc_succeeds ops (pool_at m p)" and "header_size (pool_at m p) \<noteq> 0"
  shows "\<exists>m'. init_headers ops abi p True n i hdr pl m = Some (MMAL_SUCCESS, m')
    \<and> (\<forall>a\<in>set (addr_seq hdr (unat (header_size (pool_at m p))) n).
         ready_header p (pool_at m p) (bufs m' a))
    \<and> (\<forall>a. a \<notin> set (addr_seq hdr (unat (header_size (pool_at m p))) n)
         \<longrightarrow> bufs m' a = bufs m a)
    \<and> pool_at m' p = (pool_at m p)\<lparr>
         header_tab := (\<lambda>k. if i \<le> k \<and> k < i + n
           then Some (addr_seq hdr (unat (header_size (pool_at m p))) n ! (k - i))
           else header_tab (pool_at m p) k),
         headers_num := (if n = 0 then headers_num (pool_at m p) else of_nat (i + n))\<rparr>"
  using assms
proof (induction n arbitrary: i hdr pl m)
  case 0
  have [simp]: "(i \<le> k \<and> k < i) = False" for k by simp
  show ?case by simp (simp add: addr_seq_def)
next
  case (Suc n)
  let ?s = "unat (header_size (pool_at m p))"
  obtain pl1 m1 where s:
    "init_headers ops abi p True (Suc n) i hdr pl m =
       init_headers ops abi p True n (i + 1) (hdr + ?s) pl1 m1"
    "bufs m1 = (bufs m)(hdr := bufs m1 hdr)" "ready_header p (pool_at m p) (bufs m1 hdr)"
    "pool_at m1 p = (pool_at m p)\<lparr>header_tab := (header_tab (pool_at m p))(i := Some hdr),
       headers_num := of_nat (i + 1)\<rparr>"
    using Suc.prems(1,2) by (rule init_headers_step)
  have eq: "header_size (pool_at m1 p) = header_size (pool_at m p)"
    "alloc_succeeds ops (pool_at m1 p)" "ready_header p (pool_at m1 p) = ready_header p (pool_at m p)"
    using s(4) Suc.prems(2) by (auto simp: alloc_succeeds_def ready_header_def fun_eq_iff)
  have pos: "?s > 0" using Suc.prems(3) by (simp add: unat_gt_0)
  note IH = Suc.IH [of m1 "i + 1" "hdr + ?s" pl1, unfolded eq(1)]
  obtain m2 where m2: "init_headers ops abi p True n (i + 1) (hdr + ?s) pl1 m1 = Some (MMAL_SUCCESS, m2)"
    "\<forall>a\<in>set (addr_seq (hdr + ?s) ?s n). ready_header p (pool_at m p) (bufs m2 a)"
    "\<forall>a. a \<notin> set (addr_seq (hdr + ?s) ?s n) \<longrightarrow> bufs m2 a = bufs m1 a"
    "pool_at m2 p = (pool_at m1 p)\<lparr>
         header_tab := (\<lambda>k. if i + 1 \<le> k \<and> k < i + 1 + n
           then Some (addr_seq (hdr + ?s) ?s n ! (k - (i + 1)))
           else header_tab (pool_at m1 p) k),
         headers_num := (if n = 0 then headers_num (pool_at m1 p) else of_nat (i + 1 + n))\<rparr>"
    using IH Suc.prems eq by auto
  have h2: "bufs m2 hdr = bufs m1 hdr" using m2(3) addr_seq_not_in [OF pos] by blast
  have tab: "(\<lambda>k. if i + 1 \<le> k \<and> k < i + 1 + n
        then Some (addr_seq (hdr + ?s) ?s n ! (k - (i + 1)))
        else ((header_tab (pool_at m p))(i := Some hdr)) k) =
      (\<lambda>k. if i \<le> k \<and> k < i + Suc n
        then Some (addr_seq hdr ?s (Suc n) ! (k - i)) else header_tab (pool_at m p) k)"
    by (auto simp: addr_seq_Suc nth_Cons' fun_eq_iff)
  have "pool_at m2 p = (pool_at m p)\<lparr>
         header_tab := (\<lambda>k. if i \<le> k \<and> k < i + Suc n
           then Some (addr_seq hdr ?s (Suc n) ! (k - i)) else header_tab (pool_at m p) k),
         headers_num := of_nat (i + Suc n)\<rparr>"
    unfolding m2(4) s(4) tab [symmetric] by (auto simp: fun_eq_iff)
  moreover have "\<forall>a\<in>set (addr_seq hdr ?s (Suc n)). ready_header p (pool_at m p) (bufs m2 a)"
    using m2(2) s(3) h2 by (simp add: addr_seq_Suc)
  moreover have "\<forall>a. a \<notin> set (addr_seq hdr ?s (Suc n)) \<longrightarrow> bufs m2 a = bufs m a"
    using m2(3) s(2) by (metis fun_upd_other addr_seq_Suc list.set_intros(1,2))
  ultimately show ?case using m2(1) s(1) by auto
qed

lemma put_header_step:
  assumes "p_queue (pool_at m p) = Some q" and "header_tab (pool_at m p) i = Some a"
    and "bq.balanced (bufs m) q xs n" and "a \<notin> set xs"
  obtains q' m' where "put_header p m i = m'" and "p_queue (pool_at m' p) = Some q'"
    and "bq.balanced (bufs m') q' (xs @ [a]) n" and "only_links (bufs m) (bufs m')"
    and "pool_at m' p = (pool_at m p)\<lparr>p_queue := Some q'\<rparr>"
proof -
  obtain q' h' where *: "queue_put q (bufs m) a = (q', h')" "only_links (bufs m) h'"
    using assms(3,4) queue_put_qrep [of "bufs m" q xs a] by (auto simp: bq.balanced_def)
  have "bq.balanced h' q' (xs @ [a]) n"
    using assms(3,4) *(1) by (rule bq.balanced_put)
  with * assms(1,2) that show thesis
    by (simp add: put_header_def pool_at_def upd_pool_def)
qed

lemma put_headers_foldl:
  assumes "p_queue (pool_at m p) = Some q" and "\<forall>i\<in>set is. header_tab (pool_at m p) i = Some (f i)"
    and "bq.balanced (bufs m) q xs n" and "distinct (map f is)" and "set (map f is) \<inter> set xs = {}"
  shows "\<exists>q'. let m' = foldl (put_header p) m is in
    p_queue (pool_at m' p) = Some q' \<and> bq.balanced (bufs m') q' (xs @ map f is) n
    \<and> only_links (bufs m) (bufs m') \<and> pool_at m' p = (pool_at m p)\<lparr>p_queue := Some q'\<rparr>"
  using assms
proof (induction "is" arbitrary: m q xs)
  case Nil
  then show ?case by (auto simp: Let_def)
next
  case (Cons i "is")
  then have i: "header_tab (pool_at m p) i = Some (f i)" "f i \<notin> set xs" by auto
  obtain q1 m1 where 1: "put_header p m i = m1" "p_queue (pool_at m1 p) = Some q1"
      "bq.balanced (bufs m1) q1 (xs @ [f i]) n" "only_links (bufs m) (bufs m1)"
      "pool_at m1 p = (pool_at m p)\<lparr>p_queue := Some q1\<rparr>"
    using put_header_step [OF Cons.prems(1) i(1) Cons.prems(3) i(2)] by metis
  show ?case
    using Cons.IH [OF 1(2) _ 1(3)] Cons.prems(2,4,5) 1(1,4,5)
    by (auto simp: Let_def intro: only_links_trans)
qed

lemma only_links_ready: "only_links h h' \<Longrightarrow> ready_header p pool (h a) \<Longrightarrow> ready_header p pool (h' a)"
proof -
  assume "only_links h h'" and r: "ready_header p pool (h a)"
  then have e: "(h' a)\<lparr>bh_next := None\<rparr> = (h a)\<lparr>bh_next := None\<rparr>"
    by (simp add: only_links_def)
  have u: "ready_header p pool b = ready_header p pool (b\<lparr>bh_next := None\<rparr>)" for b
    by (simp add: ready_header_def)
  show ?thesis using r u [of "h a"] u [of "h' a"] e by simp
qed

text \<open>When the allocations succeed, creating a pool returns it with as many headers as asked
  for, at distinct addresses; every header carries one reference, the payload size and the pool as
  its owner; and the pool's queue holds all of them, in the order of the header array, each with
  one semaphore token.\<close>

theorem pool_create_complete:
  assumes "queue_parts ops (env (ctx m)) = (True, True, True)"
    and "\<And>n w. fst (vcos_calloc ops n w) \<noteq> None"
    and "\<And>n w. fst (vcos_malloc ops n w) \<noteq> None"
    and "unat (mmal_buffer_header_size abi) + 8 < 2 ^ 32"
  shows "\<exists>p m' q hdrs. mmal_pool_create ops abi psz headers psize m = Some (Some p, m')
    \<and> p_queue (pool_at m' p) = Some q \<and> headers_num (pool_at m' p) = headers
    \<and> p_payload_size (pool_at m' p) = psize
    \<and> length hdrs = unat headers \<and> qrep (bufs m') q hdrs \<and> q_sem q = unat headers
    \<and> (\<forall>i<unat headers. header_tab (pool_at m' p) i = Some (hdrs ! i))
    \<and> (\<forall>a\<in>set hdrs. ready_header p (pool_at m' p) (bufs m' a))"
proof -
  define hs where "hs = ROUND_UP (mmal_buffer_header_size abi) 8"
  have hs: "mmal_buffer_header_size abi \<le> hs" "unat hs > 0"
    using ROUND_UP_bounds(2) [OF assms(4)] by (auto simp: hs_def word_le_nat_alt)
  obtain p w where p: "vcos_calloc ops (ROUND_UP psz 8) (env (ctx m)) = (Some p, w)"
    using assms(2) by (metis option.exhaust prod.collapse)
  obtain a w' where a: "vcos_calloc ops (ROUND_UP (sizeof_ptr abi * headers) 8 + hs * headers) w =
      (Some a, w')"
    using assms(2) by (metis option.exhaust prod.collapse)
  obtain q0 where q0: "mmal_queue_create True True True = Some q0"
    by (simp add: mmal_queue_create_def)
  define pool where "pool = zero_pool\<lparr>p_queue := Some q0, p_header := Some a, header_size := hs,
      p_payload_size := psize, headers_alloc_num := headers, allocator_alloc := Some 0,
      allocator_free := Some 0, allocator_context := None\<rparr>"
  define m1 where "m1 = upd_pool p (\<lambda>_. pool) (set_env w' m)"
  have m1: "pool_at m1 p = pool" by (simp add: m1_def)
  define base where "base = a + unat (ROUND_UP (sizeof_ptr abi * headers) 8)"
  define hdrs where "hdrs = addr_seq base (unat hs) (unat headers)"
  have "alloc_succeeds ops pool"
    using assms(3) by (simp add: alloc_succeeds_def pool_def payload_alloc_def)
  moreover have pf: "header_size pool = hs" "headers_num pool = 0" "header_tab pool = (\<lambda>_. None)"
    by (simp_all add: pool_def zero_pool_def)
  ultimately obtain m2 where m2: "init_headers ops abi p True (unat headers) 0 base None m1 =
      Some (MMAL_SUCCESS, m2)" "\<forall>a\<in>set hdrs. ready_header p pool (bufs m2 a)"
    and t: "pool_at m2 p = pool\<lparr>header_tab := (\<lambda>k. if 0 \<le> k \<and> k < 0 + unat headers
           then Some (hdrs ! (k - 0)) else None),
         headers_num := (if unat headers = 0 then 0 else of_nat (0 + unat headers))\<rparr>"
    using init_headers_ok [of abi m1 p ops "unat headers" 0 base None, unfolded m1 pf] hs
    unfolding hdrs_def by (auto simp: unat_gt_0)
  have m3: "pool_at m2 p = pool\<lparr>header_tab := (\<lambda>k. if k < unat headers then Some (hdrs ! k) else None),
       headers_num := headers\<rparr>"
    unfolding t by (auto simp: unat_eq_zero cong: if_cong)
  have init: "mmal_pool_initialise_buffer_headers ops abi p headers True m1 = Some (MMAL_SUCCESS, m2)"
  proof (cases "headers = 0")
    case True
    then show ?thesis using m2(1) by (simp add: mmal_pool_initialise_buffer_headers_def)
  next
    case False
    then show ?thesis using m2(1)
      by (simp add: mmal_pool_initialise_buffer_headers_def header_base_def m1 base_def)
        (simp add: pool_def)
  qed
  have create: "mmal_pool_create ops abi psz headers psize m = Some (Some p, put_headers p m2)"
    using p a q0 init assms(1)
    by (simp add: mmal_pool_create_def mmal_pool_create_with_allocator_def Let_def hs_def
        m1_def pool_def)
  have len: "length hdrs = unat headers" by (simp add: hdrs_def addr_seq_def)
  have map: "map ((!) hdrs) [0..<unat headers] = hdrs"
    using len map_nth [of hdrs] by simp
  have "bq.balanced (bufs m2) q0 [] 0"
    using queue_create_qrep [OF q0] by (simp add: bq.balanced_def)
  moreover have "p_queue (pool_at m2 p) = Some q0" by (simp add: m3 pool_def)
  moreover have "distinct hdrs" using hs(2) by (simp add: hdrs_def addr_seq_distinct)
  ultimately obtain q where
    q: "p_queue (pool_at (put_headers p m2) p) = Some q" "bq.balanced (bufs (put_headers p m2)) q hdrs 0"
      "only_links (bufs m2) (bufs (put_headers p m2))"
      "pool_at (put_headers p m2) p = (pool_at m2 p)\<lparr>p_queue := Some q\<rparr>"
    using put_headers_foldl [of m2 p q0 "[0..<unat headers]" "(!) hdrs" "[]" 0] map
    by (auto simp: put_headers_def m3 Let_def)
  have "ready_header p (pool_at (put_headers p m2) p) = ready_header p pool"
    by (simp add: q(4) m3 ready_header_def fun_eq_iff)
  with create q m2 m3 len only_links_ready [OF q(3)] show ?thesis
    by (intro exI [of _ p] exI [of _ "put_headers p m2"] exI [of _ q] exI [of _ hdrs])
      (auto simp: bq.balanced_def pool_def)
qed

definition demo_ops :: "nat env_ops" where
  "demo_ops = \<lparr>vcos_malloc = (\<lambda>n w. (Some w, w + unat n + 1)), vcos_calloc = (\<lambda>n w. (Some w, w + unat n + 1)),
     vcos_free = (\<lambda>a w. w), queue_parts = (\<lambda>w. (True, True, True)),
     client_alloc = (\<lambda>f c n w. (None, w)), client_free = (\<lambda>f c a m. Some m),
     client_cb = (\<lambda>f p a u m. Some (False, m))\<rparr>"

definition demo_abi :: abi where
  "demo_abi = \<lparr>sizeof_header = 60, sizeof_type = 40, sizeof_priv = 80, sizeof_ptr = 4\<rparr>"

definition demo_pmem :: "nat pmem" where
  "demo_pmem = \<lparr>bufs = (\<lambda>_. zero_header), ctx = \<lparr>pools = (\<lambda>_. zero_pool), env = 1000\<rparr>\<rparr>"

theorem pool_create_complete_witness:
  "\<exists>p m' q hdrs. mmal_pool_create demo_ops demo_abi 60 3 100 demo_pmem = Some (Some p, m')
    \<and> length hdrs = 3 \<and> qrep (bufs m') q hdrs \<and> q_sem q = 3"
proof -
  have "unat (mmal_buffer_header_size demo_abi) + 8 < 2 ^ 32"
    by (simp add: mmal_buffer_header_size_def demo_abi_def ROUND_UP_def)
  from pool_create_complete [OF _ _ _ this, of demo_ops demo_pmem 60 3 100] show ?thesis
    by (auto simp: demo_ops_def)
qed

text \<open>C20. Buffers are recycled: when the last reference to a header of a pool without a client
  callback is dropped, the header goes to the end of the pool's queue, emptied and holding one
  reference again with its payload in place, the semaphore gains one token, and nothing of any
  other header changes but links of the queue.\<close>

theorem buffer_recycled:
  assumes "refcount (bufs m a) = 1" and "pf_pre_release (bufs m a) = None"
    and "reference (bufs m a) = None" and "pf_release (bufs m a) = Some pool_release_fn"
    and "owner (bufs m a) = Some p" and "p_cb (pool_at m p) = None"
    and "p_queue (pool_at m p) = Some q" and "qrep (bufs m) q xs" and "a \<notin> set xs"
  shows "\<exists>m' q'. mmal_buffer_header_release (pool_callbacks ops pre) a m = Some m'
    \<and> p_queue (pool_at m' p) = Some q' \<and> qrep (bufs m') q' (xs @ [a]) \<and> q_sem q' = q_sem q + 1
    \<and> refcount (bufs m' a) = 1 \<and> bh_length (bufs m' a) = 0 \<and> bh_flags (bufs m' a) = 0
    \<and> bh_pts (bufs m' a) = MMAL_TIME_UNKNOWN
    \<and> bh_data (bufs m' a) = bh_data (bufs m a) \<and> payload (bufs m' a) = payload (bufs m a)
    \<and> only_links ((bufs m)(a := bufs m' a)) (bufs m')"
proof -
  define b where "b = (reset_fields (bufs m a))\<lparr>reference := None, refcount := 1\<rparr>"
  define h where "h = (bufs m)(a := b)"
  have h: "qrep h q xs"
    by (rule qrep_links [OF assms(8)]) (use assms(9) in \<open>auto simp: h_def\<close>)
  obtain q' h' where put: "queue_put q h a = (q', h')" "qrep h' q' (xs @ [a])" "q_sem q' = q_sem q + 1"
      "only_links h h'"
    using queue_put_qrep [OF h assms(9)] by blast
  have "(h' a)\<lparr>bh_next := None\<rparr> = b\<lparr>bh_next := None\<rparr>"
    using put(4) by (simp add: only_links_def h_def)
  then have "h' a = b\<lparr>bh_next := bh_next (h' a)\<rparr>"
    by (metis mmal_buffer_header.surjective mmal_buffer_header.update_convs(1))
  then obtain l where l: "h' a = b\<lparr>bh_next := l\<rparr>" by blast
  define m1 where "m1 = upd_buf a (\<lambda>b. reset_fields b\<lparr>reference := None\<rparr>)
      (upd_buf a (\<lambda>b. b\<lparr>refcount := 0\<rparr>) m)"
  have "bufs (upd_buf a (\<lambda>b. b\<lparr>refcount := 1\<rparr>) m1) = h"
    by (simp add: m1_def h_def b_def reset_fields_def)
  moreover have "pool_at m1 p = pool_at m p" "owner (bufs m1 a) = Some p"
    using assms(5) by (simp_all add: m1_def reset_fields_def)
  ultimately have cb: "call_release (pool_callbacks ops pre) pool_release_fn a m1 =
      Some (upd_pool p (\<lambda>r. r\<lparr>p_queue := Some q'\<rparr>) ((upd_buf a (\<lambda>b. b\<lparr>refcount := 1\<rparr>) m1)\<lparr>bufs := h'\<rparr>))"
    using assms(6,7) put(1)
    by (simp add: pool_callbacks_def mmal_pool_buffer_header_release_def Let_def)
  have "mmal_buffer_header_release (pool_callbacks ops pre) a m =
      call_release (pool_callbacks ops pre) pool_release_fn a m1"
    unfolding m1_def using assms
    by (simp add: release_last release_continue_no_reference)
  moreover have "only_links ((bufs m)(a := h' a)) h'"
    using put(4) by (auto simp: only_links_def h_def)
  ultimately show ?thesis
    using put l by (auto simp: cb b_def reset_fields_def)
qed

definition demo_recycle :: "nat pmem" where
  "demo_recycle = \<lparr>bufs = (\<lambda>_. zero_header\<lparr>refcount := 1, owner := Some 7,
       pf_release := Some pool_release_fn, bh_length := 5\<rparr>),
     ctx = \<lparr>pools = (\<lambda>_. zero_pool\<lparr>p_queue := Some empty_queue\<rparr>), env = 0\<rparr>\<rparr>"

theorem buffer_recycled_witness:
  "\<exists>m' q'. mmal_buffer_header_release (pool_callbacks demo_ops (\<lambda>f a u m. Some (False, m))) 3 demo_recycle = Some m'
    \<and> p_queue (pool_at m' 7) = Some q' \<and> qrep (bufs m') q' [3] \<and> bh_length (bufs m' 3) = 0"
  using buffer_recycled [of demo_recycle 3 7 empty_queue "[]" demo_ops "\<lambda>f a u m. Some (False, m)"]
  by (fastforce simp: demo_recycle_def zero_header_def zero_pool_def pool_at_def empty_queue_def qrep_def)

end
