(* ===== verification/Rational.thy ===== *)
theory Rational
  imports Types Complex_Main
begin

text \<open>
  mmal/util/mmal_util_rational.c: rational arithmetic over 32-bit numerators and
  denominators. The operands are \<open>int\<close>s; every 32-bit intermediate value of the source goes
  through \<open>chk32\<close>, so \<open>None\<close> is a signed overflow (undefined behaviour) or, for the loops of
  \<open>gcd\<close>, a loop that never ends. The 64-bit intermediates of \<open>mmal_rational_equal\<close> and of the
  Q16 conversion cannot overflow on 32-bit inputs.
\<close>

subsection \<open>The division-free greatest common divisor\<close>

text \<open>\<open>for (shift = 0; !((a | b) & 0x01); shift++) a >>= 1, b >>= 1;\<close>\<close>

partial_function (option) gcd_shift :: "int \<Rightarrow> int \<Rightarrow> nat \<Rightarrow> (int \<times> int \<times> nat) option" where
  "gcd_shift a b shift =
     (if odd a \<or> odd b then Some (a, b, shift)
      else gcd_shift (a div 2) (b div 2) (Suc shift))"

text \<open>\<open>while (!(a & 0x01)) a >>= 1;\<close>\<close>

partial_function (option) strip_twos :: "int \<Rightarrow> int option" where
  "strip_twos a = (if odd a then Some a else strip_twos (a div 2))"

partial_function (option) gcd_loop :: "int \<Rightarrow> int \<Rightarrow> int option" where
  "gcd_loop a b =
     (if a > 0
      then do {
        a \<leftarrow> strip_twos a;
        b \<leftarrow> strip_twos b;
        if a \<ge> b then gcd_loop ((a - b) div 2) b else gcd_loop a ((b - a) div 2)
      }
      else Some b)"

definition mmal_gcd :: "int \<Rightarrow> int \<Rightarrow> int option" where
  "mmal_gcd a b =
     (if a = 0 \<or> b = 0 then Some 1
      else do {
        a \<leftarrow> chk32 \<bar>a\<bar>;
        b \<leftarrow> chk32 \<bar>b\<bar>;
        (a, b, shift) \<leftarrow> gcd_shift a b 0;
        b \<leftarrow> gcd_loop a b;
        chk32 (b * 2 ^ shift)
      })"

subsection \<open>The operations\<close>

definition mmal_rational_add :: "mmal_rational \<Rightarrow> mmal_rational \<Rightarrow> mmal_rational option" where
  "mmal_rational_add a b = do {
     g \<leftarrow> mmal_gcd (den a) (den b);
     aden \<leftarrow> chk32 (cdiv (den a) g);
     p \<leftarrow> chk32 (num a * cdiv (den b) g);
     q \<leftarrow> chk32 (num b * aden);
     anum \<leftarrow> chk32 (p + q);
     g \<leftarrow> mmal_gcd anum g;
     anum \<leftarrow> chk32 (cdiv anum g);
     aden \<leftarrow> chk32 (aden * cdiv (den b) g);
     Some \<lparr>num = anum, den = aden\<rparr>
   }"

definition mmal_rational_subtract ::
    "mmal_rational \<Rightarrow> mmal_rational \<Rightarrow> mmal_rational option" where
  "mmal_rational_subtract a b = do {
     bnum \<leftarrow> chk32 (- num b);
     mmal_rational_add a (b\<lparr>num := bnum\<rparr>)
   }"

definition mmal_rational_multiply ::
    "mmal_rational \<Rightarrow> mmal_rational \<Rightarrow> mmal_rational option" where
  "mmal_rational_multiply a b = do {
     gcd1 \<leftarrow> mmal_gcd (num a) (den b);
     gcd2 \<leftarrow> mmal_gcd (num b) (den a);
     n \<leftarrow> chk32 (cdiv (num a) gcd1 * cdiv (num b) gcd2);
     d \<leftarrow> chk32 (cdiv (den a) gcd2 * cdiv (den b) gcd1);
     Some \<lparr>num = n, den = d\<rparr>
   }"

text \<open>\<open>vcos_assert(0)\<close> is compiled out in the builds that define no \<open>VCOS_ASSERT_ENABLED\<close>;
  the code then returns \<open>a\<close>.\<close>

definition mmal_rational_divide ::
    "mmal_rational \<Rightarrow> mmal_rational \<Rightarrow> mmal_rational option" where
  "mmal_rational_divide a b =
     (if num b = 0 then Some a
      else if num a = 0 then Some a
      else do {
        gcd1 \<leftarrow> mmal_gcd (num a) (num b);
        gcd2 \<leftarrow> mmal_gcd (den b) (den a);
        n \<leftarrow> chk32 (cdiv (num a) gcd1 * cdiv (den b) gcd2);
        d \<leftarrow> chk32 (cdiv (den a) gcd2 * cdiv (num b) gcd1);
        Some \<lparr>num = n, den = d\<rparr>
      })"

definition mmal_rational_to_fixed_16_16 :: "mmal_rational \<Rightarrow> int" where
  "mmal_rational_to_fixed_16_16 r =
     (let result = num r * 2 ^ 16;
          result = (if den r \<noteq> 0 then cdiv result (den r) else result)
      in if result > int32_max then int32_max
         else if result < int32_min then int32_min
         else result)"

definition mmal_rational_simplify :: "mmal_rational \<Rightarrow> mmal_rational option" where
  "mmal_rational_simplify r = do {
     g \<leftarrow> mmal_gcd (num r) (den r);
     Some \<lparr>num = cdiv (num r) g, den = cdiv (den r) g\<rparr>
   }"

definition mmal_rational_from_fixed_16_16 :: "int \<Rightarrow> mmal_rational option" where
  "mmal_rational_from_fixed_16_16 fixed =
     mmal_rational_simplify \<lparr>num = fixed, den = 65536\<rparr>"

definition mmal_rational_equal :: "mmal_rational \<Rightarrow> mmal_rational \<Rightarrow> bool" where
  "mmal_rational_equal a b =
     (if num a \<noteq> num b \<and> num a * num b = 0 then False
      else num a * den b = num b * den a)"

lemmas rational_ops =
  mmal_rational_add_def mmal_rational_subtract_def mmal_rational_multiply_def
  mmal_rational_divide_def mmal_rational_simplify_def

subsection \<open>The loops of gcd end and compute the greatest common divisor\<close>

lemma gcd_odd_half: "even (a :: int) \<Longrightarrow> odd b \<Longrightarrow> gcd (a div 2) b = gcd a b"
  by (metis coprime_commute coprime_left_2_iff_odd dvd_div_mult_self gcd_mult_left_right_cancel)

lemma gcd_shift_correct:
  assumes "a > 0" and "b > 0"
  shows "\<exists>a' b' k. gcd_shift a b s = Some (a', b', s + k) \<and> a = a' * 2 ^ k \<and> b = b' * 2 ^ k
           \<and> (odd a' \<or> odd b') \<and> a' > 0 \<and> b' > 0"
  using assms
proof (induction "nat a" arbitrary: a b s rule: less_induct)
  case less
  show ?case
  proof (cases "odd a \<or> odd b")
    case True
    with less.prems show ?thesis
      by (intro exI [of _ a] exI [of _ b] exI [of _ 0]) (simp add: gcd_shift.simps)
  next
    case False
    then have "nat (a div 2) < nat a" "a div 2 > 0" "b div 2 > 0"
      using less.prems by (auto elim!: evenE)
    from less.hyps [OF this, of "Suc s"] obtain a' b' k where
      "gcd_shift (a div 2) (b div 2) (Suc s) = Some (a', b', Suc s + k)"
      "a div 2 = a' * 2 ^ k" "b div 2 = b' * 2 ^ k" "odd a' \<or> odd b'" "a' > 0" "b' > 0"
      by blast
    with False show ?thesis
      by (intro exI [of _ a'] exI [of _ b'] exI [of _ "Suc k"])
        (auto simp: gcd_shift.simps [of a] elim!: evenE)
  qed
qed

lemma strip_twos_correct:
  assumes "a > 0"
  shows "\<exists>a'. strip_twos a = Some a' \<and> odd a' \<and> 0 < a' \<and> a' \<le> a
           \<and> (\<forall>b. odd b \<longrightarrow> gcd a' b = gcd a b)"
  using assms
proof (induction "nat a" arbitrary: a rule: less_induct)
  case less
  show ?case
  proof (cases "odd a")
    case True
    with less.prems show ?thesis by (simp add: strip_twos.simps)
  next
    case False
    then have "nat (a div 2) < nat a" "a div 2 > 0" "a div 2 \<le> a"
      using less.prems by (auto elim!: evenE)
    from less.hyps [OF this(1,2)] this(3) False show ?thesis
      by (auto simp: strip_twos.simps [of a] gcd_odd_half)
  qed
qed

lemma strip_twos_odd: "odd a \<Longrightarrow> strip_twos a = Some a"
  by (simp add: strip_twos.simps)

lemma gcd_loop_correct:
  assumes "a \<ge> 0" and "b > 0" and "odd a \<or> odd b" and "a = 0 \<longrightarrow> odd b"
  shows "gcd_loop a b = Some (gcd a b)"
  using assms
proof (induction "nat (a + b)" arbitrary: a b rule: less_induct)
  case less
  show ?case
  proof (cases "a > 0")
    case False
    with less.prems show ?thesis by (simp add: gcd_loop.simps)
  next
    case True
    from strip_twos_correct [OF True] obtain a' where
      a': "strip_twos a = Some a'" "odd a'" "0 < a'" "a' \<le> a" "\<And>c. odd c \<Longrightarrow> gcd a' c = gcd a c"
      by blast
    from strip_twos_correct [OF less.prems(2)] obtain b' where
      b': "strip_twos b = Some b'" "odd b'" "0 < b'" "b' \<le> b" "\<And>c. odd c \<Longrightarrow> gcd b' c = gcd b c"
      by blast
    have g: "gcd a' b' = gcd a b"
      using less.prems(3) a' b' by (metis gcd.commute strip_twos_odd option.inject)
    show ?thesis
    proof (cases "a' \<ge> b'")
      case True
      have e: "even (a' - b')" using a' b' by simp
      have "gcd_loop ((a' - b') div 2) b' = Some (gcd ((a' - b') div 2) b')"
        using True a' b' by (intro less.hyps) auto
      also have "gcd ((a' - b') div 2) b' = gcd a' b'"
        using gcd_odd_half [OF e b'(2)] by (simp add: gcd_diff1)
      finally show ?thesis
        using True a' b' \<open>a > 0\<close> g by (simp add: gcd_loop.simps [of a])
    next
      case False
      have e: "even (b' - a')" using a' b' by simp
      have pos: "(b' - a') div 2 > 0" using False e by presburger
      have "gcd_loop a' ((b' - a') div 2) = Some (gcd a' ((b' - a') div 2))"
        using False a' b' pos by (intro less.hyps) auto
      also have "gcd a' ((b' - a') div 2) = gcd a' b'"
        using gcd_odd_half [OF e a'(2)] by (metis gcd.commute gcd_diff1)
      finally show ?thesis
        using False a' b' \<open>a > 0\<close> g by (simp add: gcd_loop.simps [of a])
    qed
  qed
qed

lemma mmal_gcd_abs:
  assumes "in32 \<bar>a\<bar>" and "in32 \<bar>b\<bar>"
  shows "mmal_gcd a b = Some (if a = 0 \<or> b = 0 then 1 else gcd a b)"
proof (cases "a = 0 \<or> b = 0")
  case True
  then show ?thesis by (simp add: mmal_gcd_def)
next
  case False
  then have "\<bar>a\<bar> > 0" "\<bar>b\<bar> > 0" by simp_all
  from gcd_shift_correct [OF this, of 0] obtain a' b' k where
    s: "gcd_shift \<bar>a\<bar> \<bar>b\<bar> 0 = Some (a', b', k)" "\<bar>a\<bar> = a' * 2 ^ k" "\<bar>b\<bar> = b' * 2 ^ k"
      "odd a' \<or> odd b'" "a' > 0" "b' > 0"
    by auto
  have l: "gcd_loop a' b' = Some (gcd a' b')"
    using s by (intro gcd_loop_correct) auto
  have "gcd a b = gcd (2 ^ k * a') (2 ^ k * b')"
    using s(2,3) by (metis gcd_abs1_int gcd_abs2_int mult.commute)
  then have g: "gcd a' b' * 2 ^ k = gcd a b"
    using gcd_mult_distrib_int [of "2 ^ k" a' b'] by (simp add: mult.commute)
  have "gcd a b \<le> \<bar>a\<bar>"
    using False gcd_le1_int [of "\<bar>a\<bar>" "b"] by simp
  with assms(1) gcd_ge_0_int [of a b] have "in32 (gcd a b)"
    unfolding in32_def by linarith
  with False assms s l g show ?thesis by (simp add: mmal_gcd_def)
qed

lemma mmal_gcd_SomeD:
  assumes "mmal_gcd a b = Some g"
  shows "g = (if a = 0 \<or> b = 0 then 1 else gcd a b)" and "g > 0" and "g dvd a" and "g dvd b"
proof -
  show g: "g = (if a = 0 \<or> b = 0 then 1 else gcd a b)"
  proof (cases "a = 0 \<or> b = 0")
    case True
    with assms show ?thesis by (auto simp: mmal_gcd_def)
  next
    case False
    then have "in32 \<bar>a\<bar>" "in32 \<bar>b\<bar>"
      using assms by (auto simp: mmal_gcd_def chk32_def split: bind_splits if_splits)
    with assms show ?thesis by (simp add: mmal_gcd_abs)
  qed
  then show "g > 0" "g dvd a" "g dvd b" by (auto simp: gcd_pos_int)
qed

subsection \<open>The operations compute on the rationals\<close>

definition ratval :: "mmal_rational \<Rightarrow> rat" where
  "ratval r = of_int (num r) / of_int (den r)"

definition small_rational :: "mmal_rational \<Rightarrow> bool" where
  "small_rational r \<longleftrightarrow> \<bar>num r\<bar> < 2 ^ 15 \<and> \<bar>den r\<bar> < 2 ^ 15 \<and> den r \<noteq> 0"

text \<open>The value of an addition, with the divisions replaced by the cofactors.\<close>

lemma add_SomeD:
  assumes "mmal_rational_add a b = Some r" and "den a \<noteq> 0" and "den b \<noteq> 0"
  obtains g x y g' m h where
    "den a = g * x" "den b = g * y" "g > 0" "x \<noteq> 0" "y \<noteq> 0" "coprime x y"
    "num a * y + num b * x = g' * m" "g = g' * h" "g' > 0"
    "num a * y + num b * x \<noteq> 0 \<longrightarrow> coprime m h"
    "r = \<lparr>num = m, den = x * (h * y)\<rparr>"
proof -
  from assms(1) obtain g g' where
    g: "mmal_gcd (den a) (den b) = Some g"
    and g': "mmal_gcd (num a * cdiv (den b) g + num b * cdiv (den a) g) g = Some g'"
    and r: "r = \<lparr>num = cdiv (num a * cdiv (den b) g + num b * cdiv (den a) g) g',
                den = cdiv (den a) g * cdiv (den b) g'\<rparr>"
    by (auto simp: mmal_rational_add_def split: bind_splits)
  note G = mmal_gcd_SomeD [OF g] and G' = mmal_gcd_SomeD [OF g']
  from G(3,4) obtain x y where xy: "den a = g * x" "den b = g * y" by (auto elim!: dvdE)
  from G'(4) obtain h where h: "g = g' * h" by (auto elim!: dvdE)
  have c: "cdiv (den a) g = x" "cdiv (den b) g = y"
    using xy G(2,3,4) by (simp_all add: cdiv_exact)
  from G'(3) obtain m where m: "num a * y + num b * x = g' * m" by (auto simp: c elim!: dvdE)
  have "g' dvd den b" using xy h by simp
  then have c': "cdiv (den b) g' = h * y" "cdiv (num a * y + num b * x) g' = m"
    using xy h m G'(2) by (simp_all add: cdiv_exact)
  have gg: "g = gcd (den a) (den b)" using G(1) assms by simp
  then have "coprime x y"
    using G(2) xy by (metis div_gcd_coprime assms(2) nonzero_mult_div_cancel_left less_irrefl)
  moreover have "coprime m h" if "num a * y + num b * x \<noteq> 0"
  proof -
    have "g' = gcd (num a * y + num b * x) g"
      using G'(1) that G(2) by (simp add: c)
    then show ?thesis
      using m h G'(2) G(2)
      by (metis div_gcd_coprime less_irrefl nonzero_mult_div_cancel_left)
  qed
  ultimately show thesis
    using that [OF xy G(2) _ _ _ m h G'(2)] r c c' xy assms(2,3) by auto
qed

lemma add_value:
  assumes "mmal_rational_add a b = Some r" and "den a \<noteq> 0" and "den b \<noteq> 0"
  shows "den r \<noteq> 0" and "ratval r = ratval a + ratval b"
proof -
  from assms obtain g x y g' m h where
    *: "den a = g * x" "den b = g * y" "g > 0" "x \<noteq> 0" "y \<noteq> 0"
      "coprime x y" "num a * y + num b * x = g' * m" "g = g' * h" "g' > 0"
      "num a * y + num b * x \<noteq> 0 \<longrightarrow> coprime m h" "r = \<lparr>num = m, den = x * (h * y)\<rparr>"
    by (rule add_SomeD)
  then have nz: "h \<noteq> 0" "g \<noteq> 0" "g' \<noteq> 0" by auto
  then show "den r \<noteq> 0" using * by simp
  have "ratval a + ratval b = of_int (num a * y + num b * x) / of_int (g * (x * y))"
    using *(1,2,4,5) nz by (simp add: ratval_def divide_simps)
  also have "\<dots> = of_int (g' * m) / of_int (g' * (x * (h * y)))"
    using * by (simp add: mult.commute mult.left_commute)
  also have "\<dots> = ratval r"
    using * nz by (simp add: ratval_def)
  finally show "ratval r = ratval a + ratval b" by simp
qed

lemma add_lowest_terms:
  assumes "mmal_rational_add a b = Some r" and "den a \<noteq> 0" and "den b \<noteq> 0"
    and "coprime (num a) (den a)" and "coprime (num b) (den b)" and "ratval a + ratval b \<noteq> 0"
  shows "coprime (num r) (den r)"
proof -
  from assms(1-3) obtain g x y g' m h where
    *: "den a = g * x" "den b = g * y" "g > 0" "x \<noteq> 0" "y \<noteq> 0"
      "coprime x y" "num a * y + num b * x = g' * m" "g = g' * h" "g' > 0"
      "num a * y + num b * x \<noteq> 0 \<longrightarrow> coprime m h" "r = \<lparr>num = m, den = x * (h * y)\<rparr>"
    by (rule add_SomeD)
  have "num a * y + num b * x \<noteq> 0"
    using add_value [OF assms(1-3)] assms(6) * by (auto simp: ratval_def)
  with * have mh: "coprime m h" by simp
  have ax: "coprime (num a) x" and by': "coprime (num b) y"
    using assms(4,5) * by simp_all
  have "coprime x (num a * y + num b * x)"
    using ax *(6) gcd_add_mult [of x "num b" "num a * y"]
    by (simp add: coprime_iff_gcd_eq_1 [symmetric] add.commute coprime_commute)
  moreover have "coprime y (num a * y + num b * x)"
    using by' *(6) gcd_add_mult [of y "num a" "num b * x"]
    by (simp add: coprime_iff_gcd_eq_1 [symmetric] coprime_commute)
  ultimately have "coprime m x" "coprime m y" using * by (simp_all add: coprime_commute)
  with mh * show ?thesis by simp
qed

lemma cdiv_small: "\<bar>a\<bar> < n \<Longrightarrow> \<bar>cdiv a g\<bar> < n"
  using cdiv_bound [of a g] by linarith

lemma mult_small: "\<bar>a\<bar> < 2 ^ 15 \<Longrightarrow> \<bar>b\<bar> < 2 ^ 15 \<Longrightarrow> \<bar>a * b\<bar> < (2 :: int) ^ 30"
  using mult_strict_mono [of "\<bar>a\<bar>" "2 ^ 15" "\<bar>b\<bar>" "2 ^ 15"] by (simp add: abs_mult)

lemma in32_small: "\<bar>x\<bar> < 2 ^ 31 \<Longrightarrow> in32 x"
  by (simp add: in32_def abs_less_iff)

lemma mmal_gcd_total: "\<bar>a\<bar> < 2 ^ 31 \<Longrightarrow> \<bar>b\<bar> < 2 ^ 31 \<Longrightarrow> \<exists>g. mmal_gcd a b = Some g"
  by (simp add: mmal_gcd_abs in32_def)

lemma add_total:
  assumes "small_rational a" and "small_rational b"
  shows "\<exists>r. mmal_rational_add a b = Some r"
proof -
  note S = assms [unfolded small_rational_def]
  obtain g where g: "mmal_gcd (den a) (den b) = Some g"
    using S mmal_gcd_total [of "den a" "den b"] by auto
  note G = mmal_gcd_SomeD [OF g]
  have gs: "\<bar>g\<bar> < 2 ^ 15"
    using zdvd_imp_le [of g "\<bar>den a\<bar>"] G(2,3) S(1) by auto
  note d = cdiv_small [of _ "2 ^ 15" g]
  have p: "\<bar>num a * cdiv (den b) g\<bar> < 2 ^ 30" and q: "\<bar>num b * cdiv (den a) g\<bar> < 2 ^ 30"
    by (rule mult_small; use S d [of "den b"] d [of "den a"] in simp)+
  then have t: "\<bar>num a * cdiv (den b) g + num b * cdiv (den a) g\<bar> < 2 ^ 31"
    using abs_triangle_ineq [of "num a * cdiv (den b) g" "num b * cdiv (den a) g"] by simp
  then obtain g' where
    g': "mmal_gcd (num a * cdiv (den b) g + num b * cdiv (den a) g) g = Some g'"
    using mmal_gcd_total [OF t, of g] gs by auto
  have "\<bar>cdiv (den a) g * cdiv (den b) g'\<bar> < 2 ^ 30"
    by (rule mult_small; use S d [of "den a"] cdiv_small [of "den b" "2 ^ 15" g'] in simp)
  moreover have "\<bar>cdiv (num a * cdiv (den b) g + num b * cdiv (den a) g) g'\<bar> < 2 ^ 31"
    using t by (rule cdiv_small)
  moreover have "\<bar>cdiv (den a) g\<bar> < 2 ^ 15" using S d [of "den a"] by simp
  ultimately have "mmal_rational_add a b =
      Some \<lparr>num = cdiv (num a * cdiv (den b) g + num b * cdiv (den a) g) g',
            den = cdiv (den a) g * cdiv (den b) g'\<rparr>"
    using g g' p q t by (simp add: mmal_rational_add_def in32_small)
  then show ?thesis by blast
qed

lemma mult_value:
  assumes "mmal_rational_multiply a b = Some r" and "den a \<noteq> 0" and "den b \<noteq> 0"
  shows "den r \<noteq> 0" and "ratval r = ratval a * ratval b"
proof -
  from assms(1) obtain g h where
    g: "mmal_gcd (num a) (den b) = Some g" and h: "mmal_gcd (num b) (den a) = Some h" and
    r: "r = \<lparr>num = cdiv (num a) g * cdiv (num b) h, den = cdiv (den a) h * cdiv (den b) g\<rparr>"
    by (auto simp: mmal_rational_multiply_def split: bind_splits)
  note G = mmal_gcd_SomeD(2-4) [OF g] and H = mmal_gcd_SomeD(2-4) [OF h]
  then obtain na nb da db where
    *: "num a = g * na" "den b = g * db" "num b = h * nb" "den a = h * da"
    by (auto elim!: dvdE)
  with G(1) H(1) r have r': "r = \<lparr>num = na * nb, den = da * db\<rparr>" by (simp add: cdiv_exact)
  show "den r \<noteq> 0" "ratval r = ratval a * ratval b"
    using * r' assms(2,3) G(1) H(1) by (auto simp: ratval_def)
qed

lemma divide_value:
  assumes "mmal_rational_divide a b = Some r" and "den a \<noteq> 0" and "den b \<noteq> 0" and "num b \<noteq> 0"
  shows "den r \<noteq> 0" and "ratval r = ratval a / ratval b"
proof -
  have "den r \<noteq> 0 \<and> ratval r = ratval a / ratval b"
  proof (cases "num a = 0")
    case True
    with assms show ?thesis by (simp add: mmal_rational_divide_def ratval_def)
  next
    case False
    with assms obtain g h where
      g: "mmal_gcd (num a) (num b) = Some g" and h: "mmal_gcd (den b) (den a) = Some h" and
      r: "r = \<lparr>num = cdiv (num a) g * cdiv (den b) h, den = cdiv (den a) h * cdiv (num b) g\<rparr>"
      by (auto simp: mmal_rational_divide_def split: bind_splits)
    note G = mmal_gcd_SomeD(2-4) [OF g] and H = mmal_gcd_SomeD(2-4) [OF h]
    then obtain na nb da db where
      *: "num a = g * na" "num b = g * nb" "den b = h * db" "den a = h * da"
      by (auto elim!: dvdE)
    with G(1) H(1) r have r': "r = \<lparr>num = na * db, den = da * nb\<rparr>" by (simp add: cdiv_exact)
    show ?thesis
      using * r' assms(2-4) G(1) H(1) by (auto simp: ratval_def)
  qed
  then show "den r \<noteq> 0" "ratval r = ratval a / ratval b" by simp_all
qed

lemma rational_equal_iff:
  assumes "den a \<noteq> 0" and "den b \<noteq> 0"
  shows "mmal_rational_equal a b \<longleftrightarrow> ratval a = ratval b"
proof -
  have "ratval a = ratval b \<longleftrightarrow> num a * den b = num b * den a"
    using assms by (simp add: ratval_def frac_eq_eq flip: of_int_mult)
  then show ?thesis using assms by (auto simp: mmal_rational_equal_def)
qed

lemma to_fixed_range: "in32 (mmal_rational_to_fixed_16_16 r)"
  by (simp add: mmal_rational_to_fixed_16_16_def in32_def Let_def)

text \<open>For any two 32-bit integers other than the least one, the division-free \<open>gcd\<close> of
  mmal_util_rational.c ends without overflow; it returns the greatest common divisor, and 1 when
  an argument is zero.\<close>

theorem gcd_terminates_correct:
  assumes "in32 a" and "in32 b" and "a \<noteq> int32_min" and "b \<noteq> int32_min"
  shows "mmal_gcd a b = Some (if a = 0 \<or> b = 0 then 1 else gcd a b)"
  using assms by (intro mmal_gcd_abs) (auto simp: in32_def)

theorem gcd_terminates_correct_witness: "mmal_gcd (- 48) 180 = Some 12"
  using gcd_terminates_correct [of "- 48" 180] by (simp add: in32_def gcd_non_0_int)

text \<open>For operands whose numerators and denominators are below 2^15 in absolute value (and
  denominators not zero) \<open>mmal_rational_add\<close> never overflows and returns exactly the sum; when
  both operands are in lowest terms, as its documentation assumes, and the sum is not zero, the
  result is in lowest terms too.\<close>

theorem rational_add_exact:
  assumes "small_rational a" and "small_rational b"
  shows "\<exists>r. mmal_rational_add a b = Some r \<and> den r \<noteq> 0 \<and> ratval r = ratval a + ratval b
    \<and> (coprime (num a) (den a) \<and> coprime (num b) (den b) \<and> ratval a + ratval b \<noteq> 0
        \<longrightarrow> coprime (num r) (den r))"
proof -
  obtain r where r: "mmal_rational_add a b = Some r"
    using add_total [OF assms] by blast
  have nz: "den a \<noteq> 0" "den b \<noteq> 0" using assms by (simp_all add: small_rational_def)
  show ?thesis
    using r add_value [OF r nz] add_lowest_terms [OF r nz] by blast
qed

theorem rational_add_exact_witness:
  "\<exists>r. mmal_rational_add \<lparr>num = 1, den = 6\<rparr> \<lparr>num = 3, den = 10\<rparr> = Some r \<and> ratval r = 7 / 15"
  using rational_add_exact [of "\<lparr>num = 1, den = 6\<rparr>" "\<lparr>num = 3, den = 10\<rparr>"]
  by (auto simp: small_rational_def ratval_def)

text \<open>Converting a 32-bit Q16 number (other than the least one) to a rational and back gives
  the number again, and the rational is in lowest terms with value number / 65536.\<close>

theorem q16_roundtrip:
  assumes "in32 f" and "f \<noteq> int32_min"
  shows "\<exists>r. mmal_rational_from_fixed_16_16 f = Some r \<and> ratval r = of_int f / 65536
    \<and> (f \<noteq> 0 \<longrightarrow> coprime (num r) (den r)) \<and> mmal_rational_to_fixed_16_16 r = f"
proof -
  have "in32 \<bar>f\<bar>" "in32 \<bar>65536 :: int\<bar>" using assms by (auto simp: in32_def)
  then obtain g where g: "mmal_gcd f 65536 = Some g" by (simp add: mmal_gcd_abs)
  note G = mmal_gcd_SomeD [OF g]
  obtain n d where nd: "f = g * n" "65536 = g * d" using G(3,4) unfolding dvd_def by blast
  have c: "cdiv f g = n" "cdiv 65536 g = d"
    using G(2) nd by (metis cdiv_exact dvd_triv_left less_irrefl nonzero_mult_div_cancel_left)+
  have r: "mmal_rational_from_fixed_16_16 f = Some \<lparr>num = n, den = d\<rparr>"
    using g c by (simp add: mmal_rational_from_fixed_16_16_def mmal_rational_simplify_def)
  have d: "d \<noteq> 0" using nd by auto
  have "n * 65536 = d * f" by (simp add: nd(1)) (simp add: nd(2))
  then have "cdiv (n * 65536) d = f" using d by (simp add: cdiv_exact)
  then have to: "mmal_rational_to_fixed_16_16 \<lparr>num = n, den = d\<rparr> = f"
    using d assms by (simp add: mmal_rational_to_fixed_16_16_def in32_def)
  have "ratval \<lparr>num = n, den = d\<rparr> = of_int (g * n) / of_int (g * d)"
    using G(2) by (simp add: ratval_def)
  then have val: "ratval \<lparr>num = n, den = d\<rparr> = of_int f / 65536"
    by (simp flip: nd)
  have "coprime n d" if "f \<noteq> 0"
  proof -
    have "g = gcd f 65536" using G(1) that by simp
    moreover have "n = f div g" "d = 65536 div g"
      using G(2) nd by (metis less_irrefl nonzero_mult_div_cancel_left)+
    ultimately have "n = f div gcd f 65536" "d = 65536 div gcd f 65536" by simp_all
    then show ?thesis using that by (simp add: div_gcd_coprime)
  qed
  then show ?thesis using r to val by auto
qed

theorem q16_roundtrip_witness:
  "\<exists>r. mmal_rational_from_fixed_16_16 98304 = Some r \<and> mmal_rational_to_fixed_16_16 r = 98304"
  using q16_roundtrip [of 98304] by (auto simp: in32_def)

end
