(* ===== verification/Format.thy ===== *)
theory Format
  imports Rational
begin

text \<open>
  core/mmal_format.c and mmal_format.h: descriptions of elementary streams, with type specific
  information and extra data of the codec.

  A format is known by its address. The three structures of the union of type specific information
  consist of 32-bit fields without padding, so the union is a list of words. Its memory, \<open>es_mem\<close>,
  is indexed by the format it belongs to, like the private buffer of 32 bytes; \<open>blocks\<close> is
  allocated memory. Extra data is in a private buffer or in an allocated block. \<open>None\<close> is a
  failed assertion, or an access to memory outside an object.
\<close>

subsection \<open>Data\<close>

datatype mmal_es_type = MMAL_ES_TYPE_UNKNOWN | MMAL_ES_TYPE_CONTROL | MMAL_ES_TYPE_AUDIO
  | MMAL_ES_TYPE_VIDEO | MMAL_ES_TYPE_SUBPICTURE

datatype xptr = XNull | XBlock addr | XBuffer addr

record mmal_es_format =
  es_type :: mmal_es_type
  encoding :: u32
  encoding_variant :: u32
  es :: addr
  bitrate :: u32
  fmt_flags :: u32
  extradata_size :: u32
  extradata :: xptr

record format_private =
  format :: mmal_es_format
  fmt_magic :: bool
  private_extradata_size :: u32
  private_extradata :: ptr

record format_heap =
  formats :: "addr \<Rightarrow> format_private"
  es_mem :: "addr \<Rightarrow> u32 list"
  buffers :: "addr \<Rightarrow> u8 list"
  blocks :: "addr \<Rightarrow> u8 list"
  freed :: "addr list"

definition EXTRADATA_SIZE_DEFAULT :: u32 where "EXTRADATA_SIZE_DEFAULT = 32"
definition EXTRADATA_SIZE_MAX :: u32 where "EXTRADATA_SIZE_MAX = 10 * 1024"

definition ES_WORDS :: nat where "ES_WORDS = 11"

text \<open>The fields of \<open>MMAL_VIDEO_FORMAT_T\<close>, the sizes in words of the other two structures.\<close>

definition video_width :: "u32 list \<Rightarrow> u32" where "video_width v = v ! 0"
definition video_height :: "u32 list \<Rightarrow> u32" where "video_height v = v ! 1"
definition video_crop :: "u32 list \<Rightarrow> u32 list" where "video_crop v = take 4 (drop 2 v)"
definition video_frame_rate :: "u32 list \<Rightarrow> mmal_rational" where
  "video_frame_rate v = \<lparr>num = sint (v ! 6), den = sint (v ! 7)\<rparr>"
definition video_par :: "u32 list \<Rightarrow> mmal_rational" where
  "video_par v = \<lparr>num = sint (v ! 8), den = sint (v ! 9)\<rparr>"
definition video_color_space :: "u32 list \<Rightarrow> u32" where "video_color_space v = v ! 10"
definition AUDIO_WORDS :: nat where "AUDIO_WORDS = 4"
definition SUBPICTURE_WORDS :: nat where "SUBPICTURE_WORDS = 2"

lemmas video_defs = video_width_def video_height_def video_crop_def video_frame_rate_def
  video_par_def video_color_space_def

subsection \<open>Allocating and copying\<close>

definition zero_format :: "addr \<Rightarrow> mmal_es_format" where
  "zero_format a = \<lparr>es_type = MMAL_ES_TYPE_UNKNOWN, encoding = 0, encoding_variant = 0, es = a,
     bitrate = 0, fmt_flags = 0, extradata_size = 0, extradata = XNull\<rparr>"

text \<open>\<open>m\<close> is what \<open>vcos_malloc\<close> returns.\<close>

definition mmal_format_alloc :: "ptr \<Rightarrow> format_heap \<Rightarrow> ptr \<times> format_heap" where
  "mmal_format_alloc m h =
     (case m of
        None \<Rightarrow> (None, h)
      | Some a \<Rightarrow> (Some a, h\<lparr>
          formats := (formats h)(a := \<lparr>format = zero_format a, fmt_magic = True,
             private_extradata_size = EXTRADATA_SIZE_DEFAULT, private_extradata = None\<rparr>),
          es_mem := (es_mem h)(a := replicate ES_WORDS 0),
          buffers := (buffers h)(a := replicate (unat EXTRADATA_SIZE_DEFAULT) 0)\<rparr>))"

definition mmal_format_free :: "addr \<Rightarrow> format_heap \<Rightarrow> format_heap option" where
  "mmal_format_free a h =
     (if \<not> fmt_magic (formats h a) then None
      else
        let h = (case private_extradata (formats h a) of
                   None \<Rightarrow> h
                 | Some b \<Rightarrow> h\<lparr>freed := freed h @ [b]\<rparr>)
        in Some (h\<lparr>freed := freed h @ [a]\<rparr>))"

definition upd_format :: "addr \<Rightarrow> (mmal_es_format \<Rightarrow> mmal_es_format) \<Rightarrow> format_heap \<Rightarrow> format_heap" where
  "upd_format a f h = h\<lparr>formats := (formats h)(a := (formats h a)\<lparr>format := f (format (formats h a))\<rparr>)\<rparr>"

definition mmal_format_copy :: "addr \<Rightarrow> addr \<Rightarrow> format_heap \<Rightarrow> format_heap" where
  "mmal_format_copy dst src h =
     (let backup = es (format (formats h dst));
          h = h\<lparr>es_mem := (es_mem h)(es (format (formats h dst)) := es_mem h (es (format (formats h src))))\<rparr>;
          h = upd_format dst (\<lambda>_. format (formats h src)) h;
          h = upd_format dst (\<lambda>f. f\<lparr>es := backup\<rparr>) h;
          h = upd_format dst (\<lambda>f. f\<lparr>extradata := XNull\<rparr>) h
      in upd_format dst (\<lambda>f. f\<lparr>extradata_size := 0\<rparr>) h)"

definition mmal_format_extradata_alloc ::
    "ptr \<Rightarrow> addr \<Rightarrow> u32 \<Rightarrow> format_heap \<Rightarrow> mmal_status \<times> format_heap" where
  "mmal_format_extradata_alloc m a sz h =
     (if EXTRADATA_SIZE_MAX < sz then (MMAL_EINVAL, h)
      else
        let (ok, h) =
              (if private_extradata_size (formats h a) < sz then
                 let h = (case private_extradata (formats h a) of
                            None \<Rightarrow> h
                          | Some b \<Rightarrow> h\<lparr>freed := freed h @ [b]\<rparr>);
                     h = h\<lparr>formats := (formats h)(a := (formats h a)\<lparr>private_extradata := m\<rparr>)\<rparr>
                 in case m of
                      None \<Rightarrow> (False, h)
                    | Some b \<Rightarrow> (True, h\<lparr>
                        blocks := (blocks h)(b := replicate (unat sz) 0),
                        formats := (formats h)(a := (formats h a)\<lparr>private_extradata_size := sz\<rparr>)\<rparr>)
               else (True, h))
        in
          if \<not> ok then (MMAL_ENOMEM, h)
          else (MMAL_SUCCESS, upd_format a (\<lambda>f. f\<lparr>extradata :=
                 (case private_extradata (formats h a) of Some b \<Rightarrow> XBlock b | None \<Rightarrow> XBuffer a)\<rparr>) h))"

text \<open>The bytes behind a pointer to extra data, and a write at its start.\<close>

fun xbytes :: "format_heap \<Rightarrow> xptr \<Rightarrow> u8 list" where
  "xbytes h XNull = []"
| "xbytes h (XBlock b) = blocks h b"
| "xbytes h (XBuffer a) = buffers h a"

fun xwrite :: "xptr \<Rightarrow> u8 list \<Rightarrow> format_heap \<Rightarrow> format_heap" where
  "xwrite XNull bs h = h"
| "xwrite (XBlock b) bs h = h\<lparr>blocks := (blocks h)(b := bs @ drop (length bs) (blocks h b))\<rparr>"
| "xwrite (XBuffer a) bs h = h\<lparr>buffers := (buffers h)(a := bs @ drop (length bs) (buffers h a))\<rparr>"

text \<open>\<open>memcpy\<close> of \<open>n\<close> bytes: both objects must have that many.\<close>

definition xcopy :: "xptr \<Rightarrow> xptr \<Rightarrow> nat \<Rightarrow> format_heap \<Rightarrow> format_heap option" where
  "xcopy d s n h =
     (if n \<le> length (xbytes h d) \<and> n \<le> length (xbytes h s) then Some (xwrite d (take n (xbytes h s)) h)
      else None)"

definition mmal_format_full_copy ::
    "ptr \<Rightarrow> addr \<Rightarrow> addr \<Rightarrow> format_heap \<Rightarrow> (mmal_status \<times> format_heap) option" where
  "mmal_format_full_copy m dst src h =
     (let h = mmal_format_copy dst src h;
          sz = extradata_size (format (formats h src))
      in
        if sz \<noteq> 0 then
          let (status, h) = mmal_format_extradata_alloc m dst sz h in
          if status \<noteq> MMAL_SUCCESS then Some (status, h)
          else
            let h = upd_format dst (\<lambda>f. f\<lparr>extradata_size := extradata_size (format (formats h src))\<rparr>) h
            in map_option (Pair MMAL_SUCCESS)
                 (xcopy (extradata (format (formats h dst))) (extradata (format (formats h src)))
                    (unat (extradata_size (format (formats h src)))) h)
        else Some (MMAL_SUCCESS, h))"

subsection \<open>Comparing\<close>

definition COMPARE_FLAG_TYPE :: u32 where "COMPARE_FLAG_TYPE = 0x01"
definition COMPARE_FLAG_ENCODING :: u32 where "COMPARE_FLAG_ENCODING = 0x02"
definition COMPARE_FLAG_BITRATE :: u32 where "COMPARE_FLAG_BITRATE = 0x04"
definition COMPARE_FLAG_FLAGS :: u32 where "COMPARE_FLAG_FLAGS = 0x08"
definition COMPARE_FLAG_EXTRADATA :: u32 where "COMPARE_FLAG_EXTRADATA = 0x10"
definition COMPARE_FLAG_VIDEO_RESOLUTION :: u32 where "COMPARE_FLAG_VIDEO_RESOLUTION = 0x0100"
definition COMPARE_FLAG_VIDEO_CROPPING :: u32 where "COMPARE_FLAG_VIDEO_CROPPING = 0x0200"
definition COMPARE_FLAG_VIDEO_FRAME_RATE :: u32 where "COMPARE_FLAG_VIDEO_FRAME_RATE = 0x0400"
definition COMPARE_FLAG_VIDEO_ASPECT_RATIO :: u32 where "COMPARE_FLAG_VIDEO_ASPECT_RATIO = 0x0800"
definition COMPARE_FLAG_VIDEO_COLOR_SPACE :: u32 where "COMPARE_FLAG_VIDEO_COLOR_SPACE = 0x1000"
definition COMPARE_FLAG_ES_OTHER :: u32 where "COMPARE_FLAG_ES_OTHER = 0x10000000"

lemmas compare_flags = COMPARE_FLAG_TYPE_def COMPARE_FLAG_ENCODING_def COMPARE_FLAG_BITRATE_def
  COMPARE_FLAG_FLAGS_def COMPARE_FLAG_EXTRADATA_def COMPARE_FLAG_VIDEO_RESOLUTION_def
  COMPARE_FLAG_VIDEO_CROPPING_def COMPARE_FLAG_VIDEO_FRAME_RATE_def
  COMPARE_FLAG_VIDEO_ASPECT_RATIO_def COMPARE_FLAG_VIDEO_COLOR_SPACE_def COMPARE_FLAG_ES_OTHER_def

text \<open>\<open>memcmp\<close> of the first \<open>n\<close> bytes is not zero.\<close>

definition xdiffer :: "format_heap \<Rightarrow> mmal_es_format \<Rightarrow> mmal_es_format \<Rightarrow> bool" where
  "xdiffer h f1 f2 \<longleftrightarrow> extradata_size f1 \<noteq> extradata_size f2
     \<or> (extradata_size f1 \<noteq> 0 \<and> (extradata f1 = XNull \<or> extradata f2 = XNull))
     \<or> take (unat (extradata_size f1)) (xbytes h (extradata f1))
         \<noteq> take (unat (extradata_size f1)) (xbytes h (extradata f2))"

text \<open>\<open>color_space\<close> is the last field, so the \<open>memcmp\<close> of the rest of the video format compares no byte.\<close>

definition compare_es :: "mmal_es_type \<Rightarrow> u32 list \<Rightarrow> u32 list \<Rightarrow> u32 \<Rightarrow> u32" where
  "compare_es t es1 es2 result =
     (case t of
        MMAL_ES_TYPE_VIDEO \<Rightarrow>
          let result = (if video_width es1 \<noteq> video_width es2 \<or> video_height es1 \<noteq> video_height es2
                        then result OR COMPARE_FLAG_VIDEO_RESOLUTION else result);
              result = (if video_crop es1 \<noteq> video_crop es2
                        then result OR COMPARE_FLAG_VIDEO_CROPPING else result);
              result = (if \<not> mmal_rational_equal (video_par es1) (video_par es2)
                        then result OR COMPARE_FLAG_VIDEO_ASPECT_RATIO else result);
              result = (if \<not> mmal_rational_equal (video_frame_rate es1) (video_frame_rate es2)
                        then result OR COMPARE_FLAG_VIDEO_FRAME_RATE else result);
              result = (if video_color_space es1 \<noteq> video_color_space es2
                        then result OR COMPARE_FLAG_VIDEO_COLOR_SPACE else result);
              result = (if drop ES_WORDS es1 \<noteq> drop ES_WORDS es2
                        then result OR COMPARE_FLAG_ES_OTHER else result)
          in result
      | MMAL_ES_TYPE_AUDIO \<Rightarrow>
          (if take AUDIO_WORDS es1 \<noteq> take AUDIO_WORDS es2 then result OR COMPARE_FLAG_ES_OTHER else result)
      | MMAL_ES_TYPE_SUBPICTURE \<Rightarrow>
          (if take SUBPICTURE_WORDS es1 \<noteq> take SUBPICTURE_WORDS es2 then result OR COMPARE_FLAG_ES_OTHER
           else result)
      | _ \<Rightarrow> result)"

definition mmal_format_compare :: "addr \<Rightarrow> addr \<Rightarrow> format_heap \<Rightarrow> u32" where
  "mmal_format_compare a b h =
     (let fmt1 = format (formats h a);
          fmt2 = format (formats h b);
          result = 0
      in
        if es_type fmt1 \<noteq> es_type fmt2 then COMPARE_FLAG_TYPE
        else
          let result = (if encoding fmt1 \<noteq> encoding fmt2 then result OR COMPARE_FLAG_ENCODING else result);
              result = (if bitrate fmt1 \<noteq> bitrate fmt2 then result OR COMPARE_FLAG_BITRATE else result);
              result = (if fmt_flags fmt1 \<noteq> fmt_flags fmt2 then result OR COMPARE_FLAG_FLAGS else result);
              result = (if xdiffer h fmt1 fmt2 then result OR COMPARE_FLAG_EXTRADATA else result)
          in compare_es (es_type fmt1) (es_mem h (es fmt1)) (es_mem h (es fmt2)) result)"

subsection \<open>What a comparison says\<close>

lemma set_flag: "(if c then r OR f else r) = r OR (if c then f else (0 :: u32))"
  by simp

lemma bit_flag: "bit (if c then f else (0 :: u32)) n \<longleftrightarrow> c \<and> bit f n"
  by simp

lemma flag_bits [simp]:
  "bit COMPARE_FLAG_ENCODING n \<longleftrightarrow> n = 1" "bit COMPARE_FLAG_BITRATE n \<longleftrightarrow> n = 2"
  "bit COMPARE_FLAG_FLAGS n \<longleftrightarrow> n = 3" "bit COMPARE_FLAG_EXTRADATA n \<longleftrightarrow> n = 4"
  "bit COMPARE_FLAG_VIDEO_RESOLUTION n \<longleftrightarrow> n = 8" "bit COMPARE_FLAG_VIDEO_CROPPING n \<longleftrightarrow> n = 9"
  "bit COMPARE_FLAG_VIDEO_FRAME_RATE n \<longleftrightarrow> n = 10" "bit COMPARE_FLAG_VIDEO_ASPECT_RATIO n \<longleftrightarrow> n = 11"
  "bit COMPARE_FLAG_VIDEO_COLOR_SPACE n \<longleftrightarrow> n = 12" "bit COMPARE_FLAG_ES_OTHER n \<longleftrightarrow> n = 28"
proof -
  have e: "bit (2 ^ k :: u32) n \<longleftrightarrow> n = k" if "k < 32" for k
    using that by (auto simp: bit_exp_iff)
  show "bit COMPARE_FLAG_ENCODING n \<longleftrightarrow> n = 1" "bit COMPARE_FLAG_BITRATE n \<longleftrightarrow> n = 2"
    "bit COMPARE_FLAG_FLAGS n \<longleftrightarrow> n = 3" "bit COMPARE_FLAG_EXTRADATA n \<longleftrightarrow> n = 4"
    "bit COMPARE_FLAG_VIDEO_RESOLUTION n \<longleftrightarrow> n = 8" "bit COMPARE_FLAG_VIDEO_CROPPING n \<longleftrightarrow> n = 9"
    "bit COMPARE_FLAG_VIDEO_FRAME_RATE n \<longleftrightarrow> n = 10" "bit COMPARE_FLAG_VIDEO_ASPECT_RATIO n \<longleftrightarrow> n = 11"
    "bit COMPARE_FLAG_VIDEO_COLOR_SPACE n \<longleftrightarrow> n = 12" "bit COMPARE_FLAG_ES_OTHER n \<longleftrightarrow> n = 28"
    using e [of 1] e [of 2] e [of 3] e [of 4] e [of 8] e [of 9] e [of 10] e [of 11] e [of 12] e [of 28]
    by (simp_all add: compare_flags)
qed

lemma bit_compare_es:
  "bit (compare_es t es1 es2 r) n \<longleftrightarrow> bit r n \<or> (case t of
      MMAL_ES_TYPE_VIDEO \<Rightarrow>
        n = 8 \<and> (video_width es1 \<noteq> video_width es2 \<or> video_height es1 \<noteq> video_height es2)
        \<or> n = 9 \<and> video_crop es1 \<noteq> video_crop es2
        \<or> n = 10 \<and> \<not> mmal_rational_equal (video_frame_rate es1) (video_frame_rate es2)
        \<or> n = 11 \<and> \<not> mmal_rational_equal (video_par es1) (video_par es2)
        \<or> n = 12 \<and> video_color_space es1 \<noteq> video_color_space es2
        \<or> n = 28 \<and> drop ES_WORDS es1 \<noteq> drop ES_WORDS es2
    | MMAL_ES_TYPE_AUDIO \<Rightarrow> n = 28 \<and> take AUDIO_WORDS es1 \<noteq> take AUDIO_WORDS es2
    | MMAL_ES_TYPE_SUBPICTURE \<Rightarrow> n = 28 \<and> take SUBPICTURE_WORDS es1 \<noteq> take SUBPICTURE_WORDS es2
    | _ \<Rightarrow> False)"
  unfolding compare_es_def Let_def set_flag
  by (cases t) (simp_all only: mmal_es_type.case bit_or_iff bit_flag flag_bits, blast+)

text \<open>The differences that a comparison is documented to find, as a set of bits: the reference the
  code is compared with.\<close>

definition differences :: "format_heap \<Rightarrow> mmal_es_format \<Rightarrow> mmal_es_format \<Rightarrow> nat set" where
  "differences h f1 f2 =
     (if es_type f1 \<noteq> es_type f2 then {0}
      else let v1 = es_mem h (es f1); v2 = es_mem h (es f2); t = es_type f1 in
        {n. n = 1 \<and> encoding f1 \<noteq> encoding f2
          \<or> n = 2 \<and> bitrate f1 \<noteq> bitrate f2
          \<or> n = 3 \<and> fmt_flags f1 \<noteq> fmt_flags f2
          \<or> n = 4 \<and> xdiffer h f1 f2
          \<or> t = MMAL_ES_TYPE_VIDEO \<and>
              (n = 8 \<and> (video_width v1, video_height v1) \<noteq> (video_width v2, video_height v2)
             \<or> n = 9 \<and> video_crop v1 \<noteq> video_crop v2
             \<or> n = 10 \<and> \<not> mmal_rational_equal (video_frame_rate v1) (video_frame_rate v2)
             \<or> n = 11 \<and> \<not> mmal_rational_equal (video_par v1) (video_par v2)
             \<or> n = 12 \<and> video_color_space v1 \<noteq> video_color_space v2)
          \<or> t = MMAL_ES_TYPE_AUDIO \<and> n = 28 \<and> take AUDIO_WORDS v1 \<noteq> take AUDIO_WORDS v2
          \<or> t = MMAL_ES_TYPE_SUBPICTURE \<and> n = 28 \<and> take SUBPICTURE_WORDS v1 \<noteq> take SUBPICTURE_WORDS v2})"


subsection \<open>Full copies\<close>

text \<open>A format as its operations keep it: its specific information is its own, and its private extra
  data is a block of the recorded size, or the buffer of the default size.\<close>

definition format_ok :: "format_heap \<Rightarrow> addr \<Rightarrow> bool" where
  "format_ok h a \<longleftrightarrow> fmt_magic (formats h a) \<and> es (format (formats h a)) = a
     \<and> length (es_mem h a) = ES_WORDS \<and> length (buffers h a) = unat EXTRADATA_SIZE_DEFAULT
     \<and> (case private_extradata (formats h a) of
          None \<Rightarrow> private_extradata_size (formats h a) = EXTRADATA_SIZE_DEFAULT
        | Some b \<Rightarrow> length (blocks h b) = unat (private_extradata_size (formats h a)))"

definition own_extradata :: "format_heap \<Rightarrow> addr \<Rightarrow> xptr" where
  "own_extradata h a = (case private_extradata (formats h a) of Some b \<Rightarrow> XBlock b | None \<Rightarrow> XBuffer a)"

lemma alloc_format_ok: "mmal_format_alloc (Some a) h = (Some a, h') \<Longrightarrow> format_ok h' a"
  by (auto simp: mmal_format_alloc_def format_ok_def zero_format_def)

lemma format_copy_result:
  assumes "es (format (formats h dst)) = dst" and "es (format (formats h src)) = src"
  shows "mmal_format_copy dst src h = h\<lparr>
    formats := (formats h)(dst := (formats h dst)\<lparr>format := (format (formats h src))
        \<lparr>es := dst, extradata_size := 0, extradata := XNull\<rparr>\<rparr>),
    es_mem := (es_mem h)(dst := es_mem h src)\<rparr>"
  using assms by (cases "format (formats h src)") (simp add: mmal_format_copy_def upd_format_def Let_def)

lemma xbytes_cong: "blocks h = blocks h' \<Longrightarrow> buffers h = buffers h' \<Longrightarrow> xbytes h = xbytes h'"
proof
  fix x
  assume "blocks h = blocks h'" "buffers h = buffers h'"
  then show "xbytes h x = xbytes h' x" by (cases x) simp_all
qed

lemma extradata_alloc_ok:
  assumes "format_ok h a" and "sz \<le> EXTRADATA_SIZE_MAX"
  obtains h' where "mmal_format_extradata_alloc (Some b) a sz h = (MMAL_SUCCESS, h')"
    and "format_ok h' a" and "format (formats h' a) = (format (formats h a))\<lparr>extradata := own_extradata h' a\<rparr>"
    and "unat sz \<le> length (xbytes h' (own_extradata h' a))"
    and "own_extradata h' a = XBlock b \<or> own_extradata h' a = own_extradata h a"
    and "\<And>c. c \<noteq> a \<Longrightarrow> formats h' c = formats h c" and "es_mem h' = es_mem h" and "buffers h' = buffers h"
    and "\<And>c. c \<noteq> b \<Longrightarrow> blocks h' c = blocks h c"
proof (cases "private_extradata_size (formats h a) < sz")
  case True
  define f where "f = (case private_extradata (formats h a) of None \<Rightarrow> freed h | Some b \<Rightarrow> freed h @ [b])"
  define h' where "h' = h\<lparr>freed := f, blocks := (blocks h)(b := replicate (unat sz) 0),
    formats := (formats h)(a := (formats h a)\<lparr>private_extradata := Some b, private_extradata_size := sz,
        format := (format (formats h a))\<lparr>extradata := XBlock b\<rparr>\<rparr>)\<rparr>"
  have al: "mmal_format_extradata_alloc (Some b) a sz h = (MMAL_SUCCESS, h')"
    using True assms(2)
    by (cases "private_extradata (formats h a)")
      (simp_all add: mmal_format_extradata_alloc_def upd_format_def Let_def h'_def f_def)
  show thesis
    by (rule that [OF al]) (use assms(1) in \<open>simp_all add: h'_def format_ok_def own_extradata_def\<close>)
next
  case False
  define h' where "h' = upd_format a (\<lambda>f. f\<lparr>extradata := own_extradata h a\<rparr>) h"
  have own: "own_extradata h' a = own_extradata h a" by (simp add: own_extradata_def h'_def upd_format_def)
  have al: "mmal_format_extradata_alloc (Some b) a sz h = (MMAL_SUCCESS, h')"
    using False assms(2) by (simp add: mmal_format_extradata_alloc_def h'_def own_extradata_def)
  have ok: "format_ok h' a" using assms(1) by (simp add: format_ok_def h'_def upd_format_def cong: option.case_cong)
  have len: "unat sz \<le> length (xbytes h' (own_extradata h' a))"
    using assms(1) False unfolding own
    by (auto simp: format_ok_def own_extradata_def h'_def upd_format_def not_less word_le_nat_alt split: option.splits)
  show thesis
    by (rule that [OF al ok _ len]) (simp_all add: own, simp_all add: h'_def upd_format_def)
qed

lemma compare_self: "mmal_rational_equal r r" "compare_es t v v r' = r'"
  by (simp_all add: mmal_rational_equal_def compare_es_def split: mmal_es_type.split)

text \<open>C34. A full copy is faithful and independent. When memory is available, copying a format with its
  extra data into another one succeeds; comparing the two then finds no difference, and the
  encoding variants agree too; the copy has its specific information and its extra data in storage
  of its own; and the source is unchanged.\<close>

theorem format_full_copy_faithful:
  assumes "format_ok h dst" and "format_ok h src" and "dst \<noteq> src"
    and "n = extradata_size (format (formats h src))" and "n \<le> EXTRADATA_SIZE_MAX"
    and "n \<noteq> 0 \<longrightarrow> extradata (format (formats h src)) = own_extradata h src
           \<and> unat n \<le> length (xbytes h (own_extradata h src))"
    and "own_extradata h src \<noteq> own_extradata h dst" and "own_extradata h src \<noteq> XBlock b"
  shows "\<exists>h'. mmal_format_full_copy (Some b) dst src h = Some (MMAL_SUCCESS, h')
    \<and> mmal_format_compare dst src h' = 0
    \<and> encoding_variant (format (formats h' dst)) = encoding_variant (format (formats h src))
    \<and> format_ok h' dst \<and> (n \<noteq> 0 \<longrightarrow> extradata (format (formats h' dst)) = own_extradata h' dst)
    \<and> formats h' src = formats h src \<and> es_mem h' src = es_mem h src
    \<and> xbytes h' (own_extradata h src) = xbytes h (own_extradata h src)"
proof -
  let ?s = "format (formats h src)"
  have es: "es (format (formats h dst)) = dst" "es ?s = src" using assms(1,2) by (simp_all add: format_ok_def)
  define h1 where "h1 = mmal_format_copy dst src h"
  have h1: "format_ok h1 dst" "formats h1 src = formats h src" "es_mem h1 src = es_mem h src"
    "es_mem h1 dst = es_mem h src" "format (formats h1 dst) = ?s\<lparr>es := dst, extradata_size := 0, extradata := XNull\<rparr>"
    "own_extradata h1 dst = own_extradata h dst" "own_extradata h1 src = own_extradata h src"
    "blocks h1 = blocks h" "buffers h1 = buffers h"
    using assms(1,2,3) unfolding h1_def format_copy_result [OF es]
    by (simp_all add: format_ok_def own_extradata_def cong: option.case_cong)
  have xh1: "xbytes h1 = xbytes h" by (rule xbytes_cong [OF h1(8,9)])
  show ?thesis
  proof (cases "n = 0")
    case True
    have "mmal_format_full_copy (Some b) dst src h = Some (MMAL_SUCCESS, h1)"
      using True assms(4) h1(2) by (simp add: mmal_format_full_copy_def h1_def [symmetric])
    moreover have "mmal_format_compare dst src h1 = 0"
      using True assms(4) h1 es by (simp add: mmal_format_compare_def xdiffer_def compare_self)
    ultimately show ?thesis using True h1 xh1 by simp
  next
    case False
    obtain h2 where h2: "mmal_format_extradata_alloc (Some b) dst n h1 = (MMAL_SUCCESS, h2)" "format_ok h2 dst"
      "format (formats h2 dst) = (format (formats h1 dst))\<lparr>extradata := own_extradata h2 dst\<rparr>"
      "unat n \<le> length (xbytes h2 (own_extradata h2 dst))"
      "own_extradata h2 dst = XBlock b \<or> own_extradata h2 dst = own_extradata h1 dst"
      "\<And>c. c \<noteq> dst \<Longrightarrow> formats h2 c = formats h1 c" "es_mem h2 = es_mem h1" "buffers h2 = buffers h1"
      "\<And>c. c \<noteq> b \<Longrightarrow> blocks h2 c = blocks h1 c"
      by (rule extradata_alloc_ok [OF h1(1) assms(5), of b]) blast
    let ?d = "own_extradata h2 dst" and ?o = "own_extradata h src"
    have own: "extradata ?s = ?o" "unat n \<le> length (xbytes h ?o)" using assms(6) False by simp_all
    have src2: "formats h2 src = formats h src" using h2(6) assms(3) h1(2) by simp
    have bytes2: "xbytes h2 ?o = xbytes h ?o"
    proof (cases ?o)
      case XNull
      then show ?thesis by simp
    next
      case (XBlock c)
      then have "blocks h2 c = blocks h1 c" using assms(8) by (intro h2(9)) auto
      then show ?thesis using XBlock h1(8) by (metis xbytes.simps(2))
    next
      case (XBuffer c)
      then show ?thesis using h2(8) h1(9) by (metis xbytes.simps(3))
    qed
    have ne: "?d \<noteq> ?o" using h2(5) assms(7,8) h1(6) by auto
    define h3 where "h3 = upd_format dst (\<lambda>f. f\<lparr>extradata_size := n\<rparr>) h2"
    have h3: "formats h3 src = formats h src" "format (formats h3 dst) = ?s\<lparr>es := dst, extradata := ?d\<rparr>"
      "xbytes h3 x = xbytes h2 x" "es_mem h3 = es_mem h1" "own_extradata h3 dst = ?d" for x
      using h2(3,7) h1(5) src2 assms(3,4)
      by (cases x; simp_all add: h3_def upd_format_def own_extradata_def; cases "format (formats h src)"; simp)+
    define h' where "h' = xwrite ?d (take (unat n) (xbytes h ?o)) h3"
    have fields: "formats h' = formats h3" "es_mem h' = es_mem h3"
      by (cases ?d; simp add: h'_def)+
    have h3b: "blocks h3 = blocks h2" "buffers h3 = buffers h2" by (simp_all add: h3_def upd_format_def)
    have own_h': "own_extradata h' dst = own_extradata h3 dst" by (simp add: own_extradata_def fields)
    have len: "length (xbytes h' x) = length (xbytes h3 x)" for x
      using h2(4) own(2) h3b by (cases ?d; cases x) (auto simp: h'_def)
    have "xbytes h' ?o = xbytes h3 ?o" using ne by (cases ?d; cases ?o) (auto simp: h'_def)
    then have keep: "xbytes h' ?o = xbytes h ?o" using bytes2 h3(3) by simp
    have new: "take (unat n) (xbytes h' ?d) = take (unat n) (xbytes h ?o)"
    proof -
      have "?d \<noteq> XNull" by (simp add: own_extradata_def split: option.split)
      then show ?thesis using own(2) by (cases ?d) (auto simp: h'_def)
    qed
    have "format_ok h' dst"
      using h2(2) len [of "XBuffer dst"] len [of "XBlock c" for c] h3
      by (auto simp: format_ok_def fields h3_def upd_format_def split: option.splits)
    moreover have "mmal_format_full_copy (Some b) dst src h = Some (MMAL_SUCCESS, h')"
    proof -
      have sz: "extradata_size ?s = n" using assms(4) by simp
      have fold: "upd_format dst (\<lambda>f. f\<lparr>extradata_size := extradata_size (format (formats h2 src))\<rparr>) h2 = h3"
        by (simp add: h3_def src2 sz)
      have "xcopy (extradata (format (formats h3 dst))) (extradata (format (formats h3 src)))
          (unat (extradata_size (format (formats h3 src)))) h3 = Some h'"
        using h2(4) own h3(3) bytes2 by (simp add: h3(1,2) sz xcopy_def h'_def)
      then show ?thesis
        using False by (simp add: mmal_format_full_copy_def h1_def [symmetric] h1(2) sz h2(1) fold)
    qed
    moreover have "mmal_format_compare dst src h' = 0"
      using h3 h1(3,4) es own(1) keep new assms(4) False
      by (simp add: mmal_format_compare_def xdiffer_def compare_self fields own_extradata_def split: option.splits)
    ultimately show ?thesis
      using h3(1,2,4,5) h1(3) keep own_h' by (intro exI [of _ h']) (simp add: fields)
  qed
qed

subsection \<open>A failed allocation\<close>

text \<open>A failed allocation of extra data leaves the format promising memory it no longer has: the old
  block is freed and its pointer cleared, but its size stays recorded. A later request that is not
  larger than the old size then succeeds and hands out the private buffer of 32 bytes, which is
  shorter than requested.\<close>

theorem failed_extradata_alloc_overflows:
  assumes "private_extradata (formats h a) = Some b" and "private_extradata_size (formats h a) < big"
    and "big \<le> EXTRADATA_SIZE_MAX" and "sz \<le> private_extradata_size (formats h a)"
    and "EXTRADATA_SIZE_DEFAULT < sz" and "length (buffers h a) = unat EXTRADATA_SIZE_DEFAULT"
  shows "\<exists>h1 h2. mmal_format_extradata_alloc None a big h = (MMAL_ENOMEM, h1)
    \<and> mmal_format_extradata_alloc m a sz h1 = (MMAL_SUCCESS, h2)
    \<and> extradata (format (formats h2 a)) = XBuffer a
    \<and> length (xbytes h2 (extradata (format (formats h2 a)))) < unat sz"
proof -
  define h1 where "h1 = h\<lparr>freed := freed h @ [b], formats := (formats h)(a := (formats h a)\<lparr>private_extradata := None\<rparr>)\<rparr>"
  have 1: "mmal_format_extradata_alloc None a big h = (MMAL_ENOMEM, h1)"
    using assms(1-3) by (simp add: mmal_format_extradata_alloc_def Let_def h1_def)
  define h2 where "h2 = upd_format a (\<lambda>f. f\<lparr>extradata := XBuffer a\<rparr>) h1"
  have "sz \<le> EXTRADATA_SIZE_MAX" "\<not> private_extradata_size (formats h1 a) < sz"
    using assms(2-4) by (simp_all add: h1_def)
  then have 2: "mmal_format_extradata_alloc m a sz h1 = (MMAL_SUCCESS, h2)"
    by (simp add: mmal_format_extradata_alloc_def h2_def) (simp add: h1_def)
  have "length (xbytes h2 (XBuffer a)) < unat sz"
    using assms(5,6) by (simp add: h2_def h1_def upd_format_def word_less_nat_alt)
  with 1 2 show ?thesis by (intro exI [of _ h1] exI [of _ h2]) (simp add: h2_def upd_format_def)
qed

definition demo_formats :: format_heap where
  "demo_formats = \<lparr>
     formats = \<lambda>a. \<lparr>format = (zero_format a)\<lparr>es_type := MMAL_ES_TYPE_VIDEO, encoding := of_nat a,
          extradata_size := (if a = 8 then 40 else 0), extradata := (if a = 8 then XBlock 100 else XNull)\<rparr>,
        fmt_magic = True, private_extradata_size = (if a = 8 then 100 else 32),
        private_extradata = (if a = 8 then Some 100 else None)\<rparr>,
     es_mem = \<lambda>a. replicate 11 (of_nat a), buffers = \<lambda>_. replicate 32 0,
     blocks = \<lambda>_. replicate 100 1, freed = []\<rparr>"


theorem format_full_copy_faithful_witness:
  "\<exists>h'. mmal_format_full_copy (Some 200) 16 8 demo_formats = Some (MMAL_SUCCESS, h')
     \<and> mmal_format_compare 16 8 h' = 0"
proof -
  have ok: "format_ok demo_formats 16" "format_ok demo_formats 8" "own_extradata demo_formats 8 = XBlock 100"
    "own_extradata demo_formats 16 = XBuffer 16" "extradata_size (format (formats demo_formats 8)) = 40"
    "extradata (format (formats demo_formats 8)) = XBlock 100" "length (xbytes demo_formats (XBlock 100)) = 100"
    by (simp_all add: demo_formats_def format_ok_def own_extradata_def zero_format_def ES_WORDS_def
        EXTRADATA_SIZE_DEFAULT_def)
  show ?thesis
    using format_full_copy_faithful [OF ok(1,2), of 40 200] ok(3-7) by (auto simp: EXTRADATA_SIZE_MAX_def)
qed

theorem failed_extradata_alloc_overflows_witness:
  "\<exists>h1 h2. mmal_format_extradata_alloc None 8 200 demo_formats = (MMAL_ENOMEM, h1)
     \<and> mmal_format_extradata_alloc None 8 64 h1 = (MMAL_SUCCESS, h2)
     \<and> length (xbytes h2 (extradata (format (formats h2 8)))) < 64"
  using failed_extradata_alloc_overflows [where h = demo_formats and a = 8 and b = 100 and big = 200 and sz = 64 and m = None]
  by (auto simp: demo_formats_def EXTRADATA_SIZE_DEFAULT_def EXTRADATA_SIZE_MAX_def)

end
