(* ===== verification/Encodings.thy ===== *)
theory Encodings
  imports Types
begin

text \<open>
  The tables of util/mmal_util.c over the pixel encodings of mmal_encodings.h: the pitch of each
  encoding (\<open>pitch_num / pitch_den\<close> bytes per pixel, and the alignment of the stride), its variant for
  slices, and the conversions between widths and strides. Encodings are 32-bit codes of four
  characters; the conversions compute with 32-bit words, which wrap.
\<close>

subsection \<open>Encodings\<close>

definition MMAL_FOURCC :: "char \<Rightarrow> char \<Rightarrow> char \<Rightarrow> char \<Rightarrow> u32" where
  "MMAL_FOURCC a b c d = of_char a OR push_bit 8 (of_char b) OR push_bit 16 (of_char c) OR push_bit 24 (of_char d)"

definition MMAL_ENCODING_UNKNOWN :: u32 where
  "MMAL_ENCODING_UNKNOWN = 0"
definition MMAL_ENCODING_I420 :: u32 where
  "MMAL_ENCODING_I420 = MMAL_FOURCC CHR ''I'' CHR ''4'' CHR ''2'' CHR ''0''"
definition MMAL_ENCODING_YV12 :: u32 where
  "MMAL_ENCODING_YV12 = MMAL_FOURCC CHR ''Y'' CHR ''V'' CHR ''1'' CHR ''2''"
definition MMAL_ENCODING_I422 :: u32 where
  "MMAL_ENCODING_I422 = MMAL_FOURCC CHR ''I'' CHR ''4'' CHR ''2'' CHR ''2''"
definition MMAL_ENCODING_NV21 :: u32 where
  "MMAL_ENCODING_NV21 = MMAL_FOURCC CHR ''N'' CHR ''V'' CHR ''2'' CHR ''1''"
definition MMAL_ENCODING_NV12 :: u32 where
  "MMAL_ENCODING_NV12 = MMAL_FOURCC CHR ''N'' CHR ''V'' CHR ''1'' CHR ''2''"
definition MMAL_ENCODING_ARGB :: u32 where
  "MMAL_ENCODING_ARGB = MMAL_FOURCC CHR ''A'' CHR ''R'' CHR ''G'' CHR ''B''"
definition MMAL_ENCODING_RGBA :: u32 where
  "MMAL_ENCODING_RGBA = MMAL_FOURCC CHR ''R'' CHR ''G'' CHR ''B'' CHR ''A''"
definition MMAL_ENCODING_RGB32 :: u32 where
  "MMAL_ENCODING_RGB32 = MMAL_FOURCC CHR ''R'' CHR ''G'' CHR ''B'' CHR ''4''"
definition MMAL_ENCODING_ABGR :: u32 where
  "MMAL_ENCODING_ABGR = MMAL_FOURCC CHR ''A'' CHR ''B'' CHR ''G'' CHR ''R''"
definition MMAL_ENCODING_BGRA :: u32 where
  "MMAL_ENCODING_BGRA = MMAL_FOURCC CHR ''B'' CHR ''G'' CHR ''R'' CHR ''A''"
definition MMAL_ENCODING_BGR32 :: u32 where
  "MMAL_ENCODING_BGR32 = MMAL_FOURCC CHR ''B'' CHR ''G'' CHR ''R'' CHR ''4''"
definition MMAL_ENCODING_RGB16 :: u32 where
  "MMAL_ENCODING_RGB16 = MMAL_FOURCC CHR ''R'' CHR ''G'' CHR ''B'' CHR ''2''"
definition MMAL_ENCODING_RGB24 :: u32 where
  "MMAL_ENCODING_RGB24 = MMAL_FOURCC CHR ''R'' CHR ''G'' CHR ''B'' CHR ''3''"
definition MMAL_ENCODING_BGR16 :: u32 where
  "MMAL_ENCODING_BGR16 = MMAL_FOURCC CHR ''B'' CHR ''G'' CHR ''R'' CHR ''2''"
definition MMAL_ENCODING_BGR24 :: u32 where
  "MMAL_ENCODING_BGR24 = MMAL_FOURCC CHR ''B'' CHR ''G'' CHR ''R'' CHR ''3''"
definition MMAL_ENCODING_I420_SLICE :: u32 where
  "MMAL_ENCODING_I420_SLICE = MMAL_FOURCC CHR ''S'' CHR ''4'' CHR ''2'' CHR ''0''"
definition MMAL_ENCODING_I422_SLICE :: u32 where
  "MMAL_ENCODING_I422_SLICE = MMAL_FOURCC CHR ''S'' CHR ''4'' CHR ''2'' CHR ''2''"
definition MMAL_ENCODING_ARGB_SLICE :: u32 where
  "MMAL_ENCODING_ARGB_SLICE = MMAL_FOURCC CHR ''a'' CHR ''r'' CHR ''g'' CHR ''b''"
definition MMAL_ENCODING_RGBA_SLICE :: u32 where
  "MMAL_ENCODING_RGBA_SLICE = MMAL_FOURCC CHR ''r'' CHR ''g'' CHR ''b'' CHR ''a''"
definition MMAL_ENCODING_RGB32_SLICE :: u32 where
  "MMAL_ENCODING_RGB32_SLICE = MMAL_FOURCC CHR ''r'' CHR ''g'' CHR ''b'' CHR ''4''"
definition MMAL_ENCODING_ABGR_SLICE :: u32 where
  "MMAL_ENCODING_ABGR_SLICE = MMAL_FOURCC CHR ''a'' CHR ''b'' CHR ''g'' CHR ''r''"
definition MMAL_ENCODING_BGRA_SLICE :: u32 where
  "MMAL_ENCODING_BGRA_SLICE = MMAL_FOURCC CHR ''b'' CHR ''g'' CHR ''r'' CHR ''a''"
definition MMAL_ENCODING_BGR32_SLICE :: u32 where
  "MMAL_ENCODING_BGR32_SLICE = MMAL_FOURCC CHR ''b'' CHR ''g'' CHR ''r'' CHR ''4''"
definition MMAL_ENCODING_RGB16_SLICE :: u32 where
  "MMAL_ENCODING_RGB16_SLICE = MMAL_FOURCC CHR ''r'' CHR ''g'' CHR ''b'' CHR ''2''"
definition MMAL_ENCODING_RGB24_SLICE :: u32 where
  "MMAL_ENCODING_RGB24_SLICE = MMAL_FOURCC CHR ''r'' CHR ''g'' CHR ''b'' CHR ''3''"
definition MMAL_ENCODING_BGR16_SLICE :: u32 where
  "MMAL_ENCODING_BGR16_SLICE = MMAL_FOURCC CHR ''b'' CHR ''g'' CHR ''r'' CHR ''2''"
definition MMAL_ENCODING_BGR24_SLICE :: u32 where
  "MMAL_ENCODING_BGR24_SLICE = MMAL_FOURCC CHR ''b'' CHR ''g'' CHR ''r'' CHR ''3''"
definition MMAL_ENCODING_YUYV :: u32 where
  "MMAL_ENCODING_YUYV = MMAL_FOURCC CHR ''Y'' CHR ''U'' CHR ''Y'' CHR ''V''"
definition MMAL_ENCODING_YVYU :: u32 where
  "MMAL_ENCODING_YVYU = MMAL_FOURCC CHR ''Y'' CHR ''V'' CHR ''Y'' CHR ''U''"
definition MMAL_ENCODING_UYVY :: u32 where
  "MMAL_ENCODING_UYVY = MMAL_FOURCC CHR ''U'' CHR ''Y'' CHR ''V'' CHR ''Y''"
definition MMAL_ENCODING_VYUY :: u32 where
  "MMAL_ENCODING_VYUY = MMAL_FOURCC CHR ''V'' CHR ''Y'' CHR ''U'' CHR ''Y''"
definition MMAL_ENCODING_BAYER_SBGGR8 :: u32 where
  "MMAL_ENCODING_BAYER_SBGGR8 = MMAL_FOURCC CHR ''B'' CHR ''A'' CHR ''8'' CHR ''1''"
definition MMAL_ENCODING_BAYER_SGBRG8 :: u32 where
  "MMAL_ENCODING_BAYER_SGBRG8 = MMAL_FOURCC CHR ''G'' CHR ''B'' CHR ''R'' CHR ''G''"
definition MMAL_ENCODING_BAYER_SGRBG8 :: u32 where
  "MMAL_ENCODING_BAYER_SGRBG8 = MMAL_FOURCC CHR ''G'' CHR ''R'' CHR ''B'' CHR ''G''"
definition MMAL_ENCODING_BAYER_SRGGB8 :: u32 where
  "MMAL_ENCODING_BAYER_SRGGB8 = MMAL_FOURCC CHR ''R'' CHR ''G'' CHR ''G'' CHR ''B''"
definition MMAL_ENCODING_BAYER_SBGGR10DPCM8 :: u32 where
  "MMAL_ENCODING_BAYER_SBGGR10DPCM8 = MMAL_FOURCC CHR ''b'' CHR ''B'' CHR ''A'' CHR ''8''"
definition MMAL_ENCODING_BAYER_SBGGR10P :: u32 where
  "MMAL_ENCODING_BAYER_SBGGR10P = MMAL_FOURCC CHR ''p'' CHR ''B'' CHR ''A'' CHR ''A''"
definition MMAL_ENCODING_BAYER_SGRBG10P :: u32 where
  "MMAL_ENCODING_BAYER_SGRBG10P = MMAL_FOURCC CHR ''p'' CHR ''g'' CHR ''A'' CHR ''A''"
definition MMAL_ENCODING_BAYER_SGBRG10P :: u32 where
  "MMAL_ENCODING_BAYER_SGBRG10P = MMAL_FOURCC CHR ''p'' CHR ''G'' CHR ''A'' CHR ''A''"
definition MMAL_ENCODING_BAYER_SRGGB10P :: u32 where
  "MMAL_ENCODING_BAYER_SRGGB10P = MMAL_FOURCC CHR ''p'' CHR ''R'' CHR ''A'' CHR ''A''"
definition MMAL_ENCODING_BAYER_SBGGR16 :: u32 where
  "MMAL_ENCODING_BAYER_SBGGR16 = MMAL_FOURCC CHR ''B'' CHR ''Y'' CHR ''R'' CHR ''2''"

lemmas encoding_defs = MMAL_FOURCC_def MMAL_ENCODING_UNKNOWN_def
  MMAL_ENCODING_I420_def MMAL_ENCODING_YV12_def MMAL_ENCODING_I422_def
  MMAL_ENCODING_NV21_def MMAL_ENCODING_NV12_def MMAL_ENCODING_ARGB_def
  MMAL_ENCODING_RGBA_def MMAL_ENCODING_RGB32_def MMAL_ENCODING_ABGR_def
  MMAL_ENCODING_BGRA_def MMAL_ENCODING_BGR32_def MMAL_ENCODING_RGB16_def
  MMAL_ENCODING_RGB24_def MMAL_ENCODING_BGR16_def MMAL_ENCODING_BGR24_def
  MMAL_ENCODING_I420_SLICE_def MMAL_ENCODING_I422_SLICE_def MMAL_ENCODING_ARGB_SLICE_def
  MMAL_ENCODING_RGBA_SLICE_def MMAL_ENCODING_RGB32_SLICE_def MMAL_ENCODING_ABGR_SLICE_def
  MMAL_ENCODING_BGRA_SLICE_def MMAL_ENCODING_BGR32_SLICE_def MMAL_ENCODING_RGB16_SLICE_def
  MMAL_ENCODING_RGB24_SLICE_def MMAL_ENCODING_BGR16_SLICE_def MMAL_ENCODING_BGR24_SLICE_def
  MMAL_ENCODING_YUYV_def MMAL_ENCODING_YVYU_def MMAL_ENCODING_UYVY_def
  MMAL_ENCODING_VYUY_def MMAL_ENCODING_BAYER_SBGGR8_def MMAL_ENCODING_BAYER_SGBRG8_def
  MMAL_ENCODING_BAYER_SGRBG8_def MMAL_ENCODING_BAYER_SRGGB8_def MMAL_ENCODING_BAYER_SBGGR10DPCM8_def
  MMAL_ENCODING_BAYER_SBGGR10P_def MMAL_ENCODING_BAYER_SGRBG10P_def MMAL_ENCODING_BAYER_SGBRG10P_def
  MMAL_ENCODING_BAYER_SRGGB10P_def MMAL_ENCODING_BAYER_SBGGR16_def

subsection \<open>Tables\<close>

definition pixel_pitch :: "(u32 \<times> u32 \<times> u32 \<times> u32) list" where
  "pixel_pitch = [
     (MMAL_ENCODING_I420, 1, 1, 1),
     (MMAL_ENCODING_YV12, 1, 1, 1),
     (MMAL_ENCODING_I422, 1, 1, 1),
     (MMAL_ENCODING_NV21, 1, 1, 1),
     (MMAL_ENCODING_NV12, 1, 1, 1),
     (MMAL_ENCODING_ARGB, 4, 1, 1),
     (MMAL_ENCODING_RGBA, 4, 1, 1),
     (MMAL_ENCODING_RGB32, 4, 1, 1),
     (MMAL_ENCODING_ABGR, 4, 1, 1),
     (MMAL_ENCODING_BGRA, 4, 1, 1),
     (MMAL_ENCODING_BGR32, 4, 1, 1),
     (MMAL_ENCODING_RGB16, 2, 1, 1),
     (MMAL_ENCODING_RGB24, 3, 1, 1),
     (MMAL_ENCODING_BGR16, 2, 1, 1),
     (MMAL_ENCODING_BGR24, 3, 1, 1),
     (MMAL_ENCODING_I420_SLICE, 1, 1, 1),
     (MMAL_ENCODING_I422_SLICE, 1, 1, 1),
     (MMAL_ENCODING_ARGB_SLICE, 4, 1, 1),
     (MMAL_ENCODING_RGBA_SLICE, 4, 1, 1),
     (MMAL_ENCODING_RGB32_SLICE, 4, 1, 1),
     (MMAL_ENCODING_ABGR_SLICE, 4, 1, 1),
     (MMAL_ENCODING_BGRA_SLICE, 4, 1, 1),
     (MMAL_ENCODING_BGR32_SLICE, 4, 1, 1),
     (MMAL_ENCODING_RGB16_SLICE, 2, 1, 1),
     (MMAL_ENCODING_RGB24_SLICE, 3, 1, 1),
     (MMAL_ENCODING_BGR16_SLICE, 2, 1, 1),
     (MMAL_ENCODING_BGR24_SLICE, 3, 1, 1),
     (MMAL_ENCODING_YUYV, 2, 1, 1),
     (MMAL_ENCODING_YVYU, 2, 1, 1),
     (MMAL_ENCODING_UYVY, 2, 1, 1),
     (MMAL_ENCODING_VYUY, 2, 1, 1),
     (MMAL_ENCODING_BAYER_SBGGR8, 1, 1, 32),
     (MMAL_ENCODING_BAYER_SGBRG8, 1, 1, 32),
     (MMAL_ENCODING_BAYER_SGRBG8, 1, 1, 32),
     (MMAL_ENCODING_BAYER_SRGGB8, 1, 1, 32),
     (MMAL_ENCODING_BAYER_SBGGR10DPCM8, 1, 1, 32),
     (MMAL_ENCODING_BAYER_SBGGR10P, 10, 8, 32),
     (MMAL_ENCODING_BAYER_SGRBG10P, 10, 8, 32),
     (MMAL_ENCODING_BAYER_SGBRG10P, 10, 8, 32),
     (MMAL_ENCODING_BAYER_SRGGB10P, 10, 8, 32),
     (MMAL_ENCODING_BAYER_SBGGR16, 2, 1, 32)
   ]"

definition slice_equivalents :: "(u32 \<times> u32) list" where
  "slice_equivalents = [
     (MMAL_ENCODING_I420, MMAL_ENCODING_I420_SLICE),
     (MMAL_ENCODING_I422, MMAL_ENCODING_I422_SLICE),
     (MMAL_ENCODING_ARGB, MMAL_ENCODING_ARGB_SLICE),
     (MMAL_ENCODING_RGBA, MMAL_ENCODING_RGBA_SLICE),
     (MMAL_ENCODING_RGB32, MMAL_ENCODING_RGB32_SLICE),
     (MMAL_ENCODING_ABGR, MMAL_ENCODING_ABGR_SLICE),
     (MMAL_ENCODING_BGRA, MMAL_ENCODING_BGRA_SLICE),
     (MMAL_ENCODING_BGR32, MMAL_ENCODING_BGR32_SLICE),
     (MMAL_ENCODING_RGB16, MMAL_ENCODING_RGB16_SLICE),
     (MMAL_ENCODING_RGB24, MMAL_ENCODING_RGB24_SLICE),
     (MMAL_ENCODING_BGR16, MMAL_ENCODING_BGR16_SLICE),
     (MMAL_ENCODING_BGR24, MMAL_ENCODING_BGR24_SLICE)
   ]"

subsection \<open>Operations\<close>

definition VCOS_ALIGN_UP :: "u32 \<Rightarrow> u32 \<Rightarrow> u32" where
  "VCOS_ALIGN_UP p n = (p + n - 1) AND NOT (n - 1)"

text \<open>The loop over a table, up to its last entry, whose encoding is \<open>MMAL_ENCODING_UNKNOWN\<close>.\<close>

definition find_pitch :: "u32 \<Rightarrow> (u32 \<times> u32 \<times> u32 \<times> u32) option" where
  "find_pitch encoding = List.find (\<lambda>e. fst e = encoding) pixel_pitch"

definition mmal_encoding_stride_to_width :: "u32 \<Rightarrow> u32 \<Rightarrow> u32" where
  "mmal_encoding_stride_to_width encoding stride =
     (case find_pitch encoding of
        None \<Rightarrow> 0
      | Some (_, pitch_num, pitch_den, _) \<Rightarrow> pitch_den * stride div pitch_num)"

definition mmal_encoding_width_to_stride :: "u32 \<Rightarrow> u32 \<Rightarrow> u32" where
  "mmal_encoding_width_to_stride encoding width =
     (case find_pitch encoding of
        None \<Rightarrow> 0
      | Some (_, pitch_num, pitch_den, alignment) \<Rightarrow>
          VCOS_ALIGN_UP (pitch_num * width div pitch_den) alignment)"

definition mmal_encoding_get_slice_variant :: "u32 \<Rightarrow> u32" where
  "mmal_encoding_get_slice_variant encoding =
     (case map_of slice_equivalents encoding of
        None \<Rightarrow> MMAL_ENCODING_UNKNOWN
      | Some sliced \<Rightarrow> sliced)"

definition status_to_string_map :: "(mmal_status \<times> string) list" where
  "status_to_string_map = [
     (MMAL_SUCCESS, ''SUCCESS''), (MMAL_ENOMEM, ''ENOMEM''), (MMAL_ENOSPC, ''ENOSPC''),
     (MMAL_EINVAL, ''EINVAL''), (MMAL_ENOSYS, ''ENOSYS''), (MMAL_ENOENT, ''ENOENT''),
     (MMAL_ENXIO, ''ENXIO''), (MMAL_EIO, ''EIO''), (MMAL_ESPIPE, ''ESPIPE''),
     (MMAL_ECORRUPT, ''ECORRUPT''), (MMAL_ENOTREADY, ''ENOTREADY''), (MMAL_ECONFIG, ''ECONFIG'')]"

definition mmal_status_to_string :: "mmal_status \<Rightarrow> string" where
  "mmal_status_to_string status =
     (case map_of status_to_string_map status of Some str \<Rightarrow> str | None \<Rightarrow> ''UNKNOWN'')"

text \<open>The characters up to the final NUL; \<open>len\<close> is the size of the buffer, and the bytes of the code are
  in memory order of a little endian machine. A shorter buffer fails the assertion.\<close>

definition mmal_4cc_to_string :: "nat \<Rightarrow> u32 \<Rightarrow> string option" where
  "mmal_4cc_to_string len fourcc =
     (if len < 5 then None
      else if fourcc \<noteq> 0 then
        Some (takeWhile (\<lambda>c. c \<noteq> CHR 0x00)
          (map (\<lambda>i. char_of (unat (drop_bit (8 * i) fourcc) mod 256)) [0, 1, 2, 3]))
      else Some ''<0>'')"

subsection \<open>Properties\<close>

text \<open>The codes as numbers.\<close>

lemma encoding_values:
  "MMAL_ENCODING_I420 = 0x30323449"
  "MMAL_ENCODING_YV12 = 0x32315659"
  "MMAL_ENCODING_I422 = 0x32323449"
  "MMAL_ENCODING_NV21 = 0x3132564E"
  "MMAL_ENCODING_NV12 = 0x3231564E"
  "MMAL_ENCODING_ARGB = 0x42475241"
  "MMAL_ENCODING_RGBA = 0x41424752"
  "MMAL_ENCODING_RGB32 = 0x34424752"
  "MMAL_ENCODING_ABGR = 0x52474241"
  "MMAL_ENCODING_BGRA = 0x41524742"
  "MMAL_ENCODING_BGR32 = 0x34524742"
  "MMAL_ENCODING_RGB16 = 0x32424752"
  "MMAL_ENCODING_RGB24 = 0x33424752"
  "MMAL_ENCODING_BGR16 = 0x32524742"
  "MMAL_ENCODING_BGR24 = 0x33524742"
  "MMAL_ENCODING_I420_SLICE = 0x30323453"
  "MMAL_ENCODING_I422_SLICE = 0x32323453"
  "MMAL_ENCODING_ARGB_SLICE = 0x62677261"
  "MMAL_ENCODING_RGBA_SLICE = 0x61626772"
  "MMAL_ENCODING_RGB32_SLICE = 0x34626772"
  "MMAL_ENCODING_ABGR_SLICE = 0x72676261"
  "MMAL_ENCODING_BGRA_SLICE = 0x61726762"
  "MMAL_ENCODING_BGR32_SLICE = 0x34726762"
  "MMAL_ENCODING_RGB16_SLICE = 0x32626772"
  "MMAL_ENCODING_RGB24_SLICE = 0x33626772"
  "MMAL_ENCODING_BGR16_SLICE = 0x32726762"
  "MMAL_ENCODING_BGR24_SLICE = 0x33726762"
  "MMAL_ENCODING_YUYV = 0x56595559"
  "MMAL_ENCODING_YVYU = 0x55595659"
  "MMAL_ENCODING_UYVY = 0x59565955"
  "MMAL_ENCODING_VYUY = 0x59555956"
  "MMAL_ENCODING_BAYER_SBGGR8 = 0x31384142"
  "MMAL_ENCODING_BAYER_SGBRG8 = 0x47524247"
  "MMAL_ENCODING_BAYER_SGRBG8 = 0x47425247"
  "MMAL_ENCODING_BAYER_SRGGB8 = 0x42474752"
  "MMAL_ENCODING_BAYER_SBGGR10DPCM8 = 0x38414262"
  "MMAL_ENCODING_BAYER_SBGGR10P = 0x41414270"
  "MMAL_ENCODING_BAYER_SGRBG10P = 0x41416770"
  "MMAL_ENCODING_BAYER_SGBRG10P = 0x41414770"
  "MMAL_ENCODING_BAYER_SRGGB10P = 0x41415270"
  "MMAL_ENCODING_BAYER_SBGGR16 = 0x32525942"
  by (simp_all only: encoding_defs, simp_all)

lemmas encoding_simps = encoding_values MMAL_ENCODING_UNKNOWN_def

lemma pixel_pitch_codes:
  "map (uint \<circ> fst) pixel_pitch = [
     808596553, 842094169, 842150985, 825382478, 842094158, 1111970369, 1094862674, 876758866,
     1380401729, 1095911234, 877807426, 843204434, 859981650, 844252994, 861030210, 808596563,
     842150995, 1650946657, 1633838962, 878864242, 1919378017, 1634887522, 879912802, 845309810,
     862087026, 846358370, 863135586, 1448695129, 1431918169, 1498831189, 1498765654, 825770306,
     1196573255, 1195528775, 1111967570, 943800930, 1094795888, 1094805360, 1094797168, 1094799984,
     844257602]"
  by (simp add: pixel_pitch_def encoding_values)

lemma pixel_pitch_keys: "distinct (map fst pixel_pitch)"
proof -
  have "distinct (map (uint \<circ> fst) pixel_pitch)" unfolding pixel_pitch_codes by simp
  then show ?thesis unfolding map_map [symmetric] by (auto simp: distinct_map dest: inj_on_imageI2)
qed

lemma find_unique:
  assumes "distinct (map fst xs)" and "x \<in> set xs"
  shows "List.find (\<lambda>e. fst e = fst x) xs = Some x"
  using assms by (induction xs) (auto simp: image_iff)

lemma find_pitch_mem: "(enc, n, d, al) \<in> set pixel_pitch \<Longrightarrow> find_pitch enc = Some (enc, n, d, al)"
  using find_unique [OF pixel_pitch_keys] by (force simp: find_pitch_def)

lemma pixel_pitch_values:
  "\<forall>e\<in>set pixel_pitch. snd e \<in> {(1, 1, 1), (2, 1, 1), (3, 1, 1), (4, 1, 1), (1, 1, 32), (2, 1, 32), (10, 8, 32)}"
  by (simp add: pixel_pitch_def)

lemma align_up_32: "unat p + 31 < 2 ^ 32 \<Longrightarrow> unat (VCOS_ALIGN_UP p 32) = (unat p + 31) div 32 * 32"
proof -
  assume p: "unat p + 31 < 2 ^ 32"
  have "(31 :: u32) = mask 5" by (simp add: mask_eq_exp_minus_1)
  then have "unat (VCOS_ALIGN_UP p 32) = unat (p + 31) div 32 * 32"
    using unat_and_not_mask [of "p + 31" 5] by (simp add: VCOS_ALIGN_UP_def add.commute)
  moreover have "unat (p + 31) = unat p + 31" using p by (simp add: unat_word_ariths)
  ultimately show ?thesis by simp
qed

lemma unat_mult_small: "unat a * unat b < 2 ^ 32 \<Longrightarrow> unat (a * b :: u32) = unat a * unat b"
  by (simp add: unat_word_ariths)

lemma stride_values:
  assumes "(enc, n, d, al) \<in> set pixel_pitch" and "unat w \<le> 2 ^ 28"
    and "S = (unat n * unat w div unat d + unat al - 1) div unat al * unat al"
  shows "unat (mmal_encoding_width_to_stride enc w) = S"
    and "unat (mmal_encoding_stride_to_width enc (mmal_encoding_width_to_stride enc w)) = unat d * S div unat n"
proof -
  have v: "(n, d, al) \<in> {(1, 1, 1), (2, 1, 1), (3, 1, 1), (4, 1, 1), (1, 1, 32), (2, 1, 32), (10, 8, 32)}"
    using bspec [OF pixel_pitch_values assms(1)] by simp
  have b: "unat n \<le> 10" "unat d \<in> {1, 8}" "unat al \<in> {1, 32}" "unat n = 10 \<longleftrightarrow> unat d = 8" "0 < unat n" using v by auto
  have "unat n * unat w \<le> 10 * 2 ^ 28" using b(1) assms(2) by (intro mult_le_mono) simp_all
  then have nw: "unat (n * w) = unat n * unat w" by (intro unat_mult_small) simp
  then have p: "unat (n * w div d) = unat n * unat w div unat d" by (simp add: unat_div)
  have small: "unat n * unat w div unat d \<le> 4 * 2 ^ 28"
  proof -
    have "unat n * unat w div unat d \<le> (if unat d = 8 then 10 * 2 ^ 28 div 8 else 4 * 2 ^ 28)"
      using v assms(2) \<open>unat n * unat w \<le> 10 * 2 ^ 28\<close> by (auto intro: div_le_mono)
    then show ?thesis by (simp split: if_splits)
  qed
  show s: "unat (mmal_encoding_width_to_stride enc w) = S"
  proof (cases "al = 1")
    case True
    then show ?thesis by (simp add: assms(3) mmal_encoding_width_to_stride_def find_pitch_mem [OF assms(1)] VCOS_ALIGN_UP_def p)
  next
    case False
    then have "al = 32" using v by auto
    moreover have "unat (n * w div d) + 31 < 2 ^ 32" using small p by simp
    ultimately show ?thesis
      using align_up_32 [of "n * w div d"] p
      by (simp add: assms(3) mmal_encoding_width_to_stride_def find_pitch_mem [OF assms(1)])
  qed
  have "S \<le> unat n * unat w div unat d + 31" using b(3) div_times_less_eq_dividend [of "unat n * unat w div unat d + 31" 32] by (auto simp: assms(3))
  moreover have "unat d * (unat n * unat w div unat d) \<le> unat n * unat w" by simp
  ultimately have "unat d * S \<le> 10 * 2 ^ 28 + 8 * 31"
    using \<open>unat n * unat w \<le> 10 * 2 ^ 28\<close> b(2) mult_le_mono2 [of S "unat n * unat w div unat d + 31" "unat d"]
    by (auto simp: distrib_left)
  then have "unat (d * mmal_encoding_width_to_stride enc w) = unat d * S" unfolding s [symmetric] by (intro unat_mult_small) simp
  then show "unat (mmal_encoding_stride_to_width enc (mmal_encoding_width_to_stride enc w)) = unat d * S div unat n"
    by (simp add: mmal_encoding_stride_to_width_def find_pitch_mem [OF assms(1)] unat_div)
qed

lemma slice_rows:
  "(MMAL_ENCODING_I420, 1, 1, 1) \<in> set pixel_pitch"
  "(MMAL_ENCODING_I420_SLICE, 1, 1, 1) \<in> set pixel_pitch"
  "(MMAL_ENCODING_I422, 1, 1, 1) \<in> set pixel_pitch"
  "(MMAL_ENCODING_I422_SLICE, 1, 1, 1) \<in> set pixel_pitch"
  "(MMAL_ENCODING_ARGB, 4, 1, 1) \<in> set pixel_pitch"
  "(MMAL_ENCODING_ARGB_SLICE, 4, 1, 1) \<in> set pixel_pitch"
  "(MMAL_ENCODING_RGBA, 4, 1, 1) \<in> set pixel_pitch"
  "(MMAL_ENCODING_RGBA_SLICE, 4, 1, 1) \<in> set pixel_pitch"
  "(MMAL_ENCODING_RGB32, 4, 1, 1) \<in> set pixel_pitch"
  "(MMAL_ENCODING_RGB32_SLICE, 4, 1, 1) \<in> set pixel_pitch"
  "(MMAL_ENCODING_ABGR, 4, 1, 1) \<in> set pixel_pitch"
  "(MMAL_ENCODING_ABGR_SLICE, 4, 1, 1) \<in> set pixel_pitch"
  "(MMAL_ENCODING_BGRA, 4, 1, 1) \<in> set pixel_pitch"
  "(MMAL_ENCODING_BGRA_SLICE, 4, 1, 1) \<in> set pixel_pitch"
  "(MMAL_ENCODING_BGR32, 4, 1, 1) \<in> set pixel_pitch"
  "(MMAL_ENCODING_BGR32_SLICE, 4, 1, 1) \<in> set pixel_pitch"
  "(MMAL_ENCODING_RGB16, 2, 1, 1) \<in> set pixel_pitch"
  "(MMAL_ENCODING_RGB16_SLICE, 2, 1, 1) \<in> set pixel_pitch"
  "(MMAL_ENCODING_RGB24, 3, 1, 1) \<in> set pixel_pitch"
  "(MMAL_ENCODING_RGB24_SLICE, 3, 1, 1) \<in> set pixel_pitch"
  "(MMAL_ENCODING_BGR16, 2, 1, 1) \<in> set pixel_pitch"
  "(MMAL_ENCODING_BGR16_SLICE, 2, 1, 1) \<in> set pixel_pitch"
  "(MMAL_ENCODING_BGR24, 3, 1, 1) \<in> set pixel_pitch"
  "(MMAL_ENCODING_BGR24_SLICE, 3, 1, 1) \<in> set pixel_pitch"
  by (simp_all add: pixel_pitch_def)

lemma slice_pitches:
  "(e, sl) \<in> set slice_equivalents \<Longrightarrow> \<exists>v. (e, v) \<in> set pixel_pitch \<and> (sl, v) \<in> set pixel_pitch"
  by (simp add: slice_equivalents_def) (elim disjE conjE; hypsubst; blast intro: slice_rows)

text \<open>Strides and widths. For every encoding of the table and every width of up to $2^{28}$ pixels
  nothing wraps: the stride is the pitch times the width, rounded up to the alignment; a width whose
  line is a whole number of bytes fits in its stride, and without alignment it is got back exactly.
  The variant of the encoding for slices has the same stride.\<close>

theorem encoding_stride_roundtrip:
  assumes "(enc, n, d, al) \<in> set pixel_pitch" and "unat w \<le> 2 ^ 28"
  shows "unat al dvd unat (mmal_encoding_width_to_stride enc w)
    \<and> unat n * unat w div unat d \<le> unat (mmal_encoding_width_to_stride enc w)
    \<and> (unat d dvd unat n * unat w
         \<longrightarrow> w \<le> mmal_encoding_stride_to_width enc (mmal_encoding_width_to_stride enc w))
    \<and> (al = 1 \<longrightarrow> mmal_encoding_stride_to_width enc (mmal_encoding_width_to_stride enc w) = w)
    \<and> (mmal_encoding_get_slice_variant enc \<noteq> MMAL_ENCODING_UNKNOWN
         \<longrightarrow> mmal_encoding_width_to_stride (mmal_encoding_get_slice_variant enc) w
              = mmal_encoding_width_to_stride enc w)"
proof -
  define S where "S = (unat n * unat w div unat d + unat al - 1) div unat al * unat al"
  note v = stride_values [OF assms S_def]
  have c: "(n, d, al) \<in> {(1, 1, 1), (2, 1, 1), (3, 1, 1), (4, 1, 1), (1, 1, 32), (2, 1, 32), (10, 8, 32)}"
    using bspec [OF pixel_pitch_values assms(1)] by simp
  have le: "unat n * unat w div unat d \<le> S" using c unfolding S_def by auto
  have "w \<le> mmal_encoding_stride_to_width enc (mmal_encoding_width_to_stride enc w)"
    if dvd: "unat d dvd unat n * unat w"
  proof -
    have "unat n * unat w \<le> unat d * S" using le dvd by (metis dvd_mult_div_cancel mult_le_mono2)
    then have "unat n * unat w div unat n \<le> unat d * S div unat n" by (rule div_le_mono)
    then show ?thesis using c v(2) by (auto simp: word_le_nat_alt)
  qed
  moreover have "mmal_encoding_stride_to_width enc (mmal_encoding_width_to_stride enc w) = w" if "al = 1"
    using that c v(2) unfolding S_def by (auto simp: word_unat_eq_iff)
  moreover have "mmal_encoding_width_to_stride (mmal_encoding_get_slice_variant enc) w
      = mmal_encoding_width_to_stride enc w" if known: "mmal_encoding_get_slice_variant enc \<noteq> MMAL_ENCODING_UNKNOWN"
  proof -
    obtain sl where sl: "(enc, sl) \<in> set slice_equivalents" "mmal_encoding_get_slice_variant enc = sl"
      using known by (auto simp: mmal_encoding_get_slice_variant_def split: option.splits dest: map_of_SomeD)
    obtain v where "(enc, v) \<in> set pixel_pitch" "(sl, v) \<in> set pixel_pitch"
      using slice_pitches [OF sl(1)] by blast
    then have "map_option snd (find_pitch sl) = map_option snd (find_pitch enc)"
      by (cases v) (simp add: find_pitch_mem)
    then show ?thesis
      unfolding sl(2) by (cases "find_pitch sl"; cases "find_pitch enc") (auto simp: mmal_encoding_width_to_stride_def)
  qed
  ultimately show ?thesis using v(1) le by (simp add: S_def)
qed

theorem encoding_stride_roundtrip_witness:
  "mmal_encoding_stride_to_width MMAL_ENCODING_RGB24 (mmal_encoding_width_to_stride MMAL_ENCODING_RGB24 640) = 640
     \<and> mmal_encoding_width_to_stride (mmal_encoding_get_slice_variant MMAL_ENCODING_RGB24) 640
        = mmal_encoding_width_to_stride MMAL_ENCODING_RGB24 640"
proof -
  have m: "(MMAL_ENCODING_RGB24, 3, 1, 1) \<in> set pixel_pitch" by (simp add: pixel_pitch_def)
  have "mmal_encoding_get_slice_variant MMAL_ENCODING_RGB24 \<noteq> MMAL_ENCODING_UNKNOWN"
    by (simp add: mmal_encoding_get_slice_variant_def slice_equivalents_def encoding_simps)
  then show ?thesis using encoding_stride_roundtrip [OF m, of 640] by simp
qed

text \<open>A line of 26 pixels of 10 bits takes 32.5 bytes; the division truncates before the stride is
  aligned, so that the stride has room for 25.\<close>

lemma bayer10_stride_too_small:
  "mmal_encoding_width_to_stride MMAL_ENCODING_BAYER_SBGGR10P 26 = 32 \<and> 8 * (32 :: nat) < 10 * 26
     \<and> mmal_encoding_stride_to_width MMAL_ENCODING_BAYER_SBGGR10P 32 = 25"
proof -
  have m: "(MMAL_ENCODING_BAYER_SBGGR10P, 10, 8, 32) \<in> set pixel_pitch" by (simp add: pixel_pitch_def)
  have "unat (mmal_encoding_width_to_stride MMAL_ENCODING_BAYER_SBGGR10P 26) = 32"
    "unat (mmal_encoding_stride_to_width MMAL_ENCODING_BAYER_SBGGR10P
       (mmal_encoding_width_to_stride MMAL_ENCODING_BAYER_SBGGR10P 26)) = 25"
    using stride_values [OF m, of 26] by simp_all
  then have "mmal_encoding_width_to_stride MMAL_ENCODING_BAYER_SBGGR10P 26 = 32"
    "mmal_encoding_stride_to_width MMAL_ENCODING_BAYER_SBGGR10P
       (mmal_encoding_width_to_stride MMAL_ENCODING_BAYER_SBGGR10P 26) = 25"
    by (simp_all add: word_unat_eq_iff)
  then show ?thesis by simp
qed

end

