(* ===== verification/Port.thy ===== *)
theory Port
  imports Pool Format Encodings
begin

text \<open>
  core/mmal_port.c and core/mmal_events.c: ports, the buffer headers in transit in them, and the
  callbacks through which components give headers back.

  The environment of the pools, \<open>core_env\<close>, holds ports and components by address, the memory of
  formats, the contents of event buffers, and the state \<open>modules\<close> of everything else (component
  modules, clients). The function pointers of ports and components are numbers that the record
  \<open>port_ops\<close> resolves: the code they stand for is in component modules and clients. Callbacks of
  ports are the client's or one of the two that the core installs on connected ports.

  \<open>heap\<close> and \<open>syncs\<close> are the results of the next allocations and of the next creations of locks and
  semaphores. \<open>None\<close> is a NULL dereference, the call of a NULL function pointer, or a thread that
  blocks for ever.
\<close>

subsection \<open>State\<close>

datatype mmal_port_type = MMAL_PORT_TYPE_UNKNOWN | MMAL_PORT_TYPE_CONTROL | MMAL_PORT_TYPE_INPUT
  | MMAL_PORT_TYPE_OUTPUT | MMAL_PORT_TYPE_CLOCK

datatype port_cb = ClientCb nat | ConnectedInputCb | ConnectedOutputCb

record core_statistics =
  buffer_count :: u32
  first_buffer_time :: u32
  last_buffer_time :: u32
  max_delay :: u32

record mmal_port =
  pt_type :: mmal_port_type
  pt_index :: nat
  pt_index_all :: nat
  pt_enabled :: bool
  pt_format :: ptr
  buffer_num_min :: u32
  buffer_size_min :: u32
  buffer_num_recommended :: u32
  buffer_size_recommended :: u32
  buffer_num :: u32
  buffer_size :: u32
  pt_component :: addr
  capabilities :: u32
  pf_set_format :: "nat option"
  pf_enable :: "nat option"
  pf_disable :: "nat option"
  pf_send :: "nat option"
  pf_flush :: "nat option"
  pf_parameter_set :: "nat option"
  pf_parameter_get :: "nat option"
  pf_connect :: "nat option"
  pf_port_payload_alloc :: "nat option"
  pf_port_payload_free :: "nat option"
  buffer_header_callback :: "port_cb option"
  transit_buffer_headers :: int
  transit_sema :: nat
  format_ptr_copy :: ptr
  connected_port :: ptr
  core_owns_connection :: bool
  pool_for_connection :: ptr
  is_paused :: bool
  queue_first :: ptr
  queue_last :: qlink
  stats_rx :: core_statistics
  stats_tx :: core_statistics

record mmal_component =
  cp_name :: string
  cp_enabled :: bool
  cp_control :: ptr
  cp_input :: "addr list"
  input_array :: ptr
  cp_output :: "addr list"
  output_array :: ptr
  cp_clock :: "addr list"
  clock_array :: ptr
  cp_port :: "addr list"
  port_array :: ptr
  cp_id :: u32
  cf_enable :: "nat option"
  cf_disable :: "nat option"
  cf_destroy :: "nat option"
  event_pool :: ptr
  cp_refcount :: int
  cp_refcount_ports :: int
  pf_action :: "nat option"
  action_event :: bool
  destruction_pending :: bool

datatype core_stats_dir = MMAL_CORE_STATS_RX | MMAL_CORE_STATS_TX

text \<open>Parameters, by their identifiers: core statistics with a direction, a flag to reset them and the
  values; buffer requirements (minimal and recommended number and size); the parameters of clocks; all
  others.\<close>

datatype mmal_param =
    ParamCoreStatistics core_stats_dir bool core_statistics
  | ParamBufferRequirements u32 u32 u32 u32
  | ParamClockReference bool
  | ParamClockActive bool
  | ParamClockScale mmal_rational
  | ParamClockTime int
  | ParamClockUpdateThreshold int int
  | ParamClockDiscontThreshold int int
  | ParamClockRequestThreshold int bool
  | ParamClockEnableBufferInfo bool
  | ParamClockFrameRate mmal_rational
  | ParamClockLatency int int int
  | ParamOther u32

text \<open>What an event buffer contains; the format of a changed format lies behind it, in the memory of
  formats.\<close>

datatype event_content =
    EventBytes
  | EventError mmal_status
  | EventEos mmal_port_type nat
  | EventFormatChanged u32 u32 u32 u32

record 'm core_env =
  ports :: "addr \<Rightarrow> mmal_port"
  components :: "addr \<Rightarrow> mmal_component"
  fmts :: format_heap
  event_mem :: "addr \<Rightarrow> event_content"
  heap :: "nat \<Rightarrow> ptr"
  heap_next :: nat
  syncs :: "nat \<Rightarrow> bool"
  syncs_next :: nat
  heap_frees :: "addr list"
  core_instance_count :: u32
  core_refcount :: nat
  suppliers :: "(string \<times> nat) list"
  modules :: 'm

type_synonym 'm world = "'m core_env pmem"

record 'm port_ops =
  f_set_format :: "nat \<Rightarrow> addr \<Rightarrow> 'm world \<Rightarrow> (mmal_status \<times> 'm world) option"
  f_enable :: "nat \<Rightarrow> addr \<Rightarrow> port_cb option \<Rightarrow> 'm world \<Rightarrow> (mmal_status \<times> 'm world) option"
  f_disable :: "nat \<Rightarrow> addr \<Rightarrow> 'm world \<Rightarrow> (mmal_status \<times> 'm world) option"
  f_send :: "nat \<Rightarrow> addr \<Rightarrow> addr \<Rightarrow> 'm world \<Rightarrow> (mmal_status \<times> 'm world) option"
  f_flush :: "nat \<Rightarrow> addr \<Rightarrow> 'm world \<Rightarrow> (mmal_status \<times> 'm world) option"
  f_connect :: "nat \<Rightarrow> addr \<Rightarrow> ptr \<Rightarrow> 'm world \<Rightarrow> (mmal_status \<times> 'm world) option"
  f_parameter_set :: "nat \<Rightarrow> addr \<Rightarrow> mmal_param \<Rightarrow> 'm world \<Rightarrow> (mmal_status \<times> 'm world) option"
  f_parameter_get ::
    "nat \<Rightarrow> addr \<Rightarrow> mmal_param \<Rightarrow> 'm world \<Rightarrow> (mmal_status \<times> mmal_param \<times> 'm world) option"
  f_payload_alloc :: "nat \<Rightarrow> addr \<Rightarrow> u32 \<Rightarrow> 'm core_env \<Rightarrow> ptr \<times> 'm core_env"
  f_payload_free :: "nat \<Rightarrow> addr \<Rightarrow> addr \<Rightarrow> 'm world \<Rightarrow> 'm world option"
  f_client_cb :: "nat \<Rightarrow> addr \<Rightarrow> addr \<Rightarrow> 'm world \<Rightarrow> 'm world option"
  f_pool_cb :: "nat \<Rightarrow> addr \<Rightarrow> addr \<Rightarrow> ptr \<Rightarrow> 'm world \<Rightarrow> (bool \<times> 'm world) option"
  f_pre_release :: "nat \<Rightarrow> addr \<Rightarrow> ptr \<Rightarrow> 'm world \<Rightarrow> (bool \<times> 'm world) option"
  f_component_enable :: "nat \<Rightarrow> addr \<Rightarrow> 'm world \<Rightarrow> (mmal_status \<times> 'm world) option"
  f_component_disable :: "nat \<Rightarrow> addr \<Rightarrow> 'm world \<Rightarrow> (mmal_status \<times> 'm world) option"
  f_component_destroy :: "nat \<Rightarrow> addr \<Rightarrow> 'm world \<Rightarrow> (mmal_status \<times> 'm world) option"
  f_action :: "nat \<Rightarrow> addr \<Rightarrow> 'm world \<Rightarrow> 'm world option"
  f_create :: "nat \<Rightarrow> string \<Rightarrow> addr \<Rightarrow> 'm world \<Rightarrow> (mmal_status \<times> 'm world) option"
  while_waiting :: "addr \<Rightarrow> 'm world \<Rightarrow> 'm world"
  getmicrosecs :: "'m core_env \<Rightarrow> u32"
  queue_parts_ok :: "'m core_env \<Rightarrow> bool \<times> bool \<times> bool"
  ops_abi :: abi
  pool_private_size :: u32

definition upd_env :: "('m core_env \<Rightarrow> 'm core_env) \<Rightarrow> 'm world \<Rightarrow> 'm world" where
  "upd_env f m = set_env (f (env (ctx m))) m"

definition port_at :: "'m world \<Rightarrow> addr \<Rightarrow> mmal_port" where
  "port_at m p = ports (env (ctx m)) p"

definition upd_port :: "addr \<Rightarrow> (mmal_port \<Rightarrow> mmal_port) \<Rightarrow> 'm world \<Rightarrow> 'm world" where
  "upd_port p f = upd_env (\<lambda>e. e\<lparr>ports := (ports e)(p := f (ports e p))\<rparr>)"

definition component_at :: "'m world \<Rightarrow> addr \<Rightarrow> mmal_component" where
  "component_at m c = components (env (ctx m)) c"

definition upd_component :: "addr \<Rightarrow> (mmal_component \<Rightarrow> mmal_component) \<Rightarrow> 'm world \<Rightarrow> 'm world" where
  "upd_component c f = upd_env (\<lambda>e. e\<lparr>components := (components e)(c := f (components e c))\<rparr>)"

definition upd_fmts :: "(format_heap \<Rightarrow> format_heap) \<Rightarrow> 'm world \<Rightarrow> 'm world" where
  "upd_fmts f = upd_env (\<lambda>e. e\<lparr>fmts := f (fmts e)\<rparr>)"

definition set_event :: "addr \<Rightarrow> event_content \<Rightarrow> 'm world \<Rightarrow> 'm world" where
  "set_event a x = upd_env (\<lambda>e. e\<lparr>event_mem := (event_mem e)(a := x)\<rparr>)"

lemmas world_defs = upd_env_def port_at_def upd_port_def component_at_def upd_component_def
  upd_fmts_def set_event_def

lemma world_simps [simp]:
  "bufs (upd_port p f m) = bufs m" "bufs (upd_component c g m) = bufs m" "bufs (upd_env h m) = bufs m"
  "pool_at (upd_port p f m) = pool_at m" "pool_at (upd_component c g m) = pool_at m"
  "pool_at (upd_env h m) = pool_at m"
  "port_at (upd_port p f m) = (port_at m)(p := f (port_at m p))"
  "port_at (upd_component c g m) = port_at m" "port_at (upd_buf a u m) = port_at m"
  "port_at (upd_pool q v m) = port_at m"
  "component_at (upd_port p f m) = component_at m" "component_at (upd_buf a u m) = component_at m"
  "component_at (upd_component c g m) = (component_at m)(c := g (component_at m c))"
  "component_at (upd_pool q v m) = component_at m"
  "port_at (m\<lparr>bufs := h'\<rparr>) = port_at m" "pool_at (m\<lparr>bufs := h'\<rparr>) = pool_at m"
  "component_at (m\<lparr>bufs := h'\<rparr>) = component_at m"
  "modules (env (ctx (upd_port p f m))) = modules (env (ctx m))"
  "modules (env (ctx (upd_component c g m))) = modules (env (ctx m))"
  by (auto simp: world_defs pool_at_def set_env_def fun_eq_iff)

subsection \<open>Allocation\<close>

definition core_malloc :: "'m core_env \<Rightarrow> ptr \<times> 'm core_env" where
  "core_malloc e = (heap e (heap_next e), e\<lparr>heap_next := heap_next e + 1\<rparr>)"

definition core_free :: "addr \<Rightarrow> 'm core_env \<Rightarrow> 'm core_env" where
  "core_free a e = e\<lparr>heap_frees := heap_frees e @ [a]\<rparr>"

text \<open>The creation of a lock or a semaphore.\<close>

definition sync_create :: "'m core_env \<Rightarrow> bool \<times> 'm core_env" where
  "sync_create e = (syncs e (syncs_next e), e\<lparr>syncs_next := syncs_next e + 1\<rparr>)"

definition zero_stats :: core_statistics where
  "zero_stats = \<lparr>buffer_count = 0, first_buffer_time = 0, last_buffer_time = 0, max_delay = 0\<rparr>"

definition zero_port :: mmal_port where
  "zero_port = \<lparr>pt_type = MMAL_PORT_TYPE_UNKNOWN, pt_index = 0, pt_index_all = 0, pt_enabled = False,
     pt_format = None, buffer_num_min = 0, buffer_size_min = 0, buffer_num_recommended = 0,
     buffer_size_recommended = 0, buffer_num = 0, buffer_size = 0, pt_component = 0, capabilities = 0,
     pf_set_format = None, pf_enable = None, pf_disable = None, pf_send = None, pf_flush = None,
     pf_parameter_set = None, pf_parameter_get = None, pf_connect = None,
     pf_port_payload_alloc = None, pf_port_payload_free = None, buffer_header_callback = None,
     transit_buffer_headers = 0, transit_sema = 0, format_ptr_copy = None, connected_port = None,
     core_owns_connection = False, pool_for_connection = None, is_paused = False, queue_first = None,
     queue_last = AtFirst, stats_rx = zero_stats, stats_tx = zero_stats\<rparr>"

text \<open>The number of \<open>mmal_port_connect_default\<close>, a function that does nothing and returns
  \<open>MMAL_ENOSYS\<close>.\<close>

definition port_connect_default_fn :: nat where "port_connect_default_fn = 0"

definition port_connect :: "'m port_ops \<Rightarrow> nat \<Rightarrow> addr \<Rightarrow> ptr \<Rightarrow> 'm world \<Rightarrow> (mmal_status \<times> 'm world) option" where
  "port_connect ops f p other m =
     (if f = port_connect_default_fn then Some (MMAL_ENOSYS, m) else f_connect ops f p other m)"

definition mmal_port_alloc :: "addr \<Rightarrow> mmal_port_type \<Rightarrow> 'm world \<Rightarrow> ptr \<times> 'm world" where
  "mmal_port_alloc c type m =
     (let (port, e) = core_malloc (env (ctx m)) in
      case port of
        None \<Rightarrow> (None, set_env e m)
      | Some p \<Rightarrow>
          let m = set_env e m;
              m = upd_port p (\<lambda>_. zero_port\<lparr>pt_type := type, pt_component := c, queue_last := AtFirst,
                    pf_connect := Some port_connect_default_fn\<rparr>) m;
              (lock, e) = sync_create (env (ctx m));
              (lock_send, e) = sync_create e;
              (lock_transit, e) = sync_create e;
              (sema_transit, e) = sync_create e;
              (lock_stats, e) = sync_create e;
              (lock_connection, e) = sync_create e;
              m = upd_port p (\<lambda>r. r\<lparr>transit_sema := 1\<rparr>) (set_env e m)
          in
            if \<not> lock \<or> \<not> lock_send \<or> \<not> lock_transit \<or> \<not> sema_transit \<or> \<not> lock_stats \<or> \<not> lock_connection
            then (None, upd_env (core_free p) m)
            else
              let (block, e) = core_malloc (env (ctx m));
                  (format, h) = mmal_format_alloc block (fmts e);
                  m = upd_fmts (\<lambda>_. h) (set_env e m)
              in
                if format = None then (None, upd_env (core_free p) m)
                else (Some p, upd_port p (\<lambda>r. r\<lparr>pt_format := format, format_ptr_copy := format\<rparr>) m))"

definition mmal_port_free :: "ptr \<Rightarrow> 'm world \<Rightarrow> 'm world option" where
  "mmal_port_free port m =
     (case port of
        None \<Rightarrow> Some m
      | Some p \<Rightarrow>
          if pt_format (port_at m p) \<noteq> format_ptr_copy (port_at m p) then None
          else do {
            f \<leftarrow> format_ptr_copy (port_at m p);
            h \<leftarrow> mmal_format_free f (fmts (env (ctx m)));
            Some (upd_env (core_free p) (upd_fmts (\<lambda>_. h) m))
          })"

text \<open>Freeing the ports of a list, and the loop that fills the array of \<open>mmal_ports_alloc\<close>; \<open>i\<close> is
  the number of ports allocated so far.\<close>

fun free_ports :: "addr list \<Rightarrow> 'm world \<Rightarrow> 'm world option" where
  "free_ports [] m = Some m"
| "free_ports (p # ps) m = Option.bind (mmal_port_free (Some p) m) (free_ports ps)"

fun alloc_ports :: "addr \<Rightarrow> mmal_port_type \<Rightarrow> nat \<Rightarrow> nat \<Rightarrow> 'm world \<Rightarrow> addr list \<times> bool \<times> 'm world" where
  "alloc_ports c type i 0 m = ([], True, m)"
| "alloc_ports c type i (Suc n) m =
     (case mmal_port_alloc c type m of
        (None, m) \<Rightarrow> ([], False, m)
      | (Some p, m) \<Rightarrow>
          let m = upd_port p (\<lambda>r. r\<lparr>pt_index := i\<rparr>) m;
              (ps, ok, m) = alloc_ports c type (i + 1) n m
          in (p # ps, ok, m))"

definition mmal_ports_alloc ::
    "addr \<Rightarrow> nat \<Rightarrow> mmal_port_type \<Rightarrow> 'm world \<Rightarrow> ((addr \<times> addr list) option \<times> 'm world) option" where
  "mmal_ports_alloc c ports_num type m =
     (let (array, e) = core_malloc (env (ctx m));
          m = set_env e m
      in
        case array of
          None \<Rightarrow> Some (None, m)
        | Some a \<Rightarrow>
            let (ps, ok, m) = alloc_ports c type 0 ports_num m in
            if \<not> ok
            then map_option (\<lambda>m. (None, upd_env (core_free a) m)) (free_ports ps m)
            else Some (Some (a, ps), m))"

definition mmal_ports_free :: "addr \<Rightarrow> addr list \<Rightarrow> 'm world \<Rightarrow> 'm world option" where
  "mmal_ports_free a ps m = map_option (upd_env (core_free a)) (free_ports ps m)"

subsection \<open>Buffer headers in transit\<close>

text \<open>\<open>transit_sema\<close> has a token exactly when no buffer is in transit, so the wait for it in the first
  of the three macros never blocks; if it did, the thread would hold the lock that every post
  needs.\<close>

definition IN_TRANSIT_INCREMENT :: "addr \<Rightarrow> 'm world \<Rightarrow> 'm world option" where
  "IN_TRANSIT_INCREMENT p m =
     (let old = transit_buffer_headers (port_at m p);
          m = upd_port p (\<lambda>r. r\<lparr>transit_buffer_headers := s32 (transit_buffer_headers r + 1)\<rparr>) m
      in
        if old = 0 then
          if transit_sema (port_at m p) = 0 then None
          else Some (upd_port p (\<lambda>r. r\<lparr>transit_sema := transit_sema r - 1\<rparr>) m)
        else Some m)"

definition IN_TRANSIT_DECREMENT :: "addr \<Rightarrow> 'm world \<Rightarrow> 'm world" where
  "IN_TRANSIT_DECREMENT p m =
     (let m = upd_port p (\<lambda>r. r\<lparr>transit_buffer_headers := s32 (transit_buffer_headers r - 1)\<rparr>) m
      in
        if transit_buffer_headers (port_at m p) = 0
        then upd_port p (\<lambda>r. r\<lparr>transit_sema := transit_sema r + 1\<rparr>) m
        else m)"

text \<open>The wait for the buffers in transit, which takes the token and puts it back. Without a token the
  other threads run (\<open>while_waiting\<close>), and the call does not return unless they leave one.\<close>

definition IN_TRANSIT_WAIT :: "'m port_ops \<Rightarrow> addr \<Rightarrow> 'm world \<Rightarrow> 'm world option" where
  "IN_TRANSIT_WAIT ops p m =
     (if transit_sema (port_at m p) \<noteq> 0 then Some m
      else
        let m = while_waiting ops p m
        in if transit_sema (port_at m p) = 0 then None else Some m)"

subsection \<open>Statistics\<close>

definition MMAL_COLLECT_PORT_STATS_ENABLED :: bool where "MMAL_COLLECT_PORT_STATS_ENABLED = False"

definition update_stats :: "u32 \<Rightarrow> core_statistics \<Rightarrow> core_statistics" where
  "update_stats stc s =
     (let s = s\<lparr>buffer_count := buffer_count s + 1\<rparr> in
      if first_buffer_time s = 0 then s\<lparr>first_buffer_time := stc, last_buffer_time := stc\<rparr>
      else
        let s = s\<lparr>max_delay := max (max_delay s) (stc - last_buffer_time s)\<rparr>
        in s\<lparr>last_buffer_time := stc\<rparr>)"

definition mmal_port_update_port_stats ::
    "'m port_ops \<Rightarrow> addr \<Rightarrow> core_stats_dir \<Rightarrow> 'm world \<Rightarrow> 'm world" where
  "mmal_port_update_port_stats ops p direction m =
     (let stc = getmicrosecs ops (env (ctx m)) in
      case direction of
        MMAL_CORE_STATS_RX \<Rightarrow> upd_port p (\<lambda>r. r\<lparr>stats_rx := update_stats stc (stats_rx r)\<rparr>) m
      | MMAL_CORE_STATS_TX \<Rightarrow> upd_port p (\<lambda>r. r\<lparr>stats_tx := update_stats stc (stats_tx r)\<rparr>) m)"

definition mmal_port_get_core_stats ::
    "addr \<Rightarrow> core_stats_dir \<Rightarrow> bool \<Rightarrow> 'm world \<Rightarrow> core_statistics \<times> 'm world" where
  "mmal_port_get_core_stats p dir reset m =
     (case dir of
        MMAL_CORE_STATS_RX \<Rightarrow>
          (stats_rx (port_at m p), if reset then upd_port p (\<lambda>r. r\<lparr>stats_rx := zero_stats\<rparr>) m else m)
      | MMAL_CORE_STATS_TX \<Rightarrow>
          (stats_tx (port_at m p), if reset then upd_port p (\<lambda>r. r\<lparr>stats_tx := zero_stats\<rparr>) m else m))"

subsection \<open>Parameters\<close>

fun mmal_port_private_parameter_get :: "addr \<Rightarrow> mmal_param \<Rightarrow> 'm world \<Rightarrow> mmal_status \<times> mmal_param \<times> 'm world" where
  "mmal_port_private_parameter_get p (ParamCoreStatistics dir reset _) m =
     (let (stats, m) = mmal_port_get_core_stats p dir reset m
      in (MMAL_SUCCESS, ParamCoreStatistics dir reset stats, m))"
| "mmal_port_private_parameter_get p param m = (MMAL_ENOSYS, param, m)"

definition mmal_port_private_parameter_set :: "addr \<Rightarrow> mmal_param \<Rightarrow> mmal_status" where
  "mmal_port_private_parameter_set p param = MMAL_ENOSYS"

definition mmal_port_parameter_set ::
    "'m port_ops \<Rightarrow> ptr \<Rightarrow> mmal_param option \<Rightarrow> 'm world \<Rightarrow> (mmal_status \<times> 'm world) option" where
  "mmal_port_parameter_set ops port param m =
     (case (port, param) of
        (Some p, Some x) \<Rightarrow> do {
          (status, m) \<leftarrow> (case pf_parameter_set (port_at m p) of
                            None \<Rightarrow> Some (MMAL_ENOSYS, m) | Some f \<Rightarrow> f_parameter_set ops f p x m);
          if status = MMAL_ENOSYS then Some (mmal_port_private_parameter_set p x, m)
          else Some (status, m)
        }
      | _ \<Rightarrow> Some (MMAL_EINVAL, m))"

definition mmal_port_parameter_get ::
    "'m port_ops \<Rightarrow> ptr \<Rightarrow> mmal_param option \<Rightarrow> 'm world \<Rightarrow> (mmal_status \<times> mmal_param option \<times> 'm world) option" where
  "mmal_port_parameter_get ops port param m =
     (case (port, param) of
        (Some p, Some x) \<Rightarrow> do {
          (status, x, m) \<leftarrow> (case pf_parameter_get (port_at m p) of
                               None \<Rightarrow> Some (MMAL_ENOSYS, x, m) | Some f \<Rightarrow> f_parameter_get ops f p x m);
          if status = MMAL_ENOSYS then
            let (status, x, m) = mmal_port_private_parameter_get p x m in Some (status, Some x, m)
          else Some (status, Some x, m)
        }
      | _ \<Rightarrow> Some (MMAL_EINVAL, param, m))"

subsection \<open>Sending buffers\<close>

definition MMAL_PORT_CAPABILITY_PASSTHROUGH :: u32 where "MMAL_PORT_CAPABILITY_PASSTHROUGH = 0x01"
definition MMAL_PORT_CAPABILITY_ALLOCATION :: u32 where "MMAL_PORT_CAPABILITY_ALLOCATION = 0x02"

text \<open>\<open>buffer->next = NULL; *queue_last = buffer; queue_last = &buffer->next\<close>.\<close>

definition enqueue_paused :: "addr \<Rightarrow> addr \<Rightarrow> 'm world \<Rightarrow> 'm world" where
  "enqueue_paused p b m =
     (let m = upd_buf b (\<lambda>r. r\<lparr>bh_next := None\<rparr>) m;
          m = (case queue_last (port_at m p) of
                 AtFirst \<Rightarrow> upd_port p (\<lambda>r. r\<lparr>queue_first := Some b\<rparr>) m
               | AtNext a \<Rightarrow> upd_buf a (\<lambda>r. r\<lparr>bh_next := Some b\<rparr>) m)
      in upd_port p (\<lambda>r. r\<lparr>queue_last := AtNext b\<rparr>) m)"

definition mmal_port_send_buffer ::
    "'m port_ops \<Rightarrow> ptr \<Rightarrow> addr \<Rightarrow> 'm world \<Rightarrow> (mmal_status \<times> 'm world) option" where
  "mmal_port_send_buffer ops port b m =
     (case port of
        None \<Rightarrow> Some (MMAL_EINVAL, m)
      | Some p \<Rightarrow>
          if bh_data (bufs m b) = None \<and> capabilities (port_at m p) AND MMAL_PORT_CAPABILITY_PASSTHROUGH = 0
          then Some (MMAL_EINVAL, m)
          else
            (case pf_send (port_at m p) of
               None \<Rightarrow> Some (MMAL_ENOSYS, m)
             | Some send \<Rightarrow>
                 if \<not> pt_enabled (port_at m p) then Some (MMAL_EINVAL, m)
                 else do {
                   let m = (if pt_type (port_at m p) = MMAL_PORT_TYPE_OUTPUT \<and> bh_length (bufs m b) \<noteq> 0
                            then upd_buf b (\<lambda>r. r\<lparr>bh_length := 0\<rparr>) m else m);
                   m \<leftarrow> IN_TRANSIT_INCREMENT p m;
                   (status, m) \<leftarrow> (if is_paused (port_at m p)
                                   then Some (MMAL_SUCCESS, enqueue_paused p b m)
                                   else f_send ops send p b m);
                   if status \<noteq> MMAL_SUCCESS
                   then Some (status, IN_TRANSIT_DECREMENT p m)
                   else Some (status, mmal_port_update_port_stats ops p MMAL_CORE_STATS_RX m)
                 }))"

subsection \<open>Releasing buffer headers\<close>

text \<open>The pool callback of a connection pipes a released buffer to the output port; the result is
  whether it goes back to the pool.\<close>

definition mmal_port_connected_pool_cb ::
    "'m port_ops \<Rightarrow> addr \<Rightarrow> ptr \<Rightarrow> 'm world \<Rightarrow> (bool \<times> 'm world) option" where
  "mmal_port_connected_pool_cb ops b userdata m =
     map_option (\<lambda>(status, m). (status \<noteq> MMAL_SUCCESS, m)) (mmal_port_send_buffer ops userdata b m)"

text \<open>The number of that callback, and of \<open>mmal_port_payload_alloc\<close> and \<open>_free\<close> as allocators of
  pools.\<close>

definition connected_pool_fn :: nat where "connected_pool_fn = 0"
definition port_payload_fn :: nat where "port_payload_fn = 1"

definition core_pool_ops :: "'m port_ops \<Rightarrow> 'm core_env env_ops" where
  "core_pool_ops ops = \<lparr>
     vcos_malloc = (\<lambda>n. core_malloc), vcos_calloc = (\<lambda>n. core_malloc), vcos_free = core_free,
     queue_parts = queue_parts_ok ops,
     client_alloc = (\<lambda>f c n e. (None, e)), client_free = (\<lambda>f c a m. None),
     client_cb = (\<lambda>f pool b u m. if f = connected_pool_fn then mmal_port_connected_pool_cb ops b u m
                                  else f_pool_cb ops f pool b u m)\<rparr>"

definition release_buffer :: "'m port_ops \<Rightarrow> addr \<Rightarrow> 'm world \<Rightarrow> 'm world option" where
  "release_buffer ops = mmal_buffer_header_release (pool_callbacks (core_pool_ops ops) (f_pre_release ops))"

end
