(* ===== verification/PortFlow.thy ===== *)
theory PortFlow
  imports Port
begin

text \<open>
  core/mmal_port.c and core/mmal_events.c, continued: events, the callbacks of ports, and the
  operations that give buffers back: flushing, resuming and disabling a port.

  The client's view is a FIFO: \<open>port_rep\<close> relates a port to the buffers its component holds and the
  ones queued in it while it is paused. The locales \<open>port_client\<close> and \<open>component_port\<close>
  state what the port relies on in the client and in the component module behind the function pointers.
\<close>

subsection \<open>Events\<close>

definition MMAL_EVENT_ERROR :: u32 where
  "MMAL_EVENT_ERROR = MMAL_FOURCC CHR ''E'' CHR ''R'' CHR ''R'' CHR ''O''"
definition MMAL_EVENT_EOS :: u32 where
  "MMAL_EVENT_EOS = MMAL_FOURCC CHR ''E'' CHR ''E'' CHR ''O'' CHR ''S''"
definition MMAL_EVENT_FORMAT_CHANGED :: u32 where
  "MMAL_EVENT_FORMAT_CHANGED = MMAL_FOURCC CHR ''E'' CHR ''F'' CHR ''C'' CHR ''H''"

text \<open>The sizes of the three structures of a changed format, which follow each other in the buffer.\<close>

definition SIZEOF_FORMAT_CHANGED :: u32 where "SIZEOF_FORMAT_CHANGED = 20"
definition SIZEOF_ES_FORMAT :: u32 where "SIZEOF_ES_FORMAT = 32"
definition SIZEOF_ES_SPECIFIC :: u32 where "SIZEOF_ES_SPECIFIC = 44"

definition format_changed_size :: u32 where
  "format_changed_size = SIZEOF_FORMAT_CHANGED + SIZEOF_ES_FORMAT + SIZEOF_ES_SPECIFIC"

definition event_format_addr :: "addr \<Rightarrow> addr" where
  "event_format_addr a = a + unat SIZEOF_FORMAT_CHANGED"
definition event_es_addr :: "addr \<Rightarrow> addr" where
  "event_es_addr a = event_format_addr a + unat SIZEOF_ES_FORMAT"
definition event_extradata_addr :: "addr \<Rightarrow> addr" where
  "event_extradata_addr a = event_es_addr a + unat SIZEOF_ES_SPECIFIC"

text \<open>The result is the address of the format of the event.\<close>

definition mmal_event_format_changed_get :: "addr \<Rightarrow> 'm world \<Rightarrow> (ptr \<times> 'm world) option" where
  "mmal_event_format_changed_get b m =
     (if bh_cmd (bufs m b) \<noteq> MMAL_EVENT_FORMAT_CHANGED \<or> bh_length (bufs m b) < format_changed_size
      then Some (None, m)
      else do {
        a \<leftarrow> bh_data (bufs m b);
        Some (Some (event_format_addr a), upd_fmts (upd_format (event_format_addr a) (\<lambda>f. f\<lparr>
          es := event_es_addr a, extradata := XBlock (event_extradata_addr a),
          extradata_size := bh_length (bufs m b) - format_changed_size\<rparr>)) m)
      })"

text \<open>\<open>memset(data, 0, size)\<close> of an event buffer for a changed format. The cleared pointers are written
  before they are read: \<open>mmal_event_format_changed_get\<close> sets them.\<close>

definition clear_format_event :: "addr \<Rightarrow> 'm world \<Rightarrow> 'm world" where
  "clear_format_event a m =
     set_event a (EventFormatChanged 0 0 0 0)
       (upd_fmts (\<lambda>h. (upd_format (event_format_addr a) (\<lambda>_. (zero_format 0)) h)
          \<lparr>es_mem := (es_mem h)(event_es_addr a := replicate ES_WORDS 0)\<rparr>) m)"

definition mmal_port_event_get ::
    "'m port_ops \<Rightarrow> ptr \<Rightarrow> u32 \<Rightarrow> 'm world \<Rightarrow> (mmal_status \<times> ptr \<times> 'm world) option" where
  "mmal_port_event_get ops port event m =
     (case port of
        None \<Rightarrow> Some (MMAL_EINVAL, None, m)
      | Some p \<Rightarrow> do {
          pool \<leftarrow> event_pool (component_at m (pt_component (port_at m p)));
          (buffer, q) \<leftarrow> mmal_queue_get (p_queue (pool_at m pool)) (bufs m);
          let m = upd_pool pool (\<lambda>r. r\<lparr>p_queue := q\<rparr>) m;
          (case buffer of
             None \<Rightarrow> Some (MMAL_ENOSPC, None, m)
           | Some b \<Rightarrow>
               let m = upd_buf b (\<lambda>r. r\<lparr>bh_cmd := event, bh_length := 0\<rparr>) m in
               if event = MMAL_EVENT_FORMAT_CHANGED then
                 if bh_alloc_size (bufs m b) < format_changed_size
                 then map_option (\<lambda>m. (MMAL_ENOSPC, None, m)) (release_buffer ops b m)
                 else do {
                   a \<leftarrow> bh_data (bufs m b);
                   Some (MMAL_SUCCESS, Some b,
                     upd_buf b (\<lambda>r. r\<lparr>bh_length := format_changed_size\<rparr>) (clear_format_event a m))
                 }
               else Some (MMAL_SUCCESS, Some b, m))
        })"

text \<open>\<open>mmal_port_event_send\<close> on a control port, where errors and ends of streams are sent: no other port is
  connected to it, so its callback is the client's.\<close>

definition control_event_send :: "'m port_ops \<Rightarrow> addr \<Rightarrow> addr \<Rightarrow> 'm world \<Rightarrow> 'm world option" where
  "control_event_send ops p b m =
     (case buffer_header_callback (port_at m p) of
        Some (ClientCb f) \<Rightarrow> f_client_cb ops f p b m
      | Some _ \<Rightarrow> None
      | None \<Rightarrow> release_buffer ops b m)"

definition mmal_event_error_send ::
    "'m port_ops \<Rightarrow> addr \<Rightarrow> mmal_status \<Rightarrow> 'm world \<Rightarrow> (mmal_status \<times> 'm world) option" where
  "mmal_event_error_send ops c error_status m = do {
     (status, event, m) \<leftarrow> mmal_port_event_get ops (cp_control (component_at m c)) MMAL_EVENT_ERROR m;
     if status \<noteq> MMAL_SUCCESS then Some (status, m)
     else do {
       b \<leftarrow> event;
       let m = upd_buf b (\<lambda>r. r\<lparr>bh_length := 4\<rparr>) m;
       a \<leftarrow> bh_data (bufs m b);
       let m = set_event a (EventError error_status) m;
       control \<leftarrow> cp_control (component_at m c);
       m \<leftarrow> control_event_send ops control b m;
       Some (MMAL_SUCCESS, m)
     }
   }"

definition mmal_event_eos_send :: "'m port_ops \<Rightarrow> ptr \<Rightarrow> 'm world \<Rightarrow> (mmal_status \<times> 'm world) option" where
  "mmal_event_eos_send ops port m =
     (case port of
        None \<Rightarrow> Some (MMAL_EINVAL, m)
      | Some p \<Rightarrow> do {
          let c = pt_component (port_at m p);
          (status, buffer, m) \<leftarrow> mmal_port_event_get ops (cp_control (component_at m c)) MMAL_EVENT_EOS m;
          if status \<noteq> MMAL_SUCCESS then Some (status, m)
          else do {
            b \<leftarrow> buffer;
            let m = upd_buf b (\<lambda>r. r\<lparr>bh_length := 8\<rparr>) m;
            a \<leftarrow> bh_data (bufs m b);
            let m = set_event a (EventEos (pt_type (port_at m p)) (pt_index (port_at m p))) m;
            control \<leftarrow> cp_control (component_at m c);
            m \<leftarrow> control_event_send ops control b m;
            Some (MMAL_SUCCESS, m)
          }
        })"

subsection \<open>Formats\<close>

text \<open>The buffer requirements raised to their minima.\<close>

definition sensible_buffers :: "mmal_port \<Rightarrow> mmal_port" where
  "sensible_buffers r = r\<lparr>
     buffer_size := (if buffer_size r < buffer_size_min r then buffer_size_min r else buffer_size r),
     buffer_num := (if buffer_num r < buffer_num_min r then buffer_num_min r else buffer_num r)\<rparr>"

definition mmal_port_format_commit :: "'m port_ops \<Rightarrow> ptr \<Rightarrow> 'm world \<Rightarrow> (mmal_status \<times> 'm world) option" where
  "mmal_port_format_commit ops port m =
     (case port of
        None \<Rightarrow> Some (MMAL_EINVAL, m)
      | Some p \<Rightarrow>
          if pt_format (port_at m p) \<noteq> format_ptr_copy (port_at m p)
          then Some (MMAL_EFAULT, upd_port p (\<lambda>r. r\<lparr>pt_format := format_ptr_copy r\<rparr>) m)
          else
            (case pf_set_format (port_at m p) of
               None \<Rightarrow> Some (MMAL_ENOSYS, m)
             | Some f \<Rightarrow> do {
                 (status, m) \<leftarrow> f_set_format ops f p m;
                 let m = upd_port p sensible_buffers m;
                 let m = (if pt_type (port_at m p) = MMAL_PORT_TYPE_INPUT
                          then fold (\<lambda>q. upd_port q sensible_buffers)
                                 (cp_output (component_at m (pt_component (port_at m p)))) m
                          else m);
                 Some (status, m)
               }))"

subsection \<open>Callbacks of connected ports\<close>

definition mmal_port_connected_input_cb :: "'m port_ops \<Rightarrow> addr \<Rightarrow> addr \<Rightarrow> 'm world \<Rightarrow> 'm world option" where
  "mmal_port_connected_input_cb ops p b m =
     (if pt_type (port_at m p) = MMAL_PORT_TYPE_CLOCK \<and> bh_length (bufs m b) \<noteq> 0
      then map_option snd (mmal_port_send_buffer ops (connected_port (port_at m p)) b m)
      else release_buffer ops b m)"

text \<open>\<open>mmal_format_full_copy\<close> with the next result of \<open>vcos_malloc\<close>, if it allocates memory for the
  extra data.\<close>

definition copy_allocates :: "addr \<Rightarrow> addr \<Rightarrow> format_heap \<Rightarrow> bool" where
  "copy_allocates d s h \<longleftrightarrow>
     (let sz = extradata_size (format (formats h s))
      in sz \<le> EXTRADATA_SIZE_MAX \<and> private_extradata_size (formats h d) < sz)"

definition format_full_copy :: "ptr \<Rightarrow> ptr \<Rightarrow> 'm world \<Rightarrow> (mmal_status \<times> 'm world) option" where
  "format_full_copy dst src m = do {
     d \<leftarrow> dst;
     s \<leftarrow> src;
     let e = env (ctx m);
     let (block, e') = (if copy_allocates d s (fmts e) then core_malloc e else (None, e));
     (status, h) \<leftarrow> mmal_format_full_copy block d s (fmts e);
     Some (status, upd_fmts (\<lambda>_. h) (set_env e' m))
   }"

definition mmal_port_connected_output_cb :: "'m port_ops \<Rightarrow> addr \<Rightarrow> addr \<Rightarrow> 'm world \<Rightarrow> 'm world option" where
  "mmal_port_connected_output_cb ops p b m =
     (let connected = connected_port (port_at m p) in
      if bh_cmd (bufs m b) \<noteq> 0 then do {
        (event, m) \<leftarrow> mmal_event_format_changed_get b m;
        if event \<noteq> None then do {
          (status, m) \<leftarrow> format_full_copy (pt_format (port_at m p)) event m;
          (status, m) \<leftarrow> (if status = MMAL_SUCCESS then mmal_port_format_commit ops (Some p) m
                          else Some (status, m));
          (status, m) \<leftarrow> (if status = MMAL_SUCCESS then mmal_port_send_buffer ops connected b m
                          else Some (status, m));
          if status \<noteq> MMAL_SUCCESS then do {
            (_, m) \<leftarrow> mmal_event_error_send ops (pt_component (port_at m p)) status m;
            release_buffer ops b m
          }
          else Some m
        }
        else release_buffer ops b m
      }
      else if pt_enabled (port_at m p) then do {
        (status, m) \<leftarrow> mmal_port_send_buffer ops connected b m;
        if status \<noteq> MMAL_SUCCESS then release_buffer ops b m else Some m
      }
      else release_buffer ops b m)"

fun run_port_cb :: "'m port_ops \<Rightarrow> port_cb \<Rightarrow> addr \<Rightarrow> addr \<Rightarrow> 'm world \<Rightarrow> 'm world option" where
  "run_port_cb ops (ClientCb f) p b m = f_client_cb ops f p b m"
| "run_port_cb ops ConnectedInputCb p b m = mmal_port_connected_input_cb ops p b m"
| "run_port_cb ops ConnectedOutputCb p b m = mmal_port_connected_output_cb ops p b m"

definition mmal_port_event_send :: "'m port_ops \<Rightarrow> addr \<Rightarrow> addr \<Rightarrow> 'm world \<Rightarrow> 'm world option" where
  "mmal_port_event_send ops p b m =
     (case buffer_header_callback (port_at m p) of
        Some cb \<Rightarrow> run_port_cb ops cb p b m
      | None \<Rightarrow> release_buffer ops b m)"

definition mmal_port_buffer_header_callback :: "'m port_ops \<Rightarrow> addr \<Rightarrow> addr \<Rightarrow> 'm world \<Rightarrow> 'm world option" where
  "mmal_port_buffer_header_callback ops p b m = do {
     let m = (if MMAL_COLLECT_PORT_STATS_ENABLED
              then mmal_port_update_port_stats ops p MMAL_CORE_STATS_TX m else m);
     cb \<leftarrow> buffer_header_callback (port_at m p);
     m \<leftarrow> run_port_cb ops cb p b m;
     Some (IN_TRANSIT_DECREMENT p m)
   }"

subsection \<open>Flushing, pausing and disabling\<close>

text \<open>The loops over the queue of a paused port. The next header is read before the current one is
  given away.\<close>

partial_function (option) return_queue :: "'m port_ops \<Rightarrow> addr \<Rightarrow> ptr \<Rightarrow> 'm world \<Rightarrow> 'm world option" where
  "return_queue ops p buffer m =
     (if buffer = None then Some m
      else
        Option.bind (mmal_port_buffer_header_callback ops p (the buffer) m)
          (return_queue ops p (bh_next (bufs m (the buffer)))))"

partial_function (option) send_queue ::
    "'m port_ops \<Rightarrow> nat \<Rightarrow> addr \<Rightarrow> ptr \<Rightarrow> 'm world \<Rightarrow> (mmal_status \<times> ptr \<times> 'm world) option" where
  "send_queue ops send p buffer m =
     (if buffer = None then Some (MMAL_SUCCESS, None, m)
      else
        let nxt = bh_next (bufs m (the buffer)) in
        Option.bind (f_send ops send p (the buffer) m)
          (\<lambda>r. if fst r \<noteq> MMAL_SUCCESS
               then Some (fst r, buffer, upd_buf (the buffer) (\<lambda>x. x\<lparr>bh_next := nxt\<rparr>) (snd r))
               else send_queue ops send p nxt (snd r)))"

definition empty_port_queue :: "addr \<Rightarrow> 'm world \<Rightarrow> 'm world" where
  "empty_port_queue p = upd_port p (\<lambda>r. r\<lparr>queue_first := None, queue_last := AtFirst\<rparr>)"

definition mmal_port_flush :: "'m port_ops \<Rightarrow> ptr \<Rightarrow> 'm world \<Rightarrow> (mmal_status \<times> 'm world) option" where
  "mmal_port_flush ops port m =
     (case port of
        None \<Rightarrow> Some (MMAL_EINVAL, m)
      | Some p \<Rightarrow>
          (case pf_flush (port_at m p) of
             None \<Rightarrow> Some (MMAL_ENOSYS, m)
           | Some f \<Rightarrow>
               if \<not> pt_enabled (port_at m p) then Some (MMAL_SUCCESS, m)
               else do {
                 (status, m) \<leftarrow> f_flush ops f p m;
                 let (buffer, m) = (if status = MMAL_SUCCESS
                                    then (queue_first (port_at m p), empty_port_queue p m) else (None, m));
                 m \<leftarrow> return_queue ops p buffer m;
                 Some (status, m)
               }))"

definition mmal_port_pause :: "'m port_ops \<Rightarrow> addr \<Rightarrow> bool \<Rightarrow> 'm world \<Rightarrow> (mmal_status \<times> 'm world) option" where
  "mmal_port_pause ops p pause m = do {
     (status, m) \<leftarrow>
       (if \<not> pause \<and> pt_enabled (port_at m p) then do {
          (status, buffer, m) \<leftarrow>
            (if queue_first (port_at m p) = None then Some (MMAL_SUCCESS, None, m)
             else do {
               send \<leftarrow> pf_send (port_at m p);
               send_queue ops send p (queue_first (port_at m p)) m
             });
          Some (status, if status \<noteq> MMAL_SUCCESS then upd_port p (\<lambda>r. r\<lparr>queue_first := buffer\<rparr>) m
                        else empty_port_queue p m)
        }
        else Some (MMAL_SUCCESS, m));
     Some (status, if status = MMAL_SUCCESS then upd_port p (\<lambda>r. r\<lparr>is_paused := pause\<rparr>) m else m)
   }"

definition mmal_port_disable_internal :: "'m port_ops \<Rightarrow> addr \<Rightarrow> 'm world \<Rightarrow> (mmal_status \<times> 'm world) option" where
  "mmal_port_disable_internal ops p m =
     (if \<not> pt_enabled (port_at m p) then Some (MMAL_SUCCESS, m)
      else do {
        let m = upd_port p (\<lambda>r. r\<lparr>pt_enabled := False\<rparr>) m;
        let m = (case pool_for_connection (port_at m p) of
                   None \<Rightarrow> m | Some pool \<Rightarrow> mmal_pool_callback_set pool None None m);
        f \<leftarrow> pf_disable (port_at m p);
        (status, m) \<leftarrow> f_disable ops f p m;
        if status \<noteq> MMAL_SUCCESS
        then Some (status, upd_port p (\<lambda>r. r\<lparr>pt_enabled := True\<rparr>) m)
        else do {
          m \<leftarrow> return_queue ops p (queue_first (port_at m p)) m;
          let m = empty_port_queue p m;
          m \<leftarrow> IN_TRANSIT_WAIT ops p m;
          Some (status, upd_port p (\<lambda>r. r\<lparr>buffer_header_callback := None\<rparr>) m)
        }
      })"

definition mmal_port_is_connected :: "addr \<Rightarrow> 'm world \<Rightarrow> bool" where
  "mmal_port_is_connected p m = (connected_port (port_at m p) \<noteq> None)"

subsection \<open>The buffers of a port\<close>

text \<open>The bookkeeping of \<open>n\<close> buffers in transit.\<close>

definition with_count :: "nat \<Rightarrow> mmal_port \<Rightarrow> mmal_port" where
  "with_count n r = r\<lparr>transit_buffer_headers := int n, transit_sema := (if n = 0 then 1 else 0)\<rparr>"

definition counted :: "nat \<Rightarrow> mmal_port \<Rightarrow> bool" where
  "counted n r \<longleftrightarrow> r = with_count n r"

definition paused_queue :: "mmal_port \<Rightarrow> nat \<Rightarrow> mmal_queue" where
  "paused_queue r n = \<lparr>q_length = of_nat n, q_first = queue_first r, q_last = queue_last r, q_sem = 0\<rparr>"

record port_wiring =
  w_send :: nat
  w_flush :: nat
  w_disable :: nat
  w_client :: nat

definition wired :: "port_wiring \<Rightarrow> mmal_port \<Rightarrow> bool" where
  "wired w r \<longleftrightarrow> pf_send r = Some (w_send w) \<and> pf_flush r = Some (w_flush w)
     \<and> pf_disable r = Some (w_disable w) \<and> buffer_header_callback r = Some (ClientCb (w_client w))"

text \<open>The component holds the buffers \<open>h\<close>, and \<open>q\<close> are queued in the port.\<close>

definition port_rep ::
    "('m world \<Rightarrow> addr list \<Rightarrow> bool) \<Rightarrow> port_wiring \<Rightarrow> addr \<Rightarrow> 'm world \<Rightarrow> addr list \<Rightarrow> addr list \<Rightarrow> bool" where
  "port_rep holds w p m h q \<longleftrightarrow> holds m h \<and> qrep (bufs m) (paused_queue (port_at m p) (length q)) q
     \<and> distinct (h @ q) \<and> counted (length h + length q) (port_at m p) \<and> length h + length q < 2 ^ 31
     \<and> wired w (port_at m p) \<and> (\<not> is_paused (port_at m p) \<longrightarrow> q = [])"

lemma with_count_simps [simp]:
  "with_count n (with_count k r) = with_count n r"
  "wired w (with_count n r) = wired w r" "paused_queue (with_count n r) k = paused_queue r k"
  "pt_enabled (with_count n r) = pt_enabled r" "is_paused (with_count n r) = is_paused r"
  "queue_first (with_count n r) = queue_first r" "counted n (with_count n r)"
  "buffer_header_callback (with_count n r) = buffer_header_callback r"
  by (simp_all add: with_count_def wired_def paused_queue_def counted_def)

lemma counted_iff: "counted n r \<longleftrightarrow> transit_buffer_headers r = int n \<and> transit_sema r = (if n = 0 then 1 else 0)"
  by (cases r) (auto simp: counted_def with_count_def)

lemma other_fields [simp]:
  "counted n (r\<lparr>stats_rx := s\<rparr>) = counted n r" "counted n (r\<lparr>queue_first := f, queue_last := l\<rparr>) = counted n r"
  "counted n (r\<lparr>is_paused := b\<rparr>) = counted n r" "counted n (r\<lparr>pt_enabled := b\<rparr>) = counted n r"
  "wired w (r\<lparr>stats_rx := s\<rparr>) = wired w r" "wired w (r\<lparr>queue_first := f, queue_last := l\<rparr>) = wired w r"
  "wired w (r\<lparr>is_paused := b\<rparr>) = wired w r" "wired w (r\<lparr>pt_enabled := b\<rparr>) = wired w r"
  "paused_queue (r\<lparr>stats_rx := s\<rparr>) k = paused_queue r k"
  "paused_queue (r\<lparr>is_paused := b\<rparr>) k = paused_queue r k"
  "paused_queue (r\<lparr>pt_enabled := b\<rparr>) k = paused_queue r k"
  by (simp_all add: counted_iff wired_def paused_queue_def)

lemma countedD:
  assumes "counted n r"
  shows "transit_buffer_headers r = int n" and "transit_sema r = (if n = 0 then 1 else 0)"
  using assms by (simp_all add: counted_iff)

lemma increment_counted:
  assumes "counted n (port_at m p)" and "n + 1 < 2 ^ 31"
  shows "IN_TRANSIT_INCREMENT p m = Some (upd_port p (with_count (n + 1)) m)"
proof -
  have "s32 (int n + 1) = int n + 1" using assms(2) by (intro s32_in) (simp add: in32_def)
  then show ?thesis using countedD [OF assms(1)]
    by (cases m) (auto simp: IN_TRANSIT_INCREMENT_def Let_def upd_port_def upd_env_def port_at_def set_env_def
        with_count_def fun_eq_iff)
qed

lemma decrement_counted:
  assumes "counted (Suc n) (port_at m p)" and "n < 2 ^ 31"
  shows "IN_TRANSIT_DECREMENT p m = upd_port p (with_count n) m"
proof -
  have "s32 (int n) = int n" using assms(2) by (intro s32_in) (simp add: in32_def)
  then show ?thesis using countedD [OF assms(1)]
    by (cases m) (auto simp: IN_TRANSIT_DECREMENT_def Let_def upd_port_def upd_env_def port_at_def set_env_def
        with_count_def fun_eq_iff)
qed

text \<open>What a port relies on in its client: the client takes each buffer and does not touch the others.\<close>

locale port_client =
  fixes ops :: "'m port_ops" and p :: addr and w :: port_wiring
    and holds :: "'m world \<Rightarrow> addr list \<Rightarrow> bool" and delivered :: "'m world \<Rightarrow> addr list"
  assumes client_law: "holds m xs \<Longrightarrow> b \<notin> set xs \<Longrightarrow>
      \<exists>m'. f_client_cb ops (w_client w) p b m = Some m' \<and> holds m' xs
        \<and> port_at m' = port_at m \<and> same_bufs (- {b}) (bufs m) (bufs m')
        \<and> delivered m' = delivered m @ [b]"
    and holds_port [simp]: "holds (upd_port q f m) xs = holds m xs"
    and holds_buf: "holds m xs \<Longrightarrow> b \<notin> set xs \<Longrightarrow> holds (upd_buf b g m) xs"
    and holds_links: "holds m xs \<Longrightarrow> holds (upd_buf b (\<lambda>r. r\<lparr>bh_length := l\<rparr>) m) xs"
    and delivered_port [simp]: "delivered (upd_port q f m) = delivered m"
    and delivered_buf [simp]: "delivered (upd_buf b g m) = delivered m"
    and holds_pool [simp]: "holds (upd_pool q v m) xs = holds m xs"
    and delivered_pool [simp]: "delivered (upd_pool q v m) = delivered m"
begin

text \<open>The client is given a buffer that neither the component nor the port has any more.\<close>

lemma callback_counted:
  assumes "holds m h" and "b \<notin> set h" and "counted (Suc n) (port_at m p)" and "n < 2 ^ 31"
    and "buffer_header_callback (port_at m p) = Some (ClientCb (w_client w))"
  shows "\<exists>m'. mmal_port_buffer_header_callback ops p b m = Some m' \<and> holds m' h
    \<and> port_at m' = (port_at m)(p := with_count n (port_at m p)) \<and> same_bufs (- {b}) (bufs m) (bufs m')
    \<and> delivered m' = delivered m @ [b]"
proof -
  obtain m1 where m1: "f_client_cb ops (w_client w) p b m = Some m1" "holds m1 h" "port_at m1 = port_at m"
    "same_bufs (- {b}) (bufs m) (bufs m1)" "delivered m1 = delivered m @ [b]"
    using client_law [OF assms(1,2)] by blast
  have "IN_TRANSIT_DECREMENT p m1 = upd_port p (with_count n) m1"
    using assms(3,4) m1(3) by (intro decrement_counted) simp_all
  then have "mmal_port_buffer_header_callback ops p b m = Some (upd_port p (with_count n) m1)"
    using m1(1) assms(5)
    by (simp add: mmal_port_buffer_header_callback_def MMAL_COLLECT_PORT_STATS_ENABLED_def)
  then show ?thesis using m1 by (auto simp: same_bufs_def)
qed

lemma return_queue_ok:
  assumes "chain (bh_next \<circ> bufs m) b q None" and "distinct q" and "holds m h" and "set h \<inter> set q = {}"
    and "counted (length q + n) (port_at m p)" and "length q + n < 2 ^ 31"
    and "buffer_header_callback (port_at m p) = Some (ClientCb (w_client w))"
  shows "\<exists>m'. return_queue ops p b m = Some m' \<and> holds m' h
    \<and> port_at m' = (port_at m)(p := with_count n (port_at m p)) \<and> same_bufs (- set q) (bufs m) (bufs m')
    \<and> delivered m' = delivered m @ q"
  using assms
proof (induction q arbitrary: b m)
  case Nil
  then have "port_at m p = with_count n (port_at m p)" by (simp add: counted_def)
  then have "port_at m = (port_at m)(p := with_count n (port_at m p))" by (simp add: fun_upd_idem_iff)
  then show ?case using Nil by (subst return_queue.simps) (simp add: same_bufs_def)
next
  case (Cons x q)
  have b: "b = Some x" using Cons.prems(1) by simp
  obtain m1 where m1: "mmal_port_buffer_header_callback ops p x m = Some m1" "holds m1 h"
    "port_at m1 = (port_at m)(p := with_count (length q + n) (port_at m p))"
    "same_bufs (- {x}) (bufs m) (bufs m1)" "delivered m1 = delivered m @ [x]"
    using callback_counted [of m h x "length q + n"] Cons.prems by auto
  have "chain (bh_next \<circ> bufs m1) (bh_next (bufs m x)) q None \<longleftrightarrow> chain (bh_next \<circ> bufs m) (bh_next (bufs m x)) q None"
  proof (rule chain_cong)
    fix a assume "a \<in> set q"
    then have "a \<in> - {x}" using Cons.prems(2) by auto
    then have "bufs m a = bufs m1 a" using m1(4) by (simp add: same_bufs_def)
    then show "(bh_next \<circ> bufs m1) a = (bh_next \<circ> bufs m) a" by simp
  qed
  then have c: "chain (bh_next \<circ> bufs m1) (bh_next (bufs m x)) q None"
    using Cons.prems(1) by (simp add: comp_def)
  have "\<exists>m2. return_queue ops p (bh_next (bufs m x)) m1 = Some m2 \<and> holds m2 h
    \<and> port_at m2 = (port_at m1)(p := with_count n (port_at m1 p)) \<and> same_bufs (- set q) (bufs m1) (bufs m2)
    \<and> delivered m2 = delivered m1 @ q"
    by (rule Cons.IH [OF c]) (use Cons.prems m1 in auto)
  then obtain m2 where m2: "return_queue ops p (bh_next (bufs m x)) m1 = Some m2" "holds m2 h"
    "port_at m2 = (port_at m1)(p := with_count n (port_at m1 p))" "same_bufs (- set q) (bufs m1) (bufs m2)"
    "delivered m2 = delivered m1 @ q"
    by blast
  have "return_queue ops p b m = Some m2"
    using m1(1) m2(1) by (subst return_queue.simps) (simp add: b)
  moreover have "same_bufs (- set (x # q)) (bufs m) (bufs m2)"
    using m1(4) m2(4) by (auto simp: same_bufs_def)
  ultimately show ?case using m1 m2 by auto
qed

end

text \<open>And in its component: the buffers that the component is sent are kept in order, and all are given back
  when the port is flushed or disabled.\<close>

locale component_port = port_client ops p w holds delivered
  for ops :: "'m port_ops" and p :: addr and w :: port_wiring
    and holds :: "'m world \<Rightarrow> addr list \<Rightarrow> bool" and delivered :: "'m world \<Rightarrow> addr list" +
  assumes send_law: "holds m xs \<Longrightarrow> b \<notin> set xs \<Longrightarrow>
      \<exists>m'. f_send ops (w_send w) p b m = Some (MMAL_SUCCESS, m') \<and> holds m' (xs @ [b])
        \<and> port_at m' = port_at m \<and> same_bufs (- set (xs @ [b])) (bufs m) (bufs m')
        \<and> delivered m' = delivered m"
    and flush_law: "holds m xs \<Longrightarrow> counted (length xs + n) (port_at m p) \<Longrightarrow> length xs + n < 2 ^ 31 \<Longrightarrow>
      wired w (port_at m p) \<Longrightarrow>
      \<exists>m'. f_flush ops (w_flush w) p m = Some (MMAL_SUCCESS, m') \<and> holds m' []
        \<and> port_at m' = (port_at m)(p := with_count n (port_at m p))
        \<and> same_bufs (- set xs) (bufs m) (bufs m') \<and> delivered m' = delivered m @ xs"
    and disable_law: "holds m xs \<Longrightarrow> counted (length xs + n) (port_at m p) \<Longrightarrow> length xs + n < 2 ^ 31 \<Longrightarrow>
      wired w (port_at m p) \<Longrightarrow>
      \<exists>m'. f_disable ops (w_disable w) p m = Some (MMAL_SUCCESS, m') \<and> holds m' []
        \<and> port_at m' = (port_at m)(p := with_count n (port_at m p))
        \<and> same_bufs (- set xs) (bufs m) (bufs m') \<and> delivered m' = delivered m @ xs"
begin

lemma port_repD:
  assumes "port_rep holds w p m h q"
  shows "holds m h" "qrep (bufs m) (paused_queue (port_at m p) (length q)) q" "distinct (h @ q)"
    "counted (length h + length q) (port_at m p)" "length h + length q < 2 ^ 31"
    "wired w (port_at m p)" "\<not> is_paused (port_at m p) \<Longrightarrow> q = []"
  using assms by (simp_all add: port_rep_def)

abbreviation rep :: "'m world \<Rightarrow> addr list \<Rightarrow> addr list \<Rightarrow> bool" where
  "rep \<equiv> port_rep holds w p"

lemma send_to_component:
  assumes "rep m h []" and "b \<notin> set h" and "length h + 1 < 2 ^ 31" and "\<not> is_paused (port_at m p)"
    and "pt_enabled (port_at m p)" and "bh_data (bufs m b) \<noteq> None"
  shows "\<exists>m'. mmal_port_send_buffer ops (Some p) b m = Some (MMAL_SUCCESS, m') \<and> rep m' (h @ [b]) []
    \<and> delivered m' = delivered m \<and> \<not> is_paused (port_at m' p) \<and> pt_enabled (port_at m' p)"
proof -
  define m1 where "m1 = (if pt_type (port_at m p) = MMAL_PORT_TYPE_OUTPUT \<and> bh_length (bufs m b) \<noteq> 0
      then upd_buf b (\<lambda>r. r\<lparr>bh_length := 0\<rparr>) m else m)"
  have m1: "port_at m1 = port_at m" "delivered m1 = delivered m" "holds m1 h"
    using holds_links port_repD(1) [OF assms(1)] by (auto simp: m1_def)
  define m2 where "m2 = upd_port p (with_count (length h + 1)) m1"
  have inc: "IN_TRANSIT_INCREMENT p m1 = Some m2"
    using increment_counted [of "length h" m1 p] port_repD(4) [OF assms(1)] assms(3)
    by (simp add: m1 m2_def)
  have "holds m2 h" using m1 by (simp add: m2_def)
  from send_law [OF this assms(2)] obtain m3 where m3:
    "f_send ops (w_send w) p b m2 = Some (MMAL_SUCCESS, m3)" "holds m3 (h @ [b])" "port_at m3 = port_at m2"
    "delivered m3 = delivered m2"
    by blast
  define m4 where "m4 = mmal_port_update_port_stats ops p MMAL_CORE_STATS_RX m3"
  have w: "wired w (port_at m p)" using port_repD(6) [OF assms(1)] .
  have "mmal_port_send_buffer ops (Some p) b m = Some (MMAL_SUCCESS, m4)"
    using assms(4-6) w inc m3(1)
    by (simp add: mmal_port_send_buffer_def m1_def [symmetric] m1 m2_def wired_def m4_def)
  moreover have "rep m4 (h @ [b]) []"
    using assms(1-3) m3(2,3)
    by (auto simp: port_rep_def m4_def mmal_port_update_port_stats_def m2_def m1 qrep_def paused_queue_def
        counted_def with_count_def wired_def)
  moreover have "delivered m4 = delivered m"
    using m3(4) by (simp add: m4_def m2_def m1 mmal_port_update_port_stats_def)
  moreover have "\<not> is_paused (port_at m4 p)" "pt_enabled (port_at m4 p)"
    using assms(4,5) m3(3) by (simp_all add: m4_def m2_def m1 mmal_port_update_port_stats_def with_count_def)
  ultimately show ?thesis by blast
qed

lemma enqueue_qrep:
  assumes "qrep (bufs m) (paused_queue (port_at m p) (length q)) q" and "b \<notin> set q"
  shows "qrep (bufs (enqueue_paused p b m))
      (paused_queue (port_at (enqueue_paused p b m) p) (length (q @ [b]))) (q @ [b])"
    and "same_bufs (- set (q @ [b])) (bufs m) (bufs (enqueue_paused p b m))"
    and "\<exists>v l. port_at (enqueue_paused p b m) = (port_at m)(p := (port_at m p)\<lparr>queue_first := v, queue_last := l\<rparr>)"
proof -
  have *: "qrep (bufs (enqueue_paused p b m))
      (paused_queue (port_at (enqueue_paused p b m) p) (length (q @ [b]))) (q @ [b])
    \<and> same_bufs (- set (q @ [b])) (bufs m) (bufs (enqueue_paused p b m))
    \<and> (\<exists>v l. port_at (enqueue_paused p b m) = (port_at m)(p := (port_at m p)\<lparr>queue_first := v, queue_last := l\<rparr>))"
  proof (cases q rule: rev_cases)
    case Nil
    with assms show ?thesis
      by (auto simp: enqueue_paused_def paused_queue_def qrep_def same_bufs_def heap_simps fun_upd_comp)
  next
    case (snoc ys y)
    have "(port_at m p)\<lparr>queue_last := l\<rparr> = (port_at m p)\<lparr>queue_first := queue_first (port_at m p), queue_last := l\<rparr>" for l
      by (cases "port_at m p") simp
    then have "\<exists>v l. (port_at m)(p := (port_at m p)\<lparr>queue_last := AtNext b\<rparr>)
        = (port_at m)(p := (port_at m p)\<lparr>queue_first := v, queue_last := l\<rparr>)"
      by metis
    with assms snoc show ?thesis
      by (auto simp: enqueue_paused_def paused_queue_def qrep_def same_bufs_def chain_append heap_simps
          fun_upd_comp)
  qed
  show "qrep (bufs (enqueue_paused p b m))
      (paused_queue (port_at (enqueue_paused p b m) p) (length (q @ [b]))) (q @ [b])"
    and "same_bufs (- set (q @ [b])) (bufs m) (bufs (enqueue_paused p b m))"
    and "\<exists>v l. port_at (enqueue_paused p b m) = (port_at m)(p := (port_at m p)\<lparr>queue_first := v, queue_last := l\<rparr>)"
    using * by blast+
qed

lemma holds_enqueue:
  assumes "holds m h" and "set h \<inter> set q = {}" and "b \<notin> set h"
    and "qrep (bufs m) (paused_queue (port_at m p) (length q)) q"
  shows "holds (enqueue_paused p b m) h" and "delivered (enqueue_paused p b m) = delivered m"
proof -
  have "a \<notin> set h" if l: "queue_last (port_at m p) = AtNext a" for a
    using assms(2,4) l by (auto simp: qrep_def paused_queue_def split: if_splits)
  then show "holds (enqueue_paused p b m) h" "delivered (enqueue_paused p b m) = delivered m"
    using assms by (auto simp: enqueue_paused_def Let_def holds_buf split: qlink.split)
qed

lemma send_to_queue:
  assumes "rep m h q" and "b \<notin> set (h @ q)" and "length h + length q + 1 < 2 ^ 31" and "is_paused (port_at m p)"
    and "pt_enabled (port_at m p)" and "bh_data (bufs m b) \<noteq> None"
  shows "\<exists>m'. mmal_port_send_buffer ops (Some p) b m = Some (MMAL_SUCCESS, m') \<and> rep m' h (q @ [b])
    \<and> delivered m' = delivered m \<and> is_paused (port_at m' p) \<and> pt_enabled (port_at m' p)"
proof -
  note rep = port_repD [OF assms(1)]
  define m1 where "m1 = (if pt_type (port_at m p) = MMAL_PORT_TYPE_OUTPUT \<and> bh_length (bufs m b) \<noteq> 0
      then upd_buf b (\<lambda>r. r\<lparr>bh_length := 0\<rparr>) m else m)"
  have m1: "port_at m1 = port_at m" "delivered m1 = delivered m" "holds m1 h"
    using holds_links rep(1) by (auto simp: m1_def)
  have q1: "qrep (bufs m1) (paused_queue (port_at m1 p) (length q)) q"
    using rep(2) by (auto simp: m1_def elim!: qrep_links)
  define m2 where "m2 = upd_port p (with_count (length h + length q + 1)) m1"
  have inc: "IN_TRANSIT_INCREMENT p m1 = Some m2"
    using increment_counted [of "length h + length q" m1 p] rep(4) assms(3)
    by (simp add: m1 m2_def)
  have m2: "qrep (bufs m2) (paused_queue (port_at m2 p) (length q)) q" "holds m2 h" "delivered m2 = delivered m"
    using q1 m1 by (simp_all add: m2_def)
  have d: "set h \<inter> set q = {}" "b \<notin> set h" "b \<notin> set q" using rep(3) assms(2) by auto
  define m3 where "m3 = enqueue_paused p b m2"
  note e = enqueue_qrep [OF m2(1) d(3), folded m3_def]
  have h3: "holds m3 h" "delivered m3 = delivered m"
    using holds_enqueue [OF m2(2) d(1,2) m2(1)] m2(3) by (simp_all add: m3_def)
  define m4 where "m4 = mmal_port_update_port_stats ops p MMAL_CORE_STATS_RX m3"
  have "mmal_port_send_buffer ops (Some p) b m = Some (MMAL_SUCCESS, m4)"
    using assms(4-6) rep(6) inc
    by (simp add: mmal_port_send_buffer_def m1_def [symmetric] m1 m2_def m3_def wired_def m4_def)
  moreover obtain v l where vl: "port_at m3 p = (port_at m2 p)\<lparr>queue_first := v, queue_last := l\<rparr>"
    using e(3) by auto
  have p4: "port_at m4 p = (port_at m3 p)\<lparr>stats_rx := stats_rx (port_at m4 p)\<rparr>" "bufs m4 = bufs m3"
    by (simp_all add: m4_def mmal_port_update_port_stats_def)
  have "rep m4 h (q @ [b])"
    unfolding port_rep_def
  proof (intro conjI)
    show "holds m4 h" using h3(1) by (simp add: m4_def mmal_port_update_port_stats_def)
    show "qrep (bufs m4) (paused_queue (port_at m4 p) (length (q @ [b]))) (q @ [b])"
      using e(1) by (subst p4(1)) (simp add: p4(2))
    show "distinct (h @ q @ [b])" using rep(3) d by auto
    show "counted (length h + length (q @ [b])) (port_at m4 p)" by (subst p4(1)) (simp add: vl m2_def)
    show "wired w (port_at m4 p)" using rep(6) by (subst p4(1)) (simp add: vl m2_def m1)
    show "\<not> is_paused (port_at m4 p) \<longrightarrow> q @ [b] = []"
      using assms(4) by (subst p4(1)) (simp add: vl m2_def m1)
    show "length h + length (q @ [b]) < 2 ^ 31" using assms(3) by simp
  qed
  moreover have "delivered m4 = delivered m"
    using h3 by (simp add: m4_def mmal_port_update_port_stats_def)
  moreover have "is_paused (port_at m4 p)" "pt_enabled (port_at m4 p)"
    using assms(4,5) by (subst p4(1), simp add: vl m2_def m1)+
  ultimately show ?thesis by blast
qed

lemma send_queue_ok:
  assumes "chain (bh_next \<circ> bufs m) b q None" and "distinct q" and "holds m h" and "set h \<inter> set q = {}"
  shows "\<exists>m'. send_queue ops (w_send w) p b m = Some (MMAL_SUCCESS, None, m') \<and> holds m' (h @ q)
    \<and> port_at m' = port_at m \<and> delivered m' = delivered m"
  using assms
proof (induction q arbitrary: b m h)
  case Nil
  then show ?case by (subst send_queue.simps) simp
next
  case (Cons x q)
  have b: "b = Some x" using Cons.prems(1) by simp
  obtain m1 where m1: "f_send ops (w_send w) p x m = Some (MMAL_SUCCESS, m1)" "holds m1 (h @ [x])"
    "port_at m1 = port_at m" "same_bufs (- set (h @ [x])) (bufs m) (bufs m1)" "delivered m1 = delivered m"
    using send_law [of m h x] Cons.prems by auto
  have "chain (bh_next \<circ> bufs m1) (bh_next (bufs m x)) q None \<longleftrightarrow> chain (bh_next \<circ> bufs m) (bh_next (bufs m x)) q None"
  proof (rule chain_cong)
    fix a assume "a \<in> set q"
    then have "a \<in> - set (h @ [x])" using Cons.prems(2,4) by auto
    then have "bufs m a = bufs m1 a" using m1(4) by (simp only: same_bufs_def)
    then show "(bh_next \<circ> bufs m1) a = (bh_next \<circ> bufs m) a" by simp
  qed
  then have c: "chain (bh_next \<circ> bufs m1) (bh_next (bufs m x)) q None"
    using Cons.prems(1) by (simp add: comp_def)
  obtain m2 where m2: "send_queue ops (w_send w) p (bh_next (bufs m x)) m1 = Some (MMAL_SUCCESS, None, m2)"
    "holds m2 ((h @ [x]) @ q)" "port_at m2 = port_at m1" "delivered m2 = delivered m1"
    using Cons.IH [OF c _ m1(2)] Cons.prems by auto
  have "send_queue ops (w_send w) p b m = Some (MMAL_SUCCESS, None, m2)"
    using m1(1) m2(1) by (subst send_queue.simps) (simp add: b Let_def)
  then show ?case using m1 m2 by auto
qed

lemma pause_ok:
  assumes "rep m h q"
  shows "\<exists>m'. mmal_port_pause ops p True m = Some (MMAL_SUCCESS, m') \<and> rep m' h q \<and> is_paused (port_at m' p)
    \<and> delivered m' = delivered m \<and> pt_enabled (port_at m' p) = pt_enabled (port_at m p)"
  using assms by (auto simp: mmal_port_pause_def port_rep_def)

lemma empty_queue_rep [simp]: "qrep h (paused_queue (r\<lparr>queue_first := None, queue_last := AtFirst\<rparr>) 0) []"
  by (simp add: qrep_def paused_queue_def)

lemma resume_ok:
  assumes "rep m h q" and "pt_enabled (port_at m p)"
  shows "\<exists>m'. mmal_port_pause ops p False m = Some (MMAL_SUCCESS, m') \<and> rep m' (h @ q) []
    \<and> \<not> is_paused (port_at m' p) \<and> delivered m' = delivered m \<and> pt_enabled (port_at m' p)"
proof -
  note rep = port_repD [OF assms(1)]
  have c: "chain (bh_next \<circ> bufs m) (queue_first (port_at m p)) q None"
    using rep(2) by (simp add: qrep_def paused_queue_def)
  obtain m1 where m1: "send_queue ops (w_send w) p (queue_first (port_at m p)) m = Some (MMAL_SUCCESS, None, m1)"
    "holds m1 (h @ q)" "port_at m1 = port_at m" "delivered m1 = delivered m"
    using send_queue_ok [OF c _ rep(1)] rep(3) by auto
  define m2 where "m2 = upd_port p (\<lambda>r. r\<lparr>is_paused := False\<rparr>) (empty_port_queue p m1)"
  have "mmal_port_pause ops p False m = Some (MMAL_SUCCESS, m2)"
  proof (cases "queue_first (port_at m p)")
    case None
    then have "m1 = m" using m1(1) by (subst (asm) send_queue.simps) simp
    then show ?thesis using assms(2) None by (simp add: mmal_port_pause_def m2_def)
  next
    case (Some x)
    then show ?thesis using assms(2) m1(1) rep(6) by (simp add: mmal_port_pause_def m2_def wired_def)
  qed
  moreover have "rep m2 (h @ q) []"
    using rep m1(2,3) by (simp add: port_rep_def m2_def empty_port_queue_def)
  moreover have "pt_enabled (port_at m2 p)" "\<not> is_paused (port_at m2 p)" "delivered m2 = delivered m"
    using assms(2) m1(3,4) by (simp_all add: m2_def empty_port_queue_def)
  ultimately show ?thesis by blast
qed

text \<open>Giving back what the component held and then the queue of the port, in a state where the component
  has already given back its buffers.\<close>

lemma return_rest:
  assumes "rep m h q" and "holds m1 []" and "port_at m1 = (port_at m)(p := r)"
    and "counted (length q) r" and "queue_first r = queue_first (port_at m p)"
    and "buffer_header_callback r = Some (ClientCb (w_client w))" and "same_bufs (- set h) (bufs m) (bufs m1)"
    and "bufs m2 = bufs m1" and "port_at m2 p = r \<or> port_at m2 p = r\<lparr>queue_first := None, queue_last := AtFirst\<rparr>"
    and "holds m2 []"
  shows "\<exists>m'. return_queue ops p (queue_first r) m2 = Some m' \<and> holds m' []
    \<and> port_at m' p = with_count 0 (port_at m2 p) \<and> delivered m' = delivered m2 @ q"
proof -
  note rep = port_repD [OF assms(1)]
  have "chain (bh_next \<circ> bufs m2) (queue_first r) q None \<longleftrightarrow> chain (bh_next \<circ> bufs m) (queue_first r) q None"
  proof (rule chain_cong)
    fix a assume "a \<in> set q"
    then have "a \<in> - set h" using rep(3) by auto
    then have "bufs m a = bufs m1 a" using assms(7) by (simp only: same_bufs_def)
    then show "(bh_next \<circ> bufs m2) a = (bh_next \<circ> bufs m) a" using assms(8) by simp
  qed
  then have c: "chain (bh_next \<circ> bufs m2) (queue_first r) q None"
    using rep(2) assms(5) by (simp add: qrep_def paused_queue_def)
  have "counted (length q + 0) (port_at m2 p)" "buffer_header_callback (port_at m2 p) = Some (ClientCb (w_client w))"
    using assms(4,6,9) by auto
  from return_queue_ok [OF c _ assms(10) _ this(1) _ this(2)] rep(3,5) show ?thesis
    by fastforce
qed

lemma flush_ok:
  assumes "rep m h q" and "pt_enabled (port_at m p)"
  shows "\<exists>m'. mmal_port_flush ops (Some p) m = Some (MMAL_SUCCESS, m') \<and> rep m' [] []
    \<and> is_paused (port_at m' p) = is_paused (port_at m p) \<and> delivered m' = delivered m @ h @ q
    \<and> pt_enabled (port_at m' p)"
proof -
  note rep = port_repD [OF assms(1)]
  define r where "r = with_count (length q) (port_at m p)"
  obtain m1 where m1: "f_flush ops (w_flush w) p m = Some (MMAL_SUCCESS, m1)" "holds m1 []"
    "port_at m1 = (port_at m)(p := r)" "same_bufs (- set h) (bufs m) (bufs m1)" "delivered m1 = delivered m @ h"
    using flush_law [OF rep(1,4,5,6)] by (auto simp: r_def)
  define m2 where "m2 = empty_port_queue p m1"
  have m2: "bufs m2 = bufs m1" "port_at m2 p = r\<lparr>queue_first := None, queue_last := AtFirst\<rparr>" "holds m2 []"
    "delivered m2 = delivered m1"
    using m1 by (simp_all add: m2_def empty_port_queue_def)
  have r: "counted (length q) r" "queue_first r = queue_first (port_at m p)"
    "buffer_header_callback r = Some (ClientCb (w_client w))"
    using rep(6) by (simp_all add: r_def wired_def)
  obtain m3 where m3: "return_queue ops p (queue_first r) m2 = Some m3" "holds m3 []"
    "port_at m3 p = with_count 0 (port_at m2 p)" "delivered m3 = delivered m2 @ q"
    using return_rest [OF assms(1) m1(2,3) r m1(4) m2(1) _ m2(3)] m2(2) by blast
  have "mmal_port_flush ops (Some p) m = Some (MMAL_SUCCESS, m3)"
    using assms(2) rep(6) m1(1,3) m3(1) by (simp add: mmal_port_flush_def wired_def m2_def)
  moreover have "rep m3 [] []"
    using m3(2,3) m2(2) rep(6) by (simp add: port_rep_def r_def)
  ultimately show ?thesis using m3(3,4) m2(2,4) m1(5) assms(2) by (simp add: r_def)
qed

lemma disable_ok:
  assumes "rep m h q" and "pt_enabled (port_at m p)"
  shows "\<exists>m'. mmal_port_disable_internal ops p m = Some (MMAL_SUCCESS, m') \<and> holds m' []
    \<and> \<not> pt_enabled (port_at m' p) \<and> buffer_header_callback (port_at m' p) = None
    \<and> counted 0 (port_at m' p) \<and> queue_first (port_at m' p) = None \<and> delivered m' = delivered m @ h @ q"
proof -
  note rep = port_repD [OF assms(1)]
  define m0 where "m0 = (case pool_for_connection (port_at m p) of
      None \<Rightarrow> upd_port p (\<lambda>r. r\<lparr>pt_enabled := False\<rparr>) m
    | Some pool \<Rightarrow> mmal_pool_callback_set pool None None (upd_port p (\<lambda>r. r\<lparr>pt_enabled := False\<rparr>) m))"
  have m0: "holds m0 h" "bufs m0 = bufs m" "delivered m0 = delivered m"
    "port_at m0 = (port_at m)(p := (port_at m p)\<lparr>pt_enabled := False\<rparr>)"
    using rep(1) by (auto simp: m0_def mmal_pool_callback_set_def split: option.split)
  have rep0: "rep m0 h q" using assms(1) m0 by (simp add: port_rep_def)
  note r0 = port_repD [OF rep0]
  define r where "r = with_count (length q) (port_at m0 p)"
  obtain m1 where m1: "f_disable ops (w_disable w) p m0 = Some (MMAL_SUCCESS, m1)" "holds m1 []"
    "port_at m1 = (port_at m0)(p := r)" "same_bufs (- set h) (bufs m0) (bufs m1)" "delivered m1 = delivered m0 @ h"
    using disable_law [OF r0(1,4,5,6)] by (auto simp: r_def)
  have r: "counted (length q) r" "queue_first r = queue_first (port_at m0 p)"
    "buffer_header_callback r = Some (ClientCb (w_client w))"
    using r0(6) by (simp_all add: r_def wired_def)
  have "port_at m1 p = r" using m1(3) by simp
  then obtain m2 where m2: "return_queue ops p (queue_first r) m1 = Some m2" "holds m2 []"
    "port_at m2 p = with_count 0 r" "delivered m2 = delivered m1 @ q"
    using return_rest [OF rep0 m1(2,3) r m1(4) refl _ m1(2)] by metis
  define m3 where "m3 = upd_port p (\<lambda>r. r\<lparr>buffer_header_callback := None\<rparr>) (empty_port_queue p m2)"
  have "IN_TRANSIT_WAIT ops p (empty_port_queue p m2) = Some (empty_port_queue p m2)"
    using m2(3) by (simp add: IN_TRANSIT_WAIT_def empty_port_queue_def with_count_def)
  then have "mmal_port_disable_internal ops p m = Some (MMAL_SUCCESS, m3)"
    using assms(2) rep(6) m1(1) m2(1) \<open>port_at m1 p = r\<close>
    by (cases "pool_for_connection (port_at m p)")
      (simp_all add: mmal_port_disable_internal_def wired_def m0_def m3_def mmal_pool_callback_set_def)
  then show ?thesis
    using m2 m1(5) m0(3) by (simp add: m3_def empty_port_queue_def counted_iff with_count_def r_def m0)
qed

end

subsection \<open>Buffers that do not come back\<close>

text \<open>A disable that fails leaves the port enabled, but the pool of its connection has lost its
  callback: buffers released by the other port pile up in the pool instead of being sent to this one.\<close>

theorem failed_disable_stops_connection:
  assumes "pt_enabled (port_at m p)" and "pool_for_connection (port_at m p) = Some pool"
    and "pf_disable (port_at m p) = Some f" and "status \<noteq> MMAL_SUCCESS"
    and "\<And>m. f_disable ops f p m = Some (status, m)"
  shows "\<exists>m'. mmal_port_disable_internal ops p m = Some (status, m') \<and> pt_enabled (port_at m' p)
    \<and> connected_port (port_at m' p) = connected_port (port_at m p) \<and> p_cb (pool_at m' pool) = None
    \<and> (\<forall>b q. owner (bufs m' b) = Some pool \<longrightarrow> p_queue (pool_at m' pool) = Some q \<longrightarrow>
         (\<exists>m''. mmal_pool_buffer_header_release (core_pool_ops ops) b m' = Some m''
           \<and> transit_buffer_headers (port_at m'' p) = transit_buffer_headers (port_at m p)
           \<and> p_queue (pool_at m'' pool)
               = Some (fst (queue_put q ((bufs m')(b := (bufs m' b)\<lparr>refcount := 1\<rparr>)) b))))"
proof -
  define m' where "m' = upd_port p (\<lambda>r. r\<lparr>pt_enabled := True\<rparr>)
      (mmal_pool_callback_set pool None None (upd_port p (\<lambda>r. r\<lparr>pt_enabled := False\<rparr>) m))"
  have "mmal_port_disable_internal ops p m = Some (status, m')"
    using assms by (simp add: mmal_port_disable_internal_def m'_def mmal_pool_callback_set_def)
  moreover have cb: "p_cb (pool_at m' pool) = None"
    by (simp add: m'_def mmal_pool_callback_set_def)
  moreover have "\<exists>m''. mmal_pool_buffer_header_release (core_pool_ops ops) b m' = Some m''
      \<and> transit_buffer_headers (port_at m'' p) = transit_buffer_headers (port_at m p)
      \<and> p_queue (pool_at m'' pool) = Some (fst (queue_put q ((bufs m')(b := (bufs m' b)\<lparr>refcount := 1\<rparr>)) b))"
    if b: "owner (bufs m' b) = Some pool" "p_queue (pool_at m' pool) = Some q" for b q
  proof -
    have t: "transit_buffer_headers (port_at m' p) = transit_buffer_headers (port_at m p)"
      by (simp add: m'_def mmal_pool_callback_set_def)
    show ?thesis using b cb t
      by (simp add: mmal_pool_buffer_header_release_def split: prod.split)
  qed
  ultimately show ?thesis by (auto simp: m'_def mmal_pool_callback_set_def)
qed

text \<open>A clock port with a connection forwards a buffer with a payload to the connected port and
  ignores whether that worked: when the connected port is not enabled the buffer is neither sent nor
  released, and no one has it any more.\<close>

theorem clock_port_loses_buffer:
  assumes "buffer_header_callback (port_at m p) = Some ConnectedInputCb"
    and "pt_type (port_at m p) = MMAL_PORT_TYPE_CLOCK" and "bh_length (bufs m b) \<noteq> 0"
    and "connected_port (port_at m p) = Some c" and "\<not> pt_enabled (port_at m c)"
  shows "mmal_port_buffer_header_callback ops p b m = Some (IN_TRANSIT_DECREMENT p m)"
  using assms
  by (auto simp: mmal_port_buffer_header_callback_def MMAL_COLLECT_PORT_STATS_ENABLED_def
      mmal_port_connected_input_cb_def mmal_port_send_buffer_def split: option.split)

subsection \<open>An example\<close>

definition idle_component :: mmal_component where
  "idle_component = \<lparr>cp_name = ''idle'', cp_enabled = False, cp_control = None, cp_input = [],
     input_array = None, cp_output = [], output_array = None, cp_clock = [], clock_array = None,
     cp_port = [], port_array = None, cp_id = 0, cf_enable = None, cf_disable = None,
     cf_destroy = None, event_pool = None, cp_refcount = 1, cp_refcount_ports = 0, pf_action = None,
     action_event = False, destruction_pending = False\<rparr>"

text \<open>Functions that report success and do nothing but \<open>cb\<close>, which is what the client does.\<close>

definition plain_ops :: "(addr \<Rightarrow> addr \<Rightarrow> 'm world \<Rightarrow> 'm world) \<Rightarrow> 'm port_ops" where
  "plain_ops cb = \<lparr>f_set_format = (\<lambda>f p m. Some (MMAL_SUCCESS, m)),
     f_enable = (\<lambda>f p c m. Some (MMAL_SUCCESS, m)),
     f_disable = (\<lambda>f p m. Some (if f = 0 then MMAL_SUCCESS else MMAL_EIO, m)),
     f_send = (\<lambda>f p b m. Some (MMAL_SUCCESS, m)), f_flush = (\<lambda>f p m. Some (MMAL_SUCCESS, m)),
     f_connect = (\<lambda>f p q m. Some (MMAL_SUCCESS, m)),
     f_parameter_set = (\<lambda>f p x m. Some (MMAL_ENOSYS, m)),
     f_parameter_get = (\<lambda>f p x m. Some (MMAL_ENOSYS, x, m)),
     f_payload_alloc = (\<lambda>f p n e. core_malloc e), f_payload_free = (\<lambda>f p a m. Some (upd_env (core_free a) m)),
     f_client_cb = (\<lambda>f p b m. Some (cb p b m)), f_pool_cb = (\<lambda>f p b u m. Some (True, m)),
     f_pre_release = (\<lambda>f b u m. Some (False, m)), f_component_enable = (\<lambda>f c m. Some (MMAL_SUCCESS, m)),
     f_component_disable = (\<lambda>f c m. Some (MMAL_SUCCESS, m)),
     f_component_destroy = (\<lambda>f c m. Some (MMAL_SUCCESS, m)),
     f_action = (\<lambda>f c m. Some m), f_create = (\<lambda>f s c m. Some (MMAL_SUCCESS, m)), while_waiting = (\<lambda>p m. m),
     getmicrosecs = (\<lambda>e. 1), queue_parts_ok = (\<lambda>e. (True, True, True)), ops_abi = demo_abi,
     pool_private_size = 60\<rparr>"

definition idle_env :: "'m \<Rightarrow> 'm core_env" where
  "idle_env x = \<lparr>ports = (\<lambda>_. zero_port), components = (\<lambda>_. idle_component),
     fmts = \<lparr>formats = (\<lambda>a. \<lparr>format = zero_format a, fmt_magic = True, private_extradata_size = 32,
          private_extradata = None\<rparr>), es_mem = (\<lambda>_. replicate ES_WORDS 0), buffers = (\<lambda>_. replicate 32 0),
        blocks = (\<lambda>_. []), freed = []\<rparr>,
     event_mem = (\<lambda>_. EventBytes), heap = (\<lambda>i. Some (1000 * (i + 1))), heap_next = 0,
     syncs = (\<lambda>_. True), syncs_next = 0, heap_frees = [], core_instance_count = 0, core_refcount = 1,
     suppliers = [], modules = x\<rparr>"

definition idle_world :: "'m \<Rightarrow> 'm world" where
  "idle_world x = \<lparr>bufs = (\<lambda>_. zero_header\<lparr>bh_data := Some 7, refcount := 1, bh_length := 5, owner := Some 9,
      pf_release := Some pool_release_fn\<rparr>),
    ctx = \<lparr>pools = (\<lambda>_. zero_pool\<lparr>p_queue := Some empty_queue\<rparr>), env = idle_env x\<rparr>\<rparr>"

definition demo_stuck :: "unit world" where
  "demo_stuck = upd_port 3 (\<lambda>r. r\<lparr>pt_enabled := True, pool_for_connection := Some 9, pf_disable := Some 1,
     connected_port := Some 4\<rparr>) (idle_world ())"

theorem failed_disable_stops_connection_witness:
  "\<exists>m'. mmal_port_disable_internal (plain_ops (\<lambda>p b m. m)) 3 demo_stuck = Some (MMAL_EIO, m')
    \<and> pt_enabled (port_at m' 3) \<and> p_cb (pool_at m' 9) = None"
  using failed_disable_stops_connection [of demo_stuck 3 9 1 MMAL_EIO "plain_ops (\<lambda>p b m. m)"]
  by (auto simp: demo_stuck_def plain_ops_def)

definition demo_clocks :: "unit world" where
  "demo_clocks = upd_port 3 (\<lambda>r. r\<lparr>pt_enabled := True, pt_type := MMAL_PORT_TYPE_CLOCK,
     buffer_header_callback := Some ConnectedInputCb, connected_port := Some 4, transit_buffer_headers := 1\<rparr>)
    (idle_world ())"

theorem clock_port_loses_buffer_witness:
  "mmal_port_buffer_header_callback (plain_ops (\<lambda>p b m. m)) 3 11 demo_clocks = Some (IN_TRANSIT_DECREMENT 3 demo_clocks)"
proof (rule clock_port_loses_buffer)
  show "bh_length (bufs demo_clocks 11) \<noteq> 0" by (simp add: demo_clocks_def idle_world_def)
  show "\<not> pt_enabled (port_at demo_clocks 4)"
    by (simp add: demo_clocks_def) (simp add: idle_world_def idle_env_def port_at_def zero_port_def)
qed (simp_all add: demo_clocks_def)

end
