(* ===== verification/Component.thy ===== *)
theory Component
  imports PortFlow
begin

text \<open>
  core/mmal_component.c, first part: the action thread of a component, the references that keep it
  alive, and its destruction; and the allocation of payloads by ports (core/mmal_port.c), which take
  such references.
\<close>

subsection \<open>The core\<close>

definition mmal_core_init :: "'m core_env \<Rightarrow> 'm core_env" where
  "mmal_core_init e = e\<lparr>core_refcount := core_refcount e + 1\<rparr>"

definition mmal_core_deinit :: "'m core_env \<Rightarrow> 'm core_env" where
  "mmal_core_deinit e = (if core_refcount e = 0 then e else e\<lparr>core_refcount := core_refcount e - 1\<rparr>)"

subsection \<open>Actions\<close>

text \<open>The locks of an action and the thread are created in this order; a failure deletes what was
  created before it.\<close>

definition mmal_component_action_register :: "addr \<Rightarrow> nat \<Rightarrow> 'm world \<Rightarrow> mmal_status \<times> 'm world" where
  "mmal_component_action_register c action m =
     (if pf_action (component_at m c) \<noteq> None then (MMAL_EINVAL, m)
      else
        let (event, e) = sync_create (env (ctx m)) in
        if \<not> event then (MMAL_ENOMEM, set_env e m)
        else
          let (mutex, e) = sync_create e in
          if \<not> mutex then (MMAL_ENOMEM, set_env e m)
          else
            let (thread, e) = sync_create e in
            if \<not> thread then (MMAL_ENOMEM, set_env e m)
            else (MMAL_SUCCESS, upd_component c (\<lambda>r. r\<lparr>action_event := False, pf_action := Some action\<rparr>)
                                  (set_env e m)))"

text \<open>The thread has ended when the call returns, so the event that wakes it is never seen.\<close>

definition mmal_component_action_deregister :: "addr \<Rightarrow> 'm world \<Rightarrow> mmal_status \<times> 'm world" where
  "mmal_component_action_deregister c m =
     (if pf_action (component_at m c) = None then (MMAL_EINVAL, m)
      else (MMAL_SUCCESS, upd_component c (\<lambda>r. r\<lparr>pf_action := None, action_event := False\<rparr>) m))"

definition mmal_component_action_trigger :: "addr \<Rightarrow> 'm world \<Rightarrow> mmal_status \<times> 'm world" where
  "mmal_component_action_trigger c m =
     (if pf_action (component_at m c) = None then (MMAL_EINVAL, m)
      else (MMAL_SUCCESS, upd_component c (\<lambda>r. r\<lparr>action_event := True\<rparr>) m))"

text \<open>One pass of the loop of the action thread; \<open>None\<close> inside means that it waits for the event.\<close>

definition mmal_component_action_thread_func :: "'m port_ops \<Rightarrow> addr \<Rightarrow> 'm world \<Rightarrow> 'm world waited option" where
  "mmal_component_action_thread_func ops c m =
     (if \<not> action_event (component_at m c) then Some Blocked
      else do {
        f \<leftarrow> pf_action (component_at m c);
        m \<leftarrow> f_action ops f c (upd_component c (\<lambda>r. r\<lparr>action_event := False\<rparr>) m);
        Some (Woke m)
      })"

subsection \<open>Destruction\<close>

definition mmal_component_destroy_internal :: "'m port_ops \<Rightarrow> addr \<Rightarrow> 'm world \<Rightarrow> (mmal_status \<times> 'm world) option" where
  "mmal_component_destroy_internal ops c m = do {
     let m = snd (mmal_component_action_deregister c m);
     (status, m) \<leftarrow> (case cf_destroy (component_at m c) of
                       None \<Rightarrow> Some (MMAL_SUCCESS, m) | Some f \<Rightarrow> f_component_destroy ops f c m);
     if status \<noteq> MMAL_SUCCESS then Some (status, m)
     else do {
       m \<leftarrow> (if event_pool (component_at m c) = None then Some m
             else mmal_pool_destroy (core_pool_ops ops) (event_pool (component_at m c)) m);
       m \<leftarrow> mmal_port_free (cp_control (component_at m c)) m;
       let m = (case port_array (component_at m c) of None \<Rightarrow> m | Some a \<Rightarrow> upd_env (core_free a) m);
       Some (MMAL_SUCCESS, upd_env (\<lambda>e. mmal_core_deinit (core_free c e)) m)
     }
   }"

subsection \<open>References\<close>

definition mmal_component_acquire :: "addr \<Rightarrow> 'm world \<Rightarrow> 'm world" where
  "mmal_component_acquire c = upd_component c (\<lambda>r. r\<lparr>cp_refcount := s32 (cp_refcount r + 1)\<rparr>)"

definition env_port_acquire :: "addr \<Rightarrow> 'm core_env \<Rightarrow> 'm core_env" where
  "env_port_acquire p e =
     (let c = pt_component (ports e p) in e\<lparr>components := (components e)
        (c := (components e c)\<lparr>cp_refcount_ports := s32 (cp_refcount_ports (components e c) + 1)\<rparr>)\<rparr>)"

definition mmal_port_acquire :: "addr \<Rightarrow> 'm world \<Rightarrow> 'm world" where
  "mmal_port_acquire p = upd_env (env_port_acquire p)"

text \<open>The part of \<open>mmal_port_release\<close> under the lock of the component: whether the component is to be
  destroyed.\<close>

definition drop_port_reference :: "addr \<Rightarrow> 'm world \<Rightarrow> bool \<times> 'm world" where
  "drop_port_reference c m =
     (let m = upd_component c (\<lambda>r. r\<lparr>cp_refcount_ports := s32 (cp_refcount_ports r - 1)\<rparr>) m;
          r = component_at m c
      in (\<not> (cp_refcount_ports r \<noteq> 0 \<or> cp_refcount r \<noteq> 0 \<or> destruction_pending r), m))"

definition mmal_port_release :: "'m port_ops \<Rightarrow> addr \<Rightarrow> 'm world \<Rightarrow> (mmal_status \<times> 'm world) option" where
  "mmal_port_release ops p m =
     (let c = pt_component (port_at m p) in
      if \<not> cp_refcount_ports (component_at m c) > 0 then Some (MMAL_EINVAL, m)
      else
        let (destroy, m) = drop_port_reference c m
        in if destroy then mmal_component_destroy_internal ops c m else Some (MMAL_SUCCESS, m))"

subsection \<open>Payloads\<close>

definition mmal_port_payload_alloc :: "'m port_ops \<Rightarrow> ptr \<Rightarrow> u32 \<Rightarrow> 'm core_env \<Rightarrow> ptr \<times> 'm core_env" where
  "mmal_port_payload_alloc ops port n e =
     (case port of
        None \<Rightarrow> (None, e)
      | Some p \<Rightarrow>
          if n = 0 then (None, e)
          else
            let (mem, e) = (case pf_port_payload_alloc (ports e p) of
                              None \<Rightarrow> core_malloc e | Some f \<Rightarrow> f_payload_alloc ops f p n e)
            in (mem, if mem \<noteq> None then env_port_acquire p e else e))"

text \<open>The code tests \<open>pf_payload_alloc\<close> and calls \<open>pf_payload_free\<close>.\<close>

definition mmal_port_payload_free :: "'m port_ops \<Rightarrow> ptr \<Rightarrow> addr \<Rightarrow> 'm world \<Rightarrow> 'm world option" where
  "mmal_port_payload_free ops port a m =
     (case port of
        None \<Rightarrow> Some m
      | Some p \<Rightarrow>
          if pf_port_payload_alloc (port_at m p) = None
          then map_option snd (mmal_port_release ops p (upd_env (core_free a) m))
          else do {
            f \<leftarrow> pf_port_payload_free (port_at m p);
            m \<leftarrow> f_payload_free ops f p a m;
            map_option snd (mmal_port_release ops p m)
          })"

text \<open>The functions behind pools whose payloads ports allocate.\<close>

definition port_pool_ops :: "'m port_ops \<Rightarrow> 'm core_env env_ops" where
  "port_pool_ops ops = (core_pool_ops ops)\<lparr>
     client_alloc := (\<lambda>f c n e. if f = port_payload_fn then mmal_port_payload_alloc ops c n e else (None, e)),
     client_free := (\<lambda>f c a m. if f = port_payload_fn then mmal_port_payload_free ops c a m else None)\<rparr>"

definition mmal_port_pool_create :: "'m port_ops \<Rightarrow> ptr \<Rightarrow> u32 \<Rightarrow> u32 \<Rightarrow> 'm world \<Rightarrow> (ptr \<times> 'm world) option" where
  "mmal_port_pool_create ops port headers n m =
     (if port = None then Some (None, m)
      else mmal_pool_create_with_allocator (port_pool_ops ops) (ops_abi ops) (pool_private_size ops) headers n
             port (Some port_payload_fn) (Some port_payload_fn) m)"

end
