(* ===== verification/Connection.thy ===== *)
theory Connection
  imports Component
begin

text \<open>
  core/mmal_port.c, last part: enabling ports, and connections between two ports. A connection that
  the core owns has a pool whose buffers circulate between the ports: a buffer that the input port
  releases is sent to the output port again.
\<close>

subsection \<open>Pools of connections\<close>

text \<open>Buffers from the pool to clock ports, one to each port in turn.\<close>

partial_function (option) mmal_port_populate_clock_loop ::
    "'m port_ops \<Rightarrow> addr \<Rightarrow> addr \<Rightarrow> addr \<Rightarrow> mmal_status \<Rightarrow> 'm world \<Rightarrow> (mmal_status \<times> 'm world) option" where
  "mmal_port_populate_clock_loop ops output input pool status m =
     Option.bind (mmal_queue_get (p_queue (pool_at m pool)) (bufs m)) (\<lambda>r.
       let m = upd_pool pool (\<lambda>x. x\<lparr>p_queue := snd r\<rparr>) m in
       if fst r = None then Some (status, m)
       else
         let b = the (fst r) in
         Option.bind (mmal_port_send_buffer ops (Some output) b m) (\<lambda>s.
           if fst s \<noteq> MMAL_SUCCESS
           then map_option (Pair (fst s)) (release_buffer ops b (snd s))
           else mmal_port_populate_clock_loop ops input output pool (fst s) (snd s)))"

definition mmal_port_populate_clock_ports ::
    "'m port_ops \<Rightarrow> addr \<Rightarrow> addr \<Rightarrow> addr \<Rightarrow> 'm world \<Rightarrow> (mmal_status \<times> 'm world) option" where
  "mmal_port_populate_clock_ports ops output input pool m =
     (if pf_send (port_at m output) = None \<or> pf_send (port_at m input) = None then Some (MMAL_ENOSYS, m)
      else mmal_port_populate_clock_loop ops output input pool MMAL_SUCCESS m)"

text \<open>The loop that puts \<open>n\<close> buffers into a port.\<close>

fun populate_loop :: "'m port_ops \<Rightarrow> addr \<Rightarrow> addr \<Rightarrow> nat \<Rightarrow> 'm world \<Rightarrow> (mmal_status \<times> 'm world) option" where
  "populate_loop ops p pool 0 m = Some (MMAL_SUCCESS, m)"
| "populate_loop ops p pool (Suc n) m = do {
     (buffer, q) \<leftarrow> mmal_queue_get (p_queue (pool_at m pool)) (bufs m);
     let m = upd_pool pool (\<lambda>x. x\<lparr>p_queue := q\<rparr>) m;
     (case buffer of
        None \<Rightarrow> Some (MMAL_ENOMEM, m)
      | Some b \<Rightarrow> do {
          (status, m) \<leftarrow> mmal_port_send_buffer ops (Some p) b m;
          if status \<noteq> MMAL_SUCCESS then map_option (Pair status) (release_buffer ops b m)
          else populate_loop ops p pool n m
        })
   }"

definition mmal_port_populate_from_pool ::
    "'m port_ops \<Rightarrow> addr \<Rightarrow> addr \<Rightarrow> 'm world \<Rightarrow> (mmal_status \<times> 'm world) option" where
  "mmal_port_populate_from_pool ops p pool m =
     (if pf_send (port_at m p) = None then Some (MMAL_ENOSYS, m)
      else populate_loop ops p pool (unat (buffer_num (port_at m p))) m)"

subsection \<open>Enabling and disabling connections\<close>

definition conn_output :: "addr \<Rightarrow> addr \<Rightarrow> 'm world \<Rightarrow> addr" where
  "conn_output p c m = (if pt_type (port_at m p) = MMAL_PORT_TYPE_OUTPUT then p else c)"

definition conn_input :: "addr \<Rightarrow> addr \<Rightarrow> 'm world \<Rightarrow> addr" where
  "conn_input p c m = (if pt_type (port_at m c) = MMAL_PORT_TYPE_INPUT then c else p)"

definition conn_pool :: "addr \<Rightarrow> addr \<Rightarrow> 'm world \<Rightarrow> ptr" where
  "conn_pool p c m = (case pool_for_connection (port_at m p) of
     Some pool \<Rightarrow> Some pool | None \<Rightarrow> pool_for_connection (port_at m c))"

definition mmal_port_connection_enable ::
    "'m port_ops \<Rightarrow> addr \<Rightarrow> addr \<Rightarrow> 'm world \<Rightarrow> (mmal_status \<times> 'm world) option" where
  "mmal_port_connection_enable ops p c m =
     (let output = conn_output p c m;
          input = conn_input p c m;
          pool_port = (if capabilities (port_at m output) AND MMAL_PORT_CAPABILITY_ALLOCATION \<noteq> 0
                       then output else input);
          num = max (buffer_num (port_at m p)) (buffer_num (port_at m c));
          sz = max (buffer_size (port_at m p)) (buffer_size (port_at m c));
          m = upd_port p (\<lambda>r. r\<lparr>buffer_size := sz, buffer_num := num\<rparr>)
                (upd_port c (\<lambda>r. r\<lparr>buffer_size := sz, buffer_num := num\<rparr>) m);
          sz = (if capabilities (port_at m output) AND MMAL_PORT_CAPABILITY_PASSTHROUGH \<noteq> 0 then 0 else sz)
      in
        if \<not> core_owns_connection (port_at m p) then Some (MMAL_SUCCESS, m)
        else do {
          (pool, m) \<leftarrow> mmal_port_pool_create ops (Some pool_port) num sz m;
          (case pool of
             None \<Rightarrow> Some (MMAL_ENOMEM, m)
           | Some a \<Rightarrow>
               let m = upd_port pool_port (\<lambda>r. r\<lparr>pool_for_connection := Some a\<rparr>) m
               in Some (MMAL_SUCCESS, mmal_pool_callback_set a (Some connected_pool_fn) (Some output) m))
        })"

definition mmal_port_connection_disable ::
    "'m port_ops \<Rightarrow> addr \<Rightarrow> addr \<Rightarrow> 'm world \<Rightarrow> (mmal_status \<times> 'm world) option" where
  "mmal_port_connection_disable ops p c m =
     map_option (\<lambda>m. (MMAL_SUCCESS, upd_port p (\<lambda>r. r\<lparr>pool_for_connection := None\<rparr>)
                       (upd_port c (\<lambda>r. r\<lparr>pool_for_connection := None\<rparr>) m)))
       (mmal_pool_destroy (port_pool_ops ops) (conn_pool p c m) m)"

definition mmal_port_connection_start ::
    "'m port_ops \<Rightarrow> addr \<Rightarrow> addr \<Rightarrow> 'm world \<Rightarrow> (mmal_status \<times> 'm world) option" where
  "mmal_port_connection_start ops p c m = do {
     let output = conn_output p c m;
     let input = conn_input p c m;
     pool \<leftarrow> conn_pool p c m;
     if pt_type (port_at m output) = MMAL_PORT_TYPE_CLOCK \<and> pt_type (port_at m input) = MMAL_PORT_TYPE_CLOCK
     then mmal_port_populate_clock_ports ops output input pool m
     else mmal_port_populate_from_pool ops output pool m
   }"

subsection \<open>Enabling and disabling ports\<close>

definition mmal_port_enable_internal ::
    "'m port_ops \<Rightarrow> addr \<Rightarrow> port_cb option \<Rightarrow> 'm world \<Rightarrow> (mmal_status \<times> 'm world) option" where
  "mmal_port_enable_internal ops p cb m =
     (if pt_enabled (port_at m p) then Some (MMAL_SUCCESS, m)
      else if buffer_num (port_at m p) < buffer_num_min (port_at m p) then Some (MMAL_EINVAL, m)
      else if buffer_size (port_at m p) < buffer_size_min (port_at m p) then Some (MMAL_EINVAL, m)
      else do {
        let m = upd_port p (\<lambda>r. r\<lparr>buffer_header_callback := cb\<rparr>) m;
        f \<leftarrow> pf_enable (port_at m p);
        (status, m) \<leftarrow> f_enable ops f p cb m;
        if status \<noteq> MMAL_SUCCESS then Some (status, m)
        else Some (status, upd_port p (\<lambda>r. r\<lparr>pt_enabled := True\<rparr>) m)
      })"

text \<open>The label \<open>error\<close> of \<open>mmal_port_enable\<close>; \<open>conn\<close> is the connected port.\<close>

definition port_enable_error ::
    "'m port_ops \<Rightarrow> addr \<Rightarrow> ptr \<Rightarrow> mmal_status \<Rightarrow> 'm world \<Rightarrow> (mmal_status \<times> 'm world) option" where
  "port_enable_error ops p conn status m = do {
     (_, m) \<leftarrow> (case conn of
                  Some c \<Rightarrow> if pt_enabled (port_at m c) then mmal_port_disable_internal ops c m
                            else Some (MMAL_SUCCESS, m)
                | None \<Rightarrow> Some (MMAL_SUCCESS, m));
     (_, m) \<leftarrow> (if pt_enabled (port_at m p) then mmal_port_disable_internal ops p m else Some (MMAL_SUCCESS, m));
     (_, m) \<leftarrow> (case conn of Some c \<Rightarrow> mmal_port_connection_disable ops p c m | None \<Rightarrow> Some (MMAL_SUCCESS, m));
     Some (status, m)
   }"

text \<open>From the preparation of the connection on. The input port of a connection is enabled first, the
  output port last.\<close>

definition port_enable_steps ::
    "'m port_ops \<Rightarrow> addr \<Rightarrow> ptr \<Rightarrow> port_cb option \<Rightarrow> 'm world \<Rightarrow> (mmal_status \<times> 'm world) option" where
  "port_enable_steps ops p conn cb m = do {
     (status, m) \<leftarrow> (case conn of
         Some c \<Rightarrow> if pt_type (port_at m c) = MMAL_PORT_TYPE_INPUT
                   then mmal_port_enable_internal ops c (Some ConnectedInputCb) m else Some (MMAL_SUCCESS, m)
       | None \<Rightarrow> Some (MMAL_SUCCESS, m));
     if status \<noteq> MMAL_SUCCESS then port_enable_error ops p conn status m
     else do {
       (status, m) \<leftarrow> mmal_port_enable_internal ops p cb m;
       if status \<noteq> MMAL_SUCCESS then port_enable_error ops p conn status m
       else do {
         (status, m) \<leftarrow> (case conn of
             Some c \<Rightarrow> if pt_type (port_at m c) \<noteq> MMAL_PORT_TYPE_INPUT
                       then mmal_port_enable_internal ops c (Some ConnectedOutputCb) m else Some (MMAL_SUCCESS, m)
           | None \<Rightarrow> Some (MMAL_SUCCESS, m));
         if status \<noteq> MMAL_SUCCESS then port_enable_error ops p conn status m
         else do {
           (status, m) \<leftarrow> (case conn of
               Some c \<Rightarrow> if core_owns_connection (port_at m p)
                         then mmal_port_connection_start ops p c m else Some (MMAL_SUCCESS, m)
             | None \<Rightarrow> Some (MMAL_SUCCESS, m));
           if status \<noteq> MMAL_SUCCESS then port_enable_error ops p conn status m
           else Some (MMAL_SUCCESS, m)
         }
       }
     }
   }"

definition mmal_port_enable ::
    "'m port_ops \<Rightarrow> ptr \<Rightarrow> port_cb option \<Rightarrow> 'm world \<Rightarrow> (mmal_status \<times> 'm world) option" where
  "mmal_port_enable ops port cb m =
     (case port of
        None \<Rightarrow> Some (MMAL_EINVAL, m)
      | Some p \<Rightarrow>
          if pf_enable (port_at m p) = None then Some (MMAL_ENOSYS, m)
          else
            let conn = connected_port (port_at m p) in
            if pt_enabled (port_at m p) then Some (MMAL_EINVAL, m)
            else if conn \<noteq> None \<and> cb \<noteq> None then Some (MMAL_EINVAL, m)
            else
              (case conn of
                 None \<Rightarrow> port_enable_steps ops p None cb m
               | Some c \<Rightarrow> do {
                   (status, m) \<leftarrow> mmal_port_connection_enable ops p c m;
                   if status \<noteq> MMAL_SUCCESS then Some (status, m)
                   else port_enable_steps ops p conn
                          (Some (if pt_type (port_at m c) = MMAL_PORT_TYPE_INPUT then ConnectedOutputCb
                                 else ConnectedInputCb)) m
                 }))"

definition mmal_port_disable :: "'m port_ops \<Rightarrow> ptr \<Rightarrow> 'm world \<Rightarrow> (mmal_status \<times> 'm world) option" where
  "mmal_port_disable ops port m =
     (case port of
        None \<Rightarrow> Some (MMAL_EINVAL, m)
      | Some p \<Rightarrow>
          if pf_disable (port_at m p) = None then Some (MMAL_ENOSYS, m)
          else if \<not> pt_enabled (port_at m p) then Some (MMAL_EINVAL, m)
          else
            (case connected_port (port_at m p) of
               None \<Rightarrow> mmal_port_disable_internal ops p m
             | Some c \<Rightarrow> do {
                 (status, m) \<leftarrow> (if pt_type (port_at m c) \<noteq> MMAL_PORT_TYPE_INPUT
                                 then mmal_port_disable_internal ops c m else Some (MMAL_SUCCESS, m));
                 if status \<noteq> MMAL_SUCCESS then Some (status, m)
                 else do {
                   (status, m) \<leftarrow> mmal_port_disable_internal ops p m;
                   if status \<noteq> MMAL_SUCCESS then Some (status, m)
                   else do {
                     (status, m) \<leftarrow> (if pt_type (port_at m c) = MMAL_PORT_TYPE_INPUT
                                     then mmal_port_disable_internal ops c m else Some (MMAL_SUCCESS, m));
                     if status \<noteq> MMAL_SUCCESS then Some (status, m)
                     else mmal_port_connection_disable ops p c m
                   }
                 }
               }))"

subsection \<open>Connecting and disconnecting\<close>

text \<open>The locks of the two ports are taken in turn, so that connecting a port to itself blocks for ever.\<close>

definition mmal_port_connect :: "'m port_ops \<Rightarrow> ptr \<Rightarrow> ptr \<Rightarrow> 'm world \<Rightarrow> (mmal_status \<times> 'm world) option" where
  "mmal_port_connect ops port other m =
     (case (port, other) of
        (Some p, Some c) \<Rightarrow>
          if pt_type (port_at m p) = MMAL_PORT_TYPE_CLOCK \<and> pt_type (port_at m p) \<noteq> pt_type (port_at m c)
          then Some (MMAL_EINVAL, m)
          else if pf_connect (port_at m p) = None \<or> pf_connect (port_at m c) = None then Some (MMAL_ENOSYS, m)
          else if connected_port (port_at m p) \<noteq> None then Some (MMAL_EISCONN, m)
          else if pt_enabled (port_at m p) then Some (MMAL_EINVAL, m)
          else if p = c then None
          else if connected_port (port_at m c) \<noteq> None then Some (MMAL_EISCONN, m)
          else if pt_enabled (port_at m c) then Some (MMAL_EINVAL, m)
          else do {
            let m = upd_port p (\<lambda>r. r\<lparr>connected_port := Some c\<rparr>) m;
            let m = upd_port c (\<lambda>r. r\<lparr>connected_port := Some p\<rparr>) m;
            let m = upd_port p (\<lambda>r. r\<lparr>core_owns_connection := False\<rparr>) m;
            let m = upd_port c (\<lambda>r. r\<lparr>core_owns_connection := False\<rparr>) m;
            f \<leftarrow> pf_connect (port_at m (conn_output p c m));
            (status, m) \<leftarrow> port_connect ops f p (Some c) m;
            if status = MMAL_SUCCESS then Some (MMAL_SUCCESS, m)
            else Some (MMAL_SUCCESS, upd_port c (\<lambda>r. r\<lparr>core_owns_connection := True\<rparr>)
                                      (upd_port p (\<lambda>r. r\<lparr>core_owns_connection := True\<rparr>) m))
          }
      | _ \<Rightarrow> Some (MMAL_EINVAL, m))"

text \<open>Clearing the connection; the code does so unless the port manages it and refuses.\<close>

definition disconnect_ports ::
    "'m port_ops \<Rightarrow> addr \<Rightarrow> addr \<Rightarrow> mmal_status \<Rightarrow> 'm world \<Rightarrow> (mmal_status \<times> 'm world) option" where
  "disconnect_ports ops p c status m = do {
     (ok, status, m) \<leftarrow>
       (if core_owns_connection (port_at m p) then Some (True, status, m)
        else do {
          f \<leftarrow> pf_connect (port_at m p);
          (status, m) \<leftarrow> port_connect ops f p None m;
          Some (status = MMAL_SUCCESS, status, m)
        });
     if ok then Some (status, upd_port c (\<lambda>r. r\<lparr>connected_port := None\<rparr>)
                                (upd_port p (\<lambda>r. r\<lparr>connected_port := None\<rparr>) m))
     else Some (status, m)
   }"

definition mmal_port_disconnect :: "'m port_ops \<Rightarrow> ptr \<Rightarrow> 'm world \<Rightarrow> (mmal_status \<times> 'm world) option" where
  "mmal_port_disconnect ops port m =
     (case port of
        None \<Rightarrow> Some (MMAL_EINVAL, m)
      | Some p \<Rightarrow>
          (case connected_port (port_at m p) of
             None \<Rightarrow> Some (MMAL_ENOTCONN, m)
           | Some c \<Rightarrow>
               if pt_enabled (port_at m p) then do {
                 let output = conn_output p c m;
                 let input = conn_input p c m;
                 (status, m) \<leftarrow> mmal_port_disable_internal ops output m;
                 if status \<noteq> MMAL_SUCCESS then Some (status, m)
                 else do {
                   (status, m) \<leftarrow> mmal_port_disable_internal ops input m;
                   if status \<noteq> MMAL_SUCCESS then Some (status, m)
                   else do {
                     (status, m) \<leftarrow> mmal_port_connection_disable ops p c m;
                     disconnect_ports ops p c status m
                   }
                 }
               }
               else disconnect_ports ops p c MMAL_SUCCESS m))"

end
