(* ===== verification/Lifecycle.thy ===== *)
theory Lifecycle
  imports Connection
begin

text \<open>
  core/mmal_component.c, second part: creating components, releasing their references, enabling and
  disabling them, and the suppliers that create components by name.
\<close>

subsection \<open>The control port\<close>

definition MMAL_CONTROL_PORT_BUFFERS_MIN :: u32 where "MMAL_CONTROL_PORT_BUFFERS_MIN = 4"

text \<open>The numbers of the functions of control ports: enabling and disabling succeed, and no parameter is
  supported.\<close>

definition control_port_fn :: nat where "control_port_fn = 0"

definition mmal_component_enable_control_port :: "addr \<Rightarrow> port_cb option \<Rightarrow> mmal_status" where
  "mmal_component_enable_control_port p cb = MMAL_SUCCESS"

definition mmal_component_disable_control_port :: "addr \<Rightarrow> mmal_status" where
  "mmal_component_disable_control_port p = MMAL_SUCCESS"

definition mmal_component_parameter_set :: "addr \<Rightarrow> mmal_param \<Rightarrow> mmal_status" where
  "mmal_component_parameter_set p param = MMAL_ENOSYS"

definition mmal_component_parameter_get :: "addr \<Rightarrow> mmal_param \<Rightarrow> mmal_status" where
  "mmal_component_parameter_get p param = MMAL_ENOSYS"

text \<open>The functions of control ports beside those of \<open>ops\<close>.\<close>

definition with_control_ports :: "'m port_ops \<Rightarrow> 'm port_ops" where
  "with_control_ports ops = ops\<lparr>
     f_enable := (\<lambda>f p cb m. if f = control_port_fn
       then Some (mmal_component_enable_control_port p cb, m) else f_enable ops f p cb m),
     f_disable := (\<lambda>f p m. if f = control_port_fn
       then Some (mmal_component_disable_control_port p, m) else f_disable ops f p m),
     f_parameter_set := (\<lambda>f p x m. if f = control_port_fn
       then Some (mmal_component_parameter_set p x, m) else f_parameter_set ops f p x m),
     f_parameter_get := (\<lambda>f p x m. if f = control_port_fn
       then Some (mmal_component_parameter_get p x, x, m) else f_parameter_get ops f p x m)\<rparr>"

definition mmal_component_init_control_port :: "addr \<Rightarrow> 'm world \<Rightarrow> 'm world option" where
  "mmal_component_init_control_port p m = do {
     f \<leftarrow> pt_format (port_at m p);
     let m = upd_fmts (upd_format f (\<lambda>x. x\<lparr>es_type := MMAL_ES_TYPE_CONTROL\<rparr>)) m;
     Some (upd_port p (\<lambda>r. r\<lparr>buffer_num_min := MMAL_CONTROL_PORT_BUFFERS_MIN,
       buffer_num := MMAL_CONTROL_PORT_BUFFERS_MIN,
       buffer_size_min := SIZEOF_ES_FORMAT + SIZEOF_ES_SPECIFIC,
       buffer_size := SIZEOF_ES_FORMAT + SIZEOF_ES_SPECIFIC,
       pf_enable := Some control_port_fn, pf_disable := Some control_port_fn,
       pf_parameter_set := Some control_port_fn, pf_parameter_get := Some control_port_fn\<rparr>) m)
   }"

subsection \<open>Suppliers\<close>

definition SUPPLIER_PREFIX_LEN :: nat where "SUPPLIER_PREFIX_LEN = 32"

definition mmal_component_supplier_register :: "string \<Rightarrow> nat \<Rightarrow> 'm core_env \<Rightarrow> 'm core_env" where
  "mmal_component_supplier_register prefix create e =
     (let (block, e) = core_malloc e in
      case block of
        None \<Rightarrow> e
      | Some _ \<Rightarrow> e\<lparr>suppliers := (take (SUPPLIER_PREFIX_LEN - 1) prefix, create) # suppliers e\<rparr>)"

text \<open>The prefix of a component's name is what stands before its first dot.\<close>

definition name_prefix :: "string \<Rightarrow> string" where
  "name_prefix name = takeWhile (\<lambda>c. c \<noteq> CHR ''.'') name"

fun supplier_loop ::
    "'m port_ops \<Rightarrow> string \<Rightarrow> addr \<Rightarrow> (string \<times> nat) list \<Rightarrow> mmal_status \<Rightarrow> 'm world
      \<Rightarrow> (mmal_status \<times> 'm world) option" where
  "supplier_loop ops name c [] status m = Some (status, m)"
| "supplier_loop ops name c ((prefix, create) # rest) status m =
     (if prefix = name_prefix name then do {
        (status, m) \<leftarrow> f_create ops create name c m;
        if status = MMAL_SUCCESS then Some (status, m) else supplier_loop ops name c rest status m
      }
      else supplier_loop ops name c rest status m)"

definition mmal_component_supplier_create :: "'m port_ops \<Rightarrow> string \<Rightarrow> addr \<Rightarrow> 'm world \<Rightarrow> (mmal_status \<times> 'm world) option" where
  "mmal_component_supplier_create ops name c m = supplier_loop ops name c (suppliers (env (ctx m))) MMAL_ENOSYS m"

subsection \<open>Creation\<close>

definition zero_component :: mmal_component where
  "zero_component = \<lparr>cp_name = [], cp_enabled = False, cp_control = None, cp_input = [],
     input_array = None, cp_output = [], output_array = None, cp_clock = [], clock_array = None,
     cp_port = [], port_array = None, cp_id = 0, cf_enable = None, cf_disable = None,
     cf_destroy = None, event_pool = None, cp_refcount = 0, cp_refcount_ports = 0, pf_action = None,
     action_event = False, destruction_pending = False\<rparr>"

text \<open>The label \<open>error\<close>: the result of the destruction is ignored.\<close>

definition component_create_error ::
    "'m port_ops \<Rightarrow> addr \<Rightarrow> mmal_status \<Rightarrow> 'm world \<Rightarrow> (mmal_status \<times> ptr \<times> 'm world) option" where
  "component_create_error ops c status m =
     map_option (\<lambda>(_, m). (status, None, m)) (mmal_component_destroy_internal ops c m)"

definition number_ports :: "(nat \<Rightarrow> mmal_port \<Rightarrow> mmal_port) \<Rightarrow> addr list \<Rightarrow> 'm world \<Rightarrow> 'm world" where
  "number_ports f ps m = fold (\<lambda>i. upd_port (ps ! i) (f i)) [0..<length ps] m"

text \<open>The last part: the list of all the ports, and their types, indexes and buffer sizes.\<close>

definition list_ports :: "addr \<Rightarrow> addr \<Rightarrow> 'm world \<Rightarrow> 'm world option" where
  "list_ports c array m = do {
     let r = component_at m c;
     control \<leftarrow> cp_control r;
     let all = control # cp_input r @ cp_output r @ cp_clock r;
     let m = upd_component c (\<lambda>r. r\<lparr>cp_port := all, port_array := Some array\<rparr>) m;
     let m = number_ports (\<lambda>i x. x\<lparr>pt_index_all := i\<rparr>) all m;
     let m = upd_port control (\<lambda>x. x\<lparr>pt_type := MMAL_PORT_TYPE_CONTROL, pt_index := 0\<rparr>) m;
     let m = number_ports (\<lambda>i x. x\<lparr>pt_type := MMAL_PORT_TYPE_INPUT, pt_index := i\<rparr>) (cp_input r) m;
     let m = number_ports (\<lambda>i x. x\<lparr>pt_type := MMAL_PORT_TYPE_OUTPUT, pt_index := i\<rparr>) (cp_output r) m;
     let m = number_ports (\<lambda>i x. x\<lparr>pt_type := MMAL_PORT_TYPE_CLOCK, pt_index := i\<rparr>) (cp_clock r) m;
     Some (number_ports (\<lambda>i. sensible_buffers) all m)
   }"

text \<open>The middle part, from the construction of the actual component to the list of ports. \<open>constructor\<close>
  is the number of the constructor, or \<open>None\<close> for the suppliers.\<close>

definition component_construct ::
    "'m port_ops \<Rightarrow> string \<Rightarrow> nat option \<Rightarrow> addr \<Rightarrow> 'm world \<Rightarrow> (mmal_status \<times> ptr \<times> 'm world) option" where
  "component_construct ops name constructor c m = do {
     (status, m) \<leftarrow> (case constructor of
                       None \<Rightarrow> mmal_component_supplier_create ops name c m
                     | Some f \<Rightarrow> f_create ops f name c m);
     if status \<noteq> MMAL_SUCCESS then component_create_error ops c status m
     else do {
       control \<leftarrow> cp_control (component_at m c);
       let m = upd_port control (\<lambda>r. r\<lparr>
         buffer_size_min := (if buffer_size_min r < format_changed_size then format_changed_size else buffer_size_min r),
         buffer_num_min := (if buffer_num_min r < MMAL_CONTROL_PORT_BUFFERS_MIN
                            then MMAL_CONTROL_PORT_BUFFERS_MIN else buffer_num_min r)\<rparr>) m;
       (pool, m) \<leftarrow> mmal_pool_create (core_pool_ops ops) (ops_abi ops) (pool_private_size ops)
                      (buffer_num_min (port_at m control)) (buffer_size_min (port_at m control)) m;
       let m = upd_component c (\<lambda>r. r\<lparr>event_pool := pool\<rparr>) m;
       if pool = None then component_create_error ops c MMAL_ENOMEM m
       else do {
         let (array, e) = core_malloc (env (ctx m));
         let m = set_env e m;
         (case array of
            None \<Rightarrow> component_create_error ops c MMAL_ENOMEM m
          | Some a \<Rightarrow> map_option (\<lambda>m. (MMAL_SUCCESS, Some c, m)) (list_ports c a m))
       }
     }
   }"

text \<open>The returned pointer is what \<open>*component\<close> holds: when the lock cannot be created the structure is
  freed and the pointer is kept.\<close>

definition mmal_component_create_core ::
    "'m port_ops \<Rightarrow> string \<Rightarrow> nat option \<Rightarrow> 'm world \<Rightarrow> (mmal_status \<times> ptr \<times> 'm world) option" where
  "mmal_component_create_core ops name constructor m =
     (let (block, e) = core_malloc (mmal_core_init (env (ctx m)));
          m = set_env e m
      in
        case block of
          None \<Rightarrow> Some (MMAL_ENOMEM, None, m)
        | Some c \<Rightarrow>
            let m = upd_component c (\<lambda>_. zero_component\<lparr>cp_name := name, cp_refcount := 1\<rparr>) m;
                (lock, e) = sync_create (env (ctx m));
                m = set_env e m
            in
              if \<not> lock then Some (MMAL_ENOMEM, Some c, upd_env (core_free c) m)
              else
                let m = upd_component c (\<lambda>r. r\<lparr>cp_id := core_instance_count (env (ctx m))\<rparr>) m;
                    m = upd_env (\<lambda>e. e\<lparr>core_instance_count := core_instance_count e + 1\<rparr>) m;
                    (control, m) = mmal_port_alloc c MMAL_PORT_TYPE_CONTROL m;
                    m = upd_component c (\<lambda>r. r\<lparr>cp_control := control\<rparr>) m
                in
                  (case control of
                     None \<Rightarrow> component_create_error ops c MMAL_ENOMEM m
                   | Some p \<Rightarrow> do {
                       m \<leftarrow> mmal_component_init_control_port p m;
                       component_construct ops name constructor c m
                     }))"

definition mmal_component_create :: "'m port_ops \<Rightarrow> string \<Rightarrow> 'm world \<Rightarrow> (mmal_status \<times> ptr \<times> 'm world) option" where
  "mmal_component_create ops name m = mmal_component_create_core ops name None m"

definition mmal_component_create_with_constructor ::
    "'m port_ops \<Rightarrow> string \<Rightarrow> nat option \<Rightarrow> 'm world \<Rightarrow> (mmal_status \<times> ptr \<times> 'm world) option" where
  "mmal_component_create_with_constructor ops name constructor m = mmal_component_create_core ops name constructor m"

subsection \<open>Releasing\<close>

text \<open>\<open>mmal_component_release_internal\<close> takes the lock of the component twice: first it drops the reference,
  then, if that was the last one and when the ports are disabled and disconnected, it decides whether to
  destroy the component or to leave that to the last port reference.\<close>

definition drop_component_reference :: "addr \<Rightarrow> 'm world \<Rightarrow> bool \<times> 'm world" where
  "drop_component_reference c m =
     (let m = upd_component c (\<lambda>r. r\<lparr>cp_refcount := s32 (cp_refcount r - 1)\<rparr>) m in
      if cp_refcount (component_at m c) \<noteq> 0 then (False, m)
      else (True, upd_component c (\<lambda>r. r\<lparr>destruction_pending := True\<rparr>) m))"

definition decide_destruction :: "addr \<Rightarrow> 'm world \<Rightarrow> bool \<times> 'm world" where
  "decide_destruction c m =
     (if cp_refcount_ports (component_at m c) \<noteq> 0
      then (False, upd_component c (\<lambda>r. r\<lparr>destruction_pending := False\<rparr>) m) else (True, m))"

fun disable_enabled :: "'m port_ops \<Rightarrow> addr list \<Rightarrow> 'm world \<Rightarrow> 'm world option" where
  "disable_enabled ops [] m = Some m"
| "disable_enabled ops (p # ps) m =
     Option.bind (if pt_enabled (port_at m p) then map_option snd (mmal_port_disable ops (Some p) m) else Some m)
       (disable_enabled ops ps)"

fun disconnect_all :: "'m port_ops \<Rightarrow> addr list \<Rightarrow> 'm world \<Rightarrow> 'm world option" where
  "disconnect_all ops [] m = Some m"
| "disconnect_all ops (p # ps) m =
     Option.bind (map_option snd (mmal_port_disconnect ops (Some p) m)) (disconnect_all ops ps)"

definition mmal_component_release_internal :: "'m port_ops \<Rightarrow> addr \<Rightarrow> 'm world \<Rightarrow> (mmal_status \<times> 'm world) option" where
  "mmal_component_release_internal ops c m =
     (if \<not> cp_refcount (component_at m c) > 0 then Some (MMAL_EINVAL, m)
      else do {
        let (final, m) = drop_component_reference c m;
        if \<not> final then Some (MMAL_SUCCESS, m)
        else do {
          let r = component_at m c;
          let ps = cp_input r @ cp_output r @ cp_clock r;
          control \<leftarrow> cp_control r;
          m \<leftarrow> disable_enabled ops (ps @ [control]) m;
          m \<leftarrow> disconnect_all ops ps m;
          let (destroy, m) = decide_destruction c m;
          if destroy then mmal_component_destroy_internal ops c m else Some (MMAL_SUCCESS, m)
        }
      })"

definition mmal_component_release :: "'m port_ops \<Rightarrow> ptr \<Rightarrow> 'm world \<Rightarrow> (mmal_status \<times> 'm world) option" where
  "mmal_component_release ops component m =
     (case component of None \<Rightarrow> Some (MMAL_EINVAL, m) | Some c \<Rightarrow> mmal_component_release_internal ops c m)"

definition mmal_component_destroy :: "'m port_ops \<Rightarrow> ptr \<Rightarrow> 'm world \<Rightarrow> (mmal_status \<times> 'm world) option" where
  "mmal_component_destroy ops component m =
     (case component of None \<Rightarrow> Some (MMAL_EINVAL, m) | Some c \<Rightarrow> mmal_component_release_internal ops c m)"

subsection \<open>Enabling and disabling\<close>

text \<open>Pausing or resuming ports until one fails.\<close>

fun pause_ports :: "'m port_ops \<Rightarrow> bool \<Rightarrow> addr list \<Rightarrow> 'm world \<Rightarrow> (mmal_status \<times> 'm world) option" where
  "pause_ports ops pause [] m = Some (MMAL_SUCCESS, m)"
| "pause_ports ops pause (p # ps) m = do {
     (status, m) \<leftarrow> mmal_port_pause ops p pause m;
     if status = MMAL_SUCCESS then pause_ports ops pause ps m else Some (status, m)
   }"

definition mmal_component_enable :: "'m port_ops \<Rightarrow> ptr \<Rightarrow> 'm world \<Rightarrow> (mmal_status \<times> 'm world) option" where
  "mmal_component_enable ops component m =
     (case component of
        None \<Rightarrow> Some (MMAL_EINVAL, m)
      | Some c \<Rightarrow>
          if cp_enabled (component_at m c) then Some (MMAL_SUCCESS, m)
          else do {
            (status, m) \<leftarrow> (case cf_enable (component_at m c) of
                              None \<Rightarrow> Some (MMAL_ENOSYS, m) | Some f \<Rightarrow> f_component_enable ops f c m);
            (status, m) \<leftarrow> (if status = MMAL_ENOSYS
                            then pause_ports ops False (cp_input (component_at m c) @ cp_output (component_at m c)) m
                            else Some (status, m));
            Some (status, if status = MMAL_SUCCESS then upd_component c (\<lambda>r. r\<lparr>cp_enabled := True\<rparr>) m else m)
          })"

definition mmal_component_disable :: "'m port_ops \<Rightarrow> ptr \<Rightarrow> 'm world \<Rightarrow> (mmal_status \<times> 'm world) option" where
  "mmal_component_disable ops component m =
     (case component of
        None \<Rightarrow> Some (MMAL_EINVAL, m)
      | Some c \<Rightarrow>
          if \<not> cp_enabled (component_at m c) then Some (MMAL_SUCCESS, m)
          else do {
            (status, m) \<leftarrow> (case cf_disable (component_at m c) of
                              None \<Rightarrow> Some (MMAL_ENOSYS, m) | Some f \<Rightarrow> f_component_disable ops f c m);
            (status, m) \<leftarrow> (if status = MMAL_ENOSYS
                            then pause_ports ops True (cp_input (component_at m c) @ cp_output (component_at m c)) m
                            else Some (status, m));
            Some (status, if status = MMAL_SUCCESS then upd_component c (\<lambda>r. r\<lparr>cp_enabled := False\<rparr>) m else m)
          })"

subsection \<open>References and destruction\<close>

text \<open>The threads that use component \<open>c\<close>: those that acquire and release references to it and to its ports,
  the one that has dropped the last reference and is disabling the ports (\<open>releasing\<close>), and how many have
  decided to destroy the component (\<open>doomed\<close>). Only who has a reference acquires another one. Steps of
  anything else leave the references alone.\<close>

record 'm component_threads =
  cworld :: "'m world"
  releasing :: bool
  doomed :: nat

definition same_references :: "addr \<Rightarrow> 'm world \<Rightarrow> 'm world \<Rightarrow> bool" where
  "same_references c m m' \<longleftrightarrow> cp_refcount (component_at m' c) = cp_refcount (component_at m c)
     \<and> cp_refcount_ports (component_at m' c) = cp_refcount_ports (component_at m c)
     \<and> destruction_pending (component_at m' c) = destruction_pending (component_at m c)"

inductive component_step :: "addr \<Rightarrow> 'm component_threads \<Rightarrow> 'm component_threads \<Rightarrow> bool" for c where
  acquire: "0 < cp_refcount (component_at (cworld s) c) \<Longrightarrow> cp_refcount (component_at (cworld s) c) < int32_max \<Longrightarrow>
    component_step c s (s\<lparr>cworld := mmal_component_acquire c (cworld s)\<rparr>)"
| port_acquire: "pt_component (port_at (cworld s) p) = c \<Longrightarrow>
    0 < cp_refcount (component_at (cworld s) c) \<or> 0 < cp_refcount_ports (component_at (cworld s) c) \<Longrightarrow>
    cp_refcount_ports (component_at (cworld s) c) < int32_max \<Longrightarrow>
    component_step c s (s\<lparr>cworld := mmal_port_acquire p (cworld s)\<rparr>)"
| release: "0 < cp_refcount (component_at (cworld s) c) \<Longrightarrow>
    drop_component_reference c (cworld s) = (final, m) \<Longrightarrow>
    component_step c s (s\<lparr>cworld := m, releasing := releasing s \<or> final\<rparr>)"
| port_release: "0 < cp_refcount_ports (component_at (cworld s) c) \<Longrightarrow>
    drop_port_reference c (cworld s) = (destroy, m) \<Longrightarrow>
    component_step c s (s\<lparr>cworld := m, doomed := doomed s + of_bool destroy\<rparr>)"
| decide: "releasing s \<Longrightarrow> decide_destruction c (cworld s) = (destroy, m) \<Longrightarrow>
    component_step c s (s\<lparr>cworld := m, releasing := False, doomed := doomed s + of_bool destroy\<rparr>)"
| other: "same_references c (cworld s) m \<Longrightarrow> component_step c s (s\<lparr>cworld := m\<rparr>)"

inductive component_reachable :: "addr \<Rightarrow> 'm component_threads \<Rightarrow> bool" for c where
  created: "cp_refcount (component_at m c) = 1 \<Longrightarrow> cp_refcount_ports (component_at m c) = 0 \<Longrightarrow>
    \<not> destruction_pending (component_at m c) \<Longrightarrow>
    component_reachable c \<lparr>cworld = m, releasing = False, doomed = 0\<rparr>"
| step: "component_reachable c s \<Longrightarrow> component_step c s t \<Longrightarrow> component_reachable c t"

definition component_inv :: "int \<Rightarrow> int \<Rightarrow> bool \<Rightarrow> bool \<Rightarrow> nat \<Rightarrow> bool" where
  "component_inv refs port_refs pending rel dm \<longleftrightarrow>
     0 \<le> refs \<and> refs \<le> int32_max \<and> 0 \<le> port_refs \<and> port_refs \<le> int32_max
     \<and> (rel \<longrightarrow> refs = 0 \<and> pending \<and> dm = 0)
     \<and> (0 < refs \<longrightarrow> dm = 0)
     \<and> (\<not> rel \<longrightarrow> (dm = 1 \<longleftrightarrow> refs = 0 \<and> port_refs = 0) \<and> dm \<le> 1 \<and> (dm = 0 \<longrightarrow> \<not> pending))"

abbreviation component_threads_inv :: "addr \<Rightarrow> 'm component_threads \<Rightarrow> bool" where
  "component_threads_inv c s \<equiv> component_inv (cp_refcount (component_at (cworld s) c))
     (cp_refcount_ports (component_at (cworld s) c)) (destruction_pending (component_at (cworld s) c))
     (releasing s) (doomed s)"

lemma port_acquire_component:
  "component_at (mmal_port_acquire p m) = (component_at m)(pt_component (port_at m p) :=
     (component_at m (pt_component (port_at m p)))\<lparr>cp_refcount_ports :=
        s32 (cp_refcount_ports (component_at m (pt_component (port_at m p))) + 1)\<rparr>)"
  by (simp add: mmal_port_acquire_def env_port_acquire_def component_at_def port_at_def upd_env_def set_env_def
      Let_def fun_eq_iff)

lemma s32_step: "0 \<le> n \<Longrightarrow> n < int32_max \<Longrightarrow> s32 (n + 1) = n + 1" "0 < n \<Longrightarrow> n \<le> int32_max \<Longrightarrow> s32 (n - 1) = n - 1"
  by (simp_all add: s32_in in32_def)

lemma component_inv_step:
  assumes "component_step c s t" and "component_threads_inv c s"
  shows "component_threads_inv c t"
  using assms
proof (cases rule: component_step.cases)
  case acquire
  then show ?thesis using assms(2)
    by (simp add: mmal_component_acquire_def s32_step) (simp add: component_inv_def)
next
  case (port_acquire p)
  then show ?thesis using assms(2)
    by (simp add: port_acquire_component) (auto simp: component_inv_def s32_step)
next
  case (release final m)
  let ?r = "component_at (cworld s) c"
  have "s32 (cp_refcount ?r - 1) = cp_refcount ?r - 1"
    using assms(2) release(2) by (intro s32_step) (simp_all add: component_inv_def)
  then have "m = upd_component c (\<lambda>r. r\<lparr>cp_refcount := cp_refcount ?r - 1, destruction_pending := final \<or> destruction_pending ?r\<rparr>) (cworld s)
      \<or> component_at m c = ?r\<lparr>cp_refcount := cp_refcount ?r - 1, destruction_pending := final \<or> destruction_pending ?r\<rparr>"
    "final \<longleftrightarrow> cp_refcount ?r = 1"
    using release(3) by (auto simp: drop_component_reference_def Let_def split: if_splits)
  then have "component_at m c = ?r\<lparr>cp_refcount := cp_refcount ?r - 1, destruction_pending := final \<or> destruction_pending ?r\<rparr>"
    "final \<longleftrightarrow> cp_refcount ?r = 1"
    by auto
  then show ?thesis using assms(2) release(1,2) by (auto simp: component_inv_def)
next
  case (port_release destroy m)
  let ?r = "component_at (cworld s) c"
  have "s32 (cp_refcount_ports ?r - 1) = cp_refcount_ports ?r - 1"
    using assms(2) port_release(2) by (intro s32_step) (simp_all add: component_inv_def)
  then have "component_at m c = ?r\<lparr>cp_refcount_ports := cp_refcount_ports ?r - 1\<rparr>"
    "destroy \<longleftrightarrow> cp_refcount_ports ?r = 1 \<and> cp_refcount ?r = 0 \<and> \<not> destruction_pending ?r"
    using port_release(3) by (auto simp: drop_port_reference_def Let_def)
  then show ?thesis using assms(2) port_release(1,2) by (auto simp: component_inv_def)
next
  case (decide destroy m)
  let ?r = "component_at (cworld s) c"
  have "component_at m c = ?r\<lparr>destruction_pending := destruction_pending ?r \<and> destroy\<rparr>"
    "destroy \<longleftrightarrow> cp_refcount_ports ?r = 0"
    using decide(3) by (auto simp: decide_destruction_def split: if_splits)
  then show ?thesis using assms(2) decide(1,2) by (auto simp: component_inv_def)
next
  case (other m)
  then show ?thesis using assms(2) by (simp add: same_references_def)
qed

lemma component_reachable_inv: "component_reachable c s \<Longrightarrow> component_threads_inv c s"
  by (induction rule: component_reachable.induct) (auto intro: component_inv_step, simp add: component_inv_def)

text \<open>C17. A component is destroyed exactly once, and only when nobody refers to it: whatever the threads that
  hold references to the component and to its ports do, at most one of them decides to destroy it, and one
  has decided so exactly when no reference is left and nobody is disabling the ports for the last
  release. A port reference that outlives the component's references delays the destruction, and its
  release then does it.\<close>

theorem component_destroyed_once:
  assumes "component_reachable c s"
  shows "doomed s \<le> 1 \<and> (doomed s = 1 \<longleftrightarrow> cp_refcount (component_at (cworld s) c) = 0
    \<and> cp_refcount_ports (component_at (cworld s) c) = 0 \<and> \<not> releasing s)"
  using component_reachable_inv [OF assms] by (auto simp: component_inv_def)

text \<open>A payload of a port outlives the component.\<close>

theorem component_destroyed_once_witness:
  "\<exists>s :: unit component_threads. component_reachable 0 s \<and> \<not> releasing s \<and> doomed s = 1
    \<and> cp_refcount (component_at (cworld s) 0) = 0"
proof -
  let ?m0 = "upd_component 0 (\<lambda>_. idle_component) (idle_world ())"
  let ?s0 = "\<lparr>cworld = ?m0, releasing = False, doomed = 0\<rparr>"
  have p: "pt_component (port_at ?m0 3) = 0" by (simp add: port_at_def upd_component_def upd_env_def set_env_def idle_world_def idle_env_def zero_port_def)
  have r0: "component_reachable 0 ?s0"
    by (rule component_reachable.created) (simp_all add: idle_component_def)
  let ?m1 = "mmal_port_acquire 3 ?m0"
  have c1: "component_at ?m1 0 = idle_component\<lparr>cp_refcount_ports := 1\<rparr>"
    using p by (simp add: port_acquire_component) (simp add: idle_component_def s32_def)
  have r1: "component_reachable 0 \<lparr>cworld = ?m1, releasing = False, doomed = 0\<rparr>"
    using component_reachable.step [OF r0 component_step.port_acquire [of ?s0 3 0]] p
    by (simp add: idle_component_def)
  let ?m2 = "snd (drop_component_reference 0 ?m1)"
  have c2: "component_at ?m2 0 = idle_component\<lparr>cp_refcount_ports := 1, cp_refcount := 0, destruction_pending := True\<rparr>"
    "fst (drop_component_reference 0 ?m1)"
    using c1 by (simp_all add: drop_component_reference_def Let_def) (simp_all add: idle_component_def s32_def)
  have r2: "component_reachable 0 \<lparr>cworld = ?m2, releasing = True, doomed = 0\<rparr>"
    using component_reachable.step [OF r1 component_step.release [of _ 0 True ?m2]] c1 c2
    by (simp add: prod_eq_iff) (simp add: idle_component_def)
  let ?m3 = "snd (decide_destruction 0 ?m2)"
  have c3: "component_at ?m3 0 = idle_component\<lparr>cp_refcount_ports := 1, cp_refcount := 0\<rparr>"
    "\<not> fst (decide_destruction 0 ?m2)"
    using c2 by (simp_all add: decide_destruction_def) (simp_all add: idle_component_def)
  have r3: "component_reachable 0 \<lparr>cworld = ?m3, releasing = False, doomed = 0\<rparr>"
    using component_reachable.step [OF r2 component_step.decide [of _ 0 False ?m3]] c3
    by (simp add: prod_eq_iff)
  let ?m4 = "snd (drop_port_reference 0 ?m3)"
  have c4: "component_at ?m4 0 = idle_component\<lparr>cp_refcount_ports := 0, cp_refcount := 0\<rparr>"
    "fst (drop_port_reference 0 ?m3)"
    using c3(1) by (simp_all add: drop_port_reference_def Let_def) (simp_all add: idle_component_def s32_def)
  have r4: "component_reachable 0 \<lparr>cworld = ?m4, releasing = False, doomed = 1\<rparr>"
    using component_reachable.step [OF r3 component_step.port_release [of _ 0 True ?m4]] c3(1) c4(2)
    by (simp add: prod_eq_iff)
  from component_destroyed_once [OF r4] show ?thesis
    using r4 by (intro exI [of _ "\<lparr>cworld = ?m4, releasing = False, doomed = 1\<rparr>"]) simp
qed

subsection \<open>Failed creations\<close>

text \<open>The early failures of a creation leave something behind: without memory for the component the
  reference to the core that was taken at the start is kept, and when the lock of the component cannot be
  created the reference is kept too, and the caller's pointer is left at the freed component.\<close>

theorem failed_create_leaves_references:
  assumes "e = env (ctx m)"
  shows "(heap e (heap_next e) = None \<longrightarrow> (\<exists>m'. mmal_component_create ops name m = Some (MMAL_ENOMEM, None, m')
      \<and> core_refcount (env (ctx m')) = core_refcount e + 1))
    \<and> (\<forall>c. heap e (heap_next e) = Some c \<and> \<not> syncs e (syncs_next e) \<longrightarrow>
      (\<exists>m'. mmal_component_create ops name m = Some (MMAL_ENOMEM, Some c, m')
        \<and> c \<in> set (heap_frees (env (ctx m'))) \<and> core_refcount (env (ctx m')) = core_refcount e + 1))"
  unfolding assms
  by (auto simp: mmal_component_create_def mmal_component_create_core_def core_malloc_def mmal_core_init_def
      sync_create_def core_free_def upd_component_def upd_env_def set_env_def)

theorem failed_create_leaves_references_witness:
  "\<exists>m'. mmal_component_create (plain_ops (\<lambda>p b m. m)) ''vc.null_sink''
      (upd_env (\<lambda>e. e\<lparr>heap := (\<lambda>_. None)\<rparr>) (idle_world ())) = Some (MMAL_ENOMEM, None, m')
    \<and> core_refcount (env (ctx m')) = 2"
  using failed_create_leaves_references
    [OF refl, of "upd_env (\<lambda>e. e\<lparr>heap := (\<lambda>_. None)\<rparr>) (idle_world ())" "plain_ops (\<lambda>p b m. m)" "''vc.null_sink''"]
  by (auto simp: upd_env_def set_env_def idle_world_def idle_env_def)

end
