(* ===== verification/MmalList.thy ===== *)
theory MmalList
  imports Types "HOL-Library.Multiset"
begin

text \<open>
  mmal/util/mmal_list.c: the intrusive doubly linked list. Elements live at addresses; the
  heap \<open>lheap\<close> maps an address to its link (\<open>MMAL_LIST_ELEMENT_T\<close>), a list object is the
  record of its three public fields, and each operation returns the new object and heap.
  The list's mutex is held over each whole operation, so an operation is one step; the
  unlock and relock in \<open>mmal_list_insert\<close> before a push is not a separate step here.

  \<open>dll h l xs\<close> says that list object \<open>l\<close> in heap \<open>h\<close> holds exactly the elements \<open>xs\<close>.
  The locale \<open>deque\<close> is the contract a client of the list relies on.
\<close>

record mmal_list_element =
  lnext :: ptr
  lprev :: ptr

record mmal_list =
  l_length :: u32
  l_first :: ptr
  l_last :: ptr

type_synonym lheap = "addr \<Rightarrow> mmal_list_element"

subsection \<open>The operations\<close>

text \<open>The outcome of \<open>vcos_malloc\<close> and \<open>vcos_mutex_create\<close> are the two arguments.\<close>

definition mmal_list_create :: "bool \<Rightarrow> bool \<Rightarrow> mmal_list option" where
  "mmal_list_create malloc_ok mutex_ok =
     (if malloc_ok \<and> mutex_ok then Some \<lparr>l_length = 0, l_first = None, l_last = None\<rparr>
      else None)"

text \<open>What a variable of type \<open>MMAL_LIST_T*\<close> can point at. \<open>live\<close> dereferences it: NULL and a
  freed list give \<open>None\<close>, and so does destroying either of them.\<close>

datatype list_ptr = ListNull | ListLive mmal_list | ListFreed

fun live :: "list_ptr \<Rightarrow> mmal_list option" where
  "live (ListLive l) = Some l"
| "live p = None"

definition mmal_list_destroy :: "list_ptr \<Rightarrow> list_ptr option" where
  "mmal_list_destroy p = map_option (\<lambda>_. ListFreed) (live p)"

definition mmal_list_pop_back ::
    "mmal_list \<Rightarrow> lheap \<Rightarrow> ptr \<times> mmal_list \<times> lheap" where
  "mmal_list_pop_back l h =
     (case l_last l of
        None \<Rightarrow> (None, l, h)
      | Some e \<Rightarrow>
          let l = l\<lparr>l_length := l_length l - 1\<rparr>;
              l = l\<lparr>l_last := lprev (h e)\<rparr>;
              (l, h) = (case l_last l of
                          Some p \<Rightarrow> (l, h(p := (h p)\<lparr>lnext := None\<rparr>))
                        | None \<Rightarrow> (l\<lparr>l_first := None\<rparr>, h));
              h = h(e := (h e)\<lparr>lprev := None, lnext := None\<rparr>)
          in (Some e, l, h))"

definition mmal_list_pop_front ::
    "mmal_list \<Rightarrow> lheap \<Rightarrow> ptr \<times> mmal_list \<times> lheap" where
  "mmal_list_pop_front l h =
     (case l_first l of
        None \<Rightarrow> (None, l, h)
      | Some e \<Rightarrow>
          let l = l\<lparr>l_length := l_length l - 1\<rparr>;
              l = l\<lparr>l_first := lnext (h e)\<rparr>;
              (l, h) = (case l_first l of
                          Some p \<Rightarrow> (l, h(p := (h p)\<lparr>lprev := None\<rparr>))
                        | None \<Rightarrow> (l\<lparr>l_last := None\<rparr>, h));
              h = h(e := (h e)\<lparr>lprev := None, lnext := None\<rparr>)
          in (Some e, l, h))"

definition mmal_list_push_front ::
    "mmal_list \<Rightarrow> lheap \<Rightarrow> addr \<Rightarrow> mmal_list \<times> lheap" where
  "mmal_list_push_front l h e =
     (let l = l\<lparr>l_length := l_length l + 1\<rparr>;
          h = h(e := (h e)\<lparr>lprev := None, lnext := l_first l\<rparr>);
          (l, h) = (case l_first l of
                      Some f \<Rightarrow> (l, h(f := (h f)\<lparr>lprev := Some e\<rparr>))
                    | None \<Rightarrow> (l\<lparr>l_last := Some e\<rparr>, h))
      in (l\<lparr>l_first := Some e\<rparr>, h))"

definition mmal_list_push_back ::
    "mmal_list \<Rightarrow> lheap \<Rightarrow> addr \<Rightarrow> mmal_list \<times> lheap" where
  "mmal_list_push_back l h e =
     (let l = l\<lparr>l_length := l_length l + 1\<rparr>;
          h = h(e := (h e)\<lparr>lnext := None, lprev := l_last l\<rparr>);
          (l, h) = (case l_last l of
                      Some b \<Rightarrow> (l, h(b := (h b)\<lparr>lnext := Some e\<rparr>))
                    | None \<Rightarrow> (l\<lparr>l_first := Some e\<rparr>, h))
      in (l\<lparr>l_last := Some e\<rparr>, h))"

text \<open>
  The scan of \<open>mmal_list_insert\<close>: the first element the new one compares below, or NULL.
  It is a loop over the \<open>next\<close> pointers that does not return on a circular chain.
\<close>

partial_function (option) insert_scan ::
    "(addr \<Rightarrow> addr \<Rightarrow> bool) \<Rightarrow> lheap \<Rightarrow> addr \<Rightarrow> ptr \<Rightarrow> ptr option" where
  "insert_scan compare h e cur =
     (if cur = None then Some None
      else if compare e (the cur) then Some cur
      else insert_scan compare h e (lnext (h (the cur))))"

text \<open>The "Slot found" branch; \<open>cur->prev->next = element\<close> dereferences \<open>cur->prev\<close>.\<close>

definition insert_before ::
    "mmal_list \<Rightarrow> lheap \<Rightarrow> addr \<Rightarrow> addr \<Rightarrow> (mmal_list \<times> lheap) option" where
  "insert_before l h e cur = do {
     let l = l\<lparr>l_length := l_length l + 1\<rparr>;
     (l, h) \<leftarrow> (if l_first l = Some cur then Some (l\<lparr>l_first := Some e\<rparr>, h)
                else (case lprev (h cur) of
                        None \<Rightarrow> None
                      | Some p \<Rightarrow> Some (l, h(p := (h p)\<lparr>lnext := Some e\<rparr>))));
     let h = h(e := (h e)\<lparr>lprev := lprev (h cur)\<rparr>);
     let h = h(e := (h e)\<lparr>lnext := Some cur\<rparr>);
     let h = h(cur := (h cur)\<lparr>lprev := Some e\<rparr>);
     Some (l, h)
   }"

definition mmal_list_insert ::
    "mmal_list \<Rightarrow> lheap \<Rightarrow> addr \<Rightarrow> (addr \<Rightarrow> addr \<Rightarrow> bool) \<Rightarrow> (mmal_list \<times> lheap) option" where
  "mmal_list_insert l h e compare =
     (if l_first l = None then Some (mmal_list_push_front l h e)
      else do {
        cur \<leftarrow> insert_scan compare h e (l_first l);
        case cur of
          Some c \<Rightarrow> insert_before l h e c
        | None \<Rightarrow> Some (mmal_list_push_back l h e)
      })"

lemmas list_op_defs =
  mmal_list_pop_back_def mmal_list_pop_front_def mmal_list_push_front_def
  mmal_list_push_back_def insert_before_def

subsection \<open>The abstraction\<close>

definition dll :: "lheap \<Rightarrow> mmal_list \<Rightarrow> addr list \<Rightarrow> bool" where
  "dll h l xs \<longleftrightarrow>
     chain (lnext \<circ> h) (l_first l) xs None
     \<and> chain (lprev \<circ> h) (l_last l) (rev xs) None
     \<and> distinct xs \<and> l_length l = of_nat (length xs)"

definition same_on :: "addr set \<Rightarrow> lheap \<Rightarrow> lheap \<Rightarrow> bool" where
  "same_on A h h' \<longleftrightarrow> (\<forall>a\<in>A. h a = h' a)"

lemma same_onD: "same_on A h h' \<Longrightarrow> a \<in> A \<Longrightarrow> h a = h' a"
  by (simp add: same_on_def)

lemma dll_frame: "dll h l xs \<Longrightarrow> same_on (set xs) h h' \<Longrightarrow> dll h' l xs"
  unfolding dll_def same_on_def
  by (metis (no_types, lifting) chain_cong comp_apply set_rev)

lemma dll_empty: "l_first l = None \<Longrightarrow> dll h l xs \<Longrightarrow> xs = []"
  by (auto simp: dll_def dest: chain_NoneD)

lemma dll_nilD: "dll h l [] \<Longrightarrow> l_first l = None \<and> l_last l = None \<and> l_length l = 0"
  by (simp add: dll_def)

lemma dll_unique: "dll h l xs \<Longrightarrow> dll h l ys \<Longrightarrow> xs = ys"
  by (auto simp: dll_def intro: chain_unique)

lemma dll_last: "dll h l (xs @ [x]) \<Longrightarrow> l_last l = Some x"
  by (simp add: dll_def)

lemma dll_first: "dll h l (x # xs) \<Longrightarrow> l_first l = Some x"
  by (simp add: dll_def)

lemma list_create_dll: "mmal_list_create a b = Some l \<Longrightarrow> dll h l []"
  by (auto simp: mmal_list_create_def dll_def split: if_splits)

subsection \<open>Each operation on the abstract list\<close>

declare fun_upd_comp [heap_simps]

lemma pop_front_nil:
  "dll h l [] \<Longrightarrow> mmal_list_pop_front l h = (None, l, h)"
  by (simp add: mmal_list_pop_front_def dll_def)

lemma pop_front_cons:
  assumes "dll h l (x # xs)"
  shows "\<exists>l' h'. mmal_list_pop_front l h = (Some x, l', h') \<and> dll h' l' xs
    \<and> same_on (- set (x # xs)) h h'"
proof (cases xs)
  case Nil
  with assms show ?thesis
    by (auto simp: mmal_list_pop_front_def dll_def same_on_def heap_simps)
next
  case (Cons y ys)
  with assms show ?thesis
    by (auto simp: mmal_list_pop_front_def dll_def same_on_def chain_append heap_simps)
qed

lemma pop_back_nil:
  "dll h l [] \<Longrightarrow> mmal_list_pop_back l h = (None, l, h)"
  by (simp add: mmal_list_pop_back_def dll_def)

lemma pop_back_snoc:
  assumes "dll h l (xs @ [x])"
  shows "\<exists>l' h'. mmal_list_pop_back l h = (Some x, l', h') \<and> dll h' l' xs
    \<and> same_on (- set (xs @ [x])) h h'"
proof (cases xs rule: rev_cases)
  case Nil
  with assms show ?thesis
    by (auto simp: mmal_list_pop_back_def dll_def same_on_def heap_simps)
next
  case (snoc ys y)
  with assms show ?thesis
    by (auto simp: mmal_list_pop_back_def dll_def same_on_def chain_append heap_simps)
qed

lemma push_front_cons:
  assumes "dll h l xs" and "e \<notin> set xs"
  shows "\<exists>l' h'. mmal_list_push_front l h e = (l', h') \<and> dll h' l' (e # xs)
    \<and> same_on (- set (e # xs)) h h'"
proof (cases xs)
  case Nil
  with assms show ?thesis
    by (auto simp: mmal_list_push_front_def dll_def same_on_def heap_simps)
next
  case (Cons y ys)
  with assms show ?thesis
    by (auto simp: mmal_list_push_front_def dll_def same_on_def chain_append heap_simps)
qed

lemma push_back_snoc:
  assumes "dll h l xs" and "e \<notin> set xs"
  shows "\<exists>l' h'. mmal_list_push_back l h e = (l', h') \<and> dll h' l' (xs @ [e])
    \<and> same_on (- set (xs @ [e])) h h'"
proof (cases xs rule: rev_cases)
  case Nil
  with assms show ?thesis
    by (auto simp: mmal_list_push_back_def dll_def same_on_def heap_simps)
next
  case (snoc ys y)
  with assms show ?thesis
    by (auto simp: mmal_list_push_back_def dll_def same_on_def chain_append heap_simps)
qed

subsection \<open>Insertion\<close>

lemma insert_scan_chain:
  "chain (lnext \<circ> h) p xs None \<Longrightarrow>
   insert_scan compare h e p =
     Some (case dropWhile (\<lambda>c. \<not> compare e c) xs of [] \<Rightarrow> None | c # _ \<Rightarrow> Some c)"
  by (induction xs arbitrary: p) (simp_all add: insert_scan.simps)

lemma insert_scan_dll:
  "dll h l xs \<Longrightarrow> insert_scan compare h e (l_first l) =
     Some (case dropWhile (\<lambda>c. \<not> compare e c) xs of [] \<Rightarrow> None | c # _ \<Rightarrow> Some c)"
  unfolding dll_def by (blast intro: insert_scan_chain)

lemma insert_before_middle:
  assumes "dll h l (as @ c # bs)" and "e \<notin> set (as @ c # bs)"
  shows "\<exists>l' h'. insert_before l h e c = Some (l', h') \<and> dll h' l' (as @ e # c # bs)
    \<and> same_on (- set (e # as @ c # bs)) h h'"
proof (cases as rule: rev_cases)
  case Nil
  with assms show ?thesis
    by (auto simp: insert_before_def dll_def same_on_def chain_append heap_simps)
next
  case (snoc ys y)
  have "l_first l \<noteq> Some c"
    using assms(1) snoc by (cases ys) (auto simp: dll_def)
  with assms snoc show ?thesis
    by (auto simp: insert_before_def dll_def same_on_def chain_append heap_simps)
qed

lemma mmal_list_insert_spec:
  assumes "dll h l xs" and "e \<notin> set xs"
  shows "\<exists>l' h'. mmal_list_insert l h e compare = Some (l', h')
    \<and> dll h' l' (takeWhile (\<lambda>c. \<not> compare e c) xs @ e # dropWhile (\<lambda>c. \<not> compare e c) xs)
    \<and> same_on (- set (e # xs)) h h'"
proof (cases "dropWhile (\<lambda>c. \<not> compare e c) xs")
  case Nil
  then have t: "takeWhile (\<lambda>c. \<not> compare e c) xs = xs"
    by (metis append_Nil2 takeWhile_dropWhile_id)
  show ?thesis
  proof (cases "l_first l")
    case None
    then have "xs = []" using assms(1) by (rule dll_empty)
    with None push_front_cons [OF assms] show ?thesis by (simp add: mmal_list_insert_def)
  next
    case (Some f)
    have "insert_scan compare h e (l_first l) = Some None"
      unfolding insert_scan_dll [OF assms(1)] Nil by simp
    with Some have "mmal_list_insert l h e compare = Some (mmal_list_push_back l h e)"
      by (simp add: mmal_list_insert_def)
    with push_back_snoc [OF assms] show ?thesis unfolding t Nil by auto
  qed
next
  case (Cons c bs)
  define as where "as = takeWhile (\<lambda>c. \<not> compare e c) xs"
  have xs: "as @ c # bs = xs" unfolding as_def Cons [symmetric] by (rule takeWhile_dropWhile_id)
  have "l_first l \<noteq> None" using assms(1) xs dll_empty by fastforce
  moreover have "insert_scan compare h e (l_first l) = Some (Some c)"
    unfolding insert_scan_dll [OF assms(1)] Cons by simp
  ultimately have "mmal_list_insert l h e compare = insert_before l h e c"
    by (auto simp: mmal_list_insert_def)
  moreover have "\<exists>l' h'. insert_before l h e c = Some (l', h') \<and> dll h' l' (as @ e # c # bs)
      \<and> same_on (- set (e # as @ c # bs)) h h'"
    using assms by (intro insert_before_middle) (simp_all add: xs)
  ultimately show ?thesis
    unfolding Cons as_def [symmetric] by (simp only: xs)
qed

subsection \<open>The contract clients rely on\<close>

text \<open>
  A client that shares one heap between several lists needs, besides the effect of each
  operation, that a list is untouched while the elements of another one move. \<open>holds h l xs\<close> is
  the abstraction and \<open>agree A h h'\<close> says that the heaps agree on \<open>A\<close>.
\<close>

locale deque =
  fixes holds :: "'h \<Rightarrow> 'l \<Rightarrow> addr list \<Rightarrow> bool"
    and agree :: "addr set \<Rightarrow> 'h \<Rightarrow> 'h \<Rightarrow> bool"
    and pop_front :: "'l \<Rightarrow> 'h \<Rightarrow> ptr \<times> 'l \<times> 'h"
    and push_front :: "'l \<Rightarrow> 'h \<Rightarrow> addr \<Rightarrow> 'l \<times> 'h"
    and push_back :: "'l \<Rightarrow> 'h \<Rightarrow> addr \<Rightarrow> 'l \<times> 'h"
  assumes holds_frame: "holds h l xs \<Longrightarrow> agree (set xs) h h' \<Longrightarrow> holds h' l xs"
    and holds_distinct: "holds h l xs \<Longrightarrow> distinct xs"
    and agree_subset: "agree B h h' \<Longrightarrow> A \<subseteq> B \<Longrightarrow> agree A h h'"
    and pop_front_Nil: "holds h l [] \<Longrightarrow> pop_front l h = (None, l, h)"
    and pop_front_Cons: "holds h l (x # xs) \<Longrightarrow>
      \<exists>l' h'. pop_front l h = (Some x, l', h') \<and> holds h' l' xs \<and> agree (- set (x # xs)) h h'"
    and push_front_Cons: "holds h l xs \<Longrightarrow> e \<notin> set xs \<Longrightarrow>
      \<exists>l' h'. push_front l h e = (l', h') \<and> holds h' l' (e # xs) \<and> agree (- set (e # xs)) h h'"
    and push_back_Snoc: "holds h l xs \<Longrightarrow> e \<notin> set xs \<Longrightarrow>
      \<exists>l' h'. push_back l h e = (l', h') \<and> holds h' l' (xs @ [e]) \<and> agree (- set (xs @ [e])) h h'"
begin

text \<open>Two lists in one heap, without a common element.\<close>

definition two_lists :: "'h \<Rightarrow> 'l \<Rightarrow> addr list \<Rightarrow> 'l \<Rightarrow> addr list \<Rightarrow> bool" where
  "two_lists h l xs k ys \<longleftrightarrow> holds h l xs \<and> holds h k ys \<and> set xs \<inter> set ys = {}"

lemma two_lists_sym: "two_lists h l xs k ys \<longleftrightarrow> two_lists h k ys l xs"
  by (auto simp: two_lists_def)

lemma two_lists_pop:
  assumes "two_lists h l (x # xs) k ys"
  obtains l' h' where "pop_front l h = (Some x, l', h')" and "two_lists h' l' xs k ys"
    and "x \<notin> set xs" and "x \<notin> set ys"
proof -
  have x: "x \<notin> set xs" "x \<notin> set ys" and d: "set (x # xs) \<inter> set ys = {}"
    and k: "holds h k ys" and l: "holds h l (x # xs)"
    using assms holds_distinct [of h l "x # xs"] by (auto simp: two_lists_def)
  obtain l' h' where *: "pop_front l h = (Some x, l', h')" "holds h' l' xs"
      "agree (- set (x # xs)) h h'"
    using pop_front_Cons [OF l] by blast
  have "agree (set ys) h h'" using d by (intro agree_subset [OF *(3)]) auto
  with k have "holds h' k ys" by (rule holds_frame)
  with * d x that show thesis by (auto simp: two_lists_def)
qed

lemma two_lists_push_back:
  assumes "two_lists h l xs k ys" and "e \<notin> set xs" and "e \<notin> set ys"
  obtains k' h' where "push_back k h e = (k', h')" and "two_lists h' l xs k' (ys @ [e])"
proof -
  have d: "set xs \<inter> set ys = {}" and k: "holds h k ys" and l: "holds h l xs"
    using assms by (auto simp: two_lists_def)
  obtain k' h' where *: "push_back k h e = (k', h')" "holds h' k' (ys @ [e])"
      "agree (- set (ys @ [e])) h h'"
    using push_back_Snoc [OF k assms(3)] by blast
  have "agree (set xs) h h'" using d assms by (intro agree_subset [OF *(3)]) auto
  with l have "holds h' l xs" by (rule holds_frame)
  with * d assms that show thesis by (auto simp: two_lists_def)
qed

lemma two_lists_push_front:
  assumes "two_lists h l xs k ys" and "e \<notin> set xs" and "e \<notin> set ys"
  obtains l' h' where "push_front l h e = (l', h')" and "two_lists h' l' (e # xs) k ys"
proof -
  have d: "set xs \<inter> set ys = {}" and k: "holds h k ys" and l: "holds h l xs"
    using assms by (auto simp: two_lists_def)
  obtain l' h' where *: "push_front l h e = (l', h')" "holds h' l' (e # xs)"
      "agree (- set (e # xs)) h h'"
    using push_front_Cons [OF l assms(2)] by blast
  have "agree (set ys) h h'" using d assms by (intro agree_subset [OF *(3)]) auto
  with k have "holds h' k ys" by (rule holds_frame)
  with * d assms that show thesis by (auto simp: two_lists_def)
qed

text \<open>Moving the front element of one list to the back of the other.\<close>

lemma two_lists_transfer:
  assumes "two_lists h l (x # xs) k ys"
  obtains l' h' k' h'' where "pop_front l h = (Some x, l', h')" and "push_back k h' x = (k', h'')"
    and "two_lists h'' l' xs k' (ys @ [x])"
  using assms by (metis two_lists_pop two_lists_push_back)

end

text \<open>The list with the ordered insertion of \<open>mmal_list_insert\<close>.\<close>

locale ordered_deque =
  deque where holds = holds for holds :: "'h \<Rightarrow> 'l \<Rightarrow> addr list \<Rightarrow> bool" +
  fixes insert_elem :: "'l \<Rightarrow> 'h \<Rightarrow> addr \<Rightarrow> (addr \<Rightarrow> addr \<Rightarrow> bool) \<Rightarrow> ('l \<times> 'h) option"
  assumes insert_holds: "holds h l xs \<Longrightarrow> e \<notin> set xs \<Longrightarrow>
    \<exists>l' h'. insert_elem l h e compare = Some (l', h')
      \<and> holds h' l' (takeWhile (\<lambda>c. \<not> compare e c) xs @ e # dropWhile (\<lambda>c. \<not> compare e c) xs)
      \<and> agree (- set (e # xs)) h h'"
begin

lemma two_lists_insert:
  assumes "two_lists h l xs k ys" and "e \<notin> set xs" and "e \<notin> set ys"
  obtains l' h' where "insert_elem l h e compare = Some (l', h')"
    and "two_lists h' l'
      (takeWhile (\<lambda>c. \<not> compare e c) xs @ e # dropWhile (\<lambda>c. \<not> compare e c) xs) k ys"
proof -
  have d: "set xs \<inter> set ys = {}" and k: "holds h k ys" and l: "holds h l xs"
    using assms by (auto simp: two_lists_def)
  obtain l' h' where *: "insert_elem l h e compare = Some (l', h')"
      "holds h' l' (takeWhile (\<lambda>c. \<not> compare e c) xs @ e # dropWhile (\<lambda>c. \<not> compare e c) xs)"
      "agree (- set (e # xs)) h h'"
    using insert_holds [OF l assms(2), of compare] by blast
  have "agree (set ys) h h'" using d assms by (intro agree_subset [OF *(3)]) auto
  with k have "holds h' k ys" by (rule holds_frame)
  with * d assms that show thesis
    by (auto simp: two_lists_def dest: set_takeWhileD set_dropWhileD)
qed

end

interpretation ml: ordered_deque where holds = dll and agree = same_on
  and pop_front = mmal_list_pop_front and push_front = mmal_list_push_front
  and push_back = mmal_list_push_back and insert_elem = mmal_list_insert
proof (unfold_locales, goal_cases)
  case (1 h l xs h') then show ?case by (rule dll_frame)
next
  case (2 h l xs) then show ?case by (simp add: dll_def)
next
  case (3 B h h' A) then show ?case by (auto simp: same_on_def)
next
  case (4 h l) then show ?case by (rule pop_front_nil)
next
  case (5 h l x xs) then show ?case by (rule pop_front_cons)
next
  case (6 h l xs e) then show ?case by (rule push_front_cons)
next
  case (7 h l xs e) then show ?case by (rule push_back_snoc)
next
  case (8 h l xs e compare) then show ?case by (rule mmal_list_insert_spec)
qed

subsection \<open>Sortedness\<close>

text \<open>For a strict comparison on a key, the inserted list is the sorted list with the new element
  after all its equals.\<close>

lemma sorted_insert_key:
  fixes key :: "addr \<Rightarrow> 'k :: linorder"
  assumes "sorted (map key xs)"
  shows "sorted (map key (takeWhile (\<lambda>c. \<not> key e < key c) xs @ e
           # dropWhile (\<lambda>c. \<not> key e < key c) xs))"
  using assms
proof (induction xs)
  case (Cons x xs)
  have s: "\<forall>y\<in>set xs. key x \<le> key y" using Cons.prems by simp
  show ?case
  proof (cases "key e < key x")
    case True
    with s Cons.prems show ?thesis by auto
  next
    case False
    have "set (takeWhile (\<lambda>c. \<not> key e < key c) xs) \<subseteq> set xs"
      "set (dropWhile (\<lambda>c. \<not> key e < key c) xs) \<subseteq> set xs"
      by (auto dest: set_takeWhileD set_dropWhileD)
    with s False Cons show ?thesis by auto
  qed
qed simp

lemma filter_insert_key:
  fixes key :: "addr \<Rightarrow> 'k :: linorder"
  assumes "sorted (map key xs)"
  shows "filter (\<lambda>c. key c = key e) (takeWhile (\<lambda>c. \<not> key e < key c) xs @ e
           # dropWhile (\<lambda>c. \<not> key e < key c) xs) = filter (\<lambda>c. key c = key e) xs @ [e]"
  using assms
proof (induction xs)
  case (Cons x xs)
  have s: "\<forall>y\<in>set xs. key x \<le> key y" using Cons.prems by simp
  show ?case
  proof (cases "key e < key x")
    case True
    with s have "filter (\<lambda>c. key c = key e) (x # xs) = []"
      by (auto simp: filter_empty_conv)
    with True show ?thesis by simp
  next
    case False
    with Cons show ?thesis by simp
  qed
qed simp

lemma mset_insert_at:
  "mset (takeWhile P xs @ e # dropWhile P xs) = add_mset e (mset xs)"
  by (metis mset_append mset.simps(2) takeWhile_dropWhile_id union_mset_add_mset_right)

text \<open>C21. The pointer surgery of the list operations implements the operations on the abstract
  sequence: popping returns and removes the first (last) element or returns NULL on the empty
  list, pushing adds the element at the front (back); the links, the first and last pointers and
  the length counter stay consistent.\<close>

theorem list_ops_refine:
  assumes "dll h l xs" and "e \<notin> set xs"
  shows "(case mmal_list_pop_front l h of (r, l', h') \<Rightarrow>
            r = (if xs = [] then None else Some (hd xs)) \<and> dll h' l' (tl xs))
       \<and> (case mmal_list_pop_back l h of (r, l', h') \<Rightarrow>
            r = (if xs = [] then None else Some (last xs)) \<and> dll h' l' (butlast xs))
       \<and> (case mmal_list_push_front l h e of (l', h') \<Rightarrow> dll h' l' (e # xs))
       \<and> (case mmal_list_push_back l h e of (l', h') \<Rightarrow> dll h' l' (xs @ [e]))"
proof -
  have 1: "case mmal_list_pop_front l h of (r, l', h') \<Rightarrow>
      r = (if xs = [] then None else Some (hd xs)) \<and> dll h' l' (tl xs)"
  proof (cases xs)
    case Nil
    with assms show ?thesis by (simp add: pop_front_nil)
  next
    case (Cons y ys)
    with assms pop_front_cons [of h l y ys] show ?thesis by auto
  qed
  have 2: "case mmal_list_pop_back l h of (r, l', h') \<Rightarrow>
      r = (if xs = [] then None else Some (last xs)) \<and> dll h' l' (butlast xs)"
  proof (cases xs rule: rev_cases)
    case Nil
    with assms show ?thesis by (simp add: pop_back_nil)
  next
    case (snoc ys y)
    with assms pop_back_snoc [of h l ys y] show ?thesis by auto
  qed
  show ?thesis
    using 1 2 push_front_cons [OF assms] push_back_snoc [OF assms] by auto
qed

definition demo_heap :: lheap where
  "demo_heap = (\<lambda>_. \<lparr>lnext = None, lprev = None\<rparr>)
     (1 := \<lparr>lnext = Some 2, lprev = None\<rparr>, 2 := \<lparr>lnext = None, lprev = Some 1\<rparr>)"

definition demo_list :: mmal_list where
  "demo_list = \<lparr>l_length = 2, l_first = Some 1, l_last = Some 2\<rparr>"

lemma demo_dll: "dll demo_heap demo_list [1, 2]"
  by (simp add: dll_def demo_heap_def demo_list_def)

theorem list_ops_refine_witness:
  "case mmal_list_push_back demo_list demo_heap 7 of (l', h') \<Rightarrow> dll h' l' [1, 2, 7]"
  using list_ops_refine [OF demo_dll, of 7] by simp

text \<open>Inserting into a list sorted by a key with the strict comparison on that key keeps it
  sorted, adds exactly the new element, and places it after the elements with an equal key
  (first come, first served); the scan of the list ends.\<close>

theorem list_insert_sorted:
  fixes key :: "addr \<Rightarrow> 'k :: linorder"
  assumes "dll h l xs" and "e \<notin> set xs" and "sorted (map key xs)"
  shows "\<exists>l' h' ys. mmal_list_insert l h e (\<lambda>a b. key a < key b) = Some (l', h') \<and> dll h' l' ys
    \<and> sorted (map key ys) \<and> mset ys = add_mset e (mset xs)
    \<and> filter (\<lambda>c. key c = key e) ys = filter (\<lambda>c. key c = key e) xs @ [e]"
  using mmal_list_insert_spec [OF assms(1,2), of "\<lambda>a b. key a < key b"]
    sorted_insert_key [OF assms(3), of e] filter_insert_key [OF assms(3), of e]
    mset_insert_at [of "\<lambda>c. \<not> key e < key c" xs e]
  by blast

theorem list_insert_sorted_witness:
  "\<exists>l' h' ys. mmal_list_insert demo_list demo_heap 5 (\<lambda>a b. int a < int b) = Some (l', h')
    \<and> dll h' l' ys \<and> sorted (map int ys) \<and> mset ys = {#5, 1, 2#}"
  using list_insert_sorted [OF demo_dll, of 5 int] by auto

end
