(* ===== verification/Clock.thy ===== *)
theory Clock
  imports MmalList Rational
begin

text \<open>
  core/mmal_clock.c, first part: the clock's state (\<open>MMAL_CLOCK_PRIVATE_T\<close>) and its time keeping.
  The request lists and the worker thread are in theory ClockRequests.

  Each operation runs under the clock's lock and is one step. \<open>vcos_getmicrosecs()\<close> is a stream
  \<open>rtc\<close> of readings and \<open>ticks\<close> counts the readings taken, so that nothing is assumed about the
  time between two of them. Signed arithmetic is written with \<open>s32\<close> and \<open>s64\<close>, the wrap-around at
  its width. The request slot \<open>pool[i]\<close> is at address \<open>i\<close>; its link is its first member and so at
  the same address. A slot's callback is a number, and calling it appends to the log \<open>fired\<close>: it
  runs with the lock held and cannot call back an operation that takes it.
  \<open>timer\<close> is the running timer's delay in milliseconds.
\<close>

type_synonym rtc = "nat \<Rightarrow> u32"

record clock_request =
  rq_priv :: ptr
  rq_cb :: nat
  rq_cb_data :: ptr
  rq_media_time :: int
  media_time_adj :: int

record fired_request =
  f_cb :: nat
  f_time :: int
  f_data :: ptr
  f_priv :: ptr

record clock =
  is_active :: bool
  scheduling :: bool
  stop_thread :: bool
  ck_event :: nat
  ck_timer :: "u32 option"
  ck_scale :: int
  scale_inv :: int
  scale_rational :: mmal_rational
  average_ref_diff :: int
  ck_media_time :: int
  media_time_frac :: u32
  wall_time :: int
  rtc_at_update :: u32
  media_time_at_timer :: int
  discont_expiry :: int
  discont_start :: int
  discont_end :: int
  discont_threshold :: int
  discont_duration :: int
  request_threshold :: int
  request_threshold_enable :: bool
  update_threshold_lower :: int
  update_threshold_upper :: int
  list_free :: list_ptr
  list_pending :: list_ptr
  links :: lheap
  reqs :: "addr \<Rightarrow> clock_request"
  ticks :: nat
  fired :: "fired_request list"

definition MIN_TIMER_DELAY :: int where "MIN_TIMER_DELAY = 10000"
definition Q16_ONE :: int where "Q16_ONE = 2 ^ 16"
definition CLOCK_REQUEST_SLOTS :: nat where "CLOCK_REQUEST_SLOTS = 32"
definition CLOCK_TARGET_OFFSET :: int where "CLOCK_TARGET_OFFSET = 20"
definition CLOCK_WAIT_TIME :: int where "CLOCK_WAIT_TIME = 200000"

definition zero_clock :: clock where
  "zero_clock = \<lparr>is_active = False, scheduling = False, stop_thread = False, ck_event = 0,
     ck_timer = None, ck_scale = 0, scale_inv = 0, scale_rational = \<lparr>num = 0, den = 0\<rparr>,
     average_ref_diff = 0, ck_media_time = 0, media_time_frac = 0, wall_time = 0,
     rtc_at_update = 0, media_time_at_timer = 0, discont_expiry = 0, discont_start = 0,
     discont_end = 0, discont_threshold = 0, discont_duration = 0, request_threshold = 0,
     request_threshold_enable = False, update_threshold_lower = 0, update_threshold_upper = 0,
     list_free = ListNull, list_pending = ListNull, links = (\<lambda>_. \<lparr>lnext = None, lprev = None\<rparr>),
     reqs = (\<lambda>_. \<lparr>rq_priv = None, rq_cb = 0, rq_cb_data = None, rq_media_time = 0,
       media_time_adj = 0\<rparr>),
     ticks = 0, fired = []\<rparr>"

subsection \<open>Timer and worker notification\<close>

definition mmal_clock_timer_set :: "int \<Rightarrow> clock \<Rightarrow> clock" where
  "mmal_clock_timer_set delay_us c = c\<lparr>ck_timer := Some (of_int (cdiv delay_us 1000))\<rparr>"

definition mmal_clock_timer_cancel :: "clock \<Rightarrow> clock" where
  "mmal_clock_timer_cancel c = c\<lparr>ck_timer := None\<rparr>"

definition mmal_clock_wake_thread :: "clock \<Rightarrow> clock" where
  "mmal_clock_wake_thread c = (if scheduling c then c\<lparr>ck_event := ck_event c + 1\<rparr> else c)"

text \<open>The timer expires: it no longer runs and the worker is notified.\<close>

definition mmal_clock_timer_cb :: "clock \<Rightarrow> clock" where
  "mmal_clock_timer_cb c = mmal_clock_wake_thread (c\<lparr>ck_timer := None\<rparr>)"

subsection \<open>Time\<close>

definition time_diff :: "u32 \<Rightarrow> u32 \<Rightarrow> u32" where
  "time_diff time_now before = (if time_now > before then time_now - before else 0)"

definition mmal_clock_update_local_time_locked :: "rtc \<Rightarrow> clock \<Rightarrow> clock" where
  "mmal_clock_update_local_time_locked rtc c =
     (let time_now = rtc (ticks c);
          c = c\<lparr>ticks := ticks c + 1\<rparr>;
          diff = time_diff time_now (rtc_at_update c);
          c = c\<lparr>wall_time := s64 (wall_time c + uint diff)\<rparr>;
          media_diff = s64 (s64 (uint diff * s32 (ck_scale c * 2 ^ 8))
                            + uint (media_time_frac c));
          c = c\<lparr>ck_media_time := s64 (ck_media_time c + media_diff div 2 ^ 24)\<rparr>;
          c = c\<lparr>media_time_frac := of_int (media_diff mod 2 ^ 24)\<rparr>
      in c\<lparr>rtc_at_update := time_now\<rparr>)"

definition mmal_clock_media_time_get_locked :: "rtc \<Rightarrow> clock \<Rightarrow> int \<times> clock" where
  "mmal_clock_media_time_get_locked rtc c =
     (let c = mmal_clock_update_local_time_locked rtc c in (ck_media_time c, c))"

definition mmal_clock_media_time_get :: "rtc \<Rightarrow> clock \<Rightarrow> int \<times> clock" where
  "mmal_clock_media_time_get rtc c = mmal_clock_media_time_get_locked rtc c"

definition mmal_clock_is_paused :: "clock \<Rightarrow> bool" where
  "mmal_clock_is_paused c \<longleftrightarrow> ck_scale c = 0"

definition mmal_clock_scale_set :: "rtc \<Rightarrow> mmal_rational \<Rightarrow> clock \<Rightarrow> mmal_status \<times> clock" where
  "mmal_clock_scale_set rtc scale c =
     (let c = mmal_clock_update_local_time_locked rtc c;
          c = c\<lparr>scale_rational := scale\<rparr>;
          c = c\<lparr>ck_scale := mmal_rational_to_fixed_16_16 scale\<rparr>;
          c = (if ck_scale c \<noteq> 0 then c\<lparr>scale_inv := s32 (cdiv (2 ^ 32) (ck_scale c))\<rparr>
               else c\<lparr>scale_inv := Q16_ONE\<rparr>)
      in (MMAL_SUCCESS, mmal_clock_wake_thread c))"

definition mmal_clock_scale_get :: "clock \<Rightarrow> mmal_rational" where
  "mmal_clock_scale_get c = scale_rational c"

definition mmal_clock_start :: "clock \<Rightarrow> clock" where
  "mmal_clock_start c = mmal_clock_wake_thread (c\<lparr>is_active := True\<rparr>)"

definition mmal_clock_stop :: "clock \<Rightarrow> clock" where
  "mmal_clock_stop c = mmal_clock_wake_thread (c\<lparr>is_active := False\<rparr>)"

definition mmal_clock_active_set :: "bool \<Rightarrow> clock \<Rightarrow> mmal_status \<times> clock" where
  "mmal_clock_active_set active c =
     (MMAL_SUCCESS, if active then mmal_clock_start c else mmal_clock_stop c)"

definition mmal_clock_is_active :: "clock \<Rightarrow> bool" where
  "mmal_clock_is_active c = is_active c"

text \<open>\<open>((average << 6) - average + time_diff) >> 6\<close>.\<close>

definition moving_average :: "int \<Rightarrow> int \<Rightarrow> int" where
  "moving_average average diff = s64 (s64 (s64 (average * 2 ^ 6) - average) + diff) div 2 ^ 6"

definition mmal_clock_media_time_set :: "rtc \<Rightarrow> int \<Rightarrow> clock \<Rightarrow> mmal_status \<times> clock" where
  "mmal_clock_media_time_set rtc media_time c =
     (if \<not> is_active c then
        let time_now = rtc (ticks c);
            c = c\<lparr>ticks := ticks c + 1\<rparr>;
            c = c\<lparr>wall_time := uint time_now\<rparr>;
            c = c\<lparr>ck_media_time := media_time\<rparr>;
            c = c\<lparr>media_time_frac := 0\<rparr>;
            c = c\<lparr>rtc_at_update := time_now\<rparr>
        in (MMAL_SUCCESS, c)
      else if mmal_clock_is_paused c then (MMAL_SUCCESS, c)
      else
        let c = mmal_clock_update_local_time_locked rtc c;
            diff = s64 (ck_media_time c - media_time)
        in
          if diff > update_threshold_upper c
             \<or> diff < s64 (- update_threshold_upper c)
          then
            let c = c\<lparr>ck_media_time := media_time\<rparr>;
                c = c\<lparr>average_ref_diff := 0\<rparr>
            in (MMAL_SUCCESS, mmal_clock_wake_thread c)
          else
            let c = c\<lparr>average_ref_diff := moving_average (average_ref_diff c) diff\<rparr>
            in
              if average_ref_diff c > update_threshold_lower c
                 \<or> average_ref_diff c < s64 (- update_threshold_lower c)
              then
                let c = c\<lparr>ck_media_time := s64 (ck_media_time c - average_ref_diff c)\<rparr>;
                    c = c\<lparr>average_ref_diff := 0\<rparr>
                in (MMAL_SUCCESS, mmal_clock_wake_thread c)
              else (MMAL_SUCCESS, c))"

subsection \<open>Creating a clock\<close>

text \<open>\<open>clock_ptr\<close> says that the client's pointer is not NULL; \<open>t\<close> is the number of the first
  reading of the real-time clock.\<close>

definition mmal_clock_create ::
    "rtc \<Rightarrow> nat \<Rightarrow> bool \<Rightarrow> bool \<Rightarrow> bool \<Rightarrow> mmal_status \<times> clock option" where
  "mmal_clock_create rtc t clock_ptr calloc_ok mutex_ok =
     (if \<not> clock_ptr then (MMAL_EINVAL, None)
      else if \<not> calloc_ok then (MMAL_ENOMEM, None)
      else if \<not> mutex_ok then (MMAL_ENOSPC, None)
      else
        let c = zero_clock\<lparr>ticks := t, update_threshold_lower := 8000,
                  update_threshold_upper := 50000, discont_threshold := 1000000,
                  discont_duration := 1000000, request_threshold := 0,
                  request_threshold_enable := False\<rparr>;
            (_, c) = mmal_clock_scale_set rtc \<lparr>num = 1, den = 1\<rparr> c
        in (MMAL_SUCCESS, Some c))"

subsection \<open>Thresholds\<close>

definition mmal_clock_update_threshold_get :: "clock \<Rightarrow> mmal_status \<times> int \<times> int" where
  "mmal_clock_update_threshold_get c =
     (MMAL_SUCCESS, update_threshold_lower c, update_threshold_upper c)"

definition mmal_clock_update_threshold_set :: "int \<times> int \<Rightarrow> clock \<Rightarrow> mmal_status \<times> clock" where
  "mmal_clock_update_threshold_set = (\<lambda>(lower, upper) c.
     (MMAL_SUCCESS, c\<lparr>update_threshold_lower := lower, update_threshold_upper := upper\<rparr>))"

definition mmal_clock_discont_threshold_get :: "clock \<Rightarrow> mmal_status \<times> int \<times> int" where
  "mmal_clock_discont_threshold_get c = (MMAL_SUCCESS, discont_threshold c, discont_duration c)"

definition mmal_clock_discont_threshold_set :: "int \<times> int \<Rightarrow> clock \<Rightarrow> mmal_status \<times> clock" where
  "mmal_clock_discont_threshold_set = (\<lambda>(threshold, duration) c.
     (MMAL_SUCCESS, c\<lparr>discont_threshold := threshold, discont_duration := duration\<rparr>))"

definition mmal_clock_request_threshold_get :: "clock \<Rightarrow> mmal_status \<times> int \<times> bool" where
  "mmal_clock_request_threshold_get c =
     (MMAL_SUCCESS, request_threshold c, request_threshold_enable c)"

definition mmal_clock_request_threshold_set :: "int \<times> bool \<Rightarrow> clock \<Rightarrow> mmal_status \<times> clock" where
  "mmal_clock_request_threshold_set = (\<lambda>(threshold, enable) c.
     (MMAL_SUCCESS, c\<lparr>request_threshold := threshold, request_threshold_enable := enable\<rparr>))"

subsection \<open>Keeping time\<close>

text \<open>The media time with its fraction, in units of \<open>2 ^ -24\<close> microseconds.\<close>

definition media_position :: "clock \<Rightarrow> int" where
  "media_position c = ck_media_time c * 2 ^ 24 + uint (media_time_frac c)"

text \<open>Values with room for two hours of real time at any scale below 128.\<close>

definition time_ok :: "clock \<Rightarrow> bool" where
  "time_ok c \<longleftrightarrow> \<bar>ck_media_time c\<bar> \<le> 2 ^ 62 \<and> \<bar>wall_time c\<bar> \<le> 2 ^ 62 \<and> in32 (ck_scale c * 2 ^ 8)"

lemma elapsed_bound:
  assumes "in32 (s * 2 ^ 8)" and "0 \<le> d" and "d < 2 ^ 32" and "0 \<le> f" and "f < 2 ^ 24"
  shows "in64 (d * (s * 2 ^ 8))" "in64 (d * (s * 2 ^ 8) + f)" "\<bar>(d * (s * 2 ^ 8) + f) div 2 ^ 24\<bar> \<le> 2 ^ 39"
proof -
  have s: "- (2 ^ 31) \<le> s * 2 ^ 8" "s * 2 ^ 8 \<le> 2 ^ 31 - 1" using assms(1) by (simp_all add: in32_def)
  have "d * (s * 2 ^ 8) \<le> d * (2 ^ 31 - 1)" "d * - (2 ^ 31) \<le> d * (s * 2 ^ 8)"
    using s assms(2) by (simp_all only: mult_left_mono)
  moreover have "d * (2 ^ 31 - 1) \<le> (2 ^ 32 - 1) * (2 ^ 31 - 1)" "(2 ^ 32 - 1) * - (2 ^ 31) \<le> d * - (2 ^ 31)"
    using assms(2,3) by simp_all
  moreover define p where "p = d * (s * 2 ^ 8)"
  ultimately have b: "p \<le> 9223372030412324865" "- 9223372034707292160 \<le> p"
    by simp_all
  have "in64 p" "in64 (p + f)" using b assms(4,5) by (simp_all add: in64_def)
  then show "in64 (d * (s * 2 ^ 8))" "in64 (d * (s * 2 ^ 8) + f)" by (simp_all only: p_def)
  have "p + f \<le> 2 ^ 39 * 2 ^ 24" "- (2 ^ 39) * 2 ^ 24 \<le> p + f"
    using b assms(4,5) by simp_all
  then have "(p + f) div 2 ^ 24 \<le> 2 ^ 39" "- (2 ^ 39) \<le> (p + f) div 2 ^ 24"
    by simp_all
  then have "\<bar>(p + f) div 2 ^ 24\<bar> \<le> 2 ^ 39" by (intro abs_leI) linarith+
  then show "\<bar>(d * (s * 2 ^ 8) + f) div 2 ^ 24\<bar> \<le> 2 ^ 39" by (simp only: p_def)
qed

lemma uint_of_int_mod: "uint (of_int (x mod 2 ^ 24) :: u32) = x mod 2 ^ 24"
proof -
  obtain y where y: "x mod 2 ^ 24 = y" "0 \<le> y" "y < 2 ^ 24" by simp
  then have "y < 2 ^ 32" by simp
  with y show ?thesis by (simp add: uint_word_of_int)
qed

text \<open>One update, without wrap-around of any counter: exact.\<close>

lemma update_time_exact:
  assumes "\<bar>ck_media_time c\<bar> \<le> 2 ^ 62 + 2 ^ 60" and "\<bar>wall_time c\<bar> \<le> 2 ^ 62 + 2 ^ 60"
    and "in32 (ck_scale c * 2 ^ 8)" and "uint (media_time_frac c) < 2 ^ 24"
    and "rtc_at_update c \<le> rtc (ticks c)"
  defines "d \<equiv> uint (rtc (ticks c)) - uint (rtc_at_update c)"
    and "c' \<equiv> mmal_clock_update_local_time_locked rtc c"
  shows "media_position c' = media_position c + d * (ck_scale c * 2 ^ 8)"
    and "wall_time c' = wall_time c + d" and "rtc_at_update c' = rtc (ticks c)"
    and "ticks c' = ticks c + 1" and "uint (media_time_frac c') < 2 ^ 24"
    and "ck_scale c' = ck_scale c"
proof -
  have le: "uint (rtc_at_update c) \<le> uint (rtc (ticks c))" using assms(5) by (simp add: word_le_def)
  have "uint (rtc (ticks c) - rtc_at_update c) = d"
    using le by (simp add: d_def uint_sub_if')
  then have diff: "uint (time_diff (rtc (ticks c)) (rtc_at_update c)) = d"
    using assms(5) by (auto simp: time_diff_def not_less)
  have "uint (rtc (ticks c)) < 2 ^ 32" using uint_lt2p [of "rtc (ticks c)"] by simp
  moreover have "0 \<le> uint (rtc_at_update c)" by simp
  ultimately have d: "0 \<le> d" "d < 2 ^ 32" using le unfolding d_def by linarith+
  define f where "f = uint (media_time_frac c)"
  have f: "0 \<le> f" "f < 2 ^ 24" using assms(4) by (simp_all add: f_def)
  define x where "x = d * (ck_scale c * 2 ^ 8) + f"
  note b = elapsed_bound [OF assms(3) d f, folded x_def]
  have "in64 (ck_media_time c + x div 2 ^ 24)"
    using assms(1) b(3) by (simp add: in64_def abs_le_iff)
  moreover have "in64 (wall_time c + d)"
    using assms(2) d by (simp add: in64_def abs_le_iff)
  moreover have "s64 (s64 (d * s32 (ck_scale c * 2 ^ 8)) + f) = x"
    using b assms(3) by (simp add: range_simps x_def)
  ultimately have c': "ck_media_time c' = ck_media_time c + x div 2 ^ 24"
    "media_time_frac c' = of_int (x mod 2 ^ 24)" "wall_time c' = wall_time c + d"
    "rtc_at_update c' = rtc (ticks c)" "ticks c' = ticks c + 1" "ck_scale c' = ck_scale c"
    unfolding c'_def mmal_clock_update_local_time_locked_def Let_def
    by (simp_all add: diff f_def [symmetric] range_simps)
  then show "wall_time c' = wall_time c + d" "rtc_at_update c' = rtc (ticks c)"
    "ticks c' = ticks c + 1" "ck_scale c' = ck_scale c"
    by simp_all
  show "uint (media_time_frac c') < 2 ^ 24"
    by (simp only: c'(2) uint_of_int_mod) (rule pos_mod_bound, simp)
  have "media_position c' = ck_media_time c * 2 ^ 24 + (x div 2 ^ 24 * 2 ^ 24 + x mod 2 ^ 24)"
    by (simp only: media_position_def c' uint_of_int_mod distrib_right add.assoc)
  then show "media_position c' = media_position c + d * (ck_scale c * 2 ^ 8)"
    by (simp add: media_position_def x_def f_def)
qed

lemma position_bound:
  fixes m m0 f f0 q :: int
  assumes "m * 2 ^ 24 + f = m0 * 2 ^ 24 + f0 + q" and "0 \<le> f" "f < 2 ^ 24" and "0 \<le> f0" "f0 < 2 ^ 24"
    and "\<bar>m0\<bar> \<le> 2 ^ 62" and "in64 q"
  shows "\<bar>m\<bar> \<le> 2 ^ 62 + 2 ^ 60"
  using assms by (simp add: in64_def abs_le_iff)

text \<open>The clock does not drift: over any number of updates with the real-time clock running
  forward, the wall time advances by exactly the time elapsed and the media time, with its 24-bit
  fraction, by exactly that times the scale; the rounding of single updates never accumulates.\<close>

theorem clock_no_drift:
  assumes "time_ok c" and "uint (media_time_frac c) < 2 ^ 24"
    and "rtc_at_update c \<le> rtc (ticks c)"
    and "\<And>i. i < n \<Longrightarrow> rtc (ticks c + i) \<le> rtc (ticks c + i + 1)"
    and "c' = (mmal_clock_update_local_time_locked rtc ^^ (n + 1)) c"
  shows "media_position c' = media_position c
           + (uint (rtc (ticks c + n)) - uint (rtc_at_update c)) * (ck_scale c * 2 ^ 8)
    \<and> wall_time c' = wall_time c + (uint (rtc (ticks c + n)) - uint (rtc_at_update c))"
proof -
  let ?u = "mmal_clock_update_local_time_locked rtc"
  let ?e = "\<lambda>k. uint (rtc (ticks c + k)) - uint (rtc_at_update c)"
  have scale: "in32 (ck_scale c * 2 ^ 8)" using assms(1) by (simp add: time_ok_def)
  have step: "k \<le> n \<Longrightarrow> (let d = (?u ^^ (k + 1)) c in
      media_position d = media_position c + ?e k * (ck_scale c * 2 ^ 8)
      \<and> wall_time d = wall_time c + ?e k \<and> rtc_at_update d = rtc (ticks c + k)
      \<and> ticks d = ticks c + k + 1 \<and> uint (media_time_frac d) < 2 ^ 24
      \<and> ck_scale d = ck_scale c \<and> 0 \<le> ?e k)" for k
  proof (induction k)
    case 0
    have "\<bar>ck_media_time c\<bar> \<le> 2 ^ 62 + 2 ^ 60" "\<bar>wall_time c\<bar> \<le> 2 ^ 62 + 2 ^ 60"
      using assms(1) by (simp_all add: time_ok_def)
    note e = update_time_exact [where rtc = rtc and c = c, OF this scale assms(2,3)]
    show ?case using e assms(3) by (simp add: Let_def word_le_def)
  next
    case (Suc k)
    define d where "d = (?u ^^ (k + 1)) c"
    have d: "media_position d = media_position c + ?e k * (ck_scale c * 2 ^ 8)"
      "wall_time d = wall_time c + ?e k" "rtc_at_update d = rtc (ticks c + k)"
      "ticks d = ticks c + k + 1" "uint (media_time_frac d) < 2 ^ 24" "ck_scale d = ck_scale c"
      "0 \<le> ?e k"
      using Suc by (simp_all add: d_def Let_def)
    have "uint (rtc (ticks c + k)) < 2 ^ 32" using uint_lt2p [of "rtc (ticks c + k)"] by simp
    moreover have "0 \<le> uint (rtc_at_update c)" by simp
    ultimately have e: "0 \<le> ?e k" "?e k < 2 ^ 32" using d(7) by linarith+
    define q where "q = ?e k * (ck_scale c * 2 ^ 8)"
    have q: "in64 q" unfolding q_def
      by (rule elapsed_bound(1) [OF scale e, of 0]) simp_all
    have eq: "ck_media_time d * 2 ^ 24 + uint (media_time_frac d)
        = ck_media_time c * 2 ^ 24 + uint (media_time_frac c) + q"
      using d(1) by (simp only: media_position_def q_def)
    have "\<bar>ck_media_time c\<bar> \<le> 2 ^ 62" using assms(1) by (simp add: time_ok_def)
    then have b1: "\<bar>ck_media_time d\<bar> \<le> 2 ^ 62 + 2 ^ 60"
      using position_bound [OF eq _ d(5) _ assms(2) _ q] by simp
    have b2: "\<bar>wall_time d\<bar> \<le> 2 ^ 62 + 2 ^ 60"
      using d(2) e assms(1) by (simp add: time_ok_def abs_le_iff)
    have b3: "in32 (ck_scale d * 2 ^ 8)" using scale d(6) by simp
    have le: "rtc_at_update d \<le> rtc (ticks d)"
      using assms(4) [of k] Suc.prems d(3,4) by (simp add: add.commute)
    note x = update_time_exact [where rtc = rtc and c = d, OF b1 b2 b3 d(5) le]
    have "(?u ^^ (Suc k + 1)) c = ?u d" by (simp add: d_def)
    moreover have "?e (Suc k) = ?e k + (uint (rtc (ticks d)) - uint (rtc_at_update d))"
      by (simp add: d)
    moreover have "uint (rtc_at_update d) \<le> uint (rtc (ticks d))" using le by (simp add: word_le_def)
    ultimately show ?case using x d by (simp add: Let_def algebra_simps)
  qed
  show ?thesis using step [of n] assms(5) by (simp add: Let_def)
qed

definition demo_time :: clock where
  "demo_time = zero_clock\<lparr>ck_scale := 49152, rtc_at_update := 1000\<rparr>"

theorem clock_no_drift_witness:
  "wall_time ((mmal_clock_update_local_time_locked (\<lambda>i. of_nat (1001 + i)) ^^ 41) demo_time) = 41"
  using clock_no_drift [of demo_time "\<lambda>i. of_nat (1001 + i)" 40, OF _ _ _ _ refl]
  by (simp add: demo_time_def zero_clock_def time_ok_def in32_def word_le_nat_alt unat_of_nat
      uint_nat unat_word_ariths)

subsection \<open>Following a reference\<close>

text \<open>The weighted moving average stays between its old value and the new difference.\<close>

lemma average_bound:
  fixes a d l :: int
  assumes "\<bar>a\<bar> \<le> l" and "\<bar>d\<bar> \<le> l" and "l \<le> 2 ^ 56"
  shows "\<bar>moving_average a d\<bar> \<le> l"
proof -
  have "in64 (a * 2 ^ 6)" "in64 (a * 2 ^ 6 - a)" "in64 (a * 2 ^ 6 - a + d)"
    using assms by (simp_all add: in64_def abs_le_iff)
  then have m: "moving_average a d = (63 * a + d) div 64" by (simp add: moving_average_def s64_in)
  have "63 * a + d \<le> l * 64" "- l * 64 \<le> 63 * a + d" using assms by (auto simp: abs_le_iff)
  then have "(63 * a + d) div 64 \<le> l" "- l \<le> (63 * a + d) div 64" by linarith+
  then show ?thesis unfolding m by (intro abs_leI) linarith+
qed



text \<open>The 32-bit microsecond counter wraps around every 71 minutes, and an update across the
  wrap-around counts no time at all: neither the wall time nor the media time moves, although
  \<open>time_now - rtc_at_update\<close> modulo \<open>2 ^ 32\<close> is the time that really elapsed.\<close>

theorem clock_counter_wrap_loses_time:
  assumes "rtc (ticks c) < rtc_at_update c" and "time_ok c" and "uint (media_time_frac c) < 2 ^ 24"
  shows "(let c' = mmal_clock_update_local_time_locked rtc c in
    wall_time c' = wall_time c \<and> media_position c' = media_position c
    \<and> rtc_at_update c' = rtc (ticks c)) \<and> rtc (ticks c) - rtc_at_update c \<noteq> 0"
proof -
  have t: "time_diff (rtc (ticks c)) (rtc_at_update c) = 0"
    using assms(1) by (auto simp: time_diff_def dest: less_asym)
  define f where "f = uint (media_time_frac c)"
  have f: "0 \<le> f" "f < 2 ^ 24" using assms(3) by (simp_all add: f_def)
  then have fs: "s64 f = f" "f div 16777216 = 0" "f mod 16777216 = f"
    by (simp_all add: s64_in in64_def)
  have z: "s64 0 = 0" by (simp add: s64_def)
  have "s64 (wall_time c) = wall_time c" "s64 (ck_media_time c) = ck_media_time c"
    using assms(2) by (simp_all add: time_ok_def s64_in in64_def abs_le_iff)
  then have "wall_time (mmal_clock_update_local_time_locked rtc c) = wall_time c"
    "ck_media_time (mmal_clock_update_local_time_locked rtc c) = ck_media_time c"
    "media_time_frac (mmal_clock_update_local_time_locked rtc c) = of_int f"
    "rtc_at_update (mmal_clock_update_local_time_locked rtc c) = rtc (ticks c)"
    by (simp_all add: mmal_clock_update_local_time_locked_def Let_def t f_def [symmetric] fs z)
  moreover have "of_int f = media_time_frac c" by (simp add: f_def)
  ultimately show ?thesis
    using assms(1) by (auto simp: Let_def media_position_def)
qed

theorem clock_counter_wrap_loses_time_witness:
  "wall_time (mmal_clock_update_local_time_locked (\<lambda>_. 500) demo_time) = wall_time demo_time"
  using clock_counter_wrap_loses_time [of "\<lambda>_. 500" demo_time]
  by (simp add: demo_time_def zero_clock_def time_ok_def in32_def Let_def)

end
