(* ===== verification/ClockRequests.thy ===== *)
theory ClockRequests
  imports Clock
begin

text \<open>
  core/mmal_clock.c, second part: client requests. The 32 slots are on one of two lists,
  \<open>list_free\<close> and \<open>list_pending\<close>; the pending list is ordered by the adjusted media time, and the
  worker thread fires the requests whose time has come. The operations on the lists are those of
  MmalList, and the proofs rest on its contract (interpretation \<open>ml\<close>).

  \<open>None\<close> is a crash (NULL or freed list) or a loop that does not end.
\<close>

subsection \<open>List operations of a clock\<close>

definition pop_pending :: "clock \<Rightarrow> (ptr \<times> clock) option" where
  "pop_pending c = map_option (\<lambda>p.
     let (r, p, h) = mmal_list_pop_front p (links c)
     in (r, c\<lparr>list_pending := ListLive p, links := h\<rparr>)) (live (list_pending c))"

definition pop_free :: "clock \<Rightarrow> (ptr \<times> clock) option" where
  "pop_free c = map_option (\<lambda>f.
     let (r, f, h) = mmal_list_pop_front f (links c)
     in (r, c\<lparr>list_free := ListLive f, links := h\<rparr>)) (live (list_free c))"

text \<open>\<open>mmal_list_push_back(free, &request->link)\<close>.\<close>

definition recycle :: "addr \<Rightarrow> clock \<Rightarrow> clock option" where
  "recycle a c = map_option (\<lambda>f.
     let (f, h) = mmal_list_push_back f (links c) a
     in c\<lparr>list_free := ListLive f, links := h\<rparr>) (live (list_free c))"

text \<open>\<open>request->cb(&private->clock, media_time, request->cb_data, request->priv)\<close>.\<close>

definition fire :: "addr \<Rightarrow> int \<Rightarrow> clock \<Rightarrow> clock" where
  "fire a media_time c = c\<lparr>fired := fired c @
     [\<lparr>f_cb = rq_cb (reqs c a), f_time = media_time, f_data = rq_cb_data (reqs c a),
       f_priv = rq_priv (reqs c a)\<rparr>]\<rparr>"

subsection \<open>Inserting, flushing\<close>

definition mmal_clock_request_compare_pos :: "clock \<Rightarrow> addr \<Rightarrow> addr \<Rightarrow> bool" where
  "mmal_clock_request_compare_pos c lhs rhs \<longleftrightarrow>
     media_time_adj (reqs c lhs) < media_time_adj (reqs c rhs)"

definition mmal_clock_request_compare_neg :: "clock \<Rightarrow> addr \<Rightarrow> addr \<Rightarrow> bool" where
  "mmal_clock_request_compare_neg c lhs rhs \<longleftrightarrow>
     media_time_adj (reqs c lhs) > media_time_adj (reqs c rhs)"

definition mmal_clock_request_insert :: "addr \<Rightarrow> clock \<Rightarrow> (bool \<times> clock) option" where
  "mmal_clock_request_insert request c = do {
     list \<leftarrow> live (list_pending c);
     if stop_thread c then Some (False, c)
     else if l_length list = 0 then
       let (l, h) = mmal_list_push_front list (links c) request
       in Some (True, c\<lparr>list_pending := ListLive l, links := h\<rparr>)
     else do {
       pending \<leftarrow> l_last list;
       let adj = media_time_adj (reqs c request);
       let last_adj = media_time_adj (reqs c pending);
       if ck_scale c \<ge> 0 \<and> adj \<ge> last_adj \<or> ck_scale c < 0 \<and> adj \<le> last_adj then
         let (l, h) = mmal_list_push_back list (links c) request
         in Some (True, c\<lparr>list_pending := ListLive l, links := h\<rparr>)
       else do {
         (l, h) \<leftarrow> mmal_list_insert list (links c) request
           (if ck_scale c \<ge> 0 then mmal_clock_request_compare_pos c
            else mmal_clock_request_compare_neg c);
         Some (True, c\<lparr>list_pending := ListLive l, links := h\<rparr>)
       }
     }
   }"

text \<open>The \<open>while\<close> loop of \<open>mmal_clock_request_flush_locked\<close>.\<close>

partial_function (option) flush_loop :: "int \<Rightarrow> clock \<Rightarrow> clock option" where
  "flush_loop media_time c = Option.bind (pop_pending c)
     (\<lambda>x. if fst x = None then Some (snd x)
          else Option.bind (recycle (the (fst x)) (fire (the (fst x)) media_time (snd x)))
                 (flush_loop media_time))"

definition mmal_clock_request_flush_locked :: "int \<Rightarrow> clock \<Rightarrow> (mmal_status \<times> clock) option" where
  "mmal_clock_request_flush_locked media_time c = do {
     c \<leftarrow> flush_loop media_time c;
     Some (MMAL_SUCCESS, c\<lparr>media_time_at_timer := 0\<rparr>)
   }"

subsection \<open>Processing\<close>

definition abs_value :: "int \<Rightarrow> int" where
  "abs_value v = (if v < 0 then s64 (- v) else v)"

text \<open>The condition under which the loop of \<open>mmal_clock_process_requests\<close> fires a request.\<close>

definition request_due :: "clock \<Rightarrow> int \<Rightarrow> addr \<Rightarrow> bool" where
  "request_due c media_time_now next \<longleftrightarrow>
     discont_expiry c \<noteq> 0 \<and> media_time_adj (reqs c next) \<ge> discont_start c
       \<and> media_time_adj (reqs c next) < discont_end c
     \<or> ck_scale c > 0 \<and> s64 (media_time_now + MIN_TIMER_DELAY) \<ge> media_time_adj (reqs c next)
     \<or> ck_scale c < 0 \<and> s64 (media_time_now - MIN_TIMER_DELAY) \<le> media_time_adj (reqs c next)"

text \<open>Its other branch: the request goes back to the front and the timer is set.\<close>

definition reschedule :: "addr \<Rightarrow> int \<Rightarrow> clock \<Rightarrow> clock option" where
  "reschedule next media_time_now c =
     (let media_time_delay = abs_value (s64 (media_time_now - media_time_adj (reqs c next)));
          wall_time_delay = abs_value (s64 (scale_inv c * media_time_delay) div 2 ^ 16);
          wall_time_delay = (if ck_scale c = 0 then CLOCK_WAIT_TIME else wall_time_delay)
      in map_option (\<lambda>p.
           let (p, h) = mmal_list_push_front p (links c) next;
               c = c\<lparr>list_pending := ListLive p, links := h\<rparr>;
               c = c\<lparr>media_time_at_timer := media_time_now\<rparr>
           in mmal_clock_timer_set wall_time_delay c) (live (list_pending c)))"

definition expire_discontinuity :: "clock \<Rightarrow> clock" where
  "expire_discontinuity c =
     (if discont_expiry c \<noteq> 0 \<and> wall_time c > discont_expiry c then c\<lparr>discont_expiry := 0\<rparr> else c)"

partial_function (option) service_loop :: "rtc \<Rightarrow> ptr \<Rightarrow> clock \<Rightarrow> clock option" where
  "service_loop rtc next c =
     (if next = None then Some c
      else
        let t = mmal_clock_media_time_get_locked rtc c;
            c = expire_discontinuity (snd t)
        in
          if request_due c (fst t) (the next) then
            Option.bind (recycle (the next) (fire (the next) (fst t) c))
              (\<lambda>c. Option.bind (pop_pending c) (\<lambda>x. service_loop rtc (fst x) (snd x)))
          else reschedule (the next) (fst t) c)"

definition detect_discontinuity :: "rtc \<Rightarrow> clock \<Rightarrow> clock option" where
  "detect_discontinuity rtc c =
     (if media_time_at_timer c \<noteq> 0 then
        let (media_time_now, c) = mmal_clock_media_time_get_locked rtc c in
        if ck_scale c > 0
           \<and> s64 (media_time_now + discont_threshold c) < media_time_at_timer c
        then
          let c = c\<lparr>discont_start := media_time_at_timer c\<rparr>;
              c = c\<lparr>discont_end := s64 (discont_start c + discont_duration c)\<rparr>;
              c = c\<lparr>discont_expiry := s64 (wall_time c + discont_duration c)\<rparr>
          in map_option snd (mmal_clock_request_flush_locked media_time_now c)
        else Some c
      else Some c)"

definition mmal_clock_process_requests :: "rtc \<Rightarrow> clock \<Rightarrow> clock option" where
  "mmal_clock_process_requests rtc c = do {
     pending \<leftarrow> live (list_pending c);
     if l_length pending = 0 \<or> \<not> is_active c then Some c
     else do {
       c \<leftarrow> detect_discontinuity rtc c;
       (next, c) \<leftarrow> pop_pending c;
       service_loop rtc next c
     }
   }"

text \<open>One round of the worker: it waits for the event; the Boolean says that it exits.\<close>

datatype worker_round = WorkerWaits | WorkerRan bool clock

definition mmal_clock_worker_thread :: "rtc \<Rightarrow> clock \<Rightarrow> worker_round option" where
  "mmal_clock_worker_thread rtc c =
     (if ck_event c = 0 then Some WorkerWaits
      else
        let c = c\<lparr>ck_event := ck_event c - 1\<rparr>;
            c = mmal_clock_timer_cancel c
        in
          if stop_thread c then Some (WorkerRan True c)
          else map_option (WorkerRan False) (mmal_clock_process_requests rtc c))"

subsection \<open>Creating and destroying the scheduling objects\<close>

text \<open>Which of the creations succeed.\<close>

record sched_env =
  timer_ok :: bool
  semaphore_ok :: bool
  free_list_ok :: bool
  pending_list_ok :: bool
  thread_ok :: bool

definition as_ptr :: "mmal_list option \<Rightarrow> list_ptr" where
  "as_ptr l = (case l of None \<Rightarrow> ListNull | Some l \<Rightarrow> ListLive l)"

text \<open>\<open>if (list) mmal_list_destroy(list)\<close>; the pointer keeps its value.\<close>

definition destroy_list :: "list_ptr \<Rightarrow> list_ptr option" where
  "destroy_list p = (if p = ListNull then Some ListNull else mmal_list_destroy p)"

text \<open>The code behind the label \<open>error\<close>; the semaphore and the timer are deleted if created.\<close>

definition scheduling_error :: "clock \<Rightarrow> (mmal_status \<times> clock) option" where
  "scheduling_error c = do {
     f \<leftarrow> destroy_list (list_free c);
     p \<leftarrow> destroy_list (list_pending c);
     Some (MMAL_ENOSPC, c\<lparr>list_free := f, list_pending := p, ck_event := 0, ck_timer := None\<rparr>)
   }"

definition push_slot :: "clock \<Rightarrow> addr \<Rightarrow> clock" where
  "push_slot c i = (case recycle i c of Some c \<Rightarrow> c | None \<Rightarrow> c)"

definition mmal_clock_create_scheduling :: "sched_env \<Rightarrow> clock \<Rightarrow> (mmal_status \<times> clock) option" where
  "mmal_clock_create_scheduling e c =
     (if \<not> timer_ok e then scheduling_error c
      else if \<not> semaphore_ok e then scheduling_error c
      else
        let c = c\<lparr>ck_event := 0\<rparr>;
            c = c\<lparr>list_free := as_ptr (mmal_list_create (free_list_ok e) True)\<rparr>;
            c = c\<lparr>list_pending := as_ptr (mmal_list_create (pending_list_ok e) True)\<rparr>
        in
          if list_free c = ListNull \<or> list_pending c = ListNull then scheduling_error c
          else
            let c = foldl push_slot c [0..<CLOCK_REQUEST_SLOTS] in
            if \<not> thread_ok e then scheduling_error c
            else Some (MMAL_SUCCESS, c\<lparr>scheduling := True\<rparr>))"

text \<open>Joining the worker: it takes its event, sees \<open>stop_thread\<close> and exits.\<close>

definition mmal_clock_stop_thread :: "rtc \<Rightarrow> clock \<Rightarrow> clock option" where
  "mmal_clock_stop_thread rtc c = do {
     let c = c\<lparr>stop_thread := True\<rparr>;
     let c = mmal_clock_wake_thread c;
     r \<leftarrow> mmal_clock_worker_thread rtc c;
     case r of WorkerRan True c \<Rightarrow> Some c | _ \<Rightarrow> None
   }"

subsection \<open>Public operations\<close>

text \<open>The second half of \<open>mmal_clock_request_add\<close>: take a slot, fill it, insert it.\<close>

definition add_request :: "int \<Rightarrow> nat \<Rightarrow> ptr \<Rightarrow> ptr \<Rightarrow> clock \<Rightarrow> (mmal_status \<times> clock) option" where
  "add_request media_time cb cb_data priv c = do {
     (request, c) \<leftarrow> pop_free c;
     case request of
       None \<Rightarrow> Some (MMAL_ENOSPC, c)
     | Some a \<Rightarrow> do {
         let c = c\<lparr>reqs := (reqs c)(a := \<lparr>rq_priv = priv, rq_cb = cb, rq_cb_data = cb_data,
               rq_media_time = media_time,
               media_time_adj = s64 (media_time
                 - s32 (ck_scale c * CLOCK_TARGET_OFFSET) div 2 ^ 16)\<rparr>)\<rparr>;
         (inserted, c) \<leftarrow> mmal_clock_request_insert a c;
         Some (MMAL_SUCCESS,
           if inserted \<and> is_active c then mmal_clock_wake_thread c else c)
       }
   }"

definition mmal_clock_request_add ::
    "rtc \<Rightarrow> sched_env \<Rightarrow> int \<Rightarrow> nat \<Rightarrow> ptr \<Rightarrow> ptr \<Rightarrow> clock \<Rightarrow> (mmal_status \<times> clock) option" where
  "mmal_clock_request_add rtc e media_time cb cb_data priv c =
     (let (media_time_now, c) = mmal_clock_media_time_get_locked rtc c in
      if request_threshold_enable c \<and> media_time > s64 (media_time_now + request_threshold c)
      then Some (MMAL_ECORRUPT, c)
      else do {
        (st, c) \<leftarrow> (if \<not> scheduling c then mmal_clock_create_scheduling e c
                     else Some (MMAL_SUCCESS, c));
        if st \<noteq> MMAL_SUCCESS then Some (MMAL_ENOSPC, c)
        else add_request media_time cb cb_data priv c
      })"

definition mmal_clock_request_flush :: "clock \<Rightarrow> (mmal_status \<times> clock) option" where
  "mmal_clock_request_flush c =
     (if scheduling c
      then map_option (\<lambda>(_, c). (MMAL_SUCCESS, c))
             (mmal_clock_request_flush_locked MMAL_TIME_UNKNOWN c)
      else Some (MMAL_SUCCESS, c))"

definition mmal_clock_destroy_scheduling :: "rtc \<Rightarrow> clock \<Rightarrow> clock option" where
  "mmal_clock_destroy_scheduling rtc c = do {
     c \<leftarrow> mmal_clock_stop_thread rtc c;
     (_, c) \<leftarrow> mmal_clock_request_flush c;
     f \<leftarrow> mmal_list_destroy (list_free c);
     p \<leftarrow> mmal_list_destroy (list_pending c);
     Some (c\<lparr>list_free := f, list_pending := p, ck_event := 0, ck_timer := None\<rparr>)
   }"

text \<open>The result is the clock's last content before its memory is freed.\<close>

definition mmal_clock_destroy :: "rtc \<Rightarrow> clock \<Rightarrow> (mmal_status \<times> clock) option" where
  "mmal_clock_destroy rtc c = do {
     c \<leftarrow> (if scheduling c then mmal_clock_destroy_scheduling rtc c else Some c);
     Some (MMAL_SUCCESS, c)
   }"

subsection \<open>The two lists as sequences\<close>

text \<open>The free slots are \<open>fs\<close> and the pending ones \<open>ps\<close>, in the order of the lists.\<close>

definition clock_lists :: "clock \<Rightarrow> addr list \<Rightarrow> addr list \<Rightarrow> bool" where
  "clock_lists c fs ps \<longleftrightarrow> (\<exists>f p. list_free c = ListLive f \<and> list_pending c = ListLive p
     \<and> ml.two_lists (links c) f fs p ps)"

text \<open>The clock without its lists, and without its lists and log.\<close>

definition core :: "clock \<Rightarrow> clock" where
  "core c = c\<lparr>list_free := ListNull, list_pending := ListNull,
     links := (\<lambda>_. \<lparr>lnext = None, lprev = None\<rparr>)\<rparr>"

definition quiet :: "clock \<Rightarrow> clock" where
  "quiet c = (core c)\<lparr>fired := []\<rparr>"

lemma core_fields:
  assumes "core c = core c'"
  shows "reqs c = reqs c'" "ck_scale c = ck_scale c'" "scheduling c = scheduling c'"
    "stop_thread c = stop_thread c'" "is_active c = is_active c'" "fired c = fired c'"
    "quiet c = quiet c'" "ck_event c = ck_event c'"
  using assms [THEN arg_cong [where f = reqs]] assms [THEN arg_cong [where f = ck_scale]]
    assms [THEN arg_cong [where f = scheduling]] assms [THEN arg_cong [where f = stop_thread]]
    assms [THEN arg_cong [where f = is_active]] assms [THEN arg_cong [where f = fired]]
    assms [THEN arg_cong [where f = ck_event]] assms
  by (simp_all add: core_def quiet_def)

lemma quiet_fields:
  assumes "quiet c = quiet c'"
  shows "reqs c = reqs c'" "ck_scale c = ck_scale c'" "scheduling c = scheduling c'"
    "stop_thread c = stop_thread c'" "is_active c = is_active c'"
    "discont_expiry c = discont_expiry c'" "discont_start c = discont_start c'"
    "discont_end c = discont_end c'"
  using assms [THEN arg_cong [where f = reqs]] assms [THEN arg_cong [where f = ck_scale]]
    assms [THEN arg_cong [where f = scheduling]] assms [THEN arg_cong [where f = stop_thread]]
    assms [THEN arg_cong [where f = is_active]] assms [THEN arg_cong [where f = discont_expiry]]
    assms [THEN arg_cong [where f = discont_start]] assms [THEN arg_cong [where f = discont_end]]
  by (simp_all add: core_def quiet_def)

lemma clock_lists_distinct:
  "clock_lists c fs ps \<Longrightarrow> distinct fs \<and> distinct ps \<and> set fs \<inter> set ps = {}"
  by (auto simp: clock_lists_def ml.two_lists_def dll_def)

lemma clock_lists_live:
  "clock_lists c fs ps \<Longrightarrow>
   \<exists>f p. live (list_free c) = Some f \<and> live (list_pending c) = Some p"
  by (auto simp: clock_lists_def)

lemma pop_pending_nil: "clock_lists c fs [] \<Longrightarrow> pop_pending c = Some (None, c)"
  by (auto simp: clock_lists_def ml.two_lists_def pop_pending_def pop_front_nil)

lemma pop_pending_cons:
  assumes "clock_lists c fs (x # ps)"
  obtains c' where "pop_pending c = Some (Some x, c')" and "clock_lists c' fs ps"
    and "core c' = core c" and "x \<notin> set fs" and "x \<notin> set ps"
proof -
  obtain f p where c: "list_free c = ListLive f" "list_pending c = ListLive p"
      "ml.two_lists (links c) p (x # ps) f fs"
    using assms ml.two_lists_sym by (auto simp: clock_lists_def)
  obtain p' h where *: "mmal_list_pop_front p (links c) = (Some x, p', h)"
      "ml.two_lists h p' ps f fs" "x \<notin> set ps" "x \<notin> set fs"
    using c(3) by (rule ml.two_lists_pop)
  show thesis
    by (rule that [of "c\<lparr>list_pending := ListLive p', links := h\<rparr>"])
      (use * c ml.two_lists_sym in \<open>auto simp: pop_pending_def clock_lists_def core_def\<close>)
qed

lemma pop_free_nil: "clock_lists c [] ps \<Longrightarrow> pop_free c = Some (None, c)"
  by (auto simp: clock_lists_def ml.two_lists_def pop_free_def pop_front_nil)

lemma pop_free_cons:
  assumes "clock_lists c (x # fs) ps"
  obtains c' where "pop_free c = Some (Some x, c')" and "clock_lists c' fs ps"
    and "core c' = core c" and "x \<notin> set fs" and "x \<notin> set ps"
proof -
  obtain f p where c: "list_free c = ListLive f" "list_pending c = ListLive p"
      "ml.two_lists (links c) f (x # fs) p ps"
    using assms by (auto simp: clock_lists_def)
  obtain f' h where *: "mmal_list_pop_front f (links c) = (Some x, f', h)"
      "ml.two_lists h f' fs p ps" "x \<notin> set fs" "x \<notin> set ps"
    using c(3) by (rule ml.two_lists_pop)
  show thesis
    by (rule that [of "c\<lparr>list_free := ListLive f', links := h\<rparr>"])
      (use * c in \<open>auto simp: pop_free_def clock_lists_def core_def\<close>)
qed

lemma recycle_lists:
  assumes "clock_lists c fs ps" and "x \<notin> set fs" and "x \<notin> set ps"
  obtains c' where "recycle x c = Some c'" and "clock_lists c' (fs @ [x]) ps" and "core c' = core c"
proof -
  obtain f p where c: "list_free c = ListLive f" "list_pending c = ListLive p"
      "ml.two_lists (links c) p ps f fs"
    using assms ml.two_lists_sym by (auto simp: clock_lists_def)
  obtain f' h where *: "mmal_list_push_back f (links c) x = (f', h)" "ml.two_lists h p ps f' (fs @ [x])"
    using c(3) assms(3,2) by (rule ml.two_lists_push_back)
  show thesis
    by (rule that [of "c\<lparr>list_free := ListLive f', links := h\<rparr>"])
      (use * c ml.two_lists_sym in \<open>auto simp: recycle_def clock_lists_def core_def\<close>)
qed

lemma clock_lists_other [simp]:
  "clock_lists (fire a t c) fs ps = clock_lists c fs ps"
  "clock_lists (c\<lparr>reqs := r\<rparr>) fs ps = clock_lists c fs ps"
  "clock_lists (c\<lparr>media_time_at_timer := i\<rparr>) fs ps = clock_lists c fs ps"
  "clock_lists (mmal_clock_timer_set i c) fs ps = clock_lists c fs ps"
  "clock_lists (mmal_clock_timer_cancel c) fs ps = clock_lists c fs ps"
  "clock_lists (mmal_clock_wake_thread c) fs ps = clock_lists c fs ps"
  "clock_lists (expire_discontinuity c) fs ps = clock_lists c fs ps"
  "clock_lists (mmal_clock_update_local_time_locked rtc c) fs ps = clock_lists c fs ps"
  by (simp_all add: clock_lists_def fire_def mmal_clock_timer_set_def mmal_clock_timer_cancel_def
      mmal_clock_wake_thread_def expire_discontinuity_def mmal_clock_update_local_time_locked_def
      Let_def)

subsection \<open>Flushing\<close>

text \<open>The log entry for request \<open>a\<close> fired at media time \<open>t\<close>.\<close>

definition entry :: "(addr \<Rightarrow> clock_request) \<Rightarrow> int \<Rightarrow> addr \<Rightarrow> fired_request" where
  "entry r t a = \<lparr>f_cb = rq_cb (r a), f_time = t, f_data = rq_cb_data (r a), f_priv = rq_priv (r a)\<rparr>"

lemma fire_fields [simp]:
  "fired (fire a t c) = fired c @ [entry (reqs c) t a]" "quiet (fire a t c) = quiet c"
  "reqs (fire a t c) = reqs c"
  by (simp_all add: fire_def entry_def quiet_def core_def)

lemma flush_loop_all:
  "clock_lists c fs ps \<Longrightarrow> \<exists>c'. flush_loop t c = Some c' \<and> clock_lists c' (fs @ ps) []
     \<and> fired c' = fired c @ map (entry (reqs c) t) ps \<and> quiet c' = quiet c"
proof (induction ps arbitrary: c fs)
  case Nil
  then show ?case by (subst flush_loop.simps) (simp add: pop_pending_nil)
next
  case (Cons x ps)
  obtain c1 where 1: "pop_pending c = Some (Some x, c1)" "clock_lists c1 fs ps" "core c1 = core c"
      "x \<notin> set fs" "x \<notin> set ps"
    using Cons.prems by (rule pop_pending_cons)
  have "clock_lists (fire x t c1) fs ps" using 1(2) by simp
  then obtain c2 where 2: "recycle x (fire x t c1) = Some c2" "clock_lists c2 (fs @ [x]) ps"
      "core c2 = core (fire x t c1)"
    using 1(4,5) by (rule recycle_lists)
  obtain c3 where 3: "flush_loop t c2 = Some c3" "clock_lists c3 ((fs @ [x]) @ ps) []"
      "fired c3 = fired c2 @ map (entry (reqs c2) t) ps" "quiet c3 = quiet c2"
    using Cons.IH [OF 2(2)] by blast
  have "flush_loop t c = Some c3"
    using 1(1) 2(1) 3(1) by (subst flush_loop.simps) simp
  moreover have "fired c2 = fired c @ [entry (reqs c) t x]" "reqs c2 = reqs c" "quiet c2 = quiet c"
    using core_fields [OF 2(3)] core_fields [OF 1(3)] by simp_all
  ultimately show ?case using 3 by simp
qed

subsection \<open>Servicing\<close>

text \<open>When a request is due by its time, whatever discontinuity is in effect.\<close>

definition on_time :: "clock \<Rightarrow> int \<Rightarrow> addr \<Rightarrow> bool" where
  "on_time c t a \<longleftrightarrow> ck_scale c > 0 \<and> s64 (t + MIN_TIMER_DELAY) \<ge> media_time_adj (reqs c a)
     \<or> ck_scale c < 0 \<and> s64 (t - MIN_TIMER_DELAY) \<le> media_time_adj (reqs c a)"

lemma request_due_on_time: "discont_expiry c = 0 \<Longrightarrow> request_due c t a \<longleftrightarrow> on_time c t a"
  by (simp add: request_due_def on_time_def)

text \<open>What neither the passing of time nor the lists change.\<close>

definition settings :: "clock \<Rightarrow> (addr \<Rightarrow> clock_request) \<times> int \<times> bool \<times> bool \<times> bool" where
  "settings c = (reqs c, ck_scale c, scheduling c, stop_thread c, is_active c)"

lemma settings_time [simp]:
  "settings (mmal_clock_update_local_time_locked rtc c) = settings c"
  "settings (expire_discontinuity c) = settings c" "settings (fire a t c) = settings c"
  "fired (mmal_clock_update_local_time_locked rtc c) = fired c"
  "fired (expire_discontinuity c) = fired c"
  "ck_media_time (expire_discontinuity c) = ck_media_time c"
  "discont_expiry (mmal_clock_update_local_time_locked rtc c) = discont_expiry c"
  "media_time_at_timer (mmal_clock_update_local_time_locked rtc c) = media_time_at_timer c"
  "discont_threshold (mmal_clock_update_local_time_locked rtc c) = discont_threshold c"
  "discont_duration (mmal_clock_update_local_time_locked rtc c) = discont_duration c"
  "ck_scale (mmal_clock_update_local_time_locked rtc c) = ck_scale c"
  by (simp_all add: settings_def mmal_clock_update_local_time_locked_def Let_def fire_def
      expire_discontinuity_def)

lemma expiry_zero: "discont_expiry c = 0 \<Longrightarrow> expire_discontinuity c = c"
  by (simp add: expire_discontinuity_def)

lemma settings_core: "core c = core c' \<Longrightarrow> settings c = settings c'"
  using core_fields [of c c'] by (simp add: settings_def)

lemma settings_quiet: "quiet c = quiet c' \<Longrightarrow> settings c = settings c'"
  using quiet_fields [of c c'] by (simp add: settings_def)

lemma on_time_settings: "settings c = settings c' \<Longrightarrow> on_time c = on_time c'"
  by (simp add: settings_def on_time_def fun_eq_iff)

lemma reqs_settings: "settings c = settings c' \<Longrightarrow> reqs c = reqs c'"
  by (simp add: settings_def)

lemma update_time_in64: "in64 (ck_media_time (mmal_clock_update_local_time_locked rtc c))"
  by (simp add: mmal_clock_update_local_time_locked_def Let_def)

lemma reschedule_lists:
  assumes "clock_lists c fs ps" and "x \<notin> set fs" and "x \<notin> set ps"
  obtains c' where "reschedule x t c = Some c'" and "clock_lists c' fs (x # ps)"
    and "settings c' = settings c" and "fired c' = fired c" and "ck_timer c' \<noteq> None"
    and "ck_media_time c' = ck_media_time c" and "discont_expiry c' = discont_expiry c"
    and "\<And>a. request_due c' t a = request_due c t a"
proof -
  obtain f p where c: "list_free c = ListLive f" "list_pending c = ListLive p"
      "ml.two_lists (links c) p ps f fs"
    using assms ml.two_lists_sym by (auto simp: clock_lists_def)
  obtain p' h where *: "mmal_list_push_front p (links c) x = (p', h)" "ml.two_lists h p' (x # ps) f fs"
    using c(3) assms(3,2) by (rule ml.two_lists_push_front)
  define d where "d = (let media_time_delay = abs_value (s64 (t - media_time_adj (reqs c x)));
          wall_time_delay = abs_value (s64 (scale_inv c * media_time_delay) div 2 ^ 16)
      in if ck_scale c = 0 then CLOCK_WAIT_TIME else wall_time_delay)"
  have "reschedule x t c = Some (mmal_clock_timer_set d (c\<lparr>list_pending := ListLive p', links := h,
      media_time_at_timer := t\<rparr>))"
    by (simp add: reschedule_def c *(1) d_def Let_def)
  then show thesis
    by (rule that) (use c(1) *(2) ml.two_lists_sym in
      \<open>auto simp: clock_lists_def settings_def mmal_clock_timer_set_def request_due_def\<close>)
qed

lemma service_loop_None [simp]: "service_loop rtc None c = Some c"
  by (subst service_loop.simps) simp

lemma service_step:
  assumes "clock_lists c fs ps" and "x \<notin> set fs" and "x \<notin> set ps"
  obtains (fire) c' t where
    "service_loop rtc (Some x) c
       = Option.bind (pop_pending c') (\<lambda>y. service_loop rtc (fst y) (snd y))"
    "clock_lists c' (fs @ [x]) ps" "settings c' = settings c"
    "fired c' = fired c @ [entry (reqs c) t x]" "in64 t"
    "discont_expiry c = 0 \<Longrightarrow> on_time c t x \<and> discont_expiry c' = 0"
  | (wait) c' where
    "service_loop rtc (Some x) c = Some c'" "clock_lists c' fs (x # ps)" "settings c' = settings c"
    "fired c' = fired c" "ck_timer c' \<noteq> None" "\<not> request_due c' (ck_media_time c') x"
proof -
  define c0 where "c0 = mmal_clock_update_local_time_locked rtc c"
  define c1 where "c1 = expire_discontinuity c0"
  define t where "t = ck_media_time c0"
  have l: "clock_lists c1 fs ps" and s: "settings c1 = settings c" "fired c1 = fired c"
    "ck_media_time c1 = t" and t: "in64 t"
    using assms(1) by (simp_all add: c1_def c0_def t_def update_time_in64)
  have unfold: "service_loop rtc (Some x) c = (if request_due c1 t x
      then Option.bind (recycle x (fire x t c1))
        (\<lambda>c. Option.bind (pop_pending c) (\<lambda>y. service_loop rtc (fst y) (snd y)))
      else reschedule x t c1)"
    by (subst service_loop.simps)
      (simp add: mmal_clock_media_time_get_locked_def Let_def c1_def c0_def t_def)
  show thesis
  proof (cases "request_due c1 t x")
    case True
    have "clock_lists (ClockRequests.fire x t c1) fs ps" using l by simp
    then obtain c2 where 2: "recycle x (ClockRequests.fire x t c1) = Some c2"
        "clock_lists c2 (fs @ [x]) ps" "core c2 = core (ClockRequests.fire x t c1)"
      using assms(2,3) by (rule recycle_lists)
    have q: "quiet c2 = quiet c1" using core_fields(7) [OF 2(3)] by simp
    show thesis
    proof (rule fire)
      show "service_loop rtc (Some x) c
          = Option.bind (pop_pending c2) (\<lambda>y. service_loop rtc (fst y) (snd y))"
        using True 2(1) by (simp add: unfold)
      show "settings c2 = settings c" using settings_core [OF 2(3)] s(1) by simp
      show "fired c2 = fired c @ [entry (reqs c) t x]"
        using core_fields(6) [OF 2(3)] s reqs_settings [OF s(1)] by simp
      show "on_time c t x \<and> discont_expiry c2 = 0" if "discont_expiry c = 0"
        using that True quiet_fields(6) [OF q] on_time_settings [OF settings_time(1), of rtc c]
        by (simp add: c1_def c0_def expiry_zero request_due_on_time)
    qed (use 2 t in simp_all)
  next
    case False
    obtain c2 where r: "reschedule x t c1 = Some c2" "clock_lists c2 fs (x # ps)"
        "settings c2 = settings c1" "fired c2 = fired c1" "ck_timer c2 \<noteq> None"
        "ck_media_time c2 = ck_media_time c1" "discont_expiry c2 = discont_expiry c1"
        "\<And>a. request_due c2 t a = request_due c1 t a"
      using l assms(2,3) by (rule reschedule_lists [where t = t]) blast
    show thesis
      by (rule wait [of c2]) (use r False s in \<open>simp_all add: unfold\<close>)
  qed
qed

text \<open>The whole loop: it fires a prefix of the requests and leaves the rest.\<close>

lemma service_loop_serves:
  assumes "clock_lists c fs ps" and "x \<notin> set fs" and "x \<notin> set ps"
  shows "\<exists>c' gone rest ts. service_loop rtc (Some x) c = Some c' \<and> x # ps = gone @ rest
    \<and> clock_lists c' (fs @ gone) rest \<and> settings c' = settings c
    \<and> fired c' = fired c @ map2 (entry (reqs c)) ts gone
    \<and> list_all2 (\<lambda>t a. in64 t \<and> (discont_expiry c = 0 \<longrightarrow> on_time c t a)) ts gone
    \<and> (rest \<noteq> [] \<longrightarrow> ck_timer c' \<noteq> None \<and> \<not> request_due c' (ck_media_time c') (hd rest))"
  using assms
proof (induction ps arbitrary: x c fs)
  case (Nil x c fs)
  show ?case
    using Nil
  proof (cases rule: service_step [where rtc = rtc])
    case (fire c' t)
    then show ?thesis
      by (intro exI [of _ c'] exI [of _ "[x]"] exI [of _ "[]"] exI [of _ "[t]"])
        (simp add: pop_pending_nil)
  next
    case (wait c')
    then show ?thesis
      by (intro exI [of _ c'] exI [of _ "[]"] exI [of _ "[x]"] exI [of _ "[]"]) simp
  qed
next
  case (Cons y ps x c fs)
  show ?case
    using Cons.prems
  proof (cases rule: service_step [where rtc = rtc])
    case (fire c2 t)
    obtain c3 where 3: "pop_pending c2 = Some (Some y, c3)" "clock_lists c3 (fs @ [x]) ps"
        "core c3 = core c2" "y \<notin> set (fs @ [x])" "y \<notin> set ps"
      using fire(2) by (rule pop_pending_cons)
    have s3: "settings c3 = settings c" "fired c3 = fired c @ [entry (reqs c) t x]"
      using core_fields [OF 3(3)] settings_core [OF 3(3)] fire(3,4) by simp_all
    have d: "discont_expiry c3 = 0" if "discont_expiry c = 0"
      using that fire(6) quiet_fields(6) [OF core_fields(7) [OF 3(3)]] by simp
    obtain c4 gone rest ts where 4: "service_loop rtc (Some y) c3 = Some c4" "y # ps = gone @ rest"
      "clock_lists c4 ((fs @ [x]) @ gone) rest" "settings c4 = settings c3"
      "fired c4 = fired c3 @ map2 (entry (reqs c3)) ts gone"
      "list_all2 (\<lambda>t a. in64 t \<and> (discont_expiry c3 = 0 \<longrightarrow> on_time c3 t a)) ts gone"
      "rest \<noteq> [] \<longrightarrow> ck_timer c4 \<noteq> None \<and> \<not> request_due c4 (ck_media_time c4) (hd rest)"
      using Cons.IH [OF 3(2,4,5)] by blast
    have "list_all2 (\<lambda>t a. in64 t \<and> (discont_expiry c = 0 \<longrightarrow> on_time c t a)) ts gone"
      using 4(6) d on_time_settings [OF s3(1)] by (auto elim!: list_all2_mono)
    then show ?thesis
      using fire(1,5,6) 3(1) 4 s3 reqs_settings [OF s3(1)]
      by (intro exI [of _ c4] exI [of _ "x # gone"] exI [of _ rest] exI [of _ "t # ts"]) auto
  next
    case (wait c')
    then show ?thesis
      by (intro exI [of _ c'] exI [of _ "[]"] exI [of _ "x # y # ps"] exI [of _ "[]"]) simp
  qed
qed

subsection \<open>The slots\<close>

text \<open>Every one of the slots is on exactly one of the two lists.\<close>

definition clock_slots :: "clock \<Rightarrow> addr list \<Rightarrow> addr list \<Rightarrow> bool" where
  "clock_slots c fs ps \<longleftrightarrow> clock_lists c fs ps \<and> mset (fs @ ps) = mset [0..<CLOCK_REQUEST_SLOTS]"

lemma clock_slots_length: "clock_slots c fs ps \<Longrightarrow> length fs + length ps = 32"
proof -
  assume "clock_slots c fs ps"
  then have "size (mset (fs @ ps)) = size (mset [0..<CLOCK_REQUEST_SLOTS])"
    by (simp add: clock_slots_def)
  then show ?thesis by (simp add: CLOCK_REQUEST_SLOTS_def)
qed

lemma pending_length:
  assumes "clock_slots c fs ps" and "list_pending c = ListLive p"
  shows "l_length p = 0 \<longleftrightarrow> ps = []"
proof -
  have l: "l_length p = of_nat (length ps)"
    using assms by (auto simp: clock_slots_def clock_lists_def ml.two_lists_def dll_def)
  have "length ps \<le> 32" using clock_slots_length [OF assms(1)] by simp
  then have "unat (l_length p) = length ps" unfolding l by (intro unat_of_nat_small) simp
  then show ?thesis by (simp flip: unat_eq_zero)
qed

lemma process_unfold:
  assumes "clock_slots c fs ps"
  shows "mmal_clock_process_requests rtc c =
    (if ps = [] \<or> \<not> is_active c then Some c
     else Option.bind (detect_discontinuity rtc c) (\<lambda>c.
       Option.bind (pop_pending c) (\<lambda>x. service_loop rtc (fst x) (snd x))))"
proof -
  obtain p where p: "list_pending c = ListLive p"
    using assms by (auto simp: clock_slots_def clock_lists_def)
  then show ?thesis
    using pending_length [OF assms p]
    by (simp add: mmal_clock_process_requests_def split_def cong: if_cong)
qed

text \<open>The media time has jumped back behind the time at which the timer was last set.\<close>

definition jumped_back :: "rtc \<Rightarrow> clock \<Rightarrow> bool" where
  "jumped_back rtc c \<longleftrightarrow> media_time_at_timer c \<noteq> 0 \<and> ck_scale c > 0
     \<and> s64 (fst (mmal_clock_media_time_get rtc c) + discont_threshold c) < media_time_at_timer c"

lemma media_time_get_pair [simp]:
  "mmal_clock_media_time_get_locked rtc c = (ck_media_time (mmal_clock_update_local_time_locked rtc c),
     mmal_clock_update_local_time_locked rtc c)"
  "mmal_clock_media_time_get rtc c = (ck_media_time (mmal_clock_update_local_time_locked rtc c),
     mmal_clock_update_local_time_locked rtc c)"
  by (simp_all add: mmal_clock_media_time_get_def mmal_clock_media_time_get_locked_def Let_def)

lemma detect_no_jump:
  assumes "\<not> jumped_back rtc c"
  shows "detect_discontinuity rtc c = Some
    (if media_time_at_timer c = 0 then c else mmal_clock_update_local_time_locked rtc c)"
proof (cases "media_time_at_timer c = 0")
  case True
  then show ?thesis by (simp add: detect_discontinuity_def)
next
  case False
  define u where "u = mmal_clock_update_local_time_locked rtc c"
  have "\<not> (ck_scale u > 0 \<and> s64 (ck_media_time u + discont_threshold u) < media_time_at_timer u)"
    using assms False by (simp add: jumped_back_def u_def)
  then show ?thesis
    using False by (auto simp: detect_discontinuity_def u_def [symmetric])
qed

lemma detect_jump:
  assumes "jumped_back rtc c" and "clock_lists c fs ps"
  shows "\<exists>c'. detect_discontinuity rtc c = Some c' \<and> clock_lists c' (fs @ ps) []
    \<and> fired c' = fired c @ map (entry (reqs c) (fst (mmal_clock_media_time_get rtc c))) ps
    \<and> settings c' = settings c \<and> media_time_at_timer c' = 0
    \<and> discont_start c' = media_time_at_timer c
    \<and> discont_end c' = s64 (media_time_at_timer c + discont_duration c)"
proof -
  define u where "u = mmal_clock_update_local_time_locked rtc c"
  have u: "media_time_at_timer u = media_time_at_timer c" "discont_threshold u = discont_threshold c"
    "discont_duration u = discont_duration c" "ck_scale u = ck_scale c" "settings u = settings c"
    "fired u = fired c" "fst (mmal_clock_media_time_get rtc c) = ck_media_time u"
    "clock_lists u fs ps"
    using assms(2) by (simp_all add: u_def)
  define d where "d = u\<lparr>discont_start := media_time_at_timer u,
      discont_end := s64 (media_time_at_timer u + discont_duration u),
      discont_expiry := s64 (wall_time u + discont_duration u)\<rparr>"
  have "clock_lists d fs ps" using u(8) by (simp add: d_def clock_lists_def)
  then obtain c' where c': "flush_loop (ck_media_time u) d = Some c'" "clock_lists c' (fs @ ps) []"
      "fired c' = fired d @ map (entry (reqs d) (ck_media_time u)) ps" "quiet c' = quiet d"
    using flush_loop_all by blast
  have "detect_discontinuity rtc c = Some (c'\<lparr>media_time_at_timer := 0\<rparr>)"
    using assms(1) c'(1) u
    by (simp add: jumped_back_def detect_discontinuity_def mmal_clock_media_time_get_locked_def
        mmal_clock_request_flush_locked_def u_def [symmetric] d_def Let_def)
  moreover have "settings d = settings u" by (simp add: d_def settings_def)
  moreover have "fired d = fired u" "reqs d = reqs u" by (simp_all add: d_def)
  ultimately show ?thesis
    using c' u settings_quiet [OF c'(4)] quiet_fields(7,8) [OF c'(4)] reqs_settings [OF u(5)]
    by (intro exI [of _ "c'\<lparr>media_time_at_timer := 0\<rparr>"]) (auto simp: settings_def d_def)
qed

text \<open>Whatever the times, processing returns and moves a prefix of the pending requests to the free
  slots.\<close>

lemma process_requests_lists:
  assumes "clock_slots c fs ps"
  shows "\<exists>c' gone rest. mmal_clock_process_requests rtc c = Some c' \<and> ps = gone @ rest
    \<and> clock_slots c' (fs @ gone) rest \<and> settings c' = settings c"
proof (cases "ps = [] \<or> \<not> is_active c")
  case True
  with assms show ?thesis
    by (intro exI [of _ c] exI [of _ "[]"] exI [of _ ps]) (simp add: process_unfold)
next
  case False
  have l: "clock_lists c fs ps" and m: "mset (fs @ ps) = mset [0..<CLOCK_REQUEST_SLOTS]"
    using assms by (simp_all add: clock_slots_def)
  show ?thesis
  proof (cases "jumped_back rtc c")
    case True
    obtain c' where c': "detect_discontinuity rtc c = Some c'" "clock_lists c' (fs @ ps) []"
        "settings c' = settings c"
      using detect_jump [OF True l] by blast
    then show ?thesis
      using False m pop_pending_nil [OF c'(2)]
      by (intro exI [of _ c'] exI [of _ ps] exI [of _ "[]"])
        (simp add: process_unfold [OF assms] clock_slots_def)
  next
    case no: False
    obtain x qs where ps: "ps = x # qs" using False by (cases ps) auto
    define c1 where "c1 =
      (if media_time_at_timer c = 0 then c else mmal_clock_update_local_time_locked rtc c)"
    have c1: "detect_discontinuity rtc c = Some c1" "clock_lists c1 fs (x # qs)"
        "settings c1 = settings c"
      using detect_no_jump [OF no] l ps by (simp_all add: c1_def)
    obtain c2 where 2: "pop_pending c1 = Some (Some x, c2)" "clock_lists c2 fs qs"
        "core c2 = core c1" "x \<notin> set fs" "x \<notin> set qs"
      using c1(2) by (rule pop_pending_cons)
    obtain c3 gone rest where 3: "service_loop rtc (Some x) c2 = Some c3" "x # qs = gone @ rest"
        "clock_lists c3 (fs @ gone) rest" "settings c3 = settings c2"
      using service_loop_serves [OF 2(2,4,5), of rtc] by blast
    have "mmal_clock_process_requests rtc c = Some c3"
      using False c1(1) 2(1) 3(1) by (simp add: process_unfold [OF assms])
    moreover have "clock_slots c3 (fs @ gone) rest"
      using 3(2,3) m by (simp add: clock_slots_def ps)
    ultimately show ?thesis
      using 3(2,4) c1(3) settings_core [OF 2(3)] ps by metis
  qed
qed

subsection \<open>Adding requests\<close>

text \<open>The pending list is in ascending order of this key while the scale keeps its sign.\<close>

definition pending_key :: "clock \<Rightarrow> addr \<Rightarrow> int" where
  "pending_key c a =
     (if ck_scale c \<ge> 0 then media_time_adj (reqs c a) else - media_time_adj (reqs c a))"

lemma pending_key_settings: "settings c = settings c' \<Longrightarrow> pending_key c = pending_key c'"
  by (simp add: settings_def pending_key_def fun_eq_iff)

lemma insert_compare:
  "(if ck_scale c \<ge> 0 then mmal_clock_request_compare_pos c else mmal_clock_request_compare_neg c) =
   (\<lambda>a b. pending_key c a < pending_key c b)"
  by (simp add: pending_key_def mmal_clock_request_compare_pos_def
      mmal_clock_request_compare_neg_def fun_eq_iff)

text \<open>\<open>ps'\<close> is \<open>ps\<close> with request \<open>a\<close> at the place the key gives it.\<close>

definition placed :: "clock \<Rightarrow> addr \<Rightarrow> addr list \<Rightarrow> addr list \<Rightarrow> bool" where
  "placed c a ps ps' \<longleftrightarrow> mset ps' = add_mset a (mset ps)
     \<and> (sorted (map (pending_key c) ps) \<longrightarrow> sorted (map (pending_key c) ps')
          \<and> filter (\<lambda>b. pending_key c b = pending_key c a) ps'
            = filter (\<lambda>b. pending_key c b = pending_key c a) ps @ [a])"

lemma placed_back:
  assumes "ps = qs @ [z]" and "pending_key c a \<ge> pending_key c z"
  shows "placed c a ps (ps @ [a])"
  using assms by (auto simp: placed_def sorted_append)

lemma placed_insert:
  "placed c a ps (takeWhile (\<lambda>b. \<not> pending_key c a < pending_key c b) ps @ a
     # dropWhile (\<lambda>b. \<not> pending_key c a < pending_key c b) ps)"
  using sorted_insert_key [of "pending_key c" ps a] filter_insert_key [of "pending_key c" ps a]
    mset_insert_at [of "\<lambda>b. \<not> pending_key c a < pending_key c b" ps a]
  by (simp add: placed_def)

lemma request_insert_lists:
  assumes "clock_lists c fs ps" and "a \<notin> set fs" and "a \<notin> set ps" and "length ps < 32"
    and "\<not> stop_thread c"
  obtains c' ps' where "mmal_clock_request_insert a c = Some (True, c')" and "clock_lists c' fs ps'"
    and "core c' = core c" and "placed c a ps ps'"
proof -
  obtain f p where c: "list_free c = ListLive f" "list_pending c = ListLive p"
      and t: "ml.two_lists (links c) p ps f fs"
    using assms ml.two_lists_sym by (auto simp: clock_lists_def)
  have d: "dll (links c) p ps" using t by (simp add: ml.two_lists_def)
  note result = that
  have finish: thesis if "mmal_clock_request_insert a c = Some (True, c\<lparr>list_pending := ListLive l, links := h\<rparr>)"
      "ml.two_lists h l ps' f fs" "placed c a ps ps'" for l h ps'
    by (rule result [OF that(1), of ps'])
      (use that(2,3) c ml.two_lists_sym in \<open>auto simp: clock_lists_def core_def\<close>)
  show thesis
  proof (cases ps rule: rev_cases)
    case Nil
    obtain l h where "mmal_list_push_front p (links c) a = (l, h)" "ml.two_lists h l (a # ps) f fs"
      using t assms(3,2) by (rule ml.two_lists_push_front)
    with Nil c d assms(5) show thesis
      by (intro finish [where l = l and h = h and ps' = "[a]"]) (auto simp: mmal_clock_request_insert_def placed_def dll_def)
  next
    case (snoc qs z)
    have z: "l_last p = Some z" "l_length p \<noteq> 0"
    proof -
      show "l_last p = Some z" using d snoc by (auto intro: dll_last)
      have "unat (l_length p) = length ps"
        using d assms(4) unat_of_nat_small [of "length ps"] by (simp add: dll_def)
      then show "l_length p \<noteq> 0" using snoc by auto
    qed
    have test: "(ck_scale c \<ge> 0 \<and> media_time_adj (reqs c a) \<ge> media_time_adj (reqs c z)
        \<or> ck_scale c < 0 \<and> media_time_adj (reqs c a) \<le> media_time_adj (reqs c z))
        \<longleftrightarrow> pending_key c a \<ge> pending_key c z"
      by (auto simp: pending_key_def)
    show thesis
    proof (cases "pending_key c a \<ge> pending_key c z")
      case True
      obtain l h where "mmal_list_push_back p (links c) a = (l, h)" "ml.two_lists h f fs l (ps @ [a])"
        using t [unfolded ml.two_lists_sym [of "links c" p ps f fs]] assms(2,3)
        by (rule ml.two_lists_push_back)
      with True c z assms(5) placed_back [OF snoc True] show thesis
        by (intro finish [where l = l and h = h and ps' = "ps @ [a]"])
          (simp_all add: mmal_clock_request_insert_def test ml.two_lists_sym)
    next
      case False
      obtain l h where "mmal_list_insert p (links c) a (\<lambda>a b. pending_key c a < pending_key c b) = Some (l, h)"
        "ml.two_lists h l (takeWhile (\<lambda>b. \<not> pending_key c a < pending_key c b) ps @ a
          # dropWhile (\<lambda>b. \<not> pending_key c a < pending_key c b) ps) f fs"
        using t assms(3,2) by (rule ml.two_lists_insert)
      with False c z assms(5) placed_insert [of c a ps] show thesis
        by (intro finish [where l = l and h = h])
          (simp_all add: mmal_clock_request_insert_def test insert_compare)
    qed
  qed
qed

lemma push_slot_lists:
  assumes "clock_lists c fs ps" and "distinct is" and "set is \<inter> set fs = {}" and "set is \<inter> set ps = {}"
  shows "clock_lists (foldl push_slot c is) (fs @ is) ps \<and> core (foldl push_slot c is) = core c"
  using assms
proof (induction "is" arbitrary: c fs)
  case (Cons i "is")
  have "i \<notin> set fs" "i \<notin> set ps" using Cons.prems by auto
  with Cons.prems(1) obtain c1 where 1: "recycle i c = Some c1" "clock_lists c1 (fs @ [i]) ps"
      "core c1 = core c"
    by (rule recycle_lists)
  show ?case
    using Cons.IH [OF 1(2)] Cons.prems 1(1,3) by (simp add: push_slot_def)
qed simp

definition all_ok :: sched_env where
  "all_ok = \<lparr>timer_ok = True, semaphore_ok = True, free_list_ok = True, pending_list_ok = True,
     thread_ok = True\<rparr>"

lemma create_scheduling_ok:
  obtains c' where "mmal_clock_create_scheduling all_ok c = Some (MMAL_SUCCESS, c')"
    and "clock_slots c' [0..<CLOCK_REQUEST_SLOTS] []" and "scheduling c'"
    and "stop_thread c' = stop_thread c" and "ck_scale c' = ck_scale c" and "reqs c' = reqs c"
    and "is_active c' = is_active c"
proof -
  obtain l where l: "mmal_list_create True True = Some l" by (simp add: mmal_list_create_def)
  define c1 where "c1 = c\<lparr>ck_event := 0, list_free := ListLive l, list_pending := ListLive l\<rparr>"
  have "clock_lists c1 [] []"
    using list_create_dll [OF l] by (simp add: c1_def clock_lists_def ml.two_lists_def)
  moreover define d where "d = foldl push_slot c1 [0..<CLOCK_REQUEST_SLOTS]"
  ultimately have d: "clock_lists d [0..<CLOCK_REQUEST_SLOTS] []" "core d = core c1"
    using push_slot_lists [of c1 "[]" "[]" "[0..<CLOCK_REQUEST_SLOTS]"] by simp_all
  show thesis
  proof (rule that)
    show "mmal_clock_create_scheduling all_ok c = Some (MMAL_SUCCESS, d\<lparr>scheduling := True\<rparr>)"
      by (simp add: mmal_clock_create_scheduling_def all_ok_def l as_ptr_def d_def c1_def Let_def)
    show "clock_slots (d\<lparr>scheduling := True\<rparr>) [0..<CLOCK_REQUEST_SLOTS] []"
      using d(1) by (simp add: clock_slots_def clock_lists_def)
  qed (use core_fields [OF d(2)] in \<open>simp_all add: c1_def\<close>)
qed

lemma request_add_order:
  assumes "clock_slots c fs ps" and "scheduling c" and "\<not> stop_thread c"
    and "sorted (map (pending_key c) ps)"
    and "now = fst (mmal_clock_media_time_get rtc c)"
  shows "if request_threshold_enable c \<and> media_time > s64 (now + request_threshold c)
    then \<exists>c'. mmal_clock_request_add rtc e media_time cb cb_data priv c = Some (MMAL_ECORRUPT, c')
      \<and> clock_slots c' fs ps
    else if fs = []
    then \<exists>c'. mmal_clock_request_add rtc e media_time cb cb_data priv c = Some (MMAL_ENOSPC, c')
      \<and> clock_slots c' fs ps
    else \<exists>c' ps'. mmal_clock_request_add rtc e media_time cb cb_data priv c = Some (MMAL_SUCCESS, c')
      \<and> clock_slots c' (tl fs) ps' \<and> mset ps' = add_mset (hd fs) (mset ps)
      \<and> sorted (map (pending_key c') ps')
      \<and> filter (\<lambda>b. pending_key c' b = pending_key c' (hd fs)) ps'
        = filter (\<lambda>b. pending_key c' b = pending_key c' (hd fs)) ps @ [hd fs]
      \<and> reqs c' = (reqs c)(hd fs := \<lparr>rq_priv = priv, rq_cb = cb, rq_cb_data = cb_data,
          rq_media_time = media_time, media_time_adj =
            s64 (media_time - s32 (ck_scale c * CLOCK_TARGET_OFFSET) div 2 ^ 16)\<rparr>)
      \<and> ck_event c' = ck_event c + (if is_active c then 1 else 0)"
proof -
  define u where "u = mmal_clock_update_local_time_locked rtc c"
  have us: "settings u = settings c" by (simp add: u_def)
  then have u: "clock_slots u fs ps" "scheduling u" "\<not> stop_thread u" "reqs u = reqs c"
      "ck_scale u = ck_scale c" "is_active u = is_active c"
      "request_threshold u = request_threshold c" "ck_event u = ck_event c"
      "request_threshold_enable u = request_threshold_enable c" "ck_media_time u = now"
    using assms by (simp_all add: settings_def clock_slots_def u_def)
      (simp_all add: mmal_clock_update_local_time_locked_def Let_def)
  have uf: "mmal_clock_request_add rtc e media_time cb cb_data priv c =
      (if request_threshold_enable c \<and> media_time > s64 (now + request_threshold c)
       then Some (MMAL_ECORRUPT, u)
       else Option.bind (pop_free u) (\<lambda>(request, d). case request of None \<Rightarrow> Some (MMAL_ENOSPC, d)
         | Some a \<Rightarrow>
            let d = d\<lparr>reqs := (reqs d)(a := \<lparr>rq_priv = priv, rq_cb = cb, rq_cb_data = cb_data,
                  rq_media_time = media_time, media_time_adj = s64 (media_time
                      - s32 (ck_scale d * CLOCK_TARGET_OFFSET) div 2 ^ 16)\<rparr>)\<rparr>
            in Option.bind (mmal_clock_request_insert a d) (\<lambda>(inserted, d). Some (MMAL_SUCCESS,
                 if inserted \<and> is_active d then mmal_clock_wake_thread d else d))))"
    using u by (simp add: mmal_clock_request_add_def add_request_def u_def [symmetric])
  show ?thesis
  proof (cases "request_threshold_enable c \<and> media_time > s64 (now + request_threshold c)")
    case True
    with u(1) show ?thesis by (simp add: uf)
  next
    case no_drop: False
    have l: "clock_lists u fs ps" and m: "mset (fs @ ps) = mset [0..<CLOCK_REQUEST_SLOTS]"
      using u(1) by (simp_all add: clock_slots_def)
    show ?thesis
    proof (cases fs)
      case Nil
      with no_drop l u(1) show ?thesis by (simp add: uf pop_free_nil)
    next
      case (Cons a fs')
      obtain c1 where 1: "pop_free u = Some (Some a, c1)" "clock_lists c1 fs' ps"
          "core c1 = core u" "a \<notin> set fs'" "a \<notin> set ps"
        using l [unfolded Cons] by (rule pop_free_cons)
      define r where "r = \<lparr>rq_priv = priv, rq_cb = cb, rq_cb_data = cb_data,
          rq_media_time = media_time, media_time_adj =
            s64 (media_time - s32 (ck_scale c * CLOCK_TARGET_OFFSET) div 2 ^ 16)\<rparr>"
      define d where "d = c1\<lparr>reqs := (reqs c)(a := r)\<rparr>"
      note f1 = core_fields [OF 1(3)]
      have len: "length ps < 32" using clock_slots_length [OF u(1)] Cons by simp
      have d: "clock_lists d fs' ps" "\<not> stop_thread d" using 1(2) f1 u by (simp_all add: d_def)
      obtain c2 ps' where 2: "mmal_clock_request_insert a d = Some (True, c2)"
          "clock_lists c2 fs' ps'" "core c2 = core d" "placed d a ps ps'"
        using d(1) 1(4,5) len d(2) by (rule request_insert_lists)
      note f2 = core_fields [OF 2(3)]
      have key: "pending_key d b = pending_key c b" if "b \<noteq> a" for b
        using that f1 u by (simp add: d_def pending_key_def)
      have same: "map (pending_key d) ps = map (pending_key c) ps"
        by (rule map_cong [OF refl]) (metis key 1(5))
      have "sorted (map (pending_key d) ps)" using assms(4) by (simp only: same)
      with 2(4) have p: "sorted (map (pending_key d) ps')" "mset ps' = add_mset a (mset ps)"
          "filter (\<lambda>b. pending_key d b = pending_key d a) ps'
            = filter (\<lambda>b. pending_key d b = pending_key d a) ps @ [a]"
        by (simp_all add: placed_def)
      define c' where "c' = (if is_active c2 then mmal_clock_wake_thread c2 else c2)"
      have c': "reqs c' = reqs d" "pending_key c' = pending_key d" "clock_lists c' fs' ps'"
          "ck_event c' = ck_event c + (if is_active c then 1 else 0)"
        using f1 f2 u 2(2) by (simp_all add: c'_def mmal_clock_wake_thread_def pending_key_def
            fun_eq_iff d_def clock_lists_def)
      have "mmal_clock_request_add rtc e media_time cb cb_data priv c = Some (MMAL_SUCCESS, c')"
        using no_drop 1(1) f1 u 2(1) by (simp add: uf c'_def d_def r_def)
      moreover have "clock_slots c' fs' ps'"
        using c'(3) p(2) m Cons by (simp add: clock_slots_def)
      ultimately show ?thesis
        using no_drop Cons p c' by (auto simp: d_def r_def)
    qed
  qed
qed

text \<open>Adding a request to a clock whose scheduling objects exist: it is dropped with
  \<open>MMAL_ECORRUPT\<close> when the request threshold is enabled and exceeded, refused with \<open>MMAL_ENOSPC\<close>
  when all 32 slots are pending, and otherwise takes one free slot for its data,
  comes at its place in the order of media times (after the requests with an equal time), keeps
  the others where they are and notifies the worker if the clock is active.\<close>

theorem clock_request_add_order:
  assumes "clock_slots c fs ps" and "scheduling c" and "\<not> stop_thread c"
    and "sorted (map (pending_key c) ps)"
    and "now = fst (mmal_clock_media_time_get rtc c)"
  shows "if request_threshold_enable c \<and> media_time > s64 (now + request_threshold c)
    then \<exists>c'. mmal_clock_request_add rtc e media_time cb cb_data priv c = Some (MMAL_ECORRUPT, c')
      \<and> clock_slots c' fs ps
    else if fs = []
    then \<exists>c'. mmal_clock_request_add rtc e media_time cb cb_data priv c = Some (MMAL_ENOSPC, c')
      \<and> clock_slots c' fs ps
    else \<exists>c' ps'. mmal_clock_request_add rtc e media_time cb cb_data priv c = Some (MMAL_SUCCESS, c')
      \<and> clock_slots c' (tl fs) ps' \<and> mset ps' = add_mset (hd fs) (mset ps)
      \<and> sorted (map (pending_key c') ps')
      \<and> filter (\<lambda>b. pending_key c' b = pending_key c' (hd fs)) ps'
        = filter (\<lambda>b. pending_key c' b = pending_key c' (hd fs)) ps @ [hd fs]
      \<and> reqs c' = (reqs c)(hd fs := \<lparr>rq_priv = priv, rq_cb = cb, rq_cb_data = cb_data,
          rq_media_time = media_time, media_time_adj =
            s64 (media_time - s32 (ck_scale c * CLOCK_TARGET_OFFSET) div 2 ^ 16)\<rparr>)
      \<and> ck_event c' = ck_event c + (if is_active c then 1 else 0)"
  using request_add_order [OF assms] .

text \<open>A clock all of whose slots are pending.\<close>

definition demo_clock :: "int \<Rightarrow> clock" where
  "demo_clock late = zero_clock\<lparr>is_active := True, scheduling := True, ck_scale := 65536,
     scale_inv := 65536, discont_threshold := 1000000, discont_duration := 1000000,
     list_free := ListLive \<lparr>l_length = 0, l_first = None, l_last = None\<rparr>,
     list_pending := ListLive \<lparr>l_length = 32, l_first = Some 0, l_last = Some 31\<rparr>,
     links := (\<lambda>i. \<lparr>lnext = (if i < 31 then Some (i + 1) else None),
                    lprev = (if 0 < i then Some (i - 1) else None)\<rparr>),
     reqs := (\<lambda>i. \<lparr>rq_priv = None, rq_cb = i, rq_cb_data = None, rq_media_time = 0,
       media_time_adj = (if i < 31 then 500 else late)\<rparr>)\<rparr>"

lemma slots_32: "[0..<32] = [0::nat, 1, 2, 3, 4, 5, 6, 7, 8, 9, 10, 11,
    12, 13, 14, 15, 16, 17, 18, 19, 20, 21, 22, 23, 24, 25, 26, 27, 28, 29, 30, 31]"
  by code_simp

lemma demo_clock_slots: "clock_slots (demo_clock late) [] [0..<32]"
  by (simp add: clock_slots_def clock_lists_def demo_clock_def ml.two_lists_def dll_def
      CLOCK_REQUEST_SLOTS_def slots_32)

theorem clock_request_add_order_witness:
  "\<exists>c'. mmal_clock_request_add (\<lambda>_. 0) all_ok 700 1 None None (demo_clock 600) = Some (MMAL_ENOSPC, c')
     \<and> clock_slots c' [] [0..<32]"
proof -
  have "sorted (map (pending_key (demo_clock 600)) [0..<32])"
    by (simp add: pending_key_def demo_clock_def slots_32)
  from clock_request_add_order [OF demo_clock_slots _ _ this refl, of "\<lambda>_. 0" 700 all_ok 1 None None]
  show ?thesis by (simp add: demo_clock_def zero_clock_def)
qed

lemma s64_le: "int64_min \<le> x \<Longrightarrow> s64 x \<le> x"
proof -
  assume "int64_min \<le> x"
  then have "(x + 2 ^ 63) mod 2 ^ 64 \<le> x + 2 ^ 63" by (intro zmod_le_nonneg_dividend) simp
  then show ?thesis by (simp add: s64_def)
qed



text \<open>A backward jump of the media time beyond the discontinuity threshold fires every pending
  request at once, in order and with the new media time, and returns all slots; requests of the
  time before the jump that still arrive are recognised by the recorded span.\<close>

theorem clock_discontinuity_flushes:
  assumes "clock_slots c fs ps" and "is_active c" and "ps \<noteq> []" and "jumped_back rtc c"
  shows "\<exists>c'. mmal_clock_process_requests rtc c = Some c' \<and> clock_slots c' (fs @ ps) []
    \<and> fired c' = fired c @ map (entry (reqs c) (fst (mmal_clock_media_time_get rtc c))) ps
    \<and> media_time_at_timer c' = 0 \<and> discont_start c' = media_time_at_timer c
    \<and> discont_end c' = s64 (media_time_at_timer c + discont_duration c)"
proof -
  have l: "clock_lists c fs ps" and m: "mset (fs @ ps) = mset [0..<CLOCK_REQUEST_SLOTS]"
    using assms(1) by (simp_all add: clock_slots_def)
  obtain c' where c': "detect_discontinuity rtc c = Some c'" "clock_lists c' (fs @ ps) []"
      "fired c' = fired c @ map (entry (reqs c) (fst (mmal_clock_media_time_get rtc c))) ps"
      "media_time_at_timer c' = 0" "discont_start c' = media_time_at_timer c"
      "discont_end c' = s64 (media_time_at_timer c + discont_duration c)"
    using detect_jump [OF assms(4) l] by blast
  have "mmal_clock_process_requests rtc c = Some c'"
    using c'(1) assms(2,3) pop_pending_nil [OF c'(2)] by (simp add: process_unfold [OF assms(1)])
  moreover have "clock_slots c' (fs @ ps) []" using c'(2) m by (simp add: clock_slots_def)
  ultimately show ?thesis using c' by blast
qed

theorem clock_discontinuity_flushes_witness:
  "\<exists>c'. mmal_clock_process_requests (\<lambda>_. 0) (demo_clock 900\<lparr>media_time_at_timer := 3000000\<rparr>) = Some c'
    \<and> clock_slots c' [0..<32] [] \<and> length (fired c') = 32"
proof -
  define c where "c = demo_clock 900\<lparr>media_time_at_timer := 3000000\<rparr>"
  have 1: "clock_slots c [] [0..<32]"
    using demo_clock_slots [of 900] by (simp add: c_def clock_slots_def)
  have 2: "is_active c" "[0..<32] \<noteq> ([] :: nat list)" by (simp_all add: c_def demo_clock_def)
  have "ck_media_time (mmal_clock_update_local_time_locked (\<lambda>_. 0) c) = 0"
    by (simp add: c_def demo_clock_def zero_clock_def time_diff_def
        mmal_clock_update_local_time_locked_def Let_def s64_def)
  moreover have "media_time_at_timer c = 3000000" "discont_threshold c = 1000000" "ck_scale c > 0"
    by (simp_all add: c_def demo_clock_def)
  ultimately have 3: "jumped_back (\<lambda>_. 0) c"
    by (simp add: jumped_back_def s64_def)
  from clock_discontinuity_flushes [OF 1 2 3]
  obtain c' where c': "mmal_clock_process_requests (\<lambda>_. 0) c = Some c'" "clock_slots c' [0..<32] []"
    "fired c' = fired c @ map (entry (reqs c) (fst (mmal_clock_media_time_get (\<lambda>_. 0) c))) [0..<32]"
    by auto
  have "length (fired c') = 32" unfolding c'(3) by (simp add: c_def demo_clock_def zero_clock_def)
  with c'(1,2) show ?thesis unfolding c_def by blast
qed

subsection \<open>All interleavings\<close>

text \<open>One operation of a client or of the worker, with any creation outcome, any times. The worker
  exists once the scheduling objects do.\<close>

inductive clock_step :: "rtc \<Rightarrow> clock \<Rightarrow> clock \<Rightarrow> bool" for rtc where
  request_add: "mmal_clock_request_add rtc e t cb d p c = Some (st, c') \<Longrightarrow> clock_step rtc c c'"
| request_flush: "mmal_clock_request_flush c = Some (st, c') \<Longrightarrow> clock_step rtc c c'"
| worker: "scheduling c \<Longrightarrow> mmal_clock_worker_thread rtc c = Some (WorkerRan b c') \<Longrightarrow>
    clock_step rtc c c'"
| timer: "clock_step rtc c (mmal_clock_timer_cb c)"
| media_time_set: "clock_step rtc c (snd (mmal_clock_media_time_set rtc t c))"
| media_time_get: "clock_step rtc c (snd (mmal_clock_media_time_get rtc c))"
| scale_set: "clock_step rtc c (snd (mmal_clock_scale_set rtc r c))"
| active_set: "clock_step rtc c (snd (mmal_clock_active_set b c))"
| update_threshold_set: "clock_step rtc c (snd (mmal_clock_update_threshold_set lu c))"
| discont_threshold_set: "clock_step rtc c (snd (mmal_clock_discont_threshold_set td c))"
| request_threshold_set: "clock_step rtc c (snd (mmal_clock_request_threshold_set te c))"

inductive clock_reachable :: "rtc \<Rightarrow> clock \<Rightarrow> bool" for rtc where
  create: "mmal_clock_create rtc t True True True = (MMAL_SUCCESS, Some c) \<Longrightarrow> clock_reachable rtc c"
| step: "clock_reachable rtc c \<Longrightarrow> clock_step rtc c c' \<Longrightarrow> clock_reachable rtc c'"

text \<open>What every operation keeps: no slot is lost.\<close>

definition clock_inv :: "clock \<Rightarrow> bool" where
  "clock_inv c \<longleftrightarrow> \<not> stop_thread c \<and> (scheduling c \<longrightarrow> (\<exists>fs ps. clock_slots c fs ps))"

lemma clock_inv_same:
  assumes "clock_inv c" and "\<And>fs ps. clock_lists c' fs ps = clock_lists c fs ps"
    and "scheduling c' = scheduling c" and "stop_thread c' = stop_thread c"
  shows "clock_inv c'"
  using assms by (simp add: clock_inv_def clock_slots_def)

lemma flush_slots:
  assumes "clock_slots c fs ps"
  shows "\<exists>c'. mmal_clock_request_flush_locked t c = Some (MMAL_SUCCESS, c')
    \<and> clock_slots c' (fs @ ps) [] \<and> fired c' = fired c @ map (entry (reqs c) t) ps
    \<and> settings c' = settings c"
proof -
  obtain d where d: "flush_loop t c = Some d" "clock_lists d (fs @ ps) []"
      "fired d = fired c @ map (entry (reqs c) t) ps" "quiet d = quiet c"
    using assms flush_loop_all [of c fs ps t] by (auto simp: clock_slots_def)
  have "settings (d\<lparr>media_time_at_timer := 0\<rparr>) = settings c"
    using settings_quiet [OF d(4)] by (simp add: settings_def)
  with d assms show ?thesis
    by (intro exI [of _ "d\<lparr>media_time_at_timer := 0\<rparr>"])
      (simp add: mmal_clock_request_flush_locked_def clock_slots_def)
qed

lemma create_scheduling_cases:
  assumes "mmal_clock_create_scheduling e c = Some (st, c')"
  shows "st = MMAL_SUCCESS \<and> e = all_ok \<or> st = MMAL_ENOSPC \<and> scheduling c' = scheduling c
    \<and> stop_thread c' = stop_thread c"
proof -
  have err: "s = MMAL_ENOSPC \<and> scheduling d = scheduling x \<and> stop_thread d = stop_thread x"
    if "scheduling_error x = Some (s, d)" for x d s
    using that by (auto simp: scheduling_error_def split: bind_splits)
  have push1: "scheduling (push_slot x i) = scheduling x \<and> stop_thread (push_slot x i) = stop_thread x"
    for x i
    by (cases "list_free x") (auto simp: push_slot_def recycle_def split: prod.split)
  have push: "scheduling (foldl push_slot x is) = scheduling x
      \<and> stop_thread (foldl push_slot x is) = stop_thread x" for x "is"
    by (induction "is" arbitrary: x) (simp_all add: push1)
  have all: "e = all_ok" if "timer_ok e" "semaphore_ok e" "free_list_ok e" "pending_list_ok e" "thread_ok e"
    using that by (cases e) (simp add: all_ok_def)
  show ?thesis
    using assms push
    by (auto simp: mmal_clock_create_scheduling_def Let_def mmal_list_create_def as_ptr_def
        dest!: err split: if_splits intro: all)
qed

lemma add_request_slots:
  assumes "clock_slots u fs ps" and "\<not> stop_thread u" and "scheduling u"
  shows "\<exists>st c'. add_request t cb d p u = Some (st, c') \<and> clock_inv c' \<and> scheduling c'"
proof -
  have l: "clock_lists u fs ps" and m: "mset (fs @ ps) = mset [0..<CLOCK_REQUEST_SLOTS]"
    using assms(1) by (simp_all add: clock_slots_def)
  show ?thesis
  proof (cases fs)
    case Nil
    with l assms show ?thesis by (auto simp: add_request_def pop_free_nil clock_inv_def)
  next
    case (Cons a fs')
    obtain c1 where 1: "pop_free u = Some (Some a, c1)" "clock_lists c1 fs' ps"
        "core c1 = core u" "a \<notin> set fs'" "a \<notin> set ps"
      using l [unfolded Cons] by (rule pop_free_cons)
    define x where "x = c1\<lparr>reqs := (reqs c1)(a := \<lparr>rq_priv = p, rq_cb = cb, rq_cb_data = d,
        rq_media_time = t, media_time_adj =
          s64 (t - s32 (ck_scale c1 * CLOCK_TARGET_OFFSET) div 2 ^ 16)\<rparr>)\<rparr>"
    have len: "length ps < 32" using clock_slots_length [OF assms(1)] Cons by simp
    have x: "clock_lists x fs' ps" "\<not> stop_thread x"
      using 1(2) core_fields [OF 1(3)] assms by (simp_all add: x_def)
    obtain c2 ps' where 2: "mmal_clock_request_insert a x = Some (True, c2)"
        "clock_lists c2 fs' ps'" "core c2 = core x" "placed x a ps ps'"
      using x(1) 1(4,5) len x(2) by (rule request_insert_lists)
    define c' where "c' = (if is_active c2 then mmal_clock_wake_thread c2 else c2)"
    have "add_request t cb d p u = Some (MMAL_SUCCESS, c')"
      using 1(1) 2(1) by (simp add: add_request_def c'_def x_def)
    moreover have "clock_lists c' fs' ps'" "\<not> stop_thread c'" "scheduling c'"
      using 2(2) core_fields(3,4) [OF 2(3)] core_fields(3) [OF 1(3)] x(2) assms(3)
      by (simp_all add: c'_def mmal_clock_wake_thread_def clock_lists_def) (simp_all add: x_def)
    moreover have "mset (fs' @ ps') = mset [0..<CLOCK_REQUEST_SLOTS]"
      using 2(4) m Cons by (simp add: placed_def)
    ultimately show ?thesis by (auto simp: clock_slots_def clock_inv_def)
  qed
qed

lemma request_add_unfold:
  "mmal_clock_request_add rtc e t cb d p c =
     (let u = mmal_clock_update_local_time_locked rtc c in
      if request_threshold_enable u \<and> t > s64 (ck_media_time u + request_threshold u)
      then Some (MMAL_ECORRUPT, u)
      else if scheduling u then add_request t cb d p u
      else Option.bind (mmal_clock_create_scheduling e u) (\<lambda>(st, c').
        if st \<noteq> MMAL_SUCCESS then Some (MMAL_ENOSPC, c') else add_request t cb d p c'))"
  by (simp add: mmal_clock_request_add_def Let_def)

lemma request_add_inv:
  assumes "clock_inv c" and "mmal_clock_request_add rtc e t cb d p c = Some (st, c')"
  shows "clock_inv c'"
proof -
  define u where "u = mmal_clock_update_local_time_locked rtc c"
  have "settings u = settings c" by (simp add: u_def)
  then have u: "clock_inv u"
    using assms(1) by (intro clock_inv_same [OF assms(1)]) (simp_all add: settings_def u_def)
  consider (drop) "c' = u" | (sched) "scheduling u" "add_request t cb d p u = Some (st, c')"
    | (fail) s where "\<not> scheduling u" "s \<noteq> MMAL_SUCCESS"
        "mmal_clock_create_scheduling e u = Some (s, c')"
    | (create) c1 where "\<not> scheduling u" "mmal_clock_create_scheduling e u = Some (MMAL_SUCCESS, c1)"
        "add_request t cb d p c1 = Some (st, c')"
    using assms(2) by (auto simp: request_add_unfold u_def [symmetric] Let_def split: if_splits bind_splits)
  then show ?thesis
  proof cases
    case drop
    with u show ?thesis by simp
  next
    case sched
    with u obtain fs ps where "clock_slots u fs ps" "\<not> stop_thread u" by (auto simp: clock_inv_def)
    from add_request_slots [OF this sched(1), of t cb d p] sched(2) show ?thesis by auto
  next
    case fail
    from create_scheduling_cases [OF fail(3)] fail(1,2) u show ?thesis by (simp add: clock_inv_def)
  next
    case create
    from create_scheduling_cases [OF create(2)] have e: "e = all_ok" by simp
    obtain d' where "mmal_clock_create_scheduling all_ok u = Some (MMAL_SUCCESS, d')"
      "clock_slots d' [0..<CLOCK_REQUEST_SLOTS] []" "scheduling d'" "stop_thread d' = stop_thread u"
      by (rule create_scheduling_ok)
    with e create(2) u have "clock_slots c1 [0..<CLOCK_REQUEST_SLOTS] []" "\<not> stop_thread c1" "scheduling c1"
      by (simp_all add: clock_inv_def)
    from add_request_slots [OF this, of t cb d p] create(3) show ?thesis by auto
  qed
qed

lemma worker_inv:
  assumes "clock_inv c" and "scheduling c"
  shows "\<exists>r. mmal_clock_worker_thread rtc c = Some r \<and> (\<forall>b c'. r = WorkerRan b c' \<longrightarrow> clock_inv c')"
proof (cases "ck_event c = 0")
  case True
  then show ?thesis by (simp add: mmal_clock_worker_thread_def)
next
  case False
  define u where "u = mmal_clock_timer_cancel (c\<lparr>ck_event := ck_event c - 1\<rparr>)"
  obtain fs ps where c: "clock_slots c fs ps" "\<not> stop_thread c"
    using assms by (auto simp: clock_inv_def)
  have u: "clock_slots u fs ps" "\<not> stop_thread u" "scheduling u"
    using c assms(2) by (simp_all add: u_def mmal_clock_timer_cancel_def clock_slots_def clock_lists_def)
  obtain c' gone rest where p: "mmal_clock_process_requests rtc u = Some c'"
      "clock_slots c' (fs @ gone) rest" "settings c' = settings u"
    using process_requests_lists [OF u(1)] by blast
  have "mmal_clock_worker_thread rtc c = Some (WorkerRan False c')"
    using False u(2) p(1) by (simp add: mmal_clock_worker_thread_def u_def Let_def)
  moreover have "clock_inv c'" using p(2,3) u by (auto simp: clock_inv_def settings_def)
  ultimately show ?thesis by auto
qed

lemma flush_inv:
  assumes "clock_inv c"
  shows "\<exists>c'. mmal_clock_request_flush c = Some (MMAL_SUCCESS, c') \<and> clock_inv c'"
proof (cases "scheduling c")
  case True
  then obtain fs ps where "clock_slots c fs ps" "\<not> stop_thread c"
    using assms by (auto simp: clock_inv_def)
  with flush_slots [of c fs ps MMAL_TIME_UNKNOWN] show ?thesis
    using True by (auto simp: mmal_clock_request_flush_def clock_inv_def settings_def)
qed (use assms in \<open>simp add: mmal_clock_request_flush_def\<close>)

lemmas plain_op_defs =
  mmal_clock_timer_cb_def mmal_clock_media_time_set_def mmal_clock_scale_set_def
  mmal_clock_active_set_def mmal_clock_start_def mmal_clock_stop_def mmal_clock_wake_thread_def
  mmal_clock_update_threshold_set_def mmal_clock_discont_threshold_set_def
  mmal_clock_request_threshold_set_def mmal_clock_update_local_time_locked_def

lemma plain_ops_inv:
  assumes "clock_inv c"
  shows "clock_inv (mmal_clock_timer_cb c)" "clock_inv (snd (mmal_clock_media_time_set rtc t c))"
    "clock_inv (mmal_clock_update_local_time_locked rtc c)"
    "clock_inv (snd (mmal_clock_scale_set rtc r c))" "clock_inv (snd (mmal_clock_active_set b c))"
    "clock_inv (snd (mmal_clock_update_threshold_set lu c))"
    "clock_inv (snd (mmal_clock_discont_threshold_set td c))"
    "clock_inv (snd (mmal_clock_request_threshold_set te c))"
  by (rule clock_inv_same [OF assms]; simp add: plain_op_defs Let_def clock_lists_def split_def)+

lemma scale_set_fields:
  "scheduling (snd (mmal_clock_scale_set rtc r c)) = scheduling c"
  "stop_thread (snd (mmal_clock_scale_set rtc r c)) = stop_thread c"
  "request_threshold_enable (snd (mmal_clock_scale_set rtc r c)) = request_threshold_enable c"
  by (simp_all add: mmal_clock_scale_set_def mmal_clock_wake_thread_def
      mmal_clock_update_local_time_locked_def Let_def)

lemma create_fields:
  assumes "mmal_clock_create rtc t True True True = (MMAL_SUCCESS, Some c)"
  shows "\<not> scheduling c" "\<not> stop_thread c" "\<not> request_threshold_enable c"
  using assms scale_set_fields
  by (auto simp: mmal_clock_create_def Let_def split_def zero_clock_def)

lemma create_inv:
  "mmal_clock_create rtc t True True True = (MMAL_SUCCESS, Some c) \<Longrightarrow> clock_inv c"
  using create_fields by (simp add: clock_inv_def)

lemma clock_reachable_inv: "clock_reachable rtc c \<Longrightarrow> clock_inv c"
proof (induction rule: clock_reachable.induct)
  case (create t c)
  then show ?case by (rule create_inv)
next
  case (step c c')
  show ?case
    using step(2)
  proof cases
    case (request_add e t cb d p st)
    then show ?thesis using request_add_inv [OF step.IH] by blast
  next
    case (request_flush st)
    then show ?thesis using flush_inv [OF step.IH] by auto
  next
    case (worker b)
    then show ?thesis using worker_inv [OF step.IH, of rtc] by auto
  qed (simp_all add: plain_ops_inv [OF step.IH])
qed


text \<open>A freshly created clock with its first request.\<close>

lemma demo_clock_reachable:
  "\<exists>c. clock_reachable (\<lambda>_. 0) c \<and> scheduling c"
proof -
  obtain c where c1: "mmal_clock_create (\<lambda>_. 0) 0 True True True = (MMAL_SUCCESS, Some c)"
    by (simp add: mmal_clock_create_def split_def Let_def)
  note c = c1 create_fields(3,1,2) [OF c1]
  define u where "u = mmal_clock_update_local_time_locked (\<lambda>_. 0) c"
  have u: "\<not> request_threshold_enable u" "\<not> scheduling u" "\<not> stop_thread u"
    using c(2,3,4) by (simp_all add: u_def mmal_clock_update_local_time_locked_def Let_def)
  obtain d where d: "mmal_clock_create_scheduling all_ok u = Some (MMAL_SUCCESS, d)"
      "clock_slots d [0..<CLOCK_REQUEST_SLOTS] []" "scheduling d" "stop_thread d = stop_thread u"
    by (rule create_scheduling_ok)
  obtain st c' where c': "add_request 0 0 None None d = Some (st, c')" "scheduling c'"
    using add_request_slots [OF d(2) _ d(3), of 0 0 None None] d(4) u(3) by auto
  have "mmal_clock_request_add (\<lambda>_. 0) all_ok 0 0 None None c = Some (st, c')"
    using u d(1) c'(1) by (simp add: request_add_unfold u_def [symmetric] Let_def)
  then have "clock_reachable (\<lambda>_. 0) c'"
    using clock_reachable.create [OF c(1)] by (blast intro: clock_reachable.step clock_step.request_add)
  with c'(2) show ?thesis by blast
qed


text \<open>The error path that creates the scheduling objects is not repeatable: when the worker
  thread cannot be created, the two lists are destroyed but the pointers to them are kept, and if
  the next request then fails to create its timer, the error path destroys the same lists again.\<close>

theorem clock_scheduling_double_free:
  assumes "\<not> scheduling c" and "\<not> request_threshold_enable c"
    and "timer_ok e" and "semaphore_ok e" and "free_list_ok e" and "pending_list_ok e"
    and "\<not> thread_ok e" and "\<not> timer_ok e'"
  shows "\<exists>c'. mmal_clock_request_add rtc e t cb d p c = Some (MMAL_ENOSPC, c')
    \<and> mmal_clock_request_add rtc e' t' cb' d' p' c' = None"
proof -
  define u where "u = mmal_clock_update_local_time_locked rtc c"
  have u: "\<not> scheduling u" "\<not> request_threshold_enable u"
    using assms(1,2) by (simp_all add: u_def mmal_clock_update_local_time_locked_def Let_def)
  obtain l where l: "mmal_list_create True True = Some l" by (simp add: mmal_list_create_def)
  define u1 where "u1 = u\<lparr>ck_event := 0, list_free := ListLive l, list_pending := ListLive l\<rparr>"
  define v where "v = foldl push_slot u1 [0..<CLOCK_REQUEST_SLOTS]"
  have "clock_lists u1 [] []"
    using list_create_dll [OF l] by (simp add: u1_def clock_lists_def ml.two_lists_def)
  then have v: "clock_lists v [0..<CLOCK_REQUEST_SLOTS] []" "core v = core u1"
    unfolding v_def using push_slot_lists [of u1 "[]" "[]" "[0..<CLOCK_REQUEST_SLOTS]"] by simp_all
  define c' where "c' = v\<lparr>list_free := ListFreed, list_pending := ListFreed, ck_event := 0,
      ck_timer := None\<rparr>"
  have "mmal_clock_create_scheduling e u = scheduling_error v"
    using assms(3-7) l by (simp add: mmal_clock_create_scheduling_def as_ptr_def v_def u1_def Let_def)
  also have "\<dots> = Some (MMAL_ENOSPC, c')"
    using v(1) by (auto simp: scheduling_error_def destroy_list_def mmal_list_destroy_def
        clock_lists_def c'_def)
  finally have 1: "mmal_clock_request_add rtc e t cb d p c = Some (MMAL_ENOSPC, c')"
    using u by (simp add: request_add_unfold u_def [symmetric] Let_def)
  define w where "w = mmal_clock_update_local_time_locked rtc c'"
  have "scheduling v = scheduling u" "request_threshold_enable v = request_threshold_enable u"
    using v(2) [THEN arg_cong [where f = scheduling]] v(2) [THEN arg_cong [where f = request_threshold_enable]]
    by (simp_all add: core_def u1_def)
  then have w: "\<not> scheduling w" "\<not> request_threshold_enable w" "list_free w = ListFreed"
    using u by (simp_all add: w_def mmal_clock_update_local_time_locked_def Let_def c'_def)
  then have "mmal_clock_request_add rtc e' t' cb' d' p' c' = None"
    using assms(8) by (simp add: request_add_unfold w_def [symmetric] Let_def
        mmal_clock_create_scheduling_def scheduling_error_def destroy_list_def mmal_list_destroy_def)
  with 1 show ?thesis by blast
qed

theorem clock_scheduling_double_free_witness:
  "\<exists>c'. mmal_clock_request_add (\<lambda>_. 0) (all_ok\<lparr>thread_ok := False\<rparr>) 5 0 None None zero_clock
      = Some (MMAL_ENOSPC, c')
    \<and> mmal_clock_request_add (\<lambda>_. 0) (all_ok\<lparr>timer_ok := False\<rparr>) 6 0 None None c' = None"
  by (rule clock_scheduling_double_free) (simp_all add: zero_clock_def all_ok_def)

end
