(* ===== verification/PortModules.thy ===== *)
theory PortModules
  imports Lifecycle ClockRequests
begin

text \<open>
  The state of component modules and clock ports, what the modules of several components have in common,
  and two components: components/null_sink.c and components/passthrough.c. Components are the code behind
  the function pointers of their ports (the record \<open>port_ops\<close>) and the providers of the interface
  \<open>component_port\<close>.

  \<open>module_env\<close> is the state of the modules: what the components keep for each port and for themselves
  (\<open>MMAL_PORT_MODULE_T\<close> and \<open>MMAL_COMPONENT_MODULE_T\<close>, which every component defines in its own way: the
  records have the fields of all of them), the context of each clock port and the events in the payloads
  of clock buffers, the bytes that other payloads contain, and the state of the client.
\<close>

subsection \<open>State\<close>

record port_module =
  pm_queue :: "mmal_queue option"
  needs_configuring :: bool
  last_ts :: int
  pm_frame :: mmal_video_specific
  frame_size :: u32
  frame_count :: int

record component_module =
  cm_block :: ptr
  cm_status :: mmal_status
  cm_error :: bool
  enabled_flags :: u32
  sent_flags :: u32

text \<open>The contents of new memory: of the module of a port (the framework clears it) and of a component.\<close>

definition zero_port_module :: port_module where
  "zero_port_module = \<lparr>pm_queue = None, needs_configuring = False, last_ts = 0,
     pm_frame = \<lparr>vs_planes = 0, vs_offset = [0, 0, 0, 0], vs_pitch = [0, 0, 0, 0], vs_flags = 0\<rparr>,
     frame_size = 0, frame_count = 0\<rparr>"

definition new_component_module :: "ptr \<Rightarrow> component_module" where
  "new_component_module block = \<lparr>cm_block = block, cm_status = MMAL_SUCCESS, cm_error = False,
     enabled_flags = 0, sent_flags = 0\<rparr>"

lemma new_module_fields [simp]:
  "cm_block (new_component_module b) = b" "cm_status (new_component_module b) = MMAL_SUCCESS"
  "\<not> cm_error (new_component_module b)" "enabled_flags (new_component_module b) = 0"
  "sent_flags (new_component_module b) = 0" "pm_queue zero_port_module = None"
  "\<not> needs_configuring zero_port_module"
  by (simp_all add: new_component_module_def zero_port_module_def)

text \<open>A clock event. Its union is the value read as each of its members; an event is read as the member that
  its \<open>id\<close> names.\<close>

record clock_event =
  ce_id :: u32
  ce_magic :: u32
  ce_buffer :: ptr
  ce_enable :: bool
  ce_scale :: mmal_rational
  ce_media_time :: int
  ce_update_threshold :: "int \<times> int"
  ce_discont_threshold :: "int \<times> int"
  ce_request_threshold :: "int \<times> bool"
  ce_info :: "int \<times> u32"
  ce_latency :: "int \<times> int \<times> int"

text \<open>The context of a clock port. \<open>clk_locked\<close> says that the lock of the clock is held, which it is while the
  clock calls back. \<open>clk_rtc\<close> are the values of the microsecond counter that the clock reads one after
  the other, and \<open>clk_creations\<close> tells which of the objects for its requests can be created when so many
  values have been read.\<close>

record clock_port =
  clk_event_cb :: "nat option"
  clk_queue :: "mmal_queue option"
  clk_clock :: "clock option"
  is_reference :: bool
  buffer_info_reporting :: bool
  clk_locked :: bool
  clk_rtc :: rtc
  clk_creations :: "nat \<Rightarrow> sched_env"

record 'c module_env =
  port_modules :: "addr \<Rightarrow> port_module"
  component_modules :: "addr \<Rightarrow> component_module"
  clock_ports :: "addr \<Rightarrow> clock_port"
  clock_events :: "addr \<Rightarrow> clock_event"
  payload_bytes :: "addr \<Rightarrow> u8 list"
  client :: 'c

type_synonym 'c mworld = "'c module_env world"

definition upd_modules :: "('c module_env \<Rightarrow> 'c module_env) \<Rightarrow> 'c mworld \<Rightarrow> 'c mworld" where
  "upd_modules f = upd_env (\<lambda>e. e\<lparr>modules := f (modules e)\<rparr>)"

definition pmod_at :: "'c mworld \<Rightarrow> addr \<Rightarrow> port_module" where
  "pmod_at m p = port_modules (modules (env (ctx m))) p"

definition upd_pmod :: "addr \<Rightarrow> (port_module \<Rightarrow> port_module) \<Rightarrow> 'c mworld \<Rightarrow> 'c mworld" where
  "upd_pmod p f = upd_modules (\<lambda>x. x\<lparr>port_modules := (port_modules x)(p := f (port_modules x p))\<rparr>)"

definition cmod_at :: "'c mworld \<Rightarrow> addr \<Rightarrow> component_module" where
  "cmod_at m c = component_modules (modules (env (ctx m))) c"

definition upd_cmod :: "addr \<Rightarrow> (component_module \<Rightarrow> component_module) \<Rightarrow> 'c mworld \<Rightarrow> 'c mworld" where
  "upd_cmod c f = upd_modules (\<lambda>x. x\<lparr>component_modules := (component_modules x)(c := f (component_modules x c))\<rparr>)"

definition client_of :: "'c mworld \<Rightarrow> 'c" where "client_of m = client (modules (env (ctx m)))"

definition upd_client :: "('c \<Rightarrow> 'c) \<Rightarrow> 'c mworld \<Rightarrow> 'c mworld" where
  "upd_client f = upd_modules (\<lambda>x. x\<lparr>client := f (client x)\<rparr>)"

lemmas module_defs = upd_modules_def pmod_at_def upd_pmod_def cmod_at_def upd_cmod_def client_of_def
  upd_client_def upd_env_def set_env_def port_at_def component_at_def pool_at_def upd_port_def upd_component_def

lemma module_simps [simp]:
  "bufs (upd_pmod p f m) = bufs m" "bufs (upd_cmod c g m) = bufs m" "bufs (upd_client d m) = bufs m"
  "port_at (upd_pmod p f m) = port_at m" "port_at (upd_cmod c g m) = port_at m"
  "port_at (upd_client d m) = port_at m"
  "component_at (upd_pmod p f m) = component_at m" "component_at (upd_cmod c g m) = component_at m"
  "component_at (upd_client d m) = component_at m"
  "pool_at (upd_pmod p f m) = pool_at m" "pool_at (upd_cmod c g m) = pool_at m" "pool_at (upd_client d m) = pool_at m"
  "pmod_at (upd_pmod p f m) = (pmod_at m)(p := f (pmod_at m p))" "pmod_at (upd_cmod c g m) = pmod_at m"
  "pmod_at (upd_client d m) = pmod_at m" "pmod_at (upd_port q h m) = pmod_at m"
  "pmod_at (upd_component q h' m) = pmod_at m" "pmod_at (upd_buf b u m) = pmod_at m"
  "pmod_at (m\<lparr>bufs := bs\<rparr>) = pmod_at m" "pmod_at (upd_pool q v m) = pmod_at m"
  "cmod_at (upd_pmod p f m) = cmod_at m" "cmod_at (upd_cmod c g m) = (cmod_at m)(c := g (cmod_at m c))"
  "cmod_at (upd_client d m) = cmod_at m" "cmod_at (upd_port q h m) = cmod_at m"
  "cmod_at (upd_buf b u m) = cmod_at m" "cmod_at (m\<lparr>bufs := bs\<rparr>) = cmod_at m"
  "client_of (upd_pmod p f m) = client_of m" "client_of (upd_cmod c g m) = client_of m"
  "client_of (upd_client d m) = d (client_of m)" "client_of (upd_port q h m) = client_of m"
  "client_of (upd_component q h' m) = client_of m"
  "client_of (upd_buf b u m) = client_of m" "client_of (m\<lparr>bufs := bs\<rparr>) = client_of m"
  "client_of (upd_pool q v m) = client_of m"
  by (simp_all add: module_defs upd_pool_def upd_buf_def fun_eq_iff)

text \<open>\<open>mmal_ports_alloc\<close> with the memory of the modules, which is part of the memory of the ports.\<close>

definition module_ports_alloc ::
    "addr \<Rightarrow> nat \<Rightarrow> mmal_port_type \<Rightarrow> 'c mworld \<Rightarrow> ((addr \<times> addr list) option \<times> 'c mworld) option" where
  "module_ports_alloc c ports_num type m = do {
     (array, m) \<leftarrow> mmal_ports_alloc c ports_num type m;
     Some (array, case array of
                    None \<Rightarrow> m
                  | Some (a, ps) \<Rightarrow> fold (\<lambda>p. upd_pmod p (\<lambda>_. zero_port_module)) ps m)
   }"

text \<open>The queues of ports.\<close>

definition module_get :: "addr \<Rightarrow> 'c mworld \<Rightarrow> (ptr \<times> 'c mworld) option" where
  "module_get p m = do {
     (buffer, q) \<leftarrow> mmal_queue_get (pm_queue (pmod_at m p)) (bufs m);
     Some (buffer, upd_pmod p (\<lambda>r. r\<lparr>pm_queue := q\<rparr>) m)
   }"

definition module_put :: "addr \<Rightarrow> addr \<Rightarrow> 'c mworld \<Rightarrow> 'c mworld" where
  "module_put p b m =
     (let (q, h) = mmal_queue_put (pm_queue (pmod_at m p)) (bufs m) (Some b)
      in upd_pmod p (\<lambda>r. r\<lparr>pm_queue := q\<rparr>) (m\<lparr>bufs := h\<rparr>))"

definition module_put_back :: "addr \<Rightarrow> addr \<Rightarrow> 'c mworld \<Rightarrow> 'c mworld" where
  "module_put_back p b m =
     (let (q, h) = mmal_queue_put_back (pm_queue (pmod_at m p)) (bufs m) (Some b)
      in upd_pmod p (\<lambda>r. r\<lparr>pm_queue := q\<rparr>) (m\<lparr>bufs := h\<rparr>))"

text \<open>\<open>component->input[i]\<close> and \<open>component->output[i]\<close>.\<close>

definition nth_port :: "addr list \<Rightarrow> nat \<Rightarrow> ptr" where
  "nth_port ps i = (if i < length ps then Some (ps ! i) else None)"

text \<open>The loop that flushes the queue of a port; passthrough.c and copy.c have the same one.\<close>

partial_function (option) module_flush_loop :: "'c module_env port_ops \<Rightarrow> addr \<Rightarrow> 'c mworld \<Rightarrow> 'c mworld option" where
  "module_flush_loop ops p m =
     Option.bind (module_get p m) (\<lambda>r.
       if fst r = None then Some (snd r)
       else Option.bind (mmal_port_buffer_header_callback ops p (the (fst r)) (snd r)) (module_flush_loop ops p))"

definition module_port_flush :: "'c module_env port_ops \<Rightarrow> addr \<Rightarrow> 'c mworld \<Rightarrow> (mmal_status \<times> 'c mworld) option" where
  "module_port_flush ops p m = map_option (Pair MMAL_SUCCESS) (module_flush_loop ops p m)"

definition module_port_disable :: "'c module_env port_ops \<Rightarrow> addr \<Rightarrow> 'c mworld \<Rightarrow> (mmal_status \<times> 'c mworld) option" where
  "module_port_disable ops p m = module_port_flush ops p m"

text \<open>Freeing the ports of a component with their queues.\<close>

definition destroy_module_ports :: "addr list \<Rightarrow> ptr \<Rightarrow> 'c mworld \<Rightarrow> 'c mworld option" where
  "destroy_module_ports ps array m =
     (let m = fold (\<lambda>p. upd_pmod p (\<lambda>r. r\<lparr>pm_queue := mmal_queue_destroy (pm_queue r)\<rparr>)) ps m in
      if ps = [] then Some m
      else Option.bind array (\<lambda>a. mmal_ports_free a ps m))"

definition module_component_destroy :: "addr \<Rightarrow> 'c mworld \<Rightarrow> (mmal_status \<times> 'c mworld) option" where
  "module_component_destroy c m = do {
     m \<leftarrow> destroy_module_ports (cp_input (component_at m c)) (input_array (component_at m c)) m;
     m \<leftarrow> destroy_module_ports (cp_output (component_at m c)) (output_array (component_at m c)) m;
     Some (MMAL_SUCCESS, case cm_block (cmod_at m c) of None \<Rightarrow> m | Some a \<Rightarrow> upd_env (core_free a) m)
   }"

subsection \<open>The null sink\<close>

text \<open>The numbers of the functions of the components.\<close>

definition null_sink_fn :: nat where "null_sink_fn = 10"
definition passthrough_fn :: nat where "passthrough_fn = 20"
definition copy_fn :: nat where "copy_fn = 30"
definition copy_output_fn :: nat where "copy_output_fn = 31"

definition null_sink_port_enable :: "addr \<Rightarrow> port_cb option \<Rightarrow> mmal_status" where
  "null_sink_port_enable p cb = MMAL_SUCCESS"
definition null_sink_port_flush :: "addr \<Rightarrow> mmal_status" where "null_sink_port_flush p = MMAL_SUCCESS"
definition null_sink_port_disable :: "addr \<Rightarrow> mmal_status" where "null_sink_port_disable p = MMAL_SUCCESS"
definition null_sink_port_format_commit :: "addr \<Rightarrow> mmal_status" where
  "null_sink_port_format_commit p = MMAL_SUCCESS"

definition null_sink_port_send :: "'m port_ops \<Rightarrow> addr \<Rightarrow> addr \<Rightarrow> 'm world \<Rightarrow> (mmal_status \<times> 'm world) option" where
  "null_sink_port_send ops p b m = do {
     let eos = (bh_flags (bufs m b) AND MMAL_BUFFER_HEADER_FLAG_EOS \<noteq> 0);
     let m = upd_buf b (\<lambda>r. r\<lparr>bh_length := 0\<rparr>) m;
     m \<leftarrow> mmal_port_buffer_header_callback ops p b m;
     if eos then mmal_event_eos_send ops (Some p) m else Some (MMAL_SUCCESS, m)
   }"

definition null_sink_component_destroy :: "addr \<Rightarrow> 'm world \<Rightarrow> (mmal_status \<times> 'm world) option" where
  "null_sink_component_destroy c m =
     (if cp_input (component_at m c) = [] then Some (MMAL_SUCCESS, m)
      else do {
        a \<leftarrow> input_array (component_at m c);
        m \<leftarrow> mmal_ports_free a (cp_input (component_at m c)) m;
        Some (MMAL_SUCCESS, m)
      })"

definition null_sink_ops :: "'m port_ops \<Rightarrow> 'm port_ops" where
  "null_sink_ops ops = ops\<lparr>
     f_enable := (\<lambda>f p cb m. if f = null_sink_fn then Some (null_sink_port_enable p cb, m) else f_enable ops f p cb m),
     f_disable := (\<lambda>f p m. if f = null_sink_fn then Some (null_sink_port_disable p, m) else f_disable ops f p m),
     f_flush := (\<lambda>f p m. if f = null_sink_fn then Some (null_sink_port_flush p, m) else f_flush ops f p m),
     f_send := (\<lambda>f p b m. if f = null_sink_fn then null_sink_port_send ops p b m else f_send ops f p b m),
     f_set_format := (\<lambda>f p m. if f = null_sink_fn then Some (null_sink_port_format_commit p, m)
                              else f_set_format ops f p m),
     f_component_destroy := (\<lambda>f c m. if f = null_sink_fn then null_sink_component_destroy c m
                                     else f_component_destroy ops f c m)\<rparr>"

definition NULLSINK_PORTS_NUM :: nat where "NULLSINK_PORTS_NUM = 1"

definition mmal_component_create_null_sink :: "addr \<Rightarrow> 'm world \<Rightarrow> (mmal_status \<times> 'm world) option" where
  "mmal_component_create_null_sink c m = do {
     let m = upd_component c (\<lambda>r. r\<lparr>cf_destroy := Some null_sink_fn\<rparr>) m;
     (input, m) \<leftarrow> mmal_ports_alloc c NULLSINK_PORTS_NUM MMAL_PORT_TYPE_INPUT m;
     (case input of
        None \<Rightarrow> map_option (\<lambda>(_, m). (MMAL_ENOMEM, m)) (null_sink_component_destroy c m)
      | Some (a, ps) \<Rightarrow>
          let m = upd_component c (\<lambda>r. r\<lparr>cp_input := ps, input_array := Some a\<rparr>) m
          in Some (MMAL_SUCCESS, fold (\<lambda>p. upd_port p (\<lambda>r. r\<lparr>pf_enable := Some null_sink_fn,
               pf_disable := Some null_sink_fn, pf_flush := Some null_sink_fn, pf_send := Some null_sink_fn,
               pf_set_format := Some null_sink_fn, buffer_num_min := 1, buffer_num_recommended := 1\<rparr>)) ps m))
   }"

subsection \<open>The pass-through component\<close>

definition passthrough_port_enable :: "addr \<Rightarrow> port_cb option \<Rightarrow> mmal_status" where
  "passthrough_port_enable p cb = MMAL_SUCCESS"

text \<open>The label \<open>error\<close> of \<open>passthrough_port_send\<close>.\<close>

definition passthrough_send_error ::
    "'c module_env port_ops \<Rightarrow> addr \<Rightarrow> addr \<Rightarrow> addr \<Rightarrow> addr \<Rightarrow> addr \<Rightarrow> mmal_status \<Rightarrow> 'c mworld
      \<Rightarrow> (mmal_status \<times> 'c mworld) option" where
  "passthrough_send_error ops c in_port out_port i out status m = do {
     let m = module_put out_port out (module_put in_port i m);
     (status, m) \<leftarrow> mmal_event_error_send ops c status m;
     if status \<noteq> MMAL_SUCCESS then Some (MMAL_SUCCESS, m)
     else Some (MMAL_SUCCESS, upd_cmod c (\<lambda>r. r\<lparr>cm_error := True\<rparr>) m)
   }"

definition passthrough_port_send ::
    "'c module_env port_ops \<Rightarrow> addr \<Rightarrow> addr \<Rightarrow> 'c mworld \<Rightarrow> (mmal_status \<times> 'c mworld) option" where
  "passthrough_port_send ops p b m =
     (let c = pt_component (port_at m p) in
      if cm_error (cmod_at m c) then Some (MMAL_SUCCESS, module_put p b m)
      else do {
        in_port \<leftarrow> nth_port (cp_input (component_at m c)) (pt_index (port_at m p));
        out_port \<leftarrow> nth_port (cp_output (component_at m c)) (pt_index (port_at m p));
        let is_input = (pt_type (port_at m p) = MMAL_PORT_TYPE_INPUT);
        (other_buffer, m) \<leftarrow> module_get (if is_input then out_port else in_port) m;
        (case other_buffer of
           None \<Rightarrow> Some (MMAL_SUCCESS, module_put p b m)
         | Some o' \<Rightarrow>
             let i = (if is_input then b else o');
                 out = (if is_input then o' else b);
                 (status, m) = mmal_buffer_header_replicate (Some out) (Some i) m
             in
               if status \<noteq> MMAL_SUCCESS then passthrough_send_error ops c in_port out_port i out status m
               else do {
                 let m = upd_buf i (\<lambda>r. r\<lparr>bh_length := 0\<rparr>) m;
                 m \<leftarrow> mmal_port_buffer_header_callback ops in_port i m;
                 m \<leftarrow> mmal_port_buffer_header_callback ops out_port out m;
                 Some (MMAL_SUCCESS, m)
               })
      })"

definition passthrough_port_format_commit :: "addr \<Rightarrow> 'm world \<Rightarrow> (mmal_status \<times> 'm world) option" where
  "passthrough_port_format_commit p m =
     (if pt_type (port_at m p) = MMAL_PORT_TYPE_OUTPUT then Some (MMAL_EINVAL, m)
      else do {
        out \<leftarrow> nth_port (cp_output (component_at m (pt_component (port_at m p)))) (pt_index (port_at m p));
        format_full_copy (pt_format (port_at m out)) (pt_format (port_at m p)) m
      })"

text \<open>Both variables, \<open>in\<close> and \<open>out\<close>, are set to \<open>component->input[port->index]\<close>.\<close>

definition passthrough_port_parameter_set ::
    "addr \<Rightarrow> mmal_param \<Rightarrow> 'm world \<Rightarrow> (mmal_status \<times> 'm world) option" where
  "passthrough_port_parameter_set p param m = do {
     let c = pt_component (port_at m p);
     i \<leftarrow> nth_port (cp_input (component_at m c)) (pt_index (port_at m p));
     out \<leftarrow> nth_port (cp_input (component_at m c)) (pt_index (port_at m p));
     (case param of
        ParamBufferRequirements num_min sz_min num_rec sz_rec \<Rightarrow>
          let r = port_at m p;
              set_req = (\<lambda>x. x\<lparr>buffer_num_min := max (buffer_num_min r) num_min,
                buffer_num_recommended := max (buffer_num_recommended r) num_rec,
                buffer_size_min := max (buffer_size_min r) sz_min,
                buffer_size_recommended := max (buffer_size_recommended r) sz_rec\<rparr>)
          in Some (MMAL_SUCCESS, upd_port out set_req (upd_port i set_req m))
      | _ \<Rightarrow> Some (MMAL_ENOSYS, m))
   }"

definition passthrough_ops :: "'c module_env port_ops \<Rightarrow> 'c module_env port_ops" where
  "passthrough_ops ops = ops\<lparr>
     f_enable := (\<lambda>f p cb m. if f = passthrough_fn then Some (passthrough_port_enable p cb, m)
                             else f_enable ops f p cb m),
     f_disable := (\<lambda>f p m. if f = passthrough_fn then module_port_disable ops p m else f_disable ops f p m),
     f_flush := (\<lambda>f p m. if f = passthrough_fn then module_port_flush ops p m else f_flush ops f p m),
     f_send := (\<lambda>f p b m. if f = passthrough_fn then passthrough_port_send ops p b m else f_send ops f p b m),
     f_set_format := (\<lambda>f p m. if f = passthrough_fn then passthrough_port_format_commit p m
                              else f_set_format ops f p m),
     f_parameter_set := (\<lambda>f p x m. if f = passthrough_fn then passthrough_port_parameter_set p x m
                                   else f_parameter_set ops f p x m),
     f_component_destroy := (\<lambda>f c m. if f = passthrough_fn then module_component_destroy c m
                                     else f_component_destroy ops f c m)\<rparr>"

text \<open>Setting up the ports of a list, until a queue cannot be created.\<close>

fun setup_ports ::
    "'c module_env port_ops \<Rightarrow> (mmal_port \<Rightarrow> mmal_port) \<Rightarrow> addr list \<Rightarrow> 'c mworld \<Rightarrow> bool \<times> 'c mworld" where
  "setup_ports ops f [] m = (True, m)"
| "setup_ports ops f (p # ps) m =
     (let (b1, b2, b3) = queue_parts_ok ops (env (ctx m));
          queue = mmal_queue_create b1 b2 b3;
          m = upd_pmod p (\<lambda>r. r\<lparr>pm_queue := queue\<rparr>) (upd_port p f m)
      in if queue = None then (False, m) else setup_ports ops f ps m)"

definition PASSTHROUGH_PORTS_NUM :: nat where "PASSTHROUGH_PORTS_NUM = 1"

definition passthrough_port_setup :: "mmal_port \<Rightarrow> mmal_port" where
  "passthrough_port_setup r = r\<lparr>pf_enable := Some passthrough_fn, pf_disable := Some passthrough_fn,
     pf_flush := Some passthrough_fn, pf_send := Some passthrough_fn, pf_set_format := Some passthrough_fn,
     pf_parameter_set := Some passthrough_fn, buffer_num_min := 1, buffer_num_recommended := 0\<rparr>"

text \<open>The label \<open>error\<close> of the constructors.\<close>

definition module_create_error :: "addr \<Rightarrow> mmal_status \<Rightarrow> 'c mworld \<Rightarrow> (mmal_status \<times> 'c mworld) option" where
  "module_create_error c status m = map_option (\<lambda>(_, m). (status, m)) (module_component_destroy c m)"

definition mmal_component_create_passthrough ::
    "'c module_env port_ops \<Rightarrow> addr \<Rightarrow> 'c mworld \<Rightarrow> (mmal_status \<times> 'c mworld) option" where
  "mmal_component_create_passthrough ops c m =
     (let (block, e) = core_malloc (env (ctx m));
          m = set_env e m
      in if block = None then Some (MMAL_ENOMEM, m)
      else do {
        let m = upd_cmod c (\<lambda>_. new_component_module block) m;
        let m = upd_component c (\<lambda>r. r\<lparr>cf_destroy := Some passthrough_fn\<rparr>) m;
        (input, m) \<leftarrow> module_ports_alloc c PASSTHROUGH_PORTS_NUM MMAL_PORT_TYPE_INPUT m;
        (case input of
           None \<Rightarrow> module_create_error c MMAL_ENOMEM m
         | Some (a, ps) \<Rightarrow>
             let m = upd_component c (\<lambda>r. r\<lparr>cp_input := ps, input_array := Some a\<rparr>) m;
                 (ok, m) = setup_ports ops passthrough_port_setup ps m
             in if \<not> ok then module_create_error c MMAL_ENOMEM m
             else do {
               (output, m) \<leftarrow> module_ports_alloc c PASSTHROUGH_PORTS_NUM MMAL_PORT_TYPE_OUTPUT m;
               (case output of
                  None \<Rightarrow> module_create_error c MMAL_ENOMEM m
                | Some (a, ps) \<Rightarrow>
                    let m = upd_component c (\<lambda>r. r\<lparr>cp_output := ps, output_array := Some a\<rparr>) m;
                        (ok, m) = setup_ports ops (\<lambda>r. (passthrough_port_setup r)
                          \<lparr>capabilities := MMAL_PORT_CAPABILITY_PASSTHROUGH\<rparr>) ps m
                    in if \<not> ok then module_create_error c MMAL_ENOMEM m else Some (MMAL_SUCCESS, m))
             })
      })"

end
