(* ===== verification/CopyModule.thy ===== *)
theory CopyModule
  imports PortModules
begin

subsection \<open>The copy component\<close>

definition copy_port_send :: "addr \<Rightarrow> addr \<Rightarrow> 'c mworld \<Rightarrow> (mmal_status \<times> 'c mworld) option" where
  "copy_port_send p b m =
     Some (MMAL_SUCCESS, snd (mmal_component_action_trigger (pt_component (port_at m p)) (module_put p b m)))"

text \<open>\<open>memcpy(out->data, in->data + in->offset, in->length)\<close>.\<close>

definition copy_payload :: "addr \<Rightarrow> addr \<Rightarrow> 'c mworld \<Rightarrow> 'c mworld option" where
  "copy_payload out i m = do {
     d \<leftarrow> bh_data (bufs m out);
     s \<leftarrow> bh_data (bufs m i);
     let n = unat (bh_length (bufs m i));
     let k = unat (bh_offset (bufs m i));
     let bytes = payload_bytes (modules (env (ctx m)));
     if k + n \<le> length (bytes s) \<and> n \<le> length (bytes d)
     then Some (upd_modules (\<lambda>x. x\<lparr>payload_bytes := (payload_bytes x)
            (d := take n (drop k (bytes s)) @ drop n (bytes d))\<rparr>) m)
     else None
   }"

text \<open>\<open>mmal_event_error_send\<close>, whose result is only logged.\<close>

definition send_error :: "'m port_ops \<Rightarrow> addr \<Rightarrow> mmal_status \<Rightarrow> 'm world \<Rightarrow> 'm world option" where
  "send_error ops c status m = map_option snd (mmal_event_error_send ops c status m)"

definition copy_handle_event ::
    "'c module_env port_ops \<Rightarrow> addr \<Rightarrow> addr \<Rightarrow> addr \<Rightarrow> 'c mworld \<Rightarrow> 'c mworld option" where
  "copy_handle_event ops c port_in i m = do {
     (event, m) \<leftarrow> mmal_event_format_changed_get i m;
     if event = None then Some m
     else do {
       (status, m) \<leftarrow> format_full_copy (pt_format (port_at m port_in)) event m;
       let m = upd_cmod c (\<lambda>r. r\<lparr>cm_status := status\<rparr>) m;
       m \<leftarrow> (if status = MMAL_SUCCESS then do {
               f \<leftarrow> pf_set_format (port_at m port_in);
               (status, m) \<leftarrow> f_set_format ops f port_in m;
               Some (upd_cmod c (\<lambda>r. r\<lparr>cm_status := status\<rparr>) m)
             } else Some m);
       if cm_status (cmod_at m c) \<noteq> MMAL_SUCCESS then send_error ops c (cm_status (cmod_at m c)) m else Some m
     }
   }"

text \<open>The result is whether to go on. When the output buffer is too small both buffers have been taken from
  their queues, and the function returns.\<close>

definition copy_do_processing ::
    "'c module_env port_ops \<Rightarrow> addr \<Rightarrow> 'c mworld \<Rightarrow> (bool \<times> 'c mworld) option" where
  "copy_do_processing ops c m = do {
     port_in \<leftarrow> nth_port (cp_input (component_at m c)) 0;
     port_out \<leftarrow> nth_port (cp_output (component_at m c)) 0;
     if needs_configuring (pmod_at m port_out) then Some (False, m)
     else do {
       (buffer, m) \<leftarrow> module_get port_in m;
       (case buffer of
          None \<Rightarrow> Some (False, m)
        | Some i \<Rightarrow>
            if bh_cmd (bufs m i) \<noteq> 0 then do {
              m \<leftarrow> copy_handle_event ops c port_in i m;
              let m = upd_buf i (\<lambda>r. r\<lparr>bh_length := 0\<rparr>) m;
              m \<leftarrow> mmal_port_buffer_header_callback ops port_in i m;
              Some (True, m)
            }
            else if cm_status (cmod_at m c) \<noteq> MMAL_SUCCESS then Some (False, module_put_back port_in i m)
            else do {
              (buffer, m) \<leftarrow> module_get port_out m;
              (case buffer of
                 None \<Rightarrow> Some (False, module_put_back port_in i m)
               | Some out \<Rightarrow>
                   if bh_alloc_size (bufs m out) < bh_length (bufs m i) then do {
                     let m = upd_cmod c (\<lambda>r. r\<lparr>cm_status := MMAL_EINVAL\<rparr>) m;
                     m \<leftarrow> send_error ops c MMAL_EINVAL m;
                     Some (False, m)
                   }
                   else do {
                     let m = snd (mmal_buffer_header_mem_lock i (snd (mmal_buffer_header_mem_lock out m)));
                     m \<leftarrow> copy_payload out i m;
                     let m = mmal_buffer_header_mem_unlock out (mmal_buffer_header_mem_unlock i m);
                     let s = bufs m i;
                     let m = upd_buf out (\<lambda>r. r\<lparr>bh_length := bh_length s, bh_offset := 0, bh_flags := bh_flags s,
                                 bh_pts := bh_pts s, bh_dts := bh_dts s, bh_type := bh_type s\<rparr>) m;
                     let m = upd_buf i (\<lambda>r. r\<lparr>bh_length := 0\<rparr>) m;
                     m \<leftarrow> mmal_port_buffer_header_callback ops port_in i m;
                     m \<leftarrow> mmal_port_buffer_header_callback ops port_out out m;
                     Some (True, m)
                   })
            })
     }
   }"

partial_function (option) copy_do_processing_loop ::
    "'c module_env port_ops \<Rightarrow> addr \<Rightarrow> 'c mworld \<Rightarrow> 'c mworld option" where
  "copy_do_processing_loop ops c m =
     Option.bind (copy_do_processing ops c m) (\<lambda>r.
       if fst r then copy_do_processing_loop ops c (snd r) else Some (snd r))"

definition copy_input_port_format_commit ::
    "'c module_env port_ops \<Rightarrow> addr \<Rightarrow> 'c mworld \<Rightarrow> (mmal_status \<times> 'c mworld) option" where
  "copy_input_port_format_commit ops p m = do {
     out \<leftarrow> nth_port (cp_output (component_at m (pt_component (port_at m p)))) 0;
     fi \<leftarrow> pt_format (port_at m p);
     fo \<leftarrow> pt_format (port_at m out);
     let size = max (buffer_size_min (port_at m p)) (buffer_size (port_at m p));
     if mmal_format_compare fi fo (fmts (env (ctx m))) = 0
        \<and> buffer_size_min (port_at m out) = buffer_size_recommended (port_at m out)
        \<and> buffer_size_min (port_at m out) = size
     then Some (MMAL_SUCCESS, m)
     else if \<not> pt_enabled (port_at m out)
     then format_full_copy (Some fo) (Some fi)
            (upd_port out (\<lambda>r. r\<lparr>buffer_size_min := size, buffer_size_recommended := size\<rparr>) m)
     else do {
       (status, buffer, m) \<leftarrow> mmal_port_event_get ops (Some out) MMAL_EVENT_FORMAT_CHANGED m;
       if status \<noteq> MMAL_SUCCESS then Some (status, m)
       else do {
         b \<leftarrow> buffer;
         (event, m) \<leftarrow> mmal_event_format_changed_get b m;
         fe \<leftarrow> event;
         let m = upd_fmts (mmal_format_copy fe fi) m;
         a \<leftarrow> bh_data (bufs m b);
         let m = set_event a (EventFormatChanged size (buffer_num_min (port_at m out)) size
                    (buffer_num_recommended (port_at m out))) m;
         let m = upd_pmod out (\<lambda>r. r\<lparr>needs_configuring := True\<rparr>) m;
         m \<leftarrow> mmal_port_event_send ops out b m;
         Some (status, m)
       }
     }
   }"

definition copy_output_port_format_commit :: "addr \<Rightarrow> 'c mworld \<Rightarrow> (mmal_status \<times> 'c mworld) option" where
  "copy_output_port_format_commit p m = do {
     i \<leftarrow> nth_port (cp_input (component_at m (pt_component (port_at m p)))) 0;
     fo \<leftarrow> pt_format (port_at m p);
     fi \<leftarrow> pt_format (port_at m i);
     if mmal_format_compare fo fi (fmts (env (ctx m))) \<noteq> 0 then Some (MMAL_EINVAL, m)
     else Some (MMAL_SUCCESS, snd (mmal_component_action_trigger (pt_component (port_at m p))
                 (upd_pmod p (\<lambda>r. r\<lparr>needs_configuring := False\<rparr>) m)))
   }"

definition copy_port_enable ::
    "'c module_env port_ops \<Rightarrow> addr \<Rightarrow> port_cb option \<Rightarrow> 'c mworld \<Rightarrow> (mmal_status \<times> 'c mworld) option" where
  "copy_port_enable ops p cb m =
     (if pt_type (port_at m p) = MMAL_PORT_TYPE_INPUT
      then Option.bind (pf_set_format (port_at m p)) (\<lambda>f. f_set_format ops f p m)
      else Some (MMAL_SUCCESS, m))"

definition copy_format_ops :: "'c module_env port_ops \<Rightarrow> 'c module_env port_ops" where
  "copy_format_ops ops = ops\<lparr>
     f_set_format := (\<lambda>f p m. if f = copy_fn then copy_input_port_format_commit ops p m
                              else if f = copy_output_fn then copy_output_port_format_commit p m
                              else f_set_format ops f p m)\<rparr>"

definition copy_ops :: "'c module_env port_ops \<Rightarrow> 'c module_env port_ops" where
  "copy_ops ops0 = (let ops = copy_format_ops ops0 in ops\<lparr>
     f_enable := (\<lambda>f p cb m. if f = copy_fn then copy_port_enable ops p cb m else f_enable ops f p cb m),
     f_disable := (\<lambda>f p m. if f = copy_fn then module_port_disable ops p m else f_disable ops f p m),
     f_flush := (\<lambda>f p m. if f = copy_fn then module_port_flush ops p m else f_flush ops f p m),
     f_send := (\<lambda>f p b m. if f = copy_fn then copy_port_send p b m else f_send ops f p b m),
     f_action := (\<lambda>f c m. if f = copy_fn then copy_do_processing_loop ops c m else f_action ops f c m),
     f_component_destroy := (\<lambda>f c m. if f = copy_fn then module_component_destroy c m
                                     else f_component_destroy ops f c m)\<rparr>)"

definition copy_port_setup :: "nat \<Rightarrow> mmal_port \<Rightarrow> mmal_port" where
  "copy_port_setup fmt r = r\<lparr>pf_enable := Some copy_fn, pf_disable := Some copy_fn, pf_flush := Some copy_fn,
     pf_send := Some copy_fn, pf_set_format := Some fmt, buffer_num_min := 1, buffer_num_recommended := 0\<rparr>"

definition mmal_component_create_copy ::
    "'c module_env port_ops \<Rightarrow> addr \<Rightarrow> 'c mworld \<Rightarrow> (mmal_status \<times> 'c mworld) option" where
  "mmal_component_create_copy ops c m =
     (let (block, e) = core_malloc (env (ctx m));
          m = set_env e m
      in if block = None then Some (MMAL_ENOMEM, m)
      else do {
        let m = upd_cmod c (\<lambda>_. new_component_module block) m;
        let m = upd_component c (\<lambda>r. r\<lparr>cf_destroy := Some copy_fn\<rparr>) m;
        (input, m) \<leftarrow> module_ports_alloc c 1 MMAL_PORT_TYPE_INPUT m;
        (case input of
           None \<Rightarrow> module_create_error c MMAL_ENOMEM m
         | Some (a, ps) \<Rightarrow>
             let m = upd_component c (\<lambda>r. r\<lparr>cp_input := ps, input_array := Some a\<rparr>) m;
                 (ok, m) = setup_ports ops (copy_port_setup copy_fn) ps m
             in if \<not> ok then module_create_error c MMAL_ENOMEM m
             else do {
               (output, m) \<leftarrow> module_ports_alloc c 1 MMAL_PORT_TYPE_OUTPUT m;
               (case output of
                  None \<Rightarrow> module_create_error c MMAL_ENOMEM m
                | Some (a, ps) \<Rightarrow>
                    let m = upd_component c (\<lambda>r. r\<lparr>cp_output := ps, output_array := Some a\<rparr>) m;
                        (ok, m) = setup_ports ops (copy_port_setup copy_output_fn) ps m
                    in if \<not> ok then module_create_error c MMAL_ENOMEM m
                    else
                      let (status, m) = mmal_component_action_register c copy_fn m in
                      if status \<noteq> MMAL_SUCCESS then module_create_error c status m else Some (MMAL_SUCCESS, m))
             })
      })"

subsection \<open>The copy component as a provider\<close>

text \<open>The queue of port \<open>p\<close> holds \<open>xs\<close>, with a token for each.\<close>

definition module_holds :: "addr \<Rightarrow> 'c mworld \<Rightarrow> addr list \<Rightarrow> bool" where
  "module_holds p m xs \<longleftrightarrow> (\<exists>q. pm_queue (pmod_at m p) = Some q \<and> qrep (bufs m) q xs \<and> q_sem q = length xs)"

lemma module_get_nil:
  assumes "module_holds p m []"
  shows "\<exists>m'. module_get p m = Some (None, m') \<and> module_holds p m' [] \<and> bufs m' = bufs m
    \<and> port_at m' = port_at m \<and> client_of m' = client_of m"
  using assms by (auto simp: module_holds_def module_get_def sem_claim_def)

lemma module_get_cons:
  assumes "module_holds p m (x # xs)"
  shows "\<exists>m'. module_get p m = Some (Some x, m') \<and> module_holds p m' xs \<and> bufs m' = bufs m
    \<and> port_at m' = port_at m \<and> component_at m' = component_at m \<and> cmod_at m' = cmod_at m
    \<and> client_of m' = client_of m \<and> (\<forall>q. q \<noteq> p \<longrightarrow> pmod_at m' q = pmod_at m q)
    \<and> needs_configuring (pmod_at m' p) = needs_configuring (pmod_at m p) \<and> pool_at m' = pool_at m"
proof -
  obtain q where q: "pm_queue (pmod_at m p) = Some q" "qrep (bufs m) q (x # xs)" "q_sem q = Suc (length xs)"
    using assms by (auto simp: module_holds_def)
  obtain q' where q': "mmal_queue_get_core (q\<lparr>q_sem := length xs\<rparr>) (bufs m) = Some (x, q')" "qrep (bufs m) q' xs"
    "q_sem q' = length xs"
    using get_core_Cons [of "bufs m" "q\<lparr>q_sem := length xs\<rparr>" x xs] q(2) by auto
  have "sem_claim q = Some (q\<lparr>q_sem := length xs\<rparr>)" using q(3) by (simp add: sem_claim_def)
  then show ?thesis
    using q(1) q' by (simp add: module_get_def module_holds_def)
qed

lemma module_put_ok:
  assumes "module_holds p m xs" and "b \<notin> set xs"
  shows "module_holds p (module_put p b m) (xs @ [b])" and "port_at (module_put p b m) = port_at m"
    and "same_bufs (- set (xs @ [b])) (bufs m) (bufs (module_put p b m))"
    and "client_of (module_put p b m) = client_of m" and "component_at (module_put p b m) = component_at m"
proof -
  obtain q where q: "pm_queue (pmod_at m p) = Some q" "qrep (bufs m) q xs" "q_sem q = length xs"
    using assms(1) by (auto simp: module_holds_def)
  obtain q' h' where put: "queue_put q (bufs m) b = (q', h')" "qrep h' q' (xs @ [b])" "q_sem q' = length xs + 1"
    "same_bufs (- set (xs @ [b])) (bufs m) h'"
    using queue_put_qrep [OF q(2) assms(2)] q(3) by auto
  have "module_put p b m = upd_pmod p (\<lambda>r. r\<lparr>pm_queue := Some q'\<rparr>) (m\<lparr>bufs := h'\<rparr>)"
    using q(1) put(1) by (simp add: module_put_def)
  then show "module_holds p (module_put p b m) (xs @ [b])" "port_at (module_put p b m) = port_at m"
    "same_bufs (- set (xs @ [b])) (bufs m) (bufs (module_put p b m))"
    "client_of (module_put p b m) = client_of m" "component_at (module_put p b m) = component_at m"
    using put(2,3,4) by (simp_all add: module_holds_def)
qed

text \<open>A client that notes which buffers it got through which port.\<close>

type_synonym log = "(addr \<times> addr) list"

definition note_buffer :: "addr \<Rightarrow> addr \<Rightarrow> log mworld \<Rightarrow> log mworld" where
  "note_buffer p b = upd_client (\<lambda>l. l @ [(p, b)])"

definition got :: "addr \<Rightarrow> log mworld \<Rightarrow> addr list" where
  "got p m = map snd (filter (\<lambda>x. fst x = p) (client_of m))"

definition noting_ops :: "log module_env port_ops" where
  "noting_ops = plain_ops note_buffer"

lemma module_holds_simps [simp]:
  "module_holds p (upd_port q f m) xs = module_holds p m xs"
  "module_holds p (upd_pool q v m) xs = module_holds p m xs"
  "module_holds p (upd_client d m) xs = module_holds p m xs"
  "module_holds p (upd_component c g m) xs = module_holds p m xs"
  by (simp_all add: module_holds_def)

lemma got_simps [simp]:
  "got p (upd_port q f m) = got p m" "got p (upd_pool q v m) = got p m" "got p (upd_buf b g m) = got p m"
  "got p (upd_component c h m) = got p m" "got p (note_buffer p b m) = got p m @ [b]"
  by (simp_all add: got_def note_buffer_def)

lemma module_holds_buf:
  "module_holds p m xs \<Longrightarrow> b \<notin> set xs \<Longrightarrow> module_holds p (upd_buf b g m) xs"
  by (auto simp: module_holds_def elim!: qrep_links)

lemma module_holds_length: "module_holds p m xs \<Longrightarrow> module_holds p (upd_buf b (\<lambda>r. r\<lparr>bh_length := l\<rparr>) m) xs"
  by (auto simp: module_holds_def elim!: qrep_links)

lemma port_client_module:
  assumes "\<And>f q b m. f_client_cb ops f q b m = Some (note_buffer q b m)"
  shows "port_client ops p w (module_holds p) (got p)"
proof
  fix m :: "log mworld" and xs b
  assume "module_holds p m xs" "b \<notin> set xs"
  then show "\<exists>m'. f_client_cb ops (w_client w) p b m = Some m' \<and> module_holds p m' xs
      \<and> port_at m' = port_at m \<and> same_bufs (- {b}) (bufs m) (bufs m') \<and> got p m' = got p m @ [b]"
    using assms by (simp add: same_bufs_def) (simp add: note_buffer_def)
qed (simp_all add: module_holds_buf module_holds_length)

lemma noting_client [simp]:
  "f_client_cb noting_ops f p b m = Some (note_buffer p b m)"
  "f_client_cb (copy_format_ops noting_ops) f p b m = Some (note_buffer p b m)"
  by (simp_all add: copy_format_ops_def noting_ops_def plain_ops_def)

interpretation copy_client: port_client "copy_format_ops noting_ops" p w "module_holds p" "got p" for p w
  by (rule port_client_module) simp

lemma flush_loop_ok:
  assumes "module_holds p m xs" and "distinct xs" and "counted (length xs + n) (port_at m p)"
    and "length xs + n < 2 ^ 31" and "wired w (port_at m p)"
    and "\<And>f q b m. f_client_cb ops f q b m = Some (note_buffer q b m)"
  shows "\<exists>m'. module_flush_loop ops p m = Some m' \<and> module_holds p m' []
    \<and> port_at m' = (port_at m)(p := with_count n (port_at m p))
    \<and> same_bufs (- set xs) (bufs m) (bufs m') \<and> got p m' = got p m @ xs"
  using assms
proof (induction xs arbitrary: m)
  case Nil
  obtain m1 where m1: "module_get p m = Some (None, m1)" "module_holds p m1 []" "bufs m1 = bufs m"
    "port_at m1 = port_at m" "client_of m1 = client_of m"
    using module_get_nil [OF Nil.prems(1)] by blast
  have "(port_at m)(p := with_count n (port_at m p)) = port_at m"
    using Nil.prems(3) by (simp add: counted_def fun_upd_idem_iff)
  then show ?case using m1 by (subst module_flush_loop.simps) (simp add: same_bufs_def got_def)
next
  case (Cons x xs)
  obtain m1 where m1: "module_get p m = Some (Some x, m1)" "module_holds p m1 xs" "bufs m1 = bufs m"
    "port_at m1 = port_at m" "client_of m1 = client_of m"
    using module_get_cons [OF Cons.prems(1)] by blast
  have cb: "buffer_header_callback (port_at m1 p) = Some (ClientCb (w_client w))"
    using Cons.prems(5) m1(4) by (simp add: wired_def)
  obtain m2 where m2: "mmal_port_buffer_header_callback ops p x m1 = Some m2"
    "module_holds p m2 xs" "port_at m2 = (port_at m1)(p := with_count (length xs + n) (port_at m1 p))"
    "same_bufs (- {x}) (bufs m1) (bufs m2)" "got p m2 = got p m1 @ [x]"
    using port_client.callback_counted [OF port_client_module [OF Cons.prems(6)] m1(2) _ _ _ cb, of x "length xs + n"] Cons.prems(1-5) m1(4) by auto
  have "\<exists>m'. module_flush_loop ops p m2 = Some m' \<and> module_holds p m' []
    \<and> port_at m' = (port_at m2)(p := with_count n (port_at m2 p))
    \<and> same_bufs (- set xs) (bufs m2) (bufs m') \<and> got p m' = got p m2 @ xs"
    by (rule Cons.IH [OF _ _ _ _ _ Cons.prems(6)]) (use Cons.prems(1-5) m1 m2 in auto)
  then obtain m3 where m3: "module_flush_loop ops p m2 = Some m3" "module_holds p m3 []"
    "port_at m3 = (port_at m2)(p := with_count n (port_at m2 p))"
    "same_bufs (- set xs) (bufs m2) (bufs m3)" "got p m3 = got p m2 @ xs"
    by blast
  have "module_flush_loop ops p m = Some m3"
    using m1(1) m2(1) m3(1) by (subst module_flush_loop.simps) simp
  moreover have "same_bufs (- set (x # xs)) (bufs m) (bufs m3)"
    using m1(3) m2(4) m3(4) by (auto simp: same_bufs_def)
  moreover have "got p m1 = got p m" using m1(5) by (simp add: got_def)
  ultimately show ?case using m1 m2 m3 by auto
qed

definition copy_wiring :: port_wiring where
  "copy_wiring = \<lparr>w_send = copy_fn, w_flush = copy_fn, w_disable = copy_fn, w_client = 0\<rparr>"

abbreviation copy_world_ops :: "log module_env port_ops" where
  "copy_world_ops \<equiv> copy_ops noting_ops"

lemma holds_distinct: "module_holds p m xs \<Longrightarrow> distinct xs"
  by (auto simp: module_holds_def qrep_def)

interpretation copy_port: component_port copy_world_ops p copy_wiring "module_holds p" "got p" for p
proof (intro component_port.intro component_port_axioms.intro)
  show "port_client copy_world_ops p copy_wiring (module_holds p) (got p)"
    by (rule port_client_module) (simp add: copy_ops_def copy_format_ops_def noting_ops_def plain_ops_def Let_def)
next
  fix m :: "log mworld" and xs b
  assume h: "module_holds p m xs" "b \<notin> set xs"
  have "copy_port_send p b m = Some (MMAL_SUCCESS, snd (mmal_component_action_trigger (pt_component (port_at m p)) (module_put p b m)))"
    by (simp add: copy_port_send_def)
  then show "\<exists>m'. f_send copy_world_ops (w_send copy_wiring) p b m = Some (MMAL_SUCCESS, m')
      \<and> module_holds p m' (xs @ [b]) \<and> port_at m' = port_at m
      \<and> same_bufs (- set (xs @ [b])) (bufs m) (bufs m') \<and> got p m' = got p m"
    using module_put_ok [OF h]
    by (auto simp: copy_ops_def copy_wiring_def Let_def mmal_component_action_trigger_def got_def)
next
  fix m :: "log mworld" and xs n
  assume h: "module_holds p m xs" "counted (length xs + n) (port_at m p)" "length xs + n < 2 ^ 31"
    "wired copy_wiring (port_at m p)"
  obtain m' where m': "module_flush_loop (copy_format_ops noting_ops) p m = Some m'" "module_holds p m' []"
    "port_at m' = (port_at m)(p := with_count n (port_at m p))"
    "same_bufs (- set xs) (bufs m) (bufs m')" "got p m' = got p m @ xs"
    using flush_loop_ok [OF h(1) holds_distinct [OF h(1)] h(2-4) noting_client(2)] by blast
  then show "\<exists>m'. f_flush copy_world_ops (w_flush copy_wiring) p m = Some (MMAL_SUCCESS, m') \<and> module_holds p m' []
      \<and> port_at m' = (port_at m)(p := with_count n (port_at m p))
      \<and> same_bufs (- set xs) (bufs m) (bufs m') \<and> got p m' = got p m @ xs"
    by (auto simp: copy_ops_def copy_wiring_def Let_def module_port_flush_def)
  from m' show "\<exists>m'. f_disable copy_world_ops (w_disable copy_wiring) p m = Some (MMAL_SUCCESS, m') \<and> module_holds p m' []
      \<and> port_at m' = (port_at m)(p := with_count n (port_at m p))
      \<and> same_bufs (- set xs) (bufs m) (bufs m') \<and> got p m' = got p m @ xs"
    by (auto simp: copy_ops_def copy_wiring_def Let_def module_port_flush_def module_port_disable_def)
qed

end
