(* ===== verification/CopyFifo.thy ===== *)
theory CopyFifo
  imports CopyModule
begin

text \<open>
  The contract of a port, seen by its client, on the copy component: an abstract FIFO, the simulation
  of the calls of core/mmal_port.c by it, and the end of a connection (\<open>mmal_port_disable_internal\<close>).
  The proofs use the facts of the interpretation \<open>copy_port\<close> only.
\<close>

subsection \<open>The port of the copy component as a FIFO\<close>

text \<open>The calls of a client, and what they do to the buffers that the component holds, the ones queued in
  the paused port, and the ones the client has got back.\<close>

datatype client_call = SendBuffer addr | PausePort | ResumePort | FlushPort

record fifo =
  fi_held :: "addr list"
  fi_queued :: "addr list"
  fi_paused :: bool
  fi_given :: "addr list"

fun fifo_call :: "client_call \<Rightarrow> fifo \<Rightarrow> fifo" where
  "fifo_call (SendBuffer b) s =
     (if fi_paused s then s\<lparr>fi_queued := fi_queued s @ [b]\<rparr> else s\<lparr>fi_held := fi_held s @ [b]\<rparr>)"
| "fifo_call PausePort s = s\<lparr>fi_paused := True\<rparr>"
| "fifo_call ResumePort s = s\<lparr>fi_held := fi_held s @ fi_queued s, fi_queued := [], fi_paused := False\<rparr>"
| "fifo_call FlushPort s =
     s\<lparr>fi_held := [], fi_queued := [], fi_given := fi_given s @ fi_held s @ fi_queued s\<rparr>"

fun port_call :: "'m port_ops \<Rightarrow> addr \<Rightarrow> client_call \<Rightarrow> 'm world \<Rightarrow> (mmal_status \<times> 'm world) option" where
  "port_call ops p (SendBuffer b) m = mmal_port_send_buffer ops (Some p) b m"
| "port_call ops p PausePort m = mmal_port_pause ops p True m"
| "port_call ops p ResumePort m = mmal_port_pause ops p False m"
| "port_call ops p FlushPort m = mmal_port_flush ops (Some p) m"

text \<open>A buffer may be sent when it has a payload and is not in the port.\<close>

fun may_call :: "client_call \<Rightarrow> fifo \<Rightarrow> 'm world \<Rightarrow> bool" where
  "may_call (SendBuffer b) s m \<longleftrightarrow> b \<notin> set (fi_held s @ fi_queued s) \<and> bh_data (bufs m b) \<noteq> None
     \<and> length (fi_held s) + length (fi_queued s) + 1 < 2 ^ 31"
| "may_call _ s m \<longleftrightarrow> True"

text \<open>A sequence of calls that all succeed, and one whose calls may all be made.\<close>

fun run_calls :: "'m port_ops \<Rightarrow> addr \<Rightarrow> client_call list \<Rightarrow> 'm world \<Rightarrow> 'm world option" where
  "run_calls ops p [] m = Some m"
| "run_calls ops p (c # cs) m =
     Option.bind (port_call ops p c m) (\<lambda>(status, m). if status = MMAL_SUCCESS then run_calls ops p cs m else None)"

fun may_call_all :: "'m port_ops \<Rightarrow> addr \<Rightarrow> client_call list \<Rightarrow> fifo \<Rightarrow> 'm world \<Rightarrow> bool" where
  "may_call_all ops p [] s m \<longleftrightarrow> True"
| "may_call_all ops p (c # cs) s m \<longleftrightarrow> may_call c s m \<and>
     (case port_call ops p c m of None \<Rightarrow> True | Some (_, m) \<Rightarrow> may_call_all ops p cs (fifo_call c s) m)"

definition fifo_rep :: "addr \<Rightarrow> fifo \<Rightarrow> log mworld \<Rightarrow> bool" where
  "fifo_rep p s m \<longleftrightarrow> port_rep (module_holds p) copy_wiring p m (fi_held s) (fi_queued s)
     \<and> pt_enabled (port_at m p) \<and> is_paused (port_at m p) = fi_paused s \<and> got p m = fi_given s"

fun sent :: "client_call list \<Rightarrow> addr list" where
  "sent [] = []"
| "sent (SendBuffer b # cs) = b # sent cs"
| "sent (_ # cs) = sent cs"

definition fifo_all :: "fifo \<Rightarrow> addr list" where
  "fifo_all s = fi_given s @ fi_held s @ fi_queued s"

lemma fifo_call_all: "fi_paused s \<or> fi_queued s = [] \<Longrightarrow>
  (fi_paused (fifo_call c s) \<or> fi_queued (fifo_call c s) = []) \<and> fifo_all (fifo_call c s) = fifo_all s @ sent [c]"
  by (cases c) (auto simp: fifo_all_def)

lemma sent_append: "sent (c # cs) = sent [c] @ sent cs"
  by (cases c) auto

lemma fifo_repD: "fifo_rep p s m \<Longrightarrow> fi_paused s \<or> fi_queued s = []"
  by (auto simp: fifo_rep_def port_rep_def)

lemma port_call_fifo:
  assumes "fifo_rep p s m" and "may_call c s m"
  shows "\<exists>m'. port_call copy_world_ops p c m = Some (MMAL_SUCCESS, m') \<and> fifo_rep p (fifo_call c s) m'"
proof -
  note r = assms(1) [unfolded fifo_rep_def, THEN conjunct1]
  note e = assms(1) [unfolded fifo_rep_def, THEN conjunct2, THEN conjunct1]
  show ?thesis
  proof (cases c)
    case (SendBuffer b)
    show ?thesis
    proof (cases "fi_paused s")
      case True
      then show ?thesis
        using copy_port.send_to_queue [OF r, of b] assms SendBuffer e by (auto simp: fifo_rep_def)
    next
      case False
      then have "fi_queued s = []" using fifo_repD [OF assms(1)] by simp
      then show ?thesis
        using copy_port.send_to_component [of p m "fi_held s" b] r assms SendBuffer e False by (auto simp: fifo_rep_def)
    qed
  next
    case PausePort
    then show ?thesis using copy_port.pause_ok [OF r] assms(1) by (auto simp: fifo_rep_def)
  next
    case ResumePort
    then show ?thesis using copy_port.resume_ok [OF r e] assms(1) by (auto simp: fifo_rep_def)
  next
    case FlushPort
    then show ?thesis using copy_port.flush_ok [OF r e] assms(1) by (auto simp: fifo_rep_def)
  qed
qed



text \<open>An example: an enabled input port of a copy component, and a client that has sent nothing yet.\<close>

definition demo_module :: port_module where
  "demo_module = zero_port_module\<lparr>pm_queue := Some empty_queue\<rparr>"

definition demo_clock_port :: clock_port where
  "demo_clock_port = \<lparr>clk_event_cb = None, clk_queue = Some empty_queue, clk_clock = Some zero_clock,
     is_reference = False, buffer_info_reporting = False, clk_locked = False, clk_rtc = (\<lambda>i. of_nat i),
     clk_creations = (\<lambda>_. all_ok)\<rparr>"

definition demo_clock_event :: clock_event where
  "demo_clock_event = \<lparr>ce_id = 0, ce_magic = 0, ce_buffer = None, ce_enable = False,
     ce_scale = \<lparr>num = 0, den = 0\<rparr>, ce_media_time = 0, ce_update_threshold = (0, 0),
     ce_discont_threshold = (0, 0), ce_request_threshold = (0, False), ce_info = (0, 0), ce_latency = (0, 0, 0)\<rparr>"

definition demo_modules :: "log module_env" where
  "demo_modules = \<lparr>port_modules = (\<lambda>_. demo_module),
     component_modules = (\<lambda>_. new_component_module (Some 1)), clock_ports = (\<lambda>_. demo_clock_port),
     clock_events = (\<lambda>_. demo_clock_event),
     payload_bytes = (\<lambda>_. replicate 8 0), client = []\<rparr>"

definition demo_copy_port :: "mmal_port_type \<Rightarrow> mmal_port \<Rightarrow> mmal_port" where
  "demo_copy_port type r = (copy_port_setup copy_fn r)\<lparr>pt_type := type, pt_enabled := True, transit_sema := 1,
     buffer_header_callback := Some (ClientCb 0), pt_component := 2, pt_format := Some 300\<rparr>"

definition demo_copy :: "log mworld" where
  "demo_copy = upd_component 2 (\<lambda>r. r\<lparr>cp_input := [3], cp_output := [4]\<rparr>)
     (upd_port 3 (demo_copy_port MMAL_PORT_TYPE_INPUT) (upd_port 4 (demo_copy_port MMAL_PORT_TYPE_OUTPUT)
       (idle_world demo_modules)))"

definition idle_fifo :: fifo where
  "idle_fifo = \<lparr>fi_held = [], fi_queued = [], fi_paused = False, fi_given = []\<rparr>"

lemma demo_copy_simps [simp]:
  "pmod_at demo_copy p = demo_module" "bufs demo_copy b = bufs (idle_world ()) b" "client_of demo_copy = []"
  "cmod_at demo_copy c = new_component_module (Some 1)"
  "port_at demo_copy 3 = demo_copy_port MMAL_PORT_TYPE_INPUT zero_port"
  "port_at demo_copy 4 = demo_copy_port MMAL_PORT_TYPE_OUTPUT zero_port"
  "component_at demo_copy 2 = idle_component\<lparr>cp_input := [3], cp_output := [4]\<rparr>"
  by (simp_all add: demo_copy_def) (simp_all add: idle_world_def idle_env_def pmod_at_def demo_modules_def
      client_of_def cmod_at_def port_at_def component_at_def)

lemma demo_fifo: "fifo_rep 3 idle_fifo demo_copy"
  by (simp add: fifo_rep_def idle_fifo_def port_rep_def module_holds_def demo_module_def zero_port_module_def empty_queue_def got_def
      counted_iff wired_def copy_wiring_def demo_copy_port_def copy_port_setup_def qrep_def paused_queue_def
      zero_port_def)



end
