(* ===== verification/ModuleSteps.thy ===== *)
theory ModuleSteps
  imports CopyFifo
begin

text \<open>
  What the component modules do with buffers: one step of the copy component, with and without enough room
  in the output buffer, the end of a stream in the null sink, and the pass-through component.
\<close>

subsection \<open>Copying a buffer\<close>

lemma module_holds_fields:
  assumes "module_holds p m xs" and "\<And>b. bh_next (bufs m' b) = bh_next (bufs m b)" and "pmod_at m' p = pmod_at m p"
  shows "module_holds p m' xs"
  using assms by (auto simp: module_holds_def elim!: qrep_links)

lemma noting_callback0:
  assumes "counted (Suc n) (port_at m p)" and "n < 2 ^ 31" and "buffer_header_callback (port_at m p) = Some (ClientCb f)"
    and "\<And>q b m. f_client_cb ops f q b m = Some (note_buffer q b m)"
  shows "mmal_port_buffer_header_callback ops p b m = Some (upd_port p (with_count n) (note_buffer p b m))"
proof -
  have "port_at (note_buffer p b m) = port_at m" by (simp add: note_buffer_def)
  then have "IN_TRANSIT_DECREMENT p (note_buffer p b m) = upd_port p (with_count n) (note_buffer p b m)"
    using assms by (intro decrement_counted) simp_all
  then show ?thesis using assms(3,4)
    by (simp add: mmal_port_buffer_header_callback_def MMAL_COLLECT_PORT_STATS_ENABLED_def)
qed

lemmas noting_callback = noting_callback0 [OF _ _ _ noting_client(1)] noting_callback0 [OF _ _ _ noting_client(2)]

lemma module_get_other:
  assumes "module_holds p m (x # xs)" and "module_holds q m ys" and "p \<noteq> q"
  shows "\<exists>m'. module_get p m = Some (Some x, m') \<and> module_holds p m' xs \<and> module_holds q m' ys
    \<and> bufs m' = bufs m \<and> port_at m' = port_at m \<and> component_at m' = component_at m \<and> cmod_at m' = cmod_at m
    \<and> client_of m' = client_of m \<and> pool_at m' = pool_at m
    \<and> payload_bytes (modules (env (ctx m'))) = payload_bytes (modules (env (ctx m)))"
proof -
  obtain m' where m': "module_get p m = Some (Some x, m')" "module_holds p m' xs" "bufs m' = bufs m"
    "port_at m' = port_at m" "component_at m' = component_at m" "cmod_at m' = cmod_at m"
    "client_of m' = client_of m" "\<forall>q. q \<noteq> p \<longrightarrow> pmod_at m' q = pmod_at m q" "pool_at m' = pool_at m"
    using module_get_cons [OF assms(1)] by blast
  have "payload_bytes (modules (env (ctx m'))) = payload_bytes (modules (env (ctx m)))"
    using m'(1) by (auto simp: module_get_def module_defs split: Option.bind_splits)
  moreover have "module_holds q m' ys"
    using assms(2,3) m'(3,8) by (intro module_holds_fields [OF assms(2)]) simp_all
  ultimately show ?thesis using m' by blast
qed

text \<open>A copy component \<open>c\<close> with nothing to configure and no error, whose input port \<open>i\<close> holds \<open>x # xs\<close> and
  whose output port \<open>o\<close> holds \<open>y # ys\<close>.\<close>

definition copy_ready :: "addr \<Rightarrow> addr \<Rightarrow> addr \<Rightarrow> addr \<Rightarrow> addr list \<Rightarrow> addr \<Rightarrow> addr list \<Rightarrow> log mworld \<Rightarrow> bool" where
  "copy_ready c i out x xs y ys m \<longleftrightarrow> cp_input (component_at m c) = [i] \<and> cp_output (component_at m c) = [out]
     \<and> i \<noteq> out \<and> \<not> needs_configuring (pmod_at m out) \<and> cm_status (cmod_at m c) = MMAL_SUCCESS
     \<and> module_holds i m (x # xs) \<and> module_holds out m (y # ys) \<and> bh_cmd (bufs m x) = 0"

text \<open>Taking the two buffers.\<close>

lemma copy_takes:
  assumes "copy_ready c i out x xs y ys m"
  obtains m1 m2 where "module_get i m = Some (Some x, m1)" and "module_get out m1 = Some (Some y, m2)"
    and "module_holds i m2 xs" and "module_holds out m2 ys" and "bufs m1 = bufs m" and "bufs m2 = bufs m"
    and "port_at m2 = port_at m" and "component_at m2 = component_at m" and "cmod_at m1 = cmod_at m"
    and "cmod_at m2 = cmod_at m"
    and "client_of m2 = client_of m" and "pool_at m2 = pool_at m"
    and "payload_bytes (modules (env (ctx m2))) = payload_bytes (modules (env (ctx m)))"
proof -
  have r: "module_holds i m (x # xs)" "module_holds out m (y # ys)" "i \<noteq> out" using assms by (simp_all add: copy_ready_def)
  from module_get_other [OF r] obtain m1 where m1: "module_get i m = Some (Some x, m1)" "module_holds i m1 xs"
    "module_holds out m1 (y # ys)" "bufs m1 = bufs m" "port_at m1 = port_at m" "component_at m1 = component_at m"
    "cmod_at m1 = cmod_at m" "client_of m1 = client_of m" "pool_at m1 = pool_at m"
    "payload_bytes (modules (env (ctx m1))) = payload_bytes (modules (env (ctx m)))"
    by blast
  from module_get_other [OF m1(3,2)] r(3) obtain m2 where m2: "module_get out m1 = Some (Some y, m2)"
    "module_holds out m2 ys" "module_holds i m2 xs" "bufs m2 = bufs m1" "port_at m2 = port_at m1"
    "component_at m2 = component_at m1" "cmod_at m2 = cmod_at m1" "client_of m2 = client_of m1"
    "pool_at m2 = pool_at m1"
    "payload_bytes (modules (env (ctx m2))) = payload_bytes (modules (env (ctx m1)))"
    by blast
  show thesis by (rule that [OF m1(1) m2(1)]) (simp_all add: m1 m2)
qed

lemma payload_simps [simp]:
  "bufs (upd_modules f m) = bufs m" "port_at (upd_modules f m) = port_at m"
  "pmod_at (upd_modules (\<lambda>x. x\<lparr>payload_bytes := v x\<rparr>) m) = pmod_at m"
  "client_of (upd_modules (\<lambda>x. x\<lparr>payload_bytes := v x\<rparr>) m) = client_of m"
  "payload_bytes (modules (env (ctx (upd_modules (\<lambda>x. x\<lparr>payload_bytes := v x\<rparr>) m)))) = v (modules (env (ctx m)))"
  "payload_bytes (modules (env (ctx (upd_port p g m)))) = payload_bytes (modules (env (ctx m)))"
  "payload_bytes (modules (env (ctx (upd_buf b h m)))) = payload_bytes (modules (env (ctx m)))"
  "payload_bytes (modules (env (ctx (note_buffer p b m)))) = payload_bytes (modules (env (ctx m)))"
  "port_at (note_buffer p b m) = port_at m" "bufs (note_buffer p b m) = bufs m" "pmod_at (note_buffer p b m) = pmod_at m"
  by (simp_all add: module_defs upd_buf_def note_buffer_def fun_eq_iff)

lemma got_payload [simp]: "got p (upd_modules (\<lambda>x. x\<lparr>payload_bytes := v x\<rparr>) m) = got p m"
  by (simp add: got_def)

lemma got_note: "got p (note_buffer q b m) = got p m @ (if q = p then [b] else [])"
  by (simp add: got_def note_buffer_def)



text \<open>The event of the error: whether an event buffer is free or not, the ports stay as they are.\<close>

definition events_ready :: "addr \<Rightarrow> addr \<Rightarrow> 'c mworld \<Rightarrow> bool" where
  "events_ready c control m \<longleftrightarrow> cp_control (component_at m c) = Some control \<and> pt_component (port_at m control) = c
     \<and> (\<exists>f. buffer_header_callback (port_at m control) = Some (ClientCb f))
     \<and> (\<exists>pool q es. event_pool (component_at m c) = Some pool \<and> p_queue (pool_at m pool) = Some q
          \<and> qrep (bufs m) q es \<and> q_sem q = length es \<and> (\<forall>e\<in>set es. bh_data (bufs m e) \<noteq> None))"

lemma pmod_event [simp]:
  "pmod_at (set_event a v m) = pmod_at m" "port_at (set_event a v m) = port_at m" "bufs (set_event a v m) = bufs m"
  "client_of (set_event a v m) = client_of m" "component_at (set_event a v m) = component_at m"
  "pool_at (set_event a v m) = pool_at m"
  by (simp_all add: module_defs set_event_def fun_eq_iff)

lemma events_differ [simp]: "MMAL_EVENT_ERROR \<noteq> MMAL_EVENT_FORMAT_CHANGED" "MMAL_EVENT_EOS \<noteq> MMAL_EVENT_FORMAT_CHANGED"
  by (simp_all add: MMAL_EVENT_ERROR_def MMAL_EVENT_EOS_def MMAL_EVENT_FORMAT_CHANGED_def MMAL_FOURCC_def)

lemma send_error_ok:
  assumes "events_ready c control m"
  shows "\<exists>m'. send_error (copy_format_ops noting_ops) c status m = Some m' \<and> port_at m' = port_at m
    \<and> pmod_at m' = pmod_at m \<and> (\<forall>b. bh_next (bufs m' b) = bh_next (bufs m b))
    \<and> (\<forall>p. p \<noteq> control \<longrightarrow> got p m' = got p m)"
proof -
  obtain f pool q es where e: "cp_control (component_at m c) = Some control" "pt_component (port_at m control) = c"
    "buffer_header_callback (port_at m control) = Some (ClientCb f)" "event_pool (component_at m c) = Some pool"
    "p_queue (pool_at m pool) = Some q" "qrep (bufs m) q es" "q_sem q = length es"
    "\<forall>e\<in>set es. bh_data (bufs m e) \<noteq> None"
    using assms by (auto simp: events_ready_def)
  show ?thesis
  proof (cases es)
    case Nil
    then show ?thesis using e
      by (simp add: send_error_def mmal_event_error_send_def mmal_port_event_get_def sem_claim_def)
  next
    case (Cons b bs)
    obtain q' where q': "mmal_queue_get_core (q\<lparr>q_sem := length bs\<rparr>) (bufs m) = Some (b, q')"
      using get_core_Cons [of "bufs m" "q\<lparr>q_sem := length bs\<rparr>" b bs] e(6) Cons by auto
    obtain a where a: "bh_data (bufs m b) = Some a" using e(8) Cons by auto
    have "sem_claim q = Some (q\<lparr>q_sem := length bs\<rparr>)" using e(7) Cons by (simp add: sem_claim_def)
    then show ?thesis using e(1-5) q' a
      by (simp add: send_error_def mmal_event_error_send_def mmal_port_event_get_def Let_def
          control_event_send_def got_note) (simp add: got_def)
  qed
qed

text \<open>When the output buffer is too small for the input, the component records the error and sends an
  event, but both buffers are taken from the queues and not given to anyone: neither client gets its buffer,
  both stay counted as in transit, and a later call that disables the input port waits for ever.\<close>

theorem copy_small_output_loses_buffers:
  assumes "copy_ready c i out x xs y ys m" and "bh_alloc_size (bufs m y) < bh_length (bufs m x)"
    and "events_ready c control m" and "control \<noteq> i" and "control \<noteq> out"
    and "counted (Suc (length xs)) (port_at m i)" and "Suc (length xs) < 2 ^ 31" and "wired copy_wiring (port_at m i)"
    and "pt_enabled (port_at m i)" and "queue_first (port_at m i) = None"
  shows "\<exists>m'. copy_do_processing (copy_format_ops noting_ops) c m = Some (False, m')
    \<and> module_holds i m' xs \<and> module_holds out m' ys \<and> got i m' = got i m \<and> got out m' = got out m
    \<and> port_at m' = port_at m \<and> mmal_port_disable_internal copy_world_ops i m' = None"
proof -
  obtain m1 m2 where t: "module_get i m = Some (Some x, m1)" "module_get out m1 = Some (Some y, m2)"
    "module_holds i m2 xs" "module_holds out m2 ys" "bufs m1 = bufs m" "bufs m2 = bufs m" "port_at m2 = port_at m"
    "component_at m2 = component_at m" "cmod_at m1 = cmod_at m" "cmod_at m2 = cmod_at m" "client_of m2 = client_of m"
    "pool_at m2 = pool_at m"
    by (rule copy_takes [OF assms(1)])
  note ready = assms(1) [unfolded copy_ready_def]
  define m3 where "m3 = upd_cmod c (\<lambda>r. r\<lparr>cm_status := MMAL_EINVAL\<rparr>) m2"
  have "events_ready c control m3" using assms(3) by (simp add: events_ready_def m3_def t)
  then obtain m4 where m4: "send_error (copy_format_ops noting_ops) c MMAL_EINVAL m3 = Some m4" "port_at m4 = port_at m3"
    "pmod_at m4 = pmod_at m3" "\<And>b. bh_next (bufs m4 b) = bh_next (bufs m3 b)" "\<And>p. p \<noteq> control \<Longrightarrow> got p m4 = got p m3"
    using send_error_ok by blast
  have run: "copy_do_processing (copy_format_ops noting_ops) c m = Some (False, m4)"
    using ready t(1,2,5,6,9) assms(2) m4(1)
    by (simp add: copy_do_processing_def nth_port_def m3_def)
  have p4: "port_at m4 = port_at m" using m4(2) by (simp add: m3_def t)
  have h: "module_holds i m4 xs" "module_holds out m4 ys"
    by (rule module_holds_fields [OF t(3)] module_holds_fields [OF t(4)]; simp add: m4(3,4) m3_def)+
  have g: "got i m4 = got i m" "got out m4 = got out m"
    using m4(5) assms(4,5) t(11) by (simp_all add: m3_def got_def)
  define m5 where "m5 = (case pool_for_connection (port_at m4 i) of
      None \<Rightarrow> upd_port i (\<lambda>r. r\<lparr>pt_enabled := False\<rparr>) m4
    | Some pool \<Rightarrow> mmal_pool_callback_set pool None None (upd_port i (\<lambda>r. r\<lparr>pt_enabled := False\<rparr>) m4))"
  have m5: "module_holds i m5 xs" "port_at m5 = (port_at m)(i := (port_at m i)\<lparr>pt_enabled := False\<rparr>)"
    using h(1) by (auto simp: m5_def mmal_pool_callback_set_def p4 split: option.split)
  have "wired copy_wiring (port_at m5 i)" "counted (length xs + 1) (port_at m5 i)" "length xs + 1 < 2 ^ 31"
    using assms(6-8) m5(2) by simp_all
  from copy_port.disable_law [OF m5(1) this(2,3,1)] obtain m6 where m6:
    "f_disable copy_world_ops (w_disable copy_wiring) i m5 = Some (MMAL_SUCCESS, m6)"
    "port_at m6 = (port_at m5)(i := with_count 1 (port_at m5 i))"
    by blast
  have q6: "queue_first (port_at m6 i) = None" "transit_sema (port_at m6 i) = 0"
    using m6(2) m5(2) assms(10) by (simp_all add: with_count_def)
  have "while_waiting copy_world_ops p' m' = m'" for p' m'
    by (simp add: copy_ops_def copy_format_ops_def noting_ops_def plain_ops_def Let_def)
  then have "IN_TRANSIT_WAIT copy_world_ops i (empty_port_queue i m6) = None"
    using q6(2) by (simp add: IN_TRANSIT_WAIT_def empty_port_queue_def)
  moreover have "return_queue copy_world_ops i None m6 = Some m6" by (subst return_queue.simps) simp
  ultimately have "mmal_port_disable_internal copy_world_ops i m4 = None"
    using assms(8,9) p4 m6(1) q6(1)
    by (cases "pool_for_connection (port_at m4 i)")
      (simp_all add: mmal_port_disable_internal_def wired_def m5_def mmal_pool_callback_set_def)
  then show ?thesis using run h g p4 by blast
qed

text \<open>A null sink gives an empty buffer back to its client in any case, and then, if it marked the end of the
  stream, needs a free event buffer. Without one it reports an error for a buffer that it has given back, and
  the core, which takes the send for failed, counts the buffer a second time: the port ends
  up with fewer buffers in transit than it has.\<close>

theorem null_sink_eos_counts_twice:
  assumes "pf_send (port_at m p) = Some null_sink_fn" and "pt_enabled (port_at m p)" and "\<not> is_paused (port_at m p)"
    and "pt_type (port_at m p) = MMAL_PORT_TYPE_INPUT" and "bh_data (bufs m b) \<noteq> None"
    and "bh_flags (bufs m b) AND MMAL_BUFFER_HEADER_FLAG_EOS \<noteq> 0"
    and "buffer_header_callback (port_at m p) = Some (ClientCb f)"
    and "\<And>m. f_client_cb ops f p b m = Some (note_buffer p b m)"
    and "cp_control (component_at m (pt_component (port_at m p))) = Some control"
    and "event_pool (component_at m (pt_component (port_at m control))) = Some pool"
    and "p_queue (pool_at m pool) = Some q" and "q_sem q = 0"
    and "counted n (port_at m p)" and "n + 1 < 2 ^ 31"
  shows "\<exists>m'. mmal_port_send_buffer (null_sink_ops ops) (Some p) b m = Some (MMAL_ENOSPC, m')
    \<and> got p m' = got p m @ [b] \<and> transit_buffer_headers (port_at m' p) = int n - 1"
proof -
  let ?ops = "null_sink_ops ops"
  define m1 where "m1 = upd_port p (with_count (n + 1)) m"
  define m2 where "m2 = note_buffer p b (upd_buf b (\<lambda>r. r\<lparr>bh_length := 0\<rparr>) m1)"
  define m3 where "m3 = upd_port p (with_count n) m2"
  have p2: "port_at m2 = port_at m1" by (simp add: m2_def note_buffer_def)
  have inc: "IN_TRANSIT_INCREMENT p m = Some m1"
    unfolding m1_def by (rule increment_counted [OF assms(13,14)])
  have "IN_TRANSIT_DECREMENT p m2 = m3"
    unfolding m3_def using assms(14) p2 by (intro decrement_counted) (simp_all add: m1_def)
  then have cb: "mmal_port_buffer_header_callback ops p b (upd_buf b (\<lambda>r. r\<lparr>bh_length := 0\<rparr>) m1) = Some m3"
    using assms(7,8) by (simp add: mmal_port_buffer_header_callback_def MMAL_COLLECT_PORT_STATS_ENABLED_def
        m1_def m2_def with_count_def)
  have c3: "pt_component (port_at m3 p) = pt_component (port_at m p)"
    "pt_component (port_at m3 control) = pt_component (port_at m control)"
    "component_at m3 = component_at m" "pool_at m3 = pool_at m"
    using p2 by (simp_all add: m3_def m1_def with_count_def m2_def note_buffer_def)
      (simp add: pool_at_def upd_buf_def)
  have "(pool_at m3 pool)\<lparr>p_queue := Some q\<rparr> = pool_at m3 pool"
    using assms(11) c3(4) by (cases "pool_at m3 pool") simp
  then have u3: "upd_pool pool (\<lambda>r. r\<lparr>p_queue := Some q\<rparr>) m3 = m3"
    by (cases m3) (auto simp: upd_pool_def pool_at_def fun_upd_idem_iff)
  have eos: "mmal_event_eos_send ops (Some p) m3 = Some (MMAL_ENOSPC, m3)"
    using assms(9-12) c3 u3
    by (simp add: mmal_event_eos_send_def mmal_port_event_get_def sem_claim_def)
  have "null_sink_port_send ops p b m1 = Some (MMAL_ENOSPC, m3)"
    using assms(6) cb eos by (simp add: null_sink_port_send_def m1_def)
  then have "mmal_port_send_buffer ?ops (Some p) b m = Some (MMAL_ENOSPC, IN_TRANSIT_DECREMENT p m3)"
    using assms(1-5) inc by (simp add: mmal_port_send_buffer_def null_sink_ops_def m1_def with_count_def)
  moreover have "s32 (int n - 1) = int n - 1" using assms(14) by (intro s32_in) (simp add: in32_def)
  ultimately show ?thesis
    by (auto simp: IN_TRANSIT_DECREMENT_def Let_def m3_def with_count_def m2_def m1_def)
qed


text \<open>The pass-through component, asked to raise the buffer requirements of a pair of ports, raises those
  of the input port twice and leaves those of the output port as they are.\<close>

theorem passthrough_requirements_input_only:
  assumes "nth_port (cp_input (component_at m (pt_component (port_at m p)))) (pt_index (port_at m p)) = Some i"
    and "out \<noteq> i"
  shows "\<exists>m'. passthrough_port_parameter_set p (ParamBufferRequirements num_min sz_min num_rec sz_rec) m
      = Some (MMAL_SUCCESS, m')
    \<and> port_at m' out = port_at m out
    \<and> buffer_num_min (port_at m' i) = max (buffer_num_min (port_at m p)) num_min
    \<and> buffer_size_min (port_at m' i) = max (buffer_size_min (port_at m p)) sz_min"
  using assms by (simp add: passthrough_port_parameter_set_def Let_def)

text \<open>A buffer sent to an input port of the pass-through component, while a buffer without a reference
  waits on the matching output port, is not copied: the output buffer becomes a replica, which refers to it and
  has its payload, length, flags and time stamps. Both clients get their buffer, the input one empty and with
  one reference more, and the buffers behind the output one still wait.\<close>

theorem passthrough_replicates:
  assumes "pt_type (port_at m i) = MMAL_PORT_TYPE_INPUT" and "pt_component (port_at m i) = c"
    and "nth_port (cp_input (component_at m c)) (pt_index (port_at m i)) = Some i"
    and "nth_port (cp_output (component_at m c)) (pt_index (port_at m i)) = Some out"
    and "i \<noteq> out" and "\<not> cm_error (cmod_at m c)" and "module_holds out m (y # ys)" and "x \<notin> set (y # ys)"
    and "reference (bufs m y) = None"
    and "counted (Suc n) (port_at m i)" and "n < 2 ^ 31" and "counted (Suc k) (port_at m out)" and "k < 2 ^ 31"
    and "buffer_header_callback (port_at m i) = Some (ClientCb f)"
    and "buffer_header_callback (port_at m out) = Some (ClientCb g)"
  shows "\<exists>m'. passthrough_port_send noting_ops i x m = Some (MMAL_SUCCESS, m')
    \<and> got i m' = got i m @ [x] \<and> got out m' = got out m @ [y] \<and> module_holds out m' ys
    \<and> counted n (port_at m' i) \<and> counted k (port_at m' out)
    \<and> reference (bufs m' y) = Some x \<and> bh_data (bufs m' y) = bh_data (bufs m x)
    \<and> bh_length (bufs m' y) = bh_length (bufs m x) \<and> bh_flags (bufs m' y) = bh_flags (bufs m x)
    \<and> bh_pts (bufs m' y) = bh_pts (bufs m x)
    \<and> bufs m' x = (bufs m x)\<lparr>bh_length := 0, refcount := s32 (refcount (bufs m x) + 1)\<rparr>"
proof -
  obtain m1 where m1: "module_get out m = Some (Some y, m1)" "module_holds out m1 ys" "bufs m1 = bufs m"
    "port_at m1 = port_at m" "component_at m1 = component_at m" "client_of m1 = client_of m"
    using module_get_cons [OF assms(7)] by blast
  define m2 where "m2 = snd (mmal_buffer_header_replicate (Some y) (Some x) m1)"
  define m3 where "m3 = upd_buf x (\<lambda>r. r\<lparr>bh_length := 0\<rparr>) m2"
  define m4 where "m4 = upd_port i (with_count n) (note_buffer i x m3)"
  define m5 where "m5 = upd_port out (with_count k) (note_buffer out y m4)"
  have xy: "x \<noteq> y" using assms(8) by auto
  have rep: "mmal_buffer_header_replicate (Some y) (Some x) m1 = (MMAL_SUCCESS, m2)"
    using assms(9) m1(3) by (simp add: m2_def mmal_buffer_header_replicate_def Let_def)
  have b2: "bufs m2 y = (bufs m y)\<lparr>reference := Some x, bh_cmd := bh_cmd (bufs m x),
      bh_alloc_size := bh_alloc_size (bufs m x), bh_data := bh_data (bufs m x), bh_offset := bh_offset (bufs m x),
      bh_length := bh_length (bufs m x), bh_flags := bh_flags (bufs m x), bh_pts := bh_pts (bufs m x),
      bh_dts := bh_dts (bufs m x), bh_type := bh_type (bufs m x)\<rparr>"
    "bufs m2 x = (bufs m x)\<lparr>refcount := s32 (refcount (bufs m x) + 1)\<rparr>"
    "port_at m2 = port_at m" "pmod_at m2 = pmod_at m1" "client_of m2 = client_of m"
    "\<And>b. bh_next (bufs m2 b) = bh_next (bufs m b)"
    using assms(9) m1(3,4,6) xy
    by (simp_all add: m2_def mmal_buffer_header_replicate_def Let_def mmal_buffer_header_acquire_def)
  have p3: "port_at m3 = port_at m" by (simp add: m3_def b2)
  have cb1: "mmal_port_buffer_header_callback noting_ops i x m3 = Some m4"
    unfolding m4_def using p3 assms(10,11,14) by (intro noting_callback) simp_all
  have cb2: "mmal_port_buffer_header_callback noting_ops out y m4 = Some m5"
    unfolding m5_def using p3 assms(5,12,13,15) by (intro noting_callback) (simp_all add: m4_def)
  have "passthrough_port_send noting_ops i x m = Some (MMAL_SUCCESS, m5)"
    using assms(1-4,6) m1(1) rep cb1 cb2 by (simp add: passthrough_port_send_def m3_def)
  moreover have "module_holds out m5 ys"
    by (rule module_holds_fields [OF m1(2)]) (simp_all add: m5_def m4_def m3_def b2 m1(3))
  moreover have "got i m5 = got i m @ [x]" "got out m5 = got out m @ [y]"
    using assms(5) b2(5) by (simp_all add: m5_def m4_def m3_def got_note) (simp_all add: got_def)
  moreover have "counted n (port_at m5 i)" "counted k (port_at m5 out)"
    using assms(5) by (simp_all add: m5_def m4_def)
  moreover have "bufs m5 = (bufs m2)(x := (bufs m2 x)\<lparr>bh_length := 0\<rparr>)"
    by (simp add: m5_def m4_def m3_def)
  ultimately show ?thesis using xy b2(1,2) by (intro exI [of _ m5]) simp
qed

subsection \<open>Examples\<close>

definition one_queue :: "addr \<Rightarrow> mmal_queue" where
  "one_queue b = \<lparr>q_length = 1, q_first = Some b, q_last = AtNext b, q_sem = 1\<rparr>"

text \<open>A copy component with the buffer 11 on its input and the buffer 12, of \<open>n\<close> bytes, on its output.\<close>

definition demo_two :: "u32 \<Rightarrow> log mworld" where
  "demo_two n = upd_buf 12 (\<lambda>r. r\<lparr>bh_alloc_size := n, bh_data := Some 8\<rparr>)
     (upd_component 2 (\<lambda>r. r\<lparr>cp_control := Some 5, event_pool := Some 9\<rparr>)
     (upd_port 5 (\<lambda>r. r\<lparr>buffer_header_callback := Some (ClientCb 1), pt_component := 2\<rparr>)
     (upd_port 3 (with_count 1) (upd_port 4 (with_count 1)
     (upd_pmod 3 (\<lambda>r. r\<lparr>pm_queue := Some (one_queue 11)\<rparr>)
     (upd_pmod 4 (\<lambda>r. r\<lparr>pm_queue := Some (one_queue 12)\<rparr>) demo_copy))))))"

lemma demo_two_simps [simp]:
  "pmod_at (demo_two n) 3 = zero_port_module\<lparr>pm_queue := Some (one_queue 11)\<rparr>"
  "pmod_at (demo_two n) 4 = zero_port_module\<lparr>pm_queue := Some (one_queue 12)\<rparr>"
  "port_at (demo_two n) 3 = with_count 1 (demo_copy_port MMAL_PORT_TYPE_INPUT zero_port)"
  "port_at (demo_two n) 4 = with_count 1 (demo_copy_port MMAL_PORT_TYPE_OUTPUT zero_port)"
  "component_at (demo_two n) 2 = idle_component\<lparr>cp_input := [3], cp_output := [4], cp_control := Some 5, event_pool := Some 9\<rparr>"
  "cmod_at (demo_two n) c = new_component_module (Some 1)"
  "bufs (demo_two n) 11 = bufs (idle_world ()) 11"
  "bufs (demo_two n) 12 = (bufs (idle_world ()) 12)\<lparr>bh_alloc_size := n, bh_data := Some 8\<rparr>"
  "client_of (demo_two n) = []"
  "payload_bytes (modules (env (ctx (demo_two n)))) = (\<lambda>_. replicate 8 0)"
  by (simp_all add: demo_two_def demo_module_def)
    (simp_all add: demo_copy_def idle_world_def idle_env_def module_defs demo_modules_def upd_buf_def)

lemma demo_two_holds: "module_holds 3 (demo_two n) [11]" "module_holds 4 (demo_two n) [12]"
  by (simp_all add: module_holds_def one_queue_def qrep_def idle_world_def zero_header_def)

lemma demo_two_ready: "copy_ready 2 3 4 11 [] 12 [] (demo_two n)"
  using demo_two_holds by (simp add: copy_ready_def) (simp add: idle_world_def zero_header_def)

lemma demo_ports [simp]:
  "buffer_header_callback (demo_copy_port t r) = Some (ClientCb 0)" "wired copy_wiring (demo_copy_port t r)"
  "pt_enabled (demo_copy_port t r)" "queue_first (demo_copy_port t zero_port) = None"
  "pt_type (demo_copy_port t r) = t" "pt_component (demo_copy_port t r) = 2"
  "pt_index (demo_copy_port t zero_port) = 0"
  "pt_type (with_count n r) = pt_type r" "pt_component (with_count n r) = pt_component r"
  "pt_index (with_count n r) = pt_index r"
  by (simp_all add: demo_copy_port_def copy_port_setup_def wired_def copy_wiring_def zero_port_def with_count_def)


theorem copy_small_output_loses_buffers_witness:
  "\<exists>m'. copy_do_processing (copy_format_ops noting_ops) 2 (demo_two 4) = Some (False, m')
    \<and> module_holds 3 m' [] \<and> got 3 m' = [] \<and> mmal_port_disable_internal copy_world_ops 3 m' = None"
proof -
  have "events_ready 2 5 (demo_two 4)"
    by (simp add: events_ready_def)
      (simp add: demo_two_def, simp add: demo_copy_def idle_world_def pool_at_def upd_component_def upd_port_def
        module_defs empty_queue_def qrep_def)
  then show ?thesis
    using copy_small_output_loses_buffers [OF demo_two_ready [of 4], of 5]
    by (auto simp: got_def idle_world_def zero_header_def)
qed

definition demo_sink :: "log mworld" where
  "demo_sink = upd_component 2 (\<lambda>r. r\<lparr>cp_control := Some 5, event_pool := Some 9\<rparr>)
     (upd_port 5 (\<lambda>r. r\<lparr>pt_component := 2\<rparr>)
     (upd_port 3 (\<lambda>r. r\<lparr>pf_send := Some null_sink_fn, pt_type := MMAL_PORT_TYPE_INPUT, pt_enabled := True,
        transit_sema := 1, buffer_header_callback := Some (ClientCb 0), pt_component := 2\<rparr>)
     (upd_buf 11 (\<lambda>r. r\<lparr>bh_flags := MMAL_BUFFER_HEADER_FLAG_EOS\<rparr>) (idle_world demo_modules))))"

theorem null_sink_eos_counts_twice_witness:
  "\<exists>m'. mmal_port_send_buffer (null_sink_ops noting_ops) (Some 3) 11 demo_sink = Some (MMAL_ENOSPC, m')
    \<and> got 3 m' = [11] \<and> transit_buffer_headers (port_at m' 3) = - 1"
proof -
  have d: "port_at (idle_world demo_modules) p = zero_port" "component_at (idle_world demo_modules) c = idle_component"
    "pool_at (upd_buf b g (idle_world demo_modules)) q = zero_pool\<lparr>p_queue := Some empty_queue\<rparr>"
    "client_of (idle_world demo_modules) = []" for p c q b g
    by (simp_all add: idle_world_def idle_env_def module_defs demo_modules_def upd_buf_def)
  have f: "MMAL_BUFFER_HEADER_FLAG_EOS AND MMAL_BUFFER_HEADER_FLAG_EOS \<noteq> 0"
    by (simp add: MMAL_BUFFER_HEADER_FLAG_EOS_def)
  show ?thesis
    using null_sink_eos_counts_twice [of demo_sink 3 11 0 noting_ops 5 9 empty_queue 0] d f
    by (auto simp: demo_sink_def counted_iff zero_port_def empty_queue_def got_def)
      (auto simp: idle_world_def)
qed

theorem passthrough_requirements_input_only_witness:
  "\<exists>m'. passthrough_port_parameter_set 3 (ParamBufferRequirements 4 100 4 100) demo_copy = Some (MMAL_SUCCESS, m')
    \<and> port_at m' 4 = port_at demo_copy 4 \<and> buffer_num_min (port_at m' 3) = 4"
  using passthrough_requirements_input_only [of demo_copy 3 3 4 4 100 4 100]
  by (auto simp: nth_port_def demo_copy_port_def copy_port_setup_def zero_port_def max_def)

theorem passthrough_replicates_witness:
  "\<exists>m'. passthrough_port_send noting_ops 3 11 (demo_two 8) = Some (MMAL_SUCCESS, m')
    \<and> got 3 m' = [11] \<and> got 4 m' = [12] \<and> reference (bufs m' 12) = Some 11"
  using passthrough_replicates [of "demo_two 8" 3 2 4 12 "[]" 11 0 0 0 0] demo_two_holds(2)
  by (simp add: nth_port_def got_def idle_world_def zero_header_def) (elim exE conjE, intro exI conjI, assumption+)

end
