(* ===== verification/Blockpool.thy ===== *)
theory Blockpool
  imports Types
begin

text \<open>
  vcos/generic/vcos_generic_blockpool.c and .h: pools of fixed-size blocks. A pool has up to eight
  subpools: the first over memory given at creation, the others allocated when the pool is full.
  In front of every block is a header, a union of the link of the subpool's free list and the
  subpool that owns the block; \<open>hdrs\<close> is the memory of headers by address, and \<open>OtherBytes\<close> is
  memory that holds neither.

  Sizes, counts and addresses are \<open>nat\<close>: a pool fits the address space. Handles are 32-bit words.
  The target has 32-bit pointers, so that a header has 4 bytes. \<open>None\<close> is a failed assertion
  (\<open>vcos_assert\<close>, \<open>vcos_demand\<close>). Memory allocation is a parameter, and \<open>heap_freed\<close> logs what has
  been given back to \<open>vcos_free\<close>.
\<close>

subsection \<open>Data\<close>

datatype block_owner = NextBlock ptr | OwnerSubpool nat | OtherBytes

record subpool =
  sp_magic :: bool
  free_head :: ptr
  sp_mem :: ptr
  sp_start :: ptr
  sp_end :: ptr
  sp_num :: nat
  sp_available :: nat
  sp_owned :: bool
  sp_flags :: u32

record blockpool =
  bp_magic :: bool
  bp_align :: nat
  block_data_size :: nat
  block_size :: nat
  num_subpools :: nat
  num_extension_blocks :: nat
  subpools :: "subpool list"
  hdrs :: "addr \<Rightarrow> block_owner"
  heap_freed :: "addr list"

definition HEADER_SIZE :: nat where "HEADER_SIZE = 4"
definition MAX_SUBPOOLS :: nat where "MAX_SUBPOOLS = 8"
definition ALIGN_DEFAULT :: nat where "ALIGN_DEFAULT = 4"
definition FLAG_NONE :: u32 where "FLAG_NONE = 0"
definition FLAG_OWNS_MEM :: u32 where "FLAG_OWNS_MEM = push_bit 0 1"
definition FLAG_EXTENSION :: u32 where "FLAG_EXTENSION = push_bit 1 1"

text \<open>\<open>VCOS_BLOCKPOOL_ROUND_UP(x, s)\<close> and \<open>VCOS_BLOCKPOOL_SIZE(num_blocks, block_size, align)\<close>. With
  \<open>s\<close> zero the mask is empty and the result is zero, as in C.\<close>

definition bp_round_up :: "nat \<Rightarrow> nat \<Rightarrow> nat" where
  "bp_round_up x s = nat ((int x + (int s - 1)) AND NOT (int s - 1))"

definition bp_block_size :: "nat \<Rightarrow> nat \<Rightarrow> nat" where
  "bp_block_size data align =
     bp_round_up (data + (if align \<ge> 4096 then 32 else 0) + HEADER_SIZE) align"

definition bp_size :: "nat \<Rightarrow> nat \<Rightarrow> nat \<Rightarrow> nat" where
  "bp_size count data align = bp_block_size data align * count + align"

definition HANDLE_CREATE :: "u32 \<Rightarrow> u32 \<Rightarrow> u32" where
  "HANDLE_CREATE i s = push_bit 3 (i + 1) OR s"

definition HANDLE_GET_INDEX :: "u32 \<Rightarrow> u32" where
  "HANDLE_GET_INDEX h = drop_bit 3 h - 1"

definition HANDLE_GET_SUBPOOL :: "u32 \<Rightarrow> u32" where
  "HANDLE_GET_SUBPOOL h = h AND (push_bit 3 1 - 1)"

definition zero_subpool :: subpool where
  "zero_subpool = \<lparr>sp_magic = False, free_head = None, sp_mem = None, sp_start = None, sp_end = None,
     sp_num = 0, sp_available = 0, sp_owned = False, sp_flags = 0\<rparr>"

definition upd_subpool :: "nat \<Rightarrow> (subpool \<Rightarrow> subpool) \<Rightarrow> blockpool \<Rightarrow> blockpool" where
  "upd_subpool i f p = p\<lparr>subpools := (subpools p)[i := f (subpools p ! i)]\<rparr>"

text \<open>\<open>ASSERT_SUBPOOL\<close>: the magic number, and \<open>start >= mem\<close> on possibly NULL pointers.\<close>

definition assert_subpool :: "subpool \<Rightarrow> bool" where
  "assert_subpool s \<longleftrightarrow> sp_magic s
     \<and> (case sp_start s of None \<Rightarrow> 0 | Some a \<Rightarrow> a) \<ge> (case sp_mem s of None \<Rightarrow> 0 | Some a \<Rightarrow> a)"

subsection \<open>Initialisation\<close>

text \<open>The loop that links \<open>n\<close> blocks from \<open>block\<close> on into the free list; the block size is
  positive, so \<open>block < end\<close> holds exactly \<open>num_blocks\<close> times.\<close>

fun link_blocks :: "nat \<Rightarrow> nat \<Rightarrow> addr \<Rightarrow> ptr \<Rightarrow> (addr \<Rightarrow> block_owner) \<Rightarrow> ptr \<times> (addr \<Rightarrow> block_owner)" where
  "link_blocks 0 step block free h = (free, h)"
| "link_blocks (Suc n) step block free h =
     link_blocks n step (block + step) (Some block) (h(block := NextBlock free))"

text \<open>The parameter \<open>flags\<close> is unused, as in the code.\<close>

definition subpool_init ::
    "nat \<Rightarrow> addr \<Rightarrow> nat \<Rightarrow> nat \<Rightarrow> nat \<Rightarrow> u32 \<Rightarrow> blockpool \<Rightarrow> blockpool" where
  "subpool_init i mem pool_size count align flags p =
     (let start = mem + HEADER_SIZE;
          start = bp_round_up start align;
          start = start - HEADER_SIZE;
          p = upd_subpool i (\<lambda>s. s\<lparr>sp_magic := True, sp_mem := Some mem, sp_start := Some start,
                sp_num := count, sp_available := count, free_head := None, sp_owned := True\<rparr>) p;
          p = (if pool_size < 2 * 1024 * 1024
               then p\<lparr>hdrs := (\<lambda>a. if mem \<le> a \<and> a < mem + pool_size then OtherBytes else hdrs p a)\<rparr>
               else p);
          p = upd_subpool i (\<lambda>s. s\<lparr>sp_end := Some (start + block_size p * count)\<rparr>) p;
          (free, h) = link_blocks count (block_size p) start None (hdrs p)
      in upd_subpool i (\<lambda>s. s\<lparr>free_head := free\<rparr>) (p\<lparr>hdrs := h\<rparr>))"

text \<open>The pool's structure before \<open>init\<close>, with the memory around it.\<close>

definition raw_pool :: "(addr \<Rightarrow> block_owner) \<Rightarrow> blockpool" where
  "raw_pool h = \<lparr>bp_magic = False, bp_align = 0, block_data_size = 0, block_size = 0,
     num_subpools = 0, num_extension_blocks = 0, subpools = replicate 8 zero_subpool, hdrs = h,
     heap_freed = []\<rparr>"

definition vcos_generic_blockpool_init ::
    "nat \<Rightarrow> nat \<Rightarrow> addr \<Rightarrow> nat \<Rightarrow> nat \<Rightarrow> bool \<Rightarrow> blockpool \<Rightarrow> (vcos_status \<times> blockpool) option" where
  "vcos_generic_blockpool_init num_blocks data start pool_size align mutex_ok p =
     (if data = 0 \<or> num_blocks = 0 then None
      else
        let align = (if align = 0 then ALIGN_DEFAULT else align) in
        if align AND 3 \<noteq> 0 then Some (VCOS_EINVAL, p)
        else if bp_size num_blocks data align > pool_size then Some (VCOS_ENOMEM, p)
        else if \<not> mutex_ok then Some (VCOS_ENOMEM, p)
        else
          let p = p\<lparr>block_data_size := data\<rparr>;
              p = p\<lparr>block_size := bp_block_size data align\<rparr>;
              p = p\<lparr>bp_magic := True, num_subpools := 1, num_extension_blocks := 0,
                    bp_align := align, subpools := replicate MAX_SUBPOOLS zero_subpool\<rparr>
          in Some (VCOS_SUCCESS, subpool_init 0 start pool_size num_blocks align FLAG_NONE p))"

text \<open>\<open>malloc\<close> gives the memory for a size, or NULL.\<close>

definition vcos_generic_blockpool_create_on_heap ::
    "(nat \<Rightarrow> ptr) \<Rightarrow> nat \<Rightarrow> nat \<Rightarrow> nat \<Rightarrow> bool \<Rightarrow> blockpool \<Rightarrow> (vcos_status \<times> blockpool) option" where
  "vcos_generic_blockpool_create_on_heap malloc num_blocks data align mutex_ok p =
     (let size = bp_size num_blocks data align in
      case malloc size of
        None \<Rightarrow> Some (VCOS_ENOMEM, p)
      | Some mem \<Rightarrow> do {
          (status, p) \<leftarrow> vcos_generic_blockpool_init num_blocks data mem size align mutex_ok p;
          if status \<noteq> VCOS_SUCCESS then Some (status, p\<lparr>heap_freed := heap_freed p @ [mem]\<rparr>)
          else Some (status, upd_subpool 0 (\<lambda>s. s\<lparr>sp_flags := sp_flags s OR FLAG_OWNS_MEM\<rparr>) p)
        })"

definition vcos_generic_blockpool_extend ::
    "nat \<Rightarrow> nat \<Rightarrow> blockpool \<Rightarrow> (vcos_status \<times> blockpool) option" where
  "vcos_generic_blockpool_extend num_extensions num_blocks p =
     (if \<not> bp_magic p then None
      else if num_subpools p > 1 then Some (VCOS_EACCESS, p)
      else if num_extensions < 1 \<or> num_extensions > MAX_SUBPOOLS - 1 then Some (VCOS_EINVAL, p)
      else if num_blocks < 1 then Some (VCOS_EINVAL, p)
      else
        let p = p\<lparr>num_subpools := num_subpools p + num_extensions\<rparr>;
            p = p\<lparr>num_extension_blocks := num_blocks\<rparr>
        in Some (VCOS_SUCCESS, foldl (\<lambda>p i. upd_subpool i
             (\<lambda>s. s\<lparr>sp_magic := True, sp_start := None, sp_mem := None\<rparr>) p) p [1..<num_subpools p]))"

subsection \<open>Allocating and freeing\<close>

definition has_free :: "blockpool \<Rightarrow> nat \<Rightarrow> bool" where
  "has_free p i \<longleftrightarrow> sp_start (subpools p ! i) \<noteq> None \<and> sp_available (subpools p ! i) > 0"

text \<open>The second search: the first unused subpool whose memory can be allocated; \<open>malloc i\<close> is the
  memory that the attempt for subpool \<open>i\<close> gives.\<close>

fun try_extend :: "(nat \<Rightarrow> ptr) \<Rightarrow> nat list \<Rightarrow> blockpool \<Rightarrow> nat option \<times> blockpool" where
  "try_extend malloc [] p = (None, p)"
| "try_extend malloc (i # is) p =
     (if sp_start (subpools p ! i) = None then
        (case malloc i of
           None \<Rightarrow> try_extend malloc is p
         | Some mem \<Rightarrow> (Some i, subpool_init i mem
             (bp_size (num_extension_blocks p) (block_data_size p) (bp_align p))
             (num_extension_blocks p) (bp_align p) (FLAG_OWNS_MEM OR FLAG_EXTENSION) p))
      else try_extend malloc is p)"

text \<open>Taking the first block of the free list of subpool \<open>i\<close>.\<close>

definition take_block :: "nat \<Rightarrow> blockpool \<Rightarrow> (addr \<times> blockpool) option" where
  "take_block i p = do {
     nb \<leftarrow> free_head (subpools p ! i);
     next \<leftarrow> (case hdrs p nb of NextBlock n \<Rightarrow> Some n | _ \<Rightarrow> None);
     let p = upd_subpool i (\<lambda>s. s\<lparr>free_head := next\<rparr>) p;
     let p = p\<lparr>hdrs := (hdrs p)(nb := OwnerSubpool i)\<rparr>;
     let ret = nb + HEADER_SIZE;
     let p = upd_subpool i (\<lambda>s. s\<lparr>sp_available := sp_available s - 1\<rparr>) p;
     start \<leftarrow> sp_start (subpools p ! i);
     end \<leftarrow> sp_end (subpools p ! i);
     if start < ret \<and> ret < end then Some (ret, p) else None
   }"

definition vcos_generic_blockpool_alloc ::
    "(nat \<Rightarrow> ptr) \<Rightarrow> blockpool \<Rightarrow> (ptr \<times> blockpool) option" where
  "vcos_generic_blockpool_alloc malloc p =
     (if \<not> bp_magic p then None
      else
        let (subpool, p) =
              (case List.find (has_free p) [0..<num_subpools p] of
                 Some i \<Rightarrow> (Some i, p)
               | None \<Rightarrow> try_extend malloc [1..<num_subpools p] p)
        in case subpool of
             None \<Rightarrow> Some (None, p)
           | Some i \<Rightarrow> map_option (\<lambda>(ret, p). (Some ret, p)) (take_block i p))"

text \<open>The data of the block is cleared: \<open>clear a n\<close> is the client memory's \<open>memset(a, 0, n)\<close>.\<close>

definition vcos_generic_blockpool_calloc ::
    "(nat \<Rightarrow> ptr) \<Rightarrow> (addr \<Rightarrow> nat \<Rightarrow> 'm \<Rightarrow> 'm) \<Rightarrow> blockpool \<Rightarrow> 'm \<Rightarrow> (ptr \<times> blockpool \<times> 'm) option" where
  "vcos_generic_blockpool_calloc malloc clear p m = do {
     (ret, p) \<leftarrow> vcos_generic_blockpool_alloc malloc p;
     Some (ret, p, case ret of None \<Rightarrow> m | Some a \<Rightarrow> clear a (block_data_size p) m)
   }"

fun vcos_generic_blockpool_free :: "ptr \<Rightarrow> blockpool \<Rightarrow> blockpool option" where
  "vcos_generic_blockpool_free None p = Some p"
| "vcos_generic_blockpool_free (Some block) p =
     (let hdr = block - HEADER_SIZE in
      case hdrs p hdr of
        OwnerSubpool i \<Rightarrow>
          (if \<not> assert_subpool (subpools p ! i) \<or> \<not> bp_magic p
              \<or> \<not> sp_available (subpools p ! i) < sp_num (subpools p ! i)
           then None
           else
             let p = p\<lparr>hdrs := (hdrs p)(hdr := NextBlock (free_head (subpools p ! i)))\<rparr>;
                 p = upd_subpool i (\<lambda>s. s\<lparr>free_head := Some hdr\<rparr>) p;
                 p = upd_subpool i (\<lambda>s. s\<lparr>sp_available := sp_available s + 1\<rparr>) p;
                 s = subpools p ! i
             in
               if sp_flags s AND FLAG_EXTENSION \<noteq> 0 \<and> sp_available s = sp_num s
               then Some (upd_subpool i (\<lambda>s. s\<lparr>sp_mem := None, sp_start := None\<rparr>)
                      (p\<lparr>heap_freed := heap_freed p @ (case sp_mem s of None \<Rightarrow> [] | Some a \<Rightarrow> [a])\<rparr>))
               else Some p)
      | _ \<Rightarrow> None)"

subsection \<open>Counting and deleting\<close>

fun sum_subpools :: "(subpool \<Rightarrow> nat) \<Rightarrow> nat list \<Rightarrow> blockpool \<Rightarrow> nat \<Rightarrow> nat option" where
  "sum_subpools f [] p ret = Some ret"
| "sum_subpools f (i # is) p ret =
     (if assert_subpool (subpools p ! i) then sum_subpools f is p (ret + f (subpools p ! i)) else None)"

definition vcos_generic_blockpool_available_count :: "blockpool \<Rightarrow> nat option" where
  "vcos_generic_blockpool_available_count p =
     (if \<not> bp_magic p then None
      else sum_subpools (\<lambda>s. if sp_start s \<noteq> None then sp_available s else num_extension_blocks p)
             [0..<num_subpools p] p 0)"

definition vcos_generic_blockpool_used_count :: "blockpool \<Rightarrow> nat option" where
  "vcos_generic_blockpool_used_count p =
     (if \<not> bp_magic p then None
      else sum_subpools (\<lambda>s. if sp_start s \<noteq> None then sp_num s - sp_available s else 0)
             [0..<num_subpools p] p 0)"

text \<open>One pass of the loop of \<open>delete\<close>: overwrite the memory, free it if the subpool owns it.\<close>

definition delete_subpool :: "nat \<Rightarrow> blockpool \<Rightarrow> blockpool option" where
  "delete_subpool i p =
     (let s = subpools p ! i in
      if \<not> assert_subpool s then None
      else case sp_mem s of
        None \<Rightarrow> Some p
      | Some mem \<Rightarrow>
          let p = p\<lparr>hdrs := (\<lambda>a. if mem \<le> a \<and> a < mem + bp_size (sp_num s) (block_data_size p) (bp_align p)
                   then OtherBytes else hdrs p a)\<rparr>;
              p = (if sp_flags s AND FLAG_OWNS_MEM \<noteq> 0
                   then p\<lparr>heap_freed := heap_freed p @ [mem]\<rparr> else p)
          in Some (upd_subpool i (\<lambda>s. s\<lparr>sp_mem := None, sp_start := None\<rparr>) p))"

fun delete_subpools :: "nat list \<Rightarrow> blockpool \<Rightarrow> blockpool option" where
  "delete_subpools [] p = Some p"
| "delete_subpools (i # is) p = Option.bind (delete_subpool i p) (delete_subpools is)"

definition vcos_generic_blockpool_delete :: "blockpool \<Rightarrow> blockpool option" where
  "vcos_generic_blockpool_delete p =
     (if \<not> bp_magic p then None
      else map_option (\<lambda>p. p\<lparr>bp_magic := False\<rparr>) (delete_subpools [0..<num_subpools p] p))"

subsection \<open>Handles\<close>

definition vcos_generic_blockpool_elem_to_handle :: "addr \<Rightarrow> blockpool \<Rightarrow> u32 option" where
  "vcos_generic_blockpool_elem_to_handle block p =
     (let hdr = block - HEADER_SIZE in
      case hdrs p hdr of
        OwnerSubpool i \<Rightarrow>
          (if \<not> assert_subpool (subpools p ! i) \<or> \<not> bp_magic p then None
           else do {
             start \<leftarrow> sp_start (subpools p ! i);
             let index = (hdr - start) div block_size p;
             if \<not> index < sp_num (subpools p ! i) then None
             else if \<not> i < MAX_SUBPOOLS \<or> \<not> i < num_subpools p then None
             else Some (HANDLE_CREATE (of_nat index) (of_nat i))
           })
      | _ \<Rightarrow> None)"

definition vcos_generic_blockpool_elem_from_handle :: "u32 \<Rightarrow> blockpool \<Rightarrow> ptr option" where
  "vcos_generic_blockpool_elem_from_handle handle p =
     (if \<not> bp_magic p then None
      else
        let i = unat (HANDLE_GET_SUBPOOL handle) in
        if i < num_subpools p then
          let index = unat (HANDLE_GET_INDEX handle);
              s = subpools p ! i
          in
            if sp_magic s \<and> sp_mem s \<noteq> None \<and> index < sp_num s then
              (case sp_start s of
                 None \<Rightarrow> None
               | Some start \<Rightarrow>
                   let hdr = start + index * block_size p
                   in Some (if hdrs p hdr = OwnerSubpool i then Some (hdr + HEADER_SIZE) else None))
            else Some None
        else Some None)"

text \<open>The loop of \<open>is_valid_elem\<close> stops at the first subpool that contains the address.\<close>

fun valid_in :: "addr \<Rightarrow> nat list \<Rightarrow> blockpool \<Rightarrow> bool option" where
  "valid_in block [] p = Some False"
| "valid_in block (i # is) p =
     (let s = subpools p ! i in
      if \<not> assert_subpool s then None
      else case (sp_mem s, sp_start s) of
        (Some _, Some start) \<Rightarrow>
          if start < block \<and> block < start + sp_num s * block_size p
          then Some (hdrs p (block - HEADER_SIZE) = OwnerSubpool i \<and> sp_owned s)
          else valid_in block is p
      | _ \<Rightarrow> valid_in block is p)"

definition vcos_generic_blockpool_is_valid_elem :: "addr \<Rightarrow> blockpool \<Rightarrow> bool option" where
  "vcos_generic_blockpool_is_valid_elem block p =
     (if \<not> bp_magic p then None
      else if block AND 3 \<noteq> 0 then Some False
      else valid_in block [0..<num_subpools p] p)"

subsection \<open>Invariant\<close>

definition next_of :: "(addr \<Rightarrow> block_owner) \<Rightarrow> addr \<Rightarrow> ptr" where
  "next_of h a = (case h a of NextBlock n \<Rightarrow> n | _ \<Rightarrow> None)"

text \<open>The headers of a subpool, as addresses.\<close>

definition blocks_of :: "blockpool \<Rightarrow> nat \<Rightarrow> addr set" where
  "blocks_of p i = (case sp_start (subpools p ! i) of None \<Rightarrow> {}
     | Some start \<Rightarrow> set (addr_seq start (block_size p) (sp_num (subpools p ! i))))"

text \<open>The free list of subpool \<open>i\<close> is \<open>fl\<close>: exactly the blocks that are not allocated.\<close>

definition free_list :: "blockpool \<Rightarrow> nat \<Rightarrow> addr list \<Rightarrow> bool" where
  "free_list p i fl \<longleftrightarrow> chain (next_of (hdrs p)) (free_head (subpools p ! i)) fl None
     \<and> distinct fl \<and> set fl \<subseteq> blocks_of p i \<and> length fl = sp_available (subpools p ! i)
     \<and> (\<forall>b\<in>set fl. \<exists>n. hdrs p b = NextBlock n)
     \<and> (\<forall>b\<in>blocks_of p i - set fl. hdrs p b = OwnerSubpool i)"

text \<open>A subpool is unused, or it is well formed and starts inside its memory.\<close>

definition subpool_ok :: "blockpool \<Rightarrow> nat \<Rightarrow> bool" where
  "subpool_ok p i \<longleftrightarrow> sp_magic (subpools p ! i)
     \<and> (case sp_start (subpools p ! i) of
          None \<Rightarrow> sp_mem (subpools p ! i) = None
        | Some start \<Rightarrow> sp_owned (subpools p ! i)
            \<and> (\<exists>mem. sp_mem (subpools p ! i) = Some mem \<and> mem \<le> start)
            \<and> sp_end (subpools p ! i) = Some (start + block_size p * sp_num (subpools p ! i))
            \<and> (\<exists>fl. free_list p i fl))"

definition pool_ok :: "blockpool \<Rightarrow> bool" where
  "pool_ok p \<longleftrightarrow> bp_magic p \<and> length (subpools p) = MAX_SUBPOOLS \<and> 1 \<le> num_subpools p
     \<and> num_subpools p \<le> MAX_SUBPOOLS \<and> HEADER_SIZE < block_size p \<and> 0 < bp_align p
     \<and> block_size p = bp_block_size (block_data_size p) (bp_align p)
     \<and> (num_subpools p > 1 \<longrightarrow> 0 < num_extension_blocks p)
     \<and> (\<forall>i<num_subpools p. subpool_ok p i)
     \<and> (\<forall>i<num_subpools p. \<forall>j<num_subpools p. i \<noteq> j \<longrightarrow> blocks_of p i \<inter> blocks_of p j = {})"

text \<open>The allocated headers.\<close>

definition allocated :: "blockpool \<Rightarrow> addr set" where
  "allocated p = {b. \<exists>i<num_subpools p. b \<in> blocks_of p i \<and> hdrs p b = OwnerSubpool i}"

subsection \<open>Linking\<close>

lemma next_of_upd [heap_simps]:
  "next_of (h(b := NextBlock n)) = (next_of h)(b := n)"
  "next_of (h(b := OwnerSubpool i)) = (next_of h)(b := None)"
  by (auto simp: next_of_def fun_eq_iff)

lemma link_blocks_chain:
  assumes "step > 0" and "chain (next_of h) free fl None" and "set (addr_seq a step n) \<inter> set fl = {}"
  shows "\<exists>free' h'. link_blocks n step a free h = (free', h')
    \<and> chain (next_of h') free' (rev (addr_seq a step n) @ fl) None
    \<and> (\<forall>b\<in>set (addr_seq a step n). \<exists>x. h' b = NextBlock x)
    \<and> (\<forall>b. b \<notin> set (addr_seq a step n) \<longrightarrow> h' b = h b)"
  using assms(2,3)
proof (induction n arbitrary: a free fl h)
  case 0
  then show ?case by (simp add: addr_seq_def)
next
  case (Suc n)
  have a: "a \<notin> set fl" "a \<notin> set (addr_seq (a + step) step n)"
    using Suc.prems(2) addr_seq_not_in [OF assms(1)] by (auto simp: addr_seq_Suc)
  have "chain (next_of (h(a := NextBlock free))) (Some a) (a # fl) None"
    using Suc.prems(1) a(1) by (simp add: heap_simps)
  moreover have "set (addr_seq (a + step) step n) \<inter> set (a # fl) = {}"
    using Suc.prems(2) a(2) by (auto simp: addr_seq_Suc)
  ultimately obtain free' h' where
    "link_blocks n step (a + step) (Some a) (h(a := NextBlock free)) = (free', h')"
    "chain (next_of h') free' (rev (addr_seq (a + step) step n) @ a # fl) None"
    "\<forall>b\<in>set (addr_seq (a + step) step n). \<exists>x. h' b = NextBlock x"
    "\<forall>b. b \<notin> set (addr_seq (a + step) step n) \<longrightarrow> h' b = (h(a := NextBlock free)) b"
    using Suc.IH by blast
  with a(2) show ?case by (auto simp: addr_seq_Suc)
qed

lemma length_addr_seq [simp]: "length (addr_seq a step n) = n"
  by (simp add: addr_seq_def)

text \<open>Initialising a subpool leaves all its blocks on its free list and the other headers outside
  the memory as they were.\<close>

lemma subpool_init_spec:
  assumes "i < length (subpools p)" and "0 < block_size p"
    and start_def: "start = bp_round_up (mem + HEADER_SIZE) align - HEADER_SIZE"
  obtains p' s where "subpool_init i mem sz n align flags p = p'"
    and "p' = p\<lparr>hdrs := hdrs p', subpools := (subpools p)[i := s]\<rparr>"
    and "sp_magic s" and "sp_mem s = Some mem" and "sp_start s = Some start" and "sp_owned s"
    and "sp_end s = Some (start + block_size p * n)" and "sp_num s = n" and "sp_available s = n"
    and "sp_flags s = sp_flags (subpools p ! i)"
    and "free_list p' i (rev (addr_seq start (block_size p) n))"
    and "\<And>b. b \<notin> set (addr_seq start (block_size p) n) \<Longrightarrow> \<not> (mem \<le> b \<and> b < mem + sz) \<Longrightarrow>
      hdrs p' b = hdrs p b"
proof -
  define h0 where "h0 = (if sz < 2 * 1024 * 1024
      then (\<lambda>a. if mem \<le> a \<and> a < mem + sz then OtherBytes else hdrs p a) else hdrs p)"
  obtain free h where fh: "link_blocks n (block_size p) start None h0 = (free, h)"
    "chain (next_of h) free (rev (addr_seq start (block_size p) n)) None"
    "\<forall>b\<in>set (addr_seq start (block_size p) n). \<exists>x. h b = NextBlock x"
    "\<forall>b. b \<notin> set (addr_seq start (block_size p) n) \<longrightarrow> h b = h0 b"
    using link_blocks_chain [OF assms(2), of h0 None "[]" start n] by auto
  define s where "s = (subpools p ! i)\<lparr>sp_magic := True, sp_mem := Some mem, sp_start := Some start,
      sp_num := n, sp_available := n, sp_owned := True,
      sp_end := Some (start + block_size p * n), free_head := free\<rparr>"
  have eq: "subpool_init i mem sz n align flags p = p\<lparr>hdrs := h, subpools := (subpools p)[i := s]\<rparr>"
    using assms(1) fh(1)
    by (cases "sz < 2 * 1024 * 1024")
      (simp_all add: subpool_init_def start_def [symmetric] upd_subpool_def Let_def h0_def s_def
        cong: if_cong)
  show thesis
    by (rule that [of "p\<lparr>hdrs := h, subpools := (subpools p)[i := s]\<rparr>" s])
      (use assms(1,2) fh eq in \<open>auto simp: s_def free_list_def blocks_of_def addr_seq_distinct h0_def\<close>)
qed

subsection \<open>One subpool changes\<close>

lemma blocks_of_cong:
  "sp_start (subpools p' ! i) = sp_start (subpools p ! i) \<Longrightarrow> sp_num (subpools p' ! i) = sp_num (subpools p ! i)
    \<Longrightarrow> block_size p' = block_size p \<Longrightarrow> blocks_of p' i = blocks_of p i"
  by (simp add: blocks_of_def split: option.split)

lemma free_list_frame:
  assumes "free_list p i fl" and "subpools p' ! i = subpools p ! i" and "block_size p' = block_size p"
    and "\<And>b. b \<in> blocks_of p i \<Longrightarrow> hdrs p' b = hdrs p b"
  shows "free_list p' i fl"
proof -
  have sub: "set fl \<subseteq> blocks_of p i" using assms(1) by (simp add: free_list_def)
  then have "chain (next_of (hdrs p')) (free_head (subpools p ! i)) fl None
      \<longleftrightarrow> chain (next_of (hdrs p)) (free_head (subpools p ! i)) fl None"
    by (intro chain_cong) (use assms(4) in \<open>auto simp: next_of_def\<close>)
  moreover have bl: "blocks_of p' i = blocks_of p i" by (rule blocks_of_cong) (simp_all add: assms(2,3))
  moreover have "\<forall>b\<in>set fl. \<exists>n. hdrs p' b = NextBlock n"
  proof
    fix b assume "b \<in> set fl"
    with sub have "b \<in> blocks_of p i" by blast
    moreover obtain n where "hdrs p b = NextBlock n"
      using \<open>b \<in> set fl\<close> assms(1) unfolding free_list_def by blast
    ultimately show "\<exists>n. hdrs p' b = NextBlock n" using assms(4) by simp
  qed
  moreover have "\<forall>b\<in>blocks_of p i - set fl. hdrs p' b = OwnerSubpool i"
    using assms(1,4) by (simp add: free_list_def)
  ultimately show ?thesis
    using assms(1,2) by (simp add: free_list_def)
qed

lemma subpool_ok_frame:
  assumes "subpool_ok p i" and "subpools p' ! i = subpools p ! i" and "block_size p' = block_size p"
    and "\<And>b. b \<in> blocks_of p i \<Longrightarrow> hdrs p' b = hdrs p b"
  shows "subpool_ok p' i"
  using assms(1,2,3) free_list_frame [OF _ assms(2-4)]
  by (auto simp: subpool_ok_def split: option.split_asm)

text \<open>Moving blocks of subpool \<open>i\<close> between its free list and its clients.\<close>

definition relist :: "nat \<Rightarrow> ptr \<Rightarrow> nat \<Rightarrow> (addr \<Rightarrow> block_owner) \<Rightarrow> blockpool \<Rightarrow> blockpool" where
  "relist i f n h p = p\<lparr>hdrs := h,
     subpools := (subpools p)[i := (subpools p ! i)\<lparr>free_head := f, sp_available := n\<rparr>]\<rparr>"

lemma relist_simps [simp]:
  "hdrs (relist i f n h p) = h" "block_size (relist i f n h p) = block_size p"
  "num_subpools (relist i f n h p) = num_subpools p" "bp_magic (relist i f n h p) = bp_magic p"
  "length (subpools (relist i f n h p)) = length (subpools p)"
  "num_extension_blocks (relist i f n h p) = num_extension_blocks p"
  "heap_freed (relist i f n h p) = heap_freed p" "bp_align (relist i f n h p) = bp_align p"
  "block_data_size (relist i f n h p) = block_data_size p"
  by (simp_all add: relist_def)

lemma relist_subpool [simp]:
  "i < length (subpools p) \<Longrightarrow> subpools (relist i f n h p) ! j =
     (if j = i then (subpools p ! i)\<lparr>free_head := f, sp_available := n\<rparr> else subpools p ! j)"
  by (simp add: relist_def nth_list_update)

lemma relist_blocks [simp]:
  "i < length (subpools p) \<Longrightarrow> blocks_of (relist i f n h p) j = blocks_of p j"
  by (rule blocks_of_cong) simp_all

lemma pool_okD:
  assumes "pool_ok p" and "i < num_subpools p"
  shows "subpool_ok p i" "i < length (subpools p)" "bp_magic p" "HEADER_SIZE < block_size p"
  using assms by (auto simp: pool_ok_def)

lemma pool_ok_relist:
  assumes "pool_ok p" and "i < num_subpools p" and "sp_start (subpools p ! i) \<noteq> None"
    and "\<And>b. b \<notin> blocks_of p i \<Longrightarrow> h b = hdrs p b" and "free_list (relist i f n h p) i fl"
  shows "pool_ok (relist i f n h p)"
proof -
  note i = pool_okD [OF assms(1,2)]
  have "subpool_ok (relist i f n h p) j" if j: "j < num_subpools p" for j
  proof (cases "j = i")
    case True
    then show ?thesis using i assms(3,5) by (auto simp: subpool_ok_def split: option.splits)
  next
    case False
    then have "blocks_of p j \<inter> blocks_of p i = {}" using assms(1,2) j by (auto simp: pool_ok_def)
    then show ?thesis
      by (intro subpool_ok_frame [OF pool_okD(1) [OF assms(1) j]])
        (use i False assms(4) in auto)
  qed
  then show ?thesis using assms(1) i by (simp add: pool_ok_def)
qed

lemma blocks_not_shared:
  "pool_ok p \<Longrightarrow> i < num_subpools p \<Longrightarrow> j < num_subpools p \<Longrightarrow> b \<in> blocks_of p i \<Longrightarrow>
   b \<in> blocks_of p j \<Longrightarrow> i = j"
  by (auto simp: pool_ok_def)

text \<open>The first block of a free list can be taken.\<close>

lemma take_block_ok:
  assumes "pool_ok p" and "i < num_subpools p" and "has_free p i"
  obtains b p' where "take_block i p = Some (b + HEADER_SIZE, p')" and "pool_ok p'"
    and "b \<in> blocks_of p i" and "b \<notin> allocated p" and "allocated p' = insert b (allocated p)"
    and "num_subpools p' = num_subpools p" and "\<And>j. blocks_of p' j = blocks_of p j"
    and "\<And>j. sp_flags (subpools p' ! j) = sp_flags (subpools p ! j)"
    and "\<And>j. sp_num (subpools p' ! j) = sp_num (subpools p ! j)" and "heap_freed p' = heap_freed p"
proof -
  note i = pool_okD [OF assms(1,2)]
  obtain start where start: "sp_start (subpools p ! i) = Some start"
      and av: "sp_available (subpools p ! i) > 0"
    using assms(3) by (auto simp: has_free_def)
  obtain fl where fl: "free_list p i fl"
      and en: "sp_end (subpools p ! i) = Some (start + block_size p * sp_num (subpools p ! i))"
    using i(1) start by (auto simp: subpool_ok_def)
  obtain b rest where b: "fl = b # rest"
    using fl av by (cases fl) (auto simp: free_list_def)
  define nx where "nx = next_of (hdrs p) b"
  define h where "h = (hdrs p)(b := OwnerSubpool i)"
  have bf: "free_head (subpools p ! i) = Some b" "hdrs p b = NextBlock nx" "b \<in> blocks_of p i"
      "b \<notin> set rest" "chain (next_of (hdrs p)) nx rest None"
    using fl b by (auto simp: free_list_def nx_def next_of_def)
  have "\<exists>k. b = start + k * block_size p \<and> k < sp_num (subpools p ! i)"
    using bf(3) start by (auto simp: blocks_of_def addr_seq_mem)
  then obtain k where k: "b = start + k * block_size p" "k < sp_num (subpools p ! i)"
    by blast
  have "(k + 1) * block_size p \<le> sp_num (subpools p ! i) * block_size p"
    using k(2) by (intro mult_le_mono1) simp
  then have range: "start < b + HEADER_SIZE" "b + HEADER_SIZE < start + block_size p * sp_num (subpools p ! i)"
    using i(4) k(1) by (simp_all add: HEADER_SIZE_def algebra_simps)
  define p' where "p' = relist i nx (sp_available (subpools p ! i) - 1) h p"
  have "take_block i p = Some (b + HEADER_SIZE, p')"
    using bf(1,2) i(2) start en range
    by (simp add: take_block_def upd_subpool_def p'_def relist_def h_def)
  moreover have fl': "free_list p' i rest"
    using fl b bf i(2) by (auto simp: p'_def free_list_def h_def heap_simps)
  have "pool_ok p'"
    unfolding p'_def
    by (rule pool_ok_relist [OF assms(1,2) _ _ fl' [unfolded p'_def]])
      (use start bf(3) in \<open>auto simp: h_def\<close>)
  moreover have "b \<notin> allocated p"
    using bf(2) by (auto simp: allocated_def)
  moreover have "allocated p' = insert b (allocated p)"
    using i(2) bf(3) assms(2) by (auto simp: allocated_def p'_def h_def)
  ultimately show thesis
    by (intro that [of b p']) (use bf(3) i(2) in \<open>simp_all add: p'_def\<close>)
qed

subsection \<open>Rounding\<close>

lemma bp_round_up_bounds:
  assumes "0 < s"
  shows "x \<le> bp_round_up x s" "bp_round_up x s < x + s"
proof -
  define t where "t = int x + (int s - 1)"
  have m: "0 \<le> int s - 1" "0 \<le> t" using assms by (simp_all add: t_def)
  have "(t AND (int s - 1)) AND (t AND NOT (int s - 1)) = 0"
    by (rule bit_eqI) (simp add: bit_simps)
  then have "(t AND (int s - 1)) + (t AND NOT (int s - 1))
      = (t AND (int s - 1)) OR (t AND NOT (int s - 1))"
    by (rule disjunctive_add_eq_or)
  also have "\<dots> = t" by (rule bit_eqI) (auto simp: bit_simps)
  finally have "t AND NOT (int s - 1) = t - (t AND (int s - 1))" by simp
  moreover have "0 \<le> t AND (int s - 1)" "t AND (int s - 1) \<le> int s - 1"
    using m by simp_all
  ultimately have "int x \<le> t AND NOT (int s - 1)" "t AND NOT (int s - 1) < int x + int s"
    using t_def by linarith+
  then show "x \<le> bp_round_up x s" "bp_round_up x s < x + s"
    by (simp_all add: bp_round_up_def t_def [symmetric])
qed

lemma bp_round_up_dvd: "(2 ^ k) dvd bp_round_up x (2 ^ k)"
proof -
  define t where "t = int x + (int (2 ^ k) - 1)"
  have "t AND NOT (int (2 ^ k) - 1) = push_bit k (drop_bit k t)"
    by (rule bit_eqI) (auto simp: bit_simps mask_eq_exp_minus_1 [symmetric])
  then have "bp_round_up x (2 ^ k) = nat (drop_bit k t * 2 ^ k)"
    by (simp add: bp_round_up_def t_def push_bit_eq_mult)
  moreover have "0 \<le> drop_bit k t" by (simp add: t_def)
  ultimately show ?thesis by (simp add: nat_mult_distrib nat_power_eq)
qed

text \<open>The blocks and their headers lie inside the memory whose size \<open>bp_size\<close> computes.\<close>

lemma blocks_in_memory:
  assumes "0 < align" and "b \<in> set (addr_seq (bp_round_up (mem + HEADER_SIZE) align - HEADER_SIZE) bs n)"
  shows "mem \<le> b" "b + bs \<le> mem + (bs * n + align)"
proof -
  define start where "start = bp_round_up (mem + HEADER_SIZE) align - HEADER_SIZE"
  have s: "mem \<le> start" "start < mem + align"
    using bp_round_up_bounds [OF assms(1), of "mem + HEADER_SIZE"] by (simp_all add: start_def)
  obtain k where k: "b = start + k * bs" "k < n"
    using assms(2) unfolding start_def [symmetric] addr_seq_mem by blast
  have "(k + 1) * bs \<le> n * bs" using k(2) by (intro mult_le_mono1) simp
  then show "mem \<le> b" "b + bs \<le> mem + (bs * n + align)"
    using s k(1) by (simp_all add: algebra_simps)
qed

subsection \<open>Extending\<close>

definition extension_size :: "blockpool \<Rightarrow> nat" where
  "extension_size p = bp_size (num_extension_blocks p) (block_data_size p) (bp_align p)"

text \<open>What is assumed of \<open>vcos_malloc\<close>: the memory it gives contains no block of the pool.\<close>

definition fresh_memory :: "(nat \<Rightarrow> ptr) \<Rightarrow> blockpool \<Rightarrow> bool" where
  "fresh_memory malloc p \<longleftrightarrow> (\<forall>i mem j b. malloc i = Some mem \<longrightarrow> j < num_subpools p \<longrightarrow>
     b \<in> blocks_of p j \<longrightarrow> \<not> (mem \<le> b \<and> b < mem + extension_size p))"

lemma extend_ok:
  assumes "pool_ok p" and "1 \<le> i" and "i < num_subpools p" and "sp_start (subpools p ! i) = None"
    and "\<And>j b. j < num_subpools p \<Longrightarrow> b \<in> blocks_of p j \<Longrightarrow>
      \<not> (mem \<le> b \<and> b < mem + extension_size p)"
    and "p' = subpool_init i mem (extension_size p) (num_extension_blocks p) (bp_align p) fl p"
  shows "pool_ok p'" "has_free p' i" "allocated p' = allocated p" "num_subpools p' = num_subpools p"
    "\<And>j. sp_flags (subpools p' ! j) = sp_flags (subpools p ! j)"
    "\<And>j. j \<noteq> i \<Longrightarrow> blocks_of p' j = blocks_of p j"
proof -
  note pi = pool_okD [OF assms(1,3)]
  have bs: "0 < block_size p" using pi(4) by simp
  have al: "0 < bp_align p" "0 < num_extension_blocks p"
    "block_size p = bp_block_size (block_data_size p) (bp_align p)"
    using assms(1-3) by (auto simp: pool_ok_def)
  define start where "start = bp_round_up (mem + HEADER_SIZE) (bp_align p) - HEADER_SIZE"
  obtain q s where q: "p' = q" "q = p\<lparr>hdrs := hdrs q, subpools := (subpools p)[i := s]\<rparr>"
      "sp_magic s" "sp_mem s = Some mem" "sp_start s = Some start" "sp_owned s"
      "sp_end s = Some (start + block_size p * num_extension_blocks p)"
      "sp_num s = num_extension_blocks p" "sp_available s = num_extension_blocks p"
      "sp_flags s = sp_flags (subpools p ! i)"
      "free_list q i (rev (addr_seq start (block_size p) (num_extension_blocks p)))"
      "\<And>b. b \<notin> set (addr_seq start (block_size p) (num_extension_blocks p)) \<Longrightarrow>
        \<not> (mem \<le> b \<and> b < mem + extension_size p) \<Longrightarrow> hdrs q b = hdrs p b"
    unfolding assms(6) using pi(2) bs start_def by (rule subpool_init_spec) blast
  have fields: "block_size p' = block_size p" "num_subpools p' = num_subpools p" "bp_magic p' = bp_magic p"
    "length (subpools p') = length (subpools p)" "num_extension_blocks p' = num_extension_blocks p"
    "bp_align p' = bp_align p" "block_data_size p' = block_data_size p"
    "subpools p' ! i = s" "\<And>j. j \<noteq> i \<Longrightarrow> subpools p' ! j = subpools p ! j"
    unfolding q(1) by (subst q(2), simp add: pi(2))+
  have bl: "blocks_of p' j = blocks_of p j" if "j \<noteq> i" for j
    using that fields by (intro blocks_of_cong) simp_all
  have bi: "blocks_of p' i = set (addr_seq start (block_size p) (num_extension_blocks p))"
    using fields q(5,8) by (simp add: blocks_of_def)
  have region: "mem \<le> b \<and> b < mem + extension_size p" if "b \<in> blocks_of p' i" for b
    using blocks_in_memory [OF al(1), of b mem "block_size p" "num_extension_blocks p"] that bs
    by (simp add: bi start_def extension_size_def bp_size_def al(3))
  have same: "hdrs p' b = hdrs p b" if "b \<in> blocks_of p j" "j < num_subpools p" for b j
    using q(12) [of b] assms(5) [OF that(2,1)] region [of b, unfolded bi] unfolding q(1) by blast
  have sub: "subpool_ok p' j" if j: "j < num_subpools p" for j
  proof (cases "j = i")
    case True
    have "mem \<le> start"
      using bp_round_up_bounds(1) [OF al(1), of "mem + HEADER_SIZE"] by (simp add: start_def)
    moreover have "free_list p' i (rev (addr_seq start (block_size p) (num_extension_blocks p)))"
      using q(11) by (simp add: q(1))
    ultimately show ?thesis
      using True fields q(3-9) by (auto simp: subpool_ok_def)
  next
    case False
    then show ?thesis
      by (intro subpool_ok_frame [OF pool_okD(1) [OF assms(1) j]])
        (use fields same j in auto)
  qed
  have dis: "blocks_of p' j \<inter> blocks_of p' k = {}" if jk: "j < num_subpools p" "k < num_subpools p" "j \<noteq> k" for j k
  proof -
    have no: "blocks_of p m \<inter> blocks_of p' i = {}" if "m < num_subpools p" for m
      using assms(5) [OF that] region by blast
    consider "j = i" "k \<noteq> i" | "k = i" "j \<noteq> i" | "j \<noteq> i" "k \<noteq> i" using jk(3) by blast
    then show ?thesis
    proof cases
      case 1 then show ?thesis using no [OF jk(2)] bl by auto
    next
      case 2 then show ?thesis using no [OF jk(1)] bl by auto
    next
      case 3 then show ?thesis using assms(1) jk bl by (simp add: pool_ok_def)
    qed
  qed
  show "pool_ok p'"
    using assms(1) sub dis unfolding pool_ok_def fields by simp
  show "has_free p' i" using fields q(5,9) al(2) by (simp add: has_free_def)
  show "num_subpools p' = num_subpools p" by (rule fields)
  show "blocks_of p' j = blocks_of p j" if "j \<noteq> i" for j using that by (rule bl)
  show "sp_flags (subpools p' ! j) = sp_flags (subpools p ! j)" for j
    using fields q(10) by (cases "j = i") simp_all
  have new: "hdrs p' b \<noteq> OwnerSubpool i" if "b \<in> blocks_of p' i" for b
  proof -
    have "\<forall>b\<in>set (addr_seq start (block_size p) (num_extension_blocks p)). \<exists>n. hdrs p' b = NextBlock n"
      using q(11) unfolding q(1) [symmetric] free_list_def by simp
    then obtain n where "hdrs p' b = NextBlock n" using \<open>b \<in> blocks_of p' i\<close> bi by blast
    then show ?thesis by simp
  qed
  have old: "blocks_of p i = {}" using assms(4) by (simp add: blocks_of_def)
  show "allocated p' = allocated p"
  proof (rule set_eqI)
    fix b
    have "(\<exists>j<num_subpools p. b \<in> blocks_of p' j \<and> hdrs p' b = OwnerSubpool j)
        \<longleftrightarrow> (\<exists>j<num_subpools p. b \<in> blocks_of p j \<and> hdrs p b = OwnerSubpool j)"
      using new old bl same by (metis empty_iff)
    then show "b \<in> allocated p' \<longleftrightarrow> b \<in> allocated p" by (simp add: allocated_def fields)
  qed
qed

lemma try_extend_ok:
  assumes "pool_ok p" and "fresh_memory malloc p" and "\<forall>i\<in>set is. 1 \<le> i \<and> i < num_subpools p"
  shows "case try_extend malloc is p of
      (None, p') \<Rightarrow> p' = p \<and> (\<forall>i\<in>set is. sp_start (subpools p ! i) = None \<longrightarrow> malloc i = None)
    | (Some i, p') \<Rightarrow> i \<in> set is \<and> sp_start (subpools p ! i) = None \<and> malloc i \<noteq> None
        \<and> pool_ok p' \<and> has_free p' i \<and> allocated p' = allocated p
        \<and> num_subpools p' = num_subpools p
        \<and> (\<forall>j. sp_flags (subpools p' ! j) = sp_flags (subpools p ! j))
        \<and> (\<forall>j. j \<noteq> i \<longrightarrow> blocks_of p' j = blocks_of p j)"
  using assms(3)
proof (induction "is")
  case Nil
  then show ?case by simp
next
  case (Cons i "is")
  show ?case
  proof (cases "sp_start (subpools p ! i) = None \<and> malloc i \<noteq> None")
    case True
    then obtain mem where mem: "malloc i = Some mem" "sp_start (subpools p ! i) = None" by auto
    have i: "1 \<le> i" "i < num_subpools p" using Cons.prems by auto
    have "\<not> (mem \<le> b \<and> b < mem + extension_size p)"
      if "j < num_subpools p" "b \<in> blocks_of p j" for j b
      using assms(2) mem(1) that unfolding fresh_memory_def by blast
    note e = extend_ok [OF assms(1) i mem(2) this refl]
    show ?thesis using mem e by (simp add: extension_size_def)
  next
    case False
    then show ?thesis
      using Cons by (cases "malloc i") (auto split: prod.splits option.splits)
  qed
qed

lemma alloc_ok:
  assumes "pool_ok p" and "fresh_memory malloc p"
  shows "\<exists>r p'. vcos_generic_blockpool_alloc malloc p = Some (r, p') \<and> pool_ok p'
    \<and> (case r of
         Some a \<Rightarrow> \<exists>b i. a = b + HEADER_SIZE \<and> i < num_subpools p' \<and> b \<in> blocks_of p' i
            \<and> b \<notin> allocated p \<and> allocated p' = insert b (allocated p)
       | None \<Rightarrow> p' = p \<and> (\<forall>i<num_subpools p. \<not> has_free p i)
            \<and> (\<forall>i. 1 \<le> i \<longrightarrow> i < num_subpools p \<longrightarrow>
                 sp_start (subpools p ! i) = None \<longrightarrow> malloc i = None))"
proof -
  have magic: "bp_magic p" using assms(1) by (simp add: pool_ok_def)
  show ?thesis
  proof (cases "List.find (has_free p) [0..<num_subpools p]")
    case (Some i)
    then have i: "i < num_subpools p" "has_free p i" by (auto simp: find_Some_iff)
    obtain b p' where t: "take_block i p = Some (b + HEADER_SIZE, p')" "pool_ok p'" "b \<in> blocks_of p i"
        "b \<notin> allocated p" "allocated p' = insert b (allocated p)" "num_subpools p' = num_subpools p"
        "\<And>j. blocks_of p' j = blocks_of p j"
      using take_block_ok [OF assms(1) i] by metis
    with Some magic i show ?thesis
      by (intro exI [of _ "Some (b + HEADER_SIZE)"] exI [of _ p'])
        (auto simp: vcos_generic_blockpool_alloc_def)
  next
    case None
    then have full: "\<forall>i<num_subpools p. \<not> has_free p i" by (auto simp: find_None_iff)
    have "\<forall>i\<in>set [1..<num_subpools p]. 1 \<le> i \<and> i < num_subpools p" by auto
    note ext = try_extend_ok [OF assms this]
    show ?thesis
    proof (cases "try_extend malloc [1..<num_subpools p] p")
      case (Pair oi q)
      show ?thesis
      proof (cases oi)
        case oi: None
        with ext Pair None magic full assms(1) show ?thesis
          by (intro exI [of _ None] exI [of _ p]) (auto simp: vcos_generic_blockpool_alloc_def)
      next
        case (Some i)
        with ext Pair have q: "i < num_subpools p" "pool_ok q" "has_free q i"
            "allocated q = allocated p" "num_subpools q = num_subpools p"
          by auto
        then have "i < num_subpools q" by simp
        obtain b p' where t: "take_block i q = Some (b + HEADER_SIZE, p')" "pool_ok p'" "b \<in> blocks_of q i"
            "b \<notin> allocated q" "allocated p' = insert b (allocated q)" "num_subpools p' = num_subpools q"
            "\<And>j. blocks_of p' j = blocks_of q j"
          using take_block_ok [OF q(2) \<open>i < num_subpools q\<close> q(3)] by metis
        with Some Pair None magic q show ?thesis
          by (intro exI [of _ "Some (b + HEADER_SIZE)"] exI [of _ p'])
            (auto simp: vcos_generic_blockpool_alloc_def)
      qed
    qed
  qed
qed


subsection \<open>Creating\<close>

lemma init_success:
  assumes "vcos_generic_blockpool_init count data mem sz align mutex_ok p = Some (VCOS_SUCCESS, p')"
  defines "al \<equiv> (if align = 0 then ALIGN_DEFAULT else align)"
  shows "pool_ok p'" "allocated p' = {}" "num_subpools p' = 1" "bp_size count data al \<le> sz"
    "blocks_of p' 0 = set (addr_seq (bp_round_up (mem + HEADER_SIZE) al - HEADER_SIZE)
       (bp_block_size data al) count)"
    "\<And>j. sp_flags (subpools p' ! j) = sp_flags (replicate MAX_SUBPOOLS zero_subpool ! j)"
    "sp_mem (subpools p' ! 0) = Some mem" "sp_start (subpools p' ! 0) \<noteq> None"
    "sp_num (subpools p' ! 0) = count" "sp_available (subpools p' ! 0) = count"
    "block_size p' = bp_block_size data al" "heap_freed p' = heap_freed p"
proof -
  define p0 where "p0 = p\<lparr>block_data_size := data, block_size := bp_block_size data al,
      bp_magic := True, num_subpools := 1, num_extension_blocks := 0, bp_align := al,
      subpools := replicate MAX_SUBPOOLS zero_subpool\<rparr>"
  have pos: "0 < data" "0 < count" and size: "bp_size count data al \<le> sz" and al: "0 < al"
    and p': "p' = subpool_init 0 mem sz count al FLAG_NONE p0"
    using assms(1) unfolding al_def p0_def
    by (auto simp: vcos_generic_blockpool_init_def Let_def ALIGN_DEFAULT_def split: if_splits)
  have bs: "HEADER_SIZE < bp_block_size data al"
  proof -
    have "data + HEADER_SIZE \<le> data + (if al \<ge> 4096 then 32 else 0) + HEADER_SIZE" by simp
    also have "\<dots> \<le> bp_block_size data al"
      unfolding bp_block_size_def by (rule bp_round_up_bounds(1) [OF al])
    finally show ?thesis using pos by simp
  qed
  have pre: "0 < length (subpools p0)" "0 < block_size p0"
    using bs by (simp_all add: p0_def MAX_SUBPOOLS_def)
  define start where "start = bp_round_up (mem + HEADER_SIZE) al - HEADER_SIZE"
  obtain q s where q: "p' = q" "q = p0\<lparr>hdrs := hdrs q, subpools := (subpools p0)[0 := s]\<rparr>"
      "sp_magic s" "sp_mem s = Some mem" "sp_start s = Some start" "sp_owned s"
      "sp_end s = Some (start + block_size p0 * count)"
      "sp_num s = count" "sp_available s = count" "sp_flags s = sp_flags (subpools p0 ! 0)"
      "free_list q 0 (rev (addr_seq start (block_size p0) count))"
    unfolding p' using pre start_def by (rule subpool_init_spec) blast
  have fields: "block_size p' = bp_block_size data al" "num_subpools p' = 1" "bp_magic p'"
    "length (subpools p') = MAX_SUBPOOLS" "num_extension_blocks p' = 0" "bp_align p' = al"
    "block_data_size p' = data" "heap_freed p' = heap_freed p"
    "subpools p' ! 0 = s" "\<And>j. j \<noteq> 0 \<Longrightarrow> subpools p' ! j = replicate MAX_SUBPOOLS zero_subpool ! j"
    unfolding q(1) by (subst q(2), simp add: p0_def MAX_SUBPOOLS_def)+
  have fl: "free_list p' 0 (rev (addr_seq start (block_size p') count))"
    using q(11) by (simp add: q(1) [symmetric] fields(1)) (simp add: p0_def)
  have "mem \<le> start"
    using bp_round_up_bounds(1) [OF al, of "mem + HEADER_SIZE"] by (simp add: start_def)
  then have "subpool_ok p' 0"
    using fields q(3-9) fl by (auto simp: subpool_ok_def p0_def)
  then show "pool_ok p'"
    using fields bs al by (simp add: pool_ok_def MAX_SUBPOOLS_def)
  show bl: "blocks_of p' 0 = set (addr_seq (bp_round_up (mem + HEADER_SIZE) al - HEADER_SIZE)
       (bp_block_size data al) count)"
    using fields q(5,8) by (simp add: blocks_of_def start_def)
  have nb: "\<forall>b\<in>set (rev (addr_seq start (block_size p') count)). \<exists>n. hdrs p' b = NextBlock n"
    using fl unfolding free_list_def by simp
  have "hdrs p' b \<noteq> OwnerSubpool 0" if b: "b \<in> blocks_of p' 0" for b
  proof -
    from nb b obtain n where "hdrs p' b = NextBlock n" unfolding bl start_def fields(1) by auto
    then show ?thesis by simp
  qed
  then show "allocated p' = {}" using fields(2) by (auto simp: allocated_def)
  show "sp_flags (subpools p' ! j) = sp_flags (replicate MAX_SUBPOOLS zero_subpool ! j)" for j
    using fields q(10) by (cases "j = 0") (simp_all add: p0_def)
  show "num_subpools p' = 1" "bp_size count data al \<le> sz" "sp_mem (subpools p' ! 0) = Some mem"
    "sp_start (subpools p' ! 0) \<noteq> None" "sp_num (subpools p' ! 0) = count"
    "sp_available (subpools p' ! 0) = count" "block_size p' = bp_block_size data al"
    "heap_freed p' = heap_freed p"
    using fields q(4,5,8,9) size by simp_all
qed

lemma init_layout:
  assumes "vcos_generic_blockpool_init count data mem sz align mutex_ok p = Some (VCOS_SUCCESS, p')"
    and "align \<noteq> 0" and "b \<in> blocks_of p' 0"
  shows "pool_ok p' \<and> allocated p' = {} \<and> card (blocks_of p' 0) = count
    \<and> mem \<le> b \<and> b + HEADER_SIZE + data \<le> mem + sz
    \<and> (\<forall>k. align = 2 ^ k \<longrightarrow> align dvd b + HEADER_SIZE)"
proof -
  note i = init_success [OF assms(1)]
  have al: "(if align = 0 then ALIGN_DEFAULT else align) = align" using assms(2) by simp
  define bs where "bs = bp_block_size data align"
  define start where "start = bp_round_up (mem + HEADER_SIZE) align - HEADER_SIZE"
  have bl: "blocks_of p' 0 = set (addr_seq start bs count)"
    using i(5) by (simp only: al bs_def start_def)
  have pos: "0 < align" using assms(2) by simp
  have "data + HEADER_SIZE \<le> data + (if align \<ge> 4096 then 32 else 0) + HEADER_SIZE" by simp
  also have "\<dots> \<le> bs" unfolding bs_def bp_block_size_def by (rule bp_round_up_bounds(1) [OF pos])
  finally have db: "data + HEADER_SIZE \<le> bs" .
  have "bs * count + align \<le> sz" using i(4) by (simp only: al bp_size_def bs_def)
  then have mem: "mem \<le> b" "b + HEADER_SIZE + data \<le> mem + sz"
    using blocks_in_memory [OF pos assms(3) [unfolded bl start_def]] db by simp_all
  have "0 < bs" using db by (simp add: HEADER_SIZE_def)
  then have "card (blocks_of p' 0) = count"
    unfolding bl by (subst distinct_card) (simp_all add: addr_seq_distinct)
  moreover have "align dvd b + HEADER_SIZE" if "align = 2 ^ k" for k
  proof -
    obtain m where "b = start + m * bs"
      using assms(3) unfolding bl addr_seq_mem by blast
    moreover have "start + HEADER_SIZE = bp_round_up (mem + HEADER_SIZE) align"
      using bp_round_up_bounds(1) [OF pos, of "mem + HEADER_SIZE"] by (simp add: start_def)
    moreover have "align dvd bp_round_up x align" for x
      unfolding that by (rule bp_round_up_dvd)
    ultimately show ?thesis
      by (metis add.commute add.left_commute bp_block_size_def bs_def dvd_add dvd_mult)
  qed
  ultimately show ?thesis using i(1,2) mem by blast
qed

text \<open>A pool created over a piece of memory is well formed and empty; every block with its
  header lies inside that memory, as the macro \<open>VCOS_BLOCKPOOL_SIZE\<close> promises; and the data of
  every block starts at a multiple of the alignment if that is a power of two.\<close>

theorem blockpool_init_layout:
  assumes "vcos_generic_blockpool_init count data mem sz align mutex_ok p = Some (VCOS_SUCCESS, p')"
    and "align \<noteq> 0" and "b \<in> blocks_of p' 0"
  shows "pool_ok p' \<and> allocated p' = {} \<and> card (blocks_of p' 0) = count
    \<and> mem \<le> b \<and> b + HEADER_SIZE + data \<le> mem + sz
    \<and> (\<forall>k. align = 2 ^ k \<longrightarrow> align dvd b + HEADER_SIZE)"
  by (rule init_layout [OF assms])

definition demo_pool :: blockpool where
  "demo_pool = snd (the (vcos_generic_blockpool_init 3 10 100 1000 8 True (raw_pool (\<lambda>_. OtherBytes))))"

lemma demo_pool_init:
  "vcos_generic_blockpool_init 3 10 100 1000 8 True (raw_pool (\<lambda>_. OtherBytes)) = Some (VCOS_SUCCESS, demo_pool)"
proof -
  have "bp_size 3 10 8 = 56" by code_simp
  then have "\<exists>p. vcos_generic_blockpool_init 3 10 100 1000 8 True (raw_pool (\<lambda>_. OtherBytes)) = Some (VCOS_SUCCESS, p)"
    by (simp add: vcos_generic_blockpool_init_def)
  then show ?thesis by (auto simp: demo_pool_def)
qed

theorem blockpool_init_layout_witness:
  "\<exists>b. b \<in> blocks_of demo_pool 0 \<and> 100 \<le> b \<and> b + 14 \<le> 1100 \<and> 8 dvd b + HEADER_SIZE"
proof -
  have "blocks_of demo_pool 0 \<noteq> {}"
    using init_success(5) [OF demo_pool_init] by (simp add: addr_seq_def)
  then obtain b where b: "b \<in> blocks_of demo_pool 0" by blast
  from blockpool_init_layout [OF demo_pool_init _ b] have l:
    "100 \<le> b \<and> b + HEADER_SIZE + 10 \<le> 1100 \<and> (\<forall>k. (8 :: nat) = 2 ^ k \<longrightarrow> 8 dvd b + HEADER_SIZE)" by simp
  then have "(8 :: nat) = 2 ^ 3 \<longrightarrow> 8 dvd b + HEADER_SIZE" by blast
  then have "8 dvd b + HEADER_SIZE" by simp
  with l b show ?thesis by (intro exI [of _ b]) (simp add: HEADER_SIZE_def)
qed


subsection \<open>Freeing and handles\<close>

lemma allocated_subpool:
  assumes "pool_ok p" and "b \<in> allocated p"
  obtains i start k fl where "i < num_subpools p" and "b \<in> blocks_of p i" and "hdrs p b = OwnerSubpool i"
    and "sp_start (subpools p ! i) = Some start" and "b = start + k * block_size p"
    and "k < sp_num (subpools p ! i)" and "free_list p i fl" and "b \<notin> set fl"
    and "sp_available (subpools p ! i) < sp_num (subpools p ! i)"
    and "assert_subpool (subpools p ! i)" and "sp_magic (subpools p ! i)"
    and "sp_mem (subpools p ! i) \<noteq> None"
proof -
  obtain i where i: "i < num_subpools p" "b \<in> blocks_of p i" "hdrs p b = OwnerSubpool i"
    using assms(2) by (auto simp: allocated_def)
  note pi = pool_okD [OF assms(1) i(1)]
  obtain start where start: "sp_start (subpools p ! i) = Some start"
    using i(2) by (auto simp: blocks_of_def split: option.splits)
  obtain fl mem where fl: "free_list p i fl" "sp_mem (subpools p ! i) = Some mem" "mem \<le> start"
      "sp_magic (subpools p ! i)"
    using pi(1) start by (auto simp: subpool_ok_def)
  have "b \<notin> set fl" using fl(1) i(3) unfolding free_list_def by fastforce
  have "b \<in> set (addr_seq start (block_size p) (sp_num (subpools p ! i)))"
    using i(2) start by (simp add: blocks_of_def)
  then obtain k where k: "b = start + k * block_size p" "k < sp_num (subpools p ! i)"
    unfolding addr_seq_mem by blast
  have "set fl \<subset> blocks_of p i" using fl(1) i(2) \<open>b \<notin> set fl\<close> by (auto simp: free_list_def)
  then have "card (set fl) < card (blocks_of p i)"
    by (rule psubset_card_mono [rotated]) (simp add: blocks_of_def start)
  moreover have "card (blocks_of p i) = sp_num (subpools p ! i)"
    using pi(4) start by (simp add: blocks_of_def distinct_card addr_seq_distinct)
  moreover have "card (set fl) = sp_available (subpools p ! i)"
    using fl(1) by (simp add: free_list_def distinct_card)
  ultimately have "sp_available (subpools p ! i) < sp_num (subpools p ! i)" by simp
  moreover have "assert_subpool (subpools p ! i)"
    using fl(2-4) start by (simp add: assert_subpool_def)
  ultimately show thesis
    using that [of i start k fl] i start k fl \<open>b \<notin> set fl\<close> by simp
qed

lemma free_ok:
  assumes "pool_ok p" and "b \<in> allocated p"
    and "\<forall>i<num_subpools p. sp_flags (subpools p ! i) AND FLAG_EXTENSION = 0"
  shows "\<exists>p'. vcos_generic_blockpool_free (Some (b + HEADER_SIZE)) p = Some p' \<and> pool_ok p'
    \<and> allocated p' = allocated p - {b} \<and> heap_freed p' = heap_freed p
    \<and> (\<exists>i<num_subpools p. free_head (subpools p' ! i) = Some b
        \<and> sp_available (subpools p' ! i) = sp_available (subpools p ! i) + 1)
    \<and> num_subpools p' = num_subpools p \<and> (\<forall>j. blocks_of p' j = blocks_of p j
        \<and> sp_flags (subpools p' ! j) = sp_flags (subpools p ! j)
        \<and> sp_num (subpools p' ! j) = sp_num (subpools p ! j))"
proof -
  obtain i start k fl where i: "i < num_subpools p" "b \<in> blocks_of p i" "hdrs p b = OwnerSubpool i"
      "sp_start (subpools p ! i) = Some start" "free_list p i fl" "b \<notin> set fl"
      "sp_available (subpools p ! i) < sp_num (subpools p ! i)" "assert_subpool (subpools p ! i)"
    using allocated_subpool [OF assms(1,2)] by metis
  note pi = pool_okD [OF assms(1) i(1)]
  define h where "h = (hdrs p)(b := NextBlock (free_head (subpools p ! i)))"
  define p' where "p' = relist i (Some b) (sp_available (subpools p ! i) + 1) h p"
  have "vcos_generic_blockpool_free (Some (b + HEADER_SIZE)) p = Some p'"
    using i(1,3,7,8) pi(2,3) assms(3)
    by (simp add: p'_def relist_def h_def upd_subpool_def Let_def)
  moreover have fl': "free_list p' i (b # fl)"
    using i(2,5,6) pi(2) by (auto simp: p'_def free_list_def h_def heap_simps)
  have "pool_ok p'"
    unfolding p'_def
    by (rule pool_ok_relist [OF assms(1) i(1) _ _ fl' [unfolded p'_def]])
      (use i(2,4) in \<open>auto simp: h_def\<close>)
  moreover have "allocated p' = allocated p - {b}"
    using pi(2) by (auto simp: allocated_def p'_def h_def)
  ultimately show ?thesis using i(1) pi(2) by (auto simp: p'_def)
qed

text \<open>Freeing an allocated block of a pool without extension flags never fails an assertion,
  makes exactly this block available again and keeps the pool well formed.\<close>

theorem blockpool_free_returns:
  assumes "pool_ok p" and "b \<in> allocated p"
    and "\<forall>i<num_subpools p. sp_flags (subpools p ! i) AND FLAG_EXTENSION = 0"
  shows "\<exists>p'. vcos_generic_blockpool_free (Some (b + HEADER_SIZE)) p = Some p' \<and> pool_ok p'
    \<and> allocated p' = allocated p - {b} \<and> heap_freed p' = heap_freed p
    \<and> (\<exists>i<num_subpools p. free_head (subpools p' ! i) = Some b
        \<and> sp_available (subpools p' ! i) = sp_available (subpools p ! i) + 1)"
  using free_ok [OF assms] by blast

text \<open>The handle of index \<open>k\<close> in subpool \<open>i\<close> gives both back.\<close>

lemma handle_parts:
  assumes "k < 2 ^ 28" and "i < 8"
  defines "h \<equiv> HANDLE_CREATE (of_nat k) (of_nat i)"
  shows "unat (HANDLE_GET_INDEX h) = k" "unat (HANDLE_GET_SUBPOOL h) = i" "h \<noteq> 0"
proof -
  define x :: u32 where "x = of_nat (k + 1)"
  define y :: u32 where "y = of_nat i"
  have y: "y = take_bit 3 y"
    using assms(2) by (simp add: y_def take_bit_of_nat take_bit_nat_def)
  have ux: "unat x = k + 1" using assms(1) unfolding x_def by (intro unat_of_nat_small) simp
  have uy: "unat y = i" using assms(2) unfolding y_def by (intro unat_of_nat_small) simp
  have h: "h = push_bit 3 x OR take_bit 3 y"
    using y by (simp add: h_def HANDLE_CREATE_def x_def y_def add.commute)
  have "drop_bit 3 h = take_bit 29 x"
    unfolding h by (rule bit_word_eqI) (auto simp: bit_simps)
  moreover have "take_bit 29 x = x"
    using assms(1) by (simp add: word_unat_eq_iff unsigned_take_bit_eq ux take_bit_nat_eq_self)
  ultimately have d: "drop_bit 3 h = x" by simp
  show "unat (HANDLE_GET_INDEX h) = k"
    using ux by (simp add: HANDLE_GET_INDEX_def d unat_dec word_neq_zero_unat)
  have "h AND mask 3 = take_bit 3 y"
    unfolding h by (rule bit_word_eqI) (auto simp: bit_simps)
  then show "unat (HANDLE_GET_SUBPOOL h) = i"
    using y uy by (simp add: HANDLE_GET_SUBPOOL_def mask_eq_exp_minus_1 push_bit_eq_mult)
  show "h \<noteq> 0" using d ux by auto
qed

text \<open>C26. Handles: the handle of an allocated block is not the invalid handle and gives the block
  back, and once the block has been freed the same handle gives NULL.\<close>

theorem blockpool_handle_roundtrip:
  assumes "pool_ok p" and "b \<in> allocated p"
    and "\<forall>i<num_subpools p. sp_num (subpools p ! i) \<le> 2 ^ 28
      \<and> sp_flags (subpools p ! i) AND FLAG_EXTENSION = 0"
  shows "\<exists>h. vcos_generic_blockpool_elem_to_handle (b + HEADER_SIZE) p = Some h \<and> h \<noteq> 0
    \<and> vcos_generic_blockpool_elem_from_handle h p = Some (Some (b + HEADER_SIZE))
    \<and> (\<forall>p'. vcos_generic_blockpool_free (Some (b + HEADER_SIZE)) p = Some p' \<longrightarrow>
         vcos_generic_blockpool_elem_from_handle h p' = Some None)"
proof -
  obtain i start k fl where i: "i < num_subpools p" "hdrs p b = OwnerSubpool i"
      "sp_start (subpools p ! i) = Some start" "b = start + k * block_size p"
      "k < sp_num (subpools p ! i)" "assert_subpool (subpools p ! i)"
      "sp_magic (subpools p ! i)" "sp_mem (subpools p ! i) \<noteq> None"
      "sp_available (subpools p ! i) < sp_num (subpools p ! i)"
    using allocated_subpool [OF assms(1,2)] by metis
  note pi = pool_okD [OF assms(1) i(1)]
  have small: "k < 2 ^ 28" "i < 8" "i < MAX_SUBPOOLS"
    using assms(1,3) i(1,5) by (auto simp: pool_ok_def MAX_SUBPOOLS_def)
  define h where "h = HANDLE_CREATE (of_nat k) (of_nat i)"
  note hp = handle_parts [OF small(1,2), folded h_def]
  have "(b - start) div block_size p = k" using i(4) pi(4) by simp
  then have to: "vcos_generic_blockpool_elem_to_handle (b + HEADER_SIZE) p = Some h"
    using i(1-3,5-6) pi(3) small(3)
    by (simp add: vcos_generic_blockpool_elem_to_handle_def Let_def h_def)
  have from_h: "vcos_generic_blockpool_elem_from_handle h p = Some (Some (b + HEADER_SIZE))"
    using i pi(3) by (simp add: vcos_generic_blockpool_elem_from_handle_def Let_def hp)
  have "vcos_generic_blockpool_elem_from_handle h p' = Some None"
    if "vcos_generic_blockpool_free (Some (b + HEADER_SIZE)) p = Some p'" for p'
  proof -
    have "p' = relist i (Some b) (sp_available (subpools p ! i) + 1)
        ((hdrs p)(b := NextBlock (free_head (subpools p ! i)))) p"
      using that i(1,2,6,9) pi(2,3) assms(3) by (simp add: relist_def upd_subpool_def Let_def)
    then show ?thesis
      using i pi(2,3) by (simp add: vcos_generic_blockpool_elem_from_handle_def Let_def hp)
  qed
  with to from_h hp(3) show ?thesis by blast
qed

lemma demo_pool_allocated:
  "\<exists>p b. pool_ok p \<and> b \<in> allocated p \<and> (\<forall>i<num_subpools p. sp_num (subpools p ! i) \<le> 2 ^ 28
      \<and> sp_flags (subpools p ! i) AND FLAG_EXTENSION = 0)"
proof -
  note d = init_success [OF demo_pool_init]
  have "0 < num_subpools demo_pool" using d(3) by simp
  moreover have "has_free demo_pool 0" using d(8,10) by (simp add: has_free_def)
  ultimately obtain b p' where t: "take_block 0 demo_pool = Some (b + HEADER_SIZE, p')" "pool_ok p'"
      "allocated p' = insert b (allocated demo_pool)" "num_subpools p' = num_subpools demo_pool"
      "\<And>j. sp_flags (subpools p' ! j) = sp_flags (subpools demo_pool ! j)"
      "\<And>j. sp_num (subpools p' ! j) = sp_num (subpools demo_pool ! j)"
    using take_block_ok [OF d(1)] by metis
  have "\<forall>i<num_subpools p'. sp_num (subpools p' ! i) \<le> 2 ^ 28
      \<and> sp_flags (subpools p' ! i) AND FLAG_EXTENSION = 0"
    using t(4-6) d(3,6,9) by (simp add: MAX_SUBPOOLS_def zero_subpool_def)
  with t(2,3) show ?thesis by (intro exI [of _ p'] exI [of _ b]) simp
qed

theorem blockpool_free_returns_witness:
  "\<exists>p b p'. vcos_generic_blockpool_free (Some (b + HEADER_SIZE)) p = Some p' \<and> pool_ok p'
    \<and> allocated p' = allocated p - {b}"
proof -
  obtain p b where p: "pool_ok p" "b \<in> allocated p"
    "\<forall>i<num_subpools p. sp_flags (subpools p ! i) AND FLAG_EXTENSION = 0"
    using demo_pool_allocated by blast
  from blockpool_free_returns [OF p] show ?thesis by blast
qed

theorem blockpool_handle_roundtrip_witness:
  "\<exists>p b h. b \<in> allocated p \<and> vcos_generic_blockpool_elem_to_handle (b + HEADER_SIZE) p = Some h
    \<and> vcos_generic_blockpool_elem_from_handle h p = Some (Some (b + HEADER_SIZE))"
proof -
  obtain p b where p: "pool_ok p" "b \<in> allocated p"
    "\<forall>i<num_subpools p. sp_num (subpools p ! i) \<le> 2 ^ 28
      \<and> sp_flags (subpools p ! i) AND FLAG_EXTENSION = 0"
    using demo_pool_allocated by blast
  from blockpool_handle_roundtrip [OF p] p(2) show ?thesis by blast
qed

subsection \<open>Two defects\<close>

text \<open>\<open>vcos_generic_blockpool_create_on_heap\<close> cannot be used with the default alignment: with
  \<open>align\<close> 0 it asks for the size of a pool of alignment 0, which the macro computes as 0 bytes, and
  the initialisation, which replaces the alignment first, then always refuses that memory.\<close>

theorem blockpool_default_align_fails:
  assumes "0 < count" and "0 < data"
  shows "\<exists>p'. vcos_generic_blockpool_create_on_heap malloc count data 0 mutex_ok p = Some (VCOS_ENOMEM, p')
    \<and> bp_size count data 0 = 0"
proof -
  have "bp_round_up x 0 = 0" for x by (simp add: bp_round_up_def)
  then have size: "bp_size count data 0 = 0" by (simp add: bp_size_def bp_block_size_def)
  have "0 < bp_size count data ALIGN_DEFAULT" by (simp add: bp_size_def ALIGN_DEFAULT_def)
  then show ?thesis
    using assms size
    by (auto simp: vcos_generic_blockpool_create_on_heap_def vcos_generic_blockpool_init_def Let_def
        ALIGN_DEFAULT_def split: option.split)
qed

theorem blockpool_default_align_fails_witness:
  "\<exists>p'. vcos_generic_blockpool_create_on_heap Some 4 16 0 True (raw_pool (\<lambda>_. OtherBytes))
     = Some (VCOS_ENOMEM, p')"
  using blockpool_default_align_fails [of 4 16 Some True "raw_pool (\<lambda>_. OtherBytes)"] by auto

text \<open>Pools as the operations make them.\<close>

inductive blockpool_reachable :: "blockpool \<Rightarrow> bool" where
  on_heap: "vcos_generic_blockpool_create_on_heap malloc count data align m (raw_pool h)
     = Some (VCOS_SUCCESS, p) \<Longrightarrow> blockpool_reachable p"
| in_memory: "vcos_generic_blockpool_init count data mem sz align m (raw_pool h)
     = Some (VCOS_SUCCESS, p) \<Longrightarrow> blockpool_reachable p"
| extend: "blockpool_reachable p \<Longrightarrow> vcos_generic_blockpool_extend n count p = Some (st, p') \<Longrightarrow>
     blockpool_reachable p'"
| alloc: "blockpool_reachable p \<Longrightarrow> vcos_generic_blockpool_alloc malloc p = Some (r, p') \<Longrightarrow>
     blockpool_reachable p'"
| free: "blockpool_reachable p \<Longrightarrow> h \<in> allocated p \<Longrightarrow>
     vcos_generic_blockpool_free (Some (h + HEADER_SIZE)) p = Some p' \<Longrightarrow> blockpool_reachable p'"

definition plain_flags :: "blockpool \<Rightarrow> bool" where
  "plain_flags p \<longleftrightarrow> length (subpools p) = MAX_SUBPOOLS \<and> num_subpools p \<le> MAX_SUBPOOLS
     \<and> (\<forall>i<MAX_SUBPOOLS. sp_flags (subpools p ! i) AND FLAG_EXTENSION = 0
          \<and> (1 \<le> i \<longrightarrow> sp_flags (subpools p ! i) = 0)) \<and> heap_freed p = []"

lemma upd_flags [simp]:
  assumes "\<And>s. sp_flags (f s) = sp_flags s"
  shows "sp_flags (subpools (upd_subpool i f p) ! k) = sp_flags (subpools p ! k)"
proof (cases "k = i \<and> i < length (subpools p)")
  case True
  then show ?thesis using assms by (simp add: upd_subpool_def)
next
  case False
  then show ?thesis by (cases "k = i") (auto simp: upd_subpool_def list_update_beyond)
qed

lemma plain_upd:
  assumes "\<And>s. sp_flags (f s) = sp_flags s" and "plain_flags p"
  shows "plain_flags (upd_subpool i f p)"
proof -
  have "length (subpools (upd_subpool i f p)) = length (subpools p)"
    "heap_freed (upd_subpool i f p) = heap_freed p" "num_subpools (upd_subpool i f p) = num_subpools p" by (simp_all add: upd_subpool_def)
  then show ?thesis using assms by (simp add: plain_flags_def)
qed

lemma plain_hdrs [simp]: "plain_flags (p\<lparr>hdrs := h\<rparr>) = plain_flags p"
  by (simp add: plain_flags_def)

lemma plain_subpool_init: "plain_flags p \<Longrightarrow> plain_flags (subpool_init i mem sz n al fl p)"
  by (auto simp: subpool_init_def Let_def intro!: plain_upd split: prod.split)

lemma plain_init:
  assumes "vcos_generic_blockpool_init count data mem sz align m (raw_pool h) = Some (VCOS_SUCCESS, p)"
  shows "plain_flags p"
  using assms
  by (auto simp: vcos_generic_blockpool_init_def Let_def raw_pool_def intro!: plain_subpool_init
      split: if_splits) (simp_all add: plain_flags_def zero_subpool_def MAX_SUBPOOLS_def)

lemma plain_fold_upd:
  assumes "\<And>s. sp_flags (f s) = sp_flags s"
  shows "plain_flags p \<Longrightarrow> plain_flags (foldl (\<lambda>p i. upd_subpool i f p) p is)"
  by (induction "is" arbitrary: p) (simp_all add: plain_upd [OF assms])

lemma plain_try_extend: "plain_flags p \<Longrightarrow> plain_flags (snd (try_extend malloc is p))"
  by (induction malloc "is" p rule: try_extend.induct) (simp_all add: plain_subpool_init split: option.split)

lemma plain_take:
  assumes "take_block i p = Some (r, p')" and "plain_flags p"
  shows "plain_flags p'"
  using assms by (auto simp: take_block_def Let_def intro!: plain_upd
      split: bind_splits block_owner.splits if_splits)

lemma plain_alloc:
  assumes "vcos_generic_blockpool_alloc malloc p = Some (r, p')" and "plain_flags p"
  shows "plain_flags p'"
  using assms plain_try_extend [of p malloc "[1..<num_subpools p]"]
  by (auto simp: vcos_generic_blockpool_alloc_def Let_def intro: plain_take
      split: if_splits option.splits prod.splits)

lemma plain_free:
  assumes "vcos_generic_blockpool_free (Some (a + HEADER_SIZE)) p = Some p'" and "plain_flags p"
    and "a \<in> allocated p"
  shows "plain_flags p'"
proof -
  obtain i where i: "i < num_subpools p" "hdrs p a = OwnerSubpool i"
    using assms(3) by (auto simp: allocated_def)
  then have "sp_flags (subpools p ! i) AND FLAG_EXTENSION = 0"
    using assms(2) by (simp add: plain_flags_def)
  with i assms(1,2) show ?thesis
    by (auto simp: Let_def intro!: plain_upd split: if_splits)
qed

lemma plain_extend:
  assumes "vcos_generic_blockpool_extend n count p = Some (st, p')" and "plain_flags p"
  shows "plain_flags p'"
proof (cases "st = VCOS_SUCCESS")
  case True
  have "n \<le> MAX_SUBPOOLS - 1" "num_subpools p \<le> 1"
    using assms True by (auto simp: vcos_generic_blockpool_extend_def Let_def split: if_splits)
  then have "plain_flags (p\<lparr>num_subpools := num_subpools p + n, num_extension_blocks := count\<rparr>)"
    using assms(2) by (auto simp: plain_flags_def MAX_SUBPOOLS_def)
  then show ?thesis
    using assms(1) True plain_fold_upd
    by (auto simp: vcos_generic_blockpool_extend_def Let_def intro!: plain_fold_upd split: if_splits)
next
  case False
  then have "p' = p"
    using assms(1) by (auto simp: vcos_generic_blockpool_extend_def Let_def split: if_splits)
  then show ?thesis using assms(2) by simp
qed

lemma plain_owns:
  assumes "plain_flags p"
  shows "plain_flags (upd_subpool 0 (\<lambda>s. s\<lparr>sp_flags := sp_flags s OR FLAG_OWNS_MEM\<rparr>) p)"
proof -
  have "(x OR FLAG_OWNS_MEM) AND FLAG_EXTENSION = 0" if "x AND FLAG_EXTENSION = 0" for x :: u32
    using that by (simp add: bit.conj_disj_distrib2 FLAG_OWNS_MEM_def FLAG_EXTENSION_def)
  then show ?thesis
    using assms by (auto simp: plain_flags_def upd_subpool_def nth_list_update)
qed

lemma blockpool_reachable_plain: "blockpool_reachable p \<Longrightarrow> plain_flags p"
proof (induction rule: blockpool_reachable.induct)
  case (on_heap malloc count data align m h' p)
  then show ?case
    by (auto simp: vcos_generic_blockpool_create_on_heap_def Let_def split: option.splits bind_splits
        if_splits dest!: plain_init intro!: plain_owns)
next
  case (free p h p')
  then show ?case using plain_free by blast
qed (auto intro: plain_init plain_extend plain_alloc)

lemma subpools_upd_nth:
  "subpools (upd_subpool i f p) ! k
     = (if k = i \<and> i < length (subpools p) then f (subpools p ! i) else subpools p ! k)"
  by (cases "i < length (subpools p)") (simp_all add: upd_subpool_def nth_list_update list_update_beyond)

lemma heap_freed_upd [simp]: "heap_freed (upd_subpool i f p) = heap_freed p"
  by (simp add: upd_subpool_def)

lemma delete_subpool_frees:
  assumes "delete_subpool i p = Some p'"
  shows "set (heap_freed p') \<subseteq> set (heap_freed p)
      \<union> {m. sp_mem (subpools p ! i) = Some m \<and> sp_flags (subpools p ! i) AND FLAG_OWNS_MEM \<noteq> 0}"
    and "sp_flags (subpools p' ! k) = sp_flags (subpools p ! k)"
  using assms
  by (auto simp: delete_subpool_def Let_def subpools_upd_nth split: if_splits option.splits)

lemma delete_extensions_frees:
  assumes "delete_subpools is p = Some p'" and "\<forall>i\<in>set is. sp_flags (subpools p ! i) = 0"
  shows "set (heap_freed p') \<subseteq> set (heap_freed p)"
  using assms
proof (induction "is" arbitrary: p)
  case (Cons i "is")
  then obtain p1 where p1: "delete_subpool i p = Some p1" "delete_subpools is p1 = Some p'"
    by (auto split: bind_splits)
  have "set (heap_freed p1) \<subseteq> set (heap_freed p)"
    using delete_subpool_frees(1) [OF p1(1)] Cons.prems(2) by auto
  moreover have "set (heap_freed p') \<subseteq> set (heap_freed p1)"
    using Cons.IH [OF p1(2)] Cons.prems(2) delete_subpool_frees(2) [OF p1(1)] by simp
  ultimately show ?case by blast
qed simp

text \<open>C27. The memory of extension subpools is never given back: \<open>subpool_init\<close> does not store its
  \<open>flags\<close>, so that for a pool made by any sequence of the operations no \<open>free\<close> has released memory
  (the branch for an empty extension is dead), and \<open>delete\<close> releases at most subpool 0's.\<close>

theorem blockpool_extensions_leak:
  assumes "blockpool_reachable p"
  shows "heap_freed p = []
    \<and> (\<forall>p'. vcos_generic_blockpool_delete p = Some p'
          \<longrightarrow> set (heap_freed p') \<subseteq> {m. sp_mem (subpools p ! 0) = Some m})"
proof -
  have plain: "plain_flags p" using blockpool_reachable_plain [OF assms] .
  have "set (heap_freed p') \<subseteq> {m. sp_mem (subpools p ! 0) = Some m}"
    if del: "delete_subpools [0..<num_subpools p] p = Some p'" for p'
  proof (cases "num_subpools p")
    case 0
    with del plain show ?thesis by (simp add: plain_flags_def)
  next
    case (Suc n)
    then obtain p1 where p1: "delete_subpool 0 p = Some p1" "delete_subpools [1..<num_subpools p] p1 = Some p'"
      using del by (auto simp: upt_conv_Cons simp del: upt_Suc split: bind_splits)
    have "\<forall>i\<in>set [1..<num_subpools p]. sp_flags (subpools p1 ! i) = 0"
      using plain by (auto simp: plain_flags_def delete_subpool_frees(2) [OF p1(1)])
    then show ?thesis
      using delete_extensions_frees [OF p1(2)] delete_subpool_frees(1) [OF p1(1)] plain
      by (auto simp: plain_flags_def)
  qed
  then show ?thesis
    using plain by (auto simp: vcos_generic_blockpool_delete_def plain_flags_def split: if_splits)
qed

theorem blockpool_extensions_leak_witness:
  "\<exists>p. blockpool_reachable p \<and> heap_freed p = []
     \<and> (\<forall>p'. vcos_generic_blockpool_delete p = Some p' \<longrightarrow> set (heap_freed p') \<subseteq> {1024})"
proof -
  define m where "m = vcos_generic_blockpool_init 2 12 1024 64 8 True (raw_pool (\<lambda>_. OtherBytes))"
  obtain p where p: "m = Some (VCOS_SUCCESS, p)" "sp_mem (subpools p ! 0) = Some 1024"
    unfolding m_def
    by (simp add: vcos_generic_blockpool_init_def Let_def bp_size_def bp_block_size_def bp_round_up_def
        HEADER_SIZE_def subpool_init_def upd_subpool_def MAX_SUBPOOLS_def raw_pool_def split: prod.split)
  have "blockpool_reachable p" using p(1) unfolding m_def by (rule blockpool_reachable.in_memory)
  from blockpool_extensions_leak [OF this] this p(2) show ?thesis by auto
qed

subsection \<open>Pools with one subpool\<close>

text \<open>What users of a pool that is never extended rely on: \<open>n\<close> blocks, of which the allocated ones are
  not available.\<close>

definition fixed_pool :: "nat \<Rightarrow> blockpool \<Rightarrow> bool" where
  "fixed_pool n p \<longleftrightarrow> pool_ok p \<and> num_subpools p = 1 \<and> sp_start (subpools p ! 0) \<noteq> None
     \<and> sp_num (subpools p ! 0) = n \<and> sp_flags (subpools p ! 0) AND FLAG_EXTENSION = 0"

lemma fixed_available:
  assumes "fixed_pool n p"
  shows "sp_available (subpools p ! 0) + card (allocated p) = n" "finite (allocated p)"
proof -
  have p: "pool_ok p" "num_subpools p = 1" using assms by (simp_all add: fixed_pool_def)
  obtain start where start: "sp_start (subpools p ! 0) = Some start"
    using assms by (auto simp: fixed_pool_def)
  obtain fl where fl: "free_list p 0 fl"
    using pool_okD(1) [OF p(1), of 0] p(2) start by (auto simp: subpool_ok_def)
  have al: "allocated p = blocks_of p 0 - set fl"
    using fl p(2) by (fastforce simp: allocated_def free_list_def)
  have "card (blocks_of p 0) = n"
    using assms pool_okD(4) [OF p(1), of 0] p(2) start
    by (simp add: fixed_pool_def blocks_of_def distinct_card addr_seq_distinct)
  moreover have "card (set fl) = sp_available (subpools p ! 0)" "set fl \<subseteq> blocks_of p 0"
    using fl by (simp_all add: free_list_def distinct_card)
  moreover have fin: "finite (blocks_of p 0)" by (simp add: blocks_of_def split: option.split)
  moreover have "card (set fl) \<le> card (blocks_of p 0)" using card_mono [OF fin] calculation(3) by blast
  ultimately show "sp_available (subpools p ! 0) + card (allocated p) = n" "finite (allocated p)"
    by (simp_all add: al card_Diff_subset)
qed

lemma fixed_alloc:
  assumes "fixed_pool n p" and "card (allocated p) < n"
  obtains b p' where "vcos_generic_blockpool_alloc malloc p = Some (Some (b + HEADER_SIZE), p')"
    and "fixed_pool n p'" and "b \<in> blocks_of p 0" and "b \<notin> allocated p"
    and "allocated p' = insert b (allocated p)" and "blocks_of p' 0 = blocks_of p 0"
proof -
  have p: "pool_ok p" "num_subpools p = 1" "0 < num_subpools p" using assms by (simp_all add: fixed_pool_def)
  have free: "has_free p 0"
    using assms fixed_available(1) [OF assms(1)] by (simp add: has_free_def fixed_pool_def)
  obtain b p' where t: "take_block 0 p = Some (b + HEADER_SIZE, p')" "pool_ok p'" "b \<in> blocks_of p 0"
    "b \<notin> allocated p" "allocated p' = insert b (allocated p)" "num_subpools p' = num_subpools p"
    "\<And>j. blocks_of p' j = blocks_of p j" "\<And>j. sp_flags (subpools p' ! j) = sp_flags (subpools p ! j)"
    "\<And>j. sp_num (subpools p' ! j) = sp_num (subpools p ! j)"
    using take_block_ok [OF p(1,3) free] by metis
  have "blocks_of p' 0 \<noteq> {}" using t(3,7) by auto
  then have "sp_start (subpools p' ! 0) \<noteq> None" by (auto simp: blocks_of_def)
  then have "fixed_pool n p'" using assms(1) t by (simp add: fixed_pool_def)
  moreover have "vcos_generic_blockpool_alloc malloc p = Some (Some (b + HEADER_SIZE), p')"
    using free p(2) pool_okD(3) [OF p(1,3)] t(1) by (simp add: vcos_generic_blockpool_alloc_def)
  ultimately show thesis using that t by blast
qed

lemma fixed_free:
  assumes "fixed_pool n p" and "b \<in> allocated p"
  obtains p' where "vcos_generic_blockpool_free (Some (b + HEADER_SIZE)) p = Some p'" and "fixed_pool n p'"
    and "allocated p' = allocated p - {b}" and "blocks_of p' 0 = blocks_of p 0"
proof -
  have p: "pool_ok p" "num_subpools p = 1" "\<forall>i<num_subpools p. sp_flags (subpools p ! i) AND FLAG_EXTENSION = 0"
    using assms by (simp_all add: fixed_pool_def)
  obtain p' where t: "vcos_generic_blockpool_free (Some (b + HEADER_SIZE)) p = Some p'" "pool_ok p'"
    "allocated p' = allocated p - {b}" "num_subpools p' = num_subpools p"
    "\<And>j. blocks_of p' j = blocks_of p j" "\<And>j. sp_flags (subpools p' ! j) = sp_flags (subpools p ! j)"
    "\<And>j. sp_num (subpools p' ! j) = sp_num (subpools p ! j)"
    using free_ok [OF p(1) assms(2) p(3)] by metis
  have "blocks_of p' 0 \<noteq> {}" using t(5) assms(2) p(2) by (auto simp: allocated_def)
  then have "sp_start (subpools p' ! 0) \<noteq> None" by (auto simp: blocks_of_def)
  then have "fixed_pool n p'" using assms(1) t by (simp add: fixed_pool_def)
  then show thesis using that t by blast
qed

lemma pool_ok_flags:
  assumes "pool_ok p"
  shows "pool_ok (upd_subpool i (\<lambda>s. s\<lparr>sp_flags := f s\<rparr>) p)"
    and "allocated (upd_subpool i (\<lambda>s. s\<lparr>sp_flags := f s\<rparr>) p) = allocated p"
proof -
  let ?q = "upd_subpool i (\<lambda>s. s\<lparr>sp_flags := f s\<rparr>) p"
  have same [simp]: "sp_start (subpools ?q ! j) = sp_start (subpools p ! j)"
    "sp_mem (subpools ?q ! j) = sp_mem (subpools p ! j)" "sp_num (subpools ?q ! j) = sp_num (subpools p ! j)"
    "sp_end (subpools ?q ! j) = sp_end (subpools p ! j)" "sp_owned (subpools ?q ! j) = sp_owned (subpools p ! j)"
    "sp_magic (subpools ?q ! j) = sp_magic (subpools p ! j)"
    "free_head (subpools ?q ! j) = free_head (subpools p ! j)"
    "sp_available (subpools ?q ! j) = sp_available (subpools p ! j)" for j
    by (simp_all add: subpools_upd_nth)
  have [simp]: "hdrs ?q = hdrs p" "block_size ?q = block_size p" "num_subpools ?q = num_subpools p"
    "bp_magic ?q = bp_magic p" "length (subpools ?q) = length (subpools p)" "bp_align ?q = bp_align p"
    "block_data_size ?q = block_data_size p" "num_extension_blocks ?q = num_extension_blocks p"
    by (simp_all add: upd_subpool_def)
  have bl [simp]: "blocks_of ?q j = blocks_of p j" for j by (rule blocks_of_cong) simp_all
  have fl: "free_list ?q j = free_list p j" for j by (simp add: free_list_def fun_eq_iff)
  have "subpool_ok ?q j = subpool_ok p j" for j
    by (cases "sp_start (subpools p ! j)") (simp_all add: subpool_ok_def fl)
  then show "pool_ok ?q" "allocated ?q = allocated p"
    using assms by (simp_all add: pool_ok_def allocated_def)
qed

lemma fixed_create:
  assumes "vcos_generic_blockpool_create_on_heap malloc n data align m p = Some (VCOS_SUCCESS, p')"
  shows "fixed_pool n p'" "allocated p' = {}"
proof -
  obtain mem q where q: "vcos_generic_blockpool_init n data mem (bp_size n data align) align m p = Some (VCOS_SUCCESS, q)"
    "p' = upd_subpool 0 (\<lambda>s. s\<lparr>sp_flags := sp_flags s OR FLAG_OWNS_MEM\<rparr>) q"
    using assms by (auto simp: vcos_generic_blockpool_create_on_heap_def Let_def
        split: option.splits bind_splits if_splits)
  note i = init_success [OF q(1)]
  have "sp_flags (subpools q ! 0) = 0" using i(6) [of 0] by (simp add: zero_subpool_def MAX_SUBPOOLS_def)
  moreover have "0 < length (subpools q)" using i(1) by (simp add: pool_ok_def MAX_SUBPOOLS_def)
  moreover have "num_subpools p' = num_subpools q" unfolding q(2) by (simp add: upd_subpool_def)
  ultimately show "fixed_pool n p'" "allocated p' = {}"
    using pool_ok_flags [OF i(1)] i(2,3,8,9) unfolding q(2)
    by (simp_all add: fixed_pool_def subpools_upd_nth FLAG_OWNS_MEM_def FLAG_EXTENSION_def)
qed

end
