(* ===== verification/EventFlags.thy ===== *)
theory EventFlags
  imports Types
begin

text \<open>
  vcos/generic/vcos_generic_event_flags.c: a word of events on which threads wait. Every waiting
  thread has a request on its stack, in a list with a tail pointer; \<open>set\<close> takes the satisfied
  requests out of the list and posts the semaphores of their threads, the thread's timer takes out
  a request that has expired.

  The code between lock and unlock is one step. A \<open>get\<close> that has to wait is three: entering the
  list, being woken, cancelling the timer. One group of flags is modelled, so a request's pointer
  back to it is left out; \<open>ef_mem\<close> is the stack memory that holds the requests, by address, and
  \<open>ef_sem\<close> the semaphores of the threads. \<open>None\<close> is a failed assertion.
\<close>

subsection \<open>Data\<close>

type_synonym thread = nat

record event_waiter =
  requested_events :: u32
  actual_events :: u32
  ew_op :: u32
  return_status :: vcos_status
  ew_thread :: thread
  ew_next :: ptr

record event_flags =
  events :: u32
  waiters_head :: ptr
  waiters_tail :: ptr
  ef_mem :: "addr \<Rightarrow> event_waiter"
  ef_sem :: "thread \<Rightarrow> nat"

definition VCOS_OR :: u32 where "VCOS_OR = 1"
definition VCOS_AND :: u32 where "VCOS_AND = 2"
definition VCOS_CONSUME :: u32 where "VCOS_CONSUME = 4"
definition EVENT_FLAG_OP_MASK :: u32 where "EVENT_FLAG_OP_MASK = VCOS_OR OR VCOS_AND"

lemmas op_defs = VCOS_OR_def VCOS_AND_def VCOS_CONSUME_def EVENT_FLAG_OP_MASK_def

text \<open>What \<open>VCOS_EVENT_WAITER_T **\<close> can point at: the head, or the link of a waiter.\<close>

datatype wlink = AtHead | AtNextOf addr

fun read_link :: "wlink \<Rightarrow> event_flags \<Rightarrow> ptr" where
  "read_link AtHead f = waiters_head f"
| "read_link (AtNextOf a) f = ew_next (ef_mem f a)"

fun write_link :: "wlink \<Rightarrow> ptr \<Rightarrow> event_flags \<Rightarrow> event_flags" where
  "write_link AtHead p f = f\<lparr>waiters_head := p\<rparr>"
| "write_link (AtNextOf a) p f = f\<lparr>ef_mem := (ef_mem f)(a := (ef_mem f a)\<lparr>ew_next := p\<rparr>)\<rparr>"

subsection \<open>Operations\<close>

definition vcos_generic_event_flags_create ::
    "bool \<Rightarrow> event_flags \<Rightarrow> vcos_status \<times> event_flags" where
  "vcos_generic_event_flags_create mutex_ok f =
     (if \<not> mutex_ok then (VCOS_ENOMEM, f)
      else
        let f = f\<lparr>events := 0\<rparr>;
            f = f\<lparr>waiters_tail := None\<rparr>;
            f = f\<lparr>waiters_head := None\<rparr>
        in (VCOS_SUCCESS, f))"

definition waiter_list_valid :: "event_flags \<Rightarrow> bool" where
  "waiter_list_valid f =
     (let valid = (case waiters_head f of
                     None \<Rightarrow> waiters_tail f = None
                   | Some _ \<Rightarrow> waiters_tail f \<noteq> None)
      in case waiters_head f of
           Some a \<Rightarrow> if waiters_head f = waiters_tail f then ew_next (ef_mem f a) = None else valid
         | None \<Rightarrow> valid)"

definition waiter_satisfied :: "u32 \<Rightarrow> event_waiter \<Rightarrow> bool" where
  "waiter_satisfied ev w =
     (let satisfied = ev AND requested_events w in
      if ew_op w AND VCOS_AND \<noteq> 0 then satisfied = requested_events w else satisfied \<noteq> 0)"

definition sem_post :: "thread \<Rightarrow> event_flags \<Rightarrow> event_flags" where
  "sem_post t f = f\<lparr>ef_sem := (ef_sem f)(t := ef_sem f t + 1)\<rparr>"

text \<open>The walk over the waiters, from the link \<open>*pcurrent_waiter\<close> on.\<close>

partial_function (option) wake_loop ::
    "wlink \<Rightarrow> ptr \<Rightarrow> u32 \<Rightarrow> event_flags \<Rightarrow> (u32 \<times> event_flags) option" where
  "wake_loop pcurrent prev consumed f =
     (if read_link pcurrent f = None then Some (consumed, f)
      else
        let curr = the (read_link pcurrent f);
            w = ef_mem f curr
        in
          if waiter_satisfied (events f) w then
            let consumed = (if ew_op w AND VCOS_CONSUME \<noteq> 0 then consumed OR requested_events w
                            else consumed);
                f = write_link pcurrent (ew_next w) f;
                f = (if ew_next w = None then f\<lparr>waiters_tail := prev\<rparr> else f)
            in
              if \<not> waiter_list_valid f then None
              else
                let f = f\<lparr>ef_mem := (ef_mem f)(curr := (ef_mem f curr)\<lparr>return_status := VCOS_SUCCESS\<rparr>)\<rparr>;
                    f = f\<lparr>ef_mem := (ef_mem f)(curr := (ef_mem f curr)\<lparr>actual_events := events f\<rparr>)\<rparr>;
                    f = sem_post (ew_thread (ef_mem f curr)) f
                in wake_loop pcurrent prev consumed f
          else wake_loop (AtNextOf curr) (Some curr) consumed f)"

definition vcos_generic_event_flags_set :: "u32 \<Rightarrow> u32 \<Rightarrow> event_flags \<Rightarrow> event_flags option" where
  "vcos_generic_event_flags_set bitmask opn f = do {
     f \<leftarrow> (if opn = VCOS_OR then Some (f\<lparr>events := events f OR bitmask\<rparr>)
           else if opn = VCOS_AND then Some (f\<lparr>events := events f AND bitmask\<rparr>)
           else None);
     if waiters_head f \<noteq> None then do {
       (consumed, f) \<leftarrow> wake_loop AtHead None 0 f;
       Some (f\<lparr>events := events f AND NOT consumed\<rparr>)
     } else Some f
   }"

text \<open>\<open>VCOS_QUEUE_APPEND_TAIL(&flags->waiters, &waitreq)\<close>.\<close>

definition append_waiter :: "addr \<Rightarrow> event_flags \<Rightarrow> event_flags option" where
  "append_waiter w f =
     (if waiters_head f = None then Some (f\<lparr>waiters_head := Some w, waiters_tail := Some w\<rparr>)
      else map_option (\<lambda>t.
             (f\<lparr>ef_mem := (ef_mem f)(t := (ef_mem f t)\<lparr>ew_next := Some w\<rparr>)\<rparr>)\<lparr>waiters_tail := Some w\<rparr>)
           (waiters_tail f))"

text \<open>The first part of \<open>get\<close>, up to the unlock: it returns, or the thread has to sleep. \<open>wr\<close> is
  where the request lies on the stack, \<open>t\<close> the calling thread.\<close>

datatype get_result = Returned vcos_status u32 | Sleeps

definition vcos_generic_event_flags_get ::
    "thread \<Rightarrow> addr \<Rightarrow> u32 \<Rightarrow> u32 \<Rightarrow> u32 \<Rightarrow> event_flags \<Rightarrow> (get_result \<times> event_flags) option" where
  "vcos_generic_event_flags_get t wr bitmask opn suspend f = do {
     satisfied \<leftarrow>
       (if opn AND EVENT_FLAG_OP_MASK = VCOS_AND then Some (events f AND bitmask = bitmask)
        else if opn AND EVENT_FLAG_OP_MASK = VCOS_OR then Some (events f AND bitmask \<noteq> 0)
        else None);
     if satisfied then
       let retrieved = events f;
           f = (if opn AND VCOS_CONSUME \<noteq> 0 then f\<lparr>events := events f AND NOT bitmask\<rparr> else f)
       in Some (Returned VCOS_SUCCESS retrieved, f)
     else if suspend \<noteq> 0 then do {
       let f = f\<lparr>ef_mem := (ef_mem f)(wr := \<lparr>requested_events = bitmask, actual_events = 0,
                 ew_op = opn, return_status = VCOS_EAGAIN, ew_thread = t, ew_next = None\<rparr>)\<rparr>;
       f \<leftarrow> append_waiter wr f;
       Some (Sleeps, f)
     }
     else Some (Returned VCOS_EAGAIN 0, f)
   }"

text \<open>Waking up: \<open>_vcos_thread_sem_wait\<close> returns when the thread's semaphore has been posted
  (\<open>None\<close>: it still sleeps); then the result is read from the request.\<close>

definition get_wakes :: "thread \<Rightarrow> addr \<Rightarrow> event_flags \<Rightarrow> (vcos_status \<times> u32 \<times> event_flags) option" where
  "get_wakes t wr f =
     (if ef_sem f t = 0 then None
      else Some (return_status (ef_mem f wr), actual_events (ef_mem f wr),
             f\<lparr>ef_sem := (ef_sem f)(t := ef_sem f t - 1)\<rparr>))"

text \<open>The search of \<open>event_flags_timer_expired\<close>.\<close>

partial_function (option) expire_loop ::
    "addr \<Rightarrow> wlink \<Rightarrow> ptr \<Rightarrow> event_flags \<Rightarrow> (thread option \<times> event_flags) option" where
  "expire_loop wr plist prev f =
     (if read_link plist f = None then Some (None, f)
      else
        let curr = the (read_link plist f) in
        if curr = wr then
          let next = ew_next (ef_mem f curr);
              f' = write_link plist next f;
              f' = (if next = None then f'\<lparr>waiters_tail := prev\<rparr> else f')
          in Some (Some (ew_thread (ef_mem f curr)), f')
        else expire_loop wr (AtNextOf curr) (Some curr) f)"

definition event_flags_timer_expired :: "addr \<Rightarrow> event_flags \<Rightarrow> event_flags option" where
  "event_flags_timer_expired wr f = do {
     r \<leftarrow> expire_loop wr AtHead None f;
     if \<not> waiter_list_valid (snd r) then None
     else Some (case fst r of None \<Rightarrow> snd r | Some t \<Rightarrow> sem_post t (snd r))
   }"

subsection \<open>The list of waiters\<close>

abbreviation nexts :: "event_flags \<Rightarrow> addr \<Rightarrow> ptr" where
  "nexts f \<equiv> ew_next \<circ> ef_mem f"

definition last_ptr :: "addr list \<Rightarrow> ptr" where
  "last_ptr ws = (if ws = [] then None else Some (last ws))"

definition link_after :: "addr list \<Rightarrow> wlink" where
  "link_after ws = (if ws = [] then AtHead else AtNextOf (last ws))"

definition waits :: "event_flags \<Rightarrow> addr list \<Rightarrow> bool" where
  "waits f ws \<longleftrightarrow> chain (nexts f) (waiters_head f) ws None \<and> distinct ws
     \<and> waiters_tail f = last_ptr ws"

lemma link_after_simps [simp]:
  "link_after [] = AtHead" "link_after (ws @ [a]) = AtNextOf a"
  "last_ptr [] = None" "last_ptr (ws @ [a]) = Some a"
  by (simp_all add: link_after_def last_ptr_def)

lemma waits_valid: "waits f ws \<Longrightarrow> waiter_list_valid f"
proof (cases ws)
  case (Cons a as)
  assume w: "waits f ws"
  have "ew_next (ef_mem f a) = None" if "waiters_tail f = Some a"
    using w that Cons by (cases as rule: rev_cases) (auto simp: waits_def last_ptr_def)
  with w Cons show ?thesis by (auto simp: waiter_list_valid_def waits_def last_ptr_def)
qed (simp add: waits_def waiter_list_valid_def)

lemma read_link_after:
  "chain (nexts f) (waiters_head f) (kept @ rest) None \<Longrightarrow>
   read_link (link_after kept) f = (case rest of [] \<Rightarrow> None | a # _ \<Rightarrow> Some a)"
  by (cases kept rule: rev_cases; cases rest) (auto simp: chain_append)

text \<open>Unlinking the waiter after \<open>kept\<close>, with the tail kept right.\<close>

definition unlink :: "addr list \<Rightarrow> addr \<Rightarrow> event_flags \<Rightarrow> event_flags" where
  "unlink kept a f =
     (let f' = write_link (link_after kept) (ew_next (ef_mem f a)) f
      in if ew_next (ef_mem f a) = None then f'\<lparr>waiters_tail := last_ptr kept\<rparr> else f')"

lemma waits_unlink:
  assumes "waits f (kept @ a # rest)"
  shows "waits (unlink kept a f) (kept @ rest)"
proof -
  have ch: "chain (nexts f) (waiters_head f) (kept @ a # rest) None"
    and d: "distinct (kept @ a # rest)" and t: "waiters_tail f = last_ptr (kept @ a # rest)"
    using assms by (auto simp: waits_def)
  have nx: "ew_next (ef_mem f a) = (case rest of [] \<Rightarrow> None | b # _ \<Rightarrow> Some b)"
    using ch by (cases rest) (auto simp: chain_append)
  show ?thesis
  proof (cases kept rule: rev_cases)
    case Nil
    then show ?thesis
      using ch d t nx by (cases rest) (auto simp: waits_def unlink_def Let_def last_ptr_def)
  next
    case (snoc ks k)
    have "chain (nexts f) (waiters_head f) ks (Some k)" "chain (nexts f) (ew_next (ef_mem f a)) rest None"
      using ch snoc by (auto simp: chain_append)
    moreover have "k \<notin> set ks" "k \<notin> set rest" using d snoc by auto
    ultimately show ?thesis
      using d t nx snoc
      by (cases rest) (auto simp: waits_def unlink_def Let_def last_ptr_def chain_append fun_upd_comp heap_simps)
  qed
qed

lemma unlink_frame [simp]:
  "events (unlink kept a f) = events f" "ef_sem (unlink kept a f) = ef_sem f"
  "(ef_mem (unlink kept a f) b)\<lparr>ew_next := None\<rparr> = (ef_mem f b)\<lparr>ew_next := None\<rparr>"
  by (cases kept rule: rev_cases; simp add: unlink_def Let_def)+

text \<open>A request without its link: what the owner of the request and the walks read.\<close>

definition strip :: "event_waiter \<Rightarrow> event_waiter" where
  "strip w = w\<lparr>ew_next := None\<rparr>"

lemma strip_eqD:
  assumes "strip w = strip w'"
  shows "requested_events w = requested_events w'" "actual_events w = actual_events w'"
    "ew_op w = ew_op w'" "return_status w = return_status w'" "ew_thread w = ew_thread w'"
  using assms by (cases w; cases w'; simp add: strip_def)+

lemma strip_next [simp]: "strip (w\<lparr>ew_next := p\<rparr>) = strip w"
  by (simp add: strip_def)

lemma satisfied_strip: "strip w = strip w' \<Longrightarrow> waiter_satisfied ev w = waiter_satisfied ev w'"
  by (simp add: waiter_satisfied_def strip_eqD [of w w'])

lemma strip_unlink [simp]: "strip (ef_mem (unlink kept a f) b) = strip (ef_mem f b)"
  by (simp add: strip_def)

subsection \<open>The walk of \<open>set\<close>\<close>

definition consume :: "event_flags \<Rightarrow> addr \<Rightarrow> u32 \<Rightarrow> u32" where
  "consume f a c = (if ew_op (ef_mem f a) AND VCOS_CONSUME \<noteq> 0
     then c OR requested_events (ef_mem f a) else c)"

definition woken :: "addr \<Rightarrow> event_flags \<Rightarrow> event_flags" where
  "woken a f = sem_post (ew_thread (ef_mem f a))
     (f\<lparr>ef_mem := (ef_mem f)(a := (ef_mem f a)\<lparr>return_status := VCOS_SUCCESS, actual_events := events f\<rparr>)\<rparr>)"

definition wake_result :: "u32 \<Rightarrow> event_waiter \<Rightarrow> event_waiter" where
  "wake_result ev w = w\<lparr>return_status := VCOS_SUCCESS, actual_events := ev\<rparr>"

lemma wake_loop_end: "read_link l f = None \<Longrightarrow> wake_loop l prev c f = Some (c, f)"
  by (subst wake_loop.simps) simp

lemma wake_loop_step:
  assumes "read_link (link_after kept) f = Some a"
  shows "wake_loop (link_after kept) (last_ptr kept) c f =
     (if waiter_satisfied (events f) (ef_mem f a) then
        if \<not> waiter_list_valid (unlink kept a f) then None
        else wake_loop (link_after kept) (last_ptr kept) (consume f a c) (woken a (unlink kept a f))
      else wake_loop (link_after (kept @ [a])) (last_ptr (kept @ [a])) c f)"
  using assms
  by (subst wake_loop.simps) (simp add: unlink_def woken_def consume_def sem_post_def Let_def cong: if_cong)

lemma waits_woken [simp]: "waits (woken a f) ws \<longleftrightarrow> waits f ws"
  by (simp add: waits_def woken_def sem_post_def fun_upd_comp) (metis comp_apply fun_upd_triv)

lemma woken_events [simp]: "events (woken a f) = events f"
  by (simp add: woken_def sem_post_def)

lemma woken_sem: "ef_sem (woken a f) = (ef_sem f)(ew_thread (ef_mem f a) := ef_sem f (ew_thread (ef_mem f a)) + 1)"
  by (simp add: woken_def sem_post_def)

lemma woken_mem: "strip (ef_mem (woken a f) b)
    = strip (if b = a then wake_result (events f) (ef_mem f a) else ef_mem f b)"
  by (simp add: woken_def sem_post_def wake_result_def)

lemma strip_wake_result: "strip w = strip w' \<Longrightarrow> strip (wake_result ev w) = strip (wake_result ev w')"
  by (cases w; cases w'; simp add: strip_def wake_result_def)

text \<open>\<open>posts f ws t\<close>: how many of the waiters \<open>ws\<close> belong to thread \<open>t\<close>.\<close>

definition posts :: "event_flags \<Rightarrow> addr list \<Rightarrow> thread \<Rightarrow> nat" where
  "posts f ws t = length (filter (\<lambda>a. ew_thread (ef_mem f a) = t) ws)"

abbreviation sat :: "event_flags \<Rightarrow> addr \<Rightarrow> bool" where
  "sat f a \<equiv> waiter_satisfied (events f) (ef_mem f a)"

lemma wake_loop_spec:
  assumes "waits f (kept @ rest)"
  shows "\<exists>f'. wake_loop (link_after kept) (last_ptr kept) c f
       = Some (fold (consume f) (filter (sat f) rest) c, f')
     \<and> waits f' (kept @ filter (\<lambda>a. \<not> sat f a) rest) \<and> events f' = events f
     \<and> (\<forall>b. strip (ef_mem f' b)
          = strip (if b \<in> set rest \<and> sat f b then wake_result (events f) (ef_mem f b) else ef_mem f b))
     \<and> (\<forall>t. ef_sem f' t = ef_sem f t + posts f (filter (sat f) rest) t)"
  using assms
proof (induction rest arbitrary: kept c f)
  case Nil
  then have "read_link (link_after kept) f = None"
    using read_link_after [of f kept "[]"] by (simp add: waits_def)
  with Nil show ?case by (simp add: wake_loop_end posts_def)
next
  case (Cons a rest)
  have a: "read_link (link_after kept) f = Some a" "a \<notin> set rest"
    using Cons.prems read_link_after [of f kept "a # rest"] by (auto simp: waits_def)
  show ?case
  proof (cases "sat f a")
    case False
    then show ?thesis
      using Cons.IH [of f "kept @ [a]" c] Cons.prems
      by (auto simp: wake_loop_step [OF a(1)] posts_def)
  next
    case True
    let ?f1 = "woken a (unlink kept a f)"
    have w: "waits (unlink kept a f) (kept @ rest)" by (rule waits_unlink [OF Cons.prems])
    have mem: "strip (ef_mem ?f1 b) = strip (if b = a then wake_result (events f) (ef_mem f a) else ef_mem f b)" for b
      by (auto simp: woken_mem intro: strip_wake_result)
    have same: "strip (ef_mem ?f1 b) = strip (ef_mem f b)" if "b \<in> set rest" for b
      using that a(2) by (auto simp: mem)
    have sat: "sat ?f1 b = sat f b" if "b \<in> set rest" for b
      using satisfied_strip [OF same [OF that]] by simp
    have cons: "consume ?f1 b = consume f b" if "b \<in> set rest" for b
      using strip_eqD [OF same [OF that]] by (simp add: consume_def fun_eq_iff)
    have filt: "filter (sat ?f1) rest = filter (sat f) rest"
      "filter (\<lambda>b. \<not> sat ?f1 b) rest = filter (\<lambda>b. \<not> sat f b) rest"
      by (rule filter_cong; simp add: sat del: woken_events)+
    have fold: "fold (consume ?f1) (filter (sat f) rest) c' = fold (consume f) (filter (sat f) rest) c'" for c'
      by (rule fold_cong) (auto simp: cons)
    have posts: "posts ?f1 (filter (sat f) rest) t = posts f (filter (sat f) rest) t" for t
    proof -
      have "filter (\<lambda>b. ew_thread (ef_mem ?f1 b) = t) (filter (sat f) rest)
          = filter (\<lambda>b. ew_thread (ef_mem f b) = t) (filter (sat f) rest)"
        by (rule filter_cong) (auto simp: strip_eqD(5) [OF same])
      then show ?thesis by (simp add: posts_def)
    qed
    have th: "ew_thread (ef_mem (unlink kept a f) a) = ew_thread (ef_mem f a)"
      by (rule strip_eqD(5)) simp
    obtain f' where f': "wake_loop (link_after kept) (last_ptr kept) (consume f a c) ?f1
         = Some (fold (consume ?f1) (filter (sat ?f1) rest) (consume f a c), f')"
      "waits f' (kept @ filter (\<lambda>b. \<not> sat ?f1 b) rest)" "events f' = events ?f1"
      "\<forall>b. strip (ef_mem f' b)
          = strip (if b \<in> set rest \<and> sat ?f1 b then wake_result (events ?f1) (ef_mem ?f1 b) else ef_mem ?f1 b)"
      "\<forall>t. ef_sem f' t = ef_sem ?f1 t + posts ?f1 (filter (sat ?f1) rest) t"
      using Cons.IH [of ?f1 kept "consume f a c"] w by auto
    have "strip (ef_mem f' b) = strip (if b \<in> set (a # rest) \<and> sat f b
        then wake_result (events f) (ef_mem f b) else ef_mem f b)" for b
    proof (cases "b \<in> set rest")
      case b: True
      then show ?thesis
        using f'(4) sat [OF b] same [OF b] strip_wake_result [OF same [OF b]] a(2) by auto
    next
      case False
      then show ?thesis using f'(4) mem [of b] True by auto
    qed
    moreover have "ef_sem f' t = ef_sem f t + posts f (filter (sat f) (a # rest)) t" for t
    proof -
      have "posts f (filter (sat f) (a # rest)) t
          = (if ew_thread (ef_mem f a) = t then 1 else 0) + posts f (filter (sat f) rest) t"
        using True by (simp add: posts_def)
      moreover have "ef_sem f' t = ef_sem ?f1 t + posts f (filter (sat f) rest) t"
        using f'(5) unfolding filt posts by blast
      ultimately show ?thesis by (simp add: woken_sem th)
    qed
    ultimately show ?thesis
      using True f'(1) [unfolded filt fold] f'(2) [unfolded filt] f'(3) waits_valid [OF w]
      by (simp add: wake_loop_step [OF a(1)])
  qed
qed

lemma bit_consumed:
  "bit (fold (consume f) ws c) i \<longleftrightarrow> bit c i \<or> (\<exists>a\<in>set ws. ew_op (ef_mem f a) AND VCOS_CONSUME \<noteq> 0
     \<and> bit (requested_events (ef_mem f a)) i)"
  by (induction ws arbitrary: c) (auto simp: consume_def bit_simps)

text \<open>The events just after the request of \<open>set\<close>, before any waiter has consumed some.\<close>

definition new_events :: "u32 \<Rightarrow> u32 \<Rightarrow> event_flags \<Rightarrow> u32" where
  "new_events bitmask opn f = (if opn = VCOS_OR then events f OR bitmask else events f AND bitmask)"

lemma set_spec:
  assumes "waits f ws" and "opn = VCOS_OR \<or> opn = VCOS_AND"
  shows "\<exists>f'. vcos_generic_event_flags_set bitmask opn f = Some f'
    \<and> (let ready = (\<lambda>a. waiter_satisfied (new_events bitmask opn f) (ef_mem f a)) in
         waits f' (filter (\<lambda>a. \<not> ready a) ws)
         \<and> (\<forall>a. strip (ef_mem f' a)
              = strip (if a \<in> set ws \<and> ready a then wake_result (new_events bitmask opn f) (ef_mem f a) else ef_mem f a))
         \<and> (\<forall>t. ef_sem f' t = ef_sem f t + length (filter (\<lambda>a. ready a \<and> ew_thread (ef_mem f a) = t) ws))
         \<and> (\<forall>i. bit (events f') i \<longleftrightarrow> bit (new_events bitmask opn f) i
              \<and> \<not> (\<exists>a\<in>set ws. ready a \<and> ew_op (ef_mem f a) AND VCOS_CONSUME \<noteq> 0
                     \<and> bit (requested_events (ef_mem f a)) i)))"
proof -
  let ?f = "f\<lparr>events := new_events bitmask opn f\<rparr>"
  have step: "vcos_generic_event_flags_set bitmask opn f =
      (if waiters_head f \<noteq> None then map_option (\<lambda>(c, f). f\<lparr>events := events f AND NOT c\<rparr>) (wake_loop AtHead None 0 ?f)
       else Some ?f)"
    using assms(2) by (auto simp: vcos_generic_event_flags_set_def new_events_def op_defs split: bind_split)
  show ?thesis
  proof (cases "waiters_head f")
    case None
    then have "ws = []" using assms(1) by (auto simp: waits_def dest: chain_NoneD)
    then show ?thesis using None assms(1) by (simp add: step waits_def)
  next
    case (Some w)
    have "waits ?f ([] @ ws)" using assms(1) by (simp add: waits_def)
    from wake_loop_spec [OF this, of 0] obtain f' where f':
      "wake_loop AtHead None 0 ?f = Some (fold (consume ?f) (filter (sat ?f) ws) 0, f')"
      "waits f' (filter (\<lambda>a. \<not> sat ?f a) ws)" "events f' = new_events bitmask opn f"
      "\<forall>b. strip (ef_mem f' b)
          = strip (if b \<in> set ws \<and> sat ?f b then wake_result (events ?f) (ef_mem ?f b) else ef_mem ?f b)"
      "\<forall>t. ef_sem f' t = ef_sem ?f t + posts ?f (filter (sat ?f) ws) t"
      by auto
    let ?g = "f'\<lparr>events := events f' AND NOT (fold (consume ?f) (filter (sat ?f) ws) 0)\<rparr>"
    have "waits ?g (filter (\<lambda>a. \<not> sat ?f a) ws)" using f'(2) by (simp add: waits_def)
    then show ?thesis
      using Some f'(1,3,4,5)
      by (auto simp: step Let_def posts_def bit_consumed bit_simps conj_commute dest: bit_imp_le_length)
  qed
qed

text \<open>C29. \<open>vcos_generic_event_flags_set\<close> on a group whose waiters are \<open>ws\<close>: no assertion fails; exactly
  the waiters whose request the new events satisfy leave the list, the others stay in order; each of
  the former has success and the new events written into its request and its thread's semaphore
  posted once; and the events that satisfied consumers asked for are cleared, after all have been woken.\<close>

theorem event_flags_set_wakes:
  assumes "waits f ws" and "opn = VCOS_OR \<or> opn = VCOS_AND"
  shows "\<exists>f'. vcos_generic_event_flags_set bitmask opn f = Some f'
    \<and> (let ready = (\<lambda>a. waiter_satisfied (new_events bitmask opn f) (ef_mem f a)) in
         waits f' (filter (\<lambda>a. \<not> ready a) ws)
         \<and> (\<forall>a\<in>set ws. strip (ef_mem f' a)
              = strip (if ready a then wake_result (new_events bitmask opn f) (ef_mem f a) else ef_mem f a))
         \<and> (\<forall>t. ef_sem f' t = ef_sem f t + length (filter (\<lambda>a. ready a \<and> ew_thread (ef_mem f a) = t) ws))
         \<and> (\<forall>i. bit (events f') i \<longleftrightarrow> bit (new_events bitmask opn f) i
              \<and> \<not> (\<exists>a\<in>set ws. ready a \<and> ew_op (ef_mem f a) AND VCOS_CONSUME \<noteq> 0
                     \<and> bit (requested_events (ef_mem f a)) i)))"
  using set_spec [OF assms, of bitmask] by (auto simp: Let_def)

theorem event_flags_set_wakes_witness:
  "\<exists>f f'. vcos_generic_event_flags_set 3 VCOS_OR f = Some f' \<and> waits f' [20] \<and> events f' = 2
     \<and> ef_sem f' 7 = 1 \<and> actual_events (ef_mem f' 10) = 3"
proof -
  define w where "w r opn t n = \<lparr>requested_events = r, actual_events = 0, ew_op = opn,
    return_status = VCOS_EAGAIN, ew_thread = t, ew_next = n\<rparr>" for r opn t n
  define f where "f = \<lparr>events = 0, waiters_head = Some 10, waiters_tail = Some 20,
    ef_mem = (\<lambda>a. if a = 10 then w 1 (VCOS_OR OR VCOS_CONSUME) 7 (Some 20) else w 12 VCOS_AND 8 None),
    ef_sem = (\<lambda>_. 0)\<rparr>"
  have "waits f [10, 20]" by (simp add: waits_def f_def w_def last_ptr_def)
  from event_flags_set_wakes [OF this, of VCOS_OR 3] obtain f' where f':
    "vcos_generic_event_flags_set 3 VCOS_OR f = Some f'" "waits f' [20]"
    "strip (ef_mem f' 10) = strip (wake_result 3 (ef_mem f 10))" "ef_sem f' 7 = 1"
    "\<forall>i. bit (events f') i \<longleftrightarrow> bit (3 :: u32) i \<and> \<not> bit (1 :: u32) i"
    by (auto simp: Let_def new_events_def f_def w_def waiter_satisfied_def op_defs)
  have "bit (events f') i = bit (3 AND NOT 1 :: u32) i" for i
    unfolding bit_and_iff bit_not_iff using f'(5) bit_imp_le_length [of "3 :: u32" i]
    by (auto simp: possible_bit_word)
  then have "events f' = 3 AND NOT 1" by (rule bit_eqI)
  moreover have "actual_events (ef_mem f' 10) = 3"
    using strip_eqD(2) [OF f'(3)] by (simp add: wake_result_def)
  ultimately show ?thesis using f'(1,2,4) by (intro exI [of _ f] exI [of _ f']) simp
qed

subsection \<open>Entering and expiring\<close>

text \<open>\<open>same_requests f f'\<close>: apart from links, the requests at the addresses \<open>A\<close> are the same.\<close>

definition same_requests :: "addr set \<Rightarrow> event_flags \<Rightarrow> event_flags \<Rightarrow> bool" where
  "same_requests A f f' \<longleftrightarrow> (\<forall>a\<in>A. strip (ef_mem f' a) = strip (ef_mem f a))"

lemma append_waiter_waits:
  assumes "waits f ws" and "w \<notin> set ws" and "ew_next (ef_mem f w) = None"
  shows "\<exists>f'. append_waiter w f = Some f' \<and> waits f' (ws @ [w]) \<and> same_requests UNIV f f'
    \<and> events f' = events f \<and> ef_sem f' = ef_sem f"
proof (cases ws rule: rev_cases)
  case Nil
  then show ?thesis
    using assms by (auto simp: append_waiter_def waits_def same_requests_def last_ptr_def)
next
  case (snoc ks k)
  have "waiters_head f \<noteq> None" using assms(1) snoc by (cases ks) (auto simp: waits_def)
  moreover have "chain (nexts f) (waiters_head f) ks (Some k)" "k \<notin> set ks"
    using assms(1) snoc by (auto simp: waits_def chain_append)
  ultimately show ?thesis
    using assms snoc
    by (auto simp: append_waiter_def waits_def same_requests_def last_ptr_def chain_append fun_upd_comp
        heap_simps)
qed

lemma expire_loop_spec:
  assumes "waits f (kept @ rest)" and "distinct (kept @ rest)"
  shows "\<exists>f'. expire_loop wr (link_after kept) (last_ptr kept) f
       = Some (if wr \<in> set rest then Some (ew_thread (ef_mem f wr)) else None, f')
     \<and> waits f' (kept @ filter (\<lambda>a. a \<noteq> wr) rest) \<and> events f' = events f \<and> ef_sem f' = ef_sem f
     \<and> same_requests UNIV f f'"
  using assms
proof (induction rest arbitrary: kept)
  case Nil
  then have "read_link (link_after kept) f = None"
    using read_link_after [of f kept "[]"] by (simp add: waits_def)
  with Nil show ?case by (subst expire_loop.simps) (simp add: same_requests_def)
next
  case (Cons a rest)
  have a: "read_link (link_after kept) f = Some a"
    using Cons.prems read_link_after [of f kept "a # rest"] by (auto simp: waits_def)
  show ?case
  proof (cases "a = wr")
    case True
    have "filter (\<lambda>b. b \<noteq> wr) rest = rest" using True Cons.prems(2) by (auto intro: filter_True)
    moreover have "expire_loop wr (link_after kept) (last_ptr kept) f
        = Some (Some (ew_thread (ef_mem f a)), unlink kept a f)"
      using a True by (subst expire_loop.simps) (simp add: unlink_def Let_def cong: if_cong)
    ultimately show ?thesis
      using True waits_unlink [OF Cons.prems(1)] by (simp add: same_requests_def)
  next
    case False
    have "expire_loop wr (link_after kept) (last_ptr kept) f
        = expire_loop wr (link_after (kept @ [a])) (last_ptr (kept @ [a])) f"
      using a False by (subst expire_loop.simps) simp
    then show ?thesis using Cons.IH [of "kept @ [a]"] Cons.prems False by auto
  qed
qed

lemma timer_expired_spec:
  assumes "waits f ws"
  shows "\<exists>f'. event_flags_timer_expired wr f = Some f' \<and> waits f' (filter (\<lambda>a. a \<noteq> wr) ws)
    \<and> events f' = events f \<and> same_requests UNIV f f'
    \<and> ef_sem f' = (if wr \<in> set ws then (ef_sem f)(ew_thread (ef_mem f wr) := ef_sem f (ew_thread (ef_mem f wr)) + 1)
                   else ef_sem f)"
proof -
  obtain f' where f': "expire_loop wr AtHead None f
       = Some (if wr \<in> set ws then Some (ew_thread (ef_mem f wr)) else None, f')"
    "waits f' (filter (\<lambda>a. a \<noteq> wr) ws)" "events f' = events f" "ef_sem f' = ef_sem f"
    "same_requests UNIV f f'"
    using expire_loop_spec [of f "[]" ws wr] assms by (auto simp: waits_def)
  then show ?thesis
    using waits_valid [OF f'(2)]
    by (auto simp: event_flags_timer_expired_def sem_post_def waits_def same_requests_def)
qed

subsection \<open>Threads\<close>

text \<open>Where a thread is in a call of \<open>get\<close>: in none; asleep, its request at an address, with a
  timer running or not; or woken up, the timer not yet cancelled.\<close>

datatype call = Idle | Asleep addr bool | Cancelling addr

fun call_addr :: "call \<Rightarrow> ptr" where
  "call_addr Idle = None"
| "call_addr (Asleep a _) = Some a"
| "call_addr (Cancelling a) = Some a"

record ef_system =
  flags :: event_flags
  calls :: "thread \<Rightarrow> call"

text \<open>One step of the threads and timers around one group of flags: any thread sets events; an idle
  one gets, with its request at an address no other call uses; a running timer expires; a sleeping
  thread whose semaphore is posted goes on; a woken thread cancels its timer. A suspend time of
  \<open>-1\<close> sets no timer.\<close>

inductive ef_step :: "ef_system \<Rightarrow> ef_system \<Rightarrow> bool" where
  set: "vcos_generic_event_flags_set m opn (flags s) = Some f \<Longrightarrow> ef_step s (s\<lparr>flags := f\<rparr>)"
| get: "calls s t = Idle \<Longrightarrow> \<forall>t'. call_addr (calls s t') \<noteq> Some wr \<Longrightarrow>
    vcos_generic_event_flags_get t wr m opn suspend (flags s) = Some (r, f) \<Longrightarrow>
    ef_step s (s\<lparr>flags := f, calls := (calls s)(t := (case r of Sleeps \<Rightarrow> Asleep wr (suspend \<noteq> - 1)
      | Returned _ _ \<Rightarrow> Idle))\<rparr>)"
| expire: "calls s t = Asleep wr True \<or> calls s t = Cancelling wr \<Longrightarrow>
    event_flags_timer_expired wr (flags s) = Some f \<Longrightarrow> ef_step s (s\<lparr>flags := f\<rparr>)"
| wake: "calls s t = Asleep wr timed \<Longrightarrow> get_wakes t wr (flags s) = Some (st, ev, f) \<Longrightarrow>
    ef_step s (s\<lparr>flags := f, calls := (calls s)(t := (if timed then Cancelling wr else Idle))\<rparr>)"
| cancel: "calls s t = Cancelling wr \<Longrightarrow> ef_step s (s\<lparr>calls := (calls s)(t := Idle)\<rparr>)"

definition ef_start :: "event_flags \<Rightarrow> ef_system" where
  "ef_start f = \<lparr>flags = snd (vcos_generic_event_flags_create True (f\<lparr>ef_sem := \<lambda>_. 0\<rparr>)), calls = \<lambda>_. Idle\<rparr>"

inductive ef_reachable :: "ef_system \<Rightarrow> bool" where
  start: "ef_reachable (ef_start f)"
| step: "ef_reachable s \<Longrightarrow> ef_step s s' \<Longrightarrow> ef_reachable s'"

text \<open>A request that has left the list carries an answer.\<close>

definition answered :: "event_waiter \<Rightarrow> bool \<Rightarrow> bool" where
  "answered w timed \<longleftrightarrow> return_status w = VCOS_SUCCESS \<and> waiter_satisfied (actual_events w) w
     \<or> timed \<and> return_status w = VCOS_EAGAIN \<and> actual_events w = 0"

definition asleep_ok :: "event_flags \<Rightarrow> addr list \<Rightarrow> thread \<Rightarrow> addr \<Rightarrow> bool \<Rightarrow> bool" where
  "asleep_ok f ws t wr timed \<longleftrightarrow> ew_thread (ef_mem f wr) = t
     \<and> (if wr \<in> set ws then ef_sem f t = 0 \<and> return_status (ef_mem f wr) = VCOS_EAGAIN
             \<and> actual_events (ef_mem f wr) = 0 \<and> \<not> sat f wr
        else ef_sem f t = 1 \<and> answered (ef_mem f wr) timed)"

definition ef_inv :: "ef_system \<Rightarrow> addr list \<Rightarrow> bool" where
  "ef_inv s ws \<longleftrightarrow> waits (flags s) ws
     \<and> (\<forall>t wr timed. calls s t = Asleep wr timed \<longrightarrow> asleep_ok (flags s) ws t wr timed)
     \<and> (\<forall>t. (\<forall>wr timed. calls s t \<noteq> Asleep wr timed) \<longrightarrow> ef_sem (flags s) t = 0)
     \<and> (\<forall>wr\<in>set ws. \<exists>t timed. calls s t = Asleep wr timed)
     \<and> (\<forall>t t' a. call_addr (calls s t) = Some a \<and> call_addr (calls s t') = Some a \<longrightarrow> t = t')"

lemma ef_invD:
  assumes "ef_inv s ws"
  shows "waits (flags s) ws" "calls s t = Asleep wr timed \<Longrightarrow> asleep_ok (flags s) ws t wr timed"
    "(\<And>wr timed. calls s t \<noteq> Asleep wr timed) \<Longrightarrow> ef_sem (flags s) t = 0"
    "wr \<in> set ws \<Longrightarrow> \<exists>t timed. calls s t = Asleep wr timed"
    "call_addr (calls s t) = Some a \<Longrightarrow> call_addr (calls s t') = Some a \<Longrightarrow> t = t'"
  using assms by (auto simp: ef_inv_def)

text \<open>The request in the list is the one of the thread that sleeps on it.\<close>

lemma ef_inv_owner:
  assumes "ef_inv s ws" and "a \<in> set ws"
  shows "\<exists>timed. calls s (ew_thread (ef_mem (flags s) a)) = Asleep a timed"
  using ef_invD(2,4) [OF assms(1)] assms(2) by (fastforce simp: asleep_ok_def)

lemma sat_mono:
  assumes "waiter_satisfied e w" and "\<And>i. bit e i \<Longrightarrow> bit e' i"
  shows "waiter_satisfied e' w"
proof (cases "ew_op w AND VCOS_AND = 0")
  case True
  then obtain i where "bit (e AND requested_events w) i"
    using assms(1) by (auto simp: waiter_satisfied_def bit_eq_iff)
  then have "bit (e' AND requested_events w) i" using assms(2) by (simp add: bit_and_iff)
  then have "e' AND requested_events w \<noteq> 0" by (metis bit_0_eq bot_apply bot_bool_def)
  then show ?thesis using True by (simp add: waiter_satisfied_def)
next
  case False
  then have "e AND requested_events w = requested_events w"
    using assms(1) by (simp add: waiter_satisfied_def)
  then have "bit e i" if "bit (requested_events w) i" for i
    using that by (metis bit_and_iff)
  then have "e' AND requested_events w = requested_events w"
    by (intro bit_eqI) (auto simp: bit_and_iff assms(2))
  then show ?thesis using False by (simp add: waiter_satisfied_def)
qed

text \<open>Fewer events and the same requests keep a sleeping thread's part of the invariant.\<close>

lemma asleep_ok_mono:
  assumes "asleep_ok f ws t wr timed" and "same_requests {wr} f f'" and "wr \<in> set ws \<longleftrightarrow> wr \<in> set ws'"
    and "ef_sem f' t = ef_sem f t" and "\<And>i. bit (events f') i \<Longrightarrow> bit (events f) i"
  shows "asleep_ok f' ws' t wr timed"
proof -
  have st: "strip (ef_mem f' wr) = strip (ef_mem f wr)" using assms(2) by (simp add: same_requests_def)
  have "sat f' wr \<longrightarrow> sat f wr"
    using sat_mono [of "events f'" "ef_mem f' wr" "events f"] assms(5) satisfied_strip [OF st] by simp
  moreover have "answered (ef_mem f' wr) timed \<longleftrightarrow> answered (ef_mem f wr) timed"
    unfolding answered_def satisfied_strip [OF st] by (simp add: strip_eqD [OF st])
  ultimately show ?thesis
    using assms(1,3,4) unfolding asleep_ok_def strip_eqD [OF st]
    by (cases "wr \<in> set ws") auto
qed

lemma ef_invI:
  assumes "waits (flags s) ws"
    and "\<And>t wr timed. calls s t = Asleep wr timed \<Longrightarrow> asleep_ok (flags s) ws t wr timed"
    and "\<And>t. (\<And>wr timed. calls s t \<noteq> Asleep wr timed) \<Longrightarrow> ef_sem (flags s) t = 0"
    and "\<And>wr. wr \<in> set ws \<Longrightarrow> \<exists>t timed. calls s t = Asleep wr timed"
    and "\<And>t t' a. call_addr (calls s t) = Some a \<Longrightarrow> call_addr (calls s t') = Some a \<Longrightarrow> t = t'"
  shows "ef_inv s ws"
  using assms by (simp add: ef_inv_def)

lemma ef_inv_set:
  assumes "ef_inv s ws" and "vcos_generic_event_flags_set m opn (flags s) = Some f"
  shows "\<exists>ws'. ef_inv (s\<lparr>flags := f\<rparr>) ws'"
proof -
  let ?f = "flags s" and ?e = "new_events m opn (flags s)"
  let ?ready = "\<lambda>a. waiter_satisfied ?e (ef_mem ?f a)"
  let ?ws = "filter (\<lambda>a. \<not> ?ready a) ws"
  have opn: "opn = VCOS_OR \<or> opn = VCOS_AND"
    using assms(2) by (auto simp: vcos_generic_event_flags_set_def split: if_splits bind_splits)
  have f: "waits f ?ws"
    "\<And>a. strip (ef_mem f a) = strip (if a \<in> set ws \<and> ?ready a then wake_result ?e (ef_mem ?f a) else ef_mem ?f a)"
    "\<And>t. ef_sem f t = ef_sem ?f t + length (filter (\<lambda>a. ?ready a \<and> ew_thread (ef_mem ?f a) = t) ws)"
    "\<And>i. bit (events f) i \<Longrightarrow> bit ?e i"
    using set_spec [OF ef_invD(1) [OF assms(1)] opn, of m] assms(2) by (auto simp: Let_def)
  have sem: "length (filter (\<lambda>a. ?ready a \<and> ew_thread (ef_mem ?f a) = t) ws)
      = (if \<exists>wr timed. calls s t = Asleep wr timed \<and> wr \<in> set ws \<and> ?ready wr then 1 else 0)" for t
  proof -
    have set: "set (filter (\<lambda>a. ?ready a \<and> ew_thread (ef_mem ?f a) = t) ws)
        = {wr. \<exists>timed. calls s t = Asleep wr timed \<and> wr \<in> set ws \<and> ?ready wr}"
      using ef_inv_owner [OF assms(1)] ef_invD(2) [OF assms(1)] by (fastforce simp: asleep_ok_def)
    have "distinct (filter (\<lambda>a. ?ready a \<and> ew_thread (ef_mem ?f a) = t) ws)"
      using ef_invD(1) [OF assms(1)] by (simp add: waits_def)
    then have "length (filter (\<lambda>a. ?ready a \<and> ew_thread (ef_mem ?f a) = t) ws)
        = card {wr. \<exists>timed. calls s t = Asleep wr timed \<and> wr \<in> set ws \<and> ?ready wr}"
      unfolding set [symmetric] by (rule distinct_card [symmetric])
    also have "\<dots> = (if \<exists>wr timed. calls s t = Asleep wr timed \<and> wr \<in> set ws \<and> ?ready wr then 1 else 0)"
    proof (cases "\<exists>wr timed. calls s t = Asleep wr timed \<and> wr \<in> set ws \<and> ?ready wr")
      case True
      then obtain wr timed where "calls s t = Asleep wr timed" "wr \<in> set ws" "?ready wr" by blast
      then have "{wr. \<exists>timed. calls s t = Asleep wr timed \<and> wr \<in> set ws \<and> ?ready wr} = {wr}" by auto
      then show ?thesis using True by simp
    qed auto
    finally show ?thesis .
  qed
  have "asleep_ok f ?ws t wr timed" if c: "calls s t = Asleep wr timed" for t wr timed
  proof (cases "wr \<in> set ws \<and> ?ready wr")
    case True
    then have st: "strip (ef_mem f wr) = strip (wake_result ?e (ef_mem ?f wr))" using f(2) by simp
    have "ef_sem f t = 1"
      using f(3) [of t] sem [of t] ef_invD(2) [OF assms(1) c] True c by (auto simp: asleep_ok_def)
    moreover have "waiter_satisfied ?e (ef_mem f wr)"
      using True unfolding satisfied_strip [OF st]
      by (simp add: wake_result_def waiter_satisfied_def cong: if_cong)
    ultimately show ?thesis
      using strip_eqD [OF st] True ef_invD(2) [OF assms(1) c]
      by (simp add: asleep_ok_def answered_def wake_result_def)
  next
    case False
    then have st: "strip (ef_mem f wr) = strip (ef_mem ?f wr)" and sem': "ef_sem f t = ef_sem ?f t"
      using f(2) [of wr] f(3) [of t] sem [of t] c by auto
    have "wr \<in> set ws \<Longrightarrow> \<not> sat f wr"
      using False sat_mono [OF _ f(4)] satisfied_strip [OF st] by blast
    moreover have "answered (ef_mem f wr) timed \<longleftrightarrow> answered (ef_mem ?f wr) timed"
      unfolding answered_def satisfied_strip [OF st] by (simp add: strip_eqD [OF st])
    ultimately show ?thesis
      using False ef_invD(2) [OF assms(1) c] sem'
      unfolding asleep_ok_def strip_eqD [OF st] by (cases "wr \<in> set ws") auto
  qed
  moreover have "ef_sem f t = 0" if "\<forall>wr timed. calls s t \<noteq> Asleep wr timed" for t
    using f(3) [of t] sem [of t] that ef_invD(3) [OF assms(1), of t] by auto
  ultimately have "ef_inv (s\<lparr>flags := f\<rparr>) ?ws"
    using f(1) ef_invD(4,5) [OF assms(1)] by (auto simp: ef_inv_def)
  then show ?thesis by blast
qed

text \<open>The answer of the first part of \<open>get\<close>.\<close>

lemma get_cases:
  assumes "vcos_generic_event_flags_get t wr m opn suspend f = Some (r, f')" and "waits f ws" and "wr \<notin> set ws"
  obtains (now) st ev where "r = Returned st ev" "same_requests UNIV f f'" "waits f' ws" "ef_sem f' = ef_sem f"
      "\<And>i. bit (events f') i \<Longrightarrow> bit (events f) i"
      "st = VCOS_SUCCESS \<and> ev = events f \<or> st = VCOS_EAGAIN \<and> suspend = 0 \<and> f' = f"
  | (sleeps) w where "r = Sleeps" "w = \<lparr>requested_events = m, actual_events = 0, ew_op = opn,
        return_status = VCOS_EAGAIN, ew_thread = t, ew_next = None\<rparr>"
      "\<not> waiter_satisfied (events f) w" "waits f' (ws @ [wr])" "events f' = events f" "ef_sem f' = ef_sem f"
      "strip (ef_mem f' wr) = strip w" "same_requests (- {wr}) f f'" "suspend \<noteq> 0"
proof -
  define ok where "ok = (if opn AND EVENT_FLAG_OP_MASK = VCOS_AND then Some (events f AND m = m)
        else if opn AND EVENT_FLAG_OP_MASK = VCOS_OR then Some (events f AND m \<noteq> 0) else None)"
  obtain b where b: "ok = Some b"
    using assms(1) by (cases ok) (auto simp: vcos_generic_event_flags_get_def ok_def)
  define w where "w = \<lparr>requested_events = m, actual_events = 0, ew_op = opn,
        return_status = VCOS_EAGAIN, ew_thread = t, ew_next = None\<rparr>"
  have get: "vcos_generic_event_flags_get t wr m opn suspend f =
      (if b then Some (Returned VCOS_SUCCESS (events f),
              if opn AND VCOS_CONSUME \<noteq> 0 then f\<lparr>events := events f AND NOT m\<rparr> else f)
       else if suspend \<noteq> 0 then map_option (Pair Sleeps) (append_waiter wr (f\<lparr>ef_mem := (ef_mem f)(wr := w)\<rparr>))
       else Some (Returned VCOS_EAGAIN 0, f))"
    using b by (simp add: vcos_generic_event_flags_get_def ok_def w_def Let_def map_conv_bind_option comp_def)
  consider (yes) "b" | (no) "\<not> b" "suspend = 0" | (wait) "\<not> b" "suspend \<noteq> 0" by blast
  then show thesis
  proof cases
    case yes
    then show thesis
      using assms get by (intro now) (auto simp: same_requests_def waits_def bit_simps split: if_splits)
  next
    case no
    then show thesis
      using assms get by (intro now) (auto simp: same_requests_def)
  next
    case wait
    let ?g = "f\<lparr>ef_mem := (ef_mem f)(wr := w)\<rparr>"
    have "waits ?g ws" using assms(2,3) by (simp add: waits_def fun_upd_comp heap_simps)
    from append_waiter_waits [OF this assms(3)] obtain f1 where f1: "append_waiter wr ?g = Some f1"
      "waits f1 (ws @ [wr])" "same_requests UNIV ?g f1" "events f1 = events f" "ef_sem f1 = ef_sem f"
      by (auto simp: w_def)
    have "\<not> waiter_satisfied (events f) w"
    proof (cases "opn AND EVENT_FLAG_OP_MASK = VCOS_AND")
      case True
      then have "bit (opn AND EVENT_FLAG_OP_MASK) 1" by (simp add: op_defs)
      then have "bit (opn AND VCOS_AND) 1" by (simp add: op_defs bit_and_iff)
      then have "opn AND VCOS_AND \<noteq> 0" by auto
      then show ?thesis using True b wait by (simp add: ok_def waiter_satisfied_def w_def)
    next
      case False
      then have or: "opn AND EVENT_FLAG_OP_MASK = VCOS_OR" using b by (auto simp: ok_def split: if_splits)
      have "VCOS_AND = EVENT_FLAG_OP_MASK AND VCOS_AND" by (simp add: op_defs)
      then have "opn AND VCOS_AND = (opn AND EVENT_FLAG_OP_MASK) AND VCOS_AND"
        by (metis and.assoc)
      then have "opn AND VCOS_AND = 0" unfolding or by (simp add: op_defs)
      then show ?thesis using False or b wait by (simp add: ok_def waiter_satisfied_def w_def)
    qed
    then show thesis
      using wait f1 get assms(1) by (intro sleeps [of w]) (auto simp: w_def same_requests_def)
  qed
qed

lemma ef_inv_get:
  assumes "ef_inv s ws" and "calls s t = Idle" and "\<forall>t'. call_addr (calls s t') \<noteq> Some wr"
    and "vcos_generic_event_flags_get t wr m opn suspend (flags s) = Some (r, f)"
  shows "\<exists>ws'. ef_inv (s\<lparr>flags := f, calls := (calls s)(t := (case r of Sleeps \<Rightarrow> Asleep wr (suspend \<noteq> - 1)
      | Returned _ _ \<Rightarrow> Idle))\<rparr>) ws'"
proof -
  have wr: "wr \<notin> set ws"
  proof
    assume "wr \<in> set ws"
    then obtain t' timed where "calls s t' = Asleep wr timed" using ef_invD(4) [OF assms(1)] by blast
    then show False using spec [OF assms(3), of t'] by simp
  qed
  from assms(4) ef_invD(1) [OF assms(1)] wr show ?thesis
  proof (cases rule: get_cases)
    case (now st ev)
    have "asleep_ok f ws t' a timed" if "calls s t' = Asleep a timed" for t' a timed
      by (rule asleep_ok_mono [OF ef_invD(2) [OF assms(1) that]])
        (use now in \<open>auto simp: same_requests_def\<close>)
    moreover have "(calls s)(t := Idle) = calls s" using assms(2) by auto
    ultimately have "ef_inv (s\<lparr>flags := f\<rparr>) ws"
      using now(3,4) ef_invD(3,4,5) [OF assms(1)] by (auto simp: ef_inv_def)
    then show ?thesis using now(1) \<open>(calls s)(t := Idle) = calls s\<close> by auto
  next
    case (sleeps w)
    have new: "asleep_ok f (ws @ [wr]) t wr timed" for timed
      using sleeps ef_invD(3) [OF assms(1), of t] assms(2) strip_eqD [OF sleeps(7)]
        satisfied_strip [OF sleeps(7)] by (simp add: asleep_ok_def)
    have old: "asleep_ok f (ws @ [wr]) t' a timed" if "calls s t' = Asleep a timed" for t' a timed
    proof (rule asleep_ok_mono [OF ef_invD(2) [OF assms(1) that]])
      have "a \<noteq> wr" using assms(3) that by (metis call_addr.simps(2))
      then show "same_requests {a} (flags s) f" "a \<in> set ws \<longleftrightarrow> a \<in> set (ws @ [wr])"
        using sleeps(8) by (auto simp: same_requests_def)
    qed (use sleeps in auto)
    have list: "\<exists>t' timed. ((calls s)(t := Asleep wr (suspend \<noteq> - 1))) t' = Asleep a timed"
      if a: "a \<in> set (ws @ [wr])" for a
    proof (cases "a = wr")
      case True
      then show ?thesis by (intro exI [of _ t]) simp
    next
      case False
      then obtain t' timed where t': "calls s t' = Asleep a timed" using a ef_invD(4) [OF assms(1), of a] by auto
      moreover have "t' \<noteq> t" using t' assms(2) by auto
      ultimately show ?thesis by (intro exI [of _ t']) simp
    qed
    have "ef_inv (s\<lparr>flags := f, calls := (calls s)(t := Asleep wr (suspend \<noteq> - 1))\<rparr>) (ws @ [wr])"
    proof (rule ef_invI)
      fix t' assume idle: "\<And>a b. calls (s\<lparr>flags := f, calls := (calls s)(t := Asleep wr (suspend \<noteq> - 1))\<rparr>) t' \<noteq> Asleep a b"
      have "t' \<noteq> t" using idle [of wr "suspend \<noteq> - 1"] by auto
      moreover have "\<And>a b. calls s t' \<noteq> Asleep a b" using idle calculation by simp
      ultimately show "ef_sem (flags (s\<lparr>flags := f, calls := (calls s)(t := Asleep wr (suspend \<noteq> - 1))\<rparr>)) t' = 0"
        using sleeps(6) ef_invD(3) [OF assms(1), of t'] by simp
    next
      fix t' t'' a
      assume "call_addr (calls (s\<lparr>flags := f, calls := (calls s)(t := Asleep wr (suspend \<noteq> - 1))\<rparr>) t') = Some a"
        "call_addr (calls (s\<lparr>flags := f, calls := (calls s)(t := Asleep wr (suspend \<noteq> - 1))\<rparr>) t'') = Some a"
      then show "t' = t''" using assms(3) ef_invD(5) [OF assms(1)] by (auto split: if_splits)
    qed (use sleeps(4) new old list in \<open>auto split: if_splits\<close>)
    then show ?thesis using sleeps(1) by auto
  qed
qed

lemma ef_inv_expire:
  assumes "ef_inv s ws" and "calls s t = Asleep wr True \<or> calls s t = Cancelling wr"
    and "event_flags_timer_expired wr (flags s) = Some f"
  shows "ef_inv (s\<lparr>flags := f\<rparr>) (filter (\<lambda>a. a \<noteq> wr) ws)"
proof -
  let ?f = "flags s"
  have f: "waits f (filter (\<lambda>a. a \<noteq> wr) ws)" "events f = events ?f" "same_requests UNIV ?f f"
    "ef_sem f = (if wr \<in> set ws then (ef_sem ?f)(ew_thread (ef_mem ?f wr) := ef_sem ?f (ew_thread (ef_mem ?f wr)) + 1)
                   else ef_sem ?f)"
    using timer_expired_spec [OF ef_invD(1) [OF assms(1)], of wr] assms(3) by auto
  have t: "calls s t = Asleep wr True" "ew_thread (ef_mem ?f wr) = t" if wr: "wr \<in> set ws"
  proof -
    obtain t' timed where t': "calls s t' = Asleep wr timed" using ef_invD(4) [OF assms(1) wr] by blast
    moreover have "call_addr (calls s t) = Some wr" using assms(2) by auto
    ultimately have "t' = t" using ef_invD(5) [OF assms(1), of t' wr t] by simp
    then show "calls s t = Asleep wr True" using t' assms(2) by auto
    then show "ew_thread (ef_mem ?f wr) = t" using ef_invD(2) [OF assms(1)] by (simp add: asleep_ok_def)
  qed
  have other: "ef_sem f t' = ef_sem ?f t'" if "t' \<noteq> t" for t' using f(4) t(2) that by auto
  have "asleep_ok f (filter (\<lambda>a. a \<noteq> wr) ws) t' a timed" if c: "calls s t' = Asleep a timed" for t' a timed
  proof (cases "a = wr \<and> wr \<in> set ws")
    case True
    have "t' = t" using ef_invD(5) [OF assms(1), of t' wr t] c t(1) True by simp
    then show ?thesis
      using True c t f(3,4) ef_invD(2) [OF assms(1) c] strip_eqD [of "ef_mem f wr" "ef_mem ?f wr"]
      by (auto simp: asleep_ok_def answered_def same_requests_def)
  next
    case False
    show ?thesis
    proof (rule asleep_ok_mono [OF ef_invD(2) [OF assms(1) c]])
      show "same_requests {a} ?f f" using f(3) by (simp add: same_requests_def)
      show "a \<in> set ws \<longleftrightarrow> a \<in> set (filter (\<lambda>a. a \<noteq> wr) ws)" using False by auto
      have "wr \<in> set ws \<Longrightarrow> t' \<noteq> t" using t(1) c False by auto
      then show "ef_sem f t' = ef_sem ?f t'" using f(4) t(2) by auto
    qed (simp add: f(2))
  qed
  moreover have "ef_sem f t' = 0" if "\<forall>a timed. calls s t' \<noteq> Asleep a timed" for t'
    using that ef_invD(3) [OF assms(1), of t'] f(4) t by auto
  ultimately show ?thesis using f(1) ef_invD(4,5) [OF assms(1)] by (auto simp: ef_inv_def)
qed

lemma ef_inv_wake:
  assumes "ef_inv s ws" and "calls s t = Asleep wr timed" and "get_wakes t wr (flags s) = Some (st, ev, f)"
    and "call_addr c = None \<or> call_addr c = Some wr" and "\<forall>a b. c \<noteq> Asleep a b"
  shows "ef_inv (s\<lparr>flags := f, calls := (calls s)(t := c)\<rparr>) ws"
proof -
  have f: "f = (flags s)\<lparr>ef_sem := (ef_sem (flags s))(t := ef_sem (flags s) t - 1)\<rparr>"
    "ef_sem (flags s) t \<noteq> 0"
    using assms(3) by (auto simp: get_wakes_def split: if_splits)
  have out: "wr \<notin> set ws" "ef_sem (flags s) t = 1"
    using ef_invD(2) [OF assms(1,2)] f(2) by (auto simp: asleep_ok_def split: if_splits)
  have keep: "asleep_ok f ws t' a b" if "calls s t' = Asleep a b" "t' \<noteq> t" for t' a b
    by (rule asleep_ok_mono [OF ef_invD(2) [OF assms(1) that(1)]]) (use that f(1) in \<open>auto simp: same_requests_def\<close>)
  have list: "\<exists>t' b. ((calls s)(t := c)) t' = Asleep a b" if a: "a \<in> set ws" for a
  proof -
    obtain t' b where "calls s t' = Asleep a b" using ef_invD(4) [OF assms(1) a] by blast
    moreover have "t' \<noteq> t" using calculation out(1) a assms(2) by auto
    ultimately show ?thesis by (intro exI [of _ t']) simp
  qed
  show ?thesis
  proof (rule ef_invI)
    show "waits (flags (s\<lparr>flags := f, calls := (calls s)(t := c)\<rparr>)) ws"
      using ef_invD(1) [OF assms(1)] by (simp add: waits_def f(1))
  next
    fix t' assume "\<And>a b. calls (s\<lparr>flags := f, calls := (calls s)(t := c)\<rparr>) t' \<noteq> Asleep a b"
    then have "t' \<noteq> t \<Longrightarrow> ef_sem (flags s) t' = 0"
      using ef_invD(3) [OF assms(1), of t'] by (auto split: if_splits)
    then show "ef_sem (flags (s\<lparr>flags := f, calls := (calls s)(t := c)\<rparr>)) t' = 0"
      using out(2) f(1) by auto
  next
    fix t' t'' a
    assume a: "call_addr (calls (s\<lparr>flags := f, calls := (calls s)(t := c)\<rparr>) t') = Some a"
      "call_addr (calls (s\<lparr>flags := f, calls := (calls s)(t := c)\<rparr>) t'') = Some a"
    have "call_addr (calls s t') = Some a" "call_addr (calls s t'') = Some a"
      using a assms(2,4) by (auto split: if_splits)
    then show "t' = t''" by (rule ef_invD(5) [OF assms(1)])
  qed (use keep list assms(5) in \<open>auto split: if_splits\<close>)
qed

lemma ef_inv_start: "ef_inv (ef_start f) []"
  by (rule ef_invI) (simp_all add: ef_start_def vcos_generic_event_flags_create_def waits_def)

lemma ef_inv_cancel:
  assumes "ef_inv s ws" and "calls s t = Cancelling wr"
  shows "ef_inv (s\<lparr>calls := (calls s)(t := Idle)\<rparr>) ws"
proof (rule ef_invI)
  fix a
  assume "a \<in> set ws"
  then obtain t' b where "calls s t' = Asleep a b" using ef_invD(4) [OF assms(1)] by blast
  moreover from this have "t' \<noteq> t" using assms(2) by auto
  ultimately show "\<exists>t' b. calls (s\<lparr>calls := (calls s)(t := Idle)\<rparr>) t' = Asleep a b"
    by (intro exI [of _ t']) simp
next
  fix t'
  assume idle: "\<And>a b. calls (s\<lparr>calls := (calls s)(t := Idle)\<rparr>) t' \<noteq> Asleep a b"
  have "calls s t' \<noteq> Asleep a b" for a b using idle [of a b] assms(2) by (cases "t' = t") auto
  then show "ef_sem (flags (s\<lparr>calls := (calls s)(t := Idle)\<rparr>)) t' = 0"
    using ef_invD(3) [OF assms(1)] by simp
qed (use ef_invD(1,2,5) [OF assms(1)] in \<open>auto split: if_splits\<close>)

lemma ef_reachable_inv: "ef_reachable s \<Longrightarrow> \<exists>ws. ef_inv s ws"
proof (induction rule: ef_reachable.induct)
  case (start f)
  then show ?case using ef_inv_start by blast
next
  case (step s s')
  then obtain ws where ws: "ef_inv s ws" by blast
  from step(2) show ?case
  proof cases
    case (set m opn f)
    then show ?thesis using ef_inv_set [OF ws] by blast
  next
    case (get t wr m opn suspend r f)
    then show ?thesis using ef_inv_get [OF ws] by blast
  next
    case (expire t wr f)
    then show ?thesis using ef_inv_expire [OF ws] by blast
  next
    case (wake t wr timed st ev f)
    have "ef_inv s' ws"
      unfolding wake(1) by (rule ef_inv_wake [OF ws wake(2,3)]) auto
    then show ?thesis by blast
  next
    case (cancel t wr)
    then show ?thesis using ef_inv_cancel [OF ws] by blast
  qed
qed

text \<open>C28. No wake-up is lost. In every state the threads and timers can reach, a thread in a waiting
  \<open>get\<close> either still sleeps, and then the events do not satisfy its request; or it can go on, with
  success and events that satisfy the request; or, if it set a timer, it can go on with a timeout.\<close>

theorem event_flags_no_lost_wakeup:
  assumes "ef_reachable s" and "calls s t = Asleep wr timed"
  shows "get_wakes t wr (flags s) = None \<and> \<not> waiter_satisfied (events (flags s)) (ef_mem (flags s) wr)
    \<or> (\<exists>ev f. get_wakes t wr (flags s) = Some (VCOS_SUCCESS, ev, f)
          \<and> waiter_satisfied ev (ef_mem (flags s) wr))
    \<or> timed \<and> (\<exists>f. get_wakes t wr (flags s) = Some (VCOS_EAGAIN, 0, f))"
proof -
  obtain ws where "ef_inv s ws" using ef_reachable_inv [OF assms(1)] by blast
  from ef_invD(2) [OF this assms(2)] show ?thesis
    by (cases "wr \<in> set ws") (auto simp: asleep_ok_def answered_def get_wakes_def)
qed

text \<open>A wait ends. In every reachable state in which a thread waits, the call of \<open>set\<close> whose new
  events satisfy its request succeeds and leaves the thread able to go on, and so does the expiry
  of its timer.\<close>

theorem event_flags_wait_ends:
  assumes "ef_reachable s" and "calls s t = Asleep wr timed"
    and "opn = VCOS_OR \<or> opn = VCOS_AND"
    and "waiter_satisfied (new_events m opn (flags s)) (ef_mem (flags s) wr)"
  shows "(\<exists>f. vcos_generic_event_flags_set m opn (flags s) = Some f \<and> get_wakes t wr f \<noteq> None)
    \<and> (\<exists>f. event_flags_timer_expired wr (flags s) = Some f \<and> get_wakes t wr f \<noteq> None)"
proof -
  obtain ws where inv: "ef_inv s ws" using ef_reachable_inv [OF assms(1)] by blast
  note ok = ef_invD(2) [OF inv assms(2)] and w = ef_invD(1) [OF inv]
  obtain f where f: "vcos_generic_event_flags_set m opn (flags s) = Some f"
    "ef_sem f t = ef_sem (flags s) t + length (filter (\<lambda>a. waiter_satisfied (new_events m opn (flags s))
        (ef_mem (flags s) a) \<and> ew_thread (ef_mem (flags s) a) = t) ws)"
    using set_spec [OF w assms(3), of m] by (auto simp: Let_def)
  have "wr \<in> set ws \<Longrightarrow> wr \<in> set (filter (\<lambda>a. waiter_satisfied (new_events m opn (flags s))
        (ef_mem (flags s) a) \<and> ew_thread (ef_mem (flags s) a) = t) ws)"
    using assms(4) ok by (simp add: asleep_ok_def)
  then have "wr \<in> set ws \<Longrightarrow> 0 < length (filter (\<lambda>a. waiter_satisfied (new_events m opn (flags s))
        (ef_mem (flags s) a) \<and> ew_thread (ef_mem (flags s) a) = t) ws)"
    by (rule length_pos_if_in_set)
  then have "0 < ef_sem f t"
    using f(2) ok by (cases "wr \<in> set ws") (simp_all add: asleep_ok_def)
  moreover obtain g where "event_flags_timer_expired wr (flags s) = Some g" "0 < ef_sem g t"
    using timer_expired_spec [OF w, of wr] ok by (cases "wr \<in> set ws") (auto simp: asleep_ok_def)
  ultimately show ?thesis using f(1) by (simp add: get_wakes_def)
qed

text \<open>Thread 7 waits, with a timeout of 100 ms, for event 0 of fresh flags.\<close>

lemma ef_demo:
  "\<exists>s. ef_reachable s \<and> calls s 7 = Asleep 64 True \<and> requested_events (ef_mem (flags s) 64) = 1
     \<and> ew_op (ef_mem (flags s) 64) = VCOS_OR \<and> events (flags s) = 0"
proof -
  define w where "w = \<lparr>requested_events = 1, actual_events = 0, ew_op = VCOS_OR,
        return_status = VCOS_EAGAIN, ew_thread = 7, ew_next = None\<rparr>"
  define f where "f = \<lparr>events = 0, waiters_head = None, waiters_tail = None, ef_mem = \<lambda>_. w, ef_sem = \<lambda>_. 0\<rparr>"
  define s where "s = ef_start f"
  have s: "ef_reachable s" "calls s 7 = Idle" "\<forall>t. call_addr (calls s t) \<noteq> Some 64"
    unfolding s_def by (simp_all add: ef_reachable.start) (simp_all add: ef_start_def)
  obtain g where g: "vcos_generic_event_flags_get 7 64 1 VCOS_OR 100 (flags s) = Some (Sleeps, g)"
    "ef_mem g 64 = w" "events g = 0"
    by (simp add: s_def ef_start_def vcos_generic_event_flags_create_def f_def
        vcos_generic_event_flags_get_def append_waiter_def op_defs w_def)
  from ef_reachable.step [OF s(1) ef_step.get [OF s(2,3) g(1)]] g(2,3) show ?thesis
    by (intro exI conjI) (auto simp: w_def)
qed

theorem event_flags_no_lost_wakeup_witness:
  "\<exists>s. ef_reachable s \<and> calls s 7 = Asleep 64 True
     \<and> (get_wakes 7 64 (flags s) = None \<or> (\<exists>st ev f. get_wakes 7 64 (flags s) = Some (st, ev, f)))"
proof -
  obtain s where s: "ef_reachable s" "calls s 7 = Asleep 64 True" using ef_demo by blast
  from event_flags_no_lost_wakeup [OF s] s show ?thesis by blast
qed

theorem event_flags_wait_ends_witness:
  "\<exists>s f g. ef_reachable s \<and> calls s 7 = Asleep 64 True
     \<and> vcos_generic_event_flags_set 5 VCOS_OR (flags s) = Some f \<and> get_wakes 7 64 f \<noteq> None
     \<and> event_flags_timer_expired 64 (flags s) = Some g \<and> get_wakes 7 64 g \<noteq> None"
proof -
  obtain s where s: "ef_reachable s" "calls s 7 = Asleep 64 True"
    "requested_events (ef_mem (flags s) 64) = 1" "ew_op (ef_mem (flags s) 64) = VCOS_OR" "events (flags s) = 0"
    using ef_demo by blast
  have "waiter_satisfied (new_events 5 VCOS_OR (flags s)) (ef_mem (flags s) 64)"
    using s(3,4,5) by (simp add: waiter_satisfied_def new_events_def op_defs)
  from event_flags_wait_ends [OF s(1,2) _ this] s(1,2) show ?thesis by blast
qed

end
