(* ===== verification/MsgQueue.thy ===== *)
theory MsgQueue
  imports Blockpool
begin

text \<open>
  vcos/generic/vcos_msgqueue.c and vcos/vcos_msgqueue.h: messages that threads send to queues, replies, and
  pools of messages. A message is queued by address, linked through its \<open>next\<close> field; a queue has
  a tail pointer and a semaphore. A reply goes to the message's waiter: a semaphore on the stack of
  a thread in \<open>sendwait\<close>, a queue, or the pool the message came from.

  Queues, pools and semaphores are numbered. A waiter is an object with a callback that its
  creation sets once and for all; the datatype's constructor says which callback, its argument
  which object. The code between lock and unlock is one step. \<open>None\<close> is a failed assertion or a NULL
  dereference; the operations that wait return \<open>Blocked\<close> when the semaphore is zero.
\<close>

subsection \<open>Data\<close>

datatype msg_waiter = SimpleWaiter nat | QueueWaiter nat | PoolWaiter nat

record vcos_msg =
  msg_magic :: bool
  msg_code :: u32
  msg_next :: ptr
  src_thread :: nat
  waiter :: "msg_waiter option"
  msg_pool :: "nat option"

record msgqueue =
  mq_head :: ptr
  mq_tail :: ptr
  mq_sem :: nat

record msgq_pool =
  mp_blockpool :: blockpool
  mp_sem :: nat
  mp_magic :: bool

record msg_world =
  msgs :: "addr \<Rightarrow> vcos_msg"
  queues :: "nat \<Rightarrow> msgqueue"
  pools :: "nat \<Rightarrow> msgq_pool"
  waitsems :: "nat \<Rightarrow> nat"

definition MSG_REPLY_BIT :: u32 where "MSG_REPLY_BIT = push_bit 31 1"

text \<open>\<open>sizeof(VCOS_MSG_T)\<close> with 32-bit pointers.\<close>

definition MSG_SIZE :: nat where "MSG_SIZE = 24"

definition zero_msg :: vcos_msg where
  "zero_msg = \<lparr>msg_magic = False, msg_code = 0, msg_next = None, src_thread = 0, waiter = None,
     msg_pool = None\<rparr>"

definition upd_msg :: "addr \<Rightarrow> (vcos_msg \<Rightarrow> vcos_msg) \<Rightarrow> msg_world \<Rightarrow> msg_world" where
  "upd_msg a f w = w\<lparr>msgs := (msgs w)(a := f (msgs w a))\<rparr>"

definition upd_queue :: "nat \<Rightarrow> msgqueue \<Rightarrow> msg_world \<Rightarrow> msg_world" where
  "upd_queue i q w = w\<lparr>queues := (queues w)(i := q)\<rparr>"

definition upd_msgpool :: "nat \<Rightarrow> msgq_pool \<Rightarrow> msg_world \<Rightarrow> msg_world" where
  "upd_msgpool i p w = w\<lparr>pools := (pools w)(i := p)\<rparr>"

definition upd_sem :: "nat \<Rightarrow> nat \<Rightarrow> msg_world \<Rightarrow> msg_world" where
  "upd_sem i n w = w\<lparr>waitsems := (waitsems w)(i := n)\<rparr>"

lemmas upd_defs = upd_msg_def upd_queue_def upd_msgpool_def upd_sem_def

subsection \<open>Waiters on the stack\<close>

definition vcos_msgq_simple_waiter_init :: "bool \<Rightarrow> nat \<Rightarrow> msg_world \<Rightarrow> vcos_status \<times> msg_world" where
  "vcos_msgq_simple_waiter_init sem_ok s w =
     (if sem_ok then (VCOS_SUCCESS, upd_sem s 0 w) else (VCOS_ENOSPC, w))"

definition vcos_msgq_simple_waiter_on_reply :: "nat \<Rightarrow> msg_world \<Rightarrow> msg_world" where
  "vcos_msgq_simple_waiter_on_reply s w = upd_sem s (waitsems w s + 1) w"

subsection \<open>Queues\<close>

text \<open>\<open>sem_ok\<close> and \<open>mutex_ok\<close> say whether the semaphore and the mutex can be created.\<close>

definition vcos_msgq_create_internal ::
    "bool \<Rightarrow> bool \<Rightarrow> nat \<Rightarrow> msg_world \<Rightarrow> vcos_status \<times> msg_world" where
  "vcos_msgq_create_internal sem_ok mutex_ok i w =
     (let w = upd_queue i \<lparr>mq_head = None, mq_tail = None, mq_sem = 0\<rparr> w in
      if \<not> sem_ok then (VCOS_ENOSPC, w)
      else if \<not> mutex_ok then (VCOS_ENOMEM, w)
      else (VCOS_SUCCESS, w))"

definition vcos_msgq_create :: "bool \<Rightarrow> bool \<Rightarrow> nat \<Rightarrow> msg_world \<Rightarrow> vcos_status \<times> msg_world" where
  "vcos_msgq_create sem_ok mutex_ok i w = vcos_msgq_create_internal sem_ok mutex_ok i w"

definition msgq_append :: "nat \<Rightarrow> addr \<Rightarrow> msg_world \<Rightarrow> msg_world option" where
  "msgq_append i msg w =
     (let q = queues w i in
      if mq_head q = None then Some (upd_queue i (q\<lparr>mq_head := Some msg, mq_tail := Some msg\<rparr>) w)
      else do {
        t \<leftarrow> mq_tail q;
        let w = upd_msg t (\<lambda>m. m\<lparr>msg_next := Some msg\<rparr>) w;
        Some (upd_queue i (q\<lparr>mq_tail := Some msg\<rparr>) w)
      })"

definition queue_post :: "nat \<Rightarrow> msg_world \<Rightarrow> msg_world" where
  "queue_post i w = upd_queue i ((queues w i)\<lparr>mq_sem := mq_sem (queues w i) + 1\<rparr>) w"

definition vcos_msgq_queue_waiter_on_reply :: "nat \<Rightarrow> addr \<Rightarrow> msg_world \<Rightarrow> msg_world option" where
  "vcos_msgq_queue_waiter_on_reply i msg w = map_option (queue_post i) (msgq_append i msg w)"

text \<open>\<open>vcos_msg_send_helper\<close> up to the unlock, and all of it; \<open>t\<close> is the calling thread.\<close>

definition send_append ::
    "nat \<Rightarrow> msg_waiter option \<Rightarrow> nat \<Rightarrow> u32 \<Rightarrow> addr \<Rightarrow> msg_world \<Rightarrow> msg_world option" where
  "send_append t wt dest code msg w =
     (let w = upd_msg msg (\<lambda>m. m\<lparr>msg_code := code\<rparr>) w;
          w = (case wt of None \<Rightarrow> w | Some _ \<Rightarrow> upd_msg msg (\<lambda>m. m\<lparr>waiter := wt\<rparr>) w);
          w = upd_msg msg (\<lambda>m. m\<lparr>msg_next := None\<rparr>) w;
          w = upd_msg msg (\<lambda>m. m\<lparr>src_thread := t\<rparr>) w
      in msgq_append dest msg w)"

definition vcos_msg_send_helper ::
    "nat \<Rightarrow> msg_waiter option \<Rightarrow> nat \<Rightarrow> u32 \<Rightarrow> addr \<Rightarrow> msg_world \<Rightarrow> msg_world option" where
  "vcos_msg_send_helper t wt dest code msg w = map_option (queue_post dest) (send_append t wt dest code msg w)"

text \<open>What \<open>wait\<close> and \<open>peek\<close> do inside the lock: take the head.\<close>

definition take_head :: "nat \<Rightarrow> msg_world \<Rightarrow> (addr \<times> msg_world) option" where
  "take_head i w = do {
     msg \<leftarrow> mq_head (queues w i);
     let q = (queues w i)\<lparr>mq_head := msg_next (msgs w msg)\<rparr>;
     let q = (if mq_head q = None then q\<lparr>mq_tail := None\<rparr> else q);
     Some (msg, upd_queue i q w)
   }"

definition queue_claim :: "nat \<Rightarrow> msg_world \<Rightarrow> msg_world" where
  "queue_claim i w = upd_queue i ((queues w i)\<lparr>mq_sem := mq_sem (queues w i) - 1\<rparr>) w"

definition vcos_msg_wait :: "nat \<Rightarrow> msg_world \<Rightarrow> (addr \<times> msg_world) waited option" where
  "vcos_msg_wait i w =
     (if mq_sem (queues w i) = 0 then Some Blocked
      else map_option Woke (take_head i (queue_claim i w)))"

text \<open>\<open>peek\<close> waits on the semaphore while it holds the lock.\<close>

definition vcos_msg_peek :: "nat \<Rightarrow> msg_world \<Rightarrow> (ptr \<times> msg_world) waited option" where
  "vcos_msg_peek i w =
     (if mq_head (queues w i) = None then Some (Woke (None, w))
      else do {
        (msg, w) \<leftarrow> take_head i w;
        if mq_sem (queues w i) = 0 then Some Blocked else Some (Woke (Some msg, queue_claim i w))
      })"

definition vcos_msg_send :: "nat \<Rightarrow> nat \<Rightarrow> u32 \<Rightarrow> addr \<Rightarrow> msg_world \<Rightarrow> msg_world option" where
  "vcos_msg_send t dest code msg w =
     (if \<not> msg_magic (msgs w msg) then None else vcos_msg_send_helper t None dest code msg w)"

text \<open>\<open>sendwait\<close> up to its wait, and from there on. \<open>s\<close> is the semaphore of the waiter on the stack.\<close>

definition vcos_msg_sendwait ::
    "bool \<Rightarrow> nat \<Rightarrow> nat \<Rightarrow> nat \<Rightarrow> u32 \<Rightarrow> addr \<Rightarrow> msg_world \<Rightarrow> (vcos_status \<times> msg_world) option" where
  "vcos_msg_sendwait sem_ok t s dest code msg w =
     (if \<not> msg_magic (msgs w msg) then None
      else if waiter (msgs w msg) \<noteq> None then None
      else
        let (st, w) = vcos_msgq_simple_waiter_init sem_ok s w in
        if st \<noteq> VCOS_SUCCESS then Some (st, w)
        else map_option (Pair VCOS_SUCCESS) (vcos_msg_send_helper t (Some (SimpleWaiter s)) dest code msg w))"

definition sendwait_end :: "nat \<Rightarrow> msg_world \<Rightarrow> (vcos_status \<times> msg_world) waited" where
  "sendwait_end s w =
     (if waitsems w s = 0 then Blocked else Woke (VCOS_SUCCESS, upd_sem s (waitsems w s - 1) w))"

subsection \<open>Pools\<close>

text \<open>\<open>m\<close> gives the pool's memory; \<open>sem_ok\<close> says whether the semaphore can be created.\<close>

definition vcos_msgq_pool_create ::
    "(nat \<Rightarrow> ptr) \<Rightarrow> bool \<Rightarrow> bool \<Rightarrow> nat \<Rightarrow> nat \<Rightarrow> nat \<Rightarrow> msg_world \<Rightarrow> (vcos_status \<times> msg_world) option" where
  "vcos_msgq_pool_create m mutex_ok sem_ok i count payload_size w =
     (let bp_size = payload_size + MSG_SIZE;
          p = pools w i
      in do {
        (status, bp) \<leftarrow> vcos_generic_blockpool_create_on_heap m count bp_size ALIGN_DEFAULT mutex_ok
                          (mp_blockpool p);
        let p = p\<lparr>mp_blockpool := bp\<rparr>;
        if status \<noteq> VCOS_SUCCESS then Some (status, upd_msgpool i p w)
        else if \<not> sem_ok then do {
          bp \<leftarrow> vcos_generic_blockpool_delete bp;
          Some (VCOS_ENOSPC, upd_msgpool i (p\<lparr>mp_blockpool := bp\<rparr>) w)
        }
        else Some (VCOS_SUCCESS, upd_msgpool i (p\<lparr>mp_sem := count, mp_magic := True\<rparr>) w)
      })"

definition vcos_msgq_pool_delete :: "nat \<Rightarrow> msg_world \<Rightarrow> msg_world option" where
  "vcos_msgq_pool_delete i w = do {
     bp \<leftarrow> vcos_generic_blockpool_delete (mp_blockpool (pools w i));
     Some (upd_msgpool i ((pools w i)\<lparr>mp_blockpool := bp\<rparr>) w)
   }"

definition pool_claim :: "nat \<Rightarrow> msg_world \<Rightarrow> msg_world" where
  "pool_claim i w = upd_msgpool i ((pools w i)\<lparr>mp_sem := mp_sem (pools w i) - 1\<rparr>) w"

text \<open>What \<open>alloc\<close> and \<open>wait\<close> do once they have claimed the semaphore. The \<open>memset\<close> of
  \<open>vcos_generic_blockpool_calloc\<close> clears the message.\<close>

definition pool_take :: "(nat \<Rightarrow> ptr) \<Rightarrow> nat \<Rightarrow> msg_world \<Rightarrow> (addr \<times> msg_world) option" where
  "pool_take m i w = do {
     (ret, bp, ms) \<leftarrow> vcos_generic_blockpool_calloc m (\<lambda>a _ ms. ms(a := zero_msg))
                        (mp_blockpool (pools w i)) (msgs w);
     msg \<leftarrow> ret;
     let w = (upd_msgpool i ((pools w i)\<lparr>mp_blockpool := bp\<rparr>) w)\<lparr>msgs := ms\<rparr>;
     let w = upd_msg msg (\<lambda>m. m\<lparr>msg_magic := True\<rparr>) w;
     let w = upd_msg msg (\<lambda>m. m\<lparr>waiter := Some (PoolWaiter i)\<rparr>) w;
     let w = upd_msg msg (\<lambda>m. m\<lparr>msg_pool := Some i\<rparr>) w;
     Some (msg, w)
   }"

definition vcos_msgq_pool_alloc :: "(nat \<Rightarrow> ptr) \<Rightarrow> nat \<Rightarrow> msg_world \<Rightarrow> (ptr \<times> msg_world) option" where
  "vcos_msgq_pool_alloc m i w =
     (if mp_sem (pools w i) = 0 then Some (None, w)
      else map_option (\<lambda>(msg, w). (Some msg, w)) (pool_take m i (pool_claim i w)))"

definition vcos_msgq_pool_wait :: "(nat \<Rightarrow> ptr) \<Rightarrow> nat \<Rightarrow> msg_world \<Rightarrow> (addr \<times> msg_world) waited option" where
  "vcos_msgq_pool_wait m i w =
     (if mp_sem (pools w i) = 0 then Some Blocked
      else map_option Woke (pool_take m i (pool_claim i w)))"

definition vcos_msgq_pool_free :: "ptr \<Rightarrow> msg_world \<Rightarrow> msg_world option" where
  "vcos_msgq_pool_free msg w =
     (case msg of
        None \<Rightarrow> Some w
      | Some a \<Rightarrow> do {
          i \<leftarrow> msg_pool (msgs w a);
          if \<not> mp_magic (pools w i) then None
          else do {
            bp \<leftarrow> vcos_generic_blockpool_free (Some a) (mp_blockpool (pools w i));
            let p = (pools w i)\<lparr>mp_blockpool := bp\<rparr>;
            Some (upd_msgpool i (p\<lparr>mp_sem := mp_sem p + 1\<rparr>) w)
          }
        })"

definition vcos_msgq_pool_on_reply :: "addr \<Rightarrow> msg_world \<Rightarrow> msg_world option" where
  "vcos_msgq_pool_on_reply msg w =
     (if \<not> msg_magic (msgs w msg) then None else vcos_msgq_pool_free (Some msg) w)"

subsection \<open>Replies\<close>

definition vcos_msg_reply :: "addr \<Rightarrow> msg_world \<Rightarrow> msg_world option" where
  "vcos_msg_reply msg w =
     (if \<not> msg_magic (msgs w msg) then None
      else
        let w = upd_msg msg (\<lambda>m. m\<lparr>msg_code := msg_code m OR MSG_REPLY_BIT\<rparr>) w in
        case waiter (msgs w msg) of
          Some (SimpleWaiter s) \<Rightarrow> Some (vcos_msgq_simple_waiter_on_reply s w)
        | Some (QueueWaiter i) \<Rightarrow> vcos_msgq_queue_waiter_on_reply i msg w
        | Some (PoolWaiter i) \<Rightarrow> vcos_msgq_pool_on_reply msg w
        | None \<Rightarrow> None)"

definition vcos_msg_set_source :: "addr \<Rightarrow> nat \<Rightarrow> msg_world \<Rightarrow> msg_world option" where
  "vcos_msg_set_source msg i w =
     (if \<not> msg_magic (msgs w msg) then None
      else Some (upd_msg msg (\<lambda>m. m\<lparr>waiter := Some (QueueWaiter i)\<rparr>) w))"

definition vcos_msg_init :: "addr \<Rightarrow> msg_world \<Rightarrow> msg_world" where
  "vcos_msg_init msg w =
     (let w = upd_msg msg (\<lambda>m. m\<lparr>msg_magic := True\<rparr>) w;
          w = upd_msg msg (\<lambda>m. m\<lparr>msg_next := None\<rparr>) w;
          w = upd_msg msg (\<lambda>m. m\<lparr>waiter := None\<rparr>) w
      in upd_msg msg (\<lambda>m. m\<lparr>msg_pool := None\<rparr>) w)"

subsection \<open>Queues as sequences\<close>

abbreviation links :: "msg_world \<Rightarrow> addr \<Rightarrow> ptr" where
  "links w \<equiv> msg_next \<circ> msgs w"

definition mq_holds :: "msg_world \<Rightarrow> nat \<Rightarrow> addr list \<Rightarrow> bool" where
  "mq_holds w i xs \<longleftrightarrow> chain (links w) (mq_head (queues w i)) xs None \<and> distinct xs
     \<and> mq_tail (queues w i) = (if xs = [] then None else Some (last xs))"

lemma append_holds:
  assumes "mq_holds w i xs" and "a \<notin> set xs" and "msg_next (msgs w a) = None"
  shows "\<exists>w'. msgq_append i a w = Some w' \<and> mq_holds w' i (xs @ [a])
    \<and> (\<forall>b. (msgs w' b)\<lparr>msg_next := None\<rparr> = (msgs w b)\<lparr>msg_next := None\<rparr>)
    \<and> (\<forall>b. b \<notin> set xs \<longrightarrow> msgs w' b = msgs w b)
    \<and> mq_sem (queues w' i) = mq_sem (queues w i) \<and> (\<forall>j. j \<noteq> i \<longrightarrow> queues w' j = queues w j)
    \<and> pools w' = pools w \<and> waitsems w' = waitsems w"
proof (cases xs rule: rev_cases)
  case Nil
  then show ?thesis using assms by (auto simp: msgq_append_def mq_holds_def upd_defs Let_def)
next
  case (snoc ys y)
  have "mq_head (queues w i) \<noteq> None" using assms(1) snoc by (cases ys) (auto simp: mq_holds_def)
  moreover have "chain (links w) (mq_head (queues w i)) ys (Some y)" "y \<notin> set ys"
    using assms(1) snoc by (auto simp: mq_holds_def chain_append)
  ultimately show ?thesis
    using assms snoc
    by (auto simp: msgq_append_def mq_holds_def upd_defs Let_def chain_append fun_upd_comp heap_simps)
qed

lemma take_holds:
  assumes "mq_holds w i (a # xs)"
  shows "\<exists>w'. take_head i w = Some (a, w') \<and> mq_holds w' i xs \<and> msgs w' = msgs w
    \<and> mq_sem (queues w' i) = mq_sem (queues w i) \<and> (\<forall>j. j \<noteq> i \<longrightarrow> queues w' j = queues w j)
    \<and> pools w' = pools w \<and> waitsems w' = waitsems w"
  using assms by (cases xs) (auto simp: take_head_def mq_holds_def upd_defs Let_def)

lemma holds_frame:
  assumes "mq_holds w i xs" and "queues w' i = queues w i" and "\<And>a. a \<in> set xs \<Longrightarrow> links w' a = links w a"
  shows "mq_holds w' i xs"
  using assms(1) chain_cong [of xs "links w'" "links w"] assms(2,3) by (simp add: mq_holds_def)

lemma queue_sem_simps [simp]:
  "mq_holds (queue_post i w) j xs = mq_holds w j xs" "mq_holds (queue_claim i w) j xs = mq_holds w j xs"
  "msgs (queue_post i w) = msgs w" "msgs (queue_claim i w) = msgs w"
  "pools (queue_post i w) = pools w" "pools (queue_claim i w) = pools w"
  "waitsems (queue_post i w) = waitsems w" "waitsems (queue_claim i w) = waitsems w"
  "mq_sem (queues (queue_post i w) j) = (if i = j then mq_sem (queues w i) + 1 else mq_sem (queues w j))"
  "mq_sem (queues (queue_claim i w) j) = (if i = j then mq_sem (queues w i) - 1 else mq_sem (queues w j))"
  "j \<noteq> i \<Longrightarrow> queues (queue_post i w) j = queues w j" "j \<noteq> i \<Longrightarrow> queues (queue_claim i w) j = queues w j"
  by (auto simp: queue_post_def queue_claim_def upd_defs mq_holds_def)

subsection \<open>Sending and receiving\<close>

definition mq_rep :: "msg_world \<Rightarrow> nat \<Rightarrow> addr list \<Rightarrow> bool" where
  "mq_rep w i xs \<longleftrightarrow> mq_holds w i xs \<and> mq_sem (queues w i) = length xs"

lemma upd_msg_holds:
  assumes "mq_holds w i xs" and "a \<notin> set xs"
  shows "mq_holds (upd_msg a f w) i xs"
  by (rule holds_frame [OF assms(1)]) (use assms(2) in \<open>auto simp: upd_msg_def\<close>)

lemma upd_msg_simps [simp]:
  "queues (upd_msg a f w) = queues w" "pools (upd_msg a f w) = pools w" "waitsems (upd_msg a f w) = waitsems w"
  "msgs (upd_msg a f w) b = (if b = a then f (msgs w a) else msgs w b)"
  by (simp_all add: upd_msg_def)

lemma send_append_ok:
  assumes "mq_holds w i xs" and "a \<notin> set xs"
  shows "\<exists>w'. send_append t wt i code a w = Some w' \<and> mq_holds w' i (xs @ [a])
    \<and> mq_sem (queues w' i) = mq_sem (queues w i)
    \<and> msgs w' a = (msgs w a)\<lparr>msg_code := code, msg_next := None, src_thread := t,
        waiter := (if wt = None then waiter (msgs w a) else wt)\<rparr>
    \<and> (\<forall>b. b \<noteq> a \<longrightarrow> (msgs w' b)\<lparr>msg_next := None\<rparr> = (msgs w b)\<lparr>msg_next := None\<rparr>)
    \<and> (\<forall>b. b \<notin> set (xs @ [a]) \<longrightarrow> msgs w' b = msgs w b)
    \<and> (\<forall>j. j \<noteq> i \<longrightarrow> queues w' j = queues w j) \<and> pools w' = pools w \<and> waitsems w' = waitsems w"
proof -
  define w0 where "w0 = upd_msg a (\<lambda>m. m\<lparr>src_thread := t\<rparr>) (upd_msg a (\<lambda>m. m\<lparr>msg_next := None\<rparr>)
    (case wt of None \<Rightarrow> upd_msg a (\<lambda>m. m\<lparr>msg_code := code\<rparr>) w
     | Some _ \<Rightarrow> upd_msg a (\<lambda>m. m\<lparr>waiter := wt\<rparr>) (upd_msg a (\<lambda>m. m\<lparr>msg_code := code\<rparr>) w)))"
  have eq: "send_append t wt i code a w = msgq_append i a w0"
    by (simp add: send_append_def w0_def Let_def)
  have w0: "mq_holds w0 i xs" "msg_next (msgs w0 a) = None" "queues w0 = queues w" "pools w0 = pools w"
    "waitsems w0 = waitsems w" "\<And>b. b \<noteq> a \<Longrightarrow> msgs w0 b = msgs w b"
    "msgs w0 a = (msgs w a)\<lparr>msg_code := code, msg_next := None, src_thread := t,
        waiter := (if wt = None then waiter (msgs w a) else wt)\<rparr>"
    using assms by (auto simp: w0_def intro!: upd_msg_holds split: option.split)
  show ?thesis
    unfolding eq using append_holds [OF w0(1) assms(2) w0(2)] w0 assms(2) by auto
qed

lemma send_helper_ok:
  assumes "mq_rep w i xs" and "a \<notin> set xs"
  shows "\<exists>w'. vcos_msg_send_helper t wt i code a w = Some w' \<and> mq_rep w' i (xs @ [a])
    \<and> msgs w' a = (msgs w a)\<lparr>msg_code := code, msg_next := None, src_thread := t,
        waiter := (if wt = None then waiter (msgs w a) else wt)\<rparr>
    \<and> (\<forall>j. j \<noteq> i \<longrightarrow> queues w' j = queues w j) \<and> pools w' = pools w \<and> waitsems w' = waitsems w"
  using send_append_ok [of w i xs a t wt code] assms
  by (auto simp: mq_rep_def vcos_msg_send_helper_def)

lemma wait_Cons:
  assumes "mq_rep w i (a # xs)"
  shows "\<exists>w'. vcos_msg_wait i w = Some (Woke (a, w')) \<and> mq_rep w' i xs \<and> msgs w' = msgs w
    \<and> (\<forall>j. j \<noteq> i \<longrightarrow> queues w' j = queues w j) \<and> pools w' = pools w \<and> waitsems w' = waitsems w"
proof -
  have h: "mq_holds (queue_claim i w) i (a # xs)" "mq_sem (queues w i) = Suc (length xs)"
    using assms by (simp_all add: mq_rep_def)
  from take_holds [OF h(1)] h(2) show ?thesis by (auto simp: vcos_msg_wait_def mq_rep_def)
qed

lemma wait_some:
  assumes "mq_sem (queues w i) > 0" and "mq_head (queues w i) = Some a"
  shows "\<exists>w'. vcos_msg_wait i w = Some (Woke (a, w')) \<and> msgs w' = msgs w"
  using assms by (auto simp: vcos_msg_wait_def take_head_def queue_claim_def upd_queue_def Let_def)

lemma wait_Nil: "mq_rep w i [] \<Longrightarrow> vcos_msg_wait i w = Some Blocked"
  by (simp add: mq_rep_def vcos_msg_wait_def)

text \<open>C32. A queue whose messages are \<open>xs\<close> is a FIFO. \<open>vcos_msg_send\<close> of a message that is not in it
  adds it at the end, with its code and a reset link, and keeps the message's waiter; \<open>vcos_msg_wait\<close>
  and \<open>vcos_msg_peek\<close> take the first message and leave all messages as they are, and on an empty queue
  the one blocks and the other returns NULL. The semaphore always counts the messages.\<close>

theorem msg_queue_fifo:
  assumes "mq_rep w i xs" and "a \<notin> set xs" and "msg_magic (msgs w a)"
  shows "(\<exists>w'. vcos_msg_send t i code a w = Some w' \<and> mq_rep w' i (xs @ [a])
        \<and> msgs w' a = (msgs w a)\<lparr>msg_code := code, msg_next := None, src_thread := t\<rparr>
        \<and> (\<forall>j. j \<noteq> i \<longrightarrow> queues w' j = queues w j))
    \<and> (case xs of
         [] \<Rightarrow> vcos_msg_wait i w = Some Blocked \<and> vcos_msg_peek i w = Some (Woke (None, w))
       | x # ys \<Rightarrow> \<exists>w'. vcos_msg_wait i w = Some (Woke (x, w')) \<and> mq_rep w' i ys \<and> msgs w' = msgs w
            \<and> vcos_msg_peek i w = Some (Woke (Some x, w')))"
proof
  show "\<exists>w'. vcos_msg_send t i code a w = Some w' \<and> mq_rep w' i (xs @ [a])
        \<and> msgs w' a = (msgs w a)\<lparr>msg_code := code, msg_next := None, src_thread := t\<rparr>
        \<and> (\<forall>j. j \<noteq> i \<longrightarrow> queues w' j = queues w j)"
    using send_helper_ok [OF assms(1,2), of t None code] assms(3) by (auto simp: vcos_msg_send_def)
  show "case xs of
         [] \<Rightarrow> vcos_msg_wait i w = Some Blocked \<and> vcos_msg_peek i w = Some (Woke (None, w))
       | x # ys \<Rightarrow> \<exists>w'. vcos_msg_wait i w = Some (Woke (x, w')) \<and> mq_rep w' i ys \<and> msgs w' = msgs w
            \<and> vcos_msg_peek i w = Some (Woke (Some x, w'))"
  proof (cases xs)
    case Nil
    then show ?thesis
      using assms(1) by (simp add: wait_Nil) (simp add: mq_rep_def mq_holds_def vcos_msg_peek_def)
  next
    case (Cons x ys)
    have "vcos_msg_peek i w = map_option (\<lambda>r. case r of Blocked \<Rightarrow> Blocked | Woke (x, w) \<Rightarrow> Woke (Some x, w)) (vcos_msg_wait i w)"
      using assms(1) Cons
      by (cases "queues w i") (auto simp: mq_rep_def mq_holds_def vcos_msg_peek_def vcos_msg_wait_def take_head_def queue_claim_def
          upd_defs Let_def)
    then show ?thesis using wait_Cons assms(1) Cons by fastforce
  qed
qed

subsection \<open>Replies\<close>

text \<open>A call of \<open>vcos_msg_sendwait\<close> and the server that answers it. The client sends and blocks; the
  server receives the message and replies; then the client returns with success and finds the reply
  bit set in the code. But the message still points to the waiter on the client's stack, which is
  gone: sending the same message with \<open>sendwait\<close> again fails the assertion that it has no waiter.\<close>

theorem sendwait_reply:
  assumes "mq_rep w q []" and "msg_magic (msgs w a)" and "waiter (msgs w a) = None"
  shows "\<exists>w1 w2 w3 w4. vcos_msg_sendwait True t s q code a w = Some (VCOS_SUCCESS, w1)
    \<and> sendwait_end s w1 = Blocked
    \<and> vcos_msg_wait q w1 = Some (Woke (a, w2)) \<and> mq_rep w2 q []
    \<and> vcos_msg_reply a w2 = Some w3
    \<and> sendwait_end s w3 = Woke (VCOS_SUCCESS, w4)
    \<and> msg_code (msgs w4 a) = code OR MSG_REPLY_BIT
    \<and> waitsems w4 s = 0
    \<and> (\<forall>ok t' s' q' code'. vcos_msg_sendwait ok t' s' q' code' a w4 = None)"
proof -
  let ?w = "upd_sem s 0 w"
  have r: "mq_rep ?w q []" using assms(1) by (simp add: mq_rep_def mq_holds_def upd_sem_def)
  obtain w1 where w1: "vcos_msg_send_helper t (Some (SimpleWaiter s)) q code a ?w = Some w1" "mq_rep w1 q [a]"
    "msgs w1 a = (msgs w a)\<lparr>msg_code := code, msg_next := None, src_thread := t, waiter := Some (SimpleWaiter s)\<rparr>"
    "waitsems w1 = waitsems ?w"
    using send_helper_ok [OF r, of a t "Some (SimpleWaiter s)" code] by (auto simp: upd_sem_def)
  have send: "vcos_msg_sendwait True t s q code a w = Some (VCOS_SUCCESS, w1)"
    using assms(2,3) w1(1) by (simp add: vcos_msg_sendwait_def vcos_msgq_simple_waiter_init_def)
  obtain w2 where w2: "vcos_msg_wait q w1 = Some (Woke (a, w2))" "mq_rep w2 q []" "msgs w2 = msgs w1"
    "waitsems w2 = waitsems w1"
    using wait_Cons [OF w1(2)] by blast
  define w3 where "w3 = vcos_msgq_simple_waiter_on_reply s
    (upd_msg a (\<lambda>m. m\<lparr>msg_code := msg_code m OR MSG_REPLY_BIT\<rparr>) w2)"
  have reply: "vcos_msg_reply a w2 = Some w3"
    using assms(2) w1(3) w2(3) by (simp add: vcos_msg_reply_def w3_def)
  have "sendwait_end s w1 = Blocked" using w1(4) by (simp add: sendwait_end_def upd_sem_def)
  moreover have "waitsems w3 s = 1" using w1(4) w2(4)
    by (simp add: w3_def vcos_msgq_simple_waiter_on_reply_def upd_sem_def)
  then have "sendwait_end s w3 = Woke (VCOS_SUCCESS, upd_sem s 0 w3)" by (simp add: sendwait_end_def)
  moreover have "msgs (upd_sem s 0 w3) a = (msgs w a)\<lparr>msg_code := code OR MSG_REPLY_BIT, msg_next := None,
      src_thread := t, waiter := Some (SimpleWaiter s)\<rparr>"
    using w1(3) w2(3) by (simp add: w3_def vcos_msgq_simple_waiter_on_reply_def upd_sem_def)
  ultimately show ?thesis
    using send w2 reply
    by (intro exI [of _ w1] exI [of _ w2] exI [of _ w3] exI [of _ "upd_sem s 0 w3"])
      (simp add: vcos_msg_sendwait_def, simp add: upd_sem_def)
qed

definition demo_world :: msg_world where
  "demo_world = \<lparr>msgs = \<lambda>_. zero_msg\<lparr>msg_magic := True\<rparr>,
     queues = \<lambda>_. \<lparr>mq_head = None, mq_tail = None, mq_sem = 0\<rparr>,
     pools = \<lambda>_. \<lparr>mp_blockpool = raw_pool (\<lambda>_. OtherBytes), mp_sem = 0, mp_magic = False\<rparr>,
     waitsems = \<lambda>_. 0\<rparr>"

lemma demo_world_rep: "mq_rep demo_world i []" "msg_magic (msgs demo_world a)" "waiter (msgs demo_world a) = None"
  by (simp_all add: demo_world_def mq_rep_def mq_holds_def zero_msg_def)

theorem msg_queue_fifo_witness:
  "\<exists>w'. vcos_msg_send 1 0 9 64 demo_world = Some w' \<and> mq_rep w' 0 [64]
     \<and> vcos_msg_wait 0 demo_world = Some Blocked"
  using msg_queue_fifo [where w = demo_world and i = 0 and xs = "[]" and a = 64 and t = 1 and code = 9,
      OF demo_world_rep(1) _ demo_world_rep(2)] by auto

theorem sendwait_reply_witness:
  "\<exists>w1 w2 w3 w4. vcos_msg_sendwait True 1 2 0 9 64 demo_world = Some (VCOS_SUCCESS, w1)
     \<and> vcos_msg_wait 0 w1 = Some (Woke (64, w2)) \<and> vcos_msg_reply 64 w2 = Some w3
     \<and> sendwait_end 2 w3 = Woke (VCOS_SUCCESS, w4) \<and> vcos_msg_sendwait True 1 2 0 9 64 w4 = None"
  using sendwait_reply [where w = demo_world and q = 0 and a = 64 and t = 1 and s = 2 and code = 9,
      OF demo_world_rep] by blast

text \<open>Replies to a queue can deliver the wrong message. The reply appends the message without
  resetting its link, which still points to the message that was behind it in the server's queue.
  If the server takes three messages of a client and replies to the first and the third, the client
  receives the first and then the second, whose code has no reply bit, because the server has not
  replied to it.\<close>

theorem reply_to_queue_delivers_wrong_message:
  assumes "mq_rep w server [a, b, c]" and "mq_rep w client []" and "server \<noteq> client"
    and "\<forall>x\<in>{a, b, c}. msg_magic (msgs w x) \<and> waiter (msgs w x) = Some (QueueWaiter client)"
  shows "\<exists>w1 w2 w3 w4 w5 w6 w7.
    vcos_msg_wait server w = Some (Woke (a, w1)) \<and> vcos_msg_wait server w1 = Some (Woke (b, w2))
    \<and> vcos_msg_wait server w2 = Some (Woke (c, w3))
    \<and> vcos_msg_reply a w3 = Some w4 \<and> vcos_msg_wait client w4 = Some (Woke (a, w5))
    \<and> vcos_msg_reply c w5 = Some w6 \<and> vcos_msg_wait client w6 = Some (Woke (b, w7))
    \<and> b \<noteq> c \<and> msg_code (msgs w7 b) = msg_code (msgs w b)"
proof -
  obtain w1 where w1: "vcos_msg_wait server w = Some (Woke (a, w1))" "mq_rep w1 server [b, c]" "msgs w1 = msgs w"
    "\<forall>j. j \<noteq> server \<longrightarrow> queues w1 j = queues w j"
    using wait_Cons [OF assms(1)] by blast
  obtain w2 where w2: "vcos_msg_wait server w1 = Some (Woke (b, w2))" "mq_rep w2 server [c]" "msgs w2 = msgs w1"
    "\<forall>j. j \<noteq> server \<longrightarrow> queues w2 j = queues w1 j"
    using wait_Cons [OF w1(2)] by blast
  obtain w3 where w3: "vcos_msg_wait server w2 = Some (Woke (c, w3))" "msgs w3 = msgs w2"
    "\<forall>j. j \<noteq> server \<longrightarrow> queues w3 j = queues w2 j"
    using wait_Cons [OF w2(2)] by blast
  have msgs3: "msgs w3 = msgs w" using w1(3) w2(3) w3(2) by simp
  have q3: "queues w3 client = queues w client" using assms(3) w1(4) w2(4) w3(3) by auto
  have client: "mq_head (queues w client) = None" "mq_tail (queues w client) = None" "mq_sem (queues w client) = 0"
    using assms(2) by (simp_all add: mq_rep_def mq_holds_def)
  have m: "msg_magic (msgs w x)" "waiter (msgs w x) = Some (QueueWaiter client)" if "x \<in> {a, b, c}" for x
    using assms(4) that by auto
  have ab: "msg_next (msgs w a) = Some b" "a \<noteq> b" "b \<noteq> c" "a \<noteq> c"
    using assms(1) by (auto simp: mq_rep_def mq_holds_def)
  define q where "q h t n = (queues w client)\<lparr>mq_head := h, mq_tail := t, mq_sem := n\<rparr>" for h t n
  have qs [simp]: "mq_head (q h t n) = h" "mq_tail (q h t n) = t" "mq_sem (q h t n) = n"
    "(q h t n)\<lparr>mq_head := h'\<rparr> = q h' t n" "(q h t n)\<lparr>mq_tail := t'\<rparr> = q h t' n" "(q h t n)\<lparr>mq_sem := n'\<rparr> = q h t n'"
    for h t n h' t' n' by (simp_all add: q_def)
  have q0: "queues w client = q None None 0" using client by (simp add: q_def)
  define r :: "vcos_msg \<Rightarrow> vcos_msg" where "r = (\<lambda>m. m\<lparr>msg_code := msg_code m OR MSG_REPLY_BIT\<rparr>)"
  define w4 where "w4 = upd_queue client (q (Some a) (Some a) 1) (upd_msg a r w3)"
  have w4: "vcos_msg_reply a w3 = Some w4"
    using m [of a] by (simp add: vcos_msg_reply_def vcos_msgq_queue_waiter_on_reply_def msgq_append_def queue_post_def
        msgs3 q3 q0 w4_def r_def) (simp add: upd_queue_def)
  define w5 where "w5 = upd_queue client (q (Some b) (Some a) 0) (upd_msg a r w3)"
  have w5: "vcos_msg_wait client w4 = Some (Woke (a, w5))"
    by (simp add: vcos_msg_wait_def take_head_def queue_claim_def w4_def w5_def upd_queue_def msgs3 ab r_def)
  define w6 where "w6 = upd_queue client (q (Some b) (Some c) 1)
      (upd_msg a (\<lambda>m. m\<lparr>msg_next := Some c\<rparr>) (upd_msg c r w5))"
  have w6: "vcos_msg_reply c w5 = Some w6"
    using m [of c] ab
    by (simp add: vcos_msg_reply_def vcos_msgq_queue_waiter_on_reply_def msgq_append_def queue_post_def
        msgs3 w5_def w6_def r_def upd_queue_def upd_msg_def)
  obtain w7 where w7: "vcos_msg_wait client w6 = Some (Woke (b, w7))" "msgs w7 = msgs w6"
    using wait_some [of w6 client b] by (auto simp: w6_def upd_queue_def)
  have "msgs w7 b = msgs w b"
    unfolding w7(2) w6_def w5_def using ab by (simp add: upd_queue_def upd_msg_def msgs3)
  then have "msg_code (msgs w7 b) = msg_code (msgs w b)" by simp
  then show ?thesis
    by (intro exI conjI) (rule w1(1) w2(1) w3(1) w4 w5 w6 w7(1) ab(3) | assumption)+
qed

lemma demo_three:
  "\<exists>w. mq_rep w 0 [8, 16, 24] \<and> mq_rep w 1 []
     \<and> (\<forall>x\<in>{8, 16, 24}. msg_magic (msgs w x) \<and> waiter (msgs w x) = Some (QueueWaiter 1))"
proof -
  define m where "m n = zero_msg\<lparr>msg_magic := True, msg_next := n, waiter := Some (QueueWaiter 1)\<rparr>" for n
  let ?w = "\<lparr>msgs = \<lambda>a. m (if a = 8 then Some 16 else if a = 16 then Some 24 else None),
    queues = \<lambda>i. if i = 0 then \<lparr>mq_head = Some 8, mq_tail = Some 24, mq_sem = 3\<rparr>
                 else \<lparr>mq_head = None, mq_tail = None, mq_sem = 0\<rparr>,
    pools = pools demo_world, waitsems = \<lambda>_. 0\<rparr>"
  have "mq_rep ?w 0 [8, 16, 24] \<and> mq_rep ?w 1 []
     \<and> (\<forall>x\<in>{8, 16, 24}. msg_magic (msgs ?w x) \<and> waiter (msgs ?w x) = Some (QueueWaiter 1))"
    by (simp add: mq_rep_def mq_holds_def m_def)
  then show ?thesis by blast
qed

theorem reply_to_queue_delivers_wrong_message_witness:
  "\<exists>(w :: msg_world) w3 w4 w5 w6 w7. vcos_msg_reply 8 w3 = Some w4 \<and> vcos_msg_wait 1 w4 = Some (Woke (8, w5))
     \<and> vcos_msg_reply 24 w5 = Some w6 \<and> vcos_msg_wait 1 w6 = Some (Woke (16, w7))
     \<and> msg_code (msgs w7 16) = msg_code (msgs w 16)"
proof -
  obtain w where w: "mq_rep w 0 [8, 16, 24]" "mq_rep w 1 []"
    "\<forall>x\<in>{8, 16, 24}. msg_magic (msgs w x) \<and> waiter (msgs w x) = Some (QueueWaiter 1)"
    using demo_three by blast
  have "(0 :: nat) \<noteq> 1" by simp
  from reply_to_queue_delivers_wrong_message [OF w(1,2) this w(3)] show ?thesis
    by (elim exE conjE) (intro exI conjI, assumption+)
qed

subsection \<open>Pools\<close>

text \<open>A pool of \<open>n\<close> messages of which \<open>k\<close> threads have claimed one and not yet taken it.\<close>

definition pool_serves :: "msg_world \<Rightarrow> nat \<Rightarrow> nat \<Rightarrow> nat \<Rightarrow> bool" where
  "pool_serves w i n k \<longleftrightarrow> fixed_pool n (mp_blockpool (pools w i)) \<and> mp_magic (pools w i)
     \<and> mp_sem (pools w i) + k + card (allocated (mp_blockpool (pools w i))) = n"

lemma pool_claim_serves:
  "pool_serves w i n k \<Longrightarrow> mp_sem (pools w i) > 0 \<Longrightarrow> pool_serves (pool_claim i w) i n (k + 1)"
  by (simp add: pool_serves_def pool_claim_def upd_msgpool_def)

lemma pool_take_ok:
  assumes "pool_serves w i n (k + 1)"
  obtains b w' where "pool_take m i w = Some (b + HEADER_SIZE, w')" and "pool_serves w' i n k"
    and "b \<notin> allocated (mp_blockpool (pools w i))"
    and "allocated (mp_blockpool (pools w' i)) = insert b (allocated (mp_blockpool (pools w i)))"
    and "msgs w' (b + HEADER_SIZE)
       = zero_msg\<lparr>msg_magic := True, waiter := Some (PoolWaiter i), msg_pool := Some i\<rparr>"
    and "\<And>c. c \<noteq> b + HEADER_SIZE \<Longrightarrow> msgs w' c = msgs w c" and "queues w' = queues w"
proof -
  let ?bp = "mp_blockpool (pools w i)"
  have p: "fixed_pool n ?bp" "mp_magic (pools w i)" "mp_sem (pools w i) + (k + 1) + card (allocated ?bp) = n"
    using assms by (simp_all add: pool_serves_def)
  have "card (allocated ?bp) < n" using p(3) by linarith
  from fixed_alloc [OF p(1) this] obtain b bp' where b:
    "vcos_generic_blockpool_alloc m ?bp = Some (Some (b + HEADER_SIZE), bp')" "fixed_pool n bp'"
    "b \<notin> allocated ?bp" "allocated bp' = insert b (allocated ?bp)"
    by metis
  define w0 where "w0 = (upd_msgpool i ((pools w i)\<lparr>mp_blockpool := bp'\<rparr>) w)\<lparr>msgs := (msgs w)(b + HEADER_SIZE := zero_msg)\<rparr>"
  define w' where "w' = upd_msg (b + HEADER_SIZE) (\<lambda>m. m\<lparr>msg_pool := Some i\<rparr>)
    (upd_msg (b + HEADER_SIZE) (\<lambda>m. m\<lparr>waiter := Some (PoolWaiter i)\<rparr>)
      (upd_msg (b + HEADER_SIZE) (\<lambda>m. m\<lparr>msg_magic := True\<rparr>) w0))"
  have take: "pool_take m i w = Some (b + HEADER_SIZE, w')"
    by (simp add: pool_take_def vcos_generic_blockpool_calloc_def b(1) w'_def w0_def)
  have "mp_blockpool (pools w' i) = bp'" "mp_magic (pools w' i)" "mp_sem (pools w' i) = mp_sem (pools w i)"
    using p(2) by (simp_all add: w'_def w0_def upd_msgpool_def)
  moreover have "card (allocated bp') = card (allocated ?bp) + 1"
    using b(3,4) fixed_available(2) [OF p(1)] by simp
  ultimately have "pool_serves w' i n k" using b(2) p(3) by (simp add: pool_serves_def)
  with take b(3,4) \<open>mp_blockpool (pools w' i) = bp'\<close> show thesis
    by (intro that [of b w']) (simp_all add: w'_def w0_def upd_msgpool_def)
qed

text \<open>C31. \<^emph>\<open>If we managed to claim the semaphore, then by definition there must be at least that many free
  messages in the blockpool.\<close> In a pool of \<open>n\<close> messages, claimed or not by other threads meanwhile,
  \<open>vcos_msgq_pool_alloc\<close> and \<open>vcos_msgq_pool_wait\<close> never find the block pool empty: with a token left
  they return a message that nobody holds, cleared, with its magic number and the pool as its
  waiter; without one they return NULL and block. Replying to such a message gives it back, and
  the semaphore, the claims and the messages outside always add up to \<open>n\<close>.\<close>

theorem msgq_pool_accounts:
  assumes "pool_serves w i n k"
  shows "(if mp_sem (pools w i) = 0
      then vcos_msgq_pool_alloc m i w = Some (None, w) \<and> vcos_msgq_pool_wait m i w = Some Blocked
      else \<exists>b w'. vcos_msgq_pool_alloc m i w = Some (Some (b + HEADER_SIZE), w')
        \<and> vcos_msgq_pool_wait m i w = Some (Woke (b + HEADER_SIZE, w'))
        \<and> pool_serves w' i n k \<and> b \<notin> allocated (mp_blockpool (pools w i))
        \<and> allocated (mp_blockpool (pools w' i)) = insert b (allocated (mp_blockpool (pools w i)))
        \<and> msgs w' (b + HEADER_SIZE)
           = zero_msg\<lparr>msg_magic := True, waiter := Some (PoolWaiter i), msg_pool := Some i\<rparr>)
    \<and> (\<forall>b\<in>allocated (mp_blockpool (pools w i)).
        msg_magic (msgs w (b + HEADER_SIZE)) \<and> waiter (msgs w (b + HEADER_SIZE)) = Some (PoolWaiter i)
        \<and> msg_pool (msgs w (b + HEADER_SIZE)) = Some i
        \<longrightarrow> (\<exists>w'. vcos_msg_reply (b + HEADER_SIZE) w = Some w' \<and> pool_serves w' i n k
              \<and> mp_sem (pools w' i) = mp_sem (pools w i) + 1
              \<and> allocated (mp_blockpool (pools w' i)) = allocated (mp_blockpool (pools w i)) - {b}))"
proof (intro conjI ballI impI)
  let ?bp = "mp_blockpool (pools w i)"
  show "if mp_sem (pools w i) = 0
      then vcos_msgq_pool_alloc m i w = Some (None, w) \<and> vcos_msgq_pool_wait m i w = Some Blocked
      else \<exists>b w'. vcos_msgq_pool_alloc m i w = Some (Some (b + HEADER_SIZE), w')
        \<and> vcos_msgq_pool_wait m i w = Some (Woke (b + HEADER_SIZE, w'))
        \<and> pool_serves w' i n k \<and> b \<notin> allocated ?bp
        \<and> allocated (mp_blockpool (pools w' i)) = insert b (allocated ?bp)
        \<and> msgs w' (b + HEADER_SIZE)
           = zero_msg\<lparr>msg_magic := True, waiter := Some (PoolWaiter i), msg_pool := Some i\<rparr>"
  proof (cases "mp_sem (pools w i) = 0")
    case True
    then show ?thesis by (simp add: vcos_msgq_pool_alloc_def vcos_msgq_pool_wait_def)
  next
    case False
    then have c: "pool_serves (pool_claim i w) i n (k + 1)" using pool_claim_serves [OF assms] by simp
    have same: "mp_blockpool (pools (pool_claim i w) i) = ?bp" by (simp add: pool_claim_def upd_msgpool_def)
    from pool_take_ok [OF c, of m] obtain b w' where "pool_take m i (pool_claim i w) = Some (b + HEADER_SIZE, w')"
      "pool_serves w' i n k" "b \<notin> allocated ?bp" "allocated (mp_blockpool (pools w' i)) = insert b (allocated ?bp)"
      "msgs w' (b + HEADER_SIZE) = zero_msg\<lparr>msg_magic := True, waiter := Some (PoolWaiter i), msg_pool := Some i\<rparr>"
      unfolding same by metis
    then show ?thesis using False by (auto simp: vcos_msgq_pool_alloc_def vcos_msgq_pool_wait_def)
  qed
next
  let ?bp = "mp_blockpool (pools w i)"
  fix b
  assume b: "b \<in> allocated ?bp"
    and msg: "msg_magic (msgs w (b + HEADER_SIZE)) \<and> waiter (msgs w (b + HEADER_SIZE)) = Some (PoolWaiter i)
        \<and> msg_pool (msgs w (b + HEADER_SIZE)) = Some i"
  have p: "fixed_pool n ?bp" "mp_magic (pools w i)" "mp_sem (pools w i) + k + card (allocated ?bp) = n"
    using assms by (simp_all add: pool_serves_def)
  obtain bp' where bp': "vcos_generic_blockpool_free (Some (b + HEADER_SIZE)) ?bp = Some bp'" "fixed_pool n bp'"
    "allocated bp' = allocated ?bp - {b}"
    using fixed_free [OF p(1) b] by metis
  have card: "card (allocated ?bp) = card (allocated bp') + 1"
    using card_Suc_Diff1 [OF fixed_available(2) [OF p(1)] b] bp'(3) by simp
  define w' where "w' = upd_msgpool i ((pools w i)\<lparr>mp_blockpool := bp', mp_sem := mp_sem (pools w i) + 1\<rparr>)
    (upd_msg (b + HEADER_SIZE) (\<lambda>m. m\<lparr>msg_code := msg_code m OR MSG_REPLY_BIT\<rparr>) w)"
  have "vcos_msg_reply (b + HEADER_SIZE) w = Some w'"
    using msg p(2) by (simp add: vcos_msg_reply_def vcos_msgq_pool_on_reply_def vcos_msgq_pool_free_def bp'(1) w'_def Let_def
        del: vcos_generic_blockpool_free.simps)
  moreover have "pool_serves w' i n k"
    using p bp'(2) card by (simp add: pool_serves_def w'_def upd_msgpool_def)
  ultimately show "\<exists>w'. vcos_msg_reply (b + HEADER_SIZE) w = Some w' \<and> pool_serves w' i n k
      \<and> mp_sem (pools w' i) = mp_sem (pools w i) + 1
      \<and> allocated (mp_blockpool (pools w' i)) = allocated ?bp - {b}"
    using bp'(3) by (intro exI [of _ w']) (simp add: w'_def upd_msgpool_def)
qed

lemma pool_create_serves:
  assumes "vcos_msgq_pool_create m mutex_ok sem_ok i n payload w = Some (VCOS_SUCCESS, w')"
  shows "pool_serves w' i n 0"
proof -
  obtain st bp where bp: "vcos_generic_blockpool_create_on_heap m n (payload + MSG_SIZE) ALIGN_DEFAULT mutex_ok
      (mp_blockpool (pools w i)) = Some (st, bp)"
    using assms by (auto simp: vcos_msgq_pool_create_def Let_def split: bind_splits)
  have "st = VCOS_SUCCESS" "w' = upd_msgpool i ((pools w i)\<lparr>mp_blockpool := bp, mp_sem := n, mp_magic := True\<rparr>) w"
    using assms bp by (auto simp: vcos_msgq_pool_create_def Let_def split: if_splits bind_splits)
  with fixed_create [OF bp [unfolded this(1)]] show ?thesis
    by (simp add: pool_serves_def upd_msgpool_def)
qed

theorem msgq_pool_accounts_witness:
  "\<exists>w b w'. pool_serves w 0 2 0 \<and> vcos_msgq_pool_alloc (\<lambda>_. None) 0 w = Some (Some (b + HEADER_SIZE), w')
     \<and> pool_serves w' 0 2 0"
proof -
  have "bp_size 2 32 4 = 76" by code_simp
  then have "\<exists>w. vcos_msgq_pool_create (\<lambda>_. Some 1024) True True 0 2 8 demo_world = Some (VCOS_SUCCESS, w)
      \<and> mp_sem (pools w 0) = 2"
    by (simp add: vcos_msgq_pool_create_def vcos_generic_blockpool_create_on_heap_def
        vcos_generic_blockpool_init_def MSG_SIZE_def ALIGN_DEFAULT_def upd_msgpool_def Let_def)
  then obtain w where w: "vcos_msgq_pool_create (\<lambda>_. Some 1024) True True 0 2 8 demo_world = Some (VCOS_SUCCESS, w)"
    "mp_sem (pools w 0) = 2"
    by blast
  from msgq_pool_accounts [OF pool_create_serves [OF w(1)], of "\<lambda>_. None"] pool_create_serves [OF w(1)] w(2)
  show ?thesis by auto
qed

subsection \<open>Threads on a queue\<close>

text \<open>The threads around queue \<open>i\<close>, step by step: senders that have appended and not yet posted the
  semaphore, waiters that have claimed it and not yet taken a message, and whether a thread in
  \<open>peek\<close> holds the lock, has removed a message and is about to wait on the semaphore.\<close>

record mq_threads =
  world :: msg_world
  appended :: nat
  claimed :: nat
  peeking :: bool

text \<open>\<open>one\<close> restricts the system to queues with one receiving thread, which does not peek while it waits.\<close>

inductive mq_step :: "bool \<Rightarrow> nat \<Rightarrow> mq_threads \<Rightarrow> mq_threads \<Rightarrow> bool" for one i where
  send: "\<not> peeking s \<Longrightarrow> \<nexists>xs. mq_holds (world s) i xs \<and> a \<in> set xs \<Longrightarrow>
    send_append t wt i code a (world s) = Some w \<Longrightarrow>
    mq_step one i s (s\<lparr>world := w, appended := appended s + 1\<rparr>)"
| post: "appended s > 0 \<Longrightarrow>
    mq_step one i s (s\<lparr>world := queue_post i (world s), appended := appended s - 1\<rparr>)"
| claim: "mq_sem (queues (world s) i) > 0 \<Longrightarrow> one \<longrightarrow> \<not> peeking s \<and> claimed s = 0 \<Longrightarrow>
    mq_step one i s (s\<lparr>world := queue_claim i (world s), claimed := claimed s + 1\<rparr>)"
| take: "\<not> peeking s \<Longrightarrow> claimed s > 0 \<Longrightarrow> take_head i (world s) = Some (a, w) \<Longrightarrow>
    mq_step one i s (s\<lparr>world := w, claimed := claimed s - 1\<rparr>)"
| peek: "\<not> peeking s \<Longrightarrow> one \<longrightarrow> claimed s = 0 \<Longrightarrow> take_head i (world s) = Some (a, w) \<Longrightarrow>
    mq_step one i s (s\<lparr>world := w, peeking := True\<rparr>)"
| peeked: "peeking s \<Longrightarrow> mq_sem (queues (world s) i) > 0 \<Longrightarrow>
    mq_step one i s (s\<lparr>world := queue_claim i (world s), peeking := False\<rparr>)"

inductive_cases mq_stepE: "mq_step one i s s'"

inductive mq_reachable :: "bool \<Rightarrow> nat \<Rightarrow> mq_threads \<Rightarrow> bool" for one i where
  start: "mq_rep w i [] \<Longrightarrow>
    mq_reachable one i \<lparr>world = w, appended = 0, claimed = 0, peeking = False\<rparr>"
| step: "mq_reachable one i s \<Longrightarrow> mq_step one i s s' \<Longrightarrow> mq_reachable one i s'"

definition mq_inv :: "bool \<Rightarrow> nat \<Rightarrow> mq_threads \<Rightarrow> bool" where
  "mq_inv one i s \<longleftrightarrow> (\<exists>xs. mq_holds (world s) i xs
     \<and> length xs + (if peeking s then 1 else 0) = mq_sem (queues (world s) i) + appended s + claimed s)
     \<and> (one \<and> peeking s \<longrightarrow> claimed s = 0)"

lemma take_head_holds:
  assumes "take_head i w = Some (a, w')" and "mq_holds w i xs"
  shows "\<exists>ys. xs = a # ys \<and> mq_holds w' i ys \<and> mq_sem (queues w' i) = mq_sem (queues w i)"
proof (cases xs)
  case Nil
  then show ?thesis using assms by (simp add: take_head_def mq_holds_def)
next
  case (Cons x ys)
  then show ?thesis using assms take_holds [of w i x ys] by auto
qed

lemma mq_inv_step:
  assumes "mq_inv one i s" and "mq_step one i s s'"
  shows "mq_inv one i s'"
proof -
  obtain xs where xs: "mq_holds (world s) i xs"
    "length xs + (if peeking s then 1 else 0) = mq_sem (queues (world s) i) + appended s + claimed s"
    "one \<and> peeking s \<longrightarrow> claimed s = 0"
    using assms(1) by (auto simp: mq_inv_def)
  from assms(2) show ?thesis
  proof cases
    case (send a t wt code w)
    then have "a \<notin> set xs" using xs(1) by blast
    then have "mq_holds w i (xs @ [a])" "mq_sem (queues w i) = mq_sem (queues (world s) i)"
      using send_append_ok [OF xs(1), of a t wt code] send by auto
    then show ?thesis using xs send by (auto simp: mq_inv_def intro!: exI [of _ "xs @ [a]"])
  next
    case (take a w)
    then obtain ys where "xs = a # ys" "mq_holds w i ys" "mq_sem (queues w i) = mq_sem (queues (world s) i)"
      using take_head_holds xs(1) by blast
    then show ?thesis using xs take by (auto simp: mq_inv_def intro!: exI [of _ ys])
  next
    case (peek a w)
    then obtain ys where "xs = a # ys" "mq_holds w i ys" "mq_sem (queues w i) = mq_sem (queues (world s) i)"
      using take_head_holds xs(1) by blast
    then show ?thesis using xs peek by (auto simp: mq_inv_def intro!: exI [of _ ys])
  qed (use xs in \<open>auto simp: mq_inv_def intro!: exI [of _ xs]\<close>)
qed

lemma mq_reachable_inv: "mq_reachable one i s \<Longrightarrow> mq_inv one i s"
proof (induction rule: mq_reachable.induct)
  case (start w)
  then show ?case by (auto simp: mq_inv_def mq_rep_def)
next
  case (step s s')
  then show ?case using mq_inv_step by blast
qed


text \<open>With two receiving threads \<open>vcos_msg_peek\<close> deadlocks the queue, although its comment says that
  the semaphore \<^emph>\<open>must have a non-zero count so cannot block here\<close>: one thread claims the only token in
  \<open>vcos_msg_wait\<close>; the other, in \<open>peek\<close>, removes the only message and waits for a token with the lock
  held. From there nothing can happen any more: the first cannot take the lock, and no sender can
  append a message and post the semaphore.\<close>

theorem msg_peek_deadlock:
  "\<exists>s. mq_reachable False i s \<and> peeking s \<and> claimed s = 1 \<and> (\<forall>s'. \<not> mq_step False i s s')"
proof -
  obtain w where w: "mq_rep w i []" using demo_world_rep(1) by blast
  let ?s0 = "\<lparr>world = w, appended = 0, claimed = 0, peeking = False\<rparr>"
  have h: "mq_holds w i []" "mq_sem (queues w i) = 0" using w by (simp_all add: mq_rep_def)
  obtain w1 where w1: "send_append 0 None i 0 8 w = Some w1" "mq_holds w1 i [8]" "mq_sem (queues w1 i) = 0"
    using send_append_ok [OF h(1), of 8 0 None 0] h(2) by auto
  have "\<nexists>xs. mq_holds w i xs \<and> 8 \<in> set xs"
    using h(1) by (auto simp: mq_holds_def dest: chain_NoneD)
  then have "mq_step False i ?s0 (?s0\<lparr>world := w1, appended := appended ?s0 + 1\<rparr>)"
    using mq_step.send [where s = ?s0 and a = 8 and t = 0 and wt = None and code = 0 and i = i] w1(1) by simp
  then have r1: "mq_reachable False i \<lparr>world = w1, appended = 1, claimed = 0, peeking = False\<rparr>"
    using mq_reachable.step [OF mq_reachable.start [OF w]] by simp
  have r2: "mq_reachable False i \<lparr>world = queue_post i w1, appended = 0, claimed = 0, peeking = False\<rparr>"
    using mq_reachable.step [OF r1 mq_step.post] by simp
  define w3 where "w3 = queue_claim i (queue_post i w1)"
  have r3: "mq_reachable False i \<lparr>world = w3, appended = 0, claimed = 1, peeking = False\<rparr>"
    using mq_reachable.step [OF r2 mq_step.claim] by (simp add: w3_def)
  have "mq_holds w3 i [8]" "mq_sem (queues w3 i) = 0" using w1 by (simp_all add: w3_def)
  then obtain w4 where w4: "take_head i w3 = Some (8, w4)" "mq_sem (queues w4 i) = 0"
    using take_holds [of w3 i 8 "[]"] by auto
  let ?s = "\<lparr>world = w4, appended = 0, claimed = 1, peeking = True\<rparr>"
  have "mq_reachable False i ?s"
    using mq_reachable.step [OF r3 mq_step.peek [where a = 8 and w = w4]] w4(1) by simp
  moreover have "\<not> mq_step False i ?s s'" for s'
    using w4(2) by (auto elim: mq_stepE)
  ultimately show ?thesis by (intro exI [of _ ?s]) simp
qed


end
