(* ===== verification/ClockPort.thy ===== *)
theory ClockPort
  imports ModuleSteps
begin

text \<open>
  core/mmal_port_clock.c: the ports through which the clocks of components are kept in step. A clock port has a clock
  (theories Clock and ClockRequests) and a queue of empty buffers. A reference port writes every change of its
  clock into one of these buffers and gives it to its client or to the port it is connected to; a port that gets
  such a buffer makes the same change to its own clock.

  The callbacks of components, for clock events and for requests, are numbers that the record \<open>clock_callbacks\<close>
  resolves. A clock calls back for a request with its lock held; \<open>clk_locked\<close> says so, and an operation that
  takes the lock in a callback is \<open>None\<close>, a thread that blocks for ever. The requests that an operation of the
  clock fires are in its log, and the callbacks are run in that order after it: they cannot use the lists of the clock,
  which the lock protects.
\<close>

subsection \<open>Constants\<close>

definition MMAL_PORT_CLOCK_BUFFERS_MIN :: u32 where "MMAL_PORT_CLOCK_BUFFERS_MIN = 16"

definition MMAL_CLOCK_EVENT_MAGIC :: u32 where
  "MMAL_CLOCK_EVENT_MAGIC = MMAL_FOURCC CHR ''C'' CHR ''K'' CHR ''L'' CHR ''M''"
definition MMAL_CLOCK_EVENT_REFERENCE :: u32 where
  "MMAL_CLOCK_EVENT_REFERENCE = MMAL_FOURCC CHR ''C'' CHR ''R'' CHR ''E'' CHR ''F''"
definition MMAL_CLOCK_EVENT_ACTIVE :: u32 where
  "MMAL_CLOCK_EVENT_ACTIVE = MMAL_FOURCC CHR ''C'' CHR ''A'' CHR ''C'' CHR ''T''"
definition MMAL_CLOCK_EVENT_SCALE :: u32 where
  "MMAL_CLOCK_EVENT_SCALE = MMAL_FOURCC CHR ''C'' CHR ''S'' CHR ''C'' CHR ''A''"
definition MMAL_CLOCK_EVENT_TIME :: u32 where
  "MMAL_CLOCK_EVENT_TIME = MMAL_FOURCC CHR ''C'' CHR ''T'' CHR ''I'' CHR ''M''"
definition MMAL_CLOCK_EVENT_UPDATE_THRESHOLD :: u32 where
  "MMAL_CLOCK_EVENT_UPDATE_THRESHOLD = MMAL_FOURCC CHR ''C'' CHR ''U'' CHR ''T'' CHR ''H''"
definition MMAL_CLOCK_EVENT_DISCONT_THRESHOLD :: u32 where
  "MMAL_CLOCK_EVENT_DISCONT_THRESHOLD = MMAL_FOURCC CHR ''C'' CHR ''D'' CHR ''T'' CHR ''H''"
definition MMAL_CLOCK_EVENT_REQUEST_THRESHOLD :: u32 where
  "MMAL_CLOCK_EVENT_REQUEST_THRESHOLD = MMAL_FOURCC CHR ''C'' CHR ''R'' CHR ''T'' CHR ''H''"
definition MMAL_CLOCK_EVENT_INPUT_BUFFER_INFO :: u32 where
  "MMAL_CLOCK_EVENT_INPUT_BUFFER_INFO = MMAL_FOURCC CHR ''C'' CHR ''I'' CHR ''B'' CHR ''I''"
definition MMAL_CLOCK_EVENT_OUTPUT_BUFFER_INFO :: u32 where
  "MMAL_CLOCK_EVENT_OUTPUT_BUFFER_INFO = MMAL_FOURCC CHR ''C'' CHR ''O'' CHR ''B'' CHR ''I''"
definition MMAL_CLOCK_EVENT_LATENCY :: u32 where
  "MMAL_CLOCK_EVENT_LATENCY = MMAL_FOURCC CHR ''C'' CHR ''L'' CHR ''A'' CHR ''T''"
definition MMAL_CLOCK_EVENT_INVALID :: u32 where "MMAL_CLOCK_EVENT_INVALID = 0"

text \<open>The size of \<open>MMAL_CLOCK_EVENT_T\<close> on the 32-bit target.\<close>

definition SIZEOF_CLOCK_EVENT :: u32 where "SIZEOF_CLOCK_EVENT = 48"

text \<open>\<open>MMAL_CLOCK_EVENT_INIT\<close>.\<close>

definition clock_event_init :: "u32 \<Rightarrow> clock_event" where
  "clock_event_init i = \<lparr>ce_id = i, ce_magic = MMAL_CLOCK_EVENT_MAGIC, ce_buffer = None, ce_enable = False,
     ce_scale = \<lparr>num = 0, den = 0\<rparr>, ce_media_time = 0, ce_update_threshold = (0, 0),
     ce_discont_threshold = (0, 0), ce_request_threshold = (0, False), ce_info = (0, 0), ce_latency = (0, 0, 0)\<rparr>"

subsection \<open>Access to the clock of a port\<close>

record 'c clock_callbacks =
  clk_event :: "nat \<Rightarrow> addr \<Rightarrow> clock_event \<Rightarrow> 'c mworld \<Rightarrow> 'c mworld option"
  clk_request :: "nat \<Rightarrow> addr \<Rightarrow> int \<Rightarrow> ptr \<Rightarrow> 'c mworld \<Rightarrow> 'c mworld option"

definition clk_at :: "'c mworld \<Rightarrow> addr \<Rightarrow> clock_port" where
  "clk_at m p = clock_ports (modules (env (ctx m))) p"

definition upd_clk :: "addr \<Rightarrow> (clock_port \<Rightarrow> clock_port) \<Rightarrow> 'c mworld \<Rightarrow> 'c mworld" where
  "upd_clk p f = upd_modules (\<lambda>x. x\<lparr>clock_ports := (clock_ports x)(p := f (clock_ports x p))\<rparr>)"

definition clock_event_at :: "'c mworld \<Rightarrow> addr \<Rightarrow> clock_event" where
  "clock_event_at m a = clock_events (modules (env (ctx m))) a"

definition set_clock_event :: "addr \<Rightarrow> clock_event \<Rightarrow> 'c mworld \<Rightarrow> 'c mworld" where
  "set_clock_event a e = upd_modules (\<lambda>x. x\<lparr>clock_events := (clock_events x)(a := e)\<rparr>)"

text \<open>An operation of the clock that does not take its lock, and one that does. The operations get the values of the
  microsecond counter.\<close>

definition clock_call :: "addr \<Rightarrow> (rtc \<Rightarrow> clock \<Rightarrow> ('a \<times> clock) option) \<Rightarrow> 'c mworld \<Rightarrow> ('a \<times> 'c mworld) option" where
  "clock_call p f m = do {
     c \<leftarrow> clk_clock (clk_at m p);
     (r, c) \<leftarrow> f (clk_rtc (clk_at m p)) c;
     Some (r, upd_clk p (\<lambda>x. x\<lparr>clk_clock := Some c\<rparr>) m)
   }"

definition clock_locked :: "addr \<Rightarrow> (rtc \<Rightarrow> clock \<Rightarrow> ('a \<times> clock) option) \<Rightarrow> 'c mworld \<Rightarrow> ('a \<times> 'c mworld) option" where
  "clock_locked p f m = (if clk_locked (clk_at m p) then None else clock_call p f m)"

text \<open>\<open>mmal_port_clock_request_cb\<close>, for the requests that the clock has fired: the function behind
  \<open>priv\<close> is called with the port, the media time and the data of the request.\<close>

definition mmal_port_clock_request_cb ::
    "'c clock_callbacks \<Rightarrow> addr \<Rightarrow> fired_request \<Rightarrow> 'c mworld \<Rightarrow> 'c mworld option" where
  "mmal_port_clock_request_cb cbs p r m = Option.bind (f_priv r) (\<lambda>cb. clk_request cbs cb p (f_time r) (f_data r) m)"

fun run_requests :: "'c clock_callbacks \<Rightarrow> addr \<Rightarrow> fired_request list \<Rightarrow> 'c mworld \<Rightarrow> 'c mworld option" where
  "run_requests cbs p [] m = Some m"
| "run_requests cbs p (r # rs) m = Option.bind (mmal_port_clock_request_cb cbs p r m) (run_requests cbs p rs)"

text \<open>An operation that fires requests.\<close>

definition clock_firing ::
    "'c clock_callbacks \<Rightarrow> addr \<Rightarrow> (rtc \<Rightarrow> clock \<Rightarrow> ('a \<times> clock) option) \<Rightarrow> 'c mworld \<Rightarrow> ('a \<times> 'c mworld) option" where
  "clock_firing cbs p f m = do {
     c \<leftarrow> clk_clock (clk_at m p);
     (r, m) \<leftarrow> clock_locked p f m;
     c' \<leftarrow> clk_clock (clk_at m p);
     m \<leftarrow> run_requests cbs p (drop (length (fired c)) (fired c')) (upd_clk p (\<lambda>x. x\<lparr>clk_locked := True\<rparr>) m);
     Some (r, upd_clk p (\<lambda>x. x\<lparr>clk_locked := False\<rparr>) m)
   }"

text \<open>A round of the thread of the clock; the result is whether it ran.\<close>

definition clock_worker_round :: "'c clock_callbacks \<Rightarrow> addr \<Rightarrow> 'c mworld \<Rightarrow> (bool \<times> 'c mworld) option" where
  "clock_worker_round cbs p = clock_firing cbs p (\<lambda>rtc c.
     map_option (\<lambda>w. case w of WorkerWaits \<Rightarrow> (False, c) | WorkerRan _ c \<Rightarrow> (True, c)) (mmal_clock_worker_thread rtc c))"

subsection \<open>The queue of empty buffers\<close>

definition clock_get :: "addr \<Rightarrow> 'c mworld \<Rightarrow> (ptr \<times> 'c mworld) option" where
  "clock_get p m = do {
     (buffer, q) \<leftarrow> mmal_queue_get (clk_queue (clk_at m p)) (bufs m);
     Some (buffer, upd_clk p (\<lambda>r. r\<lparr>clk_queue := q\<rparr>) m)
   }"

definition clock_put :: "addr \<Rightarrow> addr \<Rightarrow> 'c mworld \<Rightarrow> 'c mworld" where
  "clock_put p b m =
     (let (q, h) = mmal_queue_put (clk_queue (clk_at m p)) (bufs m) (Some b)
      in upd_clk p (\<lambda>r. r\<lparr>clk_queue := q\<rparr>) (m\<lparr>bufs := h\<rparr>))"

definition clock_put_back :: "addr \<Rightarrow> addr \<Rightarrow> 'c mworld \<Rightarrow> 'c mworld" where
  "clock_put_back p b m =
     (let (q, h) = mmal_queue_put_back (clk_queue (clk_at m p)) (bufs m) (Some b)
      in upd_clk p (\<lambda>r. r\<lparr>clk_queue := q\<rparr>) (m\<lparr>bufs := h\<rparr>))"

subsection \<open>Buffers from other clock ports\<close>

text \<open>The change that an event stands for.\<close>

definition clock_event_apply :: "addr \<Rightarrow> clock_event \<Rightarrow> 'c mworld \<Rightarrow> (mmal_status \<times> 'c mworld) option" where
  "clock_event_apply p event m =
     (if ce_id event = MMAL_CLOCK_EVENT_ACTIVE
      then clock_call p (\<lambda>rtc c. Some (mmal_clock_active_set (ce_enable event) c)) m
      else if ce_id event = MMAL_CLOCK_EVENT_TIME
      then clock_locked p (\<lambda>rtc c. Some (mmal_clock_media_time_set rtc (ce_media_time event) c)) m
      else if ce_id event = MMAL_CLOCK_EVENT_SCALE
      then clock_locked p (\<lambda>rtc c. Some (mmal_clock_scale_set rtc (ce_scale event) c)) m
      else if ce_id event = MMAL_CLOCK_EVENT_UPDATE_THRESHOLD
      then clock_locked p (\<lambda>rtc c. Some (mmal_clock_update_threshold_set (ce_update_threshold event) c)) m
      else if ce_id event = MMAL_CLOCK_EVENT_DISCONT_THRESHOLD
      then clock_locked p (\<lambda>rtc c. Some (mmal_clock_discont_threshold_set (ce_discont_threshold event) c)) m
      else if ce_id event = MMAL_CLOCK_EVENT_REQUEST_THRESHOLD
      then clock_locked p (\<lambda>rtc c. Some (mmal_clock_request_threshold_set (ce_request_threshold event) c)) m
      else if ce_id event = MMAL_CLOCK_EVENT_INPUT_BUFFER_INFO \<or> ce_id event = MMAL_CLOCK_EVENT_OUTPUT_BUFFER_INFO
      then Some (MMAL_SUCCESS, m)
      else Some (MMAL_EINVAL, m))"

definition mmal_port_clock_process_buffer ::
    "'c module_env port_ops \<Rightarrow> 'c clock_callbacks \<Rightarrow> addr \<Rightarrow> addr \<Rightarrow> 'c mworld \<Rightarrow> (mmal_status \<times> 'c mworld) option" where
  "mmal_port_clock_process_buffer ops cbs p b m =
     (if bh_length (bufs m b) \<noteq> SIZEOF_CLOCK_EVENT then Some (MMAL_EINVAL, m)
      else do {
        let m = snd (mmal_buffer_header_mem_lock b m);
        a \<leftarrow> bh_data (bufs m b);
        let event = clock_event_at m a;
        let m = mmal_buffer_header_mem_unlock b m;
        if ce_magic event \<noteq> MMAL_CLOCK_EVENT_MAGIC
        then map_option (Pair MMAL_EINVAL)
               (mmal_port_buffer_header_callback ops p b (upd_buf b (\<lambda>r. r\<lparr>bh_length := 0\<rparr>) m))
        else do {
          (status, m) \<leftarrow> clock_event_apply p event m;
          (case (clk_event_cb (clk_at m p), status) of
             (Some cb, MMAL_SUCCESS) \<Rightarrow>
               map_option (Pair status) (clk_event cbs cb p (event\<lparr>ce_buffer := Some b\<rparr>) m)
           | _ \<Rightarrow> map_option (Pair status)
                    (mmal_port_buffer_header_callback ops p b (upd_buf b (\<lambda>r. r\<lparr>bh_length := 0\<rparr>) m)))
        }
      })"

definition mmal_port_clock_send ::
    "'c module_env port_ops \<Rightarrow> 'c clock_callbacks \<Rightarrow> addr \<Rightarrow> addr \<Rightarrow> 'c mworld \<Rightarrow> (mmal_status \<times> 'c mworld) option" where
  "mmal_port_clock_send ops cbs p b m =
     (if bh_length (bufs m b) \<noteq> 0 then mmal_port_clock_process_buffer ops cbs p b m
      else Some (MMAL_SUCCESS, clock_put p b m))"

partial_function (option) clock_flush_loop :: "'c module_env port_ops \<Rightarrow> addr \<Rightarrow> 'c mworld \<Rightarrow> 'c mworld option" where
  "clock_flush_loop ops p m =
     Option.bind (clock_get p m) (\<lambda>r.
       if fst r = None then Some (snd r)
       else Option.bind (mmal_port_buffer_header_callback ops p (the (fst r)) (snd r)) (clock_flush_loop ops p))"

definition mmal_port_clock_flush ::
    "'c module_env port_ops \<Rightarrow> addr \<Rightarrow> 'c mworld \<Rightarrow> (mmal_status \<times> 'c mworld) option" where
  "mmal_port_clock_flush ops p m = map_option (Pair MMAL_SUCCESS) (clock_flush_loop ops p m)"

subsection \<open>Sending events\<close>

definition mmal_port_clock_forward_event ::
    "'c module_env port_ops \<Rightarrow> addr \<Rightarrow> clock_event \<Rightarrow> 'c mworld \<Rightarrow> (mmal_status \<times> 'c mworld) option" where
  "mmal_port_clock_forward_event ops p event m = do {
     (buffer, m) \<leftarrow> clock_get p m;
     (case buffer of
        None \<Rightarrow> Some (MMAL_ENOSPC, m)
      | Some b \<Rightarrow>
          let (status, m) = mmal_buffer_header_mem_lock b m in
          if status \<noteq> MMAL_SUCCESS then Some (status, clock_put_back p b m)
          else do {
            let m = upd_buf b (\<lambda>r. r\<lparr>bh_length := SIZEOF_CLOCK_EVENT\<rparr>) m;
            a \<leftarrow> bh_data (bufs m b);
            let m = mmal_buffer_header_mem_unlock b (set_clock_event a event m);
            map_option (Pair status) (mmal_port_buffer_header_callback ops p b m)
          })
   }"

text \<open>Of the event that the following functions send, only the identifier, the magic number and the member of the
  union that they set are read by anybody.\<close>

definition mmal_port_clock_forward_active_state ::
    "'c module_env port_ops \<Rightarrow> addr \<Rightarrow> bool \<Rightarrow> 'c mworld \<Rightarrow> (mmal_status \<times> 'c mworld) option" where
  "mmal_port_clock_forward_active_state ops p active =
     mmal_port_clock_forward_event ops p ((clock_event_init MMAL_CLOCK_EVENT_ACTIVE)\<lparr>ce_enable := active\<rparr>)"

definition mmal_port_clock_forward_scale ::
    "'c module_env port_ops \<Rightarrow> addr \<Rightarrow> mmal_rational \<Rightarrow> 'c mworld \<Rightarrow> (mmal_status \<times> 'c mworld) option" where
  "mmal_port_clock_forward_scale ops p scale =
     mmal_port_clock_forward_event ops p ((clock_event_init MMAL_CLOCK_EVENT_SCALE)\<lparr>ce_scale := scale\<rparr>)"

definition mmal_port_clock_forward_media_time ::
    "'c module_env port_ops \<Rightarrow> addr \<Rightarrow> int \<Rightarrow> 'c mworld \<Rightarrow> (mmal_status \<times> 'c mworld) option" where
  "mmal_port_clock_forward_media_time ops p media_time =
     mmal_port_clock_forward_event ops p ((clock_event_init MMAL_CLOCK_EVENT_TIME)\<lparr>ce_media_time := media_time\<rparr>)"

definition mmal_port_clock_forward_update_threshold ::
    "'c module_env port_ops \<Rightarrow> addr \<Rightarrow> int \<times> int \<Rightarrow> 'c mworld \<Rightarrow> (mmal_status \<times> 'c mworld) option" where
  "mmal_port_clock_forward_update_threshold ops p threshold =
     mmal_port_clock_forward_event ops p
       ((clock_event_init MMAL_CLOCK_EVENT_UPDATE_THRESHOLD)\<lparr>ce_update_threshold := threshold\<rparr>)"

definition mmal_port_clock_forward_discont_threshold ::
    "'c module_env port_ops \<Rightarrow> addr \<Rightarrow> int \<times> int \<Rightarrow> 'c mworld \<Rightarrow> (mmal_status \<times> 'c mworld) option" where
  "mmal_port_clock_forward_discont_threshold ops p threshold =
     mmal_port_clock_forward_event ops p
       ((clock_event_init MMAL_CLOCK_EVENT_DISCONT_THRESHOLD)\<lparr>ce_discont_threshold := threshold\<rparr>)"

definition mmal_port_clock_forward_request_threshold ::
    "'c module_env port_ops \<Rightarrow> addr \<Rightarrow> int \<times> bool \<Rightarrow> 'c mworld \<Rightarrow> (mmal_status \<times> 'c mworld) option" where
  "mmal_port_clock_forward_request_threshold ops p threshold =
     mmal_port_clock_forward_event ops p
       ((clock_event_init MMAL_CLOCK_EVENT_REQUEST_THRESHOLD)\<lparr>ce_request_threshold := threshold\<rparr>)"

definition mmal_port_clock_forward_input_buffer_info ::
    "'c module_env port_ops \<Rightarrow> addr \<Rightarrow> int \<times> u32 \<Rightarrow> 'c mworld \<Rightarrow> (mmal_status \<times> 'c mworld) option" where
  "mmal_port_clock_forward_input_buffer_info ops p info =
     mmal_port_clock_forward_event ops p ((clock_event_init MMAL_CLOCK_EVENT_INPUT_BUFFER_INFO)\<lparr>ce_info := info\<rparr>)"

definition mmal_port_clock_forward_output_buffer_info ::
    "'c module_env port_ops \<Rightarrow> addr \<Rightarrow> int \<times> u32 \<Rightarrow> 'c mworld \<Rightarrow> (mmal_status \<times> 'c mworld) option" where
  "mmal_port_clock_forward_output_buffer_info ops p info =
     mmal_port_clock_forward_event ops p ((clock_event_init MMAL_CLOCK_EVENT_OUTPUT_BUFFER_INFO)\<lparr>ce_info := info\<rparr>)"

subsection \<open>The settings of the clock\<close>

text \<open>A change of the clock that the port, when it is the reference, forwards.\<close>

definition set_and_forward ::
    "addr \<Rightarrow> ('c mworld \<Rightarrow> (mmal_status \<times> 'c mworld) option) \<Rightarrow> ('c mworld \<Rightarrow> (mmal_status \<times> 'c mworld) option)
      \<Rightarrow> 'c mworld \<Rightarrow> (mmal_status \<times> 'c mworld) option" where
  "set_and_forward p change forward m = do {
     (status, m) \<leftarrow> change m;
     if status \<noteq> MMAL_SUCCESS then Some (status, m)
     else if is_reference (clk_at m p) then forward m
     else Some (status, m)
   }"

definition mmal_port_clock_reference_set :: "addr \<Rightarrow> bool \<Rightarrow> 'c mworld \<Rightarrow> mmal_status \<times> 'c mworld" where
  "mmal_port_clock_reference_set p enable m = (MMAL_SUCCESS, upd_clk p (\<lambda>r. r\<lparr>is_reference := enable\<rparr>) m)"

definition mmal_port_clock_reference_get :: "addr \<Rightarrow> 'c mworld \<Rightarrow> bool" where
  "mmal_port_clock_reference_get p m = is_reference (clk_at m p)"

definition mmal_port_clock_active_set ::
    "'c module_env port_ops \<Rightarrow> addr \<Rightarrow> bool \<Rightarrow> 'c mworld \<Rightarrow> (mmal_status \<times> 'c mworld) option" where
  "mmal_port_clock_active_set ops p active =
     set_and_forward p (clock_call p (\<lambda>rtc c. Some (mmal_clock_active_set active c)))
       (mmal_port_clock_forward_active_state ops p active)"

definition mmal_port_clock_active_get :: "addr \<Rightarrow> 'c mworld \<Rightarrow> bool option" where
  "mmal_port_clock_active_get p m = map_option mmal_clock_is_active (clk_clock (clk_at m p))"

definition mmal_port_clock_scale_set ::
    "'c module_env port_ops \<Rightarrow> addr \<Rightarrow> mmal_rational \<Rightarrow> 'c mworld \<Rightarrow> (mmal_status \<times> 'c mworld) option" where
  "mmal_port_clock_scale_set ops p scale =
     set_and_forward p (clock_locked p (\<lambda>rtc c. Some (mmal_clock_scale_set rtc scale c)))
       (mmal_port_clock_forward_scale ops p scale)"

definition mmal_port_clock_scale_get :: "addr \<Rightarrow> 'c mworld \<Rightarrow> (mmal_rational \<times> 'c mworld) option" where
  "mmal_port_clock_scale_get p = clock_locked p (\<lambda>rtc c. Some (mmal_clock_scale_get c, c))"

definition mmal_port_clock_media_time_set ::
    "'c module_env port_ops \<Rightarrow> addr \<Rightarrow> int \<Rightarrow> 'c mworld \<Rightarrow> (mmal_status \<times> 'c mworld) option" where
  "mmal_port_clock_media_time_set ops p media_time =
     set_and_forward p (clock_locked p (\<lambda>rtc c. Some (mmal_clock_media_time_set rtc media_time c)))
       (mmal_port_clock_forward_media_time ops p media_time)"

definition mmal_port_clock_media_time_get :: "addr \<Rightarrow> 'c mworld \<Rightarrow> (int \<times> 'c mworld) option" where
  "mmal_port_clock_media_time_get p = clock_locked p (\<lambda>rtc c. Some (mmal_clock_media_time_get rtc c))"

definition mmal_port_clock_update_threshold_set ::
    "'c module_env port_ops \<Rightarrow> addr \<Rightarrow> int \<times> int \<Rightarrow> 'c mworld \<Rightarrow> (mmal_status \<times> 'c mworld) option" where
  "mmal_port_clock_update_threshold_set ops p threshold =
     set_and_forward p (clock_locked p (\<lambda>rtc c. Some (mmal_clock_update_threshold_set threshold c)))
       (mmal_port_clock_forward_update_threshold ops p threshold)"

definition mmal_port_clock_update_threshold_get ::
    "addr \<Rightarrow> 'c mworld \<Rightarrow> ((mmal_status \<times> int \<times> int) \<times> 'c mworld) option" where
  "mmal_port_clock_update_threshold_get p = clock_locked p (\<lambda>rtc c. Some (mmal_clock_update_threshold_get c, c))"

definition mmal_port_clock_discont_threshold_set ::
    "'c module_env port_ops \<Rightarrow> addr \<Rightarrow> int \<times> int \<Rightarrow> 'c mworld \<Rightarrow> (mmal_status \<times> 'c mworld) option" where
  "mmal_port_clock_discont_threshold_set ops p threshold =
     set_and_forward p (clock_locked p (\<lambda>rtc c. Some (mmal_clock_discont_threshold_set threshold c)))
       (mmal_port_clock_forward_discont_threshold ops p threshold)"

definition mmal_port_clock_discont_threshold_get ::
    "addr \<Rightarrow> 'c mworld \<Rightarrow> ((mmal_status \<times> int \<times> int) \<times> 'c mworld) option" where
  "mmal_port_clock_discont_threshold_get p = clock_locked p (\<lambda>rtc c. Some (mmal_clock_discont_threshold_get c, c))"

definition mmal_port_clock_request_threshold_set ::
    "'c module_env port_ops \<Rightarrow> addr \<Rightarrow> int \<times> bool \<Rightarrow> 'c mworld \<Rightarrow> (mmal_status \<times> 'c mworld) option" where
  "mmal_port_clock_request_threshold_set ops p threshold =
     set_and_forward p (clock_locked p (\<lambda>rtc c. Some (mmal_clock_request_threshold_set threshold c)))
       (mmal_port_clock_forward_request_threshold ops p threshold)"

definition mmal_port_clock_request_threshold_get ::
    "addr \<Rightarrow> 'c mworld \<Rightarrow> ((mmal_status \<times> int \<times> bool) \<times> 'c mworld) option" where
  "mmal_port_clock_request_threshold_get p = clock_locked p (\<lambda>rtc c. Some (mmal_clock_request_threshold_get c, c))"

definition mmal_port_clock_input_buffer_info ::
    "'c module_env port_ops \<Rightarrow> addr \<Rightarrow> int \<times> u32 \<Rightarrow> 'c mworld \<Rightarrow> 'c mworld option" where
  "mmal_port_clock_input_buffer_info ops p info m =
     (if buffer_info_reporting (clk_at m p)
      then map_option snd (mmal_port_clock_forward_input_buffer_info ops p info m) else Some m)"

definition mmal_port_clock_output_buffer_info ::
    "'c module_env port_ops \<Rightarrow> addr \<Rightarrow> int \<times> u32 \<Rightarrow> 'c mworld \<Rightarrow> 'c mworld option" where
  "mmal_port_clock_output_buffer_info ops p info m =
     (if buffer_info_reporting (clk_at m p)
      then map_option snd (mmal_port_clock_forward_output_buffer_info ops p info m) else Some m)"

subsection \<open>Functions of clock ports\<close>

definition clock_port_fn :: nat where "clock_port_fn = 50"

text \<open>The component is told of a change.\<close>

definition notify_component ::
    "'c clock_callbacks \<Rightarrow> addr \<Rightarrow> clock_event \<Rightarrow> mmal_status \<times> 'c mworld \<Rightarrow> (mmal_status \<times> 'c mworld) option" where
  "notify_component cbs p event = (\<lambda>(status, m).
     case (clk_event_cb (clk_at m p), status) of
       (Some cb, MMAL_SUCCESS) \<Rightarrow> map_option (Pair status) (clk_event cbs cb p event m)
     | _ \<Rightarrow> Some (status, m))"

definition mmal_port_clock_parameter_set ::
    "'c module_env port_ops \<Rightarrow> 'c clock_callbacks \<Rightarrow> addr \<Rightarrow> mmal_param \<Rightarrow> 'c mworld \<Rightarrow> (mmal_status \<times> 'c mworld) option" where
  "mmal_port_clock_parameter_set ops cbs p param m =
     (case param of
        ParamClockReference x \<Rightarrow>
          notify_component cbs p ((clock_event_init MMAL_CLOCK_EVENT_REFERENCE)\<lparr>ce_enable := x\<rparr>)
            (mmal_port_clock_reference_set p x m)
      | ParamClockActive x \<Rightarrow>
          Option.bind (mmal_port_clock_active_set ops p x m)
            (notify_component cbs p ((clock_event_init MMAL_CLOCK_EVENT_ACTIVE)\<lparr>ce_enable := x\<rparr>))
      | ParamClockScale x \<Rightarrow>
          Option.bind (mmal_port_clock_scale_set ops p x m)
            (notify_component cbs p ((clock_event_init MMAL_CLOCK_EVENT_SCALE)\<lparr>ce_scale := x\<rparr>))
      | ParamClockTime x \<Rightarrow>
          Option.bind (mmal_port_clock_media_time_set ops p x m)
            (notify_component cbs p ((clock_event_init MMAL_CLOCK_EVENT_TIME)\<lparr>ce_media_time := x\<rparr>))
      | ParamClockUpdateThreshold x y \<Rightarrow>
          Option.bind (mmal_port_clock_update_threshold_set ops p (x, y) m)
            (notify_component cbs p ((clock_event_init MMAL_CLOCK_EVENT_UPDATE_THRESHOLD)\<lparr>ce_update_threshold := (x, y)\<rparr>))
      | ParamClockDiscontThreshold x y \<Rightarrow>
          Option.bind (mmal_port_clock_discont_threshold_set ops p (x, y) m)
            (notify_component cbs p ((clock_event_init MMAL_CLOCK_EVENT_DISCONT_THRESHOLD)\<lparr>ce_discont_threshold := (x, y)\<rparr>))
      | ParamClockRequestThreshold x y \<Rightarrow>
          Option.bind (mmal_port_clock_request_threshold_set ops p (x, y) m)
            (notify_component cbs p ((clock_event_init MMAL_CLOCK_EVENT_REQUEST_THRESHOLD)\<lparr>ce_request_threshold := (x, y)\<rparr>))
      | ParamClockEnableBufferInfo x \<Rightarrow> Some (MMAL_SUCCESS, upd_clk p (\<lambda>r. r\<lparr>buffer_info_reporting := x\<rparr>) m)
      | _ \<Rightarrow> Some (MMAL_ENOSYS, m))"

definition mmal_port_clock_parameter_get ::
    "addr \<Rightarrow> mmal_param \<Rightarrow> 'c mworld \<Rightarrow> (mmal_status \<times> mmal_param \<times> 'c mworld) option" where
  "mmal_port_clock_parameter_get p param m =
     (case param of
        ParamClockReference _ \<Rightarrow> Some (MMAL_SUCCESS, ParamClockReference (is_reference (clk_at m p)), m)
      | ParamClockActive _ \<Rightarrow>
          map_option (\<lambda>c. (MMAL_SUCCESS, ParamClockActive (mmal_clock_is_active c), m)) (clk_clock (clk_at m p))
      | ParamClockScale _ \<Rightarrow>
          map_option (\<lambda>(x, m). (MMAL_SUCCESS, ParamClockScale x, m)) (mmal_port_clock_scale_get p m)
      | ParamClockTime _ \<Rightarrow>
          map_option (\<lambda>(x, m). (MMAL_SUCCESS, ParamClockTime x, m)) (mmal_port_clock_media_time_get p m)
      | ParamClockUpdateThreshold _ _ \<Rightarrow>
          map_option (\<lambda>((status, x, y), m). (status, ParamClockUpdateThreshold x y, m))
            (mmal_port_clock_update_threshold_get p m)
      | ParamClockDiscontThreshold _ _ \<Rightarrow>
          map_option (\<lambda>((status, x, y), m). (status, ParamClockDiscontThreshold x y, m))
            (mmal_port_clock_discont_threshold_get p m)
      | ParamClockRequestThreshold _ _ \<Rightarrow>
          map_option (\<lambda>((status, x, y), m). (status, ParamClockRequestThreshold x y, m))
            (mmal_port_clock_request_threshold_get p m)
      | ParamClockEnableBufferInfo _ \<Rightarrow>
          Some (MMAL_SUCCESS, ParamClockEnableBufferInfo (buffer_info_reporting (clk_at m p)), m)
      | _ \<Rightarrow> Some (MMAL_ENOSYS, param, m))"

definition mmal_port_clock_enable :: "addr \<Rightarrow> port_cb option \<Rightarrow> mmal_status" where
  "mmal_port_clock_enable p cb = MMAL_SUCCESS"

definition mmal_port_clock_disable ::
    "'c module_env port_ops \<Rightarrow> addr \<Rightarrow> 'c mworld \<Rightarrow> (mmal_status \<times> 'c mworld) option" where
  "mmal_port_clock_disable ops p m = do {
     active \<leftarrow> mmal_port_clock_active_get p m;
     m \<leftarrow> (if active then map_option snd (clock_call p (\<lambda>rtc c. Some (mmal_clock_active_set False c)) m) else Some m);
     (_, m) \<leftarrow> mmal_port_clock_flush ops p m;
     Some (MMAL_SUCCESS, m)
   }"

definition mmal_port_clock_set_format :: "addr \<Rightarrow> mmal_status" where
  "mmal_port_clock_set_format p = MMAL_SUCCESS"

definition mmal_port_clock_connect :: "addr \<Rightarrow> ptr \<Rightarrow> mmal_status" where
  "mmal_port_clock_connect p other = MMAL_ENOSYS"

definition clock_ops :: "'c clock_callbacks \<Rightarrow> 'c module_env port_ops \<Rightarrow> 'c module_env port_ops" where
  "clock_ops cbs ops = ops\<lparr>
     f_enable := (\<lambda>f p cb m. if f = clock_port_fn then Some (mmal_port_clock_enable p cb, m) else f_enable ops f p cb m),
     f_disable := (\<lambda>f p m. if f = clock_port_fn then mmal_port_clock_disable ops p m else f_disable ops f p m),
     f_flush := (\<lambda>f p m. if f = clock_port_fn then mmal_port_clock_flush ops p m else f_flush ops f p m),
     f_send := (\<lambda>f p b m. if f = clock_port_fn then mmal_port_clock_send ops cbs p b m else f_send ops f p b m),
     f_set_format := (\<lambda>f p m. if f = clock_port_fn then Some (mmal_port_clock_set_format p, m) else f_set_format ops f p m),
     f_connect := (\<lambda>f p q m. if f = clock_port_fn then Some (mmal_port_clock_connect p q, m) else f_connect ops f p q m),
     f_parameter_set := (\<lambda>f p x m. if f = clock_port_fn then mmal_port_clock_parameter_set ops cbs p x m
                                   else f_parameter_set ops f p x m),
     f_parameter_get := (\<lambda>f p x m. if f = clock_port_fn then mmal_port_clock_parameter_get p x m
                                   else f_parameter_get ops f p x m)\<rparr>"

subsection \<open>Allocation\<close>

text \<open>\<open>mmal_clock_destroy\<close>; the clock is gone afterwards.\<close>

definition destroy_clock :: "'c clock_callbacks \<Rightarrow> addr \<Rightarrow> 'c mworld \<Rightarrow> 'c mworld option" where
  "destroy_clock cbs p m = do {
     c \<leftarrow> clk_clock (clk_at m p);
     (_, m) \<leftarrow> (if scheduling c then clock_firing cbs p mmal_clock_destroy m else clock_call p mmal_clock_destroy m);
     Some (upd_clk p (\<lambda>r. r\<lparr>clk_clock := None\<rparr>) m)
   }"

text \<open>The context of the port is part of the memory of the port, which is cleared when the port is allocated.\<close>

definition zero_context :: "clock_port \<Rightarrow> clock_port" where
  "zero_context r = r\<lparr>clk_event_cb := None, clk_queue := None, clk_clock := None, is_reference := False,
     buffer_info_reporting := False, clk_locked := False\<rparr>"

definition clock_port_setup :: "mmal_port \<Rightarrow> mmal_port" where
  "clock_port_setup r = r\<lparr>pf_set_format := Some clock_port_fn, pf_enable := Some clock_port_fn,
     pf_disable := Some clock_port_fn, pf_send := Some clock_port_fn, pf_flush := Some clock_port_fn,
     pf_parameter_set := Some clock_port_fn, pf_parameter_get := Some clock_port_fn, pf_connect := Some clock_port_fn\<rparr>"

definition mmal_port_clock_setup ::
    "'c module_env port_ops \<Rightarrow> 'c clock_callbacks \<Rightarrow> nat option \<Rightarrow> addr \<Rightarrow> 'c mworld \<Rightarrow> (mmal_status \<times> 'c mworld) option" where
  "mmal_port_clock_setup ops cbs event_cb p m =
     (let m = upd_clk p zero_context m;
          (block, e) = core_malloc (env (ctx m));
          (mutex, e) = (if block = None then (False, e) else sync_create e);
          m = set_env e m;
          (status, c) = mmal_clock_create (clk_rtc (clk_at m p)) 0 True (block \<noteq> None) mutex
      in if status \<noteq> MMAL_SUCCESS then Some (status, m)
      else
        let m = upd_clk p (\<lambda>r. r\<lparr>clk_clock := c\<rparr>) m;
            m = upd_port p (\<lambda>r. r\<lparr>buffer_size := SIZEOF_CLOCK_EVENT, buffer_size_min := SIZEOF_CLOCK_EVENT,
                  buffer_num_min := MMAL_PORT_CLOCK_BUFFERS_MIN,
                  buffer_num_recommended := MMAL_PORT_CLOCK_BUFFERS_MIN\<rparr>) m;
            (b1, b2, b3) = queue_parts_ok ops (env (ctx m));
            q = mmal_queue_create b1 b2 b3;
            m = upd_clk p (\<lambda>r. r\<lparr>clk_event_cb := event_cb, clk_queue := q\<rparr>) m
        in if q = None then map_option (Pair MMAL_ENOMEM) (destroy_clock cbs p m)
        else Some (MMAL_SUCCESS, upd_port p clock_port_setup m))"

definition mmal_port_clock_teardown :: "'c clock_callbacks \<Rightarrow> ptr \<Rightarrow> 'c mworld \<Rightarrow> 'c mworld option" where
  "mmal_port_clock_teardown cbs port m =
     (case port of
        None \<Rightarrow> Some m
      | Some p \<Rightarrow> destroy_clock cbs p (upd_clk p (\<lambda>r. r\<lparr>clk_queue := mmal_queue_destroy (clk_queue r)\<rparr>) m))"

definition mmal_port_clock_alloc ::
    "'c module_env port_ops \<Rightarrow> 'c clock_callbacks \<Rightarrow> addr \<Rightarrow> nat option \<Rightarrow> 'c mworld \<Rightarrow> (ptr \<times> 'c mworld) option" where
  "mmal_port_clock_alloc ops cbs c event_cb m =
     (case mmal_port_alloc c MMAL_PORT_TYPE_CLOCK m of
        (None, m) \<Rightarrow> Some (None, m)
      | (Some p, m) \<Rightarrow> do {
          (status, m) \<leftarrow> mmal_port_clock_setup ops cbs event_cb p m;
          if status \<noteq> MMAL_SUCCESS then map_option (Pair None) (mmal_port_free (Some p) m) else Some (Some p, m)
        })"

definition mmal_port_clock_free :: "'c clock_callbacks \<Rightarrow> ptr \<Rightarrow> 'c mworld \<Rightarrow> 'c mworld option" where
  "mmal_port_clock_free cbs port m = Option.bind (mmal_port_clock_teardown cbs port m) (mmal_port_free port)"

fun clock_free_ports :: "'c clock_callbacks \<Rightarrow> addr list \<Rightarrow> 'c mworld \<Rightarrow> 'c mworld option" where
  "clock_free_ports cbs [] m = Some m"
| "clock_free_ports cbs (p # ps) m = Option.bind (mmal_port_clock_free cbs (Some p) m) (clock_free_ports cbs ps)"

text \<open>The loop that sets up the ports of an array; the result is the number of ports that are set up.\<close>

fun clock_setup_ports ::
    "'c module_env port_ops \<Rightarrow> 'c clock_callbacks \<Rightarrow> nat option \<Rightarrow> nat \<Rightarrow> addr list \<Rightarrow> 'c mworld \<Rightarrow> (nat \<times> 'c mworld) option" where
  "clock_setup_ports ops cbs event_cb i [] m = Some (i, m)"
| "clock_setup_ports ops cbs event_cb i (p # ps) m = do {
     (status, m) \<leftarrow> mmal_port_clock_setup ops cbs event_cb p m;
     if status \<noteq> MMAL_SUCCESS then Some (i, m) else clock_setup_ports ops cbs event_cb (i + 1) ps m
   }"

definition mmal_ports_clock_alloc ::
    "'c module_env port_ops \<Rightarrow> 'c clock_callbacks \<Rightarrow> addr \<Rightarrow> nat \<Rightarrow> nat option \<Rightarrow> 'c mworld
      \<Rightarrow> ((addr \<times> addr list) option \<times> 'c mworld) option" where
  "mmal_ports_clock_alloc ops cbs c ports_num event_cb m = do {
     (array, m) \<leftarrow> mmal_ports_alloc c ports_num MMAL_PORT_TYPE_CLOCK m;
     (case array of
        None \<Rightarrow> Some (None, m)
      | Some (a, ps) \<Rightarrow> do {
          (i, m) \<leftarrow> clock_setup_ports ops cbs event_cb 0 ps m;
          if i \<noteq> ports_num
          then map_option (\<lambda>m. (None, upd_env (core_free a) m)) (clock_free_ports cbs (take i ps) m)
          else Some (Some (a, ps), m)
        })
   }"

definition mmal_ports_clock_free :: "'c clock_callbacks \<Rightarrow> addr \<Rightarrow> addr list \<Rightarrow> 'c mworld \<Rightarrow> 'c mworld option" where
  "mmal_ports_clock_free cbs a ps m = map_option (upd_env (core_free a)) (clock_free_ports cbs ps m)"

subsection \<open>Requests\<close>

definition mmal_port_clock_request_add ::
    "addr \<Rightarrow> int \<Rightarrow> nat \<Rightarrow> ptr \<Rightarrow> 'c mworld \<Rightarrow> (mmal_status \<times> 'c mworld) option" where
  "mmal_port_clock_request_add p media_time cb cb_data m =
     clock_locked p (\<lambda>rtc c. mmal_clock_request_add rtc (clk_creations (clk_at m p) (ticks c)) media_time
       clock_port_fn cb_data (Some cb) c) m"

definition mmal_port_clock_request_flush ::
    "'c clock_callbacks \<Rightarrow> addr \<Rightarrow> 'c mworld \<Rightarrow> (mmal_status \<times> 'c mworld) option" where
  "mmal_port_clock_request_flush cbs p = clock_firing cbs p (\<lambda>rtc. mmal_clock_request_flush)"

end
