(* ===== verification/ClockSync.thy ===== *)
theory ClockSync
  imports ClockPort
begin

text \<open>
  What clock ports guarantee: a change made on a reference port is made on the clock that gets its event, disabling a
  port stops the clock and returns its buffers, flushing the requests calls back for each of them; and what a
  corrupted event does to the count of the buffers in transit.
\<close>

lemma clk_simps [simp]:
  "bufs (upd_clk p f m) = bufs m" "port_at (upd_clk p f m) = port_at m" "component_at (upd_clk p f m) = component_at m"
  "pool_at (upd_clk p f m) = pool_at m" "pmod_at (upd_clk p f m) = pmod_at m" "cmod_at (upd_clk p f m) = cmod_at m"
  "client_of (upd_clk p f m) = client_of m" "clk_at (upd_clk p f m) = (clk_at m)(p := f (clk_at m p))"
  "clock_event_at (upd_clk p f m) = clock_event_at m"
  "bufs (set_clock_event a e m) = bufs m" "port_at (set_clock_event a e m) = port_at m"
  "component_at (set_clock_event a e m) = component_at m" "pmod_at (set_clock_event a e m) = pmod_at m"
  "cmod_at (set_clock_event a e m) = cmod_at m" "client_of (set_clock_event a e m) = client_of m"
  "clk_at (set_clock_event a e m) = clk_at m" "clock_event_at (set_clock_event a e m) = (clock_event_at m)(a := e)"
  "clk_at (upd_port p g m) = clk_at m" "clk_at (upd_buf b h m) = clk_at m" "clk_at (m\<lparr>bufs := bs\<rparr>) = clk_at m"
  "clk_at (upd_client d m) = clk_at m" "clk_at (upd_cmod c k m) = clk_at m" "clk_at (upd_pmod p l m) = clk_at m"
  "clk_at (upd_component c i m) = clk_at m"
  "clock_event_at (upd_port p g m) = clock_event_at m" "clock_event_at (upd_buf b h m) = clock_event_at m"
  "clock_event_at (upd_client d m) = clock_event_at m"
  by (simp_all add: clk_at_def upd_clk_def clock_event_at_def set_clock_event_def module_defs upd_buf_def fun_eq_iff)

lemma clk_note [simp]:
  "clk_at (note_buffer p b m) = clk_at m" "clock_event_at (note_buffer p b m) = clock_event_at m"
  by (simp_all add: note_buffer_def)

lemma got_clk [simp]: "got p (upd_clk q f m) = got p m" "got p (set_clock_event a e m) = got p m"
  by (simp_all add: got_def)

subsection \<open>The queue of empty buffers\<close>

definition clock_holds :: "addr \<Rightarrow> 'c mworld \<Rightarrow> addr list \<Rightarrow> bool" where
  "clock_holds p m xs \<longleftrightarrow> (\<exists>q. clk_queue (clk_at m p) = Some q \<and> qrep (bufs m) q xs \<and> q_sem q = length xs)"

lemma clock_get_nil:
  assumes "clock_holds p m []"
  shows "\<exists>q. clock_get p m = Some (None, upd_clk p (\<lambda>r. r\<lparr>clk_queue := q\<rparr>) m)
    \<and> clock_holds p (upd_clk p (\<lambda>r. r\<lparr>clk_queue := q\<rparr>) m) []"
  using assms by (auto simp: clock_holds_def clock_get_def sem_claim_def)

lemma clock_get_cons:
  assumes "clock_holds p m (x # xs)"
  shows "\<exists>q. clock_get p m = Some (Some x, upd_clk p (\<lambda>r. r\<lparr>clk_queue := q\<rparr>) m)
    \<and> clock_holds p (upd_clk p (\<lambda>r. r\<lparr>clk_queue := q\<rparr>) m) xs"
proof -
  obtain q where q: "clk_queue (clk_at m p) = Some q" "qrep (bufs m) q (x # xs)" "q_sem q = Suc (length xs)"
    using assms by (auto simp: clock_holds_def)
  obtain q' where q': "mmal_queue_get_core (q\<lparr>q_sem := length xs\<rparr>) (bufs m) = Some (x, q')" "qrep (bufs m) q' xs"
    "q_sem q' = length xs"
    using get_core_Cons [of "bufs m" "q\<lparr>q_sem := length xs\<rparr>" x xs] q(2) by auto
  have "sem_claim q = Some (q\<lparr>q_sem := length xs\<rparr>)" using q(3) by (simp add: sem_claim_def)
  then show ?thesis using q(1) q' by (auto simp: clock_get_def clock_holds_def)
qed

lemma clock_holds_fields:
  assumes "clock_holds p m xs" and "\<And>b. bh_next (bufs m' b) = bh_next (bufs m b)"
    and "clk_queue (clk_at m' p) = clk_queue (clk_at m p)"
  shows "clock_holds p m' xs"
  using assms by (auto simp: clock_holds_def elim!: qrep_links)

lemma clock_put_ok:
  assumes "clock_holds p m xs" and "b \<notin> set xs"
  shows "clock_holds p (clock_put p b m) (xs @ [b])"
proof -
  obtain q where q: "clk_queue (clk_at m p) = Some q" "qrep (bufs m) q xs" "q_sem q = length xs"
    using assms(1) by (auto simp: clock_holds_def)
  obtain q' h' where "queue_put q (bufs m) b = (q', h')" "qrep h' q' (xs @ [b])" "q_sem q' = length xs + 1"
    using queue_put_qrep [OF q(2) assms(2)] q(3) by auto
  then show ?thesis using q(1) by (simp add: clock_holds_def clock_put_def)
qed

subsection \<open>Keeping two clocks in step\<close>

text \<open>The settings of a clock that events carry: the change of a port, the change of a clock, and the event.\<close>

datatype clock_setting = SetActive bool | SetScale mmal_rational | SetMediaTime int | SetUpdateThreshold "int \<times> int"
  | SetDiscontThreshold "int \<times> int" | SetRequestThreshold "int \<times> bool"

fun port_set :: "'c module_env port_ops \<Rightarrow> addr \<Rightarrow> clock_setting \<Rightarrow> 'c mworld \<Rightarrow> (mmal_status \<times> 'c mworld) option" where
  "port_set ops p (SetActive x) = mmal_port_clock_active_set ops p x"
| "port_set ops p (SetScale x) = mmal_port_clock_scale_set ops p x"
| "port_set ops p (SetMediaTime x) = mmal_port_clock_media_time_set ops p x"
| "port_set ops p (SetUpdateThreshold x) = mmal_port_clock_update_threshold_set ops p x"
| "port_set ops p (SetDiscontThreshold x) = mmal_port_clock_discont_threshold_set ops p x"
| "port_set ops p (SetRequestThreshold x) = mmal_port_clock_request_threshold_set ops p x"

fun clock_set :: "rtc \<Rightarrow> clock_setting \<Rightarrow> clock \<Rightarrow> mmal_status \<times> clock" where
  "clock_set rtc (SetActive x) = mmal_clock_active_set x"
| "clock_set rtc (SetScale x) = mmal_clock_scale_set rtc x"
| "clock_set rtc (SetMediaTime x) = mmal_clock_media_time_set rtc x"
| "clock_set rtc (SetUpdateThreshold x) = mmal_clock_update_threshold_set x"
| "clock_set rtc (SetDiscontThreshold x) = mmal_clock_discont_threshold_set x"
| "clock_set rtc (SetRequestThreshold x) = mmal_clock_request_threshold_set x"

fun setting_event :: "clock_setting \<Rightarrow> clock_event" where
  "setting_event (SetActive x) = (clock_event_init MMAL_CLOCK_EVENT_ACTIVE)\<lparr>ce_enable := x\<rparr>"
| "setting_event (SetScale x) = (clock_event_init MMAL_CLOCK_EVENT_SCALE)\<lparr>ce_scale := x\<rparr>"
| "setting_event (SetMediaTime x) = (clock_event_init MMAL_CLOCK_EVENT_TIME)\<lparr>ce_media_time := x\<rparr>"
| "setting_event (SetUpdateThreshold x) = (clock_event_init MMAL_CLOCK_EVENT_UPDATE_THRESHOLD)\<lparr>ce_update_threshold := x\<rparr>"
| "setting_event (SetDiscontThreshold x) = (clock_event_init MMAL_CLOCK_EVENT_DISCONT_THRESHOLD)\<lparr>ce_discont_threshold := x\<rparr>"
| "setting_event (SetRequestThreshold x) = (clock_event_init MMAL_CLOCK_EVENT_REQUEST_THRESHOLD)\<lparr>ce_request_threshold := x\<rparr>"

lemmas clock_event_ids = MMAL_CLOCK_EVENT_ACTIVE_def MMAL_CLOCK_EVENT_TIME_def MMAL_CLOCK_EVENT_SCALE_def
  MMAL_CLOCK_EVENT_UPDATE_THRESHOLD_def MMAL_CLOCK_EVENT_DISCONT_THRESHOLD_def MMAL_CLOCK_EVENT_REQUEST_THRESHOLD_def
  MMAL_CLOCK_EVENT_INPUT_BUFFER_INFO_def MMAL_CLOCK_EVENT_OUTPUT_BUFFER_INFO_def MMAL_CLOCK_EVENT_INVALID_def

lemma setting_magic [simp]: "ce_magic (setting_event s) = MMAL_CLOCK_EVENT_MAGIC"
  by (cases s) (simp_all add: clock_event_init_def)

lemma clock_call_ok:
  assumes "clk_clock (clk_at m p) = Some c"
  shows "clock_call p (\<lambda>rtc c. Some (f rtc c)) m
    = Some (fst (f (clk_rtc (clk_at m p)) c), upd_clk p (\<lambda>x. x\<lparr>clk_clock := Some (snd (f (clk_rtc (clk_at m p)) c))\<rparr>) m)"
  using assms by (simp add: clock_call_def split_def)

lemma apply_setting:
  assumes "clk_clock (clk_at m p) = Some c" and "\<not> clk_locked (clk_at m p)"
  shows "clock_event_apply p (setting_event s) m = Some (fst (clock_set (clk_rtc (clk_at m p)) s c),
    upd_clk p (\<lambda>x. x\<lparr>clk_clock := Some (snd (clock_set (clk_rtc (clk_at m p)) s c))\<rparr>) m)"
  using assms
  by (cases s) (simp_all add: clock_call_ok [OF assms(1)] clock_event_apply_def clock_event_init_def clock_locked_def
      clock_event_ids MMAL_FOURCC_def)

lemma port_set_ok:
  assumes "clk_clock (clk_at m p) = Some c" and "\<not> clk_locked (clk_at m p)" and "is_reference (clk_at m p)"
    and "fst (clock_set (clk_rtc (clk_at m p)) s c) = MMAL_SUCCESS"
  shows "port_set ops p s m = mmal_port_clock_forward_event ops p (setting_event s)
    (upd_clk p (\<lambda>x. x\<lparr>clk_clock := Some (snd (clock_set (clk_rtc (clk_at m p)) s c))\<rparr>) m)"
  using assms
  by (cases s) (simp_all add: clock_call_ok [OF assms(1)] mmal_port_clock_active_set_def mmal_port_clock_scale_set_def
      mmal_port_clock_media_time_set_def mmal_port_clock_update_threshold_set_def
      mmal_port_clock_discont_threshold_set_def mmal_port_clock_request_threshold_set_def set_and_forward_def
      mmal_port_clock_forward_active_state_def mmal_port_clock_forward_scale_def
      mmal_port_clock_forward_media_time_def mmal_port_clock_forward_update_threshold_def
      mmal_port_clock_forward_discont_threshold_def mmal_port_clock_forward_request_threshold_def clock_locked_def)

lemma forward_ok:
  assumes "clock_holds p m (b # bs)" and "bh_data (bufs m b) = Some a" and "counted (Suc n) (port_at m p)" and "n < 2 ^ 31"
    and "buffer_header_callback (port_at m p) = Some (ClientCb f)"
  shows "\<exists>m'. mmal_port_clock_forward_event noting_ops p e m = Some (MMAL_SUCCESS, m') \<and> got p m' = got p m @ [b]
    \<and> clock_holds p m' bs \<and> counted n (port_at m' p) \<and> clock_event_at m' a = e
    \<and> bufs m' = (bufs m)(b := (bufs m b)\<lparr>bh_length := SIZEOF_CLOCK_EVENT\<rparr>)
    \<and> (\<forall>q. clk_clock (clk_at m' q) = clk_clock (clk_at m q)) \<and> (\<forall>q. q \<noteq> p \<longrightarrow> clk_at m' q = clk_at m q)"
proof -
  obtain q where q: "clock_get p m = Some (Some b, upd_clk p (\<lambda>r. r\<lparr>clk_queue := q\<rparr>) m)"
    "clock_holds p (upd_clk p (\<lambda>r. r\<lparr>clk_queue := q\<rparr>) m) bs"
    using clock_get_cons [OF assms(1)] by blast
  define m1 where "m1 = set_clock_event a e (upd_buf b (\<lambda>r. r\<lparr>bh_length := SIZEOF_CLOCK_EVENT\<rparr>)
    (upd_clk p (\<lambda>r. r\<lparr>clk_queue := q\<rparr>) m))"
  define m2 where "m2 = upd_port p (with_count n) (note_buffer p b m1)"
  have "mmal_port_buffer_header_callback noting_ops p b m1 = Some m2"
    unfolding m2_def using assms(3-5) by (intro noting_callback) (simp_all add: m1_def)
  then have "mmal_port_clock_forward_event noting_ops p e m = Some (MMAL_SUCCESS, m2)"
    using q(1) assms(2) by (simp add: mmal_port_clock_forward_event_def mmal_buffer_header_mem_lock_def
        mmal_buffer_header_mem_unlock_def m1_def)
  moreover have "clock_holds p m2 bs"
    by (rule clock_holds_fields [OF q(2)]) (simp_all add: m2_def m1_def)
  ultimately show ?thesis
    by (intro exI [of _ m2]) (simp add: m2_def m1_def)
qed

text \<open>C14. A setting made on a reference clock port with a free buffer changes the clock of the port and goes to the
  client of the port in that buffer; and a clock port that is sent the buffer makes the same change to its own
  clock, with its own time, and passes the event on to its component with the buffer attached.\<close>

theorem clock_setting_arrives:
  assumes "clk_clock (clk_at m p) = Some c" and "\<not> clk_locked (clk_at m p)" and "is_reference (clk_at m p)"
    and "fst (clock_set (clk_rtc (clk_at m p)) s c) = MMAL_SUCCESS"
    and "clock_holds p m (b # bs)" and "bh_data (bufs m b) = Some a" and "counted (Suc n) (port_at m p)" and "n < 2 ^ 31"
    and "buffer_header_callback (port_at m p) = Some (ClientCb f)"
    and "q \<noteq> p" and "clk_clock (clk_at m q) = Some d" and "\<not> clk_locked (clk_at m q)"
    and "clk_event_cb (clk_at m q) = Some g" and "fst (clock_set (clk_rtc (clk_at m q)) s d) = MMAL_SUCCESS"
  shows "\<exists>m'. port_set noting_ops p s m = Some (MMAL_SUCCESS, m') \<and> got p m' = got p m @ [b] \<and> clock_holds p m' bs
    \<and> clk_clock (clk_at m' p) = Some (snd (clock_set (clk_rtc (clk_at m p)) s c))
    \<and> mmal_port_clock_send ops cbs q b m' = map_option (Pair MMAL_SUCCESS)
        (clk_event cbs g q ((setting_event s)\<lparr>ce_buffer := Some b\<rparr>)
          (upd_clk q (\<lambda>r. r\<lparr>clk_clock := Some (snd (clock_set (clk_rtc (clk_at m q)) s d))\<rparr>) m'))"
proof -
  define m1 where "m1 = upd_clk p (\<lambda>x. x\<lparr>clk_clock := Some (snd (clock_set (clk_rtc (clk_at m p)) s c))\<rparr>) m"
  have "clock_holds p m1 (b # bs)"
    by (rule clock_holds_fields [OF assms(5)]) (simp_all add: m1_def)
  with forward_ok [of p m1 b bs a n f "setting_event s"] assms(6-9)
  obtain m' where m': "mmal_port_clock_forward_event noting_ops p (setting_event s) m1 = Some (MMAL_SUCCESS, m')"
    "got p m' = got p m1 @ [b]" "clock_holds p m' bs" "clock_event_at m' a = setting_event s"
    "bufs m' = (bufs m1)(b := (bufs m1 b)\<lparr>bh_length := SIZEOF_CLOCK_EVENT\<rparr>)"
    "\<forall>q. clk_clock (clk_at m' q) = clk_clock (clk_at m1 q)" "\<forall>q. q \<noteq> p \<longrightarrow> clk_at m' q = clk_at m1 q"
    by (auto simp: m1_def)
  have set: "port_set noting_ops p s m = Some (MMAL_SUCCESS, m')"
    using port_set_ok [OF assms(1-4)] m'(1) by (simp add: m1_def)
  have q: "clk_at m' q = clk_at m q" using m'(7) assms(10) by (simp add: m1_def)
  have "clock_event_apply q (setting_event s) m' = Some (MMAL_SUCCESS,
    upd_clk q (\<lambda>x. x\<lparr>clk_clock := Some (snd (clock_set (clk_rtc (clk_at m q)) s d))\<rparr>) m')"
    using apply_setting [of m' q d s] assms(11,12,14) q by simp
  then have "mmal_port_clock_send ops cbs q b m' = map_option (Pair MMAL_SUCCESS)
        (clk_event cbs g q ((setting_event s)\<lparr>ce_buffer := Some b\<rparr>)
          (upd_clk q (\<lambda>r. r\<lparr>clk_clock := Some (snd (clock_set (clk_rtc (clk_at m q)) s d))\<rparr>) m'))"
    using m'(4,5) assms(6,13) q
    by (simp add: mmal_port_clock_send_def mmal_port_clock_process_buffer_def mmal_buffer_header_mem_lock_def
        mmal_buffer_header_mem_unlock_def SIZEOF_CLOCK_EVENT_def m1_def)
  then show ?thesis using set m'(2,3,6) by (intro exI [of _ m']) (simp add: m1_def)
qed

subsection \<open>Disabling a clock port\<close>

lemma clock_flush_ok:
  assumes "clock_holds p m xs" and "counted (length xs + n) (port_at m p)" and "length xs + n < 2 ^ 31"
    and "buffer_header_callback (port_at m p) = Some (ClientCb f)"
  shows "\<exists>m'. clock_flush_loop noting_ops p m = Some m' \<and> clock_holds p m' [] \<and> got p m' = got p m @ xs
    \<and> counted n (port_at m' p) \<and> (\<forall>q. clk_clock (clk_at m' q) = clk_clock (clk_at m q))"
  using assms
proof (induction xs arbitrary: m)
  case Nil
  obtain q where "clock_get p m = Some (None, upd_clk p (\<lambda>r. r\<lparr>clk_queue := q\<rparr>) m)"
    "clock_holds p (upd_clk p (\<lambda>r. r\<lparr>clk_queue := q\<rparr>) m) []"
    using clock_get_nil [OF Nil.prems(1)] by blast
  then show ?case using Nil.prems(2) by (subst clock_flush_loop.simps) simp
next
  case (Cons x xs)
  obtain q where q: "clock_get p m = Some (Some x, upd_clk p (\<lambda>r. r\<lparr>clk_queue := q\<rparr>) m)"
    "clock_holds p (upd_clk p (\<lambda>r. r\<lparr>clk_queue := q\<rparr>) m) xs"
    using clock_get_cons [OF Cons.prems(1)] by blast
  define m1 where "m1 = upd_clk p (\<lambda>r. r\<lparr>clk_queue := q\<rparr>) m"
  define m2 where "m2 = upd_port p (with_count (length xs + n)) (note_buffer p x m1)"
  have cb: "mmal_port_buffer_header_callback noting_ops p x m1 = Some m2"
    unfolding m2_def using Cons.prems(2-4) by (intro noting_callback) (simp_all add: m1_def)
  have "clock_holds p m2 xs" by (rule clock_holds_fields [OF q(2)]) (simp_all add: m2_def m1_def)
  with Cons.IH [of m2] Cons.prems(3,4) obtain m3 where m3: "clock_flush_loop noting_ops p m2 = Some m3"
    "clock_holds p m3 []" "got p m3 = got p m2 @ xs" "counted n (port_at m3 p)"
    "\<forall>q. clk_clock (clk_at m3 q) = clk_clock (clk_at m2 q)"
    by (auto simp: m2_def m1_def)
  have "clock_flush_loop noting_ops p m = Some m3"
    using q(1) cb m3(1) by (subst clock_flush_loop.simps) (simp add: m1_def)
  then show ?case using m3 by (intro exI [of _ m3]) (simp add: m2_def m1_def)
qed

text \<open>Disabling a clock port stops its clock and gives every buffer of its queue back to the client, in the
  order in which they were sent.\<close>

theorem clock_port_disable_stops:
  assumes "clk_clock (clk_at m p) = Some c" and "clock_holds p m xs" and "counted (length xs + n) (port_at m p)"
    and "length xs + n < 2 ^ 31" and "buffer_header_callback (port_at m p) = Some (ClientCb f)"
  shows "\<exists>m' c'. mmal_port_clock_disable noting_ops p m = Some (MMAL_SUCCESS, m') \<and> got p m' = got p m @ xs
    \<and> clock_holds p m' [] \<and> counted n (port_at m' p) \<and> clk_clock (clk_at m' p) = Some c' \<and> \<not> is_active c'"
proof -
  define m1 where "m1 = (if is_active c then upd_clk p (\<lambda>x. x\<lparr>clk_clock := Some (snd (mmal_clock_active_set False c))\<rparr>) m else m)"
  have "clock_holds p m1 xs" by (rule clock_holds_fields [OF assms(2)]) (simp_all add: m1_def)
  moreover have p1: "port_at m1 = port_at m" "got p m1 = got p m" by (simp_all add: m1_def)
  ultimately obtain m2 where m2: "clock_flush_loop noting_ops p m1 = Some m2"
    "clock_holds p m2 []" "got p m2 = got p m1 @ xs" "counted n (port_at m2 p)"
    "\<forall>q. clk_clock (clk_at m2 q) = clk_clock (clk_at m1 q)"
    using clock_flush_ok [of p m1 xs n f] assms(3-5) by auto
  have "mmal_port_clock_disable noting_ops p m = Some (MMAL_SUCCESS, m2)"
    using assms(1) m2(1) clock_call_ok [OF assms(1), of "\<lambda>rtc. mmal_clock_active_set False"]
    by (simp add: mmal_port_clock_disable_def mmal_port_clock_active_get_def mmal_clock_is_active_def
        mmal_port_clock_flush_def m1_def split: if_splits)
  moreover have "\<exists>c'. clk_clock (clk_at m1 p) = Some c' \<and> \<not> is_active c'"
    using assms(1) by (auto simp: m1_def mmal_clock_active_set_def mmal_clock_stop_def mmal_clock_wake_thread_def)
  ultimately show ?thesis using m2 p1 by auto
qed

subsection \<open>Flushing requests\<close>

lemma request_flush_ok:
  assumes "clk_clock (clk_at m p) = Some c" and "scheduling c" and "\<not> clk_locked (clk_at m p)" and "clock_lists c fs ps"
  shows "\<exists>c'. clock_lists c' (fs @ ps) []
    \<and> mmal_port_clock_request_flush cbs p m
      = Option.bind (run_requests cbs p (map (entry (reqs c) MMAL_TIME_UNKNOWN) ps)
            (upd_clk p (\<lambda>x. x\<lparr>clk_clock := Some c', clk_locked := True\<rparr>) m))
          (\<lambda>m'. Some (MMAL_SUCCESS, upd_clk p (\<lambda>x. x\<lparr>clk_locked := False\<rparr>) m'))"
proof -
  obtain c1 where c1: "flush_loop MMAL_TIME_UNKNOWN c = Some c1" "clock_lists c1 (fs @ ps) []"
    "fired c1 = fired c @ map (entry (reqs c) MMAL_TIME_UNKNOWN) ps"
    using flush_loop_all [OF assms(4)] by blast
  define c2 where "c2 = c1\<lparr>media_time_at_timer := 0\<rparr>"
  have "mmal_clock_request_flush c = Some (MMAL_SUCCESS, c2)" "fired c2 = fired c1" "clock_lists c2 (fs @ ps) []"
    using assms(2) c1(1,2) by (simp_all add: mmal_clock_request_flush_def mmal_clock_request_flush_locked_def c2_def)
  moreover have "upd_clk p f (upd_clk p g m) = upd_clk p (\<lambda>x. f (g x)) m" for f g
    by (simp add: upd_clk_def upd_modules_def upd_env_def set_env_def)
  ultimately show ?thesis using assms(1,3) c1(3)
    by (intro exI [of _ c2]) (simp add: mmal_port_clock_request_flush_def clock_firing_def clock_locked_def clock_call_def)
qed

text \<open>Flushing the requests of a clock port calls back for every pending request, in the order of their media
  times, with an unknown media time and with the data of the request, while the lock of the clock is held; all
  the slots of the clock are free before the first call.\<close>

theorem clock_port_flush_calls_back:
  assumes "clk_clock (clk_at m p) = Some c" and "scheduling c" and "\<not> clk_locked (clk_at m p)" and "clock_lists c fs ps"
  shows "\<exists>c'. clock_lists c' (fs @ ps) []
    \<and> mmal_port_clock_request_flush cbs p m
      = Option.bind (run_requests cbs p (map (entry (reqs c) MMAL_TIME_UNKNOWN) ps)
            (upd_clk p (\<lambda>x. x\<lparr>clk_clock := Some c', clk_locked := True\<rparr>) m))
          (\<lambda>m'. Some (MMAL_SUCCESS, upd_clk p (\<lambda>x. x\<lparr>clk_locked := False\<rparr>) m'))"
  using request_flush_ok [OF assms] .

subsection \<open>A corrupted event\<close>

text \<open>A buffer whose event has a wrong magic number is given back to the client of the clock port, and at the same
  time the send is reported to have failed: the core counts the buffer out twice, and a client
  that releases a buffer when a send fails releases it twice.\<close>

theorem clock_corrupt_event_counts_twice:
  assumes "pf_send (port_at m p) = Some clock_port_fn" and "pt_enabled (port_at m p)" and "\<not> is_paused (port_at m p)"
    and "pt_type (port_at m p) = MMAL_PORT_TYPE_CLOCK" and "bh_data (bufs m b) = Some a"
    and "bh_length (bufs m b) = SIZEOF_CLOCK_EVENT" and "ce_magic (clock_event_at m a) \<noteq> MMAL_CLOCK_EVENT_MAGIC"
    and "buffer_header_callback (port_at m p) = Some (ClientCb f)" and "counted n (port_at m p)" and "n + 1 < 2 ^ 31"
  shows "\<exists>m'. mmal_port_send_buffer (clock_ops cbs noting_ops) (Some p) b m = Some (MMAL_EINVAL, m')
    \<and> got p m' = got p m @ [b] \<and> transit_buffer_headers (port_at m' p) = int n - 1"
proof -
  define m1 where "m1 = upd_port p (with_count (n + 1)) m"
  define m2 where "m2 = upd_port p (with_count n) (note_buffer p b (upd_buf b (\<lambda>r. r\<lparr>bh_length := 0\<rparr>) m1))"
  have inc: "IN_TRANSIT_INCREMENT p m = Some m1"
    unfolding m1_def by (rule increment_counted [OF assms(9,10)])
  have "mmal_port_buffer_header_callback noting_ops p b (upd_buf b (\<lambda>r. r\<lparr>bh_length := 0\<rparr>) m1) = Some m2"
    unfolding m2_def using assms(8,10) by (intro noting_callback) (simp_all add: m1_def)
  then have "mmal_port_clock_send noting_ops cbs p b m1 = Some (MMAL_EINVAL, m2)"
    using assms(5-7) by (simp add: mmal_port_clock_send_def mmal_port_clock_process_buffer_def SIZEOF_CLOCK_EVENT_def
        mmal_buffer_header_mem_lock_def mmal_buffer_header_mem_unlock_def m1_def)
  then have "mmal_port_send_buffer (clock_ops cbs noting_ops) (Some p) b m = Some (MMAL_EINVAL, IN_TRANSIT_DECREMENT p m2)"
    using assms(1-5) inc by (simp add: mmal_port_send_buffer_def clock_ops_def m1_def with_count_def)
  moreover have "s32 (int n - 1) = int n - 1" using assms(10) by (intro s32_in) (simp add: in32_def)
  ultimately show ?thesis
    by (auto simp: IN_TRANSIT_DECREMENT_def Let_def m2_def with_count_def m1_def)
qed

subsection \<open>Examples\<close>

definition quiet_callbacks :: "'c clock_callbacks" where
  "quiet_callbacks = \<lparr>clk_event = (\<lambda>f p e m. Some m), clk_request = (\<lambda>f p t d m. Some m)\<rparr>"

text \<open>The clock port 3, the reference, with the empty buffer 11, and the clock port 4, with the clock \<open>c\<close>.\<close>

definition demo_clocks_world :: "clock \<Rightarrow> log mworld" where
  "demo_clocks_world c = upd_clk 3 (\<lambda>r. r\<lparr>is_reference := True, clk_queue := Some (one_queue 11)\<rparr>)
     (upd_clk 4 (\<lambda>r. r\<lparr>clk_event_cb := Some 1, clk_clock := Some c\<rparr>)
     (upd_port 3 (\<lambda>r. with_count 1 (r\<lparr>pf_send := Some clock_port_fn, pt_enabled := True, pt_type := MMAL_PORT_TYPE_CLOCK,
         buffer_header_callback := Some (ClientCb 0)\<rparr>)) (idle_world demo_modules)))"

lemma demo_clocks_simps [simp]:
  "clk_at (demo_clocks_world c) 3 = demo_clock_port\<lparr>is_reference := True, clk_queue := Some (one_queue 11)\<rparr>"
  "clk_at (demo_clocks_world c) 4 = demo_clock_port\<lparr>clk_event_cb := Some 1, clk_clock := Some c\<rparr>"
  "port_at (demo_clocks_world c) 3 = with_count 1 (zero_port\<lparr>pf_send := Some clock_port_fn, pt_enabled := True,
     pt_type := MMAL_PORT_TYPE_CLOCK, buffer_header_callback := Some (ClientCb 0)\<rparr>)"
  "bufs (demo_clocks_world c) b = bufs (idle_world ()) b" "client_of (demo_clocks_world c) = []"
  "clock_event_at (demo_clocks_world c) a = demo_clock_event"
  by (simp_all add: demo_clocks_world_def)
    (simp_all add: idle_world_def idle_env_def demo_modules_def clk_at_def module_defs clock_event_at_def)

lemma demo_clocks_holds: "clock_holds 3 (demo_clocks_world c) [11]"
  by (simp add: clock_holds_def one_queue_def qrep_def idle_world_def zero_header_def)

lemma demo_clock_port_fields [simp]:
  "clk_clock demo_clock_port = Some zero_clock" "\<not> clk_locked demo_clock_port"
  by (simp_all add: demo_clock_port_def)

theorem clock_setting_arrives_witness:
  "\<exists>m'. port_set noting_ops 3 (SetActive True) (demo_clocks_world zero_clock) = Some (MMAL_SUCCESS, m') \<and> got 3 m' = [11]
    \<and> mmal_port_clock_send noting_ops quiet_callbacks 4 11 m' = Some (MMAL_SUCCESS,
        upd_clk 4 (\<lambda>r. r\<lparr>clk_clock := Some (snd (mmal_clock_active_set True zero_clock))\<rparr>) m')"
proof -
  have "fst (clock_set rtc (SetActive True) zero_clock) = MMAL_SUCCESS" for rtc
    by (simp add: mmal_clock_active_set_def)
  moreover have "bh_data (bufs (demo_clocks_world zero_clock) 11) = Some 7" by (simp add: idle_world_def)
  ultimately show ?thesis
    using clock_setting_arrives [OF _ _ _ _ demo_clocks_holds [of zero_clock], of zero_clock "SetActive True" 7 0 0 4 zero_clock 1
        noting_ops quiet_callbacks]
    by (auto simp: got_def quiet_callbacks_def)
qed

theorem clock_port_disable_stops_witness:
  "\<exists>m' c'. mmal_port_clock_disable noting_ops 3 (demo_clocks_world zero_clock) = Some (MMAL_SUCCESS, m') \<and> got 3 m' = [11]
    \<and> clk_clock (clk_at m' 3) = Some c' \<and> \<not> is_active c'"
  using clock_port_disable_stops [OF _ demo_clocks_holds [of zero_clock], of zero_clock 0 0]
  by (auto simp: got_def)

definition noting_callbacks :: "log clock_callbacks" where
  "noting_callbacks = \<lparr>clk_event = (\<lambda>f p e m. Some m), clk_request = (\<lambda>f p t d m. Some (note_buffer p (the d) m))\<rparr>"

definition full_clock :: clock where
  "full_clock = (demo_clock 600)\<lparr>reqs := (\<lambda>i. (reqs (demo_clock 600) i)\<lparr>rq_priv := Some 1, rq_cb_data := Some i\<rparr>)\<rparr>"

lemma run_noting:
  assumes "\<forall>r\<in>set rs. f_priv r \<noteq> None"
  shows "\<exists>m'. run_requests noting_callbacks p rs m = Some m' \<and> client_of m' = client_of m @ map (\<lambda>r. (p, the (f_data r))) rs"
  using assms
proof (induction rs arbitrary: m)
  case (Cons r rs)
  then show ?case
    using Cons.IH [of "note_buffer p (the (f_data r)) m"]
    by (auto simp: mmal_port_clock_request_cb_def noting_callbacks_def note_buffer_def)
qed simp

theorem clock_port_flush_calls_back_witness:
  "\<exists>m'. mmal_port_clock_request_flush noting_callbacks 4 (demo_clocks_world full_clock) = Some (MMAL_SUCCESS, m')
    \<and> client_of m' = map (Pair 4) [0..<32]"
proof -
  have c: "scheduling full_clock" "clock_lists full_clock [] [0..<32]"
    using demo_clock_slots [of 600] by (simp_all add: full_clock_def clock_slots_def) (simp add: demo_clock_def)
  from clock_port_flush_calls_back [of "demo_clocks_world full_clock" 4, OF _ c(1) _ c(2), of noting_callbacks]
  obtain c' where r: "mmal_port_clock_request_flush noting_callbacks 4 (demo_clocks_world full_clock)
    = Option.bind (run_requests noting_callbacks 4 (map (entry (reqs full_clock) MMAL_TIME_UNKNOWN) [0..<32])
        (upd_clk 4 (\<lambda>x. x\<lparr>clk_clock := Some c', clk_locked := True\<rparr>) (demo_clocks_world full_clock)))
      (\<lambda>m'. Some (MMAL_SUCCESS, upd_clk 4 (\<lambda>x. x\<lparr>clk_locked := False\<rparr>) m'))" by auto
  have "\<forall>r\<in>set (map (entry (reqs full_clock) MMAL_TIME_UNKNOWN) [0..<32]). f_priv r \<noteq> None"
    by (simp add: entry_def full_clock_def)
  from run_noting [OF this, of 4 "upd_clk 4 (\<lambda>x. x\<lparr>clk_clock := Some c', clk_locked := True\<rparr>) (demo_clocks_world full_clock)"]
  show ?thesis unfolding r by (auto simp: entry_def full_clock_def comp_def)
qed

theorem clock_corrupt_event_counts_twice_witness:
  "\<exists>m'. mmal_port_send_buffer (clock_ops quiet_callbacks noting_ops) (Some 3) 12
      (upd_buf 12 (\<lambda>r. r\<lparr>bh_length := SIZEOF_CLOCK_EVENT\<rparr>) (demo_clocks_world zero_clock)) = Some (MMAL_EINVAL, m')
    \<and> got 3 m' = [12] \<and> transit_buffer_headers (port_at m' 3) = 0"
  using clock_corrupt_event_counts_twice [of "upd_buf 12 (\<lambda>r. r\<lparr>bh_length := SIZEOF_CLOCK_EVENT\<rparr>) (demo_clocks_world zero_clock)"
      3 12 7 0 1 quiet_callbacks]
  by (simp add: got_def idle_world_def demo_clock_event_def MMAL_CLOCK_EVENT_MAGIC_def MMAL_FOURCC_def)
    (simp add: with_count_def zero_port_def)

end
