(* ===== verification/Scheduler.thy ===== *)
theory Scheduler
  imports ClockSync
begin

text \<open>
  components/scheduler.c, and \<open>mmal_event_forward\<close> of core/mmal_events.c, which it calls. The scheduler copies or replicates
  input buffers to output buffers, and asks its clock port to call it back when the time stamp of a buffer
  is due; then it gives the output buffer to the client. The clock and its requests are those of theory ClockPort.
\<close>

subsection \<open>Forwarding events\<close>

text \<open>The payload of the event at \<open>src\<close> copied to \<open>dst\<close>. What lies behind the copied length is not read.\<close>

definition copy_event :: "addr \<Rightarrow> addr \<Rightarrow> 'm world \<Rightarrow> 'm world" where
  "copy_event dst src m =
     set_event dst (event_mem (env (ctx m)) src)
       (upd_fmts (\<lambda>h. (upd_format (event_format_addr dst) (\<lambda>_. format (formats h (event_format_addr src))) h)
          \<lparr>es_mem := (es_mem h)(event_es_addr dst := es_mem h (event_es_addr src)),
           blocks := (blocks h)(event_extradata_addr dst := blocks h (event_extradata_addr src))\<rparr>) m)"

definition mmal_event_forward :: "'m port_ops \<Rightarrow> addr \<Rightarrow> ptr \<Rightarrow> 'm world \<Rightarrow> (mmal_status \<times> 'm world) option" where
  "mmal_event_forward ops event port m =
     (case port of
        None \<Rightarrow> Some (MMAL_EINVAL, m)
      | Some p \<Rightarrow>
          if pt_type (port_at m p) \<noteq> MMAL_PORT_TYPE_OUTPUT then Some (MMAL_EINVAL, m)
          else do {
            let c = pt_component (port_at m p);
            (status, buffer, m) \<leftarrow> mmal_port_event_get ops (cp_control (component_at m c)) (bh_cmd (bufs m event)) m;
            if status \<noteq> MMAL_SUCCESS then Some (status, m)
            else do {
              b \<leftarrow> buffer;
              if bh_alloc_size (bufs m b) < bh_length (bufs m event)
              then map_option (Pair MMAL_ENOSPC) (release_buffer ops b m)
              else do {
                d \<leftarrow> bh_data (bufs m b);
                s \<leftarrow> bh_data (bufs m event);
                let m = copy_event d s m;
                let e = bufs m event;
                let m = upd_buf b (\<lambda>r. r\<lparr>bh_length := bh_length e, bh_offset := bh_offset e, bh_flags := bh_flags e,
                          bh_pts := bh_pts e\<rparr>) m;
                control \<leftarrow> cp_control (component_at m c);
                m \<leftarrow> control_event_send ops control b m;
                Some (MMAL_SUCCESS, m)
              }
            }
          })"

subsection \<open>The scheduler\<close>

definition SCHEDULER_CLOCK_PORTS_NUM :: nat where "SCHEDULER_CLOCK_PORTS_NUM = 1"
definition SCHEDULER_INPUT_PORTS_NUM :: nat where "SCHEDULER_INPUT_PORTS_NUM = 1"
definition SCHEDULER_OUTPUT_PORTS_NUM :: nat where "SCHEDULER_OUTPUT_PORTS_NUM = 1"

definition MMAL_PORT_CAPABILITY_SUPPORTS_EVENT_FORMAT_CHANGE :: u32 where
  "MMAL_PORT_CAPABILITY_SUPPORTS_EVENT_FORMAT_CHANGE = 0x04"

text \<open>The numbers of the functions of the scheduler: of its input port, of its output port, and of its callback for
  clock requests.\<close>

definition scheduler_fn :: nat where "scheduler_fn = 60"
definition scheduler_output_fn :: nat where "scheduler_output_fn = 61"
definition scheduler_request_fn :: nat where "scheduler_request_fn = 62"

definition scheduler_event_process ::
    "'c module_env port_ops \<Rightarrow> addr \<Rightarrow> addr \<Rightarrow> 'c mworld \<Rightarrow> (mmal_status \<times> 'c mworld) option" where
  "scheduler_event_process ops p b m = do {
     (status, m) \<leftarrow>
       (if bh_cmd (bufs m b) = MMAL_EVENT_FORMAT_CHANGED then do {
          (event, m) \<leftarrow> mmal_event_format_changed_get b m;
          if event = None then Some (MMAL_EINVAL, m)
          else do {
            (status, m) \<leftarrow> format_full_copy (pt_format (port_at m p)) event m;
            if status = MMAL_SUCCESS then mmal_port_format_commit ops (Some p) m else Some (status, m)
          }
        }
        else mmal_event_forward ops b
               (nth_port (cp_output (component_at m (pt_component (port_at m p)))) (pt_index (port_at m p))) m);
     let m = upd_buf b (\<lambda>r. r\<lparr>bh_length := 0\<rparr>) m;
     m \<leftarrow> mmal_port_buffer_header_callback ops p b m;
     Some (status, m)
   }"

text \<open>The callback for a request; its data is a buffer.\<close>

definition scheduler_component_clock_port_request_cb ::
    "'c module_env port_ops \<Rightarrow> addr \<Rightarrow> int \<Rightarrow> ptr \<Rightarrow> 'c mworld \<Rightarrow> 'c mworld option" where
  "scheduler_component_clock_port_request_cb ops p media_time cb_data m = do {
     let c = pt_component (port_at m p);
     port_in \<leftarrow> nth_port (cp_input (component_at m c)) 0;
     port_out \<leftarrow> nth_port (cp_output (component_at m c)) 0;
     b \<leftarrow> cb_data;
     if bh_cmd (bufs m b) \<noteq> 0 then map_option snd (scheduler_event_process ops port_in b m)
     else mmal_port_buffer_header_callback ops port_out b m
   }"

definition scheduler_callbacks :: "'c module_env port_ops \<Rightarrow> 'c clock_callbacks \<Rightarrow> 'c clock_callbacks" where
  "scheduler_callbacks ops cbs = cbs\<lparr>
     clk_request := (\<lambda>f p t d m. if f = scheduler_request_fn then scheduler_component_clock_port_request_cb ops p t d m
                                 else clk_request cbs f p t d m)\<rparr>"

text \<open>The branch for a buffer with a command, which has been taken from the input queue.\<close>

definition scheduler_process_command ::
    "'c module_env port_ops \<Rightarrow> addr \<Rightarrow> addr \<Rightarrow> addr \<Rightarrow> 'c mworld \<Rightarrow> 'c mworld option" where
  "scheduler_process_command ops port_in clock i m = do {
     let m = upd_buf i (\<lambda>r. r\<lparr>bh_pts := s64 (last_ts (pmod_at m port_in) + 1000)\<rparr>) m;
     (cb_status, m) \<leftarrow> (if bh_pts (bufs m i) \<noteq> MMAL_TIME_UNKNOWN
        then mmal_port_clock_request_add clock (bh_pts (bufs m i)) scheduler_request_fn (Some i) m
        else Some (MMAL_EINVAL, m));
     if cb_status \<noteq> MMAL_SUCCESS then map_option snd (scheduler_event_process ops port_in i m) else Some m
   }"

text \<open>The label \<open>end\<close>: the buffers that are left go back to the fronts of their queues; the result is whether both
  queues have buffers.\<close>

definition scheduler_end :: "addr \<Rightarrow> addr \<Rightarrow> ptr \<Rightarrow> ptr \<Rightarrow> 'c mworld \<Rightarrow> bool \<times> 'c mworld" where
  "scheduler_end port_in port_out i out m =
     (let m = (case i of None \<Rightarrow> m | Some b \<Rightarrow> module_put_back port_in b m);
          m = (case out of None \<Rightarrow> m | Some b \<Rightarrow> module_put_back port_out b m)
      in (mmal_queue_length (pm_queue (pmod_at m port_in)) \<noteq> 0 \<and> mmal_queue_length (pm_queue (pmod_at m port_out)) \<noteq> 0, m))"

text \<open>From the return of the input buffer on: the request for the output buffer. When it fails, the output buffer
  is given to its client empty.\<close>

definition scheduler_request ::
    "'c module_env port_ops \<Rightarrow> addr \<Rightarrow> addr \<Rightarrow> addr \<Rightarrow> addr \<Rightarrow> addr \<Rightarrow> addr \<Rightarrow> 'c mworld \<Rightarrow> (bool \<times> 'c mworld) option" where
  "scheduler_request ops c port_in port_out clock i out m = do {
     let m = upd_buf i (\<lambda>r. r\<lparr>bh_length := 0\<rparr>) m;
     m \<leftarrow> mmal_port_buffer_header_callback ops port_in i m;
     if cm_status (cmod_at m c) \<noteq> MMAL_SUCCESS then Some (scheduler_end port_in port_out None (Some out) m)
     else do {
       let m = upd_pmod port_in (\<lambda>r. r\<lparr>last_ts := bh_pts (bufs m out)\<rparr>) m;
       (cb_status, m) \<leftarrow> mmal_port_clock_request_add clock (bh_pts (bufs m out)) scheduler_request_fn (Some out) m;
       m \<leftarrow> (if cb_status \<noteq> MMAL_SUCCESS then do {
               m \<leftarrow> mmal_port_buffer_header_callback ops port_out out (upd_buf out (\<lambda>r. r\<lparr>bh_length := 0\<rparr>) m);
               Some (if cb_status \<noteq> MMAL_ECORRUPT then upd_cmod c (\<lambda>r. r\<lparr>cm_status := cb_status\<rparr>) m else m)
             } else Some m);
       Some (scheduler_end port_in port_out None None m)
     }
   }"

definition scheduler_component_process_buffers ::
    "'c module_env port_ops \<Rightarrow> addr \<Rightarrow> 'c mworld \<Rightarrow> (bool \<times> 'c mworld) option" where
  "scheduler_component_process_buffers ops c m = do {
     port_in \<leftarrow> nth_port (cp_input (component_at m c)) 0;
     port_out \<leftarrow> nth_port (cp_output (component_at m c)) 0;
     if cm_status (cmod_at m c) \<noteq> MMAL_SUCCESS then Some (False, m)
     else do {
       (in_buffer, m) \<leftarrow> module_get port_in m;
       if (case in_buffer of Some i \<Rightarrow> bh_cmd (bufs m i) \<noteq> 0 | None \<Rightarrow> False)
       then do {
         clock \<leftarrow> nth_port (cp_clock (component_at m c)) 0;
         map_option (Pair True) (scheduler_process_command ops port_in clock (the in_buffer) m)
       }
       else do {
         (out_buffer, m) \<leftarrow> module_get port_out m;
         (case (in_buffer, out_buffer) of
            (Some i, Some out) \<Rightarrow> do {
              clock \<leftarrow> nth_port (cp_clock (component_at m c)) 0;
              if capabilities (port_at m port_out) AND MMAL_PORT_CAPABILITY_PASSTHROUGH \<noteq> 0 then
                let (status, m) = mmal_buffer_header_replicate (Some out) (Some i) m;
                    m = upd_cmod c (\<lambda>r. r\<lparr>cm_status := status\<rparr>) m
                in scheduler_request ops c port_in port_out clock i out m
              else if bh_alloc_size (bufs m out) < bh_length (bufs m i) then do {
                let m = upd_cmod c (\<lambda>r. r\<lparr>cm_status := MMAL_EINVAL\<rparr>) m;
                m \<leftarrow> send_error ops c MMAL_EINVAL m;
                Some (scheduler_end port_in port_out (Some i) (Some out) m)
              }
              else do {
                let m = snd (mmal_buffer_header_mem_lock i (snd (mmal_buffer_header_mem_lock out m)));
                m \<leftarrow> copy_payload out i m;
                let m = mmal_buffer_header_mem_unlock out (mmal_buffer_header_mem_unlock i m);
                let s = bufs m i;
                let m = upd_buf out (\<lambda>r. r\<lparr>bh_length := bh_length s, bh_offset := 0, bh_flags := bh_flags s,
                            bh_pts := bh_pts s, bh_dts := bh_dts s, bh_type := bh_type s\<rparr>) m;
                scheduler_request ops c port_in port_out clock i out m
              }
            }
          | _ \<Rightarrow> Some (scheduler_end port_in port_out in_buffer out_buffer m))
       }
     }
   }"

partial_function (option) scheduler_component_action ::
    "'c module_env port_ops \<Rightarrow> addr \<Rightarrow> 'c mworld \<Rightarrow> 'c mworld option" where
  "scheduler_component_action ops c m =
     Option.bind (scheduler_component_process_buffers ops c m) (\<lambda>r.
       if fst r then scheduler_component_action ops c (snd r) else Some (snd r))"

definition scheduler_component_destroy ::
    "'c clock_callbacks \<Rightarrow> addr \<Rightarrow> 'c mworld \<Rightarrow> (mmal_status \<times> 'c mworld) option" where
  "scheduler_component_destroy cbs c m = do {
     m \<leftarrow> destroy_module_ports (cp_input (component_at m c)) (input_array (component_at m c)) m;
     m \<leftarrow> destroy_module_ports (cp_output (component_at m c)) (output_array (component_at m c)) m;
     m \<leftarrow> (if cp_clock (component_at m c) = [] then Some m
           else do {
             a \<leftarrow> clock_array (component_at m c);
             mmal_ports_clock_free cbs a (cp_clock (component_at m c)) m
           });
     Some (MMAL_SUCCESS, case cm_block (cmod_at m c) of None \<Rightarrow> m | Some a \<Rightarrow> upd_env (core_free a) m)
   }"

definition scheduler_port_enable :: "addr \<Rightarrow> port_cb option \<Rightarrow> mmal_status" where
  "scheduler_port_enable p cb = MMAL_SUCCESS"

definition scheduler_port_flush ::
    "'c module_env port_ops \<Rightarrow> 'c clock_callbacks \<Rightarrow> addr \<Rightarrow> 'c mworld \<Rightarrow> (mmal_status \<times> 'c mworld) option" where
  "scheduler_port_flush ops cbs p m = do {
     clock \<leftarrow> nth_port (cp_clock (component_at m (pt_component (port_at m p)))) 0;
     (_, m) \<leftarrow> mmal_port_clock_request_flush cbs clock m;
     m \<leftarrow> module_flush_loop ops p m;
     Some (MMAL_SUCCESS, upd_pmod p (\<lambda>r. r\<lparr>last_ts := MMAL_TIME_UNKNOWN\<rparr>) m)
   }"

definition scheduler_port_disable ::
    "'c module_env port_ops \<Rightarrow> 'c clock_callbacks \<Rightarrow> addr \<Rightarrow> 'c mworld \<Rightarrow> (mmal_status \<times> 'c mworld) option" where
  "scheduler_port_disable ops cbs p m = scheduler_port_flush ops cbs p m"

definition scheduler_port_send ::
    "'c module_env port_ops \<Rightarrow> addr \<Rightarrow> addr \<Rightarrow> 'c mworld \<Rightarrow> (mmal_status \<times> 'c mworld) option" where
  "scheduler_port_send ops p b m = do {
     let c = pt_component (port_at m p);
     m \<leftarrow> (if pt_type (port_at m p) = MMAL_PORT_TYPE_INPUT \<and> bh_cmd (bufs m b) = 0
           then do {
             clock \<leftarrow> nth_port (cp_clock (component_at m c)) 0;
             mmal_port_clock_input_buffer_info ops clock (bh_pts (bufs m b), getmicrosecs ops (env (ctx m))) m
           }
           else Some m);
     Some (mmal_component_action_trigger c (module_put p b m))
   }"

definition scheduler_input_port_format_commit ::
    "'c module_env port_ops \<Rightarrow> addr \<Rightarrow> 'c mworld \<Rightarrow> (mmal_status \<times> 'c mworld) option" where
  "scheduler_input_port_format_commit ops p m = do {
     let c = pt_component (port_at m p);
     output \<leftarrow> nth_port (cp_output (component_at m c)) 0;
     if \<not> pt_enabled (port_at m output) then format_full_copy (pt_format (port_at m output)) (pt_format (port_at m p)) m
     else do {
       (status, buffer, m) \<leftarrow> mmal_port_event_get ops (Some output) MMAL_EVENT_FORMAT_CHANGED m;
       if status \<noteq> MMAL_SUCCESS then Some (status, m)
       else do {
         b \<leftarrow> buffer;
         (event, m) \<leftarrow> mmal_event_format_changed_get b m;
         (case event of
            None \<Rightarrow> map_option (Pair MMAL_EINVAL) (release_buffer ops b m)
          | Some fe \<Rightarrow> do {
              f \<leftarrow> pt_format (port_at m p);
              let m = upd_fmts (mmal_format_copy fe f) m;
              a \<leftarrow> bh_data (bufs m b);
              let r = port_at m p;
              let m = set_event a (EventFormatChanged (buffer_size_min r) (buffer_num_min r)
                        (buffer_size_recommended r) (buffer_num_recommended r)) m;
              q \<leftarrow> nth_port (cp_output (component_at m c)) (pt_index (port_at m p));
              map_option (Pair status) (mmal_port_event_send ops q b m)
            })
       }
     }
   }"

text \<open>A difference between the formats of the two ports is only logged.\<close>

definition scheduler_output_port_format_commit :: "addr \<Rightarrow> mmal_status" where
  "scheduler_output_port_format_commit p = MMAL_SUCCESS"

text \<open>Both variables, \<open>in\<close> and \<open>out\<close>, are set to \<open>component->input[port->index]\<close>, as in passthrough.c.\<close>

definition scheduler_port_parameter_set ::
    "addr \<Rightarrow> mmal_param \<Rightarrow> 'm world \<Rightarrow> (mmal_status \<times> 'm world) option" where
  "scheduler_port_parameter_set p param m = do {
     let c = pt_component (port_at m p);
     i \<leftarrow> nth_port (cp_input (component_at m c)) (pt_index (port_at m p));
     out \<leftarrow> nth_port (cp_input (component_at m c)) (pt_index (port_at m p));
     (case param of
        ParamBufferRequirements num_min sz_min num_rec sz_rec \<Rightarrow>
          let r = port_at m p;
              set_req = (\<lambda>x. x\<lparr>buffer_num_min := max (buffer_num_min r) num_min,
                buffer_num_recommended := max (buffer_num_recommended r) num_rec,
                buffer_size_min := max (buffer_size_min r) sz_min,
                buffer_size_recommended := max (buffer_size_recommended r) sz_rec\<rparr>)
          in Some (MMAL_SUCCESS, upd_port out set_req (upd_port i set_req m))
      | _ \<Rightarrow> Some (MMAL_ENOSYS, m))
   }"

definition scheduler_format_ops :: "'c module_env port_ops \<Rightarrow> 'c module_env port_ops" where
  "scheduler_format_ops ops = ops\<lparr>
     f_set_format := (\<lambda>f p m. if f = scheduler_fn then scheduler_input_port_format_commit ops p m
                              else if f = scheduler_output_fn then Some (scheduler_output_port_format_commit p, m)
                              else f_set_format ops f p m)\<rparr>"

definition scheduler_ops :: "'c clock_callbacks \<Rightarrow> 'c module_env port_ops \<Rightarrow> 'c module_env port_ops" where
  "scheduler_ops cbs0 ops0 = (let ops = scheduler_format_ops ops0; cbs = scheduler_callbacks ops cbs0 in ops\<lparr>
     f_enable := (\<lambda>f p cb m. if f = scheduler_fn then Some (scheduler_port_enable p cb, m) else f_enable ops f p cb m),
     f_disable := (\<lambda>f p m. if f = scheduler_fn then scheduler_port_disable ops cbs p m else f_disable ops f p m),
     f_flush := (\<lambda>f p m. if f = scheduler_fn then scheduler_port_flush ops cbs p m else f_flush ops f p m),
     f_send := (\<lambda>f p b m. if f = scheduler_fn then scheduler_port_send ops p b m else f_send ops f p b m),
     f_parameter_set := (\<lambda>f p x m. if f = scheduler_fn then scheduler_port_parameter_set p x m
                                   else f_parameter_set ops f p x m),
     f_action := (\<lambda>f c m. if f = scheduler_fn then scheduler_component_action ops c m else f_action ops f c m),
     f_component_destroy := (\<lambda>f c m. if f = scheduler_fn then scheduler_component_destroy cbs c m
                                     else f_component_destroy ops f c m)\<rparr>)"

definition scheduler_port_setup :: "nat \<Rightarrow> mmal_port \<Rightarrow> mmal_port" where
  "scheduler_port_setup fmt r = r\<lparr>pf_enable := Some scheduler_fn, pf_disable := Some scheduler_fn,
     pf_flush := Some scheduler_fn, pf_send := Some scheduler_fn, pf_set_format := Some fmt,
     pf_parameter_set := Some scheduler_fn, buffer_num_min := 1, buffer_num_recommended := 0\<rparr>"

text \<open>\<open>strstr(name, part)\<close>, as a test.\<close>

definition contains :: "string \<Rightarrow> string \<Rightarrow> bool" where
  "contains name part = list_ex (\<lambda>i. take (length part) (drop i name) = part) [0..<length name + 1]"

definition scheduler_create_error ::
    "'c clock_callbacks \<Rightarrow> addr \<Rightarrow> mmal_status \<Rightarrow> 'c mworld \<Rightarrow> (mmal_status \<times> 'c mworld) option" where
  "scheduler_create_error cbs c status m = map_option (\<lambda>(_, m). (status, m)) (scheduler_component_destroy cbs c m)"

definition mmal_component_create_scheduler ::
    "'c module_env port_ops \<Rightarrow> 'c clock_callbacks \<Rightarrow> string \<Rightarrow> addr \<Rightarrow> 'c mworld \<Rightarrow> (mmal_status \<times> 'c mworld) option" where
  "mmal_component_create_scheduler ops cbs name c m =
     (let (block, e) = core_malloc (env (ctx m));
          m = set_env e m
      in if block = None then Some (MMAL_ENOMEM, m)
      else do {
        let m = upd_cmod c (\<lambda>_. new_component_module block) m;
        let m = upd_component c (\<lambda>r. r\<lparr>cf_destroy := Some scheduler_fn\<rparr>) m;
        (input, m) \<leftarrow> module_ports_alloc c SCHEDULER_INPUT_PORTS_NUM MMAL_PORT_TYPE_INPUT m;
        (case input of
           None \<Rightarrow> scheduler_create_error cbs c MMAL_ENOMEM m
         | Some (a, ps) \<Rightarrow>
             let m = upd_component c (\<lambda>r. r\<lparr>cp_input := ps, input_array := Some a\<rparr>) m;
                 (ok, m) = setup_ports ops (\<lambda>r. (scheduler_port_setup scheduler_fn r)
                   \<lparr>capabilities := MMAL_PORT_CAPABILITY_SUPPORTS_EVENT_FORMAT_CHANGE\<rparr>) ps m
             in if \<not> ok then scheduler_create_error cbs c MMAL_ENOMEM m
             else do {
               let m = fold (\<lambda>p. upd_pmod p (\<lambda>r. r\<lparr>last_ts := MMAL_TIME_UNKNOWN\<rparr>)) ps m;
               (output, m) \<leftarrow> module_ports_alloc c SCHEDULER_OUTPUT_PORTS_NUM MMAL_PORT_TYPE_OUTPUT m;
               (case output of
                  None \<Rightarrow> scheduler_create_error cbs c MMAL_ENOMEM m
                | Some (a, ps) \<Rightarrow>
                    let m = upd_component c (\<lambda>r. r\<lparr>cp_output := ps, output_array := Some a\<rparr>) m;
                        (ok, m) = setup_ports ops (\<lambda>r. (scheduler_port_setup scheduler_output_fn r)
                          \<lparr>capabilities := (if contains name ''.copy'' then 0 else MMAL_PORT_CAPABILITY_PASSTHROUGH)\<rparr>) ps m
                    in if \<not> ok then scheduler_create_error cbs c MMAL_ENOMEM m
                    else do {
                      (clock, m) \<leftarrow> mmal_ports_clock_alloc ops cbs c SCHEDULER_CLOCK_PORTS_NUM None m;
                      (case clock of
                         None \<Rightarrow> scheduler_create_error cbs c MMAL_ENOMEM m
                       | Some (a, ps) \<Rightarrow>
                           let m = upd_component c (\<lambda>r. r\<lparr>cp_clock := ps, clock_array := Some a\<rparr>) m;
                               (status, m) = mmal_component_action_register c scheduler_fn m
                           in if status \<noteq> MMAL_SUCCESS then scheduler_create_error cbs c status m
                           else Some (MMAL_SUCCESS, m))
                    })
             })
      })"

end
