(* ===== verification/Splitter.thy ===== *)
theory Splitter
  imports ModuleSteps
begin

text \<open>
  components/splitter.c: one input port and several output ports; every output port gets a replica of each input
  buffer. An input buffer is kept until every enabled output port has got it: \<open>sent_flags\<close> are the ports that have,
  \<open>enabled_flags\<close> those that must. The constructor makes four output ports; the other definitions work for any
  number.
\<close>

definition splitter_fn :: nat where "splitter_fn = 40"

definition SPLITTER_OUTPUT_PORTS_NUM :: nat where "SPLITTER_OUTPUT_PORTS_NUM = 4"

definition splitter_component_destroy :: "addr \<Rightarrow> 'c mworld \<Rightarrow> (mmal_status \<times> 'c mworld) option" where
  "splitter_component_destroy c m = module_component_destroy c m"

definition splitter_port_enable :: "addr \<Rightarrow> port_cb option \<Rightarrow> 'c mworld \<Rightarrow> mmal_status \<times> 'c mworld" where
  "splitter_port_enable p cb m =
     (MMAL_SUCCESS,
      if buffer_size (port_at m p) \<noteq> 0 \<and> pt_type (port_at m p) = MMAL_PORT_TYPE_OUTPUT
      then upd_cmod (pt_component (port_at m p))
             (\<lambda>r. r\<lparr>enabled_flags := enabled_flags r OR push_bit (pt_index (port_at m p)) 1\<rparr>) m
      else m)"

definition splitter_port_flush ::
    "'c module_env port_ops \<Rightarrow> addr \<Rightarrow> 'c mworld \<Rightarrow> (mmal_status \<times> 'c mworld) option" where
  "splitter_port_flush ops p m = do {
     m \<leftarrow> module_flush_loop ops p m;
     Some (MMAL_SUCCESS,
       if pt_type (port_at m p) = MMAL_PORT_TYPE_INPUT
       then upd_cmod (pt_component (port_at m p)) (\<lambda>r. r\<lparr>sent_flags := 0\<rparr>) m else m)
   }"

definition splitter_port_disable ::
    "'c module_env port_ops \<Rightarrow> addr \<Rightarrow> 'c mworld \<Rightarrow> (mmal_status \<times> 'c mworld) option" where
  "splitter_port_disable ops p m =
     splitter_port_flush ops p
       (if pt_type (port_at m p) = MMAL_PORT_TYPE_OUTPUT
        then upd_cmod (pt_component (port_at m p))
               (\<lambda>r. r\<lparr>enabled_flags := enabled_flags r AND NOT (push_bit (pt_index (port_at m p)) 1)\<rparr>) m
        else m)"

definition splitter_send_output ::
    "'c module_env port_ops \<Rightarrow> addr \<Rightarrow> addr \<Rightarrow> 'c mworld \<Rightarrow> (mmal_status \<times> 'c mworld) option" where
  "splitter_send_output ops b out_port m = do {
     (out, m) \<leftarrow> module_get out_port m;
     (case out of
        None \<Rightarrow> Some (MMAL_EAGAIN, m)
      | Some o' \<Rightarrow>
          let (status, m) = mmal_buffer_header_replicate (Some o') (Some b) m in
          if status \<noteq> MMAL_SUCCESS then Some (status, module_put_back out_port o' m)
          else map_option (Pair MMAL_SUCCESS) (mmal_port_buffer_header_callback ops out_port o' m))
   }"

text \<open>The loop over the output ports, from the one with index \<open>i\<close> on. It stops at an error.\<close>

fun splitter_send_outputs ::
    "'c module_env port_ops \<Rightarrow> addr \<Rightarrow> addr \<Rightarrow> nat \<Rightarrow> addr list \<Rightarrow> 'c mworld \<Rightarrow> (mmal_status \<times> 'c mworld) option" where
  "splitter_send_outputs ops c b i [] m = Some (MMAL_SUCCESS, m)"
| "splitter_send_outputs ops c b i (p # ps) m = do {
     (status, m) \<leftarrow> splitter_send_output ops b p m;
     if status \<noteq> MMAL_SUCCESS \<and> status \<noteq> MMAL_EAGAIN then Some (status, m)
     else
       let m = (if status = MMAL_SUCCESS
                then upd_cmod c (\<lambda>r. r\<lparr>sent_flags := sent_flags r OR push_bit i 1\<rparr>) m else m)
       in splitter_send_outputs ops c b (i + 1) ps m
   }"

text \<open>The label \<open>error\<close> of \<open>splitter_port_send\<close>.\<close>

definition splitter_send_error ::
    "'c module_env port_ops \<Rightarrow> addr \<Rightarrow> addr \<Rightarrow> addr \<Rightarrow> mmal_status \<Rightarrow> 'c mworld \<Rightarrow> (mmal_status \<times> 'c mworld) option" where
  "splitter_send_error ops c in_port b status m = do {
     (status, m) \<leftarrow> mmal_event_error_send ops c status (module_put in_port b m);
     if status \<noteq> MMAL_SUCCESS then Some (MMAL_SUCCESS, m)
     else Some (MMAL_SUCCESS, upd_cmod c (\<lambda>r. r\<lparr>cm_error := True\<rparr>) m)
   }"

definition splitter_port_send ::
    "'c module_env port_ops \<Rightarrow> addr \<Rightarrow> addr \<Rightarrow> 'c mworld \<Rightarrow> (mmal_status \<times> 'c mworld) option" where
  "splitter_port_send ops p b m =
     (let c = pt_component (port_at m p);
          m = module_put p b m
      in if cm_error (cmod_at m c) then Some (MMAL_SUCCESS, m)
      else do {
        in_port \<leftarrow> nth_port (cp_input (component_at m c)) 0;
        (buffer, m) \<leftarrow> module_get in_port m;
        (case buffer of
           None \<Rightarrow> Some (MMAL_SUCCESS, m)
         | Some i \<Rightarrow> do {
             (status, m) \<leftarrow> splitter_send_outputs ops c i 0 (cp_output (component_at m c)) m;
             if status \<noteq> MMAL_SUCCESS then splitter_send_error ops c in_port i status m
             else if sent_flags (cmod_at m c) AND enabled_flags (cmod_at m c) = enabled_flags (cmod_at m c)
             then do {
               let m = upd_buf i (\<lambda>r. r\<lparr>bh_length := 0\<rparr>) m;
               m \<leftarrow> mmal_port_buffer_header_callback ops in_port i m;
               Some (MMAL_SUCCESS, upd_cmod c (\<lambda>r. r\<lparr>sent_flags := 0\<rparr>) m)
             }
             else Some (MMAL_SUCCESS, module_put in_port i m)
           })
      })"

text \<open>Committing the format of the input port on a list of output ports, until one fails.\<close>

fun splitter_commit_outputs :: "addr \<Rightarrow> addr list \<Rightarrow> 'm world \<Rightarrow> (mmal_status \<times> 'm world) option" where
  "splitter_commit_outputs p [] m = Some (MMAL_SUCCESS, m)"
| "splitter_commit_outputs p (q # qs) m = do {
     (status, m) \<leftarrow> format_full_copy (pt_format (port_at m q)) (pt_format (port_at m p)) m;
     if status \<noteq> MMAL_SUCCESS then Some (status, m) else splitter_commit_outputs p qs m
   }"

definition splitter_port_format_commit :: "addr \<Rightarrow> 'm world \<Rightarrow> (mmal_status \<times> 'm world) option" where
  "splitter_port_format_commit p m =
     (if pt_type (port_at m p) = MMAL_PORT_TYPE_OUTPUT then Some (MMAL_EINVAL, m)
      else splitter_commit_outputs p (cp_output (component_at m (pt_component (port_at m p)))) m)"

definition splitter_port_parameter_set ::
    "addr \<Rightarrow> mmal_param \<Rightarrow> 'm world \<Rightarrow> (mmal_status \<times> 'm world) option" where
  "splitter_port_parameter_set p param m =
     (case param of
        ParamBufferRequirements num_min sz_min num_rec sz_rec \<Rightarrow> do {
          let r = port_at m p;
          let set_req = (\<lambda>x. x\<lparr>buffer_num_min := max (buffer_num_min r) num_min,
                buffer_num_recommended := max (buffer_num_recommended r) num_rec,
                buffer_size_min := max (buffer_size_min r) sz_min,
                buffer_size_recommended := max (buffer_size_recommended r) sz_rec\<rparr>);
          let c = pt_component (port_at m p);
          i \<leftarrow> nth_port (cp_input (component_at m c)) 0;
          Some (MMAL_SUCCESS, fold (\<lambda>q. upd_port q set_req) (cp_output (component_at m c)) (upd_port i set_req m))
        }
      | _ \<Rightarrow> Some (MMAL_ENOSYS, m))"

definition splitter_ops :: "'c module_env port_ops \<Rightarrow> 'c module_env port_ops" where
  "splitter_ops ops = ops\<lparr>
     f_enable := (\<lambda>f p cb m. if f = splitter_fn then Some (splitter_port_enable p cb m) else f_enable ops f p cb m),
     f_disable := (\<lambda>f p m. if f = splitter_fn then splitter_port_disable ops p m else f_disable ops f p m),
     f_flush := (\<lambda>f p m. if f = splitter_fn then splitter_port_flush ops p m else f_flush ops f p m),
     f_send := (\<lambda>f p b m. if f = splitter_fn then splitter_port_send ops p b m else f_send ops f p b m),
     f_set_format := (\<lambda>f p m. if f = splitter_fn then splitter_port_format_commit p m else f_set_format ops f p m),
     f_parameter_set := (\<lambda>f p x m. if f = splitter_fn then splitter_port_parameter_set p x m
                                   else f_parameter_set ops f p x m),
     f_component_destroy := (\<lambda>f c m. if f = splitter_fn then splitter_component_destroy c m
                                     else f_component_destroy ops f c m)\<rparr>"

definition splitter_port_setup :: "mmal_port \<Rightarrow> mmal_port" where
  "splitter_port_setup r = r\<lparr>pf_enable := Some splitter_fn, pf_disable := Some splitter_fn,
     pf_flush := Some splitter_fn, pf_send := Some splitter_fn, pf_set_format := Some splitter_fn,
     pf_parameter_set := Some splitter_fn, buffer_num_min := 1, buffer_num_recommended := 0\<rparr>"

definition mmal_component_create_splitter ::
    "'c module_env port_ops \<Rightarrow> addr \<Rightarrow> 'c mworld \<Rightarrow> (mmal_status \<times> 'c mworld) option" where
  "mmal_component_create_splitter ops c m =
     (let (block, e) = core_malloc (env (ctx m));
          m = set_env e m
      in if block = None then Some (MMAL_ENOMEM, m)
      else do {
        let m = upd_cmod c (\<lambda>_. new_component_module block) m;
        let m = upd_component c (\<lambda>r. r\<lparr>cf_destroy := Some splitter_fn\<rparr>) m;
        (input, m) \<leftarrow> module_ports_alloc c 1 MMAL_PORT_TYPE_INPUT m;
        (case input of
           None \<Rightarrow> module_create_error c MMAL_ENOMEM m
         | Some (a, ps) \<Rightarrow>
             let m = upd_component c (\<lambda>r. r\<lparr>cp_input := ps, input_array := Some a\<rparr>) m;
                 (ok, m) = setup_ports ops splitter_port_setup ps m
             in if \<not> ok then module_create_error c MMAL_ENOMEM m
             else do {
               (output, m) \<leftarrow> module_ports_alloc c SPLITTER_OUTPUT_PORTS_NUM MMAL_PORT_TYPE_OUTPUT m;
               (case output of
                  None \<Rightarrow> module_create_error c MMAL_ENOMEM m
                | Some (a, ps) \<Rightarrow>
                    let m = upd_component c (\<lambda>r. r\<lparr>cp_output := ps, output_array := Some a\<rparr>) m;
                        (ok, m) = setup_ports ops (\<lambda>r. (splitter_port_setup r)
                          \<lparr>capabilities := MMAL_PORT_CAPABILITY_PASSTHROUGH\<rparr>) ps m
                    in if \<not> ok then module_create_error c MMAL_ENOMEM m else Some (MMAL_SUCCESS, m))
             })
      })"

subsection \<open>Sending to the output ports\<close>

text \<open>What replication makes of the header \<open>b\<close>, for the header \<open>s\<close> at \<open>x\<close>.\<close>

definition replica_of :: "addr \<Rightarrow> mmal_buffer_header \<Rightarrow> mmal_buffer_header \<Rightarrow> mmal_buffer_header" where
  "replica_of x s b = b\<lparr>reference := Some x, bh_cmd := bh_cmd s, bh_alloc_size := bh_alloc_size s,
     bh_data := bh_data s, bh_offset := bh_offset s, bh_length := bh_length s, bh_flags := bh_flags s,
     bh_pts := bh_pts s, bh_dts := bh_dts s, bh_type := bh_type s\<rparr>"

lemma replicate_ok:
  assumes "reference (bufs m y) = None" and "x \<noteq> y"
  shows "mmal_buffer_header_replicate (Some y) (Some x) m = (MMAL_SUCCESS,
    upd_buf y (replica_of x (bufs m x)) (upd_buf x (\<lambda>r. r\<lparr>refcount := s32 (refcount r + 1)\<rparr>) m))"
  using assms by (cases "bufs m x")
    (simp add: mmal_buffer_header_replicate_def mmal_buffer_header_acquire_def Let_def upd_buf_def replica_of_def)

lemma replica_next [simp]: "bh_next (replica_of x s b) = bh_next b" "reference (replica_of x s b) = Some x"
  by (simp_all add: replica_of_def)

lemma send_output_none:
  assumes "module_holds p m []"
  shows "\<exists>m'. splitter_send_output ops x p m = Some (MMAL_EAGAIN, m') \<and> module_holds p m' [] \<and> bufs m' = bufs m
    \<and> port_at m' = port_at m \<and> component_at m' = component_at m \<and> cmod_at m' = cmod_at m
    \<and> client_of m' = client_of m \<and> (\<forall>q. q \<noteq> p \<longrightarrow> pmod_at m' q = pmod_at m q)"
  using assms by (auto simp: module_holds_def module_get_def sem_claim_def splitter_send_output_def)

lemma send_output_some:
  assumes "module_holds p m (y # ys)" and "reference (bufs m y) = None" and "x \<noteq> y"
    and "counted (Suc n) (port_at m p)" and "n < 2 ^ 31"
    and "buffer_header_callback (port_at m p) = Some (ClientCb f)"
  shows "\<exists>m'. splitter_send_output noting_ops x p m = Some (MMAL_SUCCESS, m') \<and> module_holds p m' ys
    \<and> bufs m' = (bufs m)(x := (bufs m x)\<lparr>refcount := s32 (refcount (bufs m x) + 1)\<rparr>,
                         y := replica_of x (bufs m x) (bufs m y))
    \<and> port_at m' = (port_at m)(p := with_count n (port_at m p)) \<and> component_at m' = component_at m
    \<and> cmod_at m' = cmod_at m \<and> client_of m' = client_of m @ [(p, y)]
    \<and> (\<forall>q. q \<noteq> p \<longrightarrow> pmod_at m' q = pmod_at m q)"
proof -
  obtain m1 where m1: "module_get p m = Some (Some y, m1)" "module_holds p m1 ys" "bufs m1 = bufs m"
    "port_at m1 = port_at m" "component_at m1 = component_at m" "cmod_at m1 = cmod_at m" "client_of m1 = client_of m"
    "\<forall>q. q \<noteq> p \<longrightarrow> pmod_at m1 q = pmod_at m q"
    using module_get_cons [OF assms(1)] by blast
  define m2 where "m2 = upd_buf y (replica_of x (bufs m x)) (upd_buf x (\<lambda>r. r\<lparr>refcount := s32 (refcount r + 1)\<rparr>) m1)"
  define m3 where "m3 = upd_port p (with_count n) (note_buffer p y m2)"
  have rep: "mmal_buffer_header_replicate (Some y) (Some x) m1 = (MMAL_SUCCESS, m2)"
    using assms(2,3) m1(3) replicate_ok [of m1 y x] by (simp add: m2_def)
  have p2: "port_at m2 = port_at m" by (simp add: m2_def m1)
  have cb: "mmal_port_buffer_header_callback noting_ops p y m2 = Some m3"
    unfolding m3_def using p2 assms(4-6) by (intro noting_callback) simp_all
  have "splitter_send_output noting_ops x p m = Some (MMAL_SUCCESS, m3)"
    using m1(1) rep cb by (simp add: splitter_send_output_def)
  moreover have "module_holds p m3 ys"
    by (rule module_holds_fields [OF m1(2)]) (simp_all add: m3_def m2_def m1(3))
  moreover have "bufs m3 = (bufs m)(x := (bufs m x)\<lparr>refcount := s32 (refcount (bufs m x) + 1)\<rparr>,
      y := replica_of x (bufs m x) (bufs m y))"
    using assms(3) by (simp add: m3_def m2_def m1(3))
  ultimately show ?thesis using m1(4-8)
    by (intro exI [of _ m3]) (simp add: m3_def m2_def note_buffer_def)
qed

text \<open>The output ports with the buffers that each holds and the number that is left in transit when it has been
  served. The served ports give the first of their buffers to their clients.\<close>

type_synonym splitter_out = "addr \<times> addr list \<times> nat"

definition served :: "splitter_out list \<Rightarrow> (addr \<times> addr) list" where
  "served outs = concat (map (\<lambda>(p, ys, n). map (Pair p) (take 1 ys)) outs)"

fun served_bits :: "nat \<Rightarrow> splitter_out list \<Rightarrow> u32" where
  "served_bits i [] = 0"
| "served_bits i ((p, ys, n) # outs) = (if ys = [] then 0 else push_bit i 1) OR served_bits (i + 1) outs"

definition output_ready :: "addr \<Rightarrow> log mworld \<Rightarrow> splitter_out \<Rightarrow> bool" where
  "output_ready x m = (\<lambda>(p, ys, n). module_holds p m ys \<and> counted (n + length (take 1 ys)) (port_at m p) \<and> n < 2 ^ 31
     \<and> (\<exists>f. buffer_header_callback (port_at m p) = Some (ClientCb f))
     \<and> (\<forall>y\<in>set (take 1 ys). reference (bufs m y) = None \<and> y \<noteq> x))"

definition output_served :: "log mworld \<Rightarrow> splitter_out \<Rightarrow> bool" where
  "output_served m = (\<lambda>(p, ys, n). module_holds p m (drop 1 ys) \<and> counted n (port_at m p))"

lemma served_simps [simp]:
  "served [] = []" "served ((p, [], n) # outs) = served outs" "served ((p, y # ys, n) # outs) = (p, y) # served outs"
  by (simp_all add: served_def)

lemma served_length: "length (served outs) \<le> length outs"
  by (induction outs rule: served_bits.induct [of "\<lambda>i. _"]) (auto simp: served_def)

lemma served_ports: "fst ` set (served outs) \<subseteq> fst ` set outs"
  by (auto simp: served_def split: prod.splits) force

lemma served_mem: "(p, ys, n) \<in> set outs \<Longrightarrow> y \<in> set (take 1 ys) \<Longrightarrow> (p, y) \<in> set (served outs)"
  by (force simp: served_def)

lemma output_ready_other:
  assumes "output_ready x m (p, ys, n)" and "pmod_at m' p = pmod_at m p" and "port_at m' p = port_at m p"
    and "\<And>b. bh_next (bufs m' b) = bh_next (bufs m b)"
    and "\<And>y. y \<in> set (take 1 ys) \<Longrightarrow> reference (bufs m' y) = reference (bufs m y)"
  shows "output_ready x m' (p, ys, n)"
  using assms module_holds_fields [of p m ys m'] by (auto simp: output_ready_def)

lemma output_served_other:
  assumes "output_served m (p, ys, n)" and "pmod_at m' p = pmod_at m p" and "port_at m' p = port_at m p"
    and "\<And>b. bh_next (bufs m' b) = bh_next (bufs m b)"
  shows "output_served m' (p, ys, n)"
  using assms module_holds_fields [of p m "drop 1 ys" m'] by (auto simp: output_served_def)

text \<open>What the loop leaves: from \<open>m\<close> to \<open>m'\<close>, sending the header \<open>x\<close>.\<close>

definition outputs_sent :: "addr \<Rightarrow> addr \<Rightarrow> nat \<Rightarrow> splitter_out list \<Rightarrow> log mworld \<Rightarrow> log mworld \<Rightarrow> bool" where
  "outputs_sent c x i outs m m' \<longleftrightarrow> (\<forall>a\<in>set outs. output_served m' a) \<and> client_of m' = client_of m @ served outs
     \<and> cmod_at m' = (cmod_at m)(c := (cmod_at m c)\<lparr>sent_flags := sent_flags (cmod_at m c) OR served_bits i outs\<rparr>)
     \<and> component_at m' = component_at m
     \<and> (\<forall>q. with_count 0 (port_at m' q) = with_count 0 (port_at m q))
     \<and> (\<forall>q. q \<notin> fst ` set outs \<longrightarrow> port_at m' q = port_at m q \<and> pmod_at m' q = pmod_at m q)
     \<and> (\<forall>y\<in>snd ` set (served outs). bufs m' y = replica_of x (bufs m x) (bufs m y))
     \<and> bufs m' x = (bufs m x)\<lparr>refcount := refcount (bufs m x) + int (length (served outs))\<rparr>
     \<and> (\<forall>b. b \<noteq> x \<longrightarrow> b \<notin> snd ` set (served outs) \<longrightarrow> bufs m' b = bufs m b)"

lemma outputs_sent_next:
  assumes "outputs_sent c x i outs m m'"
  shows "bh_next (bufs m' b) = bh_next (bufs m b)"
  using assms by (cases "b = x"; cases "b \<in> snd ` set (served outs)") (auto simp: outputs_sent_def)

lemma replica_refcount: "replica_of x (s\<lparr>refcount := k\<rparr>) = replica_of x s"
  by (simp add: replica_of_def fun_eq_iff)

lemma send_outputs_ok:
  assumes "\<forall>a\<in>set outs. output_ready x m a" and "distinct (map fst outs)" and "distinct (map snd (served outs))"
    and "0 \<le> refcount (bufs m x)" and "refcount (bufs m x) + int (length outs) < 2 ^ 31"
  shows "\<exists>m'. splitter_send_outputs noting_ops c x i (map fst outs) m = Some (MMAL_SUCCESS, m')
    \<and> outputs_sent c x i outs m m'"
  using assms
proof (induction outs arbitrary: i m)
  case Nil
  then show ?case by (simp add: outputs_sent_def fun_upd_idem_iff)
next
  case (Cons a outs)
  obtain p ys n where a: "a = (p, ys, n)" by (cases a) auto
  have r: "output_ready x m (p, ys, n)" using Cons.prems(1) a by simp
  have p: "p \<notin> fst ` set outs" using Cons.prems(2) a by simp
  show ?case
  proof (cases ys)
    case Nil
    then obtain m1 where m1: "splitter_send_output noting_ops x p m = Some (MMAL_EAGAIN, m1)" "module_holds p m1 []"
      "bufs m1 = bufs m" "port_at m1 = port_at m" "component_at m1 = component_at m" "cmod_at m1 = cmod_at m"
      "client_of m1 = client_of m" "\<forall>q. q \<noteq> p \<longrightarrow> pmod_at m1 q = pmod_at m q"
      using send_output_none [of p m noting_ops x] r by (auto simp: output_ready_def)
    have "\<forall>a\<in>set outs. output_ready x m1 a"
    proof
      fix a' assume a': "a' \<in> set outs"
      obtain p' zs k where [simp]: "a' = (p', zs, k)" by (cases a') auto
      have "p' \<in> fst ` set outs" using a' by (intro image_eqI [of _ _ a']) simp_all
      then have "p' \<noteq> p" using p by metis
      moreover have ready: "output_ready x m (p', zs, k)" using a' Cons.prems(1) by simp
      ultimately have "output_ready x m1 (p', zs, k)"
        by (intro output_ready_other [OF ready]) (simp_all add: m1(3,4,8))
      then show "output_ready x m1 a'" by simp
    qed
    with Cons.IH [of m1 "i + 1"] Cons.prems m1(3) a Nil
    obtain m2 where m2: "splitter_send_outputs noting_ops c x (i + 1) (map fst outs) m1 = Some (MMAL_SUCCESS, m2)"
      "outputs_sent c x (i + 1) outs m1 m2" by auto
    have "output_served m1 (p, ys, n)" using m1(2,4) r Nil by (simp add: output_served_def output_ready_def)
    then have "output_served m2 (p, ys, n)"
      by (rule output_served_other) (use m2(2) p in \<open>auto simp: outputs_sent_def intro: outputs_sent_next [OF m2(2)]\<close>)
    moreover have "splitter_send_outputs noting_ops c x i (map fst (a # outs)) m = Some (MMAL_SUCCESS, m2)"
      using m1(1) m2(1) a by simp
    ultimately show ?thesis using m2(2) m1 a Nil by (intro exI [of _ m2]) (simp add: outputs_sent_def)
  next
    case (Cons y ys')
    have y: "reference (bufs m y) = None" "x \<noteq> y" "module_holds p m (y # ys')" "counted (Suc n) (port_at m p)"
      "n < 2 ^ 31" "\<exists>f. buffer_header_callback (port_at m p) = Some (ClientCb f)"
      using r Cons by (auto simp: output_ready_def)
    then obtain m1 where m1: "splitter_send_output noting_ops x p m = Some (MMAL_SUCCESS, m1)" "module_holds p m1 ys'"
      "bufs m1 = (bufs m)(x := (bufs m x)\<lparr>refcount := s32 (refcount (bufs m x) + 1)\<rparr>,
         y := replica_of x (bufs m x) (bufs m y))"
      "port_at m1 = (port_at m)(p := with_count n (port_at m p))" "component_at m1 = component_at m"
      "cmod_at m1 = cmod_at m" "client_of m1 = client_of m @ [(p, y)]"
      "\<forall>q. q \<noteq> p \<longrightarrow> pmod_at m1 q = pmod_at m q"
      using send_output_some [of p m y ys' x n] by blast
    define m2 where "m2 = upd_cmod c (\<lambda>r. r\<lparr>sent_flags := sent_flags r OR push_bit i 1\<rparr>) m1"
    have ref: "s32 (refcount (bufs m x) + 1) = refcount (bufs m x) + 1"
      using Cons.prems(4,5) by (intro s32_in) (simp add: in32_def)
    have y': "y \<notin> snd ` set (served outs)" "distinct (map snd (served outs))" using Cons.prems(3) a Cons by auto
    have "\<forall>a\<in>set outs. output_ready x m2 a"
    proof
      fix a' assume a': "a' \<in> set outs"
      obtain p' zs k where [simp]: "a' = (p', zs, k)" by (cases a') auto
      have "p' \<in> fst ` set outs" using a' by (intro image_eqI [of _ _ a']) simp_all
      then have ne: "p' \<noteq> p" using p by metis
      have ready: "output_ready x m (p', zs, k)" using Cons.prems(1) a' by simp
      have "z \<noteq> y" if "z \<in> set (take 1 zs)" for z
        using served_mem [of p' zs k outs z] a' that y'(1) by force
      moreover have "z \<noteq> x" if "z \<in> set (take 1 zs)" for z using ready that by (simp add: output_ready_def)
      ultimately have "output_ready x m2 (p', zs, k)"
        using ne m1(3,4,8) y(2) by (intro output_ready_other [OF ready]) (auto simp: m2_def)
      then show "output_ready x m2 a'" by simp
    qed
    with Cons.IH [of m2 "i + 1"] Cons.prems m1(3) a y(2) ref y'
    obtain m3 where m3: "splitter_send_outputs noting_ops c x (i + 1) (map fst outs) m2 = Some (MMAL_SUCCESS, m3)"
      "outputs_sent c x (i + 1) outs m2 m3" by (auto simp: m2_def)
    have "output_served m2 (p, ys, n)" using m1(2,4) Cons by (simp add: output_served_def m2_def module_holds_def)
    then have "output_served m3 (p, ys, n)"
      by (rule output_served_other) (use m3(2) p in \<open>auto simp: outputs_sent_def intro: outputs_sent_next [OF m3(2)]\<close>)
    moreover have "splitter_send_outputs noting_ops c x i (map fst (a # outs)) m = Some (MMAL_SUCCESS, m3)"
      using m1(1) m3(1) a by (simp add: m2_def)
    moreover have "x \<notin> snd ` set (served outs)"
      using Cons.prems(1) by (fastforce simp: served_def output_ready_def)
    ultimately show ?thesis using m3(2) m1 a Cons y(2) y' ref p
      by (intro exI [of _ m3]) (simp add: outputs_sent_def m2_def replica_refcount, auto simp: or.assoc)
  qed
qed

subsection \<open>Sending to a port\<close>

lemma module_put_frame:
  assumes "module_holds p m xs" and "b \<notin> set xs"
  shows "module_holds p (module_put p b m) (xs @ [b])" and "port_at (module_put p b m) = port_at m"
    and "component_at (module_put p b m) = component_at m" and "cmod_at (module_put p b m) = cmod_at m"
    and "client_of (module_put p b m) = client_of m" and "only_links (bufs m) (bufs (module_put p b m))"
    and "a \<notin> set xs \<Longrightarrow> a \<noteq> b \<Longrightarrow> bufs (module_put p b m) a = bufs m a"
    and "r \<noteq> p \<Longrightarrow> pmod_at (module_put p b m) r = pmod_at m r"
proof -
  obtain q where q: "pm_queue (pmod_at m p) = Some q" "qrep (bufs m) q xs" "q_sem q = length xs"
    using assms(1) by (auto simp: module_holds_def)
  obtain q' h' where put: "queue_put q (bufs m) b = (q', h')" "same_bufs (- set (xs @ [b])) (bufs m) h'"
    "only_links (bufs m) h'"
    using queue_put_qrep [OF q(2) assms(2)] q(3) by auto
  have "module_put p b m = upd_pmod p (\<lambda>r. r\<lparr>pm_queue := Some q'\<rparr>) (m\<lparr>bufs := h'\<rparr>)"
    using q(1) put(1) by (simp add: module_put_def)
  then show "cmod_at (module_put p b m) = cmod_at m" "only_links (bufs m) (bufs (module_put p b m))"
    "a \<notin> set xs \<Longrightarrow> a \<noteq> b \<Longrightarrow> bufs (module_put p b m) a = bufs m a"
    "r \<noteq> p \<Longrightarrow> pmod_at (module_put p b m) r = pmod_at m r"
    using put(2,3) by (simp_all add: same_bufs_def)
qed (use module_put_ok [OF assms] in auto)

lemma only_links_fields:
  assumes "only_links h h'"
  shows "reference (h' b) = reference (h b)" "refcount (h' b) = refcount (h b)" "bh_data (h' b) = bh_data (h b)"
    "bh_offset (h' b) = bh_offset (h b)" "bh_length (h' b) = bh_length (h b)" "bh_flags (h' b) = bh_flags (h b)"
    "bh_pts (h' b) = bh_pts (h b)" "bh_dts (h' b) = bh_dts (h b)"
proof -
  have e: "(h' b)\<lparr>bh_next := None\<rparr> = (h b)\<lparr>bh_next := None\<rparr>" using assms by (simp add: only_links_def)
  show "reference (h' b) = reference (h b)" "refcount (h' b) = refcount (h b)" "bh_data (h' b) = bh_data (h b)"
    "bh_offset (h' b) = bh_offset (h b)" "bh_length (h' b) = bh_length (h b)" "bh_flags (h' b) = bh_flags (h b)"
    "bh_pts (h' b) = bh_pts (h b)" "bh_dts (h' b) = bh_dts (h b)"
    using arg_cong [OF e, of reference] arg_cong [OF e, of refcount] arg_cong [OF e, of bh_data]
      arg_cong [OF e, of bh_offset] arg_cong [OF e, of bh_length] arg_cong [OF e, of bh_flags]
      arg_cong [OF e, of bh_pts] arg_cong [OF e, of bh_dts] by simp_all
qed

text \<open>The header \<open>b\<close> is a replica of the header \<open>s\<close>, which is at \<open>x\<close>.\<close>

definition is_replica :: "addr \<Rightarrow> mmal_buffer_header \<Rightarrow> mmal_buffer_header \<Rightarrow> bool" where
  "is_replica x s b \<longleftrightarrow> reference b = Some x \<and> bh_data b = bh_data s \<and> bh_offset b = bh_offset s
     \<and> bh_length b = bh_length s \<and> bh_flags b = bh_flags s \<and> bh_pts b = bh_pts s \<and> bh_dts b = bh_dts s"

lemma same_but_next:
  assumes "b\<lparr>bh_next := None\<rparr> = a\<lparr>bh_next := None\<rparr>"
  shows "refcount b = refcount a" "is_replica x b = is_replica x a" "reference b = reference a"
  using only_links_fields [of "\<lambda>_. a" "\<lambda>_. b"] assms
  by (simp_all add: only_links_def is_replica_def fun_eq_iff)

lemma is_replica_links:
  assumes "only_links h h'" and "only_links k k'"
  shows "is_replica x (h' a) (k' b) = is_replica x (h a) (k b)"
  using assms by (simp add: is_replica_def only_links_fields)

lemma is_replica_of: "is_replica x s (replica_of x s b)"
  by (simp add: is_replica_def replica_of_def)

text \<open>A splitter \<open>c\<close> with the input port \<open>i\<close>, which holds \<open>x # xs\<close>, and output ports that are ready for \<open>x\<close>.\<close>

definition splitter_ready :: "addr \<Rightarrow> addr \<Rightarrow> addr \<Rightarrow> addr list \<Rightarrow> splitter_out list \<Rightarrow> log mworld \<Rightarrow> bool" where
  "splitter_ready c i x xs outs m \<longleftrightarrow> cp_input (component_at m c) = [i] \<and> cp_output (component_at m c) = map fst outs
     \<and> \<not> cm_error (cmod_at m c) \<and> module_holds i m (x # xs)
     \<and> (\<forall>a\<in>set outs. output_ready x m a \<and> set (fst (snd a)) \<inter> set (x # xs) = {})
     \<and> distinct (i # map fst outs) \<and> distinct (map snd (served outs))
     \<and> 0 \<le> refcount (bufs m x) \<and> refcount (bufs m x) + int (length outs) < 2 ^ 31"

text \<open>What the operation leaves, with the ports that are served.\<close>

definition splitter_effect ::
    "addr \<Rightarrow> addr \<Rightarrow> addr \<Rightarrow> addr list \<Rightarrow> splitter_out list \<Rightarrow> log mworld \<Rightarrow> log mworld \<Rightarrow> bool" where
  "splitter_effect c i x xs outs m m' \<longleftrightarrow> (\<forall>a\<in>set outs. output_served m' a)
     \<and> (\<forall>y\<in>snd ` set (served outs). is_replica x (bufs m x) (bufs m' y))
     \<and> refcount (bufs m' x) = refcount (bufs m x) + int (length (served outs)) \<and> component_at m' = component_at m
     \<and> (\<forall>q. with_count 0 (port_at m' q) = with_count 0 (port_at m q))
     \<and> (\<forall>b. b \<notin> set (x # xs) \<longrightarrow> b \<notin> snd ` set (served outs) \<longrightarrow> bufs m' b = bufs m b)
     \<and> (\<forall>b. b \<noteq> x \<longrightarrow> b \<notin> snd ` set (served outs) \<longrightarrow> (bufs m' b)\<lparr>bh_next := None\<rparr> = (bufs m b)\<lparr>bh_next := None\<rparr>)
     \<and> (let sent = sent_flags (cmod_at m c) OR served_bits 0 outs;
            done = (sent AND enabled_flags (cmod_at m c) = enabled_flags (cmod_at m c))
        in cmod_at m' = (cmod_at m)(c := (cmod_at m c)\<lparr>sent_flags := (if done then 0 else sent)\<rparr>)
          \<and> client_of m' = client_of m @ served outs @ (if done then [(i, x)] else [])
          \<and> module_holds i m' (if done then xs else xs @ [x])
          \<and> bh_length (bufs m' x) = (if done then 0 else bh_length (bufs m x)))"

lemma output_served_ports:
  assumes "output_served m a" and "pmod_at m' (fst a) = pmod_at m (fst a)" and "port_at m' (fst a) = port_at m (fst a)"
    and "\<forall>b\<in>set (fst (snd a)). bh_next (bufs m' b) = bh_next (bufs m b)"
  shows "output_served m' a"
proof -
  obtain p ys n where a: "a = (p, ys, n)" by (cases a) auto
  have "\<forall>b\<in>set (drop 1 ys). bh_next (bufs m' b) = bh_next (bufs m b)"
    using assms(4) a by (auto dest: in_set_dropD)
  then show ?thesis using assms(1-3) a
    by (auto simp: output_served_def module_holds_def simp del: One_nat_def elim!: qrep_links)
qed

lemma port_send_effect:
  assumes ready: "splitter_ready c i x xs outs (module_put p b m)"
    and c: "pt_component (port_at m p) = c" and port: "port_at (module_put p b m) = port_at m"
    and i: "counted (Suc k) (port_at m i)" "k < 2 ^ 31" "buffer_header_callback (port_at m i) = Some (ClientCb f)"
  shows "\<exists>m'. splitter_port_send noting_ops p b m = Some (MMAL_SUCCESS, m')
    \<and> splitter_effect c i x xs outs (module_put p b m) m'
    \<and> (client_of m' = client_of (module_put p b m) @ served outs @ [(i, x)] \<longrightarrow> counted k (port_at m' i))
    \<and> (client_of m' = client_of (module_put p b m) @ served outs \<longrightarrow> port_at m' i = port_at m i)"
proof -
  define m1 where "m1 = module_put p b m"
  note r = ready [folded m1_def, unfolded splitter_ready_def]
  obtain m2 where m2: "module_get i m1 = Some (Some x, m2)" "module_holds i m2 xs" "bufs m2 = bufs m1"
    "port_at m2 = port_at m1" "component_at m2 = component_at m1" "cmod_at m2 = cmod_at m1"
    "client_of m2 = client_of m1" "\<forall>q. q \<noteq> i \<longrightarrow> pmod_at m2 q = pmod_at m1 q"
    using module_get_cons [of i m1 x xs] r by blast
  have "\<forall>a\<in>set outs. output_ready x m2 a"
  proof
    fix a assume a: "a \<in> set outs"
    obtain q ys n where [simp]: "a = (q, ys, n)" by (cases a) auto
    have "q \<in> fst ` set outs" using a by (intro image_eqI [of _ _ a]) simp_all
    then have "q \<noteq> i" using r by auto
    moreover have ready: "output_ready x m1 (q, ys, n)" using a r by simp
    ultimately have "output_ready x m2 (q, ys, n)"
      by (intro output_ready_other [OF ready]) (simp_all add: m2(3,4,8))
    then show "output_ready x m2 a" by simp
  qed
  then obtain m3 where m3: "splitter_send_outputs noting_ops c x 0 (map fst outs) m2 = Some (MMAL_SUCCESS, m3)"
    "outputs_sent c x 0 outs m2 m3"
    using send_outputs_ok [of outs x m2 c 0] r m2(3) by auto
  have s: "\<forall>a\<in>set outs. output_served m3 a" "client_of m3 = client_of m1 @ served outs"
    "component_at m3 = component_at m1" "\<forall>q. q \<notin> fst ` set outs \<longrightarrow> port_at m3 q = port_at m q"
    "\<forall>q. q \<notin> fst ` set outs \<longrightarrow> pmod_at m3 q = pmod_at m2 q"
    "\<forall>q. with_count 0 (port_at m3 q) = with_count 0 (port_at m1 q)"
    "\<forall>y\<in>snd ` set (served outs). bufs m3 y = replica_of x (bufs m1 x) (bufs m1 y)"
    "bufs m3 x = (bufs m1 x)\<lparr>refcount := refcount (bufs m1 x) + int (length (served outs))\<rparr>"
    "\<forall>b. b \<noteq> x \<longrightarrow> b \<notin> snd ` set (served outs) \<longrightarrow> bufs m3 b = bufs m1 b"
    using m3(2) m2 port by (simp_all add: outputs_sent_def m1_def)
  have i_out: "i \<notin> fst ` set outs" "x \<notin> set xs" using r holds_distinct [of i m1 "x # xs"] by auto
  have pi: "port_at m3 i = port_at m i" "pmod_at m3 i = pmod_at m2 i"
    using s(4,5) i_out by simp_all
  have hi: "module_holds i m3 xs"
    by (rule module_holds_fields [OF m2(2)]) (simp_all add: pi outputs_sent_next [OF m3(2)])
  have reps: "\<forall>y\<in>snd ` set (served outs). is_replica x (bufs m1 x) (bufs m3 y)"
    using s(7) by (simp add: is_replica_of)
  have x_out: "x \<notin> snd ` set (served outs)"
    using r by (fastforce simp: served_def output_ready_def)
  define sent where "sent = sent_flags (cmod_at m1 c) OR served_bits 0 outs"
  have cm3: "cmod_at m3 = (cmod_at m1)(c := (cmod_at m1 c)\<lparr>sent_flags := sent\<rparr>)"
    using m3(2) m2(6) by (simp add: sent_def outputs_sent_def)
  define finished where "finished \<longleftrightarrow> sent AND enabled_flags (cmod_at m1 c) = enabled_flags (cmod_at m1 c)"
  have run: "splitter_port_send noting_ops p b m =
     (if finished then do {
        m \<leftarrow> mmal_port_buffer_header_callback noting_ops i x (upd_buf x (\<lambda>r. r\<lparr>bh_length := 0\<rparr>) m3);
        Some (MMAL_SUCCESS, upd_cmod c (\<lambda>r. r\<lparr>sent_flags := 0\<rparr>) m)
      } else Some (MMAL_SUCCESS, module_put i x m3))"
    using r c m2(1,5) m3(1) cm3
    by (simp add: splitter_port_send_def Let_def nth_port_def m1_def [symmetric] finished_def)
  show ?thesis
  proof (cases finished)
    case True
    define m4 where "m4 = upd_port i (with_count k) (note_buffer i x (upd_buf x (\<lambda>r. r\<lparr>bh_length := 0\<rparr>) m3))"
    define m5 where "m5 = upd_cmod c (\<lambda>r. r\<lparr>sent_flags := 0\<rparr>) m4"
    have "mmal_port_buffer_header_callback noting_ops i x (upd_buf x (\<lambda>r. r\<lparr>bh_length := 0\<rparr>) m3) = Some m4"
      unfolding m4_def using pi i by (intro noting_callback) simp_all
    then have "splitter_port_send noting_ops p b m = Some (MMAL_SUCCESS, m5)" using run True by (simp add: m5_def)
    moreover have f5: "bufs m5 = (bufs m3)(x := (bufs m3 x)\<lparr>bh_length := 0\<rparr>)" "pmod_at m5 = pmod_at m3"
      "port_at m5 = (port_at m3)(i := with_count k (port_at m3 i))" "client_of m5 = client_of m3 @ [(i, x)]"
      "component_at m5 = component_at m3" "cmod_at m5 = (cmod_at m3)(c := (cmod_at m3 c)\<lparr>sent_flags := 0\<rparr>)"
      by (simp_all add: m5_def m4_def note_buffer_def)
    moreover have "\<forall>a\<in>set outs. output_served m5 a"
    proof
      fix a assume a: "a \<in> set outs"
      then have ne: "fst a \<noteq> i" and "output_served m3 a" using i_out s by auto
      then show "output_served m5 a" by - (rule output_served_ports; auto simp: f5)
    qed
    moreover have "module_holds i m5 xs" by (rule module_holds_fields [OF hi]) (simp_all add: f5)
    moreover have "\<forall>y\<in>snd ` set (served outs). is_replica x (bufs m1 x) (bufs m5 y)"
      using reps x_out by (auto simp: f5)
    moreover have "cmod_at m5 = (cmod_at m1)(c := (cmod_at m1 c)\<lparr>sent_flags := 0\<rparr>)" by (simp add: f5 cm3)
    moreover have "refcount (bufs m5 x) = refcount (bufs m1 x) + int (length (served outs))" "bh_length (bufs m5 x) = 0"
      by (simp_all add: f5 s(8))
    moreover have "\<forall>q. with_count 0 (port_at m5 q) = with_count 0 (port_at m1 q)"
      "\<forall>b. b \<notin> set (x # xs) \<longrightarrow> b \<notin> snd ` set (served outs) \<longrightarrow> bufs m5 b = bufs m1 b"
      "\<forall>b. b \<noteq> x \<longrightarrow> b \<notin> snd ` set (served outs) \<longrightarrow> (bufs m5 b)\<lparr>bh_next := None\<rparr> = (bufs m1 b)\<lparr>bh_next := None\<rparr>"
      using s(6,9) by (simp_all add: f5)
    ultimately show ?thesis
      using True f5(3,4,5) s(2,3) unfolding m1_def [symmetric] splitter_effect_def Let_def sent_def [symmetric]
        finished_def [symmetric]
      by (intro exI [of _ m5] conjI) simp_all
  next
    case False
    define m5 where "m5 = module_put i x m3"
    note put = module_put_frame [OF hi i_out(2), folded m5_def]
    have "splitter_port_send noting_ops p b m = Some (MMAL_SUCCESS, m5)" using run False by (simp add: m5_def)
    moreover have "\<forall>a\<in>set outs. output_served m5 a"
    proof
      fix a assume a: "a \<in> set outs"
      then have ne: "fst a \<noteq> i" and os: "output_served m3 a" using i_out s by auto
      have "set (fst (snd a)) \<inter> set (x # xs) = {}" using a r by blast
      then have nx: "\<forall>b\<in>set (fst (snd a)). bh_next (bufs m5 b) = bh_next (bufs m3 b)"
        by (intro ballI arg_cong [of _ _ bh_next] put(7)) auto
      show "output_served m5 a" by (rule output_served_ports [OF os]) (simp_all add: put(2,8) ne nx)
    qed
    moreover have "\<forall>y\<in>snd ` set (served outs). is_replica x (bufs m1 x) (bufs m5 y)"
      using reps is_replica_links [OF only_links_refl put(6), of x "bufs m1" x] by simp
    moreover have "cmod_at m5 = (cmod_at m1)(c := (cmod_at m1 c)\<lparr>sent_flags := sent\<rparr>)" by (simp add: put(4) cm3)
    moreover have "refcount (bufs m5 x) = refcount (bufs m1 x) + int (length (served outs))"
      "bh_length (bufs m5 x) = bh_length (bufs m1 x)"
      using s(8) by (simp_all add: only_links_fields [OF put(6)])
    moreover have "\<forall>q. with_count 0 (port_at m5 q) = with_count 0 (port_at m1 q)"
      "\<forall>b. b \<notin> set (x # xs) \<longrightarrow> b \<notin> snd ` set (served outs) \<longrightarrow> bufs m5 b = bufs m1 b"
      "\<forall>b. b \<noteq> x \<longrightarrow> b \<notin> snd ` set (served outs) \<longrightarrow> (bufs m5 b)\<lparr>bh_next := None\<rparr> = (bufs m1 b)\<lparr>bh_next := None\<rparr>"
      using s(6,9) put(6) by (simp_all add: put(2,7) only_links_def)
    ultimately show ?thesis
      using False put(1,2,3,5) s(2,3) pi(1) unfolding m1_def [symmetric] splitter_effect_def Let_def sent_def [symmetric]
        finished_def [symmetric]
      by (intro exI [of _ m5] conjI) simp_all
  qed
qed

lemma with_count_eqD:
  assumes "with_count 0 r' = with_count 0 r"
  shows "buffer_header_callback r' = buffer_header_callback r" "pt_component r' = pt_component r"
    "pt_type r' = pt_type r"
  using arg_cong [OF assms, of buffer_header_callback] arg_cong [OF assms, of pt_component]
    arg_cong [OF assms, of pt_type] by (simp_all add: with_count_def)

lemma bit_served_bits:
  "bit (served_bits i outs) j \<longleftrightarrow> i \<le> j \<and> j < i + length outs \<and> j < 32 \<and> fst (snd (outs ! (j - i))) \<noteq> []"
proof (induction i outs rule: served_bits.induct)
  case (2 i p ys n outs)
  then show ?case
    by (cases "j = i") (auto simp: bit_or_iff bit_exp_iff possible_bit_word nth_Cons')
qed simp

lemma served_of_port:
  "distinct (map fst outs) \<Longrightarrow> (p, ys, n) \<in> set outs \<Longrightarrow> filter (\<lambda>a. fst a = p) (served outs) = map (Pair p) (take 1 ys)"
proof (induction outs)
  case (Cons a outs)
  obtain q zs k where a: "a = (q, zs, k)" by (cases a) auto
  have *: "filter (\<lambda>a. fst a = p) (served outs) = []" if "p \<notin> fst ` set outs"
    using that served_ports [of outs] by (auto simp: filter_empty_conv)
  have **: "served (a # outs) = map (Pair q) (take 1 zs) @ served outs" by (simp add: served_def a)
  show ?case using Cons a * ** by (cases "p = q") (auto simp: filter_empty_conv image_iff comp_def)
qed simp

lemma served_no_port: "p \<notin> fst ` set outs \<Longrightarrow> filter (\<lambda>a. fst a = p) (served outs) = []"
  using served_ports [of outs] by (auto simp: filter_empty_conv)

lemma flags_covered:
  assumes "\<And>j. bit (e :: u32) j \<Longrightarrow> bit s j"
  shows "s AND e = e"
  by (rule bit_eqI) (auto simp: bit_and_iff assms)

text \<open>C6. A buffer sent to the input port of a splitter whose input queue is empty, while every enabled output port
  has a buffer: every output port that has one (enabled or not) gives one to its client, a replica of the
  input buffer, and the input buffer goes back to its own client, empty and with one reference more for
  each replica. The buffers behind those still wait, and no port is marked as sent to.\<close>

theorem splitter_delivers:
  assumes "pt_component (port_at m i) = c" and "cp_input (component_at m c) = [i]"
    and "cp_output (component_at m c) = map fst outs" and "\<not> cm_error (cmod_at m c)"
    and "sent_flags (cmod_at m c) = 0" and "module_holds i m []"
    and "\<forall>a\<in>set outs. output_ready x m a \<and> x \<notin> set (fst (snd a))"
    and "distinct (i # map fst outs)" and "distinct (map snd (served outs))" and "length outs \<le> 32"
    and "\<And>j. bit (enabled_flags (cmod_at m c)) j \<Longrightarrow> j < length outs \<and> fst (snd (outs ! j)) \<noteq> []"
    and "0 \<le> refcount (bufs m x)" and "refcount (bufs m x) + int (length outs) < 2 ^ 31"
    and "counted (Suc k) (port_at m i)" and "k < 2 ^ 31" and "buffer_header_callback (port_at m i) = Some (ClientCb f)"
  shows "\<exists>m'. splitter_port_send noting_ops i x m = Some (MMAL_SUCCESS, m')
    \<and> (\<forall>(p, ys, n)\<in>set outs. got p m' = got p m @ take 1 ys \<and> module_holds p m' (drop 1 ys) \<and> counted n (port_at m' p)
        \<and> (\<forall>y\<in>set (take 1 ys). is_replica x (bufs m x) (bufs m' y)))
    \<and> got i m' = got i m @ [x] \<and> module_holds i m' [] \<and> counted k (port_at m' i) \<and> bh_length (bufs m' x) = 0
    \<and> refcount (bufs m' x) = refcount (bufs m x) + int (length (served outs))
    \<and> sent_flags (cmod_at m' c) = 0"
proof -
  note put = module_put_frame [OF assms(6), of x, simplified]
  have "splitter_ready c i x [] outs (module_put i x m)"
  proof -
    have "output_ready x (module_put i x m) a \<and> set (fst (snd a)) \<inter> set [x] = {}" if "a \<in> set outs" for a
    proof -
      obtain p ys n where [simp]: "a = (p, ys, n)" by (cases a) auto
      have ready: "output_ready x m (p, ys, n)" "x \<notin> set ys" using assms(7) that by auto
      have "p \<in> fst ` set outs" using that by (intro image_eqI [of _ _ a]) simp_all
      then have "p \<noteq> i" using assms(8) by auto
      then have "pmod_at (module_put i x m) p = pmod_at m p" by (rule put(8))
      moreover have "\<forall>b\<in>set ys. bh_next (bufs (module_put i x m) b) = bh_next (bufs m b)"
        using ready(2) put(7) by metis
      ultimately have "output_ready x (module_put i x m) (p, ys, n)"
        using ready(1) unfolding output_ready_def
        by (auto simp: module_holds_def put(2) only_links_fields [OF put(6)] elim!: qrep_links)
      then show ?thesis using ready(2) by simp
    qed
    then show ?thesis using assms(2-5,8,9,12,13) put
      by (simp add: splitter_ready_def only_links_fields [OF put(6)])
  qed
  from port_send_effect [OF this assms(1) put(2) assms(14-16)] obtain m' where
    m': "splitter_port_send noting_ops i x m = Some (MMAL_SUCCESS, m')"
    "splitter_effect c i x [] outs (module_put i x m) m'"
    "client_of m' = client_of (module_put i x m) @ served outs @ [(i, x)] \<longrightarrow> counted k (port_at m' i)"
    by blast
  have "served_bits 0 outs AND enabled_flags (cmod_at m c) = enabled_flags (cmod_at m c)"
    using assms(10,11) by (intro flags_covered) (fastforce simp: bit_served_bits)
  then have e: "client_of m' = client_of m @ served outs @ [(i, x)]" "module_holds i m' []" "bh_length (bufs m' x) = 0"
    "sent_flags (cmod_at m' c) = 0" "refcount (bufs m' x) = refcount (bufs m x) + int (length (served outs))"
    "\<forall>a\<in>set outs. output_served m' a" "\<forall>y\<in>snd ` set (served outs). is_replica x (bufs m x) (bufs m' y)"
    using m'(2) assms(5) put is_replica_links [OF put(6) only_links_refl, of x x]
    by (simp_all add: splitter_effect_def only_links_fields [OF put(6)])
  have "got p m' = got p m @ take 1 ys \<and> module_holds p m' (drop 1 ys) \<and> counted n (port_at m' p)
        \<and> (\<forall>y\<in>set (take 1 ys). is_replica x (bufs m x) (bufs m' y))" if a: "(p, ys, n) \<in> set outs" for p ys n
  proof -
    have "p \<in> fst ` set outs" using a by (intro image_eqI [of _ _ "(p, ys, n)"]) simp_all
    then have "p \<noteq> i" using assms(8) by auto
    then have "got p m' = got p m @ take 1 ys"
      using e(1) served_of_port [OF _ a] assms(8) by (simp add: got_def comp_def)
    moreover have "y \<in> snd ` set (served outs)" if "y \<in> set (take 1 ys)" for y
      using served_mem [OF a that] by force
    ultimately show ?thesis using e(6,7) a by (force simp: output_served_def)
  qed
  moreover have "got i m' = got i m @ [x]"
    using e(1) assms(8) served_no_port [of i outs] by (simp add: got_def)
  ultimately show ?thesis using m'(1,3) e(1-5) put(5) by (intro exI [of _ m'] conjI) auto
qed

subsection \<open>An output port alone\<close>

text \<open>The output ports \<open>ps\<close>, all without buffers but \<open>p\<close>, which has the buffers \<open>ys\<close>.\<close>

definition only_out :: "addr \<Rightarrow> addr list \<Rightarrow> (addr \<Rightarrow> nat) \<Rightarrow> addr list \<Rightarrow> splitter_out list" where
  "only_out p ys cnt ps = map (\<lambda>q. (q, if q = p then ys else [], cnt q)) ps"

lemma only_out_simps [simp]:
  "map fst (only_out p ys cnt ps) = ps" "length (only_out p ys cnt ps) = length ps" "fst ` set (only_out p ys cnt ps) = set ps"
  by (simp_all add: only_out_def comp_def image_image)

lemma served_only_out:
  "distinct ps \<Longrightarrow> served (only_out p ys cnt ps) = (if p \<in> set ps then map (Pair p) (take 1 ys) else [])"
proof (induction ps)
  case (Cons q ps)
  then show ?case by (cases ys) (auto simp: only_out_def served_def)
qed (simp add: only_out_def)

lemma bit_served_only:
  assumes "distinct ps" and "length ps \<le> 32" and "k < length ps"
  shows "served_bits 0 (only_out (ps ! k) [y] cnt ps) = push_bit k 1" and "served_bits 0 (only_out p [] cnt ps) = 0"
proof -
  have "k < 32" using assms by simp
  have i: "bit (served_bits 0 (only_out (ps ! k) [y] cnt ps)) j \<longleftrightarrow> j = k" for j
    using assms nth_eq_iff_index_eq [OF assms(1), of j k] by (auto simp: bit_served_bits only_out_def)
  show "served_bits 0 (only_out (ps ! k) [y] cnt ps) = push_bit k 1"
    by (rule bit_eqI) (use \<open>k < 32\<close> in \<open>auto simp: i bit_exp_iff possible_bit_word\<close>)
  show "served_bits 0 (only_out p [] cnt ps) = 0"
    by (rule bit_eqI) (auto simp: bit_served_bits only_out_def)
qed

text \<open>A splitter \<open>c\<close> with the input port \<open>i\<close> and the output ports \<open>ps\<close>, whose output queues are empty.\<close>

definition splitter_idle :: "addr \<Rightarrow> addr \<Rightarrow> addr list \<Rightarrow> (addr \<Rightarrow> nat) \<Rightarrow> log mworld \<Rightarrow> bool" where
  "splitter_idle c i ps cnt m \<longleftrightarrow> cp_input (component_at m c) = [i] \<and> cp_output (component_at m c) = ps
     \<and> \<not> cm_error (cmod_at m c) \<and> distinct (i # ps) \<and> length ps \<le> 32
     \<and> (\<forall>q\<in>set ps. module_holds q m [] \<and> counted (cnt q) (port_at m q) \<and> cnt q < 2 ^ 31
          \<and> (\<exists>f. buffer_header_callback (port_at m q) = Some (ClientCb f)))"

lemma idle_sends_to_output:
  assumes idle: "splitter_idle c i ps cnt m" and k: "k < length ps" "cnt (ps ! k) = Suc n"
    and c: "pt_component (port_at m (ps ! k)) = c" and i: "module_holds i m (x # xs)" "y \<notin> set (x # xs)"
    and y: "reference (bufs m y) = None"
    and x: "0 \<le> refcount (bufs m x)" "refcount (bufs m x) + 32 < 2 ^ 31"
  shows "splitter_ready c i x xs (only_out (ps ! k) [y] (cnt(ps ! k := n)) ps) (module_put (ps ! k) y m)"
proof -
  define m1 where "m1 = module_put (ps ! k) y m"
  note d = idle [unfolded splitter_idle_def]
  have p: "ps ! k \<in> set ps" "ps ! k \<noteq> i" using k(1) d nth_mem [OF k(1)] by (auto simp del: nth_mem)
  have "module_holds (ps ! k) m []" using d p(1) by blast
  note put = module_put_frame [OF this, of y, simplified, folded m1_def]
  have "\<forall>a\<in>set (x # xs). bufs m1 a = bufs m a" using i(2) put(7) by metis
  then have hi: "module_holds i m1 (x # xs)"
    using i(1) put(8) [of i] p(2) unfolding module_holds_def by (metis qrep_links)
  have out: "output_ready x m1 (q, if q = ps ! k then [y] else [], (cnt(ps ! k := n)) q)" if "q \<in> set ps" for q
  proof (cases "q = ps ! k")
    case True
    then show ?thesis
      using d p(1) put y i(2) k(2) by (fastforce simp: output_ready_def only_links_fields [OF put(6)])
  next
    case False
    then show ?thesis
      using d that put(2) put(8) [of q] by (auto simp: output_ready_def module_holds_def qrep_def)
  qed
  have "\<forall>a\<in>set (only_out (ps ! k) [y] (cnt(ps ! k := n)) ps). output_ready x m1 a \<and> set (fst (snd a)) \<inter> set (x # xs) = {}"
    using out i(2) unfolding only_out_def by (auto simp del: fun_upd_apply split: if_splits)
  then show ?thesis
    using d hi put(2-6) x served_only_out [of ps "ps ! k" "[y]"] p(1)
    by (simp add: splitter_ready_def m1_def [symmetric] only_links_fields [OF put(6)])
qed

text \<open>The splitter does not look at its record of the output ports that have got the input buffer: when one of
  them offers another buffer while the input buffer still waits for an enabled port, that port gets a replica of
  the same input buffer again. The input buffer goes on waiting, at the end of its queue.\<close>

theorem splitter_sends_again:
  assumes "splitter_idle c i ps cnt m" and "k < length ps" and "cnt (ps ! k) = Suc n"
    and "pt_component (port_at m (ps ! k)) = c" and "module_holds i m (x # xs)" and "y \<notin> set (x # xs)"
    and "reference (bufs m y) = None" and "0 \<le> refcount (bufs m x)" and "refcount (bufs m x) + 32 < 2 ^ 31"
    and "counted (Suc l) (port_at m i)" and "l < 2 ^ 31" and "buffer_header_callback (port_at m i) = Some (ClientCb f)"
    and "bit (sent_flags (cmod_at m c)) k"
    and "bit (enabled_flags (cmod_at m c)) j" and "\<not> bit (sent_flags (cmod_at m c)) j"
  shows "\<exists>m'. splitter_port_send noting_ops (ps ! k) y m = Some (MMAL_SUCCESS, m')
    \<and> got (ps ! k) m' = got (ps ! k) m @ [y] \<and> is_replica x (bufs m x) (bufs m' y)
    \<and> got i m' = got i m \<and> module_holds i m' (xs @ [x]) \<and> sent_flags (cmod_at m' c) = sent_flags (cmod_at m c)"
proof -
  define outs where "outs = only_out (ps ! k) [y] (cnt(ps ! k := n)) ps"
  note d = assms(1) [unfolded splitter_idle_def]
  have p: "ps ! k \<in> set ps" "ps ! k \<noteq> i" using assms(2) d nth_mem [OF assms(2)] by (auto simp del: nth_mem)
  have "module_holds (ps ! k) m []" using d p(1) by blast
  note put = module_put_frame [OF this, of y, simplified]
  have bits: "served_bits 0 outs = push_bit k 1" "served outs = [(ps ! k, y)]"
    using bit_served_only(1) [of ps k] d assms(2) p(1) served_only_out [of ps "ps ! k" "[y]"] by (simp_all add: outs_def)
  have "k < 32" using assms(2) d by simp
  then have sent: "sent_flags (cmod_at m c) OR push_bit k 1 = sent_flags (cmod_at m c)"
    using assms(13) by (intro bit_eqI) (auto simp: bit_or_iff bit_exp_iff possible_bit_word)
  have wait: "sent_flags (cmod_at m c) AND enabled_flags (cmod_at m c) \<noteq> enabled_flags (cmod_at m c)"
    using assms(14,15) by (metis bit_and_iff)
  from port_send_effect [OF idle_sends_to_output [OF assms(1-9)] assms(4) put(2) assms(10-12)] obtain m' where
    m': "splitter_port_send noting_ops (ps ! k) y m = Some (MMAL_SUCCESS, m')"
    "splitter_effect c i x xs outs (module_put (ps ! k) y m) m'"
    unfolding outs_def [symmetric] by blast
  have "client_of m' = client_of m @ [(ps ! k, y)]" "module_holds i m' (xs @ [x])"
    "sent_flags (cmod_at m' c) = sent_flags (cmod_at m c)"
    "is_replica x (bufs m x) (bufs m' y)"
    using m'(2) bits sent wait put is_replica_links [OF put(6) only_links_refl, of x x]
    by (simp_all add: splitter_effect_def)
  then show ?thesis using m'(1) p(2) by (intro exI [of _ m']) (simp add: got_def)
qed

lemma idle_after_put:
  assumes "splitter_idle c i ps cnt m" and "module_holds i m xs" and "x \<notin> set xs"
  shows "splitter_idle c i ps cnt (module_put i x m)"
proof -
  note put = module_put_frame [OF assms(2,3)]
  have "module_holds q (module_put i x m) []" if "q \<in> set ps" for q
  proof -
    have "module_holds q m []" "q \<noteq> i" using assms(1) that by (auto simp: splitter_idle_def)
    then show ?thesis using put(8) [of q] by (simp add: module_holds_def qrep_def)
  qed
  then show ?thesis using assms(1) put(2,3,4) by (simp add: splitter_idle_def)
qed

text \<open>An input buffer behind one that waits goes past it.\<close>

lemma input_goes_past:
  assumes idle: "splitter_idle c i ps cnt m" and c: "pt_component (port_at m i) = c" and i: "module_holds i m [x]" "z \<noteq> x"
    and x: "0 \<le> refcount (bufs m x)" "refcount (bufs m x) + 32 < 2 ^ 31"
    and ci: "counted (Suc l) (port_at m i)" "l < 2 ^ 31" "buffer_header_callback (port_at m i) = Some (ClientCb f)"
    and wait: "bit (enabled_flags (cmod_at m c)) j" "\<not> bit (sent_flags (cmod_at m c)) j"
  shows "\<exists>m'. splitter_port_send noting_ops i z m = Some (MMAL_SUCCESS, m') \<and> client_of m' = client_of m
    \<and> splitter_idle c i ps cnt m' \<and> module_holds i m' [z, x] \<and> port_at m' i = port_at m i
    \<and> (\<forall>q. pt_component (port_at m' q) = pt_component (port_at m q)) \<and> cmod_at m' = cmod_at m
    \<and> (\<forall>b. b \<noteq> x \<longrightarrow> b \<noteq> z \<longrightarrow> bufs m' b = bufs m b) \<and> is_replica z (bufs m' z) = is_replica z (bufs m z)
    \<and> refcount (bufs m' z) = refcount (bufs m z)"
proof -
  define m1 where "m1 = module_put i z m"
  define outs where "outs = only_out 0 [] cnt ps"
  have z: "z \<notin> set [x]" using i(2) by simp
  note put = module_put_frame [OF i(1) z, folded m1_def]
  have idle1: "splitter_idle c i ps cnt m1" unfolding m1_def by (rule idle_after_put [OF idle i(1) z])
  note d = idle1 [unfolded splitter_idle_def]
  have "\<forall>a\<in>set outs. output_ready x m1 a \<and> set (fst (snd a)) \<inter> set [x, z] = {}"
    using d by (auto simp: outs_def only_out_def output_ready_def)
  moreover have s: "served outs = []" using d by (auto simp: outs_def served_only_out)
  ultimately have ready: "splitter_ready c i x [z] outs m1"
    using d put(1) x by (simp add: splitter_ready_def outs_def only_links_fields [OF put(6)])
  have b: "served_bits 0 outs = 0" by (rule bit_eqI) (auto simp: outs_def bit_served_bits only_out_def)
  have n: "sent_flags (cmod_at m c) AND enabled_flags (cmod_at m c) \<noteq> enabled_flags (cmod_at m c)"
    using wait by (metis bit_and_iff)
  from port_send_effect [OF ready [unfolded m1_def] c put(2) [unfolded m1_def] ci, folded m1_def] obtain m' where
    m': "splitter_port_send noting_ops i z m = Some (MMAL_SUCCESS, m')" "splitter_effect c i x [z] outs m1 m'"
    "client_of m' = client_of m1 @ served outs \<longrightarrow> port_at m' i = port_at m i" by blast
  note e = m'(2) [unfolded splitter_effect_def Let_def b s]
  have cl: "client_of m' = client_of m" "cmod_at m' = cmod_at m" "module_holds i m' [z, x]"
    using e n put(4,5) by (simp_all add: fun_upd_idem_iff)
  have os: "\<forall>a\<in>set outs. output_served m' a" "component_at m' = component_at m1"
    "\<forall>q. with_count 0 (port_at m' q) = with_count 0 (port_at m1 q)"
    "\<forall>b. b \<noteq> x \<longrightarrow> b \<noteq> z \<longrightarrow> bufs m' b = bufs m1 b" using e by simp_all
  have held: "module_holds q m' [] \<and> counted (cnt q) (port_at m' q)" if "q \<in> set ps" for q
  proof -
    have "(q, [], cnt q) \<in> set outs" using that by (auto simp: outs_def only_out_def)
    then show ?thesis using os(1) by (fastforce simp: output_served_def)
  qed
  have cbs: "buffer_header_callback (port_at m' q) = buffer_header_callback (port_at m1 q)"
    "pt_component (port_at m' q) = pt_component (port_at m1 q)" for q
    using os(3) by (simp_all add: with_count_eqD [of "port_at m' q" "port_at m1 q"])
  have "splitter_idle c i ps cnt m'"
    using d held cl(2) os(2) put(4) by (simp add: splitter_idle_def cbs)
  moreover have "refcount (bufs m' z) = refcount (bufs m z) \<and> is_replica z (bufs m' z) = is_replica z (bufs m z)"
  proof -
    have "(bufs m' z)\<lparr>bh_next := None\<rparr> = (bufs m1 z)\<lparr>bh_next := None\<rparr>" using e i(2) by simp
    then have "(bufs m' z)\<lparr>bh_next := None\<rparr> = (bufs m z)\<lparr>bh_next := None\<rparr>" using put(6) by (simp add: only_links_def)
    from same_but_next [OF this] show ?thesis by simp
  qed
  ultimately show ?thesis using m'(1,3) cl os(4) put(2,5,7) cbs s
    by (intro exI [of _ m'] conjI) simp_all
qed

text \<open>Two input buffers, \<open>x\<close> and then \<open>z\<close>, while the first, which the output ports marked in \<open>sent_flags\<close> have
  already got, waits for port \<open>k\<close>: \<open>z\<close> goes past \<open>x\<close>, and the marks made for \<open>x\<close> are taken for marks of \<open>z\<close>.
  As soon as port \<open>k\<close> has a buffer, \<open>z\<close> is given back to its client as consumed, although only port \<open>k\<close> got a replica
  of it: no other output port, marked or not, ever does.\<close>

theorem splitter_skips_output:
  assumes "splitter_idle c i ps cnt m" and "pt_component (port_at m i) = c" and "module_holds i m [x]" and "z \<noteq> x"
    and "0 \<le> refcount (bufs m x)" and "refcount (bufs m x) + 32 < 2 ^ 31"
    and "0 \<le> refcount (bufs m z)" and "refcount (bufs m z) + 32 < 2 ^ 31"
    and "counted (Suc l) (port_at m i)" and "l < 2 ^ 31" and "buffer_header_callback (port_at m i) = Some (ClientCb f)"
    and "k < length ps" and "cnt (ps ! k) = Suc n" and "pt_component (port_at m (ps ! k)) = c"
    and "y \<noteq> x" and "y \<noteq> z" and "reference (bufs m y) = None"
    and "bit (enabled_flags (cmod_at m c)) k" and "\<not> bit (sent_flags (cmod_at m c)) k"
    and "\<And>j. j \<noteq> k \<Longrightarrow> bit (enabled_flags (cmod_at m c)) j \<Longrightarrow> bit (sent_flags (cmod_at m c)) j"
  shows "\<exists>m1 m2. splitter_port_send noting_ops i z m = Some (MMAL_SUCCESS, m1)
    \<and> splitter_port_send noting_ops (ps ! k) y m1 = Some (MMAL_SUCCESS, m2)
    \<and> client_of m2 = client_of m @ [(ps ! k, y), (i, z)] \<and> is_replica z (bufs m z) (bufs m2 y)
    \<and> bh_length (bufs m2 z) = 0 \<and> module_holds i m2 [x] \<and> sent_flags (cmod_at m2 c) = 0"
proof -
  obtain m1 where m1: "splitter_port_send noting_ops i z m = Some (MMAL_SUCCESS, m1)" "client_of m1 = client_of m"
    "splitter_idle c i ps cnt m1" "module_holds i m1 [z, x]" "port_at m1 i = port_at m i"
    "\<forall>q. pt_component (port_at m1 q) = pt_component (port_at m q)" "cmod_at m1 = cmod_at m"
    "\<forall>b. b \<noteq> x \<longrightarrow> b \<noteq> z \<longrightarrow> bufs m1 b = bufs m b" "is_replica z (bufs m1 z) = is_replica z (bufs m z)"
    "refcount (bufs m1 z) = refcount (bufs m z)"
    using input_goes_past [OF assms(1-6,9-11,18,19)] by blast
  define outs where "outs = only_out (ps ! k) [y] (cnt(ps ! k := n)) ps"
  note d = m1(3) [unfolded splitter_idle_def]
  have p: "ps ! k \<in> set ps" using assms(12) by simp
  have "module_holds (ps ! k) m1 []" using d p by blast
  note put = module_put_frame [OF this, of y, simplified]
  have bits: "served_bits 0 outs = push_bit k 1" "served outs = [(ps ! k, y)]"
    using bit_served_only(1) [of ps k] d assms(12) p served_only_out [of ps "ps ! k" "[y]"] by (simp_all add: outs_def)
  have "k < 32" using assms(12) d by simp
  have covered: "(sent_flags (cmod_at m c) OR push_bit k 1) AND enabled_flags (cmod_at m c) = enabled_flags (cmod_at m c)"
  proof (rule flags_covered)
    fix j assume "bit (enabled_flags (cmod_at m c)) j"
    then show "bit (sent_flags (cmod_at m c) OR push_bit k 1) j"
      using assms(20) [of j] \<open>k < 32\<close> by (cases "j = k") (simp_all add: bit_or_iff bit_exp_iff possible_bit_word)
  qed
  have y: "y \<notin> set [z, x]" "reference (bufs m1 y) = None" "pt_component (port_at m1 (ps ! k)) = c"
    "0 \<le> refcount (bufs m1 z)" "refcount (bufs m1 z) + 32 < 2 ^ 31" "counted (Suc l) (port_at m1 i)"
    "buffer_header_callback (port_at m1 i) = Some (ClientCb f)"
    using assms m1 by simp_all
  from port_send_effect [OF idle_sends_to_output [OF m1(3) assms(12,13) y(3) m1(4) y(1,2,4,5)] y(3) put(2) y(6) assms(10) y(7)]
  obtain m2 where m2: "splitter_port_send noting_ops (ps ! k) y m1 = Some (MMAL_SUCCESS, m2)"
    "splitter_effect c i z [x] outs (module_put (ps ! k) y m1) m2"
    unfolding outs_def [symmetric] by blast
  have "client_of m2 = client_of m @ [(ps ! k, y), (i, z)]" "module_holds i m2 [x]"
    "sent_flags (cmod_at m2 c) = 0" "bh_length (bufs m2 z) = 0" "is_replica z (bufs m z) (bufs m2 y)"
    using m2(2) bits covered put m1(2,7,9) is_replica_links [OF put(6) only_links_refl, of z z]
    by (simp_all add: splitter_effect_def)
  then show ?thesis using m1(1) m2(1) by blast
qed

subsection \<open>Examples\<close>

text \<open>A splitter with the input port 3 and the enabled output ports 4 and 5, with the given queues, numbers of buffers in
  transit and marks.\<close>

definition demo_splitter ::
    "u32 \<Rightarrow> (addr \<Rightarrow> mmal_queue) \<Rightarrow> (addr \<Rightarrow> nat) \<Rightarrow> log mworld" where
  "demo_splitter marks queues cnt = upd_component 2 (\<lambda>r. r\<lparr>cp_input := [3], cp_output := [4, 5]\<rparr>)
     (upd_cmod 2 (\<lambda>r. r\<lparr>enabled_flags := 3, sent_flags := marks\<rparr>)
     (fold (\<lambda>p m. upd_pmod p (\<lambda>r. r\<lparr>pm_queue := Some (queues p)\<rparr>)
         (upd_port p (\<lambda>r. with_count (cnt p) (r\<lparr>pt_component := 2, buffer_header_callback := Some (ClientCb 0)\<rparr>)) m))
       [3, 4, 5] (idle_world demo_modules)))"

abbreviation empty_queues :: "addr \<Rightarrow> mmal_queue" where "empty_queues \<equiv> (\<lambda>_. empty_queue)"

lemma demo_splitter_simps [simp]:
  "component_at (demo_splitter s qs cnt) 2 = idle_component\<lparr>cp_input := [3], cp_output := [4, 5]\<rparr>"
  "cmod_at (demo_splitter s qs cnt) 2 = (new_component_module (Some 1))\<lparr>enabled_flags := 3, sent_flags := s\<rparr>"
  "p \<in> {3, 4, 5} \<Longrightarrow> pm_queue (pmod_at (demo_splitter s qs cnt) p) = Some (qs p)"
  "p \<in> {3, 4, 5} \<Longrightarrow> counted n (port_at (demo_splitter s qs cnt) p) \<longleftrightarrow> n = cnt p"
  "p \<in> {3, 4, 5} \<Longrightarrow> pt_component (port_at (demo_splitter s qs cnt) p) = 2"
  "p \<in> {3, 4, 5} \<Longrightarrow> buffer_header_callback (port_at (demo_splitter s qs cnt) p) = Some (ClientCb 0)"
  "bufs (demo_splitter s qs cnt) b = bufs (idle_world ()) b" "client_of (demo_splitter s qs cnt) = []"
  by (auto simp: demo_splitter_def)
    (auto simp: idle_world_def idle_env_def module_defs demo_modules_def counted_iff with_count_def)

lemma demo_queue:
  "module_holds p (demo_splitter s qs cnt) []" if "p \<in> {3, 4, 5}" "qs p = empty_queue"
  using that by (simp add: module_holds_def empty_queue_def qrep_def)

lemma demo_queue_one:
  "module_holds p (demo_splitter s qs cnt) [b]" if "p \<in> {3, 4, 5}" "qs p = one_queue b"
  using that by (simp add: module_holds_def one_queue_def qrep_def idle_world_def zero_header_def)

lemma bits_of_3: "bit (3 :: int) j \<longleftrightarrow> j = 0 \<or> j = 1"
proof -
  have "(3 :: int) = mask 2" by (simp add: mask_eq_exp_minus_1)
  then show ?thesis by (auto simp only: bit_mask_iff possible_bit_int)
qed

lemma demo_header [simp]:
  "refcount (bufs (idle_world x) b) = 1" "reference (bufs (idle_world x) b) = None"
  by (simp_all add: idle_world_def zero_header_def)

theorem splitter_delivers_witness:
  "\<exists>m'. splitter_port_send noting_ops 3 11 (demo_splitter 0 (empty_queues(4 := one_queue 12, 5 := one_queue 13)) (\<lambda>_. 1))
      = Some (MMAL_SUCCESS, m') \<and> got 3 m' = [11] \<and> got 4 m' = [12] \<and> got 5 m' = [13]"
proof -
  let ?m = "demo_splitter 0 (empty_queues(4 := one_queue 12, 5 := one_queue 13)) (\<lambda>_. 1)"
  let ?outs = "[(4, [12], 0), (5, [13], 0)] :: splitter_out list"
  have ready: "\<forall>a\<in>set ?outs. output_ready 11 ?m a \<and> 11 \<notin> set (fst (snd a))"
    by (auto simp: output_ready_def demo_queue_one)
  have bits: "j < length ?outs \<and> fst (snd (?outs ! j)) \<noteq> []" if "bit (enabled_flags (cmod_at ?m 2)) j" for j
    using that by (auto simp: bits_of_3)
  show ?thesis
    using splitter_delivers [where m = ?m and i = 3 and k = 0 and c = 2 and f = 0, OF _ _ _ _ _ _ ready _ _ _ bits] demo_queue [of 3]
    by (auto simp: got_def)
qed

theorem splitter_sends_again_witness:
  "\<exists>m'. splitter_port_send noting_ops 4 12 (demo_splitter 1 (empty_queues(3 := one_queue 11)) (\<lambda>_. 1)) = Some (MMAL_SUCCESS, m')
    \<and> got 4 m' = [12] \<and> reference (bufs m' 12) = Some 11"
proof -
  let ?m = "demo_splitter 1 (empty_queues(3 := one_queue 11)) (\<lambda>_. 1)"
  have idle: "splitter_idle 2 3 [4, 5] (\<lambda>_. 1) ?m"
    by (auto simp: splitter_idle_def demo_queue)
  have h: "pt_component (port_at ?m ([4, 5] ! 0)) = 2" "module_holds 3 ?m [11]" "reference (bufs ?m 12) = None"
    "0 \<le> refcount (bufs ?m 11)" "refcount (bufs ?m 11) + 32 < 2 ^ 31" "counted (Suc 0) (port_at ?m 3)"
    "buffer_header_callback (port_at ?m 3) = Some (ClientCb 0)" "bit (sent_flags (cmod_at ?m 2)) 0"
    "bit (enabled_flags (cmod_at ?m 2)) 1" "\<not> bit (sent_flags (cmod_at ?m 2)) 1"
    by (simp_all add: demo_queue_one bits_of_3)
  from splitter_sends_again [OF idle _ _ h(1,2) _ h(3-6) _ h(7-10)]
  show ?thesis by (force simp: got_def is_replica_def)
qed

theorem splitter_skips_output_witness:
  "\<exists>m1 m2. splitter_port_send noting_ops 3 14 (demo_splitter 1 (empty_queues(3 := one_queue 11)) (\<lambda>_. 3)) = Some (MMAL_SUCCESS, m1)
    \<and> splitter_port_send noting_ops 5 13 m1 = Some (MMAL_SUCCESS, m2)
    \<and> client_of m2 = [(5, 13), (3, 14)] \<and> module_holds 3 m2 [11]"
proof -
  let ?m = "demo_splitter 1 (empty_queues(3 := one_queue 11)) (\<lambda>_. 3)"
  have idle: "splitter_idle 2 3 [4, 5] (\<lambda>_. 3) ?m"
    by (auto simp: splitter_idle_def demo_queue)
  have flags: "bit (sent_flags (cmod_at ?m 2)) j" if "j \<noteq> 1" "bit (enabled_flags (cmod_at ?m 2)) j" for j
    using that by (auto simp: bits_of_3 bit_1_iff)
  have h: "pt_component (port_at ?m 3) = 2" "module_holds 3 ?m [11]" "0 \<le> refcount (bufs ?m 11)"
    "refcount (bufs ?m 11) + 32 < 2 ^ 31" "0 \<le> refcount (bufs ?m 14)" "refcount (bufs ?m 14) + 32 < 2 ^ 31"
    "counted (Suc 2) (port_at ?m 3)" "buffer_header_callback (port_at ?m 3) = Some (ClientCb 0)"
    "pt_component (port_at ?m ([4, 5] ! 1)) = 2" "reference (bufs ?m 13) = None"
    "bit (enabled_flags (cmod_at ?m 2)) 1" "\<not> bit (sent_flags (cmod_at ?m 2)) 1"
    by (simp_all add: demo_queue_one bits_of_3)
  from splitter_skips_output [where z = 14 and n = 2, OF idle h(1,2) _ h(3-7) _ h(8) _ _ h(9) _ _ h(10-12) flags]
  show ?thesis by force
qed

end
