(* ===== verification/SchedulerFlow.thy ===== *)
theory SchedulerFlow
  imports Scheduler Splitter
begin

text \<open>
  What the scheduler does with buffers: an input buffer becomes a request for the clock, flushing gives every
  scheduled buffer to the client of the output port, and a command at the start of a stream is scheduled at a time that
  no clock has.
\<close>

lemma noting_scheduler [simp]:
  "f_client_cb (scheduler_format_ops noting_ops) f p b m = Some (note_buffer p b m)"
  by (simp add: scheduler_format_ops_def noting_ops_def plain_ops_def)

lemmas noting_scheduler_callback = noting_callback0 [OF _ _ _ noting_scheduler]

subsection \<open>Flushing\<close>

text \<open>The requests \<open>rs\<close> of a scheduler for output buffers.\<close>

definition output_requests :: "fired_request list \<Rightarrow> 'c mworld \<Rightarrow> bool" where
  "output_requests rs m \<longleftrightarrow> (\<forall>r\<in>set rs. f_priv r = Some scheduler_request_fn
     \<and> (\<exists>b. f_data r = Some b \<and> bh_cmd (bufs m b) = 0))"

lemma run_scheduled:
  assumes "output_requests rs m" and "pt_component (port_at m k) = c" and "cp_input (component_at m c) = [i]"
    and "cp_output (component_at m c) = [out]" and "counted (length rs + n) (port_at m out)" and "length rs + n < 2 ^ 31"
    and "buffer_header_callback (port_at m out) = Some (ClientCb f)"
  shows "\<exists>m'. run_requests (scheduler_callbacks (scheduler_format_ops noting_ops) cbs) k rs m = Some m'
    \<and> port_at m' = (port_at m)(out := with_count n (port_at m out)) \<and> bufs m' = bufs m
    \<and> client_of m' = client_of m @ map (\<lambda>r. (out, the (f_data r))) rs
    \<and> pmod_at m' = pmod_at m \<and> clk_at m' = clk_at m \<and> component_at m' = component_at m"
  using assms
proof (induction rs arbitrary: m)
  case Nil
  then show ?case by (simp add: counted_def fun_upd_idem_iff)
next
  case (Cons r rs)
  obtain b where b: "f_data r = Some b" "f_priv r = Some scheduler_request_fn" "bh_cmd (bufs m b) = 0"
    using Cons.prems(1) by (auto simp: output_requests_def)
  define m1 where "m1 = upd_port out (with_count (length rs + n)) (note_buffer out b m)"
  have "mmal_port_buffer_header_callback (scheduler_format_ops noting_ops) out b m = Some m1"
    unfolding m1_def using Cons.prems(5-7) by (intro noting_scheduler_callback) simp_all
  then have run: "mmal_port_clock_request_cb (scheduler_callbacks (scheduler_format_ops noting_ops) cbs) k r m = Some m1"
    using b Cons.prems(2-4)
    by (simp add: mmal_port_clock_request_cb_def scheduler_callbacks_def scheduler_component_clock_port_request_cb_def
        nth_port_def)
  have f1: "port_at m1 = (port_at m)(out := with_count (length rs + n) (port_at m out))" "bufs m1 = bufs m"
    "client_of m1 = client_of m @ [(out, b)]" "pmod_at m1 = pmod_at m" "clk_at m1 = clk_at m"
    "component_at m1 = component_at m"
    by (simp_all add: m1_def) (simp_all add: note_buffer_def)
  have "output_requests rs m1" using Cons.prems(1) f1(2) by (simp add: output_requests_def)
  moreover have "pt_component (port_at m1 k) = c" using Cons.prems(2) f1(1) by (auto simp: with_count_def)
  ultimately have "\<exists>m2. run_requests (scheduler_callbacks (scheduler_format_ops noting_ops) cbs) k rs m1 = Some m2
    \<and> port_at m2 = (port_at m1)(out := with_count n (port_at m1 out)) \<and> bufs m2 = bufs m1
    \<and> client_of m2 = client_of m1 @ map (\<lambda>r. (out, the (f_data r))) rs \<and> pmod_at m2 = pmod_at m1
    \<and> clk_at m2 = clk_at m1 \<and> component_at m2 = component_at m1"
    by (rule Cons.IH) (use Cons.prems(3-7) f1 in simp_all)
  then obtain m2 where m2: "run_requests (scheduler_callbacks (scheduler_format_ops noting_ops) cbs) k rs m1 = Some m2"
    "port_at m2 = (port_at m1)(out := with_count n (port_at m1 out))" "bufs m2 = bufs m1"
    "client_of m2 = client_of m1 @ map (\<lambda>r. (out, the (f_data r))) rs" "pmod_at m2 = pmod_at m1"
    "clk_at m2 = clk_at m1" "component_at m2 = component_at m1"
    by blast
  then show ?case using run f1 b(1) by (intro exI [of _ m2]) simp
qed

lemma module_get_clocks:
  assumes "module_get p m = Some (r, m')"
  shows "clk_at m' = clk_at m" "port_at m' = port_at m"
  using assms by (auto simp: module_get_def split: Option.bind_splits)

lemma flush_loop_clocks:
  assumes "module_flush_loop (scheduler_format_ops noting_ops) p m = Some m'"
    and "buffer_header_callback (port_at m p) = Some (ClientCb f)"
  shows "clk_at m' = clk_at m"
proof -
  have "ops = scheduler_format_ops noting_ops \<longrightarrow> buffer_header_callback (port_at m p) = Some (ClientCb f)
      \<longrightarrow> clk_at m' = clk_at m" if "module_flush_loop ops p m = Some m'" for ops
    using that
  proof (rule module_flush_loop.raw_induct [rotated])
    fix loop ops p m and m' :: "log mworld"
    assume IH: "\<And>ops p m m'. loop ops p m = Some m' \<Longrightarrow> ops = scheduler_format_ops noting_ops
        \<longrightarrow> buffer_header_callback (port_at m p) = Some (ClientCb f) \<longrightarrow> clk_at m' = clk_at m"
      and step: "module_get p m \<bind> (\<lambda>r. if fst r = None then Some (snd r)
          else mmal_port_buffer_header_callback ops p (the (fst r)) (snd r) \<bind> loop ops p) = Some m'"
    show "ops = scheduler_format_ops noting_ops \<longrightarrow> buffer_header_callback (port_at m p) = Some (ClientCb f)
        \<longrightarrow> clk_at m' = clk_at m"
    proof (intro impI)
      assume h: "ops = scheduler_format_ops noting_ops" "buffer_header_callback (port_at m p) = Some (ClientCb f)"
      obtain r m1 where g: "module_get p m = Some (r, m1)" using step by (cases "module_get p m") auto
      note g1 = module_get_clocks [OF g]
      show "clk_at m' = clk_at m"
      proof (cases r)
        case None
        then show ?thesis using step g g1(1) by simp
      next
        case (Some b)
        define m2 where "m2 = IN_TRANSIT_DECREMENT p (note_buffer p b m1)"
        have "loop ops p m2 = Some m'"
          using step g g1(2) h Some
          by (simp add: mmal_port_buffer_header_callback_def MMAL_COLLECT_PORT_STATS_ENABLED_def m2_def)
        moreover have "buffer_header_callback (port_at m2 p) = Some (ClientCb f)" "clk_at m2 = clk_at m1"
          using h(2) g1(2) by (simp_all add: m2_def IN_TRANSIT_DECREMENT_def Let_def)
        ultimately show ?thesis using IH h(1) g1(1) by metis
      qed
    qed
  qed
  then show ?thesis using assms by blast
qed


subsection \<open>Scheduling\<close>

lemma module_holds_queue:
  assumes "module_holds p m xs" and "\<And>b. bh_next (bufs m' b) = bh_next (bufs m b)"
    and "pm_queue (pmod_at m' p) = pm_queue (pmod_at m p)"
  shows "module_holds p m' xs"
  using assms by (auto simp: module_holds_def elim!: qrep_links)

text \<open>The clock of port \<open>k\<close> is \<open>d\<close>, which has created the objects for its requests: the slot \<open>a\<close> is free, and the
  requests \<open>ps\<close> are pending.\<close>

definition clock_ready :: "addr \<Rightarrow> clock \<Rightarrow> addr \<Rightarrow> addr list \<Rightarrow> addr list \<Rightarrow> 'c mworld \<Rightarrow> bool" where
  "clock_ready k d a fs ps m \<longleftrightarrow> clk_clock (clk_at m k) = Some d \<and> \<not> clk_locked (clk_at m k) \<and> scheduling d
     \<and> \<not> stop_thread d \<and> \<not> request_threshold_enable d \<and> clock_slots d (a # fs) ps \<and> sorted (map (pending_key d) ps)"

definition request_for :: "clock \<Rightarrow> int \<Rightarrow> addr \<Rightarrow> clock_request" where
  "request_for d t b = \<lparr>rq_priv = Some scheduler_request_fn, rq_cb = clock_port_fn, rq_cb_data = Some b, rq_media_time = t,
     media_time_adj = s64 (t - s32 (ck_scale d * CLOCK_TARGET_OFFSET) div 2 ^ 16)\<rparr>"

lemma port_request_add:
  assumes "clock_ready k d a fs ps m"
  obtains d' ps' where "mmal_port_clock_request_add k t scheduler_request_fn (Some b) m
      = Some (MMAL_SUCCESS, upd_clk k (\<lambda>x. x\<lparr>clk_clock := Some d'\<rparr>) m)"
    and "clock_slots d' fs ps'" and "mset ps' = add_mset a (mset ps)" and "reqs d' = (reqs d)(a := request_for d t b)"
proof -
  note r = assms [unfolded clock_ready_def]
  define now where "now = fst (mmal_clock_media_time_get (clk_rtc (clk_at m k)) d)"
  have "\<exists>d' ps'. mmal_clock_request_add (clk_rtc (clk_at m k)) (clk_creations (clk_at m k) (ticks d)) t clock_port_fn
        (Some b) (Some scheduler_request_fn) d = Some (MMAL_SUCCESS, d')
      \<and> clock_slots d' fs ps' \<and> mset ps' = add_mset a (mset ps) \<and> reqs d' = (reqs d)(a := request_for d t b)"
    using request_add_order [of d "a # fs" ps now "clk_rtc (clk_at m k)" t "clk_creations (clk_at m k) (ticks d)"
        clock_port_fn "Some b" "Some scheduler_request_fn"] r
    by (auto simp: now_def request_for_def)
  then obtain d' ps' where d': "mmal_clock_request_add (clk_rtc (clk_at m k)) (clk_creations (clk_at m k) (ticks d)) t clock_port_fn
        (Some b) (Some scheduler_request_fn) d = Some (MMAL_SUCCESS, d')"
      "clock_slots d' fs ps'" "mset ps' = add_mset a (mset ps)" "reqs d' = (reqs d)(a := request_for d t b)" by blast
  show thesis
    by (rule that [OF _ d'(2-4)]) (use r d'(1) in \<open>simp add: mmal_port_clock_request_add_def clock_locked_def clock_call_def\<close>)
qed

text \<open>A scheduler \<open>c\<close> without an error, with the input port \<open>i\<close>, the output port \<open>out\<close> and the clock port \<open>k\<close>.\<close>

definition scheduler_ports :: "addr \<Rightarrow> addr \<Rightarrow> addr \<Rightarrow> addr \<Rightarrow> 'c mworld \<Rightarrow> bool" where
  "scheduler_ports c i out k m \<longleftrightarrow> cp_input (component_at m c) = [i] \<and> cp_output (component_at m c) = [out]
     \<and> cp_clock (component_at m c) = [k] \<and> i \<noteq> out \<and> cm_status (cmod_at m c) = MMAL_SUCCESS"

text \<open>C15. With a buffer on each port, a scheduler that passes payloads on makes the output buffer a replica of the
  input buffer, returns the input buffer empty, and asks its clock, in a free slot, for a call at the time
  stamp of the buffer, with the output buffer as data. The output buffer is with nobody else until then: its
  client does not get it yet.\<close>

theorem scheduler_schedules:
  assumes "scheduler_ports c i out k m" and "module_holds i m (x # xs)" and "module_holds out m (y # ys)"
    and "bh_cmd (bufs m x) = 0" and "x \<noteq> y" and "reference (bufs m y) = None"
    and "capabilities (port_at m out) AND MMAL_PORT_CAPABILITY_PASSTHROUGH \<noteq> 0" and "clock_ready k d a fs ps m"
    and "counted (Suc n) (port_at m i)" and "n < 2 ^ 31" and "buffer_header_callback (port_at m i) = Some (ClientCb f)"
  shows "\<exists>again m' d' ps'. scheduler_component_process_buffers (scheduler_format_ops noting_ops) c m = Some (again, m')
    \<and> got i m' = got i m @ [x] \<and> got out m' = got out m \<and> module_holds i m' xs \<and> module_holds out m' ys
    \<and> is_replica x (bufs m x) (bufs m' y) \<and> bh_length (bufs m' x) = 0 \<and> last_ts (pmod_at m' i) = bh_pts (bufs m x)
    \<and> clk_clock (clk_at m' k) = Some d' \<and> clock_slots d' fs ps' \<and> mset ps' = add_mset a (mset ps)
    \<and> reqs d' = (reqs d)(a := request_for d (bh_pts (bufs m x)) y)"
proof -
  define ops where "ops = scheduler_format_ops noting_ops"
  note p = assms(1) [unfolded scheduler_ports_def]
  have io: "i \<noteq> out" using p by simp
  from module_get_other [OF assms(2,3) io] obtain m1 where m1: "module_get i m = Some (Some x, m1)" "module_holds i m1 xs"
    "module_holds out m1 (y # ys)" "bufs m1 = bufs m" "port_at m1 = port_at m" "component_at m1 = component_at m"
    "cmod_at m1 = cmod_at m" "client_of m1 = client_of m"
    by blast
  from module_get_other [OF m1(3,2)] io obtain m2 where m2: "module_get out m1 = Some (Some y, m2)"
    "module_holds out m2 ys" "module_holds i m2 xs" "bufs m2 = bufs m1" "port_at m2 = port_at m1"
    "component_at m2 = component_at m1" "cmod_at m2 = cmod_at m1" "client_of m2 = client_of m1"
    by blast
  have clk2: "clk_at m2 = clk_at m" using module_get_clocks(1) [OF m1(1)] module_get_clocks(1) [OF m2(1)] by simp
  have bufs2: "bufs m2 = bufs m" by (simp add: m1 m2)
  define m3 where "m3 = upd_buf x (\<lambda>r. r\<lparr>bh_length := 0\<rparr>) (upd_cmod c (\<lambda>r. r\<lparr>cm_status := MMAL_SUCCESS\<rparr>)
    (upd_buf y (replica_of x (bufs m x)) (upd_buf x (\<lambda>r. r\<lparr>refcount := s32 (refcount r + 1)\<rparr>) m2)))"
  define m4 where "m4 = upd_port i (with_count n) (note_buffer i x m3)"
  define m5 where "m5 = upd_pmod i (\<lambda>r. r\<lparr>last_ts := bh_pts (bufs m4 y)\<rparr>) m4"
  have p3: "port_at m3 = port_at m" by (simp add: m3_def m1 m2)
  have cb: "mmal_port_buffer_header_callback ops i x m3 = Some m4"
    unfolding m4_def ops_def using p3 assms(9-11) by (intro noting_scheduler_callback) simp_all
  have b5: "bufs m5 y = replica_of x (bufs m x) (bufs m y)" "bh_length (bufs m5 x) = 0"
    "\<And>b. bh_next (bufs m5 b) = bh_next (bufs m b)" "bh_pts (bufs m5 y) = bh_pts (bufs m x)" "bufs m5 = bufs m4"
    "clk_at m5 = clk_at m" "client_of m5 = client_of m @ [(i, x)]" "last_ts (pmod_at m5 i) = bh_pts (bufs m x)"
    "pm_queue (pmod_at m5 i) = pm_queue (pmod_at m2 i)" "pm_queue (pmod_at m5 out) = pm_queue (pmod_at m2 out)"
    "cmod_at m4 c = (cmod_at m2 c)\<lparr>cm_status := MMAL_SUCCESS\<rparr>"
    using assms(5) io m1 m2 clk2 by (simp_all add: m5_def m4_def m3_def replica_of_def note_buffer_def)
  have "clock_ready k d a fs ps m5" using assms(8) b5(6) by (simp add: clock_ready_def)
  then obtain d' ps' where d': "mmal_port_clock_request_add k (bh_pts (bufs m5 y)) scheduler_request_fn (Some y) m5
      = Some (MMAL_SUCCESS, upd_clk k (\<lambda>x. x\<lparr>clk_clock := Some d'\<rparr>) m5)"
    "clock_slots d' fs ps'" "mset ps' = add_mset a (mset ps)" "reqs d' = (reqs d)(a := request_for d (bh_pts (bufs m5 y)) y)"
    by (rule port_request_add)
  define m6 where "m6 = upd_clk k (\<lambda>x. x\<lparr>clk_clock := Some d'\<rparr>) m5"
  have "mmal_buffer_header_replicate (Some y) (Some x) m2 = (MMAL_SUCCESS,
    upd_buf y (replica_of x (bufs m x)) (upd_buf x (\<lambda>r. r\<lparr>refcount := s32 (refcount r + 1)\<rparr>) m2))"
    using assms(5,6) unfolding bufs2 [symmetric] by (intro replicate_ok) simp_all
  then have "scheduler_component_process_buffers ops c m = Some (scheduler_end i out None None m6)"
    using p m1 m2 assms(4,7) cb b5(5,11) d'(1)
    by (simp add: scheduler_component_process_buffers_def nth_port_def scheduler_request_def Let_def bufs2 m3_def [symmetric]
        m5_def [symmetric] m6_def)
  moreover have "module_holds i m6 xs" "module_holds out m6 ys"
    by (rule module_holds_queue [OF m2(3)] module_holds_queue [OF m2(2)]; simp add: m6_def b5(3,9,10) m1 m2)+
  ultimately show ?thesis using b5 d' io unfolding ops_def
    by (intro exI [of _ "fst (scheduler_end i out None None m6)"] exI [of _ m6] exI [of _ d'] exI [of _ ps'])
      (simp add: scheduler_end_def m6_def got_def is_replica_of)
qed

text \<open>A command at the start of a stream, when no time stamp has been seen on the input port: the code means to
  process it at once, but adds 1000 to the unknown time before it compares it with the unknown time, and so
  asks the clock for a call at a time of its own. The command is not processed, and its buffer stays with the clock until
  the clock runs.\<close>

theorem scheduler_first_command_waits:
  assumes "scheduler_ports c i out k m" and "module_holds i m (x # xs)" and "bh_cmd (bufs m x) \<noteq> 0"
    and "last_ts (pmod_at m i) = MMAL_TIME_UNKNOWN" and "clock_ready k d a fs ps m"
  shows "\<exists>m' d' ps'. scheduler_component_process_buffers ops c m = Some (True, m')
    \<and> client_of m' = client_of m \<and> port_at m' = port_at m \<and> module_holds i m' xs
    \<and> clk_clock (clk_at m' k) = Some d' \<and> clock_slots d' fs ps' \<and> mset ps' = add_mset a (mset ps)
    \<and> reqs d' = (reqs d)(a := request_for d (MMAL_TIME_UNKNOWN + 1000) x)"
proof -
  note p = assms(1) [unfolded scheduler_ports_def]
  obtain m1 where m1: "module_get i m = Some (Some x, m1)" "module_holds i m1 xs" "bufs m1 = bufs m"
    "port_at m1 = port_at m" "component_at m1 = component_at m" "client_of m1 = client_of m"
    using module_get_cons [OF assms(2)] by blast
  have ts: "last_ts (pmod_at m1 i) = MMAL_TIME_UNKNOWN"
    using m1(1) assms(4) by (auto simp: module_get_def split: Option.bind_splits)
  have t: "s64 (MMAL_TIME_UNKNOWN + 1000) = MMAL_TIME_UNKNOWN + 1000" "MMAL_TIME_UNKNOWN + 1000 \<noteq> MMAL_TIME_UNKNOWN"
    by (simp_all add: MMAL_TIME_UNKNOWN_def s64_def)
  define m2 where "m2 = upd_buf x (\<lambda>r. r\<lparr>bh_pts := MMAL_TIME_UNKNOWN + 1000\<rparr>) m1"
  have "clock_ready k d a fs ps m2"
    using assms(5) module_get_clocks(1) [OF m1(1)] by (simp add: clock_ready_def m2_def)
  then obtain d' ps' where d': "mmal_port_clock_request_add k (MMAL_TIME_UNKNOWN + 1000) scheduler_request_fn (Some x) m2
      = Some (MMAL_SUCCESS, upd_clk k (\<lambda>x. x\<lparr>clk_clock := Some d'\<rparr>) m2)"
    "clock_slots d' fs ps'" "mset ps' = add_mset a (mset ps)" "reqs d' = (reqs d)(a := request_for d (MMAL_TIME_UNKNOWN + 1000) x)"
    by (rule port_request_add)
  define m3 where "m3 = upd_clk k (\<lambda>x. x\<lparr>clk_clock := Some d'\<rparr>) m2"
  have "scheduler_component_process_buffers ops c m = Some (True, m3)"
    using p m1 assms(3) ts t d'(1)
    by (simp add: scheduler_component_process_buffers_def nth_port_def scheduler_process_command_def m2_def m3_def)
  moreover have "module_holds i m3 xs"
    by (rule module_holds_queue [OF m1(2)]) (simp_all add: m3_def m2_def)
  ultimately show ?thesis using m1 d'(2-4) by (intro exI [of _ m3] exI [of _ d'] exI [of _ ps']) (simp add: m3_def m2_def)
qed

subsection \<open>Examples\<close>

text \<open>A scheduler with the input port 3, the output port 4 and the clock port 5, whose clock is \<open>d\<close>.\<close>

definition demo_scheduler :: "clock \<Rightarrow> (addr \<Rightarrow> mmal_queue) \<Rightarrow> (addr \<Rightarrow> nat) \<Rightarrow> log mworld" where
  "demo_scheduler d queues cnt = upd_component 2 (\<lambda>r. r\<lparr>cp_input := [3], cp_output := [4], cp_clock := [5]\<rparr>)
     (upd_clk 5 (\<lambda>r. r\<lparr>clk_clock := Some d\<rparr>) (upd_port 5 (\<lambda>r. r\<lparr>pt_component := 2\<rparr>)
     (fold (\<lambda>p m. upd_pmod p (\<lambda>r. r\<lparr>pm_queue := Some (queues p), last_ts := MMAL_TIME_UNKNOWN\<rparr>)
         (upd_port p (\<lambda>r. with_count (cnt p) (r\<lparr>pt_component := 2, pf_send := Some scheduler_fn,
            pf_flush := Some scheduler_fn, pf_disable := Some scheduler_fn,
            capabilities := MMAL_PORT_CAPABILITY_PASSTHROUGH, buffer_header_callback := Some (ClientCb 0)\<rparr>)) m))
       [3, 4] (idle_world demo_modules))))"

lemma demo_scheduler_simps [simp]:
  "component_at (demo_scheduler d qs cnt) 2 = idle_component\<lparr>cp_input := [3], cp_output := [4], cp_clock := [5]\<rparr>"
  "cmod_at (demo_scheduler d qs cnt) 2 = new_component_module (Some 1)"
  "p \<in> {3, 4} \<Longrightarrow> pm_queue (pmod_at (demo_scheduler d qs cnt) p) = Some (qs p)"
  "p \<in> {3, 4} \<Longrightarrow> last_ts (pmod_at (demo_scheduler d qs cnt) p) = MMAL_TIME_UNKNOWN"
  "p \<in> {3, 4} \<Longrightarrow> counted n (port_at (demo_scheduler d qs cnt) p) \<longleftrightarrow> n = cnt p"
  "p \<in> {3, 4, 5} \<Longrightarrow> pt_component (port_at (demo_scheduler d qs cnt) p) = 2"
  "p \<in> {3, 4} \<Longrightarrow> capabilities (port_at (demo_scheduler d qs cnt) p) = MMAL_PORT_CAPABILITY_PASSTHROUGH"
  "p \<in> {3, 4} \<Longrightarrow> buffer_header_callback (port_at (demo_scheduler d qs cnt) p) = Some (ClientCb 0)"
  "p \<in> {3, 4} \<Longrightarrow> wired \<lparr>w_send = scheduler_fn, w_flush = scheduler_fn, w_disable = scheduler_fn, w_client = 0\<rparr>
      (port_at (demo_scheduler d qs cnt) p)"
  "clk_at (demo_scheduler d qs cnt) 5 = demo_clock_port\<lparr>clk_clock := Some d\<rparr>"
  "bufs (demo_scheduler d qs cnt) b = bufs (idle_world ()) b" "client_of (demo_scheduler d qs cnt) = []"
  by (auto simp: demo_scheduler_def wired_def)
    (auto simp: upd_clk_def idle_world_def idle_env_def module_defs clk_at_def demo_modules_def counted_iff with_count_def)

lemma demo_scheduler_queue:
  "p \<in> {3, 4} \<Longrightarrow> qs p = empty_queue \<Longrightarrow> module_holds p (demo_scheduler d qs cnt) []"
  "p \<in> {3, 4} \<Longrightarrow> qs p = one_queue b \<Longrightarrow> module_holds p (demo_scheduler d qs cnt) [b]"
  by (simp_all add: module_holds_def empty_queue_def one_queue_def qrep_def idle_world_def zero_header_def)

text \<open>A clock without requests, and one whose 32 requests are for the buffers 0 to 31.\<close>

definition free_clock :: clock where
  "free_clock = (demo_clock 600)\<lparr>list_free := list_pending (demo_clock 600), list_pending := list_free (demo_clock 600)\<rparr>"

definition waiting_clock :: clock where
  "waiting_clock = (demo_clock 600)\<lparr>reqs := (\<lambda>i. (reqs (demo_clock 600) i)\<lparr>rq_priv := Some scheduler_request_fn,
     rq_cb_data := Some i\<rparr>)\<rparr>"

lemma free_clock_slots: "clock_slots free_clock [0..<32] []"
  using demo_clock_slots [of 600]
  by (auto simp: clock_slots_def clock_lists_def free_clock_def demo_clock_def ml.two_lists_def)

lemma free_clock_ready:
  "clock_ready 5 free_clock 0 [1..<32] [] (demo_scheduler free_clock qs cnt)"
proof -
  have "(0 :: nat) # [1..<32] = [0..<32]" using upt_conv_Cons [of 0 "32 :: nat"] by simp
  then have "clock_slots free_clock (0 # [1..<32]) []" using free_clock_slots by metis
  then show ?thesis by (simp add: clock_ready_def) (simp add: demo_clock_port_def free_clock_def demo_clock_def zero_clock_def)
qed


theorem scheduler_schedules_witness:
  "\<exists>again m'. scheduler_component_process_buffers (scheduler_format_ops noting_ops) 2
      (demo_scheduler free_clock (empty_queues(3 := one_queue 11, 4 := one_queue 12)) (\<lambda>_. 1)) = Some (again, m')
    \<and> got 3 m' = [11] \<and> got 4 m' = [] \<and> reference (bufs m' 12) = Some 11"
proof -
  let ?m = "demo_scheduler free_clock (empty_queues(3 := one_queue 11, 4 := one_queue 12)) (\<lambda>_. 1)"
  have s: "scheduler_ports 2 3 4 5 ?m" by (simp add: scheduler_ports_def)
  have h: "module_holds 3 ?m [11]" "module_holds 4 ?m [12]" by (simp_all add: demo_scheduler_queue)
  have b: "bh_cmd (bufs ?m 11) = 0" "reference (bufs ?m 12) = None" by (simp_all add: idle_world_def zero_header_def)
  from scheduler_schedules [OF s h b(1) _ b(2) _ free_clock_ready, of 0 0] show ?thesis
    by (force simp: got_def is_replica_def MMAL_PORT_CAPABILITY_PASSTHROUGH_def)
qed

theorem scheduler_first_command_waits_witness:
  "\<exists>m' d'. scheduler_component_process_buffers noting_ops 2
      (upd_buf 11 (\<lambda>r. r\<lparr>bh_cmd := 1\<rparr>) (demo_scheduler free_clock (empty_queues(3 := one_queue 11)) (\<lambda>_. 1))) = Some (True, m')
    \<and> client_of m' = [] \<and> clk_clock (clk_at m' 5) = Some d' \<and> rq_cb_data (reqs d' 0) = Some 11"
proof -
  let ?w = "demo_scheduler free_clock (empty_queues(3 := one_queue 11)) (\<lambda>_. 1)"
  let ?m = "upd_buf 11 (\<lambda>r. r\<lparr>bh_cmd := 1\<rparr>) ?w"
  have s: "scheduler_ports 2 3 4 5 ?m" by (simp add: scheduler_ports_def)
  have h0: "module_holds 3 ?w [11]" by (simp add: demo_scheduler_queue)
  have h: "module_holds 3 ?m [11]" by (rule module_holds_queue [OF h0]) simp_all
  have r: "clock_ready 5 free_clock 0 [1..<32] [] ?m"
    using free_clock_ready [of "empty_queues(3 := one_queue 11)" "\<lambda>_. 1"] by (simp add: clock_ready_def)
  from scheduler_first_command_waits [OF s h _ _ r, of noting_ops] show ?thesis
    by (force simp: request_for_def)
qed

end
