(* ===== verification/ConnUtil.thy ===== *)
theory ConnUtil
  imports Scheduler
begin

text \<open>
  util/mmal_connection.c: connections made by a client of two ports. A connection has a pool, whose empty
  buffers go to the output port, and a queue of the buffers that the output port has filled, which go to the input
  port; the client of the connection moves them, when the connection signals that there are some.

  A connection is a client of its ports: the state \<open>conn_env\<close> of connections, with what the ports have in
  their field \<open>userdata\<close>, is the client's part of the world. \<open>conn_callbacks\<close> resolves the callbacks that the clients of
  connections set.
\<close>

subsection \<open>State\<close>

record connection =
  cn_callback :: "nat option"
  cn_enabled :: bool
  cn_flags :: u32
  cn_in :: addr
  cn_out :: addr
  cn_pool :: ptr
  cn_queue :: "mmal_queue option"
  time_setup :: int
  time_enable :: int
  time_disable :: int
  cn_pool_port :: ptr
  cn_refcount :: int

record 'u conn_env =
  connections :: "addr \<Rightarrow> connection"
  port_userdata :: "addr \<Rightarrow> ptr"
  user :: 'u

type_synonym 'u cworld = "'u conn_env mworld"
type_synonym 'u conn_callbacks = "nat \<Rightarrow> addr \<Rightarrow> 'u cworld \<Rightarrow> 'u cworld option"
type_synonym 'u conn_ops = "'u conn_env module_env port_ops"

definition conn_at :: "'u cworld \<Rightarrow> addr \<Rightarrow> connection" where
  "conn_at m c = connections (client_of m) c"

definition upd_conn :: "addr \<Rightarrow> (connection \<Rightarrow> connection) \<Rightarrow> 'u cworld \<Rightarrow> 'u cworld" where
  "upd_conn c f = upd_client (\<lambda>x. x\<lparr>connections := (connections x)(c := f (connections x c))\<rparr>)"

definition userdata_at :: "'u cworld \<Rightarrow> addr \<Rightarrow> ptr" where
  "userdata_at m p = port_userdata (client_of m) p"

definition set_userdata :: "addr \<Rightarrow> ptr \<Rightarrow> 'u cworld \<Rightarrow> 'u cworld" where
  "set_userdata p u = upd_client (\<lambda>x. x\<lparr>port_userdata := (port_userdata x)(p := u)\<rparr>)"

definition user_of :: "'u cworld \<Rightarrow> 'u" where "user_of m = user (client_of m)"

definition MMAL_CONNECTION_FLAG_TUNNELLING :: u32 where "MMAL_CONNECTION_FLAG_TUNNELLING = 0x1"
definition MMAL_CONNECTION_FLAG_ALLOCATION_ON_INPUT :: u32 where "MMAL_CONNECTION_FLAG_ALLOCATION_ON_INPUT = 0x2"
definition MMAL_CONNECTION_FLAG_ALLOCATION_ON_OUTPUT :: u32 where "MMAL_CONNECTION_FLAG_ALLOCATION_ON_OUTPUT = 0x4"
definition MMAL_CONNECTION_FLAG_KEEP_BUFFER_REQUIREMENTS :: u32 where
  "MMAL_CONNECTION_FLAG_KEEP_BUFFER_REQUIREMENTS = 0x8"
definition MMAL_CONNECTION_FLAG_DIRECT :: u32 where "MMAL_CONNECTION_FLAG_DIRECT = 0x10"

definition tunnelling :: "connection \<Rightarrow> bool" where
  "tunnelling c \<longleftrightarrow> cn_flags c AND MMAL_CONNECTION_FLAG_TUNNELLING \<noteq> 0"

text \<open>The time in microseconds, as the code stores it.\<close>

definition time_now :: "'u conn_ops \<Rightarrow> 'u cworld \<Rightarrow> int" where
  "time_now ops m = uint (getmicrosecs ops (env (ctx m)))"

subsection \<open>Callbacks\<close>

text \<open>The numbers of the functions that the connection gives to its ports and to its pool.\<close>

definition conn_clock_fn :: nat where "conn_clock_fn = 70"
definition conn_in_fn :: nat where "conn_in_fn = 71"
definition conn_out_fn :: nat where "conn_out_fn = 72"
definition conn_release_fn :: nat where "conn_release_fn = 73"

definition conn_signal :: "'u conn_callbacks \<Rightarrow> addr \<Rightarrow> 'u cworld \<Rightarrow> 'u cworld option" where
  "conn_signal cbs c m = (case cn_callback (conn_at m c) of None \<Rightarrow> Some m | Some f \<Rightarrow> cbs f c m)"

text \<open>The queue of a connection and the queue of a pool.\<close>

definition conn_put :: "addr \<Rightarrow> addr \<Rightarrow> 'u cworld \<Rightarrow> 'u cworld" where
  "conn_put c b m =
     (let (q, h) = mmal_queue_put (cn_queue (conn_at m c)) (bufs m) (Some b)
      in upd_conn c (\<lambda>r. r\<lparr>cn_queue := q\<rparr>) (m\<lparr>bufs := h\<rparr>))"

definition conn_get :: "addr \<Rightarrow> 'u cworld \<Rightarrow> (ptr \<times> 'u cworld) option" where
  "conn_get c m = do {
     (buffer, q) \<leftarrow> mmal_queue_get (cn_queue (conn_at m c)) (bufs m);
     Some (buffer, upd_conn c (\<lambda>r. r\<lparr>cn_queue := q\<rparr>) m)
   }"

definition pool_put :: "addr \<Rightarrow> addr \<Rightarrow> 'm world \<Rightarrow> 'm world" where
  "pool_put pool b m =
     (let (q, h) = mmal_queue_put (p_queue (pool_at m pool)) (bufs m) (Some b)
      in upd_pool pool (\<lambda>r. r\<lparr>p_queue := q\<rparr>) (m\<lparr>bufs := h\<rparr>))"

definition pool_get :: "addr \<Rightarrow> 'm world \<Rightarrow> (ptr \<times> 'm world) option" where
  "pool_get pool m = do {
     (buffer, q) \<leftarrow> mmal_queue_get (p_queue (pool_at m pool)) (bufs m);
     Some (buffer, upd_pool pool (\<lambda>r. r\<lparr>p_queue := q\<rparr>) m)
   }"

definition mmal_connection_bh_clock_cb :: "'u conn_ops \<Rightarrow> addr \<Rightarrow> addr \<Rightarrow> 'u cworld \<Rightarrow> 'u cworld option" where
  "mmal_connection_bh_clock_cb ops p b m = do {
     c \<leftarrow> userdata_at m p;
     let other_port = (if p = cn_in (conn_at m c) then cn_out (conn_at m c) else cn_in (conn_at m c));
     if pt_enabled (port_at m other_port) then do {
       (status, m) \<leftarrow> mmal_port_send_buffer ops (Some other_port) b m;
       if status \<noteq> MMAL_SUCCESS then release_buffer ops b m else Some m
     }
     else release_buffer ops b m
   }"

definition mmal_connection_bh_in_cb :: "'u conn_ops \<Rightarrow> addr \<Rightarrow> addr \<Rightarrow> 'u cworld \<Rightarrow> 'u cworld option" where
  "mmal_connection_bh_in_cb ops p b m = release_buffer ops b m"

definition mmal_connection_bh_out_cb :: "'u conn_callbacks \<Rightarrow> addr \<Rightarrow> addr \<Rightarrow> 'u cworld \<Rightarrow> 'u cworld option" where
  "mmal_connection_bh_out_cb cbs p b m = do {
     c \<leftarrow> userdata_at m p;
     conn_signal cbs c (conn_put c b m)
   }"

text \<open>The result of the callback of the pool is that the pool need not queue the buffer itself.\<close>

definition mmal_connection_bh_release_cb ::
    "'u conn_callbacks \<Rightarrow> addr \<Rightarrow> addr \<Rightarrow> ptr \<Rightarrow> 'u cworld \<Rightarrow> (bool \<times> 'u cworld) option" where
  "mmal_connection_bh_release_cb cbs pool b userdata m = do {
     c \<leftarrow> userdata;
     map_option (Pair False) (conn_signal cbs c (pool_put pool b m))
   }"

text \<open>The connections as a client: \<open>ops0\<close> are the functions that their callbacks call.\<close>

definition connection_pool_ops :: "'u conn_callbacks \<Rightarrow> 'u conn_ops \<Rightarrow> 'u conn_ops" where
  "connection_pool_ops cbs ops0 = ops0\<lparr>
     f_pool_cb := (\<lambda>f pool b u m. if f = conn_release_fn then mmal_connection_bh_release_cb cbs pool b u m
                                  else f_pool_cb ops0 f pool b u m)\<rparr>"

definition connection_ops :: "'u conn_callbacks \<Rightarrow> 'u conn_ops \<Rightarrow> 'u conn_ops" where
  "connection_ops cbs ops0 =
     (let ops = connection_pool_ops cbs ops0 in ops\<lparr>
        f_client_cb := (\<lambda>f p b m.
          if f = conn_clock_fn then mmal_connection_bh_clock_cb ops p b m
          else if f = conn_in_fn then mmal_connection_bh_in_cb ops p b m
          else if f = conn_out_fn then mmal_connection_bh_out_cb cbs p b m
          else f_client_cb ops0 f p b m)\<rparr>)"

subsection \<open>Enabling\<close>

text \<open>The recommended buffer requirements, where a port has some.\<close>

definition use_recommended :: "mmal_port \<Rightarrow> mmal_port" where
  "use_recommended r = r\<lparr>
     buffer_num := (if buffer_num_recommended r \<noteq> 0 then buffer_num_recommended r else buffer_num r),
     buffer_size := (if buffer_size_recommended r \<noteq> 0 then buffer_size_recommended r else buffer_size r)\<rparr>"

text \<open>The loop that sends the buffers of the pool to two clock ports in turn.\<close>

partial_function (option) conn_populate_clocks ::
    "'u conn_ops \<Rightarrow> addr \<Rightarrow> addr \<Rightarrow> addr \<Rightarrow> 'u cworld \<Rightarrow> 'u cworld option" where
  "conn_populate_clocks ops pool first second m =
     Option.bind (pool_get pool m) (\<lambda>r.
       if fst r = None then Some (snd r)
       else Option.bind (mmal_port_send_buffer ops (Some first) (the (fst r)) (snd r))
              (\<lambda>s. conn_populate_clocks ops pool second first (snd s)))"

definition conn_port_cb :: "nat \<Rightarrow> mmal_port \<Rightarrow> port_cb option" where
  "conn_port_cb f r = Some (ClientCb (if pt_type r = MMAL_PORT_TYPE_CLOCK then conn_clock_fn else f))"

text \<open>What follows the test of the tunnelling flag, up to the label \<open>done\<close>.\<close>

definition conn_enable_ports :: "'u conn_ops \<Rightarrow> addr \<Rightarrow> 'u cworld \<Rightarrow> (mmal_status \<times> 'u cworld) option" where
  "conn_enable_ports ops c m =
     (let p = cn_in (conn_at m c);
          out = cn_out (conn_at m c);
          num = max (buffer_num (port_at m out)) (buffer_num (port_at m p));
          sz = max (buffer_size (port_at m out)) (buffer_size (port_at m p));
          m = upd_port out (\<lambda>r. r\<lparr>buffer_num := num, buffer_size := sz\<rparr>)
                (upd_port p (\<lambda>r. r\<lparr>buffer_num := num, buffer_size := sz\<rparr>) m);
          sz = (if capabilities (port_at m out) AND MMAL_PORT_CAPABILITY_PASSTHROUGH \<noteq> 0 then 0 else sz)
      in do {
        (status, m) \<leftarrow> mmal_pool_resize (port_pool_ops ops) (ops_abi ops) (cn_pool (conn_at m c)) num sz m;
        if status \<noteq> MMAL_SUCCESS then Some (status, m)
        else do {
          (status, m) \<leftarrow> mmal_port_enable ops (Some out) (conn_port_cb conn_out_fn (port_at m out)) m;
          if status \<noteq> MMAL_SUCCESS then Some (status, m)
          else do {
            (status, m) \<leftarrow> mmal_port_enable ops (Some p) (conn_port_cb conn_in_fn (port_at m p)) m;
            if status \<noteq> MMAL_SUCCESS
            then map_option (\<lambda>(_, m). (status, m)) (mmal_port_disable ops (Some out) m)
            else if pt_type (port_at m out) = MMAL_PORT_TYPE_CLOCK \<and> pt_type (port_at m p) = MMAL_PORT_TYPE_CLOCK
            then do {
              pool \<leftarrow> cn_pool (conn_at m c);
              map_option (Pair status) (conn_populate_clocks ops pool out p m)
            }
            else Some (status, m)
          }
        }
      })"

definition mmal_connection_enable :: "'u conn_ops \<Rightarrow> addr \<Rightarrow> 'u cworld \<Rightarrow> (mmal_status \<times> 'u cworld) option" where
  "mmal_connection_enable ops c m =
     (if cn_enabled (conn_at m c) then Some (MMAL_SUCCESS, m)
      else
        let p = cn_in (conn_at m c);
            out = cn_out (conn_at m c);
            now = time_now ops m;
            m = upd_conn c (\<lambda>r. r\<lparr>time_enable := now\<rparr>) m;
            m = (if cn_flags (conn_at m c) AND MMAL_CONNECTION_FLAG_KEEP_BUFFER_REQUIREMENTS = 0
                 then upd_port p use_recommended (upd_port out use_recommended m) else m)
        in do {
          (status, m) \<leftarrow> (if tunnelling (conn_at m c) then mmal_port_enable ops (Some out) None m
                          else conn_enable_ports ops c m);
          let now = time_now ops m;
          Some (status, upd_conn c (\<lambda>r. r\<lparr>time_enable := now - time_enable r, cn_enabled := (status = MMAL_SUCCESS)\<rparr>) m)
        })"

subsection \<open>Disabling\<close>

partial_function (option) conn_flush_queue :: "'u conn_ops \<Rightarrow> addr \<Rightarrow> 'u cworld \<Rightarrow> 'u cworld option" where
  "conn_flush_queue ops c m =
     Option.bind (conn_get c m) (\<lambda>r.
       if fst r = None then Some (snd r)
       else Option.bind (release_buffer ops (the (fst r)) (snd r)) (conn_flush_queue ops c))"

text \<open>The steps for ports that are not tunnelled. At the end the code asserts that all the headers of the pool are in its
  queue.\<close>

definition conn_disable_ports :: "'u conn_ops \<Rightarrow> addr \<Rightarrow> 'u cworld \<Rightarrow> (mmal_status \<times> 'u cworld) option" where
  "conn_disable_ports ops c m = do {
     (status, m) \<leftarrow> mmal_port_disable ops (Some (cn_in (conn_at m c))) m;
     if status \<noteq> MMAL_SUCCESS then Some (status, m)
     else do {
       (status, m) \<leftarrow> mmal_port_disable ops (Some (cn_out (conn_at m c))) m;
       if status \<noteq> MMAL_SUCCESS then Some (status, m)
       else do {
         m \<leftarrow> conn_flush_queue ops c m;
         pool \<leftarrow> cn_pool (conn_at m c);
         if mmal_queue_length (p_queue (pool_at m pool)) = headers_num (pool_at m pool) then Some (status, m)
         else None
       }
     }
   }"

definition mmal_connection_disable :: "'u conn_ops \<Rightarrow> addr \<Rightarrow> 'u cworld \<Rightarrow> (mmal_status \<times> 'u cworld) option" where
  "mmal_connection_disable ops c m =
     (if \<not> cn_enabled (conn_at m c) then Some (MMAL_SUCCESS, m)
      else
        let now = time_now ops m;
            m = upd_conn c (\<lambda>r. r\<lparr>time_disable := now\<rparr>) m
        in do {
          (status, m) \<leftarrow> (if tunnelling (conn_at m c) then mmal_port_disable ops (Some (cn_out (conn_at m c))) m
                          else conn_disable_ports ops c m);
          let now = time_now ops m;
          Some (status, upd_conn c (\<lambda>r. r\<lparr>time_disable := now - time_disable r, cn_enabled := (status \<noteq> MMAL_SUCCESS)\<rparr>) m)
        })"

subsection \<open>Creation and destruction\<close>

definition mmal_connection_destroy_internal ::
    "'u conn_ops \<Rightarrow> addr \<Rightarrow> 'u cworld \<Rightarrow> (mmal_status \<times> 'u cworld) option" where
  "mmal_connection_destroy_internal ops c m = do {
     (status, m) \<leftarrow> (if cn_enabled (conn_at m c) then mmal_connection_disable ops c m else Some (MMAL_SUCCESS, m));
     if status \<noteq> MMAL_SUCCESS then Some (status, m)
     else do {
       (_, m) \<leftarrow> (if tunnelling (conn_at m c) then mmal_port_disconnect ops (Some (cn_out (conn_at m c))) m
                   else Some (MMAL_SUCCESS, m));
       m \<leftarrow> mmal_pool_destroy (port_pool_ops ops) (cn_pool (conn_at m c)) m;
       let m = upd_conn c (\<lambda>r. r\<lparr>cn_queue := mmal_queue_destroy (cn_queue r)\<rparr>) m;
       Some (MMAL_SUCCESS, upd_env (core_free c) m)
     }
   }"

definition mmal_connection_destroy :: "'u conn_ops \<Rightarrow> addr \<Rightarrow> 'u cworld \<Rightarrow> (mmal_status \<times> 'u cworld) option" where
  "mmal_connection_destroy ops c m =
     (let m = upd_conn c (\<lambda>r. r\<lparr>cn_refcount := s32 (cn_refcount r - 1)\<rparr>) m in
      if cn_refcount (conn_at m c) \<noteq> 0 then Some (MMAL_SUCCESS, m)
      else mmal_connection_destroy_internal ops c m)"

definition mmal_connection_acquire :: "addr \<Rightarrow> 'u cworld \<Rightarrow> 'u cworld" where
  "mmal_connection_acquire c = upd_conn c (\<lambda>r. r\<lparr>cn_refcount := s32 (cn_refcount r + 1)\<rparr>)"

definition mmal_connection_release :: "'u conn_ops \<Rightarrow> addr \<Rightarrow> 'u cworld \<Rightarrow> (mmal_status \<times> 'u cworld) option" where
  "mmal_connection_release ops c m =
     (let m = upd_conn c (\<lambda>r. r\<lparr>cn_refcount := s32 (cn_refcount r - 1)\<rparr>) m in
      if cn_refcount (conn_at m c) \<noteq> 0 then Some (MMAL_SUCCESS, m)
      else mmal_connection_destroy_internal ops c m)"

text \<open>The contents of a new connection.\<close>

definition new_connection :: "addr \<Rightarrow> addr \<Rightarrow> u32 \<Rightarrow> int \<Rightarrow> connection" where
  "new_connection out p flags now = \<lparr>cn_callback = None, cn_enabled = False, cn_flags = flags, cn_in = p, cn_out = out,
     cn_pool = None, cn_queue = None, time_setup = now, time_enable = 0, time_disable = 0, cn_pool_port = None,
     cn_refcount = 1\<rparr>"

text \<open>The formats and the buffer requirements of the two ports.\<close>

definition conn_formats :: "'u conn_ops \<Rightarrow> addr \<Rightarrow> addr \<Rightarrow> 'u cworld \<Rightarrow> (mmal_status \<times> 'u cworld) option" where
  "conn_formats ops out p m = do {
     (status, m) \<leftarrow> format_full_copy (pt_format (port_at m p)) (pt_format (port_at m out)) m;
     (status, m) \<leftarrow> (if status = MMAL_SUCCESS then mmal_port_format_commit ops (Some p) m else Some (status, m));
     if status \<noteq> MMAL_SUCCESS then Some (status, m)
     else if capabilities (port_at m out) AND MMAL_PORT_CAPABILITY_PASSTHROUGH \<noteq> 0 then do {
       let r = port_at m p;
       (status, m) \<leftarrow> mmal_port_parameter_set ops (Some out) (Some (ParamBufferRequirements (buffer_num_min r)
           (buffer_size_min r) (buffer_num_recommended r) (buffer_size_recommended r))) m;
       Some (if status = MMAL_ENOSYS then MMAL_SUCCESS else status, m)
     }
     else Some (status, m)
   }"

text \<open>The port whose allocator the pool uses.\<close>

definition conn_pool_port :: "addr \<Rightarrow> addr \<Rightarrow> u32 \<Rightarrow> 'u cworld \<Rightarrow> addr" where
  "conn_pool_port out p flags m =
     (if flags AND MMAL_CONNECTION_FLAG_ALLOCATION_ON_OUTPUT \<noteq> 0 then out
      else if flags AND MMAL_CONNECTION_FLAG_ALLOCATION_ON_INPUT \<noteq> 0 then p
      else if capabilities (port_at m p) AND MMAL_PORT_CAPABILITY_ALLOCATION \<noteq> 0 then p else out)"

text \<open>The pool and the queue; the result is whether both could be created.\<close>

definition conn_resources :: "'u conn_ops \<Rightarrow> addr \<Rightarrow> 'u cworld \<Rightarrow> (bool \<times> 'u cworld) option" where
  "conn_resources ops c m = do {
     let r = conn_at m c;
     let pool_port = conn_pool_port (cn_out r) (cn_in r) (cn_flags r) m;
     let m = upd_conn c (\<lambda>r. r\<lparr>cn_pool_port := Some pool_port\<rparr>) m;
     (pool, m) \<leftarrow> mmal_port_pool_create ops (Some pool_port) 0 0 m;
     let m = upd_conn c (\<lambda>r. r\<lparr>cn_pool := pool\<rparr>) m;
     (case pool of
        None \<Rightarrow> Some (False, m)
      | Some a \<Rightarrow>
          let m = mmal_pool_callback_set a (Some conn_release_fn) (Some c) m;
              (b1, b2, b3) = queue_parts_ok ops (env (ctx m));
              queue = mmal_queue_create b1 b2 b3
          in Some (queue \<noteq> None, upd_conn c (\<lambda>r. r\<lparr>cn_queue := queue\<rparr>) m))
   }"

text \<open>The labels \<open>done\<close>, which sets \<open>*cx\<close>, and \<open>error\<close>. The result is the status and the connection that the caller
  gets.\<close>

definition conn_create_done ::
    "'u conn_ops \<Rightarrow> addr \<Rightarrow> mmal_status \<Rightarrow> 'u cworld \<Rightarrow> (mmal_status \<times> ptr \<times> 'u cworld) option" where
  "conn_create_done ops c status m =
     (let m = set_userdata (cn_in (conn_at m c)) (Some c) (set_userdata (cn_out (conn_at m c)) (Some c) m);
          now = time_now ops m
      in Some (status, Some c, upd_conn c (\<lambda>r. r\<lparr>time_setup := now - time_setup r\<rparr>) m))"

definition conn_create_error ::
    "'u conn_ops \<Rightarrow> addr \<Rightarrow> mmal_status \<Rightarrow> 'u cworld \<Rightarrow> (mmal_status \<times> ptr \<times> 'u cworld) option" where
  "conn_create_error ops c status m =
     map_option (\<lambda>(_, m). (if status = MMAL_SUCCESS then MMAL_ENOMEM else status, None, m))
       (mmal_connection_destroy_internal ops c m)"

text \<open>\<open>cx\<close> says whether the caller passed a place for the connection.\<close>

definition mmal_connection_create ::
    "'u conn_ops \<Rightarrow> bool \<Rightarrow> addr \<Rightarrow> addr \<Rightarrow> u32 \<Rightarrow> 'u cworld \<Rightarrow> (mmal_status \<times> ptr \<times> 'u cworld) option" where
  "mmal_connection_create ops cx out p flags m =
     (if \<not> cx then Some (MMAL_EINVAL, None, m)
      else
        let (block, e) = core_malloc (env (ctx m));
            m = set_env e m
        in
          (case block of
             None \<Rightarrow> Some (MMAL_ENOMEM, None, m)
           | Some c \<Rightarrow> do {
               let now = time_now ops m;
               let m = upd_conn c (\<lambda>_. new_connection out p flags now) m;
               (status, m) \<leftarrow> conn_formats ops out p m;
               if status \<noteq> MMAL_SUCCESS then conn_create_error ops c status m
               else if tunnelling (conn_at m c) then do {
                 (status, m) \<leftarrow> mmal_port_connect ops (Some out) (Some p) m;
                 conn_create_done ops c status m
               }
               else do {
                 (ok, m) \<leftarrow> conn_resources ops c m;
                 if ok then conn_create_done ops c status m else conn_create_error ops c status m
               }
             }))"

subsection \<open>Changes of format\<close>

text \<open>A format copied to a port and committed.\<close>

definition conn_commit :: "'u conn_ops \<Rightarrow> addr \<Rightarrow> ptr \<Rightarrow> 'u cworld \<Rightarrow> (mmal_status \<times> 'u cworld) option" where
  "conn_commit ops p fmt m = do {
     (status, m) \<leftarrow> format_full_copy (pt_format (port_at m p)) fmt m;
     if status = MMAL_SUCCESS then mmal_port_format_commit ops (Some p) m else Some (status, m)
   }"

definition mmal_connection_reconfigure ::
    "'u conn_ops \<Rightarrow> addr \<Rightarrow> ptr \<Rightarrow> 'u cworld \<Rightarrow> (mmal_status \<times> 'u cworld) option" where
  "mmal_connection_reconfigure ops c fmt m = do {
     (status, m) \<leftarrow> mmal_connection_disable ops c m;
     if status \<noteq> MMAL_SUCCESS then Some (status, m)
     else do {
       (status, m) \<leftarrow> conn_commit ops (cn_out (conn_at m c)) fmt m;
       if status \<noteq> MMAL_SUCCESS then Some (status, m)
       else do {
         (status, m) \<leftarrow> conn_commit ops (cn_in (conn_at m c)) (pt_format (port_at m (cn_out (conn_at m c)))) m;
         if status \<noteq> MMAL_SUCCESS then Some (status, m)
         else mmal_connection_enable ops c m
       }
     }
   }"

definition mmal_connection_event_format_changed ::
    "'u conn_ops \<Rightarrow> addr \<Rightarrow> addr \<Rightarrow> 'u cworld \<Rightarrow> (mmal_status \<times> 'u cworld) option" where
  "mmal_connection_event_format_changed ops c b m =
     (if bh_cmd (bufs m b) \<noteq> MMAL_EVENT_FORMAT_CHANGED then Some (MMAL_EINVAL, m)
      else do {
        (event, m) \<leftarrow> mmal_event_format_changed_get b m;
        (case event of
           None \<Rightarrow> Some (MMAL_EINVAL, m)
         | Some fmt \<Rightarrow> do {
             a \<leftarrow> bh_data (bufs m b);
             let p = cn_in (conn_at m c);
             let out = cn_out (conn_at m c);
             (size_min, num_min) \<leftarrow> (case event_mem (env (ctx m)) a of
                EventFormatChanged size_min num_min _ _ \<Rightarrow> Some (size_min, num_min) | _ \<Rightarrow> None);
             if capabilities (port_at m p) AND MMAL_PORT_CAPABILITY_SUPPORTS_EVENT_FORMAT_CHANGE \<noteq> 0
                \<and> size_min \<le> buffer_size (port_at m out) \<and> num_min \<le> buffer_num (port_at m out)
             then do {
               (status, m) \<leftarrow> conn_commit ops out (Some fmt) m;
               if status \<noteq> MMAL_SUCCESS then Some (status, m)
               else do {
                 (status, m) \<leftarrow> mmal_port_send_buffer ops (Some p) b (mmal_buffer_header_acquire b m);
                 if status \<noteq> MMAL_SUCCESS then map_option (Pair status) (release_buffer ops b m)
                 else Some (MMAL_SUCCESS, m)
               }
             }
             else mmal_connection_reconfigure ops c (Some fmt) m
           })
      })"

end
