(* ===== verification/ConnFlow.thy ===== *)
theory ConnFlow
  imports ConnUtil SchedulerFlow
begin

text \<open>
  Where the buffers of a connection are. A buffer of its pool waits in the queue of the pool, in the queue of the
  connection, or in one of the two ports; the callbacks of the connection and the operations of its client move it from
  one place to another, and disabling the connection brings all the buffers back to the pool.
\<close>

lemma conn_simps [simp]:
  "bufs (upd_conn c f m) = bufs m" "port_at (upd_conn c f m) = port_at m" "pool_at (upd_conn c f m) = pool_at m"
  "component_at (upd_conn c f m) = component_at m" "pmod_at (upd_conn c f m) = pmod_at m"
  "cmod_at (upd_conn c f m) = cmod_at m"
  "conn_at (upd_conn c f m) = (conn_at m)(c := f (conn_at m c))"
  "userdata_at (upd_conn c f m) = userdata_at m" "user_of (upd_conn c f m) = user_of m"
  "conn_at (upd_port p g m) = conn_at m" "userdata_at (upd_port p g m) = userdata_at m"
  "conn_at (upd_pmod p h m) = conn_at m" "userdata_at (upd_pmod p h m) = userdata_at m"
  "conn_at (upd_buf b k m) = conn_at m" "userdata_at (upd_buf b k m) = userdata_at m"
  "conn_at (upd_pool q v m) = conn_at m" "userdata_at (upd_pool q v m) = userdata_at m"
  "conn_at (m\<lparr>bufs := bs\<rparr>) = conn_at m" "userdata_at (m\<lparr>bufs := bs\<rparr>) = userdata_at m"
  "user_of (upd_port p g m) = user_of m" "user_of (upd_pmod p h m) = user_of m" "user_of (upd_buf b k m) = user_of m"
  "user_of (upd_pool q v m) = user_of m" "user_of (m\<lparr>bufs := bs\<rparr>) = user_of m"
  by (simp_all add: upd_conn_def conn_at_def userdata_at_def user_of_def fun_eq_iff)

lemma tunnelling_simps [simp]:
  "tunnelling (r\<lparr>time_disable := t\<rparr>) = tunnelling r" "tunnelling (r\<lparr>time_enable := t\<rparr>) = tunnelling r"
  by (simp_all add: tunnelling_def)

subsection \<open>The places of a buffer\<close>

record conn_ids =
  id_conn :: addr
  id_pool :: addr
  id_in :: addr
  id_out :: addr

datatype place = InPool | InQueue | AtInput | AtOutput

fun place_queue :: "conn_ids \<Rightarrow> place \<Rightarrow> 'u cworld \<Rightarrow> mmal_queue option" where
  "place_queue k InPool m = p_queue (pool_at m (id_pool k))"
| "place_queue k InQueue m = cn_queue (conn_at m (id_conn k))"
| "place_queue k AtInput m = pm_queue (pmod_at m (id_in k))"
| "place_queue k AtOutput m = pm_queue (pmod_at m (id_out k))"

fun set_place :: "conn_ids \<Rightarrow> place \<Rightarrow> mmal_queue option \<Rightarrow> 'u cworld \<Rightarrow> 'u cworld" where
  "set_place k InPool q = upd_pool (id_pool k) (\<lambda>r. r\<lparr>p_queue := q\<rparr>)"
| "set_place k InQueue q = upd_conn (id_conn k) (\<lambda>r. r\<lparr>cn_queue := q\<rparr>)"
| "set_place k AtInput q = upd_pmod (id_in k) (\<lambda>r. r\<lparr>pm_queue := q\<rparr>)"
| "set_place k AtOutput q = upd_pmod (id_out k) (\<lambda>r. r\<lparr>pm_queue := q\<rparr>)"

definition put_at :: "conn_ids \<Rightarrow> place \<Rightarrow> addr \<Rightarrow> 'u cworld \<Rightarrow> 'u cworld" where
  "put_at k pl b m =
     (let (q, h) = mmal_queue_put (place_queue k pl m) (bufs m) (Some b) in set_place k pl q (m\<lparr>bufs := h\<rparr>))"

definition get_at :: "conn_ids \<Rightarrow> place \<Rightarrow> 'u cworld \<Rightarrow> (ptr \<times> 'u cworld) option" where
  "get_at k pl m = do {
     (buffer, q) \<leftarrow> mmal_queue_get (place_queue k pl m) (bufs m);
     Some (buffer, set_place k pl q m)
   }"

lemma put_places:
  "pool_put (id_pool k) b m = put_at k InPool b m" "conn_put (id_conn k) b m = put_at k InQueue b m"
  "module_put (id_in k) b m = put_at k AtInput b m" "module_put (id_out k) b m = put_at k AtOutput b m"
  by (simp_all add: pool_put_def conn_put_def module_put_def put_at_def)

lemma get_places:
  "pool_get (id_pool k) m = get_at k InPool m" "conn_get (id_conn k) m = get_at k InQueue m"
  "module_get (id_in k) m = get_at k AtInput m" "module_get (id_out k) m = get_at k AtOutput m"
  by (simp_all add: pool_get_def conn_get_def module_get_def get_at_def)

text \<open>A header as its pool handed it out.\<close>

definition pool_buffer :: "addr \<Rightarrow> mmal_buffer_header \<Rightarrow> bool" where
  "pool_buffer pool b \<longleftrightarrow> owner b = Some pool \<and> pf_release b = Some pool_release_fn \<and> refcount b = 1
     \<and> reference b = None \<and> pf_pre_release b = None"

lemma only_links_pool_buffer:
  assumes "only_links h h'"
  shows "pool_buffer p (h' b) = pool_buffer p (h b)"
proof -
  have "(h' b)\<lparr>bh_next := None\<rparr> = (h b)\<lparr>bh_next := None\<rparr>" using assms by (simp add: only_links_def)
  moreover have "pool_buffer p x = pool_buffer p (x\<lparr>bh_next := None\<rparr>)" for x by (simp add: pool_buffer_def)
  ultimately show ?thesis by metis
qed

text \<open>The fixed part of a connection, and which buffers are where.\<close>

definition conn_fixed :: "conn_ids \<Rightarrow> 'u cworld \<Rightarrow> bool" where
  "conn_fixed k m \<longleftrightarrow> cn_in (conn_at m (id_conn k)) = id_in k \<and> cn_out (conn_at m (id_conn k)) = id_out k
     \<and> cn_pool (conn_at m (id_conn k)) = Some (id_pool k) \<and> \<not> tunnelling (conn_at m (id_conn k)) \<and> id_in k \<noteq> id_out k
     \<and> p_cb (pool_at m (id_pool k)) = Some conn_release_fn \<and> p_userdata (pool_at m (id_pool k)) = Some (id_conn k)
     \<and> userdata_at m (id_out k) = Some (id_conn k)"

definition conn_rep :: "conn_ids \<Rightarrow> (place \<Rightarrow> addr list) \<Rightarrow> 'u cworld \<Rightarrow> bool" where
  "conn_rep k bs m \<longleftrightarrow> conn_fixed k m
     \<and> (\<forall>pl. \<exists>q. place_queue k pl m = Some q \<and> qrep (bufs m) q (bs pl) \<and> q_sem q = length (bs pl))
     \<and> (\<forall>pl pl'. pl \<noteq> pl' \<longrightarrow> set (bs pl) \<inter> set (bs pl') = {})
     \<and> (\<forall>pl. \<forall>b\<in>set (bs pl). pool_buffer (id_pool k) (bufs m b))"

lemma place_queue_set:
  assumes "id_in k \<noteq> id_out k"
  shows "place_queue k pl' (set_place k pl q m) = (if pl' = pl then q else place_queue k pl' m)"
  using assms by (cases pl; cases pl') simp_all

lemma place_queue_bufs [simp]: "place_queue k pl (m\<lparr>bufs := h\<rparr>) = place_queue k pl m"
  by (cases pl) simp_all

lemma set_place_simps [simp]:
  "bufs (set_place k pl q m) = bufs m" "port_at (set_place k pl q m) = port_at m"
  "component_at (set_place k pl q m) = component_at m"
  "userdata_at (set_place k pl q m) = userdata_at m" "user_of (set_place k pl q m) = user_of m"
  "headers_num (pool_at (set_place k pl q m) a) = headers_num (pool_at m a)"
  "cn_callback (conn_at (set_place k pl q m) c) = cn_callback (conn_at m c)"
  "cn_enabled (conn_at (set_place k pl q m) c) = cn_enabled (conn_at m c)"
  by (cases pl; simp)+

lemma conn_fixed_set [simp]: "conn_fixed k (set_place k pl q m) = conn_fixed k m"
  by (cases pl) (simp_all add: conn_fixed_def tunnelling_def)

lemma conn_fixed_simps [simp]:
  "conn_fixed k (m\<lparr>bufs := h\<rparr>) = conn_fixed k m" "conn_fixed k (upd_port p g m) = conn_fixed k m"
  "conn_fixed k (upd_buf b u m) = conn_fixed k m"
  by (simp_all add: conn_fixed_def pool_at_def upd_buf_def)

text \<open>What no movement of a buffer changes.\<close>

definition same_setup :: "'u cworld \<Rightarrow> 'u cworld \<Rightarrow> bool" where
  "same_setup m m' \<longleftrightarrow> (\<forall>a. headers_num (pool_at m' a) = headers_num (pool_at m a))
     \<and> (\<forall>c. cn_callback (conn_at m' c) = cn_callback (conn_at m c) \<and> cn_enabled (conn_at m' c) = cn_enabled (conn_at m c))"

lemma same_setup_simps [simp]:
  "same_setup m m" "same_setup m (set_place k pl q m)" "same_setup m (m\<lparr>bufs := h\<rparr>)" "same_setup m (upd_port p g m)"
  "same_setup m (upd_buf b f m)" "same_setup m (upd_client (\<lambda>x. x\<lparr>user := u\<rparr>) m)"
  by (simp_all add: same_setup_def) (simp add: conn_at_def)

lemma same_setup_trans [trans]: "same_setup m m' \<Longrightarrow> same_setup m' m'' \<Longrightarrow> same_setup m m''"
  by (simp add: same_setup_def)

lemma conn_rep_put:
  assumes "conn_rep k bs m" and "\<And>pl'. b \<notin> set (bs pl')" and "pool_buffer (id_pool k) (bufs m b)"
  shows "conn_rep k (bs(pl := bs pl @ [b])) (put_at k pl b m)" and "port_at (put_at k pl b m) = port_at m"
    and "only_links (bufs m) (bufs (put_at k pl b m))"
    and "same_setup m (put_at k pl b m)" and "user_of (put_at k pl b m) = user_of m" and "userdata_at (put_at k pl b m) = userdata_at m"
proof -
  note r = assms(1) [unfolded conn_rep_def]
  have io: "id_in k \<noteq> id_out k" using r by (simp add: conn_fixed_def)
  obtain q where q: "place_queue k pl m = Some q" "qrep (bufs m) q (bs pl)" "q_sem q = length (bs pl)" using r by blast
  obtain q' h where put: "queue_put q (bufs m) b = (q', h)" "qrep h q' (bs pl @ [b])" "q_sem q' = q_sem q + 1"
    "same_bufs (- set (bs pl @ [b])) (bufs m) h" "only_links (bufs m) h"
    using queue_put_qrep [OF q(2) assms(2)] by blast
  have p: "put_at k pl b m = set_place k pl (Some q') (m\<lparr>bufs := h\<rparr>)"
    using q(1) put(1) by (simp add: put_at_def)
  have "\<exists>q. place_queue k pl' (put_at k pl b m) = Some q \<and> qrep h q ((bs(pl := bs pl @ [b])) pl')
      \<and> q_sem q = length ((bs(pl := bs pl @ [b])) pl')" for pl'
  proof (cases "pl' = pl")
    case True
    then show ?thesis using put(2,3) q(3) by (simp add: p place_queue_set [OF io])
  next
    case False
    then have "set (bs pl') \<subseteq> - set (bs pl @ [b])" using r assms(2) [of pl'] by auto
    then have f: "same_bufs (set (bs pl')) (bufs m) h" using put(4) by (auto simp: same_bufs_def)
    obtain x where "place_queue k pl' m = Some x" "qrep (bufs m) x (bs pl')" "q_sem x = length (bs pl')" using r by blast
    then show ?thesis using False qrep_frame [OF _ f] by (simp add: p place_queue_set [OF io])
  qed
  moreover have "set ((bs(pl := bs pl @ [b])) x) \<inter> set ((bs(pl := bs pl @ [b])) y) = {}" if "x \<noteq> y" for x y
    using r assms(2) that by auto
  moreover have "pool_buffer (id_pool k) (h a)" if "a \<in> set ((bs(pl := bs pl @ [b])) x)" for a x
    using that r assms(3) only_links_pool_buffer [OF put(5)] by (auto split: if_splits)
  ultimately show "conn_rep k (bs(pl := bs pl @ [b])) (put_at k pl b m)"
    using r unfolding conn_rep_def by (simp add: p)
  show "port_at (put_at k pl b m) = port_at m" "only_links (bufs m) (bufs (put_at k pl b m))"
    "user_of (put_at k pl b m) = user_of m" "userdata_at (put_at k pl b m) = userdata_at m"
    using put(5) by (simp_all add: p)
  show "same_setup m (put_at k pl b m)" by (simp add: p same_setup_def)
qed

lemma conn_rep_get:
  assumes "conn_rep k bs m" and "bs pl = x # xs"
  obtains m' where "get_at k pl m = Some (Some x, m')" and "conn_rep k (bs(pl := xs)) m'" and "port_at m' = port_at m"
    and "bufs m' = bufs m" and "same_setup m m'" and "user_of m' = user_of m" and "\<And>pl'. x \<notin> set ((bs(pl := xs)) pl')"
    and "pool_buffer (id_pool k) (bufs m x)"
proof -
  note r = assms(1) [unfolded conn_rep_def]
  have io: "id_in k \<noteq> id_out k" using r by (simp add: conn_fixed_def)
  obtain q where q: "place_queue k pl m = Some q" "qrep (bufs m) q (x # xs)" "q_sem q = Suc (length xs)"
    using r assms(2) by (metis length_Cons)
  obtain q' where q': "mmal_queue_get_core (q\<lparr>q_sem := length xs\<rparr>) (bufs m) = Some (x, q')" "qrep (bufs m) q' xs"
    "q_sem q' = length xs"
    using get_core_Cons [of "bufs m" "q\<lparr>q_sem := length xs\<rparr>" x xs] q(2) by auto
  have "sem_claim q = Some (q\<lparr>q_sem := length xs\<rparr>)" using q(3) by (simp add: sem_claim_def)
  then have g: "get_at k pl m = Some (Some x, set_place k pl (Some q') m)" using q(1) q'(1) by (simp add: get_at_def)
  have d: "x \<notin> set xs" using qrep_distinct [OF q(2)] by simp
  have sub: "set ((bs(pl := xs)) z) \<subseteq> set (bs z)" for z using assms(2) by auto
  have "\<exists>y. place_queue k z (set_place k pl (Some q') m) = Some y \<and> qrep (bufs m) y ((bs(pl := xs)) z)
      \<and> q_sem y = length ((bs(pl := xs)) z)" for z
    using r q'(2,3) by (cases "z = pl") (simp_all add: place_queue_set [OF io])
  moreover have "set ((bs(pl := xs)) y) \<inter> set ((bs(pl := xs)) z) = {}" if "y \<noteq> z" for y z
    using r that sub [of y] sub [of z] by blast
  moreover have "pool_buffer (id_pool k) (bufs m b)" if "b \<in> set ((bs(pl := xs)) z)" for b z
    using r that sub [of z] by blast
  ultimately have "conn_rep k (bs(pl := xs)) (set_place k pl (Some q') m)"
    using r unfolding conn_rep_def by (simp del: fun_upd_apply)
  moreover have "x \<notin> set ((bs(pl := xs)) z)" for z
  proof (cases "z = pl")
    case True
    then show ?thesis using d by simp
  next
    case False
    then have "set (bs pl) \<inter> set (bs z) = {}" using r by blast
    then show ?thesis using False assms(2) by auto
  qed
  moreover have "pool_buffer (id_pool k) (bufs m x)"
  proof -
    have "x \<in> set (bs pl)" using assms(2) by simp
    then show ?thesis using r by blast
  qed
  ultimately show thesis using g by (intro that [of "set_place k pl (Some q') m"]) simp_all
qed

lemma conn_rep_get_nil:
  assumes "conn_rep k bs m" and "bs pl = []"
  shows "\<exists>m'. get_at k pl m = Some (None, m') \<and> conn_rep k bs m' \<and> port_at m' = port_at m \<and> bufs m' = bufs m \<and> same_setup m m'"
proof -
  note r = assms(1) [unfolded conn_rep_def]
  have io: "id_in k \<noteq> id_out k" using r by (simp add: conn_fixed_def)
  obtain q where q: "place_queue k pl m = Some q" "qrep (bufs m) q (bs pl)" "q_sem q = length (bs pl)" using r by blast
  then have "sem_claim q = None" using assms(2) by (simp add: sem_claim_def)
  then have g: "get_at k pl m = Some (None, set_place k pl (Some q) m)" using q(1) by (simp add: get_at_def)
  have "place_queue k z (set_place k pl (Some q) m) = place_queue k z m" for z using q(1) by (simp add: place_queue_set [OF io])
  then have "conn_rep k bs (set_place k pl (Some q) m)" using r by (simp add: conn_rep_def)
  then show ?thesis using g by simp
qed

subsection \<open>Moving buffers\<close>

text \<open>Clients that note the connections that signal.\<close>

definition signalling :: "addr list conn_callbacks" where
  "signalling f c m = Some (upd_client (\<lambda>x. x\<lparr>user := user x @ [c]\<rparr>) m)"

lemma conn_rep_client [simp]: "conn_rep k bs (upd_client (\<lambda>x. x\<lparr>user := g x\<rparr>) m) = conn_rep k bs m"
proof -
  have "place_queue k pl (upd_client (\<lambda>x. x\<lparr>user := g x\<rparr>) m) = place_queue k pl m" for pl
    by (cases pl) (simp_all add: conn_at_def)
  moreover have "conn_fixed k (upd_client (\<lambda>x. x\<lparr>user := g x\<rparr>) m) = conn_fixed k m"
    by (simp add: conn_fixed_def conn_at_def userdata_at_def)
  ultimately show ?thesis by (simp add: conn_rep_def)
qed

lemma conn_rep_port [simp]: "conn_rep k bs (upd_port p g m) = conn_rep k bs m"
proof -
  have "place_queue k pl (upd_port p g m) = place_queue k pl m" for pl by (cases pl) simp_all
  then show ?thesis by (simp add: conn_rep_def)
qed

lemma signal_rep:
  assumes "conn_rep k bs m"
  shows "\<exists>m'. conn_signal signalling c m = Some m' \<and> conn_rep k bs m' \<and> port_at m' = port_at m \<and> same_setup m m'"
proof (cases "cn_callback (conn_at m c)")
  case None
  then show ?thesis using assms by (simp add: conn_signal_def)
next
  case (Some f)
  then show ?thesis using assms by (simp add: conn_signal_def signalling_def) (simp add: same_setup_def conn_at_def)
qed

lemma put_signal_rep:
  assumes "conn_rep k bs m" and "\<And>pl'. b \<notin> set (bs pl')" and "pool_buffer (id_pool k) (bufs m b)"
  shows "\<exists>m'. conn_signal signalling c (put_at k pl b m) = Some m' \<and> conn_rep k (bs(pl := bs pl @ [b])) m'
    \<and> port_at m' = port_at m \<and> same_setup m m'"
proof -
  note put = conn_rep_put [OF assms]
  obtain m' where "conn_signal signalling c (put_at k pl b m) = Some m'" "conn_rep k (bs(pl := bs pl @ [b])) m'"
    "port_at m' = port_at (put_at k pl b m)" "same_setup (put_at k pl b m) m'"
    using signal_rep [OF put(1)] by blast
  then show ?thesis using put(2,4) by (auto intro: same_setup_trans)
qed

lemma conn_rep_buf:
  assumes "conn_rep k bs m" and "\<And>pl'. b \<notin> set (bs pl')"
  shows "conn_rep k bs (upd_buf b f m)"
proof -
  note r = assms(1) [unfolded conn_rep_def]
  have q: "place_queue k pl (upd_buf b f m) = place_queue k pl m" for pl by (cases pl) simp_all
  have same: "bufs (upd_buf b f m) a = bufs m a" if "a \<in> set (bs pl)" for a pl using that assms(2) [of pl] by auto
  have "\<exists>q. place_queue k pl m = Some q \<and> qrep (bufs (upd_buf b f m)) q (bs pl) \<and> q_sem q = length (bs pl)" for pl
  proof -
    obtain q where q: "place_queue k pl m = Some q" "qrep (bufs m) q (bs pl)" "q_sem q = length (bs pl)" using r by blast
    have "qrep (bufs (upd_buf b f m)) q (bs pl)" using same by (intro qrep_links [OF q(2)]) metis
    then show ?thesis using q by blast
  qed
  moreover have "pool_buffer (id_pool k) (bufs (upd_buf b f m) a)" if "a \<in> set (bs pl)" for a pl
    using r that same [OF that] by metis
  ultimately show ?thesis using r unfolding conn_rep_def q by auto
qed

text \<open>Releasing a buffer of the pool: the callback of the pool puts it in the queue of the pool.\<close>

lemma release_to_pool:
  assumes "conn_rep k bs m" and "\<And>pl'. b \<notin> set (bs pl')" and "pool_buffer (id_pool k) (bufs m b)"
    and "f_pool_cb ops conn_release_fn = mmal_connection_bh_release_cb signalling"
  shows "\<exists>m'. release_buffer ops b m = Some m' \<and> conn_rep k (bs(InPool := bs InPool @ [b])) m'
    \<and> port_at m' = port_at m \<and> same_setup m m'"
proof -
  define m1 where "m1 = upd_buf b (\<lambda>x. (reset_fields (x\<lparr>refcount := 0\<rparr>))\<lparr>reference := None, refcount := 1\<rparr>) m"
  have b: "refcount (bufs m b) = 1" "pf_pre_release (bufs m b) = None" "reference (bufs m b) = None"
    "pf_release (bufs m b) = Some pool_release_fn" "owner (bufs m b) = Some (id_pool k)"
    using assms(3) by (simp_all add: pool_buffer_def)
  have r1: "conn_rep k bs m1" unfolding m1_def by (rule conn_rep_buf [OF assms(1,2)])
  then have fixed: "p_cb (pool_at m1 (id_pool k)) = Some conn_release_fn" "p_userdata (pool_at m1 (id_pool k)) = Some (id_conn k)"
    by (simp_all add: conn_rep_def conn_fixed_def)
  have p1: "pool_buffer (id_pool k) (bufs m1 b)" using b by (simp add: m1_def pool_buffer_def reset_fields_def)
  obtain m' where m': "conn_signal signalling (id_conn k) (put_at k InPool b m1) = Some m'"
    "conn_rep k (bs(InPool := bs InPool @ [b])) m'" "port_at m' = port_at m1" "same_setup m1 m'"
    using put_signal_rep [OF r1 assms(2) p1] by blast
  have "release_buffer ops b m = Some m'"
    using b fixed m'(1) assms(4)
    by (simp add: release_buffer_def release_last release_continue_no_reference pool_callbacks_def
        mmal_pool_buffer_header_release_def m1_def core_pool_ops_def mmal_connection_bh_release_cb_def put_places
        conn_release_fn_def connected_pool_fn_def pool_release_fn_def reset_fields_def)
  then show ?thesis using m'(2-4) by (auto simp: m1_def same_setup_def)
qed

subsection \<open>Ports of connections\<close>

text \<open>The ports of components that keep buffers in the queues of their modules, under the callbacks of connections:
  \<open>fn\<close> is the number of the component's functions, which call back through \<open>cops\<close>.\<close>

definition connected_client :: "nat \<Rightarrow> nat \<Rightarrow> nat \<Rightarrow> mmal_port \<Rightarrow> bool" where
  "connected_client fn f n r \<longleftrightarrow> pt_enabled r \<and> connected_port r = None \<and> pf_disable r = Some fn
     \<and> pool_for_connection r = None \<and> queue_first r = None \<and> buffer_header_callback r = Some (ClientCb f)
     \<and> counted n r \<and> n < 2 ^ 31"

locale connected_module =
  fixes ops cops rops :: "addr list conn_ops" and fn :: nat
  assumes disable_law: "f_disable ops fn p m = module_port_disable cops p m"
    and in_law: "f_client_cb cops conn_in_fn p b m = mmal_connection_bh_in_cb rops p b m"
    and out_law: "f_client_cb cops conn_out_fn p b m = mmal_connection_bh_out_cb signalling p b m"
    and pool_law: "f_pool_cb rops conn_release_fn = mmal_connection_bh_release_cb signalling"
begin

lemma in_callback:
  assumes "conn_rep k bs m" and "\<And>pl'. b \<notin> set (bs pl')" and "pool_buffer (id_pool k) (bufs m b)"
  shows "\<exists>m'. f_client_cb cops conn_in_fn p b m = Some m' \<and> conn_rep k (bs(InPool := bs InPool @ [b])) m'
    \<and> port_at m' = port_at m \<and> same_setup m m'"
  using release_to_pool [OF assms pool_law] by (simp add: in_law mmal_connection_bh_in_cb_def)

lemma out_callback:
  assumes "conn_rep k bs m" and "\<And>pl'. b \<notin> set (bs pl')" and "pool_buffer (id_pool k) (bufs m b)"
  shows "\<exists>m'. f_client_cb cops conn_out_fn (id_out k) b m = Some m' \<and> conn_rep k (bs(InQueue := bs InQueue @ [b])) m'
    \<and> port_at m' = port_at m \<and> same_setup m m'"
proof -
  have "userdata_at m (id_out k) = Some (id_conn k)" using assms(1) by (simp add: conn_rep_def conn_fixed_def)
  then show ?thesis using put_signal_rep [OF assms] by (simp add: out_law mmal_connection_bh_out_cb_def put_places)
qed

lemma callback_moves:
  assumes "conn_rep k bs m" and "\<And>pl'. b \<notin> set (bs pl')" and "pool_buffer (id_pool k) (bufs m b)"
    and callback: "\<And>bs m b. conn_rep k bs m \<Longrightarrow> (\<And>pl'. b \<notin> set (bs pl')) \<Longrightarrow> pool_buffer (id_pool k) (bufs m b) \<Longrightarrow>
      \<exists>m'. f_client_cb cops f p b m = Some m' \<and> conn_rep k (bs(dst := bs dst @ [b])) m' \<and> port_at m' = port_at m \<and> same_setup m m'"
    and "counted (Suc n) (port_at m p)" and "n < 2 ^ 31" and "buffer_header_callback (port_at m p) = Some (ClientCb f)"
  shows "\<exists>m'. mmal_port_buffer_header_callback cops p b m = Some m' \<and> conn_rep k (bs(dst := bs dst @ [b])) m'
    \<and> port_at m' = (port_at m)(p := with_count n (port_at m p)) \<and> same_setup m m'"
proof -
  obtain m1 where m1: "f_client_cb cops f p b m = Some m1" "conn_rep k (bs(dst := bs dst @ [b])) m1"
    "port_at m1 = port_at m" "same_setup m m1"
    using callback [OF assms(1-3)] by blast
  define m2 where "m2 = upd_port p (with_count n) m1"
  have "mmal_port_buffer_header_callback cops p b m = Some m2"
    using m1(1,3) assms(5-7) decrement_counted [of n m1 p]
    by (simp add: mmal_port_buffer_header_callback_def MMAL_COLLECT_PORT_STATS_ENABLED_def m2_def)
  moreover have "conn_rep k (bs(dst := bs dst @ [b])) m2" unfolding m2_def conn_rep_port by (rule m1(2))
  moreover have "same_setup m m2" using m1(4) by (simp add: same_setup_def m2_def)
  moreover have "port_at m2 = (port_at m)(p := with_count n (port_at m p))" using m1(3) by (simp add: m2_def)
  ultimately show ?thesis by blast
qed

lemma flush_moves:
  assumes "conn_rep k bs m" and "bs pl = xs" and "pl \<noteq> dst"
    and get: "\<And>m :: addr list cworld. module_get p m = get_at k pl m"
    and callback: "\<And>bs m b. conn_rep k bs m \<Longrightarrow> (\<And>pl'. b \<notin> set (bs pl')) \<Longrightarrow> pool_buffer (id_pool k) (bufs m b) \<Longrightarrow>
      \<exists>m'. f_client_cb cops f p b m = Some m' \<and> conn_rep k (bs(dst := bs dst @ [b])) m' \<and> port_at m' = port_at m \<and> same_setup m m'"
    and "counted (length xs + n) (port_at m p)" and "length xs + n < 2 ^ 31"
    and "buffer_header_callback (port_at m p) = Some (ClientCb f)"
  shows "\<exists>m'. module_flush_loop cops p m = Some m' \<and> conn_rep k (bs(pl := [], dst := bs dst @ xs)) m'
    \<and> port_at m' = (port_at m)(p := with_count n (port_at m p)) \<and> same_setup m m'"
  using assms(1,2,6-8)
proof (induction xs arbitrary: bs m)
  case Nil
  obtain m' where m': "get_at k pl m = Some (None, m')" "conn_rep k bs m'" "port_at m' = port_at m" "same_setup m m'"
    using conn_rep_get_nil [OF Nil.prems(1,2)] by blast
  have "module_flush_loop cops p m = Some m'" using m'(1) by (subst module_flush_loop.simps) (simp add: get)
  moreover have "port_at m = (port_at m)(p := with_count n (port_at m p))"
    using Nil.prems(3) by (simp add: counted_def fun_upd_idem_iff)
  moreover have "conn_rep k (bs(pl := [], dst := bs dst @ [])) m'"
  proof -
    have "bs(pl := [], dst := bs dst @ []) = bs" using Nil.prems(2) by (simp add: fun_upd_idem)
    then show ?thesis using m'(2) by metis
  qed
  ultimately show ?case using m'(3,4) by metis
next
  case (Cons x xs)
  obtain m1 where m1: "get_at k pl m = Some (Some x, m1)" "conn_rep k (bs(pl := xs)) m1" "port_at m1 = port_at m"
    "bufs m1 = bufs m" "same_setup m m1" "\<And>pl'. x \<notin> set ((bs(pl := xs)) pl')" "pool_buffer (id_pool k) (bufs m x)"
    using conn_rep_get [OF Cons.prems(1,2)] by metis
  have pb: "pool_buffer (id_pool k) (bufs m1 x)" using m1(4,7) by simp
  obtain m3 where m3: "mmal_port_buffer_header_callback cops p x m1 = Some m3"
    "conn_rep k ((bs(pl := xs))(dst := (bs(pl := xs)) dst @ [x])) m3"
    "port_at m3 = (port_at m1)(p := with_count (length xs + n) (port_at m1 p))" "same_setup m1 m3"
    using callback_moves [of k "bs(pl := xs)" m1 x f p dst "length xs + n", OF m1(2,6) pb callback] Cons.prems(3-5) m1(3) by auto
  have step: "module_flush_loop cops p m = module_flush_loop cops p m3"
    using m1(1) m3(1) by (subst module_flush_loop.simps) (simp add: get)
  have c3: "conn_rep k (bs(pl := xs, dst := bs dst @ [x])) m3" using m3(2) assms(3) by (metis fun_upd_other)
  have "\<exists>m'. module_flush_loop cops p m3 = Some m'
    \<and> conn_rep k ((bs(pl := xs, dst := bs dst @ [x]))(pl := [], dst := (bs(pl := xs, dst := bs dst @ [x])) dst @ xs)) m'
    \<and> port_at m' = (port_at m3)(p := with_count n (port_at m3 p)) \<and> same_setup m3 m'"
    by (rule Cons.IH [OF c3]) (use Cons.prems(3-5) m1(3) m3(3) assms(3) in simp_all)
  then obtain m' where m': "module_flush_loop cops p m3 = Some m'" "conn_rep k (bs(pl := [], dst := bs dst @ x # xs)) m'"
    "port_at m' = (port_at m3)(p := with_count n (port_at m3 p))" "same_setup m3 m'"
    using assms(3) by (auto simp: fun_upd_twist)
  have "same_setup m m'" using m1(5) m3(4) m'(4) by (simp add: same_setup_def)
  moreover have "port_at m' = (port_at m)(p := with_count n (port_at m p))" using m'(3) m1(3) m3(3) by simp
  moreover have "module_flush_loop cops p m = Some m'" using step m'(1) by simp
  ultimately show ?case using m'(2) by blast
qed

text \<open>An enabled port of such a component with \<open>n\<close> buffers, whose client is the connection.\<close>

lemma disable_moves:
  assumes "conn_rep k bs m" and "pl \<noteq> dst"
    and get: "\<And>m :: addr list cworld. module_get p m = get_at k pl m"
    and callback: "\<And>bs m b. conn_rep k bs m \<Longrightarrow> (\<And>pl'. b \<notin> set (bs pl')) \<Longrightarrow> pool_buffer (id_pool k) (bufs m b) \<Longrightarrow>
      \<exists>m'. f_client_cb cops f p b m = Some m' \<and> conn_rep k (bs(dst := bs dst @ [b])) m' \<and> port_at m' = port_at m \<and> same_setup m m'"
    and "connected_client fn f (length (bs pl)) (port_at m p)"
  shows "\<exists>m' r. mmal_port_disable ops (Some p) m = Some (MMAL_SUCCESS, m') \<and> conn_rep k (bs(pl := [], dst := bs dst @ bs pl)) m'
    \<and> port_at m' = (port_at m)(p := r) \<and> \<not> pt_enabled r \<and> same_setup m m'"
proof -
  note c = assms(5) [unfolded connected_client_def]
  define m1 where "m1 = upd_port p (\<lambda>r. r\<lparr>pt_enabled := False\<rparr>) m"
  obtain m2 where m2: "module_flush_loop cops p m1 = Some m2" "conn_rep k (bs(pl := [], dst := bs dst @ bs pl)) m2"
    "port_at m2 = (port_at m1)(p := with_count 0 (port_at m1 p))" "same_setup m1 m2"
    using flush_moves [of k bs m1 pl "bs pl" dst p f 0, OF _ _ assms(2) get callback] assms(1) c by (auto simp: m1_def)
  define m3 where "m3 = upd_port p (\<lambda>r. r\<lparr>queue_first := None, queue_last := AtFirst\<rparr>) m2"
  have s: "pf_disable (port_at m p) = Some fn" "pool_for_connection (port_at m p) = None" "queue_first (port_at m p) = None"
    "connected_port (port_at m p) = None" "pt_enabled (port_at m p)"
    using c by simp_all
  have q: "queue_first (port_at m2 p) = None" using s(3) m2(3) by (simp add: m1_def)
  have t: "transit_sema (port_at m2 p) = 1" using m2(3) by (simp add: with_count_def)
  have "mmal_port_disable_internal ops p m = Some (MMAL_SUCCESS, upd_port p (\<lambda>r. r\<lparr>buffer_header_callback := None\<rparr>) m3)"
    using s m2(1) q t
    by (simp add: mmal_port_disable_internal_def disable_law module_port_disable_def module_port_flush_def m1_def
        return_queue.simps empty_port_queue_def IN_TRANSIT_WAIT_def m3_def)
  then have "mmal_port_disable ops (Some p) m = Some (MMAL_SUCCESS, upd_port p (\<lambda>r. r\<lparr>buffer_header_callback := None\<rparr>) m3)"
    using s by (simp add: mmal_port_disable_def)
  moreover have "same_setup m (upd_port p (\<lambda>r. r\<lparr>buffer_header_callback := None\<rparr>) m3)"
    using m2(4) by (simp add: same_setup_def m3_def m1_def)
  ultimately show ?thesis using m2(2,3) by (auto simp: m3_def m1_def with_count_def)
qed

end

text \<open>A pass-through component and a copy component whose client is a connection.\<close>

definition pass_copy_ops :: "addr list conn_ops \<Rightarrow> addr list conn_ops" where
  "pass_copy_ops ops0 = copy_ops (passthrough_ops (connection_ops signalling ops0))"

lemma connection_laws:
  "f_client_cb (connection_ops signalling ops0) conn_in_fn p b m = mmal_connection_bh_in_cb (connection_pool_ops signalling ops0) p b m"
  "f_client_cb (connection_ops signalling ops0) conn_out_fn p b m = mmal_connection_bh_out_cb signalling p b m"
  "f_pool_cb (connection_pool_ops signalling ops0) conn_release_fn = mmal_connection_bh_release_cb signalling"
  by (simp_all add: connection_ops_def connection_pool_ops_def conn_in_fn_def conn_out_fn_def conn_clock_fn_def Let_def fun_eq_iff)

interpretation pass: connected_module "pass_copy_ops ops0" "connection_ops signalling ops0"
    "connection_pool_ops signalling ops0" passthrough_fn for ops0
  by unfold_locales (simp_all add: connection_laws pass_copy_ops_def copy_ops_def copy_format_ops_def passthrough_ops_def
      passthrough_fn_def copy_fn_def Let_def)

interpretation copied: connected_module "pass_copy_ops ops0" "copy_format_ops (passthrough_ops (connection_ops signalling ops0))"
    "connection_pool_ops signalling ops0" copy_fn for ops0
  by unfold_locales (simp_all add: connection_laws pass_copy_ops_def copy_ops_def copy_format_ops_def passthrough_ops_def
      passthrough_fn_def copy_fn_def Let_def)

lemma pass_copy_pool_law: "f_pool_cb (pass_copy_ops ops0) conn_release_fn = mmal_connection_bh_release_cb signalling"
  by (simp add: pass_copy_ops_def copy_ops_def copy_format_ops_def passthrough_ops_def connection_ops_def
      connection_pool_ops_def Let_def fun_eq_iff)

subsection \<open>Disabling a connection\<close>

lemma flush_queue_moves:
  assumes "conn_rep k bs m" and "bs InQueue = xs"
    and "f_pool_cb ops conn_release_fn = mmal_connection_bh_release_cb signalling"
  shows "\<exists>m'. conn_flush_queue ops (id_conn k) m = Some m' \<and> conn_rep k (bs(InQueue := [], InPool := bs InPool @ xs)) m'
    \<and> port_at m' = port_at m \<and> same_setup m m'"
  using assms(1,2)
proof (induction xs arbitrary: bs m)
  case Nil
  obtain m' where m': "get_at k InQueue m = Some (None, m')" "conn_rep k bs m'" "port_at m' = port_at m" "same_setup m m'"
    using conn_rep_get_nil [OF Nil.prems] by blast
  have "bs(InQueue := [], InPool := bs InPool @ []) = bs" using Nil.prems(2) by (simp add: fun_upd_idem)
  then have "conn_rep k (bs(InQueue := [], InPool := bs InPool @ [])) m'" using m'(2) by metis
  moreover have "conn_flush_queue ops (id_conn k) m = Some m'"
    using m'(1) by (subst conn_flush_queue.simps) (simp add: get_places)
  ultimately show ?case using m'(3,4) by metis
next
  case (Cons x xs)
  obtain m1 where m1: "get_at k InQueue m = Some (Some x, m1)" "conn_rep k (bs(InQueue := xs)) m1" "port_at m1 = port_at m"
    "bufs m1 = bufs m" "same_setup m m1" "\<And>pl'. x \<notin> set ((bs(InQueue := xs)) pl')" "pool_buffer (id_pool k) (bufs m x)"
    using conn_rep_get [OF Cons.prems] by metis
  define bs2 where "bs2 = bs(InQueue := xs, InPool := bs InPool @ [x])"
  obtain m2 where m2: "release_buffer ops x m1 = Some m2" "conn_rep k bs2 m2" "port_at m2 = port_at m1" "same_setup m1 m2"
    using release_to_pool [of k "bs(InQueue := xs)" m1 x ops, OF m1(2,6) _ assms(3)] m1(4,7) by (auto simp: bs2_def)
  have "bs2 InQueue = xs" by (simp add: bs2_def)
  then obtain m' where m': "conn_flush_queue ops (id_conn k) m2 = Some m'"
    "conn_rep k (bs2(InQueue := [], InPool := bs2 InPool @ xs)) m'" "port_at m' = port_at m2" "same_setup m2 m'"
    using Cons.IH [OF m2(2)] by blast
  have "bs2(InQueue := [], InPool := bs2 InPool @ xs) = bs(InQueue := [], InPool := bs InPool @ x # xs)"
    by (simp add: bs2_def fun_eq_iff)
  then have "conn_rep k (bs(InQueue := [], InPool := bs InPool @ x # xs)) m'" using m'(2) by metis
  moreover have "conn_flush_queue ops (id_conn k) m = Some m'"
    using m1(1) m2(1) m'(1) by (subst conn_flush_queue.simps) (simp add: get_places)
  moreover have "same_setup m m'" using m1(5) m2(4) m'(4) by (simp add: same_setup_def)
  ultimately show ?case using m1(3) m2(3) m'(3) by metis
qed

lemma conn_rep_conn:
  assumes "\<And>r. cn_in (f r) = cn_in r \<and> cn_out (f r) = cn_out r \<and> cn_pool (f r) = cn_pool r \<and> cn_flags (f r) = cn_flags r
    \<and> cn_queue (f r) = cn_queue r"
  shows "conn_rep k bs (upd_conn c f m) = conn_rep k bs m"
proof -
  have "place_queue k pl (upd_conn c f m) = place_queue k pl m" for pl by (cases pl) (simp_all add: assms)
  moreover have "conn_fixed k (upd_conn c f m) = conn_fixed k m" by (simp add: conn_fixed_def tunnelling_def assms)
  ultimately show ?thesis by (simp add: conn_rep_def)
qed

lemma disable_input:
  assumes "conn_rep k bs m" and "fn \<in> {passthrough_fn, copy_fn}"
    and "connected_client fn conn_in_fn (length (bs AtInput)) (port_at m (id_in k))"
  shows "\<exists>m' r. mmal_port_disable (pass_copy_ops ops0) (Some (id_in k)) m = Some (MMAL_SUCCESS, m')
    \<and> conn_rep k (bs(AtInput := [], InPool := bs InPool @ bs AtInput)) m' \<and> port_at m' = (port_at m)(id_in k := r)
    \<and> \<not> pt_enabled r \<and> same_setup m m'"
proof (cases "fn = copy_fn")
  case True
  show ?thesis
    by (rule copied.disable_moves [OF assms(1) _ get_places(3) copied.in_callback]) (use assms(3) True in simp_all)
next
  case False
  then have "fn = passthrough_fn" using assms(2) by simp
  then show ?thesis
    by (intro pass.disable_moves [OF assms(1) _ get_places(3) pass.in_callback]) (use assms(3) in simp_all)
qed

lemma disable_output:
  assumes "conn_rep k bs m" and "fn \<in> {passthrough_fn, copy_fn}"
    and "connected_client fn conn_out_fn (length (bs AtOutput)) (port_at m (id_out k))"
  shows "\<exists>m' r. mmal_port_disable (pass_copy_ops ops0) (Some (id_out k)) m = Some (MMAL_SUCCESS, m')
    \<and> conn_rep k (bs(AtOutput := [], InQueue := bs InQueue @ bs AtOutput)) m' \<and> port_at m' = (port_at m)(id_out k := r)
    \<and> \<not> pt_enabled r \<and> same_setup m m'"
proof (cases "fn = copy_fn")
  case True
  show ?thesis
    by (rule copied.disable_moves [OF assms(1) _ get_places(4) copied.out_callback]) (use assms(3) True in simp_all)
next
  case False
  then have "fn = passthrough_fn" using assms(2) by simp
  then show ?thesis
    by (intro pass.disable_moves [OF assms(1) _ get_places(4) pass.out_callback]) (use assms(3) in simp_all)
qed

lemma disable_recovers:
  assumes "conn_rep k bs m" and "cn_enabled (conn_at m (id_conn k))" and fns: "{fi, fo} \<subseteq> {passthrough_fn, copy_fn}"
    and "connected_client fi conn_in_fn (length (bs AtInput)) (port_at m (id_in k))"
    and "connected_client fo conn_out_fn (length (bs AtOutput)) (port_at m (id_out k))"
    and "headers_num (pool_at m (id_pool k))
      = of_nat (length (bs InPool) + length (bs AtInput) + length (bs InQueue) + length (bs AtOutput))"
  shows "\<exists>m'. mmal_connection_disable (pass_copy_ops ops0) (id_conn k) m = Some (MMAL_SUCCESS, m')
    \<and> conn_rep k ((\<lambda>_. [])(InPool := bs InPool @ bs AtInput @ bs InQueue @ bs AtOutput)) m'
    \<and> \<not> cn_enabled (conn_at m' (id_conn k)) \<and> \<not> pt_enabled (port_at m' (id_in k)) \<and> \<not> pt_enabled (port_at m' (id_out k))"
proof -
  define ops where "ops = pass_copy_ops ops0"
  define m0 where "m0 = upd_conn (id_conn k) (\<lambda>r. r\<lparr>time_disable := time_now ops m\<rparr>) m"
  have r0: "conn_rep k bs m0" unfolding m0_def by (subst conn_rep_conn) (simp_all add: assms(1))
  have io: "id_in k \<noteq> id_out k" using assms(1) by (simp add: conn_rep_def conn_fixed_def)
  have fixed: "cn_in (conn_at m (id_conn k)) = id_in k" "cn_out (conn_at m (id_conn k)) = id_out k"
    "cn_pool (conn_at m (id_conn k)) = Some (id_pool k)" "\<not> tunnelling (conn_at m (id_conn k))" if "conn_rep k bs m" for bs and m :: "addr list cworld"
    using that by (simp_all add: conn_rep_def conn_fixed_def)
  note f0 = fixed [OF r0]
  have "connected_client fi conn_in_fn (length (bs AtInput)) (port_at m0 (id_in k))" using assms(4) by (simp add: m0_def)
  then obtain m1 p1 where m1: "mmal_port_disable ops (Some (id_in k)) m0 = Some (MMAL_SUCCESS, m1)"
    "conn_rep k (bs(AtInput := [], InPool := bs InPool @ bs AtInput)) m1" "port_at m1 = (port_at m0)(id_in k := p1)"
    "\<not> pt_enabled p1" "same_setup m0 m1"
    using disable_input [OF r0, of fi ops0] fns unfolding ops_def by auto
  define bs1 where "bs1 = bs(AtInput := [], InPool := bs InPool @ bs AtInput)"
  have r1: "conn_rep k bs1 m1" using m1(2) by (simp only: bs1_def)
  have "connected_client fo conn_out_fn (length (bs1 AtOutput)) (port_at m1 (id_out k))"
    using assms(5) m1(3) io by (simp add: bs1_def m0_def)
  then obtain m2 p2 where m2: "mmal_port_disable ops (Some (id_out k)) m1 = Some (MMAL_SUCCESS, m2)"
    "conn_rep k (bs1(AtOutput := [], InQueue := bs1 InQueue @ bs1 AtOutput)) m2" "port_at m2 = (port_at m1)(id_out k := p2)"
    "\<not> pt_enabled p2" "same_setup m1 m2"
    using disable_output [OF r1, of fo ops0] fns unfolding ops_def by auto
  define bs2 where "bs2 = bs1(AtOutput := [], InQueue := bs1 InQueue @ bs1 AtOutput)"
  have r2: "conn_rep k bs2 m2" using m2(2) by (simp only: bs2_def)
  obtain m3 where m3: "conn_flush_queue ops (id_conn k) m2 = Some m3"
    "conn_rep k (bs2(InQueue := [], InPool := bs2 InPool @ bs2 InQueue)) m3" "port_at m3 = port_at m2" "same_setup m2 m3"
    using flush_queue_moves [OF r2 refl pass_copy_pool_law [of ops0]] unfolding ops_def by blast
  define bs3 where "bs3 = (\<lambda>_. [])(InPool := bs InPool @ bs AtInput @ bs InQueue @ bs AtOutput)"
  have "bs2(InQueue := [], InPool := bs2 InPool @ bs2 InQueue) = bs3"
  proof
    fix pl show "(bs2(InQueue := [], InPool := bs2 InPool @ bs2 InQueue)) pl = bs3 pl"
      by (cases pl) (simp_all add: bs3_def bs2_def bs1_def)
  qed
  then have r3: "conn_rep k bs3 m3" using m3(2) by metis
  have h3: "headers_num (pool_at m3 (id_pool k)) = of_nat (length (bs3 InPool))"
    using assms(6) m1(5) m2(5) m3(4) by (simp add: same_setup_def m0_def bs3_def add.assoc)
  obtain q where q: "place_queue k InPool m3 = Some q" "qrep (bufs m3) q (bs3 InPool)" using r3 unfolding conn_rep_def by blast
  then have "mmal_queue_length (p_queue (pool_at m3 (id_pool k))) = headers_num (pool_at m3 (id_pool k))"
    using h3 by (simp add: qrep_def)
  then have ports: "conn_disable_ports ops (id_conn k) m0 = Some (MMAL_SUCCESS, m3)"
    using m1(1) m2(1) m3(1) f0 fixed [OF r1] fixed [OF r2] fixed [OF r3] by (simp add: conn_disable_ports_def)
  define m4 where "m4 = upd_conn (id_conn k) (\<lambda>r. r\<lparr>time_disable := time_now ops m3 - time_disable r, cn_enabled := False\<rparr>) m3"
  have "mmal_connection_disable ops (id_conn k) m = Some (MMAL_SUCCESS, m4)"
    using assms(2) fixed(4) [OF assms(1)] ports by (simp add: mmal_connection_disable_def m0_def [symmetric] m4_def)
  moreover have "conn_rep k bs3 m4" unfolding m4_def by (subst conn_rep_conn) (simp_all add: r3)
  moreover have "\<not> pt_enabled (port_at m4 (id_in k))" "\<not> pt_enabled (port_at m4 (id_out k))"
    using m1(3,4) m2(3,4) m3(3) io by (simp_all add: m4_def)
  moreover have "\<not> cn_enabled (conn_at m4 (id_conn k))" by (simp add: m4_def)
  ultimately show ?thesis unfolding ops_def bs3_def by blast
qed


subsection \<open>Running connections\<close>

text \<open>The steps of an enabled connection between copy components: its client sends buffers of the pool to the output
  port and buffers of the queue to the input port, and the components give buffers back, filled or consumed.\<close>

inductive conn_step :: "addr list conn_ops \<Rightarrow> conn_ids \<Rightarrow> addr list cworld \<Rightarrow> addr list cworld \<Rightarrow> bool"
  for ops0 :: "addr list conn_ops" and k :: conn_ids where
  feed: "pool_get (id_pool k) m = Some (Some b, m1) \<Longrightarrow>
    mmal_port_send_buffer (pass_copy_ops ops0) (Some (id_out k)) b m1 = Some (MMAL_SUCCESS, m2) \<Longrightarrow> conn_step ops0 k m m2"
| forward: "conn_get (id_conn k) m = Some (Some b, m1) \<Longrightarrow>
    mmal_port_send_buffer (pass_copy_ops ops0) (Some (id_in k)) b m1 = Some (MMAL_SUCCESS, m2) \<Longrightarrow> conn_step ops0 k m m2"
| produce: "module_get (id_out k) m = Some (Some b, m1) \<Longrightarrow>
    mmal_port_buffer_header_callback (copy_format_ops (passthrough_ops (connection_ops signalling ops0))) (id_out k) b
      (upd_buf b (\<lambda>r. r\<lparr>bh_length := n, bh_pts := t\<rparr>) m1) = Some m2 \<Longrightarrow> conn_step ops0 k m m2"
| consume: "module_get (id_in k) m = Some (Some b, m1) \<Longrightarrow>
    mmal_port_buffer_header_callback (copy_format_ops (passthrough_ops (connection_ops signalling ops0))) (id_in k) b
      (upd_buf b (\<lambda>r. r\<lparr>bh_length := 0\<rparr>) m1) = Some m2 \<Longrightarrow> conn_step ops0 k m m2"

definition running :: "nat \<Rightarrow> nat \<Rightarrow> mmal_port \<Rightarrow> bool" where
  "running f n r \<longleftrightarrow> connected_client copy_fn f n r \<and> pf_send r = Some copy_fn \<and> \<not> is_paused r"

definition all_buffers :: "(place \<Rightarrow> addr list) \<Rightarrow> addr multiset" where
  "all_buffers bs = mset (bs InPool) + mset (bs InQueue) + mset (bs AtInput) + mset (bs AtOutput)"

definition conn_running :: "conn_ids \<Rightarrow> addr multiset \<Rightarrow> addr list cworld \<Rightarrow> bool" where
  "conn_running k N m \<longleftrightarrow> (\<exists>bs. conn_rep k bs m \<and> all_buffers bs = N \<and> size N < 2 ^ 31
     \<and> cn_enabled (conn_at m (id_conn k)) \<and> headers_num (pool_at m (id_pool k)) = of_nat (size N)
     \<and> running conn_in_fn (length (bs AtInput)) (port_at m (id_in k))
     \<and> running conn_out_fn (length (bs AtOutput)) (port_at m (id_out k)))"

lemma conn_rep_component [simp]: "conn_rep k bs (upd_component c g m) = conn_rep k bs m"
proof -
  have c: "conn_at (upd_component c g m) = conn_at m" "userdata_at (upd_component c g m) = userdata_at m"
    by (simp_all add: conn_at_def userdata_at_def fun_eq_iff)
  have "pmod_at (upd_component c g m) = pmod_at m" by simp
  then have "place_queue k pl (upd_component c g m) = place_queue k pl m" for pl by (cases pl) (simp_all add: c)
  then show ?thesis by (simp add: conn_rep_def conn_fixed_def c)
qed

lemma send_moves:
  assumes "conn_rep k bs m" and "\<And>pl'. b \<notin> set (bs pl')" and "pool_buffer (id_pool k) (bufs m b)"
    and "running f n (port_at m p)" and "n + 1 < 2 ^ 31"
    and put: "\<And>m :: addr list cworld. module_put p b m = put_at k pl b m"
    and "mmal_port_send_buffer (pass_copy_ops ops0) (Some p) b m = Some (MMAL_SUCCESS, m')"
  shows "conn_rep k (bs(pl := bs pl @ [b])) m' \<and> same_setup m m'
    \<and> (\<exists>r. port_at m' = (port_at m)(p := r) \<and> running f (n + 1) r)"
proof -
  note c = assms(4) [unfolded running_def connected_client_def]
  define m1 where "m1 = (if pt_type (port_at m p) = MMAL_PORT_TYPE_OUTPUT \<and> bh_length (bufs m b) \<noteq> 0
      then upd_buf b (\<lambda>r. r\<lparr>bh_length := 0\<rparr>) m else m)"
  have m1: "conn_rep k bs m1" "port_at m1 = port_at m" "pool_buffer (id_pool k) (bufs m1 b)" "same_setup m m1"
    using assms(1,3) conn_rep_buf [OF assms(1,2)] by (simp_all add: m1_def pool_buffer_def)
  define m2 where "m2 = upd_port p (with_count (n + 1)) m1"
  have inc: "IN_TRANSIT_INCREMENT p m1 = Some m2"
    using increment_counted [of n m1 p] c assms(5) m1(2) by (simp add: m2_def)
  have m2: "conn_rep k bs m2" "pool_buffer (id_pool k) (bufs m2 b)" "same_setup m1 m2" using m1 by (simp_all add: m2_def)
  note p3 = conn_rep_put [OF m2(1) assms(2) m2(2), of pl]
  define m3 where "m3 = snd (mmal_component_action_trigger (pt_component (port_at m2 p)) (put_at k pl b m2))"
  define m4 where "m4 = mmal_port_update_port_stats (pass_copy_ops ops0) p MMAL_CORE_STATS_RX m3"
  have "f_send (pass_copy_ops ops0) copy_fn p b m2 = Some (MMAL_SUCCESS, m3)"
    by (simp add: pass_copy_ops_def copy_ops_def Let_def copy_port_send_def put m3_def)
  then have "m' = m4" using assms(7) c inc
    by (auto simp: mmal_port_send_buffer_def m1_def [symmetric] m1(2) m4_def m2_def split: if_splits)
  moreover have "conn_rep k (bs(pl := bs pl @ [b])) m4"
    using p3(1) by (simp add: m4_def mmal_port_update_port_stats_def m3_def mmal_component_action_trigger_def Let_def)
  moreover have "same_setup m m4"
    using m1(4) m2(3) p3(4)
    by (simp add: m4_def mmal_port_update_port_stats_def m3_def mmal_component_action_trigger_def Let_def same_setup_def conn_at_def)
  moreover have "\<exists>r. port_at m4 = (port_at m)(p := r) \<and> running f (n + 1) r"
  proof -
    obtain s where s: "port_at m4 = (port_at m)(p := (with_count (n + 1) (port_at m p))\<lparr>stats_rx := s\<rparr>)"
    proof
      have "port_at m3 = port_at m2" using p3(2) by (simp add: m3_def mmal_component_action_trigger_def)
      then show "port_at m4 = (port_at m)(p := (with_count (n + 1) (port_at m p))
          \<lparr>stats_rx := update_stats (getmicrosecs (pass_copy_ops ops0) (env (ctx m3))) (stats_rx (port_at m3 p))\<rparr>)"
        using m1(2) by (simp add: m4_def mmal_port_update_port_stats_def m2_def)
    qed
    have "running f (n + 1) ((with_count (n + 1) (port_at m p))\<lparr>stats_rx := s\<rparr>)"
      using c assms(5) by (simp add: running_def connected_client_def counted_iff) (simp add: with_count_def)
    then show ?thesis using s by blast
  qed
  ultimately show ?thesis by simp
qed

lemma conn_rep_got:
  assumes "conn_rep k bs m" and "get_at k pl m = Some (Some b, m1)"
  shows "\<exists>xs. bs pl = b # xs \<and> conn_rep k (bs(pl := xs)) m1 \<and> port_at m1 = port_at m \<and> same_setup m m1
    \<and> (\<forall>pl'. b \<notin> set ((bs(pl := xs)) pl')) \<and> pool_buffer (id_pool k) (bufs m1 b)"
proof (cases "bs pl")
  case Nil
  then show ?thesis using conn_rep_get_nil [OF assms(1)] assms(2) by fastforce
next
  case (Cons x xs)
  obtain m' where m': "get_at k pl m = Some (Some x, m')" "conn_rep k (bs(pl := xs)) m'" "port_at m' = port_at m"
    "bufs m' = bufs m" "same_setup m m'" "\<And>pl'. x \<notin> set ((bs(pl := xs)) pl')" "pool_buffer (id_pool k) (bufs m x)"
    using conn_rep_get [OF assms(1) Cons] by metis
  have e: "x = b" "m' = m1" using m'(1) assms(2) by simp_all
  have "\<forall>pl'. b \<notin> set ((bs(pl := xs)) pl')" using m'(6) unfolding e by blast
  then show ?thesis using m'(2-5,7) Cons unfolding e by metis
qed

lemma all_buffers_move:
  "bs pl = b # xs \<Longrightarrow> pl \<noteq> dst \<Longrightarrow> all_buffers ((bs(pl := xs))(dst := (bs(pl := xs)) dst @ [b])) = all_buffers bs"
  by (cases pl; cases dst) (simp_all add: all_buffers_def)

lemma length_all_buffers: "length (bs AtInput) \<le> size (all_buffers bs)" "length (bs AtOutput) \<le> size (all_buffers bs)"
  by (simp_all add: all_buffers_def)

lemma running_less: "running f (Suc n) r \<Longrightarrow> running f n (with_count n r)"
  by (simp add: running_def connected_client_def) (simp add: with_count_def)

lemma running_callback:
  assumes "running f (length (b # xs)) (port_at m p)"
  shows "counted (Suc (length xs)) (port_at m p)" "length xs < 2 ^ 31" "buffer_header_callback (port_at m p) = Some (ClientCb f)"
  using assms by (simp_all add: running_def connected_client_def)

lemma conn_runningI:
  assumes "conn_rep k bs' m'" and "all_buffers bs' = all_buffers bs" and "same_setup m m'"
    and "size (all_buffers bs) < 2 ^ 31" and "cn_enabled (conn_at m (id_conn k))"
    and "headers_num (pool_at m (id_pool k)) = of_nat (size (all_buffers bs))"
    and "running conn_in_fn (length (bs' AtInput)) (port_at m' (id_in k))"
    and "running conn_out_fn (length (bs' AtOutput)) (port_at m' (id_out k))"
  shows "conn_running k (all_buffers bs) m'"
  using assms by (auto simp: conn_running_def same_setup_def intro!: exI [of _ bs'])

lemma step_running:
  assumes "conn_step ops0 k m m'" and "conn_running k N m"
  shows "conn_running k N m'"
proof -
  obtain bs where bs: "conn_rep k bs m" "all_buffers bs = N" "size N < 2 ^ 31" "cn_enabled (conn_at m (id_conn k))"
    "headers_num (pool_at m (id_pool k)) = of_nat (size N)"
    "running conn_in_fn (length (bs AtInput)) (port_at m (id_in k))"
    "running conn_out_fn (length (bs AtOutput)) (port_at m (id_out k))"
    using assms(2) by (auto simp: conn_running_def)
  have io: "id_in k \<noteq> id_out k" using bs(1) by (simp add: conn_rep_def conn_fixed_def)
  have "conn_running k (all_buffers bs) m'"
    using assms(1)
  proof cases
    case (feed b m1)
    from feed(1) have g: "get_at k InPool m = Some (Some b, m1)" by (simp add: get_places)
    obtain xs where xs: "bs InPool = b # xs" "conn_rep k (bs(InPool := xs)) m1" "port_at m1 = port_at m" "same_setup m m1"
      "\<forall>pl'. b \<notin> set ((bs(InPool := xs)) pl')" "pool_buffer (id_pool k) (bufs m1 b)"
      using conn_rep_got [OF bs(1) g] by blast
    have n: "length (bs AtOutput) + 1 < 2 ^ 31" using bs(2,3) xs(1) by (auto simp: all_buffers_def)
    have r: "running conn_out_fn (length (bs AtOutput)) (port_at m1 (id_out k))" using bs(7) xs(3) by simp
    from send_moves [where bs = "bs(InPool := xs)", OF xs(2) xs(5) [rule_format] xs(6) r n put_places(4) feed(2)] show ?thesis
      using xs bs io
      by (intro conn_runningI [OF _ all_buffers_move [of bs InPool b xs AtOutput]]) (auto intro: same_setup_trans)
  next
    case (forward b m1)
    from forward(1) have g: "get_at k InQueue m = Some (Some b, m1)" by (simp add: get_places)
    obtain xs where xs: "bs InQueue = b # xs" "conn_rep k (bs(InQueue := xs)) m1" "port_at m1 = port_at m" "same_setup m m1"
      "\<forall>pl'. b \<notin> set ((bs(InQueue := xs)) pl')" "pool_buffer (id_pool k) (bufs m1 b)"
      using conn_rep_got [OF bs(1) g] by blast
    have n: "length (bs AtInput) + 1 < 2 ^ 31" using bs(2,3) xs(1) by (auto simp: all_buffers_def)
    have r: "running conn_in_fn (length (bs AtInput)) (port_at m1 (id_in k))" using bs(6) xs(3) by simp
    from send_moves [where bs = "bs(InQueue := xs)", OF xs(2) xs(5) [rule_format] xs(6) r n put_places(3) forward(2)] show ?thesis
      using xs bs io
      by (intro conn_runningI [OF _ all_buffers_move [of bs InQueue b xs AtInput]]) (auto intro: same_setup_trans)
  next
    case (produce b m1 t n)
    from produce(1) have g: "get_at k AtOutput m = Some (Some b, m1)" by (simp add: get_places)
    obtain xs where xs: "bs AtOutput = b # xs" "conn_rep k (bs(AtOutput := xs)) m1" "port_at m1 = port_at m" "same_setup m m1"
      "\<forall>pl'. b \<notin> set ((bs(AtOutput := xs)) pl')" "pool_buffer (id_pool k) (bufs m1 b)"
      using conn_rep_got [OF bs(1) g] by blast
    let ?m = "upd_buf b (\<lambda>r. r\<lparr>bh_length := n, bh_pts := t\<rparr>) m1"
    have pb: "pool_buffer (id_pool k) (bufs ?m b)" using xs(6) by (simp add: pool_buffer_def)
    have c: "running conn_out_fn (length (b # xs)) (port_at ?m (id_out k))" using bs(7) xs(1,3) by simp
    from copied.callback_moves [where ?ops0.0 = ops0 and bs = "bs(AtOutput := xs)", OF conn_rep_buf [where bs = "bs(AtOutput := xs)", OF xs(2) xs(5) [rule_format]] xs(5) [rule_format] pb copied.out_callback running_callback [OF c]] produce(2)
    have m': "conn_rep k ((bs(AtOutput := xs))(InQueue := (bs(AtOutput := xs)) InQueue @ [b])) m'"
      "port_at m' = (port_at m)(id_out k := with_count (length xs) (port_at m (id_out k)))" "same_setup ?m m'"
      using xs(3) by auto
    have s: "same_setup m m'" using xs(4) m'(3) by (simp add: same_setup_def)
    show ?thesis
      using xs bs io m' s c running_less
      by (intro conn_runningI [OF m'(1) all_buffers_move [of bs AtOutput b xs InQueue]]) auto
  next
    case (consume b m1)
    from consume(1) have g: "get_at k AtInput m = Some (Some b, m1)" by (simp add: get_places)
    obtain xs where xs: "bs AtInput = b # xs" "conn_rep k (bs(AtInput := xs)) m1" "port_at m1 = port_at m" "same_setup m m1"
      "\<forall>pl'. b \<notin> set ((bs(AtInput := xs)) pl')" "pool_buffer (id_pool k) (bufs m1 b)"
      using conn_rep_got [OF bs(1) g] by blast
    let ?m = "upd_buf b (\<lambda>r. r\<lparr>bh_length := 0\<rparr>) m1"
    have pb: "pool_buffer (id_pool k) (bufs ?m b)" using xs(6) by (simp add: pool_buffer_def)
    have c: "running conn_in_fn (length (b # xs)) (port_at ?m (id_in k))" using bs(6) xs(1,3) by simp
    from copied.callback_moves [where ?ops0.0 = ops0 and bs = "bs(AtInput := xs)", OF conn_rep_buf [where bs = "bs(AtInput := xs)", OF xs(2) xs(5) [rule_format]] xs(5) [rule_format] pb copied.in_callback running_callback [OF c]] consume(2)
    have m': "conn_rep k ((bs(AtInput := xs))(InPool := (bs(AtInput := xs)) InPool @ [b])) m'"
      "port_at m' = (port_at m)(id_in k := with_count (length xs) (port_at m (id_in k)))" "same_setup ?m m'"
      using xs(3) by auto
    have s: "same_setup m m'" using xs(4) m'(3) by (simp add: same_setup_def)
    show ?thesis
      using xs bs io m' s c running_less
      by (intro conn_runningI [OF m'(1) all_buffers_move [of bs AtInput b xs InPool]]) auto
  qed
  then show ?thesis by (simp add: bs(2))
qed


subsection \<open>A failing creation\<close>

definition same_links :: "'m world \<Rightarrow> 'm world \<Rightarrow> bool" where
  "same_links m m' \<longleftrightarrow> (\<forall>p. connected_port (port_at m' p) = connected_port (port_at m p)
     \<and> core_owns_connection (port_at m' p) = core_owns_connection (port_at m p)
     \<and> pt_enabled (port_at m' p) = pt_enabled (port_at m p) \<and> pt_format (port_at m' p) = pt_format (port_at m p)
     \<and> format_ptr_copy (port_at m' p) = format_ptr_copy (port_at m p) \<and> pf_set_format (port_at m' p) = pf_set_format (port_at m p))"

lemma format_full_copy_same:
  assumes "format_full_copy d s m = Some (status, m')"
  shows "port_at m' = port_at m" and "conn_at m' = conn_at (m :: 'u cworld)"
  using assms
  by (auto simp: format_full_copy_def core_malloc_def conn_at_def client_of_def port_at_def upd_fmts_def upd_env_def
      set_env_def fun_eq_iff Let_def split: Option.bind_splits if_splits prod.splits)

lemma full_copy_plain:
  assumes "extradata_size (format (formats (fmts (env (ctx m))) s)) = 0" and "d \<noteq> s"
  shows "\<exists>m'. format_full_copy (Some d) (Some s) m = Some (MMAL_SUCCESS, m')"
proof -
  have "extradata_size (format (formats (mmal_format_copy d s (fmts (env (ctx m)))) s)) = 0"
    using assms by (simp add: mmal_format_copy_def upd_format_def Let_def)
  then show ?thesis by (simp add: format_full_copy_def mmal_format_full_copy_def Let_def split_def)
qed

lemma sensible_links: "same_links m (upd_port q sensible_buffers m)"
  by (simp add: same_links_def sensible_buffers_def)

lemma fold_sensible_links: "same_links m (fold (\<lambda>q. upd_port q sensible_buffers) qs m)"
proof (induction qs arbitrary: m)
  case Nil
  then show ?case by (simp add: same_links_def)
next
  case (Cons q qs)
  then show ?case using Cons.IH [of "upd_port q sensible_buffers m"] sensible_links [of m q] by (simp add: same_links_def)
qed

lemma fold_sensible_conn: "conn_at (fold (\<lambda>q. upd_port q sensible_buffers) qs m) = conn_at (m :: 'u cworld)"
  by (induction qs arbitrary: m) simp_all

text \<open>When the format of a new tunnelled connection cannot be committed, the creation fails, as it should, but its
  error path also disconnects the output port from whatever port it was connected to before: a connection that
  somebody else made is lost.\<close>

theorem failed_create_disconnects_others:
  fixes m :: "'u cworld"
  assumes "fst (core_malloc (env (ctx m))) = Some c" and "flags AND MMAL_CONNECTION_FLAG_TUNNELLING \<noteq> 0"
    and "connected_port (port_at m out) = Some q" and "core_owns_connection (port_at m out)" and "\<not> pt_enabled (port_at m out)"
    and "pt_format (port_at m p) = format_ptr_copy (port_at m p)" and "pf_set_format (port_at m p) = Some f"
    and "\<And>m. f_set_format ops f p m = Some (e, m)" and "e \<noteq> MMAL_SUCCESS"
    and "pt_format (port_at m p) = Some d" and "pt_format (port_at m out) = Some s" and "d \<noteq> s"
    and "extradata_size (format (formats (fmts (env (ctx m))) s)) = 0"
  shows "\<exists>m'. mmal_connection_create ops True out p flags m = Some (e, None, m')
    \<and> connected_port (port_at m' out) = None \<and> connected_port (port_at m' q) = None"
proof -
  define m0 where "m0 = upd_conn c (\<lambda>_. new_connection out p flags (time_now ops (set_env (snd (core_malloc (env (ctx m)))) m)))
    (set_env (snd (core_malloc (env (ctx m)))) m)"
  have p0: "port_at m0 = port_at m" by (simp add: m0_def fun_eq_iff) (simp add: core_malloc_def port_at_def set_env_def)
  have c0: "conn_at m0 c = new_connection out p flags (time_now ops (set_env (snd (core_malloc (env (ctx m)))) m))"
    by (simp add: m0_def)
  have "fmts (env (ctx m0)) = fmts (env (ctx m))"
    by (simp add: m0_def upd_conn_def upd_client_def upd_modules_def upd_env_def core_malloc_def)
  then obtain m1 where m1: "format_full_copy (pt_format (port_at m0 p)) (pt_format (port_at m0 out)) m0 = Some (MMAL_SUCCESS, m1)"
    using full_copy_plain [of m0 s d] assms(10-13) p0 by auto
  note s1 = format_full_copy_same [OF m1]
  define m2 where "m2 = (let m = upd_port p sensible_buffers m1 in
    if pt_type (port_at m p) = MMAL_PORT_TYPE_INPUT
    then fold (\<lambda>q. upd_port q sensible_buffers) (cp_output (component_at m (pt_component (port_at m p)))) m else m)"
  have "mmal_port_format_commit ops (Some p) m1 = Some (e, m2)"
    using assms(6-8) s1(1) p0 by (simp add: mmal_port_format_commit_def m2_def Let_def cong: if_cong)
  then have formats: "conn_formats ops out p m0 = Some (e, m2)"
    using m1 assms(9) by (simp add: conn_formats_def)
  have l2: "same_links m1 m2" and c2: "conn_at m2 = conn_at m1"
    using sensible_links [of m1 p] fold_sensible_links
      [of "upd_port p sensible_buffers m1" "cp_output (component_at m1 (pt_component (port_at m1 p)))"]
    by (auto simp: m2_def Let_def same_links_def fold_sensible_conn sensible_buffers_def)
  have o2: "connected_port (port_at m2 out) = Some q" "core_owns_connection (port_at m2 out)" "\<not> pt_enabled (port_at m2 out)"
    using l2 assms(3-5) s1(1) p0 by (simp_all add: same_links_def)
  define m3 where "m3 = upd_port q (\<lambda>r. r\<lparr>connected_port := None\<rparr>) (upd_port out (\<lambda>r. r\<lparr>connected_port := None\<rparr>) m2)"
  have "mmal_port_disconnect ops (Some out) m2 = Some (MMAL_SUCCESS, m3)"
    using o2 by (simp add: mmal_port_disconnect_def disconnect_ports_def m3_def)
  then have "\<exists>m'. mmal_connection_destroy_internal ops c m2 = Some (MMAL_SUCCESS, m') \<and> port_at m' = port_at m3"
    using c2 s1(2) c0 assms(2)
    by (simp add: mmal_connection_destroy_internal_def new_connection_def tunnelling_def m3_def)
      (simp add: core_free_def port_at_def upd_env_def set_env_def fun_eq_iff upd_conn_def upd_client_def upd_modules_def upd_port_def)
  then obtain m' where m': "mmal_connection_destroy_internal ops c m2 = Some (MMAL_SUCCESS, m')" "port_at m' = port_at m3"
    by blast
  have "mmal_connection_create ops True out p flags m = Some (e, None, m')"
    using assms(1,9) formats m'(1)
    by (simp add: mmal_connection_create_def split_def m0_def [symmetric] conn_create_error_def)
  then show ?thesis using m'(2) by (auto simp: m3_def)
qed

subsection \<open>Examples\<close>

text \<open>The enabled connection 20 from port 4 to port 3, with the pool 9 and one buffer in each of the four places: 11 in
  the pool, 12 in the queue, 13 in the input port and 14 in the output port. Both components are copy components.\<close>

definition demo_ids :: conn_ids where
  "demo_ids = \<lparr>id_conn = 20, id_pool = 9, id_in = 3, id_out = 4\<rparr>"

definition demo_conn_env :: "addr list conn_env module_env" where
  "demo_conn_env = \<lparr>port_modules = (\<lambda>_. demo_module), component_modules = (\<lambda>_. new_component_module (Some 1)),
     clock_ports = (\<lambda>_. demo_clock_port), clock_events = (\<lambda>_. demo_clock_event), payload_bytes = (\<lambda>_. replicate 8 0),
     client = \<lparr>connections = (\<lambda>_. (new_connection 4 3 0 0)\<lparr>cn_pool := Some 9, cn_queue := Some (one_queue 12), cn_enabled := True\<rparr>),
       port_userdata = (\<lambda>_. Some 20), user = []\<rparr>\<rparr>"

definition demo_conn_port :: "nat \<Rightarrow> mmal_port" where
  "demo_conn_port f = with_count 1 (zero_port\<lparr>pt_enabled := True, pf_disable := Some copy_fn, pf_send := Some copy_fn,
     buffer_header_callback := Some (ClientCb f)\<rparr>)"

definition demo_conn :: "addr list cworld" where
  "demo_conn = upd_pool 9 (\<lambda>r. r\<lparr>p_queue := Some (one_queue 11), headers_num := 4, p_cb := Some conn_release_fn, p_userdata := Some 20\<rparr>)
     (upd_pmod 3 (\<lambda>r. r\<lparr>pm_queue := Some (one_queue 13)\<rparr>) (upd_pmod 4 (\<lambda>r. r\<lparr>pm_queue := Some (one_queue 14)\<rparr>)
     (upd_port 3 (\<lambda>_. demo_conn_port conn_in_fn) (upd_port 4 (\<lambda>_. demo_conn_port conn_out_fn) (idle_world demo_conn_env)))))"

fun demo_places :: "place \<Rightarrow> addr list" where
  "demo_places InPool = [11]" | "demo_places InQueue = [12]" | "demo_places AtInput = [13]" | "demo_places AtOutput = [14]"

lemma demo_conn_simps [simp]:
  "conn_at demo_conn 20 = (new_connection 4 3 0 0)\<lparr>cn_pool := Some 9, cn_queue := Some (one_queue 12), cn_enabled := True\<rparr>"
  "userdata_at demo_conn p = Some 20" "port_at demo_conn 3 = demo_conn_port conn_in_fn"
  "port_at demo_conn 4 = demo_conn_port conn_out_fn" "headers_num (pool_at demo_conn 9) = 4"
  "p_queue (pool_at demo_conn 9) = Some (one_queue 11)" "p_cb (pool_at demo_conn 9) = Some conn_release_fn"
  "p_userdata (pool_at demo_conn 9) = Some 20" "bufs demo_conn b = bufs (idle_world ()) b"
  "pm_queue (pmod_at demo_conn 3) = Some (one_queue 13)" "pm_queue (pmod_at demo_conn 4) = Some (one_queue 14)"
  by (simp_all add: demo_conn_def)
    (simp_all add: idle_world_def idle_env_def demo_conn_env_def conn_at_def userdata_at_def module_defs upd_pool_def)

lemma demo_ids_simps [simp]: "id_conn demo_ids = 20" "id_pool demo_ids = 9" "id_in demo_ids = 3" "id_out demo_ids = 4"
  by (simp_all add: demo_ids_def)

lemma demo_conn_rep: "conn_rep demo_ids demo_places demo_conn"
proof -
  have "conn_fixed demo_ids demo_conn"
    by (simp add: conn_fixed_def) (simp add: new_connection_def tunnelling_def)
  moreover have "\<exists>q. place_queue demo_ids pl demo_conn = Some q \<and> qrep (bufs demo_conn) q (demo_places pl)
      \<and> q_sem q = length (demo_places pl)" for pl
    by (cases pl) (simp_all add: one_queue_def qrep_def idle_world_def zero_header_def)
  moreover have "set (demo_places pl) \<inter> set (demo_places pl') = {}" if "pl \<noteq> pl'" for pl pl'
    using that by (cases pl; cases pl') simp_all
  moreover have "pool_buffer (id_pool demo_ids) (bufs demo_conn b)" for b
    by (simp add: pool_buffer_def) (simp add: idle_world_def zero_header_def)
  ultimately show ?thesis by (simp add: conn_rep_def)
qed

lemma demo_conn_client: "connected_client copy_fn f 1 (demo_conn_port f)"
  by (simp add: connected_client_def demo_conn_port_def) (simp add: with_count_def zero_port_def)

definition demo_conn_ops :: "addr list conn_ops" where "demo_conn_ops = plain_ops (\<lambda>p b m. m)"



text \<open>The port 4 is connected to port 6; the input port 3 refuses every format.\<close>

definition demo_refused :: "addr list cworld" where
  "demo_refused = upd_port 4 (\<lambda>r. r\<lparr>connected_port := Some 6, core_owns_connection := True, pt_format := Some 50\<rparr>)
     (upd_port 3 (\<lambda>r. r\<lparr>pt_format := Some 60, format_ptr_copy := Some 60, pf_set_format := Some 7\<rparr>) (idle_world demo_conn_env))"

theorem failed_create_disconnects_others_witness:
  "\<exists>m'. mmal_connection_create (demo_conn_ops\<lparr>f_set_format := (\<lambda>f p m. Some (MMAL_EINVAL, m))\<rparr>) True 4 3
      MMAL_CONNECTION_FLAG_TUNNELLING demo_refused = Some (MMAL_EINVAL, None, m') \<and> connected_port (port_at m' 6) = None"
proof -
  have x: "extradata_size (format (formats (fmts (env (ctx demo_refused))) 50)) = 0"
    "fst (core_malloc (env (ctx demo_refused))) = Some 1000"
    by (simp_all add: demo_refused_def idle_world_def idle_env_def zero_format_def core_malloc_def upd_port_def upd_env_def)
  have p: "port_at demo_refused 4 = zero_port\<lparr>connected_port := Some 6, core_owns_connection := True, pt_format := Some 50\<rparr>"
    "port_at demo_refused 3 = zero_port\<lparr>pt_format := Some 60, format_ptr_copy := Some 60, pf_set_format := Some 7\<rparr>"
    by (simp_all add: demo_refused_def) (simp_all add: idle_world_def idle_env_def port_at_def)
  have h: "connected_port (port_at demo_refused 4) = Some 6" "core_owns_connection (port_at demo_refused 4)"
    "\<not> pt_enabled (port_at demo_refused 4)" "pt_format (port_at demo_refused 3) = format_ptr_copy (port_at demo_refused 3)"
    "pf_set_format (port_at demo_refused 3) = Some 7" "pt_format (port_at demo_refused 3) = Some 60"
    "pt_format (port_at demo_refused 4) = Some 50"
    by (simp_all add: p) (simp add: zero_port_def)
  have f: "MMAL_CONNECTION_FLAG_TUNNELLING AND MMAL_CONNECTION_FLAG_TUNNELLING \<noteq> 0"
    by (simp add: MMAL_CONNECTION_FLAG_TUNNELLING_def)
  have ops: "f_set_format (demo_conn_ops\<lparr>f_set_format := (\<lambda>f p m. Some (MMAL_EINVAL, m))\<rparr>) 7 3 m = Some (MMAL_EINVAL, m)" for m
    by simp
  have "MMAL_EINVAL \<noteq> MMAL_SUCCESS" "(60 :: nat) \<noteq> 50" by simp_all
  then show ?thesis
    using failed_create_disconnects_others [OF x(2) f h(1-5) ops _ h(6,7) _ x(1)] by blast
qed

end
