(* ===== verification/NamedSem.thy ===== *)
theory NamedSem
  imports Blockpool "HOL-Library.Multiset" "HOL-Library.List_Lexorder" "HOL-Library.Char_ord"
begin

text \<open>
  vcos/generic/vcos_generic_named_sem.c: named semaphores, emulated within one process. The semaphores in use are
  a doubly linked list of implementations, ordered by name, which live in blocks of a pool of
  \<open>vcos_generic_blockpool.c\<close>; a client has a handle that points at an implementation, and handles opened with
  the same name share it. \<open>nimpl\<close> is the memory of the implementations, by address.

  The semaphore of the platform is its count, or \<open>None\<close> when there is none. A name is the sequence of its characters
  without the final NUL. The mutex is held over each whole operation, so an operation is one step.
\<close>

subsection \<open>State\<close>

record named_sem_impl =
  ni_sem :: "nat option"
  ni_name :: string
  ni_refs :: u32
  ni_next :: ptr
  ni_prev :: ptr

record named_semaphore =
  ns_actual :: ptr
  ns_sem :: ptr

record named_sems =
  sems_in_use :: ptr
  sems_in_use_count :: int
  sems_total_ref_count :: int
  sems_pool :: blockpool
  nimpl :: "addr \<Rightarrow> named_sem_impl"

definition NUM_SEMS :: nat where "NUM_SEMS = 16"
definition MAX_SEMS :: nat where "MAX_SEMS = 512"
definition VCOS_NAMED_SEMAPHORE_NAMELEN :: nat where "VCOS_NAMED_SEMAPHORE_NAMELEN = 64"

definition zero_impl :: named_sem_impl where
  "zero_impl = \<lparr>ni_sem = None, ni_name = [], ni_refs = 0, ni_next = None, ni_prev = None\<rparr>"

definition upd_impl :: "addr \<Rightarrow> (named_sem_impl \<Rightarrow> named_sem_impl) \<Rightarrow> named_sems \<Rightarrow> named_sems" where
  "upd_impl a f st = st\<lparr>nimpl := (nimpl st)(a := f (nimpl st a))\<rparr>"

text \<open>\<open>strcmp\<close>: the difference of the first characters that differ, as unsigned numbers, where the end of a string counts as NUL.\<close>

fun vcos_strcmp :: "string \<Rightarrow> string \<Rightarrow> int" where
  "vcos_strcmp [] [] = 0"
| "vcos_strcmp [] (y # ys) = - of_char y"
| "vcos_strcmp (x # xs) [] = of_char x"
| "vcos_strcmp (x # xs) (y # ys) = (if x = y then vcos_strcmp xs ys else of_char x - of_char y)"

subsection \<open>Operations\<close>

text \<open>\<open>impl_size\<close> is the size of an implementation, which contains a semaphore of the platform; \<open>mem\<close> is the address of the
  static array \<open>pool_mem\<close>.\<close>

definition vcos_named_semaphore_init ::
    "nat \<Rightarrow> addr \<Rightarrow> bool \<Rightarrow> vcos_status \<Rightarrow> named_sems \<Rightarrow> (vcos_status \<times> named_sems) option" where
  "vcos_named_semaphore_init impl_size mem pool_mutex_ok mutex_status st = do {
     (status, p) \<leftarrow> vcos_generic_blockpool_init NUM_SEMS impl_size mem (bp_size NUM_SEMS impl_size ALIGN_DEFAULT)
       ALIGN_DEFAULT pool_mutex_ok (sems_pool st);
     if status \<noteq> VCOS_SUCCESS then Some (status, st\<lparr>sems_pool := p\<rparr>)
     else do {
       (status, p) \<leftarrow> vcos_generic_blockpool_extend (MAX_SUBPOOLS - 1) ((MAX_SEMS - NUM_SEMS) div (MAX_SUBPOOLS - 1)) p;
       let status = (if status \<noteq> VCOS_SUCCESS then status else mutex_status);
       if status \<noteq> VCOS_SUCCESS
       then map_option (\<lambda>p. (status, st\<lparr>sems_pool := p\<rparr>)) (vcos_generic_blockpool_delete p)
       else Some (status, st\<lparr>sems_pool := p\<rparr>)
     }
   }"

definition vcos_named_semaphore_deinit :: "named_sems \<Rightarrow> named_sems option" where
  "vcos_named_semaphore_deinit st =
     map_option (\<lambda>p. st\<lparr>sems_pool := p, sems_in_use := None\<rparr>) (vcos_generic_blockpool_delete (sems_pool st))"

text \<open>The search: the element where it stops, and the last result of the comparison.\<close>

partial_function (option) find_sem :: "string \<Rightarrow> (addr \<Rightarrow> named_sem_impl) \<Rightarrow> ptr \<Rightarrow> int \<Rightarrow> (ptr \<times> int) option" where
  "find_sem name h impl cmp =
     (if impl = None then Some (None, cmp)
      else if vcos_strcmp name (ni_name (h (the impl))) < 0
      then find_sem name h (ni_next (h (the impl))) (vcos_strcmp name (ni_name (h (the impl))))
      else Some (impl, vcos_strcmp name (ni_name (h (the impl)))))"

text \<open>The last element, from \<open>tail\<close> on.\<close>

partial_function (option) find_tail :: "(addr \<Rightarrow> named_sem_impl) \<Rightarrow> addr \<Rightarrow> addr option" where
  "find_tail h tail = (case ni_next (h tail) of None \<Rightarrow> Some tail | Some n \<Rightarrow> find_tail h n)"

definition link_sem :: "addr \<Rightarrow> ptr \<Rightarrow> named_sems \<Rightarrow> named_sems option" where
  "link_sem new impl st = do {
     st' \<leftarrow> (case impl of
         Some i \<Rightarrow>
           let st = upd_impl new (\<lambda>r. r\<lparr>ni_prev := ni_prev (nimpl st i)\<rparr>) st;
               st = upd_impl i (\<lambda>r. r\<lparr>ni_prev := Some new\<rparr>) st;
               st = upd_impl new (\<lambda>r. r\<lparr>ni_next := Some i\<rparr>) st
           in Some (case ni_prev (nimpl st new) of None \<Rightarrow> st | Some p \<Rightarrow> upd_impl p (\<lambda>r. r\<lparr>ni_next := Some new\<rparr>) st)
       | None \<Rightarrow> (case sems_in_use st of
           None \<Rightarrow> Some st
         | Some first \<Rightarrow> do {
             tail \<leftarrow> find_tail (nimpl st) first;
             let st = upd_impl tail (\<lambda>r. r\<lparr>ni_next := Some new\<rparr>) st;
             Some (upd_impl new (\<lambda>r. r\<lparr>ni_prev := Some tail\<rparr>) st)
           }));
     Some (if sems_in_use st' = impl then st'\<lparr>sems_in_use := Some new\<rparr> else st')
   }"

text \<open>\<open>asserts\<close> says whether the code is built with assertions, and \<open>sem_status\<close> is the outcome of creating the semaphore of
  the platform. The block stays allocated when that fails.\<close>

definition vcos_generic_named_semaphore_create ::
    "bool \<Rightarrow> (nat \<Rightarrow> ptr) \<Rightarrow> vcos_status \<Rightarrow> named_semaphore \<Rightarrow> string \<Rightarrow> nat \<Rightarrow> named_sems
     \<Rightarrow> (vcos_status \<times> named_semaphore \<times> named_sems) option" where
  "vcos_generic_named_semaphore_create asserts malloc sem_status sem name initial st =
     (if length name \<ge> VCOS_NAMED_SEMAPHORE_NAMELEN
      then (if asserts then None else Some (VCOS_EINVAL, sem, st))
      else do {
        (impl, cmp) \<leftarrow> find_sem name (nimpl st) (sems_in_use st) (- 1);
        (if impl \<noteq> None \<and> cmp = 0
         then
           let st = upd_impl (the impl) (\<lambda>r. r\<lparr>ni_refs := ni_refs r + 1\<rparr>) st;
               st = st\<lparr>sems_total_ref_count := sems_total_ref_count st + 1\<rparr>
           in Some (VCOS_SUCCESS, sem\<lparr>ns_actual := impl, ns_sem := impl\<rparr>, st)
         else do {
           (new_impl, p, h) \<leftarrow> vcos_generic_blockpool_calloc malloc (\<lambda>a _ h. h(a := zero_impl)) (sems_pool st) (nimpl st);
           let st = st\<lparr>sems_pool := p, nimpl := h\<rparr>;
           (case new_impl of
              None \<Rightarrow> Some (VCOS_ENOSPC, sem, st)
            | Some new \<Rightarrow>
                if sem_status \<noteq> VCOS_SUCCESS then Some (sem_status, sem, st)
                else do {
                  let st = upd_impl new (\<lambda>r. r\<lparr>ni_sem := Some initial, ni_refs := 1\<rparr>) st;
                  let st = st\<lparr>sems_total_ref_count := sems_total_ref_count st + 1,
                              sems_in_use_count := sems_in_use_count st + 1\<rparr>;
                  let st = upd_impl new (\<lambda>r. r\<lparr>ni_name := name\<rparr>) st;
                  st \<leftarrow> link_sem new impl st;
                  Some (VCOS_SUCCESS, sem\<lparr>ns_actual := Some new, ns_sem := Some new\<rparr>, st)
                })
         })
      })"

definition unlink_sem :: "addr \<Rightarrow> named_sems \<Rightarrow> named_sems" where
  "unlink_sem a st =
     (let st = (case ni_prev (nimpl st a) of None \<Rightarrow> st
                | Some p \<Rightarrow> upd_impl p (\<lambda>r. r\<lparr>ni_next := ni_next (nimpl st a)\<rparr>) st);
          st = (case ni_next (nimpl st a) of None \<Rightarrow> st
                | Some n \<Rightarrow> upd_impl n (\<lambda>r. r\<lparr>ni_prev := ni_prev (nimpl st a)\<rparr>) st)
      in if sems_in_use st = Some a then st\<lparr>sems_in_use := ni_next (nimpl st a)\<rparr> else st)"

definition vcos_named_semaphore_delete :: "named_semaphore \<Rightarrow> named_sems \<Rightarrow> (named_semaphore \<times> named_sems) option" where
  "vcos_named_semaphore_delete sem st = do {
     a \<leftarrow> ns_actual sem;
     if ni_refs (nimpl st a) = 0 then None
     else
       let st = st\<lparr>sems_total_ref_count := sems_total_ref_count st - 1\<rparr>;
           st = upd_impl a (\<lambda>r. r\<lparr>ni_refs := ni_refs r - 1\<rparr>) st
       in if ni_refs (nimpl st a) = 0
          then
            let st = st\<lparr>sems_in_use_count := sems_in_use_count st - 1\<rparr>;
                st = unlink_sem a st;
                st = upd_impl a (\<lambda>r. r\<lparr>ni_sem := None\<rparr>) st
            in map_option (\<lambda>p. (sem\<lparr>ns_actual := None, ns_sem := None\<rparr>, st\<lparr>sems_pool := p\<rparr>))
                 (vcos_generic_blockpool_free (Some a) (sems_pool st))
          else Some (sem, st)
   }"

text \<open>The operations on the semaphore behind a handle; \<open>None\<close> also when the semaphore does not exist.\<close>

definition vcos_named_semaphore_post :: "named_semaphore \<Rightarrow> named_sems \<Rightarrow> named_sems option" where
  "vcos_named_semaphore_post sem st = do {
     a \<leftarrow> ns_sem sem;
     n \<leftarrow> ni_sem (nimpl st a);
     Some (upd_impl a (\<lambda>r. r\<lparr>ni_sem := Some (n + 1)\<rparr>) st)
   }"

definition vcos_named_semaphore_trywait :: "named_semaphore \<Rightarrow> named_sems \<Rightarrow> (vcos_status \<times> named_sems) option" where
  "vcos_named_semaphore_trywait sem st = do {
     a \<leftarrow> ns_sem sem;
     n \<leftarrow> ni_sem (nimpl st a);
     if n > 0 then Some (VCOS_SUCCESS, upd_impl a (\<lambda>r. r\<lparr>ni_sem := Some (n - 1)\<rparr>) st) else Some (VCOS_EAGAIN, st)
   }"

definition vcos_named_semaphore_wait :: "named_semaphore \<Rightarrow> named_sems \<Rightarrow> named_sems waited option" where
  "vcos_named_semaphore_wait sem st = do {
     a \<leftarrow> ns_sem sem;
     n \<leftarrow> ni_sem (nimpl st a);
     Some (if n > 0 then Woke (upd_impl a (\<lambda>r. r\<lparr>ni_sem := Some (n - 1)\<rparr>) st) else Blocked)
   }"


subsection \<open>Comparing names\<close>

definition plain_name :: "string \<Rightarrow> bool" where "plain_name n \<longleftrightarrow> CHR 0x00 \<notin> set n"

lemma of_char_int: "(of_char c :: int) = int (of_char c)"
  by (simp add: of_char_def)

lemma of_char_pos: "c \<noteq> CHR 0x00 \<Longrightarrow> (0 :: int) < of_char c"
proof -
  assume c: "c \<noteq> CHR 0x00"
  have "(of_char c :: nat) \<noteq> 0"
  proof
    assume "(of_char c :: nat) = 0"
    then have "(of_char c :: nat) = of_char (CHR 0x00)" by simp
    with c show False by (simp only: of_char_eq_iff)
  qed
  then show ?thesis by (simp add: of_char_int)
qed

lemma of_char_pos' [simp]: "CHR 0x00 \<noteq> c \<Longrightarrow> (0 :: int) < of_char c"
  using of_char_pos [of c] by simp

lemma strcmp_eq: "plain_name xs \<Longrightarrow> plain_name ys \<Longrightarrow> vcos_strcmp xs ys = 0 \<longleftrightarrow> xs = ys"
  by (induction xs ys rule: vcos_strcmp.induct) (auto simp: plain_name_def less_imp_neq [OF of_char_pos'] less_imp_neq [OF of_char_pos', symmetric])

lemma strcmp_less: "plain_name xs \<Longrightarrow> plain_name ys \<Longrightarrow> vcos_strcmp xs ys < 0 \<longleftrightarrow> xs < ys"
proof (induction xs ys rule: vcos_strcmp.induct)
  case (4 x xs y ys)
  then show ?case by (auto simp: plain_name_def less_char_def of_char_int)
qed (auto simp: plain_name_def dest: less_asym [OF of_char_pos'])

subsection \<open>The list\<close>

text \<open>\<open>linked h p q as p' q'\<close>: the elements \<open>as\<close> are linked in both directions; \<open>p\<close> and \<open>p'\<close> are the element before them and the
  last of them, \<open>q\<close> and \<open>q'\<close> the first of them and the element after them.\<close>

fun linked :: "(addr \<Rightarrow> named_sem_impl) \<Rightarrow> ptr \<Rightarrow> ptr \<Rightarrow> addr list \<Rightarrow> ptr \<Rightarrow> ptr \<Rightarrow> bool" where
  "linked h p q [] p' q' \<longleftrightarrow> p = p' \<and> q = q'"
| "linked h p q (a # as) p' q' \<longleftrightarrow> q = Some a \<and> ni_prev (h a) = p \<and> linked h (Some a) (ni_next (h a)) as p' q'"

lemma linked_append:
  "linked h p q (as @ bs) p' q' \<longleftrightarrow> (\<exists>p1 q1. linked h p q as p1 q1 \<and> linked h p1 q1 bs p' q')"
  by (induction as arbitrary: p q) auto

lemma linked_cong:
  "(\<And>a. a \<in> set as \<Longrightarrow> ni_next (h' a) = ni_next (h a) \<and> ni_prev (h' a) = ni_prev (h a))
   \<Longrightarrow> linked h' p q as p' q' = linked h p q as p' q'"
  by (induction as arbitrary: p q) auto

lemma linked_nth: "linked h p q as p' q' \<Longrightarrow> (as = [] \<longrightarrow> q = q' \<and> p' = p) \<and> (as \<noteq> [] \<longrightarrow> q = Some (hd as) \<and> p' = Some (last as))"
  by (induction as arbitrary: p q) auto

text \<open>The names of the list, in the order of the list.\<close>

definition sorted_names :: "(addr \<Rightarrow> named_sem_impl) \<Rightarrow> addr list \<Rightarrow> bool" where
  "sorted_names h xs \<longleftrightarrow> sorted_wrt (\<lambda>a b. ni_name (h b) < ni_name (h a)) xs \<and> (\<forall>a\<in>set xs. plain_name (ni_name (h a)))"

lemma sorted_names_distinct: "sorted_names h xs \<Longrightarrow> distinct xs \<and> inj_on (\<lambda>a. ni_name (h a)) (set xs)"
proof (induction xs)
  case (Cons a xs)
  have s: "sorted_names h xs" using Cons.prems by (simp add: sorted_names_def)
  have less: "\<forall>b\<in>set xs. ni_name (h b) < ni_name (h a)" using Cons.prems by (simp add: sorted_names_def)
  have "a \<notin> set xs" using less by auto
  moreover have "ni_name (h a) \<notin> (\<lambda>a. ni_name (h a)) ` set xs" using less by auto
  ultimately show ?case using Cons.IH [OF s] by (simp add: inj_on_insert)
qed simp

text \<open>The search stops at the first element whose name is not behind the name that is looked for.\<close>

lemma find_sem_stops:
  assumes "linked h p q xs p' None" and "sorted_names h xs" and "plain_name n"
  obtains ys zs c where "xs = ys @ zs" and "find_sem n h q cmp = Some (if zs = [] then None else Some (hd zs), c)"
    and "\<forall>a\<in>set ys. n < ni_name (h a)" and "\<forall>a\<in>set zs. ni_name (h a) \<le> n"
    and "zs \<noteq> [] \<Longrightarrow> c = vcos_strcmp n (ni_name (h (hd zs)))"
proof -
  have "\<exists>ys zs c. xs = ys @ zs \<and> find_sem n h q cmp = Some (if zs = [] then None else Some (hd zs), c)
      \<and> (\<forall>a\<in>set ys. n < ni_name (h a)) \<and> (\<forall>a\<in>set zs. ni_name (h a) \<le> n)
      \<and> (zs \<noteq> [] \<longrightarrow> c = vcos_strcmp n (ni_name (h (hd zs))))"
    using assms
  proof (induction xs arbitrary: p q cmp)
    case Nil
    have "find_sem n h None cmp = Some (None, cmp)" by (subst find_sem.simps) simp
    with Nil show ?case by (intro exI [of _ "[]"] exI [of _ "[]"] exI [of _ cmp]) simp
  next
    case (Cons a xs)
    define c where "c = vcos_strcmp n (ni_name (h a))"
    have a: "q = Some a" "linked h (Some a) (ni_next (h a)) xs p' None" "sorted_names h xs" "plain_name (ni_name (h a))"
      "\<forall>b\<in>set xs. ni_name (h b) < ni_name (h a)"
      using Cons.prems by (simp_all add: sorted_names_def)
    show ?case
    proof (cases "n < ni_name (h a)")
      case True
      then have step: "find_sem n h q cmp = find_sem n h (ni_next (h a)) c"
        using a Cons.prems(3) by (subst find_sem.simps) (simp add: strcmp_less c_def)
      obtain ys zs c' where "xs = ys @ zs"
        "find_sem n h (ni_next (h a)) c = Some (if zs = [] then None else Some (hd zs), c')"
        "\<forall>a\<in>set ys. n < ni_name (h a)" "\<forall>a\<in>set zs. ni_name (h a) \<le> n"
        "zs \<noteq> [] \<longrightarrow> c' = vcos_strcmp n (ni_name (h (hd zs)))"
        using Cons.IH [OF a(2,3) Cons.prems(3), of c] by blast
      with True step show ?thesis by (intro exI [of _ "a # ys"] exI [of _ zs] exI [of _ c']) simp
    next
      case False
      then have "find_sem n h q cmp = Some (Some a, c)"
        using a Cons.prems(3) by (subst find_sem.simps) (simp add: strcmp_less c_def)
      with False a(5) show ?thesis
        by (intro exI [of _ "[]"] exI [of _ "a # xs"] exI [of _ c]) (auto simp: c_def)
    qed
  qed
  then show thesis using that by blast
qed

lemma find_tail_last: "linked h p (Some a) xs p' None \<Longrightarrow> find_tail h a = Some (last xs)"
proof (induction xs arbitrary: p a)
  case (Cons b xs)
  show ?case
  proof (cases xs)
    case Nil
    then show ?thesis using Cons.prems by (subst find_tail.simps) simp
  next
    case (Cons c cs)
    then have "ni_next (h a) = Some c" "linked h (Some a) (Some c) xs p' None" using Cons.prems by auto
    then show ?thesis using Cons.IH [of "Some a" c] Cons.prems \<open>xs = c # cs\<close> by (subst find_tail.simps) simp
  qed
qed simp

text \<open>Linking a new element between \<open>ys\<close> and \<open>zs\<close>, and taking one out.\<close>

abbreviation payload :: "named_sem_impl \<Rightarrow> nat option \<times> string \<times> u32" where
  "payload r \<equiv> (ni_sem r, ni_name r, ni_refs r)"

lemma link_sem_between:
  assumes "linked (nimpl st) None (sems_in_use st) (ys @ zs) p' None" and "distinct (ys @ zs)" and "new \<notin> set (ys @ zs)"
    and "ni_next (nimpl st new) = None" and "ni_prev (nimpl st new) = None"
  obtains st' where "link_sem new (if zs = [] then None else Some (hd zs)) st = Some st'"
    and "st' = st\<lparr>nimpl := nimpl st', sems_in_use := sems_in_use st'\<rparr>"
    and "\<exists>l. linked (nimpl st') None (sems_in_use st') (ys @ new # zs) l None"
    and "\<And>a. payload (nimpl st' a) = payload (nimpl st a)"
proof (cases zs)
  case Nil
  show thesis
  proof (cases ys rule: rev_cases)
    case Nil
    have "sems_in_use st = None" using assms(1) \<open>zs = []\<close> Nil by simp
    then show thesis
      using assms \<open>zs = []\<close> Nil by (intro that [of "st\<lparr>sems_in_use := Some new\<rparr>"]) (simp_all add: link_sem_def)
  next
    case (snoc ys0 y)
    obtain a where a: "sems_in_use st = Some a" "linked (nimpl st) None (Some a) ys p' None" "p' = Some y"
      using linked_nth [OF assms(1)] assms(1) \<open>zs = []\<close> snoc by (cases "sems_in_use st") auto
    define h where "h = (nimpl st)(y := (nimpl st y)\<lparr>ni_next := Some new\<rparr>, new := (nimpl st new)\<lparr>ni_prev := Some y\<rparr>)"
    have ne: "new \<noteq> y" using assms(3) snoc by simp
    have "link_sem new None st = Some (st\<lparr>nimpl := h\<rparr>)"
      using find_tail_last [OF a(2)] a(1) snoc ne by (simp add: link_sem_def upd_impl_def h_def)
    moreover have "linked h None (Some a) ys0 p1 q1 = linked (nimpl st) None (Some a) ys0 p1 q1" for p1 q1
      using assms(2,3) snoc by (intro linked_cong) (auto simp: h_def)
    then have "linked h None (Some a) (ys @ [new]) (Some new) None"
      using a(2) assms(4) ne unfolding snoc by (auto simp: linked_append h_def)
    moreover have "payload (h b) = payload (nimpl st b)" for b by (simp add: h_def)
    ultimately show thesis using \<open>zs = []\<close> a(1) by (intro that [of "st\<lparr>nimpl := h\<rparr>"]) auto
  qed
next
  case (Cons z zs')
  obtain p1 where seg: "linked (nimpl st) None (sems_in_use st) ys p1 (Some z)" "ni_prev (nimpl st z) = p1"
    "linked (nimpl st) (Some z) (ni_next (nimpl st z)) zs' p' None"
    using assms(1) unfolding Cons linked_append by auto
  have ne: "new \<noteq> z" "z \<notin> set ys" "z \<notin> set zs'" using assms(2,3) Cons by auto
  show thesis
  proof (cases ys rule: rev_cases)
    case Nil
    define h where "h = (nimpl st)(new := (nimpl st new)\<lparr>ni_prev := None, ni_next := Some z\<rparr>, z := (nimpl st z)\<lparr>ni_prev := Some new\<rparr>)"
    have s: "sems_in_use st = Some z" "p1 = None" using seg(1) Nil by simp_all
    have "link_sem new (Some z) st = Some (st\<lparr>nimpl := h, sems_in_use := Some new\<rparr>)"
      using seg(2) s ne by (simp add: link_sem_def upd_impl_def h_def Let_def fun_upd_twist [of z new])
    moreover have "linked h (Some z) (ni_next (nimpl st z)) zs' p' None"
      using seg(3) ne assms(3) Cons by (subst linked_cong [of _ _ "nimpl st"]) (auto simp: h_def)
    then have "linked h None (Some new) (new # z # zs') p' None" using ne by (simp add: h_def)
    moreover have "payload (h b) = payload (nimpl st b)" for b by (simp add: h_def)
    ultimately show thesis
      using Nil Cons by (intro that [of "st\<lparr>nimpl := h, sems_in_use := Some new\<rparr>"]) auto
  next
    case (snoc ys0 y)
    have y: "p1 = Some y" "sems_in_use st \<noteq> Some z" "y \<noteq> z" "y \<noteq> new" "y \<notin> set zs'"
      using linked_nth [OF seg(1)] hd_in_set [of ys] ne assms(2,3) snoc Cons by auto
    define h where "h = (nimpl st)(new := (nimpl st new)\<lparr>ni_prev := Some y, ni_next := Some z\<rparr>, z := (nimpl st z)\<lparr>ni_prev := Some new\<rparr>,
        y := (nimpl st y)\<lparr>ni_next := Some new\<rparr>)"
    have "link_sem new (Some z) st = Some (st\<lparr>nimpl := h\<rparr>)"
      using seg(2) y ne by (simp add: link_sem_def upd_impl_def h_def Let_def fun_upd_twist [of z new])
    moreover have "linked h (Some z) (ni_next (nimpl st z)) zs' p' None"
      using seg(3) ne y assms(3) Cons by (subst linked_cong [of _ _ "nimpl st"]) (auto simp: h_def)
    moreover have "linked h None (sems_in_use st) ys0 p2 q2 = linked (nimpl st) None (sems_in_use st) ys0 p2 q2" for p2 q2
      using assms(2,3) snoc Cons by (intro linked_cong) (auto simp: h_def)
    ultimately have "link_sem new (Some z) st = Some (st\<lparr>nimpl := h\<rparr>)"
      "linked h None (sems_in_use st) (ys @ new # zs) p' None"
      using seg(1) y ne unfolding snoc Cons by (auto simp: linked_append h_def)
    moreover have "payload (h b) = payload (nimpl st b)" for b by (simp add: h_def)
    ultimately show thesis using Cons by (intro that [of "st\<lparr>nimpl := h\<rparr>"]) auto
  qed
qed

lemma linked_unlink:
  assumes "linked (nimpl st) None (sems_in_use st) (ys @ a # zs) p' None" and "distinct (ys @ a # zs)"
  shows "\<exists>l. linked (nimpl (unlink_sem a st)) None (sems_in_use (unlink_sem a st)) (ys @ zs) l None"
    and "payload (nimpl (unlink_sem a st) b) = payload (nimpl st b)"
    and "sems_in_use_count (unlink_sem a st) = sems_in_use_count st" "sems_pool (unlink_sem a st) = sems_pool st"
    and "sems_total_ref_count (unlink_sem a st) = sems_total_ref_count st"
proof -
  obtain p1 where seg: "linked (nimpl st) None (sems_in_use st) ys p1 (Some a)" "ni_prev (nimpl st a) = p1"
    "linked (nimpl st) (Some a) (ni_next (nimpl st a)) zs p' None"
    using assms(1) unfolding linked_append by auto
  have p1: "p1 = (if ys = [] then None else Some (last ys))" "sems_in_use st = Some (hd (ys @ [a]))"
    using linked_nth [OF seg(1)] by auto
  have nx: "ni_next (nimpl st a) = (if zs = [] then None else Some (hd zs))"
    using linked_nth [OF seg(3)] by auto
  define h1 where "h1 = (if ys = [] then nimpl st else (nimpl st)(last ys := (nimpl st (last ys))\<lparr>ni_next := ni_next (nimpl st a)\<rparr>))"
  define h2 where "h2 = (if zs = [] then h1 else h1(hd zs := (h1 (hd zs))\<lparr>ni_prev := p1\<rparr>))"
  have ends: "ys \<noteq> [] \<Longrightarrow> last ys \<in> set ys" "zs \<noteq> [] \<Longrightarrow> hd zs \<in> set zs" "ys \<noteq> [] \<Longrightarrow> hd ys \<in> set ys"
    by simp_all
  have "h1 a = nimpl st a" using assms(2) ends by (auto simp: h1_def)
  moreover have "h2 a = nimpl st a" using assms(2) ends calculation by (auto simp: h2_def)
  ultimately have eq: "unlink_sem a st = st\<lparr>nimpl := h2, sems_in_use := (if ys = [] then ni_next (nimpl st a) else sems_in_use st)\<rparr>"
  proof (cases "ys = []")
    case True
    moreover have "zs \<noteq> [] \<Longrightarrow> hd zs \<noteq> a" using ends assms(2) by auto
    ultimately show ?thesis using p1 nx seg(2) by (cases zs) (simp_all add: unlink_sem_def upd_impl_def Let_def h1_def h2_def)
  next
    case False
    then have "last ys \<noteq> a" "hd ys \<noteq> a" using ends assms(2) by auto
    moreover from this have "sems_in_use st \<noteq> Some a" using p1 False by (cases ys) auto
    ultimately show ?thesis
      using p1 nx seg(2) False by (simp add: unlink_sem_def upd_impl_def Let_def h1_def h2_def)
  qed
  have "linked h2 None (if ys = [] then ni_next (nimpl st a) else sems_in_use st) ys p1 (ni_next (nimpl st a))"
  proof (cases ys rule: rev_cases)
    case Nil
    then show ?thesis using p1 by simp
  next
    case (snoc ys0 y)
    have y: "y \<notin> set zs" "y \<notin> set ys0" using assms(2) snoc by auto
    have "linked h2 None (sems_in_use st) ys0 p2 q2 = linked (nimpl st) None (sems_in_use st) ys0 p2 q2" for p2 q2
    proof (rule linked_cong)
      fix b assume "b \<in> set ys0"
      then have "b \<noteq> y" "zs \<noteq> [] \<Longrightarrow> b \<noteq> hd zs" using assms(2) snoc ends(2) by auto
      then show "ni_next (h2 b) = ni_next (nimpl st b) \<and> ni_prev (h2 b) = ni_prev (nimpl st b)"
        using snoc by (simp add: h1_def h2_def)
    qed
    moreover have "ni_prev (h2 y) = ni_prev (nimpl st y)" "ni_next (h2 y) = ni_next (nimpl st a)"
      using snoc y ends by (auto simp: h1_def h2_def)
    ultimately show ?thesis using seg(1) p1 unfolding snoc by (auto simp: linked_append)
  qed
  moreover have "\<exists>l. linked h2 p1 (ni_next (nimpl st a)) zs l None"
  proof (cases zs)
    case Nil
    then show ?thesis using nx by simp
  next
    case (Cons z zs')
    have z: "z \<notin> set ys" "z \<notin> set zs'" using assms(2) Cons by auto
    have "linked h2 (Some z) (ni_next (nimpl st z)) zs' p' None = linked (nimpl st) (Some z) (ni_next (nimpl st z)) zs' p' None"
    proof (rule linked_cong)
      fix b assume "b \<in> set zs'"
      then have "b \<noteq> z" "b \<notin> set ys" using assms(2) Cons by auto
      then have "b \<noteq> z" "ys \<noteq> [] \<Longrightarrow> b \<noteq> last ys" using ends(1) by auto
      then show "ni_next (h2 b) = ni_next (nimpl st b) \<and> ni_prev (h2 b) = ni_prev (nimpl st b)"
        using Cons by (simp add: h1_def h2_def)
    qed
    moreover have "ni_prev (h2 z) = p1" "ni_next (h2 z) = ni_next (nimpl st z)"
      using Cons z ends by (auto simp: h1_def h2_def)
    ultimately show ?thesis using seg(3) nx Cons by auto
  qed
  ultimately show "\<exists>l. linked (nimpl (unlink_sem a st)) None (sems_in_use (unlink_sem a st)) (ys @ zs) l None"
    unfolding eq by (auto simp: linked_append) (blast+)?
  show "payload (nimpl (unlink_sem a st) b) = payload (nimpl st b)" unfolding eq by (simp add: h1_def h2_def)
  show "sems_in_use_count (unlink_sem a st) = sems_in_use_count st" "sems_pool (unlink_sem a st) = sems_pool st"
    "sems_total_ref_count (unlink_sem a st) = sems_total_ref_count st"
    unfolding eq by simp_all
qed

subsection \<open>Blocks\<close>

text \<open>What a user of fixed-size blocks relies on: a block that it gets is not one that it already has, until it has freed
  it.\<close>

locale block_allocator =
  fixes ok :: "'p \<Rightarrow> bool" and owned :: "'p \<Rightarrow> addr set" and fresh :: "'o \<Rightarrow> 'p \<Rightarrow> bool"
    and alloc :: "'o \<Rightarrow> 'p \<Rightarrow> (ptr \<times> 'p) option" and free :: "addr \<Rightarrow> 'p \<Rightarrow> 'p option"
  assumes alloc_law: "ok p \<Longrightarrow> fresh m p \<Longrightarrow> \<exists>r p'. alloc m p = Some (r, p') \<and> ok p' \<and> (case r of
      Some a \<Rightarrow> a \<notin> owned p \<and> owned p' = insert a (owned p) | None \<Rightarrow> p' = p)"
    and free_law: "ok p \<Longrightarrow> a \<in> owned p \<Longrightarrow> \<exists>p'. free a p = Some p' \<and> ok p' \<and> owned p' = owned p - {a}"
begin

lemma alloc_cases:
  assumes "ok p" and "fresh m p" and "S \<subseteq> owned p"
  obtains (full) "alloc m p = Some (None, p)"
    | (block) a p' where "alloc m p = Some (Some a, p')" "ok p'" "a \<notin> S" "insert a S \<subseteq> owned p'" "owned p' = insert a (owned p)"
      "a \<notin> owned p"
proof -
  obtain r p' where r: "alloc m p = Some (r, p')" "ok p'" "case r of
      Some a \<Rightarrow> a \<notin> owned p \<and> owned p' = insert a (owned p) | None \<Rightarrow> p' = p"
    using alloc_law [OF assms(1,2)] by blast
  show thesis
  proof (cases r)
    case None
    with r full show thesis by simp
  next
    case (Some a)
    with r assms(3) show thesis by (intro block [of a p']) auto
  qed
qed

lemma free_keeps:
  assumes "ok p" and "S \<subseteq> owned p" and "a \<in> S"
  obtains p' where "free a p = Some p'" "ok p'" "S - {a} \<subseteq> owned p'" "owned p' = owned p - {a}"
  using free_law [OF assms(1), of a] assms(2,3) by blast

end

definition owned_blocks :: "blockpool \<Rightarrow> addr set" where
  "owned_blocks p = (\<lambda>b. b + HEADER_SIZE) ` allocated p"

interpretation blocks: block_allocator "\<lambda>p. pool_ok p \<and> plain_flags p" owned_blocks fresh_memory
  vcos_generic_blockpool_alloc "\<lambda>a. vcos_generic_blockpool_free (Some a)"
proof (standard, goal_cases)
  case (1 p m)
  obtain r p' where r: "vcos_generic_blockpool_alloc m p = Some (r, p')" "pool_ok p'"
    "case r of Some a \<Rightarrow> \<exists>b i. a = b + HEADER_SIZE \<and> i < num_subpools p' \<and> b \<in> blocks_of p' i
            \<and> b \<notin> allocated p \<and> allocated p' = insert b (allocated p)
       | None \<Rightarrow> p' = p"
    using alloc_ok [of p m] 1 by (fastforce split: option.splits)
  have "plain_flags p'" using plain_alloc [OF r(1)] 1 by simp
  with r show ?case by (intro exI [of _ r] exI [of _ p']) (auto simp: owned_blocks_def split: option.splits)
next
  case (2 p a)
  then obtain b where b: "a = b + HEADER_SIZE" "b \<in> allocated p" by (auto simp: owned_blocks_def)
  have "\<forall>i<num_subpools p. sp_flags (subpools p ! i) AND FLAG_EXTENSION = 0" using 2 by (auto simp: plain_flags_def)
  then obtain p' where p': "vcos_generic_blockpool_free (Some a) p = Some p'" "pool_ok p'" "allocated p' = allocated p - {b}"
    using free_ok [OF _ b(2)] 2 b(1) by auto
  have "plain_flags p'" using plain_free [OF p'(1) [unfolded b(1)] _ b(2)] 2 by simp
  moreover have "inj (\<lambda>b. b + HEADER_SIZE)" by (simp add: inj_def)
  then have "owned_blocks p' = owned_blocks p - {a}" unfolding owned_blocks_def p'(3) b(1) by (simp add: image_set_diff)
  ultimately show ?case using p' by blast
qed

subsection \<open>Representation\<close>

text \<open>The elements in use, found by following the list, and the table of the semaphores by name: the number of handles and
  the count of the semaphore.\<close>

partial_function (option) in_use_list :: "(addr \<Rightarrow> named_sem_impl) \<Rightarrow> ptr \<Rightarrow> addr list option" where
  "in_use_list h q = (case q of None \<Rightarrow> Some [] | Some a \<Rightarrow> Option.bind (in_use_list h (ni_next (h a))) (\<lambda>as. Some (a # as)))"

definition sem_table :: "named_sems \<Rightarrow> (string \<rightharpoonup> nat \<times> nat) option" where
  "sem_table st = map_option (\<lambda>as. map_of (map (\<lambda>a. (ni_name (nimpl st a), unat (ni_refs (nimpl st a)),
       case ni_sem (nimpl st a) of None \<Rightarrow> 0 | Some n \<Rightarrow> n)) as)) (in_use_list (nimpl st) (sems_in_use st))"

lemma linked_in_use: "linked h p q xs p' None \<Longrightarrow> in_use_list h q = Some xs"
proof (induction xs arbitrary: p q)
  case Nil
  then show ?case by (subst in_use_list.simps) simp
next
  case (Cons a xs)
  then show ?case by (subst in_use_list.simps) auto
qed

text \<open>\<open>N\<close> are the names of the handles. A handle takes 8 bytes of the address space, so there are fewer than \<open>2 ^ 29\<close> of them.\<close>

definition named_rep :: "named_sems \<Rightarrow> addr list \<Rightarrow> string multiset \<Rightarrow> bool" where
  "named_rep st xs N \<longleftrightarrow> (\<exists>l. linked (nimpl st) None (sems_in_use st) xs l None) \<and> sorted_names (nimpl st) xs
     \<and> (pool_ok (sems_pool st) \<and> plain_flags (sems_pool st)) \<and> set xs \<subseteq> owned_blocks (sems_pool st)
     \<and> (\<forall>a\<in>set xs. ni_sem (nimpl st a) \<noteq> None \<and> ni_refs (nimpl st a) = of_nat (count N (ni_name (nimpl st a))))
     \<and> set_mset N = (\<lambda>a. ni_name (nimpl st a)) ` set xs
     \<and> sems_in_use_count st = int (length xs) \<and> sems_total_ref_count st = int (size N) \<and> size N < 2 ^ 29"

lemma rep_refs: "named_rep st xs N \<Longrightarrow> a \<in> set xs \<Longrightarrow>
    unat (ni_refs (nimpl st a)) = count N (ni_name (nimpl st a)) \<and> 0 < count N (ni_name (nimpl st a))"
proof -
  assume r: "named_rep st xs N" "a \<in> set xs"
  have "count N (ni_name (nimpl st a)) \<le> size N" by (rule count_le_size)
  then have "count N (ni_name (nimpl st a)) < 2 ^ LENGTH(32)" using r(1) by (simp add: named_rep_def)
  then have "unat (of_nat (count N (ni_name (nimpl st a))) :: u32) = count N (ni_name (nimpl st a))"
    by (simp add: unsigned_of_nat take_bit_nat_eq_self)
  moreover have "ni_name (nimpl st a) \<in># N" using r by (auto simp: named_rep_def)
  ultimately show ?thesis using r by (simp add: named_rep_def)
qed

text \<open>The table of a represented state: the names that are in use, each with the number of its handles.\<close>

lemma rep_table:
  assumes "named_rep st xs N"
  obtains T where "sem_table st = Some T" and "\<And>n. T n = None \<longleftrightarrow> n \<notin># N"
    and "\<And>a. a \<in> set xs \<Longrightarrow> T (ni_name (nimpl st a)) = Some (count N (ni_name (nimpl st a)), the (ni_sem (nimpl st a)))"
proof -
  define f where "f a = (ni_name (nimpl st a), unat (ni_refs (nimpl st a)), case ni_sem (nimpl st a) of None \<Rightarrow> 0 | Some n \<Rightarrow> n)" for a
  have s: "in_use_list (nimpl st) (sems_in_use st) = Some xs"
  proof -
    obtain l where "linked (nimpl st) None (sems_in_use st) xs l None" using assms by (auto simp: named_rep_def)
    then show ?thesis by (rule linked_in_use)
  qed
  have fst_f: "fst \<circ> f = (\<lambda>a. ni_name (nimpl st a))" by (simp add: f_def fun_eq_iff)
  have inj: "distinct xs" "inj_on (\<lambda>a. ni_name (nimpl st a)) (set xs)"
    using sorted_names_distinct assms by (auto simp: named_rep_def)
  have "sem_table st = Some (map_of (map f xs))" by (simp add: sem_table_def s f_def [abs_def])
  moreover have "map_of (map f xs) n = None \<longleftrightarrow> n \<notin># N" for n
    using assms by (simp add: map_of_eq_None_iff image_comp fst_f named_rep_def)
  moreover have "map_of (map f xs) (ni_name (nimpl st a)) = Some (count N (ni_name (nimpl st a)), the (ni_sem (nimpl st a)))"
    if a: "a \<in> set xs" for a
  proof -
    have "distinct (map fst (map f xs))" using inj by (simp add: distinct_map fst_f)
    moreover have "(fst (f a), snd (f a)) \<in> set (map f xs)" using a by simp
    ultimately have "map_of (map f xs) (fst (f a)) = Some (snd (f a))" by (rule map_of_is_SomeI)
    then show ?thesis using rep_refs [OF assms a] a assms by (auto simp: f_def named_rep_def split: option.splits)
  qed
  ultimately show thesis by (rule that)
qed

subsection \<open>What the operations do\<close>

lemma rep_refs_upd:
  assumes "named_rep st xs N" and "a \<in> set xs" and "ni_name (nimpl st a) = n" and "set_mset M = set_mset N"
    and "\<And>m. m \<noteq> n \<Longrightarrow> count M m = count N m" and "size M < 2 ^ 29"
  shows "named_rep (upd_impl a (\<lambda>r. r\<lparr>ni_refs := of_nat (count M n)\<rparr>) (st\<lparr>sems_total_ref_count := int (size M)\<rparr>)) xs M"
proof -
  let ?st = "upd_impl a (\<lambda>r. r\<lparr>ni_refs := of_nat (count M n)\<rparr>) (st\<lparr>sems_total_ref_count := int (size M)\<rparr>)"
  have names: "ni_name (nimpl ?st b) = ni_name (nimpl st b)" for b by (simp add: upd_impl_def)
  obtain l where l: "linked (nimpl st) None (sems_in_use st) xs l None" using assms(1) by (auto simp: named_rep_def)
  then have "linked (nimpl ?st) None (sems_in_use ?st) xs l None"
    by (subst linked_cong [of _ _ "nimpl st"]) (auto simp: upd_impl_def)
  moreover have "sorted_names (nimpl ?st) xs" using assms(1) by (simp add: named_rep_def sorted_names_def names)
  moreover have inj: "inj_on (\<lambda>a. ni_name (nimpl st a)) (set xs)"
    using sorted_names_distinct assms(1) by (auto simp: named_rep_def)
  have "ni_sem (nimpl ?st b) \<noteq> None \<and> ni_refs (nimpl ?st b) = of_nat (count M (ni_name (nimpl ?st b)))" if b: "b \<in> set xs" for b
  proof (cases "b = a")
    case True
    then show ?thesis using assms(1-3) by (auto simp: upd_impl_def named_rep_def)
  next
    case False
    then have "ni_name (nimpl st b) \<noteq> n" using inj_onD [OF inj, of b a] assms(2,3) b by auto
    then show ?thesis using False assms(1,5) b by (simp add: upd_impl_def named_rep_def)
  qed
  moreover have "set_mset M = (\<lambda>a. ni_name (nimpl ?st a)) ` set xs" using assms(1,4) by (simp add: named_rep_def names)
  ultimately show ?thesis using assms(1,6) by (auto simp: named_rep_def upd_impl_def)
qed

lemma create_shares:
  assumes "named_rep st xs N" and "a \<in> set xs" and "ni_name (nimpl st a) = n" and "length n < VCOS_NAMED_SEMAPHORE_NAMELEN"
    and "size N + 1 < 2 ^ 29"
  obtains st' where "vcos_generic_named_semaphore_create asserts malloc sem_status sem n v st
      = Some (VCOS_SUCCESS, sem\<lparr>ns_actual := Some a, ns_sem := Some a\<rparr>, st')"
    and "named_rep st' xs (add_mset n N)"
    and "\<And>b. ni_name (nimpl st' b) = ni_name (nimpl st b) \<and> ni_sem (nimpl st' b) = ni_sem (nimpl st b)"
proof -
  obtain l where l: "linked (nimpl st) None (sems_in_use st) xs l None" and sorted: "sorted_names (nimpl st) xs"
    using assms(1) by (auto simp: named_rep_def)
  have plain: "plain_name n" using sorted assms(2,3) by (auto simp: sorted_names_def)
  obtain ys zs c where f: "xs = ys @ zs"
    "find_sem n (nimpl st) (sems_in_use st) (- 1) = Some (if zs = [] then None else Some (hd zs), c)"
    "\<forall>a\<in>set ys. n < ni_name (nimpl st a)" "\<forall>a\<in>set zs. ni_name (nimpl st a) \<le> n"
    "zs \<noteq> [] \<Longrightarrow> c = vcos_strcmp n (ni_name (nimpl st (hd zs)))"
    using find_sem_stops [OF l sorted plain] by metis
  have "a \<notin> set ys" using f(3) assms(3) by auto
  then have "a \<in> set zs" using assms(2) f(1) by simp
  then obtain z zs' where z: "zs = z # zs'" by (cases zs) auto
  have "z = a"
  proof (rule ccontr)
    assume "z \<noteq> a"
    then have "a \<in> set zs'" using \<open>a \<in> set zs\<close> z by simp
    then have "ni_name (nimpl st a) < ni_name (nimpl st z)"
      using sorted unfolding f(1) z by (simp add: sorted_names_def sorted_wrt_append)
    then show False using f(4) z assms(3) by auto
  qed
  then have c: "c = 0" using f(5) z assms(3) plain strcmp_eq by simp
  define M where "M = add_mset n N"
  have M: "set_mset M = set_mset N" "\<And>m. m \<noteq> n \<Longrightarrow> count M m = count N m" "size M < 2 ^ 29"
    using assms(1,2,3,5) by (auto simp: M_def named_rep_def)
  define st' where "st' = upd_impl a (\<lambda>r. r\<lparr>ni_refs := of_nat (count M n)\<rparr>) (st\<lparr>sems_total_ref_count := int (size M)\<rparr>)"
  have "ni_refs (nimpl st a) + 1 = of_nat (count M n)"
    using assms(1-3) by (simp add: named_rep_def M_def add.commute)
  then have "vcos_generic_named_semaphore_create asserts malloc sem_status sem n v st
      = Some (VCOS_SUCCESS, sem\<lparr>ns_actual := Some a, ns_sem := Some a\<rparr>, st')"
    using f(2) z \<open>z = a\<close> c assms(1,4)
    by (simp add: vcos_generic_named_semaphore_create_def st'_def upd_impl_def named_rep_def M_def add.commute)
  moreover have "named_rep st' xs M"
    unfolding st'_def by (rule rep_refs_upd [OF assms(1-3) M])
  moreover have "ni_name (nimpl st' b) = ni_name (nimpl st b) \<and> ni_sem (nimpl st' b) = ni_sem (nimpl st b)" for b
    by (simp add: st'_def upd_impl_def)
  ultimately show thesis using that unfolding M_def by blast
qed

lemma create_new:
  assumes "named_rep st xs N" and "n \<notin># N" and "plain_name n" and "length n < VCOS_NAMED_SEMAPHORE_NAMELEN"
    and "size N + 1 < 2 ^ 29" and "fresh_memory malloc (sems_pool st)"
  obtains (full) "vcos_generic_blockpool_alloc malloc (sems_pool st) = Some (None, sems_pool st)"
      "vcos_generic_named_semaphore_create asserts malloc sem_status sem n v st = Some (VCOS_ENOSPC, sem, st)"
    | (failed) a st' where "sem_status \<noteq> VCOS_SUCCESS"
      "vcos_generic_named_semaphore_create asserts malloc sem_status sem n v st = Some (sem_status, sem, st')"
      "named_rep st' xs N" "\<And>b. b \<in> set xs \<Longrightarrow> nimpl st' b = nimpl st b"
      "a \<notin> owned_blocks (sems_pool st)" "owned_blocks (sems_pool st') = insert a (owned_blocks (sems_pool st))"
    | (made) a xs' st' where "sem_status = VCOS_SUCCESS"
      "vcos_generic_named_semaphore_create asserts malloc sem_status sem n v st
        = Some (VCOS_SUCCESS, sem\<lparr>ns_actual := Some a, ns_sem := Some a\<rparr>, st')"
      "named_rep st' xs' (add_mset n N)" "set xs' = insert a (set xs)" "a \<notin> set xs"
      "ni_name (nimpl st' a) = n" "ni_sem (nimpl st' a) = Some v"
      "\<And>b. b \<in> set xs \<Longrightarrow> ni_name (nimpl st' b) = ni_name (nimpl st b) \<and> ni_sem (nimpl st' b) = ni_sem (nimpl st b)"
proof -
  obtain l where l: "linked (nimpl st) None (sems_in_use st) xs l None" and sorted: "sorted_names (nimpl st) xs"
    and pool: "pool_ok (sems_pool st) \<and> plain_flags (sems_pool st)" "set xs \<subseteq> owned_blocks (sems_pool st)"
    using assms(1) by (auto simp: named_rep_def)
  obtain ys zs c where f: "xs = ys @ zs"
    "find_sem n (nimpl st) (sems_in_use st) (- 1) = Some (if zs = [] then None else Some (hd zs), c)"
    "\<forall>a\<in>set ys. n < ni_name (nimpl st a)" "\<forall>a\<in>set zs. ni_name (nimpl st a) \<le> n"
    "zs \<noteq> [] \<Longrightarrow> c = vcos_strcmp n (ni_name (nimpl st (hd zs)))"
    using find_sem_stops [OF l sorted assms(3)] by metis
  have names: "\<forall>a\<in>set xs. ni_name (nimpl st a) \<noteq> n" using assms(1,2) by (auto simp: named_rep_def)
  have c: "zs \<noteq> [] \<Longrightarrow> c \<noteq> 0"
    using f(1,5) names sorted strcmp_eq [OF assms(3)] by (auto simp: sorted_names_def)
  show thesis
  proof (rule blocks.alloc_cases [OF pool(1) assms(6) pool(2)])
    assume "vcos_generic_blockpool_alloc malloc (sems_pool st) = Some (None, sems_pool st)"
    moreover from this have "vcos_generic_named_semaphore_create asserts malloc sem_status sem n v st = Some (VCOS_ENOSPC, sem, st)"
      using f(2) c assms(4) by (simp add: vcos_generic_named_semaphore_create_def vcos_generic_blockpool_calloc_def)
    ultimately show thesis by (rule full)
  next
    fix a p' assume a: "vcos_generic_blockpool_alloc malloc (sems_pool st) = Some (Some a, p')"
      "pool_ok p' \<and> plain_flags p'" "a \<notin> set xs" "insert a (set xs) \<subseteq> owned_blocks p'"
      "owned_blocks p' = insert a (owned_blocks (sems_pool st))" "a \<notin> owned_blocks (sems_pool st)"
    define st0 where "st0 = st\<lparr>sems_pool := p', nimpl := (nimpl st)(a := zero_impl)\<rparr>"
    have l0: "linked (nimpl st0) None (sems_in_use st0) xs l None"
      using l a(3) by (subst linked_cong [of _ _ "nimpl st"]) (auto simp: st0_def)
    have same: "nimpl st0 b = nimpl st b" if "b \<in> set xs" for b using that a(3) by (auto simp: st0_def)
    have sorted0: "sorted_names (nimpl st0) xs"
    proof -
      have "sorted_wrt (\<lambda>a b. ni_name (nimpl st0 b) < ni_name (nimpl st0 a)) xs"
        by (rule sorted_wrt_mono_rel [of _ "\<lambda>a b. ni_name (nimpl st b) < ni_name (nimpl st a)"])
          (use sorted same in \<open>simp_all add: sorted_names_def\<close>)
      then show ?thesis using sorted same by (simp add: sorted_names_def)
    qed
    show thesis
    proof (cases "sem_status = VCOS_SUCCESS")
      case False
      have "vcos_generic_named_semaphore_create asserts malloc sem_status sem n v st = Some (sem_status, sem, st0)"
        using f(2) c assms(4) a(1) False
        by (simp add: vcos_generic_named_semaphore_create_def vcos_generic_blockpool_calloc_def st0_def)
      moreover have "named_rep st0 xs N"
      proof -
        have "set xs \<subseteq> owned_blocks (sems_pool st0)" "pool_ok (sems_pool st0) \<and> plain_flags (sems_pool st0)"
          "sems_in_use_count st0 = sems_in_use_count st" "sems_total_ref_count st0 = sems_total_ref_count st"
          using a(2,4) by (simp_all add: st0_def)
        moreover have "(\<lambda>b. ni_name (nimpl st0 b)) ` set xs = (\<lambda>b. ni_name (nimpl st b)) ` set xs" using same by simp
        ultimately show ?thesis using assms(1) l0 sorted0 same by (auto simp: named_rep_def)
      qed
      ultimately show thesis
        using False same a(5,6) by (intro failed [of st0 a]) (auto simp: st0_def)
    next
      case True
      define st1 where "st1 = upd_impl a (\<lambda>r. r\<lparr>ni_sem := Some v, ni_refs := 1, ni_name := n\<rparr>)
        (st0\<lparr>sems_total_ref_count := sems_total_ref_count st + 1, sems_in_use_count := sems_in_use_count st + 1\<rparr>)"
      have l1: "linked (nimpl st1) None (sems_in_use st1) (ys @ zs) l None"
        using l0 a(3) f(1) by (subst linked_cong [of _ _ "nimpl st0"]) (auto simp: st1_def upd_impl_def)
      have new: "a \<notin> set (ys @ zs)" "distinct (ys @ zs)" "ni_next (nimpl st1 a) = None" "ni_prev (nimpl st1 a) = None"
        using a(3) f(1) sorted_names_distinct [OF sorted]
        by (simp_all add: st1_def st0_def upd_impl_def zero_impl_def)
      obtain st' where st': "link_sem a (if zs = [] then None else Some (hd zs)) st1 = Some st'"
        "st' = st1\<lparr>nimpl := nimpl st', sems_in_use := sems_in_use st'\<rparr>"
        "\<exists>l. linked (nimpl st') None (sems_in_use st') (ys @ a # zs) l None"
        "\<And>b. payload (nimpl st' b) = payload (nimpl st1 b)"
        using link_sem_between [OF l1 new(2,1,3,4)] by metis
      have run: "vcos_generic_named_semaphore_create asserts malloc sem_status sem n v st
          = Some (VCOS_SUCCESS, sem\<lparr>ns_actual := Some a, ns_sem := Some a\<rparr>, st')"
        using f(2) c assms(4) a(1) True st'(1)
        by (simp add: vcos_generic_named_semaphore_create_def vcos_generic_blockpool_calloc_def st0_def st1_def upd_impl_def)
      have old: "ni_name (nimpl st' b) = ni_name (nimpl st b)" "ni_sem (nimpl st' b) = ni_sem (nimpl st b)"
        "ni_refs (nimpl st' b) = ni_refs (nimpl st b)" if "b \<in> set xs" for b
        using st'(4) [of b] same [OF that] a(3) that by (auto simp: st1_def upd_impl_def)
      have at: "ni_name (nimpl st' a) = n" "ni_sem (nimpl st' a) = Some v" "ni_refs (nimpl st' a) = 1"
        using st'(4) [of a] by (simp_all add: st1_def upd_impl_def)
      have "sorted_names (nimpl st') (ys @ a # zs)"
      proof -
        have "sorted_wrt (\<lambda>a b. ni_name (nimpl st' b) < ni_name (nimpl st' a)) (ys @ zs)"
          by (rule sorted_wrt_mono_rel [of _ "\<lambda>a b. ni_name (nimpl st b) < ni_name (nimpl st a)"])
            (use sorted old f(1) in \<open>simp_all add: sorted_names_def\<close>)
        moreover have "\<forall>b\<in>set ys. n < ni_name (nimpl st' b)" using f(1,3) old by simp
        moreover have "\<forall>b\<in>set zs. ni_name (nimpl st' b) < n" using f(1,4) old names by (simp add: le_neq_trans)
        ultimately show ?thesis
          using at sorted old f(1) assms(3) by (auto simp: sorted_names_def sorted_wrt_append)
      qed
      moreover have "ni_sem (nimpl st' b) \<noteq> None \<and> ni_refs (nimpl st' b) = of_nat (count (add_mset n N) (ni_name (nimpl st' b)))"
        if "b \<in> insert a (set xs)" for b
      proof (cases "b = a")
        case True
        then show ?thesis using at assms(2) by (simp add: not_in_iff)
      next
        case False
        then have b: "b \<in> set xs" using that by simp
        then have "n \<noteq> ni_name (nimpl st b)" using names by auto
        then show ?thesis using old [OF b] assms(1) b by (simp add: named_rep_def)
      qed
      moreover have "set_mset (add_mset n N) = (\<lambda>a. ni_name (nimpl st' a)) ` insert a (set xs)"
        using assms(1) at old by (auto simp: named_rep_def)
      moreover have "set (ys @ a # zs) = insert a (set xs)" using f(1) by auto
      moreover have "sems_pool st' = p'" "sems_in_use_count st' = sems_in_use_count st + 1"
        "sems_total_ref_count st' = sems_total_ref_count st + 1"
        by (subst st'(2), simp add: st1_def st0_def upd_impl_def)+
      ultimately have "named_rep st' (ys @ a # zs) (add_mset n N)"
        unfolding named_rep_def using assms(1,5) st'(3) a(2,4) f(1) by (auto simp: named_rep_def)
      with run show thesis using True at old a(3) f(1) by (intro made [of a st' "ys @ a # zs"]) auto
    qed
  qed
qed

lemma delete_closes:
  assumes "named_rep st xs N" and "a \<in> set xs" and "ni_name (nimpl st a) = n" and "ns_actual sem = Some a"
  obtains sem' st' xs' where "vcos_named_semaphore_delete sem st = Some (sem', st')"
    and "named_rep st' xs' (N - {#n#})" and "set xs' = (if count N n = 1 then set xs - {a} else set xs)"
    and "\<And>b. b \<in> set xs' \<Longrightarrow> ni_name (nimpl st' b) = ni_name (nimpl st b) \<and> ni_sem (nimpl st' b) = ni_sem (nimpl st b)"
proof -
  define k where "k = count N n"
  note refs = rep_refs [OF assms(1,2), unfolded assms(3)]
  have r: "ni_refs (nimpl st a) = of_nat k" "0 < k" "unat (of_nat k :: u32) = k" "n \<in># N"
    using refs assms(1-3) by (auto simp: named_rep_def k_def)
  have "(of_nat k :: u32) \<noteq> 0" using r(2,3) by (metis less_irrefl unat_0)
  have dec: "(of_nat k :: u32) - 1 = of_nat (k - 1)" using r(2) by (simp add: of_nat_diff)
  have one: "(of_nat (k - 1) :: u32) = 0 \<longleftrightarrow> k = 1"
  proof
    assume "(of_nat (k - 1) :: u32) = 0"
    then have "(of_nat k :: u32) = 1" using dec by (metis eq_iff_diff_eq_0)
    then show "k = 1" using r(3) by simp
  qed simp
  define M where "M = N - {#n#}"
  have "N = add_mset n M" using r(4) by (simp add: M_def)
  then have "size N = Suc (size M)" by simp
  then have M: "count M n = k - 1" "int (size M) = int (size N) - 1" "size M < 2 ^ 29"
    using assms(1) by (simp_all add: M_def k_def named_rep_def)
  have total: "sems_total_ref_count st - 1 = int (size M)" using assms(1) M(2) by (simp add: named_rep_def)
  define st1 where "st1 = upd_impl a (\<lambda>r. r\<lparr>ni_refs := of_nat (k - 1)\<rparr>) (st\<lparr>sems_total_ref_count := int (size M)\<rparr>)"
  have start: "upd_impl a (\<lambda>r. r\<lparr>ni_refs := ni_refs r - 1\<rparr>) (st\<lparr>sems_total_ref_count := sems_total_ref_count st - 1\<rparr>) = st1"
    using r(1) dec total by (simp add: st1_def upd_impl_def)
  show thesis
  proof (cases "k = 1")
    case False
    have "1 < k" using False r(2) by linarith
    then have "set_mset M = set_mset N" using r(4) by (auto simp: M_def k_def in_diff_count set_eq_iff)
    then have "named_rep st1 xs M"
      unfolding st1_def M(1) [symmetric] by (intro rep_refs_upd [OF assms(1-3) _ _ M(3)]) (auto simp: M_def)
    moreover have "vcos_named_semaphore_delete sem st = Some (sem, st1)"
      using assms(4) r(1) \<open>of_nat k \<noteq> 0\<close> False one start
      by (simp add: vcos_named_semaphore_delete_def Let_def) (simp add: st1_def upd_impl_def)
    moreover have "ni_name (nimpl st1 b) = ni_name (nimpl st b) \<and> ni_sem (nimpl st1 b) = ni_sem (nimpl st b)" for b
      by (simp add: st1_def upd_impl_def)
    ultimately show thesis using False k_def M_def by (intro that [of sem st1 xs]) auto
  next
    case True
    obtain l where l: "linked (nimpl st) None (sems_in_use st) xs l None" and sorted: "sorted_names (nimpl st) xs"
      and pool: "pool_ok (sems_pool st) \<and> plain_flags (sems_pool st)" "set xs \<subseteq> owned_blocks (sems_pool st)"
      using assms(1) by (auto simp: named_rep_def)
    obtain ys zs where xs: "xs = ys @ a # zs" using split_list [OF assms(2)] by blast
    define st2 where "st2 = st1\<lparr>sems_in_use_count := sems_in_use_count st - 1\<rparr>"
    have l2: "linked (nimpl st2) None (sems_in_use st2) (ys @ a # zs) l None"
      using l xs by (subst linked_cong [of _ _ "nimpl st"]) (auto simp: st1_def st2_def upd_impl_def)
    have dist: "distinct (ys @ a # zs)" "inj_on (\<lambda>a. ni_name (nimpl st a)) (set xs)"
      using sorted_names_distinct [OF sorted] unfolding xs by blast+
    have st2_eq: "st1\<lparr>sems_in_use_count := sems_in_use_count st1 - 1\<rparr> = st2" and refs1: "ni_refs (nimpl st1 a) = 0"
      using True by (simp_all add: st2_def st1_def upd_impl_def)
    note un = linked_unlink [OF l2 dist(1)]
    define st3 where "st3 = upd_impl a (\<lambda>r. r\<lparr>ni_sem := None\<rparr>) (unlink_sem a st2)"
    have set: "set (ys @ zs) = set xs - {a}" using dist(1) xs by auto
    have pool3: "sems_pool st3 = sems_pool st" using un(4) by (simp add: st3_def upd_impl_def st2_def st1_def)
    show thesis
    proof (rule blocks.free_keeps [OF pool assms(2)])
      fix p' assume p': "vcos_generic_blockpool_free (Some a) (sems_pool st) = Some p'" "pool_ok p' \<and> plain_flags p'"
        "set xs - {a} \<subseteq> owned_blocks p'"
      define st' where "st' = st3\<lparr>sems_pool := p'\<rparr>"
      have "vcos_named_semaphore_delete sem st = Some (sem\<lparr>ns_actual := None, ns_sem := None\<rparr>, st')"
        using assms(4) r(1) \<open>of_nat k \<noteq> 0\<close> start refs1 st2_eq p'(1) pool3
        by (simp add: vcos_named_semaphore_delete_def Let_def st'_def st3_def del: vcos_generic_blockpool_free.simps)
      moreover have same: "ni_name (nimpl st' b) = ni_name (nimpl st b)" "ni_sem (nimpl st' b) = ni_sem (nimpl st b)"
        "ni_refs (nimpl st' b) = ni_refs (nimpl st b)" if "b \<in> set (ys @ zs)" for b
        using un(2) [of b] that set by (auto simp: st'_def st3_def st2_def st1_def upd_impl_def)
      have "\<exists>l. linked (nimpl st') None (sems_in_use st') (ys @ zs) l None"
      proof -
        obtain l' where "linked (nimpl (unlink_sem a st2)) None (sems_in_use (unlink_sem a st2)) (ys @ zs) l' None"
          using un(1) by blast
        then have "linked (nimpl st') None (sems_in_use st') (ys @ zs) l' None"
          by (subst linked_cong [of _ _ "nimpl (unlink_sem a st2)"]) (auto simp: st'_def st3_def upd_impl_def)
        then show ?thesis by blast
      qed
      moreover have "sorted_names (nimpl st') (ys @ zs)"
      proof -
        have "sorted_wrt (\<lambda>a b. ni_name (nimpl st b) < ni_name (nimpl st a)) (ys @ zs)"
          using sorted xs by (simp add: sorted_names_def sorted_wrt_append)
        then have "sorted_wrt (\<lambda>a b. ni_name (nimpl st' b) < ni_name (nimpl st' a)) (ys @ zs)"
          by (rule sorted_wrt_mono_rel [rotated]) (use same in simp_all)
        then show ?thesis using sorted same set xs by (auto simp: sorted_names_def)
      qed
      moreover have other: "ni_name (nimpl st b) \<noteq> n" if "b \<in> set (ys @ zs)" for b
        using inj_onD [OF dist(2), of b a] that assms(2,3) set by auto
      have "\<forall>b\<in>set (ys @ zs). ni_sem (nimpl st' b) \<noteq> None \<and> ni_refs (nimpl st' b) = of_nat (count M (ni_name (nimpl st' b)))"
      proof
        fix b assume b: "b \<in> set (ys @ zs)"
        then have "b \<in> set xs" using xs by auto
        then have "ni_sem (nimpl st b) \<noteq> None" "ni_refs (nimpl st b) = of_nat (count N (ni_name (nimpl st b)))"
          using assms(1) by (auto simp: named_rep_def)
        then show "ni_sem (nimpl st' b) \<noteq> None \<and> ni_refs (nimpl st' b) = of_nat (count M (ni_name (nimpl st' b)))"
          using same [OF b] other [OF b] by (simp add: M_def)
      qed
      moreover have "set_mset M = (\<lambda>a. ni_name (nimpl st' a)) ` set (ys @ zs)"
      proof -
        have "set_mset M = set_mset N - {n}" using True by (auto simp: M_def k_def in_diff_count set_eq_iff split: if_splits)
        also have "\<dots> = (\<lambda>a. ni_name (nimpl st a)) ` set xs - {n}" using assms(1) by (simp add: named_rep_def)
        also have "\<dots> = (\<lambda>a. ni_name (nimpl st a)) ` set (ys @ zs)" using assms(3) other unfolding xs by auto
        also have "\<dots> = (\<lambda>a. ni_name (nimpl st' a)) ` set (ys @ zs)" using same(1) by (intro image_cong) simp_all
        finally show ?thesis .
      qed
      moreover have "sems_pool st' = p'" "sems_in_use_count st' = sems_in_use_count st - 1" "sems_total_ref_count st' = int (size M)"
        using un(3,5) by (simp_all add: st'_def st3_def st2_def st1_def upd_impl_def)
      ultimately have "named_rep st' (ys @ zs) M"
        unfolding named_rep_def using assms(1) p'(2,3) set xs M(3) by (auto simp: named_rep_def)
      with \<open>vcos_named_semaphore_delete sem st = _\<close> show thesis
        using same set True k_def M_def by (intro that [of _ st' "ys @ zs"]) auto
    qed
  qed
qed

subsection \<open>Clients\<close>

text \<open>The calls that the threads of a program make on the handles they have, with their results, and the state in which the
  handles are a multiset, each with the name it was opened with. A thread deletes a handle that it has once, and then the handle is gone.\<close>

datatype ns_call = Open string nat vcos_status | Close string | Post string | TryWait string vcos_status

type_synonym ns_system = "named_sems \<times> (string \<times> named_semaphore) multiset"

inductive ns_step :: "ns_call \<Rightarrow> ns_system \<Rightarrow> ns_system \<Rightarrow> bool" where
  create: "plain_name n \<Longrightarrow> fresh_memory malloc (sems_pool st) \<Longrightarrow> size H + 1 < 2 ^ 29 \<Longrightarrow>
    vcos_generic_named_semaphore_create asserts malloc sem_status sem n v st = Some (status, sem', st') \<Longrightarrow>
    ns_step (Open n v status) (st, H) (st', if status = VCOS_SUCCESS then add_mset (n, sem') H else H)"
| delete: "(n, sem) \<in># H \<Longrightarrow> vcos_named_semaphore_delete sem st = Some (sem', st') \<Longrightarrow>
    ns_step (Close n) (st, H) (st', H - {#(n, sem)#})"
| post: "(n, sem) \<in># H \<Longrightarrow> vcos_named_semaphore_post sem st = Some st' \<Longrightarrow> ns_step (Post n) (st, H) (st', H)"
| trywait: "(n, sem) \<in># H \<Longrightarrow> vcos_named_semaphore_trywait sem st = Some (status, st') \<Longrightarrow>
    ns_step (TryWait n status) (st, H) (st', H)"

text \<open>The static variables before the initialisation.\<close>

definition no_sems :: "(addr \<Rightarrow> block_owner) \<Rightarrow> named_sems" where
  "no_sems h = \<lparr>sems_in_use = None, sems_in_use_count = 0, sems_total_ref_count = 0, sems_pool = raw_pool h,
     nimpl = (\<lambda>_. zero_impl)\<rparr>"

inductive ns_reachable :: "ns_system \<Rightarrow> bool" where
  init: "vcos_named_semaphore_init impl_size mem m1 VCOS_SUCCESS (no_sems h) = Some (VCOS_SUCCESS, st) \<Longrightarrow>
    ns_reachable (st, {#})"
| step: "ns_reachable s \<Longrightarrow> ns_step call s s' \<Longrightarrow> ns_reachable s'"

text \<open>The specification: a table of counting semaphores by name, each with the number of times it is open.\<close>

type_synonym ns_table = "string \<rightharpoonup> nat \<times> nat"

fun ns_spec :: "ns_call \<Rightarrow> ns_table \<Rightarrow> ns_table option" where
  "ns_spec (Open n v status) T = (if status \<noteq> VCOS_SUCCESS then Some T
     else Some (T(n \<mapsto> (case T n of None \<Rightarrow> (1, v) | Some (k, c) \<Rightarrow> (k + 1, c)))))"
| "ns_spec (Close n) T = (case T n of None \<Rightarrow> None
     | Some (k, c) \<Rightarrow> Some (T(n := if k = 1 then None else Some (k - 1, c))))"
| "ns_spec (Post n) T = (case T n of None \<Rightarrow> None | Some (k, c) \<Rightarrow> Some (T(n \<mapsto> (k, c + 1))))"
| "ns_spec (TryWait n status) T = (case T n of None \<Rightarrow> None
     | Some (k, c) \<Rightarrow> if c > 0 \<and> status = VCOS_SUCCESS then Some (T(n \<mapsto> (k, c - 1)))
                    else if c = 0 \<and> status = VCOS_EAGAIN then Some T else None)"

definition sem_values :: "named_sems \<Rightarrow> addr list \<Rightarrow> (string \<Rightarrow> nat) \<Rightarrow> bool" where
  "sem_values st xs V \<longleftrightarrow> (\<forall>a\<in>set xs. ni_sem (nimpl st a) = Some (V (ni_name (nimpl st a))))"

definition table_of :: "string multiset \<Rightarrow> (string \<Rightarrow> nat) \<Rightarrow> ns_table" where
  "table_of N V = (\<lambda>n. if n \<in># N then Some (count N n, V n) else None)"

lemma table_of_simps:
  "n \<in># N \<Longrightarrow> table_of N V n = Some (count N n, V n)"
  "n \<notin># N \<Longrightarrow> table_of N V n = None"
  "table_of (add_mset n N) V = (table_of N V)(n \<mapsto> (count N n + 1, V n))"
  "n \<in># N \<Longrightarrow> table_of N (V(n := v)) = (table_of N V)(n \<mapsto> (count N n, v))"
  "n \<notin># N \<Longrightarrow> table_of N (V(n := v)) = table_of N V"
  by (auto simp: table_of_def fun_eq_iff)

lemma table_of_diff:
  assumes "n \<in># N"
  shows "table_of (N - {#n#}) V = (table_of N V)(n := if count N n = 1 then None else Some (count N n - 1, V n))"
proof -
  have "m \<in># N - {#n#} \<longleftrightarrow> m \<in># N \<and> (m = n \<longrightarrow> count N n \<noteq> 1)" for m
  proof (cases "m = n")
    case True
    have "0 < count N n" using assms by simp
    then have "0 < count (N - {#n#}) n \<longleftrightarrow> count N n \<noteq> 1" by (auto simp del: count_greater_zero_iff)
    then have "n \<in># N - {#n#} \<longleftrightarrow> count N n \<noteq> 1" by (simp only: count_greater_zero_iff)
    then show ?thesis using True assms by simp
  qed (simp add: in_diff_count)
  then show ?thesis using assms by (auto simp: table_of_def fun_eq_iff)
qed

lemma rep_table_of:
  assumes "named_rep st xs N" and "sem_values st xs V"
  shows "sem_table st = Some (table_of N V)"
proof -
  obtain T where T: "sem_table st = Some T" "\<And>n. T n = None \<longleftrightarrow> n \<notin># N"
    "\<And>a. a \<in> set xs \<Longrightarrow> T (ni_name (nimpl st a)) = Some (count N (ni_name (nimpl st a)), the (ni_sem (nimpl st a)))"
    using rep_table [OF assms(1)] by metis
  have "T n = table_of N V n" for n
  proof (cases "n \<in># N")
    case True
    then obtain a where "a \<in> set xs" "n = ni_name (nimpl st a)" using assms(1) by (auto simp: named_rep_def)
    then show ?thesis using T(3) [of a] True assms(2) by (simp add: table_of_def sem_values_def)
  next
    case False
    then show ?thesis using T(2) by (simp add: table_of_def)
  qed
  then show ?thesis using T(1) by auto
qed

lemma rep_values: "named_rep st xs N \<Longrightarrow> \<exists>V. sem_values st xs V"
proof -
  assume r: "named_rep st xs N"
  have inj: "inj_on (\<lambda>a. ni_name (nimpl st a)) (set xs)" using r sorted_names_distinct by (auto simp: named_rep_def)
  define V where "V n = the (ni_sem (nimpl st (the_inv_into (set xs) (\<lambda>a. ni_name (nimpl st a)) n)))" for n
  have "sem_values st xs V"
    using r by (auto simp: sem_values_def V_def the_inv_into_f_f [OF inj] named_rep_def)
  then show ?thesis by blast
qed

definition handles_ok :: "named_sems \<Rightarrow> addr list \<Rightarrow> (string \<times> named_semaphore) multiset \<Rightarrow> bool" where
  "handles_ok st xs H \<longleftrightarrow> (\<forall>(n, sem)\<in>#H. \<exists>a\<in>set xs. ns_actual sem = Some a \<and> ns_sem sem = Some a \<and> ni_name (nimpl st a) = n)"

fun ns_inv :: "ns_system \<Rightarrow> bool" where
  "ns_inv (st, H) \<longleftrightarrow> (\<exists>xs. named_rep st xs (image_mset fst H) \<and> handles_ok st xs H)"

lemma handles_okD:
  assumes "handles_ok st xs H" and "(n, sem) \<in># H"
  obtains a where "a \<in> set xs" "ns_actual sem = Some a" "ns_sem sem = Some a" "ni_name (nimpl st a) = n"
  using assms unfolding handles_ok_def by fastforce

text \<open>A new value of one semaphore.\<close>

lemma value_upd:
  fixes v :: nat
  assumes "named_rep st xs N" and "sem_values st xs V" and "a \<in> set xs" and "ni_name (nimpl st a) = n" and "handles_ok st xs H"
  defines "st' \<equiv> upd_impl a (\<lambda>r. r\<lparr>ni_sem := Some v\<rparr>) st"
  shows "named_rep st' xs N" "sem_values st' xs (V(n := v))" "handles_ok st' xs H"
proof -
  have names: "ni_name (nimpl st' b) = ni_name (nimpl st b)" for b by (simp add: st'_def upd_impl_def)
  have inj: "inj_on (\<lambda>a. ni_name (nimpl st a)) (set xs)" using assms(1) sorted_names_distinct by (auto simp: named_rep_def)
  obtain l where l: "linked (nimpl st) None (sems_in_use st) xs l None" using assms(1) by (auto simp: named_rep_def)
  then have "linked (nimpl st') None (sems_in_use st') xs l None"
    by (subst linked_cong [of _ _ "nimpl st"]) (auto simp: st'_def upd_impl_def)
  moreover have "sorted_names (nimpl st') xs" using assms(1) by (simp add: named_rep_def sorted_names_def names)
  ultimately show "named_rep st' xs N" using assms(1) by (auto simp: named_rep_def names) (auto simp: st'_def upd_impl_def)
  show "handles_ok st' xs H" using assms(5) by (simp add: handles_ok_def names)
  show "sem_values st' xs (V(n := v))"
    unfolding sem_values_def
  proof
    fix b assume b: "b \<in> set xs"
    show "ni_sem (nimpl st' b) = Some ((V(n := v)) (ni_name (nimpl st' b)))"
    proof (cases "b = a")
      case True
      then show ?thesis using assms(4) by (simp add: st'_def upd_impl_def)
    next
      case False
      then have "ni_name (nimpl st b) \<noteq> n" using inj_onD [OF inj, of b a] assms(3,4) b by auto
      then show ?thesis using False assms(2) b by (simp add: st'_def upd_impl_def sem_values_def)
    qed
  qed
qed

lemma handles_ok_names:
  "handles_ok st xs H \<Longrightarrow> (\<And>b. b \<in> set xs \<Longrightarrow> b \<in> set xs' \<and> ni_name (nimpl st' b) = ni_name (nimpl st b)) \<Longrightarrow> handles_ok st' xs' H"
  by (fastforce simp: handles_ok_def)

text \<open>Every step keeps the invariant and is a step of the specification.\<close>

lemma step_refines:
  assumes "ns_step call (st, H) (st', H')" and "ns_inv (st, H)"
  shows "ns_inv (st', H') \<and> (\<exists>T T'. sem_table st = Some T \<and> ns_spec call T = Some T' \<and> sem_table st' = Some T')"
proof -
  define N where "N = image_mset fst H"
  obtain xs where xs: "named_rep st xs N" "handles_ok st xs H" using assms(2) by (auto simp: N_def)
  obtain V where V: "sem_values st xs V" using rep_values [OF xs(1)] by blast
  note T = rep_table_of [OF xs(1) V]
  have finish: ?thesis if "named_rep st' ys (image_mset fst H')" "handles_ok st' ys H'" "sem_values st' ys W"
    "ns_spec call (table_of N V) = Some (table_of (image_mset fst H') W)" for ys W
    using that T rep_table_of [OF that(1,3)] by auto
  show ?thesis
    using assms(1)
  proof cases
    case (create n malloc asserts sem_status sem v status sem')
    have size: "size N + 1 < 2 ^ 29" using create by (simp add: N_def)
    have len: "length n < VCOS_NAMED_SEMAPHORE_NAMELEN \<or> (status = VCOS_EINVAL \<and> st' = st)"
      using create by (auto simp: vcos_generic_named_semaphore_create_def split: if_splits)
    show ?thesis
    proof (cases "length n < VCOS_NAMED_SEMAPHORE_NAMELEN")
      case False
      then have "status = VCOS_EINVAL" "st' = st" using len by auto
      then show ?thesis using create xs V by (intro finish [of xs V]) (simp_all add: N_def [symmetric])
    next
      case short: True
      show ?thesis
      proof (cases "n \<in># N")
        case True
        then obtain a where a: "a \<in> set xs" "ni_name (nimpl st a) = n" using xs(1) by (auto simp: named_rep_def)
        obtain st1 where st1: "vcos_generic_named_semaphore_create asserts malloc sem_status sem n v st
            = Some (VCOS_SUCCESS, sem\<lparr>ns_actual := Some a, ns_sem := Some a\<rparr>, st1)" "named_rep st1 xs (add_mset n N)"
          "\<And>b. ni_name (nimpl st1 b) = ni_name (nimpl st b) \<and> ni_sem (nimpl st1 b) = ni_sem (nimpl st b)"
          using create_shares [OF xs(1) a short size] by metis
        have eq: "st' = st1" "status = VCOS_SUCCESS" "sem' = sem\<lparr>ns_actual := Some a, ns_sem := Some a\<rparr>"
          using st1(1) create by simp_all
        have "handles_ok st1 xs H" using xs(2) by (rule handles_ok_names) (simp add: st1(3))
        then have "handles_ok st1 xs H'" using create eq a st1(3) by (simp add: handles_ok_def)
        moreover have "sem_values st1 xs V" using V by (simp add: sem_values_def st1(3))
        ultimately show ?thesis
          using eq st1(2) create True by (intro finish [of xs V]) (simp_all add: N_def [symmetric] table_of_simps)
      next
        case new: False
        show ?thesis
        proof (rule create_new [OF xs(1) new _ short size, of malloc asserts sem_status sem v])
          assume "vcos_generic_named_semaphore_create asserts malloc sem_status sem n v st = Some (VCOS_ENOSPC, sem, st)"
          then show ?thesis using create xs V by (intro finish [of xs V]) (simp_all add: N_def [symmetric])
        next
          fix a st1 assume st1: "sem_status \<noteq> VCOS_SUCCESS"
            "vcos_generic_named_semaphore_create asserts malloc sem_status sem n v st = Some (sem_status, sem, st1)"
            "named_rep st1 xs N" "\<And>b. b \<in> set xs \<Longrightarrow> nimpl st1 b = nimpl st b"
          have "handles_ok st1 xs H" using xs(2) by (rule handles_ok_names) (simp add: st1(4))
          moreover have "sem_values st1 xs V" using V by (simp add: sem_values_def st1(4))
          ultimately show ?thesis using create st1(1-3) by (intro finish [of xs V]) (simp_all add: N_def [symmetric])
        next
          fix a xs1 st1 assume st1: "sem_status = VCOS_SUCCESS"
            "vcos_generic_named_semaphore_create asserts malloc sem_status sem n v st
              = Some (VCOS_SUCCESS, sem\<lparr>ns_actual := Some a, ns_sem := Some a\<rparr>, st1)"
            "named_rep st1 xs1 (add_mset n N)" "set xs1 = insert a (set xs)" "a \<notin> set xs"
            "ni_name (nimpl st1 a) = n" "ni_sem (nimpl st1 a) = Some v"
            "\<And>b. b \<in> set xs \<Longrightarrow> ni_name (nimpl st1 b) = ni_name (nimpl st b) \<and> ni_sem (nimpl st1 b) = ni_sem (nimpl st b)"
          have eq: "st' = st1" "status = VCOS_SUCCESS" "sem' = sem\<lparr>ns_actual := Some a, ns_sem := Some a\<rparr>"
            using st1(2) create by simp_all
          have "handles_ok st1 xs1 H" using xs(2) by (rule handles_ok_names) (simp add: st1(4,8))
          then have "handles_ok st1 xs1 H'" using create eq st1(4,6) by (simp add: handles_ok_def)
          moreover have "\<forall>b\<in>set xs. ni_name (nimpl st b) \<noteq> n" using xs(1) new by (auto simp: named_rep_def)
          then have "sem_values st1 xs1 (V(n := v))" using V st1(4,6,7,8) by (simp add: sem_values_def)
          ultimately show ?thesis
            using eq st1(3) create new
            by (intro finish [of xs1 "V(n := v)"]) (simp_all add: N_def [symmetric] table_of_simps not_in_iff [THEN iffD1])
        qed (use create in auto)
      qed
    qed
  next
    case (delete n sem sem')
    obtain a where a: "a \<in> set xs" "ns_actual sem = Some a" "ns_sem sem = Some a" "ni_name (nimpl st a) = n"
      using handles_okD [OF xs(2)] delete by metis
    obtain sem1 st1 xs1 where st1: "vcos_named_semaphore_delete sem st = Some (sem1, st1)" "named_rep st1 xs1 (N - {#n#})"
      "set xs1 = (if count N n = 1 then set xs - {a} else set xs)"
      "\<And>b. b \<in> set xs1 \<Longrightarrow> ni_name (nimpl st1 b) = ni_name (nimpl st b) \<and> ni_sem (nimpl st1 b) = ni_sem (nimpl st b)"
      using delete_closes [OF xs(1) a(1,4,2)] by metis
    have eq: "st' = st1" "H' = H - {#(n, sem)#}" using delete st1(1) by simp_all
    have N': "image_mset fst H' = N - {#n#}" using delete by (simp add: eq N_def image_mset_Diff)
    have sub: "set xs1 \<subseteq> set xs" using st1(3) by (auto split: if_splits)
    have "handles_ok st1 xs1 H'"
      unfolding handles_ok_def
    proof (intro ballI, clarify)
      fix m s assume s: "(m, s) \<in># H'"
      then have "(m, s) \<in># H" unfolding eq by (rule in_diffD)
      then obtain b where b: "b \<in> set xs" "ns_actual s = Some b" "ns_sem s = Some b" "ni_name (nimpl st b) = m"
        using handles_okD [OF xs(2)] by metis
      have "m \<in># N - {#n#}" using s unfolding N' [symmetric] by force
      then have "m \<in> (\<lambda>a. ni_name (nimpl st1 a)) ` set xs1" using st1(2) by (simp add: named_rep_def)
      then obtain b' where b': "b' \<in> set xs1" "m = ni_name (nimpl st1 b')" by blast
      have inj: "inj_on (\<lambda>a. ni_name (nimpl st a)) (set xs)" using xs(1) sorted_names_distinct by (auto simp: named_rep_def)
      have "b' = b" using inj_onD [OF inj, of b' b] b b' st1(4) [OF b'(1)] sub by auto
      with b b' show "\<exists>a\<in>set xs1. ns_actual s = Some a \<and> ns_sem s = Some a \<and> ni_name (nimpl st1 a) = m" by auto
    qed
    moreover have "sem_values st1 xs1 V" using V st1(4) sub by (auto simp: sem_values_def)
    moreover have "n \<in># N" using delete by (force simp: N_def)
    ultimately show ?thesis
      using eq N' st1(2) delete by (intro finish [of xs1 V]) (simp_all add: table_of_simps table_of_diff)
  next
    case (post n sem)
    obtain a where a: "a \<in> set xs" "ns_actual sem = Some a" "ns_sem sem = Some a" "ni_name (nimpl st a) = n"
      using handles_okD [OF xs(2)] post by metis
    have v: "ni_sem (nimpl st a) = Some (V n)" using V a(1,4) by (auto simp: sem_values_def)
    have "st' = upd_impl a (\<lambda>r. r\<lparr>ni_sem := Some (V n + 1)\<rparr>) st" using post a(3) v by (simp add: vcos_named_semaphore_post_def)
    note u = value_upd [OF xs(1) V a(1,4) xs(2), of "V n + 1", folded this]
    have "n \<in># N" using post by (force simp: N_def)
    then show ?thesis
      using u post by (intro finish [of xs "V(n := V n + 1)"]) (simp_all add: N_def [symmetric] table_of_simps)
  next
    case (trywait n sem status)
    obtain a where a: "a \<in> set xs" "ns_actual sem = Some a" "ns_sem sem = Some a" "ni_name (nimpl st a) = n"
      using handles_okD [OF xs(2)] trywait by metis
    have v: "ni_sem (nimpl st a) = Some (V n)" using V a(1,4) by (auto simp: sem_values_def)
    have n: "n \<in># N" using trywait by (force simp: N_def)
    show ?thesis
    proof (cases "V n > 0")
      case True
      then have s: "status = VCOS_SUCCESS" "st' = upd_impl a (\<lambda>r. r\<lparr>ni_sem := Some (V n - 1)\<rparr>) st"
        using trywait a(3) v by (simp_all add: vcos_named_semaphore_trywait_def)
      note u = value_upd [OF xs(1) V a(1,4) xs(2), of "V n - 1", folded s(2)]
      show ?thesis
        using u s(1) trywait n True by (intro finish [of xs "V(n := V n - 1)"]) (simp_all add: N_def [symmetric] table_of_simps)
    next
      case False
      then have "status = VCOS_EAGAIN" "st' = st" using trywait a(3) v by (simp_all add: vcos_named_semaphore_trywait_def)
      then show ?thesis
        using trywait n False xs V by (intro finish [of xs V]) (simp_all add: N_def [symmetric] table_of_simps)
    qed
  qed
qed

lemma fold_upd_subpools:
  assumes "distinct is"
  shows "subpools (foldl (\<lambda>p i. upd_subpool i f p) p is) ! j
      = (if j \<in> set is \<and> j < length (subpools p) then f (subpools p ! j) else subpools p ! j)"
    and "length (subpools (foldl (\<lambda>p i. upd_subpool i f p) p is)) = length (subpools p)"
    and "foldl (\<lambda>p i. upd_subpool i f p) p is = p\<lparr>subpools := subpools (foldl (\<lambda>p i. upd_subpool i f p) p is)\<rparr>"
proof -
  show "subpools (foldl (\<lambda>p i. upd_subpool i f p) p is) ! j
      = (if j \<in> set is \<and> j < length (subpools p) then f (subpools p ! j) else subpools p ! j)"
    using assms by (induction "is" arbitrary: p) (auto simp: subpools_upd_nth, simp_all add: upd_subpool_def)
  show "length (subpools (foldl (\<lambda>p i. upd_subpool i f p) p is)) = length (subpools p)"
    by (induction "is" arbitrary: p) (simp_all add: upd_subpool_def)
  show "foldl (\<lambda>p i. upd_subpool i f p) p is = p\<lparr>subpools := subpools (foldl (\<lambda>p i. upd_subpool i f p) p is)\<rparr>"
  proof (induction "is" arbitrary: p)
    case (Cons i "is")
    show ?case unfolding foldl.simps by (subst Cons.IH) (simp add: upd_subpool_def)
  qed simp
qed

text \<open>A pool keeps its blocks when it gets room for extensions.\<close>

lemma extend_pool_ok:
  assumes "pool_ok p" and "num_subpools p = 1" and "vcos_generic_blockpool_extend k n p = Some (VCOS_SUCCESS, p')"
  shows "pool_ok p'" "allocated p' = allocated p" "num_subpools p' = 1 + k" "num_extension_blocks p' = n"
proof -
  define f where "f = (\<lambda>s :: subpool. s\<lparr>sp_magic := True, sp_start := None, sp_mem := None\<rparr>)"
  define q where "q = p\<lparr>num_subpools := num_subpools p + k, num_extension_blocks := n\<rparr>"
  have k: "1 \<le> k" "k \<le> MAX_SUBPOOLS - 1" "1 \<le> n"
    and p': "p' = foldl (\<lambda>p i. upd_subpool i f p) q [1..<num_subpools q]"
    using assms(3) by (auto simp: vcos_generic_blockpool_extend_def Let_def f_def q_def split: if_splits)
  note u = fold_upd_subpools [of "[1..<num_subpools q]" f q, folded p', simplified]
  have ns: "num_subpools q = 1 + k" using assms(2) by (simp add: q_def)
  have fields: "num_subpools p' = 1 + k" "num_extension_blocks p' = n" "hdrs p' = hdrs p" "block_size p' = block_size p"
    "bp_magic p' = bp_magic p" "bp_align p' = bp_align p" "block_data_size p' = block_data_size p"
    "length (subpools p') = length (subpools p)"
    using u(2) ns by (subst u(3), simp add: q_def)+
  have sub: "subpools p' ! 0 = subpools p ! 0" using u(1) [of 0] by (simp add: q_def)
  have len: "length (subpools p) = MAX_SUBPOOLS" using assms(1) by (simp add: pool_ok_def)
  have ext: "subpools p' ! j = f (subpools p ! j)" if "1 \<le> j" "j < 1 + k" for j
    using u(1) [of j] that ns k(2) len by (simp add: q_def MAX_SUBPOOLS_def)
  have b0: "blocks_of p' 0 = blocks_of p 0" using sub fields(4) by (intro blocks_of_cong) simp_all
  have be: "blocks_of p' j = {}" if "1 \<le> j" "j < 1 + k" for j using ext [OF that] by (simp add: blocks_of_def f_def)
  have "subpool_ok p' j" if j: "j < 1 + k" for j
  proof (cases "j = 0")
    case True
    have "subpool_ok p 0" using pool_okD(1) [OF assms(1), of 0] assms(2) by simp
    then show ?thesis unfolding True by (rule subpool_ok_frame) (simp_all add: sub fields)
  next
    case False
    then show ?thesis using ext [of j] j by (simp add: subpool_ok_def f_def)
  qed
  moreover have "blocks_of p' i \<inter> blocks_of p' j = {}" if "i < 1 + k" "j < 1 + k" "i \<noteq> j" for i j
    using be [of i] be [of j] that by (cases "i = 0"; cases "j = 0") auto
  ultimately show "pool_ok p'" using assms(1) fields k by (auto simp: pool_ok_def MAX_SUBPOOLS_def)
  show "allocated p' = allocated p"
  proof -
    have "b \<in> allocated p' \<longleftrightarrow> b \<in> blocks_of p 0 \<and> hdrs p b = OwnerSubpool 0" for b
      unfolding allocated_def using be b0 fields(1,3)
      by (auto intro: exI [of _ 0]) (metis One_nat_def Suc_leI empty_iff gr0I plus_1_eq_Suc)+
    moreover have "b \<in> allocated p \<longleftrightarrow> b \<in> blocks_of p 0 \<and> hdrs p b = OwnerSubpool 0" for b
      using assms(2) by (simp add: allocated_def)
    ultimately show ?thesis by blast
  qed
  show "num_subpools p' = 1 + k" "num_extension_blocks p' = n" by (fact fields)+
qed

lemma extend_first_subpool:
  assumes "num_subpools p = 1" and "vcos_generic_blockpool_extend k n p = Some (VCOS_SUCCESS, p')"
  shows "subpools p' ! 0 = subpools p ! 0"
  using assms fold_upd_subpools(1) [of "[1..<num_subpools p + k]" "\<lambda>s. s\<lparr>sp_magic := True, sp_start := None, sp_mem := None\<rparr>"
      "p\<lparr>num_subpools := num_subpools p + k, num_extension_blocks := n\<rparr>" 0]
  by (auto simp: vcos_generic_blockpool_extend_def Let_def split: if_splits)

lemma init_inv:
  assumes "vcos_named_semaphore_init impl_size mem m1 VCOS_SUCCESS (no_sems h) = Some (VCOS_SUCCESS, st)"
  shows "ns_inv (st, {#})" "sem_table st = Some Map.empty" "num_subpools (sems_pool st) = 8" "num_extension_blocks (sems_pool st) = 70"
    "has_free (sems_pool st) 0"
proof -
  obtain p q where p: "vcos_generic_blockpool_init NUM_SEMS impl_size mem (bp_size NUM_SEMS impl_size ALIGN_DEFAULT)
       ALIGN_DEFAULT m1 (raw_pool h) = Some (VCOS_SUCCESS, p)"
    and q: "vcos_generic_blockpool_extend (MAX_SUBPOOLS - 1) ((MAX_SEMS - NUM_SEMS) div (MAX_SUBPOOLS - 1)) p = Some (VCOS_SUCCESS, q)"
    and st: "st = (no_sems h)\<lparr>sems_pool := q\<rparr>"
    using assms by (auto simp: vcos_named_semaphore_init_def no_sems_def split: bind_splits if_splits)
  note i = init_success [OF p]
  note e = extend_pool_ok [OF i(1,3) q]
  have plain: "plain_flags q" using plain_extend [OF q plain_init [OF p]] .
  have len: "length (subpools p) = MAX_SUBPOOLS" using i(1) by (simp add: pool_ok_def)
  have "named_rep st [] {#}"
    using e(1) plain by (simp add: named_rep_def st no_sems_def sorted_names_def)
  then show "ns_inv (st, {#})" by (auto simp: handles_ok_def)
  show "sem_table st = Some Map.empty"
    by (simp add: sem_table_def st no_sems_def in_use_list.simps)
  show "num_subpools (sems_pool st) = 8" "num_extension_blocks (sems_pool st) = 70"
    using e(3,4) by (simp_all add: st MAX_SUBPOOLS_def MAX_SEMS_def NUM_SEMS_def)
  have "subpools q ! 0 = subpools p ! 0" by (rule extend_first_subpool [OF i(3) q])
  then show "has_free (sems_pool st) 0" using i(8,10) by (simp add: has_free_def st NUM_SEMS_def)
qed

lemma ns_reachable_inv: "ns_reachable s \<Longrightarrow> ns_inv s"
proof (induction rule: ns_reachable.induct)
  case (init impl_size mem m1 h st)
  then show ?case using init_inv(1) by blast
next
  case (step s call s')
  obtain st H st' H' where eq: "s = (st, H)" "s' = (st', H')" by (cases s, cases s') auto
  then show ?case using step_refines step by blast
qed

text \<open>Opening a semaphore never fails an assertion, if the name is not too long: a name in use always opens, and a
  new one does unless the pool is exhausted or the platform refuses the semaphore. In that last case the block of the new semaphore
  stays allocated, although no semaphore uses it.\<close>

lemma open_outcomes:
  assumes "ns_reachable (st, H)" and "plain_name n" and "length n < VCOS_NAMED_SEMAPHORE_NAMELEN" and "size H + 1 < 2 ^ 29"
    and "fresh_memory malloc (sems_pool st)"
  obtains (opened) sem' st' where "vcos_generic_named_semaphore_create asserts malloc sem_status sem n v st = Some (VCOS_SUCCESS, sem', st')"
    | (exhausted) "vcos_generic_named_semaphore_create asserts malloc sem_status sem n v st = Some (VCOS_ENOSPC, sem, st)"
    | (leaked) a st' where "sem_status \<noteq> VCOS_SUCCESS"
      "vcos_generic_named_semaphore_create asserts malloc sem_status sem n v st = Some (sem_status, sem, st')"
      "sem_table st' = sem_table st" "a \<notin> owned_blocks (sems_pool st)" "owned_blocks (sems_pool st') = insert a (owned_blocks (sems_pool st))"
proof -
  define N where "N = image_mset fst H"
  obtain xs where xs: "named_rep st xs N" using ns_reachable_inv [OF assms(1)] by (auto simp: N_def)
  have size: "size N + 1 < 2 ^ 29" using assms(4) by (simp add: N_def)
  show thesis
  proof (cases "n \<in># N")
    case True
    then obtain a where a: "a \<in> set xs" "ni_name (nimpl st a) = n" using xs by (auto simp: named_rep_def)
    show thesis using create_shares [OF xs a assms(3) size] opened by metis
  next
    case False
    show thesis
    proof (rule create_new [OF xs False assms(2,3) size assms(5), of asserts sem_status sem v])
      fix a st' assume f: "sem_status \<noteq> VCOS_SUCCESS"
        "vcos_generic_named_semaphore_create asserts malloc sem_status sem n v st = Some (sem_status, sem, st')"
        "named_rep st' xs N" "\<And>b. b \<in> set xs \<Longrightarrow> nimpl st' b = nimpl st b" "a \<notin> owned_blocks (sems_pool st)"
        "owned_blocks (sems_pool st') = insert a (owned_blocks (sems_pool st))"
      obtain V where V: "sem_values st xs V" using rep_values [OF xs] by blast
      have "sem_values st' xs V" using V by (simp add: sem_values_def f(4))
      then have "sem_table st' = sem_table st" using rep_table_of [OF xs V] rep_table_of [OF f(3)] by simp
      then show thesis using f leaked by blast
    qed (use opened exhausted in auto)
  qed
qed

text \<open>C16. Named semaphores implement a table of counting semaphores by name: in every state that the calls of the
  clients lead to, a call changes the list of semaphores as the specification changes the table. Opening a name that is in use keeps the count of its semaphore and ignores the
  initial count; the last deletion removes the name; a failing call changes nothing.\<close>

theorem named_semaphores_refine:
  assumes "ns_reachable (st, H)" and "ns_step call (st, H) (st', H')"
  shows "\<exists>T T'. sem_table st = Some T \<and> ns_spec call T = Some T' \<and> sem_table st' = Some T'"
  using step_refines [OF assms(2) ns_reachable_inv [OF assms(1)]] by blast

text \<open>Clients that opened the same name share one semaphore, and clients of different names never do; a
  semaphore stays usable for every client until that client deletes its handle, whatever the other clients do.\<close>

theorem named_semaphores_shared:
  assumes "ns_reachable (st, H)" and "(n, s) \<in># H" and "(n', s') \<in># H"
  shows "(ns_sem s = ns_sem s' \<longleftrightarrow> n = n')
    \<and> (\<exists>st'. vcos_named_semaphore_post s st = Some st') \<and> (\<exists>r. vcos_named_semaphore_trywait s st = Some r)
    \<and> (\<exists>r. vcos_named_semaphore_delete s st = Some r)"
proof -
  obtain xs where xs: "named_rep st xs (image_mset fst H)" "handles_ok st xs H" using ns_reachable_inv [OF assms(1)] by auto
  obtain a where a: "a \<in> set xs" "ns_actual s = Some a" "ns_sem s = Some a" "ni_name (nimpl st a) = n"
    using handles_okD [OF xs(2) assms(2)] .
  obtain b where b: "b \<in> set xs" "ns_actual s' = Some b" "ns_sem s' = Some b" "ni_name (nimpl st b) = n'"
    using handles_okD [OF xs(2) assms(3)] .
  have inj: "inj_on (\<lambda>a. ni_name (nimpl st a)) (set xs)" using xs(1) sorted_names_distinct by (auto simp: named_rep_def)
  have "ns_sem s = ns_sem s' \<longleftrightarrow> n = n'" using inj_onD [OF inj, of a b] a b by auto
  moreover obtain v where v: "ni_sem (nimpl st a) = Some v" using xs(1) a(1) by (auto simp: named_rep_def)
  moreover have "\<exists>st'. vcos_named_semaphore_post s st = Some st'" "\<exists>r. vcos_named_semaphore_trywait s st = Some r"
    using a(3) v by (simp_all add: vcos_named_semaphore_post_def vcos_named_semaphore_trywait_def)
  moreover have "\<exists>r. vcos_named_semaphore_delete s st = Some r"
    using delete_closes [OF xs(1) a(1,4,2)] by metis
  ultimately show ?thesis by blast
qed

text \<open>C36. The list of the semaphores in use is well formed in every reachable state: it ends, every element points back at the
  one before it, the names are in strictly descending order of \<open>strcmp\<close>, every element lies in a block of the pool that is allocated, and the two
  counters are the number of semaphores and the number of handles.\<close>

theorem named_list_well_formed:
  assumes "ns_reachable (st, H)"
  shows "\<exists>xs l. in_use_list (nimpl st) (sems_in_use st) = Some xs \<and> linked (nimpl st) None (sems_in_use st) xs l None
    \<and> sorted_wrt (\<lambda>a b. vcos_strcmp (ni_name (nimpl st b)) (ni_name (nimpl st a)) < 0) xs
    \<and> set xs \<subseteq> owned_blocks (sems_pool st) \<and> pool_ok (sems_pool st)
    \<and> sems_in_use_count st = int (card (fst ` set_mset H)) \<and> sems_total_ref_count st = int (size H)"
proof -
  obtain xs where xs: "named_rep st xs (image_mset fst H)" using ns_reachable_inv [OF assms] by auto
  then obtain l where l: "linked (nimpl st) None (sems_in_use st) xs l None" by (auto simp: named_rep_def)
  have s: "sorted_names (nimpl st) xs" using xs by (simp add: named_rep_def)
  have "sorted_wrt (\<lambda>a b. vcos_strcmp (ni_name (nimpl st b)) (ni_name (nimpl st a)) < 0) xs"
    by (rule sorted_wrt_mono_rel [of _ "\<lambda>a b. ni_name (nimpl st b) < ni_name (nimpl st a)"])
      (use s strcmp_less in \<open>simp_all add: sorted_names_def\<close>)
  moreover have "card (fst ` set_mset H) = length xs"
  proof -
    have "fst ` set_mset H = (\<lambda>a. ni_name (nimpl st a)) ` set xs" using xs by (simp add: named_rep_def)
    then show ?thesis using sorted_names_distinct [OF s] by (simp add: card_image distinct_card)
  qed
  ultimately show ?thesis
    using xs linked_in_use [OF l] by (intro exI [of _ xs] exI [of _ l]) (use l in \<open>auto simp: named_rep_def\<close>)
qed

subsection \<open>Examples\<close>

lemma demo_named_init:
  obtains st where "vcos_named_semaphore_init 92 1024 True VCOS_SUCCESS (no_sems (\<lambda>_. OtherBytes)) = Some (VCOS_SUCCESS, st)"
proof -
  obtain p where p: "vcos_generic_blockpool_init NUM_SEMS 92 1024 (bp_size NUM_SEMS 92 ALIGN_DEFAULT) ALIGN_DEFAULT True
      (raw_pool (\<lambda>_. OtherBytes)) = Some (VCOS_SUCCESS, p)"
    by (auto simp: vcos_generic_blockpool_init_def Let_def NUM_SEMS_def ALIGN_DEFAULT_def)
  note i = init_success [OF p]
  have "bp_magic p" using i(1) by (simp add: pool_ok_def)
  then obtain q where "vcos_generic_blockpool_extend (MAX_SUBPOOLS - 1) ((MAX_SEMS - NUM_SEMS) div (MAX_SUBPOOLS - 1)) p = Some (VCOS_SUCCESS, q)"
    using i(3) by (simp add: vcos_generic_blockpool_extend_def Let_def MAX_SUBPOOLS_def MAX_SEMS_def NUM_SEMS_def)
  with p show thesis by (intro that [of "(no_sems (\<lambda>_. OtherBytes))\<lparr>sems_pool := q\<rparr>"])
      (simp add: vcos_named_semaphore_init_def no_sems_def)
qed

text \<open>A state with one handle.\<close>

lemma demo_named_open:
  obtains st st' s where "ns_reachable (st, {#})" and "ns_step (Open ''frame'' 1 VCOS_SUCCESS) (st, {#}) (st', {#(''frame'', s)#})"
proof -
  obtain st where st: "vcos_named_semaphore_init 92 1024 True VCOS_SUCCESS (no_sems (\<lambda>_. OtherBytes)) = Some (VCOS_SUCCESS, st)"
    by (rule demo_named_init)
  note i = init_inv [OF st]
  have r: "ns_reachable (st, {#})" using st by (rule ns_reachable.init)
  have fresh: "fresh_memory (\<lambda>_. None) (sems_pool st)" by (simp add: fresh_memory_def)
  have pool: "pool_ok (sems_pool st)" using i(1) by (auto simp: named_rep_def)
  have "0 < num_subpools (sems_pool st)" using i(3) by simp
  then have full: "vcos_generic_blockpool_alloc (\<lambda>_. None) (sems_pool st) \<noteq> Some (None, p)" for p
    using alloc_ok [OF pool fresh] i(5) by auto
  have name: "plain_name ''frame''" "length ''frame'' < VCOS_NAMED_SEMAPHORE_NAMELEN" "size {#} + 1 < (2 :: nat) ^ 29"
    "''frame'' \<notin># {#}"
    by (simp_all add: plain_name_def VCOS_NAMED_SEMAPHORE_NAMELEN_def)
  obtain xs where rep: "named_rep st xs {#}" using i(1) by auto
  define s0 where "s0 = \<lparr>ns_actual = None, ns_sem = None\<rparr>"
  show thesis
  proof (rule create_new [OF rep name(4,1,2,3) fresh, of True VCOS_SUCCESS s0 1])
    assume "vcos_generic_blockpool_alloc (\<lambda>_. None) (sems_pool st) = Some (None, sems_pool st)"
    then show thesis using full by blast
  next
    fix a xs' st' assume st': "vcos_generic_named_semaphore_create True (\<lambda>_. None) VCOS_SUCCESS s0 ''frame'' 1 st
        = Some (VCOS_SUCCESS, s0\<lparr>ns_actual := Some a, ns_sem := Some a\<rparr>, st')"
    have "ns_step (Open ''frame'' 1 VCOS_SUCCESS) (st, {#}) (st', {#(''frame'', s0\<lparr>ns_actual := Some a, ns_sem := Some a\<rparr>)#})"
      using ns_step.create [OF name(1) fresh _ st'] by simp
    with r show thesis by (rule that)
  qed simp
qed

theorem named_semaphores_refine_witness:
  "\<exists>st st' s T. ns_reachable (st, {#}) \<and> ns_step (Open ''frame'' 1 VCOS_SUCCESS) (st, {#}) (st', {#(''frame'', s)#})
     \<and> sem_table st = Some T \<and> sem_table st' = ns_spec (Open ''frame'' 1 VCOS_SUCCESS) T"
proof -
  obtain st st' s where s: "ns_reachable (st, {#})" "ns_step (Open ''frame'' 1 VCOS_SUCCESS) (st, {#}) (st', {#(''frame'', s)#})"
    by (rule demo_named_open)
  from named_semaphores_refine [OF this] s show ?thesis by metis
qed

theorem named_semaphores_shared_witness:
  "\<exists>st H s. ns_reachable (st, H) \<and> (''frame'', s) \<in># H \<and> (\<exists>r. vcos_named_semaphore_delete s st = Some r)"
proof -
  obtain st st' s where s: "ns_reachable (st, {#})" "ns_step (Open ''frame'' 1 VCOS_SUCCESS) (st, {#}) (st', {#(''frame'', s)#})"
    by (rule demo_named_open)
  have r: "ns_reachable (st', {#(''frame'', s)#})" by (rule ns_reachable.step [OF s])
  have m: "(''frame'', s) \<in># {#(''frame'', s)#}" by simp
  from named_semaphores_shared [OF r m m] r m show ?thesis by blast
qed

theorem named_list_well_formed_witness:
  "\<exists>st s. ns_reachable (st, {#(''frame'', s)#}) \<and> sems_in_use_count st = 1 \<and> sems_total_ref_count st = 1"
proof -
  obtain st st' s where s: "ns_reachable (st, {#})" "ns_step (Open ''frame'' 1 VCOS_SUCCESS) (st, {#}) (st', {#(''frame'', s)#})"
    by (rule demo_named_open)
  have r: "ns_reachable (st', {#(''frame'', s)#})" by (rule ns_reachable.step [OF s])
  from named_list_well_formed [OF r] r show ?thesis by auto
qed

end
