(* ===== verification/Graph.thy ===== *)
theory Graph
  imports ConnUtil Lifecycle
begin

text \<open>
  mmal/util/mmal_graph.c, the part that builds and runs a graph: components, connections between their ports, and a worker
  thread that moves the buffers of the connections. The structure of a graph holds arrays of 16 pointers with the number of
  entries in use, which are lists here; only the array of topologies is written at other places than its end, so it
  keeps its 16 entries.

  A graph is a client of its connections: the state \<open>graph_env\<close> of graphs is the client's part of the state of
  connections. The functions that a client of a graph can set to intercept what the graph does are numbers that the record
  \<open>graph_client\<close> resolves; the data that belongs to the client, \<open>userdata\<close>, is not part of the model.
\<close>

subsection \<open>State\<close>

datatype graph_topology = MMAL_GRAPH_TOPOLOGY_ALL | MMAL_GRAPH_TOPOLOGY_STRAIGHT | MMAL_GRAPH_TOPOLOGY_CUSTOM

text \<open>The worker thread: not created or joined, running, or at its end and not joined yet.\<close>

datatype graph_worker = NoThread | Running | Exited

record graph =
  gf_destroy :: "nat option"
  gf_parameter_set :: "nat option"
  gf_parameter_get :: "nat option"
  gf_format_commit :: "nat option"
  gf_send_buffer :: "nat option"
  gf_return_buffer :: "nat option"
  gf_payload_alloc :: "nat option"
  gf_payload_free :: "nat option"
  gf_flush :: "nat option"
  gf_enable :: "nat option"
  gf_disable :: "nat option"
  gf_control_callback :: "nat option"
  gf_graph_enable :: "nat option"
  gf_connection_buffer :: "nat option"
  g_component :: "addr list"
  g_topology :: "graph_topology list"
  g_connection :: "addr list"
  connection_current :: u32
  g_input :: "addr list"
  g_output :: "addr list"
  g_clock :: "addr list"
  graph_component :: ptr
  stop_thread :: bool
  g_thread :: graph_worker
  g_sema :: nat
  event_cb :: "nat option"

definition GRAPH_CONNECTIONS_MAX :: nat where "GRAPH_CONNECTIONS_MAX = 16"
definition PROCESSING_TIME_MAX :: int where "PROCESSING_TIME_MAX = 20000"

text \<open>\<open>constructor_private\<close> is the last argument of \<open>mmal_component_create_with_constructor\<close>, which the core stores as the module of the
  component before it calls the constructor; \<open>graph_module\<close> are the modules of components that are graphs.\<close>

record 'v graph_env =
  graphs :: "addr \<Rightarrow> graph"
  cn_user_data :: "addr \<Rightarrow> ptr"
  graph_module :: "addr \<Rightarrow> ptr"
  constructor_private :: ptr
  graph_user :: 'v

type_synonym 'v gworld = "'v graph_env cworld"
type_synonym 'v graph_port_ops = "'v graph_env conn_ops"

record 'v graph_client =
  gc_event :: "nat \<Rightarrow> addr \<Rightarrow> addr \<Rightarrow> addr \<Rightarrow> 'v gworld \<Rightarrow> 'v gworld option"
  gc_destroy :: "nat \<Rightarrow> addr \<Rightarrow> 'v gworld \<Rightarrow> 'v gworld option"
  gc_parameter_set :: "nat \<Rightarrow> addr \<Rightarrow> addr \<Rightarrow> mmal_param \<Rightarrow> 'v gworld \<Rightarrow> (mmal_status \<times> 'v gworld) option"
  gc_parameter_get ::
    "nat \<Rightarrow> addr \<Rightarrow> addr \<Rightarrow> mmal_param \<Rightarrow> 'v gworld \<Rightarrow> (mmal_status \<times> mmal_param \<times> 'v gworld) option"
  gc_port :: "nat \<Rightarrow> addr \<Rightarrow> addr \<Rightarrow> 'v gworld \<Rightarrow> (mmal_status \<times> 'v gworld) option"
  gc_buffer :: "nat \<Rightarrow> addr \<Rightarrow> addr \<Rightarrow> addr \<Rightarrow> 'v gworld \<Rightarrow> (mmal_status \<times> 'v gworld) option"
  gc_payload_alloc ::
    "nat \<Rightarrow> addr \<Rightarrow> addr \<Rightarrow> u32 \<Rightarrow> 'v graph_env conn_env module_env core_env
      \<Rightarrow> mmal_status \<times> ptr \<times> 'v graph_env conn_env module_env core_env"
  gc_payload_free :: "nat \<Rightarrow> addr \<Rightarrow> addr \<Rightarrow> addr \<Rightarrow> 'v gworld \<Rightarrow> (mmal_status \<times> 'v gworld) option"
  gc_graph_enable :: "nat \<Rightarrow> addr \<Rightarrow> bool \<Rightarrow> 'v gworld \<Rightarrow> (mmal_status \<times> 'v gworld) option"
  getmicrosecs64 :: "'v gworld \<Rightarrow> int"

definition graph_at :: "'v gworld \<Rightarrow> addr \<Rightarrow> graph" where
  "graph_at m g = graphs (user_of m) g"

definition upd_graph_env :: "('v graph_env \<Rightarrow> 'v graph_env) \<Rightarrow> 'v gworld \<Rightarrow> 'v gworld" where
  "upd_graph_env f = upd_client (\<lambda>x. x\<lparr>user := f (user x)\<rparr>)"

definition upd_graph :: "addr \<Rightarrow> (graph \<Rightarrow> graph) \<Rightarrow> 'v gworld \<Rightarrow> 'v gworld" where
  "upd_graph g f = upd_graph_env (\<lambda>e. e\<lparr>graphs := (graphs e)(g := f (graphs e g))\<rparr>)"

definition set_user_data :: "addr \<Rightarrow> ptr \<Rightarrow> 'v gworld \<Rightarrow> 'v gworld" where
  "set_user_data c u = upd_graph_env (\<lambda>e. e\<lparr>cn_user_data := (cn_user_data e)(c := u)\<rparr>)"

definition module_of :: "'v gworld \<Rightarrow> addr \<Rightarrow> ptr" where
  "module_of m c = graph_module (user_of m) c"

definition zero_graph :: graph where
  "zero_graph = \<lparr>gf_destroy = None, gf_parameter_set = None, gf_parameter_get = None, gf_format_commit = None,
     gf_send_buffer = None, gf_return_buffer = None, gf_payload_alloc = None, gf_payload_free = None, gf_flush = None,
     gf_enable = None, gf_disable = None, gf_control_callback = None, gf_graph_enable = None, gf_connection_buffer = None,
     g_component = [], g_topology = replicate GRAPH_CONNECTIONS_MAX MMAL_GRAPH_TOPOLOGY_ALL, g_connection = [],
     connection_current = 0, g_input = [], g_output = [], g_clock = [], graph_component = None, stop_thread = False,
     g_thread = NoThread, g_sema = 0, event_cb = None\<rparr>"

text \<open>The numbers of the functions that a graph gives to ports, connections and components.\<close>

definition graph_control_fn :: nat where "graph_control_fn = 80"
definition graph_component_control_fn :: nat where "graph_component_control_fn = 81"
definition graph_port_fn :: nat where "graph_port_fn = 82"
definition graph_constructor_fn :: nat where "graph_constructor_fn = 83"
definition graph_connection_fn :: nat where "graph_connection_fn = 84"
definition graph_component_connection_fn :: nat where "graph_component_connection_fn = 85"

definition graph_post :: "addr \<Rightarrow> 'v gworld \<Rightarrow> 'v gworld" where
  "graph_post g = upd_graph g (\<lambda>r. r\<lparr>g_sema := g_sema r + 1\<rparr>)"

subsection \<open>Building\<close>

text \<open>When the semaphore cannot be created, the structure is freed, but the caller has its address already.\<close>

definition mmal_graph_create :: "bool \<Rightarrow> 'v gworld \<Rightarrow> mmal_status \<times> ptr \<times> 'v gworld" where
  "mmal_graph_create graph m =
     (if \<not> graph then (MMAL_EINVAL, None, m)
      else
        let (block, e) = core_malloc (env (ctx m));
            m = set_env e m
        in case block of
             None \<Rightarrow> (MMAL_ENOMEM, None, m)
           | Some g \<Rightarrow>
               let m = upd_graph g (\<lambda>_. zero_graph) m;
                   (ok, e) = sync_create (env (ctx m));
                   m = set_env e m
               in if \<not> ok then (MMAL_ENOSPC, Some g, upd_env (core_free g) m) else (MMAL_SUCCESS, Some g, m))"

fun release_connections :: "'v graph_port_ops \<Rightarrow> addr list \<Rightarrow> 'v gworld \<Rightarrow> 'v gworld option" where
  "release_connections ops [] m = Some m"
| "release_connections ops (c # cs) m = do {
     (_, m) \<leftarrow> mmal_connection_release ops c m;
     release_connections ops cs m
   }"

fun release_components :: "'m port_ops \<Rightarrow> addr list \<Rightarrow> 'm world \<Rightarrow> 'm world option" where
  "release_components ops [] m = Some m"
| "release_components ops (c # cs) m = do {
     (_, m) \<leftarrow> mmal_component_release ops (Some c) m;
     release_components ops cs m
   }"

definition mmal_graph_destroy ::
    "'v graph_client \<Rightarrow> 'v graph_port_ops \<Rightarrow> ptr \<Rightarrow> 'v gworld \<Rightarrow> (mmal_status \<times> 'v gworld) option" where
  "mmal_graph_destroy gc ops graph m =
     (case graph of
        None \<Rightarrow> Some (MMAL_EINVAL, m)
      | Some g \<Rightarrow> do {
          m \<leftarrow> (case gf_destroy (graph_at m g) of None \<Rightarrow> Some m | Some f \<Rightarrow> gc_destroy gc f g m);
          m \<leftarrow> release_connections ops (g_connection (graph_at m g)) m;
          m \<leftarrow> release_components ops (g_component (graph_at m g)) m;
          Some (MMAL_SUCCESS, upd_env (core_free g) m)
        })"

definition mmal_graph_add_component :: "addr \<Rightarrow> ptr \<Rightarrow> 'v gworld \<Rightarrow> mmal_status \<times> 'v gworld" where
  "mmal_graph_add_component g component m =
     (case component of
        None \<Rightarrow> (MMAL_EINVAL, m)
      | Some c \<Rightarrow>
          if length (g_component (graph_at m g)) \<ge> GRAPH_CONNECTIONS_MAX then (MMAL_ENOSPC, m)
          else (MMAL_SUCCESS, upd_graph g (\<lambda>r. r\<lparr>g_component := g_component r @ [c]\<rparr>) (mmal_component_acquire c m)))"

fun index_of :: "addr \<Rightarrow> addr list \<Rightarrow> nat" where
  "index_of a [] = 0"
| "index_of a (x # xs) = (if a = x then 0 else index_of a xs + 1)"

definition mmal_graph_component_topology ::
    "addr \<Rightarrow> ptr \<Rightarrow> graph_topology \<Rightarrow> 'v gworld \<Rightarrow> mmal_status \<times> 'v gworld" where
  "mmal_graph_component_topology g component topology m =
     (case component of
        None \<Rightarrow> (MMAL_EINVAL, m)
      | Some c \<Rightarrow>
          let i = index_of c (g_component (graph_at m g)) in
          if i = length (g_component (graph_at m g)) then (MMAL_EINVAL, m)
          else if topology = MMAL_GRAPH_TOPOLOGY_CUSTOM then (MMAL_ENOSYS, m)
          else (MMAL_SUCCESS, upd_graph g (\<lambda>r. r\<lparr>g_topology := (g_topology r)[i := topology]\<rparr>) m))"

definition mmal_graph_add_connection :: "addr \<Rightarrow> ptr \<Rightarrow> 'v gworld \<Rightarrow> mmal_status \<times> 'v gworld" where
  "mmal_graph_add_connection g cx m =
     (case cx of
        None \<Rightarrow> (MMAL_EINVAL, m)
      | Some c \<Rightarrow>
          if length (g_connection (graph_at m g)) \<ge> GRAPH_CONNECTIONS_MAX then (MMAL_ENOSPC, m)
          else (MMAL_SUCCESS, upd_graph g (\<lambda>r. r\<lparr>g_connection := g_connection r @ [c]\<rparr>) (mmal_connection_acquire c m)))"

text \<open>The list of ports of the type of a port.\<close>

fun graph_list :: "mmal_port_type \<Rightarrow> graph \<Rightarrow> addr list option" where
  "graph_list MMAL_PORT_TYPE_INPUT g = Some (g_input g)"
| "graph_list MMAL_PORT_TYPE_OUTPUT g = Some (g_output g)"
| "graph_list MMAL_PORT_TYPE_CLOCK g = Some (g_clock g)"
| "graph_list t g = None"

fun append_port :: "mmal_port_type \<Rightarrow> addr \<Rightarrow> graph \<Rightarrow> graph" where
  "append_port MMAL_PORT_TYPE_INPUT p g = g\<lparr>g_input := g_input g @ [p]\<rparr>"
| "append_port MMAL_PORT_TYPE_OUTPUT p g = g\<lparr>g_output := g_output g @ [p]\<rparr>"
| "append_port MMAL_PORT_TYPE_CLOCK p g = g\<lparr>g_clock := g_clock g @ [p]\<rparr>"
| "append_port t p g = g"

definition mmal_graph_add_port :: "addr \<Rightarrow> ptr \<Rightarrow> 'v gworld \<Rightarrow> mmal_status \<times> 'v gworld" where
  "mmal_graph_add_port g port m =
     (case port of
        None \<Rightarrow> (MMAL_EINVAL, m)
      | Some p \<Rightarrow>
          (case graph_list (pt_type (port_at m p)) (graph_at m g) of
             None \<Rightarrow> (MMAL_EINVAL, m)
           | Some l \<Rightarrow>
               if length l \<ge> GRAPH_CONNECTIONS_MAX then (MMAL_ENOSPC, m)
               else (MMAL_SUCCESS, upd_graph g (append_port (pt_type (port_at m p)) p) m)))"

text \<open>\<open>want\<close> says whether the caller passes a place for the component; then it has a reference of its own.\<close>

definition mmal_graph_new_component ::
    "'v graph_port_ops \<Rightarrow> addr \<Rightarrow> string \<Rightarrow> bool \<Rightarrow> 'v gworld \<Rightarrow> (mmal_status \<times> ptr \<times> 'v gworld) option" where
  "mmal_graph_new_component ops g name want m =
     (if length (g_component (graph_at m g)) \<ge> GRAPH_CONNECTIONS_MAX then Some (MMAL_ENOSPC, None, m)
      else do {
        (status, comp, m) \<leftarrow> mmal_component_create ops name m;
        if status \<noteq> MMAL_SUCCESS then Some (status, None, m)
        else do {
          c \<leftarrow> comp;
          let m = upd_graph g (\<lambda>r. r\<lparr>g_component := g_component r @ [c]\<rparr>) m;
          if want then Some (MMAL_SUCCESS, Some c, mmal_component_acquire c m) else Some (MMAL_SUCCESS, None, m)
        }
      })"

definition mmal_graph_new_connection ::
    "'v graph_port_ops \<Rightarrow> addr \<Rightarrow> ptr \<Rightarrow> ptr \<Rightarrow> u32 \<Rightarrow> bool \<Rightarrow> 'v gworld \<Rightarrow> (mmal_status \<times> ptr \<times> 'v gworld) option" where
  "mmal_graph_new_connection ops g out in_port flags want m =
     (case (out, in_port) of
        (Some o1, Some i1) \<Rightarrow>
          if pt_type (port_at m o1) = MMAL_PORT_TYPE_CLOCK \<and> pt_type (port_at m i1) \<noteq> MMAL_PORT_TYPE_CLOCK
          then Some (MMAL_EINVAL, None, m)
          else if pt_type (port_at m o1) \<noteq> MMAL_PORT_TYPE_CLOCK
             \<and> (pt_type (port_at m o1) \<noteq> MMAL_PORT_TYPE_OUTPUT \<or> pt_type (port_at m i1) \<noteq> MMAL_PORT_TYPE_INPUT)
          then Some (MMAL_EINVAL, None, m)
          else if length (g_connection (graph_at m g)) \<ge> GRAPH_CONNECTIONS_MAX then Some (MMAL_ENOSPC, None, m)
          else do {
            (status, cx, m) \<leftarrow> mmal_connection_create ops True o1 i1 flags m;
            if status \<noteq> MMAL_SUCCESS then Some (status, None, m)
            else do {
              c \<leftarrow> cx;
              let m = upd_graph g (\<lambda>r. r\<lparr>g_connection := g_connection r @ [c]\<rparr>) m;
              if want then Some (MMAL_SUCCESS, Some c, mmal_connection_acquire c m) else Some (MMAL_SUCCESS, None, m)
            }
          }
      | _ \<Rightarrow> Some (MMAL_EINVAL, None, m))"

text \<open>\<open>same_name\<close> is \<open>vcos_strcasecmp\<close>: names are compared without regard to the case of ASCII letters.\<close>

definition fold_case :: "char \<Rightarrow> nat" where
  "fold_case c = (let n = of_char c in if 65 \<le> n \<and> n \<le> 90 then n + 32 else n)"

definition same_name :: "string \<Rightarrow> string \<Rightarrow> bool" where
  "same_name s t \<longleftrightarrow> map fold_case s = map fold_case t"

fun ports_of_type :: "mmal_port_type \<Rightarrow> mmal_component \<Rightarrow> addr list option" where
  "ports_of_type MMAL_PORT_TYPE_INPUT c = Some (cp_input c)"
| "ports_of_type MMAL_PORT_TYPE_OUTPUT c = Some (cp_output c)"
| "ports_of_type MMAL_PORT_TYPE_CLOCK c = Some (cp_clock c)"
| "ports_of_type MMAL_PORT_TYPE_CONTROL c = map_option (\<lambda>p. [p]) (cp_control c)"
| "ports_of_type t c = None"

fun find_in_components :: "string \<Rightarrow> mmal_port_type \<Rightarrow> nat \<Rightarrow> addr list \<Rightarrow> 'v gworld \<Rightarrow> ptr option" where
  "find_in_components name t i [] m = Some None"
| "find_in_components name t i (c # cs) m =
     (if same_name name (cp_name (component_at m c)) then do {
        ps \<leftarrow> ports_of_type t (component_at m c);
        if i < length ps then Some (Some (ps ! i)) else find_in_components name t i cs m
      }
      else find_in_components name t i cs m)"

definition mmal_graph_find_port :: "addr \<Rightarrow> string \<Rightarrow> mmal_port_type \<Rightarrow> nat \<Rightarrow> 'v gworld \<Rightarrow> ptr option" where
  "mmal_graph_find_port g name t i m = find_in_components name t i (g_component (graph_at m g)) m"

subsection \<open>Processing\<close>

definition graph_port_event_handler ::
    "'v graph_port_ops \<Rightarrow> addr \<Rightarrow> addr \<Rightarrow> addr \<Rightarrow> 'v gworld \<Rightarrow> 'v gworld option" where
  "graph_port_event_handler ops c p b m = do {
     (status, m) \<leftarrow>
       (if bh_cmd (bufs m b) = MMAL_EVENT_FORMAT_CHANGED \<and> pt_type (port_at m p) = MMAL_PORT_TYPE_OUTPUT
        then do {
          (_, m) \<leftarrow> mmal_event_format_changed_get b m;
          mmal_connection_event_format_changed ops c b m
        }
        else Some (MMAL_SUCCESS, m));
     m \<leftarrow> release_buffer ops b m;
     if status \<noteq> MMAL_SUCCESS then map_option snd (mmal_event_error_send ops (pt_component (port_at m p)) status m)
     else Some m
   }"

text \<open>What follows the call of the client's function.\<close>

definition graph_forward_buffer :: "'v graph_port_ops \<Rightarrow> addr \<Rightarrow> addr \<Rightarrow> 'v gworld \<Rightarrow> 'v gworld option" where
  "graph_forward_buffer ops c b m =
     (if bh_cmd (bufs m b) \<noteq> 0 then graph_port_event_handler ops c (cn_out (conn_at m c)) b m
      else do {
        (status, m) \<leftarrow> mmal_port_send_buffer ops (Some (cn_in (conn_at m c))) b m;
        if status \<noteq> MMAL_SUCCESS then do {
          m \<leftarrow> release_buffer ops b m;
          map_option snd (mmal_event_error_send ops (pt_component (port_at m (cn_out (conn_at m c)))) status m)
        }
        else Some m
      })"

definition graph_process_buffer ::
    "'v graph_client \<Rightarrow> 'v graph_port_ops \<Rightarrow> addr \<Rightarrow> addr \<Rightarrow> addr \<Rightarrow> 'v gworld \<Rightarrow> 'v gworld option" where
  "graph_process_buffer gc ops g c b m =
     (case gf_connection_buffer (graph_at m g) of
        None \<Rightarrow> graph_forward_buffer ops c b m
      | Some f \<Rightarrow> do {
          (status, m) \<leftarrow> gc_buffer gc f g c b m;
          if status \<noteq> MMAL_ENOSYS then Some m else graph_forward_buffer ops c b m
        })"

text \<open>Sending the empty buffers of the pool of a connection; the first result is \<open>run_again\<close>.\<close>

definition pool_put_back :: "addr \<Rightarrow> addr \<Rightarrow> 'm world \<Rightarrow> 'm world" where
  "pool_put_back pool b m =
     (let (q, h) = mmal_queue_put_back (p_queue (pool_at m pool)) (bufs m) (Some b)
      in upd_pool pool (\<lambda>r. r\<lparr>p_queue := q\<rparr>) (m\<lparr>bufs := h\<rparr>))"

partial_function (option) send_empty ::
    "'v graph_port_ops \<Rightarrow> addr \<Rightarrow> addr \<Rightarrow> bool \<Rightarrow> 'v gworld \<Rightarrow> (bool \<times> 'v gworld) option" where
  "send_empty ops pool out again m =
     Option.bind (pool_get pool m) (\<lambda>r. case fst r of
        None \<Rightarrow> Some (again, snd r)
      | Some b \<Rightarrow> Option.bind (mmal_port_send_buffer ops (Some out) b (snd r)) (\<lambda>s.
          if fst s \<noteq> MMAL_SUCCESS then Some (False, pool_put_back pool b (snd s))
          else send_empty ops pool out True (snd s)))"

fun send_all_empty :: "'v graph_port_ops \<Rightarrow> addr list \<Rightarrow> bool \<Rightarrow> 'v gworld \<Rightarrow> (bool \<times> 'v gworld) option" where
  "send_all_empty ops [] again m = Some (again, m)"
| "send_all_empty ops (c # cs) again m =
     (if tunnelling (conn_at m c) then send_all_empty ops cs again m
      else (case cn_pool (conn_at m c) of
         None \<Rightarrow> send_all_empty ops cs again m
       | Some pool \<Rightarrow> do {
           (again, m) \<leftarrow> send_empty ops pool (cn_out (conn_at m c)) again m;
           send_all_empty ops cs again m
         }))"

text \<open>Forwarding the buffers in the queue of a connection, until it is empty or the time since \<open>start\<close> is over.\<close>

partial_function (option) forward_queue ::
    "'v graph_client \<Rightarrow> 'v graph_port_ops \<Rightarrow> addr \<Rightarrow> addr \<Rightarrow> int \<Rightarrow> bool \<Rightarrow> 'v gworld \<Rightarrow> (bool \<times> 'v gworld) option" where
  "forward_queue gc ops g c start again m =
     (if getmicrosecs64 gc m - start < PROCESSING_TIME_MAX then
        Option.bind (conn_get c m) (\<lambda>r. case fst r of
           None \<Rightarrow> Some (again, snd r)
         | Some b \<Rightarrow> Option.bind (graph_process_buffer gc ops g c b (snd r)) (\<lambda>m. forward_queue gc ops g c start True m))
      else Some (again, m))"

fun forward_queues ::
    "'v graph_client \<Rightarrow> 'v graph_port_ops \<Rightarrow> addr \<Rightarrow> addr list \<Rightarrow> bool \<Rightarrow> 'v gworld \<Rightarrow> (bool \<times> 'v gworld) option" where
  "forward_queues gc ops g [] again m = Some (again, m)"
| "forward_queues gc ops g (c # cs) again m =
     (if tunnelling (conn_at m c) \<or> cn_flags (conn_at m c) AND MMAL_CONNECTION_FLAG_DIRECT \<noteq> 0
      then forward_queues gc ops g cs again m
      else do {
        (again, m) \<leftarrow> forward_queue gc ops g c (getmicrosecs64 gc m) again m;
        forward_queues gc ops g cs again m
      })"

text \<open>The connections in the order in which a loop that starts at \<open>connection_current\<close> visits them; \<open>j\<close> is unsigned and wraps around.\<close>

definition visiting_order :: "u32 \<Rightarrow> addr list \<Rightarrow> addr list" where
  "visiting_order cur cs = map (\<lambda>i. cs ! (unat (cur + of_nat i) mod length cs)) [0..<length cs]"

definition graph_do_processing ::
    "'v graph_client \<Rightarrow> 'v graph_port_ops \<Rightarrow> addr \<Rightarrow> 'v gworld \<Rightarrow> (bool \<times> 'v gworld) option" where
  "graph_do_processing gc ops g m =
     (let order = visiting_order (connection_current (graph_at m g)) (g_connection (graph_at m g)) in do {
        (again, m) \<leftarrow> send_all_empty ops order False m;
        let order = visiting_order (connection_current (graph_at m g)) (g_connection (graph_at m g));
        let m = upd_graph g (\<lambda>r. r\<lparr>connection_current := connection_current r + 1\<rparr>) m;
        forward_queues gc ops g order again m
      })"

text \<open>\<open>while (graph_do_processing(graph));\<close>\<close>

partial_function (option) graph_processing_loop ::
    "'v graph_client \<Rightarrow> 'v graph_port_ops \<Rightarrow> addr \<Rightarrow> 'v gworld \<Rightarrow> 'v gworld option" where
  "graph_processing_loop gc ops g m =
     Option.bind (graph_do_processing gc ops g m) (\<lambda>r. if fst r then graph_processing_loop gc ops g (snd r) else Some (snd r))"

subsection \<open>The worker thread\<close>

text \<open>One pass of the loop of the thread, from the semaphore to where it waits again or ends.\<close>

definition graph_worker_thread ::
    "'v graph_client \<Rightarrow> 'v graph_port_ops \<Rightarrow> addr \<Rightarrow> 'v gworld \<Rightarrow> 'v gworld waited option" where
  "graph_worker_thread gc ops g m =
     (if g_thread (graph_at m g) \<noteq> Running then None
      else if g_sema (graph_at m g) = 0 then Some Blocked
      else
        let m = upd_graph g (\<lambda>r. r\<lparr>g_sema := g_sema r - 1\<rparr>) m in
        if stop_thread (graph_at m g) then Some (Woke (upd_graph g (\<lambda>r. r\<lparr>g_thread := Exited\<rparr>) m))
        else map_option Woke (graph_processing_loop gc ops g m))"

text \<open>Joining the thread: if it still runs, the post wakes it, it finds that it must stop, and ends. Joining
  a thread that was never created is undefined.\<close>

definition graph_stop_worker_thread :: "addr \<Rightarrow> 'v gworld \<Rightarrow> 'v gworld option" where
  "graph_stop_worker_thread g m =
     (let m = graph_post g (upd_graph g (\<lambda>r. r\<lparr>stop_thread := True\<rparr>) m) in
      case g_thread (graph_at m g) of
        NoThread \<Rightarrow> None
      | Running \<Rightarrow> Some (upd_graph g (\<lambda>r. r\<lparr>g_thread := NoThread, g_sema := g_sema r - 1\<rparr>) m)
      | Exited \<Rightarrow> Some (upd_graph g (\<lambda>r. r\<lparr>g_thread := NoThread\<rparr>) m))"

subsection \<open>Callbacks\<close>

definition graph_control_cb ::
    "'v graph_client \<Rightarrow> 'v graph_port_ops \<Rightarrow> addr \<Rightarrow> addr \<Rightarrow> 'v gworld \<Rightarrow> 'v gworld option" where
  "graph_control_cb gc ops p b m = do {
     g \<leftarrow> userdata_at m p;
     (case event_cb (graph_at m g) of
        Some f \<Rightarrow> gc_event gc f g p b m
      | None \<Rightarrow> release_buffer ops b m)
   }"

text \<open>The test of the flags is for equality with the flag of direct connections.\<close>

definition direct_get :: "addr \<Rightarrow> 'v gworld \<Rightarrow> (ptr \<times> 'v gworld) option" where
  "direct_get c m = (if cn_flags (conn_at m c) = MMAL_CONNECTION_FLAG_DIRECT then conn_get c m else Some (None, m))"

definition graph_connection_cb ::
    "'v graph_client \<Rightarrow> 'v graph_port_ops \<Rightarrow> addr \<Rightarrow> 'v gworld \<Rightarrow> 'v gworld option" where
  "graph_connection_cb gc ops c m = do {
     g \<leftarrow> cn_user_data (user_of m) c;
     (buffer, m) \<leftarrow> direct_get c m;
     (case buffer of
        Some b \<Rightarrow> graph_process_buffer gc ops g c b m
      | None \<Rightarrow> Some (graph_post g m))
   }"

subsection \<open>Enabling and disabling\<close>

text \<open>A control port that cannot be enabled is only logged; \<open>status\<close> is the last status so far.\<close>

fun enable_controls ::
    "'v graph_port_ops \<Rightarrow> nat \<Rightarrow> addr \<Rightarrow> addr list \<Rightarrow> mmal_status \<Rightarrow> 'v gworld \<Rightarrow> (mmal_status \<times> 'v gworld) option" where
  "enable_controls ops cb u [] status m = Some (status, m)"
| "enable_controls ops cb u (c # cs) status m = do {
     control \<leftarrow> cp_control (component_at m c);
     (status, m) \<leftarrow> mmal_port_enable ops (Some control) (Some (ClientCb cb)) (set_userdata control (Some u) m);
     enable_controls ops cb u cs status m
   }"

fun enable_connections ::
    "'v graph_port_ops \<Rightarrow> addr \<Rightarrow> addr list \<Rightarrow> mmal_status \<Rightarrow> 'v gworld \<Rightarrow> (mmal_status \<times> 'v gworld) option" where
  "enable_connections ops g [] status m = Some (status, m)"
| "enable_connections ops g (c # cs) _ m = do {
     let m = set_user_data c (Some g) (upd_conn c (\<lambda>r. r\<lparr>cn_callback := Some graph_connection_fn\<rparr>) m);
     (status, m) \<leftarrow> mmal_connection_enable ops c m;
     if status \<noteq> MMAL_SUCCESS then Some (status, m) else enable_connections ops g cs status m
   }"

text \<open>Only the second loop jumps to the label \<open>error\<close>, which it does when it ends with another status than success. Enabling a
  graph whose thread runs would start a second thread on the same data, which the model does not follow.\<close>

definition mmal_graph_enable ::
    "'v graph_port_ops \<Rightarrow> addr \<Rightarrow> nat option \<Rightarrow> 'v gworld \<Rightarrow> (mmal_status \<times> 'v gworld) option" where
  "mmal_graph_enable ops g cb m =
     (if g_thread (graph_at m g) \<noteq> NoThread then None
      else
        let (ok, e) = sync_create (env (ctx m));
            m = set_env e m
        in if \<not> ok then Some (MMAL_ENOSPC, m)
        else do {
          let m = upd_graph g (\<lambda>r. r\<lparr>g_thread := Running\<rparr>) m;
          let m = upd_graph g (\<lambda>r. r\<lparr>event_cb := cb\<rparr>) m;
          (status, m) \<leftarrow> enable_controls ops graph_control_fn g (g_component (graph_at m g)) MMAL_SUCCESS m;
          let cs = g_connection (graph_at m g);
          (status, m) \<leftarrow> enable_connections ops g cs status m;
          if cs \<noteq> [] \<and> status \<noteq> MMAL_SUCCESS then map_option (Pair status) (graph_stop_worker_thread g m)
          else Some (status, graph_post g m)
        })"

fun disable_connections ::
    "'v graph_port_ops \<Rightarrow> addr list \<Rightarrow> mmal_status \<Rightarrow> 'v gworld \<Rightarrow> (mmal_status \<times> 'v gworld) option" where
  "disable_connections ops [] status m = Some (status, m)"
| "disable_connections ops (c # cs) _ m = do {
     (status, m) \<leftarrow> mmal_connection_disable ops c m;
     if status \<noteq> MMAL_SUCCESS then Some (status, m) else disable_connections ops cs status m
   }"

definition mmal_graph_disable :: "'v graph_port_ops \<Rightarrow> addr \<Rightarrow> 'v gworld \<Rightarrow> (mmal_status \<times> 'v gworld) option" where
  "mmal_graph_disable ops g m = do {
     m \<leftarrow> graph_stop_worker_thread g m;
     disable_connections ops (g_connection (graph_at m g)) MMAL_SUCCESS m
   }"

end
