(* ===== verification/GraphComponent.thy ===== *)
theory GraphComponent
  imports Graph ClockPort
begin

text \<open>
  mmal/util/mmal_graph.c, the part that makes a component of a graph: its ports stand for ports of the components in the graph, to which they
  forward the calls, and the calls that concern a whole path (enabling, disabling, flushing, changes of format) go on
  along the connections. The module of the component is the graph.

  The functions that the component gives to its own ports are resolved by \<open>graph_component_ops\<close>, from the functions \<open>ops\<close> of the
  components in the graph. A graph that contains a component of another graph is built by applying it twice.
\<close>

subsection \<open>Callbacks of the inner components\<close>

definition graph_component_control_cb ::
    "'v graph_client \<Rightarrow> 'v graph_port_ops \<Rightarrow> addr \<Rightarrow> addr \<Rightarrow> 'v gworld \<Rightarrow> 'v gworld option" where
  "graph_component_control_cb gc ops p b m = do {
     c \<leftarrow> userdata_at m p;
     g \<leftarrow> module_of m c;
     (status, m) \<leftarrow> (case gf_control_callback (graph_at m g) of
        None \<Rightarrow> Some (MMAL_ENOSYS, m) | Some f \<Rightarrow> gc_buffer gc f g p b m);
     if status \<noteq> MMAL_ENOSYS then Some m
     else do {
       control \<leftarrow> cp_control (component_at m c);
       mmal_port_event_send ops control b m
     }
   }"

definition graph_component_connection_cb ::
    "'v graph_client \<Rightarrow> 'v graph_port_ops \<Rightarrow> addr \<Rightarrow> 'v gworld \<Rightarrow> 'v gworld option" where
  "graph_component_connection_cb gc ops cx m = do {
     c \<leftarrow> cn_user_data (user_of m) cx;
     (buffer, m) \<leftarrow> direct_get cx m;
     (case buffer of
        Some b \<Rightarrow> do {
          g \<leftarrow> module_of m c;
          graph_process_buffer gc ops g cx b m
        }
      | None \<Rightarrow> Some (snd (mmal_component_action_trigger c m)))
   }"

definition graph_do_processing_loop ::
    "'v graph_client \<Rightarrow> 'v graph_port_ops \<Rightarrow> addr \<Rightarrow> 'v gworld \<Rightarrow> 'v gworld option" where
  "graph_do_processing_loop gc ops c m = do {
     g \<leftarrow> module_of m c;
     graph_processing_loop gc ops g m
   }"

subsection \<open>Matching ports\<close>

text \<open>The entry behind the last one is read as well: it is NULL, unless the array is full, and then it lies outside of the
  array.\<close>

definition graph_entry :: "graph \<Rightarrow> mmal_port \<Rightarrow> ptr option" where
  "graph_entry g r =
     (case graph_list (pt_type r) g of
        None \<Rightarrow> Some None
      | Some l \<Rightarrow>
          if pt_index r > length l then Some None
          else if pt_index r < length l then Some (Some (l ! pt_index r))
          else if pt_index r < GRAPH_CONNECTIONS_MAX then Some None
          else None)"

definition find_port_from_graph :: "addr \<Rightarrow> addr \<Rightarrow> 'v gworld \<Rightarrow> ptr option" where
  "find_port_from_graph g p m = graph_entry (graph_at m g) (port_at m p)"

fun component_list :: "mmal_port_type \<Rightarrow> mmal_component \<Rightarrow> addr list" where
  "component_list MMAL_PORT_TYPE_INPUT c = cp_input c"
| "component_list MMAL_PORT_TYPE_OUTPUT c = cp_output c"
| "component_list MMAL_PORT_TYPE_CLOCK c = cp_clock c"
| "component_list t c = []"

definition find_port_to_graph :: "addr \<Rightarrow> addr \<Rightarrow> 'v gworld \<Rightarrow> ptr option" where
  "find_port_to_graph g p m =
     (let t = pt_type (port_at m p) in
      case graph_list t (graph_at m g) of
        None \<Rightarrow> Some None
      | Some l \<Rightarrow> do {
          c \<leftarrow> graph_component (graph_at m g);
          let i = index_of p l;
          if i = length l then Some None
          else map_option Some (nth_port (component_list t (component_at m c)) i)
        })"

definition copy_requirements :: "mmal_port \<Rightarrow> mmal_port \<Rightarrow> mmal_port" where
  "copy_requirements src r = r\<lparr>buffer_num_min := buffer_num_min src, buffer_num_recommended := buffer_num_recommended src,
     buffer_size_min := buffer_size_min src, buffer_size_recommended := buffer_size_recommended src\<rparr>"

definition graph_port_update :: "addr \<Rightarrow> addr \<Rightarrow> bool \<Rightarrow> 'v gworld \<Rightarrow> (mmal_status \<times> 'v gworld) option" where
  "graph_port_update g gp init m = do {
     port \<leftarrow> find_port_from_graph g gp m;
     (case port of
        None \<Rightarrow> Some (MMAL_EINVAL, m)
      | Some p \<Rightarrow> do {
          (status, m) \<leftarrow> format_full_copy (pt_format (port_at m gp)) (pt_format (port_at m p)) m;
          if status \<noteq> MMAL_SUCCESS then Some (status, m)
          else
            let src = port_at m p;
                m = upd_port gp (\<lambda>r. (copy_requirements src r)\<lparr>capabilities := capabilities src\<rparr>) m;
                m = (if init then upd_port gp (\<lambda>r. r\<lparr>buffer_num := buffer_num src, buffer_size := buffer_size src\<rparr>) m else m)
            in Some (MMAL_SUCCESS, m)
        })
   }"

definition graph_port_update_requirements :: "addr \<Rightarrow> addr \<Rightarrow> 'v gworld \<Rightarrow> (mmal_status \<times> 'v gworld) option" where
  "graph_port_update_requirements g gp m = do {
     port \<leftarrow> find_port_from_graph g gp m;
     (case port of
        None \<Rightarrow> Some (MMAL_EINVAL, m)
      | Some p \<Rightarrow> Some (MMAL_SUCCESS, upd_port gp (copy_requirements (port_at m p)) m))
   }"

subsection \<open>The component\<close>

text \<open>\<open>free\<close> is \<open>mmal_ports_clock_free\<close>, which needs the callbacks of clocks.\<close>

definition free_graph_ports :: "addr list \<Rightarrow> ptr \<Rightarrow> (addr \<Rightarrow> addr list \<Rightarrow> 'm world \<Rightarrow> 'm world option) \<Rightarrow> 'm world \<Rightarrow> 'm world option" where
  "free_graph_ports ps array free m = (if ps = [] then Some m else Option.bind array (\<lambda>a. free a ps m))"

definition graph_component_destroy ::
    "'v graph_client \<Rightarrow> 'v graph_port_ops \<Rightarrow> 'v graph_env conn_env clock_callbacks \<Rightarrow> addr \<Rightarrow> 'v gworld
      \<Rightarrow> (mmal_status \<times> 'v gworld) option" where
  "graph_component_destroy gc ops cbs c m = do {
     g \<leftarrow> module_of m c;
     m \<leftarrow> (case gf_destroy (graph_at m g) of None \<Rightarrow> Some m | Some f \<Rightarrow> gc_destroy gc f g m);
     let m = upd_graph g (\<lambda>r. r\<lparr>gf_destroy := None\<rparr>) m;
     m \<leftarrow> free_graph_ports (cp_input (component_at m c)) (input_array (component_at m c)) mmal_ports_free m;
     m \<leftarrow> free_graph_ports (cp_output (component_at m c)) (output_array (component_at m c)) mmal_ports_free m;
     m \<leftarrow> free_graph_ports (cp_clock (component_at m c)) (clock_array (component_at m c)) (mmal_ports_clock_free cbs) m;
     (_, m) \<leftarrow> mmal_graph_destroy gc ops (Some g) m;
     Some (MMAL_SUCCESS, m)
   }"

definition graph_component_state :: "'v graph_client \<Rightarrow> bool \<Rightarrow> addr \<Rightarrow> 'v gworld \<Rightarrow> (mmal_status \<times> 'v gworld) option" where
  "graph_component_state gc enable c m = do {
     g \<leftarrow> module_of m c;
     (case gf_graph_enable (graph_at m g) of
        None \<Rightarrow> Some (MMAL_ENOSYS, m)
      | Some f \<Rightarrow> gc_graph_enable gc f g enable m)
   }"

definition graph_component_enable :: "'v graph_client \<Rightarrow> addr \<Rightarrow> 'v gworld \<Rightarrow> (mmal_status \<times> 'v gworld) option" where
  "graph_component_enable gc = graph_component_state gc True"

definition graph_component_disable :: "'v graph_client \<Rightarrow> addr \<Rightarrow> 'v gworld \<Rightarrow> (mmal_status \<times> 'v gworld) option" where
  "graph_component_disable gc = graph_component_state gc False"

definition graph_port_enable_cb ::
    "'v graph_client \<Rightarrow> 'v graph_port_ops \<Rightarrow> addr \<Rightarrow> addr \<Rightarrow> 'v gworld \<Rightarrow> 'v gworld option" where
  "graph_port_enable_cb gc ops p b m = do {
     g \<leftarrow> userdata_at m p;
     graph_port \<leftarrow> find_port_to_graph g p m;
     gp \<leftarrow> graph_port;
     (status, m) \<leftarrow> (case gf_return_buffer (graph_at m g) of
        None \<Rightarrow> Some (MMAL_ENOSYS, m) | Some f \<Rightarrow> gc_buffer gc f g gp b m);
     if status \<noteq> MMAL_ENOSYS then Some m
     else if bh_cmd (bufs m b) \<noteq> 0 then mmal_port_event_send ops gp b m
     else mmal_port_buffer_header_callback ops gp b m
   }"

subsection \<open>Propagation along the connections\<close>

definition graph_component_topology_ports_linked :: "addr \<Rightarrow> addr \<Rightarrow> addr \<Rightarrow> 'v gworld \<Rightarrow> bool" where
  "graph_component_topology_ports_linked g port1 port2 m =
     (let i = index_of (pt_component (port_at m port1)) (g_component (graph_at m g)) in
      if i = length (g_component (graph_at m g)) then False
      else if g_topology (graph_at m g) ! i = MMAL_GRAPH_TOPOLOGY_STRAIGHT
      then pt_index (port_at m port1) = pt_index (port_at m port2)
      else True)"

fun opposite_type :: "mmal_port_type \<Rightarrow> mmal_port_type" where
  "opposite_type MMAL_PORT_TYPE_OUTPUT = MMAL_PORT_TYPE_INPUT"
| "opposite_type MMAL_PORT_TYPE_INPUT = MMAL_PORT_TYPE_OUTPUT"
| "opposite_type t = t"

text \<open>The first connection that has the port at one of its ends, if the port is to be changed at all.\<close>

definition state_connection :: "addr \<Rightarrow> addr \<Rightarrow> bool \<Rightarrow> addr \<Rightarrow> 'v gworld \<Rightarrow> ptr" where
  "state_connection g port enable q m =
     (if pt_type (port_at m q) \<noteq> opposite_type (pt_type (port_at m port)) then None
      else if pt_enabled (port_at m q) = enable then None
      else case List.find (\<lambda>c. cn_out (conn_at m c) = q \<or> cn_in (conn_at m c) = q) (g_connection (graph_at m g)) of
             None \<Rightarrow> None
           | Some c \<Rightarrow> if graph_component_topology_ports_linked g port q m then Some c else None)"

definition other_end :: "addr \<Rightarrow> addr \<Rightarrow> 'v gworld \<Rightarrow> addr" where
  "other_end c q m = (if cn_in (conn_at m c) = q then cn_out (conn_at m c) else cn_in (conn_at m c))"

definition ports_of_component :: "addr \<Rightarrow> 'v gworld \<Rightarrow> addr list" where
  "ports_of_component p m = cp_port (component_at m (pt_component (port_at m p)))"

text \<open>The loop of \<open>graph_port_state_propagate\<close> over the ports \<open>qs\<close> of the component of \<open>port\<close>; it calls the function for the other end of a
  connection, which is the loop over all the ports of the component there.\<close>

partial_function (option) state_propagate_loop ::
    "'v graph_port_ops \<Rightarrow> addr \<Rightarrow> addr \<Rightarrow> bool \<Rightarrow> addr list \<Rightarrow> 'v gworld \<Rightarrow> (mmal_status \<times> 'v gworld) option" where
  "state_propagate_loop ops g port enable qs m =
     (case qs of
        [] \<Rightarrow> Some (MMAL_SUCCESS, m)
      | q # qs \<Rightarrow>
          (case state_connection g port enable q m of
             None \<Rightarrow> state_propagate_loop ops g port enable qs m
           | Some c \<Rightarrow>
               Option.bind (if enable then mmal_connection_enable ops c m else Some (MMAL_SUCCESS, m)) (\<lambda>r.
                 if fst r \<noteq> MMAL_SUCCESS then Some r
                 else Option.bind (state_propagate_loop ops g (other_end c q (snd r)) enable
                                     (ports_of_component (other_end c q (snd r)) (snd r)) (snd r)) (\<lambda>r.
                   if fst r \<noteq> MMAL_SUCCESS then Some r
                   else Option.bind (if enable then Some r else mmal_connection_disable ops c (snd r)) (\<lambda>r.
                     if fst r \<noteq> MMAL_SUCCESS then Some r
                     else state_propagate_loop ops g port enable qs (snd r))))))"

definition graph_port_state_propagate ::
    "'v graph_port_ops \<Rightarrow> addr \<Rightarrow> addr \<Rightarrow> bool \<Rightarrow> 'v gworld \<Rightarrow> (mmal_status \<times> 'v gworld) option" where
  "graph_port_state_propagate ops g port enable m =
     state_propagate_loop ops g port enable (ports_of_component port m) m"

text \<open>A call that the client of the graph may have intercepted: \<open>MMAL_ENOSYS\<close> leaves it to the graph.\<close>

definition intercepted ::
    "nat option \<Rightarrow> (nat \<Rightarrow> 'm world \<Rightarrow> (mmal_status \<times> 'm world) option) \<Rightarrow> 'm world
      \<Rightarrow> ('m world \<Rightarrow> (mmal_status \<times> 'm world) option) \<Rightarrow> (mmal_status \<times> 'm world) option" where
  "intercepted f call m rest =
     (case f of
        None \<Rightarrow> rest m
      | Some f \<Rightarrow> do {
          (status, m) \<leftarrow> call f m;
          if status \<noteq> MMAL_ENOSYS then Some (status, m) else rest m
        })"

text \<open>The graph of a port of a graph component, and the port it stands for.\<close>

definition graph_and_port :: "addr \<Rightarrow> 'v gworld \<Rightarrow> (addr \<times> ptr) option" where
  "graph_and_port gp m = do {
     g \<leftarrow> module_of m (pt_component (port_at m gp));
     port \<leftarrow> find_port_from_graph g gp m;
     Some (g, port)
   }"

definition graph_port_enable ::
    "'v graph_client \<Rightarrow> 'v graph_port_ops \<Rightarrow> addr \<Rightarrow> port_cb option \<Rightarrow> 'v gworld \<Rightarrow> (mmal_status \<times> 'v gworld) option" where
  "graph_port_enable gc ops gp cb m = do {
     (g, port) \<leftarrow> graph_and_port gp m;
     (case port of
        None \<Rightarrow> Some (MMAL_EINVAL, m)
      | Some p \<Rightarrow>
          let num = buffer_num (port_at m gp);
              sz = buffer_size (port_at m gp);
              m = upd_port p (\<lambda>r. r\<lparr>buffer_num := num, buffer_size := sz\<rparr>) m
          in intercepted (gf_enable (graph_at m g)) (\<lambda>f. gc_port gc f g gp) m (\<lambda>m. do {
               (status, m) \<leftarrow> mmal_port_enable ops (Some p) (Some (ClientCb graph_port_fn)) (set_userdata p (Some g) m);
               if status \<noteq> MMAL_SUCCESS then Some (status, m)
               else do {
                 (status, m) \<leftarrow> graph_port_state_propagate ops g p True m;
                 Some (status, snd (mmal_component_action_trigger (pt_component (port_at m gp)) m))
               }
             }))
   }"

definition graph_port_disable ::
    "'v graph_client \<Rightarrow> 'v graph_port_ops \<Rightarrow> addr \<Rightarrow> 'v gworld \<Rightarrow> (mmal_status \<times> 'v gworld) option" where
  "graph_port_disable gc ops gp m = do {
     (g, port) \<leftarrow> graph_and_port gp m;
     (case port of
        None \<Rightarrow> Some (MMAL_EINVAL, m)
      | Some p \<Rightarrow>
          intercepted (gf_disable (graph_at m g)) (\<lambda>f. gc_port gc f g gp) m (\<lambda>m. do {
            (status, m) \<leftarrow>
              (if g_input (graph_at m g) = [] \<or> pt_type (port_at m p) = MMAL_PORT_TYPE_INPUT
               then graph_port_state_propagate ops g p False m else Some (MMAL_SUCCESS, m));
            if status \<noteq> MMAL_SUCCESS then Some (status, m) else mmal_port_disable ops (Some p) m
          }))
   }"

text \<open>Flushing the queue of a connection, which tunnelled connections do not have.\<close>

definition flush_connection :: "'v graph_port_ops \<Rightarrow> addr \<Rightarrow> 'v gworld \<Rightarrow> 'v gworld option" where
  "flush_connection ops c m = (if cn_queue (conn_at m c) = None then Some m else conn_flush_queue ops c m)"

text \<open>The connection behind an output port of the component of \<open>port\<close>.\<close>

definition output_connection :: "addr \<Rightarrow> addr \<Rightarrow> addr \<Rightarrow> 'v gworld \<Rightarrow> ptr" where
  "output_connection g port q m =
     (case List.find (\<lambda>c. cn_out (conn_at m c) = q) (g_connection (graph_at m g)) of
        None \<Rightarrow> None
      | Some c \<Rightarrow> if graph_component_topology_ports_linked g port q m then Some c else None)"

text \<open>\<open>graph_port_flush_propagate\<close>: without \<open>qs\<close> the start of the function, with \<open>qs\<close> its loop over the ports of the component.\<close>

partial_function (option) flush_walk ::
    "'v graph_port_ops \<Rightarrow> addr \<Rightarrow> addr \<Rightarrow> addr list option \<Rightarrow> 'v gworld \<Rightarrow> (mmal_status \<times> 'v gworld) option" where
  "flush_walk ops g port qs m =
     (case qs of
        None \<Rightarrow>
          Option.bind (mmal_port_flush ops (Some port) m) (\<lambda>r.
            if fst r \<noteq> MMAL_SUCCESS then Some r
            else if pt_type (port_at (snd r) port) = MMAL_PORT_TYPE_OUTPUT then Some (MMAL_SUCCESS, snd r)
            else flush_walk ops g port (Some (ports_of_component port (snd r))) (snd r))
      | Some [] \<Rightarrow> Some (MMAL_SUCCESS, m)
      | Some (q # qs) \<Rightarrow>
          if pt_type (port_at m q) \<noteq> MMAL_PORT_TYPE_OUTPUT \<or> \<not> pt_enabled (port_at m q)
          then flush_walk ops g port (Some qs) m
          else (case output_connection g port q m of
             None \<Rightarrow> flush_walk ops g port (Some qs) m
           | Some c \<Rightarrow>
               Option.bind (flush_connection ops c m) (\<lambda>m.
                 Option.bind (flush_walk ops g (cn_in (conn_at m c)) None m) (\<lambda>r.
                   if fst r \<noteq> MMAL_SUCCESS then Some r else flush_walk ops g port (Some qs) (snd r)))))"

definition graph_port_flush_propagate ::
    "'v graph_port_ops \<Rightarrow> addr \<Rightarrow> addr \<Rightarrow> 'v gworld \<Rightarrow> (mmal_status \<times> 'v gworld) option" where
  "graph_port_flush_propagate ops g port m = flush_walk ops g port None m"

definition graph_port_flush ::
    "'v graph_client \<Rightarrow> 'v graph_port_ops \<Rightarrow> addr \<Rightarrow> 'v gworld \<Rightarrow> (mmal_status \<times> 'v gworld) option" where
  "graph_port_flush gc ops gp m = do {
     (g, port) \<leftarrow> graph_and_port gp m;
     (case port of
        None \<Rightarrow> Some (MMAL_EINVAL, m)
      | Some p \<Rightarrow> intercepted (gf_flush (graph_at m g)) (\<lambda>f. gc_port gc f g gp) m (graph_port_flush_propagate ops g p))
   }"

definition graph_port_send ::
    "'v graph_client \<Rightarrow> 'v graph_port_ops \<Rightarrow> addr \<Rightarrow> addr \<Rightarrow> 'v gworld \<Rightarrow> (mmal_status \<times> 'v gworld) option" where
  "graph_port_send gc ops gp b m = do {
     (g, port) \<leftarrow> graph_and_port gp m;
     (case port of
        None \<Rightarrow> Some (MMAL_EINVAL, m)
      | Some p \<Rightarrow> intercepted (gf_send_buffer (graph_at m g)) (\<lambda>f. gc_buffer gc f g gp b) m (mmal_port_send_buffer ops (Some p) b))
   }"

subsection \<open>Formats and parameters\<close>

partial_function (option) commit_walk ::
    "'v graph_port_ops \<Rightarrow> addr \<Rightarrow> addr \<Rightarrow> addr list option \<Rightarrow> 'v gworld \<Rightarrow> (mmal_status \<times> 'v gworld) option" where
  "commit_walk ops g port qs m =
     (case qs of
        None \<Rightarrow>
          if pt_type (port_at m port) = MMAL_PORT_TYPE_OUTPUT \<or> pt_type (port_at m port) = MMAL_PORT_TYPE_CLOCK
          then Some (MMAL_SUCCESS, m)
          else commit_walk ops g port (Some (cp_output (component_at m (pt_component (port_at m port))))) m
      | Some [] \<Rightarrow> Some (MMAL_SUCCESS, m)
      | Some (q # qs) \<Rightarrow>
          if pt_enabled (port_at m q) then commit_walk ops g port (Some qs) m
          else (case output_connection g port q m of
             None \<Rightarrow> commit_walk ops g port (Some qs) m
           | Some c \<Rightarrow>
               Option.bind (conn_commit ops (cn_in (conn_at m c)) (pt_format (port_at m (cn_out (conn_at m c)))) m) (\<lambda>r.
                 if fst r \<noteq> MMAL_SUCCESS then Some r
                 else Option.bind (commit_walk ops g (cn_in (conn_at (snd r) c)) None (snd r)) (\<lambda>r.
                   if fst r \<noteq> MMAL_SUCCESS then Some r else commit_walk ops g port (Some qs) (snd r)))))"

definition graph_port_format_commit_propagate ::
    "'v graph_port_ops \<Rightarrow> addr \<Rightarrow> addr \<Rightarrow> 'v gworld \<Rightarrow> (mmal_status \<times> 'v gworld) option" where
  "graph_port_format_commit_propagate ops g port m = commit_walk ops g port None m"

fun update_ports :: "(addr \<Rightarrow> 'm world \<Rightarrow> (mmal_status \<times> 'm world) option) \<Rightarrow> addr list \<Rightarrow> 'm world \<Rightarrow> (mmal_status \<times> 'm world) option" where
  "update_ports f [] m = Some (MMAL_SUCCESS, m)"
| "update_ports f (p # ps) m = do {
     (status, m) \<leftarrow> f p m;
     if status \<noteq> MMAL_SUCCESS then Some (status, m) else update_ports f ps m
   }"

text \<open>The label \<open>end\<close>. The loop is over as many output ports as the graph has.\<close>

definition graph_port_read_back :: "addr \<Rightarrow> addr \<Rightarrow> 'v gworld \<Rightarrow> (mmal_status \<times> 'v gworld) option" where
  "graph_port_read_back g gp m = do {
     (status, m) \<leftarrow> graph_port_update g gp False m;
     if status \<noteq> MMAL_SUCCESS then Some (status, m)
     else if pt_type (port_at m gp) \<noteq> MMAL_PORT_TYPE_INPUT then Some (MMAL_SUCCESS, m)
     else
       let outs = cp_output (component_at m (pt_component (port_at m gp)));
           n = length (g_output (graph_at m g))
       in if length outs < n then None
       else update_ports (\<lambda>p. graph_port_update g p False) (take n outs) m
   }"

definition graph_port_format_commit ::
    "'v graph_client \<Rightarrow> 'v graph_port_ops \<Rightarrow> addr \<Rightarrow> 'v gworld \<Rightarrow> (mmal_status \<times> 'v gworld) option" where
  "graph_port_format_commit gc ops gp m = do {
     g \<leftarrow> module_of m (pt_component (port_at m gp));
     (status, m) \<leftarrow> (case gf_format_commit (graph_at m g) of
        None \<Rightarrow> Some (MMAL_ENOSYS, m) | Some f \<Rightarrow> gc_port gc f g gp m);
     if status = MMAL_SUCCESS then graph_port_read_back g gp m
     else if status \<noteq> MMAL_ENOSYS then Some (status, m)
     else do {
       port \<leftarrow> find_port_from_graph g gp m;
       (case port of
          None \<Rightarrow> Some (MMAL_EINVAL, m)
        | Some p \<Rightarrow> do {
            (status, m) \<leftarrow> format_full_copy (pt_format (port_at m p)) (pt_format (port_at m gp)) m;
            if status \<noteq> MMAL_SUCCESS then Some (status, m)
            else do {
              let num = buffer_num (port_at m gp);
              let sz = buffer_size (port_at m gp);
              (status, m) \<leftarrow> mmal_port_format_commit ops (Some p) (upd_port p (\<lambda>r. r\<lparr>buffer_num := num, buffer_size := sz\<rparr>) m);
              if status \<noteq> MMAL_SUCCESS then Some (status, m)
              else do {
                (status, m) \<leftarrow> graph_port_format_commit_propagate ops g p m;
                if status \<noteq> MMAL_SUCCESS then Some (status, m) else graph_port_read_back g gp m
              }
            }
          })
     }
   }"

fun control_parameter_get ::
    "'m port_ops \<Rightarrow> addr list \<Rightarrow> mmal_status \<Rightarrow> mmal_param \<Rightarrow> 'm world \<Rightarrow> (mmal_status \<times> mmal_param \<times> 'm world) option" where
  "control_parameter_get ops [] status x m = Some (status, x, m)"
| "control_parameter_get ops (c # cs) status x m =
     (if status = MMAL_SUCCESS then Some (status, x, m)
      else do {
        (status, y, m) \<leftarrow> mmal_port_parameter_get ops (cp_control (component_at m c)) (Some x) m;
        control_parameter_get ops cs status (case y of None \<Rightarrow> x | Some y \<Rightarrow> y) m
      })"

definition graph_port_control_parameter_get ::
    "'v graph_client \<Rightarrow> 'v graph_port_ops \<Rightarrow> addr \<Rightarrow> mmal_param \<Rightarrow> 'v gworld \<Rightarrow> (mmal_status \<times> mmal_param \<times> 'v gworld) option" where
  "graph_port_control_parameter_get gc ops gp x m = do {
     g \<leftarrow> module_of m (pt_component (port_at m gp));
     (status, x, m) \<leftarrow> (case gf_parameter_get (graph_at m g) of
        None \<Rightarrow> Some (MMAL_ENOSYS, x, m) | Some f \<Rightarrow> gc_parameter_get gc f g gp x m);
     if status \<noteq> MMAL_ENOSYS then Some (status, x, m)
     else control_parameter_get ops (g_component (graph_at m g)) MMAL_ENOSYS x m
   }"

definition graph_port_parameter_get ::
    "'v graph_client \<Rightarrow> 'v graph_port_ops \<Rightarrow> addr \<Rightarrow> mmal_param \<Rightarrow> 'v gworld \<Rightarrow> (mmal_status \<times> mmal_param \<times> 'v gworld) option" where
  "graph_port_parameter_get gc ops gp x m = do {
     g \<leftarrow> module_of m (pt_component (port_at m gp));
     (status, x, m) \<leftarrow> (case gf_parameter_get (graph_at m g) of
        None \<Rightarrow> Some (MMAL_ENOSYS, x, m) | Some f \<Rightarrow> gc_parameter_get gc f g gp x m);
     if status \<noteq> MMAL_ENOSYS then Some (status, x, m)
     else do {
       port \<leftarrow> find_port_from_graph g gp m;
       (case port of
          None \<Rightarrow> Some (MMAL_EINVAL, x, m)
        | Some p \<Rightarrow> do {
            (status, y, m) \<leftarrow> mmal_port_parameter_get ops (Some p) (Some x) m;
            Some (status, case y of None \<Rightarrow> x | Some y \<Rightarrow> y, m)
          })
     }
   }"

fun control_parameter_set ::
    "'m port_ops \<Rightarrow> addr list \<Rightarrow> mmal_status \<Rightarrow> mmal_param \<Rightarrow> 'm world \<Rightarrow> (mmal_status \<times> 'm world) option" where
  "control_parameter_set ops [] status x m = Some (status, m)"
| "control_parameter_set ops (c # cs) status x m =
     (if status = MMAL_SUCCESS then Some (status, m)
      else do {
        (status, m) \<leftarrow> mmal_port_parameter_set ops (cp_control (component_at m c)) (Some x) m;
        control_parameter_set ops cs status x m
      })"

definition graph_port_control_parameter_set ::
    "'v graph_client \<Rightarrow> 'v graph_port_ops \<Rightarrow> addr \<Rightarrow> mmal_param \<Rightarrow> 'v gworld \<Rightarrow> (mmal_status \<times> 'v gworld) option" where
  "graph_port_control_parameter_set gc ops gp x m = do {
     g \<leftarrow> module_of m (pt_component (port_at m gp));
     intercepted (gf_parameter_set (graph_at m g)) (\<lambda>f. gc_parameter_set gc f g gp x) m
       (\<lambda>m. control_parameter_set ops (g_component (graph_at m g)) MMAL_ENOSYS x m)
   }"

fun is_buffer_requirements :: "mmal_param \<Rightarrow> bool" where
  "is_buffer_requirements (ParamBufferRequirements _ _ _ _) = True"
| "is_buffer_requirements _ = False"

definition graph_port_parameter_set ::
    "'v graph_client \<Rightarrow> 'v graph_port_ops \<Rightarrow> addr \<Rightarrow> mmal_param \<Rightarrow> 'v gworld \<Rightarrow> (mmal_status \<times> 'v gworld) option" where
  "graph_port_parameter_set gc ops gp x m = do {
     g \<leftarrow> module_of m (pt_component (port_at m gp));
     intercepted (gf_parameter_set (graph_at m g)) (\<lambda>f. gc_parameter_set gc f g gp x) m (\<lambda>m. do {
       port \<leftarrow> find_port_from_graph g gp m;
       (case port of
          None \<Rightarrow> Some (MMAL_EINVAL, m)
        | Some p \<Rightarrow> do {
            (status, m) \<leftarrow> mmal_port_parameter_set ops (Some p) (Some x) m;
            if status = MMAL_SUCCESS \<and> is_buffer_requirements x
            then
              let c = component_at m (pt_component (port_at m gp))
              in update_ports (graph_port_update_requirements g) (cp_input c @ cp_output c) m
            else Some (status, m)
          })
     })
   }"

text \<open>\<open>graph_port_connect\<close> is in the code, but no port gets it.\<close>

definition graph_port_connect ::
    "'v graph_port_ops \<Rightarrow> addr \<Rightarrow> ptr \<Rightarrow> 'v gworld \<Rightarrow> (mmal_status \<times> 'v gworld) option" where
  "graph_port_connect ops gp other m = do {
     (g, port) \<leftarrow> graph_and_port gp m;
     (case port of
        None \<Rightarrow> Some (MMAL_EINVAL, m)
      | Some p \<Rightarrow> (case other of Some q \<Rightarrow> mmal_port_connect ops (Some p) (Some q) m | None \<Rightarrow> mmal_port_disconnect ops (Some p) m))
   }"

text \<open>The allocation of payloads works on the part of the memory that ports are in. A port without a graph, or an index outside of
  the array, is taken for a port that is not found.\<close>

definition graph_port_payload_alloc ::
    "'v graph_client \<Rightarrow> 'v graph_port_ops \<Rightarrow> addr \<Rightarrow> u32 \<Rightarrow> 'v graph_env conn_env module_env core_env
      \<Rightarrow> ptr \<times> 'v graph_env conn_env module_env core_env" where
  "graph_port_payload_alloc gc ops gp n e =
     (let ge = user (client (modules e)) in
      case graph_module ge (pt_component (ports e gp)) of
        None \<Rightarrow> (None, e)
      | Some g \<Rightarrow>
          (case graph_entry (graphs ge g) (ports e gp) of
             Some (Some p) \<Rightarrow>
               (case gf_payload_alloc (graphs ge g) of
                  None \<Rightarrow> mmal_port_payload_alloc ops (Some p) n e
                | Some f \<Rightarrow>
                    let (status, payload, e) = gc_payload_alloc gc f g gp n e
                    in if status = MMAL_ENOSYS then mmal_port_payload_alloc ops (Some p) n e
                       else (if status = MMAL_SUCCESS then payload else None, e))
           | _ \<Rightarrow> (None, e)))"

definition graph_port_payload_free ::
    "'v graph_client \<Rightarrow> 'v graph_port_ops \<Rightarrow> addr \<Rightarrow> addr \<Rightarrow> 'v gworld \<Rightarrow> 'v gworld option" where
  "graph_port_payload_free gc ops gp a m = do {
     (g, port) \<leftarrow> graph_and_port gp m;
     (case port of
        None \<Rightarrow> Some m
      | Some p \<Rightarrow>
          (case gf_payload_free (graph_at m g) of
             None \<Rightarrow> mmal_port_payload_free ops (Some p) a m
           | Some f \<Rightarrow> do {
               (status, m) \<leftarrow> gc_payload_free gc f g gp a m;
               if status = MMAL_SUCCESS then Some m else mmal_port_payload_free ops (Some p) a m
             }))
   }"

subsection \<open>Creation\<close>

definition graph_control_param_fn :: nat where "graph_control_param_fn = 86"

definition graph_port_functions :: "mmal_port \<Rightarrow> mmal_port" where
  "graph_port_functions r = r\<lparr>pf_enable := Some graph_port_fn, pf_disable := Some graph_port_fn, pf_flush := Some graph_port_fn,
     pf_send := Some graph_port_fn, pf_set_format := Some graph_port_fn, pf_parameter_get := Some graph_port_fn,
     pf_parameter_set := Some graph_port_fn, pf_port_payload_alloc := Some graph_port_fn, pf_port_payload_free := Some graph_port_fn\<rparr>"

text \<open>The loop over the new ports of one type; \<open>status\<close> is the status so far, and the loop ends at the first that is not success.\<close>

fun mirror_ports ::
    "(mmal_port \<Rightarrow> mmal_port) \<Rightarrow> addr \<Rightarrow> addr list \<Rightarrow> mmal_status \<Rightarrow> 'v gworld \<Rightarrow> (bool \<times> mmal_status \<times> 'v gworld) option" where
  "mirror_ports f g [] status m = Some (True, status, m)"
| "mirror_ports f g (p # ps) _ m = do {
     (status, m) \<leftarrow> graph_port_update g p True (upd_port p f m);
     if status \<noteq> MMAL_SUCCESS then Some (False, status, m) else mirror_ports f g ps status m
   }"

text \<open>Allocating and mirroring the ports of one type: \<open>put\<close> stores them in the component. When they cannot be allocated, the status is
  the one so far.\<close>

definition graph_ports_create ::
    "(nat \<Rightarrow> 'v gworld \<Rightarrow> ((addr \<times> addr list) option \<times> 'v gworld) option) \<Rightarrow> (addr list \<Rightarrow> ptr \<Rightarrow> mmal_component \<Rightarrow> mmal_component)
      \<Rightarrow> (mmal_port \<Rightarrow> mmal_port) \<Rightarrow> addr \<Rightarrow> addr \<Rightarrow> nat \<Rightarrow> mmal_status \<Rightarrow> 'v gworld \<Rightarrow> (bool \<times> mmal_status \<times> 'v gworld) option" where
  "graph_ports_create alloc put f g c n status m =
     (if n = 0 then Some (True, status, m)
      else do {
        (ports, m) \<leftarrow> alloc n m;
        (case ports of
           None \<Rightarrow> Some (False, status, m)
         | Some (a, ps) \<Rightarrow> mirror_ports f g ps status (upd_component c (put ps (Some a)) m))
      })"

text \<open>The callbacks of the connections, and what the graph and its component know of each other.\<close>

fun set_connection_callbacks :: "addr list \<Rightarrow> addr \<Rightarrow> 'v gworld \<Rightarrow> 'v gworld" where
  "set_connection_callbacks [] c m = m"
| "set_connection_callbacks (cx # cs) c m =
     set_connection_callbacks cs c
       (set_user_data cx (Some c) (upd_conn cx (\<lambda>r. r\<lparr>cn_callback := Some graph_component_connection_fn\<rparr>) m))"

definition graph_component_finish :: "'v graph_port_ops \<Rightarrow> addr \<Rightarrow> addr \<Rightarrow> 'v gworld \<Rightarrow> (mmal_status \<times> 'v gworld) option" where
  "graph_component_finish ops g c m =
     (let m = set_connection_callbacks (g_connection (graph_at m g)) c m;
          m = upd_component c (\<lambda>r. r\<lparr>cf_destroy := Some graph_port_fn, cf_enable := Some graph_port_fn, cf_disable := Some graph_port_fn\<rparr>) m;
          m = upd_graph g (\<lambda>r. r\<lparr>graph_component := Some c\<rparr>) m
      in map_option (\<lambda>(_, m). (MMAL_SUCCESS, m))
           (enable_controls ops graph_component_control_fn c (g_component (graph_at m g)) MMAL_SUCCESS m))"

definition graph_create_error ::
    "'v graph_client \<Rightarrow> 'v graph_port_ops \<Rightarrow> 'v graph_env conn_env clock_callbacks \<Rightarrow> addr \<Rightarrow> mmal_status \<Rightarrow> 'v gworld
      \<Rightarrow> (mmal_status \<times> 'v gworld) option" where
  "graph_create_error gc ops cbs c status m =
     map_option (\<lambda>(_, m). (status, m)) (graph_component_destroy gc ops cbs c m)"

definition mmal_component_create_from_graph ::
    "'v graph_client \<Rightarrow> 'v graph_port_ops \<Rightarrow> 'v graph_env conn_env clock_callbacks \<Rightarrow> addr \<Rightarrow> 'v gworld
      \<Rightarrow> (mmal_status \<times> 'v gworld) option" where
  "mmal_component_create_from_graph gc ops cbs c m = do {
     g \<leftarrow> module_of m c;
     control \<leftarrow> cp_control (component_at m c);
     let m = upd_port control (\<lambda>r. r\<lparr>pf_parameter_get := Some graph_control_param_fn, pf_parameter_set := Some graph_control_param_fn\<rparr>) m;
     (ok, status, m) \<leftarrow> graph_ports_create (\<lambda>n. mmal_ports_alloc c n MMAL_PORT_TYPE_INPUT)
        (\<lambda>ps a r. r\<lparr>cp_input := ps, input_array := a\<rparr>) graph_port_functions g c (length (g_input (graph_at m g))) MMAL_ENOMEM m;
     if \<not> ok then graph_create_error gc ops cbs c status m
     else do {
       (ok, status, m) \<leftarrow> graph_ports_create (\<lambda>n. mmal_ports_alloc c n MMAL_PORT_TYPE_OUTPUT)
          (\<lambda>ps a r. r\<lparr>cp_output := ps, output_array := a\<rparr>) graph_port_functions g c (length (g_output (graph_at m g))) status m;
       if \<not> ok then graph_create_error gc ops cbs c status m
       else do {
         (ok, status, m) \<leftarrow> graph_ports_create (\<lambda>n. mmal_ports_clock_alloc ops cbs c n None)
            (\<lambda>ps a r. r\<lparr>cp_clock := ps, clock_array := a\<rparr>) (\<lambda>r. (graph_port_functions r)\<lparr>pf_connect := None\<rparr>) g c
            (length (g_clock (graph_at m g))) MMAL_ENOMEM m;
         if \<not> ok then graph_create_error gc ops cbs c status m
         else
           let (status, m) = mmal_component_action_register c graph_port_fn m
           in if status \<noteq> MMAL_SUCCESS then graph_create_error gc ops cbs c status m
           else graph_component_finish ops g c m
       }
     }
   }"

text \<open>The constructor finds the graph as the module of its component, which is the last argument of the creation.\<close>

definition mmal_graph_component_constructor ::
    "'v graph_client \<Rightarrow> 'v graph_port_ops \<Rightarrow> 'v graph_env conn_env clock_callbacks \<Rightarrow> addr \<Rightarrow> 'v gworld
      \<Rightarrow> (mmal_status \<times> 'v gworld) option" where
  "mmal_graph_component_constructor gc ops cbs c m =
     mmal_component_create_from_graph gc ops cbs c
       (upd_graph_env (\<lambda>e. e\<lparr>graph_module := (graph_module e)(c := constructor_private e)\<rparr>) m)"

definition graph_conn_callbacks ::
    "'v graph_client \<Rightarrow> 'v graph_port_ops \<Rightarrow> 'v graph_env conn_callbacks \<Rightarrow> 'v graph_env conn_callbacks" where
  "graph_conn_callbacks gc ops cbs = (\<lambda>f c m.
     if f = graph_connection_fn then graph_connection_cb gc ops c m
     else if f = graph_component_connection_fn then graph_component_connection_cb gc ops c m
     else cbs f c m)"

definition graph_component_ops ::
    "'v graph_client \<Rightarrow> 'v graph_env conn_env clock_callbacks \<Rightarrow> 'v graph_port_ops \<Rightarrow> 'v graph_port_ops" where
  "graph_component_ops gc cbs ops = ops\<lparr>
     f_enable := (\<lambda>f p cb m. if f = graph_port_fn then graph_port_enable gc ops p cb m else f_enable ops f p cb m),
     f_disable := (\<lambda>f p m. if f = graph_port_fn then graph_port_disable gc ops p m else f_disable ops f p m),
     f_flush := (\<lambda>f p m. if f = graph_port_fn then graph_port_flush gc ops p m else f_flush ops f p m),
     f_send := (\<lambda>f p b m. if f = graph_port_fn then graph_port_send gc ops p b m else f_send ops f p b m),
     f_set_format := (\<lambda>f p m. if f = graph_port_fn then graph_port_format_commit gc ops p m else f_set_format ops f p m),
     f_parameter_get := (\<lambda>f p x m. if f = graph_port_fn then graph_port_parameter_get gc ops p x m
        else if f = graph_control_param_fn then graph_port_control_parameter_get gc ops p x m else f_parameter_get ops f p x m),
     f_parameter_set := (\<lambda>f p x m. if f = graph_port_fn then graph_port_parameter_set gc ops p x m
        else if f = graph_control_param_fn then graph_port_control_parameter_set gc ops p x m else f_parameter_set ops f p x m),
     f_payload_alloc := (\<lambda>f p n e. if f = graph_port_fn then graph_port_payload_alloc gc ops p n e else f_payload_alloc ops f p n e),
     f_payload_free := (\<lambda>f p a m. if f = graph_port_fn then graph_port_payload_free gc ops p a m else f_payload_free ops f p a m),
     f_client_cb := (\<lambda>f p b m. if f = graph_port_fn then graph_port_enable_cb gc ops p b m
        else if f = graph_control_fn then graph_control_cb gc ops p b m
        else if f = graph_component_control_fn then graph_component_control_cb gc ops p b m else f_client_cb ops f p b m),
     f_component_enable := (\<lambda>f c m. if f = graph_port_fn then graph_component_enable gc c m else f_component_enable ops f c m),
     f_component_disable := (\<lambda>f c m. if f = graph_port_fn then graph_component_disable gc c m else f_component_disable ops f c m),
     f_component_destroy := (\<lambda>f c m. if f = graph_port_fn then graph_component_destroy gc ops cbs c m else f_component_destroy ops f c m),
     f_action := (\<lambda>f c m. if f = graph_port_fn then graph_do_processing_loop gc ops c m else f_action ops f c m),
     f_create := (\<lambda>f name c m. if f = graph_constructor_fn then mmal_graph_component_constructor gc ops cbs c m
        else f_create ops f name c m)\<rparr>"

definition mmal_graph_build ::
    "'v graph_client \<Rightarrow> 'v graph_env conn_env clock_callbacks \<Rightarrow> 'v graph_port_ops \<Rightarrow> addr \<Rightarrow> string \<Rightarrow> 'v gworld
      \<Rightarrow> (mmal_status \<times> ptr \<times> 'v gworld) option" where
  "mmal_graph_build gc cbs ops g name m =
     mmal_component_create_with_constructor (graph_component_ops gc cbs ops) name (Some graph_constructor_fn)
       (upd_graph_env (\<lambda>e. e\<lparr>constructor_private := Some g\<rparr>) m)"

end
