(* ===== verification/GraphFlow.thy ===== *)
theory GraphFlow
  imports GraphComponent ConnFlow
begin

text \<open>
  What a running graph does: the worker thread of a graph takes every empty buffer to the output port of its connection and every
  filled one to the input port, and then waits again.
\<close>

subsection \<open>Several connections in one memory\<close>

lemma conn_rep_frame:
  assumes "conn_rep k bs m" and "\<And>pl. place_queue k pl m' = place_queue k pl m" and "conn_fixed k m'"
    and "\<And>pl b. b \<in> set (bs pl) \<Longrightarrow> bufs m' b = bufs m b"
  shows "conn_rep k bs m'"
proof -
  note r = assms(1) [unfolded conn_rep_def]
  have "\<exists>q. place_queue k pl m' = Some q \<and> qrep (bufs m') q (bs pl) \<and> q_sem q = length (bs pl)" for pl
  proof -
    obtain q where q: "place_queue k pl m = Some q" "qrep (bufs m) q (bs pl)" "q_sem q = length (bs pl)" using r by blast
    have "qrep (bufs m') q (bs pl)" by (rule qrep_links [OF q(2)]) (simp add: assms(4))
    then show ?thesis using q assms(2) by simp
  qed
  moreover have "\<forall>pl. \<forall>b\<in>set (bs pl). pool_buffer (id_pool k) (bufs m' b)" using r assms(4) by metis
  ultimately show ?thesis using r assms(3) by (simp add: conn_rep_def)
qed

definition conn_apart :: "conn_ids \<Rightarrow> conn_ids \<Rightarrow> bool" where
  "conn_apart k k' \<longleftrightarrow> id_conn k \<noteq> id_conn k' \<and> id_pool k \<noteq> id_pool k' \<and> {id_in k, id_out k} \<inter> {id_in k', id_out k'} = {}"

lemma set_place_apart:
  assumes "conn_apart k k'"
  shows "place_queue k' pl' (set_place k pl q m) = place_queue k' pl' m"
  using assms by (cases pl; cases pl') (simp_all add: conn_apart_def)

lemma set_place_fixed [simp]: "conn_fixed k' (set_place k pl q m) = conn_fixed k' m"
  by (cases pl) (simp_all add: conn_fixed_def tunnelling_def)

text \<open>What moving buffers does not change: the graphs, the flags of connections, and in the headers the command and the payload.\<close>

definition same_graph :: "'u cworld \<Rightarrow> 'u cworld \<Rightarrow> bool" where
  "same_graph m m' \<longleftrightarrow> user_of m' = user_of m \<and> (\<forall>c. cn_flags (conn_at m' c) = cn_flags (conn_at m c))
     \<and> (\<forall>b. bh_cmd (bufs m' b) = bh_cmd (bufs m b) \<and> bh_data (bufs m' b) = bh_data (bufs m b))"

lemma same_graph_trans [trans]: "same_graph m m' \<Longrightarrow> same_graph m' m'' \<Longrightarrow> same_graph m m''"
  by (simp add: same_graph_def)

lemma set_place_flags [simp]: "cn_flags (conn_at (set_place k pl q m) c) = cn_flags (conn_at m c)"
  by (cases pl) simp_all

lemma same_graph_simps [simp]:
  "same_graph m m" "same_graph m (set_place k pl q m)" "same_graph m (upd_port p g m)" "same_graph m (upd_component c h m)"
  "same_graph m (upd_buf b (\<lambda>r. r\<lparr>bh_length := n\<rparr>) m)"
  by (simp_all add: same_graph_def) (simp_all add: conn_at_def user_of_def)

lemma only_links_public:
  assumes "only_links h h'"
  shows "bh_cmd (h' b) = bh_cmd (h b)" "bh_data (h' b) = bh_data (h b)"
proof -
  have "(h' b)\<lparr>bh_next := None\<rparr> = (h b)\<lparr>bh_next := None\<rparr>" using assms by (simp add: only_links_def)
  then have "bh_cmd ((h' b)\<lparr>bh_next := None\<rparr>) = bh_cmd ((h b)\<lparr>bh_next := None\<rparr>)"
    "bh_data ((h' b)\<lparr>bh_next := None\<rparr>) = bh_data ((h b)\<lparr>bh_next := None\<rparr>)" by simp_all
  then show "bh_cmd (h' b) = bh_cmd (h b)" "bh_data (h' b) = bh_data (h b)" by simp_all
qed

text \<open>The buffers of a connection that another connection does not see.\<close>

definition away :: "addr list \<Rightarrow> (place \<Rightarrow> addr list) \<Rightarrow> bool" where
  "away xs bs \<longleftrightarrow> (\<forall>pl. set xs \<inter> set (bs pl) = {})"

lemma put_at_frame:
  assumes "conn_rep k bs m" and "\<And>pl'. b \<notin> set (bs pl')"
  shows "same_graph m (put_at k pl b m)"
    and "conn_apart k k' \<Longrightarrow> conn_rep k' bs' m \<Longrightarrow> away (bs pl @ [b]) bs' \<Longrightarrow> conn_rep k' bs' (put_at k pl b m)"
proof -
  note r = assms(1) [unfolded conn_rep_def]
  obtain q where q: "place_queue k pl m = Some q" "qrep (bufs m) q (bs pl)" using r by blast
  obtain q' h where put: "queue_put q (bufs m) b = (q', h)" "same_bufs (- set (bs pl @ [b])) (bufs m) h" "only_links (bufs m) h"
    using queue_put_qrep [OF q(2) assms(2)] by blast
  have p: "put_at k pl b m = set_place k pl (Some q') (m\<lparr>bufs := h\<rparr>)"
    using q(1) put(1) by (simp add: put_at_def)
  show "same_graph m (put_at k pl b m)" using only_links_public [OF put(3)] by (simp add: p same_graph_def)
  assume ap: "conn_apart k k'" and k': "conn_rep k' bs' m" and aw: "away (bs pl @ [b]) bs'"
  have "conn_fixed k' m" using k' by (simp add: conn_rep_def)
  moreover have "bufs (put_at k pl b m) x = bufs m x" if "x \<in> set (bs' pl')" for x pl'
  proof -
    have "x \<in> - set (bs pl @ [b])" using aw that by (auto simp: away_def)
    then show ?thesis using put(2) by (auto simp: p same_bufs_def)
  qed
  ultimately show "conn_rep k' bs' (put_at k pl b m)"
    by (intro conn_rep_frame [OF k']) (simp_all add: p set_place_apart [OF ap])
qed

subsection \<open>Components that queue what they are sent\<close>

definition accepting :: "nat \<Rightarrow> nat \<Rightarrow> mmal_port \<Rightarrow> bool" where
  "accepting fn n r \<longleftrightarrow> pt_enabled r \<and> \<not> is_paused r \<and> pf_send r = Some fn \<and> counted n r"

lemma accepting_stats: "accepting fn n r \<Longrightarrow> accepting fn n (r\<lparr>stats_rx := s\<rparr>)"
  by (simp add: accepting_def counted_iff)

lemma accepting_count: "accepting fn n r \<Longrightarrow> accepting fn n' (with_count n' r)"
  by (simp add: accepting_def counted_iff) (simp add: with_count_def)

text \<open>The connections \<open>ks\<close> of a graph with the buffers \<open>bs\<close>, between ports that take what they are sent; no buffer is an event.\<close>

definition graph_conn :: "nat \<Rightarrow> conn_ids \<Rightarrow> (place \<Rightarrow> addr list) \<Rightarrow> 'u cworld \<Rightarrow> bool" where
  "graph_conn fn k bs m \<longleftrightarrow> conn_rep k bs m \<and> size (all_buffers bs) < 2 ^ 31
     \<and> accepting fn (length (bs AtInput)) (port_at m (id_in k)) \<and> accepting fn (length (bs AtOutput)) (port_at m (id_out k))
     \<and> (\<forall>b\<in>#all_buffers bs. bh_cmd (bufs m b) = 0 \<and> bh_data (bufs m b) \<noteq> None)"

definition graph_rep :: "nat \<Rightarrow> conn_ids list \<Rightarrow> (conn_ids \<Rightarrow> place \<Rightarrow> addr list) \<Rightarrow> 'u cworld \<Rightarrow> bool" where
  "graph_rep fn ks bs m \<longleftrightarrow> (\<forall>k\<in>set ks. graph_conn fn k (bs k) m)
     \<and> (\<forall>k\<in>set ks. \<forall>k'\<in>set ks. k \<noteq> k' \<longrightarrow> conn_apart k k' \<and> set_mset (all_buffers (bs k)) \<inter> set_mset (all_buffers (bs k')) = {})"

fun next_place :: "place \<Rightarrow> place" where
  "next_place InPool = AtOutput" | "next_place InQueue = AtInput" | "next_place pl = pl"

fun next_port :: "conn_ids \<Rightarrow> place \<Rightarrow> addr" where
  "next_port k InPool = id_out k" | "next_port k pl = id_in k"

text \<open>All the buffers of a place, or the first of them, go to the next place.\<close>

definition shift :: "place \<Rightarrow> (place \<Rightarrow> addr list) \<Rightarrow> place \<Rightarrow> addr list" where
  "shift pl bs = bs(pl := [], next_place pl := bs (next_place pl) @ bs pl)"

definition shift_one :: "place \<Rightarrow> (place \<Rightarrow> addr list) \<Rightarrow> place \<Rightarrow> addr list" where
  "shift_one pl bs = bs(pl := tl (bs pl), next_place pl := bs (next_place pl) @ [hd (bs pl)])"

lemma set_all_buffers: "set_mset (all_buffers bs) = (\<Union>pl. set (bs pl))"
proof -
  have "(\<Union>pl. set (bs pl)) = (\<Union>pl\<in>{InPool, InQueue, AtInput, AtOutput}. set (bs pl))"
    using place.exhaust by (intro SUP_cong) blast+
  then show ?thesis by (auto simp: all_buffers_def)
qed

lemma shift_one_step:
  "bs pl = b # xs \<Longrightarrow> pl \<in> {InPool, InQueue} \<Longrightarrow>
    shift_one pl bs = (bs(pl := xs))(next_place pl := (bs(pl := xs)) (next_place pl) @ [b])"
  by (cases pl) (auto simp: shift_one_def)

lemma all_buffers_shift_one:
  "bs pl = b # xs \<Longrightarrow> pl \<in> {InPool, InQueue} \<Longrightarrow> all_buffers (shift_one pl bs) = all_buffers bs"
  using all_buffers_move [of bs pl b xs "next_place pl"] by (subst shift_one_step) auto

lemma shift_shift_one: "bs pl \<noteq> [] \<Longrightarrow> pl \<in> {InPool, InQueue} \<Longrightarrow> shift pl (shift_one pl bs) = shift pl bs"
  by (cases pl) (auto simp: shift_def shift_one_def fun_eq_iff)

lemma shift_nil: "bs pl = [] \<Longrightarrow> shift pl bs = bs"
  by (cases pl) (auto simp: shift_def fun_eq_iff)

lemma get_frame:
  assumes "get_at k pl m = Some (r, m')"
  shows "same_graph m m'" and "conn_apart k k' \<Longrightarrow> conn_rep k' bs' m \<Longrightarrow> conn_rep k' bs' m'"
proof -
  obtain q where q: "m' = set_place k pl q m" using assms by (auto simp: get_at_def split: bind_splits)
  then show "same_graph m m'" by simp
  assume h: "conn_apart k k'" "conn_rep k' bs' m"
  then have "conn_fixed k' m" by (simp add: conn_rep_def)
  then show "conn_rep k' bs' m'"
    unfolding q by (intro conn_rep_frame [OF h(2)]) (simp_all add: set_place_apart [OF h(1)])
qed

text \<open>A pass visits every connection, as long as the counter of the passes does not wrap around.\<close>

lemma visiting_order_all:
  assumes "unat cur + length ks < 2 ^ 32"
  shows "\<exists>ks'. visiting_order cur (map id_conn ks) = map id_conn ks' \<and> set ks' = set ks"
proof -
  let ?n = "length ks"
  define f where "f i = unat (cur + of_nat i) mod ?n" for i
  have f: "f i = (unat cur + i) mod ?n" if "i < ?n" for i
  proof -
    have i: "unat (of_nat i :: u32) = i" using that assms by (simp add: unsigned_of_nat take_bit_nat_eq_self)
    have "unat (cur + of_nat i) = unat cur + i" using that assms i by (subst unat_add_lem [THEN iffD1]) simp_all
    then show ?thesis by (simp add: f_def)
  qed
  have "\<exists>i<?n. f i = j" if j: "j < ?n" for j
  proof -
    let ?i = "(j + (?n - unat cur mod ?n)) mod ?n"
    have "(unat cur + ?i) mod ?n = (unat cur + (j + (?n - unat cur mod ?n))) mod ?n" by (simp add: mod_add_right_eq)
    also have "\<dots> = (unat cur mod ?n + (j + (?n - unat cur mod ?n))) mod ?n" by (simp add: mod_add_left_eq)
    also have "unat cur mod ?n + (j + (?n - unat cur mod ?n)) = j + ?n"
    proof -
      have "unat cur mod ?n < ?n" using j by (intro mod_less_divisor) linarith
      then show ?thesis by linarith
    qed
    finally have "(unat cur + ?i) mod ?n = j" using j by simp
    moreover have "?i < ?n" using j by (intro mod_less_divisor) linarith
    ultimately show ?thesis using f by metis
  qed
  moreover have "f i < ?n" if "i < ?n" for i using that unfolding f_def by (intro mod_less_divisor) linarith
  ultimately have "f ` {0..<?n} = {0..<?n}" by force
  then have "(!) ks ` f ` {0..<?n} = set ks" by (simp add: set_conv_nth) (auto simp: image_iff)
  then have "set (map (\<lambda>i. ks ! f i) [0..<?n]) = set ks" by (simp add: image_image)
  moreover have "visiting_order cur (map id_conn ks) = map id_conn (map (\<lambda>i. ks ! f i) [0..<?n])"
    using \<open>\<And>i. i < ?n \<Longrightarrow> f i < ?n\<close> by (simp add: visiting_order_def f_def)
  ultimately show ?thesis by blast
qed

definition shift_all :: "place \<Rightarrow> conn_ids set \<Rightarrow> (conn_ids \<Rightarrow> place \<Rightarrow> addr list) \<Rightarrow> conn_ids \<Rightarrow> place \<Rightarrow> addr list" where
  "shift_all pl S bs k = (if k \<in> S then shift pl (bs k) else bs k)"

lemma shift_again: "pl \<in> {InPool, InQueue} \<Longrightarrow> shift pl (shift pl b) = shift pl b" "pl \<in> {InPool, InQueue} \<Longrightarrow> shift pl b pl = []"
  by (auto simp: shift_def fun_eq_iff)

lemma shift_all_step:
  assumes "pl \<in> {InPool, InQueue}"
  shows "shift_all pl S (bs(k := shift pl (bs k))) = shift_all pl (insert k S) bs"
  using shift_again [OF assms] by (auto simp: shift_all_def fun_eq_iff)

lemma shift_all_empty [simp]: "shift_all pl {} bs = bs"
  by (simp add: shift_all_def fun_eq_iff)

definition direct :: "'u cworld \<Rightarrow> conn_ids \<Rightarrow> bool" where
  "direct m k \<longleftrightarrow> cn_flags (conn_at m (id_conn k)) AND MMAL_CONNECTION_FLAG_DIRECT \<noteq> 0"

lemma same_graph_direct: "same_graph m m' \<Longrightarrow> direct m' = direct m"
  by (simp add: same_graph_def direct_def fun_eq_iff)

lemma graph_rep_fixed:
  assumes "graph_rep fn ks bs m" and "k \<in> set ks"
  shows "cn_pool (conn_at m (id_conn k)) = Some (id_pool k)" "cn_out (conn_at m (id_conn k)) = id_out k"
    "cn_in (conn_at m (id_conn k)) = id_in k" "\<not> tunnelling (conn_at m (id_conn k))"
  using assms by (auto simp: graph_rep_def graph_conn_def conn_rep_def conn_fixed_def)

lemma graph_rep_get_nil:
  assumes rep: "graph_rep fn ks bs m" and k: "k \<in> set ks" and "bs k pl = []"
  shows "\<exists>m'. get_at k pl m = Some (None, m') \<and> graph_rep fn ks bs m' \<and> same_graph m m'"
proof -
  have "conn_rep k (bs k) m" using rep k by (simp add: graph_rep_def graph_conn_def)
  from conn_rep_get_nil [where bs = "bs k" and pl = pl, OF this assms(3)]
  obtain m' where m': "get_at k pl m = Some (None, m')" "conn_rep k (bs k) m'" "port_at m' = port_at m" by blast
  note fr = get_frame [OF m'(1)]
  have "graph_conn fn k' (bs k') m'" if "k' \<in> set ks" for k'
  proof -
    have "conn_rep k' (bs k') m'"
      using rep k that m'(2) fr(2) by (cases "k' = k") (auto simp: graph_rep_def graph_conn_def)
    then show ?thesis using rep that m'(3) fr(1) by (auto simp: graph_rep_def graph_conn_def same_graph_def)
  qed
  then show ?thesis using rep m'(1) fr(1) by (auto simp: graph_rep_def)
qed

lemma graph_rep_upd [simp]: "graph_rep fn ks bs (upd_graph g f m) = graph_rep fn ks bs m"
proof -
  have "bufs (upd_graph g f m) = bufs m" "port_at (upd_graph g f m) = port_at m"
    by (simp_all add: upd_graph_def upd_graph_env_def)
  then show ?thesis by (simp add: graph_rep_def graph_conn_def upd_graph_def upd_graph_env_def)
qed

lemma graph_at_upd [simp]: "graph_at (upd_graph g f m) = (graph_at m)(g := f (graph_at m g))"
  by (simp add: graph_at_def upd_graph_def upd_graph_env_def user_of_def fun_eq_iff)

lemma direct_upd [simp]: "direct (upd_graph g f m) = direct m"
  by (simp add: direct_def upd_graph_def upd_graph_env_def conn_at_def fun_eq_iff)

lemma same_graph_at: "same_graph m m' \<Longrightarrow> graph_at m' = graph_at m"
  by (simp add: same_graph_def graph_at_def fun_eq_iff)

text \<open>What a pass has to move, and where the buffers are after it; buffers of direct connections are not moved.\<close>

definition waiting :: "'u cworld \<Rightarrow> conn_ids list \<Rightarrow> (conn_ids \<Rightarrow> place \<Rightarrow> addr list) \<Rightarrow> bool" where
  "waiting m ks bs \<longleftrightarrow> (\<exists>k\<in>set ks. bs k InPool \<noteq> []) \<or> (\<exists>k\<in>set ks - Collect (direct m). bs k InQueue \<noteq> [])"

definition delivered :: "'u cworld \<Rightarrow> conn_ids list \<Rightarrow> (conn_ids \<Rightarrow> place \<Rightarrow> addr list) \<Rightarrow> conn_ids \<Rightarrow> place \<Rightarrow> addr list" where
  "delivered m ks bs = shift_all InQueue (set ks - Collect (direct m)) (shift_all InPool (set ks) bs)"

lemma delivered_places:
  "k \<in> set ks \<Longrightarrow> delivered m ks bs k InPool = []"
  "k \<in> set ks \<Longrightarrow> delivered m ks bs k AtOutput = bs k AtOutput @ bs k InPool"
  "k \<in> set ks \<Longrightarrow> delivered m ks bs k InQueue = (if direct m k then bs k InQueue else [])"
  "k \<in> set ks \<Longrightarrow> delivered m ks bs k AtInput = bs k AtInput @ (if direct m k then [] else bs k InQueue)"
  by (simp_all add: delivered_def shift_all_def shift_def)

lemma delivered_again: "delivered m ks (delivered m ks bs) = delivered m ks bs" "\<not> waiting m ks (delivered m ks bs)"
  by (auto simp: delivered_def shift_all_def shift_def waiting_def fun_eq_iff)

text \<open>A step that concerns one connection and its two ports.\<close>

lemma graph_rep_update:
  assumes rep: "graph_rep fn ks bs m" and k: "k \<in> set ks" and own: "conn_rep k bs' m'" "all_buffers bs' = all_buffers (bs k)"
    and acc: "accepting fn (length (bs' AtInput)) (port_at m' (id_in k))" "accepting fn (length (bs' AtOutput)) (port_at m' (id_out k))"
    and ports: "\<And>q. q \<notin> {id_in k, id_out k} \<Longrightarrow> port_at m' q = port_at m q"
    and others: "\<And>k' bs2. conn_apart k k' \<Longrightarrow> conn_rep k' bs2 m \<Longrightarrow>
      (\<And>pl. set (bs2 pl) \<inter> set_mset (all_buffers (bs k)) = {}) \<Longrightarrow> conn_rep k' bs2 m'"
    and headers: "\<And>a. bh_cmd (bufs m' a) = bh_cmd (bufs m a) \<and> bh_data (bufs m' a) = bh_data (bufs m a)"
  shows "graph_rep fn ks (bs(k := bs')) m'"
proof -
  have "graph_conn fn k (bs k) m" using rep k by (simp add: graph_rep_def)
  then have "graph_conn fn k bs' m'" using own acc headers by (simp add: graph_conn_def)
  moreover have "graph_conn fn k' (bs k') m'" if k': "k' \<in> set ks" "k' \<noteq> k" for k'
  proof -
    have gk': "graph_conn fn k' (bs k') m" and ap: "conn_apart k k'"
      and dj: "set_mset (all_buffers (bs k)) \<inter> set_mset (all_buffers (bs k')) = {}"
      using rep k k' by (auto simp: graph_rep_def)
    have "set (bs k' pl) \<inter> set_mset (all_buffers (bs k)) = {}" for pl using dj unfolding set_all_buffers [of "bs k'"] by blast
    then have "conn_rep k' (bs k') m'" using others [OF ap] gk' by (simp add: graph_conn_def)
    moreover have "port_at m' (id_in k') = port_at m (id_in k')" "port_at m' (id_out k') = port_at m (id_out k')"
      using ap by (auto simp: conn_apart_def intro!: ports)
    ultimately show ?thesis using gk' headers by (simp add: graph_conn_def)
  qed
  ultimately show ?thesis using rep by (auto simp: graph_rep_def own(2))
qed

locale queueing_module =
  fixes ops :: "'v graph_port_ops" and fn :: nat
  assumes send_law: "f_send ops fn p b m
    = Some (MMAL_SUCCESS, snd (mmal_component_action_trigger (pt_component (port_at m p)) (module_put p b m)))"
begin

lemma send_accepted:
  assumes "conn_rep k bs m" and "\<And>pl'. b \<notin> set (bs pl')" and "pool_buffer (id_pool k) (bufs m b)"
    and "bh_data (bufs m b) \<noteq> None" and "accepting fn n (port_at m p)" and "n + 1 < 2 ^ 31"
    and put: "\<And>m :: 'v gworld. module_put p b m = put_at k pl b m"
  obtains m' r where "mmal_port_send_buffer ops (Some p) b m = Some (MMAL_SUCCESS, m')"
    and "conn_rep k (bs(pl := bs pl @ [b])) m'" and "same_graph m m'"
    and "port_at m' = (port_at m)(p := r)" and "accepting fn (n + 1) r"
    and "\<And>k' bs'. conn_apart k k' \<Longrightarrow> conn_rep k' bs' m \<Longrightarrow> away (bs pl @ [b]) bs' \<Longrightarrow> conn_rep k' bs' m'"
proof -
  note c = assms(5) [unfolded accepting_def]
  define m1 where "m1 = (if pt_type (port_at m p) = MMAL_PORT_TYPE_OUTPUT \<and> bh_length (bufs m b) \<noteq> 0
      then upd_buf b (\<lambda>r. r\<lparr>bh_length := 0\<rparr>) m else m)"
  have m1: "conn_rep k bs m1" "port_at m1 = port_at m" "pool_buffer (id_pool k) (bufs m1 b)" "same_graph m m1"
    using assms(1,3) conn_rep_buf [OF assms(1,2)] by (simp_all add: m1_def pool_buffer_def)
  define m2 where "m2 = upd_port p (with_count (n + 1)) m1"
  have inc: "IN_TRANSIT_INCREMENT p m1 = Some m2"
    using increment_counted [of n m1 p] c assms(6) m1(2) by (simp add: m2_def)
  have m2: "conn_rep k bs m2" "pool_buffer (id_pool k) (bufs m2 b)" "same_graph m1 m2" using m1 by (simp_all add: m2_def)
  note p3 = conn_rep_put [OF m2(1) assms(2) m2(2), of pl]
  note f3 = put_at_frame [where pl = pl, OF m2(1) assms(2)]
  define m3 where "m3 = snd (mmal_component_action_trigger (pt_component (port_at m2 p)) (put_at k pl b m2))"
  define m4 where "m4 = mmal_port_update_port_stats ops p MMAL_CORE_STATS_RX m3"
  have "f_send ops fn p b m2 = Some (MMAL_SUCCESS, m3)" by (simp add: send_law put m3_def)
  then have send: "mmal_port_send_buffer ops (Some p) b m = Some (MMAL_SUCCESS, m4)" using assms(4) c inc
    by (simp add: mmal_port_send_buffer_def m1_def [symmetric] m1(2) m4_def m2_def with_count_def)
  have "conn_rep k (bs(pl := bs pl @ [b])) m4"
    using p3(1) by (simp add: m4_def mmal_port_update_port_stats_def m3_def mmal_component_action_trigger_def Let_def)
  moreover have "same_graph m m4"
  proof -
    have "same_graph (put_at k pl b m2) m3" by (simp add: m3_def mmal_component_action_trigger_def)
    moreover have "same_graph m3 m4" by (simp add: m4_def mmal_port_update_port_stats_def Let_def)
    ultimately show ?thesis using m1(4) m2(3) f3(1) by (blast intro: same_graph_trans)
  qed
  moreover have "\<exists>s. port_at m4 = (port_at m)(p := (with_count (n + 1) (port_at m p))\<lparr>stats_rx := s\<rparr>)"
  proof -
    have "port_at m3 = port_at m2" using p3(2) by (simp add: m3_def mmal_component_action_trigger_def)
    then show ?thesis using m1(2) by (auto simp: m4_def mmal_port_update_port_stats_def m2_def Let_def)
  qed
  then obtain s where s: "port_at m4 = (port_at m)(p := (with_count (n + 1) (port_at m p))\<lparr>stats_rx := s\<rparr>)" by blast
  moreover have "accepting fn (n + 1) ((with_count (n + 1) (port_at m p))\<lparr>stats_rx := s\<rparr>)"
    using assms(5) by (intro accepting_stats accepting_count)
  moreover have "conn_rep k' bs' m4" if ap: "conn_apart k k'" "conn_rep k' bs' m" "away (bs pl @ [b]) bs'" for k' bs'
  proof -
    have "\<And>pl'. b \<notin> set (bs' pl')" using ap(3) by (auto simp: away_def)
    then have "conn_rep k' bs' m2" using ap(2) conn_rep_buf [of k' bs' m b] by (simp add: m2_def m1_def)
    from f3(2) [OF ap(1) this ap(3)] show ?thesis
      by (simp add: m4_def mmal_port_update_port_stats_def m3_def mmal_component_action_trigger_def Let_def)
  qed
  ultimately show thesis using send by (intro that) blast+
qed

text \<open>One buffer that goes to the next port.\<close>

lemma moves_one:
  assumes rep: "graph_rep fn ks bs m" and k: "k \<in> set ks" and src: "pl \<in> {InPool, InQueue}" and b: "bs k pl = b # xs"
  obtains m1 m2 where "get_at k pl m = Some (Some b, m1)" and "user_of m1 = user_of m"
    and "cn_in (conn_at m1 (id_conn k)) = id_in k" and "bh_cmd (bufs m1 b) = 0"
    and "mmal_port_send_buffer ops (Some (next_port k pl)) b m1 = Some (MMAL_SUCCESS, m2)"
    and "graph_rep fn ks (bs(k := shift_one pl (bs k))) m2" and "same_graph m m2"
proof -
  let ?dst = "next_place pl" and ?p = "next_port k pl" and ?bs = "(bs k)(pl := xs)"
  have gk: "graph_conn fn k (bs k) m" using rep k by (simp add: graph_rep_def)
  have ck: "conn_rep k (bs k) m" using gk by (simp add: graph_conn_def)
  obtain m1 where m1: "get_at k pl m = Some (Some b, m1)" "conn_rep k ?bs m1" "port_at m1 = port_at m"
    "bufs m1 = bufs m" "\<And>pl'. b \<notin> set (?bs pl')" "pool_buffer (id_pool k) (bufs m b)"
    using conn_rep_get [where bs = "bs k", OF ck b] by metis
  have g1: "same_graph m m1" by (rule get_frame [OF m1(1)])
  have dst: "?dst \<noteq> pl" "?dst = AtInput \<and> ?p = id_in k \<and> pl = InQueue \<or> ?dst = AtOutput \<and> ?p = id_out k \<and> pl = InPool" using src by auto
  have inb: "b \<in># all_buffers (bs k)" using b by (auto simp: set_all_buffers intro!: exI [of _ pl])
  have data: "bh_data (bufs m1 b) \<noteq> None" "bh_cmd (bufs m b) = 0" using gk inb m1(4) by (auto simp: graph_conn_def)
  have acc: "accepting fn (length (?bs ?dst)) (port_at m1 ?p)" using gk dst m1(3) by (auto simp: graph_conn_def)
  have one: "all_buffers (shift_one pl (bs k)) = all_buffers (bs k)" by (rule all_buffers_shift_one [where bs = "bs k", OF b src])
  have n: "length (?bs ?dst) + 1 < 2 ^ 31"
  proof -
    have "length (?bs ?dst) + 1 \<le> size (all_buffers (bs k))" using b dst by (auto simp: all_buffers_def)
    then show ?thesis using gk by (simp add: graph_conn_def)
  qed
  have put: "module_put ?p b m = put_at k ?dst b m" for m :: "'v gworld" using src put_places by auto
  obtain m2 r where m2: "mmal_port_send_buffer ops (Some ?p) b m1 = Some (MMAL_SUCCESS, m2)"
    "conn_rep k (?bs(?dst := ?bs ?dst @ [b])) m2" "same_graph m1 m2" "port_at m2 = (port_at m1)(?p := r)"
    "accepting fn (length (?bs ?dst) + 1) r"
    "\<And>k' bs'. conn_apart k k' \<Longrightarrow> conn_rep k' bs' m1 \<Longrightarrow> away (?bs ?dst @ [b]) bs' \<Longrightarrow> conn_rep k' bs' m2"
    using send_accepted [OF m1(2) m1(5) m1(6) [folded m1(4)] data(1) acc n put] by metis
  have io: "id_in k \<noteq> id_out k" using ck by (simp add: conn_rep_def conn_fixed_def)
  have g2: "same_graph m m2" using g1 m2(3) by (rule same_graph_trans)
  have step: "shift_one pl (bs k) = ?bs(?dst := ?bs ?dst @ [b])" by (rule shift_one_step [where bs = "bs k", OF b src])
  have "graph_rep fn ks (bs(k := shift_one pl (bs k))) m2"
  proof (rule graph_rep_update [OF rep k _ one])
    show "conn_rep k (shift_one pl (bs k)) m2" using m2(2) by (simp only: step)
    have "accepting fn (length (shift_one pl (bs k) AtInput)) (port_at m2 (id_in k))
        \<and> accepting fn (length (shift_one pl (bs k) AtOutput)) (port_at m2 (id_out k))"
      using dst(2)
    proof (elim disjE conjE)
      assume "?dst = AtInput" "?p = id_in k" "pl = InQueue"
      then show ?thesis using gk m2(4,5) m1(3) io by (simp add: shift_one_def graph_conn_def)
    next
      assume "?dst = AtOutput" "?p = id_out k" "pl = InPool"
      then show ?thesis using gk m2(4,5) m1(3) io by (simp add: shift_one_def graph_conn_def)
    qed
    then show "accepting fn (length (shift_one pl (bs k) AtInput)) (port_at m2 (id_in k))"
      "accepting fn (length (shift_one pl (bs k) AtOutput)) (port_at m2 (id_out k))" by simp_all
    have "?p \<in> {id_in k, id_out k}" using dst(2) by blast
    then show "port_at m2 q = port_at m q" if "q \<notin> {id_in k, id_out k}" for q using that m2(4) m1(3) by auto
    show "conn_rep k' bs2 m2" if "conn_apart k k'" "conn_rep k' bs2 m" "\<And>pl. set (bs2 pl) \<inter> set_mset (all_buffers (bs k)) = {}" for k' bs2
    proof -
      have "set (?bs ?dst @ [b]) \<subseteq> set_mset (all_buffers (bs k))" using inb dst(1) by (auto simp: set_all_buffers)
      then have "away (?bs ?dst @ [b]) bs2" using that(3) unfolding away_def by blast
      then show ?thesis using m2(6) [OF that(1)] get_frame(2) [OF m1(1) that(1,2)] by blast
    qed
    show "bh_cmd (bufs m2 a) = bh_cmd (bufs m a) \<and> bh_data (bufs m2 a) = bh_data (bufs m a)" for a
      using g2 by (simp add: same_graph_def)
  qed
  moreover have "user_of m1 = user_of m" using g1 by (simp add: same_graph_def)
  moreover have "cn_in (conn_at m1 (id_conn k)) = id_in k" using m1(2) by (simp add: conn_rep_def conn_fixed_def)
  moreover have "bh_cmd (bufs m1 b) = 0" using data(2) m1(4) by simp
  ultimately show thesis using m1(1) m2(1) g2 by (intro that)
qed

lemma send_empty_moves:
  assumes "graph_rep fn ks bs m" and "k \<in> set ks"
  shows "\<exists>m'. send_empty ops (id_pool k) (id_out k) again m = Some (again \<or> bs k InPool \<noteq> [], m')
    \<and> graph_rep fn ks (bs(k := shift InPool (bs k))) m' \<and> same_graph m m'"
  using assms
proof (induction "bs k InPool" arbitrary: bs again m)
  case Nil
  obtain m' where "get_at k InPool m = Some (None, m')" "graph_rep fn ks bs m'" "same_graph m m'"
    using graph_rep_get_nil [where pl = InPool and bs = bs, OF Nil(2,3)] Nil(1) by metis
  then show ?case using Nil(1) by (subst send_empty.simps) (simp add: get_places shift_nil)
next
  case (Cons b xs)
  obtain m1 m2 where m: "get_at k InPool m = Some (Some b, m1)"
    "mmal_port_send_buffer ops (Some (id_out k)) b m1 = Some (MMAL_SUCCESS, m2)"
    "graph_rep fn ks (bs(k := shift_one InPool (bs k))) m2" "same_graph m m2"
    using moves_one [where pl = InPool and bs = bs and b = b and xs = xs, OF Cons(3,4)] Cons(2) by (metis insertI1 next_port.simps(1))
  have "xs = (bs(k := shift_one InPool (bs k))) k InPool" using Cons(2) by (simp add: shift_one_def) (metis list.sel(3))
  from Cons(1) [OF this m(3) Cons(4), of True] obtain m' where
    m': "send_empty ops (id_pool k) (id_out k) True m2 = Some (True, m')"
      "graph_rep fn ks (bs(k := shift InPool (shift_one InPool (bs k)))) m'" "same_graph m2 m'" by auto
  have "bs k InPool \<noteq> []" using Cons(2) by auto
  then have "shift InPool (shift_one InPool (bs k)) = shift InPool (bs k)" by (intro shift_shift_one) simp_all
  then show ?case using m(1,2) m' \<open>bs k InPool \<noteq> []\<close> same_graph_trans [OF m(4) m'(3)]
    by (subst send_empty.simps) (simp add: get_places)
qed

lemma send_all_empty_moves:
  assumes "graph_rep fn ks bs m" and "set ks' \<subseteq> set ks"
  shows "\<exists>m'. send_all_empty ops (map id_conn ks') again m = Some (again \<or> (\<exists>k\<in>set ks'. bs k InPool \<noteq> []), m')
    \<and> graph_rep fn ks (shift_all InPool (set ks') bs) m' \<and> same_graph m m'"
  using assms
proof (induction ks' arbitrary: bs again m)
  case Nil
  then show ?case by simp
next
  case (Cons k ks')
  have k: "k \<in> set ks" and sub: "set ks' \<subseteq> set ks" using Cons(3) by simp_all
  obtain m1 where m1: "send_empty ops (id_pool k) (id_out k) again m = Some (again \<or> bs k InPool \<noteq> [], m1)"
    "graph_rep fn ks (bs(k := shift InPool (bs k))) m1" "same_graph m m1"
    using send_empty_moves [OF Cons(2) k] by blast
  obtain m2 where m2: "send_all_empty ops (map id_conn ks') (again \<or> bs k InPool \<noteq> []) m1
      = Some ((again \<or> bs k InPool \<noteq> []) \<or> (\<exists>k'\<in>set ks'. (bs(k := shift InPool (bs k))) k' InPool \<noteq> []), m2)"
    "graph_rep fn ks (shift_all InPool (set ks') (bs(k := shift InPool (bs k)))) m2" "same_graph m1 m2"
    using Cons(1) [OF m1(2) sub] by blast
  have again: "((again \<or> bs k InPool \<noteq> []) \<or> (\<exists>k'\<in>set ks'. (bs(k := shift InPool (bs k))) k' InPool \<noteq> []))
      = (again \<or> (\<exists>k\<in>set (k # ks'). bs k InPool \<noteq> []))"
    using shift_again(2) [of InPool "bs k"] by auto
  have "shift_all InPool (set ks') (bs(k := shift InPool (bs k))) = shift_all InPool (set (k # ks')) bs"
    by (simp add: shift_all_step)
  then show ?case using m1(1) m2 again graph_rep_fixed [OF Cons(2) k] same_graph_trans [OF m1(3) m2(3)] by simp
qed

lemma forward_queue_moves:
  assumes "graph_rep fn ks bs m" and "k \<in> set ks" and "gf_connection_buffer (graph_at m g) = None"
    and quick: "\<And>m m'. getmicrosecs64 gc m' - getmicrosecs64 gc m < PROCESSING_TIME_MAX"
  shows "\<exists>m'. forward_queue gc ops g (id_conn k) (getmicrosecs64 gc m0) again m = Some (again \<or> bs k InQueue \<noteq> [], m')
    \<and> graph_rep fn ks (bs(k := shift InQueue (bs k))) m' \<and> same_graph m m'"
  using assms(1-3)
proof (induction "bs k InQueue" arbitrary: bs again m)
  case Nil
  obtain m' where "get_at k InQueue m = Some (None, m')" "graph_rep fn ks bs m'" "same_graph m m'"
    using graph_rep_get_nil [where pl = InQueue and bs = bs, OF Nil(2,3)] Nil(1) by metis
  then show ?case using Nil(1) quick by (subst forward_queue.simps) (simp add: get_places shift_nil)
next
  case (Cons b xs)
  obtain m1 m2 where m: "get_at k InQueue m = Some (Some b, m1)" "user_of m1 = user_of m"
    "cn_in (conn_at m1 (id_conn k)) = id_in k" "bh_cmd (bufs m1 b) = 0"
    "mmal_port_send_buffer ops (Some (id_in k)) b m1 = Some (MMAL_SUCCESS, m2)"
    "graph_rep fn ks (bs(k := shift_one InQueue (bs k))) m2" "same_graph m m2"
    using moves_one [where pl = InQueue and bs = bs and b = b and xs = xs, OF Cons(3,4)] Cons(2)
    by (metis insertI1 insertI2 next_port.simps(2))
  have p: "graph_process_buffer gc ops g (id_conn k) b m1 = Some m2"
    using m(2-5) Cons(5) by (simp add: graph_process_buffer_def graph_forward_buffer_def graph_at_def)
  have u: "gf_connection_buffer (graph_at m2 g) = None" using Cons(5) m(7) by (simp add: same_graph_def graph_at_def)
  have "xs = (bs(k := shift_one InQueue (bs k))) k InQueue" using Cons(2) by (simp add: shift_one_def) (metis list.sel(3))
  from Cons(1) [OF this m(6) Cons(4) u, of True] obtain m' where
    m': "forward_queue gc ops g (id_conn k) (getmicrosecs64 gc m0) True m2 = Some (True, m')"
      "graph_rep fn ks (bs(k := shift InQueue (shift_one InQueue (bs k)))) m'" "same_graph m2 m'" by auto
  have ne: "bs k InQueue \<noteq> []" using Cons(2) by auto
  then have "shift InQueue (shift_one InQueue (bs k)) = shift InQueue (bs k)" by (intro shift_shift_one) simp_all
  then show ?case using m(1) p m' ne same_graph_trans [OF m(7) m'(3)] quick
    by (subst forward_queue.simps) (simp add: get_places)
qed

lemma forward_queues_moves:
  assumes "graph_rep fn ks bs m" and "set ks' \<subseteq> set ks" and "gf_connection_buffer (graph_at m g) = None"
    and quick: "\<And>m m'. getmicrosecs64 gc m' - getmicrosecs64 gc m < PROCESSING_TIME_MAX"
  shows "\<exists>m'. forward_queues gc ops g (map id_conn ks') again m
      = Some (again \<or> (\<exists>k\<in>set ks' - Collect (direct m). bs k InQueue \<noteq> []), m')
    \<and> graph_rep fn ks (shift_all InQueue (set ks' - Collect (direct m)) bs) m' \<and> same_graph m m'"
  using assms(1-3)
proof (induction ks' arbitrary: bs again m)
  case Nil
  then show ?case by simp
next
  case (Cons k ks')
  have k: "k \<in> set ks" and sub: "set ks' \<subseteq> set ks" using Cons(3) by simp_all
  show ?case
  proof (cases "direct m k")
    case True
    then have "set (k # ks') - Collect (direct m) = set ks' - Collect (direct m)" by auto
    moreover obtain m2 where "forward_queues gc ops g (map id_conn ks') again m
        = Some (again \<or> (\<exists>k\<in>set ks' - Collect (direct m). bs k InQueue \<noteq> []), m2)"
      "graph_rep fn ks (shift_all InQueue (set ks' - Collect (direct m)) bs) m2" "same_graph m m2"
      using Cons(1) [OF Cons(2) sub Cons(4)] by blast
    ultimately show ?thesis using True [unfolded direct_def] by simp
  next
    case False
    obtain m1 where m1: "forward_queue gc ops g (id_conn k) (getmicrosecs64 gc m) again m = Some (again \<or> bs k InQueue \<noteq> [], m1)"
      "graph_rep fn ks (bs(k := shift InQueue (bs k))) m1" "same_graph m m1"
      using forward_queue_moves [OF Cons(2) k Cons(4) quick] by blast
    have u: "gf_connection_buffer (graph_at m1 g) = None" using Cons(4) m1(3) by (simp add: same_graph_def graph_at_def)
    note d = same_graph_direct [OF m1(3)]
    obtain m2 where m2: "forward_queues gc ops g (map id_conn ks') (again \<or> bs k InQueue \<noteq> []) m1
        = Some ((again \<or> bs k InQueue \<noteq> []) \<or> (\<exists>k'\<in>set ks' - Collect (direct m). (bs(k := shift InQueue (bs k))) k' InQueue \<noteq> []), m2)"
      "graph_rep fn ks (shift_all InQueue (set ks' - Collect (direct m)) (bs(k := shift InQueue (bs k)))) m2" "same_graph m1 m2"
      using Cons(1) [OF m1(2) sub u] unfolding d by blast
    have set: "set (k # ks') - Collect (direct m) = insert k (set ks' - Collect (direct m))" using False by auto
    have again: "((again \<or> bs k InQueue \<noteq> []) \<or> (\<exists>k'\<in>set ks' - Collect (direct m). (bs(k := shift InQueue (bs k))) k' InQueue \<noteq> []))
        = (again \<or> (\<exists>k\<in>set (k # ks') - Collect (direct m). bs k InQueue \<noteq> []))"
      using shift_again(2) [of InQueue "bs k"] unfolding set by auto
    have "shift_all InQueue (set ks' - Collect (direct m)) (bs(k := shift InQueue (bs k)))
        = shift_all InQueue (set (k # ks') - Collect (direct m)) bs"
      unfolding set by (simp add: shift_all_step)
    moreover have "cn_flags (conn_at m (id_conn k)) AND MMAL_CONNECTION_FLAG_DIRECT = 0" using False by (simp add: direct_def)
    ultimately show ?thesis
      using m1(1) m2 again graph_rep_fixed(4) [OF Cons(2) k] same_graph_trans [OF m1(3) m2(3)] by simp
  qed
qed

lemma pass_moves:
  assumes rep: "graph_rep fn ks bs m" and g: "g_connection (graph_at m g) = map id_conn ks"
    and u: "gf_connection_buffer (graph_at m g) = None" and cur: "unat (connection_current (graph_at m g)) + length ks < 2 ^ 32"
    and quick: "\<And>m m'. getmicrosecs64 gc m' - getmicrosecs64 gc m < PROCESSING_TIME_MAX"
  shows "\<exists>m'. graph_do_processing gc ops g m = Some (waiting m ks bs, m') \<and> graph_rep fn ks (delivered m ks bs) m'
    \<and> same_graph (upd_graph g (\<lambda>r. r\<lparr>connection_current := connection_current r + 1\<rparr>) m) m'"
proof -
  obtain ks' where ks': "visiting_order (connection_current (graph_at m g)) (map id_conn ks) = map id_conn ks'" "set ks' = set ks"
    using visiting_order_all [OF cur] by blast
  obtain m1 where m1: "send_all_empty ops (map id_conn ks') False m = Some (\<exists>k\<in>set ks. bs k InPool \<noteq> [], m1)"
    "graph_rep fn ks (shift_all InPool (set ks) bs) m1" "same_graph m m1"
    using send_all_empty_moves [OF rep, of ks' False] unfolding ks'(2) by auto
  define m2 where "m2 = upd_graph g (\<lambda>r. r\<lparr>connection_current := connection_current r + 1\<rparr>) m1"
  have r2: "graph_rep fn ks (shift_all InPool (set ks) bs) m2" using m1(2) by (simp add: m2_def)
  have g1: "graph_at m1 = graph_at m" by (rule same_graph_at [OF m1(3)])
  have u2: "gf_connection_buffer (graph_at m2 g) = None" using u by (simp add: m2_def g1)
  have d2: "direct m2 = direct m" by (simp add: m2_def same_graph_direct [OF m1(3)])
  have q: "(\<exists>k\<in>set ks - Collect (direct m). shift_all InPool (set ks) bs k InQueue \<noteq> [])
      = (\<exists>k\<in>set ks - Collect (direct m). bs k InQueue \<noteq> [])"
    by (simp add: shift_all_def shift_def)
  obtain m3 where m3: "forward_queues gc ops g (map id_conn ks') (\<exists>k\<in>set ks. bs k InPool \<noteq> []) m2 = Some (waiting m ks bs, m3)"
    "graph_rep fn ks (delivered m ks bs) m3" "same_graph m2 m3"
    using forward_queues_moves [OF r2 _ u2 quick, of ks' "\<exists>k\<in>set ks. bs k InPool \<noteq> []"]
    unfolding d2 ks'(2) q waiting_def [symmetric] delivered_def [symmetric] by blast
  have "same_graph (upd_graph g (\<lambda>r. r\<lparr>connection_current := connection_current r + 1\<rparr>) m) m2"
    using m1(3) by (simp add: m2_def same_graph_def upd_graph_def upd_graph_env_def) (simp add: user_of_def conn_at_def)
  then have "same_graph (upd_graph g (\<lambda>r. r\<lparr>connection_current := connection_current r + 1\<rparr>) m) m3"
    using m3(3) by (rule same_graph_trans)
  moreover have "graph_do_processing gc ops g m = Some (waiting m ks bs, m3)"
    using m1(1) m3(1) by (simp add: graph_do_processing_def g g1 ks'(1) m2_def [symmetric] Let_def)
  ultimately show ?thesis using m3(2) by blast
qed

lemma loop_moves:
  assumes rep: "graph_rep fn ks bs m" and g: "g_connection (graph_at m g) = map id_conn ks"
    and u: "gf_connection_buffer (graph_at m g) = None" and cur: "unat (connection_current (graph_at m g)) + length ks + 1 < 2 ^ 32"
    and quick: "\<And>m m'. getmicrosecs64 gc m' - getmicrosecs64 gc m < PROCESSING_TIME_MAX"
  shows "\<exists>m'. graph_processing_loop gc ops g m = Some m' \<and> graph_rep fn ks (delivered m ks bs) m'
    \<and> graph_at m' = (graph_at m)(g := (graph_at m g)\<lparr>connection_current :=
        connection_current (graph_at m g) + (if waiting m ks bs then 2 else 1)\<rparr>)"
proof -
  obtain m1 where m1: "graph_do_processing gc ops g m = Some (waiting m ks bs, m1)" "graph_rep fn ks (delivered m ks bs) m1"
    "same_graph (upd_graph g (\<lambda>r. r\<lparr>connection_current := connection_current r + 1\<rparr>) m) m1"
    using pass_moves [OF rep g u _ quick] cur by auto
  have g1: "graph_at m1 = (graph_at m)(g := (graph_at m g)\<lparr>connection_current := connection_current (graph_at m g) + 1\<rparr>)"
    using same_graph_at [OF m1(3)] by simp
  show ?thesis
  proof (cases "waiting m ks bs")
    case False
    then show ?thesis using m1 g1 by (subst graph_processing_loop.simps) simp
  next
    case True
    have d: "direct m1 = direct m" using same_graph_direct [OF m1(3)] by simp
    have gu: "g_connection (graph_at m1 g) = map id_conn ks" "gf_connection_buffer (graph_at m1 g) = None" using g u by (simp_all add: g1)
    have c1: "unat (connection_current (graph_at m1 g)) + length ks < 2 ^ 32"
    proof -
      have "unat (connection_current (graph_at m g) + 1) = unat (connection_current (graph_at m g)) + 1"
        using cur by (subst unat_add_lem [THEN iffD1]) simp_all
      then show ?thesis using cur by (simp add: g1)
    qed
    have del: "delivered m1 ks = delivered m ks" "waiting m1 ks = waiting m ks"
      by (simp_all add: delivered_def waiting_def fun_eq_iff d)
    obtain m2 where m2: "graph_do_processing gc ops g m1 = Some (False, m2)" "graph_rep fn ks (delivered m ks bs) m2"
      "same_graph (upd_graph g (\<lambda>r. r\<lparr>connection_current := connection_current r + 1\<rparr>) m1) m2"
      using pass_moves [OF m1(2) gu c1 quick] delivered_again(2) [of m ks bs] unfolding del delivered_again(1) by auto
    have "graph_at m2 = (graph_at m)(g := (graph_at m g)\<lparr>connection_current := connection_current (graph_at m g) + 2\<rparr>)"
      using same_graph_at [OF m2(3)] by (simp add: g1) (simp add: add.commute)
    moreover have "graph_processing_loop gc ops g m = Some m2"
      using m1(1) m2(1) True by (subst graph_processing_loop.simps, simp, subst graph_processing_loop.simps, simp)
    ultimately show ?thesis using m2(2) True by auto
  qed
qed

lemma worker_moves:
  assumes rep: "graph_rep fn ks bs m" and g: "g_connection (graph_at m g) = map id_conn ks"
    and u: "gf_connection_buffer (graph_at m g) = None" and cur: "unat (connection_current (graph_at m g)) + length ks + 1 < 2 ^ 32"
    and run: "g_thread (graph_at m g) = Running" "\<not> stop_thread (graph_at m g)" "0 < g_sema (graph_at m g)"
    and quick: "\<And>m m'. getmicrosecs64 gc m' - getmicrosecs64 gc m < PROCESSING_TIME_MAX"
  shows "\<exists>m'. graph_worker_thread gc ops g m = Some (Woke m') \<and> graph_rep fn ks (delivered m ks bs) m'
    \<and> graph_at m' = (graph_at m)(g := (graph_at m g)\<lparr>g_sema := g_sema (graph_at m g) - 1,
        connection_current := connection_current (graph_at m g) + (if waiting m ks bs then 2 else 1)\<rparr>)"
proof -
  define m0 where "m0 = upd_graph g (\<lambda>r. r\<lparr>g_sema := g_sema r - 1\<rparr>) m"
  have r0: "graph_rep fn ks bs m0" using rep by (simp add: m0_def)
  have d: "delivered m0 ks = delivered m ks" "waiting m0 ks = waiting m ks"
    by (simp_all add: delivered_def waiting_def fun_eq_iff m0_def)
  obtain m' where "graph_processing_loop gc ops g m0 = Some m'" "graph_rep fn ks (delivered m ks bs) m'"
    "graph_at m' = (graph_at m0)(g := (graph_at m0 g)\<lparr>connection_current :=
        connection_current (graph_at m0 g) + (if waiting m ks bs then 2 else 1)\<rparr>)"
    using loop_moves [OF r0, of g gc] g u cur quick unfolding d by (auto simp: m0_def)
  then show ?thesis using run by (intro exI [of _ m']) (simp add: graph_worker_thread_def m0_def)
qed

end

text \<open>A component gives the first buffer at its output port back: through \<open>cops\<close> to the connection, whose callback is the graph's.\<close>

definition gives_back :: "'u conn_ops \<Rightarrow> conn_ids \<Rightarrow> u32 \<Rightarrow> int \<Rightarrow> 'u cworld \<Rightarrow> 'u cworld option" where
  "gives_back cops k n t m = do {
     (buffer, m) \<leftarrow> module_get (id_out k) m;
     b \<leftarrow> buffer;
     mmal_port_buffer_header_callback cops (id_out k) b (upd_buf b (\<lambda>r. r\<lparr>bh_length := n, bh_pts := t\<rparr>) m)
   }"

definition calls_graph :: "conn_ids \<Rightarrow> addr \<Rightarrow> 'v gworld \<Rightarrow> bool" where
  "calls_graph k g m \<longleftrightarrow> buffer_header_callback (port_at m (id_out k)) = Some (ClientCb conn_out_fn)
     \<and> cn_callback (conn_at m (id_conn k)) = Some graph_connection_fn \<and> cn_user_data (user_of m) (id_conn k) = Some g"

locale graph_module = queueing_module ops fn for ops :: "'v graph_port_ops" and fn :: nat +
  fixes cops :: "'v graph_port_ops" and gc :: "'v graph_client" and cbs :: "'v graph_env conn_callbacks"
  assumes out_law: "f_client_cb cops conn_out_fn p b m = mmal_connection_bh_out_cb (graph_conn_callbacks gc ops cbs) p b m"
begin

lemma given_back:
  assumes rep: "graph_rep fn ks bs m" and k: "k \<in> set ks" and b: "bs k AtOutput = b # xs" and cb: "calls_graph k g m"
  obtains m0 where "conn_rep k ((bs k)(AtOutput := xs, InQueue := bs k InQueue @ [b])) m0" and "port_at m0 = port_at m"
    and "same_graph m m0" and "bh_cmd (bufs m0 b) = 0" and "bh_data (bufs m0 b) \<noteq> None"
    and "\<And>k' bs2. conn_apart k k' \<Longrightarrow> conn_rep k' bs2 m \<Longrightarrow>
      (\<And>pl. set (bs2 pl) \<inter> set_mset (all_buffers (bs k)) = {}) \<Longrightarrow> conn_rep k' bs2 m0"
    and "gives_back cops k n t m = map_option (IN_TRANSIT_DECREMENT (id_out k)) (graph_connection_cb gc ops (id_conn k) m0)"
proof -
  let ?bs = "(bs k)(AtOutput := xs)"
  have gk: "graph_conn fn k (bs k) m" using rep k by (simp add: graph_rep_def)
  have ck: "conn_rep k (bs k) m" using gk by (simp add: graph_conn_def)
  obtain m1 where m1: "get_at k AtOutput m = Some (Some b, m1)" "conn_rep k ?bs m1" "port_at m1 = port_at m"
    "bufs m1 = bufs m" "same_setup m m1" "\<And>pl'. b \<notin> set (?bs pl')" "pool_buffer (id_pool k) (bufs m b)"
    using conn_rep_get [where bs = "bs k", OF ck b] by metis
  note f1 = get_frame [OF m1(1)]
  define mL where "mL = upd_buf b (\<lambda>r. r\<lparr>bh_length := n, bh_pts := t\<rparr>) m1"
  have cL: "conn_rep k ?bs mL" unfolding mL_def by (rule conn_rep_buf [where bs = ?bs, OF m1(2,6)])
  have pL: "pool_buffer (id_pool k) (bufs mL b)" using m1(4,7) by (simp add: mL_def pool_buffer_def)
  define m0 where "m0 = put_at k InQueue b mL"
  note put = conn_rep_put [where bs = ?bs, OF cL m1(6) pL, where pl = InQueue, folded m0_def]
  note f0 = put_at_frame [where bs = ?bs and pl = InQueue, OF cL m1(6), folded m0_def]
  have inb: "b \<in># all_buffers (bs k)" using b by (auto simp: set_all_buffers intro!: exI [of _ AtOutput])
  have gL: "same_graph m mL" using f1(1) by (simp add: mL_def same_graph_def)
  have g0: "same_graph m m0" using gL f0(1) by (rule same_graph_trans)
  have "?bs(InQueue := ?bs InQueue @ [b]) = (bs k)(AtOutput := xs, InQueue := bs k InQueue @ [b])" by simp
  then have c0: "conn_rep k ((bs k)(AtOutput := xs, InQueue := bs k InQueue @ [b])) m0" using put(1) by metis
  have p0: "port_at m0 = port_at m" using put(2) m1(3) by (simp add: mL_def)
  have o0: "conn_rep k' bs2 m0" if "conn_apart k k'" "conn_rep k' bs2 m" "\<And>pl. set (bs2 pl) \<inter> set_mset (all_buffers (bs k)) = {}" for k' bs2
  proof -
    have "b \<notin> set (bs2 pl)" for pl using inb that(3) [of pl] by blast
    then have "conn_rep k' bs2 mL" unfolding mL_def by (intro conn_rep_buf [OF f1(2) [OF that(1,2)]])
    moreover have "set (?bs InQueue @ [b]) \<subseteq> set_mset (all_buffers (bs k))" using inb by (auto simp: set_all_buffers)
    then have "away (?bs InQueue @ [b]) bs2" using that(3) unfolding away_def by blast
    ultimately show ?thesis using f0(2) [OF that(1)] by blast
  qed
  have "userdata_at mL (id_out k) = Some (id_conn k)" using cL by (simp add: conn_rep_def conn_fixed_def)
  moreover have "cn_callback (conn_at m0 (id_conn k)) = Some graph_connection_fn"
    using cb m1(5) put(4) by (simp add: calls_graph_def same_setup_def mL_def)
  ultimately have "f_client_cb cops conn_out_fn (id_out k) b mL = graph_connection_cb gc ops (id_conn k) m0"
    by (simp add: out_law mmal_connection_bh_out_cb_def put_places m0_def conn_signal_def graph_conn_callbacks_def)
  moreover have "buffer_header_callback (port_at m1 (id_out k)) = Some (ClientCb conn_out_fn)"
    using cb m1(3) by (simp add: calls_graph_def)
  ultimately have "gives_back cops k n t m = map_option (IN_TRANSIT_DECREMENT (id_out k)) (graph_connection_cb gc ops (id_conn k) m0)"
    using m1(1) by (simp add: gives_back_def get_places mL_def [symmetric] mmal_port_buffer_header_callback_def
        MMAL_COLLECT_PORT_STATS_ENABLED_def map_conv_bind_option o_def)
  moreover have hdr: "bh_cmd (bufs m0 b) = 0" "bh_data (bufs m0 b) \<noteq> None"
    using gk inb g0 by (auto simp: graph_conn_def same_graph_def)
  ultimately show thesis by (intro that [OF c0 p0 g0 hdr]) (rule o0)
qed

lemma out_of_port:
  assumes "graph_rep fn ks bs m" and "k \<in> set ks" and "bs k AtOutput = b # xs"
  shows "accepting fn (length (bs k AtInput)) (port_at m (id_in k))" "counted (Suc (length xs)) (port_at m (id_out k))"
    "length xs < 2 ^ 31" "accepting fn (length xs) (with_count (length xs) (port_at m (id_out k)))" "id_in k \<noteq> id_out k"
proof -
  have c: "graph_conn fn k (bs k) m" using assms(1,2) by (simp add: graph_rep_def)
  then have out: "accepting fn (length (b # xs)) (port_at m (id_out k))" by (simp add: graph_conn_def assms(3))
  then show "counted (Suc (length xs)) (port_at m (id_out k))" by (simp add: accepting_def)
  show "accepting fn (length xs) (with_count (length xs) (port_at m (id_out k)))" using out by (rule accepting_count)
  have "length (bs k AtOutput) \<le> size (all_buffers (bs k))" by (simp add: all_buffers_def)
  then show "length xs < 2 ^ 31" using c assms(3) by (simp add: graph_conn_def)
  show "accepting fn (length (bs k AtInput)) (port_at m (id_in k))" "id_in k \<noteq> id_out k"
    using c by (simp_all add: graph_conn_def conn_rep_def conn_fixed_def)
qed

lemma signals_worker:
  assumes rep: "graph_rep fn ks bs m" and k: "k \<in> set ks" and b: "bs k AtOutput = b # xs" and cb: "calls_graph k g m"
    and nd: "cn_flags (conn_at m (id_conn k)) \<noteq> MMAL_CONNECTION_FLAG_DIRECT"
  shows "\<exists>m'. gives_back cops k n t m = Some m'
    \<and> graph_rep fn ks (bs(k := (bs k)(AtOutput := xs, InQueue := bs k InQueue @ [b]))) m' \<and> direct m' = direct m
    \<and> graph_at m' = (graph_at m)(g := (graph_at m g)\<lparr>g_sema := g_sema (graph_at m g) + 1\<rparr>)"
proof -
  let ?bs' = "(bs k)(AtOutput := xs, InQueue := bs k InQueue @ [b])"
  obtain m0 where m0: "conn_rep k ?bs' m0" "port_at m0 = port_at m" "same_graph m m0"
    "\<And>k' bs2. conn_apart k k' \<Longrightarrow> conn_rep k' bs2 m \<Longrightarrow>
      (\<And>pl. set (bs2 pl) \<inter> set_mset (all_buffers (bs k)) = {}) \<Longrightarrow> conn_rep k' bs2 m0"
    "gives_back cops k n t m = map_option (IN_TRANSIT_DECREMENT (id_out k)) (graph_connection_cb gc ops (id_conn k) m0)"
    using given_back [OF rep k b cb] by metis
  note o = out_of_port [OF rep k b]
  have cbm: "graph_connection_cb gc ops (id_conn k) m0 = Some (graph_post g m0)"
    using cb nd m0(3) by (simp add: graph_connection_cb_def direct_get_def calls_graph_def same_graph_def)
  define m2 where "m2 = upd_port (id_out k) (with_count (length xs)) (graph_post g m0)"
  have pp: "port_at (graph_post g m0) = port_at m" using m0(2) by (simp add: graph_post_def upd_graph_def upd_graph_env_def)
  have "gives_back cops k n t m = Some m2"
    using m0(5) cbm decrement_counted [of "length xs" "graph_post g m0" "id_out k"] o(2,3) by (simp add: pp m2_def)
  moreover have "graph_rep fn ks (bs(k := ?bs')) m2"
  proof (rule graph_rep_update [OF rep k])
    have keep: "conn_rep k' bs2 m2 = conn_rep k' bs2 m0" for k' bs2
      by (simp add: m2_def graph_post_def upd_graph_def upd_graph_env_def)
    show "conn_rep k ?bs' m2" unfolding keep by (rule m0(1))
    show "conn_rep k' bs2 m2" if "conn_apart k k'" "conn_rep k' bs2 m" "\<And>pl. set (bs2 pl) \<inter> set_mset (all_buffers (bs k)) = {}" for k' bs2
      unfolding keep using that by (rule m0(4))
    show "all_buffers ?bs' = all_buffers (bs k)" using b by (simp add: all_buffers_def)
    show "accepting fn (length (?bs' AtInput)) (port_at m2 (id_in k))" "accepting fn (length (?bs' AtOutput)) (port_at m2 (id_out k))"
      using o pp by (simp_all add: m2_def)
    show "port_at m2 q = port_at m q" if "q \<notin> {id_in k, id_out k}" for q using that pp by (simp add: m2_def)
    show "bh_cmd (bufs m2 a) = bh_cmd (bufs m a) \<and> bh_data (bufs m2 a) = bh_data (bufs m a)" for a
      using m0(3) by (simp add: same_graph_def m2_def graph_post_def upd_graph_def upd_graph_env_def)
  qed
  moreover have "direct m2 = direct m"
  proof -
    have "direct m2 = direct (graph_post g m0)" by (simp add: m2_def direct_def fun_eq_iff)
    then show ?thesis using same_graph_direct [OF m0(3)] by (simp add: graph_post_def)
  qed
  moreover have "graph_at m2 = (graph_at m)(g := (graph_at m g)\<lparr>g_sema := g_sema (graph_at m g) + 1\<rparr>)"
  proof -
    have "graph_at m2 = graph_at (graph_post g m0)" by (simp add: m2_def graph_at_def fun_eq_iff)
    then show ?thesis using same_graph_at [OF m0(3)] by (simp add: graph_post_def)
  qed
  ultimately show ?thesis by blast
qed

lemma forwards_directly:
  assumes rep: "graph_rep fn ks bs m" and k: "k \<in> set ks" and b: "bs k AtOutput = b # xs" and cb: "calls_graph k g m"
    and d: "cn_flags (conn_at m (id_conn k)) = MMAL_CONNECTION_FLAG_DIRECT" and q: "bs k InQueue = []"
    and u: "gf_connection_buffer (graph_at m g) = None"
  shows "\<exists>m'. gives_back cops k n t m = Some m'
    \<and> graph_rep fn ks (bs(k := (bs k)(AtOutput := xs, AtInput := bs k AtInput @ [b]))) m'"
proof -
  let ?bs0 = "(bs k)(AtOutput := xs, InQueue := bs k InQueue @ [b])"
  let ?bs' = "(bs k)(AtOutput := xs, AtInput := bs k AtInput @ [b])"
  obtain m0 where m0: "conn_rep k ?bs0 m0" "port_at m0 = port_at m" "same_graph m m0" "bh_cmd (bufs m0 b) = 0" "bh_data (bufs m0 b) \<noteq> None"
    "\<And>k' bs2. conn_apart k k' \<Longrightarrow> conn_rep k' bs2 m \<Longrightarrow>
      (\<And>pl. set (bs2 pl) \<inter> set_mset (all_buffers (bs k)) = {}) \<Longrightarrow> conn_rep k' bs2 m0"
    "gives_back cops k n t m = map_option (IN_TRANSIT_DECREMENT (id_out k)) (graph_connection_cb gc ops (id_conn k) m0)"
    using given_back [OF rep k b cb] by metis
  note o = out_of_port [OF rep k b]
  have "?bs0 InQueue = b # []" using q by simp
  then obtain m1 where m1: "get_at k InQueue m0 = Some (Some b, m1)" "conn_rep k (?bs0(InQueue := [])) m1" "port_at m1 = port_at m0"
    "bufs m1 = bufs m0" "\<And>pl'. b \<notin> set ((?bs0(InQueue := [])) pl')" "pool_buffer (id_pool k) (bufs m0 b)"
    using conn_rep_get [where bs = ?bs0, OF m0(1)] by metis
  note f1 = get_frame [OF m1(1)]
  have "bh_data (bufs m1 b) \<noteq> None" "pool_buffer (id_pool k) (bufs m1 b)" using m0(5) m1(4,6) by simp_all
  moreover have "accepting fn (length (bs k AtInput)) (port_at m1 (id_in k))" using o(1) m0(2) m1(3) by simp
  moreover have "length (bs k AtInput) + 1 < 2 ^ 31"
  proof -
    have "length (bs k AtInput) + 1 \<le> size (all_buffers (bs k))" using b by (simp add: all_buffers_def)
    then show ?thesis using rep k by (force simp: graph_rep_def graph_conn_def)
  qed
  ultimately obtain m2 r where m2: "mmal_port_send_buffer ops (Some (id_in k)) b m1 = Some (MMAL_SUCCESS, m2)"
    "conn_rep k ((?bs0(InQueue := []))(AtInput := (?bs0(InQueue := [])) AtInput @ [b])) m2" "same_graph m1 m2"
    "port_at m2 = (port_at m1)(id_in k := r)" "accepting fn (length (bs k AtInput) + 1) r"
    "\<And>k' bs'. conn_apart k k' \<Longrightarrow> conn_rep k' bs' m1 \<Longrightarrow> away ((?bs0(InQueue := [])) AtInput @ [b]) bs' \<Longrightarrow> conn_rep k' bs' m2"
    using send_accepted [where bs = "?bs0(InQueue := [])" and pl = AtInput, OF m1(2,5) _ _ _ _ put_places(3)] by metis
  have bs': "(?bs0(InQueue := []))(AtInput := (?bs0(InQueue := [])) AtInput @ [b]) = ?bs'" using q by (auto simp: fun_eq_iff)
  have g2: "same_graph m m2" using same_graph_trans [OF m0(3) f1(1)] m2(3) by (rule same_graph_trans)
  have "gf_connection_buffer (graph_at m1 g) = None" using u same_graph_at [OF m0(3)] same_graph_at [OF f1(1)] by simp
  moreover have "cn_in (conn_at m1 (id_conn k)) = id_in k" using m1(2) by (simp add: conn_rep_def conn_fixed_def)
  ultimately have "graph_process_buffer gc ops g (id_conn k) b m1 = Some m2"
    using m0(4) m1(4) m2(1) by (simp add: graph_process_buffer_def graph_forward_buffer_def)
  then have cbm: "graph_connection_cb gc ops (id_conn k) m0 = Some m2"
    using cb d m0(3) m1(1) by (simp add: graph_connection_cb_def direct_get_def calls_graph_def same_graph_def get_places)
  define m3 where "m3 = upd_port (id_out k) (with_count (length xs)) m2"
  have pp: "port_at m2 (id_out k) = port_at m (id_out k)" using o(5) m2(4) m1(3) m0(2) by simp
  have "gives_back cops k n t m = Some m3"
    using m0(7) cbm decrement_counted [of "length xs" m2 "id_out k"] o(2,3) by (simp add: pp m3_def)
  moreover have "graph_rep fn ks (bs(k := ?bs')) m3"
  proof (rule graph_rep_update [OF rep k])
    show "conn_rep k ?bs' m3" using m2(2) unfolding bs' m3_def conn_rep_port .
    show "all_buffers ?bs' = all_buffers (bs k)" using b by (simp add: all_buffers_def)
    show "accepting fn (length (?bs' AtInput)) (port_at m3 (id_in k))" "accepting fn (length (?bs' AtOutput)) (port_at m3 (id_out k))"
      using o(4,5) m2(4,5) pp by (simp_all add: m3_def)
    show "port_at m3 q = port_at m q" if "q \<notin> {id_in k, id_out k}" for q using that m2(4) m1(3) m0(2) by (simp add: m3_def)
    show "bh_cmd (bufs m3 a) = bh_cmd (bufs m a) \<and> bh_data (bufs m3 a) = bh_data (bufs m a)" for a
      using g2 by (simp add: same_graph_def m3_def)
    show "conn_rep k' bs2 m3" if h: "conn_apart k k'" "conn_rep k' bs2 m" "\<And>pl. set (bs2 pl) \<inter> set_mset (all_buffers (bs k)) = {}" for k' bs2
    proof -
      have "set (bs k AtInput @ [b]) \<subseteq> set_mset (all_buffers (bs k))" using b by (auto simp: all_buffers_def)
      then have "away ((?bs0(InQueue := [])) AtInput @ [b]) bs2" using h(3) unfolding away_def by fastforce
      then show ?thesis using m2(6) [OF h(1)] f1(2) [OF h(1) m0(6) [OF h]] by (simp add: m3_def)
    qed
  qed
  ultimately show ?thesis by blast
qed

end

interpretation graph_copy: queueing_module "copy_ops ops0" copy_fn for ops0 :: "'v graph_port_ops"
  by unfold_locales (simp add: copy_ops_def Let_def copy_port_send_def)

text \<open>The components call back through \<open>graph_callback_ops\<close>; the graph sends through \<open>copy_ops ops1\<close>.\<close>

definition graph_callback_ops ::
    "'v graph_client \<Rightarrow> 'v graph_port_ops \<Rightarrow> 'v graph_env conn_callbacks \<Rightarrow> 'v graph_port_ops \<Rightarrow> 'v graph_port_ops" where
  "graph_callback_ops gc ops1 cbs ops0 =
     copy_format_ops (passthrough_ops (connection_ops (graph_conn_callbacks gc (copy_ops ops1) cbs) ops0))"

interpretation graph_copy_client: graph_module "copy_ops ops1" copy_fn "graph_callback_ops gc ops1 cbs ops0" gc cbs
  for ops0 ops1 :: "'v graph_port_ops" and gc :: "'v graph_client" and cbs :: "'v graph_env conn_callbacks"
  by unfold_locales
    (simp add: graph_callback_ops_def copy_format_ops_def passthrough_ops_def connection_ops_def Let_def
      conn_out_fn_def conn_in_fn_def conn_clock_fn_def)

text \<open>A buffer that goes back to the front of the pool.\<close>

lemma conn_rep_put_back:
  assumes "conn_rep k bs m" and "\<And>pl'. b \<notin> set (bs pl')" and "pool_buffer (id_pool k) (bufs m b)"
  shows "conn_rep k (bs(InPool := b # bs InPool)) (pool_put_back (id_pool k) b m)" and "port_at (pool_put_back (id_pool k) b m) = port_at m"
proof -
  note r = assms(1) [unfolded conn_rep_def]
  have io: "id_in k \<noteq> id_out k" using r by (simp add: conn_fixed_def)
  obtain q where q: "place_queue k InPool m = Some q" "qrep (bufs m) q (bs InPool)" "q_sem q = length (bs InPool)" using r by blast
  obtain q' h where put: "queue_put_back q (bufs m) b = (q', h)" "qrep h q' (b # bs InPool)" "q_sem q' = q_sem q + 1"
    "same_bufs (- set (b # bs InPool)) (bufs m) h" "only_links (bufs m) h"
    using queue_put_back_qrep [OF q(2) assms(2)] by blast
  have p: "pool_put_back (id_pool k) b m = set_place k InPool (Some q') (m\<lparr>bufs := h\<rparr>)"
    using q(1) put(1) by (simp add: pool_put_back_def)
  have "\<exists>q. place_queue k pl' (set_place k InPool (Some q') (m\<lparr>bufs := h\<rparr>)) = Some q \<and> qrep h q ((bs(InPool := b # bs InPool)) pl')
      \<and> q_sem q = length ((bs(InPool := b # bs InPool)) pl')" for pl'
  proof (cases "pl' = InPool")
    case True
    then show ?thesis using put(2,3) q(3) by (simp add: place_queue_set [OF io] del: set_place.simps place_queue.simps)
  next
    case False
    then have "set (bs pl') \<inter> set (bs InPool) = {}" using r by blast
    then have "set (bs pl') \<subseteq> - set (b # bs InPool)" using assms(2) [of pl'] by auto
    then have f: "same_bufs (set (bs pl')) (bufs m) h" using put(4) by (auto simp: same_bufs_def)
    obtain x where "place_queue k pl' m = Some x" "qrep (bufs m) x (bs pl')" "q_sem x = length (bs pl')" using r by blast
    then show ?thesis using False qrep_frame [OF _ f] by (simp add: place_queue_set [OF io] del: set_place.simps place_queue.simps)
  qed
  moreover have "set ((bs(InPool := b # bs InPool)) x) \<inter> set ((bs(InPool := b # bs InPool)) y) = {}" if "x \<noteq> y" for x y
    using r assms(2) that by auto
  moreover have "pool_buffer (id_pool k) (h a)" if "a \<in> set ((bs(InPool := b # bs InPool)) x)" for a x
    using that r assms(3) only_links_pool_buffer [OF put(5)] by (auto split: if_splits)
  ultimately show "conn_rep k (bs(InPool := b # bs InPool)) (pool_put_back (id_pool k) b m)"
    using r unfolding conn_rep_def by (simp add: p del: set_place.simps)
  show "port_at (pool_put_back (id_pool k) b m) = port_at m" by (simp add: p)
qed

subsection \<open>Properties\<close>

text \<open>C9. A wake-up of the worker of a running graph, all of whose connections are between copy components and move
  their buffers in time, takes every empty buffer from the pool of its connection to the output port, and every buffer in the queue of a connection that is not direct
  to the input port, all in their order, and then the worker waits again.\<close>

theorem graph_worker_delivers:
  assumes "graph_rep copy_fn ks bs m" and "g_connection (graph_at m g) = map id_conn ks"
    and "gf_connection_buffer (graph_at m g) = None" and "unat (connection_current (graph_at m g)) + length ks + 1 < 2 ^ 32"
    and "g_thread (graph_at m g) = Running" and "\<not> stop_thread (graph_at m g)" and "0 < g_sema (graph_at m g)"
    and "\<And>m m'. getmicrosecs64 gc m' - getmicrosecs64 gc m < PROCESSING_TIME_MAX"
  shows "\<exists>m' bs'. graph_worker_thread gc (copy_ops ops0) g m = Some (Woke m') \<and> graph_rep copy_fn ks bs' m'
    \<and> (\<forall>k\<in>set ks. bs' k InPool = [] \<and> bs' k AtOutput = bs k AtOutput @ bs k InPool
        \<and> (\<not> direct m k \<longrightarrow> bs' k InQueue = [] \<and> bs' k AtInput = bs k AtInput @ bs k InQueue))
    \<and> g_thread (graph_at m' g) = Running \<and> g_sema (graph_at m' g) = g_sema (graph_at m g) - 1"
proof -
  obtain m' where "graph_worker_thread gc (copy_ops ops0) g m = Some (Woke m')" "graph_rep copy_fn ks (delivered m ks bs) m'"
    "graph_at m' = (graph_at m)(g := (graph_at m g)\<lparr>g_sema := g_sema (graph_at m g) - 1,
        connection_current := connection_current (graph_at m g) + (if waiting m ks bs then 2 else 1)\<rparr>)"
    using graph_copy.worker_moves [OF assms] by blast
  then show ?thesis using assms(5) by (intro exI [of _ m'] exI [of _ "delivered m ks bs"]) (simp add: delivered_places)
qed

lemma given_back_and_woken:
  assumes rep: "graph_rep copy_fn ks bs m" and k: "k \<in> set ks" and b: "bs k AtOutput = b # xs" and cb: "calls_graph k g m"
    and nd: "cn_flags (conn_at m (id_conn k)) \<noteq> MMAL_CONNECTION_FLAG_DIRECT"
    and g: "g_connection (graph_at m g) = map id_conn ks" "gf_connection_buffer (graph_at m g) = None"
      "unat (connection_current (graph_at m g)) + length ks + 1 < 2 ^ 32"
      "g_thread (graph_at m g) = Running" "\<not> stop_thread (graph_at m g)"
    and quick: "\<And>m m'. getmicrosecs64 gc m' - getmicrosecs64 gc m < PROCESSING_TIME_MAX"
  shows "\<exists>m1 m2. gives_back (graph_callback_ops gc ops1 cbs ops0) k n t m = Some m1
    \<and> graph_worker_thread gc (copy_ops ops1) g m1 = Some (Woke m2)
    \<and> graph_rep copy_fn ks (delivered m ks (bs(k := (bs k)(AtOutput := xs, InQueue := bs k InQueue @ [b])))) m2"
proof -
  obtain m1 where m1: "gives_back (graph_callback_ops gc ops1 cbs ops0) k n t m = Some m1"
    "graph_rep copy_fn ks (bs(k := (bs k)(AtOutput := xs, InQueue := bs k InQueue @ [b]))) m1" "direct m1 = direct m"
    "graph_at m1 = (graph_at m)(g := (graph_at m g)\<lparr>g_sema := g_sema (graph_at m g) + 1\<rparr>)"
    using graph_copy_client.signals_worker [where bs = bs, OF rep k b cb nd] by blast
  have del: "delivered m1 ks = delivered m ks" by (simp add: delivered_def fun_eq_iff m1(3))
  have "\<exists>m2. graph_worker_thread gc (copy_ops ops1) g m1 = Some (Woke m2)
      \<and> graph_rep copy_fn ks (delivered m ks (bs(k := (bs k)(AtOutput := xs, InQueue := bs k InQueue @ [b])))) m2"
    using graph_copy.worker_moves [OF m1(2), of g gc ops1] g quick unfolding del m1(4) by auto
  then show ?thesis using m1(1) by blast
qed


text \<open>A direct connection does without the worker: when a component gives a buffer back to a connection with
  the flag for direct connections and no other, the callback itself sends the buffer to the input port.\<close>

theorem graph_direct_forwards:
  assumes "graph_rep copy_fn ks bs m" and "k \<in> set ks" and "bs k AtOutput = b # xs" and "calls_graph k g m"
    and "cn_flags (conn_at m (id_conn k)) = MMAL_CONNECTION_FLAG_DIRECT" and "bs k InQueue = []"
    and "gf_connection_buffer (graph_at m g) = None"
  shows "\<exists>m'. gives_back (graph_callback_ops gc ops1 cbs ops0) k n t m = Some m'
    \<and> graph_rep copy_fn ks (bs(k := (bs k)(AtOutput := xs, AtInput := bs k AtInput @ [b]))) m'"
  by (rule graph_copy_client.forwards_directly [OF assms])

text \<open>C38. A connection with the flag for direct connections and another flag besides is forgotten: its callback
  compares the flags with \<open>==\<close> and leaves the buffer to the worker, and the worker tests the bit and leaves it to the callback, so that
  the buffer stays in the queue of the connection and never reaches the input port.\<close>

theorem direct_flag_strands:
  assumes "graph_rep copy_fn ks bs m" and "k \<in> set ks" and "bs k AtOutput = b # xs" and "calls_graph k g m"
    and "direct m k" and "cn_flags (conn_at m (id_conn k)) \<noteq> MMAL_CONNECTION_FLAG_DIRECT"
    and "g_connection (graph_at m g) = map id_conn ks" and "gf_connection_buffer (graph_at m g) = None"
    and "unat (connection_current (graph_at m g)) + length ks + 1 < 2 ^ 32"
    and "g_thread (graph_at m g) = Running" and "\<not> stop_thread (graph_at m g)"
    and "\<And>m m'. getmicrosecs64 gc m' - getmicrosecs64 gc m < PROCESSING_TIME_MAX"
  shows "\<exists>m1 m2 bs'. gives_back (graph_callback_ops gc ops1 cbs ops0) k n t m = Some m1
    \<and> graph_worker_thread gc (copy_ops ops1) g m1 = Some (Woke m2) \<and> graph_rep copy_fn ks bs' m2
    \<and> bs' k InQueue = bs k InQueue @ [b] \<and> bs' k AtInput = bs k AtInput"
  using given_back_and_woken [OF assms(1-4,6-12), of ops1 cbs ops0 n t] assms(2,5) by (fastforce simp: delivered_places)

text \<open>When the output port of a connection is disabled, the graph loses no buffer: the first buffer of the pool that
  it tries to send goes back to the front of the pool, all the buffers are where they were, and the pass asks for no other pass.\<close>

theorem refused_buffers_stay:
  assumes "conn_rep k bs m" and "bs InPool \<noteq> []" and "\<not> pt_enabled (port_at m (id_out k))"
  shows "\<exists>m'. send_empty ops (id_pool k) (id_out k) again m = Some (False, m') \<and> conn_rep k bs m' \<and> port_at m' = port_at m"
proof -
  obtain b xs where b: "bs InPool = b # xs" using assms(2) by (cases "bs InPool") auto
  obtain m1 where m1: "get_at k InPool m = Some (Some b, m1)" "conn_rep k (bs(InPool := xs)) m1" "port_at m1 = port_at m"
    "bufs m1 = bufs m" "\<And>pl'. b \<notin> set ((bs(InPool := xs)) pl')" "pool_buffer (id_pool k) (bufs m b)"
    using conn_rep_get [OF assms(1) b] by metis
  have "\<exists>status. mmal_port_send_buffer ops (Some (id_out k)) b m1 = Some (status, m1) \<and> status \<noteq> MMAL_SUCCESS"
    using assms(3) m1(3) by (cases "pf_send (port_at m (id_out k))") (simp_all add: mmal_port_send_buffer_def)
  then obtain status where s: "mmal_port_send_buffer ops (Some (id_out k)) b m1 = Some (status, m1)" "status \<noteq> MMAL_SUCCESS" by blast
  have "pool_buffer (id_pool k) (bufs m1 b)" using m1(4,6) by simp
  note restored = conn_rep_put_back [where bs = "bs(InPool := xs)", OF m1(2,5) this]
  have "(bs(InPool := xs))(InPool := b # (bs(InPool := xs)) InPool) = bs" using b by (auto simp: fun_eq_iff)
  then have "conn_rep k bs (pool_put_back (id_pool k) b m1)" using restored(1) by metis
  then show ?thesis using m1(1,3) s restored(2) by (subst send_empty.simps) (simp add: get_places)
qed

subsection \<open>Concrete graphs\<close>

text \<open>The graph 30 has the connection 20 from port 4 to port 3 with the pool 9 and the connection 21 from port 6 to port 5
  with the pool 10. There is a buffer in each place of the first, 11 to 14, and of the second, 15 to 18; but its queue is
  empty when \<open>full\<close> is not set, and its flags are \<open>f\<close>.\<close>

definition demo_ids2 :: conn_ids where
  "demo_ids2 = \<lparr>id_conn = 21, id_pool = 10, id_in = 5, id_out = 6\<rparr>"

definition demo_graph_connections :: "u32 \<Rightarrow> bool \<Rightarrow> addr \<Rightarrow> connection" where
  "demo_graph_connections f full c =
     (if c = 20 then (new_connection 4 3 0 0)\<lparr>cn_pool := Some 9, cn_queue := Some (one_queue 12), cn_callback := Some graph_connection_fn\<rparr>
      else (new_connection 6 5 f 0)\<lparr>cn_pool := Some 10, cn_queue := Some (if full then one_queue 16 else empty_queue),
        cn_callback := Some graph_connection_fn\<rparr>)"

definition demo_graph_env :: "u32 \<Rightarrow> bool \<Rightarrow> unit graph_env conn_env module_env" where
  "demo_graph_env f full = \<lparr>port_modules = (\<lambda>_. demo_module), component_modules = (\<lambda>_. new_component_module (Some 1)),
     clock_ports = (\<lambda>_. demo_clock_port), clock_events = (\<lambda>_. demo_clock_event), payload_bytes = (\<lambda>_. replicate 8 0),
     client = \<lparr>connections = demo_graph_connections f full, port_userdata = (\<lambda>p. if p = 4 then Some 20 else Some 21),
       user = \<lparr>graphs = (\<lambda>_. zero_graph\<lparr>g_connection := [20, 21], g_thread := Running, g_sema := 1\<rparr>),
         cn_user_data = (\<lambda>_. Some 30), graph_module = (\<lambda>_. None), constructor_private = None, graph_user = ()\<rparr>\<rparr>\<rparr>"

definition demo_graph_pool :: "addr \<Rightarrow> addr \<Rightarrow> mmal_pool \<Rightarrow> mmal_pool" where
  "demo_graph_pool b c r = r\<lparr>p_queue := Some (one_queue b), headers_num := 4, p_cb := Some conn_release_fn, p_userdata := Some c\<rparr>"

definition demo_graph :: "u32 \<Rightarrow> bool \<Rightarrow> unit gworld" where
  "demo_graph f full =
     upd_pool 9 (demo_graph_pool 11 20) (upd_pool 10 (demo_graph_pool 15 21)
     (upd_pmod 3 (\<lambda>r. r\<lparr>pm_queue := Some (one_queue 13)\<rparr>) (upd_pmod 4 (\<lambda>r. r\<lparr>pm_queue := Some (one_queue 14)\<rparr>)
     (upd_pmod 5 (\<lambda>r. r\<lparr>pm_queue := Some (one_queue 17)\<rparr>) (upd_pmod 6 (\<lambda>r. r\<lparr>pm_queue := Some (one_queue 18)\<rparr>)
     (upd_port 3 (\<lambda>_. demo_conn_port conn_in_fn) (upd_port 4 (\<lambda>_. demo_conn_port conn_out_fn)
     (upd_port 5 (\<lambda>_. demo_conn_port conn_in_fn) (upd_port 6 (\<lambda>_. demo_conn_port conn_out_fn)
     ((idle_world (demo_graph_env f full))\<lparr>bufs := (\<lambda>b. (bufs (idle_world ()) b)\<lparr>owner := Some (if b < 15 then 9 else 10)\<rparr>)\<rparr>))))))))))"

fun demo_places2 :: "bool \<Rightarrow> place \<Rightarrow> addr list" where
  "demo_places2 full InPool = [15]" | "demo_places2 full InQueue = (if full then [16] else [])"
| "demo_places2 full AtInput = [17]" | "demo_places2 full AtOutput = [18]"

definition demo_graph_places :: "bool \<Rightarrow> conn_ids \<Rightarrow> place \<Rightarrow> addr list" where
  "demo_graph_places full k = (if k = demo_ids then demo_places else demo_places2 full)"

lemma demo_graph_simps [simp]:
  "conn_at (demo_graph f full) = demo_graph_connections f full"
  "userdata_at (demo_graph f full) 4 = Some 20" "userdata_at (demo_graph f full) 6 = Some 21"
  "port_at (demo_graph f full) 3 = demo_conn_port conn_in_fn" "port_at (demo_graph f full) 4 = demo_conn_port conn_out_fn"
  "port_at (demo_graph f full) 5 = demo_conn_port conn_in_fn" "port_at (demo_graph f full) 6 = demo_conn_port conn_out_fn"
  "p_queue (pool_at (demo_graph f full) 9) = Some (one_queue 11)" "p_cb (pool_at (demo_graph f full) 9) = Some conn_release_fn"
  "p_userdata (pool_at (demo_graph f full) 9) = Some 20"
  "p_queue (pool_at (demo_graph f full) 10) = Some (one_queue 15)" "p_cb (pool_at (demo_graph f full) 10) = Some conn_release_fn"
  "p_userdata (pool_at (demo_graph f full) 10) = Some 21"
  "bufs (demo_graph f full) b = (bufs (idle_world ()) b)\<lparr>owner := Some (if b < 15 then 9 else 10)\<rparr>"
  "pm_queue (pmod_at (demo_graph f full) 3) = Some (one_queue 13)" "pm_queue (pmod_at (demo_graph f full) 4) = Some (one_queue 14)"
  "pm_queue (pmod_at (demo_graph f full) 5) = Some (one_queue 17)" "pm_queue (pmod_at (demo_graph f full) 6) = Some (one_queue 18)"
  "graph_at (demo_graph f full) g = zero_graph\<lparr>g_connection := [20, 21], g_thread := Running, g_sema := 1\<rparr>"
  "cn_user_data (user_of (demo_graph f full)) c = Some 30"
  by (simp_all add: demo_graph_def graph_at_def demo_graph_pool_def)
    (simp_all add: idle_world_def idle_env_def demo_graph_env_def conn_at_def userdata_at_def user_of_def module_defs upd_pool_def fun_eq_iff)

lemma demo_ids2_simps [simp]: "id_conn demo_ids2 = 21" "id_pool demo_ids2 = 10" "id_in demo_ids2 = 5" "id_out demo_ids2 = 6"
  by (simp_all add: demo_ids2_def)

lemma demo_ids_distinct [simp]: "demo_ids2 \<noteq> demo_ids" "demo_ids \<noteq> demo_ids2"
  by (simp_all add: demo_ids_def demo_ids2_def)

lemma demo_accepting: "accepting copy_fn (Suc 0) (demo_conn_port f)"
  by (simp add: accepting_def demo_conn_port_def counted_iff) (simp add: with_count_def zero_port_def)

lemma demo_qrep:
  "qrep (bufs (demo_graph f full)) (one_queue b) [b] \<and> q_sem (one_queue b) = 1" "qrep h empty_queue [] \<and> q_sem empty_queue = 0"
  by (simp_all add: one_queue_def qrep_def idle_world_def zero_header_def empty_queue_def)

lemma demo_graph_rep:
  assumes "f AND MMAL_CONNECTION_FLAG_TUNNELLING = 0"
  shows "graph_rep copy_fn [demo_ids, demo_ids2] (demo_graph_places full) (demo_graph f full)"
proof -
  let ?m = "demo_graph f full"
  have b: "pool_buffer 9 (bufs (demo_graph f fl) a) = (a < 15)" "pool_buffer 10 (bufs (demo_graph f fl) a) = (\<not> a < 15)" "bh_cmd (bufs (demo_graph f fl) a) = 0" "bh_data (bufs (demo_graph f fl) a) \<noteq> None" for a fl
    by (auto simp: pool_buffer_def idle_world_def zero_header_def)
  have "conn_rep demo_ids demo_places ?m"
  proof -
    have "conn_fixed demo_ids ?m"
      by (simp add: conn_fixed_def) (simp add: demo_graph_connections_def new_connection_def tunnelling_def)
    moreover have "\<exists>q. place_queue demo_ids pl ?m = Some q \<and> qrep (bufs ?m) q (demo_places pl) \<and> q_sem q = length (demo_places pl)" for pl
      using demo_qrep(1) by (cases pl) (simp_all add: demo_graph_connections_def)
    moreover have "set (demo_places pl) \<inter> set (demo_places pl') = {}" if "pl \<noteq> pl'" for pl pl'
      using that by (cases pl; cases pl') simp_all
    moreover have "\<forall>pl. \<forall>a\<in>set (demo_places pl). pool_buffer (id_pool demo_ids) (bufs ?m a)"
    proof
      show "\<forall>a\<in>set (demo_places pl). pool_buffer (id_pool demo_ids) (bufs ?m a)" for pl
        by (cases pl) (simp_all add: b(1) del: demo_graph_simps)
    qed
    ultimately show ?thesis by (simp add: conn_rep_def)
  qed
  moreover have "conn_rep demo_ids2 (demo_places2 full) ?m"
  proof -
    have "conn_fixed demo_ids2 ?m"
      using assms by (simp add: conn_fixed_def) (simp add: demo_graph_connections_def new_connection_def tunnelling_def)
    moreover have "\<exists>q. place_queue demo_ids2 pl ?m = Some q \<and> qrep (bufs ?m) q (demo_places2 full pl) \<and> q_sem q = length (demo_places2 full pl)" for pl
      using demo_qrep by (cases pl) (simp_all add: demo_graph_connections_def)
    moreover have "set (demo_places2 full pl) \<inter> set (demo_places2 full pl') = {}" if "pl \<noteq> pl'" for pl pl'
      using that by (cases pl; cases pl') simp_all
    moreover have "\<forall>pl. \<forall>a\<in>set (demo_places2 full pl). pool_buffer (id_pool demo_ids2) (bufs ?m a)"
    proof
      show "\<forall>a\<in>set (demo_places2 full pl). pool_buffer (id_pool demo_ids2) (bufs ?m a)" for pl
        by (cases pl) (simp_all add: b(2) del: demo_graph_simps)
    qed
    ultimately show ?thesis by (simp add: conn_rep_def)
  qed
  moreover have "all_buffers demo_places = {#11, 12, 13, 14#}" "all_buffers (demo_places2 full) = {#15, 17, 18#} + mset (if full then [16] else [])"
    by (simp_all add: all_buffers_def)
  moreover have "conn_apart demo_ids demo_ids2" "conn_apart demo_ids2 demo_ids" by (simp_all add: conn_apart_def)
  ultimately show ?thesis using demo_accepting b(3,4)
    by (simp add: graph_rep_def graph_conn_def demo_graph_places_def)
qed

definition demo_graph_client :: "unit graph_client" where
  "demo_graph_client = \<lparr>gc_event = (\<lambda>f g p b m. Some m), gc_destroy = (\<lambda>f g m. Some m),
     gc_parameter_set = (\<lambda>f g p x m. Some (MMAL_ENOSYS, m)), gc_parameter_get = (\<lambda>f g p x m. Some (MMAL_ENOSYS, x, m)),
     gc_port = (\<lambda>f g p m. Some (MMAL_ENOSYS, m)), gc_buffer = (\<lambda>f g p b m. Some (MMAL_ENOSYS, m)),
     gc_payload_alloc = (\<lambda>f g p n e. (MMAL_ENOSYS, None, e)), gc_payload_free = (\<lambda>f g p a m. Some (MMAL_ENOSYS, m)),
     gc_graph_enable = (\<lambda>f g b m. Some (MMAL_SUCCESS, m)), getmicrosecs64 = (\<lambda>m. 0)\<rparr>"

lemma demo_quick: "getmicrosecs64 demo_graph_client m' - getmicrosecs64 demo_graph_client m < PROCESSING_TIME_MAX"
  by (simp add: demo_graph_client_def PROCESSING_TIME_MAX_def)

definition demo_plain_ops :: "unit graph_port_ops" where "demo_plain_ops = plain_ops (\<lambda>p b m. m)"

lemma demo_graph_running:
  "g_connection (graph_at (demo_graph f full) 30) = map id_conn [demo_ids, demo_ids2]"
  "gf_connection_buffer (graph_at (demo_graph f full) 30) = None"
  "unat (connection_current (graph_at (demo_graph f full) 30)) + length [demo_ids, demo_ids2] + 1 < 2 ^ 32"
  "g_thread (graph_at (demo_graph f full) 30) = Running" "\<not> stop_thread (graph_at (demo_graph f full) 30)"
  "0 < g_sema (graph_at (demo_graph f full) 30)"
  by simp_all (simp_all add: zero_graph_def)

lemma demo_calls: "calls_graph demo_ids 30 (demo_graph f full)" "calls_graph demo_ids2 30 (demo_graph f full)"
  by (simp_all add: calls_graph_def demo_graph_connections_def)
    (simp_all add: demo_conn_port_def with_count_def zero_port_def)

lemma demo_direct:
  "\<not> direct (demo_graph f full) demo_ids" "direct (demo_graph f full) demo_ids2 \<longleftrightarrow> f AND MMAL_CONNECTION_FLAG_DIRECT \<noteq> 0"
  "cn_flags (conn_at (demo_graph f full) (id_conn demo_ids2)) = f"
  by (simp_all add: direct_def demo_graph_connections_def new_connection_def)

lemma demo_placed:
  "demo_graph_places full demo_ids = demo_places" "demo_graph_places full demo_ids2 = demo_places2 full"
  by (simp_all add: demo_graph_places_def)

text \<open>The flags of direct connections, alone and with the flag that keeps the buffer requirements.\<close>

lemma demo_flags:
  "(0 :: u32) AND MMAL_CONNECTION_FLAG_TUNNELLING = 0"
  "MMAL_CONNECTION_FLAG_DIRECT AND MMAL_CONNECTION_FLAG_TUNNELLING = 0"
  "(MMAL_CONNECTION_FLAG_DIRECT OR MMAL_CONNECTION_FLAG_KEEP_BUFFER_REQUIREMENTS) AND MMAL_CONNECTION_FLAG_TUNNELLING = 0"
  "(MMAL_CONNECTION_FLAG_DIRECT OR MMAL_CONNECTION_FLAG_KEEP_BUFFER_REQUIREMENTS) AND MMAL_CONNECTION_FLAG_DIRECT \<noteq> 0"
  "MMAL_CONNECTION_FLAG_DIRECT OR MMAL_CONNECTION_FLAG_KEEP_BUFFER_REQUIREMENTS \<noteq> MMAL_CONNECTION_FLAG_DIRECT"
  by (simp_all add: MMAL_CONNECTION_FLAG_DIRECT_def MMAL_CONNECTION_FLAG_TUNNELLING_def MMAL_CONNECTION_FLAG_KEEP_BUFFER_REQUIREMENTS_def)

theorem graph_worker_delivers_witness:
  "\<exists>m' bs'. graph_worker_thread demo_graph_client (copy_ops demo_plain_ops) 30 (demo_graph 0 True) = Some (Woke m')
    \<and> graph_rep copy_fn [demo_ids, demo_ids2] bs' m' \<and> bs' demo_ids AtInput = [13, 12] \<and> bs' demo_ids2 AtInput = [17, 16]
    \<and> bs' demo_ids AtOutput = [14, 11] \<and> bs' demo_ids2 AtOutput = [18, 15]"
proof -
  have d: "\<not> direct (demo_graph 0 True) demo_ids2" by (simp add: demo_direct)
  show ?thesis
    using graph_worker_delivers [OF demo_graph_rep [OF demo_flags(1), of True] demo_graph_running demo_quick, of demo_plain_ops] demo_direct(1) [of 0 True] d
    by (auto simp: demo_placed)
qed


theorem graph_direct_forwards_witness:
  "\<exists>m' bs'. gives_back (graph_callback_ops demo_graph_client demo_plain_ops (\<lambda>f c m. Some m) demo_plain_ops) demo_ids2 8 1
      (demo_graph MMAL_CONNECTION_FLAG_DIRECT False) = Some m'
    \<and> graph_rep copy_fn [demo_ids, demo_ids2] bs' m' \<and> bs' demo_ids2 AtInput = [17, 18]"
proof -
  have k: "demo_ids2 \<in> set [demo_ids, demo_ids2]" "demo_graph_places False demo_ids2 AtOutput = 18 # []"
    "demo_graph_places False demo_ids2 InQueue = []" by (simp_all add: demo_placed)
  show ?thesis
    using graph_direct_forwards [OF demo_graph_rep [OF demo_flags(2)] k(1,2) demo_calls(2) demo_direct(3) k(3) demo_graph_running(2),
        of demo_graph_client demo_plain_ops "\<lambda>f c m. Some m" demo_plain_ops 8 1]
    by (fastforce simp: demo_placed)
qed

theorem direct_flag_strands_witness:
  "\<exists>m1 m2 bs'. gives_back (graph_callback_ops demo_graph_client demo_plain_ops (\<lambda>f c m. Some m) demo_plain_ops) demo_ids2 8 1
      (demo_graph (MMAL_CONNECTION_FLAG_DIRECT OR MMAL_CONNECTION_FLAG_KEEP_BUFFER_REQUIREMENTS) True) = Some m1
    \<and> graph_worker_thread demo_graph_client (copy_ops demo_plain_ops) 30 m1 = Some (Woke m2)
    \<and> graph_rep copy_fn [demo_ids, demo_ids2] bs' m2 \<and> bs' demo_ids2 InQueue = [16, 18]"
proof -
  have k: "demo_ids2 \<in> set [demo_ids, demo_ids2]" "demo_graph_places True demo_ids2 AtOutput = 18 # []" by (simp_all add: demo_placed)
  let ?f = "MMAL_CONNECTION_FLAG_DIRECT OR MMAL_CONNECTION_FLAG_KEEP_BUFFER_REQUIREMENTS"
  have d: "direct (demo_graph ?f True) demo_ids2" using demo_flags(4) by (simp add: demo_direct(2))
  have ne: "cn_flags (conn_at (demo_graph ?f True) (id_conn demo_ids2)) \<noteq> MMAL_CONNECTION_FLAG_DIRECT"
    unfolding demo_direct(3) by (rule demo_flags(5))
  show ?thesis
    using direct_flag_strands [OF demo_graph_rep [OF demo_flags(3)] k demo_calls(2) d ne demo_graph_running(1-5) demo_quick,
        of demo_plain_ops "\<lambda>f c m. Some m" demo_plain_ops 8 1]
    by (auto simp: demo_placed)
qed

theorem refused_buffers_stay_witness:
  "\<exists>m'. send_empty demo_plain_ops 9 4 True (upd_port 4 (\<lambda>r. r\<lparr>pt_enabled := False\<rparr>) (demo_graph 0 True)) = Some (False, m')
    \<and> conn_rep demo_ids demo_places m'"
proof -
  have "conn_rep demo_ids demo_places (demo_graph 0 True)"
    using demo_graph_rep [OF demo_flags(1), of True] by (simp add: graph_rep_def graph_conn_def demo_placed)
  then have "conn_rep demo_ids demo_places (upd_port 4 (\<lambda>r. r\<lparr>pt_enabled := False\<rparr>) (demo_graph 0 True))" by simp
  from refused_buffers_stay [OF this] show ?thesis by fastforce
qed

end
