(* ===== verification/GraphMirror.thy ===== *)
theory GraphMirror
  imports GraphFlow ClockSync
begin

text \<open>
  The component of a graph: its ports and the ports in the graph that they stand for, and what its creation does when
  memory runs out.
\<close>

text \<open>The ports \<open>ps\<close> of the component of a graph stand for the ports \<open>l\<close> in the graph.\<close>

definition mirrored :: "addr \<Rightarrow> mmal_port_type \<Rightarrow> addr list \<Rightarrow> addr list \<Rightarrow> 'v gworld \<Rightarrow> bool" where
  "mirrored g t l ps m \<longleftrightarrow> graph_list t (graph_at m g) = Some l \<and> distinct l \<and> length ps = length l
     \<and> (\<exists>c. graph_component (graph_at m g) = Some c \<and> module_of m c = Some g \<and> component_list t (component_at m c) = ps
         \<and> (\<forall>i<length l. pt_type (port_at m (ps ! i)) = t \<and> pt_index (port_at m (ps ! i)) = i \<and> pt_component (port_at m (ps ! i)) = c
             \<and> pt_type (port_at m (l ! i)) = t \<and> userdata_at m (l ! i) = Some g))"

lemma index_of_nth: "distinct l \<Longrightarrow> i < length l \<Longrightarrow> index_of (l ! i) l = i"
proof (induction l arbitrary: i)
  case (Cons x l)
  then show ?case by (cases i) auto
qed simp

text \<open>C37. The ports of a graph component and the ports of the graph that they stand for correspond: a buffer for a port of the
  component goes to the matching port in the graph, and what that port gives back goes to the client of the same port of the component.\<close>

theorem graph_ports_match:
  assumes "mirrored g t l ps m" and "i < length l"
    and "gf_send_buffer (graph_at m g) = None" and "gf_return_buffer (graph_at m g) = None"
  shows "find_port_from_graph g (ps ! i) m = Some (Some (l ! i)) \<and> find_port_to_graph g (l ! i) m = Some (Some (ps ! i))
    \<and> graph_port_send gc ops (ps ! i) b m = mmal_port_send_buffer ops (Some (l ! i)) b m
    \<and> graph_port_enable_cb gc ops (l ! i) b m =
        (if bh_cmd (bufs m b) = 0 then mmal_port_buffer_header_callback ops (ps ! i) b m else mmal_port_event_send ops (ps ! i) b m)"
proof -
  obtain c where c: "graph_component (graph_at m g) = Some c" "module_of m c = Some g" "component_list t (component_at m c) = ps"
    "pt_type (port_at m (ps ! i)) = t" "pt_index (port_at m (ps ! i)) = i" "pt_component (port_at m (ps ! i)) = c"
    "pt_type (port_at m (l ! i)) = t" "userdata_at m (l ! i) = Some g"
    using assms(1,2) by (auto simp: mirrored_def)
  have l: "graph_list t (graph_at m g) = Some l" "distinct l" "length ps = length l" using assms(1) by (simp_all add: mirrored_def)
  have from_g: "find_port_from_graph g (ps ! i) m = Some (Some (l ! i))"
    using c l assms(2) by (simp add: find_port_from_graph_def graph_entry_def)
  have to_g: "find_port_to_graph g (l ! i) m = Some (Some (ps ! i))"
    using c l assms(2) index_of_nth [OF l(2) assms(2)] by (simp add: find_port_to_graph_def nth_port_def Let_def)
  show ?thesis using from_g to_g c assms(3,4)
    by (simp add: graph_port_send_def graph_and_port_def intercepted_def graph_port_enable_cb_def)
qed

lemma mirror_ports_status: "mirror_ports f g ps status m = Some (True, s, m') \<Longrightarrow> ps \<noteq> [] \<Longrightarrow> s = MMAL_SUCCESS"
proof (induction ps arbitrary: status m)
  case (Cons p ps)
  then show ?case by (cases "ps = []") (auto split: if_splits bind_splits)
qed simp

lemma alloc_ports_length: "alloc_ports c t i n m = (ps, True, m') \<Longrightarrow> length ps = n"
  by (induction n arbitrary: i m ps m') (auto simp: Let_def split: prod.splits option.splits)

lemma ports_alloc_length: "mmal_ports_alloc c n t m = Some (Some (a, ps), m') \<Longrightarrow> length ps = n"
  using alloc_ports_length by (fastforce simp: mmal_ports_alloc_def Let_def split: prod.splits option.splits if_splits)

text \<open>The creation of a component for a graph reports success although it has destroyed the component and the graph: when there is no memory
  for the output ports, the status that it returns is the one that the last input port has left.\<close>

theorem graph_create_reports_success:
  assumes "module_of m c = Some g" and "cp_control (component_at m c) = Some control"
    and "m1 = upd_port control (\<lambda>r. r\<lparr>pf_parameter_get := Some graph_control_param_fn, pf_parameter_set := Some graph_control_param_fn\<rparr>) m"
    and "g_input (graph_at m1 g) \<noteq> []"
    and "graph_ports_create (\<lambda>n. mmal_ports_alloc c n MMAL_PORT_TYPE_INPUT) (\<lambda>ps a r. r\<lparr>cp_input := ps, input_array := a\<rparr>)
      graph_port_functions g c (length (g_input (graph_at m1 g))) MMAL_ENOMEM m1 = Some (True, status, m2)"
    and "g_output (graph_at m2 g) \<noteq> []" and "core_malloc (env (ctx m2)) = (None, e)"
    and "graph_component_destroy gc ops cbs c (set_env e m2) = Some (s, m3)"
  shows "mmal_component_create_from_graph gc ops cbs c m = Some (MMAL_SUCCESS, m3)"
proof -
  have st: "status = MMAL_SUCCESS"
    using assms(4,5) ports_alloc_length mirror_ports_status
    by (fastforce simp: graph_ports_create_def split: bind_splits option.splits)
  have "graph_ports_create (\<lambda>n. mmal_ports_alloc c n MMAL_PORT_TYPE_OUTPUT) (\<lambda>ps a r. r\<lparr>cp_output := ps, output_array := a\<rparr>)
      graph_port_functions g c (length (g_output (graph_at m2 g))) status m2 = Some (False, MMAL_SUCCESS, set_env e m2)"
    using assms(6,7) by (simp add: graph_ports_create_def mmal_ports_alloc_def st)
  then show ?thesis using assms(1-3,5,8)
    by (simp add: mmal_component_create_from_graph_def graph_create_error_def)
qed


subsection \<open>Concrete graphs\<close>

text \<open>The component 40 of the graph 30 has the input ports 50 and 51 for the ports 3 and 5.\<close>

definition demo_mirror_env :: "unit graph_env conn_env module_env" where
  "demo_mirror_env = \<lparr>port_modules = (\<lambda>_. demo_module), component_modules = (\<lambda>_. new_component_module (Some 1)),
     clock_ports = (\<lambda>_. demo_clock_port), clock_events = (\<lambda>_. demo_clock_event), payload_bytes = (\<lambda>_. replicate 8 0),
     client = \<lparr>connections = (\<lambda>_. new_connection 4 3 0 0), port_userdata = (\<lambda>p. Some 30),
       user = \<lparr>graphs = (\<lambda>_. zero_graph\<lparr>g_input := [3, 5], graph_component := Some 40\<rparr>),
         cn_user_data = (\<lambda>_. None), graph_module = (\<lambda>_. Some 30), constructor_private = None, graph_user = ()\<rparr>\<rparr>\<rparr>"

definition demo_mirror :: "unit gworld" where
  "demo_mirror = upd_port 50 (\<lambda>r. r\<lparr>pt_component := 40\<rparr>) (upd_port 51 (\<lambda>r. r\<lparr>pt_index := 1, pt_component := 40\<rparr>)
     (upd_component 40 (\<lambda>r. r\<lparr>cp_input := [50, 51]\<rparr>)
     (upd_env (\<lambda>e. e\<lparr>ports := (\<lambda>_. zero_port\<lparr>pt_type := MMAL_PORT_TYPE_INPUT\<rparr>)\<rparr>) (idle_world demo_mirror_env))))"

theorem graph_ports_match_witness:
  "graph_port_send demo_graph_client demo_plain_ops 51 8 demo_mirror = mmal_port_send_buffer demo_plain_ops (Some 5) 8 demo_mirror
    \<and> find_port_to_graph 30 5 demo_mirror = Some (Some 51)"
proof -
  have g: "graph_at demo_mirror 30 = zero_graph\<lparr>g_input := [3, 5], graph_component := Some 40\<rparr>" "module_of demo_mirror 40 = Some 30"
    "cp_input (component_at demo_mirror 40) = [50, 51]" "userdata_at demo_mirror p = Some 30"
    "port_at demo_mirror 50 = zero_port\<lparr>pt_type := MMAL_PORT_TYPE_INPUT, pt_component := 40\<rparr>"
    "port_at demo_mirror 51 = zero_port\<lparr>pt_type := MMAL_PORT_TYPE_INPUT, pt_index := 1, pt_component := 40\<rparr>"
    "pt_type (port_at demo_mirror 3) = MMAL_PORT_TYPE_INPUT" "pt_type (port_at demo_mirror 5) = MMAL_PORT_TYPE_INPUT" for p
    by (simp_all add: demo_mirror_def graph_at_def user_of_def module_of_def userdata_at_def module_defs idle_world_def idle_env_def demo_mirror_env_def)
  have "mirrored 30 MMAL_PORT_TYPE_INPUT [3, 5] [50, 51] demo_mirror"
    by (simp add: mirrored_def g less_Suc_eq numeral_2_eq_2) (simp add: zero_port_def)
  from graph_ports_match [OF this, of 1 demo_graph_client demo_plain_ops 8] show ?thesis
    by (simp add: g) (simp add: zero_graph_def)
qed

text \<open>The same with the port 3 as the only input and the port 4 as the only output, and memory for three allocations.\<close>

definition short_env :: "unit graph_env conn_env module_env" where
  "short_env = \<lparr>port_modules = (\<lambda>_. demo_module), component_modules = (\<lambda>_. new_component_module (Some 1)),
     clock_ports = (\<lambda>_. demo_clock_port), clock_events = (\<lambda>_. demo_clock_event), payload_bytes = (\<lambda>_. replicate 8 0),
     client = \<lparr>connections = (\<lambda>_. new_connection 4 3 0 0), port_userdata = (\<lambda>p. None),
       user = \<lparr>graphs = (\<lambda>_. zero_graph\<lparr>g_input := [3], g_output := [4]\<rparr>),
         cn_user_data = (\<lambda>_. None), graph_module = (\<lambda>_. Some 30), constructor_private = None, graph_user = ()\<rparr>\<rparr>\<rparr>"

definition short_graph :: "unit gworld" where
  "short_graph = upd_port 3 (\<lambda>r. r\<lparr>pt_format := Some 60\<rparr>) (upd_component 40 (\<lambda>r. r\<lparr>cp_control := Some 41\<rparr>)
     (upd_env (\<lambda>e. e\<lparr>heap := (\<lambda>i. if i < 3 then Some (1000 * (i + 1)) else None)\<rparr>) (idle_world short_env)))"

definition short_m1 :: "unit gworld" where
  "short_m1 = upd_port 41 (\<lambda>r. r\<lparr>pf_parameter_get := Some graph_control_param_fn, pf_parameter_set := Some graph_control_param_fn\<rparr>) short_graph"

lemma short_allocated:
  "\<exists>m'. mmal_ports_alloc 40 1 MMAL_PORT_TYPE_INPUT short_m1 = Some (Some (1000, [2000]), m')
    \<and> pt_format (port_at m' 2000) = Some 3000 \<and> format_ptr_copy (port_at m' 2000) = Some 3000
    \<and> pt_type (port_at m' 2000) = MMAL_PORT_TYPE_INPUT \<and> pt_index (port_at m' 2000) = 0 \<and> pt_format (port_at m' 3) = Some 60
    \<and> user_of m' = user_of short_graph \<and> component_at m' 40 = component_at short_graph 40
    \<and> fmt_magic (formats (fmts (env (ctx m'))) 3000) \<and> extradata_size (format (formats (fmts (env (ctx m'))) 60)) = 0
    \<and> fst (core_malloc (env (ctx m'))) = None"
  by (simp add: mmal_ports_alloc_def core_malloc_def Let_def mmal_port_alloc_def sync_create_def mmal_format_alloc_def upd_fmts_def
      short_m1_def short_graph_def idle_world_def idle_env_def module_defs)
    (simp add: user_of_def module_defs zero_format_def)

lemma short_inputs:
  "\<exists>m2. graph_ports_create (\<lambda>n. mmal_ports_alloc 40 n MMAL_PORT_TYPE_INPUT) (\<lambda>ps a r. r\<lparr>cp_input := ps, input_array := a\<rparr>)
      graph_port_functions 30 40 1 MMAL_ENOMEM short_m1 = Some (True, MMAL_SUCCESS, m2)
    \<and> pt_format (port_at m2 2000) = Some 3000 \<and> format_ptr_copy (port_at m2 2000) = Some 3000 \<and> user_of m2 = user_of short_graph
    \<and> component_at m2 40 = (component_at short_graph 40)\<lparr>cp_input := [2000], input_array := Some 1000\<rparr>
    \<and> fmt_magic (formats (fmts (env (ctx m2))) 3000) \<and> fst (core_malloc (env (ctx m2))) = None"
proof -
  obtain m' where m': "mmal_ports_alloc 40 1 MMAL_PORT_TYPE_INPUT short_m1 = Some (Some (1000, [2000]), m')"
    "pt_format (port_at m' 2000) = Some 3000" "format_ptr_copy (port_at m' 2000) = Some 3000"
    "pt_type (port_at m' 2000) = MMAL_PORT_TYPE_INPUT" "pt_index (port_at m' 2000) = 0" "pt_format (port_at m' 3) = Some 60"
    "user_of m' = user_of short_graph" "component_at m' 40 = component_at short_graph 40"
    "fmt_magic (formats (fmts (env (ctx m'))) 3000)" "extradata_size (format (formats (fmts (env (ctx m'))) 60)) = 0"
    "fst (core_malloc (env (ctx m'))) = None"
    using short_allocated by blast
  have g: "graph_at short_graph 30 = zero_graph\<lparr>g_input := [3], g_output := [4]\<rparr>"
    by (simp add: short_graph_def graph_at_def user_of_def module_defs idle_world_def idle_env_def short_env_def)
  define m3 where "m3 = upd_port 2000 graph_port_functions (upd_component 40 (\<lambda>r. r\<lparr>cp_input := [2000], input_array := Some 1000\<rparr>) m')"
  have p3: "port_at m3 2000 = graph_port_functions (port_at m' 2000)" "port_at m3 3 = port_at m' 3"
    "fmts (env (ctx m3)) = fmts (env (ctx m'))" "user_of m3 = user_of m'"
    "component_at m3 40 = (component_at m' 40)\<lparr>cp_input := [2000], input_array := Some 1000\<rparr>"
    "fst (core_malloc (env (ctx m3))) = fst (core_malloc (env (ctx m')))"
    by (simp_all add: m3_def) (simp_all add: module_defs user_of_def core_malloc_def)
  have f: "find_port_from_graph 30 2000 m3 = Some (Some 3)"
    using m'(4,5,7) g by (simp add: find_port_from_graph_def p3 graph_port_functions_def graph_at_def graph_entry_def)
  define h where "h = mmal_format_copy 3000 60 (fmts (env (ctx m')))"
  have h: "fmt_magic (formats h 3000)" "extradata_size (format (formats h 60)) = 0"
    using m'(9,10) by (simp_all add: h_def mmal_format_copy_def upd_format_def Let_def)
  have "\<not> copy_allocates 3000 60 (fmts (env (ctx m')))" using m'(10) by (simp add: copy_allocates_def)
  then have copy: "format_full_copy (Some 3000) (Some 60) m3 = Some (MMAL_SUCCESS, upd_fmts (\<lambda>_. h) m3)"
    using h(2) by (simp add: format_full_copy_def p3(3) mmal_format_full_copy_def h_def [symmetric] Let_def) (simp add: upd_fmts_def module_defs)
  define m4 where "m4 = upd_port 2000 (\<lambda>r. r\<lparr>buffer_num := buffer_num (port_at m3 3), buffer_size := buffer_size (port_at m3 3)\<rparr>)
     (upd_port 2000 (\<lambda>r. (copy_requirements (port_at m3 3) r)\<lparr>capabilities := capabilities (port_at m3 3)\<rparr>) (upd_fmts (\<lambda>_. h) m3))"
  have "port_at (upd_fmts (\<lambda>_. h) m3) = port_at m3" by (simp add: upd_fmts_def module_defs fun_eq_iff)
  then have "graph_port_update 30 2000 True m3 = Some (MMAL_SUCCESS, m4)"
    using f copy m'(2,6) by (simp add: graph_port_update_def p3 graph_port_functions_def m4_def Let_def)
  then have "mirror_ports graph_port_functions 30 [2000] MMAL_ENOMEM (upd_component 40 (\<lambda>r. r\<lparr>cp_input := [2000], input_array := Some 1000\<rparr>) m')
      = Some (True, MMAL_SUCCESS, m4)" by (simp add: m3_def)
  then have c: "graph_ports_create (\<lambda>n. mmal_ports_alloc 40 n MMAL_PORT_TYPE_INPUT) (\<lambda>ps a r. r\<lparr>cp_input := ps, input_array := a\<rparr>)
      graph_port_functions 30 40 1 MMAL_ENOMEM short_m1 = Some (True, MMAL_SUCCESS, m4)"
    using m'(1) by (simp add: graph_ports_create_def)
  have "port_at m4 2000 = (copy_requirements (port_at m' 3) (graph_port_functions (port_at m' 2000)))
      \<lparr>capabilities := capabilities (port_at m' 3), buffer_num := buffer_num (port_at m' 3), buffer_size := buffer_size (port_at m' 3)\<rparr>"
    "user_of m4 = user_of m3" "component_at m4 = component_at m3" "fmts (env (ctx m4)) = h"
    "fst (core_malloc (env (ctx m4))) = fst (core_malloc (env (ctx m3)))"
    by (simp_all add: m4_def p3 [symmetric]) (simp_all add: upd_fmts_def module_defs user_of_def core_malloc_def fun_eq_iff)
  then show ?thesis using c m'(2,3,7,8,11) h(1) p3 by (intro exI [of _ m4]) (simp add: copy_requirements_def graph_port_functions_def)
qed
lemma ports_free_one:
  assumes "pt_format (port_at m p) = Some f" and "format_ptr_copy (port_at m p) = Some f" and "fmt_magic (formats (fmts (env (ctx m))) f)"
  shows "\<exists>m'. mmal_ports_free a [p] m = Some m' \<and> user_of m' = user_of m \<and> component_at m' = component_at m"
  using assms
  by (simp add: mmal_ports_free_def mmal_port_free_def mmal_format_free_def Let_def user_of_def upd_fmts_def core_free_def module_defs fun_eq_iff)

theorem graph_create_reports_success_witness:
  "\<exists>m'. mmal_component_create_from_graph demo_graph_client demo_plain_ops quiet_callbacks 40 short_graph = Some (MMAL_SUCCESS, m')"
proof -
  obtain m2 where m2: "graph_ports_create (\<lambda>n. mmal_ports_alloc 40 n MMAL_PORT_TYPE_INPUT) (\<lambda>ps a r. r\<lparr>cp_input := ps, input_array := a\<rparr>)
      graph_port_functions 30 40 1 MMAL_ENOMEM short_m1 = Some (True, MMAL_SUCCESS, m2)"
    "pt_format (port_at m2 2000) = Some 3000" "format_ptr_copy (port_at m2 2000) = Some 3000" "user_of m2 = user_of short_graph"
    "component_at m2 40 = (component_at short_graph 40)\<lparr>cp_input := [2000], input_array := Some 1000\<rparr>"
    "fmt_magic (formats (fmts (env (ctx m2))) 3000)" "fst (core_malloc (env (ctx m2))) = None"
    using short_inputs by blast
  have g: "graph_at short_graph 30 = zero_graph\<lparr>g_input := [3], g_output := [4]\<rparr>" "graph_at short_m1 = graph_at short_graph"
    "module_of short_graph 40 = Some 30" "component_at short_graph 40 = idle_component\<lparr>cp_control := Some 41\<rparr>"
    by (simp_all add: short_m1_def short_graph_def graph_at_def user_of_def module_of_def module_defs idle_world_def idle_env_def
        short_env_def fun_eq_iff)
  obtain e where e: "core_malloc (env (ctx m2)) = (None, e)" using m2(7) by (metis prod.collapse)
  define m3 where "m3 = set_env e m2"
  have e': "e = (env (ctx m2))\<lparr>heap_next := heap_next (env (ctx m2)) + 1\<rparr>" using e by (simp add: core_malloc_def)
  define m4 where "m4 = upd_graph 30 (\<lambda>r. r\<lparr>gf_destroy := None\<rparr>) m3"
  have m4: "port_at m4 = port_at m2" "component_at m4 = component_at m2" "fmts (env (ctx m4)) = fmts (env (ctx m2))"
    "graph_at m4 30 = zero_graph\<lparr>g_input := [3], g_output := [4]\<rparr>" "graph_at m3 30 = zero_graph\<lparr>g_input := [3], g_output := [4]\<rparr>"
    "module_of m3 40 = Some 30"
    using g m2(4) by (simp_all add: m4_def m3_def e' upd_graph_def upd_graph_env_def module_defs fun_eq_iff graph_at_def user_of_def module_of_def zero_graph_def)
  obtain m5 where m5: "mmal_ports_free 1000 [2000] m4 = Some m5" "user_of m5 = user_of m4" "component_at m5 = component_at m4"
    using ports_free_one [of m4 2000 3000 1000] m2(2,3,6) m4 by auto
  have g5: "graph_at m5 30 = zero_graph\<lparr>g_input := [3], g_output := [4]\<rparr>" using m4(4) m5(2) by (simp add: graph_at_def)
  have z: "gf_destroy (graph_at m3 30) = None" "gf_destroy (graph_at m5 30) = None" "g_connection (graph_at m5 30) = []" "g_component (graph_at m5 30) = []"
    by (simp_all add: m4(5) g5) (simp_all add: zero_graph_def)
  have comp: "cp_input (component_at m2 40) = [2000]" "input_array (component_at m2 40) = Some 1000" "cp_output (component_at m2 40) = []"
    "cp_clock (component_at m2 40) = []"
    using m2(5) g(4) by simp_all (simp_all add: idle_component_def)
  have d: "graph_component_destroy demo_graph_client demo_plain_ops quiet_callbacks 40 (set_env e m2)
      = Some (MMAL_SUCCESS, upd_env (core_free 30) m5)"
    using m4(6) z m5 comp m4(2) unfolding m3_def [symmetric]
    by (simp add: graph_component_destroy_def m4_def [symmetric] free_graph_ports_def mmal_graph_destroy_def)
  have "graph_at m2 30 = zero_graph\<lparr>g_input := [3], g_output := [4]\<rparr>" using m2(4) g(1) by (simp add: graph_at_def)
  then have h: "cp_control (component_at short_graph 40) = Some 41" "g_input (graph_at short_m1 30) \<noteq> []" "g_output (graph_at m2 30) \<noteq> []"
    by (simp_all add: g)
  have "length (g_input (graph_at short_m1 30)) = 1" by (simp add: g)
  then show ?thesis
    using graph_create_reports_success [OF g(3) h(1) short_m1_def h(2) _ h(3) e d, of MMAL_SUCCESS] m2(1) by auto
qed

end
