(* ===== verification/ClockFilter.thy ===== *)
theory ClockFilter
  imports ClockRequests
begin

text \<open>
  mmal/components/clock.c, the calculations of the clock component: powers of two, the moving average filters, and the streams,
  which follow the time stamps that arrive on a clock port. Times are signed 64-bit integers; a division by zero
  and a sample outside of the array of a filter are \<^const>\<open>None\<close>.
\<close>

subsection \<open>Powers of two\<close>

definition next_pow2 :: "u32 \<Rightarrow> u32" where
  "next_pow2 x =
     (let x = x - 1;
          x = drop_bit 1 x OR x;
          x = drop_bit 2 x OR x;
          x = drop_bit 4 x OR x;
          x = drop_bit 8 x OR x;
          x = drop_bit 16 x OR x
      in x + 1)"

definition BIT_POSITIONS :: "nat list" where
  "BIT_POSITIONS = [0, 1, 28, 2, 29, 14, 24, 3, 30, 22, 20, 15, 25, 17, 4, 8,
     31, 27, 13, 23, 21, 19, 16, 7, 26, 12, 18, 6, 11, 5, 10, 9]"

definition pow2_shift :: "u32 \<Rightarrow> nat" where
  "pow2_shift x = BIT_POSITIONS ! unat (drop_bit 27 ((x AND - x) * 0x077CB531))"

text \<open>The reference: a power of two is taken to its exponent, and any other number up to \<open>2 ^ 31\<close> to the next one.\<close>

lemma pow2_shift_power: "k < 32 \<Longrightarrow> pow2_shift (2 ^ k) = k"
proof -
  have "\<forall>k\<in>set [0..<32]. pow2_shift (2 ^ k) = k" by code_simp
  then show "k < 32 \<Longrightarrow> pow2_shift (2 ^ k) = k" by simp
qed

lemma smear_step:
  fixes x y :: u32
  assumes "\<And>i. bit x i \<longleftrightarrow> (\<exists>k<n. bit y (i + k))"
  shows "bit (drop_bit n x OR x) i \<longleftrightarrow> (\<exists>k<n + n. bit y (i + k))"
proof -
  have "(\<exists>k<n + n. bit y (i + k)) \<longleftrightarrow> (\<exists>k<n. bit y (i + k)) \<or> (\<exists>k<n. bit y (n + i + k))"
  proof (intro iffI)
    assume "\<exists>k<n + n. bit y (i + k)"
    then obtain k where k: "k < n + n" "bit y (i + k)" by blast
    show "(\<exists>k<n. bit y (i + k)) \<or> (\<exists>k<n. bit y (n + i + k))"
    proof (cases "k < n")
      case False
      then have "k - n < n" "n + i + (k - n) = i + k" using k(1) by simp_all
      then show ?thesis using k(2) by metis
    qed (use k in blast)
  next
    assume "(\<exists>k<n. bit y (i + k)) \<or> (\<exists>k<n. bit y (n + i + k))"
    then show "\<exists>k<n + n. bit y (i + k)"
    proof (elim disjE exE conjE)
      show "\<exists>k<n + n. bit y (i + k)" if "k < n" "bit y (i + k)" for k using that by (intro exI [of _ k]) simp
      show "\<exists>k<n + n. bit y (i + k)" if "k < n" "bit y (n + i + k)" for k
        using that by (intro exI [of _ "n + k"]) (simp add: add.commute add.left_commute)
    qed
  qed
  then show ?thesis by (simp add: bit_or_iff bit_drop_bit_eq assms disj_commute)
qed

lemma next_pow2_smear: "bit (next_pow2 x - 1) i \<longleftrightarrow> (\<exists>j\<ge>i. bit (x - 1) j)"
proof -
  define y where "y = x - 1"
  define y1 where "y1 = drop_bit 1 y OR y"
  define y2 where "y2 = drop_bit 2 y1 OR y1"
  define y4 where "y4 = drop_bit 4 y2 OR y2"
  define y8 where "y8 = drop_bit 8 y4 OR y4"
  define y16 where "y16 = drop_bit 16 y8 OR y8"
  have s0: "bit y i \<longleftrightarrow> (\<exists>k<1. bit y (i + k))" for i by simp
  have s1: "bit y1 i \<longleftrightarrow> (\<exists>k<2. bit y (i + k))" for i using smear_step [OF s0] by (simp add: y1_def numeral_2_eq_2)
  have s2: "bit y2 i \<longleftrightarrow> (\<exists>k<4. bit y (i + k))" for i using smear_step [OF s1] by (simp add: y2_def)
  have s4: "bit y4 i \<longleftrightarrow> (\<exists>k<8. bit y (i + k))" for i using smear_step [OF s2] by (simp add: y4_def)
  have s8: "bit y8 i \<longleftrightarrow> (\<exists>k<16. bit y (i + k))" for i using smear_step [OF s4] by (simp add: y8_def)
  have s16: "bit y16 i \<longleftrightarrow> (\<exists>k<32. bit y (i + k))" for i using smear_step [OF s8] by (simp add: y16_def)
  have "next_pow2 x - 1 = y16"
    by (simp add: next_pow2_def Let_def y_def y1_def y2_def y4_def y8_def y16_def)
  moreover have "(\<exists>k<32. bit y (i + k)) \<longleftrightarrow> (\<exists>j\<ge>i. bit y j)"
  proof (intro iffI)
    assume "\<exists>j\<ge>i. bit y j"
    then obtain j where j: "i \<le> j" "bit y j" by blast
    then have "j < 32" using bit_imp_le_length [of y j] by simp
    then show "\<exists>k<32. bit y (i + k)" using j by (intro exI [of _ "j - i"]) simp
  next
    assume "\<exists>k<32. bit y (i + k)"
    then show "\<exists>j\<ge>i. bit y j" using le_add1 by blast
  qed
  ultimately show ?thesis using s16 by (simp add: y_def)
qed

lemma next_pow2_power:
  assumes "unat x = y + 1" and "y < 2 ^ 31"
  defines "n \<equiv> (LEAST n. y < 2 ^ n)"
  shows "next_pow2 x = 2 ^ n" and "n \<le> 31" and "y < 2 ^ n"
proof -
  show n: "y < 2 ^ n" unfolding n_def by (rule LeastI [of _ 31]) (rule assms(2))
  show n31: "n \<le> 31" unfolding n_def by (rule Least_le) (rule assms(2))
  have d: "unat (x - 1) = y" using assms(1) unat_dec [of x] by (metis add_diff_cancel_right' add_eq_0_iff_both_eq_0 one_neq_zero unsigned_0)
  have bits: "bit (x - 1) j \<longleftrightarrow> bit y j" for j unfolding d [symmetric] by (simp add: bit_unsigned_iff)
  have high: "\<not> bit y j" if "n \<le> j" for j
  proof -
    have "y < 2 ^ j" using n power_increasing [OF that, of "2 :: nat"] by linarith
    then show ?thesis by (simp add: bit_iff_odd)
  qed
  have low: "\<exists>j\<ge>i. bit y j" if "i < n" for i
  proof -
    have "\<not> y < 2 ^ (n - 1)" using not_less_Least [of "n - 1" "\<lambda>n. y < 2 ^ n"] that by (simp add: n_def [symmetric])
    moreover have "y < 2 * 2 ^ (n - 1)" using n that by (metis gr0_implies_Suc diff_Suc_1 less_nat_zero_code not_gr_zero power_Suc)
    ultimately have "y div 2 ^ (n - 1) = 1" by (intro div_nat_eqI) simp_all
    then have "bit y (n - 1)" by (simp add: bit_iff_odd)
    then show ?thesis using that by (intro exI [of _ "n - 1"]) simp
  qed
  have "next_pow2 x - 1 = mask n"
  proof (rule bit_eqI)
    fix i
    show "bit (next_pow2 x - 1) i \<longleftrightarrow> bit (mask n :: u32) i"
      using low [of i] high n31 by (cases "i < n") (auto simp: next_pow2_smear bits bit_mask_iff)
  qed
  then show "next_pow2 x = 2 ^ n" by (metis add_diff_cancel_right' diff_add_cancel mask_eq_decr_exp)
qed

lemma unat_power: "n \<le> 31 \<Longrightarrow> unat (2 ^ n :: u32) = 2 ^ n"
proof -
  assume "n \<le> 31"
  then have "(2 :: nat) ^ n < 2 ^ 32" by (intro power_strict_increasing) simp_all
  then show ?thesis using unat_of_nat_small [of "2 ^ n"] by (simp only: of_nat_power of_nat_numeral)
qed

text \<open>C39. The shift that stands for a frame rate is the logarithm of the rate, rounded up: for a number of frames from 1 to
  \<open>2 ^ 31\<close>, \<open>next_pow2\<close> is the least power of two that is not less, and \<open>pow2_shift\<close>, a multiplication
  and a table, is its exponent.\<close>

theorem frame_rate_shift:
  assumes "1 \<le> x" and "x \<le> 2 ^ 31"
  shows "next_pow2 x = 2 ^ pow2_shift (next_pow2 x) \<and> pow2_shift (next_pow2 x) \<le> 31 \<and> x \<le> next_pow2 x
    \<and> (\<forall>k. unat x \<le> 2 ^ k \<longrightarrow> pow2_shift (next_pow2 x) \<le> k)"
proof -
  define y where "y = unat x - 1"
  have y: "unat x = y + 1" using assms(1) by (simp add: y_def word_le_nat_alt)
  have y31: "y < 2 ^ 31" using assms(2) y unat_power [of 31] by (simp add: word_le_nat_alt)
  define n where "n = (LEAST n. y < 2 ^ n)"
  note n = next_pow2_power [OF y y31, folded n_def]
  have "pow2_shift (next_pow2 x) = n" unfolding n(1) using n(2) by (intro pow2_shift_power) simp
  moreover have "x \<le> next_pow2 x" unfolding n(1) word_le_nat_alt unat_power [OF n(2)] y using n(3) by simp
  moreover have "n \<le> k" if "unat x \<le> 2 ^ k" for k unfolding n_def by (rule Least_le) (use that y in simp)
  ultimately show ?thesis using n(1,2) by simp
qed

theorem frame_rate_shift_witness: "pow2_shift (next_pow2 30) = 5 \<and> 30 \<le> next_pow2 30"
proof -
  have "(1 :: u32) \<le> 30" "(30 :: u32) \<le> 2 ^ 31" by simp_all
  note f = frame_rate_shift [OF this]
  have "next_pow2 30 = 2 ^ 5" by code_simp
  then show ?thesis using f pow2_shift_power [of 5] by simp
qed

subsection \<open>Moving averages\<close>

definition FILTER_DURATION :: int where "FILTER_DURATION = 2"
definition MAX_FILTER_LENGTH :: nat where "MAX_FILTER_LENGTH = 180"

definition MAX_TIME :: int where "MAX_TIME = int64_max"
definition MIN_TIME :: int where "MIN_TIME = int64_min"

definition saturate_add :: "int \<Rightarrow> int \<Rightarrow> int" where
  "saturate_add a b =
     (let sum = s64 (a + b)
      in if a > 0 \<and> b > 0 \<and> sum < 0 then MAX_TIME
         else if a < 0 \<and> b < 0 \<and> sum > 0 then MIN_TIME
         else sum)"

record filter_t =
  fl_first :: u32
  fl_last :: u32
  fl_count :: u32
  fl_length :: u32
  fl_sum :: int
  fl_h :: "int list"

definition filter_init :: "u32 \<Rightarrow> filter_t" where
  "filter_init len = \<lparr>fl_first = 0, fl_last = len - 1, fl_count = 0, fl_length = len, fl_sum = 0,
     fl_h = replicate MAX_FILTER_LENGTH 0\<rparr>"

definition filter_index_wrap :: "u32 \<Rightarrow> u32 \<Rightarrow> u32" where
  "filter_index_wrap index len = (if index + 1 < len then index + 1 else 0)"

definition filter_drop :: "filter_t \<Rightarrow> filter_t option" where
  "filter_drop f =
     (if fl_count f = 0 then Some f
      else if unat (fl_first f) < length (fl_h f)
      then Some (f\<lparr>fl_sum := s64 (fl_sum f - fl_h f ! unat (fl_first f)),
                   fl_first := filter_index_wrap (fl_first f) (fl_length f),
                   fl_count := fl_count f - 1\<rparr>)
      else None)"

definition filter_insert :: "filter_t \<Rightarrow> int \<Rightarrow> filter_t option" where
  "filter_insert f sample = do {
     f \<leftarrow> (if fl_count f = fl_length f then filter_drop f else Some f);
     let i = filter_index_wrap (fl_last f) (fl_length f);
     if unat i < length (fl_h f)
     then Some (f\<lparr>fl_last := i, fl_h := (fl_h f)[unat i := sample], fl_sum := saturate_add (fl_sum f) sample,
                  fl_count := fl_count f + 1\<rparr>)
     else None
   }"

fun filter_run :: "filter_t \<Rightarrow> int list \<Rightarrow> filter_t option" where
  "filter_run f [] = Some f"
| "filter_run f (x # xs) = Option.bind (filter_insert f x) (\<lambda>f. filter_run f xs)"

lemma filter_run_snoc: "filter_run f (xs @ [x]) = Option.bind (filter_run f xs) (\<lambda>f. filter_insert f x)"
  by (induction xs arbitrary: f) (auto split: Option.bind_splits)

text \<open>What a filter stands for: the samples \<open>xs\<close>, the oldest one first, of which there are at most \<open>n\<close>.\<close>

definition window :: "nat \<Rightarrow> filter_t \<Rightarrow> int list \<Rightarrow> bool" where
  "window n f xs \<longleftrightarrow> 1 \<le> n \<and> n \<le> MAX_FILTER_LENGTH \<and> length (fl_h f) = MAX_FILTER_LENGTH
     \<and> fl_length f = of_nat n \<and> length xs \<le> n \<and> fl_count f = of_nat (length xs)
     \<and> fl_sum f = sum_list xs
     \<and> (\<exists>k<n. fl_first f = of_nat k \<and> fl_last f = of_nat ((k + length xs + n - 1) mod n)
           \<and> (\<forall>i<length xs. fl_h f ! ((k + i) mod n) = xs ! i))"

definition small_sample :: "int \<Rightarrow> bool" where "small_sample x \<longleftrightarrow> \<bar>x\<bar> \<le> 2 ^ 55"

lemma sum_small: "\<forall>x\<in>set xs. small_sample x \<Longrightarrow> \<bar>sum_list xs\<bar> \<le> int (length xs) * 2 ^ 55"
  by (induction xs) (auto simp: small_sample_def algebra_simps)

lemma wrap_index:
  assumes "i < n" "n \<le> MAX_FILTER_LENGTH"
  shows "filter_index_wrap (of_nat i) (of_nat n) = of_nat ((i + 1) mod n)"
proof -
  have n: "n < 2 ^ 32" "i + 1 < 2 ^ 32" using assms by (simp_all add: MAX_FILTER_LENGTH_def)
  have e: "of_nat i + (1 :: u32) = of_nat (i + 1)" by simp
  have "(of_nat (i + 1) :: u32) < of_nat n \<longleftrightarrow> i + 1 < n"
    using n by (simp only: word_less_nat_alt unat_of_nat_small)
  then have "filter_index_wrap (of_nat i) (of_nat n) = (if i + 1 < n then of_nat (i + 1) else 0)"
    unfolding filter_index_wrap_def e by presburger
  then show ?thesis using assms(1) by (auto simp: mod_if)
qed

lemma window_init: "1 \<le> n \<Longrightarrow> n \<le> MAX_FILTER_LENGTH \<Longrightarrow> window n (filter_init (of_nat n)) []"
  by (auto simp: window_def filter_init_def of_nat_diff intro!: exI [of _ 0])

lemma window_drop:
  assumes "window n f (x # xs)" and "\<forall>y\<in>set (x # xs). small_sample y"
  shows "\<exists>f'. filter_drop f = Some f' \<and> window n f' xs"
proof -
  obtain k where k: "k < n" "fl_first f = of_nat k" "fl_last f = of_nat ((k + length xs + n) mod n)"
      "\<forall>i<Suc (length xs). fl_h f ! ((k + i) mod n) = (x # xs) ! i"
    and n: "1 \<le> n" "n \<le> 180" "length (fl_h f) = 180" "fl_length f = of_nat n" "length xs < n"
      "fl_count f = of_nat (Suc (length xs))" "fl_sum f = x + sum_list xs"
    using assms(1) by (auto simp: window_def MAX_FILTER_LENGTH_def)
  have c: "fl_count f \<noteq> 0"
  proof -
    have "unat (fl_count f) = Suc (length xs)" unfolding n(6) using n by (intro unat_of_nat_small) simp
    then show ?thesis by (metis nat.distinct(1) unsigned_0)
  qed
  have u: "unat (fl_first f) = k" unfolding k(2) using k(1) n by (intro unat_of_nat_small) simp
  have h: "fl_h f ! k = x" using k(4) k(1) by force
  have "\<bar>sum_list xs\<bar> \<le> int (length xs) * 2 ^ 55" using assms(2) by (intro sum_small) simp
  moreover have "int (length xs) * 2 ^ 55 \<le> 180 * 2 ^ 55" using n by (intro mult_right_mono) simp_all
  ultimately have s: "s64 (sum_list xs) = sum_list xs" by (intro s64_in in64I) simp
  have "filter_drop f = Some (f\<lparr>fl_sum := sum_list xs, fl_first := of_nat ((k + 1) mod n), fl_count := of_nat (length xs)\<rparr>)"
    using c u h n k(1) wrap_index [OF k(1)] by (simp add: filter_drop_def s MAX_FILTER_LENGTH_def) (simp add: k(2))
  moreover have "window n (f\<lparr>fl_sum := sum_list xs, fl_first := of_nat ((k + 1) mod n), fl_count := of_nat (length xs)\<rparr>) xs"
  proof -
    have "(k + 1) mod n < n" using n by simp
    moreover have "((k + 1) mod n + length xs + n - 1) mod n = (k + length xs + n) mod n"
    proof -
      have "(k + 1) mod n + length xs + n - 1 = (k + 1) mod n + (length xs + (n - 1))" using n(1) by linarith
      then have "((k + 1) mod n + length xs + n - 1) mod n = ((k + 1) mod n + (length xs + (n - 1))) mod n" by (simp only:)
      also have "\<dots> = (k + 1 + (length xs + (n - 1))) mod n" by (rule mod_add_left_eq)
      finally show ?thesis using n by (simp add: algebra_simps)
    qed
    moreover have "fl_h f ! (((k + 1) mod n + i) mod n) = xs ! i" if "i < length xs" for i
      using k(4) [rule_format, of "Suc i"] that by (simp add: mod_add_left_eq)
    ultimately show ?thesis using n k(3) by (auto simp: window_def MAX_FILTER_LENGTH_def intro!: exI [of _ "(k + 1) mod n"])
  qed
  ultimately show ?thesis by blast
qed

lemma saturate_add_in: "in64 (a + b) \<Longrightarrow> saturate_add a b = a + b"
  by (simp add: saturate_add_def s64_in Let_def)

lemma window_push:
  assumes "window n f xs" and "length xs < n" and "\<forall>y\<in>set (xs @ [x]). small_sample y"
  shows "\<exists>f'. (let i = filter_index_wrap (fl_last f) (fl_length f) in
      if unat i < length (fl_h f)
      then Some (f\<lparr>fl_last := i, fl_h := (fl_h f)[unat i := x], fl_sum := saturate_add (fl_sum f) x,
                  fl_count := fl_count f + 1\<rparr>)
      else None) = Some f' \<and> window n f' (xs @ [x])"
proof -
  obtain k where k: "k < n" "fl_first f = of_nat k" "fl_last f = of_nat ((k + length xs + n - 1) mod n)"
      "\<forall>i<length xs. fl_h f ! ((k + i) mod n) = xs ! i"
    and n: "1 \<le> n" "n \<le> 180" "length (fl_h f) = 180" "fl_length f = of_nat n"
      "fl_count f = of_nat (length xs)" "fl_sum f = sum_list xs"
    using assms(1) by (auto simp: window_def MAX_FILTER_LENGTH_def)
  define j where "j = (k + length xs) mod n"
  have j: "j < n" using n by (simp add: j_def)
  have i: "filter_index_wrap (fl_last f) (fl_length f) = of_nat j"
  proof -
    have "((k + length xs + n - 1) mod n + 1) mod n = (k + length xs + n - 1 + 1) mod n" by (rule mod_add_left_eq)
    then have "((k + length xs + n - 1) mod n + 1) mod n = j" using n by (simp add: j_def)
    moreover have "(k + length xs + n - 1) mod n < n" using n by simp
    ultimately show ?thesis using wrap_index [of "(k + length xs + n - 1) mod n" n] n by (simp add: k(3) MAX_FILTER_LENGTH_def)
  qed
  have u: "unat (of_nat j :: u32) = j" using j n by (intro unat_of_nat_small) simp
  have "\<bar>sum_list (xs @ [x])\<bar> \<le> int (length (xs @ [x])) * 2 ^ 55" using assms(3) by (intro sum_small)
  moreover have "int (length (xs @ [x])) * 2 ^ 55 \<le> 180 * 2 ^ 55" using assms(2) n by (intro mult_right_mono) simp_all
  ultimately have s: "saturate_add (sum_list xs) x = sum_list xs + x" by (intro saturate_add_in in64I) simp
  have "window n (f\<lparr>fl_last := of_nat j, fl_h := (fl_h f)[j := x], fl_sum := sum_list xs + x, fl_count := of_nat (length xs) + 1\<rparr>) (xs @ [x])"
  proof -
    have "(fl_h f)[j := x] ! ((k + i) mod n) = (xs @ [x]) ! i" if i: "i < Suc (length xs)" for i
    proof (cases "i = length xs")
      case True
      moreover have "j < length (fl_h f)" using j n by linarith
      ultimately show ?thesis by (simp add: nth_append flip: j_def)
    next
      case False
      then have "i < length xs" using i by simp
      moreover have "(k + i) mod n \<noteq> j"
      proof
        assume "(k + i) mod n = j"
        then have "(length xs - i) mod n = 0"
          using \<open>i < length xs\<close> mod_eq_dvd_iff_nat [of "k + i" "k + length xs" n] by (simp add: j_def)
        moreover have "length xs - i < n" using assms(2) by simp
        ultimately show False using \<open>i < length xs\<close> by simp
      qed
      ultimately show ?thesis using k(4) by (simp add: nth_append)
    qed
    moreover have "(k + Suc (length xs) + n - 1) mod n = j" by (simp add: j_def)
    ultimately show ?thesis using n k assms(2) by (auto simp: window_def MAX_FILTER_LENGTH_def intro!: exI [of _ k])
  qed
  moreover have "j < length (fl_h f)" using j n by linarith
  ultimately show ?thesis unfolding i Let_def u n(5,6) s by simp
qed

lemma window_insert:
  assumes "window n f xs" and "\<forall>y\<in>set (xs @ [x]). small_sample y"
  shows "\<exists>f'. filter_insert f x = Some f' \<and> window n f' (drop (Suc (length xs) - n) (xs @ [x]))"
proof (cases "length xs = n")
  case True
  then obtain y ys where xs: "xs = y # ys" using assms(1) by (cases xs) (auto simp: window_def)
  obtain g where g: "filter_drop f = Some g" "window n g ys" using window_drop [of n f y ys] assms xs by auto
  have "fl_count f = fl_length f" using assms(1) True by (simp add: window_def)
  moreover obtain f' where "(let i = filter_index_wrap (fl_last g) (fl_length g) in
      if unat i < length (fl_h g)
      then Some (g\<lparr>fl_last := i, fl_h := (fl_h g)[unat i := x], fl_sum := saturate_add (fl_sum g) x,
                  fl_count := fl_count g + 1\<rparr>)
      else None) = Some f'" "window n f' (ys @ [x])"
    using window_push [OF g(2), of x] assms(2) True xs by auto
  ultimately show ?thesis using g(1) True xs by (intro exI [of _ f']) (simp add: filter_insert_def)
next
  case False
  then have l: "length xs < n" using assms(1) by (simp add: window_def)
  have "n < 2 ^ 32" using assms(1) by (simp add: window_def MAX_FILTER_LENGTH_def)
  then have "(of_nat (length xs) :: u32) \<noteq> of_nat n" using l by (metis less_imp_neq order_less_trans unat_of_nat_small)
  then have "fl_count f \<noteq> fl_length f" using assms(1) by (simp add: window_def)
  then show ?thesis using window_push [OF assms(1) l assms(2)] l by (simp add: filter_insert_def)
qed

lemma window_run:
  assumes "window n f xs" and "\<forall>y\<in>set (xs @ ys). small_sample y"
  shows "\<exists>f'. filter_run f ys = Some f' \<and> window n f' (drop (length xs + length ys - n) (xs @ ys))"
  using assms
proof (induction ys arbitrary: f xs)
  case Nil
  then have "length xs \<le> n" by (simp add: window_def)
  then show ?case using Nil by simp
next
  case (Cons y ys)
  let ?xs = "drop (Suc (length xs) - n) (xs @ [y])"
  obtain f1 where f1: "filter_insert f y = Some f1" "window n f1 ?xs"
    using window_insert [OF Cons.prems(1), of y] Cons.prems(2) by auto
  have "set ?xs \<subseteq> set (xs @ [y])" by (rule set_drop_subset)
  then have "\<forall>z\<in>set (?xs @ ys). small_sample z" using Cons.prems(2) by auto
  then obtain f2 where f2: "filter_run f1 ys = Some f2" "window n f2 (drop (length ?xs + length ys - n) (?xs @ ys))"
    using Cons.IH [OF f1(2)] by blast
  have "length xs \<le> n" "1 \<le> n" using Cons.prems(1) by (simp_all add: window_def)
  then have "drop (length ?xs + length ys - n) (?xs @ ys) = drop (length xs + length (y # ys) - n) (xs @ y # ys)"
    by (cases "length xs = n") (simp_all add: drop_Cons' drop_append)
  then show ?case using f1(1) f2 by (simp add: window_def)
qed

text \<open>The filter is a moving average: after any number of samples it holds the last \<open>n\<close> of them, where \<open>n\<close> is its length,
  or all when there are fewer; its sum is their sum, and no sample is written outside of its array. The samples are small enough for no sum of 180 of them to overflow.\<close>

theorem filter_holds_last_samples:
  assumes "1 \<le> n" and "n \<le> MAX_FILTER_LENGTH" and "\<forall>x\<in>set xs. small_sample x"
  shows "\<exists>f. filter_run (filter_init (of_nat n)) xs = Some f \<and> window n f (drop (length xs - n) xs)"
  using window_run [OF window_init [OF assms(1,2)], of xs] assms(3) by simp

theorem filter_holds_last_samples_witness:
  "\<exists>f. filter_run (filter_init 2) [5, 7, 9] = Some f \<and> fl_sum f = 16"
proof -
  have "1 \<le> (2 :: nat)" "2 \<le> MAX_FILTER_LENGTH" "\<forall>x\<in>set [5, 7, 9]. small_sample x"
    by (simp_all add: MAX_FILTER_LENGTH_def small_sample_def)
  from filter_holds_last_samples [OF this] show ?thesis by (auto simp: window_def)
qed

text \<open>A filter that is longer than its array: the sample after the last that fits is written outside.\<close>

lemma run_long_filter:
  assumes "180 < n" and "length xs \<le> 180"
  shows "\<exists>f. filter_run (filter_init n) xs = Some f \<and> fl_length f = n \<and> length (fl_h f) = 180
    \<and> fl_count f = of_nat (length xs) \<and> filter_index_wrap (fl_last f) n = of_nat (length xs)"
  using assms(2)
proof (induction xs rule: rev_induct)
  case Nil
  then show ?case by (simp add: filter_init_def MAX_FILTER_LENGTH_def filter_index_wrap_def)
next
  case (snoc x xs)
  then obtain f where f: "filter_run (filter_init n) xs = Some f" "fl_length f = n" "length (fl_h f) = 180"
      "fl_count f = of_nat (length xs)" "filter_index_wrap (fl_last f) n = of_nat (length xs)" by auto
  have u: "unat (of_nat (length xs) :: u32) = length xs" using snoc.prems by (intro unat_of_nat_small) simp
  have u1: "unat (of_nat (length xs + 1) :: u32) = length xs + 1" using snoc.prems by (intro unat_of_nat_small) simp
  have l: "of_nat (length xs) < n" "of_nat (length xs) + 1 < n"
  proof -
    have "unat (180 :: u32) = 180" by simp
    then have n: "180 < unat n" using assms(1) unfolding word_less_nat_alt by metis
    then show "of_nat (length xs) < n" using snoc.prems u unfolding word_less_nat_alt by simp
    have "of_nat (length xs) + 1 = (of_nat (length xs + 1) :: u32)" by simp
    then have "unat (of_nat (length xs) + 1 :: u32) = length xs + 1" using u1 by metis
    then show "of_nat (length xs) + 1 < n" using n snoc.prems unfolding word_less_nat_alt by simp
  qed
  then have "fl_count f \<noteq> fl_length f" using f by auto
  then have "filter_insert f x = Some (f\<lparr>fl_last := of_nat (length xs), fl_h := (fl_h f)[length xs := x],
      fl_sum := saturate_add (fl_sum f) x, fl_count := fl_count f + 1\<rparr>)"
    using f u snoc.prems by (simp add: filter_insert_def Let_def)
  then show ?case using f l by (simp add: filter_run_snoc add.commute filter_index_wrap_def)
qed

theorem long_filter_overruns:
  assumes "180 < n" and "length xs = 181"
  shows "filter_run (filter_init n) xs = None"
proof -
  obtain ys x where xs: "xs = ys @ [x]" "length ys = 180" using assms(2) by (cases xs rule: rev_cases) auto
  obtain f where f: "filter_run (filter_init n) ys = Some f" "fl_length f = n" "length (fl_h f) = 180"
      "fl_count f = 180" "filter_index_wrap (fl_last f) n = 180"
    using run_long_filter [OF assms(1), of ys] xs(2) by auto
  have "fl_count f \<noteq> fl_length f" using f assms(1) by auto
  then have "filter_insert f x = None" using f by (simp add: filter_insert_def)
  then show ?thesis using f(1) by (simp add: xs(1) filter_run_snoc)
qed

theorem long_filter_overruns_witness: "filter_run (filter_init 240) (replicate 181 0) = None"
proof -
  have "(180 :: u32) < 240" "length (replicate 181 (0 :: int)) = 181" by simp_all
  from long_filter_overruns [OF this] show ?thesis .
qed

subsection \<open>Streams\<close>

record clock_stream =
  cs_id :: nat
  cs_started :: bool
  cs_pts :: int
  cs_stc :: int
  cs_mt_off :: int
  mt_off_avg :: int
  mt_off_std :: int
  avg_filter :: filter_t
  std_filter :: filter_t

datatype clock_stream_event =
    CLOCK_STREAM_EVENT_NONE | CLOCK_STREAM_EVENT_STARTED | CLOCK_STREAM_EVENT_DISCONT | CLOCK_STREAM_EVENT_FRAME_COMPLETE

text \<open>The new stream; its memory comes from \<open>vcos_calloc\<close>.\<close>

definition new_stream :: "nat \<Rightarrow> u32 \<Rightarrow> clock_stream" where
  "new_stream i filter_length = \<lparr>cs_id = i, cs_started = False, cs_pts = 0, cs_stc = 0, cs_mt_off = 0, mt_off_avg = 0,
     mt_off_std = 0, avg_filter = filter_init filter_length, std_filter = filter_init filter_length\<rparr>"

definition clock_start_stream :: "int \<Rightarrow> int \<Rightarrow> clock_stream \<Rightarrow> clock_stream" where
  "clock_start_stream stc pts s = s\<lparr>cs_started := True, cs_pts := pts, cs_stc := stc\<rparr>"

definition clock_reset_stream :: "clock_stream \<Rightarrow> clock_stream" where
  "clock_reset_stream s = s\<lparr>cs_pts := 0, cs_stc := 0, cs_mt_off := 0, mt_off_avg := 0, mt_off_std := 0, cs_started := False,
     avg_filter := filter_init (fl_length (avg_filter s)), std_filter := filter_init (fl_length (std_filter s))\<rparr>"

text \<open>\<open>filter->sum / filter->count\<close>: signed, with a division by zero.\<close>

definition filter_mean :: "filter_t \<Rightarrow> int option" where
  "filter_mean f = (if fl_count f = 0 then None else Some (cdiv (fl_sum f) (uint (fl_count f))))"

definition clock_update_stream ::
    "int \<Rightarrow> int \<Rightarrow> int \<Rightarrow> clock_stream \<Rightarrow> (clock_stream_event \<times> clock_stream) option" where
  "clock_update_stream stc pts threshold s =
     (if pts = MMAL_TIME_UNKNOWN then Some (CLOCK_STREAM_EVENT_NONE, s)
      else if \<not> cs_started s then Some (CLOCK_STREAM_EVENT_STARTED, clock_start_stream stc pts s)
      else
        let pts_delta = s64 (pts - cs_pts s);
            stc_delta = s64 (stc - cs_stc s)
        in if abs_value pts_delta > threshold \<or> abs_value stc_delta > threshold
           then Some (CLOCK_STREAM_EVENT_DISCONT, s)
           else do {
             (event, s) \<leftarrow> (if pts_delta \<noteq> 0 then do {
                 let s = s\<lparr>cs_mt_off := s64 (cs_pts s - cs_stc s)\<rparr>;
                 f \<leftarrow> filter_insert (avg_filter s) (cs_mt_off s);
                 avg \<leftarrow> filter_mean f;
                 let s = s\<lparr>avg_filter := f, mt_off_avg := avg\<rparr>;
                 f \<leftarrow> filter_insert (std_filter s) (abs_value (s64 (cs_mt_off s - mt_off_avg s)));
                 std \<leftarrow> filter_mean f;
                 Some (CLOCK_STREAM_EVENT_FRAME_COMPLETE, s\<lparr>std_filter := f, mt_off_std := std\<rparr>)
               }
               else Some (CLOCK_STREAM_EVENT_NONE, s));
             Some (event, s\<lparr>cs_pts := pts, cs_stc := stc\<rparr>)
           })"

text \<open>The frames that arrive one after the other: wall time and time stamp.\<close>

fun stream_run :: "int \<Rightarrow> clock_stream \<Rightarrow> (int \<times> int) list \<Rightarrow> clock_stream option" where
  "stream_run threshold s [] = Some s"
| "stream_run threshold s ((stc, pts) # fs) =
     Option.bind (clock_update_stream stc pts threshold s) (\<lambda>(_, s). stream_run threshold s fs)"

definition small_time :: "int \<Rightarrow> bool" where "small_time t \<longleftrightarrow> \<bar>t\<bar> \<le> 2 ^ 52"

text \<open>Frames with new time stamps, without a discontinuity.\<close>

definition steady :: "int \<Rightarrow> (int \<times> int) \<Rightarrow> (int \<times> int) \<Rightarrow> bool" where
  "steady threshold f g \<longleftrightarrow> snd f \<noteq> snd g \<and> \<bar>snd g - snd f\<bar> \<le> threshold \<and> \<bar>fst g - fst f\<bar> \<le> threshold"

definition small_frame :: "int \<times> int \<Rightarrow> bool" where "small_frame f \<longleftrightarrow> small_time (fst f) \<and> small_time (snd f)"

definition media_offset :: "int \<times> int \<Rightarrow> int" where "media_offset f = snd f - fst f"

definition mean :: "int list \<Rightarrow> int" where "mean xs = cdiv (sum_list xs) (int (length xs))"

lemma sum_bound: "\<forall>x\<in>set xs. \<bar>x\<bar> \<le> b \<Longrightarrow> \<bar>sum_list xs\<bar> \<le> int (length xs) * b"
  by (induction xs) (auto simp: algebra_simps)

lemma mean_bound:
  assumes "\<forall>x\<in>set xs. \<bar>x\<bar> \<le> b" and "0 \<le> b"
  shows "\<bar>mean xs\<bar> \<le> b"
proof (cases "xs = []")
  case False
  then have n: "0 < int (length xs)" by simp
  have "\<bar>sum_list xs\<bar> div int (length xs) \<le> int (length xs) * b div int (length xs)"
    using sum_bound [OF assms(1)] n by (intro zdiv_mono1)
  then have "\<bar>sum_list xs\<bar> div int (length xs) \<le> b" using n by simp
  moreover have "\<bar>mean xs\<bar> \<le> \<bar>sum_list xs\<bar> div int (length xs)"
    using n by (auto simp: mean_def cdiv_def sgn_if abs_mult pos_imp_zdiv_nonneg_iff)
  ultimately show ?thesis by linarith
qed (simp add: mean_def assms)

lemma window_mean:
  assumes "window n f xs" and "xs \<noteq> []"
  shows "filter_mean f = Some (mean xs)"
proof -
  have l: "length xs < 2 ^ 32" using assms(1) by (simp add: window_def MAX_FILTER_LENGTH_def)
  then have u: "unat (fl_count f) = length xs" using assms(1) unat_of_nat_small [OF l] by (simp add: window_def)
  then have "fl_count f \<noteq> 0" using assms(2) by auto
  moreover have "uint (fl_count f) = int (length xs)" using u by (simp flip: u)
  ultimately show ?thesis using assms(1) by (simp add: filter_mean_def mean_def window_def)
qed

definition stream_holds :: "nat \<Rightarrow> clock_stream \<Rightarrow> int list \<Rightarrow> bool" where
  "stream_holds n s xs \<longleftrightarrow> window n (avg_filter s) xs \<and> (\<forall>x\<in>set xs. \<bar>x\<bar> \<le> 2 ^ 53)
     \<and> (\<exists>ds. window n (std_filter s) ds \<and> (\<forall>d\<in>set ds. 0 \<le> d \<and> d \<le> 2 ^ 54))"

lemma small_samples: "\<forall>x\<in>set xs. \<bar>x\<bar> \<le> b \<Longrightarrow> b \<le> 2 ^ 55 \<Longrightarrow> \<forall>x\<in>set xs. small_sample x"
  by (force simp: small_sample_def)

lemma insert_not_empty:
  assumes "window n f xs"
  shows "drop (Suc (length xs) - n) (xs @ [x]) \<noteq> []"
  using assms by (simp add: window_def)

lemma abs_value_small: "\<bar>x\<bar> < 2 ^ 63 \<Longrightarrow> abs_value x = \<bar>x\<bar>"
  by (simp add: abs_value_def s64_in in64I)

lemma stream_complete:
  assumes h: "stream_holds n s xs" and "cs_started s"
    and small: "small_frame (cs_stc s, cs_pts s)" "small_frame (stc, pts)"
    and steady: "steady threshold (cs_stc s, cs_pts s) (stc, pts)"
  defines "zs \<equiv> drop (Suc (length xs) - n) (xs @ [media_offset (cs_stc s, cs_pts s)])"
  shows "\<exists>s'. clock_update_stream stc pts threshold s = Some (CLOCK_STREAM_EVENT_FRAME_COMPLETE, s')
    \<and> stream_holds n s' zs \<and> cs_started s' \<and> cs_stc s' = stc \<and> cs_pts s' = pts \<and> mt_off_avg s' = mean zs"
proof -
  let ?x = "cs_pts s - cs_stc s"
  have b: "\<bar>pts\<bar> \<le> 2 ^ 52" "\<bar>stc\<bar> \<le> 2 ^ 52" "\<bar>cs_pts s\<bar> \<le> 2 ^ 52" "\<bar>cs_stc s\<bar> \<le> 2 ^ 52"
    using small by (simp_all add: small_frame_def small_time_def)
  have p: "(2 :: int) ^ 53 = 2 * 2 ^ 52" "(2 :: int) ^ 54 = 4 * 2 ^ 52" "(2 :: int) ^ 63 = 2048 * 2 ^ 52" by simp_all
  have x: "\<bar>?x\<bar> \<le> 2 ^ 53" using b unfolding p by linarith
  have r: "\<bar>pts - cs_pts s\<bar> < 2 ^ 63" "\<bar>stc - cs_stc s\<bar> < 2 ^ 63" "\<bar>?x\<bar> < 2 ^ 63"
    using b zero_less_power [of "2 :: int" 52] unfolding p by linarith+
  have w: "s64 (pts - cs_pts s) = pts - cs_pts s" "s64 (stc - cs_stc s) = stc - cs_stc s" "s64 ?x = ?x"
    using r by (simp_all add: s64_in in64I)
  have av: "abs_value (pts - cs_pts s) = \<bar>pts - cs_pts s\<bar>" "abs_value (stc - cs_stc s) = \<bar>stc - cs_stc s\<bar>"
    using r by (simp_all add: abs_value_small)
  obtain ds where win: "window n (avg_filter s) xs" "window n (std_filter s) ds"
    and xs: "\<forall>x\<in>set (xs @ [?x]). \<bar>x\<bar> \<le> 2 ^ 53" and ds: "\<forall>d\<in>set ds. 0 \<le> d \<and> d \<le> 2 ^ 54"
    using h x by (auto simp: stream_holds_def)
  obtain f where f: "filter_insert (avg_filter s) ?x = Some f" "window n f zs"
    using window_insert [OF win(1), of ?x] small_samples [OF xs] by (auto simp: zs_def media_offset_def)
  have ne: "zs \<noteq> []" unfolding zs_def by (rule insert_not_empty) (rule win(1))
  have sub: "set zs \<subseteq> set (xs @ [?x])" unfolding zs_def media_offset_def fst_conv snd_conv by (rule set_drop_subset)
  then have zb: "\<forall>z\<in>set zs. \<bar>z\<bar> \<le> 2 ^ 53" using xs by blast
  have m: "\<bar>mean zs\<bar> \<le> 2 ^ 53" by (intro mean_bound zb) simp
  define d where "d = \<bar>?x - mean zs\<bar>"
  have d: "abs_value (s64 (?x - mean zs)) = d" "0 \<le> d" "d \<le> 2 ^ 54"
  proof -
    have "\<bar>?x - mean zs\<bar> \<le> 2 ^ 54" using x m unfolding p by linarith
    then show "abs_value (s64 (?x - mean zs)) = d" "0 \<le> d" "d \<le> 2 ^ 54"
      by (simp_all add: d_def s64_in in64I abs_value_small)
  qed
  define es where "es = drop (Suc (length ds) - n) (ds @ [d])"
  have "\<forall>e\<in>set (ds @ [d]). \<bar>e\<bar> \<le> 2 ^ 54" using ds d by auto
  then obtain g where g: "filter_insert (std_filter s) d = Some g" "window n g es"
    using window_insert [OF win(2), of d] small_samples [of "ds @ [d]" "2 ^ 54"] by (auto simp: es_def)
  have "es \<noteq> []" unfolding es_def by (rule insert_not_empty) (rule win(2))
  then have gm: "filter_mean g = Some (mean es)" by (rule window_mean [OF g(2)])
  have eb: "\<forall>e\<in>set es. 0 \<le> e \<and> e \<le> 2 ^ 54"
  proof
    fix e
    assume "e \<in> set es"
    then have "e \<in> set (ds @ [d])" unfolding es_def by (rule subsetD [OF set_drop_subset])
    then show "0 \<le> e \<and> e \<le> 2 ^ 54" using ds d by auto
  qed
  have nu: "pts \<noteq> MMAL_TIME_UNKNOWN" using b by (auto simp: MMAL_TIME_UNKNOWN_def)
  have st: "pts \<noteq> cs_pts s" "\<not> \<bar>pts - cs_pts s\<bar> > threshold" "\<not> \<bar>stc - cs_stc s\<bar> > threshold"
    using steady by (auto simp: steady_def)
  define s' where "s' = s\<lparr>cs_pts := pts, cs_stc := stc, cs_mt_off := ?x, mt_off_avg := mean zs, mt_off_std := mean es,
      avg_filter := f, std_filter := g\<rparr>"
  have fm: "filter_mean f = Some (mean zs)" by (rule window_mean [OF f(2) ne])
  have "clock_update_stream stc pts threshold s = Some (CLOCK_STREAM_EVENT_FRAME_COMPLETE, s')"
    unfolding clock_update_stream_def Let_def w av if_not_P [OF nu] using st \<open>cs_started s\<close>
    by (simp add: w f(1) fm d(1) g(1) gm s'_def)
  moreover have "stream_holds n s' zs"
    unfolding stream_holds_def s'_def using f(2) g(2) zb eb by (intro conjI exI [of _ es]) simp_all
  ultimately show ?thesis using \<open>cs_started s\<close> by (intro exI [of _ s']) (simp add: s'_def)
qed

lemma stream_steady_run:
  assumes "stream_holds n s xs" "cs_started s" "small_frame (cs_stc s, cs_pts s)" "\<forall>f\<in>set fs. small_frame f"
    and "successively (steady threshold) ((cs_stc s, cs_pts s) # fs)" and "fs \<noteq> []"
  shows "\<exists>s'. stream_run threshold s fs = Some s'
    \<and> mt_off_avg s' = mean (drop (length xs + length fs - n) (xs @ map media_offset (butlast ((cs_stc s, cs_pts s) # fs))))"
  using assms
proof (induction fs arbitrary: s xs)
  case (Cons f fs)
  obtain stc pts where f: "f = (stc, pts)" by (cases f)
  let ?zs = "drop (Suc (length xs) - n) (xs @ [media_offset (cs_stc s, cs_pts s)])"
  obtain s1 where s1: "clock_update_stream stc pts threshold s = Some (CLOCK_STREAM_EVENT_FRAME_COMPLETE, s1)"
      "stream_holds n s1 ?zs" "cs_started s1" "cs_stc s1 = stc" "cs_pts s1 = pts" "mt_off_avg s1 = mean ?zs"
    using stream_complete [OF Cons.prems(1-3), of stc pts threshold] Cons.prems(4,5) f by auto
  show ?case
  proof (cases "fs = []")
    case True
    then show ?thesis using s1 f by simp
  next
    case False
    obtain s2 where s2: "stream_run threshold s1 fs = Some s2"
        "mt_off_avg s2 = mean (drop (length ?zs + length fs - n) (?zs @ map media_offset (butlast (f # fs))))"
      using Cons.IH [OF s1(2,3)] Cons.prems(4,5) False s1(4,5) f by auto
    have "length xs \<le> n" "1 \<le> n" using Cons.prems(1) by (simp_all add: stream_holds_def window_def)
    then have "drop (length ?zs + length fs - n) (?zs @ map media_offset (butlast (f # fs)))
        = drop (length xs + length (f # fs) - n) (xs @ map media_offset (butlast ((cs_stc s, cs_pts s) # f # fs)))"
      by (cases "length xs = n") (simp_all add: drop_Cons' drop_append)
    then show ?thesis using s1(1) s2 f by simp
  qed
qed simp

text \<open>C12. A stream follows its frames: when frames with new time stamps arrive and there is no discontinuity, the media
  time offset of the stream is the mean of the offsets (time stamp less arrival time) of the last \<open>n\<close> complete frames,
  where \<open>n\<close> is the length of its filter; a frame is complete when the next one arrives.\<close>

theorem stream_offset_is_mean:
  assumes "1 \<le> n" and "n \<le> MAX_FILTER_LENGTH"
    and "\<forall>f\<in>set (f # fs). small_frame f" and "successively (steady threshold) (f # fs)" and "fs \<noteq> []"
  shows "\<exists>s. stream_run threshold (new_stream i (of_nat n)) (f # fs) = Some s
    \<and> mt_off_avg s = mean (drop (length fs - n) (map media_offset (butlast (f # fs))))"
proof -
  obtain stc pts where f: "f = (stc, pts)" by (cases f)
  let ?s = "clock_start_stream stc pts (new_stream i (of_nat n))"
  have "pts \<noteq> MMAL_TIME_UNKNOWN" using assms(3) f by (auto simp: small_frame_def small_time_def MMAL_TIME_UNKNOWN_def)
  then have "clock_update_stream stc pts threshold (new_stream i (of_nat n)) = Some (CLOCK_STREAM_EVENT_STARTED, ?s)"
    by (simp add: clock_update_stream_def new_stream_def)
  moreover have "stream_holds n ?s []" using window_init [OF assms(1,2)]
    by (auto simp: stream_holds_def clock_start_stream_def new_stream_def intro!: exI [of _ "[]"])
  moreover have "cs_started ?s" "cs_stc ?s = stc" "cs_pts ?s = pts" by (simp_all add: clock_start_stream_def)
  ultimately show ?thesis using stream_steady_run [of n ?s "[]" fs threshold] assms f by simp
qed

theorem stream_offset_is_mean_witness:
  "\<exists>s. stream_run 1000 (new_stream 0 2) [(10, 0), (14, 5), (20, 10), (24, 15)] = Some s \<and> mt_off_avg s = - 9"
proof -
  have "1 \<le> (2 :: nat)" "2 \<le> MAX_FILTER_LENGTH" "\<forall>f\<in>set [(10, 0), (14, 5), (20, 10), (24, 15)]. small_frame f"
      "successively (steady 1000) [(10, 0), (14, 5), (20, 10), (24, 15)]" "[(14, 5), (20, 10), (24 :: int, 15 :: int)] \<noteq> []"
    by (simp_all add: MAX_FILTER_LENGTH_def small_frame_def small_time_def steady_def)
  from stream_offset_is_mean [OF this, of 0] show ?thesis by (simp add: mean_def media_offset_def cdiv_def)
qed

end
