(* ===== verification/ClockComponent.thy ===== *)
theory ClockComponent
  imports ClockFilter ClockSync
begin

text \<open>
  mmal/components/clock.c, the component: it has five clock ports, and computes from the time stamps that arrive on
  them the media time of all. What happens on a clock port is put in one of 16 event slots, whose addresses are
  their indexes; the link of a slot is its first member. The thread of the component takes the events in order.
  The streams and the state of the component are the client's part of the state of modules; the memory of the
  two lists of slots is not recorded when it is freed.
\<close>

subsection \<open>State\<close>

record clock_port_event =
  cpe_port :: addr
  cpe_event :: clock_event

record clock_module =
  cc_block :: ptr
  cc_status :: mmal_status
  clock_discont :: bool
  stream_min_id :: nat
  stream_max_id :: nat
  mt_off_target :: int
  mt_off_clk :: int
  adj_p :: int
  adj_m :: int
  cc_adj :: int
  stc_at_update :: int
  frame_duration :: int
  frame_rate :: mmal_rational
  frame_rate_log2 :: nat
  cc_scale :: mmal_rational
  pending_scale :: bool
  cc_latency :: "int \<times> int \<times> int"
  cc_update_threshold :: "int \<times> int"
  cc_discont_threshold :: "int \<times> int"
  cc_request_threshold :: "int \<times> bool"
  events_queue :: list_ptr
  events_free :: list_ptr
  events_links :: lheap
  events_pool :: "addr \<Rightarrow> clock_port_event"

definition latency_target :: "clock_module \<Rightarrow> int" where "latency_target x = fst (cc_latency x)"
definition attack_period :: "clock_module \<Rightarrow> int" where "attack_period x = fst (snd (cc_latency x))"
definition attack_rate :: "clock_module \<Rightarrow> int" where "attack_rate x = snd (snd (cc_latency x))"

record 'v clock_env =
  clock_modules :: "addr \<Rightarrow> clock_module"
  port_stream :: "addr \<Rightarrow> ptr"
  clock_streams :: "addr \<Rightarrow> clock_stream"
  clock_user :: 'v

type_synonym 'v kworld = "'v clock_env mworld"
type_synonym 'v clock_port_ops = "'v clock_env module_env port_ops"

definition CLOCK_PORTS_NUM :: nat where "CLOCK_PORTS_NUM = 5"
definition MAX_CLOCK_EVENT_SLOTS :: nat where "MAX_CLOCK_EVENT_SLOTS = 16"
definition DEFAULT_FRAME_RATE :: int where "DEFAULT_FRAME_RATE = 30"
definition DEFAULT_CLOCK_LATENCY :: int where "DEFAULT_CLOCK_LATENCY = 60000"

definition zero_clock_module :: "ptr \<Rightarrow> clock_module" where
  "zero_clock_module block = \<lparr>cc_block = block, cc_status = MMAL_SUCCESS, clock_discont = False, stream_min_id = 0,
     stream_max_id = 0, mt_off_target = 0, mt_off_clk = 0, adj_p = 0, adj_m = 0, cc_adj = 0, stc_at_update = 0,
     frame_duration = 0, frame_rate = \<lparr>num = 0, den = 0\<rparr>, frame_rate_log2 = 0, cc_scale = \<lparr>num = 0, den = 0\<rparr>,
     pending_scale = False, cc_latency = (0, 0, 0), cc_update_threshold = (0, 0), cc_discont_threshold = (0, 0),
     cc_request_threshold = (0, False), events_queue = ListNull, events_free = ListNull,
     events_links = (\<lambda>_. \<lparr>lnext = None, lprev = None\<rparr>),
     events_pool = (\<lambda>_. \<lparr>cpe_port = 0, cpe_event = (clock_event_init 0)\<lparr>ce_magic := 0\<rparr>\<rparr>)\<rparr>"

definition kmod_at :: "'v kworld \<Rightarrow> addr \<Rightarrow> clock_module" where
  "kmod_at m c = clock_modules (client_of m) c"

definition upd_kmod :: "addr \<Rightarrow> (clock_module \<Rightarrow> clock_module) \<Rightarrow> 'v kworld \<Rightarrow> 'v kworld" where
  "upd_kmod c f = upd_client (\<lambda>x. x\<lparr>clock_modules := (clock_modules x)(c := f (clock_modules x c))\<rparr>)"

definition stream_of :: "'v kworld \<Rightarrow> addr \<Rightarrow> ptr" where
  "stream_of m p = port_stream (client_of m) p"

definition set_stream_of :: "addr \<Rightarrow> ptr \<Rightarrow> 'v kworld \<Rightarrow> 'v kworld" where
  "set_stream_of p s = upd_client (\<lambda>x. x\<lparr>port_stream := (port_stream x)(p := s)\<rparr>)"

definition stream_at :: "'v kworld \<Rightarrow> addr \<Rightarrow> clock_stream" where
  "stream_at m s = clock_streams (client_of m) s"

definition upd_stream :: "addr \<Rightarrow> (clock_stream \<Rightarrow> clock_stream) \<Rightarrow> 'v kworld \<Rightarrow> 'v kworld" where
  "upd_stream s f = upd_client (\<lambda>x. x\<lparr>clock_streams := (clock_streams x)(s := f (clock_streams x s))\<rparr>)"

definition clock_create_stream :: "addr \<Rightarrow> nat \<Rightarrow> u32 \<Rightarrow> 'v kworld \<Rightarrow> bool \<times> 'v kworld" where
  "clock_create_stream p i filter_length m =
     (let (block, e) = core_malloc (env (ctx m));
          m = set_env e m
      in case block of
           None \<Rightarrow> (False, m)
         | Some s \<Rightarrow> (True, set_stream_of p (Some s) (upd_stream s (\<lambda>_. new_stream i filter_length) m)))"

subsection \<open>The clocks\<close>

fun start_clock_ports :: "'v clock_port_ops \<Rightarrow> addr \<Rightarrow> int \<Rightarrow> addr list \<Rightarrow> 'v kworld \<Rightarrow> 'v kworld option" where
  "start_clock_ports ops c media_time [] m = Some m"
| "start_clock_ports ops c media_time (p # ps) m = do {
     m \<leftarrow> (if pt_enabled (port_at m p) then do {
            let m = snd (mmal_port_clock_reference_set p True m);
            (_, m) \<leftarrow> mmal_port_clock_media_time_set ops p media_time m;
            (_, m) \<leftarrow> mmal_port_clock_update_threshold_set ops p (cc_update_threshold (kmod_at m c)) m;
            (_, m) \<leftarrow> mmal_port_clock_discont_threshold_set ops p (cc_discont_threshold (kmod_at m c)) m;
            (_, m) \<leftarrow> mmal_port_clock_request_threshold_set ops p (cc_request_threshold (kmod_at m c)) m;
            (_, m) \<leftarrow> mmal_port_clock_active_set ops p True m;
            Some m
          } else Some m);
     start_clock_ports ops c media_time ps m
   }"

definition clock_start_clocks :: "'v clock_port_ops \<Rightarrow> addr \<Rightarrow> int \<Rightarrow> 'v kworld \<Rightarrow> 'v kworld option" where
  "clock_start_clocks ops c media_time m = start_clock_ports ops c media_time (cp_clock (component_at m c)) m"

fun stop_clock_ports ::
    "'v clock_port_ops \<Rightarrow> 'v clock_env clock_callbacks \<Rightarrow> addr list \<Rightarrow> 'v kworld \<Rightarrow> 'v kworld option" where
  "stop_clock_ports ops cbs [] m = Some m"
| "stop_clock_ports ops cbs (p # ps) m = do {
     m \<leftarrow> (if pt_enabled (port_at m p) then do {
            (_, m) \<leftarrow> mmal_port_clock_request_flush cbs p m;
            (_, m) \<leftarrow> mmal_port_clock_active_set ops p False m;
            Some m
          } else Some m);
     stop_clock_ports ops cbs ps m
   }"

definition clock_stop_clocks ::
    "'v clock_port_ops \<Rightarrow> 'v clock_env clock_callbacks \<Rightarrow> addr \<Rightarrow> 'v kworld \<Rightarrow> 'v kworld option" where
  "clock_stop_clocks ops cbs c m = stop_clock_ports ops cbs (cp_clock (component_at m c)) m"

definition reset_port_stream :: "addr \<Rightarrow> 'v kworld \<Rightarrow> 'v kworld" where
  "reset_port_stream p m = (case stream_of m p of None \<Rightarrow> m | Some s \<Rightarrow> upd_stream s clock_reset_stream m)"

definition clock_reset_clocks :: "addr \<Rightarrow> 'v kworld \<Rightarrow> 'v kworld" where
  "clock_reset_clocks c m =
     upd_kmod c (\<lambda>x. x\<lparr>clock_discont := True\<rparr>) (fold reset_port_stream (cp_clock (component_at m c)) m)"

fun set_port_media_times :: "'v clock_port_ops \<Rightarrow> int \<Rightarrow> addr list \<Rightarrow> 'v kworld \<Rightarrow> 'v kworld option" where
  "set_port_media_times ops media_time [] m = Some m"
| "set_port_media_times ops media_time (p # ps) m = do {
     m \<leftarrow> (if pt_enabled (port_at m p) then map_option snd (mmal_port_clock_media_time_set ops p media_time m) else Some m);
     set_port_media_times ops media_time ps m
   }"

definition clock_set_media_time :: "'v clock_port_ops \<Rightarrow> addr \<Rightarrow> int \<Rightarrow> 'v kworld \<Rightarrow> 'v kworld option" where
  "clock_set_media_time ops c media_time m = set_port_media_times ops media_time (cp_clock (component_at m c)) m"

text \<open>A setting of all the ports, enabled or not.\<close>

fun set_all_ports :: "(addr \<Rightarrow> 'v kworld \<Rightarrow> (mmal_status \<times> 'v kworld) option) \<Rightarrow> addr list \<Rightarrow> 'v kworld \<Rightarrow> 'v kworld option" where
  "set_all_ports f [] m = Some m"
| "set_all_ports f (p # ps) m = Option.bind (f p m) (\<lambda>(_, m). set_all_ports f ps m)"

definition clock_set_scale :: "'v clock_port_ops \<Rightarrow> addr \<Rightarrow> mmal_rational \<Rightarrow> 'v kworld \<Rightarrow> 'v kworld option" where
  "clock_set_scale ops c scale m =
     map_option (upd_kmod c (\<lambda>x. x\<lparr>pending_scale := False\<rparr>))
       (set_all_ports (\<lambda>p. mmal_port_clock_scale_set ops p scale) (cp_clock (component_at m c)) m)"

subsection \<open>The control loop\<close>

text \<open>The filters of a stream that has not seen a frame for some time lose samples.\<close>

definition drop_samples :: "int \<Rightarrow> int \<Rightarrow> int \<Rightarrow> clock_stream \<Rightarrow> clock_stream option" where
  "drop_samples stc drop_threshold reset_threshold s =
     (let stc_delta = s64 (stc - cs_stc s)
      in if stc_delta > reset_threshold
         then Some (s\<lparr>avg_filter := filter_init (fl_length (avg_filter s)), std_filter := filter_init (fl_length (std_filter s))\<rparr>)
         else if stc_delta > drop_threshold
         then do {
           f \<leftarrow> filter_drop (avg_filter s);
           g \<leftarrow> filter_drop (std_filter s);
           Some (s\<lparr>avg_filter := f, std_filter := g\<rparr>)
         }
         else Some s)"

definition update_means :: "clock_stream \<Rightarrow> clock_stream option" where
  "update_means s = do {
     avg \<leftarrow> filter_mean (avg_filter s);
     std \<leftarrow> filter_mean (std_filter s);
     Some (s\<lparr>mt_off_avg := avg, mt_off_std := std\<rparr>)
   }"

definition avg_bias :: "clock_stream \<Rightarrow> int option" where
  "avg_bias s =
     (let f = avg_filter s
      in if fl_length f = 0 then None
         else Some (cdiv (s64 (uint (fl_length f - fl_count f) * abs_value (mt_off_avg s))) (uint (fl_length f))))"

text \<open>The least and the greatest average so far, with the streams that have them.\<close>

type_synonym extremes = "(int \<times> ptr) \<times> (int \<times> ptr)"

definition choose_stream :: "addr \<Rightarrow> clock_stream \<Rightarrow> extremes \<Rightarrow> extremes option" where
  "choose_stream a s x = do {
     bias \<leftarrow> avg_bias s;
     let ((avg_min, minimum), (avg_max, maximum)) = x;
     Some (if s64 (mt_off_avg s + bias) < avg_min then (mt_off_avg s, Some a) else (avg_min, minimum),
           if s64 (mt_off_avg s - bias) > avg_max then (mt_off_avg s, Some a) else (avg_max, maximum))
   }"

fun scan_streams :: "int \<Rightarrow> int \<Rightarrow> int \<Rightarrow> addr list \<Rightarrow> extremes \<Rightarrow> 'v kworld \<Rightarrow> (extremes \<times> 'v kworld) option" where
  "scan_streams stc drop_threshold reset_threshold [] x m = Some (x, m)"
| "scan_streams stc drop_threshold reset_threshold (p # ps) x m =
     (case stream_of m p of
        None \<Rightarrow> scan_streams stc drop_threshold reset_threshold ps x m
      | Some a \<Rightarrow> do {
          s \<leftarrow> drop_samples stc drop_threshold reset_threshold (stream_at m a);
          if fl_count (avg_filter s) = 0
          then scan_streams stc drop_threshold reset_threshold ps x (upd_stream a (\<lambda>_. s) m)
          else do {
            s \<leftarrow> update_means s;
            x \<leftarrow> choose_stream a s x;
            scan_streams stc drop_threshold reset_threshold ps x (upd_stream a (\<lambda>_. s) m)
          }
        })"

definition clock_get_mt_off_avg :: "addr \<Rightarrow> int \<Rightarrow> 'v kworld \<Rightarrow> (ptr \<times> ptr \<times> 'v kworld) option" where
  "clock_get_mt_off_avg c stc m = do {
     let drop_threshold = s64 (6 * frame_duration (kmod_at m c));
     let reset_threshold = s64 (latency_target (kmod_at m c) * 2);
     (((_, minimum), (_, maximum)), m) \<leftarrow>
        scan_streams stc drop_threshold reset_threshold (cp_clock (component_at m c)) ((MAX_TIME, None), (MIN_TIME, None)) m;
     Some (minimum, maximum, m)
   }"

text \<open>The adjustment of the clock when there was no discontinuity, in its four parts: the target, the proportional adjustment,
  capped by the attack rate, the confidence in it, and its application to the clock. \<open>None\<close> is a division by zero.\<close>

definition set_target :: "clock_stream \<Rightarrow> clock_stream \<Rightarrow> clock_module \<Rightarrow> clock_module" where
  "set_target stream_min stream_max x =
     (let mt_off_target_max = s64 (mt_off_avg stream_max - latency_target x);
          mt_off_target_min = s64 (mt_off_avg stream_min - frame_duration x)
      in x\<lparr>mt_off_target := (if mt_off_target_max < mt_off_target_min then mt_off_target_max else mt_off_target_min)\<rparr>)"

definition set_proportional :: "int \<Rightarrow> int \<Rightarrow> clock_module \<Rightarrow> clock_module option" where
  "set_proportional stc stc_prev x =
     (let stc_delta = (if stc > stc_prev then s64 (stc - stc_prev) else 0)
      in if attack_period x = 0 then None
         else
           let adj_p_max = s64 (cdiv (s64 (stc_delta * attack_rate x)) (attack_period x));
               d = s64 (mt_off_target x - mt_off_clk x)
           in Some (x\<lparr>adj_p := (if d < s64 (- adj_p_max) then s64 (- adj_p_max) else if d > adj_p_max then adj_p_max else d)\<rparr>))"

definition set_confidence :: "clock_stream \<Rightarrow> clock_module \<Rightarrow> clock_module" where
  "set_confidence stream_min x =
     x\<lparr>adj_m := max (s64 (2 ^ 20 - s64 (mt_off_std stream_min * 2 ^ frame_rate_log2 x) div 4)) 0\<rparr>"

definition move_clock :: "filter_t \<Rightarrow> clock_module \<Rightarrow> clock_module option" where
  "move_clock f x =
     (let adj = s64 (adj_p x * adj_m x) div 2 ^ 20
      in if fl_length f = 0 then None
         else
           let adj = cdiv (s64 (adj * uint (push_bit 8 (fl_count f)))) (uint (fl_length f)) div 2 ^ 8
           in Some (x\<lparr>cc_adj := adj, mt_off_clk := s64 (mt_off_clk x + adj)\<rparr>))"

definition control_step :: "int \<Rightarrow> int \<Rightarrow> clock_stream \<Rightarrow> clock_stream \<Rightarrow> clock_module \<Rightarrow> clock_module option" where
  "control_step stc stc_prev stream_min stream_max x = do {
     x \<leftarrow> set_proportional stc stc_prev (set_target stream_min stream_max x);
     move_clock (avg_filter stream_min) (set_confidence stream_min x)
   }"

text \<open>The clock is restarted with the average of the first stream.\<close>

definition restart_step :: "clock_stream \<Rightarrow> clock_module \<Rightarrow> clock_module" where
  "restart_step stream_min x =
     (let x = x\<lparr>clock_discont := False, mt_off_clk := s64 (mt_off_avg stream_min - latency_target x)\<rparr>
      in x\<lparr>mt_off_target := mt_off_clk x\<rparr>)"

definition apply_pending_scale :: "'v clock_port_ops \<Rightarrow> addr \<Rightarrow> 'v kworld \<Rightarrow> 'v kworld option" where
  "apply_pending_scale ops c m =
     (if pending_scale (kmod_at m c) then clock_set_scale ops c (cc_scale (kmod_at m c)) m else Some m)"

text \<open>The media time of the first port is read and not used: the variable that gets it is not read again.\<close>

definition clock_adjust_clocks ::
    "'v clock_port_ops \<Rightarrow> 'v clock_env clock_callbacks \<Rightarrow> addr \<Rightarrow> int \<Rightarrow> 'v kworld \<Rightarrow> 'v kworld option" where
  "clock_adjust_clocks ops cbs c stc m = do {
     (stream_min, stream_max, m) \<leftarrow> clock_get_mt_off_avg c stc m;
     (case (stream_min, stream_max) of
        (Some a, Some b) \<Rightarrow> do {
          let m = upd_kmod c (\<lambda>x. x\<lparr>stream_min_id := cs_id (stream_at m a), stream_max_id := cs_id (stream_at m b)\<rparr>) m;
          p \<leftarrow> nth_port (cp_clock (component_at m c)) 0;
          (_, m) \<leftarrow> mmal_port_clock_media_time_get p m;
          let stc_prev = stc_at_update (kmod_at m c);
          let m = upd_kmod c (\<lambda>x. x\<lparr>stc_at_update := stc\<rparr>) m;
          m \<leftarrow> (if clock_discont (kmod_at m c) then do {
                 let m = upd_kmod c (restart_step (stream_at m a)) m;
                 m \<leftarrow> clock_stop_clocks ops cbs c m;
                 clock_start_clocks ops c (s64 (mt_off_clk (kmod_at m c) + stc)) m
               }
               else do {
                 x \<leftarrow> control_step stc stc_prev (stream_at m a) (stream_at m b) (kmod_at m c);
                 let m = upd_kmod c (\<lambda>_. x) m;
                 clock_set_media_time ops c (s64 (mt_off_clk x + stc)) m
               });
          apply_pending_scale ops c m
        }
      | _ \<Rightarrow> Some m)
   }"

subsection \<open>Events\<close>

definition clock_process_stream_event ::
    "'v clock_port_ops \<Rightarrow> 'v clock_env clock_callbacks \<Rightarrow> addr \<Rightarrow> clock_stream_event \<Rightarrow> int \<Rightarrow> 'v kworld \<Rightarrow> 'v kworld option" where
  "clock_process_stream_event ops cbs c event stc m =
     (case event of
        CLOCK_STREAM_EVENT_FRAME_COMPLETE \<Rightarrow> clock_adjust_clocks ops cbs c stc m
      | CLOCK_STREAM_EVENT_DISCONT \<Rightarrow> Some (clock_reset_clocks c m)
      | _ \<Rightarrow> Some m)"

text \<open>\<open>frame_rate.num * FILTER_DURATION / frame_rate.den\<close>, with the overflows and the division by zero of 32-bit integers.\<close>

definition stream_filter_length :: "mmal_rational \<Rightarrow> u32 option" where
  "stream_filter_length r = do {
     n \<leftarrow> chk32 (num r * FILTER_DURATION);
     if den r = 0 then None else map_option of_int (chk32 (cdiv n (den r)))
   }"

definition clock_process_input_buffer_info_event ::
    "'v clock_port_ops \<Rightarrow> 'v clock_env clock_callbacks \<Rightarrow> addr \<Rightarrow> addr \<Rightarrow> int \<times> u32 \<Rightarrow> 'v kworld \<Rightarrow> 'v kworld option" where
  "clock_process_input_buffer_info_event ops cbs c p info m = do {
     let stc = uint (snd info);
     let pts = fst info;
     (ok, m) \<leftarrow> (if stream_of m p = None then do {
                    filter_length \<leftarrow> stream_filter_length (frame_rate (kmod_at m c));
                    Some (clock_create_stream p (pt_index (port_at m p)) filter_length m)
                  } else Some (True, m));
     if \<not> ok then Some m
     else do {
       a \<leftarrow> stream_of m p;
       (event, s) \<leftarrow> clock_update_stream stc pts (fst (cc_discont_threshold (kmod_at m c))) (stream_at m a);
       clock_process_stream_event ops cbs c event stc (upd_stream a (\<lambda>_. s) m)
     }
   }"

definition clock_process_scale_event :: "'v clock_port_ops \<Rightarrow> addr \<Rightarrow> mmal_rational \<Rightarrow> 'v kworld \<Rightarrow> 'v kworld option" where
  "clock_process_scale_event ops c scale m =
     (if num scale = 0 then clock_set_scale ops c scale (upd_kmod c (\<lambda>x. x\<lparr>cc_scale := scale\<rparr>) m)
      else if \<not> mmal_rational_equal (cc_scale (kmod_at m c)) scale \<and> num scale = den scale
      then Some (clock_reset_clocks c (upd_kmod c (\<lambda>x. x\<lparr>cc_scale := scale, pending_scale := True\<rparr>) m))
      else Some m)"

definition clock_process_update_threshold_event ::
    "'v clock_port_ops \<Rightarrow> addr \<Rightarrow> int \<times> int \<Rightarrow> 'v kworld \<Rightarrow> 'v kworld option" where
  "clock_process_update_threshold_event ops c threshold m =
     set_all_ports (\<lambda>p. mmal_port_clock_update_threshold_set ops p threshold) (cp_clock (component_at m c))
       (upd_kmod c (\<lambda>x. x\<lparr>cc_update_threshold := threshold\<rparr>) m)"

definition clock_process_discont_threshold_event ::
    "'v clock_port_ops \<Rightarrow> addr \<Rightarrow> int \<times> int \<Rightarrow> 'v kworld \<Rightarrow> 'v kworld option" where
  "clock_process_discont_threshold_event ops c threshold m =
     set_all_ports (\<lambda>p. mmal_port_clock_discont_threshold_set ops p threshold) (cp_clock (component_at m c))
       (upd_kmod c (\<lambda>x. x\<lparr>cc_discont_threshold := threshold\<rparr>) m)"

definition clock_process_request_threshold_event ::
    "'v clock_port_ops \<Rightarrow> addr \<Rightarrow> int \<times> bool \<Rightarrow> 'v kworld \<Rightarrow> 'v kworld option" where
  "clock_process_request_threshold_event ops c threshold m =
     set_all_ports (\<lambda>p. mmal_port_clock_request_threshold_set ops p threshold) (cp_clock (component_at m c))
       (upd_kmod c (\<lambda>x. x\<lparr>cc_request_threshold := threshold\<rparr>) m)"

definition clock_process_latency_event :: "addr \<Rightarrow> int \<times> int \<times> int \<Rightarrow> 'v kworld \<Rightarrow> 'v kworld" where
  "clock_process_latency_event c latency m = clock_reset_clocks c (upd_kmod c (\<lambda>x. x\<lparr>cc_latency := latency\<rparr>) m)"

text \<open>The lists of the component. \<open>None\<close> is a list that was not created, or was destroyed.\<close>

definition slot_pop :: "(clock_module \<Rightarrow> list_ptr) \<Rightarrow> ((list_ptr \<Rightarrow> list_ptr) \<Rightarrow> clock_module \<Rightarrow> clock_module)
    \<Rightarrow> clock_module \<Rightarrow> (ptr \<times> clock_module) option" where
  "slot_pop get upd x = do {
     l \<leftarrow> live (get x);
     let (slot, l, h) = mmal_list_pop_front l (events_links x);
     Some (slot, upd (\<lambda>_. ListLive l) (x\<lparr>events_links := h\<rparr>))
   }"

definition slot_push :: "(clock_module \<Rightarrow> list_ptr) \<Rightarrow> ((list_ptr \<Rightarrow> list_ptr) \<Rightarrow> clock_module \<Rightarrow> clock_module)
    \<Rightarrow> addr \<Rightarrow> clock_module \<Rightarrow> clock_module option" where
  "slot_push get upd slot x = do {
     l \<leftarrow> live (get x);
     let (l, h) = mmal_list_push_back l (events_links x) slot;
     Some (upd (\<lambda>_. ListLive l) (x\<lparr>events_links := h\<rparr>))
   }"

definition clock_event_queue :: "addr \<Rightarrow> addr \<Rightarrow> clock_event \<Rightarrow> 'v kworld \<Rightarrow> (mmal_status \<times> 'v kworld) option" where
  "clock_event_queue c p event m = do {
     (slot, x) \<leftarrow> slot_pop events_free events_free_update (kmod_at m c);
     (case slot of
        None \<Rightarrow> Some (MMAL_ENOSPC, upd_kmod c (\<lambda>_. x) m)
      | Some i \<Rightarrow> do {
          let x = x\<lparr>events_pool := (events_pool x)(i := \<lparr>cpe_port = p, cpe_event = event\<rparr>)\<rparr>;
          x \<leftarrow> slot_push events_queue events_queue_update i x;
          Some (mmal_component_action_trigger c (upd_kmod c (\<lambda>_. x) m))
        })
   }"

text \<open>The result is the event, or \<open>MMAL_EINVAL\<close>.\<close>

definition clock_event_dequeue ::
    "'v clock_port_ops \<Rightarrow> addr \<Rightarrow> 'v kworld \<Rightarrow> ((mmal_status + clock_port_event) \<times> 'v kworld) option" where
  "clock_event_dequeue ops c m = do {
     (slot, x) \<leftarrow> slot_pop events_queue events_queue_update (kmod_at m c);
     (case slot of
        None \<Rightarrow> Some (Inl MMAL_EINVAL, upd_kmod c (\<lambda>_. x) m)
      | Some i \<Rightarrow> do {
          let port_event = events_pool x i;
          x \<leftarrow> slot_push events_free events_free_update i x;
          let m = upd_kmod c (\<lambda>_. x) m;
          m \<leftarrow> (case ce_buffer (cpe_event port_event) of
                 None \<Rightarrow> Some m
               | Some b \<Rightarrow> mmal_port_buffer_header_callback ops (cpe_port port_event) b
                             (upd_buf b (\<lambda>r. r\<lparr>bh_length := 0\<rparr>) m));
          Some (Inr port_event, m)
        })
   }"

text \<open>The result of \<open>clock_event_queue\<close> is not looked at.\<close>

definition clock_event_cb :: "addr \<Rightarrow> clock_event \<Rightarrow> 'v kworld \<Rightarrow> 'v kworld option" where
  "clock_event_cb p event m = map_option snd (clock_event_queue (pt_component (port_at m p)) p event m)"

definition clock_process_event ::
    "'v clock_port_ops \<Rightarrow> 'v clock_env clock_callbacks \<Rightarrow> addr \<Rightarrow> clock_port_event \<Rightarrow> 'v kworld \<Rightarrow> 'v kworld option" where
  "clock_process_event ops cbs c port_event m =
     (let event = cpe_event port_event
      in if ce_id event = MMAL_CLOCK_EVENT_SCALE then clock_process_scale_event ops c (ce_scale event) m
         else if ce_id event = MMAL_CLOCK_EVENT_UPDATE_THRESHOLD
         then clock_process_update_threshold_event ops c (ce_update_threshold event) m
         else if ce_id event = MMAL_CLOCK_EVENT_DISCONT_THRESHOLD
         then clock_process_discont_threshold_event ops c (ce_discont_threshold event) m
         else if ce_id event = MMAL_CLOCK_EVENT_REQUEST_THRESHOLD
         then clock_process_request_threshold_event ops c (ce_request_threshold event) m
         else if ce_id event = MMAL_CLOCK_EVENT_LATENCY then Some (clock_process_latency_event c (ce_latency event) m)
         else if ce_id event = MMAL_CLOCK_EVENT_INPUT_BUFFER_INFO
         then clock_process_input_buffer_info_event ops cbs c (cpe_port port_event) (ce_info event) m
         else Some m)"

definition clock_do_processing ::
    "'v clock_port_ops \<Rightarrow> 'v clock_env clock_callbacks \<Rightarrow> addr \<Rightarrow> 'v kworld \<Rightarrow> (bool \<times> 'v kworld) option" where
  "clock_do_processing ops cbs c m = do {
     (r, m) \<leftarrow> clock_event_dequeue ops c m;
     (case r of
        Inl _ \<Rightarrow> Some (False, m)
      | Inr port_event \<Rightarrow> map_option (Pair True) (clock_process_event ops cbs c port_event m))
   }"

partial_function (option) clock_do_processing_loop ::
    "'v clock_port_ops \<Rightarrow> 'v clock_env clock_callbacks \<Rightarrow> addr \<Rightarrow> 'v kworld \<Rightarrow> 'v kworld option" where
  "clock_do_processing_loop ops cbs c m =
     Option.bind (clock_do_processing ops cbs c m) (\<lambda>r.
       if fst r then clock_do_processing_loop ops cbs c (snd r) else Some (snd r))"

subsection \<open>Parameters, creation and destruction\<close>

definition clock_component_fn :: nat where "clock_component_fn = 90"

definition clock_control_parameter_set ::
    "addr \<Rightarrow> mmal_param \<Rightarrow> 'v kworld \<Rightarrow> (mmal_status \<times> 'v kworld) option" where
  "clock_control_parameter_set p param m =
     (let c = pt_component (port_at m p)
      in case param of
        ParamClockFrameRate r \<Rightarrow> do {
          let m = upd_kmod c (\<lambda>x. x\<lparr>frame_rate := r, frame_rate_log2 := pow2_shift (next_pow2 (of_int (num r)))\<rparr>) m;
          n \<leftarrow> chk32 (den r * 1000000);
          d \<leftarrow> (if num r = 0 then None else chk32 (cdiv n (num r)));
          Some (MMAL_SUCCESS, upd_kmod c (\<lambda>x. x\<lparr>frame_duration := d\<rparr>) m)
        }
      | ParamClockLatency target period rate \<Rightarrow>
          clock_event_queue c p ((clock_event_init MMAL_CLOCK_EVENT_LATENCY)\<lparr>ce_latency := (target, period, rate)\<rparr>) m
      | _ \<Rightarrow> Some (MMAL_ENOSYS, m))"

definition destroy_list :: "list_ptr \<Rightarrow> list_ptr option" where
  "destroy_list l = (if l = ListNull then Some ListNull else mmal_list_destroy l)"

definition clock_component_destroy ::
    "'v clock_env clock_callbacks \<Rightarrow> addr \<Rightarrow> 'v kworld \<Rightarrow> (mmal_status \<times> 'v kworld) option" where
  "clock_component_destroy cbs c m = do {
     free \<leftarrow> destroy_list (events_free (kmod_at m c));
     let m = upd_kmod c (\<lambda>x. x\<lparr>events_free := free\<rparr>) m;
     queue \<leftarrow> destroy_list (events_queue (kmod_at m c));
     let m = upd_kmod c (\<lambda>x. x\<lparr>events_queue := queue\<rparr>) m;
     let ps = cp_clock (component_at m c);
     m \<leftarrow> (if ps = [] then Some m
           else do {
             let m = fold (\<lambda>p m. case stream_of m p of None \<Rightarrow> m | Some s \<Rightarrow> upd_env (core_free s) m) ps m;
             a \<leftarrow> clock_array (component_at m c);
             mmal_ports_clock_free cbs a ps m
           });
     Some (MMAL_SUCCESS, case cc_block (kmod_at m c) of None \<Rightarrow> m | Some a \<Rightarrow> upd_env (core_free a) m)
   }"

definition clock_create_error ::
    "'v clock_env clock_callbacks \<Rightarrow> addr \<Rightarrow> mmal_status \<Rightarrow> 'v kworld \<Rightarrow> (mmal_status \<times> 'v kworld) option" where
  "clock_create_error cbs c status m = map_option (\<lambda>(_, m). (status, m)) (clock_component_destroy cbs c m)"

text \<open>\<open>mmal_list_create\<close> with its allocations.\<close>

definition create_list :: "'m world \<Rightarrow> list_ptr \<times> 'm world" where
  "create_list m =
     (let (block, e) = core_malloc (env (ctx m));
          (lock, e) = (if block = None then (False, e) else sync_create e);
          e = (case block of Some a \<Rightarrow> if lock then e else core_free a e | None \<Rightarrow> e)
      in (case mmal_list_create (block \<noteq> None) lock of None \<Rightarrow> ListNull | Some l \<Rightarrow> ListLive l, set_env e m))"

fun push_slots :: "addr list \<Rightarrow> clock_module \<Rightarrow> clock_module option" where
  "push_slots [] x = Some x"
| "push_slots (i # is) x = Option.bind (slot_push events_free events_free_update i x) (push_slots is)"

text \<open>The settings at the end of the creation, which are taken from the first clock port.\<close>

definition clock_default_settings :: "addr \<Rightarrow> addr \<Rightarrow> 'v kworld \<Rightarrow> 'v kworld option" where
  "clock_default_settings c p m = do {
     let m = upd_kmod c (\<lambda>x. x\<lparr>clock_discont := True, frame_rate := \<lparr>num = DEFAULT_FRAME_RATE, den = 1\<rparr>\<rparr>) m;
     (scale, m) \<leftarrow> mmal_port_clock_scale_get p m;
     let m = upd_kmod c (\<lambda>x. x\<lparr>cc_scale := scale, cc_latency := (DEFAULT_CLOCK_LATENCY, 0, 0)\<rparr>) m;
     ((_, update), m) \<leftarrow> mmal_port_clock_update_threshold_get p m;
     let m = upd_kmod c (\<lambda>x. x\<lparr>cc_update_threshold := update\<rparr>) m;
     ((_, discont), m) \<leftarrow> mmal_port_clock_discont_threshold_get p m;
     let m = upd_kmod c (\<lambda>x. x\<lparr>cc_discont_threshold := discont\<rparr>) m;
     ((_, request), m) \<leftarrow> mmal_port_clock_request_threshold_get p m;
     Some (upd_kmod c (\<lambda>x. x\<lparr>cc_request_threshold := request\<rparr>) m)
   }"

definition mmal_component_create_clock ::
    "'v clock_port_ops \<Rightarrow> 'v clock_env clock_callbacks \<Rightarrow> string \<Rightarrow> addr \<Rightarrow> 'v kworld \<Rightarrow> (mmal_status \<times> 'v kworld) option" where
  "mmal_component_create_clock ops cbs name c m =
     (let (block, e) = core_malloc (env (ctx m));
          m = set_env e m
      in if block = None then Some (MMAL_ENOMEM, m)
      else do {
        let m = upd_kmod c (\<lambda>_. zero_clock_module block) m;
        let m = upd_component c (\<lambda>r. r\<lparr>cf_destroy := Some clock_component_fn\<rparr>) m;
        (clock, m) \<leftarrow> mmal_ports_clock_alloc ops cbs c CLOCK_PORTS_NUM (Some clock_component_fn) m;
        (case clock of
           None \<Rightarrow> clock_create_error cbs c MMAL_ENOMEM m
         | Some (a, ps) \<Rightarrow> do {
             let m = fold (\<lambda>p. set_stream_of p None) ps m;
             let m = upd_component c (\<lambda>r. r\<lparr>cp_clock := ps, clock_array := Some a\<rparr>) m;
             control \<leftarrow> cp_control (component_at m c);
             let m = upd_port control (\<lambda>r. r\<lparr>pf_parameter_set := Some clock_component_fn\<rparr>) m;
             let (free, m) = create_list m;
             let (queue, m) = create_list m;
             let m = upd_kmod c (\<lambda>x. x\<lparr>events_free := free, events_queue := queue\<rparr>) m;
             if free = ListNull \<or> queue = ListNull then clock_create_error cbs c MMAL_ENOMEM m
             else do {
               x \<leftarrow> push_slots [0..<MAX_CLOCK_EVENT_SLOTS] (kmod_at m c);
               let m = upd_kmod c (\<lambda>_. x) m;
               let (status, m) = mmal_component_action_register c clock_component_fn m;
               p \<leftarrow> nth_port ps 0;
               map_option (Pair status) (clock_default_settings c p m)
             }
           })
      })"

definition mmal_register_component_clock :: "'m core_env \<Rightarrow> 'm core_env" where
  "mmal_register_component_clock e = mmal_component_supplier_register ''clock'' clock_component_fn e"

text \<open>The component behind the function pointers.\<close>

definition clock_component_callbacks :: "'v clock_env clock_callbacks \<Rightarrow> 'v clock_env clock_callbacks" where
  "clock_component_callbacks cbs = cbs\<lparr>
     clk_event := (\<lambda>f p event m. if f = clock_component_fn then clock_event_cb p event m else clk_event cbs f p event m)\<rparr>"

definition clock_component_ops :: "'v clock_env clock_callbacks \<Rightarrow> 'v clock_port_ops \<Rightarrow> 'v clock_port_ops" where
  "clock_component_ops cbs0 ops = (let cbs = clock_component_callbacks cbs0 in ops\<lparr>
     f_parameter_set := (\<lambda>f p x m. if f = clock_component_fn then clock_control_parameter_set p x m
                                   else f_parameter_set ops f p x m),
     f_action := (\<lambda>f c m. if f = clock_component_fn then clock_do_processing_loop ops cbs c m else f_action ops f c m),
     f_component_destroy := (\<lambda>f c m. if f = clock_component_fn then clock_component_destroy cbs c m
                                     else f_component_destroy ops f c m),
     f_create := (\<lambda>f name c m. if f = clock_component_fn then mmal_component_create_clock ops cbs name c m
                               else f_create ops f name c m)\<rparr>)"

end
