(* ===== verification/ClockComponentFlow.thy ===== *)
theory ClockComponentFlow
  imports ClockComponent
begin

text \<open>
  What the clock component does with the definitions of theory ClockComponent: its event slots are a bounded queue, its
  control loop moves the offset of the clock towards the target and never past it, and what goes wrong
  when it is used with its default latency, with too many events, or when its creation fails.
\<close>

subsection \<open>The event slots\<close>

lemma kmod_simps [simp]:
  "kmod_at (upd_kmod c f m) = (kmod_at m)(c := f (kmod_at m c))" "kmod_at (upd_buf b u m) = kmod_at m"
  "kmod_at (upd_port p g m) = kmod_at m" "kmod_at (upd_component d h m) = kmod_at m"
  "kmod_at (upd_stream s k m) = kmod_at m" "kmod_at (set_stream_of p q m) = kmod_at m"
  "bufs (upd_kmod c f m) = bufs m" "port_at (upd_kmod c f m) = port_at m" "component_at (upd_kmod c f m) = component_at m"
  "clk_at (upd_kmod c f m) = clk_at m" "env (ctx (upd_buf b u m)) = env (ctx m)"
  by (auto simp: kmod_at_def upd_kmod_def upd_stream_def set_stream_of_def fun_eq_iff clk_at_def module_defs upd_buf_def)

definition event_slots :: "clock_module \<Rightarrow> addr list \<Rightarrow> addr list \<Rightarrow> bool" where
  "event_slots x fs qs \<longleftrightarrow> (\<exists>f q. events_free x = ListLive f \<and> events_queue x = ListLive q
     \<and> ml.two_lists (events_links x) f fs q qs) \<and> mset (fs @ qs) = mset [0..<MAX_CLOCK_EVENT_SLOTS]"

text \<open>The events that wait, the oldest one first.\<close>

definition pending_events :: "addr \<Rightarrow> 'v kworld \<Rightarrow> clock_port_event list \<Rightarrow> bool" where
  "pending_events c m evs \<longleftrightarrow>
     (\<exists>fs qs. event_slots (kmod_at m c) fs qs \<and> evs = map (events_pool (kmod_at m c)) qs)"

lemma event_slots_length: "event_slots x fs qs \<Longrightarrow> length fs + length qs = MAX_CLOCK_EVENT_SLOTS"
proof -
  assume "event_slots x fs qs"
  then have "size (mset (fs @ qs)) = size (mset [0..<MAX_CLOCK_EVENT_SLOTS])" by (simp add: event_slots_def)
  then show ?thesis by simp
qed

lemma take_free_slot:
  assumes "event_slots x (i # fs) qs"
  shows "\<exists>x1 x2. slot_pop events_free events_free_update x = Some (Some i, x1)
    \<and> slot_push events_queue events_queue_update i (x1\<lparr>events_pool := pool\<rparr>) = Some x2
    \<and> event_slots x2 fs (qs @ [i]) \<and> events_pool x2 = pool \<and> events_pool x1 = events_pool x \<and> i \<notin> set qs"
proof -
  obtain f q where l: "events_free x = ListLive f" "events_queue x = ListLive q"
      "ml.two_lists (events_links x) f (i # fs) q qs" "mset ((i # fs) @ qs) = mset [0..<MAX_CLOCK_EVENT_SLOTS]"
    using assms by (auto simp: event_slots_def)
  obtain f' h' q' h'' where t: "mmal_list_pop_front f (events_links x) = (Some i, f', h')"
      "mmal_list_push_back q h' i = (q', h'')" "ml.two_lists h'' f' fs q' (qs @ [i])"
    using ml.two_lists_transfer [OF l(3)] by metis
  have i: "i \<notin> set qs" using l(3) by (auto simp: ml.two_lists_def)
  let ?x1 = "x\<lparr>events_links := h', events_free := ListLive f'\<rparr>"
  let ?x2 = "?x1\<lparr>events_pool := pool, events_links := h'', events_queue := ListLive q'\<rparr>"
  have "slot_pop events_free events_free_update x = Some (Some i, ?x1)" using l(1) t(1) by (simp add: slot_pop_def)
  moreover have "slot_push events_queue events_queue_update i (?x1\<lparr>events_pool := pool\<rparr>) = Some ?x2"
    using l(2) t(2) by (simp add: slot_push_def)
  moreover have "event_slots ?x2 fs (qs @ [i])" using t(3) l(4) by (simp add: event_slots_def)
  ultimately show ?thesis using i by (intro exI [of _ ?x1] exI [of _ ?x2]) simp
qed

lemma take_pending_slot:
  assumes "event_slots x fs (i # qs)"
  shows "\<exists>x1 x2. slot_pop events_queue events_queue_update x = Some (Some i, x1)
    \<and> slot_push events_free events_free_update i x1 = Some x2
    \<and> event_slots x2 (fs @ [i]) qs \<and> events_pool x2 = events_pool x \<and> events_pool x1 = events_pool x"
proof -
  obtain f q where l: "events_free x = ListLive f" "events_queue x = ListLive q"
      "ml.two_lists (events_links x) f fs q (i # qs)" "mset (fs @ i # qs) = mset [0..<MAX_CLOCK_EVENT_SLOTS]"
    using assms by (auto simp: event_slots_def)
  obtain q' h' f' h'' where t: "mmal_list_pop_front q (events_links x) = (Some i, q', h')"
      "mmal_list_push_back f h' i = (f', h'')" "ml.two_lists h'' q' qs f' (fs @ [i])"
    using ml.two_lists_transfer [OF l(3) [unfolded ml.two_lists_sym [of _ f]]] by metis
  let ?x1 = "x\<lparr>events_links := h', events_queue := ListLive q'\<rparr>"
  let ?x2 = "?x1\<lparr>events_links := h'', events_free := ListLive f'\<rparr>"
  have "slot_pop events_queue events_queue_update x = Some (Some i, ?x1)" using l(2) t(1) by (simp add: slot_pop_def)
  moreover have "slot_push events_free events_free_update i ?x1 = Some ?x2" using l(1) t(2) by (simp add: slot_push_def)
  moreover have "event_slots ?x2 (fs @ [i]) qs" using t(3) l(4) ml.two_lists_sym by (simp add: event_slots_def)
  ultimately show ?thesis by (intro exI [of _ ?x1] exI [of _ ?x2]) simp
qed

lemma no_slot:
  assumes "event_slots x [] qs"
  shows "slot_pop events_free events_free_update x = Some (None, x)"
proof -
  obtain f q where l: "events_free x = ListLive f" "ml.two_lists (events_links x) f [] q qs"
    using assms by (auto simp: event_slots_def)
  then have "mmal_list_pop_front f (events_links x) = (None, f, events_links x)"
    by (intro ml.pop_front_Nil) (simp add: ml.two_lists_def)
  moreover have "x\<lparr>events_links := events_links x, events_free := events_free x\<rparr> = x" by simp
  ultimately show ?thesis using l(1) by (simp add: slot_pop_def)
qed

lemma no_pending:
  assumes "event_slots x fs []"
  shows "slot_pop events_queue events_queue_update x = Some (None, x)"
proof -
  obtain f q where l: "events_queue x = ListLive q" "ml.two_lists (events_links x) f fs q []"
    using assms by (auto simp: event_slots_def)
  then have "mmal_list_pop_front q (events_links x) = (None, q, events_links x)"
    by (intro ml.pop_front_Nil) (simp add: ml.two_lists_def)
  moreover have "x\<lparr>events_links := events_links x, events_queue := events_queue x\<rparr> = x" by simp
  ultimately show ?thesis using l(1) by (simp add: slot_pop_def)
qed

text \<open>The slots of a new component.\<close>

lemma push_slots_ok:
  assumes "events_free x = ListLive f" "events_queue x = ListLive q" "ml.two_lists (events_links x) f fs q []" "distinct (fs @ ss)"
  shows "\<exists>x' f'. push_slots ss x = Some x' \<and> events_free x' = ListLive f' \<and> events_queue x' = ListLive q
    \<and> ml.two_lists (events_links x') f' (fs @ ss) q []"
  using assms
proof (induction ss arbitrary: x f fs)
  case (Cons i ss)
  obtain f' h' where p: "mmal_list_push_back f (events_links x) i = (f', h')" "ml.two_lists h' q [] f' (fs @ [i])"
    using ml.two_lists_push_back [OF Cons.prems(3) [unfolded ml.two_lists_sym [of _ f]], of i] Cons.prems(4) by auto
  let ?x = "x\<lparr>events_links := h', events_free := ListLive f'\<rparr>"
  have "slot_push events_free events_free_update i x = Some ?x" using Cons.prems(1) p(1) by (simp add: slot_push_def)
  moreover have "ml.two_lists (events_links ?x) f' (fs @ [i]) q []" using p(2) ml.two_lists_sym by simp
  ultimately show ?case using Cons.IH [of ?x f' "fs @ [i]"] Cons.prems by simp
qed simp

lemma new_slots:
  assumes "mmal_list_create True True = Some l"
  shows "\<exists>x'. push_slots [0..<MAX_CLOCK_EVENT_SLOTS] (x\<lparr>events_free := ListLive l, events_queue := ListLive l\<rparr>) = Some x'
    \<and> event_slots x' [0..<MAX_CLOCK_EVENT_SLOTS] []"
proof -
  have "ml.two_lists (events_links x) l [] l []" using list_create_dll [OF assms] by (simp add: ml.two_lists_def)
  then show ?thesis
    using push_slots_ok [of "x\<lparr>events_free := ListLive l, events_queue := ListLive l\<rparr>" l l "[]" "[0..<MAX_CLOCK_EVENT_SLOTS]"]
    by (auto simp: event_slots_def)
qed

text \<open>C13. The event slots of the clock component are a queue of at most 16 events. What happens on a clock port goes to
  its end, and the thread of the component is woken; when 16 events wait, the new one is refused with \<open>MMAL_ENOSPC\<close>
  and those that wait are kept.\<close>

theorem clock_events_bounded:
  assumes "pending_events c m evs" and "pf_action (component_at m c) \<noteq> None"
  shows "\<exists>m'. clock_event_queue c p event m
        = Some (if length evs < MAX_CLOCK_EVENT_SLOTS then MMAL_SUCCESS else MMAL_ENOSPC, m')
    \<and> pending_events c m' (if length evs < MAX_CLOCK_EVENT_SLOTS then evs @ [\<lparr>cpe_port = p, cpe_event = event\<rparr>] else evs)
    \<and> (length evs < MAX_CLOCK_EVENT_SLOTS \<longrightarrow> action_event (component_at m' c))"
proof -
  obtain fs qs where s: "event_slots (kmod_at m c) fs qs" "evs = map (events_pool (kmod_at m c)) qs"
    using assms(1) by (auto simp: pending_events_def)
  note l = event_slots_length [OF s(1)]
  show ?thesis
  proof (cases fs)
    case Nil
    then show ?thesis using no_slot [of "kmod_at m c" qs] s l assms(1) by (simp add: clock_event_queue_def pending_events_def)
  next
    case (Cons i fs')
    define pool where "pool = (events_pool (kmod_at m c))(i := \<lparr>cpe_port = p, cpe_event = event\<rparr>)"
    obtain x1 x2 where x: "slot_pop events_free events_free_update (kmod_at m c) = Some (Some i, x1)"
        "slot_push events_queue events_queue_update i (x1\<lparr>events_pool := pool\<rparr>) = Some x2"
        "event_slots x2 fs' (qs @ [i])" "events_pool x2 = pool" "events_pool x1 = events_pool (kmod_at m c)" "i \<notin> set qs"
      using take_free_slot [of "kmod_at m c" i fs' qs pool] s(1) Cons by blast
    define m2 where "m2 = upd_component c (\<lambda>r. r\<lparr>action_event := True\<rparr>) (upd_kmod c (\<lambda>_. x2) m)"
    have "map pool (qs @ [i]) = evs @ [\<lparr>cpe_port = p, cpe_event = event\<rparr>]" using x(6) s(2) by (simp add: pool_def)
    then have e: "pending_events c m2 (evs @ [\<lparr>cpe_port = p, cpe_event = event\<rparr>])"
      using x(3,4) unfolding pending_events_def by (intro exI [of _ fs'] exI [of _ "qs @ [i]"]) (simp add: m2_def)
    have "clock_event_queue c p event m = Some (MMAL_SUCCESS, m2)"
      using x(1,2,5) assms(2) by (simp add: clock_event_queue_def mmal_component_action_trigger_def m2_def pool_def)
    then show ?thesis using e l Cons s(2) by (intro exI [of _ m2]) (simp add: m2_def)
  qed
qed

text \<open>The thread of the clock component takes the oldest event and frees its slot: it gives the buffer that brought the
  event back to its port, empty, and processes the event; without an event it stops.\<close>

theorem clock_thread_takes_oldest:
  assumes "pending_events c m evs"
  shows "\<exists>m1. pending_events c m1 (tl evs) \<and> clock_do_processing ops cbs c m =
     (case evs of
        [] \<Rightarrow> Some (False, m1)
      | e # _ \<Rightarrow> do {
          m2 \<leftarrow> (case ce_buffer (cpe_event e) of
                   None \<Rightarrow> Some m1
                 | Some b \<Rightarrow> mmal_port_buffer_header_callback ops (cpe_port e) b (upd_buf b (\<lambda>r. r\<lparr>bh_length := 0\<rparr>) m1));
          map_option (Pair True) (clock_process_event ops cbs c e m2)
        })"
proof -
  obtain fs qs where s: "event_slots (kmod_at m c) fs qs" "evs = map (events_pool (kmod_at m c)) qs"
    using assms by (auto simp: pending_events_def)
  show ?thesis
  proof (cases qs)
    case Nil
    then have "slot_pop events_queue events_queue_update (kmod_at m c) = Some (None, kmod_at m c)" using no_pending s(1) by blast
    then show ?thesis using Nil s(2) assms
      by (intro exI [of _ "upd_kmod c (\<lambda>_. kmod_at m c) m"])
        (simp add: clock_do_processing_def clock_event_dequeue_def pending_events_def)
  next
    case (Cons i qs')
    obtain x1 x2 where x: "slot_pop events_queue events_queue_update (kmod_at m c) = Some (Some i, x1)"
        "slot_push events_free events_free_update i x1 = Some x2"
        "event_slots x2 (fs @ [i]) qs'" "events_pool x2 = events_pool (kmod_at m c)" "events_pool x1 = events_pool (kmod_at m c)"
      using take_pending_slot [of "kmod_at m c" fs i qs'] s(1) Cons by blast
    let ?m1 = "upd_kmod c (\<lambda>_. x2) m"
    have "pending_events c ?m1 (tl evs)"
      using x(3,4) s(2) Cons unfolding pending_events_def by (intro exI [of _ "fs @ [i]"] exI [of _ qs']) simp
    moreover have "evs = events_pool x1 i # map (events_pool x1) qs'" using s(2) Cons x(5) by simp
    ultimately show ?thesis using x(1,2) by (intro exI [of _ ?m1]) (simp add: clock_do_processing_def clock_event_dequeue_def
      Let_def bind_assoc split: option.split cong: option.case_cong)
  qed
qed

subsection \<open>The control loop\<close>

text \<open>\<open>b\<close> lies on the way from \<open>a\<close> to \<open>c\<close>.\<close>

definition on_the_way :: "int \<Rightarrow> int \<Rightarrow> int \<Rightarrow> bool" where
  "on_the_way a b c \<longleftrightarrow> a \<le> b \<and> b \<le> c \<or> c \<le> b \<and> b \<le> a"

lemma on_the_way_abs: "on_the_way 0 a b \<Longrightarrow> \<bar>a\<bar> \<le> \<bar>b\<bar>"
  by (auto simp: on_the_way_def)

lemma on_the_way_trans: "on_the_way 0 a b \<Longrightarrow> on_the_way 0 b c \<Longrightarrow> on_the_way 0 a c"
  by (auto simp: on_the_way_def)

lemma on_the_way_shift: "on_the_way 0 a (b - c) \<Longrightarrow> on_the_way c (c + a) b"
  by (auto simp: on_the_way_def)

lemma fraction_div:
  fixes a m n :: int
  assumes "0 \<le> m" "m \<le> n" "0 < n"
  shows "on_the_way 0 (a * m div n) a"
proof (cases "0 \<le> a")
  case True
  then have "a * m \<le> a * n" using assms by (intro mult_left_mono)
  then have "a * m div n \<le> a" using assms(3) zdiv_mono1 [of "a * m" "a * n" n] by simp
  then show ?thesis using True assms by (simp add: on_the_way_def pos_imp_zdiv_nonneg_iff)
next
  case False
  then have "a * n \<le> a * m" using assms by (intro mult_left_mono_neg) simp_all
  then have "a \<le> a * m div n" using assms(3) zdiv_mono1 [of "a * n" "a * m" n] by simp
  moreover have "a * m div n \<le> 0"
  proof -
    have "a * m \<le> 0" using False assms by (simp add: mult_nonpos_nonneg)
    then show ?thesis using assms(3) zdiv_mono1 [of "a * m" 0 n] by simp
  qed
  ultimately show ?thesis by (simp add: on_the_way_def)
qed

lemma fraction_cdiv:
  assumes "0 \<le> m" "m \<le> n" "0 < n"
  shows "on_the_way 0 (cdiv (a * m) n) a"
proof -
  have f: "on_the_way 0 (\<bar>a\<bar> * m div n) \<bar>a\<bar>" by (rule fraction_div [OF assms])
  have "cdiv (a * m) n = (if a * m < 0 then - (\<bar>a\<bar> * m div n) else \<bar>a\<bar> * m div n)"
    using assms by (simp add: cdiv_def abs_mult sgn_if)
  moreover have "a < 0 \<and> a * m < 0 \<or> 0 \<le> a \<and> 0 \<le> a * m \<or> a * m = 0" using assms(1)
    by (auto simp: mult_less_0_iff zero_le_mult_iff)
  moreover have "a * m = 0 \<Longrightarrow> \<bar>a\<bar> * m div n = 0" by auto
  ultimately show ?thesis using f by (auto simp: on_the_way_def)
qed

lemma fraction_confidence:
  assumes "0 \<le> m" "m \<le> n" "0 < n"
  shows "on_the_way 0 (cdiv (a * (m * 2 ^ 8)) n div 2 ^ 8) a"
proof -
  have c: "on_the_way 0 (cdiv (a * 2 ^ 8 * m) n) (a * 2 ^ 8)" by (rule fraction_cdiv [OF assms])
  have "a * (m * 2 ^ 8) = a * 2 ^ 8 * m" by simp
  moreover have "on_the_way 0 (x div 2 ^ 8) a" if "on_the_way 0 x (a * 2 ^ 8)" for x :: int
  proof -
    have mono: "y \<le> z \<Longrightarrow> y div 2 ^ 8 \<le> z div 2 ^ 8" for y z :: int by (rule zdiv_mono1) simp_all
    show ?thesis using that mono [of x "a * 2 ^ 8"] mono [of "a * 2 ^ 8" x] mono [of 0 x] mono [of x 0]
      by (auto simp: on_the_way_def)
  qed
  ultimately show ?thesis using c by metis
qed

lemma count_shift:
  assumes "window n f xs"
  shows "uint (push_bit 8 (fl_count f)) = int (length xs) * 2 ^ 8" and "uint (fl_length f) = int n"
    and "length xs \<le> n" and "0 < n" and "n \<le> 180" and "fl_length f \<noteq> 0"
proof -
  have w: "1 \<le> n" "n \<le> 180" "length xs \<le> n" "fl_length f = of_nat n" "fl_count f = of_nat (length xs)"
    using assms by (auto simp: window_def MAX_FILTER_LENGTH_def)
  then show "length xs \<le> n" "0 < n" "n \<le> 180" by simp_all
  have p: "push_bit 8 (fl_count f) = of_nat (length xs * 2 ^ 8)" by (simp add: w(5) push_bit_eq_mult mult.commute)
  have "unat (of_nat (length xs * 2 ^ 8) :: u32) = length xs * 2 ^ 8" using w by (intro unat_of_nat_small) simp
  then show "uint (push_bit 8 (fl_count f)) = int (length xs) * 2 ^ 8" unfolding p uint_nat by simp
  have u: "unat (of_nat n :: u32) = n" using w by (intro unat_of_nat_small) simp
  then show "uint (fl_length f) = int n" unfolding w(4) uint_nat by simp
  show "fl_length f \<noteq> 0" using u w by (metis not_one_le_zero unsigned_0)
qed

lemma latency_simps [simp]:
  "latency_target (x\<lparr>mt_off_target := t\<rparr>) = latency_target x" "attack_period (x\<lparr>mt_off_target := t\<rparr>) = attack_period x"
  "attack_rate (x\<lparr>mt_off_target := t\<rparr>) = attack_rate x"
  by (simp_all add: latency_target_def attack_period_def attack_rate_def)

text \<open>Settings and offsets (in microseconds) for which nothing overflows.\<close>

definition control_ready :: "clock_module \<Rightarrow> bool" where
  "control_ready x \<longleftrightarrow> 0 < attack_period x \<and> 0 \<le> attack_rate x \<and> attack_rate x \<le> 2 ^ 30
     \<and> \<bar>latency_target x\<bar> \<le> 2 ^ 40 \<and> \<bar>frame_duration x\<bar> \<le> 2 ^ 40 \<and> frame_rate_log2 x \<le> 31 \<and> \<bar>mt_off_clk x\<bar> \<le> 2 ^ 41"

definition control_stream :: "clock_stream \<Rightarrow> bool" where
  "control_stream s \<longleftrightarrow> \<bar>mt_off_avg s\<bar> \<le> 2 ^ 40 \<and> 0 \<le> mt_off_std s \<and> mt_off_std s \<le> 2 ^ 31"

definition elapsed :: "int \<Rightarrow> int \<Rightarrow> int" where "elapsed stc stc_prev = max 0 (stc - stc_prev)"

lemma adjustment_factor:
  assumes "0 \<le> std" "std \<le> 2 ^ 31" "k \<le> (31 :: nat)"
  shows "0 \<le> max (s64 (2 ^ 20 - s64 (std * 2 ^ k) div 4)) 0 \<and> max (s64 (2 ^ 20 - s64 (std * 2 ^ k) div 4)) 0 \<le> 2 ^ 20"
proof -
  have "(2 :: int) ^ k \<le> 2 ^ 31" using assms(3) by (intro power_increasing) simp_all
  then have "std * 2 ^ k \<le> 2 ^ 31 * 2 ^ 31" using assms by (intro mult_mono) simp_all
  then have r: "0 \<le> std * 2 ^ k" "std * 2 ^ k \<le> 4611686018427387904" using assms(1) by simp_all
  then have s: "s64 (std * 2 ^ k) = std * 2 ^ k" by (intro s64_in) (simp add: in64_def)
  define q where "q = std * 2 ^ k div 4"
  have "0 \<le> q" "q \<le> 1152921504606846976" unfolding q_def using r by linarith+
  then have "s64 (2 ^ 20 - q) = 2 ^ 20 - q" by (intro s64_in) (simp add: in64_def)
  then show ?thesis using \<open>0 \<le> q\<close> by (simp add: s flip: q_def)
qed

lemma set_target_ok:
  assumes "control_ready x" "control_stream stream_min" "control_stream stream_max"
  defines "target \<equiv> min (mt_off_avg stream_max - latency_target x) (mt_off_avg stream_min - frame_duration x)"
  shows "set_target stream_min stream_max x = x\<lparr>mt_off_target := target\<rparr>" and "\<bar>target\<bar> \<le> 2 ^ 41"
proof -
  have "\<bar>latency_target x\<bar> \<le> 1099511627776" "\<bar>frame_duration x\<bar> \<le> 1099511627776"
    "\<bar>mt_off_avg stream_min\<bar> \<le> 1099511627776" "\<bar>mt_off_avg stream_max\<bar> \<le> 1099511627776"
    using assms by (simp_all add: control_ready_def control_stream_def)
  then have b: "\<bar>mt_off_avg stream_max - latency_target x\<bar> \<le> 2199023255552"
    "\<bar>mt_off_avg stream_min - frame_duration x\<bar> \<le> 2199023255552" by linarith+
  then show "\<bar>target\<bar> \<le> 2 ^ 41" by (simp add: target_def min_def)
  have "s64 (mt_off_avg stream_max - latency_target x) = mt_off_avg stream_max - latency_target x"
    "s64 (mt_off_avg stream_min - frame_duration x) = mt_off_avg stream_min - frame_duration x"
    using b by (simp_all add: s64_in in64I)
  then show "set_target stream_min stream_max x = x\<lparr>mt_off_target := target\<rparr>"
    by (simp add: set_target_def target_def Let_def)
qed

lemma attack_limit:
  assumes "0 \<le> e" "e \<le> 2 ^ 32" "0 \<le> r" "r \<le> 2 ^ 30" "0 < (p :: int)"
  shows "s64 (cdiv (s64 (e * r)) p) = e * r div p" and "s64 (- (e * r div p)) = - (e * r div p)" and "0 \<le> e * r div p"
proof -
  have "e * r \<le> 2 ^ 32 * 2 ^ 30" using assms by (intro mult_mono) simp_all
  then have em: "0 \<le> e * r" "e * r \<le> 4611686018427387904" using assms by simp_all
  then show q: "0 \<le> e * r div p" using assms(5) by (simp add: pos_imp_zdiv_nonneg_iff)
  have "e * r div p \<le> e * r" using em assms(5) zdiv_mono2 [of "e * r" 1 p] by simp
  then have b: "e * r div p \<le> 4611686018427387904" using em by linarith
  have "s64 (e * r) = e * r" using em by (intro s64_in) (simp add: in64_def)
  moreover have "cdiv (e * r) p = e * r div p" using em assms(5) by (simp add: cdiv_def sgn_if)
  ultimately show "s64 (cdiv (s64 (e * r)) p) = e * r div p" using b q by (simp add: s64_in in64_def)
  show "s64 (- (e * r div p)) = - (e * r div p)" using b q by (intro s64_in) (simp add: in64_def)
qed

lemma set_proportional_ok:
  assumes "0 < attack_period x" "0 \<le> attack_rate x" "attack_rate x \<le> 2 ^ 30"
    and b: "\<bar>mt_off_target x\<bar> \<le> 2 ^ 41" "\<bar>mt_off_clk x\<bar> \<le> 2 ^ 41"
    and t: "0 \<le> stc" "stc < 2 ^ 32" "0 \<le> stc_prev" "stc_prev < 2 ^ 32"
  shows "\<exists>p. set_proportional stc stc_prev x = Some (x\<lparr>adj_p := p\<rparr>) \<and> on_the_way 0 p (mt_off_target x - mt_off_clk x)
    \<and> \<bar>p\<bar> \<le> elapsed stc stc_prev * attack_rate x div attack_period x \<and> \<bar>p\<bar> \<le> 2 ^ 42"
proof -
  define e where "e = elapsed stc stc_prev"
  have e: "(if stc > stc_prev then s64 (stc - stc_prev) else 0) = e" "0 \<le> e" "e \<le> 2 ^ 32"
    using t by (simp_all add: e_def elapsed_def max_def s64_in in64I)
  define l where "l = e * attack_rate x div attack_period x"
  note l = attack_limit [OF e(2,3) assms(2,3,1), folded l_def]
  define d where "d = mt_off_target x - mt_off_clk x"
  have "\<bar>mt_off_target x\<bar> \<le> 2199023255552" "\<bar>mt_off_clk x\<bar> \<le> 2199023255552" using b by simp_all
  then have db: "\<bar>d\<bar> \<le> 4398046511104" unfolding d_def by linarith
  then have d: "s64 (mt_off_target x - mt_off_clk x) = d" by (simp add: s64_in in64I flip: d_def)
  define p where "p = (if d < - l then - l else if d > l then l else d)"
  have "set_proportional stc stc_prev x = Some (x\<lparr>adj_p := p\<rparr>)"
    unfolding set_proportional_def Let_def e(1) using assms(1) by (simp add: l d p_def)
  moreover have "on_the_way 0 p d \<and> \<bar>p\<bar> \<le> l \<and> \<bar>p\<bar> \<le> 2 ^ 42" using l(3) db by (auto simp: p_def on_the_way_def)
  ultimately show ?thesis by (auto simp: d_def l_def e_def)
qed

lemma set_confidence_ok:
  assumes "control_stream s" "frame_rate_log2 x \<le> 31"
  shows "\<exists>f. set_confidence s x = x\<lparr>adj_m := f\<rparr> \<and> 0 \<le> f \<and> f \<le> 2 ^ 20"
  using adjustment_factor [of "mt_off_std s" "frame_rate_log2 x"] assms unfolding set_confidence_def control_stream_def by blast

lemma move_clock_ok:
  assumes "window n f xs" "\<bar>adj_p x\<bar> \<le> 2 ^ 42" "0 \<le> adj_m x" "adj_m x \<le> 2 ^ 20"
  shows "\<exists>k. move_clock f x = Some (x\<lparr>cc_adj := k, mt_off_clk := s64 (mt_off_clk x + k)\<rparr>) \<and> on_the_way 0 k (adj_p x)"
proof -
  note c = count_shift [OF assms(1)]
  have "\<bar>adj_p x * adj_m x\<bar> \<le> 2 ^ 42 * 2 ^ 20" unfolding abs_mult using assms by (intro mult_mono) simp_all
  then have pm: "s64 (adj_p x * adj_m x) = adj_p x * adj_m x" by (intro s64_in in64I) simp
  define q where "q = adj_p x * adj_m x div 2 ^ 20"
  have q: "on_the_way 0 q (adj_p x)" unfolding q_def by (rule fraction_div) (use assms in simp_all)
  then have "\<bar>q\<bar> \<le> 2 ^ 42" using assms(2) on_the_way_abs by force
  then have "\<bar>q * (int (length xs) * 2 ^ 8)\<bar> \<le> 2 ^ 42 * (180 * 2 ^ 8)"
    unfolding abs_mult using c by (intro mult_mono) simp_all
  then have qs: "s64 (q * (int (length xs) * 2 ^ 8)) = q * (int (length xs) * 2 ^ 8)" by (intro s64_in in64I) simp
  define k where "k = cdiv (q * (int (length xs) * 2 ^ 8)) (int n) div 2 ^ 8"
  have "on_the_way 0 k q" unfolding k_def by (rule fraction_confidence) (use c in simp_all)
  then have "on_the_way 0 k (adj_p x)" using q on_the_way_trans by blast
  moreover have "move_clock f x = Some (x\<lparr>cc_adj := k, mt_off_clk := s64 (mt_off_clk x + k)\<rparr>)"
    unfolding move_clock_def Let_def pm c(1,2) q_def [symmetric] qs k_def [symmetric] using c(6) by simp
  ultimately show ?thesis by blast
qed


subsection \<open>Failed creation\<close>

lemma destroy_unused:
  assumes "events_free (kmod_at m c) = ListNull" "events_queue (kmod_at m c) = ListNull" "cp_clock (component_at m c) = []"
    and "cc_block (kmod_at m c) = Some b"
  shows "\<exists>m'. clock_component_destroy cbs c m = Some (MMAL_SUCCESS, m')
    \<and> heap_frees (env (ctx m')) = heap_frees (env (ctx m)) @ [b] \<and> kmod_at m' = kmod_at m
    \<and> component_at m' = component_at m \<and> port_at m' = port_at m \<and> fmts (env (ctx m')) = fmts (env (ctx m))"
  using assms by (simp add: clock_component_destroy_def destroy_list_def)
    (auto simp: kmod_at_def upd_kmod_def module_defs core_free_def fun_eq_iff)

lemma create_without_ports:
  assumes "heap (env (ctx m)) (heap_next (env (ctx m))) = Some b" "heap (env (ctx m)) (heap_next (env (ctx m)) + 1) = None"
    and "cp_clock (component_at m c) = []"
  shows "\<exists>m'. mmal_component_create_clock ops cbs name c m = Some (MMAL_ENOMEM, m')
    \<and> heap_frees (env (ctx m')) = heap_frees (env (ctx m)) @ [b] \<and> kmod_at m' c = zero_clock_module (Some b)
    \<and> component_at m' c = (component_at m c)\<lparr>cf_destroy := Some clock_component_fn\<rparr>
    \<and> port_at m' = port_at m \<and> fmts (env (ctx m')) = fmts (env (ctx m))"
proof -
  let ?e = "(env (ctx m))\<lparr>heap_next := Suc (heap_next (env (ctx m)))\<rparr>"
  let ?m1 = "upd_component c (\<lambda>r. r\<lparr>cf_destroy := Some clock_component_fn\<rparr>)
    (upd_kmod c (\<lambda>_. zero_clock_module (Some b)) (set_env ?e m))"
  let ?m2 = "set_env ((env (ctx ?m1))\<lparr>heap_next := Suc (heap_next (env (ctx ?m1)))\<rparr>) ?m1"
  have h: "heap (env (ctx ?m1)) (heap_next (env (ctx ?m1))) = None"
    using assms(2) by (simp add: upd_kmod_def module_defs)
  have p: "mmal_ports_clock_alloc ops cbs c CLOCK_PORTS_NUM (Some clock_component_fn) ?m1 = Some (None, ?m2)"
    using h by (simp add: mmal_ports_clock_alloc_def mmal_ports_alloc_def core_malloc_def)
  have k: "kmod_at ?m2 c = zero_clock_module (Some b)"
    "component_at ?m2 c = (component_at m c)\<lparr>cf_destroy := Some clock_component_fn\<rparr>"
    "port_at ?m2 = port_at m" "fmts (env (ctx ?m2)) = fmts (env (ctx m))" "heap_frees (env (ctx ?m2)) = heap_frees (env (ctx m))"
    by (simp_all add: kmod_at_def upd_kmod_def module_defs fun_eq_iff)
  have zm: "events_free (zero_clock_module (Some b)) = ListNull" "events_queue (zero_clock_module (Some b)) = ListNull"
    "cc_block (zero_clock_module (Some b)) = Some b" by (simp_all add: zero_clock_module_def)
  obtain m' where d: "clock_component_destroy cbs c ?m2 = Some (MMAL_SUCCESS, m')"
      "heap_frees (env (ctx m')) = heap_frees (env (ctx ?m2)) @ [b]" "kmod_at m' = kmod_at ?m2"
      "component_at m' = component_at ?m2" "port_at m' = port_at ?m2" "fmts (env (ctx m')) = fmts (env (ctx ?m2))"
    using destroy_unused [of ?m2 c b cbs] assms(3) k(1,2) zm by auto
  have "mmal_component_create_clock ops cbs name c m = Some (MMAL_ENOMEM, m')"
    using assms(1) d(1) unfolding mmal_component_create_clock_def core_malloc_def Let_def by (simp add: p clock_create_error_def)
  then show ?thesis using d(2-6) k by (intro exI [of _ m']) simp
qed

text \<open>C40. A failed creation frees twice: when the clock component cannot get the memory of its ports, its own error path
  destroys what it has, and the core, which sees the failure, destroys the component again, so that the memory of the
  module is freed a second time.\<close>

theorem failed_creation_frees_twice:
  assumes "heap (env (ctx m)) (heap_next (env (ctx m))) = Some b" "heap (env (ctx m)) (heap_next (env (ctx m)) + 1) = None"
    and "component_at m c = zero_component\<lparr>cp_name := name, cp_control := Some p\<rparr>"
    and "pt_format (port_at m p) = Some f" "format_ptr_copy (port_at m p) = Some f" "fmt_magic (formats (fmts (env (ctx m))) f)"
  shows "\<exists>m'. component_construct (clock_component_ops cbs ops) name (Some clock_component_fn) c m = Some (MMAL_ENOMEM, None, m')
    \<and> heap_frees (env (ctx m')) = heap_frees (env (ctx m)) @ [b, b, p, c]"
proof -
  let ?ops = "clock_component_ops cbs ops"
  have z: "cp_clock (component_at m c) = []" by (simp add: assms(3) zero_component_def)
  have zm: "events_free (zero_clock_module (Some b)) = ListNull" "events_queue (zero_clock_module (Some b)) = ListNull"
    "cc_block (zero_clock_module (Some b)) = Some b" by (simp_all add: zero_clock_module_def)
  obtain m1 where m1: "mmal_component_create_clock ops (clock_component_callbacks cbs) name c m = Some (MMAL_ENOMEM, m1)"
      "heap_frees (env (ctx m1)) = heap_frees (env (ctx m)) @ [b]" "kmod_at m1 c = zero_clock_module (Some b)"
      "component_at m1 c = (component_at m c)\<lparr>cf_destroy := Some clock_component_fn\<rparr>"
      "port_at m1 = port_at m" "fmts (env (ctx m1)) = fmts (env (ctx m))"
    using create_without_ports [OF assms(1,2) z] by metis
  have c1: "cp_clock (component_at m1 c) = []" "pf_action (component_at m1 c) = None" "event_pool (component_at m1 c) = None"
    "cp_control (component_at m1 c) = Some p" "port_array (component_at m1 c) = None"
    "cf_destroy (component_at m1 c) = Some clock_component_fn"
    by (simp_all add: m1(4) assms(3) zero_component_def)
  obtain m2 where m2: "clock_component_destroy (clock_component_callbacks cbs) c m1 = Some (MMAL_SUCCESS, m2)"
      "heap_frees (env (ctx m2)) = heap_frees (env (ctx m1)) @ [b]" "component_at m2 = component_at m1"
      "port_at m2 = port_at m1" "fmts (env (ctx m2)) = fmts (env (ctx m1))"
    using destroy_unused [of m1 c b "clock_component_callbacks cbs"] c1(1) m1(3) zm by auto
  obtain h where h: "mmal_format_free f (fmts (env (ctx m2))) = Some h"
    using assms(6) by (simp add: mmal_format_free_def m2(5) m1(6) Let_def)
  let ?m3 = "upd_env (core_free p) (upd_fmts (\<lambda>_. h) m2)"
  have p: "mmal_port_free (Some p) m2 = Some ?m3"
    using assms(4,5) h by (simp add: mmal_port_free_def m2(4) m1(5))
  have c3: "port_array (component_at ?m3 c) = None" "heap_frees (env (ctx ?m3)) = heap_frees (env (ctx m)) @ [b, b, p]"
  proof -
    have "component_at ?m3 = component_at m2"
      by (simp add: component_at_def upd_env_def upd_fmts_def set_env_def core_free_def fun_eq_iff)
    then show "port_array (component_at ?m3 c) = None" using c1(5) m2(3) by simp
    show "heap_frees (env (ctx ?m3)) = heap_frees (env (ctx m)) @ [b, b, p]"
      using m2(2) m1(2) by (simp add: upd_env_def upd_fmts_def set_env_def core_free_def)
  qed
  have "mmal_component_destroy_internal ?ops c m1 = Some (MMAL_SUCCESS, upd_env (\<lambda>e. mmal_core_deinit (core_free c e)) ?m3)"
    using c1 m2(1,3) p c3(1)
    by (simp add: mmal_component_destroy_internal_def mmal_component_action_deregister_def clock_component_ops_def Let_def)
  then have "component_construct ?ops name (Some clock_component_fn) c m
      = Some (MMAL_ENOMEM, None, upd_env (\<lambda>e. mmal_core_deinit (core_free c e)) ?m3)"
    using m1(1) by (simp add: component_construct_def component_create_error_def clock_component_ops_def Let_def)
  then show ?thesis using c3(2) by (simp add: upd_env_def set_env_def core_free_def mmal_core_deinit_def)
qed

subsection \<open>The latency and the scale\<close>

text \<open>The settings of a new component have a target for the latency, but neither an attack rate nor an attack period.\<close>

lemma kmod_clk [simp]: "kmod_at (upd_clk p f m) = kmod_at m"
  by (simp add: kmod_at_def upd_clk_def module_defs fun_eq_iff)

lemma stream_kmod [simp]: "stream_of (upd_kmod c f m) = stream_of m" "stream_at (upd_kmod c f m) = stream_at m"
  by (auto simp: stream_of_def upd_kmod_def stream_at_def fun_eq_iff)

lemma clock_locked_kmod: "clock_locked p f m = Some (r, m') \<Longrightarrow> kmod_at m' = kmod_at m"
  by (auto simp: clock_locked_def clock_call_def split: if_splits Option.bind_splits)

theorem default_settings:
  assumes "clock_default_settings c p m = Some m'"
  shows "latency_target (kmod_at m' c) = DEFAULT_CLOCK_LATENCY \<and> attack_period (kmod_at m' c) = 0
    \<and> frame_duration (kmod_at m' c) = frame_duration (kmod_at m c) \<and> clock_discont (kmod_at m' c)"
  using assms unfolding clock_default_settings_def mmal_port_clock_scale_get_def mmal_port_clock_update_threshold_get_def
    mmal_port_clock_discont_threshold_get_def mmal_port_clock_request_threshold_get_def
  by (auto simp: latency_target_def attack_period_def Let_def split: Option.bind_splits dest!: clock_locked_kmod)

text \<open>With these settings the first adjustment restarts the clock, and the second one divides by zero.\<close>

theorem default_latency_divides_by_zero:
  assumes "clock_get_mt_off_avg c stc m = Some (Some a, Some b, m1)" and "\<not> clock_discont (kmod_at m1 c)"
    and "attack_period (kmod_at m1 c) = 0"
  shows "clock_adjust_clocks ops cbs c stc m = None"
proof -
  let ?x = "(kmod_at m1 c)\<lparr>stream_min_id := cs_id (stream_at m1 a), stream_max_id := cs_id (stream_at m1 b)\<rparr>"
  let ?m1 = "upd_kmod c (\<lambda>x. x\<lparr>stream_min_id := cs_id (stream_at m1 a), stream_max_id := cs_id (stream_at m1 b)\<rparr>) m1"
  have z: "attack_period (set_target s s' (?x\<lparr>stc_at_update := t\<rparr>)) = 0" for s s' t
    using assms(3) by (simp add: attack_period_def set_target_def Let_def)
  have c: "control_step stc u s s' (?x\<lparr>stc_at_update := stc\<rparr>) = None" for u s s'
    by (simp add: control_step_def set_proportional_def z)
  show ?thesis
  proof (cases "Option.bind (nth_port (cp_clock (component_at ?m1 c)) 0) (\<lambda>p. mmal_port_clock_media_time_get p ?m1)")
    case None
    then show ?thesis unfolding clock_adjust_clocks_def assms(1) by (auto simp: Let_def split: Option.bind_splits)
  next
    case (Some r)
    then obtain p t m2 where p: "nth_port (cp_clock (component_at ?m1 c)) 0 = Some p"
        "mmal_port_clock_media_time_get p ?m1 = Some (t, m2)"
      by (cases r) (auto split: Option.bind_splits)
    have k: "kmod_at m2 c = ?x" using p(2) by (auto simp: mmal_port_clock_media_time_get_def dest: clock_locked_kmod)
    show ?thesis unfolding clock_adjust_clocks_def assms(1) using p assms(2) by (simp add: k c)
  qed
qed

text \<open>A clock that is resumed keeps the old scale until the next complete frame: the change is noted, all streams begin again, and no
  clock is touched.\<close>

lemma reset_ports_fold:
  "clk_at (fold reset_port_stream ps m) = clk_at m \<and> kmod_at (fold reset_port_stream ps m) = kmod_at m
    \<and> stream_of (fold reset_port_stream ps m) = stream_of m
    \<and> (\<forall>a. \<not> cs_started (stream_at m a) \<or> (\<exists>p\<in>set ps. stream_of m p = Some a) \<longrightarrow> \<not> cs_started (stream_at (fold reset_port_stream ps m) a))"
proof (induction ps arbitrary: m)
  case (Cons p ps)
  have u: "clk_at (upd_stream s k m) = clk_at m" "stream_of (upd_stream s k m) = stream_of m"
    "stream_at (upd_stream s k m) = (stream_at m)(s := k (stream_at m s))" for s k
    by (auto simp: clk_at_def upd_stream_def module_defs stream_of_def stream_at_def fun_eq_iff)
  have "clk_at (reset_port_stream p m) = clk_at m" "kmod_at (reset_port_stream p m) = kmod_at m"
    "stream_of (reset_port_stream p m) = stream_of m"
    "\<not> cs_started (stream_at m a) \<or> stream_of m p = Some a \<Longrightarrow> \<not> cs_started (stream_at (reset_port_stream p m) a)" for a
    by (auto simp: reset_port_stream_def u clock_reset_stream_def split: option.split)
  then show ?case using Cons [of "reset_port_stream p m"] by auto
qed simp

theorem resume_waits_for_frame:
  assumes "num scale = den scale" and "num scale \<noteq> 0" and "\<not> mmal_rational_equal (cc_scale (kmod_at m c)) scale"
  shows "\<exists>m'. clock_process_scale_event ops c scale m = Some m' \<and> clk_at m' = clk_at m
    \<and> pending_scale (kmod_at m' c) \<and> cc_scale (kmod_at m' c) = scale \<and> clock_discont (kmod_at m' c)
    \<and> (\<forall>p\<in>set (cp_clock (component_at m c)). \<forall>a. stream_of m p = Some a \<longrightarrow> \<not> cs_started (stream_at m' a))"
proof -
  let ?m = "upd_kmod c (\<lambda>x. x\<lparr>cc_scale := scale, pending_scale := True\<rparr>) m"
  show ?thesis using assms reset_ports_fold [of "cp_clock (component_at m c)" ?m]
    by (auto simp: clock_process_scale_event_def clock_reset_clocks_def)
qed

subsection \<open>Examples\<close>

text \<open>The component 2 with the clock port 3, whose stream 5 has got two frames, and its control port 4.\<close>

definition demo_clock_module :: clock_module where
  "demo_clock_module = (zero_clock_module (Some 1))\<lparr>frame_rate := \<lparr>num = 30, den = 1\<rparr>, cc_scale := \<lparr>num = 0, den = 1\<rparr>,
     cc_latency := (DEFAULT_CLOCK_LATENCY, 1000000, 100000)\<rparr>"

definition demo_stream :: clock_stream where
  "demo_stream = (new_stream 0 2)\<lparr>cs_started := True, cs_stc := 10, cs_pts := 60, mt_off_avg := 50,
     avg_filter := (filter_init 2)\<lparr>fl_last := 0, fl_count := 1, fl_sum := 50, fl_h := (replicate 180 0)[0 := 50]\<rparr>,
     std_filter := (filter_init 2)\<lparr>fl_last := 0, fl_count := 1\<rparr>\<rparr>"

definition demo_clock_world :: "clock_module \<Rightarrow> unit kworld" where
  "demo_clock_world x = upd_component 2 (\<lambda>_. zero_component\<lparr>cp_name := ''clock'', cp_control := Some 4, cp_clock := [3],
       pf_action := Some clock_component_fn\<rparr>)
     (upd_port 4 (\<lambda>r. r\<lparr>pt_format := Some 300, format_ptr_copy := Some 300\<rparr>)
     (idle_world \<lparr>port_modules = (\<lambda>_. demo_module), component_modules = (\<lambda>_. new_component_module (Some 1)),
       clock_ports = (\<lambda>_. demo_clock_port), clock_events = (\<lambda>_. demo_clock_event), payload_bytes = (\<lambda>_. []),
       client = \<lparr>clock_modules = (\<lambda>_. x), port_stream = (\<lambda>p. if p = 3 then Some 5 else None),
         clock_streams = (\<lambda>_. demo_stream), clock_user = ()\<rparr>\<rparr>))"

lemma demo_clock_world_simps [simp]:
  "kmod_at (demo_clock_world x) c = x" "cp_clock (component_at (demo_clock_world x) 2) = [3]"
  "pf_action (component_at (demo_clock_world x) 2) = Some clock_component_fn"
  "stream_of (demo_clock_world x) 3 = Some 5" "stream_at (demo_clock_world x) a = demo_stream"
  by (simp_all add: demo_clock_world_def kmod_at_def stream_of_def stream_at_def idle_world_def idle_env_def module_defs)

lemma demo_pending: "\<exists>x. pending_events c (demo_clock_world x) []"
proof -
  obtain l where "mmal_list_create True True = Some l" by (simp add: mmal_list_create_def)
  from new_slots [OF this] obtain x where "event_slots x [0..<MAX_CLOCK_EVENT_SLOTS] []" by blast
  then show ?thesis by (auto simp: pending_events_def)
qed

theorem clock_events_bounded_witness:
  "\<exists>x m'. clock_event_queue 2 3 (clock_event_init MMAL_CLOCK_EVENT_LATENCY) (demo_clock_world x) = Some (MMAL_SUCCESS, m')
    \<and> pending_events 2 m' [\<lparr>cpe_port = 3, cpe_event = clock_event_init MMAL_CLOCK_EVENT_LATENCY\<rparr>]"
proof -
  obtain x where x: "pending_events 2 (demo_clock_world x) []" using demo_pending by blast
  have "pf_action (component_at (demo_clock_world x) 2) \<noteq> None" by simp
  from clock_events_bounded [OF x this, of 3 "clock_event_init MMAL_CLOCK_EVENT_LATENCY"] show ?thesis
    by (auto simp: MAX_CLOCK_EVENT_SLOTS_def)
qed

theorem clock_thread_takes_oldest_witness:
  "\<exists>x m'. clock_do_processing (plain_ops (\<lambda>p b m. m)) quiet_callbacks 2 (demo_clock_world x) = Some (False, m')"
proof -
  obtain x where x: "pending_events 2 (demo_clock_world x) []" using demo_pending by blast
  from clock_thread_takes_oldest [OF x, of "plain_ops (\<lambda>p b m. m)" quiet_callbacks] show ?thesis by auto
qed


theorem failed_creation_frees_twice_witness:
  "\<exists>(m :: unit kworld) m'. component_construct (clock_component_ops quiet_callbacks (plain_ops (\<lambda>p b m. m))) ''clock'' (Some clock_component_fn) 2 m
      = Some (MMAL_ENOMEM, None, m') \<and> heap_frees (env (ctx m')) = [9, 9, 4, 2]"
proof -
  let ?m = "upd_env (\<lambda>e. e\<lparr>heap := (\<lambda>i. if i = 0 then Some 9 else None)\<rparr>)
    (upd_component 2 (\<lambda>_. zero_component\<lparr>cp_name := ''clock'', cp_control := Some 4\<rparr>) (demo_clock_world demo_clock_module))"
  have "heap (env (ctx ?m)) (heap_next (env (ctx ?m))) = Some 9" "heap (env (ctx ?m)) (heap_next (env (ctx ?m)) + 1) = None"
    "component_at ?m 2 = zero_component\<lparr>cp_name := ''clock'', cp_control := Some 4\<rparr>"
    "pt_format (port_at ?m 4) = Some 300" "format_ptr_copy (port_at ?m 4) = Some 300" "fmt_magic (formats (fmts (env (ctx ?m))) 300)"
    by (simp_all add: demo_clock_world_def idle_world_def idle_env_def module_defs)
  from failed_creation_frees_twice [OF this, of quiet_callbacks "plain_ops (\<lambda>p b m. m)"] show ?thesis
    by (auto simp: demo_clock_world_def idle_world_def idle_env_def module_defs)
qed

theorem default_settings_witness:
  "\<exists>m'. clock_default_settings 2 3 (demo_clock_world demo_clock_module) = Some m' \<and> attack_period (kmod_at m' 2) = 0"
proof -
  have "clk_at (demo_clock_world demo_clock_module) p = demo_clock_port" for p
    by (simp add: demo_clock_world_def clk_at_def idle_world_def idle_env_def module_defs)
  then obtain m' where "clock_default_settings 2 3 (demo_clock_world demo_clock_module) = Some m'"
    by (auto simp: clock_default_settings_def mmal_port_clock_scale_get_def mmal_port_clock_update_threshold_get_def
        mmal_port_clock_discont_threshold_get_def mmal_port_clock_request_threshold_get_def clock_locked_def clock_call_def
        demo_clock_port_def mmal_clock_update_threshold_get_def mmal_clock_discont_threshold_get_def
        mmal_clock_request_threshold_get_def)
  with default_settings [OF this] show ?thesis by blast
qed

theorem default_latency_divides_by_zero_witness:
  "clock_adjust_clocks (plain_ops (\<lambda>p b m. m)) quiet_callbacks 2 10
     (demo_clock_world (demo_clock_module\<lparr>cc_latency := (DEFAULT_CLOCK_LATENCY, 0, 0)\<rparr>)) = None"
proof -
  let ?x = "demo_clock_module\<lparr>cc_latency := (DEFAULT_CLOCK_LATENCY, 0, 0)\<rparr>"
  have "\<exists>m1. clock_get_mt_off_avg 2 10 (demo_clock_world ?x) = Some (Some 5, Some 5, m1) \<and> kmod_at m1 2 = ?x"
  proof -
    have f: "cs_stc demo_stream = 10" "mt_off_avg demo_stream = 50" "avg_filter demo_stream
        = \<lparr>fl_first = 0, fl_last = 0, fl_count = 1, fl_length = 2, fl_sum = 50, fl_h = (replicate 180 0)[0 := 50]\<rparr>"
      by (simp_all add: demo_stream_def new_stream_def filter_init_def)
    have "drop_samples 10 0 120000 demo_stream = Some demo_stream" by (simp add: drop_samples_def f s64_def)
    moreover have "fl_count (avg_filter demo_stream) \<noteq> 0" by (simp add: f)
    moreover have "update_means demo_stream = Some demo_stream"
      by (simp add: update_means_def filter_mean_def cdiv_def demo_stream_def new_stream_def filter_init_def)
    moreover have "choose_stream 5 demo_stream ((MAX_TIME, None), (MIN_TIME, None)) = Some ((50, Some 5), (50, Some 5))"
      by (simp add: choose_stream_def avg_bias_def f abs_value_def cdiv_def s64_def MAX_TIME_def MIN_TIME_def)
    moreover have "s64 (6 * frame_duration ?x) = 0" "s64 (latency_target ?x * 2) = 120000"
      by (simp_all add: demo_clock_module_def zero_clock_module_def latency_target_def DEFAULT_CLOCK_LATENCY_def s64_def)
    ultimately show ?thesis unfolding clock_get_mt_off_avg_def by simp
  qed
  then obtain m1 where m1: "clock_get_mt_off_avg 2 10 (demo_clock_world ?x) = Some (Some 5, Some 5, m1)" "kmod_at m1 2 = ?x" by blast
  show ?thesis
    by (rule default_latency_divides_by_zero [OF m1(1)])
      (simp_all add: m1(2) attack_period_def demo_clock_module_def zero_clock_module_def)
qed

theorem resume_waits_for_frame_witness:
  "\<exists>m'. clock_process_scale_event (plain_ops (\<lambda>p b m. m)) 2 \<lparr>num = 1, den = 1\<rparr> (demo_clock_world demo_clock_module) = Some m'
    \<and> pending_scale (kmod_at m' 2) \<and> \<not> cs_started (stream_at m' 5)"
proof -
  have "num \<lparr>num = 1, den = 1\<rparr> = den \<lparr>num = 1, den = 1\<rparr>" "num \<lparr>num = 1, den = 1\<rparr> \<noteq> 0"
    "\<not> mmal_rational_equal (cc_scale (kmod_at (demo_clock_world demo_clock_module) 2)) \<lparr>num = 1, den = 1\<rparr>"
    by (simp_all add: mmal_rational_equal_def demo_clock_module_def)
  from resume_waits_for_frame [OF this] show ?thesis by force
qed

end
