(* ===== verification/Spec2Isabelle.thy ===== *)
theory Spec2Isabelle
  imports ModuleSteps ClockRequests Blockpool EventFlags MsgQueue SchedulerFlow ConnFlow NamedSem GraphMirror ClockComponentFlow
begin

text \<open>
  A verification development for the MMAL framework (Multi-Media Abstraction Layer) and the VCOS
  operating-system layer below it, as vendored by the raspicam library under
  src/raspicam-0.1.6/dependencies/current/interface (all the paths below are relative to it).

  \<^bold>\<open>The program.\<close> A client of MMAL creates components, and moves media data between their
  ports in buffer headers. Buffer headers are reference counted (mmal/core/mmal\_buffer.c); a pool
  (mmal\_pool.c) owns a fixed set of them, and a queue (mmal\_queue.c) is a FIFO of them: releasing
  the last reference of a header puts it back in the queue of its pool. The elementary streams that
  ports carry are described by formats (mmal\_format.c) whose encodings are four-character codes
  with tables of their memory layout (mmal/util/mmal\_util.c). A clock (mmal\_clock.c) keeps the
  media time, derived from the time of the real-time counter with a scale and an offset, follows a
  reference clock with thresholds, and fires the requests of its clients in the order of their
  media times; its requests live in an intrusive list (mmal/util/mmal\_list.c) and its arithmetic
  is rational (mmal/util/mmal\_util\_rational.c). Below, VCOS gives threads the portable
  primitives it does not take from the platform: pools of memory blocks
  (vcos/generic/vcos\_generic\_blockpool.c), event flags (vcos\_generic\_event\_flags.c) and message
  queues with synchronous sends and pools of messages (vcos\_msgqueue.c) and semaphores that are shared
  by name (vcos\_generic\_named\_sem.c), the last two over the block pools. On top, an application connects the ports of
  its components with connections (util/mmal\_connection.c) and runs or packs whole graphs of them (util/mmal\_graph.c).

  \<^bold>\<open>Theories.\<close> In the order of the imports, each with the code it translates:

  \<^item> Prelude: the collections of automation, the generic lemmas on lists, maps and words, and
    \<open>waited\<close>, the outcome of an operation that may block; Types: the status codes of
    mmal/mmal\_types.h and the integer types.
  \<^item> Rational: mmal\_util\_rational.c. \<open>gcd\_loop\<close> with the loop of the binary gcd,
    addition, subtraction, multiplication, division, comparison and Q16 conversion. The lemmas:
    the gcd ends and is the gcd; addition is exact while nothing overflows; round trip of Q16.
  \<^item> MmalList: mmal\_list.c. A heap of elements with their two links; the lemmas refine every
    operation to an operation on the abstract list of addresses, and insertion keeps a sorted
    list sorted.
  \<^item> Buffer and Queue: mmal\_buffer.c and mmal\_queue.c (with the semaphore that counts
    the queue's headers). Reference counts, replication, user data, locking; the queue refines a
    FIFO, and its client interface is a locale.
  \<^item> Pool: mmal\_pool.c. Creation, resizing, destruction, the callbacks; every header of a pool
    is accounted for, and a released header is in its pool's queue again.
  \<^item> Clock and ClockRequests: mmal\_clock.c. Media time, scale, active state, the thresholds, and
    the request pipeline: slots of a pool of pending requests, the list ordered by media time, and
    the wake-up of the thread that fires them.
  \<^item> Blockpool: vcos\_generic\_blockpool.c. Subpools in an explicit memory layout, allocation with
    extension, handles, and freeing; the layout never lets two blocks overlap, and every block is
    accounted for.
  \<^item> EventFlags: vcos\_generic\_event\_flags.c. The flag word and the list of waiting threads,
    as a step relation with the wake-up loop of a set and the time-out of a wait.
  \<^item> MsgQueue: vcos\_msgqueue.c and vcos\_msgqueue.h. Queues of linked messages, their waiters
    (a queue's or a sender's semaphore), synchronous sends, replies, and pools of messages over
    Blockpool.
  \<^item> NamedSem: vcos\_generic\_named\_sem.c. Semaphores by name in blocks of a pool, which the locale
    \<open>block_allocator\<close> describes and Blockpool provides; the list ordered by name refines a table of counting semaphores.
  \<^item> Format: mmal\_format.c. Allocation, extra data, shallow and full copies, comparison.
  \<^item> Encodings: the tables and conversions of mmal\_util.c over the encodings of
    mmal\_encodings.h.
  \<^item> Port and PortFlow: mmal\_port.c and mmal\_events.c. Ports, the count and the semaphore of
    the buffers in transit, sending, pausing, flushing, disabling, events, the callbacks that the core
    installs on connected ports. The locales \<open>port_client\<close> and \<open>component_port\<close> state what a
    port relies on in its client and in its component; under them the port is a FIFO.
  \<^item> Component, Connection and Lifecycle: mmal\_component.c, and the rest of mmal\_port.c: the
    action thread, references, payloads and pools of ports, connections owned by the core, the
    creation of components with all its error paths, their release and destruction. The step
    relation \<open>component_step\<close> interleaves the threads that hold references.
  \<^item> PortModules and CopyModule: components/null\_sink.c, passthrough.c and copy.c, the functions
    behind the pointers of ports; CopyModule interprets the locales on the copy component.
  \<^item> CopyFifo and ModuleSteps: what the clients of these components see: the FIFO of a port and
    the end of its connection, one step of each component, and what happens to buffers when an output
    buffer is too small or no event buffer is free.
  \<^item> Splitter: components/splitter.c. Every input buffer goes to all the output ports that are enabled, with
    the marks \<open>sent_flags\<close> of those that got it; the lemmas follow the loop over the output ports.
  \<^item> ClockPort and ClockSync: mmal\_port\_clock.c. A clock in a port, the events that carry its
    settings in buffers, and the requests, which call back into the world; a setting made on a reference port
    arrives at the clock of the port it is connected to.
  \<^item> Scheduler and SchedulerFlow: components/scheduler.c and \<open>mmal_event_forward\<close>. Buffers wait in the
    requests of the clock port until their time, and flushing gives them back.
  \<^item> ConnUtil and ConnFlow: util/mmal\_connection.c. A connection that a client makes between two ports has a
    pool and a queue; its callbacks move buffers between four places (the pool, the queue and the two ports), no
    buffer is lost while it runs, and disabling it brings all of them back. The components it connects are
    those of a locale, interpreted on the pass-through and copy components.

  \<^item> Graph and GraphComponent: util/mmal\_graph.c. A graph of components and connections with a worker thread that
    moves the buffers, and the component that a graph can be turned into, whose ports stand for ports in the graph. GraphFlow
    puts several connections into one memory (\<open>graph_rep\<close>) and shows what a wake-up of the worker moves, under the locales
    \<open>queueing_module\<close> and \<open>graph_module\<close>, which are interpreted on the copy component with the callbacks of connections and graphs;
    GraphMirror has the correspondence of the ports and the creation of the component.

  \<^item> ClockFilter, ClockComponent and ClockComponentFlow: components/clock.c, the component that computes the media time of up
    to five clock ports from the time stamps of their streams. Moving averages over arrays of 180 samples, the control loop that
    adjusts the offset of the clock, and the queue of events with 16 slots; the filters refine the list of the last samples,
    the slots a bounded queue, and the control loop is stable where nothing overflows (times below \<open>2 ^ 40\<close> microseconds).

  \<^bold>\<open>Conventions.\<close> A struct is a record, and pointers are keys of the map that holds the structs
  of a type (or list positions where the code indexes an array). Unsigned integers are words of
  their width. Signed integers whose overflow the code relies on are taken at their width too;
  where the arithmetic of the C code is undefined on overflow the definitions compute on \<open>int\<close> and
  write the wrap-around of the target out. The target has 32-bit pointers and \<open>size_t\<close>, as on the
  device. \<^const>\<open>None\<close> is the outcome of an operation whose C behaviour is undefined: the
  dereference of a null or dangling pointer, a failed assertion, a list whose links run in a
  circle, a thread that waits for what no other thread does. Failures that the code reports are its status codes. \<open>malloc\<close> is a parameter (an oracle
  that says whether the next allocation succeeds) where the code has an error path for it.

  Locks are not states of the models: every operation takes the lock of its structure for its whole
  body or for the part that a definition is given for, so each such part is one atomic step.
  An operation that blocks on a semaphore is split where it blocks: the part before returns
  \<^const>\<open>Blocked\<close>, and the part after is a step of its own, so the interleavings of the threads are
  the sequences of steps. The reachable states of \<open>ef_step\<close> and \<open>mq_step\<close> are those sequences.

  \<^bold>\<open>Loops and fuel.\<close> Loops over a linked structure are recursive on a fuel that is the number of
  elements, plus one: a walk that visits more elements than there are runs in a circle, and the
  definitions give \<^const>\<open>None\<close>. For the well-formed states of the invariants the lemmas show that a
  result is produced. The loops of ports and components that call back into clients are partial functions,
  since nothing in the code bounds them; for the copy component the lemmas of the interpreted locales
  show that they end. The gcd loop and the release of a chain of references are total functions or
  partial functions whose termination is a property of its own.

  \<^bold>\<open>Functions behind pointers.\<close> The pointers of ports, components, pools and clients are numbers.
  The record \<open>port_ops\<close> of the model resolves them; the modelled components are given as updates of
  such a record, for their own numbers, so they can be combined. Memory for a port or a component comes
  from a sequence of results of the allocator, and so do the creations of locks and semaphores.

  \<^bold>\<open>Not modelled.\<close> The other components of mmal/components, several of which wrap libraries that are not in the repository; the IL wrapper mmal/openmaxil; the client of the video core (mmal/vc),
  which is message passing to a firmware that is not in the repository; names of ports and logging; the
  parts of VCOS that are wrappers of the platform (vcos/pthreads) or only format text (vcos\_cmd,
  vcos\_logcat); the functions of mmal\_util.c that search ports or print parameters; the C++ camera
  programs and the image-processing programs of the repository's root.
\<close>

end
